(* ===== verification/Daxie_Prelude.thy ===== *)
theory Daxie_Prelude
  imports "HOL-Library.Word" "HOL-Library.Sublist" "HOL-Library.Multiset"
begin

text \<open>
  Shared ground of the development: the ASCII part of Go's \<open>strings\<close> package that the sources
  use, the decimal text of a \<open>big.Int\<close> (\<open>String\<close> and \<open>SetString(s, 10)\<close>) with its round trip,
  association lists used as Go maps with upsert and delete, and the collections of lemmas the
  component theories hand to the simplifier.

  Go strings are byte strings; a HOL \<open>char\<close> is one byte.  Case folding and trimming are modelled
  on ASCII, which is what every identifier handled by the modelled code consists of
  (addresses, hashes, network names, decimal amounts, dotted error codes).
\<close>

named_theorems str_simps \<open>evaluation rules for the string operations\<close>
named_theorems dec_simps \<open>decimal text of integers\<close>
named_theorems acct_simps \<open>bookkeeping facts on keyed lists\<close>

section \<open>Characters and strings\<close>

definition is_digit :: "char \<Rightarrow> bool" where
  "is_digit c \<longleftrightarrow> 48 \<le> (of_char c :: nat) \<and> (of_char c :: nat) \<le> 57"

definition is_space :: "char \<Rightarrow> bool" where
  "is_space c \<longleftrightarrow> (of_char c :: nat) \<in> {9, 10, 11, 12, 13, 32}"

definition lower_char :: "char \<Rightarrow> char" where
  "lower_char c = (if 65 \<le> (of_char c :: nat) \<and> (of_char c :: nat) \<le> 90
     then char_of ((of_char c :: nat) + 32) else c)"

definition ToLower :: "string \<Rightarrow> string" where
  "ToLower s = map lower_char s"

definition EqualFold :: "string \<Rightarrow> string \<Rightarrow> bool" where
  "EqualFold s t \<longleftrightarrow> ToLower s = ToLower t"

definition TrimLeftP :: "(char \<Rightarrow> bool) \<Rightarrow> string \<Rightarrow> string" where
  "TrimLeftP P s = dropWhile P s"

definition TrimRightP :: "(char \<Rightarrow> bool) \<Rightarrow> string \<Rightarrow> string" where
  "TrimRightP P s = rev (dropWhile P (rev s))"

definition TrimSpace :: "string \<Rightarrow> string" where
  "TrimSpace s = TrimRightP is_space (TrimLeftP is_space s)"

definition HasPrefix :: "string \<Rightarrow> string \<Rightarrow> bool" where
  "HasPrefix s p \<longleftrightarrow> take (length p) s = p"

fun Contains :: "string \<Rightarrow> string \<Rightarrow> bool" where
  "Contains [] p \<longleftrightarrow> p = []"
| "Contains (c # s) p \<longleftrightarrow> HasPrefix (c # s) p \<or> Contains s p"

text \<open>\<open>strings.IndexByte\<close>: the part before the first occurrence and the part after it.\<close>

fun cut_at :: "char \<Rightarrow> string \<Rightarrow> (string \<times> string) option" where
  "cut_at c [] = None"
| "cut_at c (x # s) = (if x = c then Some ([], s)
     else map_option (\<lambda>(a, b). (x # a, b)) (cut_at c s))"

text \<open>\<open>strings.LastIndexByte\<close> followed by the slice up to it: the text before the last occurrence.\<close>

definition before_last :: "char \<Rightarrow> string \<Rightarrow> string option" where
  "before_last c s = (if c \<in> set s then Some (rev (tl (dropWhile (\<lambda>x. x \<noteq> c) (rev s)))) else None)"

lemmas str_defs [str_simps] = is_digit_def is_space_def lower_char_def ToLower_def
  TrimLeftP_def TrimRightP_def TrimSpace_def HasPrefix_def EqualFold_def before_last_def

lemma cut_at_Some: "cut_at c s = Some (a, b) \<longleftrightarrow> s = a @ c # b \<and> c \<notin> set a"
proof (induction s arbitrary: a b)
  case (Cons x s)
  show ?case
    by (cases a) (auto simp: Cons.IH split: if_splits)
qed simp

lemma cut_at_None: "cut_at c s = None \<longleftrightarrow> c \<notin> set s"
  by (induction s) auto

lemma cut_at_app [simp]: "c \<notin> set a \<Longrightarrow> cut_at c (a @ c # b) = Some (a, b)"
  by (simp add: cut_at_Some)

lemma length_ToLower [simp]: "length (ToLower s) = length s"
  by (simp add: ToLower_def)

lemma EqualFold_refl [simp]: "EqualFold s s"
  by (simp add: EqualFold_def)

lemma EqualFold_sym: "EqualFold s t \<Longrightarrow> EqualFold t s"
  by (simp add: EqualFold_def)

lemma EqualFold_trans: "EqualFold s t \<Longrightarrow> EqualFold t u \<Longrightarrow> EqualFold s u"
  by (simp add: EqualFold_def)

lemma lower_char_idem [simp]: "lower_char (lower_char c) = lower_char c"
  by (simp add: lower_char_def)

lemma ToLower_idem [simp]: "ToLower (ToLower s) = ToLower s"
  by (simp add: ToLower_def)

lemma ToLower_Nil_iff [simp]: "ToLower s = [] \<longleftrightarrow> s = []"
  by (simp add: ToLower_def)

lemma ToLower_Nil [simp]: "ToLower [] = []"
  by (simp add: ToLower_def)

lemma dropWhile_none: "(\<And>x. x \<in> set xs \<Longrightarrow> \<not> P x) \<Longrightarrow> dropWhile P xs = xs"
  by (cases xs) auto

lemma TrimSpace_id: "(\<And>c. c \<in> set s \<Longrightarrow> \<not> is_space c) \<Longrightarrow> TrimSpace s = s"
  using dropWhile_none [of s is_space] dropWhile_none [of "rev s" is_space]
  by (simp add: TrimSpace_def TrimLeftP_def TrimRightP_def)

lemma before_last_shorter: "before_last c s = Some t \<Longrightarrow> length t < length s"
proof -
  assume h: "before_last c s = Some t"
  have "length (dropWhile (\<lambda>x. x \<noteq> c) (rev s)) \<le> length s"
    using length_dropWhile_le [of "\<lambda>x. x \<noteq> c" "rev s"] by simp
  moreover have "s \<noteq> []" using h by (auto simp: before_last_def)
  ultimately show ?thesis using h
    by (cases s) (auto simp: before_last_def less_Suc_eq_le diff_le_mono simp del: rev.simps split: if_splits)
qed

lemma TrimRight_decomp:
  "\<exists>r. s = TrimRightP P s @ r \<and> (\<forall>x \<in> set r. P x)"
proof -
  have "rev s = takeWhile P (rev s) @ dropWhile P (rev s)" by simp
  hence "s = rev (dropWhile P (rev s)) @ rev (takeWhile P (rev s))"
    by (metis rev_append rev_rev_ident)
  thus ?thesis
    by (intro exI [of _ "rev (takeWhile P (rev s))"]) (auto simp: TrimRightP_def dest: set_takeWhileD)
qed

lemma TrimLeft_decomp:
  "\<exists>r. s = r @ TrimLeftP P s \<and> (\<forall>x \<in> set r. P x)"
  by (intro exI [of _ "takeWhile P s"]) (auto simp: TrimLeftP_def dest: set_takeWhileD)

section \<open>Decimal text of integers\<close>

definition digit_char :: "nat \<Rightarrow> char" where
  "digit_char d = char_of (48 + d)"

definition digit_val :: "char \<Rightarrow> nat" where
  "digit_val c = of_char c - 48"

fun nat_dec :: "nat \<Rightarrow> string" where
  "nat_dec n = (if n < 10 then [digit_char n] else nat_dec (n div 10) @ [digit_char (n mod 10)])"

declare nat_dec.simps [simp del]

text \<open>\<open>(*big.Int).String\<close>.\<close>

definition int_dec :: "int \<Rightarrow> string" where
  "int_dec i = (if i < 0 then CHR ''-'' # nat_dec (nat (- i)) else nat_dec (nat i))"

definition digits_val :: "string \<Rightarrow> nat" where
  "digits_val s = foldl (\<lambda>a c. 10 * a + digit_val c) 0 s"

definition all_digits :: "string \<Rightarrow> bool" where
  "all_digits s \<longleftrightarrow> s \<noteq> [] \<and> list_all is_digit s"

text \<open>\<open>(*big.Int).SetString(s, 10)\<close>: an optional sign and at least one decimal digit; \<open>None\<close> is
  Go's \<open>ok = false\<close>.\<close>

definition SetString :: "string \<Rightarrow> int option" where
  "SetString s = (case s of
       [] \<Rightarrow> None
     | c # r \<Rightarrow>
         if c = CHR ''-'' then (if all_digits r then Some (- int (digits_val r)) else None)
         else if c = CHR ''+'' then (if all_digits r then Some (int (digits_val r)) else None)
         else if all_digits s then Some (int (digits_val s)) else None)"

lemma digit_char_digit [dec_simps]: "d < 10 \<Longrightarrow> is_digit (digit_char d)"
  by (simp add: is_digit_def digit_char_def)

lemma digit_val_char [dec_simps]: "d < 10 \<Longrightarrow> digit_val (digit_char d) = d"
  by (simp add: digit_val_def digit_char_def)

lemma digit_char_val [dec_simps]: "is_digit c \<Longrightarrow> digit_char (digit_val c) = c"
  by (simp add: is_digit_def digit_char_def digit_val_def)

lemma digit_val_lt [dec_simps]: "is_digit c \<Longrightarrow> digit_val c < 10"
  by (auto simp: is_digit_def digit_val_def)

lemma digit_char_num [dec_simps]:
  "digit_char 0 = CHR ''0''" "digit_char 1 = CHR ''1''" "digit_char 2 = CHR ''2''"
  "digit_char 3 = CHR ''3''" "digit_char 4 = CHR ''4''" "digit_char 5 = CHR ''5''"
  "digit_char 6 = CHR ''6''" "digit_char 7 = CHR ''7''" "digit_char 8 = CHR ''8''"
  "digit_char 9 = CHR ''9''" "digit_char (Suc 0) = CHR ''1''"
  by (simp_all add: digit_char_def char_of_def bit_0)

lemma digit_not_sign: "is_digit c \<Longrightarrow> c \<noteq> CHR ''-'' \<and> c \<noteq> CHR ''+'' \<and> c \<noteq> CHR ''.'' \<and> \<not> is_space c"
  by (auto simp: is_digit_def is_space_def)

lemma digits_val_Nil [simp]: "digits_val [] = 0"
  by (simp add: digits_val_def)

lemma digits_val_snoc [simp]: "digits_val (s @ [c]) = 10 * digits_val s + digit_val c"
  by (simp add: digits_val_def)

lemma digits_val_append: "digits_val (s @ t) = digits_val s * 10 ^ length t + digits_val t"
proof (induction t rule: rev_induct)
  case (snoc c t)
  have "digits_val (s @ t @ [c]) = 10 * digits_val (s @ t) + digit_val c"
    using digits_val_snoc [of "s @ t" c] by simp
  thus ?case by (simp add: snoc.IH algebra_simps)
qed simp

lemma digits_val_bound: "list_all is_digit s \<Longrightarrow> digits_val s < 10 ^ length s"
proof (induction s rule: rev_induct)
  case (snoc c s)
  hence "digits_val s < 10 ^ length s" "digit_val c < 10"
    by (auto simp: digit_val_lt)
  thus ?case by simp
qed simp

lemma digits_val_zeros: "(\<forall>x \<in> set s. x = CHR ''0'') \<Longrightarrow> digits_val s = 0"
  by (induction s rule: rev_induct) (auto simp: digit_val_def)

lemma nat_dec_digits [dec_simps]: "list_all is_digit (nat_dec n)"
  by (induction n rule: nat_dec.induct) (subst nat_dec.simps, auto simp: dec_simps)

lemma nat_dec_small: "n < 10 \<Longrightarrow> nat_dec n = [digit_char n]"
  by (simp add: nat_dec.simps)

lemma nat_dec_big: "10 \<le> n \<Longrightarrow> nat_dec n = nat_dec (n div 10) @ [digit_char (n mod 10)]"
  by (subst nat_dec.simps) simp

text \<open>Rules that evaluate the decimal text of a numeral.\<close>

lemmas dec_eval = nat_dec_small nat_dec_big digit_char_num int_dec_def SetString_def all_digits_def
  is_digit_def digits_val_def digit_val_def

lemma nat_dec_ne [simp]: "nat_dec n \<noteq> []"
  by (subst nat_dec.simps) auto

lemma digits_val_nat_dec [simp]: "digits_val (nat_dec n) = n"
proof (induction n rule: nat_dec.induct)
  case (1 n)
  show ?case
  proof (cases "n < 10")
    case True
    thus ?thesis by (subst nat_dec.simps) (simp add: digits_val_def dec_simps)
  next
    case False
    thus ?thesis using 1 [OF False] by (subst nat_dec.simps) (simp add: digit_val_char)
  qed
qed

lemma all_digits_nat_dec [simp]: "all_digits (nat_dec n)"
  by (simp add: all_digits_def nat_dec_digits)

lemma nat_dec_inj: "nat_dec m = nat_dec n \<Longrightarrow> m = n"
  by (metis digits_val_nat_dec)

lemma SetString_digits: "all_digits s \<Longrightarrow> SetString s = Some (int (digits_val s))"
  by (cases s) (auto simp: SetString_def all_digits_def dest: digit_not_sign)

lemma SetString_int_dec [simp]: "SetString (int_dec i) = Some i"
proof (cases "i < 0")
  case True
  thus ?thesis by (simp add: int_dec_def SetString_def)
next
  case False
  thus ?thesis by (simp add: int_dec_def SetString_digits)
qed

lemma SetString_Some_cases:
  "SetString s = Some i \<Longrightarrow>
     \<exists>r. all_digits r \<and> (s = r \<and> i = int (digits_val r) \<or> s = CHR ''+'' # r \<and> i = int (digits_val r)
        \<or> s = CHR ''-'' # r \<and> i = - int (digits_val r))"
  by (auto simp: SetString_def split: list.splits if_splits)

lemma int_dec_inj: "int_dec i = int_dec j \<Longrightarrow> i = j"
  by (metis SetString_int_dec option.inject)

lemma int_dec_nonneg: "0 \<le> i \<Longrightarrow> int_dec i = nat_dec (nat i)"
  by (simp add: int_dec_def)

lemma nat_dec_hd: "0 < n \<Longrightarrow> hd (nat_dec n) \<noteq> CHR ''0''"
proof (induction n rule: nat_dec.induct)
  case (1 n)
  show ?case
  proof (cases "n < 10")
    case True
    have "digit_char n = CHR ''0'' \<Longrightarrow> n = 0" using digit_val_char [OF True] by (simp add: digit_val_def)
    thus ?thesis using True 1(2) by (subst nat_dec.simps) auto
  next
    case False
    hence "0 < n div 10" by simp
    with 1(1) [OF False] False show ?thesis by (subst nat_dec.simps) simp
  qed
qed

lemma nat_dec_length_bound: "n < 10 ^ k \<Longrightarrow> 0 < k \<Longrightarrow> length (nat_dec n) \<le> k"
proof (induction k arbitrary: n)
  case (Suc k)
  show ?case
  proof (cases "n < 10")
    case True thus ?thesis by (subst nat_dec.simps) simp
  next
    case False
    hence k: "0 < k" using Suc.prems by (cases k) auto
    have "n div 10 < 10 ^ k" using Suc.prems by (simp add: less_mult_imp_div_less mult.commute)
    from Suc.IH [OF this k] False show ?thesis by (subst nat_dec.simps) simp
  qed
qed simp

section \<open>Keyed lists used as Go maps\<close>

text \<open>\<open>m[k] = v\<close> and \<open>delete(m, k)\<close> on a map kept as a list of pairs with distinct keys.\<close>

fun upsert :: "'k \<Rightarrow> 'v \<Rightarrow> ('k \<times> 'v) list \<Rightarrow> ('k \<times> 'v) list" where
  "upsert k v [] = [(k, v)]"
| "upsert k v ((k', v') # m) = (if k' = k then (k, v) # m else (k', v') # upsert k v m)"

definition del_key :: "'k \<Rightarrow> ('k \<times> 'v) list \<Rightarrow> ('k \<times> 'v) list" where
  "del_key k m = filter (\<lambda>(k', _). k' \<noteq> k) m"

lemma map_of_upsert [simp]: "map_of (upsert k v m) = (map_of m)(k \<mapsto> v)"
  by (induction m rule: upsert.induct) (auto simp: fun_eq_iff)

lemma map_of_del_key [simp]: "map_of (del_key k m) = (map_of m)(k := None)"
  by (induction m) (auto simp: del_key_def fun_eq_iff)

lemma keys_upsert [acct_simps]: "fst ` set (upsert k v m) = insert k (fst ` set m)"
  by (induction m rule: upsert.induct) auto

lemma distinct_upsert [acct_simps]: "distinct (map fst m) \<Longrightarrow> distinct (map fst (upsert k v m))"
  by (induction m rule: upsert.induct) (auto simp: keys_upsert)

lemma upsert_set: "x \<in> set (upsert k v m) \<Longrightarrow> x = (k, v) \<or> x \<in> set m"
  by (induction m rule: upsert.induct) (auto split: if_splits)

lemma upsert_snoc: "k \<notin> fst ` set acc \<Longrightarrow> upsert k v acc = acc @ [(k, v)]"
  by (induction acc rule: upsert.induct) auto

lemma distinct_del_key [acct_simps]: "distinct (map fst m) \<Longrightarrow> distinct (map fst (del_key k m))"
  by (auto simp: del_key_def distinct_map inj_on_def)

section \<open>Lists and sums\<close>

lemma sum_list_filter_le:
  fixes f :: "'a \<Rightarrow> int"
  assumes "\<And>x. x \<in> set xs \<Longrightarrow> 0 \<le> f x"
  shows "sum_list (map f (filter P xs)) \<le> sum_list (map f xs)"
  using assms by (induction xs) (auto intro: add_increasing)

lemma sum_list_filter_zero:
  fixes f :: "'a \<Rightarrow> int"
  assumes "\<And>x. x \<in> set xs \<Longrightarrow> \<not> P x \<Longrightarrow> f x = 0"
  shows "sum_list (map f (filter P xs)) = sum_list (map f xs)"
  using assms by (induction xs) auto

lemma sum_list_nonneg_int:
  fixes f :: "'a \<Rightarrow> int"
  shows "(\<And>x. x \<in> set xs \<Longrightarrow> 0 \<le> f x) \<Longrightarrow> 0 \<le> sum_list (map f xs)"
  by (induction xs) auto

lemma sum_list_map_mono:
  fixes f g :: "'a \<Rightarrow> int"
  shows "(\<And>x. x \<in> set xs \<Longrightarrow> f x \<le> g x) \<Longrightarrow> sum_list (map f xs) \<le> sum_list (map g xs)"
  by (induction xs) (auto intro: add_mono)

lemma sum_list_update_int:
  fixes f :: "'a \<Rightarrow> int"
  assumes "i < length xs"
  shows "sum_list (map f (xs[i := y])) = sum_list (map f xs) - f (xs ! i) + f y"
  using assms by (induction xs arbitrary: i) (auto split: nat.splits)

lemma foldl_max_ge: "(a::int) \<le> foldl max a xs"
proof (induction xs arbitrary: a)
  case (Cons y ys)
  show ?case using Cons.IH [of "max a y"] by simp
qed simp

lemma foldl_max_mem: "x \<in> set xs \<Longrightarrow> (x::int) \<le> foldl max a xs"
proof (induction xs arbitrary: a)
  case (Cons y ys)
  thus ?case using foldl_max_ge [of "max a y" ys] by auto
qed simp

lemma foldl_max_in: "foldl max a xs \<in> insert (a::int) (set xs)"
proof (induction xs arbitrary: a)
  case (Cons y ys)
  from Cons.IH [of "max a y"] show ?case by (auto simp: max_def split: if_splits)
qed simp

lemma foldl_max_least: "(a::int) \<le> b \<Longrightarrow> (\<And>x. x \<in> set xs \<Longrightarrow> x \<le> b) \<Longrightarrow> foldl max a xs \<le> b"
  by (induction xs arbitrary: a) auto

end
