(* ===== verification/Domain_Errors.thy ===== *)
theory Domain_Errors
  imports Daxie_Prelude
begin

text \<open>
  The error taxonomy of \<open>internal/domain\<close>: the error value every layer returns, the registry that
  maps a dotted error code to a process exit code (\<open>ExitOf\<close>) and the registry of default retry
  hints (\<open>retryableFor\<close>).  Both registries look a code up by its longest dotted prefix; the locale
  \<open>prefix_registry\<close> states that contract once and both functions are interpreted in it.
\<close>

section \<open>Exit codes\<close>

type_synonym ExitCode = int

abbreviation (input) "ExitOK \<equiv> (0 :: ExitCode)"
abbreviation (input) "ExitInternal \<equiv> (1 :: ExitCode)"
abbreviation (input) "ExitUsage \<equiv> (2 :: ExitCode)"
abbreviation (input) "ExitPolicyDenied \<equiv> (3 :: ExitCode)"
abbreviation (input) "ExitAuth \<equiv> (4 :: ExitCode)"
abbreviation (input) "ExitInsufficientFunds \<equiv> (5 :: ExitCode)"
abbreviation (input) "ExitNetwork \<equiv> (6 :: ExitCode)"
abbreviation (input) "ExitReverted \<equiv> (7 :: ExitCode)"
abbreviation (input) "ExitTimeoutPending \<equiv> (8 :: ExitCode)"
abbreviation (input) "ExitTxConflict \<equiv> (9 :: ExitCode)"
abbreviation (input) "ExitNotFound \<equiv> (10 :: ExitCode)"
abbreviation (input) "ExitState \<equiv> (11 :: ExitCode)"
abbreviation (input) "ExitIntegrity \<equiv> (12 :: ExitCode)"

text \<open>\<open>itoa\<close> works on the 64-bit \<open>int\<close> of the target: the magnitude is computed in \<open>uint\<close>, so that
  negating the least \<open>int\<close> does not overflow.  The digit buffer is written from the right.\<close>

fun itoa_loop :: "nat \<Rightarrow> string \<Rightarrow> string" where
  "itoa_loop u buf = (if u = 0 then buf else itoa_loop (u div 10) (digit_char (u mod 10) # buf))"

declare itoa_loop.simps [simp del]

definition itoa :: "64 word \<Rightarrow> string" where
  "itoa n = (if n = 0 then ''0'' else
     let neg = sint n < 0;
         u = (if neg then (- (n + 1)) + 1 else n);
         buf = itoa_loop (unat u) []
     in if neg then CHR ''-'' # buf else buf)"

definition ExitCode_String :: "64 word \<Rightarrow> string" where
  "ExitCode_String c =
     (if c = 0 then ''OK'' else if c = 1 then ''INTERNAL'' else if c = 2 then ''USAGE''
      else if c = 3 then ''POLICY_DENIED'' else if c = 4 then ''AUTH''
      else if c = 5 then ''INSUFFICIENT_FUNDS'' else if c = 6 then ''NETWORK''
      else if c = 7 then ''REVERTED'' else if c = 8 then ''TIMEOUT_PENDING''
      else if c = 9 then ''TX_CONFLICT'' else if c = 10 then ''NOT_FOUND''
      else if c = 11 then ''STATE'' else if c = 12 then ''INTEGRITY''
      else ''EXIT('' @ itoa c @ '')'')"

section \<open>The registries\<close>

definition codeExit :: "(string \<times> ExitCode) list" where
  "codeExit = [
     (''internal'', ExitInternal),
     (''usage'', ExitUsage),
     (''ref.ambiguous'', ExitUsage),
     (''config.invalid'', ExitUsage),
     (''config.schema_unsupported'', ExitUsage),
     (''secret.unresolved'', ExitUsage),
     (''sign.bad_message'', ExitUsage),
     (''sign.bad_typed'', ExitUsage),
     (''verify.bad_signature'', ExitUsage),
     (''verify.mismatch'', ExitUsage),
     (''policy.denied'', ExitPolicyDenied),
     (''keystore.bad_passphrase'', ExitAuth),
     (''keystore.confirm_required'', ExitAuth),
     (''keystore.passphrase_stale'', ExitAuth),
     (''keystore.passphrase_required'', ExitAuth),
     (''keystore.passphrase_file_error'', ExitAuth),
     (''keystore.prompt_failed'', ExitAuth),
     (''funds.insufficient'', ExitInsufficientFunds),
     (''rpc.unreachable'', ExitNetwork),
     (''rpc.unsupported'', ExitUsage),
     (''tx.reverted'', ExitReverted),
     (''tx.wait_timeout'', ExitTimeoutPending),
     (''receive.timeout'', ExitTimeoutPending),
     (''policy.seal_violation'', ExitTimeoutPending),
     (''policy.rollback'', ExitTimeoutPending),
     (''policy.admin_auth'', ExitTimeoutPending),
     (''policy.state_error'', ExitTimeoutPending),
     (''tx.replaced'', ExitTxConflict),
     (''tx.replacement_underpriced'', ExitTxConflict),
     (''tx.already_mined'', ExitTxConflict),
     (''tx.nonce_gap'', ExitTxConflict),
     (''ref.not_found'', ExitNotFound),
     (''config.read_only'', ExitNotFound),
     (''config.not_found'', ExitNotFound),
     (''keystore.read_only'', ExitNotFound),
     (''state.lock_timeout'', ExitState),
     (''state.corrupt'', ExitState),
     (''keystore.derivation_watermark'', ExitState),
     (''rpc.chain_id_mismatch'', ExitIntegrity),
     (''tx.integrity.reservation_missing'', ExitIntegrity),
     (''keystore.perms_insecure'', ExitIntegrity)]"

text \<open>The walk from the longest dotted prefix to the shortest: ``a.b.c'', ``a.b'', ``a''.\<close>

function ExitOf_loop :: "string \<Rightarrow> ExitCode" where
  "ExitOf_loop code = (case before_last CHR ''.'' code of
       None \<Rightarrow> ExitInternal
     | Some code' \<Rightarrow> (case map_of codeExit code' of
           Some ex \<Rightarrow> ex
         | None \<Rightarrow> ExitOf_loop code'))"
  by pat_completeness auto
termination by (relation "measure length") (auto dest: before_last_shorter)

definition ExitOf :: "string \<Rightarrow> ExitCode" where
  "ExitOf code = (if code = '''' then ExitInternal
     else case map_of codeExit code of Some ex \<Rightarrow> ex | None \<Rightarrow> ExitOf_loop code)"

definition retryableDefaults :: "(string \<times> bool) list" where
  "retryableDefaults = [
     (''rpc.unreachable'', True),
     (''tx.wait_timeout'', True),
     (''receive.timeout'', True),
     (''tx.replaced'', True),
     (''tx.replacement_underpriced'', True),
     (''tx.nonce_gap'', True),
     (''state.lock_timeout'', True),
     (''policy.denied.day_limit'', True),
     (''policy.denied.gas_cap'', True)]"

function retryableFor_loop :: "string \<Rightarrow> bool" where
  "retryableFor_loop code = (case before_last CHR ''.'' code of
       None \<Rightarrow> False
     | Some code' \<Rightarrow> (case map_of retryableDefaults code' of
           Some r \<Rightarrow> r
         | None \<Rightarrow> retryableFor_loop code'))"
  by pat_completeness auto
termination by (relation "measure length") (auto dest: before_last_shorter)

declare ExitOf_loop.simps [simp del] retryableFor_loop.simps [simp del]

definition retryableFor :: "string \<Rightarrow> bool" where
  "retryableFor code = (if code = '''' then False
     else case map_of retryableDefaults code of Some r \<Rightarrow> r | None \<Rightarrow> retryableFor_loop code)"

section \<open>The error value\<close>

text \<open>\<open>Data\<close> is a JSON object; the values the modelled sources put there are strings, integers, RFC 3339
  timestamps (\<open>JTime\<close>, an instant) and lists of violation objects.  The human message and the wrapped Go error are not
  part of the model: no modelled code branches on them.\<close>

datatype jval = JStr string | JInt int | JTime int | JList "jval list" | JObj "(string \<times> jval) list"

record Error =
  Code :: string
  Exit :: ExitCode
  Retryable :: bool
  Data :: "(string \<times> jval) list"

type_synonym 'a result = "Error + 'a"

definition New :: "string \<Rightarrow> Error" where
  "New code = \<lparr>Code = code, Exit = ExitOf code, Retryable = retryableFor code, Data = []\<rparr>"

definition WithData :: "Error \<Rightarrow> (string \<times> jval) list \<Rightarrow> Error" where
  "WithData e d = e\<lparr>Data := foldl (\<lambda>m (k, v). upsert k v m) (Data e) d\<rparr>"

lemma New_sel [simp]:
  "Code (New c) = c" "Exit (New c) = ExitOf c" "Retryable (New c) = retryableFor c" "Data (New c) = []"
  by (simp_all add: New_def)

lemma WithData_sel [simp]:
  "Code (WithData e d) = Code e" "Exit (WithData e d) = Exit e" "Retryable (WithData e d) = Retryable e"
  by (simp_all add: WithData_def)

section \<open>Longest dotted prefix\<close>

definition dotted_prefix :: "string \<Rightarrow> string \<Rightarrow> bool" where
  "dotted_prefix p c \<longleftrightarrow> p = c \<or> (\<exists>r. c = p @ CHR ''.'' # r)"

lemma before_last_Some:
  "before_last c s = Some p \<longleftrightarrow> (\<exists>r. s = p @ c # r \<and> c \<notin> set r)"
proof
  assume h: "before_last c s = Some p"
  hence "c \<in> set s" and p: "p = rev (tl (dropWhile (\<lambda>x. x \<noteq> c) (rev s)))"
    by (auto simp: before_last_def split: if_splits)
  then obtain a r where s: "s = a @ c # r" "c \<notin> set r" by (meson split_list_last)
  have "dropWhile (\<lambda>x. x \<noteq> c) (rev s) = c # rev a"
    using s by (auto simp: dropWhile_append)
  with p s show "\<exists>r. s = p @ c # r \<and> c \<notin> set r" by auto
next
  assume "\<exists>r. s = p @ c # r \<and> c \<notin> set r"
  thus "before_last c s = Some p" by (auto simp: before_last_def dropWhile_append)
qed

lemma before_last_None: "before_last c s = None \<longleftrightarrow> c \<notin> set s"
  by (auto simp: before_last_def)

lemma dotted_prefix_step:
  assumes "before_last CHR ''.'' c = Some p"
  shows "dotted_prefix q c \<longleftrightarrow> q = c \<or> dotted_prefix q p"
proof -
  obtain r where c: "c = p @ CHR ''.'' # r" and r: "CHR ''.'' \<notin> set r"
    using assms by (auto simp: before_last_Some)
  have "dotted_prefix q p" if "c = q @ CHR ''.'' # t" for t
  proof -
    from that c have e: "p @ CHR ''.'' # r = q @ CHR ''.'' # t" by simp
    then obtain us where "p = q @ us \<and> us @ CHR ''.'' # r = CHR ''.'' # t
        \<or> p @ us = q \<and> CHR ''.'' # r = us @ CHR ''.'' # t"
      by (auto simp: append_eq_append_conv2)
    thus ?thesis using r by (cases us) (auto simp: dotted_prefix_def)
  qed
  thus ?thesis using c by (auto simp: dotted_prefix_def)
qed

lemma dotted_prefix_nodot: "CHR ''.'' \<notin> set c \<Longrightarrow> dotted_prefix q c \<longleftrightarrow> q = c"
  by (auto simp: dotted_prefix_def)

lemma dotted_prefix_length: "dotted_prefix q c \<Longrightarrow> q = c \<or> length q < length c"
  by (auto simp: dotted_prefix_def)

text \<open>The contract of a registry of dotted prefixes: a hit is returned, a miss falls to the parent,
  and the root gives the default.\<close>

locale prefix_registry =
  fixes tbl :: "string \<Rightarrow> 'a option" and dflt :: 'a and look :: "string \<Rightarrow> 'a"
  assumes hit: "tbl c = Some v \<Longrightarrow> look c = v"
    and parent: "tbl c = None \<Longrightarrow> before_last CHR ''.'' c = Some p \<Longrightarrow> look c = look p"
    and root: "tbl c = None \<Longrightarrow> before_last CHR ''.'' c = None \<Longrightarrow> look c = dflt"
begin

lemma unmatched: "(\<And>q. dotted_prefix q c \<Longrightarrow> tbl q = None) \<Longrightarrow> look c = dflt"
proof (induction "length c" arbitrary: c rule: less_induct)
  case less
  have n: "tbl c = None" using less.prems by (simp add: dotted_prefix_def)
  show ?case
  proof (cases "before_last CHR ''.'' c")
    case None thus ?thesis using n root by simp
  next
    case (Some p)
    have "look p = dflt"
      using less.hyps [OF before_last_shorter [OF Some]] less.prems dotted_prefix_step [OF Some] by blast
    thus ?thesis using parent [OF n Some] by simp
  qed
qed

lemma most_specific:
  assumes "dotted_prefix p c" "tbl p = Some e"
    and "\<And>q. dotted_prefix q c \<Longrightarrow> tbl q \<noteq> None \<Longrightarrow> length q \<le> length p"
  shows "look c = e"
  using assms
proof (induction "length c" arbitrary: c rule: less_induct)
  case less
  show ?case
  proof (cases "p = c")
    case True thus ?thesis using less.prems hit by simp
  next
    case False
    hence lt: "length p < length c" using dotted_prefix_length less.prems(1) by blast
    have n: "tbl c = None"
      using less.prems(3) [of c] lt by (cases "tbl c") (auto simp: dotted_prefix_def)
    show ?thesis
    proof (cases "before_last CHR ''.'' c")
      case None
      thus ?thesis using less.prems(1) False by (simp add: before_last_None dotted_prefix_nodot)
    next
      case (Some b)
      note st = dotted_prefix_step [OF Some]
      have "look b = e"
        using less.hyps [OF before_last_shorter [OF Some], of] less.prems False st by blast
      thus ?thesis using parent [OF n Some] by simp
    qed
  qed
qed

end

lemma codeExit_Nil [simp]: "map_of codeExit [] = None"
  by (simp add: codeExit_def)

lemma retryableDefaults_Nil [simp]: "map_of retryableDefaults [] = None"
  by (simp add: retryableDefaults_def)

lemma ExitOf_loop_Nil [simp]: "ExitOf_loop [] = ExitInternal"
  by (simp add: ExitOf_loop.simps before_last_def)

lemma retryableFor_loop_Nil [simp]: "retryableFor_loop [] = False"
  by (simp add: retryableFor_loop.simps before_last_def)

interpretation exit_reg: prefix_registry "map_of codeExit" ExitInternal ExitOf
proof unfold_locales
  fix c v p
  show "map_of codeExit c = Some v \<Longrightarrow> ExitOf c = v"
    by (auto simp: ExitOf_def)
  show "map_of codeExit c = None \<Longrightarrow> before_last CHR ''.'' c = Some p \<Longrightarrow> ExitOf c = ExitOf p"
    by (auto simp: ExitOf_def ExitOf_loop.simps [of c] before_last_def split: option.splits)
  show "map_of codeExit c = None \<Longrightarrow> before_last CHR ''.'' c = None \<Longrightarrow> ExitOf c = ExitInternal"
    by (simp add: ExitOf_def ExitOf_loop.simps [of c])
qed

interpretation retry_reg: prefix_registry "map_of retryableDefaults" False retryableFor
proof unfold_locales
  fix c v p
  show "map_of retryableDefaults c = Some v \<Longrightarrow> retryableFor c = v"
    by (auto simp: retryableFor_def)
  show "map_of retryableDefaults c = None \<Longrightarrow> before_last CHR ''.'' c = Some p \<Longrightarrow> retryableFor c = retryableFor p"
    by (auto simp: retryableFor_def retryableFor_loop.simps [of c] before_last_def split: option.splits)
  show "map_of retryableDefaults c = None \<Longrightarrow> before_last CHR ''.'' c = None \<Longrightarrow> retryableFor c = False"
    by (simp add: retryableFor_def retryableFor_loop.simps [of c])
qed

section \<open>Facts on the registry\<close>

lemma codeExit_range: "map_of codeExit c = Some e \<Longrightarrow> 1 \<le> e \<and> e \<le> 12"
  by (drule map_of_SomeD) (auto simp: codeExit_def)

lemma ExitOf_loop_range: "1 \<le> ExitOf_loop c \<and> ExitOf_loop c \<le> 12"
proof (induction c rule: ExitOf_loop.induct)
  case (1 c)
  show ?case
    using 1 by (subst (1 2) ExitOf_loop.simps) (auto split: option.splits dest: codeExit_range)
qed

lemma ExitOf_range: "1 \<le> ExitOf c \<and> ExitOf c \<le> 12"
  using ExitOf_loop_range [of c] by (auto simp: ExitOf_def split: option.splits dest: codeExit_range)

lemma ExitOf_denied: "ExitOf (''policy.denied.'' @ r) = ExitPolicyDenied" if "CHR ''.'' \<notin> set r"
proof (rule exit_reg.most_specific)
  let ?c = "''policy.denied.'' @ r"
  have b: "before_last CHR ''.'' ?c = Some ''policy.denied''"
    using that by (auto simp: before_last_Some)
  show "dotted_prefix ''policy.denied'' ?c" by (simp add: dotted_prefix_def)
  show "map_of codeExit ''policy.denied'' = Some 3" by (simp add: codeExit_def)
  fix q assume q: "dotted_prefix q ?c" "map_of codeExit q \<noteq> None"
  have "map_of codeExit ?c = None" by (simp add: codeExit_def)
  hence "q \<noteq> ?c" using q(2) by auto
  hence "dotted_prefix q ''policy.denied''" using q(1) dotted_prefix_step [OF b] by blast
  thus "length q \<le> length ''policy.denied''" using dotted_prefix_length by fastforce
qed

lemma itoa_loop_nat_dec: "0 < u \<Longrightarrow> itoa_loop u buf = nat_dec u @ buf"
proof (induction u buf rule: itoa_loop.induct)
  case (1 u buf)
  show ?case
  proof (cases "u < 10")
    case True
    thus ?thesis using 1(2)
      by (simp add: itoa_loop.simps [of u] nat_dec.simps [of u] itoa_loop.simps [of 0])
  next
    case False
    hence "0 < u div 10" "u \<noteq> 0" by auto
    with 1(1) False show ?thesis
      by (simp add: itoa_loop.simps [of u] nat_dec.simps [of u])
  qed
qed

lemma sint64_bounds: "- (2 ^ 63) \<le> sint (n :: 64 word)" "sint n < 2 ^ 63"
  using sint_greater_eq [of n] sint_less [of n] by simp_all

lemma unat_nonneg_sint: "0 \<le> sint (n :: 64 word) \<Longrightarrow> unat n = nat (sint n)"
  using uint_sint [of n] sint64_bounds [of n] by (simp add: take_bit_eq_mod unat_eq_nat_uint)

lemma unat_neg_sint: "sint (n :: 64 word) < 0 \<Longrightarrow> unat (- n) = nat (- sint n)"
proof -
  assume n: "sint n < 0"
  have "uint (- n) = (- sint n) mod 2 ^ 64"
    by (simp add: uint_word_ariths(4) uint_sint [of n] take_bit_eq_mod mod_minus_eq)
  also have "\<dots> = - sint n" using n sint64_bounds [of n] by simp
  finally show ?thesis by (simp add: unat_eq_nat_uint)
qed

lemma itoa_int_dec: "itoa n = int_dec (sint n)"
proof (cases "n = 0")
  case True thus ?thesis by (simp add: itoa_def int_dec_def nat_dec.simps dec_simps)
next
  case False
  have u: "- (n + 1) + 1 = - n" by simp
  show ?thesis
  proof (cases "sint n < 0")
    case True
    thus ?thesis using False
      by (simp add: itoa_def Let_def unat_neg_sint itoa_loop_nat_dec int_dec_def)
  next
    case nn: False
    hence "0 < sint n" using False by (metis antisym_conv3 signed_eq_0_iff)
    thus ?thesis using False
      by (simp add: itoa_def Let_def unat_nonneg_sint itoa_loop_nat_dec int_dec_def)
  qed
qed

section \<open>Properties\<close>

text \<open>The exit code of a canonical error code is the one registered for its most specific
  (longest) dotted prefix; a code none of whose dotted prefixes is registered exits as INTERNAL.\<close>

lemma ExitOf_most_specific:
  "(\<forall>p e. dotted_prefix p code \<and> map_of codeExit p = Some e \<and>
       (\<forall>q. dotted_prefix q code \<and> map_of codeExit q \<noteq> None \<longrightarrow> length q \<le> length p)
       \<longrightarrow> ExitOf code = e)
   \<and> ((\<forall>q. dotted_prefix q code \<longrightarrow> map_of codeExit q = None) \<longrightarrow> ExitOf code = ExitInternal)"
  using exit_reg.most_specific exit_reg.unmatched by blast


text \<open>No error leaves the process with status 0: every code maps into 1..12, and the error value
  built by \<open>New\<close> carries that projection.\<close>

lemma New_exit_in_band: "Exit (New code) = ExitOf code \<and> 1 \<le> Exit (New code) \<and> Exit (New code) \<le> 12"
  using ExitOf_range [of code] by simp

text \<open>\<open>itoa\<close> prints every 64-bit \<open>int\<close>, the least one included, as its decimal text.\<close>

lemma itoa_correct: "SetString (itoa n) = Some (sint n)"
  by (simp add: itoa_int_dec)

end
