(* ===== verification/Ethunit.thy ===== *)
theory Ethunit
  imports Domain_Errors
begin

text \<open>
  \<open>internal/ethunit\<close>: exact, float-free conversion between decimal amounts and integers of base
  units, and the \<open>convert\<close> use case of \<open>internal/service/convert.go\<close> on top of it.  Amounts are
  unbounded integers as in \<open>math/big\<close>; a unit scale is Go's \<open>uint8\<close>, here a natural number.
\<close>

section \<open>Units\<close>

datatype Unit = Wei | Gwei | Eth | BadUnit int

datatype ethunit_error = EmptyAmount | NegativeAmount | MalformedAmount | MultiplePoints | NonDigit
  | TooPrecise | InvalidUnit | UnknownUnit

fun decimals :: "Unit \<Rightarrow> nat option" where
  "decimals Wei = Some 0"
| "decimals Gwei = Some 9"
| "decimals Eth = Some 18"
| "decimals (BadUnit _) = None"

fun Unit_String :: "Unit \<Rightarrow> string" where
  "Unit_String Wei = ''wei''"
| "Unit_String Gwei = ''gwei''"
| "Unit_String Eth = ''eth''"
| "Unit_String (BadUnit n) = ''unit('' @ int_dec n @ '')''"

definition ParseUnit :: "string \<Rightarrow> ethunit_error + Unit" where
  "ParseUnit s = (let t = ToLower (TrimSpace s) in
     if t = ''wei'' then Inr Wei
     else if t = ''gwei'' then Inr Gwei
     else if t = ''eth'' \<or> t = ''ether'' then Inr Eth
     else Inl UnknownUnit)"

definition tenPow :: "nat \<Rightarrow> int" where
  "tenPow n = 10 ^ n"

definition WeiPer :: "Unit \<Rightarrow> int" where
  "WeiPer u = (case decimals u of None \<Rightarrow> 1 | Some d \<Rightarrow> tenPow d)"

section \<open>Splitting an amount from its unit\<close>

text \<open>The scan of \<open>SplitAmountUnit\<close>: \<open>first\<close> is Go's \<open>i == 0\<close>.\<close>

fun num_prefix :: "bool \<Rightarrow> string \<Rightarrow> string \<times> string" where
  "num_prefix first [] = ([], [])"
| "num_prefix first (c # s) =
     (if is_digit c \<or> c = CHR ''.'' \<or> ((c = CHR ''+'' \<or> c = CHR ''-'') \<and> first)
      then (let (a, b) = num_prefix False s in (c # a, b))
      else ([], c # s))"

definition SplitAmountUnit :: "string \<Rightarrow> string \<times> string" where
  "SplitAmountUnit s = (let (v, u) = num_prefix True (TrimSpace s)
     in (TrimSpace v, ToLower (TrimSpace u)))"

section \<open>Parsing\<close>

definition isDigits :: "string \<Rightarrow> bool" where
  "isDigits s \<longleftrightarrow> s \<noteq> [] \<and> list_all is_digit s"

text \<open>The loop \<open>for len(padded) < scaleN\<close>.\<close>

definition pad_right :: "nat \<Rightarrow> string \<Rightarrow> string" where
  "pad_right n s = s @ replicate (n - length s) (CHR ''0'')"

definition is_zero_char :: "char \<Rightarrow> bool" where
  "is_zero_char c \<longleftrightarrow> c = CHR ''0''"

definition scale_digits :: "string \<Rightarrow> string \<Rightarrow> nat \<Rightarrow> ethunit_error + int" where
  "scale_digits intPart fracPart scale =
     (if length fracPart > scale \<and>
         TrimRightP is_zero_char (TrimLeftP is_zero_char (drop scale fracPart)) \<noteq> []
      then Inl TooPrecise
      else let fracPart' = (if length fracPart > scale then take scale fracPart else fracPart);
               combined = TrimLeftP is_zero_char (intPart @ pad_right scale fracPart');
               combined' = (if combined = [] then ''0'' else combined)
           in case SetString combined' of None \<Rightarrow> Inl MalformedAmount | Some out \<Rightarrow> Inr out)"

definition parse_unsigned :: "string \<Rightarrow> nat \<Rightarrow> ethunit_error + int" where
  "parse_unsigned s scale =
     (if s = [] then Inl MalformedAmount
      else let (intPart, fracPart, hasDot) =
             (case cut_at CHR ''.'' s of None \<Rightarrow> (s, [], False) | Some (a, b) \<Rightarrow> (a, b, True))
      in if hasDot \<and> CHR ''.'' \<in> set fracPart then Inl MultiplePoints
         else if intPart = [] \<and> fracPart = [] then Inl MalformedAmount
         else let intPart' = (if intPart = [] then ''0'' else intPart) in
           if \<not> isDigits intPart' \<or> (hasDot \<and> fracPart \<noteq> [] \<and> \<not> isDigits fracPart)
           then Inl NonDigit
           else scale_digits intPart' fracPart scale)"

definition parseDecimalToBase :: "string \<Rightarrow> nat \<Rightarrow> ethunit_error + int" where
  "parseDecimalToBase decimal scale = (let s = TrimSpace decimal in
     case s of
       [] \<Rightarrow> Inl EmptyAmount
     | c # r \<Rightarrow> if c = CHR ''+'' then parse_unsigned r scale
                else if c = CHR ''-'' then Inl NegativeAmount
                else parse_unsigned s scale)"

definition ParseAmount :: "string \<Rightarrow> Unit \<Rightarrow> ethunit_error + int" where
  "ParseAmount decimal u = (case decimals u of None \<Rightarrow> Inl InvalidUnit
     | Some d \<Rightarrow> parseDecimalToBase decimal d)"

definition ParseTokenAmount :: "string \<Rightarrow> nat \<Rightarrow> ethunit_error + int" where
  "ParseTokenAmount decimal d = parseDecimalToBase decimal d"

section \<open>Formatting\<close>

definition pad_left :: "nat \<Rightarrow> string \<Rightarrow> string" where
  "pad_left n s = replicate (n - length s) (CHR ''0'') @ s"

text \<open>\<open>None\<close> is a nil \<open>*big.Int\<close>.\<close>

definition formatBase :: "int option \<Rightarrow> nat \<Rightarrow> string" where
  "formatBase base scale = (case base of None \<Rightarrow> ''0'' | Some b \<Rightarrow>
     let neg = b < 0; a = abs b; sgn = (if neg then ''-'' else '''') in
     if scale = 0 then sgn @ int_dec a
     else let q = a div tenPow scale; r = a mod tenPow scale; intStr = int_dec q in
       if r = 0 then sgn @ intStr
       else sgn @ intStr @ CHR ''.'' # TrimRightP is_zero_char (pad_left scale (int_dec r)))"

definition FormatAmount :: "int \<Rightarrow> Unit \<Rightarrow> string" where
  "FormatAmount wei u = (case decimals u of None \<Rightarrow> int_dec wei | Some d \<Rightarrow> formatBase (Some wei) d)"

definition FormatTokenAmount :: "int option \<Rightarrow> nat \<Rightarrow> string" where
  "FormatTokenAmount base d = formatBase base d"

section \<open>The convert use case\<close>

record ConvertRequest =
  cq_Amount :: string
  cq_From :: string
  cq_To :: string

record ConvertResult =
  cr_Input :: string
  cr_Wei :: string
  cr_From :: string
  cr_To :: string
  cr_Value :: string

definition Convert :: "ConvertRequest \<Rightarrow> ConvertResult result" where
  "Convert req =
    (let (v, suffix) = SplitAmountUnit (TrimSpace (cq_Amount req));
         f = TrimSpace (cq_From req) in
     if suffix \<noteq> [] \<and> f \<noteq> [] \<and> \<not> EqualFold f suffix then Inl (New ''usage.convert.unit_conflict'')
     else let fromName = (if suffix = [] then f else suffix) in
     if fromName = [] then Inl (New ''usage.convert.missing_unit'')
     else if TrimSpace (cq_To req) = [] then Inl (New ''usage.convert.missing_to'')
     else case ParseUnit fromName of Inl _ \<Rightarrow> Inl (New ''usage.convert.bad_unit'')
     | Inr from \<Rightarrow> (case ParseUnit (TrimSpace (cq_To req)) of Inl _ \<Rightarrow> Inl (New ''usage.convert.bad_unit'')
     | Inr to \<Rightarrow> (case ParseAmount v from of Inl _ \<Rightarrow> Inl (New ''usage.convert.bad_amount'')
     | Inr wei \<Rightarrow> Inr \<lparr>cr_Input = v @ '' '' @ Unit_String from, cr_Wei = int_dec wei,
          cr_From = Unit_String from, cr_To = Unit_String to, cr_Value = FormatAmount wei to\<rparr>)))"

section \<open>Lemmas\<close>

lemma digits_not_special: "list_all is_digit s \<Longrightarrow> c \<in> set s \<Longrightarrow> c \<noteq> CHR ''.'' \<and> c \<noteq> CHR ''-'' \<and> c \<noteq> CHR ''+'' \<and> \<not> is_space c"
  by (auto simp: list_all_iff dest: digit_not_sign)

lemma digits_val_TrimLeft: "digits_val (TrimLeftP is_zero_char s) = digits_val s"
proof -
  obtain r where r: "s = r @ TrimLeftP is_zero_char s" "\<forall>x \<in> set r. is_zero_char x"
    using TrimLeft_decomp by blast
  hence "digits_val r = 0" by (simp add: digits_val_zeros is_zero_char_def)
  thus ?thesis using r(1) digits_val_append [of r "TrimLeftP is_zero_char s"] by simp
qed

lemma digits_TrimLeft: "list_all is_digit s \<Longrightarrow> list_all is_digit (TrimLeftP P s)"
  by (auto simp: TrimLeftP_def list_all_iff dest: set_dropWhileD)

lemma SetString_combined:
  assumes "list_all is_digit s"
  shows "SetString (let c = TrimLeftP is_zero_char s in if c = [] then ''0'' else c) = Some (int (digits_val s))"
proof -
  let ?c = "TrimLeftP is_zero_char s"
  show ?thesis
  proof (cases "?c = []")
    case True
    have "digits_val s = 0" using digits_val_TrimLeft [of s] True by simp
    moreover have "SetString ''0'' = Some 0"
      by (simp add: SetString_def all_digits_def is_digit_def digits_val_def digit_val_def)
    ultimately show ?thesis using True by simp
  next
    case False
    thus ?thesis using assms digits_val_TrimLeft [of s] digits_TrimLeft [OF assms]
      by (simp add: SetString_digits all_digits_def)
  qed
qed

lemma pad_right_length [simp]: "length s \<le> n \<Longrightarrow> length (pad_right n s) = n"
  by (simp add: pad_right_def)

lemma digits_pad_right: "list_all is_digit s \<Longrightarrow> list_all is_digit (pad_right n s)"
  by (auto simp: pad_right_def list_all_iff is_digit_def)

lemma digits_val_replicate0 [simp]: "digits_val (replicate n CHR ''0'') = 0"
  by (simp add: digits_val_zeros)

lemma digits_val_pad_right: "length s \<le> n \<Longrightarrow> digits_val (pad_right n s) = digits_val s * 10 ^ (n - length s)"
  by (simp add: pad_right_def digits_val_append)

lemma trim_both_Nil: "TrimRightP P (TrimLeftP P s) = [] \<longleftrightarrow> (\<forall>x \<in> set s. P x)"
proof
  assume "TrimRightP P (TrimLeftP P s) = []"
  hence "\<forall>x \<in> set (TrimLeftP P s). P x" by (auto simp: TrimRightP_def)
  hence "TrimLeftP P s = []"
    using hd_dropWhile [of P s] by (cases "dropWhile P s") (fastforce simp: TrimLeftP_def)+
  thus "\<forall>x \<in> set s. P x" by (simp add: TrimLeftP_def)
next
  assume "\<forall>x \<in> set s. P x"
  thus "TrimRightP P (TrimLeftP P s) = []" by (auto simp: TrimLeftP_def TrimRightP_def dest: set_dropWhileD)
qed

text \<open>The excess digits decide divisibility: they are all zero exactly when nothing is lost.\<close>

lemma excess_zero_iff:
  assumes d: "list_all is_digit s"
  shows "(\<forall>x \<in> set s. is_zero_char x) \<longleftrightarrow> digits_val s = 0"
proof
  assume "digits_val s = 0"
  thus "\<forall>x \<in> set s. is_zero_char x" using d
  proof (induction s rule: rev_induct)
    case (snoc c s)
    hence "digit_val c = 0" "is_digit c" by auto
    hence "c = CHR ''0''" using digit_char_val by (metis digit_char_num(1))
    thus ?case using snoc by (simp add: is_zero_char_def)
  qed simp
qed (simp add: digits_val_zeros is_zero_char_def)

text \<open>\<open>scale_digits\<close> computes \<open>(intPart.fracPart) * 10 ^ scale\<close> and fails exactly when that is not an
  integer.\<close>

lemma scale_digits_spec:
  assumes a: "list_all is_digit a" and b: "list_all is_digit b"
  shows "scale_digits a b n =
    (if 10 ^ length b dvd digits_val (a @ b) * 10 ^ n
     then Inr (int (digits_val (a @ b) * 10 ^ n div 10 ^ length b)) else Inl TooPrecise)"
proof (cases "length b \<le> n")
  case True
  have dv: "(10::nat) ^ length b dvd 10 ^ n" using True by (simp add: le_imp_power_dvd)
  have q: "(10::nat) ^ n div 10 ^ length b = 10 ^ (n - length b)" using True by (simp add: power_diff)
  have "digits_val (a @ pad_right n b) = digits_val (a @ b) * 10 ^ (n - length b)"
    using True by (simp add: digits_val_append digits_val_pad_right algebra_simps flip: power_add)
  moreover have "SetString (let c = TrimLeftP is_zero_char (a @ pad_right n b) in if c = [] then ''0'' else c)
      = Some (int (digits_val (a @ pad_right n b)))"
    using a b digits_pad_right [of b n] by (intro SetString_combined) simp
  ultimately show ?thesis using True dv q
    by (simp add: scale_digits_def Let_def div_mult_swap [symmetric] dvd_div_mult)
next
  case False
  let ?x = "drop n b" and ?y = "take n b"
  have b': "b = ?y @ ?x" by simp
  have dx: "list_all is_digit ?x" and dy: "list_all is_digit ?y"
    using b by (auto simp: list_all_iff dest: in_set_dropD in_set_takeD)
  have ly: "length ?y = n" and lx: "length ?x = length b - n" using False by auto
  have v: "digits_val (a @ b) = digits_val (a @ ?y) * 10 ^ length ?x + digits_val ?x"
    by (metis append_assoc b' digits_val_append)
  have p: "(10::nat) ^ length b = 10 ^ n * 10 ^ length ?x"
    using False lx by (simp flip: power_add)
  have dvd: "10 ^ length b dvd digits_val (a @ b) * 10 ^ n \<longleftrightarrow> digits_val ?x = 0"
  proof -
    have "10 ^ length b dvd digits_val (a @ b) * 10 ^ n \<longleftrightarrow> 10 ^ length ?x dvd digits_val (a @ b)"
      unfolding p by (simp add: mult.commute)
    also have "\<dots> \<longleftrightarrow> 10 ^ length ?x dvd digits_val ?x"
      unfolding v by (rule dvd_add_right_iff) simp
    also have "\<dots> \<longleftrightarrow> digits_val ?x = 0"
      using digits_val_bound [OF dx] by (auto dest: dvd_imp_le)
    finally show ?thesis .
  qed
  show ?thesis
  proof (cases "digits_val ?x = 0")
    case True
    have pr: "pad_right n ?y = ?y" using ly by (simp add: pad_right_def)
    have "SetString (let c = TrimLeftP is_zero_char (a @ pad_right n ?y) in if c = [] then ''0'' else c)
        = Some (int (digits_val (a @ ?y)))"
      unfolding pr using a dy by (intro SetString_combined) simp
    moreover have "digits_val (a @ b) * 10 ^ n div 10 ^ length b = digits_val (a @ ?y)"
      unfolding p v True by (simp add: mult.assoc mult.commute)
    ultimately show ?thesis using False True dvd excess_zero_iff [OF dx]
      by (simp add: scale_digits_def Let_def trim_both_Nil)
  next
    case nz: False
    thus ?thesis using False dvd excess_zero_iff [OF dx]
      by (simp add: scale_digits_def Let_def trim_both_Nil)
  qed
qed

lemma scale_digits_exact:
  assumes "list_all is_digit a" "list_all is_digit b" "digits_val (a @ b) * 10 ^ n = w * 10 ^ length b"
  shows "scale_digits a b n = Inr (int w)"
  by (simp add: scale_digits_spec [OF assms(1,2)] assms(3))

lemma scale_digits_Inr:
  assumes "list_all is_digit a" "list_all is_digit b" "scale_digits a b n = Inr w"
  shows "0 \<le> w \<and> w * 10 ^ length b = int (digits_val (a @ b)) * 10 ^ n"
proof -
  have dv: "10 ^ length b dvd digits_val (a @ b) * 10 ^ n"
    and w: "w = int (digits_val (a @ b) * 10 ^ n div 10 ^ length b)"
    using assms(3) scale_digits_spec [OF assms(1,2), of n] by (auto split: if_splits)
  have "digits_val (a @ b) * 10 ^ n div 10 ^ length b * 10 ^ length b = digits_val (a @ b) * 10 ^ n"
    using dv by (rule dvd_div_mult_self)
  hence "w * 10 ^ length b = int (digits_val (a @ b) * 10 ^ n)"
    unfolding w by (metis of_nat_mult of_nat_numeral of_nat_power)
  thus ?thesis using w by simp
qed

lemma zero_digit: "list_all is_digit ''0''" "digits_val (''0'' @ b) = digits_val b"
  by (simp_all add: is_digit_def digits_val_def digit_val_def)

lemma parse_unsigned_point:
  assumes "list_all is_digit a" "list_all is_digit b" "a @ b \<noteq> []"
  shows "parse_unsigned (a @ CHR ''.'' # b) n = scale_digits (if a = [] then ''0'' else a) b n"
proof -
  have "CHR ''.'' \<notin> set a" "CHR ''.'' \<notin> set b"
    using digits_not_special assms(1,2) by blast+
  thus ?thesis using assms zero_digit(1) by (auto simp: parse_unsigned_def isDigits_def)
qed

lemma parse_unsigned_int:
  assumes "list_all is_digit a" "a \<noteq> []"
  shows "parse_unsigned a n = scale_digits a [] n"
proof -
  have "cut_at CHR ''.'' a = None" using digits_not_special assms(1) cut_at_None by blast
  thus ?thesis using assms by (simp add: parse_unsigned_def isDigits_def)
qed

lemma parse_unsigned_Inr:
  assumes "parse_unsigned s n = Inr w"
  shows "\<exists>a b. list_all is_digit a \<and> list_all is_digit b \<and> a @ b \<noteq> [] \<and>
    (s = a @ CHR ''.'' # b \<or> s = a \<and> b = []) \<and> 0 \<le> w \<and>
    w * 10 ^ length b = int (digits_val (a @ b)) * 10 ^ n"
proof (cases "cut_at CHR ''.'' s")
  case None
  hence "list_all is_digit s" "s \<noteq> []" "scale_digits s [] n = Inr w"
    using assms by (auto simp: parse_unsigned_def isDigits_def Let_def split: if_splits)
  thus ?thesis using scale_digits_Inr [of s "[]" n w] by fastforce
next
  case (Some ab)
  obtain a b where ab: "ab = (a, b)" by (cases ab)
  have s: "s = a @ CHR ''.'' # b" using Some ab by (simp add: cut_at_Some)
  let ?a = "if a = [] then ''0'' else a"
  have d: "list_all is_digit ?a" "list_all is_digit b" "a @ b \<noteq> []" "scale_digits ?a b n = Inr w"
    using assms Some ab by (auto simp: parse_unsigned_def isDigits_def Let_def split: if_splits)
  have "0 \<le> w \<and> w * 10 ^ length b = int (digits_val (a @ b)) * 10 ^ n"
    using scale_digits_Inr [OF d(1,2,4)] zero_digit(2) by (auto split: if_splits)
  thus ?thesis using d s by (intro exI [of _ a] exI [of _ b]) (auto split: if_splits)
qed

lemma parseDecimal_digits:
  assumes "s \<noteq> []" "list_all (\<lambda>c. is_digit c \<or> c = CHR ''.'') s"
  shows "parseDecimalToBase s n = parse_unsigned s n"
proof -
  have "TrimSpace s = s"
    using assms(2) by (intro TrimSpace_id) (auto simp: list_all_iff is_space_def is_digit_def)
  moreover have "hd s \<noteq> CHR ''+'' \<and> hd s \<noteq> CHR ''-''"
    using assms by (cases s) (auto simp: is_digit_def)
  ultimately show ?thesis using assms(1) by (cases s) (auto simp: parseDecimalToBase_def)
qed

lemma parseDecimal_point:
  assumes "list_all is_digit a" "list_all is_digit b" "a @ b \<noteq> []"
  shows "parseDecimalToBase (a @ CHR ''.'' # b) n = scale_digits (if a = [] then ''0'' else a) b n"
proof -
  have "list_all (\<lambda>c. is_digit c \<or> c = CHR ''.'') (a @ CHR ''.'' # b)"
    using assms(1,2) by (auto simp: list_all_iff)
  thus ?thesis
    using parseDecimal_digits [of "a @ CHR ''.'' # b" n] parse_unsigned_point [OF assms] by simp
qed

lemma parseDecimal_Inr:
  assumes "parseDecimalToBase s n = Inr w"
  shows "parse_unsigned (TrimSpace s) n = Inr w \<or>
    (\<exists>r. TrimSpace s = CHR ''+'' # r \<and> parse_unsigned r n = Inr w)"
  using assms by (auto simp: parseDecimalToBase_def Let_def split: list.splits if_splits)

lemma pad_left_val [simp]: "digits_val (pad_left n s) = digits_val s"
  by (simp add: pad_left_def digits_val_append)

lemma digits_pad_left: "list_all is_digit s \<Longrightarrow> list_all is_digit (pad_left n s)"
  by (auto simp: pad_left_def list_all_iff is_digit_def)

lemma format_fraction:
  assumes "r < 10 ^ n" "0 < n"
  defines "b \<equiv> TrimRightP is_zero_char (pad_left n (nat_dec r))"
  shows "list_all is_digit b \<and> length b \<le> n \<and> digits_val b * 10 ^ (n - length b) = r"
proof -
  obtain z where z: "pad_left n (nat_dec r) = b @ z" "\<forall>x \<in> set z. is_zero_char x"
    unfolding b_def using TrimRight_decomp by blast
  have l: "length (b @ z) = n"
    using nat_dec_length_bound [OF assms(1,2)] by (simp flip: z(1)) (simp add: pad_left_def)
  have "digits_val z = 0" using z(2) by (simp add: digits_val_zeros is_zero_char_def)
  hence "r = digits_val b * 10 ^ length z"
    using digits_val_append [of b z] pad_left_val [of n "nat_dec r"] z(1) by simp
  moreover have "length z = n - length b" using l by simp
  moreover have "list_all is_digit (b @ z)"
    using digits_pad_left [OF nat_dec_digits, of n r] by (simp only: z(1))
  ultimately show ?thesis using l by simp
qed

lemma format_parse:
  assumes "0 \<le> w"
  shows "parseDecimalToBase (formatBase (Some w) n) n = Inr w"
proof -
  define q where "q = nat w div 10 ^ n"
  define r where "r = nat w mod 10 ^ n"
  have wq: "nat w = q * 10 ^ n + r"
    unfolding q_def r_def by (rule div_mult_mod_eq [symmetric])
  have "w = int (nat w)" using assms by simp
  hence i: "abs w div tenPow n = int q" "abs w mod tenPow n = int r"
    using assms by (simp_all add: q_def r_def tenPow_def zdiv_int zmod_int)
  hence qr: "int_dec (abs w div tenPow n) = nat_dec q" "int_dec (abs w mod tenPow n) = nat_dec r"
    "abs w mod tenPow n = 0 \<longleftrightarrow> r = 0"
    by (simp_all add: int_dec_def)
  have dig: "parseDecimalToBase (nat_dec m) n = scale_digits (nat_dec m) [] n" for m
    using parseDecimal_digits [of "nat_dec m" n] parse_unsigned_int [OF nat_dec_digits, of m n]
      nat_dec_digits [of m] by (simp add: list_all_iff)
  show ?thesis
  proof (cases "n = 0 \<or> r = 0")
    case True
    have n0: "int_dec (abs w) = nat_dec q" if "n = 0" using assms that by (simp add: int_dec_def q_def)
    have "formatBase (Some w) n = nat_dec q"
      using True assms qr n0 by (auto simp: formatBase_def Let_def)
    moreover have "r = 0" using True by (auto simp: r_def)
    hence "scale_digits (nat_dec q) [] n = Inr (int (nat w))"
      using wq by (intro scale_digits_exact) (simp_all add: nat_dec_digits)
    ultimately show ?thesis using dig assms by simp
  next
    case False
    define b where "b = TrimRightP is_zero_char (pad_left n (nat_dec r))"
    have f: "formatBase (Some w) n = nat_dec q @ CHR ''.'' # b"
      using False assms qr by (simp add: formatBase_def Let_def b_def)
    have "r < 10 ^ n" by (simp add: r_def)
    hence b: "list_all is_digit b" "length b \<le> n" "digits_val b * 10 ^ (n - length b) = r"
      using format_fraction [of r n] False unfolding b_def by auto
    have "(10::nat) ^ n = 10 ^ (n - length b) * 10 ^ length b" using b(2) by (simp flip: power_add)
    hence "digits_val (nat_dec q @ b) * 10 ^ n = nat w * 10 ^ length b"
      unfolding wq b(3) [symmetric] by (simp add: digits_val_append algebra_simps)
    hence "scale_digits (nat_dec q) b n = Inr (int (nat w))"
      using b(1) by (intro scale_digits_exact) (auto simp: nat_dec_digits)
    thus ?thesis using assms b(1) parseDecimal_point [OF nat_dec_digits b(1), of q n] by (simp add: f)
  qed
qed

definition known_unit :: "Unit \<Rightarrow> bool" where
  "known_unit u \<longleftrightarrow> decimals u \<noteq> None"

lemma known_unit_cases: "known_unit u \<longleftrightarrow> u \<in> {Wei, Gwei, Eth}"
  by (cases u) (simp_all add: known_unit_def)

lemma ParseUnit_good: "ParseUnit s = Inr u \<Longrightarrow> known_unit u"
  by (auto simp: ParseUnit_def Let_def known_unit_def split: if_splits)

lemma Convert_Inr:
  assumes "Convert req = Inr r"
  shows "\<exists>v src dst wei. known_unit src \<and> known_unit dst \<and> ParseAmount v src = Inr wei \<and>
    v = fst (SplitAmountUnit (TrimSpace (cq_Amount req))) \<and>
    cr_Wei r = int_dec wei \<and> cr_From r = Unit_String src \<and> cr_To r = Unit_String dst \<and> cr_Value r = FormatAmount wei dst"
  using assms
  by (fastforce simp: Convert_def Let_def split: prod.splits if_splits sum.splits dest: ParseUnit_good)

lemma ParseAmount_nonneg: "ParseAmount v u = Inr w \<Longrightarrow> 0 \<le> w"
  by (auto simp: ParseAmount_def split: option.splits dest!: parseDecimal_Inr parse_unsigned_Inr)

lemma ParseUnit_String: "known_unit u \<Longrightarrow> ParseUnit (Unit_String u) = Inr u"
  by (auto simp: known_unit_cases ParseUnit_def Let_def str_simps char_of_def bit_0)

lemma Parse_Format: "known_unit u \<Longrightarrow> 0 \<le> w \<Longrightarrow> ParseAmount (FormatAmount w u) u = Inr w"
  by (auto simp: known_unit_cases ParseAmount_def FormatAmount_def format_parse)

section \<open>Properties\<close>

text \<open>Exactness of amount parsing: a well-formed decimal \<open>a.b\<close> parsed at a scale gives exactly
  \<open>a.b * 10 ^ scale\<close> when that is an integer, and the precision error otherwise; no digit is ever
  silently dropped.\<close>

lemma parseDecimalToBase_exact:
  assumes "list_all is_digit a" "list_all is_digit b" "a @ b \<noteq> []"
  shows "parseDecimalToBase (a @ ''.'' @ b) scale =
    (if 10 ^ length b dvd digits_val (a @ b) * 10 ^ scale
     then Inr (int (digits_val (a @ b) * 10 ^ scale div 10 ^ length b)) else Inl TooPrecise)"
proof -
  let ?a = "if a = [] then ''0'' else a"
  note parseDecimal_point [OF assms, of scale]
  moreover have "digits_val (?a @ b) = digits_val (a @ b)" using zero_digit(2) by simp
  moreover have "list_all is_digit ?a" using assms(1) zero_digit(1) by simp
  ultimately show ?thesis using scale_digits_spec [of ?a b scale] assms(2) by simp
qed


text \<open>Soundness of amount parsing: whenever an amount is accepted, the text is an optional plus
  sign, digits and at most one point, the result is non-negative, and the result and the text denote
  the same rational number.\<close>

lemma parseDecimalToBase_sound:
  assumes "parseDecimalToBase s scale = Inr w"
  shows "\<exists>sgn a b. sgn \<in> {[], ''+''} \<and> list_all is_digit a \<and> list_all is_digit b \<and> a @ b \<noteq> [] \<and>
     TrimSpace s \<in> {sgn @ a @ ''.'' @ b, sgn @ a @ b} \<and> (TrimSpace s = sgn @ a @ b \<longrightarrow> b = []) \<and>
     0 \<le> w \<and> w * 10 ^ length b = int (digits_val (a @ b)) * 10 ^ scale"
proof -
  obtain t sgn where t: "parse_unsigned t scale = Inr w" "TrimSpace s = sgn @ t" "sgn \<in> {[], ''+''}"
    using parseDecimal_Inr [OF assms] by (metis append_Cons append_Nil insertI1 insert_iff)
  obtain a b where ab: "list_all is_digit a" "list_all is_digit b" "a @ b \<noteq> []"
      "t = a @ CHR ''.'' # b \<or> t = a \<and> b = []" "0 \<le> w"
      "w * 10 ^ length b = int (digits_val (a @ b)) * 10 ^ scale"
    using parse_unsigned_Inr [OF t(1)] by blast
  show ?thesis using ab t(2,3) by (intro exI [of _ sgn] exI [of _ a] exI [of _ b]) auto
qed


text \<open>Formatting and parsing are inverse: the decimal text \<open>formatBase\<close> prints for a non-negative
  amount of base units is read back by \<open>parseDecimalToBase\<close> as exactly that amount, at every scale.\<close>

lemma formatBase_parse_roundtrip:
  assumes "0 \<le> w"
  shows "parseDecimalToBase (formatBase (Some w) scale) scale = Inr w"
  using assms by (rule format_parse)


text \<open>\<open>daxie convert\<close> is exact: the value it prints in the target unit, read back in that unit, and
  the wei it prints denote the same non-negative amount, which is what the input denotes in the source unit.\<close>

lemma Convert_exact:
  assumes "Convert req = Inr r"
  shows "\<exists>src dst wei. 0 \<le> wei \<and> ParseUnit (cr_From r) = Inr src \<and> ParseUnit (cr_To r) = Inr dst \<and>
     ParseAmount (fst (SplitAmountUnit (TrimSpace (cq_Amount req)))) src = Inr wei \<and>
     SetString (cr_Wei r) = Some wei \<and> ParseAmount (cr_Value r) dst = Inr wei"
proof -
  obtain v src dst wei where c: "known_unit src" "known_unit dst" "ParseAmount v src = Inr wei"
    "v = fst (SplitAmountUnit (TrimSpace (cq_Amount req)))" "cr_Wei r = int_dec wei"
    "cr_From r = Unit_String src" "cr_To r = Unit_String dst" "cr_Value r = FormatAmount wei dst"
    using Convert_Inr [OF assms] by blast
  have "0 \<le> wei" using ParseAmount_nonneg [OF c(3)] .
  thus ?thesis using c ParseUnit_String Parse_Format by auto
qed


end
