(* ===== verification/Gas.thy ===== *)
theory Gas
  imports Complex_Main Ethunit
begin

text \<open>
  The gas engine: fee suggestion of the chain adapter (\<open>internal/chain/client.go\<close>, \<open>SuggestFees\<close>,
  \<open>medianColumn\<close>), the fee and limit decision of \<open>internal/service/gas.go\<close> and the
  replace-by-fee bump of \<open>internal/service/rbf.go\<close>.

  Fees are unbounded integers (\<open>*big.Int\<close>, \<open>None\<close> for nil) and gas limits are 64-bit words.  The
  operator's multipliers are Go \<open>float64\<close> values; they enter the model as the rational number they
  denote, and \<open>m*scale + 0.5\<close> is evaluated exactly, where Go rounds to the nearest \<open>float64\<close>.  What
  the node answers (estimate, fee history, gas price) is an argument of the operations.
\<close>

section \<open>Errors of the transport layer\<close>

text \<open>A Go \<open>error\<close> as the service inspects it: its text, and the typed error found in its chain.\<close>

record goerr =
  err_text :: string
  err_typed :: "Error option"

definition AsError :: "goerr \<Rightarrow> Error" where
  "AsError e = (case err_typed e of Some de \<Rightarrow> de
     | None \<Rightarrow> \<lparr>Code = ''internal'', Exit = ExitInternal, Retryable = False, Data = []\<rparr>)"

definition lowerErr :: "goerr \<Rightarrow> string" where
  "lowerErr e = ToLower (err_text e)"

definition containsAny :: "string \<Rightarrow> string list \<Rightarrow> bool" where
  "containsAny s subs = list_ex (Contains s) subs"

definition mapRPCErr :: "goerr \<Rightarrow> Error" where
  "mapRPCErr e = (if Code (AsError e) \<noteq> ''internal'' then AsError e else New ''rpc.unreachable'')"

definition mapEstimateErr :: "goerr \<Rightarrow> Error" where
  "mapEstimateErr e =
     (if Code (AsError e) = ''rpc.unreachable'' \<or> Code (AsError e) = ''rpc.chain_id_mismatch'' then AsError e
      else if containsAny (lowerErr e) [''execution reverted'', ''revert''] then New ''tx.reverted''
      else if containsAny (lowerErr e) [''insufficient funds''] then New ''funds.insufficient''
      else mapRPCErr e)"

section \<open>Fee suggestion\<close>

record Fees =
  fs_BaseFee :: "int option"
  fs_Slow :: "int option"
  fs_Normal :: "int option"
  fs_Fast :: "int option"
  fs_Source :: string

definition Fees_Priority :: "Fees \<Rightarrow> int \<Rightarrow> int option" where
  "Fees_Priority f col = (if col = 0 then fs_Slow f else if col = 2 then fs_Fast f else fs_Normal f)"

record FeeHistory =
  fh_BaseFee :: "int option list"
  fh_Reward :: "int option list list"

definition nextBaseFee :: "FeeHistory option \<Rightarrow> int option" where
  "nextBaseFee h = (case h of None \<Rightarrow> None
     | Some h \<Rightarrow> if fh_BaseFee h = [] then None else last (fh_BaseFee h))"

definition column_values :: "FeeHistory \<Rightarrow> nat \<Rightarrow> int list" where
  "column_values h col = List.map_filter (\<lambda>row. if col < length row then row ! col else None) (fh_Reward h)"

definition medianColumn :: "FeeHistory option \<Rightarrow> nat \<Rightarrow> int option" where
  "medianColumn h col = (case h of None \<Rightarrow> None | Some h \<Rightarrow>
     let vals = column_values h col in
     if vals = [] then None else Some (sort vals ! ((length vals - 1) div 2)))"

text \<open>The node's answers: \<open>eth_feeHistory\<close>, \<open>eth_gasPrice\<close>, \<open>eth_maxPriorityFeePerGas\<close> and
  \<open>eth_estimateGas\<close>; the errors are the ones the adapter has already labelled.\<close>

record node =
  nd_FeeHistory :: "int \<Rightarrow> goerr + FeeHistory option"
  nd_GasPrice :: "goerr + int"
  nd_TipCap :: "goerr + int"
  nd_Estimate :: "goerr + 64 word"

definition SuggestFees :: "node \<Rightarrow> int \<Rightarrow> goerr + Fees" where
  "SuggestFees c blocks =
    (case nd_FeeHistory c (if blocks \<le> 0 then 20 else blocks) of Inl e \<Rightarrow> Inl e
     | Inr hist \<Rightarrow>
       (case (case nextBaseFee hist of Some b \<Rightarrow> Inr (b, ''fee-history'')
              | None \<Rightarrow> (case nd_GasPrice c of Inl e \<Rightarrow> Inl e | Inr gp \<Rightarrow> Inr (gp, ''fallback''))) of
          Inl e \<Rightarrow> Inl e
        | Inr (base, source) \<Rightarrow>
          (let slow = medianColumn hist 0; normal = medianColumn hist 1; fast = medianColumn hist 2 in
           if slow = None \<or> normal = None \<or> fast = None then
             (case nd_TipCap c of Inl e \<Rightarrow> Inl e
              | Inr tip \<Rightarrow>
                let dflt = (\<lambda>t. if t = None then Some tip else t) in
                Inr \<lparr>fs_BaseFee = Some base, fs_Slow = dflt slow, fs_Normal = dflt normal,
                     fs_Fast = dflt fast, fs_Source = ''fallback''\<rparr>)
           else Inr \<lparr>fs_BaseFee = Some base, fs_Slow = slow, fs_Normal = normal, fs_Fast = fast,
                     fs_Source = source\<rparr>)))"

section \<open>Arithmetic helpers\<close>

definition floatToRatio :: "rat \<Rightarrow> int \<times> int" where
  "floatToRatio m = (if m \<le> 0 then (1, 1)
     else let n = \<lfloor>m * 1000000 + 1 / 2\<rfloor> in if n \<le> 0 then (1, 1) else (n, 1000000))"

text \<open>\<open>(*big.Int).Quo\<close> truncates; on the non-negative operands below it is \<open>div\<close>, and the
  definitions use the truncating division so that a negative operand is treated as Go does.\<close>

definition Quo :: "int \<Rightarrow> int \<Rightarrow> int" where
  "Quo a b = sgn a * sgn b * (abs a div abs b)"

definition scaleBig :: "int option \<Rightarrow> rat \<Rightarrow> int" where
  "scaleBig v multiplier = (case v of None \<Rightarrow> 0 | Some v \<Rightarrow>
     let (num, den) = floatToRatio multiplier in Quo (v * num + Quo den 2) den)"

definition mulCeilUint :: "64 word \<Rightarrow> rat \<Rightarrow> 64 word" where
  "mulCeilUint n multiplier = (let (num, den) = floatToRatio multiplier;
      v = uint n * num + (den - 1) in word_of_int (Quo v den))"

definition worstCaseGas :: "64 word \<Rightarrow> int option \<Rightarrow> int" where
  "worstCaseGas limit perGas = (case perGas of None \<Rightarrow> 0 | Some p \<Rightarrow> uint limit * p)"

definition maxFeeFormula :: "rat \<Rightarrow> int option \<Rightarrow> int \<Rightarrow> int" where
  "maxFeeFormula multiplier baseFee tip =
     scaleBig (Some (case baseFee of None \<Rightarrow> 0 | Some b \<Rightarrow> b)) multiplier + tip"

datatype Speed = SpeedSlow | SpeedNormal | SpeedFast

definition parseSpeed :: "string \<Rightarrow> Speed \<Rightarrow> Speed" where
  "parseSpeed s d = (if s = ''slow'' then SpeedSlow else if s = ''normal'' then SpeedNormal
     else if s = ''fast'' then SpeedFast else d)"

fun speedColumn :: "Speed \<Rightarrow> int" where
  "speedColumn SpeedSlow = 0"
| "speedColumn SpeedFast = 2"
| "speedColumn SpeedNormal = 1"

definition mulSpeed :: "int option \<Rightarrow> Speed \<Rightarrow> int" where
  "mulSpeed price speed = (case price of None \<Rightarrow> 0 | Some p \<Rightarrow>
     let num = (case speed of SpeedSlow \<Rightarrow> 10 | SpeedFast \<Rightarrow> 15 | SpeedNormal \<Rightarrow> 12) in Quo (p * num) 10)"

section \<open>Parsing of fees and limits\<close>

definition parseFee :: "string \<Rightarrow> int result" where
  "parseFee s = (let (v, unit) = SplitAmountUnit s in
     if v = [] then Inl (New ''usage.bad_fee'')
     else case (if unit \<noteq> [] then ParseUnit unit else Inr Wei) of
       Inl _ \<Rightarrow> Inl (New ''usage.bad_fee'')
     | Inr u \<Rightarrow> (case ParseAmount v u of Inl _ \<Rightarrow> Inl (New ''usage.bad_fee'') | Inr wei \<Rightarrow> Inr wei))"

definition parseOptionalFee :: "string \<Rightarrow> int option result" where
  "parseOptionalFee s = (if s = [] then Inr None else map_sum id Some (parseFee s))"

definition parseFeeFloor :: "string \<Rightarrow> int option" where
  "parseFeeFloor s = (if s = [] then None else case parseFee s of Inl _ \<Rightarrow> None | Inr v \<Rightarrow> Some v)"

definition parseEthAmount :: "string \<Rightarrow> int result" where
  "parseEthAmount s0 = (let s = TrimSpace s0 in
     if s = [] then Inr 0
     else let (v, unit) = SplitAmountUnit s in
     case (if unit \<noteq> [] then ParseUnit unit else Inr Eth) of
       Inl _ \<Rightarrow> Inl (New ''usage.bad_amount'')
     | Inr u \<Rightarrow> (case ParseAmount v u of Inl _ \<Rightarrow> Inl (New ''usage.bad_amount'') | Inr wei \<Rightarrow> Inr wei))"

text \<open>The digit loop of \<open>parseUint\<close>, on a wrapping 64-bit accumulator.\<close>

fun parseUint_loop :: "64 word \<Rightarrow> string \<Rightarrow> 64 word option" where
  "parseUint_loop n [] = Some n"
| "parseUint_loop n (c # s) =
     (if is_digit c then parseUint_loop (n * 10 + of_nat (digit_val c)) s else None)"

definition parseUint :: "string \<Rightarrow> (64 word) result" where
  "parseUint s = (if s = [] then Inl (New ''usage.bad_integer'')
     else case parseUint_loop 0 s of None \<Rightarrow> Inl (New ''usage.bad_integer'') | Some n \<Rightarrow> Inr n)"

definition bigOrZero :: "string \<Rightarrow> int" where
  "bigOrZero s = (if s = [] then 0 else case SetString s of None \<Rightarrow> 0 | Some v \<Rightarrow> v)"

definition feeOrZero :: "string option \<Rightarrow> int" where
  "feeOrZero s = (case s of None \<Rightarrow> 0 | Some t \<Rightarrow> bigOrZero t)"

section \<open>Gas strategy\<close>

record GasDefaults =
  gd_LimitMultiplier :: rat
  gd_FeeHistoryBlocks :: int
  gd_Speed :: string
  gd_BaseFeeMultiplier :: rat
  gd_MinPriorityFee :: string
  gd_RBFBumpPercent :: rat
  gd_DriftTolerance :: rat

record NetworkCfg =
  nc_Legacy :: bool
  nc_Gas :: "GasDefaults option"

record gasParams =
  limitMultiplier :: rat
  baseFeeMultiplier :: rat
  minPriorityFee :: "int option"
  defaultSpeed :: Speed
  rbfBumpPercent :: rat
  feeHistoryBlocks :: int
  gp_legacy :: bool

definition overlayGas :: "GasDefaults \<Rightarrow> GasDefaults \<Rightarrow> GasDefaults" where
  "overlayGas base over = base\<lparr>
     gd_LimitMultiplier := (if gd_LimitMultiplier over \<noteq> 0 then gd_LimitMultiplier over else gd_LimitMultiplier base),
     gd_BaseFeeMultiplier := (if gd_BaseFeeMultiplier over \<noteq> 0 then gd_BaseFeeMultiplier over else gd_BaseFeeMultiplier base),
     gd_MinPriorityFee := (if gd_MinPriorityFee over \<noteq> [] then gd_MinPriorityFee over else gd_MinPriorityFee base),
     gd_Speed := (if gd_Speed over \<noteq> [] then gd_Speed over else gd_Speed base),
     gd_RBFBumpPercent := (if gd_RBFBumpPercent over \<noteq> 0 then gd_RBFBumpPercent over else gd_RBFBumpPercent base),
     gd_FeeHistoryBlocks := (if gd_FeeHistoryBlocks over \<noteq> 0 then gd_FeeHistoryBlocks over else gd_FeeHistoryBlocks base)\<rparr>"

record GasConfig =
  cfg_Gas :: GasDefaults
  cfg_Networks :: "(string \<times> NetworkCfg) list"

definition gasParamsFor :: "GasConfig \<Rightarrow> string \<Rightarrow> bool \<Rightarrow> gasParams" where
  "gasParamsFor cfg network reqLegacy =
    (let (g, legacy) = (case map_of (cfg_Networks cfg) network of
         None \<Rightarrow> (cfg_Gas cfg, reqLegacy)
       | Some net \<Rightarrow> (case nc_Gas net of None \<Rightarrow> cfg_Gas cfg | Some ov \<Rightarrow> overlayGas (cfg_Gas cfg) ov,
                      reqLegacy \<or> nc_Legacy net)) in
     \<lparr>limitMultiplier = gd_LimitMultiplier g, baseFeeMultiplier = gd_BaseFeeMultiplier g,
      minPriorityFee = parseFeeFloor (gd_MinPriorityFee g), defaultSpeed = parseSpeed (gd_Speed g) SpeedNormal,
      rbfBumpPercent = gd_RBFBumpPercent g, feeHistoryBlocks = gd_FeeHistoryBlocks g, gp_legacy = legacy\<rparr>)"

section \<open>The per-transaction gas decision\<close>

record Quote =
  Legacy :: bool
  GasLimit :: "64 word"
  MaxFeePerGas :: "int option"
  PriorityFee :: "int option"
  GasPrice :: "int option"
  BaseFee :: "int option"
  q_Speed :: Speed
  q_Source :: string
  WorstCaseGasWei :: "int option"

text \<open>The gas fields of a \<open>TxRequest\<close>.\<close>

record GasReq =
  rq_GasLimit :: string
  rq_MaxFee :: string
  rq_PriorityFee :: string
  rq_GasPrice :: string
  rq_Speed :: string
  rq_Legacy :: bool

abbreviation (input) intrinsicEOAGas :: "64 word" where
  "intrinsicEOAGas \<equiv> 21000"

text \<open>\<open>dataLen\<close> is \<open>len(in.data)\<close>.\<close>

definition resolveGasLimit :: "GasConfig \<Rightarrow> node \<Rightarrow> string \<Rightarrow> nat \<Rightarrow> GasReq \<Rightarrow> (64 word) result" where
  "resolveGasLimit cfg cc network dataLen req =
    (if rq_GasLimit req \<noteq> [] then
       (case parseUint (rq_GasLimit req) of Inl _ \<Rightarrow> Inl (New ''usage.bad_gas_limit'') | Inr n \<Rightarrow> Inr n)
     else case nd_Estimate cc of Inl e \<Rightarrow> Inl (mapEstimateErr e)
     | Inr est \<Rightarrow> if est = intrinsicEOAGas \<and> dataLen = 0 then Inr intrinsicEOAGas
         else Inr (mulCeilUint est (limitMultiplier (gasParamsFor cfg network (rq_Legacy req)))))"

text \<open>The tip of the requested speed, raised to the configured floor.\<close>

definition floored_tip :: "gasParams \<Rightarrow> Fees \<Rightarrow> Speed \<Rightarrow> int" where
  "floored_tip gp fees speed =
    (let t = (case Fees_Priority fees (speedColumn speed) of None \<Rightarrow> 0 | Some t \<Rightarrow> t) in
     case minPriorityFee gp of None \<Rightarrow> t | Some m \<Rightarrow> if t < m then m else t)"

definition build1559Fees :: "node \<Rightarrow> GasReq \<Rightarrow> gasParams \<Rightarrow> Speed \<Rightarrow> 64 word \<Rightarrow> Quote result" where
  "build1559Fees cc req gp speed limit =
    (if rq_GasPrice req \<noteq> [] then Inl (New ''usage.gas_price_non_legacy'')
     else case SuggestFees cc (feeHistoryBlocks gp) of Inl e \<Rightarrow> Inl (mapRPCErr e)
     | Inr fees \<Rightarrow>
       (let baseFee = fs_BaseFee fees;
            source = (if fs_Source fees = [] then ''fee-history'' else fs_Source fees);
            estTip = floored_tip gp fees speed in
        case parseOptionalFee (rq_MaxFee req) of Inl e \<Rightarrow> Inl e
        | Inr ovMaxFee \<Rightarrow> (case parseOptionalFee (rq_PriorityFee req) of Inl e \<Rightarrow> Inl e
        | Inr ovTip \<Rightarrow>
          (case (case (ovMaxFee, ovTip) of
                   (Some m, Some t) \<Rightarrow> if t > m then Inl (New ''usage.tip_exceeds_max_fee'') else Inr (t, m)
                 | (None, Some t) \<Rightarrow> Inr (t, maxFeeFormula (baseFeeMultiplier gp) baseFee t)
                 | (Some m, None) \<Rightarrow> Inr (if estTip > m then m else estTip, m)
                 | (None, None) \<Rightarrow> Inr (estTip, maxFeeFormula (baseFeeMultiplier gp) baseFee estTip)) of
             Inl e \<Rightarrow> Inl e
           | Inr (tip, maxFee) \<Rightarrow>
               Inr \<lparr>Legacy = False, GasLimit = limit, MaxFeePerGas = Some maxFee, PriorityFee = Some tip,
                    GasPrice = None, BaseFee = baseFee, q_Speed = speed, q_Source = source,
                    WorstCaseGasWei = Some (worstCaseGas limit (Some maxFee))\<rparr>))))"

definition buildLegacyFees :: "node \<Rightarrow> GasReq \<Rightarrow> Speed \<Rightarrow> 64 word \<Rightarrow> Quote result" where
  "buildLegacyFees cc req speed limit =
    (if rq_MaxFee req \<noteq> [] \<or> rq_PriorityFee req \<noteq> [] then Inl (New ''usage.eip1559_on_legacy'')
     else case (if rq_GasPrice req \<noteq> [] then parseFee (rq_GasPrice req)
                else case nd_GasPrice cc of Inl e \<Rightarrow> Inl (mapRPCErr e)
                     | Inr base \<Rightarrow> Inr (mulSpeed (Some base) speed)) of
       Inl e \<Rightarrow> Inl e
     | Inr price \<Rightarrow>
         Inr \<lparr>Legacy = True, GasLimit = limit, MaxFeePerGas = None, PriorityFee = None,
              GasPrice = Some price, BaseFee = None, q_Speed = speed, q_Source = ''legacy'',
              WorstCaseGasWei = Some (worstCaseGas limit (Some price))\<rparr>)"

definition buildGas :: "GasConfig \<Rightarrow> node \<Rightarrow> string \<Rightarrow> nat \<Rightarrow> GasReq \<Rightarrow> Quote result" where
  "buildGas cfg cc network dataLen req =
    (let gp = gasParamsFor cfg network (rq_Legacy req); speed = parseSpeed (rq_Speed req) (defaultSpeed gp) in
     case resolveGasLimit cfg cc network dataLen req of Inl e \<Rightarrow> Inl e
     | Inr limit \<Rightarrow> if gp_legacy gp then buildLegacyFees cc req speed limit
         else build1559Fees cc req gp speed limit)"

section \<open>The gas view\<close>

definition gasTierQuote :: "gasParams \<Rightarrow> Fees \<Rightarrow> Speed \<Rightarrow> Quote" where
  "gasTierQuote gp fees speed = (let estTip = floored_tip gp fees speed in
     \<lparr>Legacy = False, GasLimit = 0, MaxFeePerGas = Some (maxFeeFormula (baseFeeMultiplier gp) (fs_BaseFee fees) estTip),
      PriorityFee = Some estTip, GasPrice = None, BaseFee = fs_BaseFee fees, q_Speed = speed,
      q_Source = (if fs_Source fees = [] then ''fee-history'' else fs_Source fees), WorstCaseGasWei = None\<rparr>)"

definition legacyQuote :: "int option \<Rightarrow> Speed \<Rightarrow> Quote" where
  "legacyQuote base speed =
     \<lparr>Legacy = True, GasLimit = 0, MaxFeePerGas = None, PriorityFee = None, GasPrice = Some (mulSpeed base speed),
      BaseFee = None, q_Speed = speed, q_Source = ''legacy'', WorstCaseGasWei = None\<rparr>"

record GasQuotes =
  gq_Legacy :: bool
  gq_Slow :: Quote
  gq_Normal :: Quote
  gq_Fast :: Quote
  gq_BaseFee :: "int option"

text \<open>The quotes are kept as \<open>Quote\<close> values; the source prints their fields in decimal.\<close>

definition Gas_quotes :: "GasConfig \<Rightarrow> node \<Rightarrow> string \<Rightarrow> bool \<Rightarrow> GasQuotes result" where
  "Gas_quotes cfg cc network reqLegacy = (let gp = gasParamsFor cfg network reqLegacy in
     if gp_legacy gp then
       (case nd_GasPrice cc of Inl e \<Rightarrow> Inl (mapRPCErr e)
        | Inr base \<Rightarrow> Inr \<lparr>gq_Legacy = True, gq_Slow = legacyQuote (Some base) SpeedSlow,
             gq_Normal = legacyQuote (Some base) SpeedNormal, gq_Fast = legacyQuote (Some base) SpeedFast,
             gq_BaseFee = None\<rparr>)
     else case SuggestFees cc (feeHistoryBlocks gp) of Inl e \<Rightarrow> Inl (mapRPCErr e)
     | Inr fees \<Rightarrow> Inr \<lparr>gq_Legacy = False, gq_Slow = gasTierQuote gp fees SpeedSlow,
          gq_Normal = gasTierQuote gp fees SpeedNormal, gq_Fast = gasTierQuote gp fees SpeedFast,
          gq_BaseFee = fs_BaseFee fees\<rparr>)"

section \<open>Replace-by-fee\<close>

definition bumpPercent :: "int option \<Rightarrow> rat \<Rightarrow> int" where
  "bumpPercent v pct = (case v of None \<Rightarrow> 0 | Some v \<Rightarrow> if v = 0 then 0 else
     let (num, den) = floatToRatio (1 + pct / 100) in Quo (v * num + (den - 1)) den)"

definition maxBig :: "int option \<Rightarrow> int option \<Rightarrow> int" where
  "maxBig a b = (let a = (case a of None \<Rightarrow> 0 | Some x \<Rightarrow> x); b = (case b of None \<Rightarrow> 0 | Some x \<Rightarrow> x)
     in if a \<ge> b then a else b)"

text \<open>The fee fields of the original journal record and of the replacement request.\<close>

record OldFees =
  of_legacy :: bool
  of_GasLimit :: "64 word"
  of_MaxFee :: "string option"
  of_Tip :: "string option"
  of_GasPrice :: "string option"

record rbfGasReq =
  rb_maxFee :: string
  rb_priorityFee :: string
  rb_gasPrice :: string
  rb_speed :: string

text \<open>An explicit override replaces the computed fee but may not undercut the floor.\<close>

definition rbf_override :: "string \<Rightarrow> int \<Rightarrow> string \<Rightarrow> int \<Rightarrow> int result" where
  "rbf_override ov flr key dflt = (if ov = [] then Inr dflt else
     case parseFee ov of Inl e \<Rightarrow> Inl e
     | Inr v \<Rightarrow> if v < flr then Inl (WithData (New ''tx.replacement_underpriced'') [(key, JStr (int_dec flr))])
         else Inr v)"

definition bumpedLegacy :: "node \<Rightarrow> OldFees \<Rightarrow> rbfGasReq \<Rightarrow> gasParams \<Rightarrow> 64 word \<Rightarrow> Quote result" where
  "bumpedLegacy cc old req gp limit = (let speed = parseSpeed (rb_speed req) SpeedFast in
     case nd_GasPrice cc of Inl e \<Rightarrow> Inl (mapRPCErr e)
     | Inr base \<Rightarrow>
       (let quote = mulSpeed (Some base) speed; oldPrice = feeOrZero (of_GasPrice old);
            flr = bumpPercent (Some oldPrice) (rbfBumpPercent gp);
            price = maxBig (Some quote) (Some flr) in
        case rbf_override (rb_gasPrice req) flr ''floor_gas_price'' price of Inl e \<Rightarrow> Inl e
        | Inr price \<Rightarrow> Inr \<lparr>Legacy = True, GasLimit = limit, MaxFeePerGas = None, PriorityFee = None,
             GasPrice = Some price, BaseFee = None, q_Speed = speed, q_Source = ''legacy'',
             WorstCaseGasWei = Some (worstCaseGas limit (Some price))\<rparr>))"

definition bumpedQuote :: "GasConfig \<Rightarrow> node \<Rightarrow> string \<Rightarrow> OldFees \<Rightarrow> bool \<Rightarrow> rbfGasReq \<Rightarrow> Quote result" where
  "bumpedQuote cfg cc network old isCancel req =
    (let gp = gasParamsFor cfg network (of_legacy old);
         limit = (if isCancel then intrinsicEOAGas else of_GasLimit old) in
     if gp_legacy gp then bumpedLegacy cc old req gp limit
     else let speed = parseSpeed (rb_speed req) SpeedFast in
     case SuggestFees cc (feeHistoryBlocks gp) of Inl e \<Rightarrow> Inl (mapRPCErr e)
     | Inr fees \<Rightarrow>
       (let qTip = floored_tip gp fees speed; baseFee = fs_BaseFee fees;
            quoteMaxFee = maxFeeFormula (baseFeeMultiplier gp) baseFee qTip;
            floorTip = bumpPercent (Some (feeOrZero (of_Tip old))) (rbfBumpPercent gp);
            floorMaxFee = bumpPercent (Some (feeOrZero (of_MaxFee old))) (rbfBumpPercent gp) in
        case rbf_override (rb_priorityFee req) floorTip ''floor_priority_fee''
               (maxBig (Some qTip) (Some floorTip)) of Inl e \<Rightarrow> Inl e
        | Inr newTip \<Rightarrow>
        (case rbf_override (rb_maxFee req) floorMaxFee ''floor_max_fee''
               (maxBig (Some quoteMaxFee) (Some floorMaxFee)) of Inl e \<Rightarrow> Inl e
        | Inr newMaxFee \<Rightarrow>
           Inr \<lparr>Legacy = False, GasLimit = limit, MaxFeePerGas = Some newMaxFee,
                PriorityFee = Some (if newTip > newMaxFee then newMaxFee else newTip), GasPrice = None,
                BaseFee = baseFee, q_Speed = speed, q_Source = ''fee-history'',
                WorstCaseGasWei = Some (worstCaseGas limit (Some newMaxFee))\<rparr>)))"

section \<open>Lemmas\<close>

lemma Quo_nonneg: "0 \<le> a \<Longrightarrow> 0 < b \<Longrightarrow> Quo a b = a div b"
  by (cases "a = 0") (simp_all add: Quo_def)

lemma floatToRatio_pos: "floatToRatio m = (num, den) \<Longrightarrow> 0 < num \<and> 0 < den"
  by (auto simp: floatToRatio_def Let_def split: if_splits)

lemma floatToRatio_ge1: "floatToRatio m = (num, den) \<Longrightarrow> 1 \<le> m \<Longrightarrow> den \<le> num"
proof -
  assume r: "floatToRatio m = (num, den)" and m: "1 \<le> m"
  have "(1000000 :: rat) \<le> m * 1000000 + 1 / 2" using m by simp
  hence "1000000 \<le> \<lfloor>m * 1000000 + 1 / 2\<rfloor>" by (simp add: le_floor_iff)
  thus ?thesis using r by (auto simp: floatToRatio_def Let_def split: if_splits)
qed

lemma scaleBig_nonneg: "0 \<le> v \<Longrightarrow> 0 \<le> scaleBig (Some v) m"
  by (auto simp: scaleBig_def Quo_nonneg pos_imp_zdiv_nonneg_iff split: prod.splits dest!: floatToRatio_pos)

lemma maxFeeFormula_ge_tip:
  "(case base of None \<Rightarrow> True | Some b \<Rightarrow> 0 \<le> b) \<Longrightarrow> tip \<le> maxFeeFormula m base tip"
  using scaleBig_nonneg by (auto simp: maxFeeFormula_def split: option.splits)

text \<open>The ceiling division used for the limit and for the bump.\<close>

lemma ceil_div:
  assumes "(0::int) < den"
  shows "v \<le> ((v + (den - 1)) div den) * den" "((v + (den - 1)) div den) * den < v + den"
proof -
  have "v + (den - 1) = ((v + (den - 1)) div den) * den + (v + (den - 1)) mod den" by simp
  moreover have "0 \<le> (v + (den - 1)) mod den" "(v + (den - 1)) mod den < den" using assms by simp_all
  ultimately show "v \<le> ((v + (den - 1)) div den) * den" "((v + (den - 1)) div den) * den < v + den"
    by linarith+
qed

lemma bumpPercent_ceil:
  assumes "floatToRatio (1 + pct / 100) = (num, den)" "0 \<le> v"
  shows "v * num \<le> bumpPercent (Some v) pct * den" "bumpPercent (Some v) pct * den < v * num + den" "0 \<le> bumpPercent (Some v) pct"
proof -
  have p: "0 < num" "0 < den" using floatToRatio_pos [OF assms(1)] by auto
  have q: "bumpPercent (Some v) pct = (v * num + (den - 1)) div den" if "v \<noteq> 0"
    using that assms p by (simp add: bumpPercent_def Quo_nonneg)
  show "v * num \<le> bumpPercent (Some v) pct * den" "bumpPercent (Some v) pct * den < v * num + den" "0 \<le> bumpPercent (Some v) pct"
    using q ceil_div [OF p(2), of "v * num"] p assms(2)
    by (cases "v = 0"; simp add: bumpPercent_def pos_imp_zdiv_nonneg_iff)+
qed

lemma bumpPercent_mono:
  assumes "0 \<le> a" "a \<le> b"
  shows "bumpPercent (Some a) pct \<le> bumpPercent (Some b) pct"
proof -
  obtain num den where r: "floatToRatio (1 + pct / 100) = (num, den)" by force
  have p: "0 < num" "0 < den" using floatToRatio_pos [OF r] by auto
  have "bumpPercent (Some a) pct * den < a * num + den" using bumpPercent_ceil [OF r assms(1)] by simp
  also have "a * num + den \<le> b * num + den" using assms p by (simp add: mult_right_mono)
  also have "\<dots> \<le> bumpPercent (Some b) pct * den + den" using bumpPercent_ceil [OF r, of b] assms by simp
  finally have "bumpPercent (Some a) pct * den < (bumpPercent (Some b) pct + 1) * den" by (simp add: algebra_simps)
  thus ?thesis using p by (simp add: mult_less_cancel_right)
qed

lemma rbf_override_floor: "rbf_override ov flr k d = Inr v \<Longrightarrow> flr \<le> d \<Longrightarrow> flr \<le> v"
  by (auto simp: rbf_override_def split: if_splits sum.splits)

lemma maxBig_ge [simp]: "a \<le> maxBig (Some a) (Some b)" "b \<le> maxBig (Some a) (Some b)"
  by (auto simp: maxBig_def Let_def)

lemma parseUint_loop_val:
  "list_all is_digit s \<Longrightarrow> parseUint_loop n s = Some (n * 10 ^ length s + of_nat (digits_val s))"
proof (induction s arbitrary: n)
  case (Cons c s)
  have "digits_val (c # s) = digit_val c * 10 ^ length s + digits_val s"
    using digits_val_append [of "[c]" s] digits_val_snoc [of "[]" c] by simp
  thus ?case using Cons by (simp add: algebra_simps)
qed simp

lemma parseUint_loop_bad: "\<not> list_all is_digit s \<Longrightarrow> parseUint_loop n s = None"
  by (induction s arbitrary: n) auto

lemma sorted_nth_le_count:
  assumes "sorted xs" "k < length xs" "k < length (filter (\<lambda>x. x \<le> B) xs)"
  shows "xs ! k \<le> (B :: int)"
proof (rule ccontr)
  assume n: "\<not> xs ! k \<le> B"
  have "filter (\<lambda>x. x \<le> B) (drop k xs) = []"
  proof -
    have "\<not> x \<le> B" if "x \<in> set (drop k xs)" for x
    proof -
      obtain j where "j < length (drop k xs)" "x = drop k xs ! j"
        using \<open>x \<in> set (drop k xs)\<close> by (metis in_set_conv_nth)
      hence "k + j < length xs" "x = xs ! (k + j)" using assms(2) by auto
      thus ?thesis using n assms(1,2) sorted_nth_mono [of xs k "k + j"] by auto
    qed
    thus ?thesis by (simp add: filter_empty_conv)
  qed
  hence "filter (\<lambda>x. x \<le> B) xs = filter (\<lambda>x. x \<le> B) (take k xs)"
    by (metis append_Nil2 append_take_drop_id filter_append)
  moreover have "length (filter (\<lambda>x. x \<le> B) (take k xs)) \<le> k"
    using length_filter_le [of "\<lambda>x. x \<le> B" "take k xs"] by simp
  ultimately show False using assms(3) by simp
qed

lemma length_filter_sort: "length (filter P (sort xs)) = length (filter P (xs :: int list))"
  by (metis mset_filter mset_sort size_mset)

section \<open>Properties\<close>

text \<open>A fee suggestion is sane when the base fee it carries is not negative; the node is untrusted, so
  this is the one thing assumed of its answer.\<close>

definition sane_base :: "node \<Rightarrow> int \<Rightarrow> bool" where
  "sane_base cc blocks \<longleftrightarrow> (case SuggestFees cc blocks of Inl _ \<Rightarrow> True
     | Inr f \<Rightarrow> (case fs_BaseFee f of None \<Rightarrow> True | Some b \<Rightarrow> 0 \<le> b))"

text \<open>Every EIP-1559 quote is well formed: the tip never exceeds the max fee, the worst-case cost
  that the policy reserves is limit times max fee, and an explicit \<open>--max-fee\<close> or \<open>--priority-fee\<close>
  is used verbatim whenever it does not have to be capped.\<close>

lemma build1559Fees_wellformed:
  assumes "build1559Fees cc req gp speed limit = Inr q" "sane_base cc (feeHistoryBlocks gp)"
  shows "\<exists>t m. PriorityFee q = Some t \<and> MaxFeePerGas q = Some m \<and> t \<le> m \<and> GasLimit q = limit \<and>
    WorstCaseGasWei q = Some (uint limit * m) \<and>
    (rq_MaxFee req \<noteq> [] \<longrightarrow> parseFee (rq_MaxFee req) = Inr m) \<and>
    (rq_PriorityFee req \<noteq> [] \<longrightarrow> parseFee (rq_PriorityFee req) = Inr t)"
proof -
  obtain fees ovm ovt where f: "SuggestFees cc (feeHistoryBlocks gp) = Inr fees"
    "parseOptionalFee (rq_MaxFee req) = Inr ovm" "parseOptionalFee (rq_PriorityFee req) = Inr ovt"
    using assms(1) by (auto simp: build1559Fees_def Let_def split: if_splits sum.splits)
  have b: "t \<le> maxFeeFormula (baseFeeMultiplier gp) (fs_BaseFee fees) t" for t
    using assms(2) f(1) by (auto simp: sane_base_def intro!: maxFeeFormula_ge_tip)
  have o: "(rq_MaxFee req \<noteq> [] \<longrightarrow> (\<exists>m. ovm = Some m \<and> parseFee (rq_MaxFee req) = Inr m))"
    "(rq_PriorityFee req \<noteq> [] \<longrightarrow> (\<exists>t. ovt = Some t \<and> parseFee (rq_PriorityFee req) = Inr t))"
    "(rq_MaxFee req = [] \<longrightarrow> ovm = None)" "(rq_PriorityFee req = [] \<longrightarrow> ovt = None)"
    using f(2,3) by (auto simp: parseOptionalFee_def map_sum_def split: if_splits sum.splits)
  show ?thesis
    using assms(1) f b o
    by (cases ovm; cases ovt) (auto simp: build1559Fees_def Let_def worstCaseGas_def split: if_splits)
qed

definition demo_node :: node where
  "demo_node = \<lparr>nd_FeeHistory = (\<lambda>_. Inr (Some \<lparr>fh_BaseFee = [Some 90, Some 100],
     fh_Reward = [[Some 1, Some 2, Some 9], [Some 2, Some 3, Some 5], [Some 1, Some 4, Some 1000]]\<rparr>)),
     nd_GasPrice = Inr 100, nd_TipCap = Inr 2, nd_Estimate = Inr 50000\<rparr>"

definition demo_req :: GasReq where
  "demo_req = \<lparr>rq_GasLimit = [], rq_MaxFee = [], rq_PriorityFee = [], rq_GasPrice = [], rq_Speed = [], rq_Legacy = False\<rparr>"

definition demo_gp :: gasParams where
  "demo_gp = \<lparr>limitMultiplier = 6/5, baseFeeMultiplier = 2, minPriorityFee = None, defaultSpeed = SpeedNormal,
     rbfBumpPercent = 25/2, feeHistoryBlocks = 3, gp_legacy = False\<rparr>"

lemma demo_fees:
  "SuggestFees demo_node n = Inr \<lparr>fs_BaseFee = Some 100, fs_Slow = Some 1, fs_Normal = Some 3, fs_Fast = Some 9,
     fs_Source = ''fee-history''\<rparr>"
  by (simp add: SuggestFees_def demo_node_def nextBaseFee_def medianColumn_def column_values_def
      List.map_filter_def)

lemma ratio_eval: "floatToRatio 2 = (2000000, 1000000)" "floatToRatio (6/5) = (1200000, 1000000)"
  "floatToRatio (9/8) = (1125000, 1000000)"
  by (simp_all add: floatToRatio_def Let_def floor_eq_iff)

lemma demo_formula: "maxFeeFormula 2 (Some 100) t = 200 + t"
  by (simp add: maxFeeFormula_def scaleBig_def ratio_eval Quo_def)


text \<open>The gas limit headroom is rounded up and never shrinks the estimate: with a multiplier of at
  least one and a product that fits in 64 bits, \<open>mulCeilUint\<close> is the exact ceiling of the scaled
  estimate.\<close>

lemma mulCeilUint_ceiling:
  assumes "floatToRatio m = (num, den)" "uint n * num + den \<le> 2 ^ 64 * den"
  shows "uint n * num \<le> uint (mulCeilUint n m) * den \<and> uint (mulCeilUint n m) * den < uint n * num + den
    \<and> (1 \<le> m \<longrightarrow> uint n \<le> uint (mulCeilUint n m))"
proof -
  have p: "0 < num" "0 < den" using floatToRatio_pos [OF assms(1)] by auto
  let ?c = "(uint n * num + (den - 1)) div den"
  have lt: "?c * den < 2 ^ 64 * den" using ceil_div(2) [OF p(2), of "uint n * num"] assms(2) by linarith
  have nn: "0 \<le> uint n * num + (den - 1)" using p by simp
  have "0 \<le> ?c" "?c < 2 ^ 64" using p nn lt by (simp_all add: pos_imp_zdiv_nonneg_iff)
  hence u: "uint (mulCeilUint n m) = ?c"
    using nn p by (simp add: mulCeilUint_def assms(1) Quo_nonneg uint_word_of_int)
  have ge: "uint n \<le> ?c" if "1 \<le> m"
  proof -
    have "uint n * den \<le> uint n * num" using floatToRatio_ge1 [OF assms(1) that] by (simp add: mult_left_mono)
    also have "\<dots> \<le> ?c * den" using ceil_div(1) [OF p(2)] .
    finally show ?thesis using p by simp
  qed
  show ?thesis unfolding u using ceil_div [OF p(2), of "uint n * num"] ge by simp
qed


lemma bumpPercent_floor: "0 \<le> v \<Longrightarrow> v * \<lfloor>(1 + pct / 100) * 1000000 + 1 / 2\<rfloor> \<le> bumpPercent (Some v) pct * 1000000"
proof -
  assume v: "0 \<le> v"
  obtain num den where r: "floatToRatio (1 + pct / 100) = (num, den)" by force
  show ?thesis
  proof (cases "\<lfloor>(1 + pct / 100) * 1000000 + 1 / 2\<rfloor> \<le> 0")
    case True
    hence "v * \<lfloor>(1 + pct / 100) * 1000000 + 1 / 2\<rfloor> \<le> 0" using v by (rule mult_nonneg_nonpos [rotated])
    thus ?thesis using bumpPercent_ceil(3) [OF r v] by simp
  next
    case False
    have "\<not> 1 + pct / 100 \<le> 0"
    proof
      assume "1 + pct / 100 \<le> 0"
      hence "(1 + pct / 100) * 1000000 + 1 / 2 < 1" by simp
      hence "\<lfloor>(1 + pct / 100) * 1000000 + 1 / 2\<rfloor> < 1" by (simp add: floor_less_iff)
      thus False using False by simp
    qed
    hence "num = \<lfloor>(1 + pct / 100) * 1000000 + 1 / 2\<rfloor>" "den = 1000000" using r False by (auto simp: floatToRatio_def Let_def)
    thus ?thesis using bumpPercent_ceil(1) [OF r v] by simp
  qed
qed

text \<open>C23. A replacement always clears the bump floor.  Write \<open>k / 10^6\<close> for the factor \<open>1 + pct / 100\<close> of the bump percentage
  configured for the network, rounded to the nearest millionth.  Whatever the market quote and the explicit overrides are, a speed-up or
  cancel that gets a quote pays at least \<open>k / 10^6\<close> times the recorded fees, with nothing lost to integer division: the gas price on a
  legacy network, the max fee and the tip otherwise, where the tip also stays at or below the max fee.  The gas limit is the recorded
  one, or 21000 for a cancel.  (Hypotheses: the recorded fees are not negative and the recorded tip is at most the recorded max fee.)\<close>

theorem bumpedQuote_floor:
  assumes "bumpedQuote cfg cc network old isCancel req = Inr q"
    and "0 \<le> feeOrZero (of_Tip old)" "feeOrZero (of_Tip old) \<le> feeOrZero (of_MaxFee old)" "0 \<le> feeOrZero (of_GasPrice old)"
  shows "let gp = gasParamsFor cfg network (of_legacy old); k = \<lfloor>(1 + rbfBumpPercent gp / 100) * 1000000 + 1 / 2\<rfloor> in
    GasLimit q = (if isCancel then 21000 else of_GasLimit old) \<and>
    (if gp_legacy gp
     then \<exists>g. GasPrice q = Some g \<and> feeOrZero (of_GasPrice old) * k \<le> g * 1000000 \<and> WorstCaseGasWei q = Some (uint (GasLimit q) * g)
     else \<exists>t m. PriorityFee q = Some t \<and> MaxFeePerGas q = Some m \<and> t \<le> m \<and> feeOrZero (of_MaxFee old) * k \<le> m * 1000000 \<and>
       feeOrZero (of_Tip old) * k \<le> t * 1000000 \<and> WorstCaseGasWei q = Some (uint (GasLimit q) * m))"
proof -
  define gp where "gp = gasParamsFor cfg network (of_legacy old)"
  define k where "k = \<lfloor>(1 + rbfBumpPercent gp / 100) * 1000000 + 1 / 2\<rfloor>"
  have fl: "v * k \<le> x * 1000000" if "0 \<le> v" "bumpPercent (Some v) (rbfBumpPercent gp) \<le> x" for v x
    using bumpPercent_floor [OF that(1), of "rbfBumpPercent gp"] that(2) unfolding k_def by linarith
  show ?thesis
  proof (cases "gp_legacy gp")
    case True
    let ?f = "bumpPercent (Some (feeOrZero (of_GasPrice old))) (rbfBumpPercent gp)"
    obtain base g where g: "rbf_override (rb_gasPrice req) ?f ''floor_gas_price'' (maxBig (Some (mulSpeed (Some base) (parseSpeed (rb_speed req) SpeedFast))) (Some ?f)) = Inr g"
      "GasPrice q = Some g" "GasLimit q = (if isCancel then 21000 else of_GasLimit old)" "WorstCaseGasWei q = Some (uint (GasLimit q) * g)"
      using assms(1) True unfolding bumpedQuote_def Let_def gp_def [symmetric] by (auto simp: bumpedLegacy_def Let_def worstCaseGas_def split: sum.splits)
    have "?f \<le> g" using rbf_override_floor [OF g(1)] by simp
    thus ?thesis using g(2-4) True fl [OF assms(4)] unfolding Let_def gp_def [symmetric] k_def [symmetric] by simp
  next
    case False
    let ?ft = "bumpPercent (Some (feeOrZero (of_Tip old))) (rbfBumpPercent gp)"
    let ?fm = "bumpPercent (Some (feeOrZero (of_MaxFee old))) (rbfBumpPercent gp)"
    have le: "?ft \<le> ?fm" using assms(2,3) by (rule bumpPercent_mono)
    obtain fees nt nm where f:
      "rbf_override (rb_priorityFee req) ?ft ''floor_priority_fee''
        (maxBig (Some (floored_tip gp fees (parseSpeed (rb_speed req) SpeedFast))) (Some ?ft)) = Inr nt"
      "rbf_override (rb_maxFee req) ?fm ''floor_max_fee'' (maxBig (Some (maxFeeFormula (baseFeeMultiplier gp)
        (fs_BaseFee fees) (floored_tip gp fees (parseSpeed (rb_speed req) SpeedFast)))) (Some ?fm)) = Inr nm"
      "q = \<lparr>Legacy = False, GasLimit = (if isCancel then 21000 else of_GasLimit old), MaxFeePerGas = Some nm,
        PriorityFee = Some (if nt > nm then nm else nt), GasPrice = None, BaseFee = fs_BaseFee fees,
        q_Speed = parseSpeed (rb_speed req) SpeedFast, q_Source = ''fee-history'',
        WorstCaseGasWei = Some (worstCaseGas (if isCancel then 21000 else of_GasLimit old) (Some nm))\<rparr>"
      using assms(1) False unfolding bumpedQuote_def Let_def gp_def [symmetric] by (auto split: sum.splits)
    have nm: "?fm \<le> nm" "?ft \<le> (if nt > nm then nm else nt)" using f(1,2) le by (auto dest!: rbf_override_floor)
    have m0: "0 \<le> feeOrZero (of_MaxFee old)" using assms(2,3) by simp
    show ?thesis using fl [OF m0 nm(1)] fl [OF assms(2) nm(2)] False
      unfolding Let_def gp_def [symmetric] k_def [symmetric] by (simp add: f(3) worstCaseGas_def)
  qed
qed

definition demo_cfg :: GasConfig where
  "demo_cfg = \<lparr>cfg_Gas = \<lparr>gd_LimitMultiplier = 6/5, gd_FeeHistoryBlocks = 20, gd_Speed = ''normal'',
     gd_BaseFeeMultiplier = 2, gd_MinPriorityFee = [], gd_RBFBumpPercent = 25/2, gd_DriftTolerance = 0\<rparr>,
     cfg_Networks = []\<rparr>"

theorem bumpedQuote_floor_witness:
  "\<exists>q t m. bumpedQuote demo_cfg demo_node ''mainnet''
      \<lparr>of_legacy = False, of_GasLimit = 21000, of_MaxFee = Some ''1000'', of_Tip = Some ''80'', of_GasPrice = None\<rparr> False
      \<lparr>rb_maxFee = [], rb_priorityFee = [], rb_gasPrice = [], rb_speed = []\<rparr> = Inr q \<and>
     PriorityFee q = Some t \<and> MaxFeePerGas q = Some m \<and> t \<le> m \<and> 1125 \<le> m \<and> 90 \<le> t"
proof -
  let ?old = "\<lparr>of_legacy = False, of_GasLimit = 21000, of_MaxFee = Some ''1000'', of_Tip = Some ''80'', of_GasPrice = None\<rparr>"
  let ?req = "\<lparr>rb_maxFee = [], rb_priorityFee = [], rb_gasPrice = [], rb_speed = []\<rparr>"
  have g: "gasParamsFor demo_cfg ''mainnet'' False = \<lparr>limitMultiplier = 6/5, baseFeeMultiplier = 2,
      minPriorityFee = None, defaultSpeed = SpeedNormal, rbfBumpPercent = 25/2, feeHistoryBlocks = 20, gp_legacy = False\<rparr>"
    by (simp add: gasParamsFor_def demo_cfg_def parseFeeFloor_def parseSpeed_def)
  have z: "feeOrZero (Some ''1000'') = 1000" "feeOrZero (Some ''80'') = 80" "feeOrZero None = 0"
    by (simp_all add: feeOrZero_def bigOrZero_def dec_eval)
  have k: "\<lfloor>(1 + (25 / 2 :: rat) / 100) * 1000000 + 1 / 2\<rfloor> = 1125000" by (simp add: floor_eq_iff)
  have "\<exists>q. bumpedQuote demo_cfg demo_node ''mainnet'' ?old False ?req = Inr q"
    by (simp add: bumpedQuote_def Let_def g demo_fees rbf_override_def)
  then obtain q where q: "bumpedQuote demo_cfg demo_node ''mainnet'' ?old False ?req = Inr q" by blast
  show ?thesis using bumpedQuote_floor [OF q] q by (force simp: g z k [simplified])
qed

text \<open>With the default bump of 12.5 percent every bumped fee clears a node's 10 percent price-bump
  rule: it is at least 110 percent of the old fee, and strictly larger when the old fee is positive.\<close>

lemma default_bump_clears_pricebump:
  assumes "0 \<le> v"
  shows "11 * v \<le> 10 * bumpPercent (Some v) (25/2) \<and> (0 < v \<longrightarrow> v < bumpPercent (Some v) (25/2))"
proof -
  have r: "floatToRatio (1 + (25/2) / 100) = (1125000, 1000000)" using ratio_eval(3) by simp
  show ?thesis using bumpPercent_ceil(1) [OF r assms] assms by linarith
qed


text \<open>The suggested tip is robust against outlier blocks: when more than half of the sampled reward
  values are at most a bound, so is the median the adapter returns, however large the others are; and
  the median is one of the sampled values.\<close>

lemma medianColumn_robust:
  assumes "medianColumn (Some h) col = Some v"
  shows "v \<in> set (column_values h col) \<and>
    (length (column_values h col) < 2 * length (filter (\<lambda>x. x \<le> B) (column_values h col)) \<longrightarrow> v \<le> B)"
proof -
  let ?xs = "column_values h col"
  have ne: "?xs \<noteq> []" and v: "v = sort ?xs ! ((length ?xs - 1) div 2)"
    using assms by (auto simp: medianColumn_def Let_def split: if_splits)
  have k: "(length ?xs - 1) div 2 < length (sort ?xs)" using ne by (cases ?xs) auto
  have "v \<in> set ?xs" using nth_mem [OF k] by (simp add: v)
  moreover have "v \<le> B" if "length ?xs < 2 * length (filter (\<lambda>x. x \<le> B) ?xs)"
    unfolding v using that k by (intro sorted_nth_le_count) (auto simp: length_filter_sort)
  ultimately show ?thesis by simp
qed


text \<open>\<open>parseUint\<close> reads any digit string modulo \<open>2 ^ 64\<close>: below that bound it is exact, and from
  there on the explicit gas limit silently wraps instead of being rejected.\<close>

lemma parseUint_wraps:
  assumes "all_digits s"
  shows "\<exists>n. parseUint s = Inr n \<and> unat n = digits_val s mod 2 ^ 64"
  using assms by (simp add: parseUint_def all_digits_def parseUint_loop_val unat_of_nat)


end
