(* ===== verification/Policy_Types.thy ===== *)
theory Policy_Types
  imports Domain_Errors
begin

text \<open>
  The data of the policy engine (\<open>internal/policy\<close>): the sealed policy body (\<open>file.go\<close>), the request
  to be judged and the verdict (\<open>check.go\<close>).  An address is the text of its checksummed hex form
  (\<open>Address.Hex()\<close>); the zero address is \<open>zero_address\<close>.  An instant is an integer number of
  nanoseconds.  The human-readable \<open>Reason\<close> texts are not modelled.
\<close>

type_synonym address = string
type_synonym time = int

definition zero_address :: address where
  "zero_address = ''0x'' @ replicate 40 CHR ''0''"

definition lowerHex :: "address \<Rightarrow> string" where
  "lowerHex a = (if a = zero_address then [] else ToLower a)"

section \<open>The policy body\<close>

text \<open>A limit field is absent (inherit), an explicit null (no limit) or a decimal amount; the source
  encodes the three as a nil pointer, a sentinel string and any other string.\<close>

datatype limit = Absent | NoLimit | Amount string

record Limits =
  MaxTxWei :: limit
  MaxDayWei :: limit
  MaxGasPriceWei :: limit
  AllowlistEnabled :: "bool option"
  IncludeSelf :: "bool option"
  TypedDataUnknown :: "string option"

record NetworkRule =
  nr_Network :: string
  nr_Limits :: Limits

record Rules =
  ru_Default :: Limits
  ru_Networks :: "NetworkRule list"

record TokenRule =
  tr_Network :: string
  tr_Address :: string
  tr_AliasAtSet :: string
  tr_AllowUnlimited :: "bool option"

record PinEntry =
  pin_Source :: string
  pin_Address :: string
  pin_Name :: string
  pin_Label :: string
  pin_AddedAt :: string
  pin_ResolvedAt :: string

record TypedAllow =
  ta_ChainID :: int
  ta_VerifyingContract :: string
  ta_PrimaryType :: string
  ta_Label :: string

record TypedDataCfg =
  td_Unknown :: string
  td_Allowed :: "TypedAllow list"

record ContractAllow =
  ca_Network :: string
  ca_Contract :: string
  ca_Selector :: string
  ca_Label :: string
  ca_AddedAt :: string

record Policy =
  po_Version :: int
  po_Nonce :: "64 word"
  po_UpdatedAt :: string
  po_WrittenBy :: string
  po_Messages :: string
  po_TokensNoAllowlistOK :: bool
  po_Rules :: Rules
  po_Tokens :: "TokenRule list"
  po_Allowlist :: "PinEntry list"
  po_Denylist :: "PinEntry list"
  po_SelfAddresses :: "string list"
  po_TypedData :: TypedDataCfg
  po_ContractsAllowed :: "ContractAllow list"

section \<open>The request\<close>

datatype Kind = KindUnknown | KindTransfer | KindApprove | KindPermit

datatype ToSource = SourceRawAddress | SourceENS | SourceContact | SourceSelf

record Check =
  ck_Account :: address
  ck_Dest :: address
  ck_SpendWei :: "int option"
  ck_MaxGasWei :: "int option"
  ck_MaxFeePerGas :: "int option"
  ck_Kind :: string
  ck_Token :: string
  ck_IsRBFDelta :: bool
  ck_Acked :: bool
  ck_Network :: string
  ck_KindEnum :: Kind
  ck_ToSrc :: ToSource
  ck_ToInput :: string
  ck_ENSName :: string
  ck_ENSResolved :: address
  ck_Asset :: string
  ck_TokenAmt :: "int option"
  ck_Unlimited :: bool
  ck_AccountNonce :: "(64 word) option"
  ck_TypedUnknown :: bool
  ck_TypedPrimary :: string
  ck_TypedVerifying :: string
  ck_TypedChainID :: int
  ck_UnknownCalldata :: bool
  ck_ContractAddr :: address
  ck_Selector :: string

text \<open>A \<open>policy.Check\<close> with every field at its zero value.\<close>

definition zero_check :: Check where
  "zero_check = \<lparr>ck_Account = zero_address, ck_Dest = zero_address, ck_SpendWei = None, ck_MaxGasWei = None, ck_MaxFeePerGas = None,
     ck_Kind = [], ck_Token = [], ck_IsRBFDelta = False, ck_Acked = False, ck_Network = [], ck_KindEnum = KindUnknown,
     ck_ToSrc = SourceRawAddress, ck_ToInput = [], ck_ENSName = [], ck_ENSResolved = zero_address, ck_Asset = [],
     ck_TokenAmt = None, ck_Unlimited = False, ck_AccountNonce = None, ck_TypedUnknown = False, ck_TypedPrimary = [],
     ck_TypedVerifying = [], ck_TypedChainID = 0, ck_UnknownCalldata = False, ck_ContractAddr = zero_address, ck_Selector = []\<rparr>"

definition effectiveKind :: "Check \<Rightarrow> Kind" where
  "effectiveKind c = (if ck_KindEnum c \<noteq> KindUnknown then ck_KindEnum c
     else if ck_Kind c = ''approve'' \<or> ck_Kind c = ''revoke'' then KindApprove
     else if ck_Kind c = ''permit'' then KindPermit
     else KindTransfer)"

definition or_zero :: "int option \<Rightarrow> int" where
  "or_zero v = (case v of None \<Rightarrow> 0 | Some x \<Rightarrow> x)"

definition spendWei :: "Check \<Rightarrow> int" where "spendWei c = or_zero (ck_SpendWei c)"
definition maxGasWei :: "Check \<Rightarrow> int" where "maxGasWei c = or_zero (ck_MaxGasWei c)"
definition maxFeePerGas :: "Check \<Rightarrow> int" where "maxFeePerGas c = or_zero (ck_MaxFeePerGas c)"

section \<open>The verdict\<close>

record Violation =
  vi_Code :: string
  vi_Data :: "(string \<times> jval) list"

record Decision =
  de_Allowed :: bool
  de_Code :: string
  de_Violations :: "Violation list"
  de_RetryAfter :: "time option"
  de_Data :: "(string \<times> jval) list"

abbreviation (input) "codeDenied \<equiv> ''policy.denied''"
abbreviation (input) "codeTxLimit \<equiv> ''policy.denied.tx_limit''"
abbreviation (input) "codeDayLimit \<equiv> ''policy.denied.day_limit''"
abbreviation (input) "codeAllowlist \<equiv> ''policy.denied.allowlist''"
abbreviation (input) "codeNoAllowlist \<equiv> ''policy.denied.no_allowlist''"
abbreviation (input) "codeGasCap \<equiv> ''policy.denied.gas_cap''"
abbreviation (input) "codePinDrift \<equiv> ''policy.denied.pin_drift''"
abbreviation (input) "codeTypedData \<equiv> ''policy.denied.typed_data''"
abbreviation (input) "codeUnlimitedUnacked \<equiv> ''policy.denied.unlimited_unacked''"
abbreviation (input) "codeContractCall \<equiv> ''policy.denied.contract_call''"

definition precedence :: "(string \<times> int) list" where
  "precedence = [(codeAllowlist, 1), (codeNoAllowlist, 1), (codePinDrift, 2), (codeTypedData, 3),
     (codeContractCall, 3), (codeUnlimitedUnacked, 4), (codeTxLimit, 5), (codeDayLimit, 6), (codeGasCap, 7)]"

definition rank :: "string \<Rightarrow> int" where
  "rank code = (case map_of precedence code of Some r \<Rightarrow> r | None \<Rightarrow> 2 ^ 30)"

lemma or_zero_simps [simp]: "or_zero None = 0" "or_zero (Some x) = x"
  by (simp_all add: or_zero_def)

lemma lowerHex_zero [simp]: "lowerHex zero_address = []"
  by (simp add: lowerHex_def)

lemma ToLower_lowerHex [simp]: "ToLower (lowerHex a) = lowerHex a"
  by (simp add: lowerHex_def)

end
