(* ===== verification/Policy_Evaluate.thy ===== *)
theory Policy_Evaluate
  imports Policy_Types
begin

text \<open>
  The pure evaluation pipeline of \<open>internal/policy/evaluate.go\<close>: one function per stage, each
  returning the violation it finds, the composition of the verdict and the resolution of the
  limits of a network.
\<close>

section \<open>Limit resolution\<close>

record resolvedLimits =
  rl_maxTx :: "int option"
  rl_maxDay :: "int option"
  rl_maxGasPrice :: "int option"
  rl_allowlistEnabled :: bool
  rl_includeSelf :: bool
  rl_anySet :: bool
  rl_typedUnknown :: string

fun parseLimit :: "limit \<Rightarrow> int option" where
  "parseLimit Absent = None"
| "parseLimit NoLimit = None"
| "parseLimit (Amount s) = SetString s"

fun overrideLimit :: "int option \<Rightarrow> limit \<Rightarrow> int option" where
  "overrideLimit cur Absent = cur"
| "overrideLimit cur NoLimit = None"
| "overrideLimit cur (Amount s) = (case SetString s of Some v \<Rightarrow> Some v | None \<Rightarrow> cur)"

definition boolOr :: "bool option \<Rightarrow> bool \<Rightarrow> bool" where
  "boolOr p d = (case p of None \<Rightarrow> d | Some b \<Rightarrow> b)"

definition resolveLimits :: "Policy \<Rightarrow> string \<Rightarrow> resolvedLimits" where
  "resolveLimits p network =
    (let d = ru_Default (po_Rules p);
         out = \<lparr>rl_maxTx = parseLimit (MaxTxWei d), rl_maxDay = parseLimit (MaxDayWei d),
                rl_maxGasPrice = parseLimit (MaxGasPriceWei d),
                rl_allowlistEnabled = boolOr (AllowlistEnabled d) False,
                rl_includeSelf = boolOr (IncludeSelf d) False, rl_anySet = False,
                rl_typedUnknown = td_Unknown (po_TypedData p)\<rparr>;
         out = (case find (\<lambda>n. EqualFold (nr_Network n) network) (ru_Networks (po_Rules p)) of
                  None \<Rightarrow> out
                | Some n \<Rightarrow> let l = nr_Limits n in
                    out\<lparr>rl_maxTx := overrideLimit (rl_maxTx out) (MaxTxWei l),
                        rl_maxDay := overrideLimit (rl_maxDay out) (MaxDayWei l),
                        rl_maxGasPrice := overrideLimit (rl_maxGasPrice out) (MaxGasPriceWei l),
                        rl_allowlistEnabled := boolOr (AllowlistEnabled l) (rl_allowlistEnabled out),
                        rl_includeSelf := boolOr (IncludeSelf l) (rl_includeSelf out),
                        rl_typedUnknown := (case TypedDataUnknown l of None \<Rightarrow> rl_typedUnknown out | Some s \<Rightarrow> s)\<rparr>)
     in out\<lparr>rl_anySet := rl_maxTx out \<noteq> None \<or> rl_maxDay out \<noteq> None \<or> rl_maxGasPrice out \<noteq> None\<rparr>)"

section \<open>Matching helpers\<close>

definition inSelf :: "Policy \<Rightarrow> string \<Rightarrow> bool" where
  "inSelf p dest = list_ex (\<lambda>s. EqualFold s dest) (po_SelfAddresses p)"

definition matchPin :: "PinEntry \<Rightarrow> string \<Rightarrow> string \<Rightarrow> bool" where
  "matchPin e dest toInput =
     (if EqualFold (pin_Address e) dest \<and> dest \<noteq> [] then True
      else if (pin_Source e = ''contact'' \<or> pin_Source e = ''ens'') \<and> pin_Name e \<noteq> [] \<and> toInput \<noteq> []
      then EqualFold (pin_Name e) toInput
      else False)"

definition destRole :: "Check \<Rightarrow> string" where
  "destRole req = (case effectiveKind req of KindApprove \<Rightarrow> ''spender'' | KindPermit \<Rightarrow> ''spender'' | _ \<Rightarrow> ''recipient'')"

definition isTokenOrApproval :: "Check \<Rightarrow> Kind \<Rightarrow> bool" where
  "isTokenOrApproval req kind =
     (if kind = KindApprove \<or> kind = KindPermit then True
      else if kind = KindTransfer then
        (ck_Token req \<noteq> [] \<and> ToLower (ck_Token req) \<noteq> ''eth'')
        \<or> (ToLower (ck_Asset req) \<noteq> [] \<and> ToLower (ck_Asset req) \<noteq> ''eth'')
      else False)"

definition typedAllowMatch :: "TypedAllow list \<Rightarrow> Check \<Rightarrow> bool" where
  "typedAllowMatch allowed req = list_ex (\<lambda>a. ta_ChainID a = ck_TypedChainID req \<and>
     EqualFold (ta_VerifyingContract a) (ck_TypedVerifying req) \<and> ta_PrimaryType a = ck_TypedPrimary req) allowed"

definition contractAddrAllowlisted :: "Policy \<Rightarrow> resolvedLimits \<Rightarrow> Check \<Rightarrow> bool" where
  "contractAddrAllowlisted p lim req = (let contract = lowerHex (ck_ContractAddr req) in
     if contract = [] then False
     else if rl_includeSelf lim \<and> inSelf p contract then True
     else list_ex (\<lambda>a. EqualFold (pin_Address a) contract) (po_Allowlist p))"

definition contractAllowMatch :: "ContractAllow list \<Rightarrow> string \<Rightarrow> address \<Rightarrow> string \<Rightarrow> bool" where
  "contractAllowMatch l network contract selector =
     (let c = lowerHex contract; sel = ToLower (TrimSpace selector) in
      list_ex (\<lambda>a. EqualFold (ca_Network a) network \<and> EqualFold (ca_Contract a) c \<and>
        ToLower (TrimSpace (ca_Selector a)) = sel) l)"

definition tokenHardDeny :: "Policy \<Rightarrow> string \<Rightarrow> string \<Rightarrow> bool" where
  "tokenHardDeny p network token =
     (case find (\<lambda>t. EqualFold (tr_Network t) network \<and> EqualFold (tr_Address t) token) (po_Tokens p) of
        None \<Rightarrow> False | Some t \<Rightarrow> tr_AllowUnlimited t = Some False)"

definition isUnlimitedAmount :: "int option \<Rightarrow> bool" where
  "isUnlimitedAmount amount = (case amount of None \<Rightarrow> False
     | Some a \<Rightarrow> a = 2 ^ 256 - 1 \<or> a = 2 ^ 160 - 1 \<or> a = 2 ^ 96 - 1)"

section \<open>The stages\<close>

definition stageDenylist :: "Policy \<Rightarrow> Check \<Rightarrow> Violation option" where
  "stageDenylist p req = (let dest = lowerHex (ck_Dest req) in
     if list_ex (\<lambda>d. matchPin d dest (ck_ToInput req)) (po_Denylist p)
     then Some \<lparr>vi_Code = codeAllowlist, vi_Data = [(''address'', JStr dest), (''role'', JStr (destRole req)),
            (''reason'', JStr ''denylisted'')]\<rparr>
     else None)"

definition stageAllowlist :: "Policy \<Rightarrow> resolvedLimits \<Rightarrow> Check \<Rightarrow> Violation option" where
  "stageAllowlist p lim req =
     (if \<not> rl_allowlistEnabled lim then None
      else if ck_UnknownCalldata req then None
      else let dest = lowerHex (ck_Dest req) in
        if rl_includeSelf lim \<and> inSelf p dest then None
        else if list_ex (\<lambda>a. EqualFold (pin_Address a) dest \<and> dest \<noteq> []) (po_Allowlist p) then None
        else Some \<lparr>vi_Code = codeAllowlist, vi_Data = [(''address'', JStr dest), (''role'', JStr (destRole req)),
               (''reason'', JStr ''not_allowlisted'')]\<rparr>)"

definition stageNoAllowlist :: "Policy \<Rightarrow> resolvedLimits \<Rightarrow> Check \<Rightarrow> Kind \<Rightarrow> Violation option" where
  "stageNoAllowlist p lim req kind =
     (if rl_allowlistEnabled lim then None
      else if \<not> isTokenOrApproval req kind then None
      else if \<not> rl_anySet lim then None
      else if po_TokensNoAllowlistOK p then None
      else Some \<lparr>vi_Code = codeNoAllowlist, vi_Data = [(''network'', JStr (ck_Network req))]\<rparr>)"

definition pin_violation :: "string \<Rightarrow> string \<Rightarrow> string \<Rightarrow> string \<Rightarrow> Violation" where
  "pin_violation reason name pinned current = \<lparr>vi_Code = codePinDrift, vi_Data = [(''reason'', JStr reason),
     (''name'', JStr name), (''pinned'', JStr pinned), (''current'', JStr current)]\<rparr>"

definition stagePinDrift :: "Check \<Rightarrow> Violation option" where
  "stagePinDrift req = (let dest = lowerHex (ck_Dest req); fresh = lowerHex (ck_ENSResolved req) in
     case ck_ToSrc req of
       SourceENS \<Rightarrow>
         if fresh = [] \<or> ck_ENSResolved req = zero_address
         then Some (pin_violation ''ens_unresolved'' (ck_ENSName req) dest [])
         else if fresh \<noteq> dest then Some (pin_violation ''ens_drift'' (ck_ENSName req) dest fresh)
         else None
     | SourceContact \<Rightarrow>
         if fresh \<noteq> [] \<and> fresh \<noteq> dest
         then Some (pin_violation ''contact_drift'' (ck_ToInput req) dest fresh)
         else None
     | _ \<Rightarrow> None)"

definition typed_violation :: "string \<Rightarrow> Check \<Rightarrow> Violation" where
  "typed_violation reason req = \<lparr>vi_Code = codeTypedData, vi_Data = [(''reason'', JStr reason),
     (''primary_type'', JStr (ck_TypedPrimary req)), (''verifying_contract'', JStr (ck_TypedVerifying req)),
     (''chain_id'', JInt (ck_TypedChainID req))]\<rparr>"

definition stageTypedData :: "Policy \<Rightarrow> resolvedLimits \<Rightarrow> Check \<Rightarrow> Violation option" where
  "stageTypedData p lim req = (let chainMismatch = HasPrefix (ck_Asset req) ''chain_mismatch'' in
     if effectiveKind req = KindPermit \<and> chainMismatch
     then Some \<lparr>vi_Code = codeTypedData, vi_Data = [(''reason'', JStr ''chain_mismatch'')]\<rparr>
     else if \<not> ck_TypedUnknown req then None
     else if chainMismatch then Some (typed_violation ''chain_mismatch'' req)
     else if typedAllowMatch (td_Allowed (po_TypedData p)) req then None
     else if EqualFold (TrimSpace (rl_typedUnknown lim)) ''allow'' then None
     else Some (typed_violation ''unknown'' req))"

definition stageUnknownCalldata :: "Policy \<Rightarrow> resolvedLimits \<Rightarrow> Check \<Rightarrow> Violation option" where
  "stageUnknownCalldata p lim req =
     (if \<not> ck_UnknownCalldata req then None
      else if contractAddrAllowlisted p lim req then None
      else if contractAllowMatch (po_ContractsAllowed p) (ck_Network req) (ck_ContractAddr req) (ck_Selector req) then None
      else Some \<lparr>vi_Code = codeContractCall, vi_Data = [
        (''reason'', JStr (if ck_Selector req = [] \<or> ck_Selector req = ''0x'' then ''unknown_selector'' else ''not_allowed'')),
        (''network'', JStr (ck_Network req)), (''contract'', JStr (lowerHex (ck_ContractAddr req))),
        (''selector'', JStr (ck_Selector req))]\<rparr>)"

definition stagePerTx :: "resolvedLimits \<Rightarrow> Check \<Rightarrow> Kind \<Rightarrow> Violation option" where
  "stagePerTx lim req kind =
     (if kind = KindPermit then None
      else case rl_maxTx lim of None \<Rightarrow> None
      | Some m \<Rightarrow> let attempted = spendWei req + maxGasWei req in
          if attempted > m then Some \<lparr>vi_Code = codeTxLimit, vi_Data = [(''limit'', JStr (int_dec m)),
            (''attempted'', JStr (int_dec attempted)), (''network'', JStr (ck_Network req))]\<rparr>
          else None)"

definition unlimited_violation :: "string \<Rightarrow> Check \<Rightarrow> Violation" where
  "unlimited_violation token req = \<lparr>vi_Code = codeUnlimitedUnacked, vi_Data = [(''token'', JStr token),
     (''spender'', JStr (lowerHex (ck_Dest req)))]\<rparr>"

definition stageUnlimited :: "Policy \<Rightarrow> Check \<Rightarrow> Kind \<Rightarrow> Violation option" where
  "stageUnlimited p req kind =
     (if kind \<noteq> KindApprove \<and> kind \<noteq> KindPermit then None
      else if \<not> ck_Unlimited req \<and> \<not> isUnlimitedAmount (ck_TokenAmt req) then None
      else let token = (if ToLower (ck_Token req) = [] then ToLower (ck_Asset req) else ToLower (ck_Token req)) in
        if tokenHardDeny p (ck_Network req) token then Some (unlimited_violation token req)
        else if \<not> ck_Acked req then Some (unlimited_violation token req)
        else None)"

abbreviation (input) day :: time where "day \<equiv> 86400000000000"

definition stageDaily :: "resolvedLimits \<Rightarrow> Check \<Rightarrow> int option \<Rightarrow> time \<Rightarrow> Violation option" where
  "stageDaily lim req spentWindowWei now =
     (case rl_maxDay lim of None \<Rightarrow> None
      | Some m \<Rightarrow> if effectiveKind req = KindPermit then None
          else let used = or_zero spentWindowWei; thisDebit = spendWei req + maxGasWei req in
            if used + thisDebit > m then Some \<lparr>vi_Code = codeDayLimit, vi_Data = [(''limit'', JStr (int_dec m)),
              (''used_24h'', JStr (int_dec used)), (''attempted'', JStr (int_dec thisDebit)),
              (''retry_after'', JTime (now + day))]\<rparr>
            else None)"

definition stageGasCap :: "resolvedLimits \<Rightarrow> Check \<Rightarrow> Violation option" where
  "stageGasCap lim req =
     (case rl_maxGasPrice lim of None \<Rightarrow> None
      | Some m \<Rightarrow> let attempted = maxFeePerGas req in
          if attempted = 0 then None
          else if attempted > m then Some \<lparr>vi_Code = codeGasCap, vi_Data = [(''cap'', JStr (int_dec m)),
            (''attempted'', JStr (int_dec attempted))]\<rparr>
          else None)"

section \<open>Composition\<close>

definition violationsPayload :: "Violation list \<Rightarrow> jval" where
  "violationsPayload vs = JList (map (\<lambda>v. JObj (foldl (\<lambda>m (k, x). upsert k x m) [(''code'', JStr (vi_Code v))] (vi_Data v))) vs)"

definition pick_winner :: "Violation \<Rightarrow> Violation list \<Rightarrow> Violation" where
  "pick_winner v vs = foldl (\<lambda>w v. if rank (vi_Code v) < rank (vi_Code w) then v else w) v vs"

definition composeDenial :: "Violation list \<Rightarrow> Decision" where
  "composeDenial vs = (let winner = pick_winner (hd vs) (tl vs) in
     \<lparr>de_Allowed = False, de_Code = vi_Code winner, de_Violations = vs,
      de_RetryAfter = (case map_of (vi_Data winner) ''retry_after'' of Some (JTime t) \<Rightarrow> Some t | _ \<Rightarrow> None),
      de_Data = foldl (\<lambda>m (k, x). upsert k x m) [(''violations'', violationsPayload vs)] (vi_Data winner)\<rparr>)"

definition allowed_decision :: Decision where
  "allowed_decision = \<lparr>de_Allowed = True, de_Code = [], de_Violations = [], de_RetryAfter = None, de_Data = []\<rparr>"

text \<open>The violations of a request in the order of the stages.\<close>

definition violations_of :: "Policy \<Rightarrow> Check \<Rightarrow> int option \<Rightarrow> time \<Rightarrow> Violation list" where
  "violations_of p req spentWindowWei now =
    (let lim = resolveLimits p (ck_Network req); kind = effectiveKind req; opt = case_option [] (\<lambda>v. [v]) in
     (case stageDenylist p req of Some v \<Rightarrow> [v]
      | None \<Rightarrow> opt (stageAllowlist p lim req) @ opt (stageNoAllowlist p lim req kind))
     @ opt (stagePinDrift req) @ opt (stageTypedData p lim req) @ opt (stageUnknownCalldata p lim req)
     @ opt (stagePerTx lim req kind) @ opt (stageUnlimited p req kind)
     @ opt (stageDaily lim req spentWindowWei now) @ opt (stageGasCap lim req))"

definition Evaluate :: "Policy \<Rightarrow> Check \<Rightarrow> int option \<Rightarrow> time \<Rightarrow> Decision" where
  "Evaluate p req spentWindowWei now =
    (if ck_TypedUnknown req then
       (case stageTypedData p (resolveLimits p (ck_Network req)) req of
          Some v \<Rightarrow> composeDenial [v] | None \<Rightarrow> allowed_decision)
     else let vs = violations_of p req spentWindowWei now in
       if vs = [] then allowed_decision else composeDenial vs)"

section \<open>What the pipeline promises\<close>

text \<open>What a run without violation means, one predicate per stage: the bridge between the stages and the policy document below.\<close>

definition denylisted :: "Policy \<Rightarrow> Check \<Rightarrow> bool" where
  "denylisted p req \<longleftrightarrow> (\<exists>d \<in> set (po_Denylist p).
     (lowerHex (ck_Dest req) \<noteq> [] \<and> EqualFold (pin_Address d) (lowerHex (ck_Dest req)))
     \<or> (pin_Source d \<in> {''contact'', ''ens''} \<and> pin_Name d \<noteq> [] \<and> ck_ToInput req \<noteq> [] \<and> EqualFold (pin_Name d) (ck_ToInput req)))"

definition destination_listed :: "Policy \<Rightarrow> resolvedLimits \<Rightarrow> address \<Rightarrow> bool" where
  "destination_listed p lim a \<longleftrightarrow>
     (rl_includeSelf lim \<and> (\<exists>s \<in> set (po_SelfAddresses p). EqualFold s (lowerHex a)))
     \<or> (lowerHex a \<noteq> [] \<and> (\<exists>e \<in> set (po_Allowlist p). EqualFold (pin_Address e) (lowerHex a)))"

definition pin_fresh :: "Check \<Rightarrow> bool" where
  "pin_fresh req \<longleftrightarrow>
     (ck_ToSrc req = SourceENS \<longrightarrow> lowerHex (ck_ENSResolved req) \<noteq> [] \<and> lowerHex (ck_ENSResolved req) = lowerHex (ck_Dest req))
     \<and> (ck_ToSrc req = SourceContact \<longrightarrow> lowerHex (ck_ENSResolved req) \<in> {[], lowerHex (ck_Dest req)})"

definition under :: "int \<Rightarrow> int option \<Rightarrow> bool" where
  "under x m \<longleftrightarrow> (case m of None \<Rightarrow> True | Some l \<Rightarrow> x \<le> l)"

definition calldata_trusted :: "Policy \<Rightarrow> resolvedLimits \<Rightarrow> Check \<Rightarrow> bool" where
  "calldata_trusted p lim req \<longleftrightarrow>
     (lowerHex (ck_ContractAddr req) \<noteq> [] \<and> destination_listed p lim (ck_ContractAddr req))
     \<or> (\<exists>a \<in> set (po_ContractsAllowed p). EqualFold (ca_Network a) (ck_Network req) \<and>
          EqualFold (ca_Contract a) (lowerHex (ck_ContractAddr req)) \<and>
          ToLower (TrimSpace (ca_Selector a)) = ToLower (TrimSpace (ck_Selector req)))"

definition unlimited_grant :: "Check \<Rightarrow> bool" where
  "unlimited_grant req \<longleftrightarrow> effectiveKind req \<in> {KindApprove, KindPermit} \<and> (ck_Unlimited req \<or> isUnlimitedAmount (ck_TokenAmt req))"

definition grant_token :: "Check \<Rightarrow> string" where
  "grant_token req = (if ck_Token req = [] then ToLower (ck_Asset req) else ToLower (ck_Token req))"

definition debit :: "Check \<Rightarrow> int" where
  "debit req = spendWei req + maxGasWei req"

definition permitted :: "Policy \<Rightarrow> Check \<Rightarrow> int option \<Rightarrow> bool" where
  "permitted p req used \<longleftrightarrow>
    (let lim = resolveLimits p (ck_Network req) in
       \<not> denylisted p req
     \<and> (rl_allowlistEnabled lim \<and> \<not> ck_UnknownCalldata req \<longrightarrow> destination_listed p lim (ck_Dest req))
     \<and> (\<not> rl_allowlistEnabled lim \<and> isTokenOrApproval req (effectiveKind req) \<and> rl_anySet lim \<longrightarrow> po_TokensNoAllowlistOK p)
     \<and> pin_fresh req
     \<and> \<not> (effectiveKind req = KindPermit \<and> HasPrefix (ck_Asset req) ''chain_mismatch'')
     \<and> (ck_UnknownCalldata req \<longrightarrow> calldata_trusted p lim req)
     \<and> (effectiveKind req \<noteq> KindPermit \<longrightarrow> under (debit req) (rl_maxTx lim) \<and> under (or_zero used + debit req) (rl_maxDay lim))
     \<and> (unlimited_grant req \<longrightarrow> ck_Acked req \<and> \<not> tokenHardDeny p (ck_Network req) (grant_token req))
     \<and> (maxFeePerGas req \<noteq> 0 \<longrightarrow> under (maxFeePerGas req) (rl_maxGasPrice lim)))"

definition typed_permitted :: "Policy \<Rightarrow> Check \<Rightarrow> bool" where
  "typed_permitted p req \<longleftrightarrow> \<not> HasPrefix (ck_Asset req) ''chain_mismatch'' \<and>
     ((\<exists>a \<in> set (td_Allowed (po_TypedData p)). ta_ChainID a = ck_TypedChainID req \<and>
         EqualFold (ta_VerifyingContract a) (ck_TypedVerifying req) \<and> ta_PrimaryType a = ck_TypedPrimary req)
      \<or> EqualFold (TrimSpace (rl_typedUnknown (resolveLimits p (ck_Network req)))) ''allow'')"

section \<open>Lemmas: each stage implements its rule\<close>

lemma lowerHex_Nil: "lowerHex a = [] \<longleftrightarrow> a = zero_address \<or> a = []"
  by (simp add: lowerHex_def)

lemma stageDenylist_None: "stageDenylist p req = None \<longleftrightarrow> \<not> denylisted p req"
  by (auto simp: stageDenylist_def denylisted_def matchPin_def Let_def list_ex_iff)

lemma stageAllowlist_None:
  "stageAllowlist p lim req = None \<longleftrightarrow>
     (rl_allowlistEnabled lim \<and> \<not> ck_UnknownCalldata req \<longrightarrow> destination_listed p lim (ck_Dest req))"
  by (auto simp: stageAllowlist_def destination_listed_def inSelf_def Let_def list_ex_iff)

lemma stageNoAllowlist_None:
  "stageNoAllowlist p lim req k = None \<longleftrightarrow>
     (\<not> rl_allowlistEnabled lim \<and> isTokenOrApproval req k \<and> rl_anySet lim \<longrightarrow> po_TokensNoAllowlistOK p)"
  by (auto simp: stageNoAllowlist_def)

lemma stagePinDrift_None: "stagePinDrift req = None \<longleftrightarrow> pin_fresh req"
  by (auto simp: stagePinDrift_def pin_fresh_def Let_def split: ToSource.splits)

lemma stageTypedData_None:
  "stageTypedData p lim req = None \<longleftrightarrow>
     \<not> (effectiveKind req = KindPermit \<and> HasPrefix (ck_Asset req) ''chain_mismatch'') \<and>
     (ck_TypedUnknown req \<longrightarrow> \<not> HasPrefix (ck_Asset req) ''chain_mismatch'' \<and>
       (typedAllowMatch (td_Allowed (po_TypedData p)) req \<or> EqualFold (TrimSpace (rl_typedUnknown lim)) ''allow''))"
  by (auto simp: stageTypedData_def Let_def)

lemma stageUnknownCalldata_None:
  "stageUnknownCalldata p lim req = None \<longleftrightarrow> (ck_UnknownCalldata req \<longrightarrow> calldata_trusted p lim req)"
  by (auto simp: stageUnknownCalldata_def calldata_trusted_def destination_listed_def contractAddrAllowlisted_def
      contractAllowMatch_def inSelf_def Let_def list_ex_iff)

lemma stagePerTx_None:
  "stagePerTx lim req k = None \<longleftrightarrow> (k \<noteq> KindPermit \<longrightarrow> under (debit req) (rl_maxTx lim))"
  by (auto simp: stagePerTx_def under_def debit_def Let_def split: option.splits)

lemma stageUnlimited_None:
  "stageUnlimited p req (effectiveKind req) = None \<longleftrightarrow>
     (unlimited_grant req \<longrightarrow> ck_Acked req \<and> \<not> tokenHardDeny p (ck_Network req) (grant_token req))"
  by (auto simp: stageUnlimited_def unlimited_grant_def grant_token_def Let_def)

lemma stageDaily_None:
  "stageDaily lim req used now = None \<longleftrightarrow>
     (effectiveKind req \<noteq> KindPermit \<longrightarrow> under (or_zero used + debit req) (rl_maxDay lim))"
  by (auto simp: stageDaily_def under_def debit_def Let_def split: option.splits)

lemma stageGasCap_None:
  "stageGasCap lim req = None \<longleftrightarrow> (maxFeePerGas req \<noteq> 0 \<longrightarrow> under (maxFeePerGas req) (rl_maxGasPrice lim))"
  by (auto simp: stageGasCap_def under_def Let_def split: option.splits)

lemmas stage_None = stageDenylist_None stageAllowlist_None stageNoAllowlist_None stagePinDrift_None
  stageUnknownCalldata_None stagePerTx_None stageUnlimited_None stageDaily_None stageGasCap_None

lemma opt_list_Nil [simp]: "case_option [] (\<lambda>v. [v]) x = [] \<longleftrightarrow> x = None"
  by (cases x) auto

lemma violations_Nil_stages:
  "violations_of p req used now = [] \<longleftrightarrow>
    (let lim = resolveLimits p (ck_Network req); kind = effectiveKind req in
      stageDenylist p req = None \<and> stageAllowlist p lim req = None \<and> stageNoAllowlist p lim req kind = None \<and>
      stagePinDrift req = None \<and> stageTypedData p lim req = None \<and> stageUnknownCalldata p lim req = None \<and>
      stagePerTx lim req kind = None \<and> stageUnlimited p req kind = None \<and> stageDaily lim req used now = None \<and>
      stageGasCap lim req = None)"
  by (cases "stageDenylist p req") (auto simp: violations_of_def Let_def)

lemma violations_Nil: "\<not> ck_TypedUnknown req \<Longrightarrow> violations_of p req used now = [] \<longleftrightarrow> permitted p req used"
  unfolding violations_Nil_stages Let_def permitted_def stage_None stageTypedData_None by blast

lemma Evaluate_allowed: "\<not> ck_TypedUnknown req \<Longrightarrow> de_Allowed (Evaluate p req used now) \<longleftrightarrow> permitted p req used"
  using violations_Nil [of req p used now] by (simp add: Evaluate_def Let_def allowed_decision_def composeDenial_def)

lemma Evaluate_typed: "ck_TypedUnknown req \<Longrightarrow> de_Allowed (Evaluate p req used now) \<longleftrightarrow> typed_permitted p req"
  using stageTypedData_None [of p "resolveLimits p (ck_Network req)" req]
  by (auto simp: Evaluate_def Let_def allowed_decision_def composeDenial_def typed_permitted_def typedAllowMatch_def
      list_ex_iff split: option.splits)

lemma pick_winner_mem: "pick_winner v vs \<in> insert v (set vs)"
proof (induction vs arbitrary: v)
  case (Cons w vs)
  from Cons.IH [of "if rank (vi_Code w) < rank (vi_Code v) then w else v"] show ?case
    by (auto simp: pick_winner_def split: if_splits)
qed (simp add: pick_winner_def)

lemma pick_winner_min: "x \<in> insert v (set vs) \<Longrightarrow> rank (vi_Code (pick_winner v vs)) \<le> rank (vi_Code x)"
proof (induction vs arbitrary: v x)
  case (Cons w vs)
  let ?u = "if rank (vi_Code w) < rank (vi_Code v) then w else v"
  have e: "pick_winner v (w # vs) = pick_winner ?u vs" by (simp add: pick_winner_def)
  have u: "rank (vi_Code ?u) \<le> rank (vi_Code v)" "rank (vi_Code ?u) \<le> rank (vi_Code w)" by auto
  have "rank (vi_Code (pick_winner ?u vs)) \<le> rank (vi_Code ?u)" using Cons.IH [of ?u ?u] by simp
  thus ?case using Cons.prems Cons.IH [of x ?u] u unfolding e by (auto intro: order_trans)
qed (simp add: pick_winner_def)

definition denial_codes :: "string set" where
  "denial_codes = {codeTxLimit, codeDayLimit, codeAllowlist, codeNoAllowlist, codeGasCap, codePinDrift,
     codeTypedData, codeUnlimitedUnacked, codeContractCall}"

lemma stage_codes:
  "stageDenylist p req = Some v \<Longrightarrow> vi_Code v = codeAllowlist"
  "stageAllowlist p lim req = Some v \<Longrightarrow> vi_Code v = codeAllowlist"
  "stageNoAllowlist p lim req k = Some v \<Longrightarrow> vi_Code v = codeNoAllowlist"
  "stagePinDrift req = Some v \<Longrightarrow> vi_Code v = codePinDrift"
  "stageTypedData p lim req = Some v \<Longrightarrow> vi_Code v = codeTypedData"
  "stageUnknownCalldata p lim req = Some v \<Longrightarrow> vi_Code v = codeContractCall"
  "stagePerTx lim req k = Some v \<Longrightarrow> vi_Code v = codeTxLimit"
  "stageUnlimited p req k = Some v \<Longrightarrow> vi_Code v = codeUnlimitedUnacked"
  "stageDaily lim req used now = Some v \<Longrightarrow> vi_Code v = codeDayLimit"
  "stageGasCap lim req = Some v \<Longrightarrow> vi_Code v = codeGasCap"
  by (auto simp: stageDenylist_def stageAllowlist_def stageNoAllowlist_def stagePinDrift_def pin_violation_def
      stageTypedData_def typed_violation_def stageUnknownCalldata_def stagePerTx_def stageUnlimited_def
      unlimited_violation_def stageDaily_def stageGasCap_def Let_def
      split: if_splits option.splits ToSource.splits)

lemma in_opt: "v \<in> set (case_option [] (\<lambda>v. [v]) x) \<longleftrightarrow> x = Some v"
  by (cases x) auto

lemma violations_codes: "v \<in> set (violations_of p req used now) \<Longrightarrow> vi_Code v \<in> denial_codes"
  by (cases "stageDenylist p req") (auto simp: violations_of_def Let_def in_opt denial_codes_def dest: stage_codes stage_codes [OF sym])

lemma denial_code_exit: "c \<in> denial_codes \<Longrightarrow> ExitOf c = ExitPolicyDenied"
  using ExitOf_denied [of "''tx_limit''"] ExitOf_denied [of "''day_limit''"] ExitOf_denied [of "''allowlist''"]
    ExitOf_denied [of "''no_allowlist''"] ExitOf_denied [of "''gas_cap''"] ExitOf_denied [of "''pin_drift''"]
    ExitOf_denied [of "''typed_data''"] ExitOf_denied [of "''unlimited_unacked''"] ExitOf_denied [of "''contract_call''"]
  by (auto simp: denial_codes_def)

text \<open>The shape of a denial.\<close>

lemma Evaluate_denied:
  assumes "\<not> de_Allowed (Evaluate p req used now)"
  obtains vs where "vs \<noteq> []" "Evaluate p req used now = composeDenial vs"
    "\<And>v. v \<in> set vs \<Longrightarrow> vi_Code v \<in> denial_codes" "\<not> ck_TypedUnknown req \<Longrightarrow> vs = violations_of p req used now"
proof (cases "ck_TypedUnknown req")
  case True
  then obtain v where v: "stageTypedData p (resolveLimits p (ck_Network req)) req = Some v"
    using assms by (auto simp: Evaluate_def allowed_decision_def split: option.splits)
  show ?thesis using that [of "[v]"] True v stage_codes(5) [OF v] by (auto simp: Evaluate_def denial_codes_def)
next
  case False
  let ?vs = "violations_of p req used now"
  have "?vs \<noteq> []" using assms False by (auto simp: Evaluate_def Let_def allowed_decision_def)
  thus ?thesis using that [of ?vs] False violations_codes by (auto simp: Evaluate_def Let_def)
qed

lemma composeDenial_winner:
  assumes "vs \<noteq> []"
  obtains w where "w \<in> set vs" "de_Code (composeDenial vs) = vi_Code w" "\<And>v. v \<in> set vs \<Longrightarrow> rank (vi_Code w) \<le> rank (vi_Code v)"
proof -
  obtain v vs' where e: "vs = v # vs'" using assms by (cases vs) auto
  show ?thesis using that [of "pick_winner v vs'"] pick_winner_mem [of v vs'] pick_winner_min [of _ v vs']
    by (auto simp: e composeDenial_def Let_def)
qed

lemma denial_code_ne: "c \<in> denial_codes \<Longrightarrow> c \<noteq> []"
  by (auto simp: denial_codes_def)

lemma Evaluate_denied_code:
  assumes "\<not> de_Allowed (Evaluate p req used now)"
  shows "de_Code (Evaluate p req used now) \<in> denial_codes"
proof -
  obtain vs where vs: "vs \<noteq> []" "Evaluate p req used now = composeDenial vs" "\<And>v. v \<in> set vs \<Longrightarrow> vi_Code v \<in> denial_codes"
    using Evaluate_denied [OF assms] by blast
  obtain w where "w \<in> set vs" "de_Code (composeDenial vs) = vi_Code w" using composeDenial_winner [OF vs(1)] by blast
  thus ?thesis using vs by simp
qed

lemma composeDenial_sel [simp]: "de_Violations (composeDenial vs) = vs" "\<not> de_Allowed (composeDenial vs)"
  by (simp_all add: composeDenial_def Let_def)

section \<open>The policy read as a document\<close>

text \<open>What a policy means, written without the pipeline: no stage, no resolved limits and none of the matching helpers.  A rule
  for a network is the first one that names it.\<close>

definition first_match :: "('a \<Rightarrow> bool) \<Rightarrow> 'a list \<Rightarrow> 'a \<Rightarrow> bool" where
  "first_match P xs x \<longleftrightarrow> (\<exists>before after. xs = before @ x # after \<and> P x \<and> (\<forall>y \<in> set before. \<not> P y))"

abbreviation "network_rule p net n \<equiv> first_match (\<lambda>n. EqualFold (nr_Network n) net) (ru_Networks (po_Rules p)) n"

text \<open>A cap binds when the rule of the network sets it, or when the default rule does and the rule of the network leaves it alone
  (or holds a number that cannot be read); an explicit null lifts it.\<close>

inductive binding_cap :: "(Limits \<Rightarrow> limit) \<Rightarrow> Policy \<Rightarrow> string \<Rightarrow> int \<Rightarrow> bool" where
  network_cap: "network_rule p net n \<Longrightarrow> f (nr_Limits n) = Amount s \<Longrightarrow> SetString s = Some v \<Longrightarrow> binding_cap f p net v"
| default_cap: "\<forall>n. network_rule p net n \<longrightarrow> f (nr_Limits n) = Absent \<or> (\<exists>s. f (nr_Limits n) = Amount s \<and> SetString s = None) \<Longrightarrow>
    f (ru_Default (po_Rules p)) = Amount s \<Longrightarrow> SetString s = Some v \<Longrightarrow> binding_cap f p net v"

definition within_cap :: "(Limits \<Rightarrow> limit) \<Rightarrow> Policy \<Rightarrow> string \<Rightarrow> int \<Rightarrow> bool" where
  "within_cap f p net x \<longleftrightarrow> (\<forall>v. binding_cap f p net v \<longrightarrow> x \<le> v)"

text \<open>A switch is on when the rule of the network turns it on, or when the default rule does and the rule of the network is silent.\<close>

definition switched_on :: "(Limits \<Rightarrow> bool option) \<Rightarrow> Policy \<Rightarrow> string \<Rightarrow> bool" where
  "switched_on f p net \<longleftrightarrow> (\<exists>n. network_rule p net n \<and> f (nr_Limits n) = Some True)
     \<or> (f (ru_Default (po_Rules p)) = Some True \<and> (\<forall>n. network_rule p net n \<longrightarrow> f (nr_Limits n) = None))"

definition unknown_typed_ok :: "Policy \<Rightarrow> string \<Rightarrow> bool" where
  "unknown_typed_ok p net \<longleftrightarrow> (\<exists>s. EqualFold (TrimSpace s) ''allow'' \<and>
     ((\<exists>n. network_rule p net n \<and> TypedDataUnknown (nr_Limits n) = Some s)
      \<or> (s = td_Unknown (po_TypedData p) \<and> (\<forall>n. network_rule p net n \<longrightarrow> TypedDataUnknown (nr_Limits n) = None))))"

text \<open>An address is written in an entry; an address the policy trusts as a destination.\<close>

definition names_address :: "string \<Rightarrow> address \<Rightarrow> bool" where
  "names_address s a \<longleftrightarrow> a \<noteq> zero_address \<and> a \<noteq> [] \<and> EqualFold s a"

definition trusted_address :: "Policy \<Rightarrow> string \<Rightarrow> address \<Rightarrow> bool" where
  "trusted_address p net a \<longleftrightarrow> (\<exists>e \<in> set (po_Allowlist p). names_address (pin_Address e) a)
     \<or> (switched_on IncludeSelf p net \<and> (\<exists>s \<in> set (po_SelfAddresses p). EqualFold s (lowerHex a)))"

definition a_permit :: "Check \<Rightarrow> bool" where
  "a_permit req \<longleftrightarrow> ck_KindEnum req = KindPermit \<or> (ck_KindEnum req = KindUnknown \<and> ck_Kind req = ''permit'')"

definition an_approval :: "Check \<Rightarrow> bool" where
  "an_approval req \<longleftrightarrow> ck_KindEnum req = KindApprove \<or> (ck_KindEnum req = KindUnknown \<and> ck_Kind req \<in> {''approve'', ''revoke''})"

definition a_transfer :: "Check \<Rightarrow> bool" where
  "a_transfer req \<longleftrightarrow> ck_KindEnum req = KindTransfer \<or> (ck_KindEnum req = KindUnknown \<and> ck_Kind req \<notin> {''approve'', ''revoke'', ''permit''})"

definition names_token :: "string \<Rightarrow> bool" where
  "names_token s \<longleftrightarrow> s \<noteq> [] \<and> \<not> EqualFold s ''eth''"

definition unbounded_amount :: "Check \<Rightarrow> bool" where
  "unbounded_amount req \<longleftrightarrow> ck_Unlimited req \<or> ck_TokenAmt req \<in> {Some (2 ^ 256 - 1), Some (2 ^ 160 - 1), Some (2 ^ 96 - 1)}"

text \<open>The rule for a token is again the first one for that network and address.\<close>

definition never_unlimited :: "Policy \<Rightarrow> string \<Rightarrow> string \<Rightarrow> bool" where
  "never_unlimited p net token \<longleftrightarrow> (\<exists>t. first_match (\<lambda>t. EqualFold (tr_Network t) net \<and> EqualFold (tr_Address t) token) (po_Tokens p) t
     \<and> tr_AllowUnlimited t = Some False)"

definition foreign_chain :: "Check \<Rightarrow> bool" where
  "foreign_chain req \<longleftrightarrow> (\<exists>rest. ck_Asset req = ''chain_mismatch'' @ rest)"

text \<open>The rules for a transaction or a recognised permit, one per line.\<close>

definition policy_allows :: "Policy \<Rightarrow> Check \<Rightarrow> int \<Rightarrow> bool" where
  "policy_allows p req used \<longleftrightarrow>
    (let net = ck_Network req; cost = or_zero (ck_SpendWei req) + or_zero (ck_MaxGasWei req); fee = or_zero (ck_MaxFeePerGas req);
         listing = switched_on AllowlistEnabled p net in
       (\<forall>d \<in> set (po_Denylist p). \<not> names_address (pin_Address d) (ck_Dest req)
          \<and> \<not> (pin_Source d \<in> {''contact'', ''ens''} \<and> pin_Name d \<noteq> [] \<and> ck_ToInput req \<noteq> [] \<and> EqualFold (pin_Name d) (ck_ToInput req)))
     \<and> (listing \<and> \<not> ck_UnknownCalldata req \<longrightarrow> trusted_address p net (ck_Dest req))
     \<and> (\<not> listing \<and> (a_permit req \<or> an_approval req \<or> (a_transfer req \<and> (names_token (ck_Token req) \<or> names_token (ck_Asset req))))
          \<and> (\<exists>f \<in> {MaxTxWei, MaxDayWei, MaxGasPriceWei}. \<exists>v. binding_cap f p net v) \<longrightarrow> po_TokensNoAllowlistOK p)
     \<and> (ck_ToSrc req = SourceENS \<longrightarrow> lowerHex (ck_ENSResolved req) \<noteq> [] \<and> lowerHex (ck_ENSResolved req) = lowerHex (ck_Dest req))
     \<and> (ck_ToSrc req = SourceContact \<longrightarrow> lowerHex (ck_ENSResolved req) \<in> {[], lowerHex (ck_Dest req)})
     \<and> \<not> (a_permit req \<and> foreign_chain req)
     \<and> (ck_UnknownCalldata req \<longrightarrow> (lowerHex (ck_ContractAddr req) \<noteq> [] \<and> trusted_address p net (ck_ContractAddr req))
          \<or> (\<exists>a \<in> set (po_ContractsAllowed p). EqualFold (ca_Network a) net \<and> EqualFold (ca_Contract a) (lowerHex (ck_ContractAddr req))
               \<and> EqualFold (TrimSpace (ca_Selector a)) (TrimSpace (ck_Selector req))))
     \<and> (\<not> a_permit req \<longrightarrow> within_cap MaxTxWei p net cost \<and> within_cap MaxDayWei p net (used + cost))
     \<and> ((a_permit req \<or> an_approval req) \<and> unbounded_amount req \<longrightarrow> ck_Acked req
          \<and> \<not> never_unlimited p net (if ck_Token req = [] then ck_Asset req else ck_Token req))
     \<and> (fee \<noteq> 0 \<longrightarrow> within_cap MaxGasPriceWei p net fee))"

text \<open>The rules for a typed message nobody recognises.\<close>

definition typed_allows :: "Policy \<Rightarrow> Check \<Rightarrow> bool" where
  "typed_allows p req \<longleftrightarrow> \<not> foreign_chain req \<and> (unknown_typed_ok p (ck_Network req) \<or>
     (\<exists>a \<in> set (td_Allowed (po_TypedData p)). ta_ChainID a = ck_TypedChainID req \<and>
        EqualFold (ta_VerifyingContract a) (ck_TypedVerifying req) \<and> ta_PrimaryType a = ck_TypedPrimary req))"

section \<open>Lemmas: the pipeline's helpers read the document\<close>

lemma find_first: "find P xs = Some x \<longleftrightarrow> first_match P xs x"
proof (induction xs)
  case (Cons y xs)
  show ?case
  proof (cases "P y")
    case True
    thus ?thesis by (auto simp: first_match_def Cons_eq_append_conv)
  next
    case False
    thus ?thesis using Cons.IH by (auto simp: first_match_def Cons_eq_append_conv) (metis set_ConsD)
  qed
qed (simp add: first_match_def)

lemma first_match_unique: "first_match P xs x \<Longrightarrow> first_match P xs y \<Longrightarrow> x = y"
  by (metis find_first option.inject)

lemma network_cases:
  obtains (none) "find (\<lambda>n. EqualFold (nr_Network n) net) (ru_Networks (po_Rules p)) = None" "\<And>n. \<not> network_rule p net n"
  | (one) n where "find (\<lambda>n. EqualFold (nr_Network n) net) (ru_Networks (po_Rules p)) = Some n" "\<And>m. network_rule p net m \<longleftrightarrow> m = n"
proof (cases "find (\<lambda>n. EqualFold (nr_Network n) net) (ru_Networks (po_Rules p))")
  case None
  thus ?thesis using none find_first [of "\<lambda>n. EqualFold (nr_Network n) net" "ru_Networks (po_Rules p)"] by (metis option.distinct(1))
next
  case (Some n)
  hence "\<And>m. network_rule p net m \<longleftrightarrow> m = n" by (metis find_first option.inject)
  thus ?thesis using one Some by blast
qed

lemma parseLimit_cap: "parseLimit l = Some v \<longleftrightarrow> (\<exists>s. l = Amount s \<and> SetString s = Some v)"
  by (cases l) auto

lemma override_cap:
  "overrideLimit cur l = Some v \<longleftrightarrow> (\<exists>s. l = Amount s \<and> SetString s = Some v) \<or>
     (cur = Some v \<and> (l = Absent \<or> (\<exists>s. l = Amount s \<and> SetString s = None)))"
  by (cases l) (auto split: option.split)

lemma caps_bind:
  "rl_maxTx (resolveLimits p net) = Some v \<longleftrightarrow> binding_cap MaxTxWei p net v"
  "rl_maxDay (resolveLimits p net) = Some v \<longleftrightarrow> binding_cap MaxDayWei p net v"
  "rl_maxGasPrice (resolveLimits p net) = Some v \<longleftrightarrow> binding_cap MaxGasPriceWei p net v"
  by (cases rule: network_cases [of net p];
      simp add: resolveLimits_def Let_def binding_cap.simps override_cap parseLimit_cap; blast)+

lemma switches_on:
  "rl_allowlistEnabled (resolveLimits p net) \<longleftrightarrow> switched_on AllowlistEnabled p net"
  "rl_includeSelf (resolveLimits p net) \<longleftrightarrow> switched_on IncludeSelf p net"
  by (cases rule: network_cases [of net p]; auto simp: resolveLimits_def Let_def switched_on_def boolOr_def split: option.split)+

lemma any_cap: "rl_anySet (resolveLimits p net) \<longleftrightarrow> (\<exists>f \<in> {MaxTxWei, MaxDayWei, MaxGasPriceWei}. \<exists>v. binding_cap f p net v)"
proof -
  have "rl_anySet (resolveLimits p net) \<longleftrightarrow> (\<exists>v. rl_maxTx (resolveLimits p net) = Some v) \<or> (\<exists>v. rl_maxDay (resolveLimits p net) = Some v)
      \<or> (\<exists>v. rl_maxGasPrice (resolveLimits p net) = Some v)" by (simp add: resolveLimits_def Let_def)
  thus ?thesis unfolding caps_bind by blast
qed

lemma typed_switch: "EqualFold (TrimSpace (rl_typedUnknown (resolveLimits p net))) ''allow'' \<longleftrightarrow> unknown_typed_ok p net"
  by (cases rule: network_cases [of net p]; auto simp: resolveLimits_def Let_def unknown_typed_ok_def split: option.split)

lemma under_within:
  "under x (rl_maxTx (resolveLimits p net)) \<longleftrightarrow> within_cap MaxTxWei p net x"
  "under x (rl_maxDay (resolveLimits p net)) \<longleftrightarrow> within_cap MaxDayWei p net x"
  "under x (rl_maxGasPrice (resolveLimits p net)) \<longleftrightarrow> within_cap MaxGasPriceWei p net x"
  unfolding within_cap_def caps_bind [symmetric] by (simp_all add: under_def split: option.split)

lemma kinds_read:
  "effectiveKind req = KindPermit \<longleftrightarrow> a_permit req" "effectiveKind req = KindApprove \<longleftrightarrow> an_approval req"
  "effectiveKind req = KindTransfer \<longleftrightarrow> a_transfer req"
  by (auto simp: effectiveKind_def a_permit_def an_approval_def a_transfer_def)

lemma written_lower: "(lowerHex a \<noteq> [] \<and> EqualFold s (lowerHex a)) \<longleftrightarrow> names_address s a"
  by (auto simp: names_address_def lowerHex_def EqualFold_def ToLower_Nil_iff)

lemma trusted_read: "destination_listed p (resolveLimits p net) a \<longleftrightarrow> trusted_address p net a"
  using written_lower by (auto simp: destination_listed_def trusted_address_def switches_on)

lemma token_read: "isTokenOrApproval req (effectiveKind req) \<longleftrightarrow>
    a_permit req \<or> an_approval req \<or> (a_transfer req \<and> (names_token (ck_Token req) \<or> names_token (ck_Asset req)))"
  unfolding kinds_read [symmetric] by (auto simp: isTokenOrApproval_def names_token_def EqualFold_def str_simps)

lemma unlimited_read: "unlimited_grant req \<longleftrightarrow> (a_permit req \<or> an_approval req) \<and> unbounded_amount req"
  unfolding kinds_read [symmetric] by (auto simp: unlimited_grant_def unbounded_amount_def isUnlimitedAmount_def split: option.split)

lemma hard_deny_read: "tokenHardDeny p net (grant_token req) \<longleftrightarrow> never_unlimited p net (if ck_Token req = [] then ck_Asset req else ck_Token req)"
  unfolding tokenHardDeny_def never_unlimited_def find_first [symmetric]
  by (auto simp: grant_token_def EqualFold_def split: option.split)

lemma HasPrefix_append: "HasPrefix s p \<longleftrightarrow> (\<exists>rest. s = p @ rest)"
  unfolding HasPrefix_def by (metis append_eq_conv_conj append_take_drop_id)

lemma chain_read: "HasPrefix (ck_Asset req) ''chain_mismatch'' \<longleftrightarrow> foreign_chain req"
  unfolding foreign_chain_def HasPrefix_append ..

lemma calldata_read: "calldata_trusted p (resolveLimits p net) req \<longleftrightarrow> (lowerHex (ck_ContractAddr req) \<noteq> [] \<and> trusted_address p net (ck_ContractAddr req))
    \<or> (\<exists>a \<in> set (po_ContractsAllowed p). EqualFold (ca_Network a) (ck_Network req) \<and> EqualFold (ca_Contract a) (lowerHex (ck_ContractAddr req))
         \<and> EqualFold (TrimSpace (ca_Selector a)) (TrimSpace (ck_Selector req)))"
  by (simp add: calldata_trusted_def trusted_read EqualFold_def)

lemma denied_read: "\<not> denylisted p req \<longleftrightarrow> (\<forall>d \<in> set (po_Denylist p). \<not> names_address (pin_Address d) (ck_Dest req)
    \<and> \<not> (pin_Source d \<in> {''contact'', ''ens''} \<and> pin_Name d \<noteq> [] \<and> ck_ToInput req \<noteq> [] \<and> EqualFold (pin_Name d) (ck_ToInput req)))"
  unfolding denylisted_def written_lower by blast

lemma permitted_read: "permitted p req used \<longleftrightarrow> policy_allows p req (or_zero used)"
  unfolding permitted_def policy_allows_def Let_def denied_read switches_on trusted_read token_read any_cap pin_fresh_def kinds_read chain_read
    calldata_read under_within unlimited_read hard_deny_read debit_def spendWei_def maxGasWei_def maxFeePerGas_def conj_assoc
  ..

lemma typed_read: "typed_permitted p req \<longleftrightarrow> typed_allows p req"
  unfolding typed_permitted_def typed_allows_def chain_read typed_switch by blast

section \<open>A concrete policy and request\<close>

text \<open>Per-transaction limit 1000 wei, day limit 5000 wei, gas price cap 50 wei, no allowlist.\<close>

definition demo_policy :: Policy where
  "demo_policy = \<lparr>po_Version = 1, po_Nonce = 1, po_UpdatedAt = [], po_WrittenBy = [], po_Messages = ''allow'',
     po_TokensNoAllowlistOK = False,
     po_Rules = \<lparr>ru_Default = \<lparr>MaxTxWei = Amount ''1000'', MaxDayWei = Amount ''5000'', MaxGasPriceWei = Amount ''50'',
        AllowlistEnabled = None, IncludeSelf = None, TypedDataUnknown = None\<rparr>, ru_Networks = []\<rparr>,
     po_Tokens = [], po_Allowlist = [], po_Denylist = [], po_SelfAddresses = [],
     po_TypedData = \<lparr>td_Unknown = ''deny'', td_Allowed = []\<rparr>, po_ContractsAllowed = []\<rparr>"

definition demo_check :: Check where
  "demo_check = \<lparr>ck_Account = ''0xa1'', ck_Dest = ''0xb2'', ck_SpendWei = Some 700, ck_MaxGasWei = Some 200,
     ck_MaxFeePerGas = Some 10, ck_Kind = ''transfer'', ck_Token = [], ck_IsRBFDelta = False, ck_Acked = False,
     ck_Network = ''mainnet'', ck_KindEnum = KindUnknown, ck_ToSrc = SourceRawAddress, ck_ToInput = ''0xb2'',
     ck_ENSName = [], ck_ENSResolved = zero_address, ck_Asset = ''eth'', ck_TokenAmt = None, ck_Unlimited = False,
     ck_AccountNonce = Some 3, ck_TypedUnknown = False, ck_TypedPrimary = [], ck_TypedVerifying = [], ck_TypedChainID = 0,
     ck_UnknownCalldata = False, ck_ContractAddr = zero_address, ck_Selector = []\<rparr>"

lemma demo_limits: "resolveLimits demo_policy net = \<lparr>rl_maxTx = Some 1000, rl_maxDay = Some 5000, rl_maxGasPrice = Some 50,
    rl_allowlistEnabled = False, rl_includeSelf = False, rl_anySet = True, rl_typedUnknown = ''deny''\<rparr>"
  by (simp add: resolveLimits_def demo_policy_def boolOr_def dec_eval)

lemma demo_kind: "effectiveKind demo_check = KindTransfer"
  by (simp add: effectiveKind_def demo_check_def)

lemma demo_permitted: "permitted demo_policy (demo_check\<lparr>ck_SpendWei := v\<rparr>) used \<longleftrightarrow>
    or_zero v \<le> 800 \<and> or_zero used + or_zero v \<le> 4800"
  by (auto simp: permitted_def demo_limits denylisted_def pin_fresh_def isTokenOrApproval_def effectiveKind_def
      unlimited_grant_def under_def debit_def spendWei_def maxGasWei_def maxFeePerGas_def demo_check_def
      str_simps char_of_def bit_0)
    (simp_all add: demo_policy_def)

section \<open>Properties\<close>

text \<open>C22. The pipeline implements the policy read as a document (\<open>policy_allows\<close>, which shares no stage, limit resolution or
  matching helper with it): a request is allowed exactly when its destination is on no deny entry, is trusted when the allowlist of its
  network is on, a token operation under limits without an allowlist was opted into, the pin is fresh, a permit is for the active chain,
  unknown calldata goes to a trusted contract or an allowed triple, the value plus gas keeps the caps that bind on its network (a permit
  carries none), an unlimited grant is acknowledged and not forbidden for the token, and the fee keeps its cap (a fee of zero or none is
  not compared).  Each cap and switch is the one of the first rule for the network, else the default's.  An unrecognised typed message is
  allowed exactly when it is for the active chain and an allow entry or the switch of its network covers it.\<close>

theorem Evaluate_refines_permitted:
  "de_Allowed (Evaluate p req used now) \<longleftrightarrow>
     (if ck_TypedUnknown req then typed_allows p req else policy_allows p req (or_zero used))"
  using Evaluate_allowed Evaluate_typed permitted_read typed_read by simp

text \<open>A denial is complete and honest: it lists at least one violation, every listed code is a
  policy denial that exits with status 3, the decision's code is one of them and has the best precedence
  among all of them, and outside the typed-data path the list is the full list of failed stages.\<close>

lemma Evaluate_denial_code:
  assumes "\<not> de_Allowed (Evaluate p req used now)"
  shows "de_Violations (Evaluate p req used now) \<noteq> [] \<and>
    de_Code (Evaluate p req used now) \<in> vi_Code ` set (de_Violations (Evaluate p req used now)) \<and>
    ExitOf (de_Code (Evaluate p req used now)) = ExitPolicyDenied \<and>
    (\<forall>v \<in> set (de_Violations (Evaluate p req used now)).
       ExitOf (vi_Code v) = ExitPolicyDenied \<and> rank (de_Code (Evaluate p req used now)) \<le> rank (vi_Code v)) \<and>
    (\<not> ck_TypedUnknown req \<longrightarrow> de_Violations (Evaluate p req used now) = violations_of p req used now)"
proof -
  obtain vs where vs: "vs \<noteq> []" "Evaluate p req used now = composeDenial vs"
    "\<And>v. v \<in> set vs \<Longrightarrow> vi_Code v \<in> denial_codes" "\<not> ck_TypedUnknown req \<Longrightarrow> vs = violations_of p req used now"
    using Evaluate_denied [OF assms] by blast
  obtain w where w: "w \<in> set vs" "de_Code (composeDenial vs) = vi_Code w"
    "\<And>v. v \<in> set vs \<Longrightarrow> rank (vi_Code w) \<le> rank (vi_Code v)"
    using composeDenial_winner [OF vs(1)] by blast
  show ?thesis using vs w denial_code_exit by auto
qed


text \<open>Spending less never hurts: if a request is allowed, it stays allowed when the day's window total is
  no larger and the request moves no more value, reserves no more gas and bids no higher a fee.\<close>

lemma Evaluate_monotone:
  assumes "de_Allowed (Evaluate p req (Some used) now)" "used' \<le> used"
    "or_zero v \<le> spendWei req" "or_zero g \<le> maxGasWei req" "0 < or_zero f" "or_zero f \<le> maxFeePerGas req"
  shows "de_Allowed (Evaluate p (req\<lparr>ck_SpendWei := v, ck_MaxGasWei := g, ck_MaxFeePerGas := f\<rparr>) (Some used') now')"
proof -
  let ?r = "req\<lparr>ck_SpendWei := v, ck_MaxGasWei := g, ck_MaxFeePerGas := f\<rparr>"
  have same: "effectiveKind ?r = effectiveKind req" "denylisted p ?r = denylisted p req" "pin_fresh ?r = pin_fresh req"
    "isTokenOrApproval ?r k = isTokenOrApproval req k" "calldata_trusted p lim ?r = calldata_trusted p lim req"
    "unlimited_grant ?r = unlimited_grant req" "grant_token ?r = grant_token req" "typed_permitted p ?r = typed_permitted p req" for k lim
    by (simp_all add: effectiveKind_def denylisted_def pin_fresh_def isTokenOrApproval_def calldata_trusted_def
        unlimited_grant_def grant_token_def typed_permitted_def)
  have amt: "debit ?r \<le> debit req" "maxFeePerGas ?r \<le> maxFeePerGas req" "maxFeePerGas req \<noteq> 0"
    using assms by (simp_all add: debit_def spendWei_def maxGasWei_def maxFeePerGas_def)
  have un: "x \<le> y \<Longrightarrow> under y m \<Longrightarrow> under x m" for x y m by (auto simp: under_def split: option.splits)
  have "permitted p req (Some used) \<Longrightarrow> permitted p ?r (Some used')"
    using amt un [OF amt(1)] un [OF amt(2)] un [OF add_mono [OF assms(2) amt(1)]]
    unfolding permitted_def Let_def by (simp add: same)
  thus ?thesis using assms(1) by (cases "ck_TypedUnknown req") (simp_all add: Evaluate_allowed Evaluate_typed same)
qed


end
