(* ===== verification/Policy_Counter.thy ===== *)
theory Policy_Counter
  imports Policy_Types
begin

text \<open>
  The spend counter of \<open>internal/policy/counter.go\<close>: one document per (network, account), one entry
  per (account, nonce), one candidate per replace-by-fee attempt.  The rolling 24 hour window is the
  sum over the entries of the largest value and the largest gas of their live candidates.

  A document is modelled after JSON decoding.  A timestamp is \<open>None\<close> when the stored text does not
  parse, which \<open>parseTS\<close> maps to Go's zero time.  Wei amounts stay decimal strings, as on disk.
\<close>

section \<open>Data\<close>

datatype candState = candReserved | candCommitted | candReleased | candReplaced | candOther string

record counterCandidate =
  cc_TxHash :: string
  cc_ValueWei :: string
  cc_GasMaxWei :: string
  cc_GasActualWei :: "string option"
  cc_State :: candState

record counterEntry =
  ce_ID :: string
  ce_TS :: "time option"
  ce_AccountNonce :: "(64 word) option"
  ce_Kind :: string
  ce_Asset :: string
  ce_Candidates :: "counterCandidate list"

record counterFile =
  cf_Version :: int
  cf_PolicyNonce :: "64 word"
  cf_Network :: string
  cf_From :: string
  cf_Entries :: "counterEntry list"

text \<open>Go's zero time (year 1), in nanoseconds from the Unix epoch.\<close>

definition zero_time :: time where
  "zero_time = -62135596800000000000"

definition parseTS :: "time option \<Rightarrow> time" where
  "parseTS s = (case s of None \<Rightarrow> zero_time | Some t \<Rightarrow> t)"

section \<open>The window sum\<close>

abbreviation (input) day_ns :: time where "day_ns \<equiv> 86400000000000"

text \<open>\<open>!ts.IsZero() && ts.Before(cutoff)\<close>.\<close>

definition aged_out :: "time \<Rightarrow> counterEntry \<Rightarrow> bool" where
  "aged_out now e \<longleftrightarrow> parseTS (ce_TS e) \<noteq> zero_time \<and> parseTS (ce_TS e) < now - day_ns"

definition entryAllReleased :: "counterEntry \<Rightarrow> bool" where
  "entryAllReleased e = (if ce_Candidates e = [] then True
     else list_all (\<lambda>c. cc_State c = candReleased) (ce_Candidates e))"

definition entry_maxValueWei :: "counterEntry \<Rightarrow> int" where
  "entry_maxValueWei e = foldl (\<lambda>m c. if cc_State c = candReleased then m
     else case SetString (cc_ValueWei c) of Some v \<Rightarrow> if v > m then v else m | None \<Rightarrow> m) 0 (ce_Candidates e)"

definition cand_gas :: "counterCandidate \<Rightarrow> int" where
  "cand_gas c = (case cc_GasActualWei c of
       Some a \<Rightarrow> (case SetString a of Some v \<Rightarrow> v | None \<Rightarrow> 0)
     | None \<Rightarrow> (case SetString (cc_GasMaxWei c) of Some v \<Rightarrow> v | None \<Rightarrow> 0))"

definition entry_maxGasWei :: "counterEntry \<Rightarrow> int" where
  "entry_maxGasWei e = foldl (\<lambda>m c. if cc_State c = candReleased then m
     else if cand_gas c > m then cand_gas c else m) 0 (ce_Candidates e)"

definition sumWindow :: "counterFile \<Rightarrow> time \<Rightarrow> int" where
  "sumWindow cf now = foldl (\<lambda>sum e. if aged_out now e then sum else if entryAllReleased e then sum
     else sum + entry_maxValueWei e + entry_maxGasWei e) 0 (cf_Entries cf)"

definition sumWindowExcluding :: "counterFile \<Rightarrow> time \<Rightarrow> string \<Rightarrow> int" where
  "sumWindowExcluding cf now excludeID = foldl (\<lambda>sum e. if ce_ID e = excludeID then sum
     else if aged_out now e then sum else if entryAllReleased e then sum
     else sum + entry_maxValueWei e + entry_maxGasWei e) 0 (cf_Entries cf)"

section \<open>Pruning\<close>

definition allCandidatesTerminal :: "counterEntry \<Rightarrow> bool" where
  "allCandidatesTerminal e = list_all (\<lambda>c. case cc_State c of
       candReleased \<Rightarrow> True | candReplaced \<Rightarrow> True
     | candCommitted \<Rightarrow> cc_GasActualWei c \<noteq> None
     | _ \<Rightarrow> False) (ce_Candidates e)"

definition pruneCounter :: "counterFile \<Rightarrow> time \<Rightarrow> counterFile" where
  "pruneCounter cf now = cf\<lparr>cf_Entries := filter (\<lambda>e. \<not> (aged_out now e \<and> allCandidatesTerminal e)) (cf_Entries cf)\<rparr>"

section \<open>Lookup and update\<close>

definition findEntry :: "counterFile \<Rightarrow> string \<Rightarrow> counterEntry option" where
  "findEntry cf rid = find (\<lambda>e. ce_ID e = rid) (cf_Entries cf)"

definition findEntryByNonce :: "counterFile \<Rightarrow> (64 word) option \<Rightarrow> counterEntry option" where
  "findEntryByNonce cf nonce = (case nonce of None \<Rightarrow> None
     | Some n \<Rightarrow> find (\<lambda>e. ce_AccountNonce e = Some n) (cf_Entries cf))"

text \<open>Mutation through the pointer a find returned: the first matching element is replaced.\<close>

fun update_first :: "('a \<Rightarrow> bool) \<Rightarrow> ('a \<Rightarrow> 'a) \<Rightarrow> 'a list \<Rightarrow> 'a list" where
  "update_first P f [] = []"
| "update_first P f (x # xs) = (if P x then f x # xs else x # update_first P f xs)"

definition sortEntriesByTS :: "counterFile \<Rightarrow> counterFile" where
  "sortEntriesByTS cf = cf\<lparr>cf_Entries := sort_key (\<lambda>e. parseTS (ce_TS e)) (cf_Entries cf)\<rparr>"

definition assetOf :: "Check \<Rightarrow> string" where
  "assetOf c = (if ck_Asset c \<noteq> [] then ck_Asset c else if ck_Token c \<noteq> [] then ck_Token c else ''eth'')"

definition new_candidate :: "Check \<Rightarrow> counterCandidate" where
  "new_candidate c = \<lparr>cc_TxHash = [], cc_ValueWei = int_dec (spendWei c), cc_GasMaxWei = int_dec (maxGasWei c),
     cc_GasActualWei = None, cc_State = candReserved\<rparr>"

text \<open>A replacement joins the entry of its nonce; anything else opens an entry of its own under the
  reservation id.\<close>

definition debitCounter :: "counterFile \<Rightarrow> string \<Rightarrow> Check \<Rightarrow> time \<Rightarrow> counterFile" where
  "debitCounter cf rid c now =
    (case (if ck_IsRBFDelta c then findEntryByNonce cf (ck_AccountNonce c) else None) of
       Some _ \<Rightarrow> cf\<lparr>cf_Entries := update_first (\<lambda>e. ce_AccountNonce e = ck_AccountNonce c)
         (\<lambda>e. e\<lparr>ce_Candidates := ce_Candidates e @ [new_candidate c]\<rparr>) (cf_Entries cf)\<rparr>
     | None \<Rightarrow> sortEntriesByTS (cf\<lparr>cf_Entries := cf_Entries cf @
         [\<lparr>ce_ID = rid, ce_TS = Some now, ce_AccountNonce = ck_AccountNonce c, ce_Kind = ck_Kind c,
           ce_Asset = assetOf c, ce_Candidates = [new_candidate c]\<rparr>]\<rparr>))"

text \<open>The index of the candidate a commit, settle or release acts on: the last one not released, or
  the last one.\<close>

definition primary_index :: "counterCandidate list \<Rightarrow> nat option" where
  "primary_index cs = (case find (\<lambda>i. cc_State (cs ! i) \<noteq> candReleased) (rev [0..<length cs]) of
       Some i \<Rightarrow> Some i
     | None \<Rightarrow> if cs \<noteq> [] then Some (length cs - 1) else None)"

definition mut_primary :: "(counterCandidate \<Rightarrow> counterCandidate) \<Rightarrow> counterEntry \<Rightarrow> counterEntry" where
  "mut_primary f e = (case primary_index (ce_Candidates e) of None \<Rightarrow> e
     | Some i \<Rightarrow> e\<lparr>ce_Candidates := (ce_Candidates e)[i := f (ce_Candidates e ! i)]\<rparr>)"

section \<open>Candidate transitions\<close>

definition commit_cand :: "string \<Rightarrow> counterCandidate \<Rightarrow> counterCandidate" where
  "commit_cand hash c = (if cc_State c \<noteq> candReleased then c\<lparr>cc_State := candCommitted, cc_TxHash := hash\<rparr> else c)"

definition release_cand :: "counterCandidate \<Rightarrow> counterCandidate" where
  "release_cand c = (if cc_State c = candReserved then c\<lparr>cc_State := candReleased\<rparr> else c)"

text \<open>The down-only adjustment shared by the reservation log and the counter: not above an earlier
  actual, not above the worst case.\<close>

definition settle_gas :: "int \<Rightarrow> string option \<Rightarrow> string \<Rightarrow> int" where
  "settle_gas actual prevS worstS =
    (let a = (case prevS of None \<Rightarrow> actual
              | Some s \<Rightarrow> (case SetString s of Some prev \<Rightarrow> if prev < actual then prev else actual | None \<Rightarrow> actual))
     in case SetString worstS of Some worst \<Rightarrow> if a > worst then worst else a | None \<Rightarrow> a)"

definition settle_cand :: "int \<Rightarrow> bool \<Rightarrow> counterCandidate \<Rightarrow> counterCandidate" where
  "settle_cand actual reverted c =
    (let c' = c\<lparr>cc_GasActualWei := Some (int_dec (settle_gas actual (cc_GasActualWei c) (cc_GasMaxWei c)))\<rparr>
     in if reverted then c'\<lparr>cc_ValueWei := ''0''\<rparr> else c')"

section \<open>Lemmas: the window as a sum\<close>

definition cand_value :: "counterCandidate \<Rightarrow> int" where
  "cand_value c = (case SetString (cc_ValueWei c) of Some v \<Rightarrow> v | None \<Rightarrow> 0)"

definition live :: "counterEntry \<Rightarrow> counterCandidate list" where
  "live e = filter (\<lambda>c. cc_State c \<noteq> candReleased) (ce_Candidates e)"

lemma entry_maxValueWei_alt: "entry_maxValueWei e = foldl max 0 (map cand_value (live e))"
proof -
  have "foldl (\<lambda>m c. if cc_State c = candReleased then m
      else case SetString (cc_ValueWei c) of Some v \<Rightarrow> if v > m then v else m | None \<Rightarrow> m) a cs
    = foldl max a (map cand_value (filter (\<lambda>c. cc_State c \<noteq> candReleased) cs))" if "0 \<le> a" for a cs
    using that
  proof (induction cs arbitrary: a)
    case (Cons c cs)
    have "(case SetString (cc_ValueWei c) of Some v \<Rightarrow> if v > a then v else a | None \<Rightarrow> a) = max a (cand_value c)"
      using Cons.prems by (auto simp: cand_value_def split: option.splits)
    moreover have "0 \<le> max a (cand_value c)" using Cons.prems by simp
    ultimately show ?case using Cons.IH [of a] Cons.IH [of "max a (cand_value c)"] Cons.prems by simp
  qed simp
  thus ?thesis by (simp add: entry_maxValueWei_def live_def)
qed

lemma entry_maxGasWei_alt: "entry_maxGasWei e = foldl max 0 (map cand_gas (live e))"
proof -
  have "foldl (\<lambda>m c. if cc_State c = candReleased then m else if cand_gas c > m then cand_gas c else m) a cs
    = foldl max a (map cand_gas (filter (\<lambda>c. cc_State c \<noteq> candReleased) cs))" for a cs
    by (induction cs arbitrary: a) (auto simp: max_def)
  thus ?thesis by (simp add: entry_maxGasWei_def live_def)
qed

lemma entryAllReleased_alt: "entryAllReleased e \<longleftrightarrow> live e = []"
  by (auto simp: entryAllReleased_def live_def filter_empty_conv list_all_iff)

definition envelope :: "counterEntry \<Rightarrow> int" where
  "envelope e = entry_maxValueWei e + entry_maxGasWei e"

definition contrib :: "time \<Rightarrow> counterEntry \<Rightarrow> int" where
  "contrib now e = (if aged_out now e then 0 else envelope e)"

lemma envelope_nonneg: "0 \<le> envelope e"
  using foldl_max_ge [of 0] by (simp add: envelope_def entry_maxValueWei_alt entry_maxGasWei_alt)

lemma envelope_released: "entryAllReleased e \<Longrightarrow> envelope e = 0"
  by (simp add: entryAllReleased_alt envelope_def entry_maxValueWei_alt entry_maxGasWei_alt)

lemma contrib_nonneg: "0 \<le> contrib now e"
  by (simp add: contrib_def envelope_nonneg)

lemma foldl_sum_list:
  fixes g :: "'a \<Rightarrow> int"
  assumes "\<And>s x. h s x = s + g x"
  shows "foldl h a xs = a + sum_list (map g xs)"
  by (induction xs arbitrary: a) (simp_all add: assms)

lemma sumWindow_sum: "sumWindow cf now = sum_list (map (contrib now) (cf_Entries cf))"
  unfolding sumWindow_def
  by (subst foldl_sum_list [where g = "contrib now"])
     (auto simp: contrib_def envelope_released envelope_def [symmetric] add.assoc)

lemma sumWindowExcluding_sum:
  "sumWindowExcluding cf now i = sum_list (map (contrib now) (filter (\<lambda>e. ce_ID e \<noteq> i) (cf_Entries cf)))"
proof -
  have "sumWindowExcluding cf now i = sum_list (map (\<lambda>e. if ce_ID e = i then 0 else contrib now e) (cf_Entries cf))"
    unfolding sumWindowExcluding_def
    by (subst foldl_sum_list [where g = "\<lambda>e. if ce_ID e = i then 0 else contrib now e"])
       (auto simp: contrib_def envelope_released envelope_def [symmetric] add.assoc)
  moreover have "sum_list (map (\<lambda>e. if ce_ID e = i then 0 else contrib now e) xs)
      = sum_list (map (contrib now) (filter (\<lambda>e. ce_ID e \<noteq> i) xs))" for xs by (induction xs) auto
  ultimately show ?thesis by simp
qed

lemma sumWindow_nonneg: "0 \<le> sumWindow cf now"
  by (simp add: sumWindow_sum sum_list_nonneg_int contrib_nonneg)

text \<open>Time only shrinks the window.\<close>

lemma aged_out_mono: "aged_out now e \<Longrightarrow> now \<le> now' \<Longrightarrow> aged_out now' e"
  by (auto simp: aged_out_def)

lemma sumWindow_antimono: "now \<le> now' \<Longrightarrow> sumWindow cf now' \<le> sumWindow cf now"
  unfolding sumWindow_sum
  by (rule sum_list_map_mono) (auto simp: contrib_def envelope_nonneg dest: aged_out_mono)

lemma sumWindow_prune: "now \<le> now' \<Longrightarrow> sumWindow (pruneCounter cf now) now' = sumWindow cf now'"
  unfolding sumWindow_sum pruneCounter_def
  by (simp, rule sum_list_filter_zero) (auto simp: contrib_def dest: aged_out_mono)

lemma sumWindow_sort: "sumWindow (sortEntriesByTS cf) now = sumWindow cf now"
  by (simp add: sumWindow_sum sortEntriesByTS_def flip: sum_mset_sum_list)

text \<open>Replacing one element changes the sum by the change of its term.\<close>

lemma sum_update_first:
  fixes g :: "'a \<Rightarrow> int"
  assumes "find P xs = Some x"
  shows "sum_list (map g (update_first P f xs)) = sum_list (map g xs) - g x + g (f x)"
  using assms by (induction xs) (auto split: if_splits)

lemma sum_update_first_le:
  fixes g :: "'a \<Rightarrow> int"
  assumes "\<And>x. x \<in> set xs \<Longrightarrow> g (f x) \<le> g x"
  shows "sum_list (map g (update_first P f xs)) \<le> sum_list (map g xs)"
  using assms by (induction xs) auto

lemma update_first_set: "y \<in> set (update_first P f xs) \<Longrightarrow> y \<in> set xs \<or> (\<exists>x \<in> set xs. P x \<and> y = f x)"
  by (induction xs) (auto split: if_splits)

lemma update_first_map: "(\<And>x. x \<in> set xs \<Longrightarrow> g (f x) = g x) \<Longrightarrow> map g (update_first P f xs) = map g xs"
  by (induction xs) auto

lemma primary_index_lt: "primary_index cs = Some i \<Longrightarrow> i < length cs"
  by (auto simp: primary_index_def find_Some_iff rev_nth split: option.splits if_splits)

lemma mut_primary_sel [simp]:
  "ce_ID (mut_primary f e) = ce_ID e" "ce_TS (mut_primary f e) = ce_TS e" "ce_AccountNonce (mut_primary f e) = ce_AccountNonce e"
  by (auto simp: mut_primary_def split: option.splits)

lemma aged_out_mut_primary [simp]: "aged_out now (mut_primary f e) = aged_out now e"
  by (simp add: aged_out_def)

text \<open>A candidate transition that neither revives a candidate nor raises its value or gas cannot raise
  the envelope.\<close>

definition shrinks :: "(counterCandidate \<Rightarrow> counterCandidate) \<Rightarrow> counterCandidate \<Rightarrow> bool" where
  "shrinks f c \<longleftrightarrow> (cc_State c = candReleased \<longrightarrow> cc_State (f c) = candReleased) \<and>
     cand_value (f c) \<le> max 0 (cand_value c) \<and> cand_gas (f c) \<le> max 0 (cand_gas c)"

lemma foldl_max_shrink:
  fixes g :: "counterCandidate \<Rightarrow> int"
  assumes "\<And>c. c \<in> set cs \<Longrightarrow> \<exists>d \<in> set ds. g c \<le> max 0 (g d)"
  shows "foldl max 0 (map g cs) \<le> foldl max 0 (map g ds)"
proof (rule foldl_max_least)
  show "0 \<le> foldl max 0 (map g ds)" by (rule foldl_max_ge)
  fix x assume "x \<in> set (map g cs)"
  then obtain d where "d \<in> set ds" "x \<le> max 0 (g d)" using assms by auto
  thus "x \<le> foldl max 0 (map g ds)" using foldl_max_mem [of "g d" "map g ds" 0] foldl_max_ge [of 0 "map g ds"] by auto
qed

lemma live_mut_primary:
  assumes "c \<in> set (live (mut_primary f e))" "\<And>d. d \<in> set (ce_Candidates e) \<Longrightarrow> shrinks f d"
  shows "\<exists>d \<in> set (live e). c = d \<or> c = f d"
proof (cases "primary_index (ce_Candidates e)")
  case None thus ?thesis using assms(1) by (auto simp: mut_primary_def)
next
  case (Some i)
  let ?cs = "ce_Candidates e"
  have i: "i < length ?cs" using primary_index_lt [OF Some] .
  have c: "c \<in> set (?cs[i := f (?cs ! i)])" "cc_State c \<noteq> candReleased"
    using assms(1) Some by (auto simp: mut_primary_def live_def)
  hence "c \<in> insert (f (?cs ! i)) (set ?cs)" by (meson set_update_subset_insert subsetD)
  moreover have "shrinks f (?cs ! i)" using assms(2) i by simp
  moreover have "?cs ! i \<in> set ?cs" using i by simp
  ultimately show ?thesis using c(2) unfolding live_def shrinks_def by (metis (mono_tags, lifting) insertE set_filter mem_Collect_eq)
qed

lemma envelope_mut_primary:
  assumes "\<And>d. d \<in> set (ce_Candidates e) \<Longrightarrow> shrinks f d"
  shows "envelope (mut_primary f e) \<le> envelope e"
proof -
  have m: "\<exists>d \<in> set (live e). cand_value c \<le> max 0 (cand_value d) \<and> cand_gas c \<le> max 0 (cand_gas d)"
    if c: "c \<in> set (live (mut_primary f e))" for c
  proof -
    obtain d where d: "d \<in> set (live e)" "c = d \<or> c = f d" using live_mut_primary [OF c assms] by blast
    hence "shrinks f d" using assms by (auto simp: live_def)
    thus ?thesis using d by (intro bexI [of _ d]) (auto simp: shrinks_def)
  qed
  have "entry_maxValueWei (mut_primary f e) \<le> entry_maxValueWei e"
    unfolding entry_maxValueWei_alt by (rule foldl_max_shrink) (use m in blast)
  moreover have "entry_maxGasWei (mut_primary f e) \<le> entry_maxGasWei e"
    unfolding entry_maxGasWei_alt by (rule foldl_max_shrink) (use m in blast)
  ultimately show ?thesis by (simp add: envelope_def)
qed

text \<open>Well-formed candidates: the worst-case gas is a decimal number, so that settling can only lower.\<close>

definition wf_cand :: "counterCandidate \<Rightarrow> bool" where
  "wf_cand c \<longleftrightarrow> SetString (cc_GasMaxWei c) \<noteq> None \<and>
     (case cc_GasActualWei c of None \<Rightarrow> True | Some s \<Rightarrow> SetString s \<noteq> None)"

definition wf_counter :: "counterFile \<Rightarrow> bool" where
  "wf_counter cf \<longleftrightarrow> (\<forall>e \<in> set (cf_Entries cf). \<forall>c \<in> set (ce_Candidates e). wf_cand c)"

lemma shrinks_commit: "shrinks (commit_cand h) c"
  by (auto simp: shrinks_def commit_cand_def cand_value_def cand_gas_def split: option.splits)

lemma shrinks_release: "shrinks release_cand c"
  by (auto simp: shrinks_def release_cand_def cand_value_def cand_gas_def split: option.splits)

lemma SetString_zero [simp]: "SetString ''0'' = Some 0"
  by (simp add: dec_eval)

lemma settle_gas_le:
  "SetString w = Some m \<Longrightarrow> settle_gas a p w \<le> m"
  "p = Some s \<Longrightarrow> SetString s = Some q \<Longrightarrow> settle_gas a p w \<le> q"
  "settle_gas a p w \<le> a"
  by (auto simp: settle_gas_def Let_def split: option.splits)

lemma shrinks_settle: "wf_cand c \<Longrightarrow> shrinks (settle_cand a r) c"
proof -
  assume w: "wf_cand c"
  have "cand_gas (settle_cand a r c) = settle_gas a (cc_GasActualWei c) (cc_GasMaxWei c)"
    by (simp add: settle_cand_def cand_gas_def Let_def)
  also have "\<dots> \<le> cand_gas c"
    using w settle_gas_le(1) [of "cc_GasMaxWei c" _ a "cc_GasActualWei c"]
      settle_gas_le(2) [of "cc_GasActualWei c" _ _ a "cc_GasMaxWei c"]
    by (auto simp: wf_cand_def cand_gas_def split: option.splits)
  finally have "cand_gas (settle_cand a r c) \<le> max 0 (cand_gas c)" by simp
  thus ?thesis by (auto simp: shrinks_def settle_cand_def cand_value_def Let_def)
qed

lemma wf_commit [simp]: "wf_cand (commit_cand h c) = wf_cand c"
  by (simp add: commit_cand_def wf_cand_def)

lemma wf_release [simp]: "wf_cand (release_cand c) = wf_cand c"
  by (simp add: release_cand_def wf_cand_def)

lemma wf_settle: "wf_cand c \<Longrightarrow> wf_cand (settle_cand a r c)"
  by (simp add: settle_cand_def wf_cand_def Let_def)

lemma wf_new_candidate [simp]: "wf_cand (new_candidate c)"
  by (simp add: wf_cand_def new_candidate_def)

lemma wf_mut_primary:
  assumes "\<And>c. c \<in> set (ce_Candidates e) \<Longrightarrow> wf_cand c" "\<And>c. wf_cand c \<Longrightarrow> wf_cand (f c)" "c \<in> set (ce_Candidates (mut_primary f e))"
  shows "wf_cand c"
proof (cases "primary_index (ce_Candidates e)")
  case None thus ?thesis using assms by (simp add: mut_primary_def)
next
  case (Some i)
  hence "c \<in> insert (f (ce_Candidates e ! i)) (set (ce_Candidates e))"
    using assms(3) by (simp add: mut_primary_def) (meson set_update_subset_insert subsetD insertE)
  thus ?thesis using assms(1,2) primary_index_lt [OF Some] by auto
qed

lemma wf_prune: "wf_counter cf \<Longrightarrow> wf_counter (pruneCounter cf now)"
  by (auto simp: wf_counter_def pruneCounter_def)

lemma wf_sort [simp]: "wf_counter (sortEntriesByTS cf) = wf_counter cf"
  by (simp add: wf_counter_def sortEntriesByTS_def)

lemma wf_debit: "wf_counter cf \<Longrightarrow> wf_counter (debitCounter cf rid c now)"
  by (auto simp: debitCounter_def wf_counter_def sortEntriesByTS_def split: option.splits dest!: update_first_set)

lemma wf_update_entry:
  assumes "wf_counter cf" "\<And>c. wf_cand c \<Longrightarrow> wf_cand (f c)"
  shows "wf_counter (cf\<lparr>cf_Entries := update_first P (mut_primary f) (cf_Entries cf)\<rparr>)"
  using assms wf_mut_primary [of _ f] by (fastforce simp: wf_counter_def dest!: update_first_set)

lemma sumWindow_update_entry:
  assumes "\<And>e c. e \<in> set (cf_Entries cf) \<Longrightarrow> c \<in> set (ce_Candidates e) \<Longrightarrow> shrinks f c"
  shows "sumWindow (cf\<lparr>cf_Entries := update_first P (mut_primary f) (cf_Entries cf)\<rparr>) now \<le> sumWindow cf now"
  unfolding sumWindow_sum using assms
  by (simp, intro sum_update_first_le) (auto simp: contrib_def intro!: envelope_mut_primary)

end
