(* ===== verification/Durable_Log.thy ===== *)
theory Durable_Log
  imports Daxie_Prelude
begin

text \<open>
  Files and append-only logs as the state-keeping components see them, and the contract of a durable
  keyed log as a locale.  A file is modelled after decoding: \<open>encoding/json\<close> reads back what it wrote.
  \<open>fsx.WriteAtomic\<close> (temporary file, fsync, rename) either replaces the whole content or leaves it
  unchanged; a log line is blank, unparseable or a record.
\<close>

datatype 'a stored = Missing | Unreadable | Corrupt | Content 'a

datatype 'r line = Blank | Bad | Rec 'r

text \<open>Outcomes of taking a lock (directory creation, then the flock) and of an atomic write.\<close>

datatype lockfault = LockOK | MkdirReadOnly | MkdirError | LockTimeout

datatype writefault = WriteOK | WriteDirReadOnly | WriteDirError | WriteReadOnly | WriteError

text \<open>The contract: putting a record makes it the latest of its key and keeps every record of another
  key that may not be dropped.  Both the reservation log of the policy engine and the transaction
  journal keep it.\<close>

locale durable_log =
  fixes lookup :: "'s \<Rightarrow> string \<Rightarrow> 'r option"
    and put :: "'r \<Rightarrow> 's \<Rightarrow> 's"
    and key :: "'r \<Rightarrow> string"
    and droppable :: "'r \<Rightarrow> bool"
    and ok :: "'s \<Rightarrow> bool"
    and okr :: "'r \<Rightarrow> 's \<Rightarrow> bool"
  assumes put_same: "ok s \<Longrightarrow> okr r s \<Longrightarrow> lookup (put r s) (key r) = Some r"
    and put_other: "ok s \<Longrightarrow> okr r s \<Longrightarrow> k \<noteq> key r \<Longrightarrow> lookup s k = Some q \<Longrightarrow> \<not> droppable q \<Longrightarrow> lookup (put r s) k = Some q"
    and put_new: "ok s \<Longrightarrow> okr r s \<Longrightarrow> k \<noteq> key r \<Longrightarrow> lookup (put r s) k \<in> {None, lookup s k}"
    and put_ok: "ok s \<Longrightarrow> okr r s \<Longrightarrow> ok (put r s)"
begin

text \<open>A history of puts, each of a record acceptable at its time.\<close>

fun history :: "'r list \<Rightarrow> 's \<Rightarrow> bool" where
  "history [] s \<longleftrightarrow> True"
| "history (r # rs) s \<longleftrightarrow> okr r s \<and> history rs (put r s)"

fun run :: "'r list \<Rightarrow> 's \<Rightarrow> 's" where
  "run [] s = s"
| "run (r # rs) s = run rs (put r s)"

lemma run_ok: "ok s \<Longrightarrow> history rs s \<Longrightarrow> ok (run rs s)"
  by (induction rs arbitrary: s) (auto simp: put_ok)

lemma survives:
  "ok s \<Longrightarrow> history rs s \<Longrightarrow> k \<notin> key ` set rs \<Longrightarrow> lookup s k = Some q \<Longrightarrow> \<not> droppable q \<Longrightarrow> lookup (run rs s) k = Some q"
proof (induction rs arbitrary: s)
  case (Cons r rs)
  have "lookup (put r s) k = Some q" using Cons.prems by (intro put_other) auto
  thus ?case using Cons.prems by (simp add: Cons.IH put_ok)
qed simp

lemma nothing_invented:
  "ok s \<Longrightarrow> history rs s \<Longrightarrow> lookup (run rs s) k = Some q \<Longrightarrow> lookup s k = Some q \<or> (q \<in> set rs \<and> key q = k)"
proof (induction rs arbitrary: s)
  case (Cons r rs)
  from Cons.IH [of "put r s"] Cons.prems have "lookup (put r s) k = Some q \<or> (q \<in> set rs \<and> key q = k)"
    by (auto simp: put_ok)
  moreover have "lookup (put r s) k = Some q \<Longrightarrow> lookup s k = Some q \<or> q = r \<and> key r = k"
    using put_same [of s r] put_new [of s r k] Cons.prems by (cases "k = key r") auto
  ultimately show ?case by auto
qed simp

lemma last_put_wins:
  assumes "ok s" "history (rs @ [r]) s"
  shows "lookup (run (rs @ [r]) s) (key r) = Some r"
  using assms by (induction rs arbitrary: s) (auto simp: put_same put_ok)

end

end
