(* ===== verification/Policy_Reservation.thy ===== *)
theory Policy_Reservation
  imports Policy_Counter Durable_Log
begin

text \<open>
  The reservation log of \<open>internal/policy/reservation.go\<close>: a JSON-lines file folded to the latest record
  per id.  The Go code keeps the fold as a map together with the list of ids in first-seen order; here
  the two are one association list in that order.
\<close>

datatype resState = stateReserved | stateCommitted | stateReleased | stateOther string

record Reservation =
  rs_ID :: string
  rs_Account :: address
  rs_Dest :: address
  rs_SpendWei :: string
  rs_MaxGasWei :: string
  rs_State :: resState
  rs_Hash :: string
  rs_ActualGasWei :: "string option"
  rs_TS :: time
  rs_Network :: string
  rs_PolicyNonce :: "64 word"

type_synonym resLog = "Reservation line list"
type_synonym resFold = "(string \<times> Reservation) list"

text \<open>The loop of \<open>loadAll\<close>; a bad line is tolerated only when no non-empty line follows it.\<close>

fun loadAll_loop :: "resLog \<Rightarrow> resFold \<Rightarrow> resFold option" where
  "loadAll_loop [] acc = Some acc"
| "loadAll_loop (Blank # ls) acc = loadAll_loop ls acc"
| "loadAll_loop (Bad # ls) acc = (if list_all (\<lambda>l. l = Blank) ls then loadAll_loop ls acc else None)"
| "loadAll_loop (Rec r # ls) acc = (if rs_ID r = [] then loadAll_loop ls acc
     else loadAll_loop ls (upsert (rs_ID r) r acc))"

definition loadAll :: "resLog stored \<Rightarrow> resFold result" where
  "loadAll f = (case f of
       Missing \<Rightarrow> Inr []
     | Content ls \<Rightarrow> (case loadAll_loop ls [] of Some m \<Rightarrow> Inr m | None \<Rightarrow> Inl (New ''state.corrupt''))
     | _ \<Rightarrow> Inl (New ''state.corrupt''))"

definition isTerminal :: "Reservation \<Rightarrow> bool" where
  "isTerminal r \<longleftrightarrow> rs_State r = stateReleased \<or> (rs_State r = stateCommitted \<and> rs_ActualGasWei r \<noteq> None)"

text \<open>The lines a compaction writes: the mutated record spliced in, terminal records of other ids
  dropped.\<close>

definition compacted :: "resFold \<Rightarrow> Reservation \<Rightarrow> resLog" where
  "compacted m r = map (\<lambda>(_, x). Rec x)
     (filter (\<lambda>(_, x). \<not> (isTerminal x \<and> rs_ID x \<noteq> rs_ID r)) (upsert (rs_ID r) r m))"

definition appendAndCompact :: "writefault \<Rightarrow> resFold \<Rightarrow> Reservation \<Rightarrow> resLog stored \<Rightarrow> unit result \<times> resLog stored" where
  "appendAndCompact w m r f = (case w of
       WriteOK \<Rightarrow> (Inr (), Content (compacted m r))
     | WriteDirReadOnly \<Rightarrow> (Inl (New ''config.read_only''), f)
     | WriteReadOnly \<Rightarrow> (Inl (New ''config.read_only''), f)
     | _ \<Rightarrow> (Inl (New ''state.corrupt''), f))"

section \<open>Lemmas\<close>

definition res_lookup :: "resLog stored \<Rightarrow> string \<Rightarrow> Reservation option" where
  "res_lookup f rid = (case loadAll f of Inr m \<Rightarrow> map_of m rid | Inl _ \<Rightarrow> None)"

definition res_put :: "Reservation \<Rightarrow> resLog stored \<Rightarrow> resLog stored" where
  "res_put r f = (case loadAll f of Inr m \<Rightarrow> Content (compacted m r) | Inl _ \<Rightarrow> f)"

definition readable :: "resLog stored \<Rightarrow> bool" where
  "readable f \<longleftrightarrow> (\<exists>m. loadAll f = Inr m)"

text \<open>A fold maps every id to a record of that id, each id once, never the empty one.\<close>

definition wf_fold :: "resFold \<Rightarrow> bool" where
  "wf_fold m \<longleftrightarrow> distinct (map fst m) \<and> (\<forall>(k, r) \<in> set m. k = rs_ID r \<and> k \<noteq> [])"

lemma wf_fold_Nil [simp]: "wf_fold []"
  by (simp add: wf_fold_def)

lemma wf_fold_upsert: "wf_fold m \<Longrightarrow> rs_ID r \<noteq> [] \<Longrightarrow> wf_fold (upsert (rs_ID r) r m)"
  by (auto simp: wf_fold_def distinct_upsert dest!: upsert_set)

lemma loadAll_loop_wf: "loadAll_loop ls acc = Some m \<Longrightarrow> wf_fold acc \<Longrightarrow> wf_fold m"
  by (induction ls acc rule: loadAll_loop.induct) (auto split: if_splits intro: wf_fold_upsert)

lemma loadAll_wf: "loadAll f = Inr m \<Longrightarrow> wf_fold m"
  by (auto simp: loadAll_def split: stored.splits option.splits dest: loadAll_loop_wf)

lemma loadAll_loop_recs:
  assumes "distinct (map fst acc @ map fst m)" "\<forall>(k, r) \<in> set m. k = rs_ID r \<and> k \<noteq> []"
  shows "loadAll_loop (map (\<lambda>(_, x). Rec x) m) acc = Some (acc @ m)"
  using assms
proof (induction m arbitrary: acc)
  case (Cons p m)
  obtain k r where p: "p = (k, r)" by (cases p)
  have k: "k = rs_ID r" "k \<noteq> []" using Cons.prems(2) p by auto
  have "k \<notin> fst ` set acc" using Cons.prems(1) p by auto
  hence u: "upsert k r acc = acc @ [(k, r)]" by (rule upsert_snoc)
  have "loadAll_loop (map (\<lambda>(_, x). Rec x) m) (acc @ [(k, r)]) = Some ((acc @ [(k, r)]) @ m)"
    using Cons.prems p by (intro Cons.IH) auto
  thus ?case using k u p by simp
qed simp

lemma loadAll_compacted:
  assumes "wf_fold m" "rs_ID r \<noteq> []"
  shows "loadAll (Content (compacted m r)) =
    Inr (filter (\<lambda>(_, x). \<not> (isTerminal x \<and> rs_ID x \<noteq> rs_ID r)) (upsert (rs_ID r) r m))"
proof -
  let ?m = "filter (\<lambda>(_, x). \<not> (isTerminal x \<and> rs_ID x \<noteq> rs_ID r)) (upsert (rs_ID r) r m)"
  have w: "wf_fold (upsert (rs_ID r) r m)" using assms by (rule wf_fold_upsert)
  have "distinct (map fst ?m)" using w by (auto simp: wf_fold_def distinct_map_filter)
  moreover have "\<forall>(k, x) \<in> set ?m. k = rs_ID x \<and> k \<noteq> []" using w by (auto simp: wf_fold_def)
  ultimately have "loadAll_loop (map (\<lambda>(_, x). Rec x) ?m) [] = Some ?m"
    using loadAll_loop_recs [of "[]" ?m] by simp
  thus ?thesis by (simp add: loadAll_def compacted_def)
qed

lemma map_of_filter_distinct:
  assumes "distinct (map fst m)"
  shows "map_of (filter P m) k = (case map_of m k of Some v \<Rightarrow> if P (k, v) then Some v else None | None \<Rightarrow> None)"
  using assms
proof (induction m)
  case (Cons p m)
  obtain a b where p: "p = (a, b)" by (cases p)
  have "map_of m a = None" using Cons.prems p by (simp add: map_of_eq_None_iff)
  thus ?case using Cons p by (auto split: option.splits)
qed simp

lemma res_lookup_put:
  assumes "readable f" "rs_ID r \<noteq> []"
  shows "res_lookup (res_put r f) k = (if k = rs_ID r then Some r
     else case res_lookup f k of Some q \<Rightarrow> if isTerminal q then None else Some q | None \<Rightarrow> None)"
proof -
  obtain m where m: "loadAll f = Inr m" using assms(1) by (auto simp: readable_def)
  have w: "wf_fold m" using loadAll_wf [OF m] .
  have wu: "wf_fold (upsert (rs_ID r) r m)" using w assms(2) by (rule wf_fold_upsert)
  have "res_lookup (res_put r f) k = (case ((map_of m)(rs_ID r \<mapsto> r)) k of
      Some v \<Rightarrow> if \<not> (isTerminal v \<and> rs_ID v \<noteq> rs_ID r) then Some v else None | None \<Rightarrow> None)"
    using wu by (simp add: res_lookup_def res_put_def m loadAll_compacted [OF w assms(2)]
        map_of_filter_distinct wf_fold_def split: option.splits)
  moreover have "map_of m k = Some q \<Longrightarrow> rs_ID q = k" for q
    using w by (auto simp: wf_fold_def dest!: map_of_SomeD)
  ultimately show ?thesis by (auto simp: res_lookup_def m split: option.splits)
qed

lemma readable_put: "readable f \<Longrightarrow> rs_ID r \<noteq> [] \<Longrightarrow> readable (res_put r f)"
proof -
  assume "readable f" "rs_ID r \<noteq> []"
  then obtain m where m: "loadAll f = Inr m" by (auto simp: readable_def)
  show ?thesis using loadAll_compacted [OF loadAll_wf [OF m] \<open>rs_ID r \<noteq> []\<close>]
    by (simp add: readable_def res_put_def m)
qed

interpretation reslog: durable_log res_lookup res_put rs_ID isTerminal readable "\<lambda>r _. rs_ID r \<noteq> []"
  by unfold_locales (auto simp: res_lookup_put readable_put split: option.splits)

lemma appendAndCompact_ok:
  "loadAll f = Inr m \<Longrightarrow> appendAndCompact WriteOK m r f = (Inr (), res_put r f)"
  by (simp add: appendAndCompact_def res_put_def)

end
