(* ===== verification/Policy_Engine.thy ===== *)
theory Policy_Engine
  imports Policy_Evaluate Policy_Reservation
begin

text \<open>
  The impure shell of the policy engine (\<open>internal/policy/policy.go\<close>, \<open>orphan.go\<close> and the lock and
  file plumbing of \<open>counter.go\<close> and \<open>reservation.go\<close>).  Each operation takes an environment (the
  injected clock and account hook, a fresh id, and what each lock and each atomic write does this
  time), the engine state, and returns its result with the new state.  The critical sections under the
  network lock and under the reservation-log lock are the atomic steps.

  The paths and operating-system causes attached to state errors are not modelled.
\<close>

text \<open>The counter file of a (lowercased) network and account.\<close>

datatype counter_path = CPath string string

record engine =
  en_log :: "resLog stored"
  en_counters :: "counter_path \<Rightarrow> counterFile stored"

record env =
  ev_accounts :: "(string \<Rightarrow> address list) option"
  ev_now0 :: time
  ev_now :: time
  ev_id :: string
  ev_net :: lockfault
  ev_log :: lockfault
  ev_log2 :: lockfault
  ev_logw :: writefault
  ev_ctrw :: writefault

section \<open>Locks and files\<close>

definition withNetworkLock :: "lockfault \<Rightarrow> (engine \<Rightarrow> 'a result \<times> engine) \<Rightarrow> engine \<Rightarrow> 'a result \<times> engine" where
  "withNetworkLock l fn st = (case l of
       LockOK \<Rightarrow> fn st
     | MkdirReadOnly \<Rightarrow> (Inl (New ''config.read_only''), st)
     | MkdirError \<Rightarrow> (Inl (New ''policy.state_error''), st)
     | LockTimeout \<Rightarrow> (Inl (New ''state.lock_timeout''), st))"

definition withLock :: "lockfault \<Rightarrow> (engine \<Rightarrow> 'a result \<times> engine) \<Rightarrow> engine \<Rightarrow> 'a result \<times> engine" where
  "withLock l fn st = (case l of
       LockOK \<Rightarrow> fn st
     | MkdirReadOnly \<Rightarrow> (Inl (New ''config.read_only''), st)
     | MkdirError \<Rightarrow> (Inl (New ''state.corrupt''), st)
     | LockTimeout \<Rightarrow> (Inl (New ''state.lock_timeout''), st))"

definition counterPath :: "string \<Rightarrow> address \<Rightarrow> counter_path" where
  "counterPath network addr = CPath (ToLower network) (ToLower addr)"

definition loadCounter :: "engine \<Rightarrow> string \<Rightarrow> address \<Rightarrow> counterFile result" where
  "loadCounter st network addr = (case en_counters st (counterPath network addr) of
       Missing \<Rightarrow> Inr \<lparr>cf_Version = 1, cf_PolicyNonce = 0, cf_Network = ToLower network,
                      cf_From = ToLower addr, cf_Entries = []\<rparr>
     | Unreadable \<Rightarrow> Inl (New ''policy.state_error'')
     | Corrupt \<Rightarrow> Inl (New ''policy.state_error'')
     | Content cf \<Rightarrow> Inr (cf\<lparr>
          cf_Network := (if cf_Network cf = [] then ToLower network else cf_Network cf),
          cf_From := (if cf_From cf = [] then ToLower addr else cf_From cf)\<rparr>))"

definition writeCounter :: "writefault \<Rightarrow> string \<Rightarrow> address \<Rightarrow> counterFile \<Rightarrow> time \<Rightarrow> engine \<Rightarrow> unit result \<times> engine" where
  "writeCounter w network addr cf now st = (case w of
       WriteOK \<Rightarrow> (Inr (), st\<lparr>en_counters := (en_counters st)
          (counterPath network addr := Content (pruneCounter (cf\<lparr>cf_Version := 1\<rparr>) now))\<rparr>)
     | WriteDirReadOnly \<Rightarrow> (Inl (New ''config.read_only''), st)
     | WriteReadOnly \<Rightarrow> (Inl (New ''config.read_only''), st)
     | _ \<Rightarrow> (Inl (New ''policy.state_error''), st))"

section \<open>The aggregate window\<close>

definition add_account :: "address list \<Rightarrow> address \<Rightarrow> address list" where
  "add_account out a = (if a = zero_address \<or> a \<in> set out then out else out @ [a])"

definition networkAccounts :: "(string \<Rightarrow> address list) option \<Rightarrow> string \<Rightarrow> address \<Rightarrow> address list" where
  "networkAccounts hook network signer =
     add_account (case hook of None \<Rightarrow> [] | Some f \<Rightarrow> foldl add_account [] (f network)) signer"

fun aggregate_loop :: "engine \<Rightarrow> string \<Rightarrow> time \<Rightarrow> address \<Rightarrow> string \<Rightarrow> address list \<Rightarrow> int \<Rightarrow> int result" where
  "aggregate_loop st network now exAcct exID [] acc = Inr acc"
| "aggregate_loop st network now exAcct exID (a # as) acc =
     (case loadCounter st network a of Inl e \<Rightarrow> Inl e
      | Inr cf \<Rightarrow> aggregate_loop st network now exAcct exID as
          (acc + (if exID \<noteq> [] \<and> a = exAcct then sumWindowExcluding cf now exID else sumWindow cf now)))"

definition aggregateWindow :: "engine \<Rightarrow> env \<Rightarrow> string \<Rightarrow> address \<Rightarrow> time \<Rightarrow> address \<Rightarrow> string \<Rightarrow> int result" where
  "aggregateWindow st ev network signer now exAcct exID =
     aggregate_loop st network now exAcct exID (networkAccounts (ev_accounts ev) network signer) 0"

record rbfContext =
  rbf_present :: bool
  rbf_supersededID :: string
  rbf_account :: address
  rbf_mergedEnv :: int

definition no_rbf :: rbfContext where
  "no_rbf = \<lparr>rbf_present = False, rbf_supersededID = [], rbf_account = zero_address, rbf_mergedEnv = 0\<rparr>"

definition merged_envelope :: "counterEntry \<Rightarrow> Check \<Rightarrow> int" where
  "merged_envelope existing c =
     (let v = entry_maxValueWei existing; g = entry_maxGasWei existing in
      (if spendWei c > v then spendWei c else v) + (if maxGasWei c > g then maxGasWei c else g))"

definition windowFor :: "engine \<Rightarrow> env \<Rightarrow> Check \<Rightarrow> counterFile \<Rightarrow> time \<Rightarrow> (int \<times> rbfContext) result" where
  "windowFor st ev c cf now =
    (case (if ck_IsRBFDelta c then findEntryByNonce cf (ck_AccountNonce c) else None) of
       None \<Rightarrow> (case aggregateWindow st ev (ck_Network c) (ck_Account c) now zero_address [] of
                  Inl e \<Rightarrow> Inl e | Inr spent \<Rightarrow> Inr (spent, no_rbf))
     | Some existing \<Rightarrow>
         (case aggregateWindow st ev (ck_Network c) (ck_Account c) now (ck_Account c) (ce_ID existing) of
            Inl e \<Rightarrow> Inl e
          | Inr excl \<Rightarrow>
             (let merged = merged_envelope existing c; thisDebit = spendWei c + maxGasWei c in
              Inr (excl + merged - thisDebit,
                   \<lparr>rbf_present = True, rbf_supersededID = ce_ID existing, rbf_account = ck_Account c, rbf_mergedEnv = merged\<rparr>))))"

section \<open>The precise retry instant\<close>

text \<open>The in-window entries of one account as the walk sees them.\<close>

definition window_entries :: "rbfContext \<Rightarrow> time \<Rightarrow> address \<Rightarrow> counterEntry list \<Rightarrow> (time \<times> int) list" where
  "window_entries rbf now acct es = List.map_filter (\<lambda>e.
     if rbf_present rbf \<and> acct = rbf_account rbf \<and> ce_ID e = rbf_supersededID rbf then
       (if aged_out now e then None else Some (parseTS (ce_TS e), rbf_mergedEnv rbf))
     else if aged_out now e then None
     else if entryAllReleased e then None
     else Some (parseTS (ce_TS e), entry_maxValueWei e + entry_maxGasWei e)) es"

fun collect_window :: "engine \<Rightarrow> string \<Rightarrow> rbfContext \<Rightarrow> time \<Rightarrow> address list \<Rightarrow> (time \<times> int) list option" where
  "collect_window st network rbf now [] = Some []"
| "collect_window st network rbf now (a # as) =
     (case loadCounter st network a of Inl _ \<Rightarrow> None
      | Inr cf \<Rightarrow> map_option (\<lambda>ws. window_entries rbf now a (cf_Entries cf) @ ws) (collect_window st network rbf now as))"

text \<open>The exchange sort: the inner loop carries the element at position \<open>i\<close>.\<close>

fun exchange_pass :: "time \<times> int \<Rightarrow> (time \<times> int) list \<Rightarrow> (time \<times> int) \<times> (time \<times> int) list" where
  "exchange_pass x [] = (x, [])"
| "exchange_pass x (y # ys) = (if fst y < fst x
     then (let (m, r) = exchange_pass y ys in (m, x # r))
     else (let (m, r) = exchange_pass x ys in (m, y # r)))"

lemma exchange_pass_length: "length (snd (exchange_pass x ys)) = length ys"
  by (induction x ys rule: exchange_pass.induct) (auto split: prod.splits)

function exchange_sort :: "(time \<times> int) list \<Rightarrow> (time \<times> int) list" where
  "exchange_sort [] = []"
| "exchange_sort (x # xs) = (let p = exchange_pass x xs in fst p # exchange_sort (snd p))"
  by pat_completeness auto
termination by (relation "measure length") (auto simp: exchange_pass_length)

fun retry_walk :: "int \<Rightarrow> int \<Rightarrow> int \<Rightarrow> (time \<times> int) list \<Rightarrow> time option" where
  "retry_walk remaining thisDebit lim [] = None"
| "retry_walk remaining thisDebit lim ((ts, w) # ws) =
     (if remaining - w + thisDebit \<le> lim then (if ts \<noteq> zero_time then Some ts else None)
      else retry_walk (remaining - w) thisDebit lim ws)"

text \<open>The timestamp of the entry after whose expiry the request fits, if one is found.\<close>

definition retry_entry :: "engine \<Rightarrow> env \<Rightarrow> Decision \<Rightarrow> Check \<Rightarrow> time \<Rightarrow> rbfContext \<Rightarrow> time option" where
  "retry_entry st ev dec c now rbf = (case map_of (de_Data dec) ''limit'' of
       Some (JStr limStr) \<Rightarrow> (case SetString limStr of None \<Rightarrow> None
         | Some lim \<Rightarrow>
            (case collect_window st (ck_Network c) rbf now (networkAccounts (ev_accounts ev) (ck_Network c) (ck_Account c)) of
               None \<Rightarrow> None
             | Some ws \<Rightarrow> retry_walk (sum_list (map snd ws)) (if rbf_present rbf then 0 else spendWei c + maxGasWei c) lim (exchange_sort ws)))
     | _ \<Rightarrow> None)"

definition refineRetryAfter :: "engine \<Rightarrow> env \<Rightarrow> Decision \<Rightarrow> Check \<Rightarrow> time \<Rightarrow> rbfContext \<Rightarrow> Decision" where
  "refineRetryAfter st ev dec c now rbf =
    (if de_Allowed dec \<or> de_Code dec \<noteq> codeDayLimit then dec
     else case retry_entry st ev dec c now rbf of None \<Rightarrow> dec
     | Some ts \<Rightarrow> dec\<lparr>de_RetryAfter := Some (ts + day), de_Data := upsert ''retry_after'' (JTime (ts + day)) (de_Data dec)\<rparr>)"

lemma refine_verdict: "de_Allowed (refineRetryAfter st ev d c now rbf) = de_Allowed d" "de_Code (refineRetryAfter st ev d c now rbf) = de_Code d"
  by (auto simp: refineRetryAfter_def split: option.split)

section \<open>Verdicts and reservations\<close>

definition deniedError :: "Decision \<Rightarrow> Error" where
  "deniedError d = (let code = (if de_Code d = [] then codeDenied else de_Code d);
     err = WithData (New code) (de_Data d) in
     if code = codeDayLimit \<or> code = codeGasCap then err\<lparr>Retryable := True\<rparr> else err)"

definition newReservation :: "env \<Rightarrow> Check \<Rightarrow> Reservation" where
  "newReservation ev c = \<lparr>rs_ID = ev_id ev, rs_Account = ck_Account c, rs_Dest = ck_Dest c,
     rs_SpendWei = int_dec (spendWei c), rs_MaxGasWei = int_dec (maxGasWei c), rs_State = stateReserved,
     rs_Hash = [], rs_ActualGasWei = None, rs_TS = ev_now0 ev, rs_Network = ck_Network c, rs_PolicyNonce = 0\<rparr>"

text \<open>The check-only path: \<open>pol\<close> is what \<open>loadActivePolicy\<close> returned (\<open>Inr None\<close>: no policy configured).\<close>

definition Engine_Evaluate :: "Policy option result \<Rightarrow> env \<Rightarrow> Check \<Rightarrow> engine \<Rightarrow> Decision result \<times> engine" where
  "Engine_Evaluate pol ev c st = (case pol of
       Inl e \<Rightarrow> (Inl e, st)
     | Inr None \<Rightarrow> (Inr allowed_decision, st)
     | Inr (Some p) \<Rightarrow> withNetworkLock (ev_net ev) (\<lambda>st.
         case loadCounter st (ck_Network c) (ck_Account c) of Inl e \<Rightarrow> (Inl e, st)
         | Inr cf \<Rightarrow> (case windowFor st ev c cf (ev_now ev) of Inl e \<Rightarrow> (Inl e, st)
         | Inr (spent, rbf) \<Rightarrow>
             (Inr (refineRetryAfter st ev (Evaluate p c (Some spent) (ev_now ev)) c (ev_now ev) rbf), st))) st)"

definition writeReservation :: "env \<Rightarrow> Reservation \<Rightarrow> engine \<Rightarrow> unit result \<times> engine" where
  "writeReservation ev r = withLock (ev_log ev) (\<lambda>st.
     case loadAll (en_log st) of Inl e \<Rightarrow> (Inl e, st)
     | Inr m \<Rightarrow> (let (res, f) = appendAndCompact (ev_logw ev) m r (en_log st) in (res, st\<lparr>en_log := f\<rparr>)))"

text \<open>The reservation \<open>Reserve\<close> returns is \<open>None\<close> for a permit, which reserves nothing.\<close>

definition Reserve :: "Policy option result \<Rightarrow> env \<Rightarrow> Check \<Rightarrow> engine \<Rightarrow> Reservation option result \<times> engine" where
  "Reserve pol ev c st = (case pol of
       Inl e \<Rightarrow> (Inl e, st)
     | Inr (Some p) \<Rightarrow> withNetworkLock (ev_net ev) (\<lambda>st.
         let r = newReservation ev c; now = ev_now ev in
         case loadCounter st (ck_Network c) (ck_Account c) of Inl e \<Rightarrow> (Inl e, st)
         | Inr cf \<Rightarrow> (case windowFor st ev c cf now of Inl e \<Rightarrow> (Inl e, st)
         | Inr (spent, rbf) \<Rightarrow>
            (let dec = Evaluate p c (Some spent) now in
             if \<not> de_Allowed dec then (Inl (deniedError (refineRetryAfter st ev dec c now rbf)), st)
             else if effectiveKind c = KindPermit then (Inr None, st)
             else case writeReservation ev r st of
               (Inl e, st') \<Rightarrow> (Inl e, st')
             | (Inr _, st') \<Rightarrow>
                (case writeCounter (ev_ctrw ev) (ck_Network c) (ck_Account c)
                        ((debitCounter cf (rs_ID r) c now)\<lparr>cf_PolicyNonce := po_Nonce p\<rparr>) now st' of
                   (Inl e, st'') \<Rightarrow> (Inl e, st'') | (Inr _, st'') \<Rightarrow> (Inr (Some r), st''))))) st
     | Inr None \<Rightarrow>
         (case writeReservation ev (newReservation ev c) st of
            (Inl e, st') \<Rightarrow> (Inl e, st') | (Inr _, st') \<Rightarrow> (Inr (Some (newReservation ev c)), st')))"

section \<open>Transitions\<close>

definition transition :: "env \<Rightarrow> string \<Rightarrow> (Reservation \<Rightarrow> Reservation) \<Rightarrow> engine \<Rightarrow> unit result \<times> engine" where
  "transition ev rid mut st = (if rid = [] then (Inl (New ''tx.integrity.reservation_missing''), st)
     else withLock (ev_log ev) (\<lambda>st.
       case loadAll (en_log st) of Inl e \<Rightarrow> (Inl e, st)
       | Inr m \<Rightarrow> (case map_of m rid of None \<Rightarrow> (Inl (New ''tx.integrity.reservation_missing''), st)
         | Some r \<Rightarrow> (let (res, f) = appendAndCompact (ev_logw ev) m (mut r) (en_log st) in (res, st\<lparr>en_log := f\<rparr>)))) st)"

text \<open>Which counter a reservation is accounted in; a failure to read the log is ignored, as in the source.\<close>

definition counter_context :: "env \<Rightarrow> string \<Rightarrow> engine \<Rightarrow> (string \<times> address) option" where
  "counter_context ev rid st = (if ev_log2 ev \<noteq> LockOK then None
     else case loadAll (en_log st) of Inl _ \<Rightarrow> None
     | Inr m \<Rightarrow> map_option (\<lambda>r. (rs_Network r, rs_Account r)) (map_of m rid))"

definition counterTransition :: "env \<Rightarrow> string \<Rightarrow> (counterEntry \<Rightarrow> counterEntry) \<Rightarrow> engine \<Rightarrow> unit result \<times> engine" where
  "counterTransition ev rid mut st = (if rid = [] then (Inr (), st)
     else case counter_context ev rid st of None \<Rightarrow> (Inr (), st)
     | Some (network, acct) \<Rightarrow> if acct = zero_address then (Inr (), st)
        else withNetworkLock (ev_net ev) (\<lambda>st.
          case loadCounter st network acct of Inl e \<Rightarrow> (Inl e, st)
          | Inr cf \<Rightarrow> (case findEntry cf rid of None \<Rightarrow> (Inr (), st)
            | Some _ \<Rightarrow> writeCounter (ev_ctrw ev) network acct
                (cf\<lparr>cf_Entries := update_first (\<lambda>e. ce_ID e = rid) mut (cf_Entries cf)\<rparr>) (ev_now ev) st)) st)"

definition and_then :: "unit result \<times> engine \<Rightarrow> (engine \<Rightarrow> unit result \<times> engine) \<Rightarrow> unit result \<times> engine" where
  "and_then p k = (case p of (Inl e, st) \<Rightarrow> (Inl e, st) | (Inr _, st) \<Rightarrow> k st)"

definition commit_res :: "string \<Rightarrow> Reservation \<Rightarrow> Reservation" where
  "commit_res hash r = (if rs_State r = stateReleased then r else r\<lparr>rs_State := stateCommitted, rs_Hash := hash\<rparr>)"

definition Commit :: "env \<Rightarrow> string \<Rightarrow> string \<Rightarrow> engine \<Rightarrow> unit result \<times> engine" where
  "Commit ev rid hash st = and_then (transition ev rid (commit_res hash) st)
     (counterTransition ev rid (mut_primary (commit_cand hash)))"

definition release_log :: "env \<Rightarrow> string \<Rightarrow> engine \<Rightarrow> unit result \<times> engine" where
  "release_log ev rid = withLock (ev_log ev) (\<lambda>st.
     case loadAll (en_log st) of Inl e \<Rightarrow> (Inl e, st)
     | Inr m \<Rightarrow> (case map_of m rid of None \<Rightarrow> (Inr (), st)
       | Some r \<Rightarrow> if rs_State r = stateCommitted then (Inr (), st)
          else (let (res, f) = appendAndCompact (ev_logw ev) m (r\<lparr>rs_State := stateReleased\<rparr>) (en_log st)
                in (res, st\<lparr>en_log := f\<rparr>))))"

definition Release :: "env \<Rightarrow> string \<Rightarrow> engine \<Rightarrow> unit result \<times> engine" where
  "Release ev rid st = (if rid = [] then (Inr (), st)
     else and_then (release_log ev rid st) (counterTransition ev rid (mut_primary release_cand)))"

definition settle_res :: "int \<Rightarrow> bool \<Rightarrow> Reservation \<Rightarrow> Reservation" where
  "settle_res actual reverted r =
    (let r' = r\<lparr>rs_ActualGasWei := Some (int_dec (settle_gas actual (rs_ActualGasWei r) (rs_MaxGasWei r)))\<rparr>
     in if reverted then r'\<lparr>rs_SpendWei := ''0''\<rparr> else r')"

definition SettleActual :: "env \<Rightarrow> string \<Rightarrow> int option \<Rightarrow> bool \<Rightarrow> engine \<Rightarrow> unit result \<times> engine" where
  "SettleActual ev rid actual reverted st = and_then (transition ev rid (settle_res (or_zero actual) reverted) st)
     (counterTransition ev rid (mut_primary (settle_cand (or_zero actual) reverted)))"

section \<open>Orphans\<close>

definition Orphans :: "env \<Rightarrow> engine \<Rightarrow> Reservation list result \<times> engine" where
  "Orphans ev = withLock (ev_log ev) (\<lambda>st. case loadAll (en_log st) of Inl e \<Rightarrow> (Inl e, st)
     | Inr m \<Rightarrow> (Inr (filter (\<lambda>r. rs_State r = stateReserved) (map snd m)), st))"

definition CommitOrphan :: "env \<Rightarrow> string \<Rightarrow> string \<Rightarrow> engine \<Rightarrow> unit result \<times> engine" where
  "CommitOrphan = Commit"

definition ReleaseOrphan :: "env \<Rightarrow> string \<Rightarrow> engine \<Rightarrow> unit result \<times> engine" where
  "ReleaseOrphan = Release"

end
