(* ===== verification/Policy_Window.thy ===== *)
theory Policy_Window
  imports Policy_Engine
begin

text \<open>
  The daily limit over time: the aggregate of the rolling windows of all accounts of a network, what
  each engine operation does to it, and the invariant that it never exceeds the limit, for every
  interleaving of operations and every pattern of I/O failures.
\<close>

section \<open>The aggregate\<close>

definition win :: "engine \<Rightarrow> counter_path \<Rightarrow> time \<Rightarrow> int" where
  "win st p now = (case en_counters st p of Content cf \<Rightarrow> sumWindow cf now | _ \<Rightarrow> 0)"

definition total :: "string \<Rightarrow> address list \<Rightarrow> engine \<Rightarrow> time \<Rightarrow> int" where
  "total net A st now = sum_list (map (\<lambda>a. win st (counterPath net a) now) A)"

definition good_file :: "counterFile \<Rightarrow> bool" where
  "good_file cf \<longleftrightarrow> wf_counter cf \<and> distinct (map ce_ID (cf_Entries cf))"

definition wf_engine :: "engine \<Rightarrow> bool" where
  "wf_engine st \<longleftrightarrow> (\<forall>p cf. en_counters st p = Content cf \<longrightarrow> good_file cf)"

lemma sumWindow_cong: "cf_Entries cf = cf_Entries cf' \<Longrightarrow> sumWindow cf now = sumWindow cf' now"
  by (simp add: sumWindow_sum)

lemma good_file_cong: "cf_Entries cf = cf_Entries cf' \<Longrightarrow> good_file cf = good_file cf'"
  by (simp add: good_file_def wf_counter_def)

lemma loadCounter_win: "loadCounter st n a = Inr cf \<Longrightarrow> sumWindow cf now = win st (counterPath n a) now"
  by (auto simp: loadCounter_def win_def sumWindow_sum split: stored.splits)

lemma loadCounter_good: "loadCounter st n a = Inr cf \<Longrightarrow> wf_engine st \<Longrightarrow> good_file cf"
  by (auto simp: loadCounter_def wf_engine_def good_file_def wf_counter_def split: stored.splits)

lemma win_nonneg: "0 \<le> win st p now"
  by (auto simp: win_def sumWindow_nonneg split: stored.splits)

lemma win_antimono: "now \<le> now' \<Longrightarrow> win st p now' \<le> win st p now"
  by (auto simp: win_def sumWindow_antimono split: stored.splits)

lemma total_antimono: "now \<le> now' \<Longrightarrow> total net A st now' \<le> total net A st now"
  unfolding total_def by (rule sum_list_map_mono) (simp add: win_antimono)

text \<open>The loop without exclusion is the aggregate; with exclusion it misses one entry.\<close>

lemma aggregate_loop_plain:
  "aggregate_loop st net now ex [] A acc = Inr s \<Longrightarrow> s = acc + total net A st now"
proof (induction A arbitrary: acc)
  case (Cons a A)
  then obtain cf where cf: "loadCounter st net a = Inr cf" by (auto split: sum.splits)
  have "s = acc + sumWindow cf now + total net A st now" using Cons.prems cf by (intro Cons.IH) simp
  thus ?case using loadCounter_win [OF cf] by (simp add: total_def)
qed (simp add: total_def)

lemma aggregate_loop_excl:
  assumes "aggregate_loop st net now ex i A acc = Inr s" "i \<noteq> []"
  shows "s = acc + sum_list (map (\<lambda>a. if a = ex then (case loadCounter st net a of Inr cf \<Rightarrow> sumWindowExcluding cf now i | Inl _ \<Rightarrow> 0)
    else win st (counterPath net a) now) A)"
  using assms
proof (induction A arbitrary: acc)
  case (Cons a A)
  then obtain cf where cf: "loadCounter st net a = Inr cf" by (auto split: sum.splits)
  have "aggregate_loop st net now ex i A (acc + (if a = ex then sumWindowExcluding cf now i else sumWindow cf now)) = Inr s"
    using Cons.prems cf by simp
  from Cons.IH [OF this Cons.prems(2)] show ?case using loadCounter_win [OF cf] cf by auto
qed simp

lemma sum_list_point:
  fixes f g :: "'a \<Rightarrow> int"
  assumes "distinct A" "x \<in> set A" "\<And>a. a \<in> set A \<Longrightarrow> a \<noteq> x \<Longrightarrow> f a = g a"
  shows "sum_list (map f A) = sum_list (map g A) - g x + f x"
  using assms
proof (induction A)
  case (Cons a A)
  show ?case
  proof (cases "a = x")
    case True
    have "sum_list (map f A) = sum_list (map g A)"
      using Cons.prems True by (intro arg_cong [of _ _ sum_list] map_cong) auto
    thus ?thesis using True by simp
  next
    case False
    thus ?thesis using Cons by auto
  qed
qed simp

section \<open>Accounts\<close>

lemma add_account_set: "set (add_account out a) = set out \<union> ({a} - {zero_address})"
  by (auto simp: add_account_def)

lemma add_account_distinct: "distinct out \<Longrightarrow> distinct (add_account out a)"
  by (auto simp: add_account_def)

lemma fold_account_set: "set (foldl add_account out xs) = set out \<union> (set xs - {zero_address})"
  by (induction xs arbitrary: out) (auto simp: add_account_set)

lemma fold_account_distinct: "distinct out \<Longrightarrow> distinct (foldl add_account out xs)"
  by (induction xs arbitrary: out) (auto simp: add_account_distinct)

lemma networkAccounts_distinct: "distinct (networkAccounts hook net signer)"
  by (auto simp: networkAccounts_def intro!: add_account_distinct fold_account_distinct split: option.splits)

text \<open>A signer known to the hook does not change the list.\<close>

lemma networkAccounts_known:
  assumes "signer \<in> set (f net)" "signer \<noteq> zero_address"
  shows "networkAccounts (Some f) net signer = foldl add_account [] (f net)"
  using assms fold_account_set [of "[]" "f net"] by (simp add: networkAccounts_def add_account_def)

section \<open>Operations that only shrink\<close>

definition counters_le :: "time \<Rightarrow> engine \<Rightarrow> engine \<Rightarrow> bool" where
  "counters_le now st st' \<longleftrightarrow> (wf_engine st \<longrightarrow> wf_engine st' \<and> (\<forall>p now'. now \<le> now' \<longrightarrow> win st' p now' \<le> win st p now'))"

lemma counters_le_refl [simp]: "counters_le now st st"
  by (simp add: counters_le_def)

lemma counters_le_trans: "counters_le now st st' \<Longrightarrow> counters_le now st' st'' \<Longrightarrow> counters_le now st st''"
  unfolding counters_le_def by (meson order_trans)

lemma counters_le_total: "counters_le now st st' \<Longrightarrow> wf_engine st \<Longrightarrow> now \<le> now' \<Longrightarrow> total net A st' now' \<le> total net A st now'"
  unfolding total_def counters_le_def by (rule sum_list_map_mono) blast

lemma counters_same: "en_counters st' = en_counters st \<Longrightarrow> counters_le now st st'"
  by (simp add: counters_le_def wf_engine_def win_def)

lemma good_prune: "good_file cf \<Longrightarrow> good_file (pruneCounter cf now)"
  by (auto simp: good_file_def wf_prune) (simp add: pruneCounter_def distinct_map_filter)

lemma writeCounter_le:
  assumes "writeCounter w net a cf now st = (r, st')" "wf_engine st \<Longrightarrow> good_file cf"
    "\<And>now'. wf_engine st \<Longrightarrow> now \<le> now' \<Longrightarrow> sumWindow cf now' \<le> win st (counterPath net a) now'"
  shows "counters_le now st st'"
proof (cases "w = WriteOK")
  case True
  let ?cf = "pruneCounter (cf\<lparr>cf_Version := 1\<rparr>) now"
  have st': "en_counters st' = (en_counters st)(counterPath net a := Content ?cf)"
    using assms(1) True by (auto simp: writeCounter_def)
  have "good_file ?cf" if "wf_engine st"
    using assms(2) [OF that] good_file_cong [of "cf\<lparr>cf_Version := 1\<rparr>" cf] by (intro good_prune) simp
  moreover have "sumWindow ?cf now' = sumWindow cf now'" if "now \<le> now'" for now'
    using sumWindow_prune [OF that] sumWindow_cong [of "cf\<lparr>cf_Version := 1\<rparr>" cf] by simp
  ultimately show ?thesis using assms(3) by (auto simp: counters_le_def wf_engine_def win_def st')
next
  case False
  hence "st' = st" using assms(1) by (cases w) (auto simp: writeCounter_def)
  thus ?thesis by simp
qed

lemma map_ID_update_first: "(\<And>e. ce_ID (f e) = ce_ID e) \<Longrightarrow> map ce_ID (update_first P f es) = map ce_ID es"
  by (rule update_first_map)

lemma counterTransition_le:
  assumes "counterTransition ev rid (mut_primary f) st = (r, st')"
    "\<And>c. wf_cand c \<Longrightarrow> shrinks f c" "\<And>c. wf_cand c \<Longrightarrow> wf_cand (f c)"
  shows "counters_le (ev_now ev) st st'"
proof -
  have *: "counters_le (ev_now ev) st st'"
    if "loadCounter st net a = Inr cf"
      "writeCounter (ev_ctrw ev) net a (cf\<lparr>cf_Entries := update_first (\<lambda>e. ce_ID e = rid) (mut_primary f) (cf_Entries cf)\<rparr>)
         (ev_now ev) st = (r, st')" for net a cf
  proof (rule writeCounter_le [OF that(2)])
    assume wf: "wf_engine st"
    have g: "good_file cf" using loadCounter_good [OF that(1) wf] .
    show "good_file (cf\<lparr>cf_Entries := update_first (\<lambda>e. ce_ID e = rid) (mut_primary f) (cf_Entries cf)\<rparr>)"
      using g assms(3) by (auto simp: good_file_def map_ID_update_first intro!: wf_update_entry)
    have sh: "e \<in> set (cf_Entries cf) \<Longrightarrow> c \<in> set (ce_Candidates e) \<Longrightarrow> shrinks f c" for e c
      using g assms(2) by (auto simp: good_file_def wf_counter_def)
    show "sumWindow (cf\<lparr>cf_Entries := update_first (\<lambda>e. ce_ID e = rid) (mut_primary f) (cf_Entries cf)\<rparr>) now'
        \<le> win st (counterPath net a) now'" for now'
      using sumWindow_update_entry [where cf = cf and f = f and P = "\<lambda>e. ce_ID e = rid" and now = now', OF sh] loadCounter_win [OF that(1), of now'] by simp
  qed
  have "st' = st \<or> (\<exists>net a cf. loadCounter st net a = Inr cf \<and>
      writeCounter (ev_ctrw ev) net a (cf\<lparr>cf_Entries := update_first (\<lambda>e. ce_ID e = rid) (mut_primary f) (cf_Entries cf)\<rparr>)
         (ev_now ev) st = (r, st'))"
  proof (cases "rid = [] \<or> ev_net ev \<noteq> LockOK")
    case True
    thus ?thesis using assms(1)
      by (cases "ev_net ev") (auto simp: counterTransition_def withNetworkLock_def split: option.split_asm prod.split_asm if_split_asm)
  next
    case False
    hence e: "counterTransition ev rid (mut_primary f) st = (case counter_context ev rid st of None \<Rightarrow> (Inr (), st)
      | Some (network, acct) \<Rightarrow> if acct = zero_address then (Inr (), st) else
          (case loadCounter st network acct of Inl e \<Rightarrow> (Inl e, st)
          | Inr cf \<Rightarrow> (case findEntry cf rid of None \<Rightarrow> (Inr (), st)
            | Some _ \<Rightarrow> writeCounter (ev_ctrw ev) network acct
                (cf\<lparr>cf_Entries := update_first (\<lambda>e. ce_ID e = rid) (mut_primary f) (cf_Entries cf)\<rparr>) (ev_now ev) st)))"
      by (cases "counter_context ev rid st") (auto simp: counterTransition_def withNetworkLock_def)
    show ?thesis using assms(1) unfolding e
      by (cases "counter_context ev rid st")
         (auto split: if_split_asm sum.split_asm option.split_asm)
  qed
  thus ?thesis
  proof (elim disjE exE conjE)
    assume "st' = st" thus ?thesis by simp
  qed (rule *)
qed

lemma withLock_counters:
  assumes "withLock l fn st = (r, st')" "\<And>r st'. fn st = (r, st') \<Longrightarrow> en_counters st' = en_counters st"
  shows "en_counters st' = en_counters st"
  using assms by (auto simp: withLock_def split: lockfault.splits)

lemma transition_counters: "transition ev rid mut st = (r, st') \<Longrightarrow> en_counters st' = en_counters st"
  by (auto simp: transition_def split: if_splits sum.splits option.splits prod.splits elim!: withLock_counters)

lemma release_log_counters: "release_log ev rid st = (r, st') \<Longrightarrow> en_counters st' = en_counters st"
  unfolding release_log_def
  by (erule withLock_counters) (auto split: if_splits sum.splits option.splits prod.splits)

lemma writeReservation_counters: "writeReservation ev x st = (r, st') \<Longrightarrow> en_counters st' = en_counters st"
  unfolding writeReservation_def
  by (erule withLock_counters) (auto split: sum.splits prod.splits)

lemma and_then_le:
  assumes "and_then p k = (r, st')" "counters_le now st (snd p)" "\<And>st1 r st2. k st1 = (r, st2) \<Longrightarrow> counters_le now st1 st2"
  shows "counters_le now st st'"
  using assms counters_le_trans by (fastforce simp: and_then_def split: prod.splits sum.splits)

lemma Commit_le: "Commit ev rid h st = (r, st') \<Longrightarrow> counters_le (ev_now ev) st st'"
  unfolding Commit_def
  by (erule and_then_le [OF _ counters_same [OF transition_counters [OF prod.collapse [symmetric]]]])
     (erule counterTransition_le, simp_all add: shrinks_commit)

lemma Release_le: "Release ev rid st = (r, st') \<Longrightarrow> counters_le (ev_now ev) st st'"
proof (cases "rid = []")
  case False
  assume "Release ev rid st = (r, st')"
  hence "and_then (release_log ev rid st) (counterTransition ev rid (mut_primary release_cand)) = (r, st')"
    using False by (simp add: Release_def)
  thus ?thesis
    by (rule and_then_le [OF _ counters_same [OF release_log_counters [OF prod.collapse [symmetric]]]])
       (erule counterTransition_le, simp_all add: shrinks_release)
qed (simp add: Release_def)

lemma SettleActual_le: "SettleActual ev rid a reverted st = (r, st') \<Longrightarrow> counters_le (ev_now ev) st st'"
  unfolding SettleActual_def
  by (erule and_then_le [OF _ counters_same [OF transition_counters [OF prod.collapse [symmetric]]]])
     (erule counterTransition_le, simp_all add: shrinks_settle wf_settle)

section \<open>Reserving\<close>

lemma new_candidate_live [simp]: "cc_State (new_candidate c) = candReserved"
  by (simp add: new_candidate_def)

lemma new_candidate_amounts [simp]: "cand_value (new_candidate c) = spendWei c" "cand_gas (new_candidate c) = maxGasWei c"
  by (simp_all add: new_candidate_def cand_value_def cand_gas_def)

lemma envelope_append:
  "envelope (e\<lparr>ce_Candidates := ce_Candidates e @ [new_candidate c]\<rparr>) = merged_envelope e c"
  by (simp add: envelope_def merged_envelope_def entry_maxValueWei_alt entry_maxGasWei_alt live_def Let_def max_def)

lemma aged_out_append [simp]: "aged_out now (e\<lparr>ce_Candidates := cs\<rparr>) = aged_out now e"
  by (simp add: aged_out_def)

lemma findEntryByNonce_find:
  "findEntryByNonce cf n = Some e \<Longrightarrow> find (\<lambda>e. ce_AccountNonce e = n) (cf_Entries cf) = Some e"
  by (auto simp: findEntryByNonce_def split: option.splits)

lemma find_in: "find P xs = Some x \<Longrightarrow> x \<in> set xs \<and> P x"
  by (auto simp: find_Some_iff)

lemma sum_excl_distinct:
  assumes "distinct (map ce_ID es)" "e \<in> set es"
  shows "sum_list (map (contrib now) (filter (\<lambda>x. ce_ID x \<noteq> ce_ID e) es)) = sum_list (map (contrib now) es) - contrib now e"
  using assms
proof (induction es)
  case (Cons x es)
  show ?case
  proof (cases "x = e")
    case True
    hence "ce_ID e \<notin> ce_ID ` set es" using Cons.prems(1) by simp
    hence "filter (\<lambda>x. ce_ID x \<noteq> ce_ID e) es = es" by (intro filter_True) (metis image_eqI)
    thus ?thesis using True by simp
  next
    case False
    hence "e \<in> set es" "ce_ID x \<noteq> ce_ID e" using Cons.prems by force+
    thus ?thesis using Cons by simp
  qed
qed simp

text \<open>What a debit adds to the signer's file: the whole envelope of a new entry, or the merged envelope
  of the superseded entry in place of its old one.\<close>

lemma debit_new:
  assumes "\<not> ck_IsRBFDelta c \<or> findEntryByNonce cf (ck_AccountNonce c) = None" "0 \<le> spendWei c" "0 \<le> maxGasWei c"
  shows "sumWindow (debitCounter cf rid c now) now' \<le> sumWindow cf now' + (spendWei c + maxGasWei c)"
proof -
  let ?e = "\<lparr>ce_ID = rid, ce_TS = Some now, ce_AccountNonce = ck_AccountNonce c, ce_Kind = ck_Kind c,
           ce_Asset = assetOf c, ce_Candidates = [new_candidate c]\<rparr>"
  have "debitCounter cf rid c now = sortEntriesByTS (cf\<lparr>cf_Entries := cf_Entries cf @ [?e]\<rparr>)"
    using assms(1) by (auto simp: debitCounter_def)
  hence "sumWindow (debitCounter cf rid c now) now' = sumWindow (cf\<lparr>cf_Entries := cf_Entries cf @ [?e]\<rparr>) now'"
    by (simp add: sumWindow_sort)
  also have "\<dots> = sumWindow cf now' + contrib now' ?e" by (simp add: sumWindow_sum)
  also have "contrib now' ?e \<le> spendWei c + maxGasWei c"
    using assms(2,3) by (simp add: contrib_def envelope_def entry_maxValueWei_alt entry_maxGasWei_alt live_def)
  finally show ?thesis by simp
qed

lemma debit_rbf:
  assumes "ck_IsRBFDelta c" "findEntryByNonce cf (ck_AccountNonce c) = Some e"
  shows "sumWindow (debitCounter cf rid c now) now' \<le> sumWindow cf now' - contrib now' e + merged_envelope e c"
proof -
  let ?f = "\<lambda>e. e\<lparr>ce_Candidates := ce_Candidates e @ [new_candidate c]\<rparr>"
  have d: "debitCounter cf rid c now = cf\<lparr>cf_Entries := update_first (\<lambda>e. ce_AccountNonce e = ck_AccountNonce c) ?f (cf_Entries cf)\<rparr>"
    using assms by (simp add: debitCounter_def)
  have "sumWindow (debitCounter cf rid c now) now' = sumWindow cf now' - contrib now' e + contrib now' (?f e)"
    unfolding d sumWindow_sum using sum_update_first [OF findEntryByNonce_find [OF assms(2)]] by simp
  moreover have "0 \<le> merged_envelope e c" using envelope_nonneg by (metis envelope_append)
  hence "contrib now' (?f e) \<le> merged_envelope e c" by (simp add: contrib_def envelope_append)
  ultimately show ?thesis by simp
qed

lemma good_debit:
  assumes "good_file cf" "rid \<notin> ce_ID ` set (cf_Entries cf)"
  shows "good_file (debitCounter cf rid c now)"
proof -
  have "wf_counter (debitCounter cf rid c now)" using assms(1) by (simp add: good_file_def wf_debit)
  moreover have "distinct (map ce_ID (cf_Entries (debitCounter cf rid c now)))"
  proof (cases "if ck_IsRBFDelta c then findEntryByNonce cf (ck_AccountNonce c) else None")
    case None
    hence "mset (map ce_ID (cf_Entries (debitCounter cf rid c now))) = mset (rid # map ce_ID (cf_Entries cf))"
      by (simp add: debitCounter_def sortEntriesByTS_def)
    moreover have "distinct (rid # map ce_ID (cf_Entries cf))" using assms by (auto simp: good_file_def)
    ultimately show ?thesis by (metis mset_eq_imp_distinct_iff)
  next
    case (Some e)
    thus ?thesis using assms(1) by (simp add: debitCounter_def good_file_def map_ID_update_first)
  qed
  ultimately show ?thesis by (simp add: good_file_def)
qed

text \<open>The gate: what an allowed verdict says about the window handed to it.\<close>

lemma gate:
  assumes "de_Allowed (Evaluate p c (Some spent) now)" "\<not> ck_TypedUnknown c" "effectiveKind c \<noteq> KindPermit"
    "rl_maxDay (resolveLimits p (ck_Network c)) = Some L"
  shows "spent + (spendWei c + maxGasWei c) \<le> L"
  using assms Evaluate_allowed [OF assms(2)] by (auto simp: permitted_def Let_def under_def debit_def)

definition paths_distinct :: "address list \<Rightarrow> bool" where
  "paths_distinct A \<longleftrightarrow> distinct A \<and> inj_on ToLower (set A)"

lemma counterPath_eq: "paths_distinct A \<Longrightarrow> a \<in> set A \<Longrightarrow> b \<in> set A \<Longrightarrow> counterPath net a = counterPath net b \<longleftrightarrow> a = b"
  by (auto simp: paths_distinct_def counterPath_def inj_on_def)

lemma total_update:
  assumes "paths_distinct A" "a \<in> set A" "en_counters st' = (en_counters st)(counterPath net a := Content cf)"
  shows "total net A st' now = total net A st now - win st (counterPath net a) now + sumWindow cf now"
proof -
  have "win st' (counterPath net b) now = win st (counterPath net b) now" if "b \<in> set A" "b \<noteq> a" for b
    using counterPath_eq [OF assms(1) that(1) assms(2)] that assms(3) by (simp add: win_def)
  hence "total net A st' now = total net A st now - win st (counterPath net a) now + win st' (counterPath net a) now"
    unfolding total_def using assms(1,2) by (intro sum_list_point) (auto simp: paths_distinct_def)
  moreover have "win st' (counterPath net a) now = sumWindow cf now" by (simp add: win_def assms(3))
  ultimately show ?thesis by simp
qed

text \<open>The window value computed for a request, plus the request's debit, is the aggregate after the
  debit, also when the request supersedes an entry.\<close>

lemma windowFor_bound:
  assumes A: "networkAccounts (ev_accounts ev) (ck_Network c) (ck_Account c) = A" "paths_distinct A" "ck_Account c \<in> set A"
    and l: "loadCounter st (ck_Network c) (ck_Account c) = Inr cf" and wf: "good_file cf"
    and w: "windowFor st ev c cf now = Inr (spent, rbf)" and nn: "0 \<le> spendWei c" "0 \<le> maxGasWei c"
  shows "total (ck_Network c) A st now - sumWindow cf now + sumWindow (debitCounter cf rid c now) now
     \<le> spent + (spendWei c + maxGasWei c)"
proof (cases "if ck_IsRBFDelta c then findEntryByNonce cf (ck_AccountNonce c) else None")
  case None
  have "spent = total (ck_Network c) A st now"
    using w None A(1) by (auto simp: windowFor_def aggregateWindow_def split: sum.splits dest!: aggregate_loop_plain)
  moreover have "sumWindow (debitCounter cf rid c now) now \<le> sumWindow cf now + (spendWei c + maxGasWei c)"
    using None nn by (intro debit_new) (auto split: if_splits)
  ultimately show ?thesis by simp
next
  case (Some e)
  hence rbf: "ck_IsRBFDelta c" "findEntryByNonce cf (ck_AccountNonce c) = Some e" by (auto split: if_splits)
  have e: "e \<in> set (cf_Entries cf)" using find_in [OF findEntryByNonce_find [OF rbf(2)]] by simp
  obtain excl where x: "aggregateWindow st ev (ck_Network c) (ck_Account c) now (ck_Account c) (ce_ID e) = Inr excl"
    "spent = excl + merged_envelope e c - (spendWei c + maxGasWei c)"
    using w Some by (auto simp: windowFor_def Let_def split: sum.splits)
  have "total (ck_Network c) A st now - contrib now e \<le> excl"
  proof (cases "ce_ID e = []")
    case True
    hence "excl = total (ck_Network c) A st now"
      using x(1) A(1) by (auto simp: aggregateWindow_def dest!: aggregate_loop_plain)
    thus ?thesis using contrib_nonneg [of now e] by simp
  next
    case False
    let ?g = "\<lambda>a. win st (counterPath (ck_Network c) a) now"
    have "excl = sum_list (map (\<lambda>a. if a = ck_Account c then (case loadCounter st (ck_Network c) a of
        Inr cf \<Rightarrow> sumWindowExcluding cf now (ce_ID e) | Inl _ \<Rightarrow> 0) else ?g a) A)"
      using aggregate_loop_excl [of st "ck_Network c" now "ck_Account c" "ce_ID e" A 0 excl] False x(1) A(1)
      by (simp add: aggregateWindow_def)
    also have "\<dots> = sum_list (map ?g A) - ?g (ck_Account c) + sumWindowExcluding cf now (ce_ID e)"
      using A(2,3) l by (subst sum_list_point [where x = "ck_Account c" and g = ?g]) (auto simp: paths_distinct_def)
    also have "sumWindowExcluding cf now (ce_ID e) = sumWindow cf now - contrib now e"
      using wf e sum_excl_distinct by (simp add: sumWindowExcluding_sum sumWindow_sum good_file_def)
    finally show ?thesis using loadCounter_win [OF l, of now] by (simp add: total_def)
  qed
  moreover have "sumWindow (debitCounter cf rid c now) now \<le> sumWindow cf now - contrib now e + merged_envelope e c"
    using rbf by (rule debit_rbf)
  ultimately show ?thesis using x(2) by simp
qed

text \<open>A new reservation id (a ULID) is in no counter file.\<close>

definition fresh_id :: "string \<Rightarrow> engine \<Rightarrow> bool" where
  "fresh_id rid st \<longleftrightarrow> (\<forall>p cf. en_counters st p = Content cf \<longrightarrow> rid \<notin> ce_ID ` set (cf_Entries cf))"

lemma loadCounter_fresh:
  assumes "loadCounter st n a = Inr cf" "fresh_id rid st"
  shows "rid \<notin> ce_ID ` set (cf_Entries cf)"
proof (cases "en_counters st (counterPath n a)")
  case (Content x)
  hence "rid \<notin> ce_ID ` set (cf_Entries x)" using assms(2) by (simp add: fresh_id_def)
  moreover have "cf_Entries cf = cf_Entries x" using Content assms(1) by (auto simp: loadCounter_def)
  ultimately show ?thesis by simp
qed (use assms(1) in \<open>auto simp: loadCounter_def\<close>)

text \<open>The two ways a \<open>Reserve\<close> can end for the counters: untouched, or debited after an allowed verdict.\<close>

lemma Reserve_counters:
  assumes "Reserve pol ev c st = (res, st')"
  shows "en_counters st' = en_counters st \<or>
    (\<exists>p cf spent rbf r. pol = Inr (Some p) \<and> res = Inr (Some r) \<and> loadCounter st (ck_Network c) (ck_Account c) = Inr cf \<and>
      windowFor st ev c cf (ev_now ev) = Inr (spent, rbf) \<and> de_Allowed (Evaluate p c (Some spent) (ev_now ev)) \<and>
      effectiveKind c \<noteq> KindPermit \<and>
      en_counters st' = (en_counters st)(counterPath (ck_Network c) (ck_Account c) :=
        Content (pruneCounter ((debitCounter cf (ev_id ev) c (ev_now ev))\<lparr>cf_PolicyNonce := po_Nonce p, cf_Version := 1\<rparr>) (ev_now ev))))"
proof (cases "\<exists>p. pol = Inr (Some p) \<and> ev_net ev = LockOK")
  case False
  thus ?thesis using assms writeReservation_counters
    by (auto simp: Reserve_def withNetworkLock_def split: sum.split_asm option.split_asm lockfault.split_asm prod.split_asm)
next
  case True
  then obtain p where p: "pol = Inr (Some p)" "ev_net ev = LockOK" by blast
  show ?thesis
  proof (cases "loadCounter st (ck_Network c) (ck_Account c)")
    case (Inl e) thus ?thesis using assms p by (simp add: Reserve_def withNetworkLock_def)
  next
    case l: (Inr cf)
    show ?thesis
    proof (cases "windowFor st ev c cf (ev_now ev)")
      case (Inl e) thus ?thesis using assms p l by (simp add: Reserve_def withNetworkLock_def)
    next
      case w: (Inr sr)
      obtain spent rbf where sr: "sr = (spent, rbf)" by (cases sr)
      show ?thesis
      proof (cases "\<not> de_Allowed (Evaluate p c (Some spent) (ev_now ev)) \<or> effectiveKind c = KindPermit")
        case True
        hence "st' = st" using assms p l w sr by (auto simp: Reserve_def withNetworkLock_def Let_def split: if_split_asm)
        thus ?thesis by simp
      next
        case ok: False
        obtain r1 st1 where w1: "writeReservation ev (newReservation ev c) st = (r1, st1)" by force
        have c1: "en_counters st1 = en_counters st" using writeReservation_counters [OF w1] .
        show ?thesis
        proof (cases "r1")
          case (Inl e) thus ?thesis using assms p l w sr ok w1 c1 by (simp add: Reserve_def withNetworkLock_def Let_def)
        next
          case (Inr u)
          thus ?thesis using assms p l w sr ok w1 c1
            by (cases "ev_ctrw ev") (auto simp: Reserve_def withNetworkLock_def Let_def writeCounter_def newReservation_def)
        qed
      qed
    qed
  qed
qed

lemma Reserve_meter:
  assumes R: "Reserve pol ev c st = (res, st')" and wf: "wf_engine st"
    and A: "networkAccounts (ev_accounts ev) net (ck_Account c) = A" "paths_distinct A" "ck_Account c \<in> set A"
    and n: "ck_Network c = net" and t: "\<not> ck_TypedUnknown c" and nn: "0 \<le> spendWei c" "0 \<le> maxGasWei c"
    and L: "\<And>p. pol = Inr (Some p) \<Longrightarrow> \<exists>m \<le> L. rl_maxDay (resolveLimits p net) = Some m"
    and fresh: "fresh_id (ev_id ev) st"
  shows "wf_engine st' \<and> (\<forall>now' \<ge> ev_now ev. total net A st' now' \<le> total net A st now' \<or> total net A st' now' \<le> L)"
  using Reserve_counters [OF R]
proof (elim disjE exE conjE)
  assume "en_counters st' = en_counters st"
  from counters_same [OF this, of "ev_now ev"] show ?thesis
    using wf counters_le_total by (auto simp: counters_le_def)
next
  fix p :: Policy and cf spent rbf r
  let ?d = "debitCounter cf (ev_id ev) c (ev_now ev)"
  let ?cf = "pruneCounter (?d\<lparr>cf_PolicyNonce := po_Nonce p, cf_Version := 1\<rparr>) (ev_now ev)"
  assume p: "pol = Inr (Some p)" and l: "loadCounter st (ck_Network c) (ck_Account c) = Inr cf"
    and w: "windowFor st ev c cf (ev_now ev) = Inr (spent, rbf)"
    and a: "de_Allowed (Evaluate p c (Some spent) (ev_now ev))" "effectiveKind c \<noteq> KindPermit"
    and e: "en_counters st' = (en_counters st)(counterPath (ck_Network c) (ck_Account c) := Content ?cf)"
  have g: "good_file cf" using loadCounter_good [OF l wf] .
  have "ev_id ev \<notin> ce_ID ` set (cf_Entries cf)" using loadCounter_fresh [OF l fresh] .
  hence gd: "good_file ?d" using g by (intro good_debit)
  have "good_file ?cf" using gd good_file_cong [of "?d\<lparr>cf_PolicyNonce := po_Nonce p, cf_Version := 1\<rparr>" ?d] by (intro good_prune) simp
  hence wf': "wf_engine st'" using wf by (auto simp: wf_engine_def e)
  have s: "sumWindow ?cf (ev_now ev) = sumWindow ?d (ev_now ev)"
    by (simp add: sumWindow_prune sumWindow_cong [of "?d\<lparr>cf_PolicyNonce := po_Nonce p, cf_Version := 1\<rparr>" ?d])
  obtain m where m: "m \<le> L" "rl_maxDay (resolveLimits p net) = Some m" using L [OF p] by blast
  have "total net A st' (ev_now ev) = total net A st (ev_now ev) - sumWindow cf (ev_now ev) + sumWindow ?d (ev_now ev)"
    using total_update [OF A(2,3), of st' st net ?cf] e n s loadCounter_win [OF l] by simp
  also have "\<dots> \<le> spent + (spendWei c + maxGasWei c)"
    using windowFor_bound [OF _ A(2,3) l g w nn] A(1) n by simp
  also have "\<dots> \<le> m" using gate [OF a(1) t a(2)] m(2) n by simp
  finally have "total net A st' (ev_now ev) \<le> L" using m(1) by simp
  thus ?thesis using wf' total_antimono by (blast intro: order_trans)
qed

text \<open>A request on another network leaves this network's files alone.\<close>

lemma Reserve_other:
  assumes R: "Reserve pol ev c st = (res, st')" and wf: "wf_engine st"
    and n: "ToLower (ck_Network c) \<noteq> ToLower net"
    and fresh: "fresh_id (ev_id ev) st"
  shows "wf_engine st' \<and> total net A st' now' = total net A st now'"
  using Reserve_counters [OF R]
proof (elim disjE exE conjE)
  assume "en_counters st' = en_counters st"
  thus ?thesis using wf by (simp add: wf_engine_def total_def win_def)
next
  fix p :: Policy and cf spent rbf r
  let ?d = "debitCounter cf (ev_id ev) c (ev_now ev)"
  let ?cf = "pruneCounter (?d\<lparr>cf_PolicyNonce := po_Nonce p, cf_Version := 1\<rparr>) (ev_now ev)"
  assume l: "loadCounter st (ck_Network c) (ck_Account c) = Inr cf"
    and e: "en_counters st' = (en_counters st)(counterPath (ck_Network c) (ck_Account c) := Content ?cf)"
  have "ev_id ev \<notin> ce_ID ` set (cf_Entries cf)" using loadCounter_fresh [OF l fresh] .
  hence gd: "good_file ?d" using loadCounter_good [OF l wf] by (intro good_debit)
  have "good_file ?cf" using gd good_file_cong [of "?d\<lparr>cf_PolicyNonce := po_Nonce p, cf_Version := 1\<rparr>" ?d] by (intro good_prune) simp
  hence "wf_engine st'" using wf by (auto simp: wf_engine_def e)
  moreover have "win st' (counterPath net a) now' = win st (counterPath net a) now'" for a
    using n by (simp add: win_def e counterPath_def)
  ultimately show ?thesis by (simp add: total_def)
qed

section \<open>A meter and its limit\<close>

text \<open>The contract the daily limit rests on: a quantity that time only lowers, changed by steps each of
  which either does not raise it or leaves it within the limit.  Then it is within the limit for ever.\<close>

locale spend_meter =
  fixes meter :: "'s \<Rightarrow> time \<Rightarrow> int" and inv :: "'s \<Rightarrow> bool" and step :: "time \<Rightarrow> 's \<Rightarrow> 's \<Rightarrow> bool" and cap :: int
  assumes aging: "now \<le> now' \<Longrightarrow> meter s now' \<le> meter s now"
    and step_inv: "inv s \<Longrightarrow> step now s s' \<Longrightarrow> inv s'"
    and step_meter: "inv s \<Longrightarrow> step now s s' \<Longrightarrow> meter s' now \<le> meter s now \<or> meter s' now \<le> cap"
begin

text \<open>Runs: the clock may advance before each step.\<close>

inductive run :: "time \<Rightarrow> 's \<Rightarrow> time \<Rightarrow> 's \<Rightarrow> bool" where
  here: "run now s now s"
| tick: "run now s t s' \<Longrightarrow> t \<le> t' \<Longrightarrow> run now s t' s'"
| op: "run now s t s' \<Longrightarrow> step t s' s'' \<Longrightarrow> run now s t s''"

lemma run_cap: "run now s t s' \<Longrightarrow> inv s \<Longrightarrow> meter s now \<le> cap \<Longrightarrow> inv s' \<and> meter s' t \<le> cap"
proof (induction rule: run.induct)
  case (tick now s t s' t')
  thus ?case using aging [of t t' s'] by auto
next
  case (op now s t s' s'')
  thus ?case using step_inv step_meter by fastforce
qed simp

end

section \<open>The engine as a meter\<close>

text \<open>The steps of the engine at one instant, for a network \<open>net\<close> whose keystore accounts are \<open>A\<close> and
  whose day limit is at most \<open>L\<close>.  Every step may fail at any of its locks and writes.  A transition of
  a reservation is two separate critical sections in the source, so other processes may run in between;
  its halves are steps of their own.\<close>

definition known_accounts :: "env \<Rightarrow> string \<Rightarrow> address list \<Rightarrow> bool" where
  "known_accounts ev net A \<longleftrightarrow> (\<exists>f. ev_accounts ev = Some f \<and> foldl add_account [] (f net) = A)"

inductive engine_step :: "string \<Rightarrow> address list \<Rightarrow> int \<Rightarrow> time \<Rightarrow> engine \<Rightarrow> engine \<Rightarrow> bool"
  for net :: string and A :: "address list" and L :: int and now :: time where
  reserve: "Reserve pol ev c st = (res, st') \<Longrightarrow> ev_now ev = now \<Longrightarrow> fresh_id (ev_id ev) st \<Longrightarrow>
     ck_Network c = net \<Longrightarrow> known_accounts ev net A \<Longrightarrow> ck_Account c \<in> set A \<Longrightarrow>
     \<not> ck_TypedUnknown c \<Longrightarrow> 0 \<le> spendWei c \<Longrightarrow> 0 \<le> maxGasWei c \<Longrightarrow>
     (\<And>p. pol = Inr (Some p) \<Longrightarrow> \<exists>m \<le> L. rl_maxDay (resolveLimits p net) = Some m) \<Longrightarrow>
     engine_step net A L now st st'"
| reserve_other: "Reserve pol ev c st = (res, st') \<Longrightarrow> ev_now ev = now \<Longrightarrow> fresh_id (ev_id ev) st \<Longrightarrow>
     ToLower (ck_Network c) \<noteq> ToLower net \<Longrightarrow> engine_step net A L now st st'"
| check: "Engine_Evaluate pol ev c st = (dec, st') \<Longrightarrow> engine_step net A L now st st'"
| log_transition: "transition ev rid mut st = (res, st') \<Longrightarrow> engine_step net A L now st st'"
| log_release: "release_log ev rid st = (res, st') \<Longrightarrow> engine_step net A L now st st'"
| counter_commit: "counterTransition ev rid (mut_primary (commit_cand h)) st = (res, st') \<Longrightarrow> ev_now ev = now \<Longrightarrow>
     engine_step net A L now st st'"
| counter_release: "counterTransition ev rid (mut_primary release_cand) st = (res, st') \<Longrightarrow> ev_now ev = now \<Longrightarrow>
     engine_step net A L now st st'"
| counter_settle: "counterTransition ev rid (mut_primary (settle_cand a reverted)) st = (res, st') \<Longrightarrow> ev_now ev = now \<Longrightarrow>
     engine_step net A L now st st'"

lemma Engine_Evaluate_pure: "Engine_Evaluate pol ev c st = (dec, st') \<Longrightarrow> st' = st"
  by (auto simp: Engine_Evaluate_def withNetworkLock_def split: sum.split_asm option.split_asm lockfault.split_asm prod.split_asm)

lemma networkAccounts_A:
  assumes "known_accounts ev net A" "a \<in> set A"
  shows "networkAccounts (ev_accounts ev) net a = A"
proof -
  obtain f where f: "ev_accounts ev = Some f" "foldl add_account [] (f net) = A"
    using assms(1) by (auto simp: known_accounts_def)
  have "a \<in> set (f net)" "a \<noteq> zero_address" using assms(2) f(2) fold_account_set [of "[]" "f net"] by auto
  thus ?thesis using networkAccounts_known f by simp
qed

lemma engine_step_ok:
  assumes "engine_step net A L now st st'" "wf_engine st" "paths_distinct A"
  shows "wf_engine st' \<and> (total net A st' now \<le> total net A st now \<or> total net A st' now \<le> L)"
  using assms(1)
proof cases
  case (reserve pol ev c res)
  have "wf_engine st' \<and> (\<forall>now' \<ge> ev_now ev. total net A st' now' \<le> total net A st now' \<or> total net A st' now' \<le> L)"
    by (rule Reserve_meter [OF reserve(1) assms(2) networkAccounts_A [OF reserve(5,6)] assms(3) reserve(6) reserve(4) reserve(7-9) reserve(10) reserve(3)])
  thus ?thesis using reserve(2) by auto
next
  case (reserve_other pol ev c res)
  thus ?thesis using Reserve_other [OF reserve_other(1) assms(2) reserve_other(4) reserve_other(3)] by simp
next
  case (check pol ev c dec)
  thus ?thesis using Engine_Evaluate_pure assms(2) by blast
next
  case (log_transition ev rid mut res)
  from counters_same [OF transition_counters [OF this], of now] show ?thesis
    using assms(2) counters_le_total by (auto simp: counters_le_def)
next
  case (log_release ev rid res)
  from counters_same [OF release_log_counters [OF this], of now] show ?thesis
    using assms(2) counters_le_total by (auto simp: counters_le_def)
next
  case (counter_commit ev rid h res)
  from counterTransition_le [OF this(1)] show ?thesis
    using assms(2) counters_le_total counter_commit(2) by (auto simp: counters_le_def shrinks_commit)
next
  case (counter_release ev rid res)
  from counterTransition_le [OF this(1)] show ?thesis
    using assms(2) counters_le_total counter_release(2) by (auto simp: counters_le_def shrinks_release)
next
  case (counter_settle ev rid a reverted res)
  from counterTransition_le [OF this(1)] show ?thesis
    using assms(2) counters_le_total counter_settle(2) by (auto simp: counters_le_def shrinks_settle wf_settle)
qed

interpretation day_window: spend_meter "total net A" "\<lambda>st. wf_engine st \<and> paths_distinct A" "engine_step net A L" L
  for net A L
  by unfold_locales (auto simp: total_antimono dest: engine_step_ok)

section \<open>Properties\<close>

text \<open>C1. The daily limit holds across accounts and processes: on a network whose accounts are \<open>A\<close> and whose
  day limit never exceeds \<open>L\<close>, in every run of the engine (reservations, replacements, commits, releases,
  settlements, checks and clock ticks in any interleaving, with any lock timeout and any failed write), the
  sum over all accounts of the debits of the last 24 hours stays at most \<open>L\<close> once it is.\<close>

theorem daily_limit_invariant:
  assumes "spend_meter.run (engine_step net A L) now st t st'"
    and "wf_engine st" "paths_distinct A" "total net A st now \<le> L"
  shows "total net A st' t \<le> L \<and> wf_engine st'"
  using day_window.run_cap [OF assms(1)] assms(2-4) by blast

definition empty_engine :: engine where
  "empty_engine = \<lparr>en_log = Missing, en_counters = (\<lambda>_. Missing)\<rparr>"

definition demo_env :: env where
  "demo_env = \<lparr>ev_accounts = Some (\<lambda>_. [''0xa1'', ''0xa2'']), ev_now0 = 0, ev_now = 0, ev_id = ''r1'', ev_net = LockOK,
     ev_log = LockOK, ev_log2 = LockOK, ev_logw = WriteOK, ev_ctrw = WriteOK\<rparr>"

lemma empty_engine_ok [simp]: "wf_engine empty_engine" "total net A empty_engine now = 0" "fresh_id i empty_engine"
  by (simp_all add: wf_engine_def empty_engine_def total_def win_def fresh_id_def)

lemma zero_address_long: "length zero_address = 42"
  by (simp add: zero_address_def)

lemma demo_accounts: "known_accounts demo_env net [''0xa1'', ''0xa2'']"
proof -
  have "''0xa1'' \<noteq> zero_address" "''0xa2'' \<noteq> zero_address"
    using zero_address_long by (auto simp del: length_Cons dest!: arg_cong [where f = length])
  thus ?thesis by (simp add: known_accounts_def demo_env_def add_account_def)
qed

lemma demo_step:
  "engine_step ''mainnet'' [''0xa1'', ''0xa2''] 5000 0 empty_engine (snd (Reserve (Inr (Some demo_policy)) demo_env demo_check empty_engine))"
  by (rule engine_step.reserve [OF prod.collapse [symmetric]])
     (simp_all add: demo_accounts demo_limits, simp_all add: demo_env_def demo_check_def spendWei_def maxGasWei_def)

theorem daily_limit_invariant_witness:
  "total ''mainnet'' [''0xa1'', ''0xa2''] (snd (Reserve (Inr (Some demo_policy)) demo_env demo_check empty_engine)) 10 \<le> 5000"
proof -
  let ?st = "snd (Reserve (Inr (Some demo_policy)) demo_env demo_check empty_engine)"
  have "spend_meter.run (engine_step ''mainnet'' [''0xa1'', ''0xa2''] 5000) 0 empty_engine 10 ?st"
    by (rule day_window.run.tick [OF day_window.run.op [OF day_window.run.here demo_step]]) simp
  from daily_limit_invariant [OF this] show ?thesis
    by (simp add: paths_distinct_def inj_on_def ToLower_def lower_char_def)
qed

text \<open>A denied reservation writes nothing: when the verdict is a denial, \<open>Reserve\<close> returns an error with
  exit code 3 and leaves both the reservation log and every counter file as they were.\<close>

lemma Reserve_denied_writes_nothing:
  assumes "Reserve (Inr (Some p)) ev c st = (Inl e, st')" "ev_net ev = LockOK"
    "loadCounter st (ck_Network c) (ck_Account c) = Inr cf" "windowFor st ev c cf (ev_now ev) = Inr (spent, rbf)"
    "\<not> de_Allowed (Evaluate p c (Some spent) (ev_now ev))"
  shows "st' = st \<and> Exit e = ExitPolicyDenied \<and> Code e = de_Code (Evaluate p c (Some spent) (ev_now ev))"
proof -
  let ?d = "Evaluate p c (Some spent) (ev_now ev)"
  let ?r = "refineRetryAfter st ev ?d c (ev_now ev) rbf"
  have e: "st' = st" "e = deniedError ?r"
    using assms by (auto simp: Reserve_def withNetworkLock_def Let_def)
  have c: "de_Code ?r = de_Code ?d"
    by (auto simp: refineRetryAfter_def split: option.splits)
  have "de_Code ?d \<in> denial_codes" using assms(5) by (rule Evaluate_denied_code)
  hence "ExitOf (de_Code ?d) = ExitPolicyDenied" "de_Code ?d \<noteq> []" by (rule denial_code_exit, rule denial_code_ne)
  thus ?thesis using e c by (simp add: deniedError_def Let_def)
qed

lemma demo_load: "loadCounter empty_engine n a = Inr \<lparr>cf_Version = 1, cf_PolicyNonce = 0, cf_Network = ToLower n,
    cf_From = ToLower a, cf_Entries = []\<rparr>"
  by (simp add: loadCounter_def empty_engine_def)

lemma demo_window: "windowFor empty_engine demo_env (demo_check\<lparr>ck_SpendWei := v\<rparr>) cf now = Inr (0, no_rbf)"
proof -
  have "aggregate_loop empty_engine n now ex [] A acc = Inr acc" for n ex A acc
    by (induction A arbitrary: acc) (simp_all add: demo_load sumWindow_def)
  thus ?thesis by (simp add: windowFor_def aggregateWindow_def demo_check_def)
qed


end
