(* ===== verification/Policy_Retry.thy ===== *)
theory Policy_Retry
  imports Policy_Window
begin

text \<open>
  The \<open>retry_after\<close> instant of a day-limit denial (\<open>refineRetryAfter\<close> in \<open>internal/policy/policy.go\<close>): the
  walk over the in-window entries, oldest first, finds exactly the instant after which the request fits,
  provided nothing else is debited meanwhile.
\<close>

section \<open>The exchange sort\<close>

lemma exchange_pass_mset: "exchange_pass x ys = (m, r) \<Longrightarrow> mset (m # r) = mset (x # ys)"
  by (induction x ys arbitrary: m r rule: exchange_pass.induct) (auto split: if_splits prod.splits)

lemma exchange_pass_min: "exchange_pass x ys = (m, r) \<Longrightarrow> z \<in> set (x # ys) \<Longrightarrow> fst m \<le> fst z"
proof (induction x ys arbitrary: m r z rule: exchange_pass.induct)
  case (2 x y ys)
  show ?case
  proof (cases "fst y < fst x")
    case True
    obtain m' r' where e: "exchange_pass y ys = (m', r')" by (cases "exchange_pass y ys")
    have m: "m = m'" using 2(3) True e by simp
    have "fst m \<le> fst y" "\<And>z. z \<in> set ys \<Longrightarrow> fst m \<le> fst z" using 2(1) [OF True e] m by auto
    thus ?thesis using 2(4) True by (cases z) auto
  next
    case False
    obtain m' r' where e: "exchange_pass x ys = (m', r')" by (cases "exchange_pass x ys")
    have m: "m = m'" using 2(3) False e by simp
    have "fst m \<le> fst x" "\<And>z. z \<in> set ys \<Longrightarrow> fst m \<le> fst z" using 2(2) [OF False e] m by auto
    thus ?thesis using 2(4) False by (cases z) auto
  qed
qed simp

lemma exchange_sort_mset: "mset (exchange_sort xs) = mset xs"
proof (induction xs rule: exchange_sort.induct)
  case (2 x xs)
  obtain m r where e: "exchange_pass x xs = (m, r)" by (cases "exchange_pass x xs")
  thus ?case using 2 [of "(m, r)"] exchange_pass_mset [OF e] by simp
qed simp

lemma exchange_sort_sorted: "sorted (map fst (exchange_sort xs))"
proof (induction xs rule: exchange_sort.induct)
  case (2 x xs)
  obtain m r where e: "exchange_pass x xs = (m, r)" by (cases "exchange_pass x xs")
  have "set (exchange_sort r) = set r" by (metis exchange_sort_mset set_mset_mset)
  moreover have "set r \<subseteq> set (x # xs)" using exchange_pass_mset [OF e] by (metis list.set_intros(2) set_mset_mset subsetI)
  ultimately have "\<forall>z \<in> set (exchange_sort r). fst m \<le> fst z" using exchange_pass_min [OF e] by blast
  thus ?case using 2 [of "(m, r)"] e by simp
qed simp

section \<open>The walk\<close>

definition above :: "time \<Rightarrow> (time \<times> int) list \<Rightarrow> int" where
  "above t ws = sum_list (map snd (filter (\<lambda>p. t < fst p) ws))"

definition from_on :: "time \<Rightarrow> (time \<times> int) list \<Rightarrow> int" where
  "from_on t ws = sum_list (map snd (filter (\<lambda>p. t \<le> fst p) ws))"

lemma retry_walk_mem: "retry_walk r d l xs = Some t \<Longrightarrow> t \<in> fst ` set xs \<and> t \<noteq> zero_time"
  by (induction r d l xs rule: retry_walk.induct) (auto split: if_splits)

lemma above_le: "(\<And>p. p \<in> set ws \<Longrightarrow> 0 \<le> snd p) \<Longrightarrow> above t ws \<le> sum_list (map snd ws)"
  unfolding above_def by (rule sum_list_filter_le)

lemma retry_walk_fits:
  "retry_walk (sum_list (map snd xs)) d l xs = Some t \<Longrightarrow> sorted (map fst xs) \<Longrightarrow> (\<And>p. p \<in> set xs \<Longrightarrow> 0 \<le> snd p) \<Longrightarrow>
     above t xs + d \<le> l"
proof (induction xs)
  case (Cons p xs)
  obtain s w where p: "p = (s, w)" by (cases p)
  let ?r = "sum_list (map snd xs)"
  show ?case
  proof (cases "?r + d \<le> l")
    case True
    hence t: "t = s" using Cons.prems(1) p by (auto split: if_splits)
    have "above t xs \<le> ?r" using Cons.prems(3) by (intro above_le) auto
    thus ?thesis using True t p by (simp add: above_def)
  next
    case False
    hence w: "retry_walk ?r d l xs = Some t" using Cons.prems(1) p by (auto split: if_splits)
    have "s \<le> t" using retry_walk_mem [OF w] Cons.prems(2) p by auto
    moreover have "above t xs + d \<le> l" using Cons.IH [OF w] Cons.prems by auto
    ultimately show ?thesis using p by (simp add: above_def)
  qed
qed simp

lemma retry_walk_minimal:
  "retry_walk (sum_list (map snd xs)) d l xs = Some t \<Longrightarrow> l < sum_list (map snd xs) + d \<Longrightarrow> sorted (map fst xs) \<Longrightarrow>
     (\<And>p. p \<in> set xs \<Longrightarrow> 0 \<le> snd p) \<Longrightarrow> l < from_on t xs + d"
proof (induction xs)
  case (Cons p xs)
  obtain s w where p: "p = (s, w)" by (cases p)
  let ?r = "sum_list (map snd xs)"
  show ?case
  proof (cases "?r + d \<le> l")
    case True
    hence t: "t = s" using Cons.prems(1) p by (auto split: if_splits)
    have "filter (\<lambda>p. t \<le> fst p) xs = xs" using Cons.prems(3) p t by (auto simp: filter_id_conv)
    thus ?thesis using Cons.prems(2) t p by (simp add: from_on_def)
  next
    case False
    hence w: "retry_walk ?r d l xs = Some t" using Cons.prems(1) p by (auto split: if_splits)
    have "l < from_on t xs + d" using Cons.IH [OF w] False Cons.prems by auto
    thus ?thesis using p Cons.prems(4) [of p] by (simp add: from_on_def)
  qed
qed simp

lemma above_mset: "mset xs = mset ys \<Longrightarrow> above t xs = above t ys"
  by (simp add: above_def flip: sum_mset_sum_list)

lemma from_on_mset: "mset xs = mset ys \<Longrightarrow> from_on t xs = from_on t ys"
  by (simp add: from_on_def flip: sum_mset_sum_list)

lemma sum_snd_mset: "mset xs = mset ys \<Longrightarrow> sum_list (map snd xs) = (sum_list (map snd ys) :: int)"
  by (simp flip: sum_mset_sum_list)

section \<open>The entries the walk sees\<close>

definition dated :: "engine \<Rightarrow> string \<Rightarrow> address list \<Rightarrow> bool" where
  "dated st net A \<longleftrightarrow> (\<forall>a \<in> set A. \<forall>cf. loadCounter st net a = Inr cf \<longrightarrow> (\<forall>e \<in> set (cf_Entries cf). parseTS (ce_TS e) \<noteq> zero_time))"

lemma window_entries_Nil [simp]: "window_entries rbf now a [] = []"
  by (simp add: window_entries_def List.map_filter_def)

lemma window_entries_Cons: "window_entries no_rbf now a (e # es) =
   (if aged_out now e \<or> entryAllReleased e then [] else [(parseTS (ce_TS e), envelope e)]) @ window_entries no_rbf now a es"
  by (simp add: window_entries_def List.map_filter_def no_rbf_def envelope_def)

lemma window_entries_sum: "sum_list (map snd (window_entries no_rbf now a es)) = sum_list (map (contrib now) es)"
proof (induction es)
  case (Cons e es)
  thus ?case by (auto simp: window_entries_Cons contrib_def envelope_released)
qed simp

lemma window_entries_above:
  assumes "\<And>e. e \<in> set es \<Longrightarrow> parseTS (ce_TS e) \<noteq> zero_time" "now \<le> now'" "t + day < now'"
  shows "sum_list (map (contrib now') es) \<le> above t (window_entries no_rbf now a es)"
  using assms(1)
proof (induction es)
  case (Cons e es)
  have "contrib now' e \<le> (if aged_out now e \<or> entryAllReleased e \<or> parseTS (ce_TS e) \<le> t then 0 else envelope e)"
    using Cons.prems [of e] assms(2,3) aged_out_mono [OF _ assms(2)] envelope_nonneg [of e] by (auto simp: contrib_def envelope_released aged_out_def)
  thus ?case using Cons by (auto simp: window_entries_Cons above_def)
qed (simp add: above_def)

lemma window_entries_from:
  assumes "now' \<le> t + day"
  shows "from_on t (window_entries no_rbf now a es) \<le> sum_list (map (contrib now') es)"
proof (induction es)
  case (Cons e es)
  have "(if aged_out now e \<or> entryAllReleased e \<or> parseTS (ce_TS e) < t then 0 else envelope e) \<le> contrib now' e"
    using assms envelope_nonneg [of e] by (auto simp: contrib_def aged_out_def)
  thus ?case using Cons by (auto simp: window_entries_Cons from_on_def)
qed (simp add: from_on_def)

lemma window_entries_nonneg: "p \<in> set (window_entries no_rbf now a es) \<Longrightarrow> 0 \<le> snd p"
  by (induction es) (auto simp: window_entries_Cons envelope_nonneg split: if_splits)

lemma collect_window_facts:
  assumes "collect_window st net no_rbf now A = Some ws"
  shows "sum_list (map snd ws) = total net A st now" "p \<in> set ws \<Longrightarrow> 0 \<le> snd p"
    "dated st net A \<Longrightarrow> now \<le> now' \<Longrightarrow> t + day < now' \<Longrightarrow> total net A st now' \<le> above t ws"
    "now' \<le> t + day \<Longrightarrow> from_on t ws \<le> total net A st now'"
proof -
  have "sum_list (map snd ws) = total net A st now \<and> (\<forall>p \<in> set ws. 0 \<le> snd p) \<and>
    (dated st net A \<longrightarrow> now \<le> now' \<longrightarrow> t + day < now' \<longrightarrow> total net A st now' \<le> above t ws) \<and>
    (now' \<le> t + day \<longrightarrow> from_on t ws \<le> total net A st now')"
    using assms
  proof (induction A arbitrary: ws)
    case Nil thus ?case by (simp add: total_def above_def from_on_def)
  next
    case (Cons a A)
    then obtain cf vs where cf: "loadCounter st net a = Inr cf" and vs: "collect_window st net no_rbf now A = Some vs"
      and ws: "ws = window_entries no_rbf now a (cf_Entries cf) @ vs"
      by (auto split: sum.splits)
    have tot: "total net (a # A) st n = sum_list (map (contrib n) (cf_Entries cf)) + total net A st n" for n
      using loadCounter_win [OF cf] by (simp add: total_def sumWindow_sum)
    have ap: "above t ws = above t (window_entries no_rbf now a (cf_Entries cf)) + above t vs"
      "from_on t ws = from_on t (window_entries no_rbf now a (cf_Entries cf)) + from_on t vs"
      by (simp_all add: ws above_def from_on_def)
    have "total net (a # A) st now' \<le> above t ws" if "dated st net (a # A)" "now \<le> now'" "t + day < now'"
      using Cons.IH [OF vs] that cf window_entries_above [of "cf_Entries cf" now now' t a]
      unfolding tot ap by (fastforce simp: dated_def)
    moreover have "from_on t ws \<le> total net (a # A) st now'" if "now' \<le> t + day"
      using Cons.IH [OF vs] window_entries_from [OF that] that unfolding tot ap by (fastforce intro: add_mono)
    ultimately show ?case using Cons.IH [OF vs] window_entries_sum window_entries_nonneg unfolding tot
      by (auto simp: ws)
  qed
  thus "sum_list (map snd ws) = total net A st now" "p \<in> set ws \<Longrightarrow> 0 \<le> snd p"
    "dated st net A \<Longrightarrow> now \<le> now' \<Longrightarrow> t + day < now' \<Longrightarrow> total net A st now' \<le> above t ws"
    "now' \<le> t + day \<Longrightarrow> from_on t ws \<le> total net A st now'" by auto
qed

lemma retry_exact:
  assumes c: "collect_window st net no_rbf now A = Some ws" and d: "dated st net A"
    and w: "retry_walk (sum_list (map snd ws)) b l (exchange_sort ws) = Some t"
    and over: "l < total net A st now + b" and n: "now \<le> now'"
  shows "total net A st now' + b \<le> l \<longleftrightarrow> t + day < now'"
proof -
  let ?xs = "exchange_sort ws"
  have m: "mset ?xs = mset ws" by (rule exchange_sort_mset)
  have s: "sum_list (map snd ?xs) = sum_list (map snd ws)" using sum_snd_mset [OF m] .
  have nn: "\<And>p. p \<in> set ?xs \<Longrightarrow> 0 \<le> snd p" using collect_window_facts(2) [OF c] m by (metis set_mset_mset)
  have "above t ws + b \<le> l"
    using retry_walk_fits [of ?xs b l t] w exchange_sort_sorted nn above_mset [OF m] by (simp add: s)
  moreover have "l < from_on t ws + b"
    using retry_walk_minimal [of ?xs b l t] w exchange_sort_sorted nn from_on_mset [OF m] over collect_window_facts(1) [OF c]
    by (simp add: s)
  ultimately show ?thesis
    using collect_window_facts(3) [OF c d n, of t] collect_window_facts(4) [OF c, of now' t] by fastforce
qed

section \<open>The denial carries the limit\<close>

lemma day_violation:
  assumes "v \<in> set (violations_of p req used now)" "vi_Code v = codeDayLimit"
  shows "stageDaily (resolveLimits p (ck_Network req)) req used now = Some v"
  using assms
  by (cases "stageDenylist p req") (auto simp: violations_of_def Let_def in_opt dest: stage_codes stage_codes [OF sym])

lemma map_of_fold_upsert:
  "map_of (foldl (\<lambda>m (k, x). upsert k x m) m d) k = (case map_of (rev d) k of Some v \<Rightarrow> Some v | None \<Rightarrow> map_of m k)"
  by (induction d arbitrary: m) (auto simp: map_add_def split: option.splits)

lemma stageDaily_Some:
  assumes "stageDaily lim c (Some spent) now = Some v"
  shows "\<exists>L. rl_maxDay lim = Some L \<and> L < spent + (spendWei c + maxGasWei c) \<and>
    map_of (rev (vi_Data v)) ''limit'' = Some (JStr (int_dec L))"
  using assms by (auto simp: stageDaily_def Let_def split: option.splits if_splits)

lemma day_denial:
  assumes "\<not> de_Allowed (Evaluate p c (Some spent) now)" "de_Code (Evaluate p c (Some spent) now) = codeDayLimit" "\<not> ck_TypedUnknown c"
  shows "\<exists>L. rl_maxDay (resolveLimits p (ck_Network c)) = Some L \<and> L < spent + (spendWei c + maxGasWei c) \<and>
    map_of (de_Data (Evaluate p c (Some spent) now)) ''limit'' = Some (JStr (int_dec L))"
proof -
  let ?vs = "violations_of p c (Some spent) now"
  obtain vs where vs: "vs \<noteq> []" "Evaluate p c (Some spent) now = composeDenial vs" "vs = ?vs"
    using Evaluate_denied [OF assms(1)] assms(3) by metis
  let ?w = "pick_winner (hd vs) (tl vs)"
  have "?w \<in> set vs" using vs(1) pick_winner_mem [of "hd vs" "tl vs"] by (cases vs) auto
  moreover have "vi_Code ?w = codeDayLimit" using assms(2) vs(2) by (simp add: composeDenial_def Let_def)
  ultimately have d: "stageDaily (resolveLimits p (ck_Network c)) c (Some spent) now = Some ?w"
    using day_violation vs(3) by simp
  then obtain L where L: "rl_maxDay (resolveLimits p (ck_Network c)) = Some L" "L < spent + (spendWei c + maxGasWei c)"
    "map_of (rev (vi_Data ?w)) ''limit'' = Some (JStr (int_dec L))"
    using stageDaily_Some [OF d] by blast
  have "de_Data (Evaluate p c (Some spent) now) = foldl (\<lambda>m (k, x). upsert k x m) [(''violations'', violationsPayload vs)] (vi_Data ?w)"
    using vs(2) by (simp add: composeDenial_def Let_def)
  thus ?thesis using L by (simp add: map_of_fold_upsert)
qed

section \<open>Properties\<close>

text \<open>The \<open>retry_after\<close> of a day-limit denial is exact: when the walk finds an entry, the printed instant is that
  entry's expiry, and (nothing else being debited, all timestamps readable) the same request fits the day limit
  at a later instant exactly if that instant is strictly after \<open>retry_after\<close>.  At the printed instant itself the
  entry is still counted.\<close>

lemma retry_after_exact:
  assumes "\<not> de_Allowed (Evaluate p c (Some spent) now)" "de_Code (Evaluate p c (Some spent) now) = codeDayLimit" "\<not> ck_TypedUnknown c"
    and "windowFor st ev c cf now = Inr (spent, no_rbf)" "A = networkAccounts (ev_accounts ev) (ck_Network c) (ck_Account c)"
    and "dated st (ck_Network c) A" "retry_entry st ev (Evaluate p c (Some spent) now) c now no_rbf = Some t" "now \<le> now'"
  shows "\<exists>L. rl_maxDay (resolveLimits p (ck_Network c)) = Some L \<and>
    de_RetryAfter (refineRetryAfter st ev (Evaluate p c (Some spent) now) c now no_rbf) = Some (t + day) \<and>
    (total (ck_Network c) A st now' + (spendWei c + maxGasWei c) \<le> L \<longleftrightarrow> t + day < now')"
proof -
  obtain L where L: "rl_maxDay (resolveLimits p (ck_Network c)) = Some L" "L < spent + (spendWei c + maxGasWei c)"
    "map_of (de_Data (Evaluate p c (Some spent) now)) ''limit'' = Some (JStr (int_dec L))"
    using day_denial [OF assms(1-3)] by blast
  have "spent = total (ck_Network c) A st now"
    using assms(4,5) by (auto simp: windowFor_def Let_def no_rbf_def aggregateWindow_def split: option.splits sum.splits if_splits dest!: aggregate_loop_plain)
  moreover obtain ws where ws: "collect_window st (ck_Network c) no_rbf now A = Some ws"
    "retry_walk (sum_list (map snd ws)) (spendWei c + maxGasWei c) L (exchange_sort ws) = Some t"
    using assms(5,7) L(3) by (auto simp: retry_entry_def no_rbf_def split: option.splits)
  ultimately have "total (ck_Network c) A st now' + (spendWei c + maxGasWei c) \<le> L \<longleftrightarrow> t + day < now'"
    using retry_exact [OF ws(1) assms(6) ws(2) _ assms(8)] L(2) by simp
  thus ?thesis using L(1) assms(1,2,7) by (simp add: refineRetryAfter_def)
qed

definition demo_cf :: counterFile where
  "demo_cf = \<lparr>cf_Version = 1, cf_PolicyNonce = 1, cf_Network = ''mainnet'', cf_From = ''0xa1'', cf_Entries =
     [\<lparr>ce_ID = ''r0'', ce_TS = Some 1000, ce_AccountNonce = Some 2, ce_Kind = ''transfer'', ce_Asset = ''eth'', ce_Candidates =
        [\<lparr>cc_TxHash = [], cc_ValueWei = ''4000'', cc_GasMaxWei = ''500'', cc_GasActualWei = None, cc_State = candCommitted\<rparr>]\<rparr>]\<rparr>"

definition demo_engine :: engine where
  "demo_engine = \<lparr>en_log = Missing, en_counters = (\<lambda>p. if p = counterPath ''mainnet'' ''0xa1'' then Content demo_cf else Missing)\<rparr>"

lemma demo_engine_load: "loadCounter demo_engine ''mainnet'' ''0xa1'' = Inr demo_cf"
  "loadCounter demo_engine ''mainnet'' ''0xa2'' = Inr \<lparr>cf_Version = 1, cf_PolicyNonce = 0, cf_Network = ToLower ''mainnet'', cf_From = ToLower ''0xa2'', cf_Entries = []\<rparr>"
  by (simp_all add: loadCounter_def demo_engine_def demo_cf_def counterPath_def ToLower_def lower_char_def)

lemma demo_env_accounts: "networkAccounts (ev_accounts demo_env) ''mainnet'' ''0xa1'' = [''0xa1'', ''0xa2'']"
  using networkAccounts_A [OF demo_accounts, of "''0xa1''"] by simp

lemma demo_sum: "sumWindow demo_cf 2000 = 4500"
  by (simp add: sumWindow_def demo_cf_def aged_out_def parseTS_def zero_time_def entryAllReleased_def entry_maxValueWei_def
      entry_maxGasWei_def cand_gas_def dec_eval)

lemma demo_check_fields: "ck_Network demo_check = ''mainnet''" "ck_Account demo_check = ''0xa1''" "\<not> ck_IsRBFDelta demo_check"
  "\<not> ck_TypedUnknown demo_check" "spendWei demo_check = 700" "maxGasWei demo_check = 200" "maxFeePerGas demo_check = 10"
  by (simp_all add: demo_check_def spendWei_def maxGasWei_def maxFeePerGas_def)

lemma demo_engine_window: "windowFor demo_engine demo_env demo_check demo_cf 2000 = Inr (4500, no_rbf)"
  by (simp add: windowFor_def demo_check_fields aggregateWindow_def demo_env_accounts demo_engine_load demo_sum)
     (simp add: sumWindow_def)

lemma demo_engine_denied: "violations_of demo_policy demo_check (Some 4500) 2000 =
    [\<lparr>vi_Code = codeDayLimit, vi_Data = [(''limit'', JStr (int_dec 5000)), (''used_24h'', JStr (int_dec 4500)),
       (''attempted'', JStr (int_dec 900)), (''retry_after'', JTime (2000 + day))]\<rparr>]"
proof -
  have "stageDenylist demo_policy demo_check = None" by (simp add: stageDenylist_def demo_policy_def)
  moreover have "stagePinDrift demo_check = None" by (simp add: stagePinDrift_def demo_check_def)
  moreover have "stageTypedData demo_policy l demo_check = None" for l by (simp add: stageTypedData_def demo_kind demo_check_fields Let_def)
  moreover have "stageUnknownCalldata demo_policy l demo_check = None" for l by (simp add: stageUnknownCalldata_def demo_check_def)
  moreover have "isTokenOrApproval demo_check KindTransfer = False"
    by (simp add: isTokenOrApproval_def demo_check_def str_simps)
  ultimately show ?thesis
    by (simp add: violations_of_def demo_limits demo_kind stageAllowlist_def stageNoAllowlist_def stagePerTx_def
        stageUnlimited_def stageDaily_def stageGasCap_def demo_check_fields)
qed


end
