(* ===== verification/Policy_Lifecycle.thy ===== *)
theory Policy_Lifecycle
  imports Policy_Window
begin

text \<open>
  The life of a reservation in the log: what \<open>Reserve\<close> makes durable, which states \<open>Commit\<close>, \<open>Release\<close> and
  \<open>SettleActual\<close> can lead to, and what they leave of the other reservations.  The facts on the log come
  from the \<open>durable_log\<close> contract, interpreted for the reservation log as \<open>reslog\<close>.
\<close>

section \<open>The log after each operation\<close>

lemma counterTransition_log: "counterTransition ev rid mut st = (r, st') \<Longrightarrow> en_log st' = en_log st"
  by (auto simp: counterTransition_def withNetworkLock_def writeCounter_def
      split: if_split_asm option.split_asm prod.split_asm lockfault.split_asm sum.split_asm writefault.split_asm)

lemma appendAndCompact_cases:
  "loadAll f = Inr m \<Longrightarrow> appendAndCompact w m r f = (res, f') \<Longrightarrow> (f' = res_put r f \<and> res = Inr ()) \<or> (f' = f \<and> (\<exists>e. res = Inl e))"
  by (cases w) (auto simp: appendAndCompact_def res_put_def)

text \<open>A transition either leaves the log or puts the mutated record.\<close>

lemma transition_log:
  assumes "transition ev rid mut st = (res, st')"
  shows "(\<exists>r. rid \<noteq> [] \<and> res_lookup (en_log st) rid = Some r \<and> en_log st' = res_put (mut r) (en_log st) \<and> res = Inr ())
    \<or> (en_log st' = en_log st \<and> (\<exists>e. res = Inl e))"
proof (cases "rid = [] \<or> ev_log ev \<noteq> LockOK")
  case True
  thus ?thesis using assms by (cases "ev_log ev") (auto simp: transition_def withLock_def split: if_split_asm)
next
  case False
  hence t: "transition ev rid mut st = (case loadAll (en_log st) of Inl e \<Rightarrow> (Inl e, st)
       | Inr m \<Rightarrow> (case map_of m rid of None \<Rightarrow> (Inl (New ''tx.integrity.reservation_missing''), st)
         | Some r \<Rightarrow> (let (res, f) = appendAndCompact (ev_logw ev) m (mut r) (en_log st) in (res, st\<lparr>en_log := f\<rparr>))))"
    by (simp add: transition_def withLock_def)
  show ?thesis
  proof (cases "loadAll (en_log st)")
    case (Inl e) thus ?thesis using assms t by auto
  next
    case (Inr m)
    show ?thesis
    proof (cases "map_of m rid")
      case None thus ?thesis using assms t Inr by auto
    next
      case (Some r)
      obtain res1 f where a: "appendAndCompact (ev_logw ev) m (mut r) (en_log st) = (res1, f)" by force
      thus ?thesis using assms t Inr Some False appendAndCompact_cases [OF Inr a] by (auto simp: res_lookup_def)
    qed
  qed
qed

lemma release_log_log:
  assumes "release_log ev rid st = (res, st')"
  shows "(\<exists>r. res_lookup (en_log st) rid = Some r \<and> rs_State r \<noteq> stateCommitted \<and>
      en_log st' = res_put (r\<lparr>rs_State := stateReleased\<rparr>) (en_log st)) \<or> en_log st' = en_log st"
proof (cases "ev_log ev = LockOK")
  case False
  thus ?thesis using assms by (cases "ev_log ev") (auto simp: release_log_def withLock_def)
next
  case True
  show ?thesis
  proof (cases "loadAll (en_log st)")
    case (Inl e) thus ?thesis using assms True by (simp add: release_log_def withLock_def)
  next
    case (Inr m)
    show ?thesis
    proof (cases "map_of m rid")
      case None thus ?thesis using assms True Inr by (simp add: release_log_def withLock_def)
    next
      case (Some r)
      obtain res1 f where a: "appendAndCompact (ev_logw ev) m (r\<lparr>rs_State := stateReleased\<rparr>) (en_log st) = (res1, f)" by force
      thus ?thesis using assms True Inr Some appendAndCompact_cases [OF Inr a]
        by (auto simp: release_log_def withLock_def res_lookup_def split: if_split_asm)
    qed
  qed
qed

lemma res_lookup_ID: "res_lookup f k = Some r \<Longrightarrow> rs_ID r = k \<and> k \<noteq> []"
proof -
  assume "res_lookup f k = Some r"
  then obtain m where m: "loadAll f = Inr m" "map_of m k = Some r" by (auto simp: res_lookup_def split: sum.splits)
  thus ?thesis using loadAll_wf [OF m(1)] by (auto simp: wf_fold_def dest!: map_of_SomeD)
qed

lemma res_lookup_readable: "res_lookup f k = Some r \<Longrightarrow> readable f"
  by (auto simp: res_lookup_def readable_def split: sum.splits)

section \<open>The operations on one reservation\<close>

datatype res_op = OpCommit string | OpRelease | OpSettle "int option" bool

fun apply_op :: "env \<Rightarrow> string \<Rightarrow> res_op \<Rightarrow> engine \<Rightarrow> unit result \<times> engine" where
  "apply_op ev rid (OpCommit h) st = Commit ev rid h st"
| "apply_op ev rid OpRelease st = Release ev rid st"
| "apply_op ev rid (OpSettle a reverted) st = SettleActual ev rid a reverted st"

fun op_record :: "res_op \<Rightarrow> Reservation \<Rightarrow> Reservation" where
  "op_record (OpCommit h) r = commit_res h r"
| "op_record OpRelease r = r\<lparr>rs_State := stateReleased\<rparr>"
| "op_record (OpSettle a reverted) r = settle_res (or_zero a) reverted r"

lemma and_then_log:
  assumes "and_then p k = (res, st')" "\<And>st1 r st2. k st1 = (r, st2) \<Longrightarrow> en_log st2 = en_log st1"
  shows "en_log st' = en_log (snd p)"
  using assms by (auto simp: and_then_def split: prod.splits sum.splits)

lemma apply_op_log:
  assumes "apply_op ev rid op st = (res, st')"
  shows "(\<exists>r. res_lookup (en_log st) rid = Some r \<and> (op = OpRelease \<longrightarrow> rs_State r \<noteq> stateCommitted) \<and>
      en_log st' = res_put (op_record op r) (en_log st)) \<or> en_log st' = en_log st"
proof (cases op)
  case (OpCommit h)
  hence "en_log st' = en_log (snd (transition ev rid (commit_res h) st))"
    using assms by (auto simp: Commit_def elim!: and_then_log intro: counterTransition_log)
  thus ?thesis using transition_log [where ev = ev and rid = rid and mut = "commit_res h" and st = st, OF prod.collapse [symmetric]] OpCommit by auto
next
  case OpRelease
  show ?thesis
  proof (cases "rid = []")
    case True thus ?thesis using assms OpRelease by (simp add: Release_def)
  next
    case False
    hence "en_log st' = en_log (snd (release_log ev rid st))"
      using assms OpRelease by (auto simp: Release_def elim!: and_then_log intro: counterTransition_log)
    thus ?thesis using release_log_log [where ev = ev and rid = rid and st = st, OF prod.collapse [symmetric]] OpRelease by auto
  qed
next
  case (OpSettle a reverted)
  hence "en_log st' = en_log (snd (transition ev rid (settle_res (or_zero a) reverted) st))"
    using assms by (auto simp: SettleActual_def elim!: and_then_log intro: counterTransition_log)
  thus ?thesis using transition_log [where ev = ev and rid = rid and mut = "settle_res (or_zero a) reverted" and st = st, OF prod.collapse [symmetric]] OpSettle by auto
qed

lemma op_record_ID [simp]: "rs_ID (op_record op r) = rs_ID r"
  by (cases op) (simp_all add: commit_res_def settle_res_def Let_def)

section \<open>Properties\<close>

text \<open>The states a reservation may move to: a finished state is never left.\<close>

definition may_become :: "resState \<Rightarrow> resState \<Rightarrow> bool" where
  "may_become s s' \<longleftrightarrow> s' = s \<or> (s \<notin> {stateCommitted, stateReleased} \<and> s' \<in> {stateCommitted, stateReleased})"

lemma op_record_state:
  "(op = OpRelease \<longrightarrow> rs_State r \<noteq> stateCommitted) \<Longrightarrow> may_become (rs_State r) (rs_State (op_record op r))"
  by (cases op) (auto simp: may_become_def commit_res_def settle_res_def Let_def)

text \<open>C4. A reservation never leaves a finished state: whatever commit, release or settlement runs on whatever id,
  with whatever I/O faults, a recorded reservation keeps its state or moves from an unfinished one to committed
  or released; it disappears only when it was terminal.  In particular a committed reservation is never released.\<close>

theorem reservation_lifecycle:
  assumes "apply_op ev rid op st = (res, st')" "res_lookup (en_log st) k = Some q"
  shows "case res_lookup (en_log st') k of
      None \<Rightarrow> isTerminal q \<and> k \<noteq> rid
    | Some q' \<Rightarrow> rs_ID q' = k \<and> may_become (rs_State q) (rs_State q') \<and> (k \<noteq> rid \<longrightarrow> q' = q)"
proof -
  consider r where "res_lookup (en_log st) rid = Some r" "op = OpRelease \<longrightarrow> rs_State r \<noteq> stateCommitted"
      "en_log st' = res_put (op_record op r) (en_log st)" | "en_log st' = en_log st"
    using apply_op_log [OF assms(1)] by blast
  thus ?thesis
  proof cases
    case 1
    have i: "rs_ID (op_record op r) = rid" "rid \<noteq> []" using res_lookup_ID [OF 1(1)] by auto
    have "res_lookup (en_log st') k = (if k = rid then Some (op_record op r) else if isTerminal q then None else Some q)"
      using res_lookup_put [OF res_lookup_readable [OF 1(1)], of "op_record op r" k] i assms(2) by (simp add: 1(3))
    moreover have "k = rid \<Longrightarrow> q = r" using 1(1) assms(2) by simp
    ultimately show ?thesis using op_record_state [OF 1(2)] i res_lookup_ID [OF assms(2)]
      by (auto simp: may_become_def)
  next
    case 2
    thus ?thesis using assms(2) res_lookup_ID [OF assms(2)] by (simp add: may_become_def)
  qed
qed

definition demo_res :: Reservation where
  "demo_res = \<lparr>rs_ID = ''r1'', rs_Account = ''0xa1'', rs_Dest = ''0xb2'', rs_SpendWei = ''700'', rs_MaxGasWei = ''200'',
     rs_State = stateCommitted, rs_Hash = ''0xh'', rs_ActualGasWei = None, rs_TS = 0, rs_Network = ''mainnet'', rs_PolicyNonce = 0\<rparr>"

definition demo_log_engine :: engine where
  "demo_log_engine = \<lparr>en_log = Content [Rec demo_res], en_counters = (\<lambda>_. Missing)\<rparr>"

lemma demo_lookup: "res_lookup (en_log demo_log_engine) ''r1'' = Some demo_res"
  by (simp add: res_lookup_def loadAll_def demo_log_engine_def demo_res_def)

theorem reservation_lifecycle_witness:
  "\<exists>res st'. apply_op demo_env ''r1'' OpRelease demo_log_engine = (res, st') \<and>
     (case res_lookup (en_log st') ''r1'' of None \<Rightarrow> False | Some q' \<Rightarrow> rs_State q' = stateCommitted)"
proof -
  obtain res st' where a: "apply_op demo_env ''r1'' OpRelease demo_log_engine = (res, st')" by force
  from reservation_lifecycle [OF a demo_lookup] a show ?thesis
    by (auto simp: may_become_def demo_res_def split: option.splits)
qed

lemma Reserve_log:
  assumes "Reserve pol ev c st = (Inr (Some r), st')"
  shows "r = newReservation ev c \<and> readable (en_log st) \<and> en_log st' = res_put r (en_log st)"
proof -
  let ?r = "newReservation ev c"
  obtain w st1 where w: "writeReservation ev ?r st = (Inr w, st1)" "en_log st' = en_log st1" "r = ?r"
    using assms
    by (auto simp: Reserve_def withNetworkLock_def Let_def writeCounter_def
        split: sum.split_asm option.split_asm lockfault.split_asm prod.split_asm if_split_asm writefault.split_asm)
  obtain m where m: "loadAll (en_log st) = Inr m" "en_log st1 = res_put ?r (en_log st)"
    using w(1) by (auto simp: writeReservation_def withLock_def split: lockfault.split_asm sum.split_asm prod.split_asm dest!: appendAndCompact_cases)
  thus ?thesis using w by (simp add: readable_def)
qed

text \<open>A granted reservation is durable before \<open>Reserve\<close> returns: the log holds exactly the returned record in
  state reserved, the orphan scan of a later start lists it, and every other unfinished reservation is still there.\<close>

lemma Reserve_durable:
  assumes "Reserve pol ev c st = (Inr (Some r), st')" "ev_id ev \<noteq> []"
  shows "res_lookup (en_log st') (ev_id ev) = Some r \<and> rs_ID r = ev_id ev \<and> rs_State r = stateReserved \<and>
    rs_SpendWei r = int_dec (spendWei c) \<and> rs_MaxGasWei r = int_dec (maxGasWei c) \<and>
    (ev_log ev' = LockOK \<longrightarrow> (\<exists>os. Orphans ev' st' = (Inr os, st') \<and> r \<in> set os)) \<and>
    (\<forall>k q. k \<noteq> ev_id ev \<and> res_lookup (en_log st) k = Some q \<and> \<not> isTerminal q \<longrightarrow> res_lookup (en_log st') k = Some q)"
proof -
  let ?r = "newReservation ev c"
  note L = Reserve_log [OF assms(1)]
  have id: "rs_ID ?r = ev_id ev" by (simp add: newReservation_def)
  have rd: "readable (en_log st)" and log: "en_log st' = res_put ?r (en_log st)" and w: "r = ?r" using L by auto
  have here: "res_lookup (en_log st') (ev_id ev) = Some ?r" using reslog.put_same [OF rd, of ?r] id assms(2) log by simp
  have "res_lookup (en_log st') k = Some q" if "k \<noteq> ev_id ev" "res_lookup (en_log st) k = Some q" "\<not> isTerminal q" for k q
    using reslog.put_other [OF rd, of ?r k q] that id assms(2) log by simp
  moreover have "\<exists>os. Orphans ev' st' = (Inr os, st') \<and> ?r \<in> set os" if "ev_log ev' = LockOK"
  proof -
    obtain m' where m': "loadAll (en_log st') = Inr m'" "map_of m' (ev_id ev) = Some ?r"
      using here by (auto simp: res_lookup_def split: sum.splits)
    hence "?r \<in> snd ` set m'" by (force dest: map_of_SomeD)
    thus ?thesis using that m'(1) by (simp add: Orphans_def withLock_def newReservation_def)
  qed
  ultimately show ?thesis using here id by (auto simp: w newReservation_def)
qed


text \<open>Settlement only ever lowers the reserved gas: after a successful \<open>SettleActual\<close> the recorded actual gas is at
  most the reported one, at most the worst case and at most any earlier settlement, and a reverted transaction's
  value is zeroed.\<close>

lemma SettleActual_down_only:
  assumes "SettleActual ev rid (Some a) reverted st = (Inr u, st')" "res_lookup (en_log st) rid = Some r"
  shows "\<exists>r' g. res_lookup (en_log st') rid = Some r' \<and> rs_ActualGasWei r' = Some (int_dec g) \<and> g \<le> a \<and>
    (\<forall>w. SetString (rs_MaxGasWei r) = Some w \<longrightarrow> g \<le> w) \<and>
    (\<forall>s q. rs_ActualGasWei r = Some s \<and> SetString s = Some q \<longrightarrow> g \<le> q) \<and>
    rs_SpendWei r' = (if reverted then ''0'' else rs_SpendWei r) \<and> rs_State r' = rs_State r"
proof -
  let ?f = "settle_res a reverted"
  obtain res1 st1 where t: "transition ev rid ?f st = (res1, st1)" by force
  have ok: "res1 = Inr ()" "en_log st' = en_log st1"
    using assms(1) t by (auto simp: SettleActual_def and_then_def split: sum.split_asm dest: counterTransition_log)
  have "rid \<noteq> []" "en_log st1 = res_put (?f r) (en_log st)"
    using transition_log [OF t] ok(1) assms(2) by auto
  hence "res_lookup (en_log st') rid = Some (?f r)"
    using res_lookup_put [OF res_lookup_readable [OF assms(2)], of "?f r" rid] res_lookup_ID [OF assms(2)] ok(2)
    by (simp add: settle_res_def Let_def)
  thus ?thesis
    using settle_gas_le(1) [of "rs_MaxGasWei r"] settle_gas_le(2) [of "rs_ActualGasWei r"] settle_gas_le(3)
    by (intro exI [of _ "?f r"] exI [of _ "settle_gas a (rs_ActualGasWei r) (rs_MaxGasWei r)"]) (auto simp: settle_res_def Let_def)
qed


end
