(* ===== verification/Journal.thy ===== *)
theory Journal
  imports Domain_Errors Durable_Log "HOL-Library.Multiset"
begin

text \<open>
  The transaction journal (\<open>internal/journal\<close>): one append-only JSON-lines file per chain, read by
  folding to the latest record per id.  A file is its newline-terminated lines and whether an
  unterminated non-blank tail follows them, which is what a crash in the middle of an append leaves.
  Go iterates its maps in no fixed order; the fold is kept as an association list in first-seen order,
  and every result that depends on the order is sorted by the (unique) sequence number.
\<close>

section \<open>Records\<close>

datatype Status = StatusSigned | StatusBroadcast | StatusPending | StatusMined | StatusConfirmed
  | StatusReverted | StatusReplaced | StatusDropped | StatusFailed | StatusOther string

definition terminalStatuses :: "Status list" where
  "terminalStatuses = [StatusConfirmed, StatusReverted, StatusReplaced, StatusFailed]"

definition Status_IsTerminal :: "Status \<Rightarrow> bool" where
  "Status_IsTerminal s \<longleftrightarrow> s \<in> set terminalStatuses"

definition consumesNonce :: "Status \<Rightarrow> bool" where
  "consumesNonce s \<longleftrightarrow> s \<noteq> StatusFailed"

record Asset =
  as_Kind :: string
  as_Contract :: "string option"
  as_Alias :: string
  as_Decimals :: "int option"
  as_Amount :: "string option"
  as_TokenID :: "string option"

record JFees =
  jf_Type :: string
  jf_GasLimit :: "64 word"
  jf_MaxFeePerGas :: "string option"
  jf_MaxPriorityPerGas :: "string option"
  jf_GasPrice :: "string option"
  jf_Speed :: string

record JReceipt =
  jr_BlockNumber :: "64 word"
  jr_BlockHash :: string
  jr_GasUsed :: "64 word"
  jr_EffectiveGasPrice :: string
  jr_Status :: "64 word"

record Record =
  re_V :: int
  re_ID :: string
  re_Seq :: "64 word"
  re_TS :: "int option"
  re_ChainID :: "64 word"
  re_Network :: string
  re_Kind :: string
  re_Status :: Status
  re_Source :: string
  re_From :: string
  re_To :: string
  re_Nonce :: "64 word"
  re_TxHash :: string
  re_RawTx :: string
  re_ValueWei :: string
  re_Asset :: Asset
  re_Fees :: JFees
  re_ReservationID :: string
  re_WorstCaseGasWei :: string
  re_Replaces :: "string option"
  re_ReplacedBy :: "string option"
  re_Receipt :: "JReceipt option"
  re_Error :: "string option"
  re_RPC :: string

record jfile =
  jl_lines :: "Record line list"
  jl_torn :: bool

type_synonym journal = "jfile stored"

text \<open>\<open>ErrNotFound\<close> is not a typed error of the taxonomy.\<close>

datatype jerr = JNotFound | JErr Error

section \<open>Reading\<close>

text \<open>Blank and unparseable lines are skipped.\<close>

definition parsed :: "Record line list \<Rightarrow> Record list" where
  "parsed ls = List.map_filter (\<lambda>l. case l of Rec r \<Rightarrow> Some r | _ \<Rightarrow> None) ls"

definition max_seq :: "Record list \<Rightarrow> 64 word" where
  "max_seq rs = foldl (\<lambda>m r. if re_Seq r > m then re_Seq r else m) 0 rs"

text \<open>\<open>repair\<close> is the outcome of the atomic rewrite when the caller holds the exclusive lock, \<open>None\<close> under
  the shared lock.\<close>

definition readAll :: "journal \<Rightarrow> writefault option \<Rightarrow> (Error + Record list \<times> 64 word) \<times> journal" where
  "readAll f repair = (case f of
       Missing \<Rightarrow> (Inr ([], 0), f)
     | Content c \<Rightarrow>
         (let rs = parsed (jl_lines c) in
          if jl_torn c then
            (case repair of None \<Rightarrow> (Inr (rs, max_seq rs), f)
             | Some WriteOK \<Rightarrow> (Inr (rs, max_seq rs), Content (c\<lparr>jl_torn := False\<rparr>))
             | Some _ \<Rightarrow> (Inl (New ''state.corrupt''), f))
          else (Inr (rs, max_seq rs), f))
     | _ \<Rightarrow> (Inl (New ''state.corrupt''), f))"

definition fold_step :: "(string \<times> Record) list \<Rightarrow> Record \<Rightarrow> (string \<times> Record) list" where
  "fold_step m r = (case map_of m (re_ID r) of
       None \<Rightarrow> upsert (re_ID r) r m
     | Some cur \<Rightarrow> if re_Seq r \<ge> re_Seq cur then upsert (re_ID r) r m else m)"

definition foldLatest :: "Record list \<Rightarrow> (string \<times> Record) list" where
  "foldLatest rs = foldl fold_step [] rs"

section \<open>Writing\<close>

text \<open>What an append can do: succeed, fail with nothing written, leave a torn tail, or fail after the
  whole line was written (fsync or close error).\<close>

datatype appendfault = AppendOK | AppendNothing | AppendTorn | AppendUnsynced

definition lines_of :: "journal \<Rightarrow> Record line list" where
  "lines_of f = (case f of Content c \<Rightarrow> jl_lines c | _ \<Rightarrow> [])"

definition appendLine :: "appendfault \<Rightarrow> Record \<Rightarrow> journal \<Rightarrow> unit result \<times> journal" where
  "appendLine a r f = (case a of
       AppendOK \<Rightarrow> (Inr (), Content \<lparr>jl_lines = lines_of f @ [Rec r], jl_torn = False\<rparr>)
     | AppendNothing \<Rightarrow> (Inl (New ''state.corrupt''), f)
     | AppendTorn \<Rightarrow> (Inl (New ''state.corrupt''), Content \<lparr>jl_lines = lines_of f, jl_torn = True\<rparr>)
     | AppendUnsynced \<Rightarrow> (Inl (New ''state.corrupt''), Content \<lparr>jl_lines = lines_of f @ [Rec r], jl_torn = False\<rparr>))"

text \<open>\<open>compact\<close> orders the snapshot with a double loop of exchanges: the inner loop carries the smallest
  element seen so far to position \<open>i\<close>, leaving the exchanged ones behind it.\<close>

fun sweep :: "Record \<Rightarrow> Record list \<Rightarrow> Record \<times> Record list" where
  "sweep x [] = (x, [])"
| "sweep x (y # ys) = (if re_Seq y < re_Seq x then (let (m, zs) = sweep y ys in (m, x # zs))
     else (let (m, zs) = sweep x ys in (m, y # zs)))"

lemma sweep_length: "sweep x ys = (m, zs) \<Longrightarrow> length zs = length ys"
  by (induction ys arbitrary: x m zs) (auto split: if_splits prod.splits)

function snap_sort :: "Record list \<Rightarrow> Record list" where
  "snap_sort [] = []"
| "snap_sort (x # xs) = (case sweep x xs of (m, zs) \<Rightarrow> m # snap_sort zs)"
  by pat_completeness auto
termination by (relation "measure length") (auto dest!: sweep_length [OF sym])

definition snapshot :: "(string \<times> Record) list \<Rightarrow> Record list" where
  "snapshot m = snap_sort (map snd m)"

definition compact :: "writefault \<Rightarrow> (string \<times> Record) list \<Rightarrow> journal \<Rightarrow> unit result \<times> journal" where
  "compact w m f = (case w of
       WriteOK \<Rightarrow> (Inr (), Content \<lparr>jl_lines = map Rec (snapshot m), jl_torn = False\<rparr>)
     | _ \<Rightarrow> (Inl (New ''state.corrupt''), f))"

text \<open>The environment of a mutation: the lock, the repair write, the append, whether the file is below the
  size threshold (\<open>None\<close>: the stat failed), the compaction write, the clock and a fresh id (\<open>None\<close>: no
  entropy).\<close>

record jenv =
  je_lock :: lockfault
  je_repair :: writefault
  je_append :: appendfault
  je_small :: "bool option"
  je_compact :: writefault
  je_now :: int
  je_id :: "string option"

definition maybeCompact :: "jenv \<Rightarrow> Record list \<Rightarrow> Record \<Rightarrow> journal \<Rightarrow> unit result \<times> journal" where
  "maybeCompact je preRecs latest f =
    (let all = preRecs @ [latest]; folded = foldLatest all in
     if length all - length folded < 5000 \<and> je_small je \<noteq> Some False then (Inr (), f)
     else compact (je_compact je) folded f)"

definition jwithLock :: "lockfault \<Rightarrow> (journal \<Rightarrow> (jerr + 'a) \<times> journal) \<Rightarrow> journal \<Rightarrow> (jerr + 'a) \<times> journal" where
  "jwithLock l fn f = (case l of
       LockOK \<Rightarrow> fn f
     | LockTimeout \<Rightarrow> (Inl (JErr (New ''state.lock_timeout'')), f)
     | _ \<Rightarrow> (Inl (JErr (New ''state.corrupt'')), f))"

text \<open>Append and compact, after the sequence number has been set.\<close>

definition write_record :: "jenv \<Rightarrow> Record list \<Rightarrow> Record \<Rightarrow> journal \<Rightarrow> (jerr + Record) \<times> journal" where
  "write_record je rs r f = (case appendLine (je_append je) r f of
       (Inl e, f') \<Rightarrow> (Inl (JErr e), f')
     | (Inr _, f') \<Rightarrow> (case maybeCompact je rs r f' of
           (Inl e, f'') \<Rightarrow> (Inl (JErr e), f'') | (Inr _, f'') \<Rightarrow> (Inr r, f'')))"

text \<open>\<open>Append\<close> returns the record with the fields it assigned.\<close>

definition Append :: "jenv \<Rightarrow> Record \<Rightarrow> journal \<Rightarrow> (jerr + Record) \<times> journal" where
  "Append je r = jwithLock (je_lock je) (\<lambda>f. case readAll f (Some (je_repair je)) of
       (Inl e, f') \<Rightarrow> (Inl (JErr e), f')
     | (Inr (rs, m), f') \<Rightarrow>
         (case (if re_ID r \<noteq> [] then Some (re_ID r) else je_id je) of
            None \<Rightarrow> (Inl (JErr (New ''state.corrupt'')), f')
          | Some i \<Rightarrow> write_record je rs (r\<lparr>re_V := (if re_V r = 0 then 1 else re_V r), re_ID := i,
                 re_TS := (if re_TS r = None then Some (je_now je) else re_TS r), re_Seq := m + 1\<rparr>) f'))"

record StateMutation =
  sm_Status :: "Status option"
  sm_TxHash :: "string option"
  sm_Receipt :: "JReceipt option"
  sm_ReplacedBy :: "string option"
  sm_Replaces :: "string option"
  sm_Error :: "string option"
  sm_ReservationID :: "string option"

definition applyTo :: "StateMutation \<Rightarrow> Record \<Rightarrow> Record" where
  "applyTo m r = r\<lparr>
     re_Status := (case sm_Status m of Some s \<Rightarrow> s | None \<Rightarrow> re_Status r),
     re_TxHash := (case sm_TxHash m of Some s \<Rightarrow> s | None \<Rightarrow> re_TxHash r),
     re_Receipt := (case sm_Receipt m of Some x \<Rightarrow> Some x | None \<Rightarrow> re_Receipt r),
     re_ReplacedBy := (case sm_ReplacedBy m of Some x \<Rightarrow> Some x | None \<Rightarrow> re_ReplacedBy r),
     re_Replaces := (case sm_Replaces m of Some x \<Rightarrow> Some x | None \<Rightarrow> re_Replaces r),
     re_Error := (case sm_Error m of Some x \<Rightarrow> Some x | None \<Rightarrow> re_Error r),
     re_ReservationID := (case sm_ReservationID m of Some x \<Rightarrow> x | None \<Rightarrow> re_ReservationID r)\<rparr>"

definition SetState :: "jenv \<Rightarrow> string \<Rightarrow> StateMutation \<Rightarrow> journal \<Rightarrow> (jerr + Record) \<times> journal" where
  "SetState je i mut f = (if i = [] then (Inl (JErr (New ''state.corrupt'')), f)
     else jwithLock (je_lock je) (\<lambda>f. case readAll f (Some (je_repair je)) of
       (Inl e, f') \<Rightarrow> (Inl (JErr e), f')
     | (Inr (rs, m), f') \<Rightarrow> (case map_of (foldLatest rs) i of
           None \<Rightarrow> (Inl JNotFound, f')
         | Some prior \<Rightarrow> write_record je rs ((applyTo mut prior)\<lparr>re_Seq := m + 1, re_TS := Some (je_now je)\<rparr>) f')) f)"

section \<open>Queries\<close>

definition read_journal :: "lockfault \<Rightarrow> journal \<Rightarrow> jerr + (string \<times> Record) list" where
  "read_journal l f = (case l of
       LockOK \<Rightarrow> (case fst (readAll f None) of Inl e \<Rightarrow> Inl (JErr e) | Inr (rs, _) \<Rightarrow> Inr (foldLatest rs))
     | LockTimeout \<Rightarrow> Inl (JErr (New ''state.lock_timeout''))
     | _ \<Rightarrow> Inl (JErr (New ''state.corrupt'')))"

definition newest :: "Record list \<Rightarrow> Record option" where
  "newest rs = foldl (\<lambda>found r. case found of None \<Rightarrow> Some r
     | Some x \<Rightarrow> if re_Seq r > re_Seq x then Some r else Some x) None rs"

definition lookup_result :: "jerr + Record option \<Rightarrow> jerr + Record" where
  "lookup_result x = (case x of Inl e \<Rightarrow> Inl e | Inr None \<Rightarrow> Inl JNotFound | Inr (Some r) \<Rightarrow> Inr r)"

definition ByReservation :: "lockfault \<Rightarrow> string \<Rightarrow> journal \<Rightarrow> jerr + Record" where
  "ByReservation l rid f = lookup_result (map_sum id
     (\<lambda>m. newest (filter (\<lambda>r. re_ReservationID r = rid) (map snd m))) (read_journal l f))"

text \<open>Two hash texts are compared through \<open>common.HexToHash\<close>, an argument here.\<close>

definition ByHash :: "(string \<Rightarrow> 'h) \<Rightarrow> lockfault \<Rightarrow> string \<Rightarrow> journal \<Rightarrow> jerr + Record" where
  "ByHash HexToHash l h f = lookup_result (map_sum id
     (\<lambda>m. newest (filter (\<lambda>r. HexToHash (re_TxHash r) = HexToHash h \<and> re_TxHash r \<noteq> []) (map snd m))) (read_journal l f))"

definition ByID :: "lockfault \<Rightarrow> string \<Rightarrow> journal \<Rightarrow> jerr + Record" where
  "ByID l i f = lookup_result (map_sum id (\<lambda>m. map_of m i) (read_journal l f))"

definition sortBySeqDesc :: "Record list \<Rightarrow> Record list" where
  "sortBySeqDesc rs = sort_key (\<lambda>r. - int (unat (re_Seq r))) rs"

definition Unresolved :: "lockfault \<Rightarrow> journal \<Rightarrow> jerr + Record list" where
  "Unresolved l f = map_sum id
     (\<lambda>m. sortBySeqDesc (filter (\<lambda>r. \<not> Status_IsTerminal (re_Status r)) (map snd m))) (read_journal l f)"

text \<open>\<open>from = None\<close> is the zero address: all accounts.\<close>

definition List_records :: "(string \<Rightarrow> 'a) \<Rightarrow> lockfault \<Rightarrow> 'a option \<Rightarrow> journal \<Rightarrow> jerr + Record list" where
  "List_records HexToAddress l addr f = map_sum id
     (\<lambda>m. sortBySeqDesc (filter (\<lambda>r. addr = None \<or> addr = Some (HexToAddress (re_From r))) (map snd m))) (read_journal l f)"

section \<open>Lemmas: folding\<close>

definition recs_of :: "journal \<Rightarrow> Record list" where
  "recs_of f = parsed (lines_of f)"

definition jlookup :: "journal \<Rightarrow> string \<Rightarrow> Record option" where
  "jlookup f i = map_of (foldLatest (recs_of f)) i"

text \<open>The append-only invariant: sequence numbers strictly increase along the file.\<close>

definition increasing :: "Record list \<Rightarrow> bool" where
  "increasing rs \<longleftrightarrow> sorted_wrt (<) (map re_Seq rs)"

definition readable_file :: "journal \<Rightarrow> bool" where
  "readable_file f \<longleftrightarrow> f = Missing \<or> (\<exists>c. f = Content c)"

definition jok :: "journal \<Rightarrow> bool" where
  "jok f \<longleftrightarrow> readable_file f \<and> increasing (recs_of f)"

lemma parsed_append [simp]: "parsed (ls @ ls') = parsed ls @ parsed ls'"
  by (simp add: parsed_def List.map_filter_def)

lemma parsed_Rec [simp]: "parsed (map Rec rs) = rs" "parsed [Rec r] = [r]" "parsed [] = []"
  by (induction rs) (auto simp: parsed_def List.map_filter_def)

lemma max_seq_snoc: "max_seq (rs @ [r]) = max (max_seq rs) (re_Seq r)"
  by (auto simp: max_seq_def max_def not_less)

lemma max_seq_ge: "r \<in> set rs \<Longrightarrow> re_Seq r \<le> max_seq rs"
  by (induction rs rule: rev_induct) (auto simp: max_seq_snoc le_max_iff_disj)

lemma max_seq_in: "rs \<noteq> [] \<Longrightarrow> max_seq rs \<in> re_Seq ` set rs"
proof (induction rs rule: rev_induct)
  case (snoc r rs)
  show ?case
  proof (cases "rs = []")
    case True thus ?thesis by (simp add: max_seq_def) (metis word_gt_0 word_not_simps(1))
  next
    case False thus ?thesis using snoc.IH by (auto simp: max_seq_snoc max_def)
  qed
qed simp

lemma increasing_snoc: "increasing rs \<Longrightarrow> max_seq rs < s \<Longrightarrow> re_Seq r = s \<Longrightarrow> increasing (rs @ [r])"
  using max_seq_ge by (auto simp: increasing_def sorted_wrt_append intro: le_less_trans)

lemma foldLatest_snoc: "foldLatest (rs @ [r]) = fold_step (foldLatest rs) r"
  by (simp add: foldLatest_def)

lemma foldLatest_in: "map_of (foldLatest rs) i = Some r \<Longrightarrow> r \<in> set rs \<and> re_ID r = i"
proof (induction rs arbitrary: r rule: rev_induct)
  case Nil thus ?case by (simp add: foldLatest_def)
next
  case (snoc x xs)
  thus ?case by (fastforce simp: foldLatest_snoc fold_step_def split: option.splits if_splits)
qed

lemma foldLatest_keys: "distinct (map fst (foldLatest rs)) \<and> (\<forall>(k, r) \<in> set (foldLatest rs). k = re_ID r)"
proof (induction rs rule: rev_induct)
  case Nil thus ?case by (simp add: foldLatest_def)
next
  case (snoc x xs)
  thus ?case by (auto simp: foldLatest_snoc fold_step_def distinct_upsert split: option.splits dest!: upsert_set)
qed

lemma foldLatest_increasing:
  assumes "increasing (rs @ [r])"
  shows "map_of (foldLatest (rs @ [r])) = (map_of (foldLatest rs))(re_ID r \<mapsto> r)"
proof -
  have "re_Seq c \<le> re_Seq r" if "map_of (foldLatest rs) (re_ID r) = Some c" for c
    using foldLatest_in [OF that] assms by (auto simp: increasing_def sorted_wrt_append less_imp_le)
  thus ?thesis by (auto simp: foldLatest_snoc fold_step_def split: option.splits)
qed

lemma foldLatest_distinct:
  "distinct (map re_ID rs) \<Longrightarrow> foldLatest rs = map (\<lambda>r. (re_ID r, r)) rs"
proof (induction rs rule: rev_induct)
  case Nil thus ?case by (simp add: foldLatest_def)
next
  case (snoc r rs)
  hence IH: "foldLatest rs = map (\<lambda>r. (re_ID r, r)) rs" and n: "re_ID r \<notin> re_ID ` set rs" by auto
  have "map_of (foldLatest rs) (re_ID r) = None" using n by (auto simp: IH map_of_eq_None_iff image_image)
  moreover have "re_ID r \<notin> fst ` set (foldLatest rs)" using n by (auto simp: IH image_image)
  ultimately show ?case by (simp add: foldLatest_snoc fold_step_def upsert_snoc) (simp add: IH)
qed

section \<open>Lemmas: the exchange sort and compaction\<close>

lemma sweep_spec:
  "sweep x ys = (m, zs) \<Longrightarrow> mset (m # zs) = mset (x # ys) \<and> (\<forall>z \<in> set (x # ys). re_Seq m \<le> re_Seq z)"
proof (induction ys arbitrary: x m zs)
  case (Cons y ys)
  show ?case
  proof (cases "re_Seq y < re_Seq x")
    case True
    then obtain ws where w: "sweep y ys = (m, ws)" "zs = x # ws" using Cons.prems by (auto split: prod.splits)
    have "mset (m # ws) = mset (y # ys)" "\<forall>z \<in> set (y # ys). re_Seq m \<le> re_Seq z" using Cons.IH [OF w(1)] by auto
    thus ?thesis using w(2) True by (auto simp: add_mset_commute intro: order_trans less_imp_le)
  next
    case False
    then obtain ws where w: "sweep x ys = (m, ws)" "zs = y # ws" using Cons.prems by (auto split: prod.splits)
    have a: "mset (m # ws) = mset (x # ys)" "\<forall>z \<in> set (x # ys). re_Seq m \<le> re_Seq z" using Cons.IH [OF w(1)] by auto
    moreover have "re_Seq m \<le> re_Seq y" using a(2) False by (auto simp: not_less intro: order_trans)
    ultimately show ?thesis using w(2) by (auto simp: add_mset_commute)
  qed
qed simp

lemma snap_sort_spec: "mset (snap_sort xs) = mset xs \<and> sorted (map re_Seq (snap_sort xs))"
proof (induction xs rule: snap_sort.induct)
  case (2 x xs)
  obtain m zs where s: "sweep x xs = (m, zs)" by (cases "sweep x xs")
  note IH = 2 [OF s [symmetric]]
  have e: "set (snap_sort zs) = set zs" using IH by (metis set_mset_mset)
  have "set zs \<subseteq> set (x # xs)" using sweep_spec [OF s] by (metis set_mset_mset set_subset_Cons)
  hence "\<forall>z \<in> set zs. re_Seq m \<le> re_Seq z" using sweep_spec [OF s] by blast
  thus ?case using IH sweep_spec [OF s] by (simp add: s e)
qed simp

lemma set_snapshot: "set (snapshot m) = snd ` set m"
  using snap_sort_spec [of "map snd m"] by (metis list.set_map set_mset_mset snapshot_def)

lemma distinct_map_mset: "mset xs = mset ys \<Longrightarrow> distinct (map f xs) = distinct (map f ys)"
  by (metis mset_eq_imp_distinct_iff mset_map)

lemma increasing_iff: "increasing rs \<longleftrightarrow> sorted (map re_Seq rs) \<and> distinct (map re_Seq rs)"
  by (simp add: increasing_def strict_sorted_iff)

lemma increasing_seq_inj: "increasing rs \<Longrightarrow> r \<in> set rs \<Longrightarrow> q \<in> set rs \<Longrightarrow> re_Seq r = re_Seq q \<Longrightarrow> r = q"
  by (auto simp: increasing_iff distinct_map dest: inj_onD)

lemma fold_values_sub: "snd ` set (foldLatest rs) \<subseteq> set rs"
  using foldLatest_in [of rs] foldLatest_keys [of rs] by (auto dest!: map_of_is_SomeI [rotated])

lemma fold_ids_distinct: "distinct (map (re_ID \<circ> snd) (foldLatest rs))"
proof -
  have e: "map (re_ID \<circ> snd) (foldLatest rs) = map fst (foldLatest rs)" using foldLatest_keys [of rs] by auto
  show ?thesis unfolding e using foldLatest_keys [of rs] by simp
qed

lemma snapshot_increasing:
  assumes "increasing rs" shows "increasing (snapshot (foldLatest rs))"
proof -
  let ?v = "map snd (foldLatest rs)"
  have d: "distinct ?v" using fold_ids_distinct [of rs] by (auto simp: distinct_map dest: inj_on_imageI2)
  have "inj_on re_Seq (set ?v)"
    using increasing_seq_inj [OF assms] fold_values_sub [of rs] by (auto simp: inj_on_def)
  hence "distinct (map re_Seq ?v)" using d by (simp add: distinct_map comp_inj_on)
  hence "distinct (map re_Seq (snapshot (foldLatest rs)))"
    using snap_sort_spec [of ?v] distinct_map_mset [of "snap_sort ?v" ?v re_Seq] by (simp add: snapshot_def)
  thus ?thesis using snap_sort_spec [of ?v] by (simp add: increasing_iff snapshot_def)
qed

lemma snapshot_fold: "map_of (foldLatest (snapshot (foldLatest rs))) = map_of (foldLatest rs)"
proof -
  let ?m = "foldLatest rs" and ?s = "snapshot (foldLatest rs)"
  have "distinct (map re_ID ?s)"
    using fold_ids_distinct [of rs] snap_sort_spec [of "map snd ?m"]
      distinct_map_mset [of ?s "map snd ?m" re_ID] by (simp add: snapshot_def)
  hence f: "foldLatest ?s = map (\<lambda>r. (re_ID r, r)) ?s" by (rule foldLatest_distinct)
  have "set (foldLatest ?s) = set ?m"
    using foldLatest_keys [of rs] by (force simp: f set_snapshot image_image image_iff)
  thus ?thesis by (intro map_of_eqI) (auto simp: foldLatest_keys intro: map_of_eqI)
qed

section \<open>Lemmas: one mutation\<close>

text \<open>The readers see \<open>jview\<close>; \<open>room\<close> says that the 64-bit sequence counter has not run out.\<close>

definition room :: "nat \<Rightarrow> journal \<Rightarrow> bool" where
  "room n f \<longleftrightarrow> unat (max_seq (recs_of f)) + n < 2 ^ 64"

lemma jok_readAll:
  assumes "jok f" "readAll f (Some w) = (res, f')"
  shows "jok f' \<and> recs_of f' = recs_of f \<and> (\<forall>rs m. res = Inr (rs, m) \<longrightarrow> rs = recs_of f \<and> m = max_seq rs)"
  using assms
  by (auto simp: jok_def readable_file_def readAll_def recs_of_def lines_of_def Let_def parsed_def max_seq_def
      List.map_filter_def split: if_splits writefault.splits stored.splits)

lemma snapshot_max_seq:
  assumes "increasing rs" shows "max_seq (snapshot (foldLatest rs)) \<le> max_seq rs"
proof (cases "snapshot (foldLatest rs) = []")
  case True thus ?thesis by (simp add: max_seq_def)
next
  case False
  have "set (snapshot (foldLatest rs)) \<subseteq> set rs" using fold_values_sub by (simp add: set_snapshot)
  thus ?thesis using max_seq_in [OF False] max_seq_ge by fastforce
qed

lemma succ_less: "unat (m :: 64 word) + 1 < 2 ^ 64 \<Longrightarrow> m < m + 1 \<and> unat (m + 1) = unat m + 1"
  by (simp add: word_less_nat_alt unat_plus_simple [THEN iffD1] unat_word_ariths)

lemma recs_of_Content [simp]: "recs_of (Content \<lparr>jl_lines = ls, jl_torn = t\<rparr>) = parsed ls"
  by (simp add: recs_of_def lines_of_def)

lemma jok_Content [simp]: "jok (Content c) \<longleftrightarrow> increasing (recs_of (Content c))"
  by (simp add: jok_def readable_file_def)

text \<open>Whatever fails, the file afterwards is well-formed and reads as before or with the one new record.\<close>

definition lands :: "Record \<Rightarrow> journal \<Rightarrow> journal \<Rightarrow> bool" where
  "lands r f f' \<longleftrightarrow> jok f' \<and> jlookup f' = (jlookup f)(re_ID r \<mapsto> r)
     \<and> unat (max_seq (recs_of f')) \<le> unat (max_seq (recs_of f)) + 1"

lemma appended_lands:
  assumes "jok f" "room 1 f" "re_Seq r = max_seq (recs_of f) + 1"
  shows "lands r f (Content \<lparr>jl_lines = lines_of f @ [Rec r], jl_torn = False\<rparr>)"
proof -
  have lt: "max_seq (recs_of f) < re_Seq r" "unat (re_Seq r) = unat (max_seq (recs_of f)) + 1"
    using succ_less assms by (auto simp: room_def)
  hence i: "increasing (recs_of f @ [r])" using assms increasing_snoc by (auto simp: jok_def)
  have p: "parsed (lines_of f) = recs_of f" by (simp add: recs_of_def)
  have "max (max_seq (recs_of f)) (re_Seq r) = re_Seq r" using lt(1) by simp
  thus ?thesis using i lt foldLatest_increasing [OF i] by (simp add: lands_def jlookup_def p max_seq_snoc fun_eq_iff)
qed

lemma compacted_lands:
  assumes "lands r f (Content \<lparr>jl_lines = ls, jl_torn = False\<rparr>)"
  shows "lands r f (Content \<lparr>jl_lines = map Rec (snapshot (foldLatest (parsed ls))), jl_torn = False\<rparr>)"
proof -
  have i: "increasing (parsed ls)" using assms by (simp add: lands_def)
  have "unat (max_seq (snapshot (foldLatest (parsed ls)))) \<le> unat (max_seq (parsed ls))"
    using snapshot_max_seq [OF i] by (simp add: word_le_nat_alt)
  thus ?thesis using assms snapshot_increasing [OF i] snapshot_fold [of "parsed ls"]
    by (simp add: lands_def jlookup_def fun_eq_iff)
qed

lemma write_record_lands:
  assumes "jok f" "room 1 f" "re_Seq r = max_seq (recs_of f) + 1" "write_record je (recs_of f) r f = (res, f')"
  shows "(lands r f f' \<or> jok f' \<and> recs_of f' = recs_of f \<and> (\<exists>e. res = Inl e))
    \<and> (\<forall>x. res = Inr x \<longrightarrow> x = r)"
proof (cases "je_append je")
  case AppendOK
  let ?a = "Content \<lparr>jl_lines = lines_of f @ [Rec r], jl_torn = False\<rparr>"
  have a: "lands r f ?a" using assms(1-3) by (rule appended_lands)
  have "recs_of f @ [r] = parsed (lines_of f @ [Rec r])" by (simp add: recs_of_def)
  with compacted_lands [OF a] have
    "lands r f (Content \<lparr>jl_lines = map Rec (snapshot (foldLatest (recs_of f @ [r]))), jl_torn = False\<rparr>)" by simp
  thus ?thesis using assms(4) a AppendOK
    by (auto simp: write_record_def appendLine_def maybeCompact_def compact_def Let_def split: if_splits writefault.splits)
next
  case AppendUnsynced
  thus ?thesis using assms(4) appended_lands [OF assms(1-3)] by (auto simp: write_record_def appendLine_def)
qed (use assms in \<open>auto simp: write_record_def appendLine_def recs_of_def lines_of_def jok_def readable_file_def\<close>)

text \<open>The two mutations, with the record each writes.\<close>

definition stamped :: "jenv \<Rightarrow> string \<Rightarrow> Record \<Rightarrow> journal \<Rightarrow> Record" where
  "stamped je i r f = r\<lparr>re_V := (if re_V r = 0 then 1 else re_V r), re_ID := i,
     re_TS := (if re_TS r = None then Some (je_now je) else re_TS r), re_Seq := max_seq (recs_of f) + 1\<rparr>"

definition moved :: "jenv \<Rightarrow> StateMutation \<Rightarrow> Record \<Rightarrow> journal \<Rightarrow> Record" where
  "moved je mut prior f = (applyTo mut prior)\<lparr>re_Seq := max_seq (recs_of f) + 1, re_TS := Some (je_now je)\<rparr>"

definition unchanged :: "journal \<Rightarrow> journal \<Rightarrow> bool" where
  "unchanged f f' \<longleftrightarrow> jok f' \<and> recs_of f' = recs_of f"

lemma lands_cong: "recs_of f = recs_of g \<Longrightarrow> lands r f h = lands r g h"
  by (simp add: lands_def jlookup_def fun_eq_iff)

lemma unchanged_refl: "jok f \<Longrightarrow> unchanged f f"
  by (simp add: unchanged_def)

lemma Append_lands:
  assumes ok: "jok f" and rm: "room 1 f" and run: "Append je r f = (res, f')"
  shows "(\<exists>i. (re_ID r \<noteq> [] \<longrightarrow> i = re_ID r) \<and> (re_ID r = [] \<longrightarrow> je_id je = Some i)
            \<and> lands (stamped je i r f) f f' \<and> (\<forall>x. res = Inr x \<longrightarrow> x = stamped je i r f))
       \<or> unchanged f f' \<and> (\<exists>e. res = Inl e)"
proof (cases "je_lock je = LockOK")
  case True
  obtain rr g where rd: "readAll f (Some (je_repair je)) = (rr, g)" by (cases "readAll f (Some (je_repair je))")
  note R = jok_readAll [OF ok rd]
  show ?thesis
  proof (cases rr)
    case (Inl e)
    thus ?thesis using run True R rd by (auto simp: Append_def jwithLock_def unchanged_def)
  next
    case (Inr q)
    then obtain rs m where q: "rr = Inr (rs, m)" by (cases q) auto
    hence rs: "rs = recs_of g" "m = max_seq (recs_of g)" using R by auto
    show ?thesis
    proof (cases "if re_ID r \<noteq> [] then Some (re_ID r) else je_id je")
      case None
      thus ?thesis using run True R rd q by (auto simp: Append_def jwithLock_def unchanged_def split: if_splits)
    next
      case (Some i)
      have w: "write_record je (recs_of g) (stamped je i r g) g = (res, f')"
        using run True Some by (simp add: Append_def jwithLock_def rd q rs stamped_def)
      have "stamped je i r g = stamped je i r f" using R by (simp add: stamped_def)
      moreover have "room 1 g" "re_Seq (stamped je i r g) = max_seq (recs_of g) + 1"
        using rm R by (auto simp: room_def stamped_def)
      ultimately show ?thesis
        using write_record_lands [OF _ _ _ w] R Some lands_cong [of g f]
        by (auto simp: unchanged_def split: if_splits)
    qed
  qed
qed (use run ok in \<open>auto simp: Append_def jwithLock_def unchanged_refl split: lockfault.splits\<close>)

lemma SetState_lands:
  assumes ok: "jok f" and rm: "room 1 f" and run: "SetState je i mut f = (res, f')"
  shows "(\<exists>prior. jlookup f i = Some prior \<and> lands (moved je mut prior f) f f'
            \<and> (\<forall>x. res = Inr x \<longrightarrow> x = moved je mut prior f))
       \<or> unchanged f f' \<and> (\<exists>e. res = Inl e)"
proof (cases "je_lock je = LockOK \<and> i \<noteq> []")
  case True
  obtain rr g where rd: "readAll f (Some (je_repair je)) = (rr, g)" by (cases "readAll f (Some (je_repair je))")
  note R = jok_readAll [OF ok rd]
  show ?thesis
  proof (cases rr)
    case (Inl e)
    thus ?thesis using run True R rd by (auto simp: SetState_def jwithLock_def unchanged_def)
  next
    case (Inr q)
    then obtain rs m where q: "rr = Inr (rs, m)" by (cases q) auto
    hence rs: "rs = recs_of g" "m = max_seq (recs_of g)" using R by auto
    show ?thesis
    proof (cases "map_of (foldLatest (recs_of g)) i")
      case None
      hence "res = Inl JNotFound" "f' = g" using run True by (simp_all add: SetState_def jwithLock_def rd q rs)
      thus ?thesis using R by (simp add: unchanged_def)
    next
      case (Some prior)
      have w: "write_record je (recs_of g) (moved je mut prior g) g = (res, f')"
        using run True Some by (simp add: SetState_def jwithLock_def rd q rs moved_def)
      have mv: "moved je mut prior g = moved je mut prior f" and l: "jlookup f i = Some prior"
        using R Some by (simp_all add: moved_def jlookup_def)
      have "room 1 g" "re_Seq (moved je mut prior g) = max_seq (recs_of g) + 1"
        using rm R by (auto simp: room_def moved_def)
      from write_record_lands [OF _ this w] R
      have "(lands (moved je mut prior f) g f' \<or> jok f' \<and> recs_of f' = recs_of f \<and> (\<exists>e. res = Inl e))
          \<and> (\<forall>x. res = Inr x \<longrightarrow> x = moved je mut prior f)" unfolding mv by simp
      moreover have "lands (moved je mut prior f) g f' = lands (moved je mut prior f) f f'"
        using R by (intro lands_cong) simp
      ultimately show ?thesis using l unfolding unchanged_def by simp
    qed
  qed
qed (use run ok in \<open>auto simp: SetState_def jwithLock_def unchanged_refl split: lockfault.splits if_splits\<close>)

section \<open>The journal as a durable log\<close>

definition put_line :: "Record \<Rightarrow> journal \<Rightarrow> journal" where
  "put_line r f = snd (appendLine AppendOK r f)"

definition next_seq :: "Record \<Rightarrow> journal \<Rightarrow> bool" where
  "next_seq r f \<longleftrightarrow> room 1 f \<and> re_Seq r = max_seq (recs_of f) + 1"

lemma put_line_lands: "jok f \<Longrightarrow> next_seq r f \<Longrightarrow> lands r f (put_line r f)"
  using appended_lands by (simp add: put_line_def appendLine_def next_seq_def)

interpretation jl: durable_log jlookup put_line re_ID "\<lambda>_. False" jok next_seq
  by unfold_locales (use put_line_lands in \<open>auto simp: lands_def\<close>)

lemma ByID_jlookup: "jok f \<Longrightarrow> ByID LockOK i f = (case jlookup f i of None \<Rightarrow> Inl JNotFound | Some r \<Rightarrow> Inr r)"
  by (auto simp: jok_def readable_file_def ByID_def read_journal_def readAll_def Let_def lookup_result_def
      jlookup_def recs_of_def lines_of_def parsed_def foldLatest_def List.map_filter_def split: option.splits)

text \<open>A history of durable lines with consecutive sequence numbers.\<close>

fun seq_history :: "Record list \<Rightarrow> journal \<Rightarrow> bool" where
  "seq_history [] f \<longleftrightarrow> True"
| "seq_history (r # rs) f \<longleftrightarrow> next_seq r f \<and> seq_history rs (put_line r f)"

lemma jl_eqs: "jl.run rs f = fold put_line rs f" "jl.history rs f = seq_history rs f"
  by (induction rs arbitrary: f) auto

lemma last_with_id:
  "find (\<lambda>r. re_ID r = i) (rev rs) = Some r \<Longrightarrow> \<exists>as bs. rs = as @ r # bs \<and> re_ID r = i \<and> i \<notin> re_ID ` set bs"
proof (induction rs rule: rev_induct)
  case (snoc x xs)
  show ?case
  proof (cases "re_ID x = i")
    case True thus ?thesis using snoc.prems by (intro exI [of _ xs] exI [of _ "[]"]) auto
  next
    case False
    then obtain as bs where "xs = as @ r # bs" "re_ID r = i" "i \<notin> re_ID ` set bs" using snoc by auto
    thus ?thesis using False by (intro exI [of _ as] exI [of _ "bs @ [x]"]) auto
  qed
qed simp

lemma seq_history_append: "seq_history (as @ bs) f \<longleftrightarrow> seq_history as f \<and> seq_history bs (fold put_line as f)"
  by (induction as arbitrary: f) auto

lemma jlookup_history:
  assumes ok: "jok f" and h: "seq_history rs f"
  shows "jlookup (fold put_line rs f) i = (case find (\<lambda>r. re_ID r = i) (rev rs) of Some r \<Rightarrow> Some r | None \<Rightarrow> jlookup f i)"
proof (cases "find (\<lambda>r. re_ID r = i) (rev rs)")
  case None
  hence n: "i \<notin> re_ID ` set rs" by (auto simp: find_None_iff)
  have "jlookup f i = Some q \<Longrightarrow> jlookup (fold put_line rs f) i = Some q" for q
    using jl.survives [of f rs i q] ok h n by (simp add: jl_eqs)
  moreover have "jlookup (fold put_line rs f) i = Some q \<Longrightarrow> jlookup f i = Some q" for q
    using jl.nothing_invented [of f rs i q] ok h n by (auto simp: jl_eqs)
  ultimately show ?thesis using None by (cases "jlookup f i"; cases "jlookup (fold put_line rs f) i") auto
next
  case (Some r)
  then obtain as bs where d: "rs = as @ r # bs" "re_ID r = i" "i \<notin> re_ID ` set bs" using last_with_id by blast
  have s: "seq_history (as @ [r]) f" "seq_history bs (fold put_line (as @ [r]) f)" using h d by (simp_all add: seq_history_append)
  have "jlookup (fold put_line (as @ [r]) f) i = Some r"
    using jl.last_put_wins [of f as r] ok s(1) d(2) by (simp add: jl_eqs)
  moreover have "jok (fold put_line (as @ [r]) f)" using jl.run_ok [of f "as @ [r]"] ok s(1) by (simp add: jl_eqs)
  ultimately show ?thesis
    using jl.survives [of "fold put_line (as @ [r]) f" bs i r] s(2) d(3) Some by (simp add: jl_eqs d(1))
qed

lemma sorted_wrt_strict:
  fixes f :: "'a \<Rightarrow> 'b :: linorder"
  shows "sorted_wrt (\<lambda>a b. f b \<le> f a) xs \<Longrightarrow> distinct (map f xs) \<Longrightarrow> sorted_wrt (\<lambda>a b. f b < f a) xs"
  by (induction xs) (auto simp: image_iff order.strict_iff_order)

section \<open>Properties\<close>

text \<open>A well-formed example journal, for the witnesses.\<close>

definition demo_record :: "string \<Rightarrow> 64 word \<Rightarrow> 64 word \<Rightarrow> Status \<Rightarrow> Record" where
  "demo_record i s n st = \<lparr>re_V = 1, re_ID = i, re_Seq = s, re_TS = Some 0, re_ChainID = 1, re_Network = ''mainnet'',
     re_Kind = ''send'', re_Status = st, re_Source = ''cli'', re_From = ''0xaa'', re_To = ''0xbb'', re_Nonce = n,
     re_TxHash = ''0x01'', re_RawTx = ''0x02'', re_ValueWei = ''1'',
     re_Asset = \<lparr>as_Kind = ''eth'', as_Contract = None, as_Alias = [], as_Decimals = None, as_Amount = None, as_TokenID = None\<rparr>,
     re_Fees = \<lparr>jf_Type = ''1559'', jf_GasLimit = 21000, jf_MaxFeePerGas = None, jf_MaxPriorityPerGas = None, jf_GasPrice = None, jf_Speed = []\<rparr>,
     re_ReservationID = ''r1'', re_WorstCaseGasWei = ''1'', re_Replaces = None, re_ReplacedBy = None,
     re_Receipt = None, re_Error = None, re_RPC = ''rpc''\<rparr>"

definition demo_journal :: journal where
  "demo_journal = Content \<lparr>jl_lines = [Rec (demo_record ''A'' 1 7 StatusSigned), Bad, Rec (demo_record ''B'' 2 8 StatusSigned),
     Rec (demo_record ''A'' 3 7 StatusBroadcast)], jl_torn = False\<rparr>"

definition calm :: jenv where
  "calm = \<lparr>je_lock = LockOK, je_repair = WriteOK, je_append = AppendOK, je_small = Some True, je_compact = WriteOK,
     je_now = 5, je_id = Some ''C''\<rparr>"

lemmas journal_eval = demo_record_def demo_journal_def calm_def recs_of_def lines_of_def parsed_def List.map_filter_def
  max_seq_def increasing_def jok_def readable_file_def room_def jlookup_def foldLatest_def fold_step_def

lemma demo_ok: "jok demo_journal" "max_seq (recs_of demo_journal) = 3" "room 10 demo_journal"
  by (simp_all add: journal_eval)

text \<open>Replay: reading the journal after any history of durable appends gives, for every id, the last
  record written under it, and what was there before for the ids the history does not touch.\<close>

lemma journal_replay:
  assumes "jok f" "seq_history rs f"
  shows "ByID LockOK i (fold put_line rs f) = (case find (\<lambda>r. re_ID r = i) (rev rs) of Some r \<Rightarrow> Inr r | None \<Rightarrow> ByID LockOK i f)"
proof -
  have "jok (fold put_line rs f)" using jl.run_ok [of f rs] assms by (simp add: jl_eqs)
  thus ?thesis using assms by (simp add: ByID_jlookup jlookup_history split: option.splits)
qed


text \<open>What a record says of its transaction and no transition may change.\<close>

definition same_tx :: "Record \<Rightarrow> Record \<Rightarrow> bool" where
  "same_tx r q \<longleftrightarrow> re_V r = re_V q \<and> re_ID r = re_ID q \<and> re_ChainID r = re_ChainID q \<and> re_Network r = re_Network q
     \<and> re_Kind r = re_Kind q \<and> re_Source r = re_Source q \<and> re_From r = re_From q \<and> re_To r = re_To q
     \<and> re_Nonce r = re_Nonce q \<and> re_RawTx r = re_RawTx q \<and> re_ValueWei r = re_ValueWei q \<and> re_Asset r = re_Asset q
     \<and> re_Fees r = re_Fees q \<and> re_WorstCaseGasWei r = re_WorstCaseGasWei q \<and> re_RPC r = re_RPC q"

datatype jop = OpAppend jenv Record | OpSetState jenv string StateMutation

fun jstep :: "jop \<Rightarrow> journal \<Rightarrow> journal" where
  "jstep (OpAppend je r) f = snd (Append je r f)"
| "jstep (OpSetState je i mut) f = snd (SetState je i mut f)"

text \<open>The operation appends a record under the id itself, rather than a transition of it.\<close>

fun reuses :: "string \<Rightarrow> jop \<Rightarrow> bool" where
  "reuses i (OpAppend je r) \<longleftrightarrow> (if re_ID r \<noteq> [] then re_ID r = i else je_id je = Some i)"
| "reuses i (OpSetState _ _ _) \<longleftrightarrow> False"

lemma same_tx_moved: "same_tx r (moved je mut r f)"
  by (simp add: same_tx_def moved_def applyTo_def)

lemma stamped_ID [simp]: "re_ID (stamped je i r f) = i"
  by (simp add: stamped_def)

lemma moved_ID [simp]: "re_ID (moved je mut r f) = re_ID r"
  by (simp add: moved_def applyTo_def)

lemma same_tx_refl: "same_tx r r" and same_tx_trans: "same_tx r q \<Longrightarrow> same_tx q s \<Longrightarrow> same_tx r s"
  by (simp_all add: same_tx_def)

lemma jlookup_ID: "jlookup f i = Some r \<Longrightarrow> re_ID r = i \<and> r \<in> set (recs_of f)"
  using foldLatest_in by (simp add: jlookup_def)

lemma jlookup_seq_le: "jlookup f i = Some r \<Longrightarrow> unat (re_Seq r) \<le> unat (max_seq (recs_of f))"
  using max_seq_ge [of r "recs_of f"] by (auto simp: word_le_nat_alt dest: jlookup_ID)

lemma unchanged_facts: "unchanged f f' \<Longrightarrow> jok f' \<and> jlookup f' = jlookup f \<and> max_seq (recs_of f') = max_seq (recs_of f)"
  by (simp add: unchanged_def jlookup_def fun_eq_iff)

lemma jstep_keeps:
  assumes "jok f" "room 1 f" "jlookup f i = Some r" "\<not> reuses i op"
  shows "jok (jstep op f) \<and> unat (max_seq (recs_of (jstep op f))) \<le> unat (max_seq (recs_of f)) + 1
    \<and> (\<exists>q. jlookup (jstep op f) i = Some q \<and> same_tx r q \<and> re_Seq r \<le> re_Seq q)"
proof (cases op)
  case (OpAppend je x)
  obtain res f' where a: "Append je x f = (res, f')" by (cases "Append je x f")
  from Append_lands [OF assms(1,2) a] show ?thesis
  proof
    assume "unchanged f f' \<and> (\<exists>e. res = Inl e)"
    thus ?thesis using OpAppend a assms(3) by (auto simp: same_tx_refl dest!: unchanged_facts)
  next
    assume "\<exists>k. (re_ID x \<noteq> [] \<longrightarrow> k = re_ID x) \<and> (re_ID x = [] \<longrightarrow> je_id je = Some k)
            \<and> lands (stamped je k x f) f f' \<and> (\<forall>y. res = Inr y \<longrightarrow> y = stamped je k x f)"
    then obtain k where k: "re_ID x \<noteq> [] \<longrightarrow> k = re_ID x" "re_ID x = [] \<longrightarrow> je_id je = Some k"
      "lands (stamped je k x f) f f'" by blast
    moreover have "k \<noteq> i" using k(1,2) assms(4) OpAppend by (auto split: if_splits)
    ultimately show ?thesis using OpAppend a assms(3) by (auto simp: lands_def same_tx_refl)
  qed
next
  case (OpSetState je k mut)
  obtain res f' where a: "SetState je k mut f = (res, f')" by (cases "SetState je k mut f")
  from SetState_lands [OF assms(1,2) a] show ?thesis
  proof
    assume "unchanged f f' \<and> (\<exists>e. res = Inl e)"
    thus ?thesis using OpSetState a assms(3) by (auto simp: same_tx_refl dest!: unchanged_facts)
  next
    assume "\<exists>prior. jlookup f k = Some prior \<and> lands (moved je mut prior f) f f'
            \<and> (\<forall>y. res = Inr y \<longrightarrow> y = moved je mut prior f)"
    then obtain prior where p: "jlookup f k = Some prior" "lands (moved je mut prior f) f f'" by blast
    have "re_ID prior = k" using jlookup_ID [OF p(1)] by simp
    moreover have "unat (re_Seq (moved je mut prior f)) = unat (max_seq (recs_of f)) + 1"
      using succ_less [of "max_seq (recs_of f)"] assms(2) by (simp add: moved_def room_def)
    hence "re_Seq r \<le> re_Seq (moved je mut prior f)"
      using jlookup_seq_le [OF assms(3)] by (simp add: word_le_nat_alt)
    ultimately show ?thesis using OpSetState a assms(3) p
      by (auto simp: lands_def same_tx_refl same_tx_moved)
  qed
qed

text \<open>C3. The journal never forgets: once a record is readable, every later sequence of \<open>Append\<close> and
  \<open>SetState\<close> calls, under any combination of lock timeouts, failed repairs, failed, torn or unsynced
  writes and compactions, leaves a record readable under its id that describes the same transaction (nonce,
  sender, signed bytes, amounts) with a sequence number no smaller, as long as the id is not appended
  afresh and the 64-bit counter does not run out.\<close>

theorem journal_never_forgets:
  assumes "jok f" "room (length ops) f" "ByID LockOK i f = Inr r" "\<forall>op \<in> set ops. \<not> reuses i op"
  shows "\<exists>q. ByID LockOK i (fold jstep ops f) = Inr q \<and> same_tx r q \<and> re_Seq r \<le> re_Seq q"
proof -
  have "jok f \<Longrightarrow> room (length ops) f \<Longrightarrow> jlookup f i = Some r \<Longrightarrow> \<forall>op \<in> set ops. \<not> reuses i op \<Longrightarrow>
    jok (fold jstep ops f) \<and> (\<exists>q. jlookup (fold jstep ops f) i = Some q \<and> same_tx r q \<and> re_Seq r \<le> re_Seq q)"
  proof (induction ops arbitrary: f r)
    case Nil thus ?case by (simp add: same_tx_refl)
  next
    case (Cons op ops)
    have "room 1 f" "\<not> reuses i op" using Cons.prems by (auto simp: room_def)
    from jstep_keeps [OF Cons.prems(1) this(1) Cons.prems(3) this(2)] obtain q where
      q: "jok (jstep op f)" "unat (max_seq (recs_of (jstep op f))) \<le> unat (max_seq (recs_of f)) + 1"
         "jlookup (jstep op f) i = Some q" "same_tx r q" "re_Seq r \<le> re_Seq q" by blast
    have "room (length ops) (jstep op f)" using q(2) Cons.prems(2) by (simp add: room_def)
    from Cons.IH [OF q(1) this q(3)] Cons.prems(4) show ?case
      using q(4,5) by (auto intro: same_tx_trans order_trans)
  qed
  thus ?thesis using assms by (auto simp: ByID_jlookup split: option.splits)
qed

theorem journal_never_forgets_witness:
  "\<exists>q. ByID LockOK ''B'' (fold jstep [OpAppend (calm\<lparr>je_append := AppendTorn\<rparr>) (demo_record [] 0 9 StatusSigned),
          OpSetState (calm\<lparr>je_small := Some False\<rparr>) ''B'' \<lparr>sm_Status = Some StatusMined, sm_TxHash = None, sm_Receipt = None,
            sm_ReplacedBy = None, sm_Replaces = None, sm_Error = None, sm_ReservationID = None\<rparr>] demo_journal) = Inr q
     \<and> same_tx (demo_record ''B'' 2 8 StatusSigned) q \<and> re_Seq (demo_record ''B'' 2 8 StatusSigned) \<le> re_Seq q"
  by (rule journal_never_forgets [OF demo_ok(1)])
     (use demo_ok in \<open>simp_all add: ByID_jlookup\<close>, simp_all add: journal_eval)

text \<open>Whatever \<open>SetState\<close> meets, the journal afterwards reads as before or with exactly one record
  changed: the prior record of that id with the named fields applied, the next sequence number and the
  current time, everything that identifies the transaction copied.  It succeeds only in the second case,
  and only for an id the journal holds.\<close>

lemma SetState_effect:
  assumes "jok f" "room 1 f" "SetState je i mut f = (res, f')"
  shows "jok f' \<and> (case res of
      Inl e \<Rightarrow> (\<forall>k. k \<noteq> i \<longrightarrow> ByID LockOK k f' = ByID LockOK k f)
    | Inr x \<Rightarrow> (\<exists>prior. ByID LockOK i f = Inr prior \<and> x = moved je mut prior f \<and> same_tx prior x
          \<and> re_Seq prior < re_Seq x
          \<and> (\<forall>k. ByID LockOK k f' = (if k = i then Inr x else ByID LockOK k f))))"
  using SetState_lands [OF assms]
proof
  assume "unchanged f f' \<and> (\<exists>e. res = Inl e)"
  then obtain e where u: "unchanged f f'" "res = Inl e" by blast
  show ?thesis using unchanged_facts [OF u(1)] assms(1) u(2) by (simp add: ByID_jlookup)
next
  assume "\<exists>prior. jlookup f i = Some prior \<and> lands (moved je mut prior f) f f' \<and> (\<forall>x. res = Inr x \<longrightarrow> x = moved je mut prior f)"
  then obtain prior where p: "jlookup f i = Some prior" "lands (moved je mut prior f) f f'"
      "\<And>x. res = Inr x \<Longrightarrow> x = moved je mut prior f" by blast
  have i: "re_ID prior = i" using jlookup_ID [OF p(1)] by simp
  have "unat (re_Seq (moved je mut prior f)) = unat (max_seq (recs_of f)) + 1"
    using succ_less [of "max_seq (recs_of f)"] assms(2) by (simp add: moved_def room_def)
  hence lt: "re_Seq prior < re_Seq (moved je mut prior f)"
    using jlookup_seq_le [OF p(1)] by (simp add: word_less_nat_alt)
  show ?thesis
  proof (cases res)
    case (Inl e) thus ?thesis using p(2) assms(1) i by (simp add: lands_def ByID_jlookup)
  next
    case (Inr x)
    thus ?thesis using p(1,2) p(3) [OF Inr] assms(1) i lt by (simp add: lands_def ByID_jlookup same_tx_moved)
  qed
qed


text \<open>Crash recovery: an \<open>Append\<close> whose write is torn reports an error and changes no answer of the
  journal; the next \<open>Append\<close> repairs the file, reuses the sequence number of the torn line, and its record
  is the one \<open>ByID\<close> returns while every other id reads as before the crash.\<close>

lemma torn_append_recovers:
  assumes "jok f" "room 1 f" "Append (je\<lparr>je_append := AppendTorn\<rparr>) r f = (res, f')"
    and "je_lock je' = LockOK" "je_repair je' = WriteOK" "je_append je' = AppendOK" "je_compact je' = WriteOK"
    and "re_ID r' \<noteq> []" "Append je' r' f' = (res', f'')"
  shows "\<exists>e x. res = Inl e \<and> (\<forall>k. ByID LockOK k f' = ByID LockOK k f)
    \<and> res' = Inr x \<and> re_Seq x = max_seq (recs_of f) + 1
    \<and> (\<forall>k. ByID LockOK k f'' = (if k = re_ID r' then Inr x else ByID LockOK k f))"
proof -
  have t: "(\<exists>e. res = Inl e) \<and> unchanged f f'"
  proof (cases "je_lock je = LockOK")
    case True
    obtain rr g where rd: "readAll f (Some (je_repair je)) = (rr, g)" by (cases "readAll f (Some (je_repair je))")
    show ?thesis using assms(3) True jok_readAll [OF assms(1) rd] rd
      by (auto simp: Append_def jwithLock_def write_record_def appendLine_def unchanged_def jok_def readable_file_def
          recs_of_def lines_of_def split: sum.splits prod.splits option.splits if_splits)
  qed (use assms(1,3) in \<open>auto simp: Append_def jwithLock_def unchanged_refl split: lockfault.splits\<close>)
  note u = unchanged_facts [OF t [THEN conjunct2]]
  have rm: "room 1 f'" using u assms(2) by (simp add: room_def)
  have "\<exists>x. res' = Inr x"
  proof -
    obtain rr g where rd: "readAll f' (Some WriteOK) = (rr, g)" by (cases "readAll f' (Some WriteOK)")
    have "\<exists>q. rr = Inr q" using rd u by (auto simp: readAll_def jok_def readable_file_def Let_def split: if_splits)
    thus ?thesis using assms(4-9) rd
      by (auto simp: Append_def jwithLock_def write_record_def appendLine_def maybeCompact_def compact_def Let_def split: if_splits)
  qed
  then obtain x where x: "res' = Inr x" by blast
  have L: "lands (stamped je' (re_ID r') r' f') f' f''" "x = stamped je' (re_ID r') r' f'"
    using Append_lands [OF _ rm assms(9)] u assms(8) x by auto
  have "ByID LockOK k f'' = (if k = re_ID r' then Inr x else ByID LockOK k f)" for k
    using L u assms(1) by (simp add: lands_def ByID_jlookup)
  moreover have "re_Seq x = max_seq (recs_of f) + 1" using L(2) u by (simp add: stamped_def)
  ultimately show ?thesis using t u x assms(1) by (auto simp: ByID_jlookup)
qed


text \<open>Compaction is invisible and keeps its order: rewriting an append-only file to its snapshot changes
  no answer, loses no id (terminal records are history and stay), leaves sequence numbers strictly
  increasing, and the exchange loops are an ascending sort of the folded records.\<close>

lemma compaction_preserves:
  assumes "jok f" "compact WriteOK (foldLatest (recs_of f)) f = (Inr (), f')"
  shows "jok f' \<and> ByID LockOK i f' = ByID LockOK i f
    \<and> mset (recs_of f') = mset (map snd (foldLatest (recs_of f))) \<and> sorted (map re_Seq (recs_of f'))"
proof -
  have f': "recs_of f' = snapshot (foldLatest (recs_of f))" "jok f'"
    using assms snapshot_increasing [of "recs_of f"] by (auto simp: compact_def jok_def readable_file_def)
  thus ?thesis using assms(1) snapshot_fold [of "recs_of f"] snap_sort_spec [of "map snd (foldLatest (recs_of f))"]
    by (simp add: ByID_jlookup jlookup_def snapshot_def)
qed


text \<open>\<open>Unresolved\<close> is exactly the worklist of restart reconciliation: a record is in it if and only if it is the
  latest of its id and its status is not terminal, each once, newest first.\<close>

lemma Unresolved_exact:
  assumes "jok f"
  shows "\<exists>rs. Unresolved LockOK f = Inr rs \<and> distinct rs \<and> sorted_wrt (\<lambda>a b. re_Seq b < re_Seq a) rs
    \<and> (\<forall>r. r \<in> set rs \<longleftrightarrow> ByID LockOK (re_ID r) f = Inr r \<and> \<not> Status_IsTerminal (re_Status r))"
proof -
  let ?m = "foldLatest (recs_of f)" and ?p = "\<lambda>r. \<not> Status_IsTerminal (re_Status r)"
  let ?rs = "sortBySeqDesc (filter ?p (map snd ?m))"
  have u: "Unresolved LockOK f = Inr ?rs"
    using assms by (auto simp: Unresolved_def read_journal_def readAll_def jok_def readable_file_def recs_of_def lines_of_def
        Let_def parsed_def List.map_filter_def foldLatest_def split: option.splits)
  have d: "distinct (map snd ?m)" using fold_ids_distinct [of "recs_of f"] by (auto simp: distinct_map dest: inj_on_imageI2)
  have s: "set ?rs = {r \<in> snd ` set ?m. ?p r}" by (auto simp: sortBySeqDesc_def)
  have dr: "distinct ?rs" using d by (simp add: sortBySeqDesc_def)
  have inj: "a \<in> set ?rs \<Longrightarrow> b \<in> set ?rs \<Longrightarrow> re_Seq a = re_Seq b \<Longrightarrow> a = b" for a b
    using assms fold_values_sub [of "recs_of f"] increasing_seq_inj [of "recs_of f" a b] by (auto simp: s jok_def)
  have "sorted_wrt (\<lambda>a b. - int (unat (re_Seq a)) \<le> - int (unat (re_Seq b))) ?rs"
    using sorted_sort_key [of "\<lambda>r. - int (unat (re_Seq r))"] unfolding sortBySeqDesc_def sorted_wrt_map by blast
  hence w: "sorted_wrt (\<lambda>a b. re_Seq b \<le> re_Seq a) ?rs" by (simp add: word_le_def)
  have "inj_on re_Seq (set ?rs)" using inj by (rule inj_onI)
  hence "distinct (map re_Seq ?rs)" using dr by (simp add: distinct_map)
  with w have "sorted_wrt (\<lambda>a b. re_Seq b < re_Seq a) ?rs" by (rule sorted_wrt_strict)
  moreover have "r \<in> snd ` set ?m \<longleftrightarrow> jlookup f (re_ID r) = Some r" for r
    using foldLatest_keys [of "recs_of f"] by (force simp: jlookup_def map_of_eq_Some_iff image_iff)
  hence "\<forall>r. r \<in> set ?rs \<longleftrightarrow> ByID LockOK (re_ID r) f = Inr r \<and> ?p r"
    by (simp add: s ByID_jlookup [OF assms] split: option.split)
  ultimately show ?thesis using u dr by blast
qed


end
