(* ===== verification/Nonce.thy ===== *)
theory Nonce
  imports Journal
begin

text \<open>
  Nonce allocation (\<open>internal/journal/nonce.go\<close>): the account lock, the derivation of the next nonce from
  the chain, the cache file and the journal, and the lease a send holds.  Addresses are an arbitrary type
  \<open>'a\<close>; go-ethereum's \<open>common.HexToAddress\<close> and \<open>Address.Hex\<close> are arguments.  The state has the journal
  of one chain, the cache file of every account, the set of accounts whose lock is held, and the
  single-writer warnings printed.
\<close>

section \<open>State\<close>

record nonceCache =
  nc_V :: int
  nc_ChainID :: "64 word"
  nc_Account :: string
  nc_Next :: "64 word"
  nc_TS :: int

record 'a nstate =
  ns_journal :: journal
  ns_cache :: "'a \<Rightarrow> nonceCache stored"
  ns_held :: "'a set"
  ns_warnings :: "('a \<times> 64 word \<times> 64 word \<times> 64 word) list"

record 'a Lease =
  le_nonce :: "64 word"
  le_chainID :: "64 word"
  le_addr :: 'a
  le_finished :: bool

text \<open>The environment: directories and account lock, the shared journal lock, the cache write, the clock.\<close>

record nenv =
  ne_lock :: lockfault
  ne_jlock :: lockfault
  ne_write :: writefault
  ne_now :: int

section \<open>Derivation\<close>

definition maxU64 :: "64 word list \<Rightarrow> 64 word" where
  "maxU64 vs = foldl (\<lambda>m v. if v > m then v else m) 0 vs"

text \<open>The loop of \<open>journalNext\<close> carries \<open>(maxNonce, any, hasInFlight)\<close>.\<close>

definition journalNext_step :: "(string \<Rightarrow> 'a) \<Rightarrow> 'a \<Rightarrow> 64 word \<times> bool \<times> bool \<Rightarrow> Record \<Rightarrow> 64 word \<times> bool \<times> bool" where
  "journalNext_step HexToAddress addr acc r = (case acc of (m, some, inflight) \<Rightarrow>
     if HexToAddress (re_From r) \<noteq> addr then (m, some, inflight)
     else if \<not> consumesNonce (re_Status r) then (m, some, inflight)
     else (if re_Nonce r \<ge> m then re_Nonce r else m, True, inflight \<or> \<not> Status_IsTerminal (re_Status r)))"

definition journalNext :: "(string \<Rightarrow> 'a) \<Rightarrow> lockfault \<Rightarrow> 'a \<Rightarrow> journal \<Rightarrow> jerr + 64 word \<times> bool" where
  "journalNext HexToAddress l addr f = (case read_journal l f of
       Inl e \<Rightarrow> Inl e
     | Inr m \<Rightarrow> (case foldl (journalNext_step HexToAddress addr) (0, False, False) (map snd m) of
           (mx, some, inflight) \<Rightarrow> Inr (if \<not> some then 0 else mx + 1, inflight)))"

definition readCache :: "nonceCache stored \<Rightarrow> jerr + 64 word \<times> bool" where
  "readCache c = (case c of Missing \<Rightarrow> Inr (0, False) | Content n \<Rightarrow> Inr (nc_Next n, True)
     | _ \<Rightarrow> Inl (JErr (New ''state.corrupt'')))"

definition writeCache :: "('a \<Rightarrow> string) \<Rightarrow> nenv \<Rightarrow> 64 word \<Rightarrow> 'a \<Rightarrow> 64 word \<Rightarrow> 'a nstate \<Rightarrow> (jerr + unit) \<times> 'a nstate" where
  "writeCache Hex ne chainID addr nxt st = (case ne_write ne of
       WriteOK \<Rightarrow> (Inr (), st\<lparr>ns_cache := (ns_cache st)(addr := Content
          \<lparr>nc_V = 1, nc_ChainID = chainID, nc_Account = ToLower (Hex addr), nc_Next = nxt, nc_TS = ne_now ne\<rparr>)\<rparr>)
     | _ \<Rightarrow> (Inl (JErr (New ''state.corrupt'')), st))"

definition NextNonce :: "(string \<Rightarrow> 'a) \<Rightarrow> nenv \<Rightarrow> 'a \<Rightarrow> 64 word \<Rightarrow> 'a nstate \<Rightarrow> jerr + 64 word" where
  "NextNonce HexToAddress ne addr chainPending st =
    (case journalNext HexToAddress (ne_jlock ne) addr (ns_journal st) of
       Inl e \<Rightarrow> Inl e
     | Inr (jn, _) \<Rightarrow> (case readCache (ns_cache st addr) of
           Inl e \<Rightarrow> Inl e
         | Inr (ln, _) \<Rightarrow> Inr (maxU64 [chainPending, ln, jn])))"

section \<open>Leases\<close>

text \<open>Directory creation and the bounded wait for the account lock; a lock held elsewhere times out.\<close>

definition account_lock :: "nenv \<Rightarrow> 'a \<Rightarrow> 'a nstate \<Rightarrow> jerr option" where
  "account_lock ne addr st = (case ne_lock ne of
       LockOK \<Rightarrow> if addr \<in> ns_held st then Some (JErr (New ''state.lock_timeout'')) else None
     | LockTimeout \<Rightarrow> Some (JErr (New ''state.lock_timeout''))
     | _ \<Rightarrow> Some (JErr (New ''state.corrupt'')))"

definition AcquireNonce ::
  "(string \<Rightarrow> 'a) \<Rightarrow> nenv \<Rightarrow> 64 word \<Rightarrow> 'a \<Rightarrow> 64 word \<Rightarrow> 64 word option \<Rightarrow> 'a nstate \<Rightarrow> (jerr + 'a Lease) \<times> 'a nstate" where
  "AcquireNonce HexToAddress ne chainID addr chainPending forced st =
    (case account_lock ne addr st of
       Some e \<Rightarrow> (Inl e, st)
     | None \<Rightarrow>
       (let lease = (\<lambda>n. \<lparr>le_nonce = n, le_chainID = chainID, le_addr = addr, le_finished = False\<rparr>);
            held = st\<lparr>ns_held := insert addr (ns_held st)\<rparr> in
        case forced of
          Some n \<Rightarrow> (Inr (lease n), held)
        | None \<Rightarrow>
          (case journalNext HexToAddress (ne_jlock ne) addr (ns_journal st) of
             Inl e \<Rightarrow> (Inl e, st)
           | Inr (jn, inflight) \<Rightarrow>
             (case readCache (ns_cache st addr) of
                Inl e \<Rightarrow> (Inl e, st)
              | Inr (ln, _) \<Rightarrow>
                (Inr (lease (maxU64 [chainPending, ln, jn])),
                 if chainPending > jn \<and> chainPending > ln \<and> \<not> inflight
                 then held\<lparr>ns_warnings := ns_warnings st @ [(addr, chainPending, jn, ln)]\<rparr> else held)))))"

definition unlock :: "'a \<Rightarrow> 'a nstate \<Rightarrow> 'a nstate" where
  "unlock addr st = st\<lparr>ns_held := ns_held st - {addr}\<rparr>"

definition Lease_Commit :: "('a \<Rightarrow> string) \<Rightarrow> nenv \<Rightarrow> 'a Lease \<Rightarrow> 'a nstate \<Rightarrow> (jerr + unit) \<times> 'a Lease \<times> 'a nstate" where
  "Lease_Commit Hex ne l st = (if le_finished l then (Inr (), l, st)
     else (case writeCache Hex ne (le_chainID l) (le_addr l) (le_nonce l + 1) st of
        (res, st') \<Rightarrow> (res, l\<lparr>le_finished := True\<rparr>, unlock (le_addr l) st')))"

definition Lease_Release :: "'a Lease \<Rightarrow> 'a nstate \<Rightarrow> (jerr + unit) \<times> 'a Lease \<times> 'a nstate" where
  "Lease_Release l st = (if le_finished l then (Inr (), l, st)
     else (Inr (), l\<lparr>le_finished := True\<rparr>, unlock (le_addr l) st))"

definition ResetCache :: "(string \<Rightarrow> 'a) \<Rightarrow> ('a \<Rightarrow> string) \<Rightarrow> nenv \<Rightarrow> 64 word \<Rightarrow> 'a \<Rightarrow> 'a nstate \<Rightarrow> (jerr + unit) \<times> 'a nstate" where
  "ResetCache HexToAddress Hex ne chainID addr st = (case account_lock ne addr st of
       Some e \<Rightarrow> (Inl e, st)
     | None \<Rightarrow> (case journalNext HexToAddress (ne_jlock ne) addr (ns_journal st) of
           Inl e \<Rightarrow> (Inl e, st)
         | Inr (jn, _) \<Rightarrow> writeCache Hex ne chainID addr jn st))"

section \<open>Lemmas\<close>

text \<open>The records of the account that consumed a nonce, as the journal reads.\<close>

definition consumed :: "(string \<Rightarrow> 'a) \<Rightarrow> 'a \<Rightarrow> journal \<Rightarrow> Record set" where
  "consumed HexToAddress addr f = {r. jlookup f (re_ID r) = Some r \<and> HexToAddress (re_From r) = addr \<and> consumesNonce (re_Status r)}"

lemma maxU64_max: "maxU64 [a, b, c] = max a (max b c)"
  by (auto simp: maxU64_def max_def not_less)

lemma less_succ: "(m :: 64 word) \<noteq> - 1 \<Longrightarrow> m < m + 1"
proof -
  assume "m \<noteq> - 1"
  hence "1 + m \<noteq> 0" by (metis add.commute add_eq_0_iff)
  thus ?thesis by (simp add: word_less_nat_alt add.commute [of m] unatSuc)
qed

lemma fold_journalNext:
  assumes "foldl (journalNext_step H addr) (m0, s0, i0) rs = (m, s, i)"
  defines "C \<equiv> {r \<in> set rs. H (re_From r) = addr \<and> consumesNonce (re_Status r)}"
  shows "(s \<longleftrightarrow> s0 \<or> C \<noteq> {}) \<and> m0 \<le> m \<and> (\<forall>r \<in> C. re_Nonce r \<le> m) \<and> (m = m0 \<or> m \<in> re_Nonce ` C)
    \<and> (i \<longleftrightarrow> i0 \<or> (\<exists>r \<in> C. \<not> Status_IsTerminal (re_Status r)))"
  unfolding C_def using assms(1)
proof (induction rs arbitrary: m0 s0 i0)
  case (Cons r rs)
  obtain m1 s1 i1 where st: "journalNext_step H addr (m0, s0, i0) r = (m1, s1, i1)"
    by (cases "journalNext_step H addr (m0, s0, i0) r")
  hence f: "foldl (journalNext_step H addr) (m1, s1, i1) rs = (m, s, i)" using Cons.prems by simp
  note IH = Cons.IH [OF f]
  show ?case
  proof (cases "H (re_From r) = addr \<and> consumesNonce (re_Status r)")
    case False
    hence "m1 = m0" "s1 = s0" "i1 = i0" using st by (auto simp: journalNext_step_def split: if_splits)
    thus ?thesis using IH False by auto
  next
    case True
    hence "m1 = max m0 (re_Nonce r)" "s1 = True" "i1 = (i0 \<or> \<not> Status_IsTerminal (re_Status r))"
      using st by (auto simp: journalNext_step_def max_def split: if_splits)
    thus ?thesis using IH True by (auto simp: max_def split: if_splits)
  qed
qed simp

lemma read_journal_LockOK:
  "jok f \<Longrightarrow> read_journal LockOK f = Inr (foldLatest (recs_of f))"
  by (auto simp: read_journal_def readAll_def jok_def readable_file_def recs_of_def lines_of_def
      Let_def parsed_def List.map_filter_def foldLatest_def split: option.splits)

lemma consumed_fold:
  "consumed H addr f = {r \<in> set (map snd (foldLatest (recs_of f))). H (re_From r) = addr \<and> consumesNonce (re_Status r)}"
proof -
  have "r \<in> snd ` set (foldLatest (recs_of f)) \<longleftrightarrow> jlookup f (re_ID r) = Some r" for r
    using foldLatest_keys [of "recs_of f"] by (force simp: jlookup_def map_of_eq_Some_iff image_iff)
  thus ?thesis by (auto simp: consumed_def)
qed

text \<open>\<open>journalNext\<close> is one above the largest consumed nonce, or 0 when there is none.\<close>

lemma journalNext_spec:
  assumes "jok f" "journalNext H l addr f = Inr (jn, inflight)" "\<forall>r \<in> consumed H addr f. re_Nonce r \<noteq> - 1"
  shows "(consumed H addr f = {} \<longrightarrow> jn = 0) \<and> (\<forall>r \<in> consumed H addr f. re_Nonce r < jn)
    \<and> (consumed H addr f \<noteq> {} \<longrightarrow> jn \<in> (\<lambda>r. re_Nonce r + 1) ` consumed H addr f)
    \<and> (inflight \<longleftrightarrow> (\<exists>r \<in> consumed H addr f. \<not> Status_IsTerminal (re_Status r)))"
proof -
  let ?rs = "map snd (foldLatest (recs_of f))"
  have l: "l = LockOK" using assms(2) by (auto simp: journalNext_def read_journal_def split: lockfault.splits)
  obtain m s i where f: "foldl (journalNext_step H addr) (0, False, False) ?rs = (m, s, i)"
    by (cases "foldl (journalNext_step H addr) (0, False, False) ?rs")
  have j: "jn = (if \<not> s then 0 else m + 1)" "inflight = i"
    using assms(1,2) f by (simp_all add: l journalNext_def read_journal_LockOK)
  note F = fold_journalNext [OF f, folded consumed_fold]
  show ?thesis
  proof (cases "consumed H addr f = {}")
    case True thus ?thesis using F j by auto
  next
    case False
    have mi: "m \<in> re_Nonce ` consumed H addr f"
    proof (cases "m = 0")
      case True
      then obtain r where "r \<in> consumed H addr f" "re_Nonce r = 0" using False F by fastforce
      thus ?thesis using True by (metis image_eqI)
    qed (use F in auto)
    hence "m \<noteq> - 1" using assms(3) by auto
    hence "m < m + 1" by (rule less_succ)
    moreover have "jn = m + 1" using F j False by simp
    ultimately show ?thesis using F j mi False by (auto intro: le_less_trans)
  qed
qed

lemma journalNext_total: "jok f \<Longrightarrow> \<exists>jn i. journalNext H LockOK addr f = Inr (jn, i)"
  by (cases "foldl (journalNext_step H addr) (0, False, False) (map snd (foldLatest (recs_of f)))")
     (simp add: journalNext_def read_journal_LockOK)

lemma AcquireNonce_unforced:
  assumes "AcquireNonce H ne c addr pend None st = (Inr l, st')"
  obtains jn i ln p where "journalNext H (ne_jlock ne) addr (ns_journal st) = Inr (jn, i)"
    "readCache (ns_cache st addr) = Inr (ln, p)" "le_nonce l = max pend (max ln jn)" "le_addr l = addr"
    "le_finished l = False" "addr \<notin> ns_held st" "ns_held st' = insert addr (ns_held st)"
    "ns_journal st' = ns_journal st" "ns_cache st' = ns_cache st"
  using assms
  by (auto simp: AcquireNonce_def account_lock_def Let_def maxU64_max
      split: option.splits sum.splits if_splits lockfault.splits prod.splits)

section \<open>Properties of the allocation\<close>

text \<open>A consumed nonce is never allocated again: whatever the cache file says and however far the RPC lags,
  a nonce derived for an account is strictly above that of every record of the account that is not
  \<open>failed\<close>, including terminal ones.  (A nonce of \<open>2^64 - 1\<close> is invalid by EIP-2681.)\<close>

lemma consumed_nonce_not_reallocated:
  assumes "jok (ns_journal st)" "\<forall>q \<in> consumed H addr (ns_journal st). re_Nonce q \<noteq> - 1"
    and "AcquireNonce H ne c addr pend None st = (Inr l, st')"
    and "ByID LockOK i (ns_journal st) = Inr r" "H (re_From r) = addr" "re_Status r \<noteq> StatusFailed"
  shows "re_Nonce r < le_nonce l \<and> pend \<le> le_nonce l"
proof -
  obtain jn b ln p where j: "journalNext H (ne_jlock ne) addr (ns_journal st) = Inr (jn, b)" "le_nonce l = max pend (max ln jn)"
    using AcquireNonce_unforced [OF assms(3)] by metis
  have "jlookup (ns_journal st) i = Some r" using assms(1,4) by (auto simp: ByID_jlookup split: option.splits)
  hence "r \<in> consumed H addr (ns_journal st)"
    using assms(5,6) jlookup_ID by (fastforce simp: consumed_def consumesNonce_def)
  hence "re_Nonce r < jn" using journalNext_spec [OF assms(1) j(1) assms(2)] by blast
  thus ?thesis unfolding j(2) by (simp add: less_max_iff_disj)
qed

definition demo_nstate :: "string nstate" where
  "demo_nstate = \<lparr>ns_journal = demo_journal, ns_cache = (\<lambda>_. Missing), ns_held = {}, ns_warnings = []\<rparr>"

definition calm_nenv :: nenv where
  "calm_nenv = \<lparr>ne_lock = LockOK, ne_jlock = LockOK, ne_write = WriteOK, ne_now = 5\<rparr>"

lemma demo_latest: "map snd (foldLatest (recs_of demo_journal)) = [demo_record ''A'' 3 7 StatusBroadcast, demo_record ''B'' 2 8 StatusSigned]"
  by (simp add: journal_eval)

lemma demo_next: "journalNext (\<lambda>s. s) LockOK ''0xaa'' demo_journal = Inr (9, True)"
  by (simp add: journalNext_def read_journal_LockOK [OF demo_ok(1)] demo_latest)
     (simp add: journalNext_step_def demo_record_def consumesNonce_def Status_IsTerminal_def terminalStatuses_def)

lemma demo_acquire: "AcquireNonce (\<lambda>s. s) calm_nenv 1 ''0xaa'' 3 None demo_nstate
    = (Inr \<lparr>le_nonce = 9, le_chainID = 1, le_addr = ''0xaa'', le_finished = False\<rparr>, demo_nstate\<lparr>ns_held := {''0xaa''}\<rparr>)"
  by (simp add: AcquireNonce_def account_lock_def Let_def demo_next demo_nstate_def calm_nenv_def readCache_def maxU64_def)

lemma demo_consumed: "\<forall>q \<in> consumed (\<lambda>s. s) ''0xaa'' (ns_journal demo_nstate). re_Nonce q \<noteq> - 1"
  unfolding demo_nstate_def consumed_fold nstate.simps demo_latest by (auto simp: demo_record_def)

lemma demo_nstate_ok: "jok (ns_journal demo_nstate)"
  by (simp add: demo_nstate_def demo_ok)


text \<open>The derivation is exact: with no account lock held elsewhere and a readable journal and cache, an
  unforced acquisition returns the largest of the chain's pending nonce, the cached next nonce and one above
  the largest consumed nonce; the lock is then held, nothing on disk has changed, and a warning is
  recorded exactly when the chain is ahead of both local views with nothing in flight.\<close>

lemma AcquireNonce_exact:
  assumes "jok (ns_journal st)" "\<forall>q \<in> consumed H addr (ns_journal st). re_Nonce q \<noteq> - 1"
    and "ne_lock ne = LockOK" "ne_jlock ne = LockOK" "addr \<notin> ns_held st" "readCache (ns_cache st addr) = Inr (ln, p)"
  shows "\<exists>l st'. AcquireNonce H ne c addr pend None st = (Inr l, st')
    \<and> le_nonce l = Max (insert pend (insert ln ((\<lambda>r. re_Nonce r + 1) ` consumed H addr (ns_journal st))))
    \<and> ns_held st' = insert addr (ns_held st) \<and> ns_journal st' = ns_journal st \<and> ns_cache st' = ns_cache st
    \<and> (ns_warnings st' = ns_warnings st
       \<longleftrightarrow> \<not> (ln < pend \<and> (\<forall>r \<in> consumed H addr (ns_journal st). re_Nonce r + 1 < pend \<and> Status_IsTerminal (re_Status r))))"
proof -
  let ?C = "consumed H addr (ns_journal st)"
  have fin: "finite ?C" by (simp add: consumed_fold)
  obtain jn i where j: "journalNext H LockOK addr (ns_journal st) = Inr (jn, i)"
    using journalNext_total [OF assms(1), of H addr] by blast
  note S = journalNext_spec [OF assms(1) j assms(2)]
  have up: "r \<in> ?C \<Longrightarrow> re_Nonce r + 1 \<le> jn" for r
    using S by (metis inc_le)
  have mx: "max pend (max ln jn) = Max (insert pend (insert ln ((\<lambda>r. re_Nonce r + 1) ` ?C)))"
  proof (cases "?C = {}")
    case True thus ?thesis using S by (simp add: max_absorb1)
  next
    case False
    hence "Max ((\<lambda>r. re_Nonce r + 1) ` ?C) = jn" using S fin up by (intro Max_eqI) auto
    thus ?thesis using fin False by simp
  qed
  have ch: "(\<forall>r \<in> ?C. re_Nonce r + 1 < pend) \<longleftrightarrow> ?C = {} \<or> jn < pend"
    using S up by (metis (no_types, lifting) all_not_in_conv imageE le_less_trans)
  have w: "jn < pend \<and> ln < pend \<and> \<not> i \<longleftrightarrow> ln < pend \<and> (\<forall>r \<in> ?C. re_Nonce r + 1 < pend \<and> Status_IsTerminal (re_Status r))"
  proof (cases "?C = {}")
    case True thus ?thesis using S by (auto simp: word_le_def word_less_def intro: le_less_trans [OF uint_ge_0])
  next
    case False thus ?thesis using S ch by blast
  qed
  show ?thesis
    using assms(3-6) j w by (simp add: AcquireNonce_def account_lock_def Let_def maxU64_max mx)
qed


section \<open>Interleaved sends\<close>

text \<open>Many processes on one chain: a lease is acquired, its transaction is journaled, any record of the journal
  moves between any two states, and the lease ends by a commit, a release or the crash
  of its process.  The leases alive and whether each has journaled its record are part of the state, and so are, as an auxiliary
  variable that no step reads, the ids of the records that were \<open>failed\<close> in some state of the run.  The
  append of a lease writes a fresh id, and every step may meet any fault.\<close>

record 'a world =
  w_st :: "'a nstate"
  w_live :: "'a Lease list"
  w_open :: "'a Lease list"
  w_failed :: "string set"

definition failed_ids :: "journal \<Rightarrow> string set" where
  "failed_ids f = {i. \<exists>r. jlookup f i = Some r \<and> re_Status r = StatusFailed}"

definition world_with :: "'a nstate \<Rightarrow> 'a Lease list \<Rightarrow> 'a Lease list \<Rightarrow> 'a world \<Rightarrow> 'a world" where
  "world_with st lv op w = \<lparr>w_st = st, w_live = lv, w_open = op, w_failed = w_failed w \<union> failed_ids (ns_journal st)\<rparr>"

lemma world_with_sel [simp]:
  "w_st (world_with st lv op w) = st" "w_live (world_with st lv op w) = lv" "w_open (world_with st lv op w) = op"
  "w_failed (world_with st lv op w) = w_failed w \<union> failed_ids (ns_journal st)"
  by (simp_all add: world_with_def)

inductive send_step :: "(string \<Rightarrow> 'a) \<Rightarrow> ('a \<Rightarrow> string) \<Rightarrow> 'a world \<Rightarrow> 'a world \<Rightarrow> bool"
  for H :: "string \<Rightarrow> 'a" and Hex :: "'a \<Rightarrow> string" where
  acquire: "AcquireNonce H ne c addr pend None (w_st w) = (Inr l, st') \<Longrightarrow> le_nonce l \<noteq> - 1 \<Longrightarrow>
     send_step H Hex w (world_with st' (l # w_live w) (l # w_open w) w)"
| refused: "AcquireNonce H ne c addr pend forced (w_st w) = (Inl e, st') \<Longrightarrow> send_step H Hex w (world_with st' (w_live w) (w_open w) w)"
| journal: "l \<in> set (w_open w) \<Longrightarrow> H (re_From r) = le_addr l \<Longrightarrow> re_Nonce r = le_nonce l \<Longrightarrow>
     re_ID r \<noteq> [] \<Longrightarrow> jlookup (ns_journal (w_st w)) (re_ID r) = None \<Longrightarrow> room 1 (ns_journal (w_st w)) \<Longrightarrow>
     Append je r (ns_journal (w_st w)) = (res, f') \<Longrightarrow>
     send_step H Hex w (world_with ((w_st w)\<lparr>ns_journal := f'\<rparr>) (w_live w) (remove1 l (w_open w)) w)"
| transition: "room 1 (ns_journal (w_st w)) \<Longrightarrow> SetState je i mut (ns_journal (w_st w)) = (res, f') \<Longrightarrow>
     send_step H Hex w (world_with ((w_st w)\<lparr>ns_journal := f'\<rparr>) (w_live w) (w_open w) w)"
| commit: "l \<in> set (w_live w) \<Longrightarrow> Lease_Commit Hex ne l (w_st w) = (res, l', st') \<Longrightarrow>
     send_step H Hex w (world_with st' (remove1 l (w_live w)) (remove1 l (w_open w)) w)"
| release: "l \<in> set (w_live w) \<Longrightarrow> Lease_Release l (w_st w) = (res, l', st') \<Longrightarrow>
     send_step H Hex w (world_with st' (remove1 l (w_live w)) (remove1 l (w_open w)) w)"
| reset: "ResetCache H Hex ne c addr (w_st w) = (res, st') \<Longrightarrow> send_step H Hex w (world_with st' (w_live w) (w_open w) w)"

inductive_simps send_step_iff: "send_step H Hex w w'"

text \<open>The records that were never written off.  The invariant: one live lease per account, no record has the nonce
  \<open>2^64 - 1\<close>, and the nonces of an account's records that were never written off are distinct and, while a lease has yet to
  journal, below the lease's.\<close>

definition clean :: "(string \<Rightarrow> 'a) \<Rightarrow> string set \<Rightarrow> 'a \<Rightarrow> journal \<Rightarrow> Record set" where
  "clean H F addr f = {r \<in> consumed H addr f. re_ID r \<notin> F}"

definition distinct_nonces :: "(string \<Rightarrow> 'a) \<Rightarrow> string set \<Rightarrow> journal \<Rightarrow> bool" where
  "distinct_nonces H F f \<longleftrightarrow> (\<forall>addr. inj_on re_Nonce (clean H F addr f))"

definition valid_nonces :: "journal \<Rightarrow> bool" where
  "valid_nonces f \<longleftrightarrow> (\<forall>i r. jlookup f i = Some r \<longrightarrow> re_Nonce r \<noteq> - 1)"

definition nonce_inv :: "(string \<Rightarrow> 'a) \<Rightarrow> 'a world \<Rightarrow> bool" where
  "nonce_inv H w \<longleftrightarrow> jok (ns_journal (w_st w)) \<and> failed_ids (ns_journal (w_st w)) \<subseteq> w_failed w
     \<and> distinct_nonces H (w_failed w) (ns_journal (w_st w)) \<and> valid_nonces (ns_journal (w_st w))
     \<and> distinct (map le_addr (w_live w)) \<and> le_addr ` set (w_live w) \<subseteq> ns_held (w_st w)
     \<and> set (w_open w) \<subseteq> set (w_live w) \<and> distinct (w_open w)
     \<and> (\<forall>l \<in> set (w_live w). \<not> le_finished l)
     \<and> (\<forall>l \<in> set (w_open w). le_nonce l \<noteq> - 1 \<and> (\<forall>r \<in> clean H (w_failed w) (le_addr l) (ns_journal (w_st w)). re_Nonce r < le_nonce l))"

lemma valid_consumed: "valid_nonces f \<Longrightarrow> \<forall>r \<in> consumed H addr f. re_Nonce r \<noteq> - 1"
  by (auto simp: valid_nonces_def consumed_def)

lemma consumed_lands:
  "lands r f f' \<Longrightarrow> consumed H addr f' = {q \<in> consumed H addr f. re_ID q \<noteq> re_ID r}
     \<union> (if H (re_From r) = addr \<and> consumesNonce (re_Status r) then {r} else {})"
  by (auto simp: consumed_def lands_def)

lemma failed_lands:
  "lands r f f' \<Longrightarrow> failed_ids f' = (failed_ids f - {re_ID r}) \<union> (if re_Status r = StatusFailed then {re_ID r} else {})"
  by (auto simp: failed_ids_def lands_def split: if_splits)

lemma valid_lands: "lands r f f' \<Longrightarrow> re_Nonce r \<noteq> - 1 \<Longrightarrow> valid_nonces f \<Longrightarrow> valid_nonces f'"
  by (auto simp: valid_nonces_def lands_def split: if_split_asm)

lemma consumed_unchanged: "unchanged f f' \<Longrightarrow> consumed H addr f' = consumed H addr f"
  by (auto simp: consumed_def dest: unchanged_facts)

lemma lookup_unchanged: "unchanged f f' \<Longrightarrow> jlookup f' = jlookup f"
  by (auto simp: fun_eq_iff dest: unchanged_facts)

text \<open>What a step that adds no record may do to the journal: take nonces of records never written off away, add none.\<close>

definition nonces_shrink :: "(string \<Rightarrow> 'a) \<Rightarrow> string set \<Rightarrow> journal \<Rightarrow> journal \<Rightarrow> bool" where
  "nonces_shrink H F f f' \<longleftrightarrow> (let F' = F \<union> failed_ids f' in
     (\<forall>addr. inj_on re_Nonce (clean H F addr f) \<longrightarrow> inj_on re_Nonce (clean H F' addr f'))
     \<and> (\<forall>addr. re_Nonce ` clean H F' addr f' \<subseteq> re_Nonce ` clean H F addr f) \<and> (valid_nonces f \<longrightarrow> valid_nonces f'))"

lemma nonces_shrink_refl: "jlookup f' = jlookup f \<Longrightarrow> failed_ids f \<subseteq> F \<Longrightarrow> nonces_shrink H F f f'"
  by (simp add: nonces_shrink_def failed_ids_def clean_def consumed_def valid_nonces_def Un_absorb2)

lemma nonces_shrink_moved:
  assumes "lands (moved je mut p f) f f'" "jlookup f i = Some p" "failed_ids f \<subseteq> F"
  shows "nonces_shrink H F f f'"
proof -
  let ?m = "moved je mut p f"
  define F' where "F' = F \<union> failed_ids f'"
  have e: "re_From ?m = re_From p" "re_Nonce ?m = re_Nonce p" "re_ID ?m = i" "re_ID p = i"
    using jlookup_ID [OF assms(2)] by (simp_all add: moved_def applyTo_def)
  have F: "j \<in> F' \<longleftrightarrow> j \<in> F \<or> j = i \<and> re_Status ?m = StatusFailed" for j
    using failed_lands [OF assms(1)] assms(3) e(3) by (auto simp: F'_def)
  have c: "clean H F' addr f' = {q \<in> clean H F addr f. re_ID q \<noteq> i}
     \<union> (if H (re_From p) = addr \<and> consumesNonce (re_Status ?m) \<and> i \<notin> F then {?m} else {})" for addr
  proof -
    have "q \<in> clean H F' addr f' \<longleftrightarrow> (q \<in> consumed H addr f \<and> re_ID q \<noteq> i \<or> q = ?m \<and> H (re_From p) = addr \<and> consumesNonce (re_Status ?m))
        \<and> \<not> (re_ID q \<in> F \<or> re_ID q = i \<and> re_Status ?m = StatusFailed)" for q
      unfolding clean_def mem_Collect_eq consumed_lands [OF assms(1)] F e(1,3) by (auto split: if_split)
    hence "q \<in> clean H F' addr f' \<longleftrightarrow> q \<in> clean H F addr f \<and> re_ID q \<noteq> i \<or> q = ?m \<and> H (re_From p) = addr \<and> consumesNonce (re_Status ?m) \<and> i \<notin> F" for q
      unfolding clean_def mem_Collect_eq using e(3) by (metis consumesNonce_def)
    thus ?thesis by (intro set_eqI) auto
  qed
  have o: "i \<notin> F \<Longrightarrow> p \<in> clean H F (H (re_From p)) f"
    using assms(2,3) e(4) by (auto simp: clean_def consumed_def consumesNonce_def failed_ids_def)
  have "inj_on re_Nonce (clean H F' addr f')" if "inj_on re_Nonce (clean H F addr f)" for addr
  proof (cases "H (re_From p) = addr \<and> consumesNonce (re_Status ?m) \<and> i \<notin> F")
    case True
    hence "p \<in> clean H F addr f" using o by auto
    hence "\<forall>q \<in> clean H F addr f. re_ID q \<noteq> i \<longrightarrow> re_Nonce q \<noteq> re_Nonce p" using that e(4) by (metis inj_onD)
    thus ?thesis using that True unfolding c by (auto simp: inj_on_def e)
  next
    case False thus ?thesis using that unfolding c by (auto simp: inj_on_def)
  qed
  moreover have "re_Nonce ` clean H F' addr f' \<subseteq> re_Nonce ` clean H F addr f" for addr
    unfolding c using o by (auto simp: e split: if_splits)
  moreover have "valid_nonces f \<longrightarrow> valid_nonces f'" using valid_lands [OF assms(1)] assms(2) e(2) by (auto simp: valid_nonces_def)
  ultimately show ?thesis by (simp add: nonces_shrink_def Let_def F'_def)
qed

lemma nonce_inv_shrink:
  assumes "nonce_inv H w" "nonces_shrink H (w_failed w) (ns_journal (w_st w)) (ns_journal st')" "jok (ns_journal st')"
    and "set lv \<subseteq> set (w_live w)" "distinct (map le_addr lv)" "set op \<subseteq> set (w_open w)" "set op \<subseteq> set lv" "distinct op"
    and "le_addr ` set lv \<subseteq> ns_held st'"
  shows "nonce_inv H (world_with st' lv op w)"
proof -
  let ?f = "ns_journal (w_st w)" and ?f' = "ns_journal st'" and ?F = "w_failed w" and ?F' = "w_failed w \<union> failed_ids (ns_journal st')"
  have s: "re_Nonce ` clean H ?F' a ?f' \<subseteq> re_Nonce ` clean H ?F a ?f" for a using assms(2) by (simp add: nonces_shrink_def Let_def)
  have "distinct_nonces H ?F' ?f'" "valid_nonces ?f'"
    using assms(1,2) by (auto simp: nonces_shrink_def nonce_inv_def distinct_nonces_def Let_def)
  moreover have "re_Nonce r < le_nonce l" if l: "l \<in> set op" and r: "r \<in> clean H ?F' (le_addr l) ?f'" for l r
  proof -
    obtain q where "q \<in> clean H ?F (le_addr l) ?f" "re_Nonce q = re_Nonce r" using s [of "le_addr l"] r by force
    thus ?thesis using assms(1,6) l by (fastforce simp: nonce_inv_def)
  qed
  ultimately show ?thesis using assms by (auto simp: nonce_inv_def)
qed

lemma distinct_remove1_addr: "distinct (map le_addr ls) \<Longrightarrow> distinct (map le_addr (remove1 l ls))"
  by (auto simp: distinct_map intro: inj_on_subset dest: set_remove1_subset [THEN subsetD])

lemma remove1_addr: "distinct (map le_addr ls) \<Longrightarrow> l \<in> set ls \<Longrightarrow> le_addr l \<notin> le_addr ` set (remove1 l ls)"
  by (auto simp: distinct_map set_remove1_eq dest: inj_onD)

lemma nonce_inv_end:
  assumes "nonce_inv H w" "l \<in> set (w_live w)" "ns_journal st' = ns_journal (w_st w)" "ns_held st' = ns_held (w_st w) - {le_addr l}"
  shows "nonce_inv H (world_with st' (remove1 l (w_live w)) (remove1 l (w_open w)) w)"
proof (rule nonce_inv_shrink [OF assms(1)])
  have d: "distinct (map le_addr (w_live w))" "distinct (w_open w)" "set (w_open w) \<subseteq> set (w_live w)"
    using assms(1) by (auto simp: nonce_inv_def)
  show "distinct (map le_addr (remove1 l (w_live w)))" using d(1) by (rule distinct_remove1_addr)
  show "set (remove1 l (w_open w)) \<subseteq> set (remove1 l (w_live w))" using d by (auto simp: distinct_map)
  show "le_addr ` set (remove1 l (w_live w)) \<subseteq> ns_held st'"
  proof -
    have "le_addr ` set (remove1 l (w_live w)) \<subseteq> le_addr ` set (w_live w)" by (intro image_mono set_remove1_subset)
    moreover have "le_addr ` set (w_live w) \<subseteq> ns_held (w_st w)" using assms(1) by (simp add: nonce_inv_def)
    ultimately have "le_addr ` set (remove1 l (w_live w)) \<subseteq> ns_held (w_st w)" by (rule subset_trans)
    thus ?thesis unfolding assms(4) using remove1_addr [OF d(1) assms(2)] by (simp add: subset_Diff_insert)
  qed
  show "distinct (remove1 l (w_open w))" using d(2) by simp
  show "nonces_shrink H (w_failed w) (ns_journal (w_st w)) (ns_journal st')"
    using assms(1) by (intro nonces_shrink_refl) (simp_all add: assms(3) nonce_inv_def)
  show "jok (ns_journal st')" using assms(1,3) by (simp add: nonce_inv_def)
qed (rule set_remove1_subset)+

lemma nonce_inv_journal:
  assumes inv: "nonce_inv H w" and l: "l \<in> set (w_open w)"
    and r: "H (re_From r) = le_addr l" "re_Nonce r = le_nonce l" "jlookup (ns_journal (w_st w)) (re_ID r) = None"
    and ld: "lands r (ns_journal (w_st w)) f'"
  shows "nonce_inv H (world_with ((w_st w)\<lparr>ns_journal := f'\<rparr>) (w_live w) (remove1 l (w_open w)) w)"
proof -
  let ?f = "ns_journal (w_st w)" and ?F = "w_failed w" and ?F' = "w_failed w \<union> failed_ids f'"
  have fi: "failed_ids ?f \<subseteq> ?F" and ne: "re_Nonce r \<noteq> - 1" and lt: "\<forall>q \<in> clean H ?F (le_addr l) ?f. re_Nonce q < re_Nonce r"
    using inv l r(2) by (auto simp: nonce_inv_def)
  have c: "clean H ?F' addr f' \<subseteq> clean H ?F addr ?f \<union> (if addr = le_addr l then {r} else {})" for addr
    using r(1) by (auto simp: clean_def consumed_lands [OF ld, of H addr] split: if_splits)
  have "inj_on re_Nonce (clean H ?F addr ?f \<union> (if addr = le_addr l then {r} else {}))" for addr
    using inv lt unfolding nonce_inv_def distinct_nonces_def by (auto simp: inj_on_def)
  hence dn: "distinct_nonces H ?F' f'" using c by (auto simp: distinct_nonces_def intro: inj_on_subset)
  have vn: "valid_nonces f'" using inv ne by (auto simp: nonce_inv_def intro: valid_lands [OF ld])
  have other: "l' \<in> set (remove1 l (w_open w)) \<Longrightarrow> l' \<in> set (w_open w) \<and> le_addr l' \<noteq> le_addr l" for l'
    using inv l by (auto simp: nonce_inv_def distinct_map dest: inj_onD)
  have "re_Nonce q < le_nonce l'" if "l' \<in> set (remove1 l (w_open w))" "q \<in> clean H ?F' (le_addr l') f'" for l' q
  proof -
    have "q \<in> clean H ?F (le_addr l') ?f" using c [of "le_addr l'"] that(2) other [OF that(1)] by auto
    thus ?thesis using inv other [OF that(1)] by (auto simp: nonce_inv_def)
  qed
  moreover have "distinct (remove1 l (w_open w))" using inv by (simp add: nonce_inv_def)
  moreover have "set (remove1 l (w_open w)) \<subseteq> set (w_live w)" using inv other by (auto simp: nonce_inv_def)
  moreover have "jok f'" using ld by (simp add: lands_def)
  ultimately show ?thesis using inv dn vn other by (auto simp: nonce_inv_def)
qed

lemma nonce_inv_stays:
  assumes "nonce_inv H w" "nonces_shrink H (w_failed w) (ns_journal (w_st w)) (ns_journal st')" "jok (ns_journal st')"
    "ns_held st' = ns_held (w_st w)" "set op \<subseteq> set (w_open w)" "distinct op"
  shows "nonce_inv H (world_with st' (w_live w) op w)"
  using nonce_inv_shrink [OF assms(1-3), of "w_live w" op] assms by (auto simp: nonce_inv_def)

lemma nonce_inv_acquire:
  assumes inv: "nonce_inv H w" and a: "AcquireNonce H ne c addr pend None (w_st w) = (Inr l, st')" and n: "le_nonce l \<noteq> - 1"
  shows "nonce_inv H (world_with st' (l # w_live w) (l # w_open w) w)"
proof -
  let ?f = "ns_journal (w_st w)"
  obtain jn b ln p where j: "journalNext H (ne_jlock ne) addr ?f = Inr (jn, b)"
    "le_nonce l = max pend (max ln jn)" and s: "le_addr l = addr" "le_finished l = False" "addr \<notin> ns_held (w_st w)"
      "ns_held st' = insert addr (ns_held (w_st w))" "ns_journal st' = ?f"
    using AcquireNonce_unforced [OF a] by metis
  have ok: "jok ?f" "\<forall>r \<in> consumed H addr ?f. re_Nonce r \<noteq> - 1" and F: "w_failed w \<union> failed_ids ?f = w_failed w"
    using inv valid_consumed [of ?f H addr] by (auto simp: nonce_inv_def)
  have "r \<in> consumed H addr ?f \<Longrightarrow> re_Nonce r < jn" for r
    using journalNext_spec [OF ok(1) j(1) ok(2)] by blast
  hence "r \<in> clean H (w_failed w) addr ?f \<Longrightarrow> re_Nonce r < le_nonce l" for r
    unfolding j(2) by (simp add: less_max_iff_disj clean_def)
  moreover have "l \<notin> set (w_live w)" "addr \<notin> le_addr ` set (w_live w)" using inv s by (auto simp: nonce_inv_def)
  ultimately show ?thesis using inv s n F by (auto simp: nonce_inv_def)
qed

lemma nonce_inv_step: "send_step H Hex w w' \<Longrightarrow> nonce_inv H w \<Longrightarrow> nonce_inv H w'"
proof (induction rule: send_step.induct)
  case (acquire ne c addr pend w l st')
  show ?case by (rule nonce_inv_acquire [OF acquire.prems acquire.hyps])
next
  case (refused ne c addr pend forced w e st')
  hence "st' = w_st w"
    by (auto simp: AcquireNonce_def Let_def split: option.splits sum.splits prod.splits if_splits)
  thus ?case using refused.prems by (intro nonce_inv_stays) (auto simp: nonce_inv_def intro!: nonces_shrink_refl)
next
  case (journal l w r je res f')
  let ?f = "ns_journal (w_st w)"
  have ok: "jok ?f" "distinct (w_open w)" "failed_ids ?f \<subseteq> w_failed w" using journal.prems by (auto simp: nonce_inv_def)
  from Append_lands [OF ok(1) journal.hyps(6,7)] show ?case
  proof
    assume "unchanged ?f f' \<and> (\<exists>e. res = Inl e)"
    hence u: "unchanged ?f f'" ..
    show ?thesis using journal.prems unchanged_facts [OF u] ok nonces_shrink_refl [OF lookup_unchanged [OF u] ok(3)]
      by (intro nonce_inv_stays) (auto dest: set_remove1_subset [THEN subsetD])
  next
    assume "\<exists>i. (re_ID r \<noteq> [] \<longrightarrow> i = re_ID r) \<and> (re_ID r = [] \<longrightarrow> je_id je = Some i)
      \<and> lands (stamped je i r ?f) ?f f' \<and> (\<forall>x. res = Inr x \<longrightarrow> x = stamped je i r ?f)"
    hence "lands (stamped je (re_ID r) r ?f) ?f f'" using journal.hyps(4) by auto
    thus ?thesis using journal.hyps(1-3,5)
      by (intro nonce_inv_journal [OF journal.prems journal.hyps(1), of "stamped je (re_ID r) r ?f"])
         (simp_all add: stamped_def)
  qed
next
  case (transition w je i mut res f')
  let ?f = "ns_journal (w_st w)"
  have ok: "jok ?f" "distinct (w_open w)" "failed_ids ?f \<subseteq> w_failed w" using transition.prems by (auto simp: nonce_inv_def)
  have "jok f' \<and> nonces_shrink H (w_failed w) ?f f'"
    using SetState_lands [OF ok(1) transition.hyps(1,2)]
  proof
    assume "unchanged ?f f' \<and> (\<exists>e. res = Inl e)"
    hence u: "unchanged ?f f'" ..
    show ?thesis using unchanged_facts [OF u] nonces_shrink_refl [OF lookup_unchanged [OF u] ok(3)] by simp
  next
    assume "\<exists>p. jlookup ?f i = Some p \<and> lands (moved je mut p ?f) ?f f' \<and> (\<forall>x. res = Inr x \<longrightarrow> x = moved je mut p ?f)"
    then obtain p where "jlookup ?f i = Some p" "lands (moved je mut p ?f) ?f f'" by blast
    thus ?thesis using nonces_shrink_moved [of je mut p ?f f' i] ok(3) by (auto simp: lands_def)
  qed
  thus ?case using transition.prems ok(2) by (intro nonce_inv_stays) simp_all
next
  case (commit l w ne res l' st')
  hence "ns_journal st' = ns_journal (w_st w)" "ns_held st' = ns_held (w_st w) - {le_addr l}"
    by (auto simp: Lease_Commit_def writeCache_def unlock_def nonce_inv_def split: if_splits writefault.splits)
  thus ?case by (rule nonce_inv_end [OF commit.prems commit.hyps(1)])
next
  case (release l w res l' st')
  hence "ns_journal st' = ns_journal (w_st w)" "ns_held st' = ns_held (w_st w) - {le_addr l}"
    by (auto simp: Lease_Release_def unlock_def nonce_inv_def split: if_splits)
  thus ?case by (rule nonce_inv_end [OF release.prems release.hyps(1)])
next
  case (reset ne c addr w res st')
  hence "ns_journal st' = ns_journal (w_st w)" "ns_held st' = ns_held (w_st w)"
    by (auto simp: ResetCache_def writeCache_def split: option.splits sum.splits prod.splits writefault.splits)
  thus ?case using reset.prems by (intro nonce_inv_stays) (auto simp: nonce_inv_def intro!: nonces_shrink_refl)
qed

text \<open>No lease is alive, and the journal is one that sends can have left.\<close>

definition idle :: "(string \<Rightarrow> 'a) \<Rightarrow> 'a world \<Rightarrow> bool" where
  "idle H w \<longleftrightarrow> jok (ns_journal (w_st w)) \<and> failed_ids (ns_journal (w_st w)) \<subseteq> w_failed w
     \<and> distinct_nonces H (w_failed w) (ns_journal (w_st w)) \<and> valid_nonces (ns_journal (w_st w)) \<and> w_live w = [] \<and> w_open w = []"

lemma nonce_inv_reachable: "(send_step H Hex)\<^sup>*\<^sup>* w w' \<Longrightarrow> nonce_inv H w \<Longrightarrow> nonce_inv H w'"
  by (induction rule: rtranclp_induct) (auto intro: nonce_inv_step)

text \<open>C2. A nonce is used again only after its transaction was written off: after any interleaving of unforced acquisitions,
  journal appends, state transitions of any kind, commits, releases and cache resets by any number of processes, with
  any faults on the way, two different records of one account with the same nonce exist only if one of them was \<open>failed\<close> in some
  state of the run (it may have left that state since: a written-off transaction that is mined after all is recorded as
  confirmed, one whose nonce was reused as replaced); the nonce of a lease that has yet to journal is that of no record of its account
  except such ones; and no account has two live leases.\<close>

theorem no_shared_nonce:
  assumes "idle H w0" "(send_step H Hex)\<^sup>*\<^sup>* w0 w"
    and "ByID LockOK i (ns_journal (w_st w)) = Inr r" "ByID LockOK k (ns_journal (w_st w)) = Inr q" "i \<noteq> k"
    and "H (re_From r) = H (re_From q)" "i \<notin> w_failed w" "k \<notin> w_failed w"
  shows "re_Nonce r \<noteq> re_Nonce q \<and> (\<forall>l \<in> set (w_open w). le_addr l = H (re_From r) \<longrightarrow> re_Nonce r \<noteq> le_nonce l)
    \<and> distinct (map le_addr (w_live w))"
proof -
  have "nonce_inv H w0" using assms(1) by (simp add: idle_def nonce_inv_def)
  hence inv: "nonce_inv H w" using assms(2) by (rule nonce_inv_reachable [rotated])
  let ?f = "ns_journal (w_st w)" and ?F = "w_failed w"
  have j: "jlookup ?f i = Some r" "jlookup ?f k = Some q" and F: "failed_ids ?f \<subseteq> ?F"
    using inv assms(3,4) by (auto simp: nonce_inv_def ByID_jlookup split: option.splits)
  moreover from this have id: "re_ID r = i" "re_ID q = k" by (auto dest: jlookup_ID)
  moreover have "re_Status r \<noteq> StatusFailed" "re_Status q \<noteq> StatusFailed" using j F assms(7,8) by (auto simp: failed_ids_def)
  ultimately have c: "r \<in> clean H ?F (H (re_From r)) ?f" "q \<in> clean H ?F (H (re_From r)) ?f" "r \<noteq> q"
    using assms(5-8) by (auto simp: clean_def consumed_def consumesNonce_def)
  hence "re_Nonce r \<noteq> re_Nonce q" using inv by (auto simp: nonce_inv_def distinct_nonces_def dest: inj_onD)
  moreover have "re_Nonce r \<noteq> le_nonce l" if "l \<in> set (w_open w)" "le_addr l = H (re_From r)" for l
    using inv that c(1) by (fastforce simp: nonce_inv_def)
  ultimately show ?thesis using inv by (simp add: nonce_inv_def)
qed

definition demo_world :: "string world" where
  "demo_world = \<lparr>w_st = demo_nstate, w_live = [], w_open = [], w_failed = {}\<rparr>"

lemma demo_lookup_cases:
  assumes "jlookup demo_journal i = Some r"
  shows "r = demo_record ''A'' 3 7 StatusBroadcast \<or> r = demo_record ''B'' 2 8 StatusSigned"
proof -
  have "(i, r) \<in> set (foldLatest (recs_of demo_journal))" using assms by (simp add: jlookup_def map_of_SomeD)
  hence "r \<in> set (map snd (foldLatest (recs_of demo_journal)))" by force
  thus ?thesis unfolding demo_latest by simp
qed

lemma demo_failed: "failed_ids demo_journal = {}"
  using demo_lookup_cases by (force simp: failed_ids_def demo_record_def)

lemma demo_idle: "idle (\<lambda>s. s) demo_world"
proof -
  have c: "clean (\<lambda>s. s) {} addr (ns_journal demo_nstate) \<subseteq> {demo_record ''A'' 3 7 StatusBroadcast, demo_record ''B'' 2 8 StatusSigned}" for addr
    unfolding clean_def demo_nstate_def consumed_fold nstate.simps demo_latest by auto
  have "inj_on re_Nonce {demo_record ''A'' 3 7 StatusBroadcast, demo_record ''B'' 2 8 StatusSigned}" by (simp add: demo_record_def)
  hence "inj_on re_Nonce (clean (\<lambda>s. s) {} addr (ns_journal demo_nstate))" for addr using c by (rule inj_on_subset)
  hence "distinct_nonces (\<lambda>s. s) {} (ns_journal demo_nstate)" unfolding distinct_nonces_def ..
  moreover have "valid_nonces (ns_journal demo_nstate)"
    using demo_lookup_cases by (force simp: valid_nonces_def demo_nstate_def demo_record_def)
  ultimately show ?thesis using demo_nstate_ok by (simp add: idle_def demo_world_def) (simp add: demo_nstate_def demo_failed)
qed

theorem no_shared_nonce_witness:
  "\<exists>w. send_step (\<lambda>s. s) (\<lambda>s. s) demo_world w \<and> w_open w \<noteq> [] \<and> distinct (map le_addr (w_live w))
     \<and> re_Nonce (demo_record ''A'' 3 7 StatusBroadcast) \<noteq> re_Nonce (demo_record ''B'' 2 8 StatusSigned)
     \<and> (\<forall>l \<in> set (w_open w). le_addr l = ''0xaa'' \<longrightarrow> re_Nonce (demo_record ''A'' 3 7 StatusBroadcast) \<noteq> le_nonce l)"
proof -
  let ?l = "\<lparr>le_nonce = 9, le_chainID = 1, le_addr = ''0xaa'', le_finished = False\<rparr>"
  let ?w = "world_with (demo_nstate\<lparr>ns_held := {''0xaa''}\<rparr>) [?l] [?l] demo_world"
  have "send_step (\<lambda>s. s) (\<lambda>s. s) demo_world (world_with (demo_nstate\<lparr>ns_held := {''0xaa''}\<rparr>) (?l # w_live demo_world) (?l # w_open demo_world) demo_world)"
    by (rule send_step.acquire [where ne = calm_nenv and c = 1 and addr = "''0xaa''" and pend = 3])
       (simp_all add: demo_world_def demo_acquire)
  hence s: "send_step (\<lambda>s. s) (\<lambda>s. s) demo_world ?w" by (simp add: demo_world_def)
  hence t: "(send_step (\<lambda>s. s) (\<lambda>s. s))\<^sup>*\<^sup>* demo_world ?w" by (rule r_into_rtranclp)
  have b: "ByID LockOK ''A'' demo_journal = Inr (demo_record ''A'' 3 7 StatusBroadcast)"
    "ByID LockOK ''B'' demo_journal = Inr (demo_record ''B'' 2 8 StatusSigned)"
    by (simp_all add: ByID_jlookup [OF demo_ok(1)], simp_all add: journal_eval)
  have f: "w_failed ?w = {}" by (simp add: demo_nstate_def demo_failed) (simp add: demo_world_def)
  have n: "''A'' \<notin> w_failed ?w" "''B'' \<notin> w_failed ?w" unfolding f by simp_all
  have a: "re_From (demo_record ''A'' 3 7 StatusBroadcast) = ''0xaa''" "re_From (demo_record ''B'' 2 8 StatusSigned) = ''0xaa''"
    by (simp_all add: demo_record_def)
  have j: "ns_journal (w_st ?w) = demo_journal" by (simp add: demo_nstate_def)
  note fact = no_shared_nonce [OF demo_idle t, unfolded j, OF b _ _ n]
  have "re_Nonce (demo_record ''A'' 3 7 StatusBroadcast) \<noteq> re_Nonce (demo_record ''B'' 2 8 StatusSigned)
      \<and> (\<forall>l \<in> set (w_open ?w). le_addr l = re_From (demo_record ''A'' 3 7 StatusBroadcast) \<longrightarrow> re_Nonce (demo_record ''A'' 3 7 StatusBroadcast) \<noteq> le_nonce l)
      \<and> distinct (map le_addr (w_live ?w))"
    by (rule fact) (simp_all add: a)
  thus ?thesis using s unfolding a(1) by (intro exI [of _ ?w]) simp
qed

end
