(* ===== verification/Hex_Bytes.thy ===== *)
theory Hex_Bytes
  imports Daxie_Prelude "HOL-Library.Word"
begin

text \<open>
  Byte strings and their hexadecimal text: \<open>hexBytes\<close> (\<open>internal/service/tx.go\<close>), \<open>decodeHex\<close> and \<open>hexVal\<close>
  (\<open>internal/service/txstatus.go\<close>), the encoding of the raw transaction a journal record keeps.
\<close>

type_synonym bytes = "8 word list"

section \<open>Hexadecimal text\<close>

unbundle bit_operations_syntax

definition hexdigits :: string where
  "hexdigits = ''0123456789abcdef''"

definition hexByte :: "8 word \<Rightarrow> string" where
  "hexByte c = [hexdigits ! unat (drop_bit 4 c), hexdigits ! unat (c AND 15)]"

definition hexBytes :: "bytes \<Rightarrow> string" where
  "hexBytes b = ''0x'' @ concat (map hexByte b)"

definition hexVal :: "char \<Rightarrow> (8 word) option" where
  "hexVal c = (let n = of_char c :: nat in
     if 48 \<le> n \<and> n \<le> 57 then Some (of_nat (n - 48))
     else if 97 \<le> n \<and> n \<le> 102 then Some (of_nat (n - 97 + 10))
     else if 65 \<le> n \<and> n \<le> 70 then Some (of_nat (n - 65 + 10)) else None)"

fun decode_pairs :: "string \<Rightarrow> bytes option" where
  "decode_pairs [] = Some []"
| "decode_pairs [_] = None"
| "decode_pairs (a # b # s) = (case (hexVal a, hexVal b) of
     (Some hi, Some lo) \<Rightarrow> map_option (\<lambda>r. (push_bit 4 hi OR lo) # r) (decode_pairs s) | _ \<Rightarrow> None)"

text \<open>\<open>decodeHex\<close> looks only at the second character to recognise a prefix.\<close>

definition decodeHex :: "string \<Rightarrow> bytes option" where
  "decodeHex s = decode_pairs (if length s \<ge> 2 \<and> (s ! 1 = CHR ''x'' \<or> s ! 1 = CHR ''X'') then drop 2 s else s)"

section \<open>Lemmas: hexadecimal text\<close>

lemma hexVal_digit: "n < 16 \<Longrightarrow> hexVal (hexdigits ! n) = Some (of_nat n)"
proof -
  have "list_all (\<lambda>n. hexVal (hexdigits ! n) = Some (of_nat n)) [0..<16]" by code_simp
  thus "n < 16 \<Longrightarrow> hexVal (hexdigits ! n) = Some (of_nat n)" by (simp add: list_all_iff)
qed

lemma nibbles:
  fixes c :: "8 word"
  shows "unat (drop_bit 4 c) < 16" "unat (c AND 15) < 16" "push_bit 4 (drop_bit 4 c) OR (c AND 15) = c"
proof -
  have m: "(15 :: 8 word) = mask 4" by (simp add: mask_eq_exp_minus_1)
  have "unat c < 256" using unsigned_less [of c] by simp
  thus "unat (drop_bit 4 c) < 16" by (simp add: drop_bit_eq_div unat_div)
  show "unat (c AND 15) < 16" unfolding m
    by (simp add: take_bit_eq_mask [symmetric] unsigned_take_bit_eq) (simp add: take_bit_eq_mod)
  show "push_bit 4 (drop_bit 4 c) OR (c AND 15) = c" unfolding m
    by (rule bit_word_eqI) (auto simp: bit_simps)
qed

lemma decode_hexByte: "decode_pairs (hexByte c @ s) = map_option ((#) c) (decode_pairs s)"
  using nibbles [of c] by (simp add: hexByte_def hexVal_digit)

lemma decode_hexBytes: "decodeHex (hexBytes b) = Some b"
proof -
  have "decode_pairs (concat (map hexByte b)) = Some b" by (induction b) (auto simp: decode_hexByte)
  thus ?thesis by (simp add: decodeHex_def hexBytes_def)
qed

text \<open>The raw transaction journaled at signing is the one recovered: \<open>decodeHex\<close> reads back exactly the bytes that
  \<open>hexBytes\<close> wrote, for every byte string.\<close>

lemma hex_roundtrip: "decodeHex (hexBytes b) = Some b"
  by (rule decode_hexBytes)

end
