(* ===== verification/Tx_Result.thy ===== *)
theory Tx_Result
  imports Journal Gas Hex_Bytes Policy_Types
begin

text \<open>
  The wire results of a transaction (\<open>domain/tx_requests.go\<close>) and their projections from a gas quote
  (\<open>service/gas.go\<close>) and from a journal record (\<open>service/txstatus.go\<close>, \<open>service/tx.go\<close>).
\<close>

datatype TxStatus = TxPending | TxConfirmed | TxReverted | TxReplaced | TxTimeout

record Dest =
  ds_Address :: address
  ds_Name :: string
  ds_Via :: string
  ds_ENSName :: string

record Classification =
  cl_ClassifiedAs :: string
  cl_Spender :: string
  cl_Recipient :: string
  cl_Unlimited :: bool
  cl_Selector :: string
  cl_Contract :: string

fun Speed_String :: "Speed \<Rightarrow> string" where
  "Speed_String SpeedSlow = ''slow''"
| "Speed_String SpeedNormal = ''normal''"
| "Speed_String SpeedFast = ''fast''"

record GasResult =
  gr_Legacy :: bool
  gr_GasLimit :: "64 word"
  gr_MaxFeePerGas :: string
  gr_PriorityFee :: string
  gr_GasPrice :: string
  gr_BaseFee :: string
  gr_Speed :: string
  gr_Source :: string
  gr_WorstCaseGasWei :: string

definition or_empty :: "int option \<Rightarrow> string" where
  "or_empty v = (case v of None \<Rightarrow> [] | Some x \<Rightarrow> int_dec x)"

definition Quote_result :: "Quote \<Rightarrow> GasResult" where
  "Quote_result q = \<lparr>gr_Legacy = Legacy q, gr_GasLimit = GasLimit q,
     gr_MaxFeePerGas = (if Legacy q then [] else or_empty (MaxFeePerGas q)),
     gr_PriorityFee = (if Legacy q then [] else or_empty (PriorityFee q)),
     gr_GasPrice = (if Legacy q then or_empty (GasPrice q) else []),
     gr_BaseFee = or_empty (BaseFee q), gr_Speed = Speed_String (q_Speed q), gr_Source = q_Source q,
     gr_WorstCaseGasWei = or_empty (WorstCaseGasWei q)\<rparr>"

definition gasResultFromFees :: "JFees \<Rightarrow> GasResult" where
  "gasResultFromFees f = (let text = (\<lambda>s. case s of None \<Rightarrow> [] | Some t \<Rightarrow> t) in
     \<lparr>gr_Legacy = (jf_Type f = ''legacy''), gr_GasLimit = jf_GasLimit f, gr_MaxFeePerGas = text (jf_MaxFeePerGas f),
      gr_PriorityFee = text (jf_MaxPriorityPerGas f), gr_GasPrice = text (jf_GasPrice f), gr_BaseFee = [],
      gr_Speed = jf_Speed f, gr_Source = [], gr_WorstCaseGasWei = []\<rparr>)"

record wAsset =
  wa_Kind :: string
  wa_Symbol :: string
  wa_Contract :: string
  wa_Decimals :: "int option"

definition wireAsset :: "Asset \<Rightarrow> string \<Rightarrow> wAsset" where
  "wireAsset a symbol = \<lparr>wa_Kind = as_Kind a, wa_Symbol = symbol,
     wa_Contract = (case as_Contract a of None \<Rightarrow> [] | Some c \<Rightarrow> c), wa_Decimals = as_Decimals a\<rparr>"

record TxResult =
  tr_Hash :: string
  tr_Network :: string
  tr_From :: address
  tr_To :: Dest
  tr_Asset :: wAsset
  tr_AmountWei :: string
  tr_Nonce :: "64 word"
  tr_Gas :: GasResult
  tr_Status :: TxStatus
  tr_Confirmations :: "64 word"
  tr_BlockNumber :: "(64 word) option"
  tr_JournalID :: string
  tr_Resume :: string
  tr_Replaced :: string
  tr_DryRun :: bool
  tr_Classification :: "Classification option"

text \<open>A \<open>TxResult\<close> with every field at its zero value, except the status, which every user sets.\<close>

definition zero_result :: TxResult where
  "zero_result = \<lparr>tr_Hash = [], tr_Network = [], tr_From = zero_address,
     tr_To = \<lparr>ds_Address = zero_address, ds_Name = [], ds_Via = [], ds_ENSName = []\<rparr>,
     tr_Asset = \<lparr>wa_Kind = [], wa_Symbol = [], wa_Contract = [], wa_Decimals = None\<rparr>, tr_AmountWei = [], tr_Nonce = 0,
     tr_Gas = \<lparr>gr_Legacy = False, gr_GasLimit = 0, gr_MaxFeePerGas = [], gr_PriorityFee = [], gr_GasPrice = [],
       gr_BaseFee = [], gr_Speed = [], gr_Source = [], gr_WorstCaseGasWei = []\<rparr>,
     tr_Status = TxPending, tr_Confirmations = 0, tr_BlockNumber = None, tr_JournalID = [], tr_Resume = [],
     tr_Replaced = [], tr_DryRun = False, tr_Classification = None\<rparr>"

definition wireStatus :: "Status \<Rightarrow> TxStatus" where
  "wireStatus st = (case st of StatusConfirmed \<Rightarrow> TxConfirmed | StatusReverted \<Rightarrow> TxReverted
     | StatusReplaced \<Rightarrow> TxReplaced | _ \<Rightarrow> TxPending)"

definition recordResult :: "(string \<Rightarrow> address) \<Rightarrow> Record option \<Rightarrow> string \<Rightarrow> string \<Rightarrow> TxResult" where
  "recordResult HexToAddress rec network hash =
    (let res = zero_result\<lparr>tr_Hash := hash, tr_Network := network, tr_Status := TxPending\<rparr> in
     case rec of None \<Rightarrow> res
     | Some r \<Rightarrow> res\<lparr>tr_From := HexToAddress (re_From r),
         tr_To := \<lparr>ds_Address = HexToAddress (re_To r), ds_Name = [], ds_Via = [], ds_ENSName = []\<rparr>,
         tr_Asset := wireAsset (re_Asset r) [], tr_AmountWei := re_ValueWei r, tr_Nonce := re_Nonce r,
         tr_JournalID := re_ID r, tr_Gas := gasResultFromFees (re_Fees r), tr_Status := wireStatus (re_Status r),
         tr_Replaced := (if re_ReplacedBy r \<noteq> None then re_TxHash r else [])\<rparr>)"

record TxRow =
  row_JournalID :: string
  row_Hash :: string
  row_Kind :: string
  row_Status :: Status
  row_From :: string
  row_To :: string
  row_Nonce :: "64 word"
  row_ValueWei :: string
  row_TS :: "int option"
  row_Network :: string
  row_Replaces :: string
  row_ReplacedBy :: string

definition txRow :: "Record \<Rightarrow> TxRow" where
  "txRow r = \<lparr>row_JournalID = re_ID r, row_Hash = re_TxHash r, row_Kind = re_Kind r, row_Status = re_Status r,
     row_From = re_From r, row_To = re_To r, row_Nonce = re_Nonce r, row_ValueWei = re_ValueWei r, row_TS = re_TS r,
     row_Network = re_Network r, row_Replaces = (case re_Replaces r of None \<Rightarrow> [] | Some h \<Rightarrow> h),
     row_ReplacedBy = (case re_ReplacedBy r of None \<Rightarrow> [] | Some h \<Rightarrow> h)\<rparr>"

text \<open>A transaction hash is \<open>0x\<close> and 64 characters; the digits themselves are left to \<open>common.HexToHash\<close>.\<close>

definition parseHash :: "(string \<Rightarrow> string) \<Rightarrow> string \<Rightarrow> string result" where
  "parseHash HexToHash s = (if length s < 2 \<or> s ! 0 \<noteq> CHR ''0'' \<or> (s ! 1 \<noteq> CHR ''x'' \<and> s ! 1 \<noteq> CHR ''X'')
     then Inl (New ''usage.bad_hash'')
     else if length s \<noteq> 66 then Inl (New ''usage.bad_hash'') else Inr (HexToHash s))"

section \<open>Resolved assets\<close>

record resolvedAsset =
  rv_contract :: address
  rv_decimals :: nat
  rv_kind :: string
  rv_alias :: string
  rv_symbol :: string
  rv_bundled :: bool

record resolvedNFT =
  rn_collection :: address
  rn_kind :: string
  rn_tokenID :: string
  rn_collectionAlias :: string
  rn_nftAlias :: string

end
