(* ===== verification/Tx_Recover.thy ===== *)
theory Tx_Recover
  imports Nonce Policy_Lifecycle Tx_Result
begin

text \<open>
  Recovery in the service layer: the shared rebroadcast helper and the resurrection of unresolved records
  (\<open>internal/service/txstatus.go\<close>), the observation of a transaction, the restart reconciliation of
  orphaned reservations and the operator's abandon (\<open>internal/service/reconcile.go\<close>).

  The state joins the policy engine, the journal and nonce state of every chain, and the raw
  transactions handed to a node so far, per chain.  An address is its checksummed hex text, so
  go-ethereum's \<open>Address.Hex\<close> is the identity; \<open>common.HexToAddress\<close> and \<open>common.HexToHash(s).Hex()\<close> are
  arguments.  What the node answers, and what each lock and write does, is in the environment.
\<close>

section \<open>State\<close>

record kstate =
  ks_engine :: engine
  ks_chain :: "64 word \<Rightarrow> address nstate"
  ks_sent :: "(64 word \<times> bytes) list"

record Receipt =
  rc_BlockNumber :: "64 word"
  rc_BlockHash :: string
  rc_GasUsed :: "64 word"
  rc_EffectiveGasPrice :: "int option"
  rc_Status :: "64 word"

text \<open>\<open>Inr None\<close> is the adapter's \<open>ErrTxNotFound\<close>.\<close>

type_synonym receipt_answer = "goerr + Receipt option"

section \<open>Receipts\<close>

definition actualGas :: "Receipt option \<Rightarrow> int" where
  "actualGas r = (case r of None \<Rightarrow> 0 | Some r \<Rightarrow>
     (case rc_EffectiveGasPrice r of None \<Rightarrow> 0 | Some p \<Rightarrow> uint (rc_GasUsed r) * p))"

definition journalReceipt :: "Receipt option \<Rightarrow> JReceipt option" where
  "journalReceipt r = map_option (\<lambda>r. \<lparr>jr_BlockNumber = rc_BlockNumber r, jr_BlockHash = rc_BlockHash r,
     jr_GasUsed = rc_GasUsed r, jr_EffectiveGasPrice = (case rc_EffectiveGasPrice r of None \<Rightarrow> ''0'' | Some p \<Rightarrow> int_dec p),
     jr_Status = rc_Status r\<rparr>) r"

section \<open>Helpers on the state\<close>

definition no_mutation :: StateMutation where
  "no_mutation = \<lparr>sm_Status = None, sm_TxHash = None, sm_Receipt = None, sm_ReplacedBy = None,
     sm_Replaces = None, sm_Error = None, sm_ReservationID = None\<rparr>"

definition journal_of :: "kstate \<Rightarrow> 64 word \<Rightarrow> journal" where
  "journal_of k c = ns_journal (ks_chain k c)"

definition set_journal :: "64 word \<Rightarrow> journal \<Rightarrow> kstate \<Rightarrow> kstate" where
  "set_journal c f k = k\<lparr>ks_chain := (ks_chain k)(c := (ks_chain k c)\<lparr>ns_journal := f\<rparr>)\<rparr>"

definition jSetState :: "jenv \<Rightarrow> 64 word \<Rightarrow> string \<Rightarrow> StateMutation \<Rightarrow> kstate \<Rightarrow> (jerr + unit) \<times> kstate" where
  "jSetState je c i mut k = (case SetState je i mut (journal_of k c) of
     (res, f) \<Rightarrow> (map_sum id (\<lambda>_. ()) res, set_journal c f k))"

definition on_engine :: "(engine \<Rightarrow> 'a result \<times> engine) \<Rightarrow> kstate \<Rightarrow> (jerr + 'a) \<times> kstate" where
  "on_engine op k = (case op (ks_engine k) of (res, e) \<Rightarrow> (map_sum JErr id res, k\<lparr>ks_engine := e\<rparr>))"

definition send_raw :: "64 word \<Rightarrow> bytes \<Rightarrow> kstate \<Rightarrow> kstate" where
  "send_raw c raw k = k\<lparr>ks_sent := ks_sent k @ [(c, raw)]\<rparr>"

text \<open>The id of what \<open>Reserve\<close> returned; a permit reserves nothing and its zero value has the empty id.\<close>

definition reservation_id :: "Reservation option \<Rightarrow> string" where
  "reservation_id r = (case r of None \<Rightarrow> [] | Some r \<Rightarrow> rs_ID r)"

section \<open>Rebroadcast\<close>

text \<open>The environment of one rebroadcast: the receipt and mined-nonce queries, the active policy, the node's
  answer to the raw transaction (\<open>None\<close>: accepted), and the policy and journal calls.\<close>

record renv =
  rb_receipt :: receipt_answer
  rb_mined :: "goerr + 64 word"
  rb_pol :: "Policy option result"
  rb_reserve :: env
  rb_send :: "goerr option"
  rb_set :: jenv
  rb_commit :: env
  rb_release :: env

definition doRebroadcast :: "renv \<Rightarrow> Record \<Rightarrow> string \<Rightarrow> kstate \<Rightarrow> (jerr + unit) \<times> kstate" where
  "doRebroadcast re rec newID k = (case decodeHex (re_RawTx rec) of
       None \<Rightarrow> (Inl (JErr (New ''state.corrupt'')), k)
     | Some raw \<Rightarrow>
        (let k1 = send_raw (re_ChainID rec) raw k;
             record_it = jSetState (rb_set re) (re_ChainID rec) (re_ID rec)
               (no_mutation\<lparr>sm_Status := Some StatusBroadcast, sm_ReservationID := (if newID \<noteq> [] then Some newID else None)\<rparr>) in
         case rb_send re of
           None \<Rightarrow> record_it k1
         | Some e \<Rightarrow> if \<not> containsAny (lowerErr e) [''already known'', ''already exists'', ''alreadyknown'']
             then (Inl (JErr (mapRPCErr e)), k1) else record_it k1))"

definition rereserve_check :: "(string \<Rightarrow> address) \<Rightarrow> Record \<Rightarrow> Check" where
  "rereserve_check HexToAddress rec = zero_check\<lparr>ck_Account := HexToAddress (re_From rec), ck_Dest := HexToAddress (re_To rec),
     ck_SpendWei := Some (bigOrZero (re_ValueWei rec)), ck_MaxGasWei := Some (bigOrZero (re_WorstCaseGasWei rec)),
     ck_Kind := re_Kind rec, ck_IsRBFDelta := (re_Replaces rec \<noteq> None), ck_Network := re_Network rec,
     ck_Asset := as_Kind (re_Asset rec), ck_AccountNonce := Some (re_Nonce rec)\<rparr>"

definition rebroadcast_signed :: "(string \<Rightarrow> address) \<Rightarrow> (string \<Rightarrow> string) \<Rightarrow> renv \<Rightarrow> Record \<Rightarrow> kstate \<Rightarrow> (jerr + bool) \<times> kstate" where
  "rebroadcast_signed HexToAddress HexToHash re rec k =
    (case on_engine (Reserve (rb_pol re) (rb_reserve re) (rereserve_check HexToAddress rec)) k of
       (Inl e, k1) \<Rightarrow> (Inl e, k1)
     | (Inr r, k1) \<Rightarrow> (case doRebroadcast re rec (reservation_id r) k1 of
           (Inl e, k2) \<Rightarrow> (Inl e, snd (on_engine (Release (rb_release re) (reservation_id r)) k2))
         | (Inr _, k2) \<Rightarrow> (case on_engine (Commit (rb_commit re) (reservation_id r) (HexToHash (re_TxHash rec))) k2 of
               (Inl e, k3) \<Rightarrow> (Inl e, k3) | (Inr _, k3) \<Rightarrow> (Inr True, k3))))"

definition rebroadcast_riding :: "(string \<Rightarrow> string) \<Rightarrow> renv \<Rightarrow> Record \<Rightarrow> kstate \<Rightarrow> (jerr + bool) \<times> kstate" where
  "rebroadcast_riding HexToHash re rec k =
    (let ride = (\<lambda>k. case doRebroadcast re rec [] k of (Inl e, k') \<Rightarrow> (Inl e, k') | (Inr _, k') \<Rightarrow> (Inr True, k')) in
     if re_Status rec = StatusBroadcast \<and> re_ReservationID rec \<noteq> [] then
       (case Commit (rb_commit re) (re_ReservationID rec) (HexToHash (re_TxHash rec)) (ks_engine k) of
          (Inr _, en) \<Rightarrow> ride (k\<lparr>ks_engine := en\<rparr>)
        | (Inl e, en) \<Rightarrow>
           (let k1 = k\<lparr>ks_engine := en\<rparr> in
            if Code e = ''tx.integrity.reservation_missing'' then
              (Inl (JErr (New ''tx.integrity.reservation_missing'')),
               snd (jSetState (rb_set re) (re_ChainID rec) (re_ID rec) (no_mutation\<lparr>sm_Status := Some StatusFailed,
                 sm_Error := Some ''broadcast record's reservation vanished (counter-file tampering)''\<rparr>) k1))
            else (Inl (JErr e), k1)))
     else ride k)"

definition rebroadcast :: "(string \<Rightarrow> address) \<Rightarrow> (string \<Rightarrow> string) \<Rightarrow> renv \<Rightarrow> Record \<Rightarrow> kstate \<Rightarrow> (jerr + bool) \<times> kstate" where
  "rebroadcast HexToAddress HexToHash re rec k = (case rb_receipt re of
       Inl e \<Rightarrow> (Inl (JErr (mapRPCErr e)), k)
     | Inr (Some _) \<Rightarrow> (Inr False, k)
     | Inr None \<Rightarrow>
        if re_ReplacedBy rec \<noteq> None \<and> re_ReplacedBy rec \<noteq> Some [] then (Inr False, k)
        else (case rb_mined re of
            Inl e \<Rightarrow> (Inl (JErr (mapRPCErr e)), k)
          | Inr mined \<Rightarrow>
             if mined > re_Nonce rec then
               (Inr False, snd (jSetState (rb_set re) (re_ChainID rec) (re_ID rec) (no_mutation\<lparr>sm_Status := Some StatusReplaced\<rparr>) k))
             else if re_Status rec = StatusSigned then rebroadcast_signed HexToAddress HexToHash re rec k
             else if re_Status rec \<in> {StatusBroadcast, StatusPending, StatusMined, StatusDropped} then rebroadcast_riding HexToHash re rec k
             else (Inr False, k)))"

text \<open>Errors of one record are swallowed; \<open>re\<close> gives the environment met for each record id.\<close>

fun resurrect_all :: "(string \<Rightarrow> address) \<Rightarrow> (string \<Rightarrow> string) \<Rightarrow> (string \<Rightarrow> renv) \<Rightarrow> Record list \<Rightarrow> kstate \<Rightarrow> kstate" where
  "resurrect_all HexToAddress HexToHash re [] k = k"
| "resurrect_all HexToAddress HexToHash re (rec # recs) k =
     resurrect_all HexToAddress HexToHash re recs
       (if re_TxHash rec = [] then k else snd (rebroadcast HexToAddress HexToHash (re (re_ID rec)) rec k))"

definition resurrectUnresolved :: "(string \<Rightarrow> address) \<Rightarrow> (string \<Rightarrow> string) \<Rightarrow> lockfault \<Rightarrow> (string \<Rightarrow> renv) \<Rightarrow> 64 word \<Rightarrow> kstate \<Rightarrow> kstate" where
  "resurrectUnresolved HexToAddress HexToHash l re c k = (case Unresolved l (journal_of k c) of
     Inl _ \<Rightarrow> k | Inr recs \<Rightarrow> resurrect_all HexToAddress HexToHash re recs k)"

section \<open>Observation\<close>

datatype waitState = waitPending | waitMined | waitConfirmed | waitReverted | waitReplaced | waitDropped

text \<open>The environment of one poll, with the journal and policy calls of a terminal transition.\<close>

record oenv =
  ob_receipt :: receipt_answer
  ob_head :: "goerr + 64 word"
  ob_mined :: "goerr + 64 word"
  ob_set :: jenv
  ob_settle :: env

definition recordTerminal :: "oenv \<Rightarrow> 64 word \<Rightarrow> Record option \<Rightarrow> Status \<Rightarrow> Receipt option \<Rightarrow> kstate \<Rightarrow> kstate" where
  "recordTerminal oe c rec status rcpt k = (case rec of None \<Rightarrow> k | Some r \<Rightarrow>
     (let k1 = snd (jSetState (ob_set oe) c (re_ID r) (no_mutation\<lparr>sm_Status := Some status, sm_Receipt := journalReceipt rcpt\<rparr>) k) in
      if status = StatusReverted \<and> re_ReservationID r \<noteq> []
      then snd (on_engine (SettleActual (ob_settle oe) (re_ReservationID r) (Some (actualGas rcpt)) True) k1) else k1))"

definition recordConfirmed :: "oenv \<Rightarrow> 64 word \<Rightarrow> Record option \<Rightarrow> Receipt option \<Rightarrow> kstate \<Rightarrow> kstate" where
  "recordConfirmed oe c rec rcpt k = (case rec of None \<Rightarrow> k | Some r \<Rightarrow>
     (let k1 = snd (jSetState (ob_set oe) c (re_ID r) (no_mutation\<lparr>sm_Status := Some StatusConfirmed, sm_Receipt := journalReceipt rcpt\<rparr>) k) in
      if re_ReservationID r \<noteq> []
      then snd (on_engine (SettleActual (ob_settle oe) (re_ReservationID r) (Some (actualGas rcpt)) False) k1) else k1))"

text \<open>\<open>observe\<close> returns the result, the classified state, an error if any, and the new state.\<close>

definition observe :: "(string \<Rightarrow> address) \<Rightarrow> oenv \<Rightarrow> 64 word \<Rightarrow> string \<Rightarrow> Record option \<Rightarrow> string \<Rightarrow> 64 word \<Rightarrow> kstate \<Rightarrow> (TxResult \<times> waitState \<times> jerr option) \<times> kstate" where
  "observe HexToAddress oe c hash rec network target k = (let res = recordResult HexToAddress rec network hash in
     case ob_receipt oe of
       Inl e \<Rightarrow> ((res, waitPending, Some (JErr (mapRPCErr e))), k)
     | Inr (Some rcpt) \<Rightarrow> (case ob_head oe of
           Inl e \<Rightarrow> ((res, waitPending, Some (JErr (mapRPCErr e))), k)
         | Inr head \<Rightarrow>
            (let blk = rc_BlockNumber rcpt; conf = (if head \<ge> blk then head - blk + 1 else 0);
                 res = res\<lparr>tr_Confirmations := conf, tr_BlockNumber := Some blk\<rparr> in
             if rc_Status rcpt = 0 then ((res\<lparr>tr_Status := TxReverted\<rparr>, waitReverted, None), recordTerminal oe c rec StatusReverted (Some rcpt) k)
             else if conf \<ge> target then ((res\<lparr>tr_Status := TxConfirmed\<rparr>, waitConfirmed, None), recordConfirmed oe c rec (Some rcpt) k)
             else ((res\<lparr>tr_Status := TxPending\<rparr>, waitMined, None), k)))
     | Inr None \<Rightarrow> (case rec of
           None \<Rightarrow> ((res\<lparr>tr_Status := TxPending\<rparr>, waitPending, None), k)
         | Some r \<Rightarrow> (case ob_mined oe of
               Inl e \<Rightarrow> ((res, waitPending, Some (JErr (mapRPCErr e))), k)
             | Inr mined \<Rightarrow>
                if re_ReplacedBy r \<noteq> None \<and> re_ReplacedBy r \<noteq> Some [] then
                  ((res\<lparr>tr_Status := TxReplaced, tr_Replaced := re_TxHash r\<rparr>, waitReplaced, None), recordTerminal oe c rec StatusReplaced None k)
                else if mined > re_Nonce r then
                  ((res\<lparr>tr_Status := TxReplaced\<rparr>, waitReplaced, None), recordTerminal oe c rec StatusReplaced None k)
                else ((res\<lparr>tr_Status := TxPending\<rparr>, waitDropped, None), k))))"

section \<open>Restart reconciliation\<close>






text \<open>The distinct non-zero chain ids of the configured networks (in the order of the configuration).\<close>

definition configuredChainIDs :: "64 word list \<Rightarrow> 64 word list" where
  "configuredChainIDs ids = foldl (\<lambda>out c. if c \<noteq> 0 \<and> c \<notin> set out then out @ [c] else out) [] ids"

section \<open>Abandon\<close>

record aenv =
  ab_read :: lockfault
  ab_set :: jenv
  ab_release :: env
  ab_reset :: nenv

definition AbandonTx :: "(string \<Rightarrow> address) \<Rightarrow> (string \<Rightarrow> string) \<Rightarrow> aenv \<Rightarrow> 64 word \<Rightarrow> string \<Rightarrow> kstate \<Rightarrow> (jerr + string) \<times> kstate" where
  "AbandonTx HexToAddress HexToHash ae c hash k = (case ByHash HexToHash (ab_read ae) hash (journal_of k c) of
       Inl JNotFound \<Rightarrow> (Inl (JErr (New ''ref.not_found'')), k)
     | Inl e \<Rightarrow> (Inl e, k)
     | Inr rec \<Rightarrow>
        if re_Status rec \<noteq> StatusSigned then (Inl (JErr (New ''usage.not_abandonable'')), k)
        else (case jSetState (ab_set ae) c (re_ID rec)
                 (no_mutation\<lparr>sm_Status := Some StatusFailed, sm_Error := Some ''abandoned by operator''\<rparr>) k of
            (Inl e, k1) \<Rightarrow> (Inl e, k1)
          | (Inr _, k1) \<Rightarrow>
             (let k2 = (if re_ReservationID rec \<noteq> [] then snd (on_engine (Release (ab_release ae) (re_ReservationID rec)) k1) else k1);
                  st = snd (ResetCache HexToAddress id (ab_reset ae) c (HexToAddress (re_From rec)) (ks_chain k2 c)) in
              (Inr (re_ID rec), k2\<lparr>ks_chain := (ks_chain k2)(c := st)\<rparr>))))"

section \<open>Lemmas: the parts of the state each call touches\<close>

lemma set_journal_simps [simp]:
  "ks_engine (set_journal c f k) = ks_engine k" "ks_sent (set_journal c f k) = ks_sent k"
  "journal_of (set_journal c f k) c' = (if c' = c then f else journal_of k c')"
  "ns_held (ks_chain (set_journal c f k) c') = ns_held (ks_chain k c')"
  "ns_cache (ks_chain (set_journal c f k) c') = ns_cache (ks_chain k c')"
  by (simp_all add: set_journal_def journal_of_def)

lemma jSetState_frame:
  "jSetState je c i mut k = (res, k') \<Longrightarrow> ks_engine k' = ks_engine k \<and> ks_sent k' = ks_sent k
     \<and> (\<forall>c'. ns_held (ks_chain k' c') = ns_held (ks_chain k c') \<and> ns_cache (ks_chain k' c') = ns_cache (ks_chain k c'))"
  by (auto simp: jSetState_def split: prod.splits)

lemma on_engine_frame: "on_engine op k = (res, k') \<Longrightarrow> ks_chain k' = ks_chain k \<and> ks_sent k' = ks_sent k"
  by (auto simp: on_engine_def split: prod.splits)

lemma send_raw_simps [simp]:
  "ks_engine (send_raw c raw k) = ks_engine k" "ks_chain (send_raw c raw k) = ks_chain k"
  "ks_sent (send_raw c raw k) = ks_sent k @ [(c, raw)]"
  by (simp_all add: send_raw_def)

lemma snd_frames:
  "ks_sent (snd (jSetState je c i mut k)) = ks_sent k" "ks_engine (snd (jSetState je c i mut k)) = ks_engine k"
  "ks_sent (snd (on_engine op k)) = ks_sent k" "ks_chain (snd (on_engine op k)) = ks_chain k"
  using jSetState_frame [of je c i mut k] on_engine_frame [of op k] by (metis prod.collapse)+

lemma doRebroadcast_sent:
  "doRebroadcast re rec rid k = (res, k') \<Longrightarrow> ks_sent k' = ks_sent k \<or>
     (\<exists>raw. decodeHex (re_RawTx rec) = Some raw \<and> ks_sent k' = ks_sent k @ [(re_ChainID rec, raw)])"
  by (auto simp: doRebroadcast_def Let_def split: option.splits if_splits dest!: jSetState_frame)

lemma rebroadcast_signed_sent:
  assumes "rebroadcast_signed H HH re rec k = (res, k')" "ks_sent k' \<noteq> ks_sent k"
  shows "(\<exists>raw. decodeHex (re_RawTx rec) = Some raw \<and> ks_sent k' = ks_sent k @ [(re_ChainID rec, raw)])
    \<and> (\<exists>r st. Reserve (rb_pol re) (rb_reserve re) (rereserve_check H rec) (ks_engine k) = (Inr r, st))"
proof -
  obtain r1 k1 where a: "on_engine (Reserve (rb_pol re) (rb_reserve re) (rereserve_check H rec)) k = (r1, k1)" by force
  have s1: "ks_sent k1 = ks_sent k" using on_engine_frame [OF a] by simp
  show ?thesis
  proof (cases r1)
    case (Inl e) thus ?thesis using assms a s1 by (simp add: rebroadcast_signed_def)
  next
    case (Inr r)
    obtain r2 k2 where d: "doRebroadcast re rec (reservation_id r) k1 = (r2, k2)" by force
    have "ks_sent k' = ks_sent k2"
      using assms(1) a Inr d snd_frames(3) by (auto simp: rebroadcast_signed_def split: sum.splits prod.splits dest!: on_engine_frame)
    moreover have "\<exists>st. Reserve (rb_pol re) (rb_reserve re) (rereserve_check H rec) (ks_engine k) = (Inr r, st)"
      using a Inr by (auto simp: on_engine_def split: prod.splits sum.splits) (metis obj_sumE map_sum.simps sum.distinct(1) sum.inject(2) id_apply)
    ultimately show ?thesis using doRebroadcast_sent [OF d] s1 assms(2) by auto
  qed
qed

lemma rebroadcast_riding_sent:
  assumes "rebroadcast_riding HH re rec k = (res, k')" "ks_sent k' \<noteq> ks_sent k"
  shows "(\<exists>raw. decodeHex (re_RawTx rec) = Some raw \<and> ks_sent k' = ks_sent k @ [(re_ChainID rec, raw)])
    \<and> (re_Status rec = StatusBroadcast \<and> re_ReservationID rec \<noteq> [] \<longrightarrow>
        (\<exists>st. Commit (rb_commit re) (re_ReservationID rec) (HH (re_TxHash rec)) (ks_engine k) = (Inr (), st)))"
proof (cases "re_Status rec = StatusBroadcast \<and> re_ReservationID rec \<noteq> []")
  case False
  obtain r1 k1 where d: "doRebroadcast re rec [] k = (r1, k1)" by force
  hence "k' = k1" using assms(1) False by (auto simp: rebroadcast_riding_def split: sum.splits)
  thus ?thesis using doRebroadcast_sent [OF d] assms(2) False by auto
next
  case True
  obtain r0 en where c: "Commit (rb_commit re) (re_ReservationID rec) (HH (re_TxHash rec)) (ks_engine k) = (r0, en)" by force
  show ?thesis
  proof (cases r0)
    case (Inl e)
    thus ?thesis using assms True c by (auto simp: rebroadcast_riding_def Let_def snd_frames split: if_splits)
  next
    case (Inr u)
    obtain r1 k1 where d: "doRebroadcast re rec [] (k\<lparr>ks_engine := en\<rparr>) = (r1, k1)" by force
    hence "k' = k1" using assms(1) True c Inr by (auto simp: rebroadcast_riding_def split: sum.splits)
    thus ?thesis using doRebroadcast_sent [OF d] assms(2) c Inr by auto
  qed
qed

section \<open>Properties: rebroadcast\<close>

text \<open>C20. The double-spend gates of the one rebroadcast helper: whenever it hands bytes to a node, they are exactly the
  persisted raw transaction of the record, once; the node reported no receipt for the hash, the record has
  no live replacement, its nonce is not yet mined over, and the spend is authorised: a record with no recorded
  broadcast was granted a fresh policy reservation first, and a broadcast record's reservation is still in
  the log and committed.\<close>

theorem rebroadcast_gated:
  assumes "rebroadcast H HH re rec k = (res, k')" "ks_sent k' \<noteq> ks_sent k"
  shows "(\<exists>raw. decodeHex (re_RawTx rec) = Some raw \<and> ks_sent k' = ks_sent k @ [(re_ChainID rec, raw)])
    \<and> rb_receipt re = Inr None \<and> re_ReplacedBy rec \<in> {None, Some []}
    \<and> (\<exists>mined. rb_mined re = Inr mined \<and> mined \<le> re_Nonce rec)
    \<and> re_Status rec \<in> {StatusSigned, StatusBroadcast, StatusPending, StatusMined, StatusDropped}
    \<and> (re_Status rec = StatusSigned \<longrightarrow>
        (\<exists>r st. Reserve (rb_pol re) (rb_reserve re) (rereserve_check H rec) (ks_engine k) = (Inr r, st)))
    \<and> (re_Status rec = StatusBroadcast \<and> re_ReservationID rec \<noteq> [] \<longrightarrow>
        (\<exists>st. Commit (rb_commit re) (re_ReservationID rec) (HH (re_TxHash rec)) (ks_engine k) = (Inr (), st)))"
proof -
  obtain mined where g: "rb_receipt re = Inr None" "re_ReplacedBy rec \<in> {None, Some []}" "rb_mined re = Inr mined"
      "\<not> mined > re_Nonce rec" "re_Status rec \<in> {StatusSigned, StatusBroadcast, StatusPending, StatusMined, StatusDropped}"
    using assms by (auto simp: rebroadcast_def snd_frames split: sum.splits option.splits if_splits)
  show ?thesis
  proof (cases "re_Status rec = StatusSigned")
    case True
    hence "rebroadcast_signed H HH re rec k = (res, k')" using assms(1) g by (auto simp: rebroadcast_def)
    from rebroadcast_signed_sent [OF this assms(2)] g True show ?thesis by (auto simp: not_less)
  next
    case False
    hence "rebroadcast_riding HH re rec k = (res, k')" using assms(1) g by (auto simp: rebroadcast_def)
    from rebroadcast_riding_sent [OF this assms(2)] g False show ?thesis by (auto simp: not_less)
  qed
qed

definition demo_kstate :: kstate where
  "demo_kstate = \<lparr>ks_engine = demo_log_engine, ks_chain = (\<lambda>_. demo_nstate), ks_sent = []\<rparr>"

definition demo_renv :: renv where
  "demo_renv = \<lparr>rb_receipt = Inr None, rb_mined = Inr 7, rb_pol = Inr None, rb_reserve = demo_env, rb_send = None, rb_set = calm,
     rb_commit = demo_env, rb_release = demo_env\<rparr>"

theorem rebroadcast_gated_witness:
  "\<exists>res k'. rebroadcast (\<lambda>s. s) (\<lambda>s. s) demo_renv (demo_record ''A'' 3 7 StatusPending) demo_kstate = (res, k')
     \<and> ks_sent k' = [(1, [2])]"
proof -
  let ?rec = "demo_record ''A'' 3 7 StatusPending"
  obtain res k' where r: "rebroadcast (\<lambda>s. s) (\<lambda>s. s) demo_renv ?rec demo_kstate = (res, k')" by force
  have d: "decodeHex ''0x02'' = Some [2]" using decode_hexBytes [of "[2]"] by (simp add: hexBytes_def hexByte_def hexdigits_def)
  have "k' = snd (doRebroadcast demo_renv ?rec [] demo_kstate)" using r
    by (auto simp: rebroadcast_def demo_renv_def demo_record_def rebroadcast_riding_def split: prod.splits sum.splits)
  hence "ks_sent k' \<noteq> ks_sent demo_kstate" using d
    by (simp add: doRebroadcast_def demo_renv_def demo_record_def Let_def snd_frames)
  from rebroadcast_gated [OF r this] r d show ?thesis by (auto simp: demo_record_def demo_kstate_def)
qed

section \<open>Lemmas: reconciliation\<close>







definition resolved :: "string option \<Rightarrow> Reservation \<Rightarrow> Reservation" where
  "resolved h r = (case h of Some h \<Rightarrow> commit_res h r | None \<Rightarrow> r\<lparr>rs_State := stateReleased\<rparr>)"

lemma resolved_ID [simp]: "rs_ID (resolved h r) = rs_ID r"
  by (simp add: resolved_def commit_res_def split: option.split)





section \<open>Properties: reconciliation\<close>






end
