(* ===== verification/Calldata.thy ===== *)
theory Calldata
  imports Policy_Evaluate Hex_Bytes
begin

text \<open>
  Raw calldata: the builders of the typed token paths (\<open>internal/erc/erc.go\<close>), the selector recogniser
  (\<open>internal/abi/classify.go\<close>) and its translation into policy checks (\<open>internal/policy/calldata.go\<close>).

  Bytes are 8-bit words.  The Keccak hash behind \<open>selector\<close>, \<open>common.Address.Bytes\<close>, \<open>common.BytesToAddress\<close>
  and \<open>common.LeftPadBytes\<close> are library code: the first three are arguments, the last is written out.
\<close>

section \<open>Building calldata\<close>

text \<open>\<open>big.Int.Bytes\<close>: the big-endian bytes of the absolute value, without leading zeros.\<close>

function nat_bytes :: "nat \<Rightarrow> bytes" where
  "nat_bytes n = (if n = 0 then [] else nat_bytes (n div 256) @ [of_nat n])"
  by auto
termination by (relation "measure id") auto

declare nat_bytes.simps [simp del]

text \<open>\<open>common.LeftPadBytes\<close> returns a longer slice unchanged.\<close>

definition LeftPadBytes :: "bytes \<Rightarrow> nat \<Rightarrow> bytes" where
  "LeftPadBytes b l = replicate (l - length b) 0 @ b"

definition addrWord :: "(address \<Rightarrow> bytes) \<Rightarrow> address \<Rightarrow> bytes" where
  "addrWord AddrBytes a = LeftPadBytes (AddrBytes a) 32"

definition uintWord :: "int option \<Rightarrow> bytes" where
  "uintWord v = (case v of None \<Rightarrow> replicate 32 0
     | Some x \<Rightarrow> if x < 0 then replicate 32 0 else LeftPadBytes (nat_bytes (nat x)) 32)"

definition pack :: "(string \<Rightarrow> bytes) \<Rightarrow> string \<Rightarrow> bytes list \<Rightarrow> bytes" where
  "pack selector sig ws = selector sig @ concat ws"

abbreviation (input) "sigTransfer \<equiv> ''transfer(address,uint256)''"
abbreviation (input) "sigApprove \<equiv> ''approve(address,uint256)''"
abbreviation (input) "sigSafeTransferFrom721 \<equiv> ''safeTransferFrom(address,address,uint256)''"
abbreviation (input) "sigSafeTransferFrom1155 \<equiv> ''safeTransferFrom(address,address,uint256,uint256,bytes)''"

definition TransferCalldata :: "(string \<Rightarrow> bytes) \<Rightarrow> (address \<Rightarrow> bytes) \<Rightarrow> address \<Rightarrow> int option \<Rightarrow> bytes" where
  "TransferCalldata selector AddrBytes to amount = pack selector sigTransfer [addrWord AddrBytes to, uintWord amount]"

definition ApproveCalldata :: "(string \<Rightarrow> bytes) \<Rightarrow> (address \<Rightarrow> bytes) \<Rightarrow> address \<Rightarrow> int option \<Rightarrow> bytes" where
  "ApproveCalldata selector AddrBytes spender amount = pack selector sigApprove [addrWord AddrBytes spender, uintWord amount]"

definition SafeTransferFromCalldata ::
  "(string \<Rightarrow> bytes) \<Rightarrow> (address \<Rightarrow> bytes) \<Rightarrow> address \<Rightarrow> address \<Rightarrow> int option \<Rightarrow> int option \<Rightarrow> bytes" where
  "SafeTransferFromCalldata selector AddrBytes from to tokenID amount =
    (case amount of None \<Rightarrow> pack selector sigSafeTransferFrom721 [addrWord AddrBytes from, addrWord AddrBytes to, uintWord tokenID]
     | Some _ \<Rightarrow> pack selector sigSafeTransferFrom1155 [addrWord AddrBytes from, addrWord AddrBytes to, uintWord tokenID,
         uintWord amount, uintWord (Some (5 * 32)), uintWord (Some 0)])"

definition IsUnlimitedAmount :: "int option \<Rightarrow> bool" where
  "IsUnlimitedAmount amount = (case amount of None \<Rightarrow> False
     | Some a \<Rightarrow> a = 2 ^ 256 - 1 \<or> a = 2 ^ 160 - 1 \<or> a = 2 ^ 96 - 1)"

section \<open>Recognising calldata\<close>

datatype RecognizedKind = NotRecognized | RecApprove | RecTransfer

record SelectorClass =
  sc_Kind :: RecognizedKind
  sc_Spender :: address
  sc_Recipient :: address
  sc_Amount :: "int option"
  sc_Unlimited :: bool

definition isSentinel :: "int option \<Rightarrow> bool" where
  "isSentinel amount = (case amount of None \<Rightarrow> False
     | Some a \<Rightarrow> a = 2 ^ 256 - 1 \<or> a = 2 ^ 160 - 1 \<or> a = 2 ^ 96 - 1)"

text \<open>The pinned selectors, as the four bytes that their hex literals spell.\<close>

definition selApprove :: bytes where "selApprove = [0x09, 0x5e, 0xa7, 0xb3]"
definition selIncreaseAllowance :: bytes where "selIncreaseAllowance = [0x39, 0x50, 0x93, 0x51]"
definition selTransfer :: bytes where "selTransfer = [0xa9, 0x05, 0x9c, 0xbb]"
definition selTransferFrom :: bytes where "selTransferFrom = [0x23, 0xb8, 0x72, 0xdd]"
definition selSetApprovalForAll :: bytes where "selSetApprovalForAll = [0xa2, 0x2c, 0xb4, 0x65]"
definition selSafeTransferFrom1 :: bytes where "selSafeTransferFrom1 = [0x42, 0x84, 0x2e, 0x0e]"
definition selSafeTransferFrom2 :: bytes where "selSafeTransferFrom2 = [0xb8, 0x8d, 0x4f, 0xde]"
definition selSafeTransferFrom3 :: bytes where "selSafeTransferFrom3 = [0xf2, 0x42, 0x43, 0x2a]"
definition selSafeBatchTransfer :: bytes where "selSafeBatchTransfer = [0x2e, 0xb2, 0xc2, 0xd6]"
definition selPermitEIP2612 :: bytes where "selPermitEIP2612 = [0xd5, 0x05, 0xac, 0xcf]"
definition selPermitDAI :: bytes where "selPermitDAI = [0x8f, 0xcb, 0xaf, 0x0c]"
definition selPermit2Allowance :: bytes where "selPermit2Allowance = [0x2b, 0x67, 0xb5, 0x70]"
definition selPermit2Transfer :: bytes where "selPermit2Transfer = [0x30, 0xf2, 0x8b, 0x7a]"

lemmas selector_defs = selApprove_def selIncreaseAllowance_def selTransfer_def selTransferFrom_def selSetApprovalForAll_def
  selSafeTransferFrom1_def selSafeTransferFrom2_def selSafeTransferFrom3_def selSafeBatchTransfer_def selPermitEIP2612_def
  selPermitDAI_def selPermit2Allowance_def selPermit2Transfer_def

definition abi_word :: "bytes \<Rightarrow> nat \<Rightarrow> bytes option" where
  "abi_word body i = (if length body < i * 32 + 32 then None else Some (take 32 (drop (i * 32) body)))"

definition bytes_nat :: "bytes \<Rightarrow> nat" where
  "bytes_nat b = foldl (\<lambda>n x. n * 256 + unat x) 0 b"

definition wordAddr :: "(bytes \<Rightarrow> address) \<Rightarrow> bytes \<Rightarrow> nat \<Rightarrow> address option" where
  "wordAddr BytesToAddress body i = (case abi_word body i of None \<Rightarrow> None
     | Some w \<Rightarrow> if list_ex (\<lambda>b. b \<noteq> 0) (take 12 w) then None else Some (BytesToAddress (drop 12 w)))"

definition wordBig :: "bytes \<Rightarrow> nat \<Rightarrow> int option" where
  "wordBig body i = map_option (\<lambda>w. int (bytes_nat w)) (abi_word body i)"

definition wordBool :: "bytes \<Rightarrow> nat \<Rightarrow> bool option" where
  "wordBool body i = (case abi_word body i of None \<Rightarrow> None
     | Some w \<Rightarrow> if list_ex (\<lambda>b. b \<noteq> 0) (take 31 w) then None
        else if w ! 31 = 0 then Some False else if w ! 31 = 1 then Some True else None)"

definition approval :: "address \<Rightarrow> int option \<Rightarrow> bool \<Rightarrow> SelectorClass" where
  "approval spender amount unl = \<lparr>sc_Kind = RecApprove, sc_Spender = spender, sc_Recipient = zero_address, sc_Amount = amount, sc_Unlimited = unl\<rparr>"

definition movement :: "address \<Rightarrow> int option \<Rightarrow> SelectorClass" where
  "movement to amount = \<lparr>sc_Kind = RecTransfer, sc_Spender = zero_address, sc_Recipient = to, sc_Amount = amount, sc_Unlimited = False\<rparr>"

text \<open>The arms of the switch: selector and decoder of the static head.\<close>

definition recognizers :: "(bytes \<Rightarrow> address) \<Rightarrow> (bytes \<times> (bytes \<Rightarrow> SelectorClass option)) list" where
  "recognizers B = (let addr = wordAddr B; moved = (\<lambda>body. Option.bind (addr body 1) (\<lambda>t. Some (movement t None)));
     permit2 = (\<lambda>body. Some (approval zero_address None False)) in
   [(selApprove, \<lambda>body. Option.bind (addr body 0) (\<lambda>s. Option.bind (wordBig body 1) (\<lambda>a. Some (approval s (Some a) (isSentinel (Some a)))))),
    (selIncreaseAllowance, \<lambda>body. Option.bind (addr body 0) (\<lambda>s. Option.bind (wordBig body 1) (\<lambda>a. Some (approval s (Some a) False)))),
    (selTransfer, \<lambda>body. Option.bind (addr body 0) (\<lambda>t. Option.bind (wordBig body 1) (\<lambda>a. Some (movement t (Some a))))),
    (selTransferFrom, \<lambda>body. Option.bind (addr body 1) (\<lambda>t. Option.bind (wordBig body 2) (\<lambda>a. Some (movement t (Some a))))),
    (selSetApprovalForAll, \<lambda>body. Option.bind (addr body 0) (\<lambda>s. Option.bind (wordBool body 1) (\<lambda>b. Some (approval s None b)))),
    (selSafeTransferFrom1, moved), (selSafeTransferFrom2, moved), (selSafeTransferFrom3, moved), (selSafeBatchTransfer, moved),
    (selPermitEIP2612, \<lambda>body. Option.bind (addr body 1) (\<lambda>s. Option.bind (wordBig body 2) (\<lambda>v. Option.bind (wordBig body 3) (\<lambda>d.
       Some (approval s (Some v) (isSentinel (Some v) \<or> d = 2 ^ 256 - 1)))))),
    (selPermitDAI, \<lambda>body. Option.bind (addr body 1) (\<lambda>s. Option.bind (wordBool body 4) (\<lambda>b. Some (approval s None b)))),
    (selPermit2Allowance, permit2), (selPermit2Transfer, permit2)])"

definition ClassifySelector :: "(bytes \<Rightarrow> address) \<Rightarrow> bytes \<Rightarrow> SelectorClass option" where
  "ClassifySelector B data = (if length data < 4 then None
     else case map_of (recognizers B) (take 4 data) of None \<Rightarrow> None | Some decode \<Rightarrow> decode (drop 4 data))"

definition ClassifyCalldata :: "(bytes \<Rightarrow> address) \<Rightarrow> address \<Rightarrow> bytes \<Rightarrow> int option \<Rightarrow> Check list option" where
  "ClassifyCalldata BytesToAddress to data value = (case ClassifySelector BytesToAddress data of None \<Rightarrow> None
     | Some cls \<Rightarrow>
        (let chk = zero_check\<lparr>ck_Token := lowerHex to, ck_Asset := lowerHex to, ck_TokenAmt := sc_Amount cls,
               ck_Unlimited := sc_Unlimited cls, ck_SpendWei := value\<rparr> in
         case sc_Kind cls of
           RecApprove \<Rightarrow> Some [chk\<lparr>ck_Kind := ''approve'', ck_KindEnum := KindApprove, ck_Dest := sc_Spender cls\<rparr>]
         | RecTransfer \<Rightarrow> Some [chk\<lparr>ck_Kind := ''transfer'', ck_KindEnum := KindTransfer, ck_Dest := sc_Recipient cls\<rparr>]
         | NotRecognized \<Rightarrow> None))"

definition SelectorHex :: "bytes \<Rightarrow> string" where
  "SelectorHex data = (if length data < 4 then ''0x'' else ''0x'' @ concat (map hexByte (take 4 data)))"

section \<open>Lemmas: words\<close>

lemma bytes_nat_Nil [simp]: "bytes_nat [] = 0"
  by (simp add: bytes_nat_def)

lemma bytes_nat_snoc [simp]: "bytes_nat (b @ [x]) = bytes_nat b * 256 + unat x"
  by (simp add: bytes_nat_def)

lemma bytes_nat_append: "bytes_nat (a @ b) = bytes_nat a * 256 ^ length b + bytes_nat b"
proof (induction b rule: rev_induct)
  case (snoc x b)
  have "bytes_nat (a @ b @ [x]) = bytes_nat (a @ b) * 256 + unat x" using bytes_nat_snoc [of "a @ b" x] by simp
  thus ?case using snoc by (simp add: algebra_simps)
qed simp

lemma bytes_nat_zeros [simp]: "bytes_nat (replicate n 0) = 0"
  by (induction n) (simp_all add: replicate_append_same [symmetric])

lemma bytes_nat_nat_bytes: "bytes_nat (nat_bytes n) = n"
proof (induction n rule: nat_bytes.induct)
  case (1 n)
  have "unat (of_nat n :: 8 word) = n mod 256" by (simp add: unat_of_nat)
  thus ?case using 1 by (subst nat_bytes.simps) (auto simp: nat_bytes.simps [of 0])
qed

lemma length_nat_bytes: "length (nat_bytes n) \<le> k \<longleftrightarrow> n < 256 ^ k"
proof (induction k arbitrary: n)
  case 0 show ?case by (subst nat_bytes.simps) simp
next
  case (Suc k)
  show ?case
  proof (cases "n = 0")
    case True thus ?thesis by (simp add: nat_bytes.simps [of 0])
  next
    case False
    have "n < 256 ^ Suc k \<longleftrightarrow> n div 256 < 256 ^ k" by (simp add: div_less_iff_less_mult mult.commute)
    thus ?thesis using False Suc.IH [of "n div 256"] by (subst nat_bytes.simps) simp
  qed
qed

lemma uintWord_fits:
  assumes "0 \<le> x" "x < 2 ^ 256"
  shows "length (uintWord (Some x)) = 32" "bytes_nat (uintWord (Some x)) = nat x"
proof -
  have "nat x < 256 ^ 32" using assms by (simp add: nat_less_iff)
  hence "length (nat_bytes (nat x)) \<le> 32" by (simp only: length_nat_bytes)
  thus "length (uintWord (Some x)) = 32" "bytes_nat (uintWord (Some x)) = nat x"
    using assms(1) by (simp_all add: uintWord_def LeftPadBytes_def bytes_nat_append bytes_nat_nat_bytes)
qed

lemma abi_word_concat:
  "\<forall>w \<in> set ws. length w = 32 \<Longrightarrow> i < length ws \<Longrightarrow> abi_word (concat ws) i = Some (ws ! i)"
proof (induction ws arbitrary: i)
  case (Cons w ws)
  have l: "length (concat ws) = length ws * 32" using Cons.prems(1) by (simp add: length_concat) (induction ws; simp)
  show ?case
  proof (cases i)
    case 0 thus ?thesis using Cons.prems by (simp add: abi_word_def)
  next
    case (Suc j)
    have "abi_word (concat ws) j = Some (ws ! j)" using Cons.prems Suc by (intro Cons.IH) auto
    thus ?thesis using Suc Cons.prems by (auto simp: abi_word_def split: if_splits)
  qed
qed simp

text \<open>What is used of go-ethereum's address type: twenty bytes, read back by \<open>BytesToAddress\<close>.\<close>

definition addr_codec :: "(address \<Rightarrow> bytes) \<Rightarrow> (bytes \<Rightarrow> address) \<Rightarrow> address \<Rightarrow> bool" where
  "addr_codec A B a \<longleftrightarrow> length (A a) = 20 \<and> B (A a) = a"

lemma addrWord_word: "addr_codec A B a \<Longrightarrow> length (addrWord A a) = 32"
  by (simp add: addr_codec_def addrWord_def LeftPadBytes_def)

lemma wordAddr_addrWord:
  "addr_codec A B a \<Longrightarrow> abi_word body i = Some (addrWord A a) \<Longrightarrow> wordAddr B body i = Some a"
  by (auto simp: addr_codec_def wordAddr_def addrWord_def LeftPadBytes_def list_ex_iff)

lemma wordBig_uintWord:
  "0 \<le> x \<Longrightarrow> x < 2 ^ 256 \<Longrightarrow> abi_word body i = Some (uintWord (Some x)) \<Longrightarrow> wordBig body i = Some x"
  by (simp add: wordBig_def uintWord_fits)

section \<open>Lemmas: recognition\<close>

lemma Classify_pack:
  assumes "selector sig = sel" "length sel = 4" "map_of (recognizers B) sel = Some decode"
  shows "ClassifySelector B (pack selector sig ws) = decode (concat ws)"
  using assms by (simp add: ClassifySelector_def pack_def)

lemma recognizers_distinct: "distinct (map fst (recognizers B))"
proof -
  have "distinct (map hd (map fst (recognizers B)))" by (simp add: recognizers_def Let_def selector_defs)
  thus ?thesis using distinct_map by blast
qed

lemma recognizer_at:
  "map_of (recognizers B) selApprove = Some (\<lambda>body. Option.bind (wordAddr B body 0) (\<lambda>s. Option.bind (wordBig body 1) (\<lambda>a. Some (approval s (Some a) (isSentinel (Some a))))))"
  "map_of (recognizers B) selTransfer = Some (\<lambda>body. Option.bind (wordAddr B body 0) (\<lambda>t. Option.bind (wordBig body 1) (\<lambda>a. Some (movement t (Some a)))))"
  "map_of (recognizers B) selSafeTransferFrom1 = Some (\<lambda>body. Option.bind (wordAddr B body 1) (\<lambda>t. Some (movement t None)))"
  "map_of (recognizers B) selSafeTransferFrom3 = Some (\<lambda>body. Option.bind (wordAddr B body 1) (\<lambda>t. Some (movement t None)))"
  "map_of (recognizers B) selPermit2Allowance = Some (\<lambda>body. Some (approval zero_address None False))"
  "map_of (recognizers B) selPermit2Transfer = Some (\<lambda>body. Some (approval zero_address None False))"
  by (rule map_of_is_SomeI [OF recognizers_distinct], simp add: recognizers_def Let_def)+

lemma Classify_approve:
  assumes "selector sigApprove = selApprove" "addr_codec A B s" "0 \<le> x" "x < 2 ^ 256"
  shows "ClassifySelector B (ApproveCalldata selector A s (Some x)) = Some (approval s (Some x) (isSentinel (Some x)))"
proof -
  let ?ws = "[addrWord A s, uintWord (Some x)]"
  have w: "\<forall>w \<in> set ?ws. length w = 32" using addrWord_word [OF assms(2)] uintWord_fits [OF assms(3,4)] by simp
  have "wordAddr B (concat ?ws) 0 = Some s" using wordAddr_addrWord [OF assms(2)] abi_word_concat [OF w, of 0] by simp
  moreover have "wordBig (concat ?ws) 1 = Some x" using wordBig_uintWord [OF assms(3,4)] abi_word_concat [OF w, of 1] by simp
  moreover have "length selApprove = 4" by (simp add: selApprove_def)
  ultimately show ?thesis unfolding ApproveCalldata_def using Classify_pack [where selector = selector, OF assms(1) _ recognizer_at(1), where ws = ?ws] by simp
qed

lemma Classify_transfer:
  assumes "selector sigTransfer = selTransfer" "addr_codec A B t" "0 \<le> x" "x < 2 ^ 256"
  shows "ClassifySelector B (TransferCalldata selector A t (Some x)) = Some (movement t (Some x))"
proof -
  let ?ws = "[addrWord A t, uintWord (Some x)]"
  have w: "\<forall>w \<in> set ?ws. length w = 32" using addrWord_word [OF assms(2)] uintWord_fits [OF assms(3,4)] by simp
  have "wordAddr B (concat ?ws) 0 = Some t" using wordAddr_addrWord [OF assms(2)] abi_word_concat [OF w, of 0] by simp
  moreover have "wordBig (concat ?ws) 1 = Some x" using wordBig_uintWord [OF assms(3,4)] abi_word_concat [OF w, of 1] by simp
  moreover have "length selTransfer = 4" by (simp add: selTransfer_def)
  ultimately show ?thesis unfolding TransferCalldata_def using Classify_pack [where selector = selector, OF assms(1) _ recognizer_at(2), where ws = ?ws] by simp
qed

text \<open>Trailing bytes are never read.\<close>

lemma abi_word_append: "abi_word body i = Some w \<Longrightarrow> abi_word (body @ extra) i = Some w"
  by (auto simp: abi_word_def split: if_splits)

lemma word_append:
  "wordAddr B body i = Some a \<Longrightarrow> wordAddr B (body @ extra) i = Some a"
  "wordBig body i = Some v \<Longrightarrow> wordBig (body @ extra) i = Some v"
  "wordBool body i = Some b \<Longrightarrow> wordBool (body @ extra) i = Some b"
  by (auto simp: wordAddr_def wordBig_def wordBool_def abi_word_append split: option.split_asm)

lemma recognizer_append:
  "(sel, decode) \<in> set (recognizers B) \<Longrightarrow> decode body = Some c \<Longrightarrow> decode (body @ extra) = Some c"
  by (auto simp: recognizers_def Let_def bind_eq_Some_conv word_append)

lemma Classify_append:
  "ClassifySelector B data = Some c \<Longrightarrow> ClassifySelector B (data @ extra) = Some c"
  by (auto simp: ClassifySelector_def split: if_splits option.splits intro: recognizer_append dest!: map_of_SomeD)

lemma Classify_kind: "ClassifySelector B data = Some c \<Longrightarrow> sc_Kind c = RecApprove \<or> sc_Kind c = RecTransfer"
  by (auto simp: ClassifySelector_def recognizers_def Let_def bind_eq_Some_conv approval_def movement_def
      split: if_splits option.splits dest!: map_of_SomeD)

section \<open>Properties\<close>

lemma sentinels_agree: "isSentinel a = IsUnlimitedAmount a" "IsUnlimitedAmount a = isUnlimitedAmount a"
  by (simp_all add: isSentinel_def IsUnlimitedAmount_def isUnlimitedAmount_def split: option.split)

definition spend_check :: "string \<Rightarrow> Kind \<Rightarrow> address \<Rightarrow> address \<Rightarrow> int \<Rightarrow> bool \<Rightarrow> int option \<Rightarrow> Check" where
  "spend_check kind k contract dest amount unl value = zero_check\<lparr>ck_Kind := kind, ck_KindEnum := k, ck_Dest := dest,
     ck_Token := lowerHex contract, ck_Asset := lowerHex contract, ck_TokenAmt := Some amount, ck_Unlimited := unl, ck_SpendWei := value\<rparr>"

lemma calldata_recognised:
  assumes "selector sigApprove = selApprove" "selector sigTransfer = selTransfer" "addr_codec A B a" "0 \<le> x" "x < 2 ^ 256"
  shows "ClassifyCalldata B contract (ApproveCalldata selector A a (Some x) @ extra) value
      = Some [spend_check ''approve'' KindApprove contract a x (IsUnlimitedAmount (Some x)) value]
    \<and> ClassifyCalldata B contract (TransferCalldata selector A a (Some x) @ extra) value
      = Some [spend_check ''transfer'' KindTransfer contract a x False value]"
  using Classify_append [OF Classify_approve [where selector = selector and A = A and B = B, OF assms(1,3-5)], of extra]
    Classify_append [OF Classify_transfer [where selector = selector and A = A and B = B, OF assms(2-5)], of extra]
  by (simp add: ClassifyCalldata_def approval_def movement_def spend_check_def sentinels_agree)

text \<open>Raw calldata cannot dodge the typed ceremonies: the bytes that \<open>token approve\<close> and \<open>tx send --token\<close> build, sent as raw
  calldata and with any bytes appended, are recognised as exactly that approval of the encoded spender or that
  transfer to the encoded recipient, with the encoded amount, flagged unlimited by the same sentinels as the typed
  path, and with the attached ether counted.  (Hypotheses: the two Keccak selectors and the twenty-byte address codec.)\<close>

lemma raw_calldata_recognised:
  assumes "selector sigApprove = selApprove" "selector sigTransfer = selTransfer" "addr_codec A B a" "0 \<le> x" "x < 2 ^ 256"
  shows "ClassifyCalldata B contract (ApproveCalldata selector A a (Some x) @ extra) value
      = Some [spend_check ''approve'' KindApprove contract a x (IsUnlimitedAmount (Some x)) value]
    \<and> ClassifyCalldata B contract (TransferCalldata selector A a (Some x) @ extra) value
      = Some [spend_check ''transfer'' KindTransfer contract a x False value]"
  by (rule calldata_recognised [OF assms])

definition demo_selector :: "string \<Rightarrow> bytes" where
  "demo_selector sig = (if sig = sigApprove then selApprove else selTransfer)"


text \<open>A Permit2 call sent as raw calldata is recognised without reading its body: whatever spender and amount the
  struct carries, the check names the zero address, carries no amount and is not flagged unlimited, so the stage that
  demands an acknowledgement for unlimited grants never fires for it.\<close>

lemma permit2_calldata_skips_ceremony:
  assumes "take 4 data = selPermit2Allowance \<or> take 4 data = selPermit2Transfer"
  shows "\<exists>c. ClassifyCalldata B contract data value = Some [c] \<and> effectiveKind c = KindApprove \<and> ck_Dest c = zero_address
    \<and> ck_TokenAmt c = None \<and> \<not> ck_Unlimited c \<and> (\<forall>p net acked. stageUnlimited p (c\<lparr>ck_Network := net, ck_Acked := acked\<rparr>) KindApprove = None)"
proof -
  have "length (take 4 data) = length selPermit2Allowance \<or> length (take 4 data) = length selPermit2Transfer"
    using assms by (metis (no_types))
  hence "length data \<ge> 4" by (auto simp: selector_defs)
  hence "ClassifySelector B data = Some (approval zero_address None False)"
    using assms recognizer_at(5,6) [of B] by (auto simp: ClassifySelector_def)
  thus ?thesis by (simp add: ClassifyCalldata_def approval_def zero_check_def effectiveKind_def stageUnlimited_def isUnlimitedAmount_def)
qed


end
