(* ===== verification/Tx_Intent.thy ===== *)
theory Tx_Intent
  imports Tx_Recover Calldata
begin

text \<open>
  The resolved send of \<open>service/tx.go\<close> and how it becomes a policy check: the asset and destination of an
  \<open>Intent\<close>, the provenance of a named destination against the allow-time pins of the policy
  (\<open>AllowlistPin\<close> of \<open>policy/admin.go\<close>), the classification of raw calldata, the check-only \<open>dryRun\<close>, the
  unsigned transaction, and the journal record and result built from it.  The dialed client, the signing
  reference and the passphrase of the Go struct are not part of the record: what the client answers and what
  the signer returns are arguments of the operations that use them.
\<close>

section \<open>Data\<close>

datatype policyKind = policyKindDefault | policyKindApprove

record Intent =
  in_chainID :: int
  in_network :: string
  in_rpc :: string
  in_from :: address
  in_dest :: Dest
  in_to :: address
  in_value :: int
  in_data :: bytes
  in_policyDest :: address
  in_policyKind :: policyKind
  in_tokenAmt :: "int option"
  in_unlimited :: bool
  in_acked :: bool
  in_kind :: string
  in_asset :: Asset
  in_assetSymbol :: string
  in_gas :: Quote
  in_nonce :: "(64 word) option"
  in_replaces :: "string option"
  in_isContractSend :: bool
  in_source :: string

abbreviation (input) "KindETHTransfer \<equiv> ''eth-transfer''"
abbreviation (input) "KindERC20Transfer \<equiv> ''erc20-transfer''"
abbreviation (input) "KindERC721Transfer \<equiv> ''erc721-transfer''"
abbreviation (input) "KindERC1155Transfer \<equiv> ''erc1155-transfer''"

section \<open>The policy check of an intent\<close>

definition checkDest :: "Intent \<Rightarrow> address" where
  "checkDest i = (if in_policyDest i \<noteq> zero_address then in_policyDest i else in_to i)"

definition isTokenOp :: "Intent \<Rightarrow> bool" where
  "isTokenOp i = (if in_policyKind i = policyKindApprove then True
     else if in_data i = [] then False
     else in_kind i \<in> {KindERC20Transfer, KindERC721Transfer, KindERC1155Transfer})"

definition checkAsset :: "Intent \<Rightarrow> string" where
  "checkAsset i = (if isTokenOp i then ToLower (in_to i) else ''eth'')"

definition tokenTag :: "Intent \<Rightarrow> string" where
  "tokenTag i = (if isTokenOp i then ToLower (in_to i) else [])"

definition policyCheckKind :: "Intent \<Rightarrow> string" where
  "policyCheckKind i = (if in_policyKind i = policyKindApprove then ''approve'' else in_kind i)"

definition perGasPrice :: "Quote \<Rightarrow> int option" where
  "perGasPrice q = (if Legacy q then GasPrice q else MaxFeePerGas q)"

definition worst_case :: "Intent \<Rightarrow> int" where
  "worst_case i = (case WorstCaseGasWei (in_gas i) of None \<Rightarrow> 0 | Some w \<Rightarrow> w)"

text \<open>The check both \<open>authorize\<close> and \<open>dryRun\<close> start from.\<close>

definition intent_check :: "Intent \<Rightarrow> (64 word) option \<Rightarrow> Check" where
  "intent_check i nonce = zero_check\<lparr>ck_Account := in_from i, ck_Dest := checkDest i, ck_SpendWei := Some (in_value i),
     ck_MaxGasWei := Some (worst_case i), ck_MaxFeePerGas := perGasPrice (in_gas i), ck_Kind := policyCheckKind i,
     ck_IsRBFDelta := (in_replaces i \<noteq> None), ck_Network := in_network i, ck_Token := tokenTag i, ck_Asset := checkAsset i,
     ck_TokenAmt := in_tokenAmt i, ck_Unlimited := in_unlimited i, ck_Acked := in_acked i, ck_AccountNonce := nonce\<rparr>"

fun pin_scan :: "(string \<Rightarrow> address) \<Rightarrow> string \<Rightarrow> string \<Rightarrow> PinEntry list \<Rightarrow> address option" where
  "pin_scan HexToAddress source name [] = None"
| "pin_scan HexToAddress source name (a # as) =
     (if pin_Source a = source \<and> pin_Name a \<noteq> [] \<and> EqualFold (pin_Name a) name \<and> pin_Address a \<noteq> []
      then Some (HexToAddress (pin_Address a)) else pin_scan HexToAddress source name as)"

definition AllowlistPin :: "(string \<Rightarrow> address) \<Rightarrow> Policy option result \<Rightarrow> string \<Rightarrow> string \<Rightarrow> address option result" where
  "AllowlistPin HexToAddress pol source name = (if name = [] then Inr None else case pol of
       Inl e \<Rightarrow> Inl e
     | Inr None \<Rightarrow> Inr None
     | Inr (Some p) \<Rightarrow> Inr (pin_scan HexToAddress source name (po_Allowlist p)))"

definition applyDestProvenance :: "(string \<Rightarrow> address) \<Rightarrow> Policy option result \<Rightarrow> Intent \<Rightarrow> Check \<Rightarrow> Check result" where
  "applyDestProvenance HexToAddress pol i check =
    (let fresh = checkDest i; pinned = (\<lambda>r. case r of None \<Rightarrow> fresh | Some pin \<Rightarrow> pin) in
     if ds_Via (in_dest i) = ''ens'' then
       (case AllowlistPin HexToAddress pol ''ens'' (ds_ENSName (in_dest i)) of Inl e \<Rightarrow> Inl e
        | Inr r \<Rightarrow> Inr (check\<lparr>ck_ToSrc := SourceENS, ck_ENSName := ds_ENSName (in_dest i), ck_ToInput := ds_ENSName (in_dest i),
            ck_ENSResolved := fresh, ck_Dest := pinned r\<rparr>))
     else if ds_Via (in_dest i) = ''contact'' then
       (case AllowlistPin HexToAddress pol ''contact'' (ds_Name (in_dest i)) of Inl e \<Rightarrow> Inl e
        | Inr r \<Rightarrow> Inr (check\<lparr>ck_ToSrc := SourceContact, ck_ToInput := ds_Name (in_dest i),
            ck_ENSResolved := fresh, ck_Dest := pinned r\<rparr>))
     else Inr (check\<lparr>ck_ToSrc := SourceRawAddress\<rparr>))"

text \<open>\<open>classifyContractSend\<close> returns the rewritten check and the verdict it leaves on the intent.\<close>

definition classifyContractSend :: "(bytes \<Rightarrow> address) \<Rightarrow> Intent \<Rightarrow> Check \<Rightarrow> Check \<times> Classification option" where
  "classifyContractSend BytesToAddress i check = (if \<not> in_isContractSend i then (check, None)
     else let lower = ToLower (in_to i);
              unknown = (check\<lparr>ck_UnknownCalldata := True, ck_ContractAddr := in_to i, ck_Selector := SelectorHex (in_data i),
                  ck_Dest := in_to i, ck_ToSrc := SourceRawAddress\<rparr>,
                Some \<lparr>cl_ClassifiedAs = ''unknown'', cl_Spender = [], cl_Recipient = [], cl_Unlimited = False,
                  cl_Selector = SelectorHex (in_data i), cl_Contract = lower\<rparr>) in
       case ClassifyCalldata BytesToAddress (in_to i) (in_data i) (Some (in_value i)) of
         None \<Rightarrow> unknown
       | Some [] \<Rightarrow> unknown
       | Some (cc # _) \<Rightarrow>
          (check\<lparr>ck_Kind := ck_Kind cc, ck_KindEnum := ck_KindEnum cc, ck_Dest := ck_Dest cc, ck_Token := ck_Token cc,
             ck_Asset := ck_Asset cc, ck_TokenAmt := ck_TokenAmt cc, ck_Unlimited := ck_Unlimited cc,
             ck_ToSrc := SourceRawAddress, ck_ToInput := [], ck_ENSName := [], ck_ENSResolved := zero_address\<rparr>,
           Some \<lparr>cl_ClassifiedAs = ck_Kind cc,
             cl_Spender = (if ck_KindEnum cc = KindApprove then ToLower (ck_Dest cc) else []),
             cl_Recipient = (if ck_KindEnum cc = KindTransfer then ToLower (ck_Dest cc) else []),
             cl_Unlimited = ck_Unlimited cc, cl_Selector = [], cl_Contract = lower\<rparr>))"

text \<open>The check handed to the engine: provenance, then classification.\<close>

definition full_check :: "(string \<Rightarrow> address) \<Rightarrow> (bytes \<Rightarrow> address) \<Rightarrow> Policy option result \<Rightarrow> Intent \<Rightarrow> (64 word) option \<Rightarrow> Check result" where
  "full_check HexToAddress BytesToAddress pol i nonce = map_sum id (\<lambda>c. fst (classifyContractSend BytesToAddress i c))
     (applyDestProvenance HexToAddress pol i (intent_check i nonce))"

definition overlayBaseFee :: "Error \<Rightarrow> int option \<Rightarrow> Error" where
  "overlayBaseFee err baseFee = (case baseFee of None \<Rightarrow> err
     | Some b \<Rightarrow> if Code err \<noteq> codeGasCap then err else WithData err [(''current_base_fee'', JStr (int_dec b))])"

section \<open>Results and records\<close>

definition feesRecord :: "Quote \<Rightarrow> JFees" where
  "feesRecord q = \<lparr>jf_Type = (if Legacy q then ''legacy'' else ''eip1559''), jf_GasLimit = GasLimit q,
     jf_MaxFeePerGas = (if Legacy q then None else map_option int_dec (MaxFeePerGas q)),
     jf_MaxPriorityPerGas = (if Legacy q then None else map_option int_dec (PriorityFee q)),
     jf_GasPrice = (if Legacy q then map_option int_dec (GasPrice q) else None), jf_Speed = Speed_String (q_Speed q)\<rparr>"

definition overlayDestProvenance :: "Dest \<Rightarrow> Dest \<Rightarrow> Dest" where
  "overlayDestProvenance fromRecord mem =
    (if ds_Via mem = [] \<and> ds_Name mem = [] \<and> ds_ENSName mem = [] then fromRecord
     else if ds_Address fromRecord \<noteq> ds_Address mem then fromRecord
     else fromRecord\<lparr>ds_Name := ds_Name mem, ds_Via := ds_Via mem, ds_ENSName := ds_ENSName mem\<rparr>)"

datatype Transaction =
    LegacyTx "64 word" "int option" "64 word" address int bytes
  | DynamicFeeTx int "64 word" "int option" "int option" "64 word" address int bytes

definition buildTx :: "Intent \<Rightarrow> 64 word \<Rightarrow> Transaction" where
  "buildTx i nonce = (let q = in_gas i in
     if Legacy q then LegacyTx nonce (GasPrice q) (GasLimit q) (in_to i) (in_value i) (in_data i)
     else DynamicFeeTx (in_chainID i) nonce (PriorityFee q) (MaxFeePerGas q) (GasLimit q) (in_to i) (in_value i) (in_data i))"

definition chain_of :: "Intent \<Rightarrow> 64 word" where
  "chain_of i = word_of_int (in_chainID i)"

definition signedRecord :: "Intent \<Rightarrow> 64 word \<Rightarrow> string \<Rightarrow> bytes \<Rightarrow> string \<Rightarrow> int \<Rightarrow> Record" where
  "signedRecord i nonce hash raw reservationID worst =
    \<lparr>re_V = 1, re_ID = [], re_Seq = 0, re_TS = None, re_ChainID = chain_of i, re_Network = in_network i, re_Kind = in_kind i,
     re_Status = StatusSigned, re_Source = in_source i, re_From = in_from i, re_To = in_to i, re_Nonce = nonce,
     re_TxHash = hash, re_RawTx = hexBytes raw, re_ValueWei = int_dec (in_value i), re_Asset = in_asset i,
     re_Fees = feesRecord (in_gas i), re_ReservationID = reservationID, re_WorstCaseGasWei = int_dec worst,
     re_Replaces = in_replaces i, re_ReplacedBy = None, re_Receipt = None, re_Error = None, re_RPC = in_rpc i\<rparr>"

section \<open>Dry run\<close>

definition dryRun :: "(string \<Rightarrow> address) \<Rightarrow> (bytes \<Rightarrow> address) \<Rightarrow> Policy option result \<Rightarrow> Policy option result \<Rightarrow> env \<Rightarrow> Intent \<Rightarrow> engine \<Rightarrow> TxResult result \<times> engine" where
  "dryRun HexToAddress BytesToAddress pinpol pol ev i en =
    (case applyDestProvenance HexToAddress pinpol i (intent_check i (in_nonce i)) of
       Inl e \<Rightarrow> (Inl e, en)
     | Inr check0 \<Rightarrow>
       (case classifyContractSend BytesToAddress i check0 of (check, cls) \<Rightarrow>
         (case Engine_Evaluate pol ev check en of
            (Inl e, en') \<Rightarrow> (Inl e, en')
          | (Inr dec, en') \<Rightarrow>
             if \<not> de_Allowed dec then
               (let code = (if de_Code dec = [] then codeDenied else de_Code dec);
                    de = WithData (New code) (de_Data dec);
                    de' = (case de_RetryAfter dec of None \<Rightarrow> de | Some t \<Rightarrow> WithData de [(''retry_after'', JTime t)]) in
                (Inl (overlayBaseFee de' (BaseFee (in_gas i))), en'))
             else (Inr (zero_result\<lparr>tr_Network := in_network i, tr_From := in_from i, tr_To := in_dest i,
               tr_Asset := wireAsset (in_asset i) (in_assetSymbol i), tr_AmountWei := int_dec (in_value i),
               tr_Gas := Quote_result (in_gas i), tr_Status := TxPending, tr_DryRun := True, tr_Classification := cls\<rparr>), en'))))"

end
