(* ===== verification/Tx_Wait.thy ===== *)
theory Tx_Wait
  imports Tx_Recover
begin

text \<open>
  The status, wait and list use cases of \<open>service/txstatus.go\<close>.  The wait loop polls the chain: each round
  reads the journal, observes the transaction, rebroadcasts a dropped one, looks at the clock and sleeps.
  The loop carries the clock, which a round advances by the time its work takes and a sleep by the interval, and
  runs over the list of environments its rounds meet; \<open>None\<close> means that it is still running
  when the list ends, and a theorem bounds the number of rounds.  Durations and instants are integers
  (nanoseconds).
\<close>

section \<open>Settings\<close>

definition minPollInterval :: int where
  "minPollInterval = 100000000"

definition floorPoll :: "int \<Rightarrow> int" where
  "floorPoll d = (if d < minPollInterval then minPollInterval else d)"

fun firstNonEmpty :: "string list \<Rightarrow> string" where
  "firstNonEmpty [] = []"
| "firstNonEmpty (s # ss) = (if s \<noteq> [] then s else firstNonEmpty ss)"

text \<open>The settings of the service: the network of this process, the configured default network, the
  confirmation counts of the configured networks, and the wait defaults.\<close>

record wcfg =
  wc_defaultNetwork :: string
  wc_cfgNetwork :: string
  wc_confirmations :: "string \<Rightarrow> int option"
  wc_WaitTimeout :: int
  wc_PollInterval :: int

definition networkName :: "wcfg \<Rightarrow> string \<Rightarrow> string" where
  "networkName cfg req = firstNonEmpty [req, wc_defaultNetwork cfg, wc_cfgNetwork cfg]"

definition confirmTarget :: "wcfg \<Rightarrow> string \<Rightarrow> (64 word) option \<Rightarrow> 64 word" where
  "confirmTarget cfg network override = (case override of Some n \<Rightarrow> n
     | None \<Rightarrow> (case wc_confirmations cfg (networkName cfg network) of
         Some n \<Rightarrow> if n > 0 then word_of_int n else 1 | None \<Rightarrow> 1))"

section \<open>The wait loop\<close>

text \<open>What one round meets: its faults and answers, the time that passes before it reads the clock (beyond the sleep of the
  round before), and whether its sleep is cut short by a cancelled context (\<open>we_sleep = Some _\<close>).\<close>

record wenv =
  we_read :: lockfault
  we_obs :: oenv
  we_re :: renv
  we_elapsed :: nat
  we_sleep :: "goerr option"

record WaitOpts =
  wo_Enabled :: bool
  wo_Confirmations :: "(64 word) option"
  wo_Timeout :: int

text \<open>The loop variables: the last confirmation count, and the counts emitted so far as progress events.\<close>

type_synonym wstate = "64 word \<times> (64 word) list"

definition timed_out :: "string \<Rightarrow> TxResult \<Rightarrow> TxResult \<times> jerr option" where
  "timed_out hash res = (let resume = ''daxie tx wait '' @ hash in
     (res\<lparr>tr_Status := TxTimeout, tr_Resume := resume\<rparr>,
      Some (JErr (WithData (New ''tx.wait_timeout'') [(''resume'', JStr resume), (''status'', JStr ''pending'')]))))"

text \<open>The classification of one poll: the finished wait, or the loop variables to go on with.\<close>

definition wait_step :: "(string \<Rightarrow> address) \<Rightarrow> (string \<Rightarrow> string) \<Rightarrow> 64 word \<Rightarrow> wenv \<Rightarrow> Record option
    \<Rightarrow> TxResult \<Rightarrow> waitState \<Rightarrow> wstate \<Rightarrow> kstate \<Rightarrow> (TxResult \<times> jerr option) option \<times> wstate \<times> kstate" where
  "wait_step HexToAddress HexToHash target we rec res st w k = (case w of (lastConf, evs) \<Rightarrow>
     (let seen = (if tr_Confirmations res > lastConf then evs @ [tr_Confirmations res] else evs) in
      case st of
        waitConfirmed \<Rightarrow> (Some (res, None), (lastConf, seen), k)
      | waitReverted \<Rightarrow> (Some (res, Some (JErr (New ''tx.reverted''))), w, k)
      | waitReplaced \<Rightarrow> (Some (res, Some (JErr (New ''tx.replaced''))), w, k)
      | waitMined \<Rightarrow>
          (let lastConf' = (if tr_Confirmations res > lastConf then tr_Confirmations res else lastConf) in
           if tr_Confirmations res \<ge> target then (Some (res\<lparr>tr_Status := TxConfirmed\<rparr>, None), (lastConf', seen), k)
           else (None, (lastConf', seen), k))
      | waitDropped \<Rightarrow> (case rec of None \<Rightarrow> (None, w, k)
          | Some r \<Rightarrow> (case rebroadcast HexToAddress HexToHash (we_re we) r k of
                (Inl e, k') \<Rightarrow> (Some (res, Some e), w, k') | (Inr _, k') \<Rightarrow> (None, w, k')))
      | waitPending \<Rightarrow> (None, w, k)))"

text \<open>The rest of a round after the journal lookup: observe, act, check the deadline against the clock, sleep.\<close>

definition wait_poll :: "(string \<Rightarrow> address) \<Rightarrow> (string \<Rightarrow> string) \<Rightarrow> 64 word \<Rightarrow> string \<Rightarrow> string \<Rightarrow> 64 word \<Rightarrow> int \<Rightarrow> int
    \<Rightarrow> wenv \<Rightarrow> wstate \<Rightarrow> Record option \<Rightarrow> kstate \<Rightarrow> (TxResult \<times> jerr option) option \<times> wstate \<times> kstate" where
  "wait_poll HexToAddress HexToHash c network hash target deadline now we w rec k =
    (case observe HexToAddress (we_obs we) c hash rec network target k of
       ((res, st, Some e), k1) \<Rightarrow> (Some (res, Some e), w, k1)
     | ((res, st, None), k1) \<Rightarrow> (case wait_step HexToAddress HexToHash target we rec res st w k1 of
          (Some done, w', k2) \<Rightarrow> (Some done, w', k2)
        | (None, w', k2) \<Rightarrow>
           if \<not> now < deadline then (Some (timed_out hash res), w', k2)
           else if we_sleep we \<noteq> None then (Some (timed_out hash res), w', k2)
           else (None, w', k2)))"

definition wait_round :: "(string \<Rightarrow> address) \<Rightarrow> (string \<Rightarrow> string) \<Rightarrow> 64 word \<Rightarrow> string \<Rightarrow> string \<Rightarrow> 64 word \<Rightarrow> int \<Rightarrow> int
    \<Rightarrow> wenv \<Rightarrow> wstate \<Rightarrow> kstate \<Rightarrow> (TxResult \<times> jerr option) option \<times> wstate \<times> kstate" where
  "wait_round HexToAddress HexToHash c network hash target deadline now we w k =
    (case ByHash HexToHash (we_read we) hash (journal_of k c) of
       Inl JNotFound \<Rightarrow> wait_poll HexToAddress HexToHash c network hash target deadline now we w None k
     | Inl e \<Rightarrow> (Some (zero_result, Some e), w, k)
     | Inr r \<Rightarrow> wait_poll HexToAddress HexToHash c network hash target deadline now we w (Some r) k)"

text \<open>\<open>poll\<close> is the interval slept between two rounds, \<open>now\<close> the clock when the round starts.\<close>

fun wait_loop :: "(string \<Rightarrow> address) \<Rightarrow> (string \<Rightarrow> string) \<Rightarrow> 64 word \<Rightarrow> string \<Rightarrow> string \<Rightarrow> 64 word \<Rightarrow> int \<Rightarrow> int \<Rightarrow> int
    \<Rightarrow> wenv list \<Rightarrow> wstate \<Rightarrow> kstate \<Rightarrow> (TxResult \<times> jerr option) option \<times> wstate \<times> kstate" where
  "wait_loop HexToAddress HexToHash c network hash target deadline poll now [] w k = (None, w, k)"
| "wait_loop HexToAddress HexToHash c network hash target deadline poll now (we # wes) w k =
    (case wait_round HexToAddress HexToHash c network hash target deadline (now + int (we_elapsed we)) we w k of
       (Some done, w', k') \<Rightarrow> (Some done, w', k')
     | (None, w', k') \<Rightarrow> wait_loop HexToAddress HexToHash c network hash target deadline poll (now + int (we_elapsed we) + poll) wes w' k')"

text \<open>\<open>start\<close> is the clock when the wait begins.\<close>

definition effective_timeout :: "wcfg \<Rightarrow> WaitOpts \<Rightarrow> int" where
  "effective_timeout cfg wo = (if wo_Timeout wo \<le> 0 then wc_WaitTimeout cfg else wo_Timeout wo)"

definition waitOnHash :: "(string \<Rightarrow> address) \<Rightarrow> (string \<Rightarrow> string) \<Rightarrow> wcfg \<Rightarrow> 64 word \<Rightarrow> string \<Rightarrow> string \<Rightarrow> WaitOpts \<Rightarrow> int
    \<Rightarrow> wenv list \<Rightarrow> kstate \<Rightarrow> (TxResult \<times> jerr option) option \<times> wstate \<times> kstate" where
  "waitOnHash HexToAddress HexToHash cfg c network hash wo start wes k =
     wait_loop HexToAddress HexToHash c network hash (confirmTarget cfg network (wo_Confirmations wo))
       (start + effective_timeout cfg wo) (floorPoll (wc_PollInterval cfg)) start wes (0, []) k"

section \<open>Status and list\<close>

text \<open>What a query meets: the dialed chain or the error, the resurrection, the journal read, the poll.\<close>

record qenv =
  qe_chain :: "jerr + 64 word"
  qe_unresolved :: lockfault
  qe_re :: "string \<Rightarrow> renv"
  qe_read :: lockfault
  qe_obs :: oenv

definition TxStatus_query :: "(string \<Rightarrow> address) \<Rightarrow> (string \<Rightarrow> string) \<Rightarrow> wcfg \<Rightarrow> qenv \<Rightarrow> string \<Rightarrow> string \<Rightarrow> kstate \<Rightarrow> (jerr + TxResult) \<times> kstate" where
  "TxStatus_query HexToAddress HexToHash cfg qe reqHash reqNetwork k = (case parseHash HexToHash reqHash of
       Inl e \<Rightarrow> (Inl (JErr e), k)
     | Inr hash \<Rightarrow> (case qe_chain qe of
           Inl e \<Rightarrow> (Inl e, k)
         | Inr c \<Rightarrow>
            (let k1 = resurrectUnresolved HexToAddress HexToHash (qe_unresolved qe) (qe_re qe) c k;
                 look = (\<lambda>rec. case observe HexToAddress (qe_obs qe) c hash rec (networkName cfg reqNetwork)
                     (confirmTarget cfg reqNetwork None) k1 of
                   ((res, st, Some e), k2) \<Rightarrow> (Inl e, k2) | ((res, st, None), k2) \<Rightarrow> (Inr res, k2)) in
             case ByHash HexToHash (qe_read qe) hash (journal_of k1 c) of
               Inl JNotFound \<Rightarrow> look None
             | Inl e \<Rightarrow> (Inl e, k1)
             | Inr r \<Rightarrow> look (Some r))))"

text \<open>\<open>account\<close> is the resolved account filter, or the error of resolving it.\<close>

definition ListTxs :: "(string \<Rightarrow> address) \<Rightarrow> (string \<Rightarrow> string) \<Rightarrow> qenv \<Rightarrow> (Error + address option) \<Rightarrow> int \<Rightarrow> kstate \<Rightarrow> (jerr + TxRow list) \<times> kstate" where
  "ListTxs HexToAddress HexToHash qe account limit k = (case qe_chain qe of
       Inl e \<Rightarrow> (Inl e, k)
     | Inr c \<Rightarrow>
        (let k1 = resurrectUnresolved HexToAddress HexToHash (qe_unresolved qe) (qe_re qe) c k in
         case account of Inl e \<Rightarrow> (Inl (JErr e), k1)
         | Inr addr \<Rightarrow> (case List_records HexToAddress (qe_read qe) addr (journal_of k1 c) of
               Inl e \<Rightarrow> (Inl e, k1)
             | Inr recs \<Rightarrow> (Inr (map txRow (if limit > 0 then take (nat limit) recs else recs)), k1))))"

section \<open>Lemmas\<close>

lemma wait_round_deadline:
  "deadline \<le> now \<Longrightarrow> fst (wait_round H HH c network hash target deadline now we w k) \<noteq> None"
  by (simp add: wait_round_def wait_poll_def split: sum.split jerr.split prod.split option.split)

text \<open>Each sleep moves the clock on by the interval, so the rounds run out of time.\<close>

lemma wait_loop_deadline:
  assumes "0 < poll"
  shows "deadline \<le> now + int n * poll \<Longrightarrow> n < length wes \<Longrightarrow>
     fst (wait_loop H HH c network hash target deadline poll now wes w k) \<noteq> None"
proof (induction wes arbitrary: now n w k)
  case (Cons we wes)
  let ?now = "now + int (we_elapsed we)"
  obtain o1 w1 k1 where r: "wait_round H HH c network hash target deadline ?now we w k = (o1, w1, k1)" by (metis prod_cases3)
  show ?case
  proof (cases o1)
    case None
    hence "\<not> deadline \<le> ?now" using wait_round_deadline r by (metis fst_conv)
    then obtain m where m: "n = Suc m" using Cons.prems(1) by (cases n) auto
    hence "deadline \<le> (?now + poll) + int m * poll" using Cons.prems(1) by (simp add: algebra_simps)
    thus ?thesis using Cons.IH [of "?now + poll" m w1 k1] Cons.prems(2) None m r by simp
  qed (simp add: r)
qed simp

lemma floorPoll_pos: "0 < floorPoll d" "minPollInterval \<le> floorPoll d"
  by (simp_all add: floorPoll_def minPollInterval_def)

text \<open>A result of one poll that the loop reports as finished.\<close>

lemma observe_confirmed:
  "observe H oe c hash rec network target k = ((res, waitConfirmed, None), k') \<Longrightarrow>
     tr_Status res = TxConfirmed \<and> target \<le> tr_Confirmations res"
  by (auto simp: observe_def Let_def split: sum.split_asm option.split_asm if_split_asm)

lemma observe_hash: "observe H oe c hash rec network target k = ((res, st, e), k') \<Longrightarrow> tr_Hash res = hash"
  by (auto simp: observe_def recordResult_def Let_def split: sum.split_asm option.split_asm if_split_asm)

definition events_ok :: "wstate \<Rightarrow> bool" where
  "events_ok w \<longleftrightarrow> sorted_wrt (<) (snd w) \<and> (\<forall>n \<in> set (snd w). n \<le> fst w)"

lemma wait_step_events:
  assumes "wait_step H HH target we rec res st w k = (out, w', k')" "events_ok w"
  shows "sorted_wrt (<) (snd w') \<and> (out = None \<longrightarrow> events_ok w')"
  using assms
  by (auto simp: wait_step_def events_ok_def Let_def sorted_wrt_append
      split: prod.split_asm waitState.split_asm option.split_asm if_split_asm sum.split_asm) (metis order.strict_trans1 order.strict_implies_order)+

lemma wait_step_success:
  assumes "wait_step H HH target we rec res st w k = (Some (r, None), w', k')"
    and "st = waitConfirmed \<Longrightarrow> tr_Status res = TxConfirmed \<and> target \<le> tr_Confirmations res"
  shows "tr_Status r = TxConfirmed \<and> target \<le> tr_Confirmations r \<and> tr_Hash r = tr_Hash res"
  using assms
  by (auto simp: wait_step_def Let_def split: prod.split_asm waitState.split_asm option.split_asm if_split_asm sum.split_asm)

text \<open>One round: what it keeps of the events, and when it ends the wait with success.\<close>

lemma wait_poll_ok:
  assumes "wait_poll H HH c network hash target deadline now we w rec k = (out, w', k')"
  shows "(events_ok w \<longrightarrow> sorted_wrt (<) (snd w') \<and> (out = None \<longrightarrow> events_ok w'))
    \<and> (out = Some (r, None) \<longrightarrow> tr_Status r = TxConfirmed \<and> target \<le> tr_Confirmations r \<and> tr_Hash r = hash)"
proof -
  obtain res st e k1 where o: "observe H (we_obs we) c hash rec network target k = ((res, st, e), k1)" by (metis prod_cases4 prod.collapse)
  obtain out1 w1 k2 where t: "wait_step H HH target we rec res st w k1 = (out1, w1, k2)" by (metis prod_cases3)
  show ?thesis
  proof (cases e)
    case None
    have "st = waitConfirmed \<Longrightarrow> tr_Status res = TxConfirmed \<and> target \<le> tr_Confirmations res"
      using observe_confirmed o None by blast
    thus ?thesis using assms None o t wait_step_events [OF t] observe_hash [OF o] wait_step_success [of H HH target we rec res st w k1 r w1 k2]
      by (auto simp: wait_poll_def timed_out_def Let_def split: option.split_asm if_split_asm)
  qed (use assms o in \<open>auto simp: wait_poll_def events_ok_def\<close>)
qed

lemma wait_round_ok:
  assumes "wait_round H HH c network hash target deadline now we w k = (out, w', k')"
  shows "events_ok w \<Longrightarrow> sorted_wrt (<) (snd w') \<and> (out = None \<longrightarrow> events_ok w')"
    and "out = Some (r, None) \<Longrightarrow> tr_Status r = TxConfirmed \<and> target \<le> tr_Confirmations r \<and> tr_Hash r = hash"
  using assms wait_poll_ok [of H HH c network hash target deadline now we w _ k out w' k' r]
  by (auto simp: wait_round_def events_ok_def split: sum.split_asm jerr.split_asm)

lemma wait_loop_events:
  "wait_loop H HH c network hash target deadline poll now wes w k = (out, w', k') \<Longrightarrow> events_ok w \<Longrightarrow> sorted_wrt (<) (snd w')"
proof (induction wes arbitrary: now w k)
  case (Cons we wes)
  obtain o1 w1 k1 where r: "wait_round H HH c network hash target deadline (now + int (we_elapsed we)) we w k = (o1, w1, k1)"
    by (metis prod_cases3)
  show ?case using Cons.IH [of _ w1 k1] Cons.prems wait_round_ok(1) [OF r Cons.prems(2)] r by (cases o1) auto
qed (simp add: events_ok_def)

lemma wait_loop_success:
  "wait_loop H HH c network hash target deadline poll now wes w k = (Some (r, None), w', k') \<Longrightarrow>
     tr_Status r = TxConfirmed \<and> target \<le> tr_Confirmations r \<and> tr_Hash r = hash"
proof (induction wes arbitrary: now w k)
  case (Cons we wes)
  obtain o1 w1 k1 where r: "wait_round H HH c network hash target deadline (now + int (we_elapsed we)) we w k = (o1, w1, k1)"
    by (metis prod_cases3)
  show ?case
  proof (cases o1)
    case None
    thus ?thesis using Cons r by simp
  next
    case (Some d)
    thus ?thesis using Cons.prems r wait_round_ok(2) [OF r] by auto
  qed
qed simp

section \<open>Properties\<close>

text \<open>C18. The wait always ends: whatever poll interval and timeout are configured (a zero or negative interval
  included), whatever the node, the journal and the policy engine answer and however long each round takes, the loop returns
  within \<open>timeout / floorPoll + 2\<close> rounds, because every sleep moves the clock on by at least the floor.\<close>

theorem wait_terminates:
  assumes "nat (effective_timeout cfg wo div floorPoll (wc_PollInterval cfg)) + 2 \<le> length wes"
  shows "\<exists>res err w k'. waitOnHash H HH cfg c network hash wo start wes k = (Some (res, err), w, k')"
proof -
  let ?p = "floorPoll (wc_PollInterval cfg)" and ?t = "effective_timeout cfg wo"
  let ?i = "nat (?t div ?p) + 1"
  have pos: "0 < ?p" by (rule floorPoll_pos)
  have "?t < (?t div ?p + 1) * ?p" using pos by (metis add.commute floor_divide_lower div_mult_mod_eq distrib_right mult_1 add_strict_left_mono pos_mod_bound)
  also have "\<dots> \<le> int ?i * ?p" by (rule mult_right_mono) (use pos in auto)
  finally have "fst (waitOnHash H HH cfg c network hash wo start wes k) \<noteq> None"
    unfolding waitOnHash_def using assms by (intro wait_loop_deadline [OF pos, of _ _ ?i]) auto
  thus ?thesis by (metis eq_fst_iff not_Some_eq surj_pair)
qed

definition demo_wcfg :: wcfg where
  "demo_wcfg = \<lparr>wc_defaultNetwork = ''mainnet'', wc_cfgNetwork = [], wc_confirmations = (\<lambda>_. None), wc_WaitTimeout = 150000000, wc_PollInterval = 0\<rparr>"

definition demo_wenv :: "nat \<Rightarrow> receipt_answer \<Rightarrow> wenv" where
  "demo_wenv elapsed r = \<lparr>we_read = LockOK, we_obs = \<lparr>ob_receipt = r, ob_head = Inr 9, ob_mined = Inr 0, ob_set = calm, ob_settle = demo_env\<rparr>,
     we_re = demo_renv, we_elapsed = elapsed, we_sleep = None\<rparr>"

theorem wait_terminates_witness:
  "\<exists>res err w k'. waitOnHash (\<lambda>s. s) (\<lambda>s. s) demo_wcfg 1 ''mainnet'' ''0xh'' \<lparr>wo_Enabled = True, wo_Confirmations = None, wo_Timeout = 0\<rparr> 0
     [demo_wenv 5 (Inr None), demo_wenv 0 (Inr None), demo_wenv 7 (Inr None)] demo_kstate = (Some (res, err), w, k')"
  by (rule wait_terminates) (simp add: demo_wcfg_def floorPoll_def minPollInterval_def effective_timeout_def)

text \<open>A wait that ends without an error reports the transaction it was asked about as confirmed with at least
  the requested number of confirmations, and the confirmation counts it announced on the way are strictly increasing.\<close>

lemma wait_success:
  assumes "waitOnHash H HH cfg c network hash wo start wes k = (Some (res, err), w, k')"
  shows "sorted_wrt (<) (snd w) \<and> (err = None \<longrightarrow> tr_Status res = TxConfirmed \<and> tr_Hash res = hash
    \<and> confirmTarget cfg network (wo_Confirmations wo) \<le> tr_Confirmations res)"
proof -
  note run = assms [unfolded waitOnHash_def]
  have "sorted_wrt (<) (snd w)" by (rule wait_loop_events [OF run]) (simp add: events_ok_def)
  moreover have "err = None \<Longrightarrow> tr_Status res = TxConfirmed \<and> tr_Hash res = hash
    \<and> confirmTarget cfg network (wo_Confirmations wo) \<le> tr_Confirmations res"
    using wait_loop_success [of H HH c network hash _ _ _ _ wes _ k res w k'] run by blast
  ultimately show ?thesis by blast
qed

end
