(* ===== verification/Tx_Send.thy ===== *)
theory Tx_Send
  imports Tx_Intent Tx_Wait
begin

text \<open>
  The send kernel of \<open>service/tx.go\<close> and the replacement of \<open>service/rbf.go\<close>: \<open>authorize\<close> (resurrect, account
  lock and nonce, durable reservation, signature, journal record), \<open>broadcast\<close> with its error taxonomy and
  retries, \<open>settle\<close> and its deferred partner \<open>abort\<close>, and \<open>runSend\<close>, which joins them.  What the node, the
  signer, the locks and the disk do in one run is the environment \<open>senv\<close>.
\<close>

section \<open>State\<close>

record authorized =
  au_raw :: bytes
  au_hash :: string
  au_nonce :: "64 word"
  au_chainID :: "64 word"
  au_journalID :: string
  au_reservation :: string
  au_lease :: "address Lease"

datatype broadcastOutcome = outcomeAccepted | outcomeTransportExhausted | outcomeRejected | outcomeNonceTooLow

text \<open>The environment of one send, in the order the kernel meets it.  \<open>sd_sleep n\<close> and \<open>sd_send n\<close> belong to the
  \<open>n\<close>-th broadcast attempt.\<close>

record senv =
  sd_unresolved :: lockfault
  sd_re :: "string \<Rightarrow> renv"
  sd_pending :: "goerr + 64 word"
  sd_acquire :: nenv
  sd_pinpol :: "Policy option result"
  sd_pol :: "Policy option result"
  sd_reserve :: env
  sd_sign :: "Transaction \<Rightarrow> (bytes \<times> string) result"
  sd_append :: jenv
  sd_undo :: env
  sd_sleep :: "nat \<Rightarrow> goerr option"
  sd_send :: "nat \<Rightarrow> goerr option"
  sd_receipt :: receipt_answer
  sd_set :: jenv
  sd_commit :: env
  sd_settle :: env
  sd_lease :: nenv
  sd_abort_read :: lockfault
  sd_abort_set :: jenv
  sd_abort_release :: env
  sd_abort_lease :: nenv

definition set_chain :: "64 word \<Rightarrow> address nstate \<Rightarrow> kstate \<Rightarrow> kstate" where
  "set_chain c st k = k\<lparr>ks_chain := (ks_chain k)(c := st)\<rparr>"

definition acquire :: "(string \<Rightarrow> address) \<Rightarrow> nenv \<Rightarrow> 64 word \<Rightarrow> address \<Rightarrow> 64 word \<Rightarrow> (64 word) option \<Rightarrow> kstate \<Rightarrow> (jerr + address Lease) \<times> kstate" where
  "acquire HexToAddress ne c addr pend forced k =
    (case AcquireNonce HexToAddress ne c addr pend forced (ks_chain k c) of (res, st) \<Rightarrow> (res, set_chain c st k))"

definition lease_commit :: "nenv \<Rightarrow> authorized \<Rightarrow> kstate \<Rightarrow> (jerr + unit) \<times> authorized \<times> kstate" where
  "lease_commit ne a k = (case Lease_Commit id ne (au_lease a) (ks_chain k (au_chainID a)) of
     (res, l, st) \<Rightarrow> (res, a\<lparr>au_lease := l\<rparr>, set_chain (au_chainID a) st k))"

definition lease_release :: "64 word \<Rightarrow> address Lease \<Rightarrow> kstate \<Rightarrow> kstate" where
  "lease_release c l k = (case Lease_Release l (ks_chain k c) of (res, l', st) \<Rightarrow> set_chain c st k)"

definition jAppend :: "jenv \<Rightarrow> 64 word \<Rightarrow> Record \<Rightarrow> kstate \<Rightarrow> (jerr + Record) \<times> kstate" where
  "jAppend je c r k = (case Append je r (journal_of k c) of (res, f) \<Rightarrow> (res, set_journal c f k))"

section \<open>Authorize\<close>

definition overlay_jerr :: "jerr \<Rightarrow> int option \<Rightarrow> jerr" where
  "overlay_jerr e b = (case e of JErr x \<Rightarrow> JErr (overlayBaseFee x b) | _ \<Rightarrow> e)"

definition authorize :: "(string \<Rightarrow> address) \<Rightarrow> (string \<Rightarrow> string) \<Rightarrow> (bytes \<Rightarrow> address) \<Rightarrow> senv \<Rightarrow> Intent \<Rightarrow> kstate \<Rightarrow> (jerr + authorized) \<times> kstate" where
  "authorize HexToAddress HexToHash BytesToAddress se i k =
    (let c = chain_of i; k0 = resurrectUnresolved HexToAddress HexToHash (sd_unresolved se) (sd_re se) c k in
     case sd_pending se of
       Inl e \<Rightarrow> (Inl (JErr (mapRPCErr e)), k0)
     | Inr pend \<Rightarrow> (case acquire HexToAddress (sd_acquire se) c (in_from i) pend (in_nonce i) k0 of
         (Inl e, k1) \<Rightarrow> (Inl e, k1)
       | (Inr l, k1) \<Rightarrow> (case full_check HexToAddress BytesToAddress (sd_pinpol se) i (Some (le_nonce l)) of
           Inl e \<Rightarrow> (Inl (JErr e), lease_release c l k1)
         | Inr check \<Rightarrow> (case on_engine (Reserve (sd_pol se) (sd_reserve se) check) k1 of
             (Inl e, k2) \<Rightarrow> (Inl (overlay_jerr e (BaseFee (in_gas i))), lease_release c l k2)
           | (Inr r, k2) \<Rightarrow>
              (let rid = reservation_id r; undo = (\<lambda>k. lease_release c l (snd (on_engine (Release (sd_undo se) rid) k))) in
               case sd_sign se (buildTx i (le_nonce l)) of
                 Inl e \<Rightarrow> (Inl (JErr e), undo k2)
               | Inr (raw, hash) \<Rightarrow>
                  (case jAppend (sd_append se) c (signedRecord i (le_nonce l) hash raw rid (worst_case i)) k2 of
                     (Inl e, k3) \<Rightarrow> (Inl e, undo k3)
                   | (Inr rec, k3) \<Rightarrow> (Inr \<lparr>au_raw = raw, au_hash = hash, au_nonce = le_nonce l, au_chainID = c,
                        au_journalID = re_ID rec, au_reservation = rid, au_lease = l\<rparr>, k3)))))))"

section \<open>Broadcast\<close>

definition classifyBroadcastErr :: "goerr \<Rightarrow> broadcastOutcome \<times> Error option \<times> bool" where
  "classifyBroadcastErr e = (let msg = lowerErr e in
     if containsAny msg [''already known'', ''already exists'', ''transaction already in pool'', ''alreadyknown'']
       then (outcomeAccepted, None, False)
     else if containsAny msg [''nonce too low'', ''nonce is too low'', ''oldnonce''] then (outcomeNonceTooLow, Some (New ''tx.replaced''), False)
     else if containsAny msg [''replacement transaction underpriced'', ''replacement underpriced'']
       then (outcomeRejected, Some (New ''tx.replacement_underpriced''), False)
     else if containsAny msg [''insufficient funds''] then (outcomeRejected, Some (New ''funds.insufficient''), False)
     else if containsAny msg [''transaction underpriced'', ''fee too low'', ''max fee per gas less than block base fee'']
       then (outcomeRejected, Some (New ''tx.replacement_underpriced''), False)
     else (outcomeTransportExhausted, Some (mapRPCErr e), True))"

fun broadcast_loop :: "senv \<Rightarrow> authorized \<Rightarrow> nat list \<Rightarrow> kstate \<Rightarrow> (broadcastOutcome \<times> Error option) \<times> kstate" where
  "broadcast_loop se a [] k = ((outcomeTransportExhausted, Some (New ''rpc.unreachable'')), k)"
| "broadcast_loop se a (n # ns) k =
    (case (if n > 0 then sd_sleep se n else None) of
       Some e \<Rightarrow> ((outcomeTransportExhausted, Some (mapRPCErr e)), k)
     | None \<Rightarrow>
        (let k1 = send_raw (au_chainID a) (au_raw a) k in
         case sd_send se n of
           None \<Rightarrow> ((outcomeAccepted, None), k1)
         | Some e \<Rightarrow> (case classifyBroadcastErr e of
               (out, mapped, retry) \<Rightarrow> if \<not> retry then ((out, mapped), k1) else broadcast_loop se a ns k1)))"

definition broadcast :: "senv \<Rightarrow> authorized \<Rightarrow> kstate \<Rightarrow> (broadcastOutcome \<times> Error option) \<times> kstate" where
  "broadcast se a k = broadcast_loop se a [0, 1, 2, 3] k"

section \<open>Settle and abort\<close>

definition settle :: "senv \<Rightarrow> authorized \<Rightarrow> string \<Rightarrow> TxStatus \<Rightarrow> int option \<Rightarrow> kstate \<Rightarrow> (jerr + unit) \<times> authorized \<times> kstate" where
  "settle se a h st gasWei k =
    (let jstatus = (case st of TxConfirmed \<Rightarrow> StatusConfirmed | TxReverted \<Rightarrow> StatusReverted | _ \<Rightarrow> StatusBroadcast) in
     case jSetState (sd_set se) (au_chainID a) (au_journalID a) (no_mutation\<lparr>sm_Status := Some jstatus, sm_TxHash := Some h\<rparr>) k of
       (Inl e, k1) \<Rightarrow> (Inl e, a, k1)
     | (Inr _, k1) \<Rightarrow> (case on_engine (Commit (sd_commit se) (au_reservation a) h) k1 of
           (Inl e, k2) \<Rightarrow> (Inl e, a, k2)
         | (Inr _, k2) \<Rightarrow>
            (let k3 = (case st of
                 TxConfirmed \<Rightarrow> (case gasWei of None \<Rightarrow> k2
                   | Some g \<Rightarrow> snd (on_engine (SettleActual (sd_settle se) (au_reservation a) (Some g) False) k2))
               | TxReverted \<Rightarrow> snd (on_engine (SettleActual (sd_settle se) (au_reservation a) gasWei True) k2)
               | _ \<Rightarrow> k2) in
             lease_commit (sd_lease se) a k3)))"

definition errAbortIncomplete :: string where
  "errAbortIncomplete = ''send did not complete; reservation released and nonce freed''"

text \<open>The status \<open>abort\<close> branches on: the recorded one, \<open>signed\<close> when it cannot be read.\<close>

definition abort_status :: "senv \<Rightarrow> authorized \<Rightarrow> kstate \<Rightarrow> Status" where
  "abort_status se a k = (if au_journalID a = [] then StatusSigned
     else case ByID (sd_abort_read se) (au_journalID a) (journal_of k (au_chainID a)) of Inl _ \<Rightarrow> StatusSigned | Inr r \<Rightarrow> re_Status r)"

definition abort :: "senv \<Rightarrow> authorized \<Rightarrow> string \<Rightarrow> kstate \<Rightarrow> kstate" where
  "abort se a msg k = (let status = abort_status se a k in
     if status \<noteq> StatusSigned \<and> status \<noteq> StatusFailed then snd (snd (lease_commit (sd_abort_lease se) a k))
     else
       (let k1 = (if au_journalID a \<noteq> [] \<and> status = StatusSigned then
                 snd (jSetState (sd_abort_set se) (au_chainID a) (au_journalID a)
                   (no_mutation\<lparr>sm_Status := Some StatusFailed, sm_Error := (if msg \<noteq> [] then Some msg else None)\<rparr>) k)
               else k);
            k2 = (if au_reservation a \<noteq> [] then snd (on_engine (Release (sd_abort_release se) (au_reservation a)) k1) else k1) in
        lease_release (au_chainID a) (au_lease a) k2))"

section \<open>The send\<close>

definition txResult :: "Intent \<Rightarrow> authorized \<Rightarrow> TxStatus \<Rightarrow> TxResult" where
  "txResult i a st = zero_result\<lparr>tr_Hash := au_hash a, tr_Network := in_network i, tr_From := in_from i, tr_To := in_dest i,
     tr_Asset := wireAsset (in_asset i) (in_assetSymbol i), tr_AmountWei := int_dec (in_value i), tr_Nonce := au_nonce a,
     tr_Gas := Quote_result (in_gas i), tr_Status := st, tr_JournalID := au_journalID a\<rparr>"

text \<open>The outcome of the locked section; \<open>settled\<close> is the flag the deferred abort reads.\<close>

record sent_result =
  sr_res :: TxResult
  sr_err :: "jerr option"
  sr_settled :: bool
  sr_auth :: authorized

text \<open>Receipt re-check after "nonce too low".\<close>

definition nonce_too_low :: "senv \<Rightarrow> Intent \<Rightarrow> authorized \<Rightarrow> Error option \<Rightarrow> kstate \<Rightarrow> sent_result \<times> kstate" where
  "nonce_too_low se i a berr k = (case sd_receipt se of
       Inl e \<Rightarrow> (case lease_commit (sd_lease se) a k of
           (Inl cerr, a', k1) \<Rightarrow> (\<lparr>sr_res = zero_result, sr_err = Some cerr, sr_settled = False, sr_auth = a'\<rparr>, k1)
         | (Inr _, a', k1) \<Rightarrow> (\<lparr>sr_res = zero_result, sr_err = Some (JErr (mapRPCErr e)), sr_settled = True, sr_auth = a'\<rparr>, k1))
     | Inr (Some rcpt) \<Rightarrow>
        (let reverted = (rc_Status rcpt = 0); st = (if reverted then TxReverted else TxPending);
             gasWei = (if reverted then Some (actualGas (Some rcpt)) else None) in
         case settle se a (au_hash a) st gasWei k of
           (Inl serr, a', k1) \<Rightarrow> (\<lparr>sr_res = zero_result, sr_err = Some serr, sr_settled = False, sr_auth = a'\<rparr>, k1)
         | (Inr _, a', k1) \<Rightarrow> (\<lparr>sr_res = txResult i a st, sr_err = (if reverted then Some (JErr (New ''tx.reverted'')) else None),
              sr_settled = True, sr_auth = a'\<rparr>, k1))
     | Inr None \<Rightarrow> (\<lparr>sr_res = zero_result, sr_err = map_option JErr berr, sr_settled = False, sr_auth = a\<rparr>, k))"

definition after_broadcast :: "senv \<Rightarrow> Intent \<Rightarrow> authorized \<Rightarrow> broadcastOutcome \<Rightarrow> Error option \<Rightarrow> kstate \<Rightarrow> sent_result \<times> kstate" where
  "after_broadcast se i a out berr k = (case out of
       outcomeAccepted \<Rightarrow> (case settle se a (au_hash a) TxPending None k of
           (Inl serr, a', k1) \<Rightarrow> (\<lparr>sr_res = zero_result, sr_err = Some serr, sr_settled = False, sr_auth = a'\<rparr>, k1)
         | (Inr _, a', k1) \<Rightarrow> (\<lparr>sr_res = txResult i a TxPending, sr_err = None, sr_settled = True, sr_auth = a'\<rparr>, k1))
     | outcomeTransportExhausted \<Rightarrow> (case lease_commit (sd_lease se) a k of (_, a', k1) \<Rightarrow>
           (\<lparr>sr_res = txResult i a TxPending, sr_err = map_option JErr berr, sr_settled = True, sr_auth = a'\<rparr>, k1))
     | outcomeNonceTooLow \<Rightarrow> nonce_too_low se i a berr k
     | outcomeRejected \<Rightarrow> (\<lparr>sr_res = zero_result, sr_err = map_option JErr berr, sr_settled = False, sr_auth = a\<rparr>, k))"

definition locked_send :: "(string \<Rightarrow> address) \<Rightarrow> (string \<Rightarrow> string) \<Rightarrow> (bytes \<Rightarrow> address) \<Rightarrow> senv \<Rightarrow> Intent \<Rightarrow> kstate \<Rightarrow> (TxResult \<times> jerr option) \<times> kstate" where
  "locked_send HexToAddress HexToHash BytesToAddress se i k = (case authorize HexToAddress HexToHash BytesToAddress se i k of
       (Inl e, k1) \<Rightarrow> ((zero_result, Some e), k1)
     | (Inr a, k1) \<Rightarrow> (case broadcast se a k1 of ((out, berr), k2) \<Rightarrow>
         (case after_broadcast se i a out berr k2 of (s, k3) \<Rightarrow>
           ((sr_res s, sr_err s), if sr_settled s then k3 else abort se (sr_auth s) errAbortIncomplete k3))))"

text \<open>The optional wait, after the lock is released; \<open>None\<close> while it is still polling.\<close>

definition runSend :: "(string \<Rightarrow> address) \<Rightarrow> (string \<Rightarrow> string) \<Rightarrow> (bytes \<Rightarrow> address) \<Rightarrow> wcfg \<Rightarrow> senv \<Rightarrow> Intent
    \<Rightarrow> WaitOpts \<Rightarrow> int \<Rightarrow> wenv list \<Rightarrow> kstate \<Rightarrow> (TxResult \<times> jerr option) option \<times> kstate" where
  "runSend HexToAddress HexToHash BytesToAddress cfg se i wo start wes k =
    (case locked_send HexToAddress HexToHash BytesToAddress se i k of
       ((res, Some e), k1) \<Rightarrow> (Some (res, Some e), k1)
     | ((res, None), k1) \<Rightarrow> if \<not> wo_Enabled wo then (Some (res, None), k1)
        else (case waitOnHash HexToAddress HexToHash cfg (chain_of i) (in_network i) (tr_Hash res) wo start wes k1 of
            (None, _, k2) \<Rightarrow> (None, k2)
          | (Some (wres, werr), _, k2) \<Rightarrow> (Some (wres\<lparr>tr_To := overlayDestProvenance (tr_To wres) (in_dest i)\<rparr>, werr), k2)))"

section \<open>Replacement\<close>

definition old_fees :: "Record \<Rightarrow> OldFees" where
  "old_fees r = \<lparr>of_legacy = (jf_Type (re_Fees r) = ''legacy''), of_GasLimit = jf_GasLimit (re_Fees r),
     of_MaxFee = jf_MaxFeePerGas (re_Fees r), of_Tip = jf_MaxPriorityPerGas (re_Fees r), of_GasPrice = jf_GasPrice (re_Fees r)\<rparr>"

record replaceArgs =
  ra_hash :: string
  ra_kind :: string
  ra_network :: string
  ra_rpc :: string
  ra_gas :: rbfGasReq
  ra_wait :: WaitOpts
  ra_isCancel :: bool

definition eth_asset :: "string \<Rightarrow> Asset" where
  "eth_asset amount = \<lparr>as_Kind = ''eth'', as_Contract = None, as_Alias = [], as_Decimals = None, as_Amount = Some amount, as_TokenID = None\<rparr>"

text \<open>The signing reference is not part of the intent; \<open>label\<close> is the caller's label.\<close>

definition replacementIntent :: "(string \<Rightarrow> address) \<Rightarrow> wcfg \<Rightarrow> GasConfig \<Rightarrow> node \<Rightarrow> int \<Rightarrow> Record \<Rightarrow> replaceArgs \<Rightarrow> string \<Rightarrow> Intent result" where
  "replacementIntent HexToAddress cfg gcfg cc chainID orig args label =
    (let from = HexToAddress (re_From orig); to = (if ra_isCancel args then from else HexToAddress (re_To orig));
         value = (if ra_isCancel args then 0 else bigOrZero (re_ValueWei orig)); network = networkName cfg (ra_network args) in
     case bumpedQuote gcfg cc network (old_fees orig) (ra_isCancel args) (ra_gas args) of
       Inl e \<Rightarrow> Inl e
     | Inr q \<Rightarrow> Inr \<lparr>in_chainID = chainID, in_network = network, in_rpc = ra_rpc args, in_from = from,
         in_dest = \<lparr>ds_Address = to, ds_Name = [], ds_Via = [], ds_ENSName = []\<rparr>, in_to = to, in_value = value, in_data = [],
         in_policyDest = zero_address, in_policyKind = policyKindDefault, in_tokenAmt = None, in_unlimited = False, in_acked = False,
         in_kind = ra_kind args, in_asset = eth_asset (int_dec value), in_assetSymbol = [], in_gas = q,
         in_nonce = Some (re_Nonce orig), in_replaces = Some (re_TxHash orig), in_isContractSend = False,
         in_source = (if label = ''mcp'' then ''mcp'' else ''cli'')\<rparr>)"

definition runReplaceSend :: "(string \<Rightarrow> address) \<Rightarrow> (string \<Rightarrow> string) \<Rightarrow> (bytes \<Rightarrow> address) \<Rightarrow> wcfg \<Rightarrow> senv \<Rightarrow> jenv \<Rightarrow> Intent \<Rightarrow> Record
    \<Rightarrow> WaitOpts \<Rightarrow> int \<Rightarrow> wenv list \<Rightarrow> kstate \<Rightarrow> (TxResult \<times> jerr option) option \<times> kstate" where
  "runReplaceSend HexToAddress HexToHash BytesToAddress cfg se link i orig wo start wes k =
    (case locked_send HexToAddress HexToHash BytesToAddress se i k of
       ((res, Some e), k1) \<Rightarrow> (Some (res, Some e), k1)
     | ((res, None), k1) \<Rightarrow>
        (let k2 = snd (jSetState link (re_ChainID orig) (re_ID orig)
               (no_mutation\<lparr>sm_Status := Some (re_Status orig), sm_ReplacedBy := Some (tr_Hash res)\<rparr>) k1) in
         if \<not> wo_Enabled wo then (Some (res, None), k2)
         else (case waitOnHash HexToAddress HexToHash cfg (chain_of i) (in_network i) (HexToHash (tr_Hash res)) wo start wes k2 of
             (out, _, k3) \<Rightarrow> (out, k3))))"

text \<open>\<open>replace\<close>: what it meets before the kernel runs is the dialed chain, the journal read, the receipt of the
  original and the passphrase.\<close>

record penv =
  pe_chain :: "jerr + int"
  pe_read :: lockfault
  pe_receipt :: receipt_answer
  pe_node :: node
  pe_unlock :: "unit result"
  pe_link :: jenv

definition replace :: "(string \<Rightarrow> address) \<Rightarrow> (string \<Rightarrow> string) \<Rightarrow> (bytes \<Rightarrow> address) \<Rightarrow> wcfg \<Rightarrow> GasConfig \<Rightarrow> penv \<Rightarrow> senv \<Rightarrow> replaceArgs \<Rightarrow> string
    \<Rightarrow> int \<Rightarrow> wenv list \<Rightarrow> kstate \<Rightarrow> (TxResult \<times> jerr option) option \<times> kstate" where
  "replace HexToAddress HexToHash BytesToAddress cfg gcfg pe se args label start wes k =
    (let fail = (\<lambda>e. (Some (zero_result, Some e), k)) in
     case parseHash HexToHash (ra_hash args) of Inl e \<Rightarrow> fail (JErr e)
     | Inr hash \<Rightarrow> (case pe_chain pe of Inl e \<Rightarrow> fail e
     | Inr chainID \<Rightarrow> (case ByHash HexToHash (pe_read pe) hash (journal_of k (word_of_int chainID)) of
         Inl JNotFound \<Rightarrow> fail (JErr (New ''ref.not_found''))
       | Inl e \<Rightarrow> fail e
       | Inr orig \<Rightarrow> (case pe_receipt pe of
           Inl e \<Rightarrow> fail (JErr (mapRPCErr e))
         | Inr (Some _) \<Rightarrow> fail (JErr (New ''tx.already_mined''))
         | Inr None \<Rightarrow>
            if Status_IsTerminal (re_Status orig) then fail (JErr (New ''tx.already_mined''))
            else (case replacementIntent HexToAddress cfg gcfg (pe_node pe) chainID orig args label of
                Inl e \<Rightarrow> fail (JErr e)
              | Inr i \<Rightarrow> (case pe_unlock pe of Inl e \<Rightarrow> fail (JErr e)
                | Inr _ \<Rightarrow> (case runReplaceSend HexToAddress HexToHash BytesToAddress cfg se (pe_link pe) i orig (ra_wait args) start wes k of
                      (Some (res, None), k') \<Rightarrow> (Some (res\<lparr>tr_Replaced := ra_hash args\<rparr>, None), k')
                    | other \<Rightarrow> other)))))))"

section \<open>Lemmas: account locks\<close>

definition locks :: "kstate \<Rightarrow> 64 word \<Rightarrow> address set" where
  "locks k c = ns_held (ks_chain k c)"

lemma locks_simps [simp]:
  "locks (set_journal c f k) = locks k" "locks (send_raw c raw k) = locks k" "locks (k\<lparr>ks_engine := en\<rparr>) = locks k"
  "locks (set_chain c st k) = (locks k)(c := ns_held st)" "ks_sent (set_chain c st k) = ks_sent k" "ks_engine (set_chain c st k) = ks_engine k"
  "journal_of (set_chain c st k) c' = (if c' = c then ns_journal st else journal_of k c')"
  by (auto simp: locks_def fun_eq_iff set_chain_def send_raw_def journal_of_def)

lemma locks_frame:
  "jSetState je c i mut k = (res, k') \<Longrightarrow> locks k' = locks k"
  "on_engine op k = (res2, k') \<Longrightarrow> locks k' = locks k"
  "jAppend je c r k = (res3, k') \<Longrightarrow> locks k' = locks k"
  by (auto simp: jSetState_def on_engine_def jAppend_def split: prod.splits)

lemma locks_snd [simp]:
  "locks (snd (jSetState je c i mut k)) = locks k" "locks (snd (on_engine op k)) = locks k" "locks (snd (jAppend je c r k)) = locks k"
  using locks_frame [OF prod.collapse [symmetric]] by blast+

lemma locks_doRebroadcast: "doRebroadcast re rec rid k = (res, k') \<Longrightarrow> locks k' = locks k"
  by (auto simp: doRebroadcast_def Let_def dest: locks_frame split: option.split_asm if_split_asm)

lemma locks_signed: "rebroadcast_signed H HH re rec k = (res, k') \<Longrightarrow> locks k' = locks k"
  by (auto simp: rebroadcast_signed_def dest!: locks_frame(2) locks_doRebroadcast split: prod.split_asm sum.split_asm)

lemma locks_riding: "rebroadcast_riding HH re rec k = (res, k') \<Longrightarrow> locks k' = locks k"
  by (auto simp: rebroadcast_riding_def Let_def dest!: locks_doRebroadcast split: prod.split_asm sum.split_asm if_split_asm)

lemma locks_rebroadcast: "locks (snd (rebroadcast H HH re rec k)) = locks k"
proof -
  obtain res k' where r: "rebroadcast H HH re rec k = (res, k')" by force
  hence "locks k' = locks k"
    by (auto simp: rebroadcast_def dest: locks_signed locks_riding split: sum.split_asm option.split_asm if_split_asm)
  thus ?thesis using r by simp
qed

lemma locks_resurrect_all: "locks (resurrect_all H HH re recs k) = locks k"
  by (induction recs arbitrary: k) (simp_all add: locks_rebroadcast)

lemma locks_resurrect [simp]: "locks (resurrectUnresolved H HH l re c k) = locks k"
  by (simp add: resurrectUnresolved_def locks_resurrect_all split: sum.split)

text \<open>A live lease holds its account's lock; finishing it frees the lock, finishing it again does nothing.\<close>

definition holds :: "authorized \<Rightarrow> (64 word \<Rightarrow> address set) \<Rightarrow> kstate \<Rightarrow> bool" where
  "holds a L k \<longleftrightarrow> (if le_finished (au_lease a) then locks k = L
     else locks k = L(au_chainID a := insert (le_addr (au_lease a)) (L (au_chainID a))) \<and> le_addr (au_lease a) \<notin> L (au_chainID a))"

lemma holds_quiet: "holds a L k \<Longrightarrow> locks k' = locks k \<Longrightarrow> holds a L k'"
  by (simp add: holds_def)

lemma lease_commit_locks:
  "lease_commit ne a k = (res, a', k') \<Longrightarrow> holds a L k \<Longrightarrow> le_finished (au_lease a') \<and> au_chainID a' = au_chainID a \<and> locks k' = L"
  by (auto simp: lease_commit_def Lease_Commit_def holds_def writeCache_def unlock_def fun_eq_iff locks_def set_chain_def
      split: prod.split_asm if_split_asm writefault.split_asm)

lemma lease_release_locks:
  "holds a L k \<Longrightarrow> locks (lease_release (au_chainID a) (au_lease a) k) = L"
  by (auto simp: lease_release_def Lease_Release_def holds_def unlock_def fun_eq_iff locks_def set_chain_def split: if_split_asm)

lemma acquire_fail: "acquire H ne c addr pend forced k = (Inl e, k') \<Longrightarrow> locks k' = locks k"
  by (auto simp: acquire_def AcquireNonce_def Let_def locks_def fun_eq_iff set_chain_def
      split: prod.split_asm option.split_asm sum.split_asm if_split_asm)

lemma acquire_ok:
  assumes "acquire H ne c addr pend forced k = (Inr l, k')"
  shows "\<not> le_finished l" "le_addr l = addr" "addr \<notin> locks k c" "locks k' = (locks k)(c := insert addr (locks k c))"
    "ks_sent k' = ks_sent k" "ks_engine k' = ks_engine k" "journal_of k' = journal_of k" "forced = Some n \<Longrightarrow> le_nonce l = n"
  using assms
  by (auto simp: acquire_def AcquireNonce_def account_lock_def Let_def locks_def fun_eq_iff set_chain_def journal_of_def
      split: prod.split_asm option.split_asm sum.split_asm if_split_asm lockfault.split_asm)

lemma authorize_fail:
  assumes "authorize H HH B se i k = (Inl e, k')"
  shows "locks k' = locks k"
proof -
  let ?c = "chain_of i" and ?k0 = "resurrectUnresolved H HH (sd_unresolved se) (sd_re se) (chain_of i) k"
  have free: "locks (lease_release ?c l k2) = locks k"
    if "acquire H ne ?c (in_from i) pend (in_nonce i) ?k0 = (Inr l, k1)" "locks k2 = locks k1" for ne pend l k1 k2
    using acquire_ok [OF that(1)] that(2)
      lease_release_locks [of "\<lparr>au_raw = [], au_hash = [], au_nonce = 0, au_chainID = ?c, au_journalID = [], au_reservation = [], au_lease = l\<rparr>" "locks k" k2]
    by (simp add: holds_def)
  show ?thesis using assms
    by (auto simp: authorize_def Let_def free dest: acquire_fail dest!: locks_frame(2,3)
        split: sum.split_asm prod.split_asm)
qed

lemma authorize_cases:
  assumes "authorize H HH B se i k = (Inr a, k')"
  obtains k1 k2 pend check r rec where
    "acquire H (sd_acquire se) (chain_of i) (in_from i) pend (in_nonce i)
       (resurrectUnresolved H HH (sd_unresolved se) (sd_re se) (chain_of i) k) = (Inr (au_lease a), k1)"
    "full_check H B (sd_pinpol se) i (Some (au_nonce a)) = Inr check"
    "on_engine (Reserve (sd_pol se) (sd_reserve se) check) k1 = (Inr r, k2)"
    "au_reservation a = reservation_id r" "sd_sign se (buildTx i (au_nonce a)) = Inr (au_raw a, au_hash a)"
    "jAppend (sd_append se) (chain_of i) (signedRecord i (au_nonce a) (au_hash a) (au_raw a) (reservation_id r) (worst_case i)) k2 = (Inr rec, k')"
    "au_journalID a = re_ID rec" "au_chainID a = chain_of i" "au_nonce a = le_nonce (au_lease a)"
  using assms by (auto simp: authorize_def Let_def split: sum.split_asm prod.split_asm)

lemma authorize_holds:
  assumes "authorize H HH B se i k = (Inr a, k')"
  shows "holds a (locks k) k'" "\<not> le_finished (au_lease a)"
proof -
  obtain k1 k2 pend check r rec where
    q: "acquire H (sd_acquire se) (chain_of i) (in_from i) pend (in_nonce i)
       (resurrectUnresolved H HH (sd_unresolved se) (sd_re se) (chain_of i) k) = (Inr (au_lease a), k1)"
    and r: "on_engine (Reserve (sd_pol se) (sd_reserve se) check) k1 = (Inr r, k2)"
    and j: "jAppend (sd_append se) (chain_of i) (signedRecord i (au_nonce a) (au_hash a) (au_raw a) (reservation_id r) (worst_case i)) k2 = (Inr rec, k')"
    and c: "au_chainID a = chain_of i"
    by (rule authorize_cases [OF assms])
  note A = acquire_ok [OF q]
  show "\<not> le_finished (au_lease a)" by (rule A)
  show "holds a (locks k) k'" using A locks_frame(2) [OF r] locks_frame(3) [OF j] c by (simp add: holds_def)
qed

lemma broadcast_loop_frame:
  "broadcast_loop se a ns k = (out, k') \<Longrightarrow> locks k' = locks k \<and> ks_engine k' = ks_engine k \<and> ks_chain k' = ks_chain k
     \<and> (\<exists>n \<le> length ns. ks_sent k' = ks_sent k @ replicate n (au_chainID a, au_raw a))"
proof (induction ns arbitrary: k)
  case (Cons n ns)
  let ?k1 = "send_raw (au_chainID a) (au_raw a) k"
  have one: "\<exists>m \<le> length (n # ns). ks_sent ?k1 = ks_sent k @ replicate m (au_chainID a, au_raw a)"
    by (rule exI [of _ 1]) simp
  have more: "\<exists>m \<le> length (n # ns). ks_sent k' = ks_sent k @ replicate m (au_chainID a, au_raw a)"
    if "m \<le> length ns" "ks_sent k' = ks_sent ?k1 @ replicate m (au_chainID a, au_raw a)" for m
    by (rule exI [of _ "Suc m"]) (use that in simp)
  show ?case using Cons.prems Cons.IH [of ?k1] one more
    by (auto simp: Let_def split: option.split_asm prod.split_asm if_split_asm)
qed simp

lemma settle_holds:
  assumes "settle se a h st g k = (res, a', k')" "holds a L k"
  shows "holds a' L k' \<and> au_chainID a' = au_chainID a \<and> au_journalID a' = au_journalID a
    \<and> (\<forall>u. res = Inr u \<longrightarrow> locks k' = L)"
proof -
  have fin: "holds a1 L k4 \<and> au_chainID a1 = au_chainID a \<and> locks k4 = L \<and> au_journalID a1 = au_journalID a"
    if "lease_commit (sd_lease se) a k3 = (r, a1, k4)" "locks k3 = locks k" for k3 r a1 k4
    using lease_commit_locks [OF that(1) holds_quiet [OF assms(2) that(2)]] that(1)
    by (auto simp: holds_def lease_commit_def split: prod.split_asm)
  have keep: "locks k1 = locks k \<Longrightarrow> holds a L k1" for k1 using holds_quiet [OF assms(2)] .
  show ?thesis using assms(1) keep
    by (auto simp: settle_def Let_def
        dest!: locks_frame(1,2) fin split: prod.split_asm sum.split_asm TxStatus.split_asm option.split_asm)
qed

lemma after_broadcast_holds:
  assumes "after_broadcast se i a out berr k = (s, k')" "holds a L k" "\<not> le_finished (au_lease a)"
  shows "holds (sr_auth s) L k' \<and> au_chainID (sr_auth s) = au_chainID a \<and> au_journalID (sr_auth s) = au_journalID a \<and> (sr_settled s \<longrightarrow> locks k' = L)"
proof -
  have commit: "holds a1 L k4 \<and> au_chainID a1 = au_chainID a \<and> locks k4 = L \<and> au_journalID a1 = au_journalID a"
    if "lease_commit ne a k = (r, a1, k4)" for ne r a1 k4
    using lease_commit_locks [OF that assms(2)] that by (auto simp: holds_def lease_commit_def split: prod.split_asm)
  show ?thesis using assms(1,2)
    by (auto simp: after_broadcast_def nonce_too_low_def Let_def dest!: settle_holds commit
        split: broadcastOutcome.split_asm prod.split_asm sum.split_asm option.split_asm if_split_asm)
qed

lemma abort_locks:
  assumes "holds a L k"
  shows "locks (abort se a msg k) = L"
proof -
  have "locks (snd (snd (lease_commit ne a k))) = L" for ne
    using lease_commit_locks [OF _ assms] by (metis prod.collapse)
  thus ?thesis by (auto simp: abort_def Let_def intro!: lease_release_locks holds_quiet [OF assms])
qed

section \<open>Lemmas: the journal only grows\<close>

text \<open>\<open>jext n f f'\<close>: every record of \<open>f\<close> is still readable in \<open>f'\<close> as the same transaction, after at most \<open>n\<close> new lines.\<close>

definition jext :: "nat \<Rightarrow> journal \<Rightarrow> journal \<Rightarrow> bool" where
  "jext n f f' \<longleftrightarrow> jok f' \<and> unat (max_seq (recs_of f')) \<le> unat (max_seq (recs_of f)) + n
     \<and> (\<forall>i r. jlookup f i = Some r \<longrightarrow> (\<exists>r'. jlookup f' i = Some r' \<and> same_tx r r'))"

lemma jext_refl: "jok f \<Longrightarrow> jext n f f"
  using same_tx_refl by (auto simp: jext_def)

lemma jext_trans: "jext n f g \<Longrightarrow> jext m g h \<Longrightarrow> jext (n + m) f h"
  unfolding jext_def by auto (meson same_tx_trans)

lemma jext_jok: "jext n f f' \<Longrightarrow> jok f'"
  by (simp add: jext_def)

lemma jext_room: "jext n f f' \<Longrightarrow> room (n + m) f \<Longrightarrow> room m f'"
  by (simp add: jext_def room_def)

lemma jext_mono: "jext n f f' \<Longrightarrow> n \<le> m \<Longrightarrow> jext m f f'"
  by (auto simp: jext_def)

lemma room_mono: "room m f \<Longrightarrow> n \<le> m \<Longrightarrow> room n f"
  by (simp add: room_def)

lemma jext_SetState:
  assumes "jok f" "room 1 f" "SetState je i mut f = (res, f')"
  shows "jext 1 f f'"
  using SetState_lands [OF assms]
proof
  assume "unchanged f f' \<and> (\<exists>e. res = Inl e)"
  thus ?thesis using unchanged_facts [of f f'] same_tx_refl by (auto simp: jext_def)
next
  assume "\<exists>prior. jlookup f i = Some prior \<and> lands (moved je mut prior f) f f' \<and> (\<forall>x. res = Inr x \<longrightarrow> x = moved je mut prior f)"
  then obtain prior where p: "jlookup f i = Some prior" "lands (moved je mut prior f) f f'" by blast
  have "re_ID prior = i" using jlookup_ID [OF p(1)] by simp
  thus ?thesis using p same_tx_refl same_tx_moved [of prior je mut f] by (auto simp: jext_def lands_def)
qed

text \<open>A step of the state extends every journal it can touch.\<close>

definition kext :: "nat \<Rightarrow> 64 word \<Rightarrow> kstate \<Rightarrow> kstate \<Rightarrow> bool" where
  "kext n c k k' \<longleftrightarrow> jext n (journal_of k c) (journal_of k' c)"

lemma kext_same: "jok (journal_of k c) \<Longrightarrow> journal_of k' c = journal_of k c \<Longrightarrow> kext n c k k'"
  by (simp add: kext_def jext_refl)

lemma kext_set:
  assumes "jok (journal_of k c)" "room 1 (journal_of k c)" "jSetState je c' i mut k = (res, k')"
  shows "kext 1 c k k'"
proof (cases "c' = c")
  case True
  obtain r f where "SetState je i mut (journal_of k c) = (r, f)" by force
  thus ?thesis using jext_SetState [OF assms(1,2)] assms(3) True by (auto simp: kext_def jSetState_def)
next
  case False
  thus ?thesis using assms by (intro kext_same) (auto simp: jSetState_def split: prod.split_asm)
qed

lemma journal_frames:
  "on_engine op k = (res, k') \<Longrightarrow> journal_of k' = journal_of k"
  "journal_of (send_raw c raw k) = journal_of k" "journal_of (k\<lparr>ks_engine := en\<rparr>) = journal_of k"
  "lease_commit ne a k = (r, a', k') \<Longrightarrow> journal_of k' = journal_of k"
  "journal_of (lease_release c l k) = journal_of k"
  by (auto simp: on_engine_def send_raw_def journal_of_def lease_commit_def lease_release_def Lease_Commit_def Lease_Release_def
      writeCache_def unlock_def set_chain_def fun_eq_iff split: prod.split_asm prod.split if_split_asm writefault.split_asm)

lemma kext_doRebroadcast:
  assumes "jok (journal_of k c)" "room 1 (journal_of k c)" "doRebroadcast re rec rid k = (res, k')"
  shows "kext 1 c k k'"
proof -
  have set: "kext 1 c k k2" if "jSetState je c' i mut (send_raw c2 raw k) = (r, k2)" for je c' i mut c2 raw r k2
    using kext_set [OF _ _ that, of c] assms(1,2) by (simp add: kext_def journal_frames)
  have same: "kext 1 c k k" by (rule kext_same) (use assms in simp_all)
  show ?thesis using assms(3) same
    by (auto simp del: One_nat_def simp: doRebroadcast_def Let_def journal_frames intro: set kext_same [OF assms(1)] split: option.split_asm if_split_asm)
qed

lemma kext_engine: "kext n c k k' \<Longrightarrow> journal_of k'' = journal_of k' \<Longrightarrow> kext n c k k''"
  and kext_engine0: "journal_of k0 = journal_of k \<Longrightarrow> kext n c k k' \<Longrightarrow> kext n c k0 k'"
  by (simp_all add: kext_def)

lemma kext_rebroadcast:
  assumes "jok (journal_of k c)" "room 1 (journal_of k c)"
  shows "kext 1 c k (snd (rebroadcast H HH re rec k))"
proof -
  have signed: "kext 1 c k k'" if run: "rebroadcast_signed H HH re rec k = (res, k')" for res k'
  proof -
    obtain r k1 where r: "on_engine (Reserve (rb_pol re) (rb_reserve re) (rereserve_check H rec)) k = (r, k1)" by force
    note j = journal_frames(1) [OF r]
    show ?thesis
    proof (cases r)
      case (Inl e)
      thus ?thesis using run r j assms(1) by (auto simp del: One_nat_def simp: rebroadcast_signed_def intro: kext_same)
    next
      case (Inr x)
      obtain d k2 where d: "doRebroadcast re rec (reservation_id x) k1 = (d, k2)" by force
      have "kext 1 c k1 k2" using kext_doRebroadcast [OF _ _ d] j assms by simp
      hence "kext 1 c k k2" by (rule kext_engine0 [OF j [symmetric]])
      moreover have "journal_of k' = journal_of k2" using run r d Inr
        by (auto simp: rebroadcast_signed_def dest: journal_frames(1) intro: journal_frames(1) [OF prod.collapse [symmetric]]
            split: sum.split_asm prod.split_asm)
      ultimately show ?thesis by (rule kext_engine)
    qed
  qed
  have riding: "kext 1 c k k'" if run: "rebroadcast_riding HH re rec k = (res, k')" for res k'
  proof -
    have sub: "kext 1 c k k2" if "doRebroadcast re rec [] (k\<lparr>ks_engine := en\<rparr>) = (d, k2)" for en d k2
      using kext_doRebroadcast [OF _ _ that, of c] assms by (simp add: kext_def journal_frames)
    have set: "kext 1 c k k2" if "jSetState je c' i mut (k\<lparr>ks_engine := en\<rparr>) = (d, k2)" for je c' i mut en d k2
      using kext_set [OF _ _ that, of c] assms by (simp add: kext_def journal_frames)
    have set': "kext 1 c k (snd (jSetState je c' i mut (k\<lparr>ks_engine := en\<rparr>)))" for je c' i mut en
      using set [OF prod.collapse [symmetric]] .
    show ?thesis using run
      by (auto simp del: One_nat_def simp: rebroadcast_riding_def Let_def journal_frames
          intro: kext_doRebroadcast [OF assms] sub set' kext_same [OF assms(1)] split: if_split_asm prod.split_asm sum.split_asm)
  qed
  obtain res k' where r: "rebroadcast H HH re rec k = (res, k')" by force
  have same: "kext 1 c k k" by (rule kext_same) (use assms in simp_all)
  have "kext 1 c k k'" using r same
    by (auto simp del: One_nat_def simp: rebroadcast_def intro: signed riding kext_same [OF assms(1)] kext_set [OF assms prod.collapse [symmetric]]
        split: sum.split_asm option.split_asm if_split_asm)
  thus ?thesis using r by simp
qed

end
