(* ===== verification/Tx_Safety.thy ===== *)
theory Tx_Safety
  imports Tx_Send
begin

text \<open>
  What the send kernel guarantees: the durable steps come before the first byte is broadcast, every byte
  broadcast is journaled, the account lock is always given back, and a recorded broadcast is never undone.
\<close>

section \<open>Lemmas: the kernel extends the journal\<close>

text \<open>Room for the lines a send may write: one per resurrected record and \<open>n\<close> of its own.\<close>

definition spare :: "lockfault \<Rightarrow> nat \<Rightarrow> journal \<Rightarrow> bool" where
  "spare l n f \<longleftrightarrow> room n f \<and> (\<forall>recs. Unresolved l f = Inr recs \<longrightarrow> room (length recs + n) f)"

lemma kext_resurrect_all:
  "jok (journal_of k c) \<Longrightarrow> room (length recs) (journal_of k c) \<Longrightarrow> kext (length recs) c k (resurrect_all H HH re recs k)"
proof (induction recs arbitrary: k)
  case Nil
  thus ?case by (simp add: kext_same)
next
  case (Cons rec recs)
  let ?k1 = "if re_TxHash rec = [] then k else snd (rebroadcast H HH (re (re_ID rec)) rec k)"
  have "room 1 (journal_of k c)" using Cons.prems(2) by (rule room_mono) simp
  hence one: "jext 1 (journal_of k c) (journal_of ?k1 c)"
    using kext_rebroadcast [OF Cons.prems(1), of H HH "re (re_ID rec)" rec] jext_refl [OF Cons.prems(1)] by (simp add: kext_def)
  have "jext (length recs) (journal_of ?k1 c) (journal_of (resurrect_all H HH re recs ?k1) c)"
    using Cons.IH [OF jext_jok [OF one] jext_room [OF one]] Cons.prems(2) by (simp add: kext_def)
  from jext_trans [OF one this] show ?case by (simp add: kext_def)
qed

lemma resurrect_spare:
  assumes "jok (journal_of k c)" "spare l n (journal_of k c)"
  shows "jok (journal_of (resurrectUnresolved H HH l re c k) c) \<and> room n (journal_of (resurrectUnresolved H HH l re c k) c)"
proof (cases "Unresolved l (journal_of k c)")
  case (Inl e)
  thus ?thesis using assms by (simp add: resurrectUnresolved_def spare_def)
next
  case (Inr recs)
  have r: "room (length recs + n) (journal_of k c)" using assms(2) Inr by (simp add: spare_def)
  have "jext (length recs) (journal_of k c) (journal_of (resurrect_all H HH re recs k) c)"
    using kext_resurrect_all [OF assms(1) room_mono [OF r]] by (simp add: kext_def)
  thus ?thesis using jext_jok jext_room r Inr by (auto simp: resurrectUnresolved_def)
qed

lemma settle_kext:
  assumes "settle se a h st g k = (res, a', k')" "jok (journal_of k (au_chainID a))" "room 1 (journal_of k (au_chainID a))"
  shows "kext 1 (au_chainID a) k k' \<and> ks_sent k' = ks_sent k \<and> au_journalID a' = au_journalID a \<and> au_chainID a' = au_chainID a"
proof -
  let ?c = "au_chainID a"
  obtain r k1 where s: "jSetState (sd_set se) ?c (au_journalID a) (no_mutation\<lparr>sm_Status := Some (case st of TxConfirmed \<Rightarrow> StatusConfirmed | TxReverted \<Rightarrow> StatusReverted | _ \<Rightarrow> StatusBroadcast), sm_TxHash := Some h\<rparr>) k = (r, k1)"
    by force
  have k1: "kext 1 ?c k k1" "ks_sent k1 = ks_sent k" using kext_set [OF assms(2,3) s] jSetState_frame [OF s] by auto
  have eng: "journal_of k3 = journal_of k2 \<and> ks_sent k3 = ks_sent k2" if "on_engine op k2 = (x, k3)" for op :: "engine \<Rightarrow> 'a result \<times> engine" and k2 x k3
    using that on_engine_frame [OF that] journal_frames(1) [OF that] by simp
  have eng': "journal_of (snd (on_engine op k2)) = journal_of k2 \<and> ks_sent (snd (on_engine op k2)) = ks_sent k2" for op :: "engine \<Rightarrow> 'b result \<times> engine" and k2
    using on_engine_frame [OF prod.collapse [symmetric]] journal_frames(1) [OF prod.collapse [symmetric]] by blast
  have lc: "journal_of k3 = journal_of k2 \<and> ks_sent k3 = ks_sent k2 \<and> au_journalID a2 = au_journalID a \<and> au_chainID a2 = ?c"
    if "lease_commit ne a k2 = (x, a2, k3)" for ne k2 x a2 k3
    using that journal_frames(4) [OF that] by (auto simp: lease_commit_def split: prod.split_asm)
  have "journal_of k' = journal_of k1 \<and> ks_sent k' = ks_sent k1 \<and> au_journalID a' = au_journalID a \<and> au_chainID a' = ?c"
    using assms(1) s
    by (auto simp: settle_def Let_def eng' dest!: lc eng split: prod.split_asm sum.split_asm TxStatus.split_asm option.split_asm)
  thus ?thesis using k1 kext_engine by auto
qed

lemma lease_commit_frame:
  "lease_commit ne a k = (x, a', k') \<Longrightarrow> journal_of k' = journal_of k \<and> ks_sent k' = ks_sent k \<and> ks_engine k' = ks_engine k
     \<and> au_journalID a' = au_journalID a \<and> au_chainID a' = au_chainID a"
  using journal_frames(4) [of ne a k x a' k'] by (auto simp: lease_commit_def split: prod.split_asm)

lemma after_broadcast_kext:
  assumes "after_broadcast se i a out berr k = (s, k')" "jok (journal_of k (au_chainID a))" "room 1 (journal_of k (au_chainID a))"
  shows "kext 1 (au_chainID a) k k' \<and> ks_sent k' = ks_sent k \<and> au_journalID (sr_auth s) = au_journalID a \<and> au_chainID (sr_auth s) = au_chainID a"
proof -
  note st = settle_kext [OF _ assms(2,3)]
  have lc: "kext 1 (au_chainID a) k k2 \<and> ks_sent k2 = ks_sent k \<and> au_journalID a2 = au_journalID a \<and> au_chainID a2 = au_chainID a"
    if "lease_commit ne a k = (x, a2, k2)" for ne x a2 k2
    using lease_commit_frame [OF that] kext_same [OF assms(2)] by simp
  have same: "kext 1 (au_chainID a) k k" using kext_same [OF assms(2)] by simp
  show ?thesis using assms(1) same
    by (auto simp del: One_nat_def simp: after_broadcast_def nonce_too_low_def Let_def dest!: st lc
        split: broadcastOutcome.split_asm prod.split_asm sum.split_asm option.split_asm if_split_asm)
qed

lemma abort_kext:
  assumes "jok (journal_of k (au_chainID a))" "room 1 (journal_of k (au_chainID a))"
  shows "kext 1 (au_chainID a) k (abort se a msg k) \<and> ks_sent (abort se a msg k) = ks_sent k"
proof -
  let ?c = "au_chainID a"
  define k1 where "k1 = (if au_journalID a \<noteq> [] \<and> abort_status se a k = StatusSigned then
     snd (jSetState (sd_abort_set se) ?c (au_journalID a)
       (no_mutation\<lparr>sm_Status := Some StatusFailed, sm_Error := (if msg \<noteq> [] then Some msg else None)\<rparr>) k) else k)"
  have k1: "kext 1 ?c k k1 \<and> ks_sent k1 = ks_sent k"
    unfolding k1_def using kext_set [OF assms prod.collapse [symmetric]] kext_same [OF assms(1)] snd_frames(1) by auto
  have eng: "journal_of (snd (on_engine op k2)) = journal_of k2 \<and> ks_sent (snd (on_engine op k2)) = ks_sent k2" for op :: "engine \<Rightarrow> 'b result \<times> engine" and k2
    using on_engine_frame [OF prod.collapse [symmetric]] journal_frames(1) [OF prod.collapse [symmetric]] by blast
  have rel: "ks_sent (lease_release c l k2) = ks_sent k2" for c l k2 by (simp add: lease_release_def split: prod.split)
  have com: "kext 1 ?c k (snd (snd (lease_commit ne a k))) \<and> ks_sent (snd (snd (lease_commit ne a k))) = ks_sent k" for ne
    using lease_commit_frame [of ne a k] kext_same [OF assms(1)] by (metis prod.collapse)
  show ?thesis
  proof (cases "abort_status se a k \<noteq> StatusSigned \<and> abort_status se a k \<noteq> StatusFailed")
    case True
    thus ?thesis using com by (simp add: abort_def)
  next
    case False
    hence "abort se a msg k = lease_release ?c (au_lease a)
        (if au_reservation a \<noteq> [] then snd (on_engine (Release (sd_abort_release se) (au_reservation a)) k1) else k1)"
      by (simp only: abort_def Let_def if_False k1_def)
    hence j: "journal_of (abort se a msg k) = journal_of k1" and "ks_sent (abort se a msg k) = ks_sent k1"
      using eng [of "Release (sd_abort_release se) (au_reservation a)" k1] by (simp_all add: journal_frames(5) rel)
    thus ?thesis using k1 kext_engine [OF _ j] by simp
  qed
qed

lemma provenance_frame:
  assumes "applyDestProvenance H pol i c = Inr c'"
  shows "ck_SpendWei c' = ck_SpendWei c" "ck_MaxGasWei c' = ck_MaxGasWei c" "ck_Account c' = ck_Account c"
    "ck_Network c' = ck_Network c" "ck_Kind c' = ck_Kind c" "ck_KindEnum c' = ck_KindEnum c"
  using assms by (auto simp: applyDestProvenance_def Let_def split: sum.split_asm if_split_asm)

lemma ClassifyCalldata_kind:
  "ClassifyCalldata B to data v = Some (c # cs) \<Longrightarrow> ck_KindEnum c = KindApprove \<or> ck_KindEnum c = KindTransfer"
  by (auto simp: ClassifyCalldata_def Let_def split: option.split_asm RecognizedKind.split_asm)

lemma classify_frame:
  assumes "c' = fst (classifyContractSend B i c)"
  shows "ck_SpendWei c' = ck_SpendWei c" "ck_MaxGasWei c' = ck_MaxGasWei c" "ck_Account c' = ck_Account c" "ck_Network c' = ck_Network c"
    "ck_Kind c' = ck_Kind c \<and> ck_KindEnum c' = ck_KindEnum c \<or> ck_KindEnum c' = KindApprove \<or> ck_KindEnum c' = KindTransfer"
  unfolding assms by (simp_all add: classifyContractSend_def Let_def ClassifyCalldata_kind split: option.split list.split)

lemma full_check_facts:
  assumes "full_check H B pol i n = Inr check" "in_kind i \<noteq> ''permit''"
  shows "ck_SpendWei check = Some (in_value i)" "ck_MaxGasWei check = Some (worst_case i)" "ck_Account check = in_from i"
    "ck_Network check = in_network i" "effectiveKind check \<noteq> KindPermit"
proof -
  obtain c where c: "applyDestProvenance H pol i (intent_check i n) = Inr c" "check = fst (classifyContractSend B i c)"
    using assms(1) by (cases "applyDestProvenance H pol i (intent_check i n)") (auto simp: full_check_def)
  note f = provenance_frame [OF c(1)] classify_frame [OF c(2)]
  show "ck_SpendWei check = Some (in_value i)" "ck_MaxGasWei check = Some (worst_case i)" "ck_Account check = in_from i" "ck_Network check = in_network i"
    using f by (simp_all add: intent_check_def)
  have "ck_Kind c \<noteq> ''permit''" "ck_KindEnum c = KindUnknown" using f(5,6) assms(2) by (auto simp: intent_check_def policyCheckKind_def zero_check_def)
  thus "effectiveKind check \<noteq> KindPermit" using f(11) by (auto simp: effectiveKind_def)
qed

lemma Reserve_some: "Reserve pol ev c st = (Inr r, st') \<Longrightarrow> effectiveKind c \<noteq> KindPermit \<Longrightarrow> \<exists>x. r = Some x"
  by (auto simp: Reserve_def withNetworkLock_def Let_def split: sum.split_asm option.split_asm lockfault.split_asm prod.split_asm if_split_asm)

lemma on_engine_ok:
  assumes "on_engine op k = (Inr r, k')"
  shows "\<exists>en. op (ks_engine k) = (Inr r, en) \<and> k' = k\<lparr>ks_engine := en\<rparr>"
proof (cases "op (ks_engine k)")
  case (Pair x en)
  thus ?thesis using assms by (cases x) (auto simp: on_engine_def)
qed

lemma Append_ok:
  assumes "jok f" "room (Suc n) f" "Append je r f = (Inr x, f')" "re_ID r = []"
  shows "\<exists>id. je_id je = Some id \<and> x = stamped je id r f \<and> jok f' \<and> jlookup f' id = Some x \<and> room n f'"
proof -
  have "room 1 f" using assms(2) by (rule room_mono) simp
  from Append_lands [OF assms(1) this assms(3)] show ?thesis using assms(2,4) by (auto simp: lands_def room_def)
qed

lemma authorize_facts:
  assumes "authorize H HH B se i k = (Inr a, k')" "jok (journal_of k (chain_of i))" "spare (sd_unresolved se) (Suc n) (journal_of k (chain_of i))"
    and "in_kind i \<noteq> ''permit''" "ev_id (sd_reserve se) \<noteq> []"
  shows "je_id (sd_append se) = Some (au_journalID a) \<and> jok (journal_of k' (chain_of i)) \<and> au_chainID a = chain_of i \<and> room n (journal_of k' (chain_of i))
    \<and> (\<exists>r. jlookup (journal_of k' (chain_of i)) (au_journalID a) = Some r \<and> re_Status r = StatusSigned
        \<and> decodeHex (re_RawTx r) = Some (au_raw a) \<and> re_TxHash r = au_hash a \<and> re_Nonce r = au_nonce a
        \<and> re_From r = in_from i \<and> re_ReservationID r = au_reservation a)
    \<and> (\<exists>r. res_lookup (en_log (ks_engine k')) (au_reservation a) = Some r \<and> rs_State r = stateReserved
        \<and> rs_SpendWei r = int_dec (in_value i) \<and> rs_MaxGasWei r = int_dec (worst_case i))
    \<and> in_from i \<in> locks k' (chain_of i) \<and> in_from i \<notin> locks k (chain_of i)
    \<and> ks_sent k' = ks_sent (resurrectUnresolved H HH (sd_unresolved se) (sd_re se) (chain_of i) k)"
proof -
  let ?c = "chain_of i" and ?k0 = "resurrectUnresolved H HH (sd_unresolved se) (sd_re se) (chain_of i) k"
  obtain k1 k2 pend check r rec where
    q: "acquire H (sd_acquire se) ?c (in_from i) pend (in_nonce i) ?k0 = (Inr (au_lease a), k1)"
    and ch: "full_check H B (sd_pinpol se) i (Some (au_nonce a)) = Inr check"
    and rv: "on_engine (Reserve (sd_pol se) (sd_reserve se) check) k1 = (Inr r, k2)" "au_reservation a = reservation_id r"
    and j: "jAppend (sd_append se) ?c (signedRecord i (au_nonce a) (au_hash a) (au_raw a) (reservation_id r) (worst_case i)) k2 = (Inr rec, k')"
    and id: "au_journalID a = re_ID rec" "au_chainID a = ?c"
    by (rule authorize_cases [OF assms(1)])
  note A = acquire_ok [OF q] and F = full_check_facts [OF ch assms(4)]
  obtain en where re: "Reserve (sd_pol se) (sd_reserve se) check (ks_engine k1) = (Inr r, en)" "k2 = k1\<lparr>ks_engine := en\<rparr>"
    using on_engine_ok [OF rv(1)] by blast
  obtain x where x: "r = Some x" using Reserve_some [OF re(1) F(5)] by blast
  note L = Reserve_log [OF re(1) [unfolded x]]
  have "res_lookup (en_log en) (ev_id (sd_reserve se)) = Some x"
    using reslog.put_same [of "en_log (ks_engine k1)" x] L assms(5) by (simp add: newReservation_def)
  moreover have "reservation_id r = ev_id (sd_reserve se)" using L x by (simp add: reservation_id_def newReservation_def)
  ultimately have res: "res_lookup (en_log (ks_engine k2)) (au_reservation a) = Some x" using rv(2) re(2) by simp
  have x': "rs_State x = stateReserved" "rs_SpendWei x = int_dec (in_value i)" "rs_MaxGasWei x = int_dec (worst_case i)"
    using L F by (simp_all add: newReservation_def spendWei_def maxGasWei_def or_zero_def)
  have jk: "journal_of k2 = journal_of ?k0" using A(7) journal_frames(1) [OF rv(1)] by simp
  obtain f where ap: "Append (sd_append se) (signedRecord i (au_nonce a) (au_hash a) (au_raw a) (reservation_id r) (worst_case i)) (journal_of k2 ?c) = (Inr rec, f)"
    "k' = set_journal ?c f k2" using j by (auto simp: jAppend_def split: prod.split_asm)
  obtain idn where n: "je_id (sd_append se) = Some idn" "jok f" "rec = stamped (sd_append se) idn (signedRecord i (au_nonce a) (au_hash a) (au_raw a) (reservation_id r) (worst_case i)) (journal_of k2 ?c)"
    "jlookup f idn = Some rec" "room n f"
    using Append_ok [where n = n, OF _ _ ap(1)] resurrect_spare [OF assms(2,3), of H HH "sd_re se"] jk by (auto simp: signedRecord_def)
  have "jlookup (journal_of k' ?c) (au_journalID a) = Some rec" using n id ap(2) by simp
  moreover have "re_Status rec = StatusSigned \<and> decodeHex (re_RawTx rec) = Some (au_raw a) \<and> re_TxHash rec = au_hash a \<and> re_Nonce rec = au_nonce a
        \<and> re_From rec = in_from i \<and> re_ReservationID rec = au_reservation a"
    using n(3) rv(2) by (simp add: stamped_def signedRecord_def decode_hexBytes)
  moreover have "ks_engine k' = ks_engine k2" "ks_sent k' = ks_sent ?k0" "locks k' = locks k1"
    using ap(2) re(2) A(5) by simp_all
  moreover have "je_id (sd_append se) = Some (au_journalID a)" "jok (journal_of k' ?c)" "room n (journal_of k' ?c)" using n id ap(2) by simp_all
  ultimately show ?thesis using res x' A(3,4) id by auto
qed

lemma broadcast_frame:
  "broadcast se a k = (out, k') \<Longrightarrow> locks k' = locks k \<and> ks_engine k' = ks_engine k \<and> ks_chain k' = ks_chain k
     \<and> (\<exists>n \<le> 4. ks_sent k' = ks_sent k @ replicate n (au_chainID a, au_raw a))"
  using broadcast_loop_frame [of se a "[0, 1, 2, 3]" k out k'] by (auto simp: broadcast_def)

lemma authorize_fail_sent:
  assumes "authorize H HH B se i k = (Inl e, k')"
  shows "ks_sent k' = ks_sent (resurrectUnresolved H HH (sd_unresolved se) (sd_re se) (chain_of i) k)"
proof -
  have rel: "ks_sent (lease_release c l k2) = ks_sent k2" for c l k2 by (simp add: lease_release_def split: prod.split)
  have acq: "ks_sent k3 = ks_sent k2" if "acquire H ne c addr pend forced k2 = (x, k3)" for ne c addr pend forced k2 x k3
    using that by (auto simp: acquire_def split: prod.split_asm)
  have app: "ks_sent k3 = ks_sent k2" if "jAppend je c r k2 = (x, k3)" for je c r k2 x k3
    using that by (auto simp: jAppend_def split: prod.split_asm)
  show ?thesis using assms
    by (auto simp: authorize_def Let_def rel snd_frames dest!: acq app on_engine_frame split: sum.split_asm prod.split_asm)
qed

lemma locked_send_locks: "locks (snd (locked_send H HH B se i k)) = locks k"
proof -
  obtain r k1 where a: "authorize H HH B se i k = (r, k1)" by force
  show ?thesis
  proof (cases r)
    case (Inl e)
    thus ?thesis using a authorize_fail [of H HH B se i k e k1] by (simp add: locked_send_def)
  next
    case (Inr x)
    note A = authorize_holds [OF a [unfolded Inr]]
    obtain out berr k2 where b: "broadcast se x k1 = ((out, berr), k2)" by (metis prod.collapse)
    obtain s k3 where s: "after_broadcast se i x out berr k2 = (s, k3)" by force
    have "holds x (locks k) k2" using holds_quiet [OF A(1)] broadcast_frame [OF b] by simp
    from after_broadcast_holds [OF s this A(2)] show ?thesis
      using a Inr b s abort_locks [of "sr_auth s" "locks k" k3] by (simp add: locked_send_def)
  qed
qed

lemma locks_observe: "observe H oe c hash rec network target k = (out, k') \<Longrightarrow> locks k' = locks k"
  by (auto simp: observe_def Let_def recordTerminal_def recordConfirmed_def split: sum.split_asm option.split_asm if_split_asm)

lemma locks_wait_step: "wait_step H HH target we rec res st w k = (out, w', k') \<Longrightarrow> locks k' = locks k"
  using locks_rebroadcast
  by (auto simp: wait_step_def Let_def split: prod.split_asm waitState.split_asm option.split_asm if_split_asm sum.split_asm) (metis snd_conv)+

lemma locks_wait_round: "wait_round H HH c network hash target deadline now we w k = (out, w', k') \<Longrightarrow> locks k' = locks k"
  by (auto simp: wait_round_def wait_poll_def dest!: locks_observe locks_wait_step
      split: sum.split_asm jerr.split_asm prod.split_asm option.split_asm if_split_asm)

lemma locks_wait_loop: "wait_loop H HH c network hash target deadline poll now wes w k = (out, w', k') \<Longrightarrow> locks k' = locks k"
proof (induction wes arbitrary: now w k)
  case (Cons we wes)
  obtain o1 w1 k1 where r: "wait_round H HH c network hash target deadline (now + int (we_elapsed we)) we w k = (o1, w1, k1)" by (metis prod_cases3)
  show ?case using Cons.IH [of _ w1 k1] Cons.prems r locks_wait_round [OF r] by (cases o1) auto
qed simp

section \<open>Lemmas: what a wait sends\<close>

lemma newest_mem: "newest rs = Some r \<Longrightarrow> r \<in> set rs"
proof -
  have "foldl (\<lambda>found r. case found of None \<Rightarrow> Some r | Some x \<Rightarrow> if re_Seq r > re_Seq x then Some r else Some x) acc rs = Some r
      \<Longrightarrow> acc = Some r \<or> r \<in> set rs" for acc
    by (induction rs arbitrary: acc) (force split: option.split_asm if_split_asm)+
  from this [of None] show "newest rs = Some r \<Longrightarrow> r \<in> set rs" by (simp add: newest_def)
qed

lemma ByHash_jlookup:
  assumes "jok f" "ByHash HH l h f = Inr r"
  shows "jlookup f (re_ID r) = Some r"
proof -
  have "l = LockOK" using assms(2) by (cases l) (simp_all add: ByHash_def read_journal_def lookup_result_def)
  hence "newest (filter (\<lambda>r. HH (re_TxHash r) = HH h \<and> re_TxHash r \<noteq> []) (map snd (foldLatest (recs_of f)))) = Some r"
    using assms by (simp add: ByHash_def read_journal_LockOK lookup_result_def split: option.split_asm)
  hence "r \<in> snd ` set (foldLatest (recs_of f))" using newest_mem by fastforce
  thus ?thesis using foldLatest_keys [of "recs_of f"] by (force simp: jlookup_def map_of_eq_Some_iff)
qed

lemma rebroadcast_sends:
  "ks_sent (snd (rebroadcast H HH re rec k)) = ks_sent k
    \<or> (\<exists>raw. decodeHex (re_RawTx rec) = Some raw \<and> ks_sent (snd (rebroadcast H HH re rec k)) = ks_sent k @ [(re_ChainID rec, raw)])"
proof -
  let ?sent = "\<lambda>k'. ks_sent k' = ks_sent k \<or> (\<exists>raw. decodeHex (re_RawTx rec) = Some raw \<and> ks_sent k' = ks_sent k @ [(re_ChainID rec, raw)])"
  have "?sent (snd (rebroadcast_signed H HH re rec k))" "?sent (snd (rebroadcast_riding HH re rec k))"
    using rebroadcast_signed_sent [OF prod.collapse [symmetric], of H HH re rec k]
      rebroadcast_riding_sent [OF prod.collapse [symmetric], of HH re rec k] by blast+
  thus ?thesis by (auto simp: rebroadcast_def snd_frames split: sum.split option.split)
qed

lemma observe_kext:
  assumes "observe H oe c hash rec network target k = ((res, st, e), k')" "jok (journal_of k c)" "room 1 (journal_of k c)"
  shows "ks_sent k' = ks_sent k \<and> kext 1 c k k' \<and> (st = waitDropped \<longrightarrow> k' = k)"
proof -
  have set: "kext 1 c k (snd (jSetState je c i mut k))" for je i mut using kext_set [OF assms(2,3) prod.collapse [symmetric]] .
  have eng: "journal_of (snd (on_engine op k2)) = journal_of k2" for op :: "engine \<Rightarrow> unit result \<times> engine" and k2
    using journal_frames(1) [OF prod.collapse [symmetric]] .
  have same: "kext 1 c k k" by (rule kext_same) (use assms in simp_all)
  have "kext 1 c k (recordTerminal oe c rec s rc k) \<and> ks_sent (recordTerminal oe c rec s rc k) = ks_sent k"
    "kext 1 c k (recordConfirmed oe c rec rc k) \<and> ks_sent (recordConfirmed oe c rec rc k) = ks_sent k" for s rc
    using set same kext_engine [OF set eng] by (simp_all add: recordTerminal_def recordConfirmed_def Let_def snd_frames split: option.split)
  thus ?thesis using assms(1) same by (auto simp: observe_def Let_def split: sum.split_asm option.split_asm if_split_asm)
qed

text \<open>A round adds at most one line to the journal and submits at most one transaction, the bytes of a record it holds.\<close>

definition sends_held :: "(64 word \<times> bytes) list \<Rightarrow> journal \<Rightarrow> bool" where
  "sends_held xs f \<longleftrightarrow> (\<forall>x \<in> set xs. \<exists>i r. jlookup f i = Some r \<and> decodeHex (re_RawTx r) = Some (snd x))"

lemma sends_held_jext: "sends_held xs f \<Longrightarrow> jext n f f' \<Longrightarrow> sends_held xs f'"
  unfolding sends_held_def jext_def same_tx_def by metis

lemma wait_round_sends:
  assumes "wait_round H HH c network hash target deadline now we w k = (out, w', k')" "jok (journal_of k c)" "room 1 (journal_of k c)"
  shows "kext 1 c k k' \<and> (\<exists>xs. length xs \<le> 1 \<and> ks_sent k' = ks_sent k @ xs \<and> sends_held xs (journal_of k' c))"
proof -
  have same: "kext 1 c k k" by (rule kext_same) (use assms in simp_all)
  have nil: "\<exists>xs. length xs \<le> 1 \<and> ks_sent k = ks_sent k @ xs \<and> sends_held xs f" for f by (rule exI [of _ "[]"]) (simp add: sends_held_def)
  have poll: "kext 1 c k k2 \<and> (\<exists>xs. length xs \<le> 1 \<and> ks_sent k2 = ks_sent k @ xs \<and> sends_held xs (journal_of k2 c))"
    if run: "wait_poll H HH c network hash target deadline now we w rec k = (o2, w2, k2)"
      and held: "\<forall>r. rec = Some r \<longrightarrow> jlookup (journal_of k c) (re_ID r) = Some r" for rec o2 w2 k2
  proof -
    obtain res st e k1 where o: "observe H (we_obs we) c hash rec network target k = ((res, st, e), k1)" by (metis prod_cases4 prod.collapse)
    note O = observe_kext [OF o assms(2,3)]
    have quiet: "kext 1 c k k1 \<and> (\<exists>xs. length xs \<le> 1 \<and> ks_sent k1 = ks_sent k @ xs \<and> sends_held xs (journal_of k1 c))"
      using O nil by simp
    show ?thesis
    proof (cases e)
      case None
      obtain o3 w3 k3 where t: "wait_step H HH target we rec res st w k1 = (o3, w3, k3)" by (metis prod_cases3)
      have k2: "k2 = k3" using run o None t by (auto simp: wait_poll_def split: option.split_asm if_split_asm)
      show ?thesis
      proof (cases "st = waitDropped \<and> rec \<noteq> None")
        case True
        then obtain r where r: "rec = Some r" by blast
        have k3: "k3 = snd (rebroadcast H HH (we_re we) r k)" and kk: "k1 = k"
          using t True r O by (auto simp: wait_step_def split: prod.split_asm sum.split_asm)
        have x: "kext 1 c k k3" using kext_rebroadcast [OF assms(2,3)] by (simp add: k3)
        from rebroadcast_sends [of H HH "we_re we" r k] obtain xs where xs: "length xs \<le> 1" "ks_sent k3 = ks_sent k @ xs"
            "\<forall>y \<in> set xs. decodeHex (re_RawTx r) = Some (snd y)"
        proof
          assume "ks_sent (snd (rebroadcast H HH (we_re we) r k)) = ks_sent k" thus ?thesis using that [of "[]"] k3 by simp
        next
          assume "\<exists>raw. decodeHex (re_RawTx r) = Some raw \<and> ks_sent (snd (rebroadcast H HH (we_re we) r k)) = ks_sent k @ [(re_ChainID r, raw)]"
          thus ?thesis using that [of "[(re_ChainID r, _)]"] k3 by fastforce
        qed
        have "sends_held xs (journal_of k c)" using xs(3) held r by (force simp: sends_held_def)
        thus ?thesis using x xs sends_held_jext k2 by (auto simp: kext_def)
      next
        case False
        hence "k3 = k1" using t by (auto simp: wait_step_def Let_def split: prod.split_asm waitState.split_asm option.split_asm if_split_asm)
        thus ?thesis using quiet k2 by simp
      qed
    qed (use run o quiet in \<open>auto simp: wait_poll_def\<close>)
  qed
  show ?thesis
  proof (cases "ByHash HH (we_read we) hash (journal_of k c)")
    case (Inl e)
    show ?thesis
    proof (cases "e = JNotFound")
      case True
      hence "wait_poll H HH c network hash target deadline now we w None k = (out, w', k')" using assms(1) Inl by (simp add: wait_round_def)
      from poll [OF this] show ?thesis by simp
    next
      case False
      hence "k' = k" using assms(1) Inl by (auto simp: wait_round_def split: jerr.split_asm)
      thus ?thesis using same nil by simp
    qed
  next
    case (Inr r)
    hence "wait_poll H HH c network hash target deadline now we w (Some r) k = (out, w', k')" using assms(1) by (simp add: wait_round_def)
    from poll [OF this] show ?thesis using ByHash_jlookup [OF assms(2) Inr] by simp
  qed
qed

lemma wait_loop_sends:
  "wait_loop H HH c network hash target deadline poll now wes w k = (out, w', k') \<Longrightarrow> jok (journal_of k c) \<Longrightarrow> room (length wes) (journal_of k c) \<Longrightarrow>
     kext (length wes) c k k' \<and> (\<exists>xs. length xs \<le> length wes \<and> ks_sent k' = ks_sent k @ xs \<and> sends_held xs (journal_of k' c))"
proof (induction wes arbitrary: now w k)
  case Nil
  thus ?case using kext_same [of k c k 0] by (auto simp: sends_held_def)
next
  case (Cons we wes)
  obtain o1 w1 k1 where r: "wait_round H HH c network hash target deadline (now + int (we_elapsed we)) we w k = (o1, w1, k1)" by (metis prod_cases3)
  have rm: "room (1 + length wes) (journal_of k c)" "room 1 (journal_of k c)" using Cons.prems(3) room_mono [OF Cons.prems(3), of 1] by simp_all
  from wait_round_sends [OF r Cons.prems(2) rm(2)] obtain xs where
    one: "kext 1 c k k1" "length xs \<le> 1" "ks_sent k1 = ks_sent k @ xs" "sends_held xs (journal_of k1 c)" by blast
  have ok: "jok (journal_of k1 c)" "room (length wes) (journal_of k1 c)" using one(1) jext_jok jext_room [OF _ rm(1)] by (auto simp: kext_def)
  show ?case
  proof (cases o1)
    case None
    hence "wait_loop H HH c network hash target deadline poll (now + int (we_elapsed we) + poll) wes w1 k1 = (out, w', k')" using Cons.prems(1) r by simp
    from Cons.IH [OF this ok] obtain ys where rest: "kext (length wes) c k1 k'" "length ys \<le> length wes" "ks_sent k' = ks_sent k1 @ ys"
      "sends_held ys (journal_of k' c)" by blast
    have "kext (length (we # wes)) c k k'" using jext_trans [of 1 "journal_of k c" "journal_of k1 c" "length wes" "journal_of k' c"] one(1) rest(1) by (simp add: kext_def)
    moreover have "sends_held xs (journal_of k' c)" using sends_held_jext [OF one(4)] rest(1) by (simp add: kext_def)
    hence "sends_held (xs @ ys) (journal_of k' c)" using rest(4) unfolding sends_held_def set_append by blast
    ultimately show ?thesis using one(2,3) rest(2,3) by (intro conjI exI [of _ "xs @ ys"]) simp_all
  next
    case (Some d)
    hence "k' = k1" using Cons.prems(1) r by simp
    moreover have "kext (length (we # wes)) c k k1" using one(1) by (auto simp: kext_def intro: jext_mono)
    ultimately show ?thesis using one by (intro conjI exI [of _ xs]) simp_all
  qed
qed

text \<open>A recorded broadcast makes \<open>abort\<close> a mere commit of the lease.\<close>

lemma abort_recorded:
  assumes "au_journalID a \<noteq> []" "ByID (sd_abort_read se) (au_journalID a) (journal_of k (au_chainID a)) = Inr r"
    and "re_Status r \<noteq> StatusSigned" "re_Status r \<noteq> StatusFailed"
  shows "abort se a msg k = snd (snd (lease_commit (sd_abort_lease se) a k))"
  using assms by (simp add: abort_def abort_status_def)

text \<open>A journal mutation without faults.\<close>

definition calm_j :: "jenv \<Rightarrow> bool" where
  "calm_j je \<longleftrightarrow> je_lock je = LockOK \<and> je_repair je = WriteOK \<and> je_append je = AppendOK \<and> je_compact je = WriteOK"

lemma SetState_calm:
  assumes "jok f" "jlookup f i = Some r" "i \<noteq> []" "calm_j je"
  shows "\<exists>x f'. SetState je i mut f = (Inr x, f')"
proof -
  have "\<exists>g. readAll f (Some WriteOK) = (Inr (recs_of f, max_seq (recs_of f)), g)"
  proof (cases f)
    case (Content c)
    thus ?thesis by (cases "jl_torn c") (auto simp: readAll_def Let_def recs_of_def lines_of_def)
  qed (use assms(1) in \<open>auto simp: jok_def readable_file_def readAll_def recs_of_def lines_of_def parsed_def max_seq_def List.map_filter_def\<close>)
  then obtain g where g: "readAll f (Some WriteOK) = (Inr (recs_of f, max_seq (recs_of f)), g)" by blast
  show ?thesis using assms(2-4) g
    by (auto simp: SetState_def calm_j_def jwithLock_def jlookup_def write_record_def appendLine_def maybeCompact_def compact_def Let_def)
qed

lemma SetState_moves:
  assumes "jok f" "room 1 f" "SetState je i mut f = (Inr x, f')"
  shows "jok f' \<and> jlookup f' i = Some x \<and> re_Status x = (case sm_Status mut of Some s \<Rightarrow> s | None \<Rightarrow> re_Status x)"
  using SetState_lands [OF assms] jlookup_ID by (fastforce simp: lands_def moved_def applyTo_def split: option.splits)

lemma jSetState_moves:
  assumes "jok (journal_of k c)" "room 1 (journal_of k c)" "jSetState je c i mut k = (Inr u, k')"
  shows "\<exists>x. jok (journal_of k' c) \<and> jlookup (journal_of k' c) i = Some x
    \<and> re_Status x = (case sm_Status mut of Some s \<Rightarrow> s | None \<Rightarrow> re_Status x)"
proof -
  obtain r f where "SetState je i mut (journal_of k c) = (r, f)" by force
  thus ?thesis using SetState_moves [OF assms(1,2)] assms(3) by (cases r) (auto simp: jSetState_def)
qed

lemma jSetState_calm:
  assumes "jok (journal_of k c)" "jlookup (journal_of k c) i = Some r" "i \<noteq> []" "calm_j je"
  shows "\<exists>k'. jSetState je c i mut k = (Inr (), k')"
  using SetState_calm [OF assms, of mut] by (auto simp: jSetState_def)

text \<open>A commit leaves a reservation that is not released in a state that is not released.\<close>

lemma Commit_not_released:
  assumes "Commit ev rid h en = (res, en')" "res_lookup (en_log en) rid = Some q" "rs_State q \<noteq> stateReleased"
  shows "\<exists>q'. res_lookup (en_log en') rid = Some q' \<and> rs_State q' \<noteq> stateReleased"
proof -
  consider (put) "en_log en' = res_put (commit_res h q) (en_log en)" | (same) "en_log en' = en_log en"
    using apply_op_log [of ev rid "OpCommit h" en res en'] assms(1,2) by auto
  thus ?thesis
  proof cases
    case put
    have "res_lookup (en_log en') rid = Some (commit_res h q)"
      using res_lookup_put [OF res_lookup_readable [OF assms(2)], of "commit_res h q" rid] res_lookup_ID [OF assms(2)] put
      by (simp add: commit_res_def)
    thus ?thesis using assms(3) by (auto simp: commit_res_def)
  qed (use assms in auto)
qed

lemma settle_recorded:
  assumes "settle se a h TxPending None k = (res, a', k')"
    and "jSetState (sd_set se) (au_chainID a) (au_journalID a) (no_mutation\<lparr>sm_Status := Some StatusBroadcast, sm_TxHash := Some h\<rparr>) k = (Inr (), k1)"
    and "res_lookup (en_log (ks_engine k)) (au_reservation a) = Some q" "rs_State q \<noteq> stateReleased"
  shows "journal_of k' = journal_of k1 \<and> (\<exists>q'. res_lookup (en_log (ks_engine k')) (au_reservation a) = Some q' \<and> rs_State q' \<noteq> stateReleased)
    \<and> au_reservation a' = au_reservation a \<and> au_journalID a' = au_journalID a \<and> au_chainID a' = au_chainID a"
proof -
  obtain c en where c: "Commit (sd_commit se) (au_reservation a) h (ks_engine k1) = (c, en)" by force
  have e: "ks_engine k1 = ks_engine k" using jSetState_frame [OF assms(2)] by simp
  obtain q' where q': "res_lookup (en_log en) (au_reservation a) = Some q'" "rs_State q' \<noteq> stateReleased"
    using Commit_not_released [OF c [unfolded e] assms(3,4)] by blast
  have lc: "journal_of k3 = journal_of k2 \<and> ks_engine k3 = ks_engine k2 \<and> au_reservation a2 = au_reservation a \<and> au_journalID a2 = au_journalID a \<and> au_chainID a2 = au_chainID a"
    if "lease_commit ne a k2 = (x, a2, k3)" for ne k2 x a2 k3
    using that lease_commit_frame [OF that] by (auto simp: lease_commit_def split: prod.split_asm)
  show ?thesis using assms(1,2) c q'
    by (cases c) (auto simp: settle_def on_engine_def journal_frames(3) dest!: lc)
qed

section \<open>Properties\<close>

text \<open>C5. When a send is authorized, everything that makes it recoverable is already on disk and nothing of it has
  been broadcast: the journal holds a signed record with the exact raw bytes, hash and nonce, bound to the
  reservation; that reservation is in the log in state reserved, for the value and the worst-case gas of the
  intent; the account lock is held and was free before; and the only bytes handed to the node are those of the resurrection pass.\<close>

theorem authorize_durable:
  assumes "authorize H HH B se i k = (Inr a, k')" "jok (journal_of k (chain_of i))" "spare (sd_unresolved se) 1 (journal_of k (chain_of i))"
    and "in_kind i \<noteq> ''permit''" "ev_id (sd_reserve se) \<noteq> []"
  shows "(\<exists>r. jlookup (journal_of k' (chain_of i)) (au_journalID a) = Some r \<and> re_Status r = StatusSigned
        \<and> decodeHex (re_RawTx r) = Some (au_raw a) \<and> re_TxHash r = au_hash a \<and> re_Nonce r = au_nonce a
        \<and> re_From r = in_from i \<and> re_ReservationID r = au_reservation a)
    \<and> (\<exists>r. res_lookup (en_log (ks_engine k')) (au_reservation a) = Some r \<and> rs_State r = stateReserved
        \<and> rs_SpendWei r = int_dec (in_value i) \<and> rs_MaxGasWei r = int_dec (worst_case i))
    \<and> in_from i \<in> locks k' (chain_of i) \<and> in_from i \<notin> locks k (chain_of i)
    \<and> ks_sent k' = ks_sent (resurrectUnresolved H HH (sd_unresolved se) (sd_re se) (chain_of i) k)"
  using authorize_facts [where n = 0, OF assms(1,2) _ assms(4,5)] assms(3) by simp

definition demo_quote :: Quote where
  "demo_quote = \<lparr>Legacy = False, GasLimit = 21000, MaxFeePerGas = Some 30, PriorityFee = Some 2, GasPrice = None, BaseFee = Some 10,
     q_Speed = SpeedNormal, q_Source = ''fee-history'', WorstCaseGasWei = Some 630000\<rparr>"

definition demo_intent :: Intent where
  "demo_intent = \<lparr>in_chainID = 1, in_network = ''mainnet'', in_rpc = [], in_from = ''0xaa'',
     in_dest = \<lparr>ds_Address = ''0xbb'', ds_Name = [], ds_Via = ''literal'', ds_ENSName = []\<rparr>, in_to = ''0xbb'', in_value = 5, in_data = [],
     in_policyDest = zero_address, in_policyKind = policyKindDefault, in_tokenAmt = None, in_unlimited = False, in_acked = False,
     in_kind = KindETHTransfer, in_asset = eth_asset ''5'', in_assetSymbol = [], in_gas = demo_quote, in_nonce = None,
     in_replaces = None, in_isContractSend = False, in_source = ''cli''\<rparr>"

definition demo_senv :: senv where
  "demo_senv = \<lparr>sd_unresolved = LockTimeout, sd_re = (\<lambda>_. demo_renv), sd_pending = Inr 3, sd_acquire = calm_nenv, sd_pinpol = Inr None,
     sd_pol = Inr None, sd_reserve = demo_env\<lparr>ev_id := ''r2''\<rparr>, sd_sign = (\<lambda>_. Inr ([2], ''0xh'')), sd_append = calm\<lparr>je_id := Some ''T''\<rparr>,
     sd_undo = demo_env, sd_sleep = (\<lambda>_. None), sd_send = (\<lambda>_. None), sd_receipt = Inr None, sd_set = calm, sd_commit = demo_env,
     sd_settle = demo_env, sd_lease = calm_nenv, sd_abort_read = LockOK, sd_abort_set = calm, sd_abort_release = demo_env,
     sd_abort_lease = calm_nenv\<rparr>"

lemma demo_k0: "resurrectUnresolved H HH LockTimeout re c k = k"
  by (simp add: resurrectUnresolved_def Unresolved_def read_journal_def)

lemma demo_spare: "jok (journal_of demo_kstate 1)" "spare LockTimeout 4 (journal_of demo_kstate 1)"
  using demo_ok by (simp_all add: demo_kstate_def journal_of_def demo_nstate_def spare_def Unresolved_def read_journal_def room_def)

lemma demo_authorize:
  "\<exists>a k'. authorize (\<lambda>s. s) (\<lambda>s. s) (\<lambda>_. zero_address) (demo_senv\<lparr>sd_send := f, sd_receipt := rc, sd_lease := ne\<rparr>) demo_intent demo_kstate = (Inr a, k')"
proof -
  let ?i = demo_intent
  obtain l k1 where q: "acquire (\<lambda>s. s) calm_nenv 1 ''0xaa'' 3 None demo_kstate = (Inr l, k1)"
    by (simp add: acquire_def AcquireNonce_def account_lock_def calm_nenv_def demo_kstate_def demo_nstate_def demo_next readCache_def)
  have k1: "journal_of k1 1 = demo_journal" "ks_engine k1 = demo_log_engine"
    using acquire_ok(6,7) [OF q] by (simp_all add: demo_kstate_def journal_of_def demo_nstate_def)
  obtain check where c: "full_check (\<lambda>s. s) (\<lambda>_. zero_address) (Inr None) ?i (Some (le_nonce l)) = Inr check"
    by (simp add: full_check_def applyDestProvenance_def demo_intent_def)
  obtain r k2 where r: "on_engine (Reserve (Inr None) (demo_env\<lparr>ev_id := ''r2''\<rparr>) check) k1 = (Inr r, k2)"
    by (simp add: on_engine_def k1 Reserve_def writeReservation_def withLock_def demo_env_def demo_log_engine_def loadAll_def demo_res_def appendAndCompact_def)
  have "journal_of k2 1 = demo_journal" using journal_frames(1) [OF r] k1 by simp
  hence "\<exists>rec k3. jAppend (calm\<lparr>je_id := Some ''T''\<rparr>) 1 (signedRecord ?i (le_nonce l) ''0xh'' [2] (reservation_id r) (worst_case ?i)) k2 = (Inr rec, k3)"
    by (simp add: jAppend_def Append_def jwithLock_def readAll_def signedRecord_def write_record_def appendLine_def maybeCompact_def journal_eval demo_intent_def)
  thus ?thesis using q c r by (force simp: authorize_def demo_senv_def demo_k0 demo_intent_def chain_of_def)
qed

theorem authorize_durable_witness:
  "\<exists>a k'. authorize (\<lambda>s. s) (\<lambda>s. s) (\<lambda>_. zero_address) demo_senv demo_intent demo_kstate = (Inr a, k')
     \<and> (\<exists>r. jlookup (journal_of k' 1) (au_journalID a) = Some r \<and> re_Status r = StatusSigned) \<and> ks_sent k' = []"
proof -
  obtain a k' where a: "authorize (\<lambda>s. s) (\<lambda>s. s) (\<lambda>_. zero_address) demo_senv demo_intent demo_kstate = (Inr a, k')"
    using demo_authorize [where f = "sd_send demo_senv" and rc = "sd_receipt demo_senv" and ne = "sd_lease demo_senv"] by auto
  have "chain_of demo_intent = 1" "sd_unresolved demo_senv = LockTimeout" "ks_sent demo_kstate = []"
    by (simp_all add: chain_of_def demo_intent_def demo_senv_def demo_kstate_def)
  thus ?thesis using authorize_durable [OF a] demo_spare a
    by (force simp: spare_def room_def demo_k0 demo_intent_def demo_senv_def)
qed

text \<open>C7. No path of a send leaks the account lock: whatever fails in the authorization, the broadcast, the
  settlement, the deferred abort or the wait, the set of held account locks is afterwards what it was before.\<close>

theorem runSend_releases_lock:
  "locks (snd (runSend H HH B cfg se i wo start wes k)) = locks k"
proof -
  obtain res err k1 where l: "locked_send H HH B se i k = ((res, err), k1)" by (metis prod.collapse)
  have k1: "locks k1 = locks k" using locked_send_locks [of H HH B se i k] l by simp
  obtain o2 w2 k2 where w: "waitOnHash H HH cfg (chain_of i) (in_network i) (tr_Hash res) wo start wes k1 = (o2, w2, k2)"
    by (metis prod_cases3)
  have "locks k2 = locks k1" using locks_wait_loop w by (simp add: waitOnHash_def)
  thus ?thesis using l k1 w by (auto simp: runSend_def split: option.split)
qed

text \<open>The locked section: its sends, and what is left of them in the journal.\<close>

lemma locked_send_journaled:
  assumes "jok (journal_of k (chain_of i))" "spare (sd_unresolved se) (3 + m) (journal_of k (chain_of i))"
    and "in_kind i \<noteq> ''permit''" "ev_id (sd_reserve se) \<noteq> []"
  shows "\<exists>n raw. n \<le> 4 \<and> ks_sent (snd (locked_send H HH B se i k))
        = ks_sent (resurrectUnresolved H HH (sd_unresolved se) (sd_re se) (chain_of i) k) @ replicate n (chain_of i, raw)
    \<and> (0 < n \<longrightarrow> (\<exists>id r. jlookup (journal_of (snd (locked_send H HH B se i k)) (chain_of i)) id = Some r
          \<and> decodeHex (re_RawTx r) = Some raw \<and> re_From r = in_from i))
    \<and> (snd (fst (locked_send H HH B se i k)) = None \<longrightarrow> jok (journal_of (snd (locked_send H HH B se i k)) (chain_of i))
          \<and> room m (journal_of (snd (locked_send H HH B se i k)) (chain_of i)))"
proof -
  let ?c = "chain_of i" and ?S = "locked_send H HH B se i k"
  let ?s0 = "ks_sent (resurrectUnresolved H HH (sd_unresolved se) (sd_re se) (chain_of i) k)"
  obtain r k1 where a: "authorize H HH B se i k = (r, k1)" by force
  show ?thesis
  proof (cases r)
    case (Inl e)
    hence "ks_sent (snd ?S) = ?s0 @ replicate 0 (?c, [])" "snd (fst ?S) \<noteq> None"
      using a authorize_fail_sent [of H HH B se i k e k1] by (simp_all add: locked_send_def)
    thus ?thesis by (metis le0 less_irrefl)
  next
    case (Inr x)
    have sp: "spare (sd_unresolved se) (Suc (2 + m)) (journal_of k ?c)" using assms(2) by (simp add: numeral_3_eq_3 numeral_2_eq_2)
    note A = authorize_facts [OF a [unfolded Inr] assms(1) sp assms(3,4)]
    obtain q where q: "jlookup (journal_of k1 ?c) (au_journalID x) = Some q" "decodeHex (re_RawTx q) = Some (au_raw x)" "re_From q = in_from i"
      using A by blast
    have c: "au_chainID x = ?c" "ks_sent k1 = ?s0" using A by blast+
    obtain out berr k2 where b: "broadcast se x k1 = ((out, berr), k2)" by (metis prod.collapse)
    obtain s k3 where s: "after_broadcast se i x out berr k2 = (s, k3)" by force
    have j2: "journal_of k2 = journal_of k1" using broadcast_frame [OF b] by (simp add: journal_of_def fun_eq_iff)
    have r2: "jok (journal_of k2 ?c)" "room (1 + (1 + m)) (journal_of k2 ?c)" using A j2 by auto
    hence k3: "jext 1 (journal_of k2 ?c) (journal_of k3 ?c)" "ks_sent k3 = ks_sent k2" "au_chainID (sr_auth s) = ?c"
      using after_broadcast_kext [OF s] c room_mono [OF r2(2), of 1] by (auto simp: kext_def)
    let ?k4 = "if sr_settled s then k3 else abort se (sr_auth s) errAbortIncomplete k3"
    have "jext 1 (journal_of k3 ?c) (journal_of ?k4 ?c) \<and> ks_sent ?k4 = ks_sent k3"
      using abort_kext [of k3 "sr_auth s"] jext_jok [OF k3(1)] room_mono [OF jext_room [OF k3(1) r2(2)], of 1] k3(3) jext_refl
      by (auto simp: kext_def)
    moreover have S: "snd ?S = ?k4" using a Inr b s by (simp add: locked_send_def)
    ultimately have ext: "jext (1 + 1) (journal_of k1 ?c) (journal_of (snd ?S) ?c)" and sent: "ks_sent (snd ?S) = ks_sent k2"
      using jext_trans [OF k3(1), of 1] j2 k3(2) by auto
    have "room (1 + 1 + m) (journal_of k1 ?c)" using r2(2) j2 by simp
    hence "jok (journal_of (snd ?S) ?c)" "room m (journal_of (snd ?S) ?c)" using jext_jok [OF ext] jext_room [OF ext] by blast+
    moreover obtain n where "n \<le> 4" "ks_sent k2 = ?s0 @ replicate n (?c, au_raw x)" using broadcast_frame [OF b] c by auto
    moreover obtain r' where "jlookup (journal_of (snd ?S) ?c) (au_journalID x) = Some r'" "same_tx q r'"
      using ext q(1) by (auto simp: jext_def)
    ultimately show ?thesis using q(2,3) sent by (auto simp: same_tx_def)
  qed
qed

text \<open>C6. Every byte a send hands to the node is journaled and stays journaled.  Beyond the resurrection pass, the locked section
  of a send submits one raw transaction at most four times, with a record of the sending account that decodes to exactly these
  bytes in the journal when it ends; a wait afterwards submits at most one more per poll, and nothing is submitted without one;
  at the end of the command the journal holds, for everything submitted, a record that decodes to exactly its bytes.  (The journal is readable
  when the command starts and its sequence numbers do not run out; permits, which are not sent, are excluded.)\<close>

theorem send_journaled:
  assumes "jok (journal_of k (chain_of i))" "spare (sd_unresolved se) (3 + length wes) (journal_of k (chain_of i))"
    and "in_kind i \<noteq> ''permit''" "ev_id (sd_reserve se) \<noteq> []"
  shows "\<exists>n raw xs. n \<le> 4 \<and> length xs \<le> (if wo_Enabled wo then length wes else 0)
    \<and> ks_sent (snd (runSend H HH B cfg se i wo start wes k))
        = ks_sent (resurrectUnresolved H HH (sd_unresolved se) (sd_re se) (chain_of i) k) @ replicate n (chain_of i, raw) @ xs
    \<and> (0 < n \<longrightarrow> (\<exists>id r. jlookup (journal_of (snd (runSend H HH B cfg se i wo start wes k)) (chain_of i)) id = Some r
          \<and> decodeHex (re_RawTx r) = Some raw \<and> re_From r = in_from i))
    \<and> (\<forall>x \<in> set xs. \<exists>id r. jlookup (journal_of (snd (runSend H HH B cfg se i wo start wes k)) (chain_of i)) id = Some r
          \<and> decodeHex (re_RawTx r) = Some (snd x))"
proof -
  let ?c = "chain_of i" and ?S = "locked_send H HH B se i k" and ?R = "runSend H HH B cfg se i wo start wes k"
  let ?s0 = "ks_sent (resurrectUnresolved H HH (sd_unresolved se) (sd_re se) (chain_of i) k)"
  obtain n raw where L: "n \<le> 4" "ks_sent (snd ?S) = ?s0 @ replicate n (?c, raw)"
    "0 < n \<longrightarrow> (\<exists>id r. jlookup (journal_of (snd ?S) ?c) id = Some r \<and> decodeHex (re_RawTx r) = Some raw \<and> re_From r = in_from i)"
    "snd (fst ?S) = None \<longrightarrow> jok (journal_of (snd ?S) ?c) \<and> room (length wes) (journal_of (snd ?S) ?c)"
    using locked_send_journaled [OF assms, where H = H and HH = HH and B = B] by (elim exE conjE) (rule that)
  obtain res err k1 where l: "?S = ((res, err), k1)" by (metis prod.collapse)
  show ?thesis
  proof (cases "err = None \<and> wo_Enabled wo")
    case False
    hence "snd ?R = snd ?S" using l by (cases err) (auto simp: runSend_def)
    thus ?thesis using L(1-3) by (intro exI [of _ n] exI [of _ raw] exI [of _ "[]"]) simp
  next
    case True
    obtain o2 w2 k2 where w: "waitOnHash H HH cfg ?c (in_network i) (tr_Hash res) wo start wes k1 = (o2, w2, k2)" by (metis prod_cases3)
    have "jok (journal_of k1 ?c)" "room (length wes) (journal_of k1 ?c)" using L(4) l True by simp_all
    from wait_loop_sends [OF w [unfolded waitOnHash_def] this] obtain xs where W: "kext (length wes) ?c k1 k2" "length xs \<le> length wes"
      "ks_sent k2 = ks_sent k1 @ xs" "sends_held xs (journal_of k2 ?c)" by blast
    have R: "snd ?R = k2" using l True w by (simp add: runSend_def split: option.split)
    have "0 < n \<longrightarrow> (\<exists>id r. jlookup (journal_of k2 ?c) id = Some r \<and> decodeHex (re_RawTx r) = Some raw \<and> re_From r = in_from i)"
      using L(3) l W(1) unfolding kext_def jext_def same_tx_def by (metis snd_conv)
    thus ?thesis using L(1,2) l W(2-4) R True by (intro exI [of _ n] exI [of _ raw] exI [of _ xs]) (simp add: sends_held_def)
  qed
qed

theorem send_journaled_witness:
  "\<exists>n raw. n \<le> 4 \<and> ks_sent (snd (runSend (\<lambda>s. s) (\<lambda>s. s) (\<lambda>_. zero_address) demo_wcfg demo_senv demo_intent
       \<lparr>wo_Enabled = False, wo_Confirmations = None, wo_Timeout = 0\<rparr> 0 [] demo_kstate)) = replicate n (1, raw)
     \<and> (0 < n \<longrightarrow> (\<exists>id r. jlookup (journal_of (snd (runSend (\<lambda>s. s) (\<lambda>s. s) (\<lambda>_. zero_address) demo_wcfg demo_senv demo_intent
       \<lparr>wo_Enabled = False, wo_Confirmations = None, wo_Timeout = 0\<rparr> 0 [] demo_kstate)) 1) id = Some r
          \<and> decodeHex (re_RawTx r) = Some raw \<and> re_From r = ''0xaa''))"
proof -
  have i: "chain_of demo_intent = 1" "sd_unresolved demo_senv = LockTimeout" "ks_sent demo_kstate = []" "in_from demo_intent = ''0xaa''"
    "in_kind demo_intent \<noteq> ''permit''" "ev_id (sd_reserve demo_senv) \<noteq> []"
    by (simp_all add: chain_of_def demo_intent_def demo_senv_def demo_kstate_def)
  have "spare LockTimeout (3 + length []) (journal_of demo_kstate 1)" using demo_spare(2) by (auto simp: spare_def room_def Unresolved_def read_journal_def)
  from send_journaled [of demo_kstate demo_intent demo_senv "[]" "\<lparr>wo_Enabled = False, wo_Confirmations = None, wo_Timeout = 0\<rparr>" "\<lambda>s. s" "\<lambda>s. s" "\<lambda>_. zero_address" demo_wcfg 0,
      unfolded i(1-4) demo_k0, OF demo_spare(1) this i(5,6)]
  show ?thesis by simp
qed

text \<open>An abort that cannot read the record takes it for signed and writes it off.\<close>

lemma unread_abort_writes_off:
  assumes "sd_abort_read se \<noteq> LockOK" "calm_j (sd_abort_set se)" "au_journalID a \<noteq> []"
    and "jok (journal_of k (au_chainID a))" "room 1 (journal_of k (au_chainID a))" "jlookup (journal_of k (au_chainID a)) (au_journalID a) = Some x"
  shows "\<exists>r. jlookup (journal_of (abort se a errAbortIncomplete k) (au_chainID a)) (au_journalID a) = Some r \<and> re_Status r = StatusFailed"
proof -
  let ?c = "au_chainID a" and ?mut = "no_mutation\<lparr>sm_Status := Some StatusFailed, sm_Error := Some errAbortIncomplete\<rparr>"
  obtain k' where k': "jSetState (sd_abort_set se) ?c (au_journalID a) ?mut k = (Inr (), k')"
    using jSetState_calm [OF assms(4,6,3,2)] by blast
  obtain y where y: "jlookup (journal_of k' ?c) (au_journalID a) = Some y" "re_Status y = StatusFailed"
    using jSetState_moves [OF assms(4,5) k'] by auto
  have "\<exists>e. ByID (sd_abort_read se) (au_journalID a) (journal_of k ?c) = Inl e" using assms(1)
    by (cases "sd_abort_read se") (simp_all add: ByID_def read_journal_def lookup_result_def)
  hence "abort_status se a k = StatusSigned" by (auto simp: abort_status_def)
  hence "abort se a errAbortIncomplete k = lease_release ?c (au_lease a)
      (if au_reservation a \<noteq> [] then snd (on_engine (Release (sd_abort_release se) (au_reservation a)) k') else k')"
    using assms(3) k' by (simp add: abort_def Let_def errAbortIncomplete_def)
  hence "journal_of (abort se a errAbortIncomplete k) = journal_of k'"
    using journal_frames(1) [of "Release (sd_abort_release se) (au_reservation a)" k', OF prod.collapse [symmetric]] by (simp add: journal_frames(5))
  thus ?thesis using y by simp
qed

text \<open>C8. An accepted broadcast is not undone as long as the journal can be read.  Once the node accepted the bytes and the journal recorded the
  broadcast, and if the deferred abort, should it run, can read the journal, the record ends in state broadcast and its reservation
  is not released, whatever fails afterwards (the policy commit, the nonce cache).  But when a later step of the settlement fails and the
  abort's journal read fails as well, the abort takes the record for signed and marks the accepted transaction failed.  (The journal is
  readable at the start with sequence numbers to spare, ids are not empty, and permits, which are not sent, are excluded.)\<close>

theorem accepted_never_undone:
  assumes "authorize H HH B se i k = (Inr a, k1)" "broadcast se a k1 = ((outcomeAccepted, berr), k2)"
    and "jok (journal_of k (chain_of i))" "spare (sd_unresolved se) 3 (journal_of k (chain_of i))"
    and "in_kind i \<noteq> ''permit''" "ev_id (sd_reserve se) \<noteq> []" "je_id (sd_append se) \<noteq> Some []"
    and "calm_j (sd_set se)"
  shows "(sd_abort_read se = LockOK \<longrightarrow>
      (\<exists>r. jlookup (journal_of (snd (locked_send H HH B se i k)) (chain_of i)) (au_journalID a) = Some r \<and> re_Status r = StatusBroadcast)
      \<and> (\<exists>q. res_lookup (en_log (ks_engine (snd (locked_send H HH B se i k)))) (au_reservation a) = Some q \<and> rs_State q \<noteq> stateReleased))
    \<and> (sd_abort_read se \<noteq> LockOK \<and> calm_j (sd_abort_set se) \<and> fst (settle se a (au_hash a) TxPending None k2) \<noteq> Inr () \<longrightarrow>
      (\<exists>r. jlookup (journal_of (snd (locked_send H HH B se i k)) (chain_of i)) (au_journalID a) = Some r \<and> re_Status r = StatusFailed))"
proof -
  let ?c = "chain_of i" and ?mut = "no_mutation\<lparr>sm_Status := Some StatusBroadcast, sm_TxHash := Some (au_hash a)\<rparr>" and ?S = "snd (locked_send H HH B se i k)"
  have sp: "spare (sd_unresolved se) (Suc 2) (journal_of k ?c)" using assms(4) by (simp add: numeral_3_eq_3)
  note A = authorize_facts [OF assms(1,3) sp assms(5,6)]
  have c: "au_chainID a = ?c" and id: "au_journalID a \<noteq> []" using A assms(7) by auto
  note b = broadcast_frame [OF assms(2)]
  have j2: "journal_of k2 = journal_of k1" using b by (simp add: journal_of_def fun_eq_iff)
  have ok2: "jok (journal_of k2 ?c)" "room (1 + 1) (journal_of k2 ?c)" "room 1 (journal_of k2 ?c)"
    using A j2 room_mono [of 2 _ 1] by (auto simp: numeral_2_eq_2)
  obtain r where r: "jlookup (journal_of k2 ?c) (au_journalID a) = Some r" using A j2 by auto
  obtain k3 where k3: "jSetState (sd_set se) ?c (au_journalID a) ?mut k2 = (Inr (), k3)"
    using jSetState_calm [OF ok2(1) r id assms(8)] by blast
  obtain x where x: "jok (journal_of k3 ?c)" "jlookup (journal_of k3 ?c) (au_journalID a) = Some x" "re_Status x = StatusBroadcast"
    using jSetState_moves [OF ok2(1,3) k3] by auto
  have r3: "room 1 (journal_of k3 ?c)" using jext_room [OF _ ok2(2)] kext_set [OF ok2(1,3) k3] by (simp add: kext_def)
  obtain q where q: "res_lookup (en_log (ks_engine k2)) (au_reservation a) = Some q" "rs_State q \<noteq> stateReleased"
    using A b by auto
  obtain res a' k4 where s: "settle se a (au_hash a) TxPending None k2 = (res, a', k4)" by (metis prod_cases3)
  note S = settle_recorded [OF s k3 [folded c] q]
  have fin: "?S = (if res = Inr () then k4 else abort se a' errAbortIncomplete k4)"
    using assms(1,2) s by (cases res) (simp_all add: locked_send_def after_broadcast_def)
  {
    assume lk: "sd_abort_read se = LockOK"
    have by_id: "ByID (sd_abort_read se) (au_journalID a') (journal_of k4 (au_chainID a')) = Inr x"
      using S x lk c by (simp add: ByID_jlookup)
    have ab: "abort se a' errAbortIncomplete k4 = snd (snd (lease_commit (sd_abort_lease se) a' k4))"
      using abort_recorded [OF _ by_id] S id x(3) by simp
    have "journal_of (abort se a' errAbortIncomplete k4) = journal_of k4 \<and> ks_engine (abort se a' errAbortIncomplete k4) = ks_engine k4"
      using lease_commit_frame [of "sd_abort_lease se" a' k4] ab by (metis prod.collapse)
    hence "journal_of ?S = journal_of k3 \<and> ks_engine ?S = ks_engine k4" using S fin by auto
    hence "(\<exists>r. jlookup (journal_of ?S ?c) (au_journalID a) = Some r \<and> re_Status r = StatusBroadcast)
      \<and> (\<exists>q. res_lookup (en_log (ks_engine ?S)) (au_reservation a) = Some q \<and> rs_State q \<noteq> stateReleased)" using S x by auto
  }
  moreover {
    assume u: "sd_abort_read se \<noteq> LockOK \<and> calm_j (sd_abort_set se) \<and> fst (settle se a (au_hash a) TxPending None k2) \<noteq> Inr ()"
    hence "?S = abort se a' errAbortIncomplete k4" using fin s by simp
    moreover have "\<exists>r. jlookup (journal_of (abort se a' errAbortIncomplete k4) (au_chainID a')) (au_journalID a') = Some r \<and> re_Status r = StatusFailed"
      by (rule unread_abort_writes_off [where x = x]) (use u S id c x r3 in simp_all)
    ultimately have "\<exists>r. jlookup (journal_of ?S ?c) (au_journalID a) = Some r \<and> re_Status r = StatusFailed" using S c by simp
  }
  ultimately show ?thesis by blast
qed

lemma demo_facts:
  "chain_of demo_intent = 1" "in_kind demo_intent \<noteq> ''permit''" "jok (journal_of demo_kstate (chain_of demo_intent))"
  "spare LockTimeout 3 (journal_of demo_kstate (chain_of demo_intent))"
  using demo_spare by (auto simp: chain_of_def demo_intent_def spare_def room_def Unresolved_def read_journal_def)

theorem accepted_never_undone_witness:
  "\<exists>a k1. authorize (\<lambda>s. s) (\<lambda>s. s) (\<lambda>_. zero_address) (demo_senv\<lparr>sd_lease := calm_nenv\<lparr>ne_write := WriteError\<rparr>\<rparr>) demo_intent demo_kstate = (Inr a, k1)
     \<and> (\<exists>r. jlookup (journal_of (snd (locked_send (\<lambda>s. s) (\<lambda>s. s) (\<lambda>_. zero_address)
          (demo_senv\<lparr>sd_lease := calm_nenv\<lparr>ne_write := WriteError\<rparr>\<rparr>) demo_intent demo_kstate)) 1) (au_journalID a) = Some r \<and> re_Status r = StatusBroadcast)"
proof -
  let ?se = "demo_senv\<lparr>sd_lease := calm_nenv\<lparr>ne_write := WriteError\<rparr>\<rparr>"
  obtain a k1 where a: "authorize (\<lambda>s. s) (\<lambda>s. s) (\<lambda>_. zero_address) ?se demo_intent demo_kstate = (Inr a, k1)"
    using demo_authorize [where f = "sd_send demo_senv" and rc = "sd_receipt demo_senv" and ne = "calm_nenv\<lparr>ne_write := WriteError\<rparr>"] by auto
  have "broadcast ?se a k1 = ((outcomeAccepted, None), send_raw (au_chainID a) (au_raw a) k1)"
    by (simp add: broadcast_def demo_senv_def)
  from accepted_never_undone [OF a this demo_facts(3)] show ?thesis using a demo_facts
    by (auto simp: demo_senv_def calm_j_def calm_def)
qed

text \<open>C19. A possibly landed transaction can be written off.  The node answers "nonce too low" and the receipt
  re-check is inconclusive (a transport error), which the code means to leave recoverable; but when the write of
  the nonce cache then fails, the deferred abort runs and marks the record failed, which frees its nonce and drops
  it from every later recovery.\<close>

theorem inconclusive_recheck_written_off:
  assumes "authorize H HH B se i k = (Inr a, k1)" "broadcast se a k1 = ((outcomeNonceTooLow, berr), k2)"
    and "jok (journal_of k (chain_of i))" "spare (sd_unresolved se) 3 (journal_of k (chain_of i))"
    and "in_kind i \<noteq> ''permit''" "ev_id (sd_reserve se) \<noteq> []" "je_id (sd_append se) \<noteq> Some []"
    and "sd_receipt se = Inl e" "ne_write (sd_lease se) \<noteq> WriteOK" "calm_j (sd_abort_set se)" "sd_abort_read se = LockOK"
  shows "\<exists>r. jlookup (journal_of (snd (locked_send H HH B se i k)) (chain_of i)) (au_journalID a) = Some r \<and> re_Status r = StatusFailed
    \<and> \<not> consumesNonce (re_Status r) \<and> Status_IsTerminal (re_Status r)"
proof -
  let ?c = "chain_of i" and ?mut = "no_mutation\<lparr>sm_Status := Some StatusFailed, sm_Error := Some errAbortIncomplete\<rparr>"
  have sp: "spare (sd_unresolved se) (Suc 2) (journal_of k ?c)" using assms(4) by (simp add: numeral_3_eq_3)
  note A = authorize_facts [OF assms(1,3) sp assms(5,6)]
  have c: "au_chainID a = ?c" and id: "au_journalID a \<noteq> []" using A assms(7) by auto
  have j2: "journal_of k2 = journal_of k1" using broadcast_frame [OF assms(2)] by (simp add: journal_of_def fun_eq_iff)
  obtain x a' k3 where l: "lease_commit (sd_lease se) a k2 = (x, a', k3)" by (metis prod_cases3)
  note L = lease_commit_frame [OF l]
  have "\<exists>e. x = Inl e" using l authorize_holds(2) [OF assms(1)] assms(9)
    by (auto simp: lease_commit_def Lease_Commit_def writeCache_def split: prod.split_asm writefault.split_asm)
  hence S: "snd (locked_send H HH B se i k) = abort se a' errAbortIncomplete k3"
    using assms(1,2,8) l by (auto simp: locked_send_def after_broadcast_def nonce_too_low_def)
  obtain r where r: "jlookup (journal_of k3 ?c) (au_journalID a) = Some r" "re_Status r = StatusSigned" and ok: "jok (journal_of k3 ?c)" "room 1 (journal_of k3 ?c)"
    using A j2 L room_mono [of 2 _ 1] by auto
  obtain k4 where k4: "jSetState (sd_abort_set se) ?c (au_journalID a) ?mut k3 = (Inr (), k4)"
    using jSetState_calm [OF ok(1) r(1) id assms(10)] by blast
  obtain y where y: "jlookup (journal_of k4 ?c) (au_journalID a) = Some y" "re_Status y = StatusFailed"
    using jSetState_moves [OF ok k4] by auto
  have "abort_status se a' k3 = StatusSigned" using id L c r ok(1) assms(11) by (simp add: abort_status_def ByID_jlookup)
  hence "abort se a' errAbortIncomplete k3 = lease_release ?c (au_lease a')
      (if au_reservation a' \<noteq> [] then snd (on_engine (Release (sd_abort_release se) (au_reservation a')) k4) else k4)"
    using L c id k4 by (simp add: abort_def Let_def errAbortIncomplete_def)
  hence "journal_of (snd (locked_send H HH B se i k)) = journal_of k4"
    using S journal_frames(1) [of "Release (sd_abort_release se) (au_reservation a')" k4, OF prod.collapse [symmetric]] by (simp add: journal_frames(5))
  thus ?thesis using y by (auto simp: consumesNonce_def Status_IsTerminal_def terminalStatuses_def)
qed

definition too_low :: goerr where
  "too_low = \<lparr>err_text = ''nonce too low'', err_typed = None\<rparr>"

lemma too_low_class: "classifyBroadcastErr too_low = (outcomeNonceTooLow, Some (New ''tx.replaced''), False)"
  by (simp add: classifyBroadcastErr_def too_low_def lowerErr_def containsAny_def) code_simp

theorem inconclusive_recheck_written_off_witness:
  "\<exists>a k1. authorize (\<lambda>s. s) (\<lambda>s. s) (\<lambda>_. zero_address)
       (demo_senv\<lparr>sd_send := \<lambda>_. Some too_low, sd_receipt := Inl too_low, sd_lease := calm_nenv\<lparr>ne_write := WriteError\<rparr>\<rparr>) demo_intent demo_kstate = (Inr a, k1)
     \<and> (\<exists>r. jlookup (journal_of (snd (locked_send (\<lambda>s. s) (\<lambda>s. s) (\<lambda>_. zero_address)
          (demo_senv\<lparr>sd_send := \<lambda>_. Some too_low, sd_receipt := Inl too_low, sd_lease := calm_nenv\<lparr>ne_write := WriteError\<rparr>\<rparr>) demo_intent demo_kstate)) 1) (au_journalID a) = Some r
        \<and> re_Status r = StatusFailed)"
proof -
  let ?se = "demo_senv\<lparr>sd_send := \<lambda>_. Some too_low, sd_receipt := Inl too_low, sd_lease := calm_nenv\<lparr>ne_write := WriteError\<rparr>\<rparr>"
  obtain a k1 where a: "authorize (\<lambda>s. s) (\<lambda>s. s) (\<lambda>_. zero_address) ?se demo_intent demo_kstate = (Inr a, k1)"
    using demo_authorize by blast
  have b: "broadcast ?se a k1 = ((outcomeNonceTooLow, Some (New ''tx.replaced'')), send_raw (au_chainID a) (au_raw a) k1)"
    by (simp add: broadcast_def demo_senv_def too_low_class)
  have se: "sd_unresolved ?se = LockTimeout" "ev_id (sd_reserve ?se) \<noteq> []" "je_id (sd_append ?se) \<noteq> Some []" "sd_receipt ?se = Inl too_low"
    "ne_write (sd_lease ?se) \<noteq> WriteOK" "calm_j (sd_abort_set ?se)" "sd_abort_read ?se = LockOK"
    by (simp_all add: demo_senv_def calm_j_def calm_def)
  from inconclusive_recheck_written_off [OF a b demo_facts(3) _ demo_facts(2) se(2-7)] show ?thesis using a demo_facts(1,4) se(1) by auto
qed

end
