(* ===== verification/Tx_Build.thy ===== *)
theory Tx_Build
  imports Tx_Safety
begin

text \<open>
  The four commands that send: \<open>SendTx\<close> (\<open>service/tx.go\<close>), token approve and revoke (\<open>service/approve.go\<close>), \<open>SendNFT\<close>
  (\<open>service/nft.go\<close>) and \<open>ContractSend\<close> (\<open>service/contract.go\<close>).  Each builds an \<open>Intent\<close> from its request, previews the
  gas, and either dry-runs or enters the kernel.  What the keystore, the registries, the ABI packer and the node answer
  while the intent is built is the environment \<open>fenv\<close>.
\<close>

section \<open>Building an intent\<close>

record fenv =
  fe_default :: string
  fe_AddressOf :: "string \<Rightarrow> address result"
  fe_resolveDest :: "string \<Rightarrow> Dest result"
  fe_chain :: "int result"
  fe_resolveAsset :: "string \<Rightarrow> resolvedAsset result"
  fe_resolveNFT :: "string \<Rightarrow> resolvedNFT result"
  fe_resolveContract :: "string \<Rightarrow> Dest result"
  fe_abi :: "unit result"
  fe_packCall :: "bytes result"

record TxRequest =
  tq_From :: string
  tq_To :: string
  tq_Amount :: string
  tq_Token :: string
  tq_Network :: string
  tq_RPC :: string
  tq_Nonce :: "(64 word) option"

definition bindR :: "'a result \<Rightarrow> ('a \<Rightarrow> 'b result) \<Rightarrow> 'b result" where
  "bindR r f = (case r of Inl e \<Rightarrow> Inl e | Inr x \<Rightarrow> f x)"

definition sourceOf :: "string \<Rightarrow> string" where
  "sourceOf label = (if label = ''mcp'' then ''mcp'' else ''cli'')"

text \<open>The signing account: the flag, else the default account.\<close>

definition resolve_from :: "fenv \<Rightarrow> string \<Rightarrow> address result" where
  "resolve_from fe req = (let from = (if req = [] then fe_default fe else req) in
     if from = [] then Inl (New ''usage.no_account'') else fe_AddressOf fe from)"

text \<open>The fields every intent leaves at their zero value.\<close>

definition zero_intent :: Intent where
  "zero_intent = \<lparr>in_chainID = 0, in_network = [], in_rpc = [], in_from = zero_address,
     in_dest = \<lparr>ds_Address = zero_address, ds_Name = [], ds_Via = [], ds_ENSName = []\<rparr>, in_to = zero_address, in_value = 0, in_data = [],
     in_policyDest = zero_address, in_policyKind = policyKindDefault, in_tokenAmt = None, in_unlimited = False, in_acked = False,
     in_kind = [], in_asset = \<lparr>as_Kind = [], as_Contract = None, as_Alias = [], as_Decimals = None, as_Amount = None, as_TokenID = None\<rparr>,
     in_assetSymbol = [], in_gas = \<lparr>Legacy = False, GasLimit = 0, MaxFeePerGas = None, PriorityFee = None, GasPrice = None, BaseFee = None,
       q_Speed = SpeedNormal, q_Source = [], WorstCaseGasWei = None\<rparr>, in_nonce = None, in_replaces = None, in_isContractSend = False, in_source = []\<rparr>"

definition erc20_asset :: "resolvedAsset \<Rightarrow> int \<Rightarrow> Asset" where
  "erc20_asset ra amount = \<lparr>as_Kind = ''erc20'', as_Contract = Some (ToLower (rv_contract ra)), as_Alias = rv_alias ra,
     as_Decimals = Some (int (rv_decimals ra)), as_Amount = Some (int_dec amount), as_TokenID = None\<rparr>"

definition token_amount :: "string \<Rightarrow> nat \<Rightarrow> int result" where
  "token_amount s d = (case ParseTokenAmount (TrimSpace s) d of Inl _ \<Rightarrow> Inl (New ''usage.bad_amount'') | Inr x \<Rightarrow> Inr x)"

definition resolveIntent :: "(string \<Rightarrow> bytes) \<Rightarrow> (address \<Rightarrow> bytes) \<Rightarrow> wcfg \<Rightarrow> fenv \<Rightarrow> string \<Rightarrow> TxRequest \<Rightarrow> Intent result" where
  "resolveIntent selector AddrBytes cfg fe label req =
     bindR (resolve_from fe (tq_From req)) (\<lambda>from.
     bindR (fe_resolveDest fe (tq_To req)) (\<lambda>dest.
     bindR (fe_chain fe) (\<lambda>chainID.
      let base = zero_intent\<lparr>in_chainID := chainID, in_network := networkName cfg (tq_Network req), in_rpc := tq_RPC req, in_from := from,
                  in_dest := dest, in_nonce := tq_Nonce req, in_source := sourceOf label\<rparr> in
      if TrimSpace (tq_Token req) \<noteq> [] then
        bindR (fe_resolveAsset fe (tq_Token req)) (\<lambda>ra.
        bindR (token_amount (tq_Amount req) (rv_decimals ra)) (\<lambda>amount.
          Inr (base\<lparr>in_to := rv_contract ra, in_value := 0, in_data := TransferCalldata selector AddrBytes (ds_Address dest) (Some amount),
            in_policyDest := ds_Address dest, in_tokenAmt := Some amount, in_kind := KindERC20Transfer,
            in_asset := erc20_asset ra amount, in_assetSymbol := rv_symbol ra\<rparr>)))
      else bindR (parseEthAmount (tq_Amount req)) (\<lambda>value.
          Inr (base\<lparr>in_to := ds_Address dest, in_value := value, in_data := [], in_kind := KindETHTransfer, in_asset := eth_asset (int_dec value)\<rparr>)))))"

record ApproveRequest =
  aq_From :: string
  aq_Spender :: string
  aq_Token :: string
  aq_Amount :: string
  aq_Unlimited :: bool
  aq_AckUnlimited :: bool
  aq_Network :: string
  aq_RPC :: string

definition approveAmount :: "ApproveRequest \<Rightarrow> bool \<Rightarrow> nat \<Rightarrow> (int \<times> bool) result" where
  "approveAmount req revoke d = (if revoke then Inr (0, False)
     else if aq_Unlimited req then (if TrimSpace (aq_Amount req) \<noteq> [] then Inl (New ''usage.bad_amount'') else Inr (2 ^ 256 - 1, True))
     else if TrimSpace (aq_Amount req) = [] then Inl (New ''usage.missing_amount'')
     else bindR (token_amount (aq_Amount req) d) (\<lambda>amt. Inr (amt, IsUnlimitedAmount (Some amt))))"

definition resolveApproveIntent :: "(string \<Rightarrow> bytes) \<Rightarrow> (address \<Rightarrow> bytes) \<Rightarrow> wcfg \<Rightarrow> fenv \<Rightarrow> string \<Rightarrow> ApproveRequest \<Rightarrow> bool \<Rightarrow> Intent result" where
  "resolveApproveIntent selector AddrBytes cfg fe label req revoke =
     bindR (resolve_from fe (aq_From req)) (\<lambda>from.
     bindR (fe_resolveDest fe (aq_Spender req)) (\<lambda>spender.
     bindR (fe_chain fe) (\<lambda>chainID.
     bindR (fe_resolveAsset fe (aq_Token req)) (\<lambda>ra.
     bindR (approveAmount req revoke (rv_decimals ra)) (\<lambda>(amount, unl).
       Inr (zero_intent\<lparr>in_chainID := chainID, in_network := networkName cfg (aq_Network req), in_rpc := aq_RPC req, in_from := from,
         in_dest := spender, in_to := rv_contract ra, in_value := 0, in_data := ApproveCalldata selector AddrBytes (ds_Address spender) (Some amount),
         in_policyDest := ds_Address spender, in_policyKind := policyKindApprove, in_tokenAmt := Some amount, in_unlimited := unl,
         in_acked := aq_AckUnlimited req, in_kind := ''approve'', in_asset := erc20_asset ra amount, in_source := sourceOf label\<rparr>))))))"

record NFTSendRequest =
  nq_From :: string
  nq_To :: string
  nq_NFT :: string
  nq_Amount :: string
  nq_Network :: string
  nq_RPC :: string
  nq_Nonce :: "(64 word) option"

definition nftSendAmount :: "string \<Rightarrow> string \<Rightarrow> (int option \<times> string \<times> string) result" where
  "nftSendAmount kind amount0 = (let amount = TrimSpace amount0 in
     if kind = ''erc721'' then (if amount \<noteq> [] \<and> amount \<noteq> ''1'' then Inl (New ''usage.bad_amount'') else Inr (None, ''1'', ''erc721''))
     else if kind = ''erc1155'' then
       (case SetString (if amount = [] then ''1'' else amount) of
          None \<Rightarrow> Inl (New ''usage.bad_amount'')
        | Some qty \<Rightarrow> if qty \<le> 0 then Inl (New ''usage.bad_amount'') else Inr (Some qty, int_dec qty, ''erc1155''))
     else Inl (New ''usage.not_nft''))"

definition resolveNFTSendIntent :: "(string \<Rightarrow> bytes) \<Rightarrow> (address \<Rightarrow> bytes) \<Rightarrow> wcfg \<Rightarrow> fenv \<Rightarrow> string \<Rightarrow> NFTSendRequest \<Rightarrow> Intent result" where
  "resolveNFTSendIntent selector AddrBytes cfg fe label req =
     bindR (resolve_from fe (nq_From req)) (\<lambda>from.
     bindR (fe_resolveDest fe (nq_To req)) (\<lambda>dest.
     bindR (fe_chain fe) (\<lambda>chainID.
     bindR (fe_resolveNFT fe (nq_NFT req)) (\<lambda>rn.
     bindR (case SetString (rn_tokenID rn) of None \<Rightarrow> Inl (New ''usage.bad_token_id'') | Some t \<Rightarrow> Inr t) (\<lambda>tokenID.
     bindR (nftSendAmount (rn_kind rn) (nq_Amount req)) (\<lambda>(amount, qty, kind).
       Inr (zero_intent\<lparr>in_chainID := chainID, in_network := networkName cfg (nq_Network req), in_rpc := nq_RPC req, in_from := from,
         in_dest := dest, in_to := rn_collection rn, in_value := 0,
         in_data := SafeTransferFromCalldata selector AddrBytes from (ds_Address dest) (Some tokenID) amount,
         in_policyDest := ds_Address dest, in_kind := (if kind = ''erc1155'' then KindERC1155Transfer else KindERC721Transfer),
         in_asset := \<lparr>as_Kind = kind, as_Contract = Some (ToLower (rn_collection rn)), as_Alias = rn_collectionAlias rn, as_Decimals = None,
           as_Amount = (if kind = ''erc1155'' then Some qty else None), as_TokenID = Some (rn_tokenID rn)\<rparr>,
         in_nonce := nq_Nonce req, in_source := sourceOf label\<rparr>)))))))"

record ContractSendRequest =
  cq_From :: string
  cq_Contract :: string
  cq_Value :: string
  cq_AckUnlimited :: bool
  cq_Network :: string
  cq_RPC :: string
  cq_Nonce :: "(64 word) option"

text \<open>\<open>fe_abi\<close> is the outcome of resolving the ABI and the method, \<open>fe_packCall\<close> the packed call or the error of coercing an argument.\<close>

definition resolveContractSendIntent :: "wcfg \<Rightarrow> fenv \<Rightarrow> string \<Rightarrow> ContractSendRequest \<Rightarrow> Intent result" where
  "resolveContractSendIntent cfg fe label req =
     bindR (resolve_from fe (cq_From req)) (\<lambda>from.
     bindR (fe_abi fe) (\<lambda>_.
     bindR (fe_resolveContract fe (cq_Contract req)) (\<lambda>dest.
     bindR (fe_packCall fe) (\<lambda>data.
     bindR (parseEthAmount (cq_Value req)) (\<lambda>value.
     bindR (fe_chain fe) (\<lambda>chainID.
       Inr (zero_intent\<lparr>in_chainID := chainID, in_network := networkName cfg (cq_Network req), in_rpc := cq_RPC req, in_from := from,
         in_dest := dest, in_to := ds_Address dest, in_value := value, in_data := data, in_acked := cq_AckUnlimited req,
         in_kind := ''contract-call'', in_asset := (eth_asset (int_dec value))\<lparr>as_Kind := ''contract''\<rparr>, in_nonce := cq_Nonce req,
         in_source := sourceOf label, in_isContractSend := True\<rparr>)))))))"

section \<open>The commands\<close>

text \<open>Preview, then dry run or the kernel; \<open>pass\<close> is the outcome of resolving the passphrase.\<close>

definition previewGas :: "GasConfig \<Rightarrow> node \<Rightarrow> GasReq \<Rightarrow> Intent \<Rightarrow> Intent result" where
  "previewGas gcfg cc greq i = bindR (buildGas gcfg cc (in_network i) (length (in_data i)) greq) (\<lambda>q. Inr (i\<lparr>in_gas := q\<rparr>))"

record xenv =
  xe_cc :: node
  xe_dry :: env
  xe_pass :: "unit result"
  xe_send :: senv

definition run_command :: "(string \<Rightarrow> address) \<Rightarrow> (string \<Rightarrow> string) \<Rightarrow> (bytes \<Rightarrow> address) \<Rightarrow> wcfg \<Rightarrow> GasConfig \<Rightarrow> xenv \<Rightarrow> GasReq \<Rightarrow> bool
    \<Rightarrow> WaitOpts \<Rightarrow> int \<Rightarrow> wenv list \<Rightarrow> Intent result \<Rightarrow> kstate \<Rightarrow> (TxResult \<times> jerr option) option \<times> kstate" where
  "run_command HexToAddress HexToHash BytesToAddress cfg gcfg xe greq dry wo start wes intent k =
    (case bindR intent (previewGas gcfg (xe_cc xe) greq) of
       Inl e \<Rightarrow> (Some (zero_result, Some (JErr e)), k)
     | Inr i \<Rightarrow>
        if dry then
          (case dryRun HexToAddress BytesToAddress (sd_pinpol (xe_send xe)) (sd_pol (xe_send xe)) (xe_dry xe) i (ks_engine k) of
             (Inl e, en) \<Rightarrow> (Some (zero_result, Some (JErr e)), k\<lparr>ks_engine := en\<rparr>)
           | (Inr res, en) \<Rightarrow> (Some (res, None), k\<lparr>ks_engine := en\<rparr>))
        else (case xe_pass xe of
             Inl e \<Rightarrow> (Some (zero_result, Some (JErr e)), k)
           | Inr _ \<Rightarrow> runSend HexToAddress HexToHash BytesToAddress cfg (xe_send xe) i wo start wes k))"

section \<open>Lemmas\<close>

text \<open>The pipeline reads the kind of a check only through \<open>effectiveKind\<close>.\<close>

lemma effectiveKind_known: "effectiveKind c \<noteq> KindUnknown"
  by (simp add: effectiveKind_def)

lemma Evaluate_frame:
  "Evaluate p (c\<lparr>ck_Kind := s, ck_KindEnum := effectiveKind c, ck_AccountNonce := n\<rparr>) w now = Evaluate p c w now"
proof -
  let ?c = "c\<lparr>ck_Kind := s, ck_KindEnum := effectiveKind c, ck_AccountNonce := n\<rparr>"
  have e: "effectiveKind ?c = effectiveKind c" using effectiveKind_known [of c] by (simp add: effectiveKind_def [of ?c])
  have d: "destRole ?c = destRole c" by (simp add: destRole_def e)
  have w: "spendWei ?c = spendWei c" "maxGasWei ?c = maxGasWei c" "maxFeePerGas ?c = maxFeePerGas c" "isTokenOrApproval ?c = isTokenOrApproval c"
    by (simp_all add: spendWei_def maxGasWei_def maxFeePerGas_def isTokenOrApproval_def fun_eq_iff)
  note k = e d w
  have s1: "stageDenylist p ?c = stageDenylist p c" by (simp add: stageDenylist_def k Let_def)
  have s2: "stageAllowlist p lim ?c = stageAllowlist p lim c" for lim by (simp add: stageAllowlist_def k Let_def)
  have s3: "stageNoAllowlist p lim ?c kd = stageNoAllowlist p lim c kd" for lim kd by (simp add: stageNoAllowlist_def k Let_def)
  have s4: "stagePinDrift ?c = stagePinDrift c" by (cases "ck_ToSrc c") (simp_all add: stagePinDrift_def Let_def)
  have s5: "stageTypedData p lim ?c = stageTypedData p lim c" for lim by (simp add: stageTypedData_def typedAllowMatch_def typed_violation_def e Let_def)
  have s6: "stageUnknownCalldata p lim ?c = stageUnknownCalldata p lim c" for lim by (simp add: stageUnknownCalldata_def contractAddrAllowlisted_def Let_def)
  have s7: "stagePerTx lim ?c kd = stagePerTx lim c kd" for lim kd by (cases "rl_maxTx lim") (simp_all add: stagePerTx_def k Let_def)
  have s8: "stageUnlimited p ?c kd = stageUnlimited p c kd" for kd by (simp add: stageUnlimited_def unlimited_violation_def Let_def)
  have s9: "stageDaily lim ?c w now = stageDaily lim c w now" for lim by (cases "rl_maxDay lim"; cases w) (simp_all add: stageDaily_def k Let_def)
  have s10: "stageGasCap lim ?c = stageGasCap lim c" for lim by (cases "rl_maxGasPrice lim") (simp_all add: stageGasCap_def k Let_def)
  have net: "ck_Network ?c = ck_Network c" "ck_TypedUnknown ?c = ck_TypedUnknown c" by simp_all
  have "violations_of p ?c w now = violations_of p c w now"
    unfolding violations_of_def Let_def s1 s2 s3 s4 s5 s6 s7 s8 s9 s10 e net ..
  thus ?thesis unfolding Evaluate_def Let_def s5 net by simp
qed

lemma Evaluate_kind: "Evaluate p (c\<lparr>ck_Kind := s, ck_KindEnum := effectiveKind c\<rparr>) w now = Evaluate p c w now"
  using Evaluate_frame [where p = p and c = c and s = s and n = "ck_AccountNonce c" and w = w and now = now] by simp

lemma Evaluate_nonce: "Evaluate p (c\<lparr>ck_AccountNonce := n\<rparr>) w now = Evaluate p c w now"
proof -
  let ?c = "c\<lparr>ck_AccountNonce := n\<rparr>"
  have "effectiveKind ?c = effectiveKind c" by (simp add: effectiveKind_def)
  hence "?c\<lparr>ck_Kind := ck_Kind c, ck_KindEnum := effectiveKind ?c\<rparr> = c\<lparr>ck_Kind := ck_Kind c, ck_KindEnum := effectiveKind c, ck_AccountNonce := n\<rparr>"
    by (intro Check.equality) simp_all
  thus ?thesis using Evaluate_frame [where p = p and c = c and s = "ck_Kind c" and n = n and w = w and now = now]
      Evaluate_kind [where p = p and c = ?c and s = "ck_Kind c" and w = w and now = now] by (simp only:)
qed

lemma approveAmount_unlimited: "approveAmount req revoke d = Inr (x, unl) \<Longrightarrow> unl = IsUnlimitedAmount (Some x)"
  by (auto simp: approveAmount_def bindR_def IsUnlimitedAmount_def split: if_split_asm sum.split_asm)

text \<open>What the two typed commands put into an intent that the policy check reads.\<close>

lemma approve_fields:
  assumes "resolveApproveIntent selector A cfg fe label req revoke = Inr t"
  shows "resolve_from fe (aq_From req) = Inr (in_from t)" "in_network t = networkName cfg (aq_Network req)" "in_value t = 0"
    "in_policyDest t = ds_Address (in_dest t)" "in_policyKind t = policyKindApprove" "in_acked t = aq_AckUnlimited req"
    "in_unlimited t = IsUnlimitedAmount (in_tokenAmt t)" "in_data t = ApproveCalldata selector A (ds_Address (in_dest t)) (in_tokenAmt t)"
    "in_replaces t = None" "\<not> in_isContractSend t"
  using assms by (auto simp: resolveApproveIntent_def bindR_def zero_intent_def dest!: approveAmount_unlimited split: sum.split_asm prod.split_asm)

lemma transfer_fields:
  assumes "resolveIntent selector A cfg fe label req = Inr t" "TrimSpace (tq_Token req) \<noteq> []"
  shows "resolve_from fe (tq_From req) = Inr (in_from t)" "in_network t = networkName cfg (tq_Network req)" "in_value t = 0"
    "in_policyDest t = ds_Address (in_dest t)" "in_policyKind t = policyKindDefault" "\<not> in_acked t" "\<not> in_unlimited t"
    "in_data t = TransferCalldata selector A (ds_Address (in_dest t)) (in_tokenAmt t)" "in_kind t = KindERC20Transfer"
    "in_replaces t = None" "\<not> in_isContractSend t"
  using assms by (auto simp: resolveIntent_def bindR_def zero_intent_def Let_def split: sum.split_asm)

lemma contract_fields:
  assumes "resolveContractSendIntent cfg fe label req = Inr i"
  shows "resolve_from fe (cq_From req) = Inr (in_from i)" "in_network i = networkName cfg (cq_Network req)"
    "in_policyDest i = zero_address" "in_acked i = cq_AckUnlimited req" "in_replaces i = None" "in_isContractSend i"
  using assms by (auto simp: resolveContractSendIntent_def bindR_def zero_intent_def split: sum.split_asm)

text \<open>The typed command names its spender or recipient by address: not the zero address, no ENS name and no contact.\<close>

definition raw_subject :: "(address \<Rightarrow> bytes) \<Rightarrow> (bytes \<Rightarrow> address) \<Rightarrow> Intent \<Rightarrow> bool" where
  "raw_subject A B t \<longleftrightarrow> ds_Via (in_dest t) \<notin> {''ens'', ''contact''} \<and> ds_Address (in_dest t) \<noteq> zero_address
     \<and> addr_codec A B (ds_Address (in_dest t)) \<and> in_to t \<noteq> zero_address \<and> (\<exists>x. in_tokenAmt t = Some x \<and> 0 \<le> x \<and> x < 2 ^ 256)"

definition literal_dest :: "address \<Rightarrow> Dest" where
  "literal_dest a = \<lparr>ds_Address = a, ds_Name = [], ds_Via = ''literal'', ds_ENSName = []\<rparr>"

lemma provenance_other:
  "applyDestProvenance H pol i c = Inr c' \<Longrightarrow> c' = c\<lparr>ck_ToSrc := ck_ToSrc c', ck_ToInput := ck_ToInput c',
     ck_ENSName := ck_ENSName c', ck_ENSResolved := ck_ENSResolved c', ck_Dest := ck_Dest c'\<rparr>"
  by (auto simp: applyDestProvenance_def Let_def split: sum.split_asm if_split_asm)

text \<open>A recognised contract send overwrites everything provenance set.\<close>

lemma classify_recognised:
  assumes "in_isContractSend i" "ClassifyCalldata B (in_to i) (in_data i) (Some (in_value i)) = Some [cc]"
    and "full_check H B pol i n = Inr c"
  shows "c = (intent_check i n)\<lparr>ck_Kind := ck_Kind cc, ck_KindEnum := ck_KindEnum cc, ck_Dest := ck_Dest cc, ck_Token := ck_Token cc,
     ck_Asset := ck_Asset cc, ck_TokenAmt := ck_TokenAmt cc, ck_Unlimited := ck_Unlimited cc,
     ck_ToSrc := SourceRawAddress, ck_ToInput := [], ck_ENSName := [], ck_ENSResolved := zero_address\<rparr>"
proof -
  obtain c0 where c0: "applyDestProvenance H pol i (intent_check i n) = Inr c0" "c = fst (classifyContractSend B i c0)"
    using assms(3) by (cases "applyDestProvenance H pol i (intent_check i n)") (auto simp: full_check_def)
  show ?thesis unfolding c0(2) using assms(1,2) by (subst provenance_other [OF c0(1)]) (simp add: classifyContractSend_def Let_def)
qed

lemma literal_check:
  "ds_Via (in_dest i) \<notin> {''ens'', ''contact''} \<Longrightarrow> \<not> in_isContractSend i \<Longrightarrow> full_check H B pol i n = Inr (intent_check i n\<lparr>ck_ToSrc := SourceRawAddress\<rparr>)"
  by (simp add: full_check_def applyDestProvenance_def classifyContractSend_def Let_def)

lemma TransferCalldata_nonempty: "TransferCalldata selector A a (Some x) \<noteq> []"
  by (simp add: TransferCalldata_def pack_def addrWord_def LeftPadBytes_def uintWord_def)

text \<open>The nonce of a check plays no part unless it replaces a transaction.\<close>

lemma full_check_nonce:
  assumes "full_check H B pol i n = Inr c"
  shows "full_check H B pol i m = Inr (c\<lparr>ck_AccountNonce := m\<rparr>)"
proof -
  have ic: "intent_check i m = intent_check i n\<lparr>ck_AccountNonce := m\<rparr>" by (simp add: intent_check_def)
  have pr: "applyDestProvenance H pol i (c0\<lparr>ck_AccountNonce := m\<rparr>) = map_sum id (\<lambda>c. c\<lparr>ck_AccountNonce := m\<rparr>) (applyDestProvenance H pol i c0)" for c0
    by (simp add: applyDestProvenance_def Let_def split: sum.split)
  have cl: "fst (classifyContractSend B i (c0\<lparr>ck_AccountNonce := m\<rparr>)) = (fst (classifyContractSend B i c0))\<lparr>ck_AccountNonce := m\<rparr>" for c0
    by (simp add: classifyContractSend_def Let_def split: option.split list.split)
  show ?thesis using assms by (cases "applyDestProvenance H pol i (intent_check i n)") (auto simp: full_check_def ic pr cl)
qed

lemma full_check_rbf: "full_check H B pol i n = Inr c \<Longrightarrow> in_replaces i = None \<Longrightarrow> \<not> ck_IsRBFDelta c"
  by (auto simp: full_check_def applyDestProvenance_def Let_def classifyContractSend_def intent_check_def
      split: sum.split_asm if_split_asm option.split_asm list.split_asm)

lemma windowFor_nonce: "\<not> ck_IsRBFDelta c \<Longrightarrow> windowFor st ev (c\<lparr>ck_AccountNonce := m\<rparr>) cf now = windowFor st ev c cf now"
  by (simp add: windowFor_def)

lemma denied_code: "Code (deniedError d) = (if de_Code d = [] then codeDenied else de_Code d)"
  by (simp add: deniedError_def Let_def WithData_def)

lemma overlay_code: "Code (overlayBaseFee e b) = Code e"
  by (simp add: overlayBaseFee_def WithData_def split: option.split)

text \<open>The verdict of the engine and the fate of the reservation, for two checks that differ in the nonce.\<close>

lemma Evaluate_Reserve:
  assumes "\<not> ck_IsRBFDelta c" "effectiveKind c \<noteq> KindPermit" "ev_log ev = LockOK" "ev_logw ev = WriteOK" "ev_ctrw ev = WriteOK" "readable (en_log en)"
  shows "case fst (Engine_Evaluate pol ev (c\<lparr>ck_AccountNonce := m\<rparr>) en) of
      Inl e \<Rightarrow> Reserve pol ev c en = (Inl e, en)
    | Inr d \<Rightarrow> if de_Allowed d then (\<exists>r en'. Reserve pol ev c en = (Inr r, en'))
        else (\<exists>e. Reserve pol ev c en = (Inl e, en) \<and> Code e = (if de_Code d = [] then codeDenied else de_Code d))"
proof -
  have wr: "\<exists>en'. writeReservation ev r en = (Inr (), en')" for r
    using assms(3,4,6) by (auto simp: writeReservation_def withLock_def readable_def appendAndCompact_def)
  have wc: "\<exists>st'. writeCounter (ev_ctrw ev) net a cf now st = (Inr (), st')" for net a cf now st using assms(5) by (simp add: writeCounter_def)
  show ?thesis
  proof (cases pol)
    case (Inl e)
    thus ?thesis by (simp add: Engine_Evaluate_def Reserve_def)
  next
    case (Inr po)
    show ?thesis
    proof (cases po)
      case None
      thus ?thesis using Inr wr [of "newReservation ev c"] by (auto simp: Engine_Evaluate_def Reserve_def allowed_decision_def)
    next
      case (Some p)
      show ?thesis
      proof (cases "ev_net ev = LockOK")
        case False
        thus ?thesis using Inr Some by (cases "ev_net ev") (simp_all add: Engine_Evaluate_def Reserve_def withNetworkLock_def)
      next
        case net: True
        show ?thesis
        proof (cases "loadCounter en (ck_Network c) (ck_Account c)")
          case (Inl e)
          thus ?thesis using \<open>pol = Inr po\<close> Some net by (simp add: Engine_Evaluate_def Reserve_def withNetworkLock_def Let_def)
        next
          case cf: (Inr cf)
          show ?thesis
          proof (cases "windowFor en ev c cf (ev_now ev)")
            case (Inl e)
            thus ?thesis using \<open>pol = Inr po\<close> Some net cf by (simp add: Engine_Evaluate_def Reserve_def withNetworkLock_def Let_def windowFor_nonce [OF assms(1)])
          next
            case w: (Inr sr)
            obtain spent rbf where sr: "sr = (spent, rbf)" by force
            obtain en1 where en1: "writeReservation ev (newReservation ev c) en = (Inr (), en1)" using wr by blast
            obtain en2 where en2: "writeCounter (ev_ctrw ev) (ck_Network c) (ck_Account c)
                ((debitCounter cf (rs_ID (newReservation ev c)) c (ev_now ev))\<lparr>cf_PolicyNonce := po_Nonce p\<rparr>) (ev_now ev) en1 = (Inr (), en2)"
              using wc by blast
            show ?thesis using \<open>pol = Inr po\<close> Some net cf w sr en1 en2 assms(2)
              by (simp add: Engine_Evaluate_def Reserve_def withNetworkLock_def Let_def windowFor_nonce [OF assms(1)] Evaluate_nonce refine_verdict denied_code)
          qed
        qed
      qed
    qed
  qed
qed

lemma approve_intent:
  "resolveApproveIntent selector A cfg fe label req revoke = Inr i \<Longrightarrow>
     \<exists>d. (\<exists>amount. approveAmount req revoke d = Inr (amount, in_unlimited i) \<and> in_tokenAmt i = Some amount) \<and> in_acked i = aq_AckUnlimited req
       \<and> in_policyKind i = policyKindApprove \<and> in_isContractSend i = False"
  by (auto simp: resolveApproveIntent_def bindR_def zero_intent_def split: sum.split_asm prod.split_asm)

section \<open>Properties\<close>

text \<open>A raw contract send of an approval or a transfer and the typed command over the same asset, side by side.\<close>

lemma raw_approve:
  assumes "selector sigApprove = selApprove" "selector sigTransfer = selTransfer"
    and t: "resolveApproveIntent selector A cfg fe label req revoke = Inr t" and i: "resolveContractSendIntent cfg fe label' creq = Inr i"
    and same: "cq_From creq = aq_From req" "cq_Network creq = aq_Network req" "cq_AckUnlimited creq = aq_AckUnlimited req"
    and tx: "in_to i = in_to t" "in_value i = 0" "in_data i = in_data t @ extra" and sub: "raw_subject A B t"
    and c: "full_check H B pol (i\<lparr>in_gas := q\<rparr>) n = Inr c"
  shows "\<exists>c'. full_check H B pol (t\<lparr>in_gas := q\<rparr>) n = Inr c' \<and> (\<forall>p w now. Evaluate p c w now = Evaluate p c' w now)"
proof -
  let ?i = "i\<lparr>in_gas := q\<rparr>" and ?t = "t\<lparr>in_gas := q\<rparr>" and ?a = "ds_Address (in_dest t)"
  obtain x where x: "in_tokenAmt t = Some x" "0 \<le> x" "x < 2 ^ 256" using sub by (auto simp: raw_subject_def)
  have v: "ds_Via (in_dest t) \<notin> {''ens'', ''contact''}" "?a \<noteq> zero_address" "addr_codec A B ?a" "in_to t \<noteq> zero_address" using sub unfolding raw_subject_def by blast+
  note T = approve_fields [OF t] and I = contract_fields [OF i]
  let ?cc = "spend_check ''approve'' KindApprove (in_to t) ?a x (IsUnlimitedAmount (Some x)) (Some 0)"
  let ?c' = "intent_check ?t n\<lparr>ck_ToSrc := SourceRawAddress\<rparr>"
  have cl: "ClassifyCalldata B (in_to ?i) (in_data ?i) (Some (in_value ?i)) = Some [?cc]"
    using calldata_recognised [where selector = selector and A = A and B = B, OF assms(1,2) v(3) x(2,3), of "in_to t" extra "Some 0"] by (simp add: tx T x(1))
  have tc: "full_check H B pol ?t n = Inr ?c'" using v(1) T(10) by (intro literal_check) simp_all
  have from_eq: "in_from i = in_from t" using T(1) I(1) same(1) by simp
  have "in_isContractSend ?i" using I(6) by simp
  note cr = classify_recognised [OF this cl c]
  have "c = ?c'\<lparr>ck_Kind := ''approve'', ck_KindEnum := effectiveKind ?c'\<rparr>"
    unfolding cr using v T I same from_eq x(1)
    by (simp add: spend_check_def intent_check_def zero_check_def checkDest_def checkAsset_def tokenTag_def isTokenOp_def
        policyCheckKind_def effectiveKind_def worst_case_def perGasPrice_def lowerHex_def tx)
  thus ?thesis using tc Evaluate_kind by metis
qed

lemma raw_transfer:
  assumes "selector sigApprove = selApprove" "selector sigTransfer = selTransfer"
    and t: "resolveIntent selector A cfg fe label req = Inr t" "TrimSpace (tq_Token req) \<noteq> []" and i: "resolveContractSendIntent cfg fe label' creq = Inr i"
    and same: "cq_From creq = tq_From req" "cq_Network creq = tq_Network req" "\<not> cq_AckUnlimited creq"
    and tx: "in_to i = in_to t" "in_value i = 0" "in_data i = in_data t @ extra" and sub: "raw_subject A B t"
    and c: "full_check H B pol (i\<lparr>in_gas := q\<rparr>) n = Inr c"
  shows "\<exists>c'. full_check H B pol (t\<lparr>in_gas := q\<rparr>) n = Inr c' \<and> (\<forall>p w now. Evaluate p c w now = Evaluate p c' w now)"
proof -
  let ?i = "i\<lparr>in_gas := q\<rparr>" and ?t = "t\<lparr>in_gas := q\<rparr>" and ?a = "ds_Address (in_dest t)"
  obtain x where x: "in_tokenAmt t = Some x" "0 \<le> x" "x < 2 ^ 256" using sub by (auto simp: raw_subject_def)
  have v: "ds_Via (in_dest t) \<notin> {''ens'', ''contact''}" "?a \<noteq> zero_address" "addr_codec A B ?a" "in_to t \<noteq> zero_address" using sub unfolding raw_subject_def by blast+
  note T = transfer_fields [OF t] and I = contract_fields [OF i]
  let ?cc = "spend_check ''transfer'' KindTransfer (in_to t) ?a x False (Some 0)"
  let ?c' = "intent_check ?t n\<lparr>ck_ToSrc := SourceRawAddress\<rparr>"
  have cl: "ClassifyCalldata B (in_to ?i) (in_data ?i) (Some (in_value ?i)) = Some [?cc]"
    using calldata_recognised [where selector = selector and A = A and B = B, OF assms(1,2) v(3) x(2,3), of "in_to t" extra "Some 0"] by (simp add: tx T x(1))
  have tc: "full_check H B pol ?t n = Inr ?c'" using v(1) T(11) by (intro literal_check) simp_all
  have from_eq: "in_from i = in_from t" using T(1) I(1) same(1) by simp
  have ne: "in_data t \<noteq> []" using T(8) TransferCalldata_nonempty x(1) by simp
  have op: "isTokenOp ?t" using ne T(9) by (simp add: isTokenOp_def)
  have "in_isContractSend ?i" using I(6) by simp
  note cr = classify_recognised [OF this cl c]
  have "c = ?c'\<lparr>ck_Kind := ''transfer'', ck_KindEnum := effectiveKind ?c'\<rparr>"
    unfolding cr using v T I same from_eq x(1) op
    by (simp add: spend_check_def intent_check_def zero_check_def checkDest_def checkAsset_def tokenTag_def
        policyCheckKind_def effectiveKind_def worst_case_def perGasPrice_def lowerHex_def tx)
  thus ?thesis using tc Evaluate_kind by metis
qed

text \<open>C9. A \<open>contract send\<close> of raw calldata cannot change the verdict.  Let the two commands run over the same registries,
  node and keystore, from the same account on the same network, and let the contract send address the token with no ETH and with
  the bytes the typed command packs, anything appended.  Then, at the same gas quote, the policy pipeline decides the contract send
  exactly as it decides the intent that \<open>token approve\<close> or \<open>token revoke\<close> (with the same unlimited acknowledgement) or
  \<open>tx send --token\<close> (the contract send without that acknowledgement) resolves, for every policy, window total and instant.
  The typed command names its spender or recipient by address, neither that address nor the token is the zero address (for the
  zero address \<open>checkDest\<close> falls back to the token contract), and the amount is below \<open>2 ^ 256\<close> (\<open>raw_subject\<close>).
  (Further hypotheses: the two Keccak selectors, and that the check of the contract send could be built.)\<close>

theorem raw_send_same_verdict:
  assumes "selector sigApprove = selApprove" "selector sigTransfer = selTransfer"
    and "resolveContractSendIntent cfg fe label' creq = Inr i" "in_value i = 0" "full_check H B pol (i\<lparr>in_gas := q\<rparr>) n = Inr c"
  shows "(resolveApproveIntent selector A cfg fe label areq revoke = Inr t \<and> raw_subject A B t \<and> in_to i = in_to t \<and> in_data i = in_data t @ extra
        \<and> cq_From creq = aq_From areq \<and> cq_Network creq = aq_Network areq \<and> cq_AckUnlimited creq = aq_AckUnlimited areq
        \<longrightarrow> (\<exists>c'. full_check H B pol (t\<lparr>in_gas := q\<rparr>) n = Inr c' \<and> (\<forall>p w now. Evaluate p c w now = Evaluate p c' w now)))
    \<and> (resolveIntent selector A cfg fe label treq = Inr u \<and> TrimSpace (tq_Token treq) \<noteq> [] \<and> raw_subject A B u \<and> in_to i = in_to u \<and> in_data i = in_data u @ extra
        \<and> cq_From creq = tq_From treq \<and> cq_Network creq = tq_Network treq \<and> \<not> cq_AckUnlimited creq
        \<longrightarrow> (\<exists>c'. full_check H B pol (u\<lparr>in_gas := q\<rparr>) n = Inr c' \<and> (\<forall>p w now. Evaluate p c w now = Evaluate p c' w now)))"
proof (intro conjI impI; elim conjE)
  assume t: "resolveApproveIntent selector A cfg fe label areq revoke = Inr t" and sub: "raw_subject A B t"
    and tx: "in_to i = in_to t" "in_data i = in_data t @ extra"
    and same: "cq_From creq = aq_From areq" "cq_Network creq = aq_Network areq" "cq_AckUnlimited creq = aq_AckUnlimited areq"
  show "\<exists>c'. full_check H B pol (t\<lparr>in_gas := q\<rparr>) n = Inr c' \<and> (\<forall>p w now. Evaluate p c w now = Evaluate p c' w now)"
    by (rule raw_approve [OF assms(1,2) t assms(3) same tx(1) assms(4) tx(2) sub assms(5)])
next
  assume u: "resolveIntent selector A cfg fe label treq = Inr u" "TrimSpace (tq_Token treq) \<noteq> []" and sub: "raw_subject A B u"
    and tx: "in_to i = in_to u" "in_data i = in_data u @ extra"
    and same: "cq_From creq = tq_From treq" "cq_Network creq = tq_Network treq" "\<not> cq_AckUnlimited creq"
  show "\<exists>c'. full_check H B pol (u\<lparr>in_gas := q\<rparr>) n = Inr c' \<and> (\<forall>p w now. Evaluate p c w now = Evaluate p c' w now)"
    by (rule raw_transfer [OF assms(1,2) u assms(3) same tx(1) assms(4) tx(2) sub assms(5)])
qed

lemma demo_addr: "''0xc0de'' \<noteq> zero_address" "''0xb0b'' \<noteq> zero_address"
  by (auto dest: arg_cong [of _ _ length] simp: zero_address_def)

definition demo_fenv :: fenv where
  "demo_fenv = \<lparr>fe_default = ''main'', fe_AddressOf = (\<lambda>_. Inr ''0xaa''), fe_resolveDest = (\<lambda>_. Inr (literal_dest ''0xb0b'')), fe_chain = Inr 1,
     fe_resolveAsset = (\<lambda>_. Inr \<lparr>rv_contract = ''0xc0de'', rv_decimals = 0, rv_kind = ''erc20'', rv_alias = [], rv_symbol = [], rv_bundled = False\<rparr>),
     fe_resolveNFT = (\<lambda>_. Inl (New ''ref.not_found'')), fe_resolveContract = (\<lambda>_. Inl (New ''ref.not_found'')), fe_abi = Inr (), fe_packCall = Inr []\<rparr>"

text \<open>An unlimited approval, acknowledged, by the typed command and as raw calldata with one byte appended.\<close>

definition demo_approve :: ApproveRequest where
  "demo_approve = \<lparr>aq_From = [], aq_Spender = ''0xb0b'', aq_Token = ''0xc0de'', aq_Amount = [], aq_Unlimited = True, aq_AckUnlimited = True,
     aq_Network = ''mainnet'', aq_RPC = []\<rparr>"

definition demo_raw :: ContractSendRequest where
  "demo_raw = \<lparr>cq_From = [], cq_Contract = ''0xc0de'', cq_Value = [], cq_AckUnlimited = True, cq_Network = ''mainnet'', cq_RPC = [], cq_Nonce = None\<rparr>"

definition raw_fenv :: fenv where
  "raw_fenv = demo_fenv\<lparr>fe_resolveContract := (\<lambda>_. Inr (literal_dest ''0xc0de'')),
     fe_packCall := Inr (ApproveCalldata demo_selector (\<lambda>_. replicate 20 7) ''0xb0b'' (Some (2 ^ 256 - 1)) @ [1])\<rparr>"

lemma trim_nil: "TrimSpace [] = []"
  by code_simp

lemma demo_from: "resolve_from raw_fenv [] = Inr ''0xaa''"
  by (simp add: resolve_from_def raw_fenv_def demo_fenv_def)

theorem raw_send_same_verdict_witness:
  "\<exists>i t c c'. resolveContractSendIntent demo_wcfg raw_fenv ''cli'' demo_raw = Inr i
     \<and> resolveApproveIntent demo_selector (\<lambda>_. replicate 20 7) demo_wcfg raw_fenv ''cli'' demo_approve False = Inr t
     \<and> full_check (\<lambda>s. s) (\<lambda>_. ''0xb0b'') (Inr None) (i\<lparr>in_gas := demo_quote\<rparr>) None = Inr c
     \<and> full_check (\<lambda>s. s) (\<lambda>_. ''0xb0b'') (Inr None) (t\<lparr>in_gas := demo_quote\<rparr>) None = Inr c'
     \<and> (\<forall>p w now. Evaluate p c w now = Evaluate p c' w now) \<and> in_unlimited t \<and> checkDest t = ''0xb0b''"
proof -
  let ?A = "\<lambda>_ :: address. replicate 20 (7 :: 8 word)" and ?B = "\<lambda>_ :: bytes. ''0xb0b''"
  have v: "parseEthAmount [] = Inr 0" by code_simp
  obtain i where i: "resolveContractSendIntent demo_wcfg raw_fenv ''cli'' demo_raw = Inr i" "in_value i = 0" "in_to i = ''0xc0de''" "in_dest i = literal_dest ''0xc0de''"
      "in_data i = ApproveCalldata demo_selector ?A ''0xb0b'' (Some (2 ^ 256 - 1)) @ [1]"
    by (simp add: resolveContractSendIntent_def bindR_def demo_raw_def demo_from v) (simp add: raw_fenv_def demo_fenv_def literal_dest_def zero_intent_def)
  obtain t where t: "resolveApproveIntent demo_selector ?A demo_wcfg raw_fenv ''cli'' demo_approve False = Inr t" "in_to t = ''0xc0de''"
      "in_dest t = literal_dest ''0xb0b''" "in_tokenAmt t = Some (2 ^ 256 - 1)" "in_unlimited t"
    by (simp add: resolveApproveIntent_def bindR_def demo_approve_def demo_from approveAmount_def trim_nil)
       (simp add: raw_fenv_def demo_fenv_def literal_dest_def)
  note T = approve_fields [OF t(1)]
  have sub: "raw_subject ?A ?B t" using demo_addr t by (simp add: raw_subject_def literal_dest_def addr_codec_def)
  have same: "in_data i = in_data t @ [1]" "in_to i = in_to t" using T(8) t i by (simp_all add: literal_dest_def)
  obtain c where c: "full_check (\<lambda>s. s) ?B (Inr None) (i\<lparr>in_gas := demo_quote\<rparr>) None = Inr c"
    using i(4) by (simp add: full_check_def applyDestProvenance_def literal_dest_def)
  have sel: "demo_selector sigApprove = selApprove" "demo_selector sigTransfer = selTransfer" by (simp_all add: demo_selector_def)
  have rq: "cq_From demo_raw = aq_From demo_approve" "cq_Network demo_raw = aq_Network demo_approve" "cq_AckUnlimited demo_raw = aq_AckUnlimited demo_approve"
    by (simp_all add: demo_raw_def demo_approve_def)
  obtain c' where "full_check (\<lambda>s. s) ?B (Inr None) (t\<lparr>in_gas := demo_quote\<rparr>) None = Inr c'" "\<forall>p w now. Evaluate p c w now = Evaluate p c' w now"
    using raw_send_same_verdict [OF sel i(1,2) c, THEN conjunct1, rule_format, OF conjI [OF t(1)], of "[1]"] sub same rq by blast
  moreover have "checkDest t = ''0xb0b''" using T(4) t(3) demo_addr by (simp add: checkDest_def literal_dest_def)
  ultimately show ?thesis using i(1) t(1,5) c by blast
qed

text \<open>C10. A dry run predicts the send: for a plain send (no replacement), in the same engine state and with working
  disks, \<open>--dry-run\<close> succeeds exactly when the durable reservation of the real send is granted, whatever nonce the send
  will get, and otherwise both fail with the same error code and neither changes anything.\<close>

theorem dry_run_predicts:
  assumes "in_replaces i = None" "in_kind i \<noteq> ''permit''" "full_check H B pinpol i n = Inr c"
    and "ev_log ev = LockOK" "ev_logw ev = WriteOK" "ev_ctrw ev = WriteOK" "readable (en_log en)"
  shows "case dryRun H B pinpol pol ev i en of
      (Inl e, en') \<Rightarrow> en' = en \<and> (\<exists>e'. Reserve pol ev c en = (Inl e', en) \<and> Code e' = Code e)
    | (Inr res, en') \<Rightarrow> en' = en \<and> (\<exists>r en''. Reserve pol ev c en = (Inr r, en''))"
proof -
  note fc = full_check_nonce [OF assms(3), of "in_nonce i"]
  obtain c0 where c0: "applyDestProvenance H pinpol i (intent_check i (in_nonce i)) = Inr c0" "c\<lparr>ck_AccountNonce := in_nonce i\<rparr> = fst (classifyContractSend B i c0)"
    using fc by (cases "applyDestProvenance H pinpol i (intent_check i (in_nonce i))") (auto simp: full_check_def)
  obtain cls where cls: "classifyContractSend B i c0 = (c\<lparr>ck_AccountNonce := in_nonce i\<rparr>, cls)" using c0(2) by (metis prod.collapse)
  obtain d en' where d: "Engine_Evaluate pol ev (c\<lparr>ck_AccountNonce := in_nonce i\<rparr>) en = (d, en')" by force
  note R = Evaluate_Reserve [OF full_check_rbf [OF assms(3,1)] full_check_facts(5) [OF assms(3,2)] assms(4-7), of pol "in_nonce i"]
  show ?thesis using R d Engine_Evaluate_pure [OF d]
    by (auto simp: dryRun_def c0(1) cls Let_def overlay_code WithData_def split: sum.split_asm if_split_asm option.split)
qed

theorem dry_run_predicts_witness:
  "\<exists>res. dryRun (\<lambda>s. s) (\<lambda>_. zero_address) (Inr None) (Inr None) demo_env demo_intent demo_log_engine = (Inr res, demo_log_engine) \<and>
     (\<exists>c r en'. full_check (\<lambda>s. s) (\<lambda>_. zero_address) (Inr None) demo_intent (Some 9) = Inr c \<and> Reserve (Inr None) demo_env c demo_log_engine = (Inr r, en'))"
proof -
  obtain c where c: "full_check (\<lambda>s. s) (\<lambda>_. zero_address) (Inr None) demo_intent (Some 9) = Inr c"
    by (simp add: full_check_def applyDestProvenance_def demo_intent_def)
  have h: "in_replaces demo_intent = None" "ev_log demo_env = LockOK" "ev_logw demo_env = WriteOK" "ev_ctrw demo_env = WriteOK" "readable (en_log demo_log_engine)"
    using res_lookup_readable [OF demo_lookup] by (simp_all add: demo_intent_def demo_env_def)
  obtain res where r: "dryRun (\<lambda>s. s) (\<lambda>_. zero_address) (Inr None) (Inr None) demo_env demo_intent demo_log_engine = (Inr res, demo_log_engine)"
    by (simp add: dryRun_def applyDestProvenance_def classifyContractSend_def demo_intent_def Engine_Evaluate_def allowed_decision_def)
  show ?thesis using dry_run_predicts [OF h(1) demo_facts(2) c h(2-5), where pol = "Inr None"] r c by auto
qed

text \<open>An unlimited approval always needs its acknowledgement: however the amount was written (the unlimited flag, or a plain
  amount that lands on one of the three sentinels), an approve command without the acknowledgement is denied under every policy,
  for every window total, gas quote and destination.\<close>

lemma approve_needs_ack:
  assumes "resolveApproveIntent selector A cfg fe label req revoke = Inr i" "IsUnlimitedAmount (in_tokenAmt i)" "\<not> aq_AckUnlimited req"
    and "full_check H B pol (i\<lparr>in_gas := q\<rparr>) n = Inr c"
  shows "\<not> de_Allowed (Evaluate p c w now)"
proof -
  obtain d where i: "\<exists>amount. approveAmount req revoke d = Inr (amount, in_unlimited i) \<and> in_tokenAmt i = Some amount" "in_acked i = False"
      "in_policyKind i = policyKindApprove" "in_isContractSend i = False"
    using approve_intent [OF assms(1)] assms(3) by auto
  have u: "in_unlimited i" using approveAmount_unlimited assms(2) i(1) by fastforce
  obtain c0 where c0: "applyDestProvenance H pol (i\<lparr>in_gas := q\<rparr>) (intent_check (i\<lparr>in_gas := q\<rparr>) n) = Inr c0" "c = c0"
    using assms(4) i(4) by (cases "applyDestProvenance H pol (i\<lparr>in_gas := q\<rparr>) (intent_check (i\<lparr>in_gas := q\<rparr>) n)")
      (auto simp: full_check_def classifyContractSend_def)
  note c = provenance_other [OF c0(1)]
  have k: "effectiveKind c = KindApprove" using provenance_frame(5,6) [OF c0(1)] c0(2) i(3)
    by (simp add: effectiveKind_def intent_check_def policyCheckKind_def zero_check_def)
  have a: "ck_Unlimited c" "\<not> ck_Acked c" "\<not> ck_TypedUnknown c" unfolding c0(2) using u i(2)
    by (subst c, simp add: intent_check_def zero_check_def)+
  have "stageUnlimited p c KindApprove \<noteq> None" using a by (simp add: stageUnlimited_def Let_def)
  hence "violations_of p c w now \<noteq> []" using k by (auto simp: violations_of_def Let_def)
  thus ?thesis using a(3) by (simp add: Evaluate_def composeDenial_def Let_def)
qed



end
