(* ===== verification/Typed_Data.thy ===== *)
theory Typed_Data
  imports Complex_Main Policy_Window Calldata
begin

text \<open>
  Signing of messages and typed data: the EIP-712 recognizers (\<open>policy/recognizers.go\<close>) and the gate of the sign
  use cases (\<open>service/sign.go\<close>).  A document is a tree of JSON values; a map is an association list with distinct keys.
  \<open>common.IsHexAddress\<close> and \<open>common.HexToAddress(s).Hex()\<close> are arguments, as are the digests and the signer.
\<close>

section \<open>Documents\<close>

datatype tval = TStr string | TBool bool | TInt int | TFloat rat | TBig int | TAddr string | TArr "tval list" | TObj "(string \<times> tval) list" | TNil

type_synonym tmap = "(string \<times> tval) list"

record SpendToken =
  st_Token :: string
  st_Unlimited :: bool

record TypedDataClass =
  tc_IsSpend :: bool
  tc_Kind :: string
  tc_Spender :: string
  tc_Unlimited :: bool
  tc_ChainID :: int
  tc_Verifying :: string
  tc_Primary :: string
  tc_Denied :: bool
  tc_DenyReason :: string
  tc_Tokens :: "SpendToken list"

definition no_class :: TypedDataClass where
  "no_class = \<lparr>tc_IsSpend = False, tc_Kind = [], tc_Spender = [], tc_Unlimited = False, tc_ChainID = 0, tc_Verifying = [],
     tc_Primary = [], tc_Denied = False, tc_DenyReason = [], tc_Tokens = []\<rparr>"

definition spend_class :: "string \<Rightarrow> bool \<Rightarrow> TypedDataClass" where
  "spend_class spender unl = no_class\<lparr>tc_IsSpend := True, tc_Kind := ''approve'', tc_Spender := spender, tc_Unlimited := unl\<rparr>"

definition permit2Contract :: string where
  "permit2Contract = ''0x000000000022d473030f116ddee9f6b43ac78ba3''"

abbreviation (input) "uint256Max \<equiv> 2 ^ 256 - 1"
abbreviation (input) "uint160Max \<equiv> 2 ^ 160 - 1"

section \<open>Reading values\<close>

definition hexDigitVal :: "char \<Rightarrow> nat option" where
  "hexDigitVal c = map_option unat (hexVal c)"

fun hex_digits_val :: "nat \<Rightarrow> string \<Rightarrow> nat option" where
  "hex_digits_val acc [] = Some acc"
| "hex_digits_val acc (c # cs) = (case hexDigitVal c of None \<Rightarrow> None | Some d \<Rightarrow> hex_digits_val (16 * acc + d) cs)"

text \<open>\<open>big.Int.SetString\<close> in base 16.\<close>

definition SetString16 :: "string \<Rightarrow> int option" where
  "SetString16 s = (case s of [] \<Rightarrow> None
     | c # r \<Rightarrow> if c = CHR ''-'' then (if r = [] then None else map_option (\<lambda>n. - int n) (hex_digits_val 0 r))
         else if c = CHR ''+'' then (if r = [] then None else map_option int (hex_digits_val 0 r))
         else map_option int (hex_digits_val 0 s))"

definition parseBigString :: "string \<Rightarrow> int option" where
  "parseBigString s0 = (let s = TrimSpace s0 in
     if s = [] then None
     else if HasPrefix s ''0x'' \<or> HasPrefix s ''0X'' then SetString16 (drop 2 s)
     else SetString s)"

definition is_int64 :: "int \<Rightarrow> bool" where
  "is_int64 n \<longleftrightarrow> - (2 ^ 63) \<le> n \<and> n < 2 ^ 63"

text \<open>\<open>TInt\<close> is an \<open>int64\<close>, \<open>TFloat\<close> the exact value of a finite \<open>float64\<close>, \<open>TBig\<close> a
  \<open>*big.Int\<close> and \<open>TAddr\<close> a \<open>common.Address\<close>, given by its checksummed text.  A float is accepted when the conversion to \<open>int64\<close> and back is exact.\<close>

definition messageBig :: "tmap \<Rightarrow> string \<Rightarrow> int option" where
  "messageBig m key = (case map_of m key of
       Some (TStr s) \<Rightarrow> parseBigString s
     | Some (TFloat f) \<Rightarrow> if of_int (floor f) = f \<and> is_int64 (floor f) then Some (floor f) else None
     | Some (TInt n) \<Rightarrow> Some n
     | Some (TBig n) \<Rightarrow> Some n
     | _ \<Rightarrow> None)"

definition messageBool :: "tmap \<Rightarrow> string \<Rightarrow> bool option" where
  "messageBool m key = (case map_of m key of
       Some (TBool b) \<Rightarrow> Some b
     | Some (TStr s) \<Rightarrow> if s = ''true'' then Some True else if s = ''false'' then Some False else None
     | _ \<Rightarrow> None)"

record codec =
  IsHexAddress :: "string \<Rightarrow> bool"
  HexAddr :: "string \<Rightarrow> address"

definition lowerAddr :: "codec \<Rightarrow> tval option \<Rightarrow> string" where
  "lowerAddr cd v = (case v of Some (TStr t) \<Rightarrow> if IsHexAddress cd t then ToLower (HexAddr cd t) else []
     | Some (TAddr a) \<Rightarrow> ToLower a | _ \<Rightarrow> [])"

definition messageAddr :: "codec \<Rightarrow> tmap \<Rightarrow> string \<Rightarrow> string option" where
  "messageAddr cd m key = (let a = lowerAddr cd (map_of m key) in if a = [] then None else Some a)"

definition hasExactKeys :: "tmap \<Rightarrow> string list \<Rightarrow> bool" where
  "hasExactKeys m want \<longleftrightarrow> length m = length want \<and> list_all (\<lambda>k. map_of m k \<noteq> None) want"

definition readChainID :: "tmap \<Rightarrow> int" where
  "readChainID domain = (case messageBig domain ''chainId'' of None \<Rightarrow> 0 | Some v \<Rightarrow> if is_int64 v then v else 0)"

section \<open>Recognizers\<close>

definition matchEIP2612 :: "codec \<Rightarrow> string \<Rightarrow> tmap \<Rightarrow> TypedDataClass option" where
  "matchEIP2612 cd primaryType message =
    (if primaryType \<noteq> ''Permit'' \<or> \<not> hasExactKeys message [''owner'', ''spender'', ''value'', ''nonce'', ''deadline''] then None
     else case messageAddr cd message ''spender'' of None \<Rightarrow> None | Some spender \<Rightarrow>
       (case messageBig message ''value'' of None \<Rightarrow> None | Some value \<Rightarrow>
          Some (spend_class spender (value = uint256Max \<or> messageBig message ''deadline'' = Some uint256Max))))"

definition matchDAIPermit :: "codec \<Rightarrow> string \<Rightarrow> tmap \<Rightarrow> TypedDataClass option" where
  "matchDAIPermit cd primaryType message =
    (if primaryType \<noteq> ''Permit'' \<or> \<not> hasExactKeys message [''holder'', ''spender'', ''nonce'', ''expiry'', ''allowed''] then None
     else case messageAddr cd message ''spender'' of None \<Rightarrow> None | Some spender \<Rightarrow>
       (case messageBool message ''allowed'' of None \<Rightarrow> None | Some allowed \<Rightarrow> Some (spend_class spender allowed)))"

definition permit2Token :: "codec \<Rightarrow> tval option \<Rightarrow> int \<Rightarrow> SpendToken option" where
  "permit2Token cd v sentinel = (case v of Some (TObj obj) \<Rightarrow>
       (case messageAddr cd obj ''token'' of None \<Rightarrow> None | Some token \<Rightarrow>
         (case messageBig obj ''amount'' of None \<Rightarrow> None | Some amt \<Rightarrow> Some \<lparr>st_Token = token, st_Unlimited = (amt = sentinel)\<rparr>))
     | _ \<Rightarrow> None)"

fun collect_tokens :: "codec \<Rightarrow> int \<Rightarrow> tval list \<Rightarrow> SpendToken list option" where
  "collect_tokens cd sentinel [] = Some []"
| "collect_tokens cd sentinel (el # els) = (case permit2Token cd (Some el) sentinel of None \<Rightarrow> None
     | Some st \<Rightarrow> (case collect_tokens cd sentinel els of None \<Rightarrow> None | Some sts \<Rightarrow> Some (st # sts)))"

definition permit2Tokens :: "codec \<Rightarrow> tval option \<Rightarrow> int \<Rightarrow> (SpendToken list \<times> bool) option" where
  "permit2Tokens cd raw sentinel = (case raw of
       Some (TArr arr) \<Rightarrow> if arr = [] then None
         else (case collect_tokens cd sentinel arr of None \<Rightarrow> None | Some toks \<Rightarrow> Some (toks, list_ex st_Unlimited toks))
     | _ \<Rightarrow> None)"

definition permit2_class :: "string \<Rightarrow> (SpendToken list \<times> bool) option \<Rightarrow> TypedDataClass option" where
  "permit2_class spender toks = (case toks of None \<Rightarrow> None | Some (ts, unl) \<Rightarrow> Some (spend_class spender unl\<lparr>tc_Tokens := ts\<rparr>))"

text \<open>The signature-transfer forms may omit the spender.\<close>

definition matchPermit2 :: "codec \<Rightarrow> string \<Rightarrow> string \<Rightarrow> tmap \<Rightarrow> TypedDataClass option" where
  "matchPermit2 cd primaryType verifying message =
    (let single = map_option (\<lambda>st. ([st], st_Unlimited st));
         required = messageAddr cd message ''spender'';
         optional = (case required of None \<Rightarrow> [] | Some a \<Rightarrow> a) in
     if verifying \<noteq> permit2Contract then None
     else if primaryType = ''PermitSingle'' then
       (case required of None \<Rightarrow> None | Some spender \<Rightarrow> permit2_class spender (single (permit2Token cd (map_of message ''details'') uint160Max)))
     else if primaryType = ''PermitBatch'' then
       (case required of None \<Rightarrow> None | Some spender \<Rightarrow> permit2_class spender (permit2Tokens cd (map_of message ''details'') uint160Max))
     else if primaryType = ''PermitTransferFrom'' then
       permit2_class optional (single (permit2Token cd (map_of message ''permitted'') uint256Max))
     else if primaryType = ''PermitBatchTransferFrom'' then
       permit2_class optional (permit2Tokens cd (map_of message ''permitted'') uint256Max)
     else None)"

definition classifyTypedData :: "codec \<Rightarrow> string \<Rightarrow> tmap \<Rightarrow> tmap \<Rightarrow> TypedDataClass" where
  "classifyTypedData cd primaryType domain message =
    (let chainID = readChainID domain; verifying = lowerAddr cd (map_of domain ''verifyingContract'');
         stamp = (\<lambda>c. c\<lparr>tc_ChainID := chainID, tc_Verifying := verifying, tc_Primary := primaryType\<rparr>);
         own = (\<lambda>c. c\<lparr>tc_Tokens := [\<lparr>st_Token = verifying, st_Unlimited = tc_Unlimited c\<rparr>]\<rparr>) in
     case matchEIP2612 cd primaryType message of Some c \<Rightarrow> own (stamp c)
     | None \<Rightarrow> (case matchDAIPermit cd primaryType message of Some c \<Rightarrow> own (stamp c)
     | None \<Rightarrow> (case matchPermit2 cd primaryType verifying message of Some c \<Rightarrow> stamp c
     | None \<Rightarrow> no_class)))"

definition ClassifyTypedDataFor :: "codec \<Rightarrow> int \<Rightarrow> string \<Rightarrow> tmap \<Rightarrow> tmap \<Rightarrow> TypedDataClass" where
  "ClassifyTypedDataFor cd expectedChainID primaryType domain message =
    (let c = classifyTypedData cd primaryType domain message in
     if tc_IsSpend c \<and> expectedChainID > 0 \<and> tc_ChainID c > 0 \<and> tc_ChainID c \<noteq> expectedChainID
     then c\<lparr>tc_Denied := True, tc_DenyReason := ''chain_mismatch''\<rparr> else c)"

section \<open>The signing gate\<close>

record TypedDomain =
  dm_ChainId :: "int option"
  dm_Name :: string
  dm_Version :: string
  dm_VerifyingContract :: string
  dm_Salt :: string

record TypedData =
  td_PrimaryType :: string
  td_Domain :: TypedDomain
  td_Message :: tmap

definition normalizedDomainMap :: "TypedData \<Rightarrow> tmap" where
  "normalizedDomainMap t = (let d = td_Domain t; opt = (\<lambda>k v. if v = [] then [] else [(k, TStr v)]) in
     (case dm_ChainId d of None \<Rightarrow> [] | Some c \<Rightarrow> [(''chainId'', TStr (int_dec c))]) @ opt ''name'' (dm_Name d) @ opt ''version'' (dm_Version d)
     @ opt ''verifyingContract'' (dm_VerifyingContract d) @ opt ''salt'' (dm_Salt d))"

text \<open>\<open>strconv.ParseInt\<close>: a signed integer of the base, within \<open>int64\<close>.\<close>

definition readDomainChainID :: "tmap \<Rightarrow> int" where
  "readDomainChainID m = (case map_of m ''chainId'' of
       Some (TFloat f) \<Rightarrow> (if f < 0 then - floor (- f) else floor f)
     | Some (TInt n) \<Rightarrow> n
     | Some (TStr v) \<Rightarrow> (let s = TrimSpace v;
           n = (if s = [] then None else if HasPrefix s ''0x'' \<or> HasPrefix s ''0X'' then SetString16 (drop 2 s) else SetString s) in
         case n of None \<Rightarrow> 0 | Some k \<Rightarrow> if is_int64 k then k else 0)
     | _ \<Rightarrow> 0)"

definition deniedDecisionError :: "Decision \<Rightarrow> Error" where
  "deniedDecisionError dec = (let code = (if de_Code dec = [] then codeDenied else de_Code dec); de = WithData (New code) (de_Data dec) in
     case de_RetryAfter dec of None \<Rightarrow> de | Some t \<Rightarrow> WithData de [(''retry_after'', JTime t)])"

definition verdict :: "Policy option result \<Rightarrow> env \<Rightarrow> Check \<Rightarrow> engine \<Rightarrow> unit result" where
  "verdict pol ev c en = (case fst (Engine_Evaluate pol ev c en) of Inl e \<Rightarrow> Inl e
     | Inr dec \<Rightarrow> if \<not> de_Allowed dec then Inl (deniedDecisionError dec) else Inr ())"

definition permit_check :: "codec \<Rightarrow> TypedDataClass \<Rightarrow> address \<Rightarrow> string \<Rightarrow> bool \<Rightarrow> SpendToken \<Rightarrow> Check" where
  "permit_check cd cls from network acked e = zero_check\<lparr>ck_Account := from, ck_Network := network, ck_ToInput := tc_Primary cls,
     ck_KindEnum := KindPermit, ck_Dest := HexAddr cd (tc_Spender cls), ck_Unlimited := st_Unlimited e, ck_Acked := acked, ck_Token := st_Token e,
     ck_Asset := (if tc_Denied cls then ''chain_mismatch:'' @ int_dec (tc_ChainID cls) else st_Token e)\<rparr>"

fun check_entries :: "(Check \<Rightarrow> unit result) \<Rightarrow> (SpendToken \<Rightarrow> Check) \<Rightarrow> SpendToken list \<Rightarrow> unit result" where
  "check_entries judge mk [] = Inr ()"
| "check_entries judge mk (e # es) = (case judge (mk e) of Inl err \<Rightarrow> Inl err | Inr _ \<Rightarrow> check_entries judge mk es)"

definition spend_entries :: "TypedDataClass \<Rightarrow> SpendToken list" where
  "spend_entries cls = (if tc_Tokens cls = [] then [\<lparr>st_Token = tc_Verifying cls, st_Unlimited = tc_Unlimited cls\<rparr>] else tc_Tokens cls)"

definition evaluateSpendEquivalent :: "codec \<Rightarrow> Policy option result \<Rightarrow> env \<Rightarrow> TypedDataClass \<Rightarrow> address \<Rightarrow> string \<Rightarrow> bool \<Rightarrow> engine \<Rightarrow> unit result" where
  "evaluateSpendEquivalent cd pol ev cls from network acked en =
     check_entries (\<lambda>c. verdict pol ev c en) (permit_check cd cls from network acked) (spend_entries cls)"

definition typed_check :: "codec \<Rightarrow> TypedData \<Rightarrow> address \<Rightarrow> string \<Rightarrow> int \<Rightarrow> Check" where
  "typed_check cd t from network activeChainID =
    (let m = normalizedDomainMap t; cid = readDomainChainID m in
     zero_check\<lparr>ck_Account := from, ck_Network := network, ck_ToInput := td_PrimaryType t, ck_TypedUnknown := True, ck_TypedPrimary := td_PrimaryType t,
       ck_TypedVerifying := lowerAddr cd (map_of m ''verifyingContract''), ck_TypedChainID := cid,
       ck_Asset := (if activeChainID > 0 \<and> cid > 0 \<and> cid \<noteq> activeChainID then ''chain_mismatch:'' @ int_dec cid else [])\<rparr>)"

definition authorizeSignature :: "codec \<Rightarrow> Policy option result \<Rightarrow> env \<Rightarrow> TypedData \<Rightarrow> address \<Rightarrow> string \<Rightarrow> int \<Rightarrow> bool \<Rightarrow> engine \<Rightarrow> unit result" where
  "authorizeSignature cd pol ev t from network activeChainID acked en =
    (let cls = ClassifyTypedDataFor cd activeChainID (td_PrimaryType t) (normalizedDomainMap t) (td_Message t) in
     if tc_IsSpend cls then evaluateSpendEquivalent cd pol ev cls from network acked en
     else verdict pol ev (typed_check cd t from network activeChainID) en)"

text \<open>The environment of a signature: the resolved account, the parsed document (\<open>None\<close>: not JSON), the chain id the node
  reports, the digest of the document and what the signer returns.\<close>

record sgenv =
  sg_signer :: "address result"
  sg_doc :: "TypedData option"
  sg_chain :: "(int option) result"
  sg_digest :: "string option"
  sg_sign :: "string \<Rightarrow> bytes result"

definition activeChainID :: "sgenv \<Rightarrow> int result" where
  "activeChainID sg = (case sg_chain sg of Inl e \<Rightarrow> Inl e
     | Inr None \<Rightarrow> Inr 0 | Inr (Some c) \<Rightarrow> Inr (if is_int64 c then c else 0))"

text \<open>The recovery byte of a 65-byte signature becomes 27 or 28.\<close>

definition sigResult :: "bytes \<Rightarrow> string" where
  "sigResult sig = hexBytes (if length sig = 65 \<and> sig ! 64 < 27 then sig[64 := sig ! 64 + 27] else sig)"

definition SignTyped :: "codec \<Rightarrow> Policy option result \<Rightarrow> env \<Rightarrow> sgenv \<Rightarrow> string \<Rightarrow> bool \<Rightarrow> engine \<Rightarrow> string result" where
  "SignTyped cd pol ev sg network acked en = (case sg_signer sg of Inl e \<Rightarrow> Inl e
     | Inr from \<Rightarrow> (case sg_doc sg of None \<Rightarrow> Inl (New ''sign.bad_typed'')
     | Some t \<Rightarrow> (case activeChainID sg of Inl e \<Rightarrow> Inl e
     | Inr active \<Rightarrow> (case authorizeSignature cd pol ev t from network active acked en of Inl e \<Rightarrow> Inl e
     | Inr _ \<Rightarrow> (case sg_digest sg of None \<Rightarrow> Inl (New ''sign.bad_typed'')
     | Some d \<Rightarrow> map_sum id sigResult (sg_sign sg d))))))"

text \<open>The kill switch of \<open>sign message\<close>: \<open>shown\<close> is what \<open>policy.Show\<close> returns, the rules with the flag that an anchor or a policy is present.\<close>

definition checkMessagesKillSwitch :: "(Policy \<times> bool) result \<Rightarrow> unit result" where
  "checkMessagesKillSwitch shown = (case shown of Inl e \<Rightarrow> Inl e
     | Inr (pol, present) \<Rightarrow> if \<not> present then Inr ()
         else if EqualFold (TrimSpace (po_Messages pol)) ''deny'' then Inl (New codeTypedData) else Inr ())"

definition SignMessage :: "(Policy \<times> bool) result \<Rightarrow> sgenv \<Rightarrow> (bytes \<Rightarrow> string) \<Rightarrow> bytes \<Rightarrow> string result" where
  "SignMessage shown sg TextHash msg = (case sg_signer sg of Inl e \<Rightarrow> Inl e
     | Inr _ \<Rightarrow> (case checkMessagesKillSwitch shown of Inl e \<Rightarrow> Inl e
     | Inr _ \<Rightarrow> map_sum id sigResult (sg_sign sg (TextHash msg))))"

section \<open>Lemmas\<close>

text \<open>The chain a document's domain names, as a number: \<open>0\<close> when it names none that fits \<open>int64\<close>.\<close>

definition domain_chain :: "TypedData \<Rightarrow> int" where
  "domain_chain t = (case dm_ChainId (td_Domain t) of Some c \<Rightarrow> if is_int64 c then c else 0 | None \<Rightarrow> 0)"

lemma map_of_opt: "k \<noteq> k' \<Longrightarrow> map_of ((if v = [] then [] else [(k', TStr v)]) @ m) k = map_of m k"
  by auto

lemma normalized_chainId: "map_of (normalizedDomainMap t) ''chainId'' = map_option (\<lambda>c. TStr (int_dec c)) (dm_ChainId (td_Domain t))"
  by (auto simp: normalizedDomainMap_def Let_def split: option.split)

lemma normalized_verifying: "map_of (normalizedDomainMap t) ''verifyingContract'' =
    (if dm_VerifyingContract (td_Domain t) = [] then None else Some (TStr (dm_VerifyingContract (td_Domain t))))"
  by (auto simp: normalizedDomainMap_def Let_def split: option.split)

lemma int_dec_chars: "x \<in> set (int_dec c) \<Longrightarrow> x = CHR ''-'' \<or> is_digit x"
  using nat_dec_digits by (auto simp: int_dec_def list_all_iff split: if_split_asm)

lemma trim_plain: "\<forall>x \<in> set s. \<not> is_space x \<Longrightarrow> TrimSpace s = s"
proof -
  assume "\<forall>x \<in> set s. \<not> is_space x"
  moreover from this have "dropWhile is_space s = s" by (cases s) auto
  moreover from calculation have "dropWhile is_space (rev s) = rev s" by (cases s rule: rev_cases) auto
  ultimately show ?thesis by (simp add: TrimSpace_def TrimLeftP_def TrimRightP_def)
qed

lemma int_dec_plain: "TrimSpace (int_dec c) = int_dec c" "int_dec c \<noteq> []" "\<not> HasPrefix (int_dec c) ''0x''" "\<not> HasPrefix (int_dec c) ''0X''"
proof -
  show "TrimSpace (int_dec c) = int_dec c"
  proof (intro trim_plain ballI)
    fix x
    assume "x \<in> set (int_dec c)"
    from int_dec_chars [OF this] show "\<not> is_space x" using digit_not_sign by (auto simp: is_space_def)
  qed
  show "int_dec c \<noteq> []" by (simp add: int_dec_def)
  have "CHR ''x'' \<notin> set (int_dec c)" "CHR ''X'' \<notin> set (int_dec c)" using int_dec_chars [of "CHR ''x''" c] int_dec_chars [of "CHR ''X''" c] by (auto simp: is_digit_def)
  thus "\<not> HasPrefix (int_dec c) ''0x''" "\<not> HasPrefix (int_dec c) ''0X''"
    by (metis HasPrefix_def in_set_takeD list.set_intros)+
qed

lemma chain_readers: "readChainID (normalizedDomainMap t) = domain_chain t" "readDomainChainID (normalizedDomainMap t) = domain_chain t"
  by (auto simp: readChainID_def readDomainChainID_def messageBig_def parseBigString_def domain_chain_def normalized_chainId
      int_dec_plain Let_def split: option.split)

lemma check_entries_ok: "check_entries judge mk es = Inr () \<longleftrightarrow> (\<forall>e \<in> set es. judge (mk e) = Inr ())"
  by (induction es) (auto split: sum.split)

lemma verdict_allowed:
  assumes "verdict (Inr (Some p)) ev c en = Inr ()"
  obtains used where "de_Allowed (Evaluate p c used (ev_now ev))"
  using assms by (auto simp: verdict_def Engine_Evaluate_def withNetworkLock_def refine_verdict
      split: sum.split_asm if_split_asm lockfault.split_asm prod.split_asm)

lemma match_not_denied:
  "matchEIP2612 cd pt msg = Some c \<Longrightarrow> \<not> tc_Denied c" "matchDAIPermit cd pt msg = Some c \<Longrightarrow> \<not> tc_Denied c"
  "permit2_class a ts = Some c \<Longrightarrow> \<not> tc_Denied c" "matchPermit2 cd pt v msg = Some c \<Longrightarrow> \<not> tc_Denied c"
proof -
  show "matchEIP2612 cd pt msg = Some c \<Longrightarrow> \<not> tc_Denied c"
    by (auto simp: matchEIP2612_def spend_class_def no_class_def split: if_split_asm option.split_asm)
  show "matchDAIPermit cd pt msg = Some c \<Longrightarrow> \<not> tc_Denied c"
    by (auto simp: matchDAIPermit_def spend_class_def no_class_def split: if_split_asm option.split_asm)
  show p: "permit2_class a ts = Some c \<Longrightarrow> \<not> tc_Denied c" for a ts
    by (auto simp: permit2_class_def spend_class_def no_class_def split: option.split_asm)
  show "matchPermit2 cd pt v msg = Some c \<Longrightarrow> \<not> tc_Denied c"
    by (auto simp: matchPermit2_def Let_def dest: p split: if_split_asm option.split_asm)
qed

lemma classify_fields:
  "tc_IsSpend (classifyTypedData cd pt m msg) \<Longrightarrow> tc_ChainID (classifyTypedData cd pt m msg) = readChainID m"
  "\<not> tc_Denied (classifyTypedData cd pt m msg)"
proof -
  show "tc_IsSpend (classifyTypedData cd pt m msg) \<Longrightarrow> tc_ChainID (classifyTypedData cd pt m msg) = readChainID m"
    unfolding classifyTypedData_def Let_def by (simp add: no_class_def split: option.splits)
  show "\<not> tc_Denied (classifyTypedData cd pt m msg)"
    unfolding classifyTypedData_def Let_def using match_not_denied by (simp add: no_class_def split: option.splits)
qed

text \<open>What a permit check that the policy allows says of the entry.\<close>

definition entry_permitted :: "codec \<Rightarrow> Policy \<Rightarrow> string \<Rightarrow> bool \<Rightarrow> TypedDataClass \<Rightarrow> SpendToken \<Rightarrow> bool" where
  "entry_permitted cd p network acked cls e \<longleftrightarrow> (let lim = resolveLimits p network; spender = HexAddr cd (tc_Spender cls) in
     (st_Unlimited e \<longrightarrow> acked \<and> \<not> tokenHardDeny p network (ToLower (st_Token e))) \<and>
     (if rl_allowlistEnabled lim then destination_listed p lim spender else rl_anySet lim \<longrightarrow> po_TokensNoAllowlistOK p) \<and>
     \<not> (\<exists>d \<in> set (po_Denylist p). lowerHex spender \<noteq> [] \<and> EqualFold (pin_Address d) (lowerHex spender)))"

lemma permit_check_typed: "\<not> ck_TypedUnknown (permit_check cd cls a network acked e)"
  by (simp add: permit_check_def zero_check_def)

lemma permit_check_permitted:
  assumes "permitted p (permit_check cd cls a network acked e) used"
  shows "\<not> tc_Denied cls" "entry_permitted cd p network acked cls e"
proof -
  show d: "\<not> tc_Denied cls"
    using assms by (auto simp: permitted_def permit_check_def effectiveKind_def Let_def HasPrefix_def)
  show "entry_permitted cd p network acked cls e"
    using assms d by (auto simp: permitted_def permit_check_def effectiveKind_def Let_def entry_permitted_def isTokenOrApproval_def
        unlimited_grant_def grant_token_def denylisted_def zero_check_def ToLower_def split: if_split_asm)
qed

lemma Evaluate_acked:
  assumes "\<not> ck_Unlimited c" "\<not> isUnlimitedAmount (ck_TokenAmt c)"
  shows "Evaluate p (c\<lparr>ck_Acked := b\<rparr>) used now = Evaluate p c used now"
proof -
  let ?c = "c\<lparr>ck_Acked := b\<rparr>"
  have "stageUnlimited p ?c k = None" "stageUnlimited p c k = None" for k using assms by (simp_all add: stageUnlimited_def)
  moreover have "effectiveKind ?c = effectiveKind c" by (simp add: effectiveKind_def)
  moreover have "stageDenylist p ?c = stageDenylist p c" by (simp add: stageDenylist_def destRole_def effectiveKind_def Let_def)
  moreover have "stageAllowlist p lim ?c = stageAllowlist p lim c" for lim by (simp add: stageAllowlist_def destRole_def effectiveKind_def Let_def)
  moreover have "stageNoAllowlist p lim ?c k = stageNoAllowlist p lim c k" for lim k by (simp add: stageNoAllowlist_def isTokenOrApproval_def)
  moreover have "stagePinDrift ?c = stagePinDrift c" by (cases "ck_ToSrc c") (simp_all add: stagePinDrift_def Let_def)
  moreover have "stageTypedData p lim ?c = stageTypedData p lim c" for lim
    by (simp add: stageTypedData_def effectiveKind_def typed_violation_def typedAllowMatch_def)
  moreover have "stageUnknownCalldata p lim ?c = stageUnknownCalldata p lim c" for lim
    by (simp add: stageUnknownCalldata_def contractAddrAllowlisted_def)
  moreover have "stagePerTx lim ?c k = stagePerTx lim c k" for lim k by (cases "rl_maxTx lim") (simp_all add: stagePerTx_def spendWei_def maxGasWei_def Let_def)
  moreover have "stageDaily lim ?c used now = stageDaily lim c used now" for lim
    by (cases "rl_maxDay lim") (simp_all add: stageDaily_def spendWei_def maxGasWei_def effectiveKind_def Let_def)
  moreover have "stageGasCap lim ?c = stageGasCap lim c" for lim
    by (cases "rl_maxGasPrice lim") (simp_all add: stageGasCap_def maxFeePerGas_def Let_def)
  ultimately show ?thesis by (cases "stageDenylist p c") (simp_all add: Evaluate_def violations_of_def)
qed

lemma verdict_acked:
  assumes "\<not> ck_Unlimited c" "\<not> isUnlimitedAmount (ck_TokenAmt c)" "\<not> ck_IsRBFDelta c"
  shows "verdict pol ev (c\<lparr>ck_Acked := b\<rparr>) en = verdict pol ev c en"
proof -
  let ?c = "c\<lparr>ck_Acked := b\<rparr>"
  have "windowFor st ev ?c cf now = windowFor st ev c cf now" for st cf now
    using assms(3) by (simp add: windowFor_def)
  moreover have "refineRetryAfter st ev d ?c now rbf = refineRetryAfter st ev d c now rbf" for st d now rbf
  proof -
    have f: "ck_Network ?c = ck_Network c" "ck_Account ?c = ck_Account c" "ck_SpendWei ?c = ck_SpendWei c" "ck_MaxGasWei ?c = ck_MaxGasWei c"
      by simp_all
    show ?thesis unfolding refineRetryAfter_def retry_entry_def spendWei_def maxGasWei_def f ..
  qed
  moreover have "ck_Network ?c = ck_Network c" "ck_Account ?c = ck_Account c" by simp_all
  ultimately have "Engine_Evaluate pol ev ?c en = Engine_Evaluate pol ev c en"
    unfolding Engine_Evaluate_def by (simp only: Evaluate_acked [OF assms(1,2)])
  thus ?thesis by (simp add: verdict_def)
qed

lemma permit_check_acked: "permit_check cd cls a network b e = (permit_check cd cls a network True e)\<lparr>ck_Acked := b\<rparr>"
  by (simp add: permit_check_def)

lemma check_entries_acked:
  assumes "\<not> list_ex st_Unlimited es"
  shows "check_entries (\<lambda>c. verdict pol ev c en) (permit_check cd cls a network b) es =
    check_entries (\<lambda>c. verdict pol ev c en) (permit_check cd cls a network True) es"
  using assms
proof (induction es)
  case (Cons e es)
  have "verdict pol ev (permit_check cd cls a network b e) en = verdict pol ev (permit_check cd cls a network True e) en"
    using Cons.prems verdict_acked [of "permit_check cd cls a network True e"] permit_check_acked [of cd cls a network b e]
    by (simp add: permit_check_def zero_check_def isUnlimitedAmount_def)
  thus ?case using Cons by (simp split: sum.split)
qed simp

lemma acknowledgement_moot:
  assumes "tc_IsSpend (classifyTypedData cd (td_PrimaryType t) (normalizedDomainMap t) (td_Message t))"
    "\<not> list_ex st_Unlimited (spend_entries (classifyTypedData cd (td_PrimaryType t) (normalizedDomainMap t) (td_Message t)))"
  shows "authorizeSignature cd pol ev t a network active b en = authorizeSignature cd pol ev t a network active True en"
proof -
  let ?c = "classifyTypedData cd (td_PrimaryType t) (normalizedDomainMap t) (td_Message t)"
  let ?cf = "ClassifyTypedDataFor cd active (td_PrimaryType t) (normalizedDomainMap t) (td_Message t)"
  have "spend_entries ?cf = spend_entries ?c" by (simp add: ClassifyTypedDataFor_def Let_def spend_entries_def)
  thus ?thesis using check_entries_acked [of "spend_entries ?cf" pol ev en cd ?cf a network b] assms(2)
    by (simp add: authorizeSignature_def Let_def evaluateSpendEquivalent_def typed_check_def)
qed

definition permit_message :: "string \<Rightarrow> string \<Rightarrow> int \<Rightarrow> string \<Rightarrow> int \<Rightarrow> tmap" where
  "permit_message owner spender v nonce d = [(''owner'', TStr owner), (''spender'', TStr spender), (''value'', TStr (int_dec v)),
     (''nonce'', TStr nonce), (''deadline'', TStr (int_dec d))]"

lemma classify_permit:
  assumes "IsHexAddress cd sp" "HexAddr cd sp \<noteq> []"
  shows "classifyTypedData cd ''Permit'' m (permit_message w sp v n d) =
    (let unl = (v = uint256Max \<or> d = uint256Max); ver = lowerAddr cd (map_of m ''verifyingContract'') in
     spend_class (ToLower (HexAddr cd sp)) unl\<lparr>tc_ChainID := readChainID m, tc_Verifying := ver, tc_Primary := ''Permit'',
       tc_Tokens := [\<lparr>st_Token = ver, st_Unlimited = unl\<rparr>]\<rparr>)"
proof -
  let ?msg = "permit_message w sp v n d"
  have "messageAddr cd ?msg ''spender'' = Some (ToLower (HexAddr cd sp))"
    using assms by (simp add: messageAddr_def lowerAddr_def permit_message_def Let_def ToLower_def)
  moreover have "messageBig ?msg ''value'' = Some v" "messageBig ?msg ''deadline'' = Some d"
    by (simp_all add: messageBig_def parseBigString_def permit_message_def int_dec_plain)
  moreover have "hasExactKeys ?msg [''owner'', ''spender'', ''value'', ''nonce'', ''deadline'']"
    by (simp add: hasExactKeys_def permit_message_def)
  ultimately have "matchEIP2612 cd ''Permit'' ?msg = Some (spend_class (ToLower (HexAddr cd sp)) (v = uint256Max \<or> d = uint256Max))"
    by (simp add: matchEIP2612_def)
  thus ?thesis by (simp add: classifyTypedData_def Let_def spend_class_def no_class_def)
qed

section \<open>Properties\<close>

text \<open>C11. No signature without authority.  When a policy is active and \<open>sign typed\<close> returns a signature, the document's
  domain does not name a chain other than the active one; every token entry of a recognised permit has a spender that is
  listed (or, without an allowlist, the fail-closed rule is off) and not denylisted, and every unlimited entry was
  acknowledged and is not hard-denied; an unrecognised document is covered by an allow entry or by the allow switch.\<close>

theorem typed_signature_authorized:
  assumes "SignTyped cd (Inr (Some p)) ev sg network acked en = Inr s"
  shows "\<exists>a t active. sg_signer sg = Inr a \<and> sg_doc sg = Some t \<and> activeChainID sg = Inr active \<and>
    \<not> (active > 0 \<and> domain_chain t > 0 \<and> domain_chain t \<noteq> active) \<and>
    (let cls = classifyTypedData cd (td_PrimaryType t) (normalizedDomainMap t) (td_Message t) in
     if tc_IsSpend cls then \<forall>e \<in> set (spend_entries cls). entry_permitted cd p network acked cls e
     else (\<exists>w \<in> set (td_Allowed (po_TypedData p)). ta_ChainID w = domain_chain t \<and> ta_PrimaryType w = td_PrimaryType t \<and>
             EqualFold (ta_VerifyingContract w) (lowerAddr cd (map_of (normalizedDomainMap t) ''verifyingContract'')))
          \<or> EqualFold (TrimSpace (rl_typedUnknown (resolveLimits p network))) ''allow'')"
proof -
  from assms obtain a t active where f: "sg_signer sg = Inr a" "sg_doc sg = Some t" "activeChainID sg = Inr active"
      and au: "authorizeSignature cd (Inr (Some p)) ev t a network active acked en = Inr ()"
    by (auto simp: SignTyped_def split: sum.split_asm option.split_asm)
  let ?m = "normalizedDomainMap t"
  let ?c = "classifyTypedData cd (td_PrimaryType t) ?m (td_Message t)"
  let ?cf = "ClassifyTypedDataFor cd active (td_PrimaryType t) ?m (td_Message t)"
  have sp: "tc_IsSpend ?cf = tc_IsSpend ?c" "spend_entries ?cf = spend_entries ?c" "tc_Spender ?cf = tc_Spender ?c"
    by (simp_all add: ClassifyTypedDataFor_def Let_def spend_entries_def)
  show ?thesis
  proof (cases "tc_IsSpend ?c")
    case True
    have ok: "\<not> tc_Denied ?cf \<and> entry_permitted cd p network acked ?cf e" if e: "e \<in> set (spend_entries ?c)" for e
    proof -
      have "verdict (Inr (Some p)) ev (permit_check cd ?cf a network acked e) en = Inr ()"
        using au e sp True by (simp add: authorizeSignature_def Let_def evaluateSpendEquivalent_def check_entries_ok)
      then obtain used where "de_Allowed (Evaluate p (permit_check cd ?cf a network acked e) used (ev_now ev))"
        by (rule verdict_allowed)
      thus ?thesis using permit_check_permitted Evaluate_allowed by (metis permit_check_typed)
    qed
    have "spend_entries ?c \<noteq> []" by (simp add: spend_entries_def)
    hence nd: "\<not> tc_Denied ?cf" using ok by (meson last_in_set)
    hence "\<not> (active > 0 \<and> domain_chain t > 0 \<and> domain_chain t \<noteq> active)"
      using True classify_fields(1) [OF True] chain_readers(1) [of t] by (auto simp: ClassifyTypedDataFor_def Let_def split: if_split_asm)
    moreover have "entry_permitted cd p network acked ?cf e = entry_permitted cd p network acked ?c e" for e
      by (simp add: entry_permitted_def sp)
    ultimately show ?thesis using f ok True by (auto simp: Let_def)
  next
    case False
    have "verdict (Inr (Some p)) ev (typed_check cd t a network active) en = Inr ()"
      using au sp False by (simp add: authorizeSignature_def Let_def)
    then obtain used where "de_Allowed (Evaluate p (typed_check cd t a network active) used (ev_now ev))"
      by (rule verdict_allowed)
    hence "typed_permitted p (typed_check cd t a network active)"
      using Evaluate_typed by (simp add: typed_check_def Let_def)
    thus ?thesis using f False
      by (auto simp: typed_permitted_def typed_check_def Let_def chain_readers HasPrefix_def split: if_split_asm)
  qed
qed

text \<open>C12. A gap between the two twins of the unlimited check.  Take an EIP-2612 permit (the standard's five fields, a hex spender,
  numbers in decimal) for one of the smaller sentinels \<open>2^160 - 1\<close> or \<open>2^96 - 1\<close>, which the engine and the calldata recogniser
  treat as unlimited.  As typed data its value does not count: the recogniser flags it exactly when its deadline is \<open>2^256 - 1\<close>, and
  with every other deadline it is signed or refused exactly as if the unlimited approval had been acknowledged, since the recogniser compares
  with \<open>2^256 - 1\<close> only and the check carries no amount from which the engine could derive the flag.  The same permit as
  calldata is flagged whatever its deadline.\<close>

theorem typed_permit_skips_sentinels:
  assumes "IsHexAddress cd sp" "HexAddr cd sp \<noteq> []" "v \<in> {2 ^ 160 - 1, 2 ^ 96 - 1}"
    "td_PrimaryType t = ''Permit''" "td_Message t = permit_message w sp v n d"
  shows "isUnlimitedAmount (Some v) \<and>
    (tc_Unlimited (classifyTypedData cd (td_PrimaryType t) (normalizedDomainMap t) (td_Message t)) \<longleftrightarrow> d = 2 ^ 256 - 1) \<and>
    (d \<noteq> 2 ^ 256 - 1 \<longrightarrow>
      authorizeSignature cd pol ev t a network active False en = authorizeSignature cd pol ev t a network active True en) \<and>
    (\<forall>B body s d'. wordAddr B body 1 = Some s \<and> wordBig body 2 = Some v \<and> wordBig body 3 = Some d' \<longrightarrow>
       ClassifySelector B (selPermitEIP2612 @ body) = Some (approval s (Some v) True))"
proof (intro conjI allI impI)
  show u: "isUnlimitedAmount (Some v)" using assms(3) by (auto simp: isUnlimitedAmount_def)
  have v: "v \<noteq> 2 ^ 256 - 1" using assms(3) by auto
  show "tc_Unlimited (classifyTypedData cd (td_PrimaryType t) (normalizedDomainMap t) (td_Message t)) \<longleftrightarrow> d = 2 ^ 256 - 1"
    using v by (simp add: assms(4,5) classify_permit [OF assms(1,2)] Let_def spend_class_def)
  show "authorizeSignature cd pol ev t a network active False en = authorizeSignature cd pol ev t a network active True en"
    if d: "d \<noteq> 2 ^ 256 - 1"
    by (rule acknowledgement_moot) (simp_all add: assms(4,5) classify_permit [OF assms(1,2)] Let_def spend_class_def spend_entries_def
        v [simplified] d [simplified])
  fix B body s d'
  assume b: "wordAddr B body 1 = Some s \<and> wordBig body 2 = Some v \<and> wordBig body 3 = Some d'"
  have "isSentinel (Some v)" using u by (simp add: sentinels_agree)
  thus "ClassifySelector B (selPermitEIP2612 @ body) = Some (approval s (Some v) True)"
    using b by (simp add: ClassifySelector_def recognizers_def selector_defs Let_def)
qed

section \<open>Witnesses\<close>

definition demo_codec :: codec where
  "demo_codec = \<lparr>IsHexAddress = (\<lambda>s. HasPrefix s ''0x''), HexAddr = id\<rparr>"

definition demo_permit :: "int \<Rightarrow> TypedData" where
  "demo_permit v = \<lparr>td_PrimaryType = ''Permit'', td_Domain = \<lparr>dm_ChainId = Some 1, dm_Name = ''USD'', dm_Version = [],
     dm_VerifyingContract = ''0xc1'', dm_Salt = []\<rparr>, td_Message = permit_message ''0xa1'' ''0xb2'' v ''0'' 9\<rparr>"

definition demo_signing :: sgenv where
  "demo_signing = \<lparr>sg_signer = Inr ''0xa1'', sg_doc = Some (demo_permit 5), sg_chain = Inr (Some 1), sg_digest = Some ''d'',
     sg_sign = (\<lambda>_. Inr [1, 2])\<rparr>"

definition open_policy :: Policy where
  "open_policy = demo_policy\<lparr>po_TokensNoAllowlistOK := True\<rparr>"

lemma open_limits: "resolveLimits open_policy net = resolveLimits demo_policy net"
  by (simp add: open_policy_def resolveLimits_def)

lemma demo_permit_class: "classifyTypedData demo_codec (td_PrimaryType (demo_permit 5)) (normalizedDomainMap (demo_permit 5)) (td_Message (demo_permit 5)) =
    spend_class ''0xb2'' False\<lparr>tc_ChainID := 1, tc_Verifying := ''0xc1'', tc_Primary := ''Permit'',
      tc_Tokens := [\<lparr>st_Token = ''0xc1'', st_Unlimited = False\<rparr>]\<rparr>"
proof -
  have "IsHexAddress demo_codec ''0xb2''" "HexAddr demo_codec ''0xb2'' \<noteq> []" by (simp_all add: demo_codec_def HasPrefix_def)
  note c = classify_permit [OF this, of "normalizedDomainMap (demo_permit 5)" "''0xa1''" 5 "''0''" 9]
  have "lowerAddr demo_codec (map_of (normalizedDomainMap (demo_permit 5)) ''verifyingContract'') = ''0xc1''"
    by (simp add: normalized_verifying demo_permit_def lowerAddr_def demo_codec_def str_simps char_of_def bit_0)
  moreover have "domain_chain (demo_permit 5) = 1" by (simp add: domain_chain_def demo_permit_def is_int64_def)
  moreover have "ToLower (HexAddr demo_codec ''0xb2'') = ''0xb2''" by (simp add: demo_codec_def str_simps char_of_def bit_0)
  moreover have "td_PrimaryType (demo_permit 5) = ''Permit''" "td_Message (demo_permit 5) = permit_message ''0xa1'' ''0xb2'' 5 ''0'' 9"
    by (simp_all add: demo_permit_def)
  ultimately show ?thesis using c by (simp add: chain_readers Let_def)
qed

lemma demo_permit_check: "permitted open_policy (permit_check demo_codec (spend_class ''0xb2'' False\<lparr>tc_ChainID := 1, tc_Verifying := ''0xc1'',
      tc_Primary := ''Permit'', tc_Tokens := [\<lparr>st_Token = ''0xc1'', st_Unlimited = False\<rparr>]\<rparr>) ''0xa1'' ''mainnet'' False
      \<lparr>st_Token = ''0xc1'', st_Unlimited = False\<rparr>) used"
  by (simp add: permitted_def open_limits demo_limits denylisted_def pin_fresh_def effectiveKind_def unlimited_grant_def
      permit_check_def spend_class_def no_class_def zero_check_def maxFeePerGas_def or_zero_def isUnlimitedAmount_def HasPrefix_def)
    (simp add: open_policy_def demo_policy_def)

lemma empty_verdict:
  assumes "\<And>used. permitted p c used" "\<not> ck_TypedUnknown c" "\<not> ck_IsRBFDelta c"
  shows "verdict (Inr (Some p)) demo_env c empty_engine = Inr ()"
proof -
  have l: "\<exists>cf. loadCounter empty_engine n a = Inr cf" for n a by (simp add: loadCounter_def empty_engine_def)
  then obtain cf where cf: "loadCounter empty_engine (ck_Network c) (ck_Account c) = Inr cf" by blast
  have "\<exists>x. aggregate_loop empty_engine n now ex i as acc = Inr x" for n now ex i as acc
    by (induction as arbitrary: acc) (use l in \<open>auto split: sum.split, metis Inr_not_Inl\<close>)
  hence "\<exists>x. windowFor empty_engine demo_env c cf 0 = Inr (x, no_rbf)"
    using assms(3) by (auto simp: windowFor_def aggregateWindow_def split: sum.split) (metis Inr_not_Inl)
  then obtain x where "windowFor empty_engine demo_env c cf 0 = Inr (x, no_rbf)" by blast
  moreover have "ev_net demo_env = LockOK" "ev_now demo_env = 0" by (simp_all add: demo_env_def)
  ultimately show ?thesis using cf Evaluate_allowed [OF assms(2)] assms(1)
    by (simp add: verdict_def Engine_Evaluate_def withNetworkLock_def refine_verdict)
qed

theorem typed_signature_authorized_witness:
  "\<exists>s. SignTyped demo_codec (Inr (Some open_policy)) demo_env demo_signing ''mainnet'' False empty_engine = Inr s \<and>
     (let cls = classifyTypedData demo_codec (td_PrimaryType (demo_permit 5)) (normalizedDomainMap (demo_permit 5)) (td_Message (demo_permit 5)) in
      \<forall>e \<in> set (spend_entries cls). entry_permitted demo_codec open_policy ''mainnet'' False cls e)"
proof -
  have v: "verdict (Inr (Some open_policy)) demo_env (permit_check demo_codec (spend_class ''0xb2'' False\<lparr>tc_ChainID := 1, tc_Verifying := ''0xc1'',
      tc_Primary := ''Permit'', tc_Tokens := [\<lparr>st_Token = ''0xc1'', st_Unlimited = False\<rparr>]\<rparr>) ''0xa1'' ''mainnet'' False
      \<lparr>st_Token = ''0xc1'', st_Unlimited = False\<rparr>) empty_engine = Inr ()" (is "verdict _ _ ?c _ = _")
    by (rule empty_verdict [OF demo_permit_check]) (simp_all add: permit_check_def zero_check_def)
  have "authorizeSignature demo_codec (Inr (Some open_policy)) demo_env (demo_permit 5) ''0xa1'' ''mainnet'' 1 False empty_engine = Inr ()"
    using v unfolding authorizeSignature_def Let_def ClassifyTypedDataFor_def demo_permit_class
    by (simp add: evaluateSpendEquivalent_def spend_entries_def spend_class_def no_class_def)
  hence "SignTyped demo_codec (Inr (Some open_policy)) demo_env demo_signing ''mainnet'' False empty_engine = Inr (sigResult [1, 2])"
    by (simp add: SignTyped_def demo_signing_def activeChainID_def is_int64_def)
  moreover note typed_signature_authorized [OF this]
  ultimately show ?thesis
    unfolding demo_permit_class demo_signing_def by (auto simp: demo_permit_class Let_def spend_class_def)
qed

theorem typed_permit_skips_sentinels_witness:
  "authorizeSignature demo_codec (Inr (Some open_policy)) demo_env (demo_permit (2 ^ 96 - 1)) ''0xa1'' ''mainnet'' 1 False empty_engine =
   authorizeSignature demo_codec (Inr (Some open_policy)) demo_env (demo_permit (2 ^ 96 - 1)) ''0xa1'' ''mainnet'' 1 True empty_engine"
proof -
  have "IsHexAddress demo_codec ''0xb2''" "HexAddr demo_codec ''0xb2'' \<noteq> []" by (simp_all add: demo_codec_def HasPrefix_def)
  moreover have "td_PrimaryType (demo_permit (2 ^ 96 - 1)) = ''Permit''"
    "td_Message (demo_permit (2 ^ 96 - 1)) = permit_message ''0xa1'' ''0xb2'' (2 ^ 96 - 1) ''0'' 9" by (simp_all add: demo_permit_def)
  ultimately show ?thesis using typed_permit_skips_sentinels [of demo_codec "''0xb2''" "2 ^ 96 - 1" "demo_permit (2 ^ 96 - 1)" _ _ 9] by simp
qed

end
