(* ===== verification/Receive_Scan.thy ===== *)
theory Receive_Scan
  imports Tx_Wait Calldata
begin

text \<open>
  Inbound detection, first half: the asset listened for, the detections, the decoding of transfer logs
  (\<open>service/receive.go\<close>) and the block scan with the balance delta for ETH (\<open>service/receive_eth.go\<close>).
  Block numbers are 64-bit words, amounts unbounded integers, log topics and data bytes.  The Keccak topic
  constants, \<open>common.BytesToAddress\<close> and \<open>common.Address.Bytes\<close> are arguments (\<open>rcodec\<close>).
\<close>

section \<open>Outcomes\<close>

text \<open>A step fails with a domain error or with a run-time panic, which ends the process.\<close>

datatype rfail = RErr Error | RPanic

section \<open>Assets and detections\<close>

definition zero_hash :: string where
  "zero_hash = ''0x'' @ replicate 64 (CHR ''0'')"

record listenAsset =
  la_kind :: string
  la_contract :: address
  la_alias :: string
  la_decimals :: nat
  la_tokenID :: string

definition isETH :: "listenAsset \<Rightarrow> bool" where
  "isETH a \<longleftrightarrow> la_kind a = ''eth'' \<or> la_kind a = []"

abbreviation (input) "AttribTx \<equiv> ''tx''"
abbreviation (input) "AttribLog \<equiv> ''log''"
abbreviation (input) "AttribBalanceDelta \<equiv> ''balance-delta''"

definition IsAttributable :: "string \<Rightarrow> bool" where
  "IsAttributable a \<longleftrightarrow> a = AttribTx \<or> a = AttribLog"

record pending =
  pd_txHash :: string
  pd_logIndex :: "nat option"
  pd_from :: address
  pd_value :: int
  pd_tokenID :: string
  pd_block :: "64 word"
  pd_blockHash :: string
  pd_attribution :: string

definition logIndex_or :: "pending \<Rightarrow> int" where
  "logIndex_or p = (case pd_logIndex p of None \<Rightarrow> -1 | Some i \<Rightarrow> int i)"

definition key :: "pending \<Rightarrow> string" where
  "key p = nat_dec (unat (pd_block p)) @ ''|'' @ pd_txHash p @ ''|'' @ int_dec (logIndex_or p) @ ''|'' @ pd_attribution p"

section \<open>Transfer logs\<close>

record rcodec =
  transferTopic0 :: bytes
  transferSingleTopic0 :: bytes
  transferBatchTopic0 :: bytes
  BytesToAddress :: "bytes \<Rightarrow> address"
  AddressWord :: "address \<Rightarrow> bytes"

record Log =
  lg_Removed :: bool
  lg_Index :: nat
  lg_Topics :: "bytes list"
  lg_Data :: bytes
  lg_TxHash :: string
  lg_BlockNumber :: "64 word"
  lg_BlockHash :: string

text \<open>A filter query: the block range, the contract and the topic filters (\<open>[]\<close>: any).\<close>

record FilterQuery =
  fq_From :: "64 word"
  fq_To :: "64 word"
  fq_Address :: address
  fq_Topics :: "bytes list list"

definition transferQuery :: "rcodec \<Rightarrow> address \<Rightarrow> listenAsset \<Rightarrow> 64 word \<Rightarrow> 64 word \<Rightarrow> FilterQuery" where
  "transferQuery rc addr a lo hi = (let recipient = AddressWord rc addr in
     \<lparr>fq_From = lo, fq_To = hi, fq_Address = la_contract a, fq_Topics =
        (if la_kind a = ''erc1155'' then [[transferSingleTopic0 rc, transferBatchTopic0 rc], [], [], [recipient]]
         else [[transferTopic0 rc], [], [recipient]])\<rparr>)"

definition log_pending :: "Log \<Rightarrow> address \<Rightarrow> int \<Rightarrow> string \<Rightarrow> pending" where
  "log_pending l src v tid = \<lparr>pd_txHash = lg_TxHash l, pd_logIndex = Some (lg_Index l), pd_from = src, pd_value = v, pd_tokenID = tid,
     pd_block = lg_BlockNumber l, pd_blockHash = lg_BlockHash l, pd_attribution = AttribLog\<rparr>"

definition classify20 :: "rcodec \<Rightarrow> address \<Rightarrow> Log \<Rightarrow> pending option" where
  "classify20 rc addr l =
    (if length (lg_Topics l) \<noteq> 3 \<or> lg_Topics l ! 0 \<noteq> transferTopic0 rc \<or> length (lg_Data l) \<noteq> 32 then None
     else if BytesToAddress rc (lg_Topics l ! 2) \<noteq> addr then None
     else let v = int (bytes_nat (lg_Data l)) in
       if v = 0 then None else Some (log_pending l (BytesToAddress rc (lg_Topics l ! 1)) v []))"

definition classify721 :: "rcodec \<Rightarrow> address \<Rightarrow> listenAsset \<Rightarrow> Log \<Rightarrow> pending option" where
  "classify721 rc addr a l =
    (if length (lg_Topics l) \<noteq> 4 \<or> lg_Topics l ! 0 \<noteq> transferTopic0 rc then None
     else if BytesToAddress rc (lg_Topics l ! 2) \<noteq> addr then None
     else let tid = nat_dec (bytes_nat (lg_Topics l ! 3)) in
       if la_tokenID a \<noteq> [] \<and> la_tokenID a \<noteq> tid then None
       else Some (log_pending l (BytesToAddress rc (lg_Topics l ! 1)) 1 tid))"

subsection \<open>TransferBatch data\<close>

text \<open>Go's 64-bit \<open>int\<close>: \<open>big.Int.Int64\<close> keeps the low 64 bits, sums wrap.\<close>

definition int64 :: "int \<Rightarrow> int" where
  "int64 n = (n + 2 ^ 63) mod 2 ^ 64 - 2 ^ 63"

text \<open>The word at an offset: the bounds test is on the wrapped sum, and a slice beyond the data panics.\<close>

definition data_word :: "bytes \<Rightarrow> int \<Rightarrow> rfail + int option" where
  "data_word d off = (let stop = int64 (off + 32) in
     if off < 0 \<or> stop > int (length d) then Inr None
     else if stop < off then Inl RPanic
     else Inr (Some (int (bytes_nat (take 32 (drop (nat off) d))))))"

fun read_words :: "bytes \<Rightarrow> int \<Rightarrow> nat \<Rightarrow> nat \<Rightarrow> rfail + int list option" where
  "read_words d off i 0 = Inr (Some [])"
| "read_words d off i (Suc n) = (case data_word d (int64 (int64 (off + 32) + int i * 32)) of Inl e \<Rightarrow> Inl e
     | Inr None \<Rightarrow> Inr None
     | Inr (Some v) \<Rightarrow> (case read_words d off (Suc i) n of Inl e \<Rightarrow> Inl e | Inr r \<Rightarrow> Inr (map_option (\<lambda>vs. v # vs) r)))"

definition readArr :: "bytes \<Rightarrow> int \<Rightarrow> rfail + int list option" where
  "readArr d off = (case data_word d off of Inl e \<Rightarrow> Inl e | Inr None \<Rightarrow> Inr None
     | Inr (Some lenB) \<Rightarrow> (let n = int64 lenB in
         if n < 0 \<or> n > 2 ^ 20 then Inr None else read_words d off 0 (nat n)))"

definition decode1155Batch :: "bytes \<Rightarrow> rfail + (int list \<times> int list) option" where
  "decode1155Batch d = (case data_word d 0 of Inl e \<Rightarrow> Inl e | Inr offIds \<Rightarrow>
     (case data_word d 32 of Inl e \<Rightarrow> Inl e | Inr offVals \<Rightarrow>
       (case (offIds, offVals) of (Some oi, Some ov) \<Rightarrow>
          (case readArr d (int64 oi) of Inl e \<Rightarrow> Inl e | Inr ids \<Rightarrow>
            (case readArr d (int64 ov) of Inl e \<Rightarrow> Inl e | Inr vals \<Rightarrow>
               (case (ids, vals) of (Some is, Some vs) \<Rightarrow> if length is \<noteq> length vs then Inr None else Inr (Some (is, vs))
                | _ \<Rightarrow> Inr None)))
        | _ \<Rightarrow> Inr None)))"

definition batch_sum :: "string \<Rightarrow> int list \<Rightarrow> int list \<Rightarrow> int" where
  "batch_sum tid ids vals = sum_list (map snd (filter (\<lambda>(i, v). tid = [] \<or> tid = int_dec i) (zip ids vals)))"

definition classify1155 :: "rcodec \<Rightarrow> address \<Rightarrow> listenAsset \<Rightarrow> Log \<Rightarrow> rfail + pending option" where
  "classify1155 rc addr a l =
    (if length (lg_Topics l) \<noteq> 4 then Inr None
     else if BytesToAddress rc (lg_Topics l ! 3) \<noteq> addr then Inr None
     else let src = BytesToAddress rc (lg_Topics l ! 2); d = lg_Data l in
       if lg_Topics l ! 0 = transferSingleTopic0 rc then
         (if length d < 64 then Inr None
          else let tid = nat_dec (bytes_nat (take 32 d)); v = int (bytes_nat (take 32 (drop 32 d))) in
            if la_tokenID a \<noteq> [] \<and> la_tokenID a \<noteq> tid then Inr None
            else if v = 0 then Inr None else Inr (Some (log_pending l src v tid)))
       else if lg_Topics l ! 0 = transferBatchTopic0 rc then
         (case decode1155Batch d of Inl e \<Rightarrow> Inl e | Inr None \<Rightarrow> Inr None
          | Inr (Some (ids, vals)) \<Rightarrow> (let v = batch_sum (la_tokenID a) ids vals in
              if v = 0 then Inr None else Inr (Some (log_pending l src v (la_tokenID a)))))
       else Inr None)"

definition classifyLog :: "rcodec \<Rightarrow> address \<Rightarrow> listenAsset \<Rightarrow> Log \<Rightarrow> rfail + pending option" where
  "classifyLog rc addr a l = (if lg_Removed l then Inr None
     else if la_kind a = ''erc1155'' then classify1155 rc addr a l
     else if la_kind a = ''erc721'' then Inr (classify721 rc addr a l)
     else Inr (classify20 rc addr l))"

section \<open>ETH: block scan\<close>

record EthTx =
  et_Hash :: string
  et_To :: "address option"
  et_Value :: int
  et_Sender :: "address option"
  et_GasPrice :: "int option"

record EthBlock =
  eb_Hash :: string
  eb_Txs :: "EthTx list"

record ethInbound =
  ei_txHash :: string
  ei_from :: address
  ei_value :: int

record ethScan =
  sc_directIn :: int
  sc_inbound :: "ethInbound list"
  sc_ownOut :: int
  sc_ownTxs :: "string list"
  sc_block :: "EthBlock option"

definition senderOrZero :: "EthTx \<Rightarrow> address" where
  "senderOrZero tx = (case et_Sender tx of None \<Rightarrow> zero_address | Some a \<Rightarrow> a)"

definition scan_tx :: "address \<Rightarrow> EthTx \<Rightarrow> ethScan \<Rightarrow> ethScan" where
  "scan_tx addr tx s =
    (let s = (if et_To tx = Some addr \<and> et_Value tx > 0
              then s\<lparr>sc_inbound := sc_inbound s @ [\<lparr>ei_txHash = et_Hash tx, ei_from = senderOrZero tx, ei_value = et_Value tx\<rparr>],
                     sc_directIn := sc_directIn s + et_Value tx\<rparr> else s) in
     if senderOrZero tx = addr then s\<lparr>sc_ownOut := sc_ownOut s + et_Value tx, sc_ownTxs := sc_ownTxs s @ [et_Hash tx]\<rparr> else s)"

definition scanETHBlock :: "address \<Rightarrow> (goerr + EthBlock option) \<Rightarrow> rfail + ethScan" where
  "scanETHBlock addr answer = (case answer of Inl e \<Rightarrow> Inl (RErr (mapRPCErr e))
     | Inr blk \<Rightarrow> Inr (fold (scan_tx addr) (case blk of None \<Rightarrow> [] | Some b \<Rightarrow> eb_Txs b)
         \<lparr>sc_directIn = 0, sc_inbound = [], sc_ownOut = 0, sc_ownTxs = [], sc_block = blk\<rparr>))"

text \<open>The answer of a receipt query; a missing transaction is the adapter's not-found error.\<close>

definition tx_not_found :: goerr where
  "tx_not_found = \<lparr>err_text = ''transaction not found'', err_typed = None\<rparr>"

definition own_fee :: "EthBlock option \<Rightarrow> string \<Rightarrow> Receipt \<Rightarrow> int" where
  "own_fee blk h r = (let eff = rc_EffectiveGasPrice r;
       price = (if eff = None \<or> eff = Some 0 then
          (case Option.bind blk (\<lambda>b. find (\<lambda>tx. et_Hash tx = h) (eb_Txs b)) of Some tx \<Rightarrow> et_GasPrice tx | None \<Rightarrow> eff) else eff) in
     case price of None \<Rightarrow> 0 | Some p \<Rightarrow> uint (rc_GasUsed r) * p)"

fun ownFeesActual :: "(string \<Rightarrow> receipt_answer) \<Rightarrow> EthBlock option \<Rightarrow> string list \<Rightarrow> int \<Rightarrow> rfail + int" where
  "ownFeesActual Rcpt blk [] acc = Inr acc"
| "ownFeesActual Rcpt blk (h # hs) acc = (case Rcpt h of
       Inl e \<Rightarrow> Inl (RErr (mapRPCErr e))
     | Inr None \<Rightarrow> Inl (RErr (mapRPCErr tx_not_found))
     | Inr (Some r) \<Rightarrow> ownFeesActual Rcpt blk hs (acc + own_fee blk h r))"

definition balanceDelta :: "int \<Rightarrow> int \<Rightarrow> int \<Rightarrow> int \<Rightarrow> int \<Rightarrow> int \<times> bool \<times> int" where
  "balanceDelta baseline headBalance directIn ownOut ownFees =
    (let u = (headBalance - baseline) - directIn + ownOut + ownFees in
     if u < 0 then (0, True, headBalance) else (u, False, headBalance))"

end
