(* ===== verification/Account_Ref.thy ===== *)
theory Account_Ref
  imports Domain_Errors
begin

text \<open>
  Account references (\<open>domain/account_ref.go\<close>): the parser that classifies what a user types as an account into one
  of five shapes.  \<open>common.IsHexAddress\<close> and \<open>common.HexToAddress\<close> are arguments.
\<close>

section \<open>The parser\<close>

datatype RefKind = RefHDIndex | RefHDAlias | RefNamed | RefAddress | RefENS

fun RefKind_String :: "RefKind \<Rightarrow> string" where
  "RefKind_String RefHDIndex = ''hd-index''"
| "RefKind_String RefHDAlias = ''hd-alias''"
| "RefKind_String RefNamed = ''named''"
| "RefKind_String RefAddress = ''address''"
| "RefKind_String RefENS = ''ens''"

record AccountRef =
  ar_Raw :: string
  ar_Kind :: RefKind
  ar_Wallet :: string
  ar_Index :: "32 word"
  ar_Name :: string
  ar_Addr :: "string option"

definition looksLikeAddress :: "(string \<Rightarrow> bool) \<Rightarrow> string \<Rightarrow> bool" where
  "looksLikeAddress IsHexAddress s \<longleftrightarrow> (HasPrefix s ''0x'' \<or> HasPrefix s ''0X'') \<and> IsHexAddress s"

definition HasSuffix :: "string \<Rightarrow> string \<Rightarrow> bool" where
  "HasSuffix s p \<longleftrightarrow> length p \<le> length s \<and> drop (length s - length p) s = p"

definition looksLikeENS :: "string \<Rightarrow> bool" where
  "looksLikeENS s \<longleftrightarrow> HasSuffix (ToLower s) ''.eth''"

text \<open>The loop accumulates in \<open>uint64\<close> and stops as soon as the value passes \<open>2^32 - 1\<close>.\<close>

fun parseIndex_loop :: "64 word \<Rightarrow> string \<Rightarrow> (32 word) option" where
  "parseIndex_loop v [] = Some (ucast v)"
| "parseIndex_loop v (c # cs) = (let v' = v * 10 + word_of_nat (digit_val c) in
     if v' > 0xFFFFFFFF then None else parseIndex_loop v' cs)"

definition parseIndex :: "string \<Rightarrow> (32 word) option" where
  "parseIndex s = (if s = [] then None
     else if \<not> list_all is_digit s then None
     else if length s > 1 \<and> hd s = CHR ''0'' then None
     else parseIndex_loop 0 s)"

definition name_char :: "char \<Rightarrow> bool" where
  "name_char c \<longleftrightarrow> (97 \<le> (of_char c :: nat) \<and> of_char c \<le> (122 :: nat)) \<or> (65 \<le> (of_char c :: nat) \<and> of_char c \<le> (90 :: nat)) \<or> is_digit c
     \<or> c = CHR ''-'' \<or> c = CHR ''_'' \<or> c = CHR ''.''"

definition validNameSegment :: "string \<Rightarrow> bool" where
  "validNameSegment s \<longleftrightarrow> s \<noteq> [] \<and> list_all name_char s"

definition ref_of :: "string \<Rightarrow> RefKind \<Rightarrow> AccountRef" where
  "ref_of raw k = \<lparr>ar_Raw = raw, ar_Kind = k, ar_Wallet = [], ar_Index = 0, ar_Name = [], ar_Addr = None\<rparr>"

definition parse_hd :: "(string \<Rightarrow> bool) \<Rightarrow> string \<Rightarrow> string \<Rightarrow> string \<Rightarrow> AccountRef result" where
  "parse_hd IsHexAddress raw wallet tail =
    (if wallet = [] then Inl (New ''usage.bad_account_ref'')
     else if tail = [] then Inl (New ''usage.bad_account_ref'')
     else if CHR ''/'' \<in> set tail then Inl (New ''usage.bad_account_ref'')
     else if looksLikeAddress IsHexAddress wallet \<or> looksLikeENS wallet then Inl (New ''ref.ambiguous'')
     else case parseIndex tail of
       Some idx \<Rightarrow> Inr (ref_of raw RefHDIndex\<lparr>ar_Wallet := wallet, ar_Index := idx\<rparr>)
     | None \<Rightarrow> if \<not> validNameSegment tail then Inl (New ''usage.bad_account_ref'')
         else Inr (ref_of raw RefHDAlias\<lparr>ar_Wallet := wallet, ar_Name := tail\<rparr>))"

definition ParseAccountRef :: "(string \<Rightarrow> bool) \<Rightarrow> (string \<Rightarrow> string) \<Rightarrow> string \<Rightarrow> AccountRef result" where
  "ParseAccountRef IsHexAddress HexToAddress raw = (let s = TrimSpace raw in
     if s = [] then Inl (New ''usage.empty_account_ref'')
     else case cut_at CHR ''/'' s of
       Some (wallet, tail) \<Rightarrow> parse_hd IsHexAddress raw wallet tail
     | None \<Rightarrow>
        if HasPrefix s ''0x'' \<or> HasPrefix s ''0X'' then
          (if \<not> IsHexAddress s then Inl (New ''usage.bad_address'') else Inr (ref_of raw RefAddress\<lparr>ar_Addr := Some (HexToAddress s)\<rparr>))
        else if looksLikeENS s then
          (let label = take (length s - 4) s in
           if label = [] \<or> HasPrefix label ''.'' \<or> HasSuffix label ''.'' then Inl (New ''usage.bad_ens'')
           else Inr (ref_of raw RefENS\<lparr>ar_Name := label\<rparr>))
        else if \<not> validNameSegment s then Inl (New ''usage.bad_account_ref'')
        else Inr (ref_of raw RefNamed\<lparr>ar_Name := s\<rparr>))"

section \<open>Lemmas\<close>

lemma HasSuffix_append: "HasSuffix s p \<longleftrightarrow> (\<exists>q. s = q @ p)"
proof
  assume "HasSuffix s p"
  hence "s = take (length s - length p) s @ p" by (metis HasSuffix_def append_take_drop_id)
  thus "\<exists>q. s = q @ p" ..
qed (auto simp: HasSuffix_def)

lemma digit_val_word: "is_digit c \<Longrightarrow> digit_val c < 10"
  by (simp add: digit_val_lt)

text \<open>The bounded loop is exact: the value it returns is the number, and it gives up exactly when the number is too large.\<close>

lemma parseIndex_loop_exact:
  assumes "list_all is_digit s" "unat v \<le> 2 ^ 32 - 1"
  shows "parseIndex_loop v s = (let n = unat v * 10 ^ length s + digits_val s in if n < 2 ^ 32 then Some (word_of_nat n) else None)"
  using assms
proof (induction s arbitrary: v)
  case Nil
  thus ?case by (simp add: Let_def)
next
  case (Cons c s)
  let ?v = "v * 10 + word_of_nat (digit_val c) :: 64 word"
  have d: "digit_val c < 10" and s: "list_all is_digit s" using Cons.prems by (auto simp: digit_val_lt)
  have b: "unat v * 10 + digit_val c < 2 ^ 64" using Cons.prems(2) d by simp
  have u: "unat ?v = unat v * 10 + digit_val c"
    using b by (simp add: unat_word_ariths unat_of_nat)
  have e: "digits_val (c # s) = digit_val c * 10 ^ length s + digits_val s"
    using digits_val_append [of "[c]" s] digits_val_snoc [of "[]" c] by simp
  have n: "unat v * 10 ^ length (c # s) + digits_val (c # s) = unat ?v * 10 ^ length s + digits_val s"
    unfolding e u by (simp add: algebra_simps)
  show ?case
  proof (cases "?v > 0xFFFFFFFF")
    case True
    hence "unat ?v \<ge> 2 ^ 32" by (simp add: word_less_nat_alt)
    hence "2 ^ 32 * 1 \<le> unat ?v * 10 ^ length s" by (rule mult_le_mono) simp
    thus ?thesis using True n by (simp only: parseIndex_loop.simps Let_def) simp
  next
    case False
    hence "unat ?v \<le> 2 ^ 32 - 1" by (simp add: word_less_nat_alt not_less)
    from Cons.IH [OF s this] False n show ?thesis by (simp only: parseIndex_loop.simps Let_def) simp
  qed
qed

lemma canonical_digits:
  assumes "list_all is_digit s" "s \<noteq> []" "length s > 1 \<Longrightarrow> hd s \<noteq> CHR ''0''"
  shows "nat_dec (digits_val s) = s"
  using assms
proof (induction s rule: rev_induct)
  case (snoc c s)
  have c: "is_digit c" and s: "list_all is_digit s" using snoc.prems by auto
  have d: "digit_val c < 10" "digit_char (digit_val c) = c" using c by (simp_all add: digit_val_lt digit_char_val)
  show ?case
  proof (cases "s = []")
    case True
    thus ?thesis using d by (simp add: digits_val_def nat_dec_small)
  next
    case False
    then obtain x t where x: "s = x # t" by (cases s) auto
    have "x \<noteq> CHR ''0''" using snoc.prems(3) x by simp
    hence "digit_val x > 0" using s x digit_char_val [of x] by (cases "digit_val x = 0") (auto simp: digit_char_num)
    moreover have "digits_val s = digit_val x * 10 ^ length t + digits_val t"
      using digits_val_append [of "[x]" t] digits_val_snoc [of "[]" x] x by simp
    ultimately have "digits_val s > 0" by simp
    hence big: "10 \<le> digits_val (s @ [c])" by simp
    have "nat_dec (digits_val s) = s" using snoc.IH s False snoc.prems(3) x by (cases t) auto
    thus ?thesis using nat_dec_big [OF big] d by simp
  qed
qed simp

lemma parseIndex_exact: "parseIndex s = Some i \<longleftrightarrow> s = nat_dec (unat i)"
proof
  assume p: "parseIndex s = Some i"
  hence c: "s \<noteq> []" "list_all is_digit s" "length s > 1 \<Longrightarrow> hd s \<noteq> CHR ''0''" "parseIndex_loop 0 s = Some i"
    by (auto simp: parseIndex_def split: if_split_asm)
  hence "digits_val s < 2 ^ 32" "i = word_of_nat (digits_val s)"
    using parseIndex_loop_exact [of s 0] by (auto simp: Let_def split: if_split_asm)
  hence "unat i = digits_val s" by (simp add: unat_of_nat)
  thus "s = nat_dec (unat i)" using canonical_digits [OF c(2,1,3)] by simp
next
  assume s: "s = nat_dec (unat i)"
  have u: "unat i < 2 ^ 32" using unsigned_less [of i] by simp
  have "length s > 1 \<Longrightarrow> hd s \<noteq> CHR ''0''"
  proof -
    assume "length s > 1"
    hence "unat i \<noteq> 0" using s nat_dec_small [of 0] by (cases "unat i = 0") auto
    thus "hd s \<noteq> CHR ''0''" using nat_dec_hd s by simp
  qed
  moreover have "parseIndex_loop 0 s = Some i"
    using parseIndex_loop_exact [of s 0] s u nat_dec_digits by (simp add: Let_def)
  ultimately show "parseIndex s = Some i" using s nat_dec_digits by (simp add: parseIndex_def)
qed

lemma index_no_slash: "CHR ''/'' \<notin> set (nat_dec n)"
  using nat_dec_digits [of n] by (auto simp: list_all_iff is_digit_def)

section \<open>Properties\<close>

text \<open>The canonical form of an HD account: a text is accepted as index \<open>i\<close> of wallet \<open>w\<close> exactly when, apart from outer
  white space, it is the wallet, a slash and the decimal numeral of \<open>i\<close>, for a wallet segment that is not empty, has no
  slash and does not look like an address or ENS name.  So an index beyond 32 bits, with a sign or with a leading zero is
  never read as some other index.\<close>

lemma hd_index_canonical:
  "(\<exists>r. ParseAccountRef I H raw = Inr r \<and> ar_Kind r = RefHDIndex \<and> ar_Wallet r = w \<and> ar_Index r = i) \<longleftrightarrow>
     TrimSpace raw = w @ ''/'' @ nat_dec (unat i) \<and> w \<noteq> [] \<and> CHR ''/'' \<notin> set w \<and> \<not> looksLikeAddress I w \<and> \<not> looksLikeENS w"
  (is "?l \<longleftrightarrow> ?r")
proof
  assume ?l
  thus ?r
    by (auto simp: ParseAccountRef_def parse_hd_def Let_def ref_of_def parseIndex_exact cut_at_Some
        split: if_split_asm option.split_asm)
next
  assume r: ?r
  hence "cut_at CHR ''/'' (TrimSpace raw) = Some (w, nat_dec (unat i))" by simp
  moreover have "parseIndex (nat_dec (unat i)) = Some i" by (simp add: parseIndex_exact)
  ultimately show ?l using r index_no_slash by (simp add: ParseAccountRef_def Let_def parse_hd_def ref_of_def)
qed

text \<open>The shapes exclude each other: whatever is accepted keeps its text; a reference with a slash is an HD reference to a
  non-empty wallet, and one without is never; a raw address starts with \<open>0x\<close>, passes the address check and is decoded from the
  trimmed text; a name is never address-like or ENS-like and uses only the name alphabet.\<close>

lemma reference_shapes:
  assumes "ParseAccountRef I H raw = Inr r"
  shows "ar_Raw r = raw \<and>
    (ar_Kind r \<in> {RefHDIndex, RefHDAlias} \<longleftrightarrow> CHR ''/'' \<in> set (TrimSpace raw)) \<and>
    (ar_Kind r \<in> {RefHDIndex, RefHDAlias} \<longrightarrow> ar_Wallet r \<noteq> [] \<and> (\<exists>t. TrimSpace raw = ar_Wallet r @ ''/'' @ t)) \<and>
    (ar_Kind r = RefAddress \<longleftrightarrow> looksLikeAddress I (TrimSpace raw) \<and> CHR ''/'' \<notin> set (TrimSpace raw)) \<and>
    (ar_Kind r = RefAddress \<longrightarrow> ar_Addr r = Some (H (TrimSpace raw))) \<and>
    (ar_Kind r = RefENS \<longrightarrow> looksLikeENS (TrimSpace raw) \<and> ar_Name r = take (length (TrimSpace raw) - 4) (TrimSpace raw) \<and> ar_Name r \<noteq> []) \<and>
    (ar_Kind r = RefNamed \<longrightarrow> ar_Name r = TrimSpace raw \<and> validNameSegment (ar_Name r) \<and> \<not> looksLikeENS (ar_Name r))"
proof (cases "cut_at CHR ''/'' (TrimSpace raw)")
  case None
  hence n: "CHR ''/'' \<notin> set (TrimSpace raw)" by (simp add: cut_at_None)
  show ?thesis
    using assms None n by (auto simp: ParseAccountRef_def Let_def ref_of_def looksLikeAddress_def split: if_split_asm)
next
  case (Some p)
  obtain w t where p: "p = (w, t)" by (cases p)
  hence "TrimSpace raw = w @ CHR ''/'' # t" using Some by (simp add: cut_at_Some)
  thus ?thesis using assms Some p
    by (auto simp: ParseAccountRef_def Let_def parse_hd_def ref_of_def split: if_split_asm option.split_asm)
qed


end
