(* ===== verification/Receive_Loop.thy ===== *)
theory Receive_Loop
  imports Receive_Scan Account_Ref
begin

text \<open>
  Inbound detection, second half: the state of one \<open>daxie receive\<close>, the scan of new blocks, the confirmation and
  reorganisation pass, the completion rules, the results and the poll loop (\<open>service/receive.go\<close>, \<open>service/receive_eth.go\<close>).

  One poll meets one environment \<open>penv\<close>; the loop runs over the list of environments its polls meet, and \<open>None\<close> means
  that it has not returned.  A Go map is an association list with distinct keys; the order in which Go ranges over it is
  the argument \<open>pe_order\<close>.  The clock stands still within a poll; the time stamps of events are left out.
\<close>

section \<open>Requests and modes\<close>

record ReceiveRequest =
  rq_Account :: string
  rq_New :: bool
  rq_Wallet :: string
  rq_Name :: string
  rq_Amount :: string
  rq_Exact :: bool
  rq_Token :: string
  rq_NFT :: string
  rq_Confirmations :: "(64 word) option"
  rq_Timeout :: int
  rq_FromBlock :: "(64 word) option"
  rq_Network :: string

datatype ReceiveMode = ModeAny | ModeCumulative | ModeExact | ModeNFT

definition ResolveReceiveMode :: "ReceiveRequest \<Rightarrow> ReceiveMode result" where
  "ResolveReceiveMode req =
    (if rq_Token req \<noteq> [] \<and> rq_NFT req \<noteq> [] then Inl (New ''usage.asset_conflict'')
     else if rq_Exact req \<and> rq_Amount req = [] then Inl (New ''usage.exact_needs_amount'')
     else if rq_New req \<and> rq_Wallet req = [] then Inl (New ''usage.new_needs_wallet'')
     else if rq_NFT req \<noteq> [] then Inr ModeNFT
     else if rq_Amount req \<noteq> [] then (if rq_Exact req then Inr ModeExact else Inr ModeCumulative)
     else Inr ModeAny)"

definition mode_text :: "ReceiveMode \<Rightarrow> string" where
  "mode_text m = (case m of ModeAny \<Rightarrow> ''any'' | ModeCumulative \<Rightarrow> ''cumulative'' | ModeExact \<Rightarrow> ''exact'' | ModeNFT \<Rightarrow> ''nft'')"

record ReceiveAsset =
  xa_Kind :: string
  xa_Contract :: string
  xa_Alias :: string
  xa_Decimals :: nat
  xa_TokenID :: string

record ReceiveTarget =
  xt_Mode :: ReceiveMode
  xt_Amount :: string
  xt_Confirmations :: "64 word"

record DetectedTransfer =
  dt_TxHash :: string
  dt_LogIndex :: "nat option"
  dt_From :: string
  dt_Value :: string
  dt_TokenID :: string
  dt_Block :: "64 word"
  dt_BlockHash :: string
  dt_Attribution :: string

record ReceiveResult =
  xr_Address :: string
  xr_Network :: string
  xr_ChainID :: "64 word"
  xr_Asset :: ReceiveAsset
  xr_Target :: ReceiveTarget
  xr_Status :: string
  xr_CumulativeConfirmed :: string
  xr_Remaining :: string
  xr_Transfers :: "DetectedTransfer list"
  xr_LastScanned :: "64 word"
  xr_Resume :: string
  xr_Exit :: ExitCode

section \<open>Events\<close>

datatype EventKind = EvListening | EvDetected | EvConfirming | EvConfirmed | EvReorged | EvHeartbeat | EvComplete | EvTimeout

record Event =
  xv_Kind :: EventKind
  xv_TxHash :: string
  xv_LogIndex :: "nat option"
  xv_From :: string
  xv_Value :: string
  xv_TokenID :: "string option"
  xv_Block :: "64 word"
  xv_BlockHash :: string
  xv_Attribution :: string
  xv_Match :: "bool option"
  xv_Conf :: "64 word"
  xv_Target :: "64 word"
  xv_CumulativeDetected :: string
  xv_CumulativeConfirmed :: string
  xv_Remaining :: string
  xv_LastScanned :: "64 word"
  xv_FromBlock :: "64 word"
  xv_Listening :: "(ReceiveAsset \<times> ReceiveTarget) option"
  xv_TxHashes :: "string list"
  xv_Resume :: string
  xv_Note :: string
  xv_Exit :: "ExitCode option"

definition zero_event :: "EventKind \<Rightarrow> Event" where
  "zero_event k = \<lparr>xv_Kind = k, xv_TxHash = [], xv_LogIndex = None, xv_From = [], xv_Value = [], xv_TokenID = None, xv_Block = 0,
     xv_BlockHash = [], xv_Attribution = [], xv_Match = None, xv_Conf = 0, xv_Target = 0, xv_CumulativeDetected = [],
     xv_CumulativeConfirmed = [], xv_Remaining = [], xv_LastScanned = 0, xv_FromBlock = 0, xv_Listening = None, xv_TxHashes = [],
     xv_Resume = [], xv_Note = [], xv_Exit = None\<rparr>"

section \<open>The running state\<close>

record receiveState =
  ls_addr :: address
  ls_accountRef :: string
  ls_network :: string
  ls_chainID :: "64 word"
  ls_asset :: listenAsset
  ls_mode :: ReceiveMode
  ls_targetAmount :: "int option"
  ls_confTarget :: "64 word"
  ls_lastScanned :: "64 word"
  ls_cumDetected :: int
  ls_cumConfirmed :: int
  ls_pending :: "(string \<times> pending) list"
  ls_confirmed :: "(string \<times> pending) list"
  ls_ethBaseline :: int
  ls_lastActivity :: int
  ls_events :: "Event list"

record rcfg =
  cf_PollInterval :: int
  cf_MaxLogRange :: int
  cf_HeartbeatInterval :: int
  cf_LookbackBlocks :: int

record penv =
  pe_head :: "goerr + 64 word"
  pe_logs :: "FilterQuery \<Rightarrow> goerr + Log list"
  pe_block :: "64 word \<Rightarrow> goerr + EthBlock option"
  pe_feeReceipt :: "string \<Rightarrow> receipt_answer"
  pe_balance :: "64 word \<Rightarrow> goerr + int"
  pe_verifyLogs :: "pending \<Rightarrow> FilterQuery \<Rightarrow> goerr + Log list"
  pe_receipt :: "pending \<Rightarrow> receipt_answer"
  pe_order :: "(string \<times> pending) list \<Rightarrow> (string \<times> pending) list"
  pe_now :: int
  pe_sleep :: "goerr option"

text \<open>\<open>time.Time.Unix\<close> of an instant in nanoseconds.\<close>

definition unix :: "int \<Rightarrow> int" where
  "unix t = t div 1000000000"

definition remaining :: "receiveState \<Rightarrow> int" where
  "remaining st = (case ls_targetAmount st of None \<Rightarrow> 0
     | Some t \<Rightarrow> let r = t - ls_cumConfirmed st in if r < 0 then 0 else r)"

definition assetKind :: "listenAsset \<Rightarrow> string" where
  "assetKind a = (if isETH a then ''eth'' else la_kind a)"

definition assetWire :: "receiveState \<Rightarrow> ReceiveAsset" where
  "assetWire st = (let a = ls_asset st in
     if isETH a then \<lparr>xa_Kind = assetKind a, xa_Contract = [], xa_Alias = la_alias a, xa_Decimals = 0, xa_TokenID = []\<rparr>
     else \<lparr>xa_Kind = assetKind a, xa_Contract = la_contract a, xa_Alias = la_alias a, xa_Decimals = la_decimals a, xa_TokenID = la_tokenID a\<rparr>)"

definition targetWire :: "receiveState \<Rightarrow> ReceiveTarget" where
  "targetWire st = \<lparr>xt_Mode = ls_mode st, xt_Amount = (case ls_targetAmount st of None \<Rightarrow> [] | Some t \<Rightarrow> int_dec t),
     xt_Confirmations = ls_confTarget st\<rparr>"

definition emit :: "Event \<Rightarrow> receiveState \<Rightarrow> receiveState" where
  "emit e st = st\<lparr>ls_events := ls_events st @ [e]\<rparr>"

definition touch :: "int \<Rightarrow> receiveState \<Rightarrow> receiveState" where
  "touch now st = st\<lparr>ls_lastActivity := unix now\<rparr>"

text \<open>The counters that every line of the stream carries.\<close>

definition progress :: "EventKind \<Rightarrow> receiveState \<Rightarrow> Event" where
  "progress k st = (zero_event k)\<lparr>xv_CumulativeConfirmed := int_dec (ls_cumConfirmed st), xv_Remaining := int_dec (remaining st),
     xv_LastScanned := ls_lastScanned st\<rparr>"

definition hashHexOrEmpty :: "string \<Rightarrow> string" where
  "hashHexOrEmpty h = (if h = zero_hash then [] else h)"

definition addrHexOrEmpty :: "address \<Rightarrow> string" where
  "addrHexOrEmpty a = (if a = zero_address then [] else a)"

definition emitListening :: "int \<Rightarrow> 64 word \<Rightarrow> receiveState \<Rightarrow> receiveState" where
  "emitListening now fromBlock st = emit ((zero_event EvListening)\<lparr>xv_Listening := Some (assetWire st, targetWire st), xv_FromBlock := fromBlock\<rparr>) (touch now st)"

definition emitDetected :: "int \<Rightarrow> pending \<Rightarrow> receiveState \<Rightarrow> receiveState" where
  "emitDetected now d st = emit ((progress EvDetected st)\<lparr>xv_From := addrHexOrEmpty (pd_from d), xv_Value := int_dec (pd_value d),
     xv_Block := pd_block d, xv_Attribution := pd_attribution d, xv_Match := Some True, xv_CumulativeDetected := int_dec (ls_cumDetected st),
     xv_TxHash := hashHexOrEmpty (pd_txHash d), xv_BlockHash := hashHexOrEmpty (pd_blockHash d), xv_LogIndex := pd_logIndex d,
     xv_TokenID := (if pd_tokenID d = [] then None else Some (pd_tokenID d))\<rparr>) (touch now st)"

definition emitConfirming :: "int \<Rightarrow> pending \<Rightarrow> 64 word \<Rightarrow> receiveState \<Rightarrow> receiveState" where
  "emitConfirming now d conf st = emit ((progress EvConfirming st)\<lparr>xv_TxHash := hashHexOrEmpty (pd_txHash d), xv_Conf := conf,
     xv_Target := ls_confTarget st\<rparr>) (touch now st)"

definition emitConfirmed :: "int \<Rightarrow> pending \<Rightarrow> receiveState \<Rightarrow> receiveState" where
  "emitConfirmed now d st = emit ((progress EvConfirmed st)\<lparr>xv_TxHash := hashHexOrEmpty (pd_txHash d), xv_Value := int_dec (pd_value d)\<rparr>) (touch now st)"

definition emitReorged :: "int \<Rightarrow> pending \<Rightarrow> receiveState \<Rightarrow> receiveState" where
  "emitReorged now d st = emit ((progress EvReorged st)\<lparr>xv_TxHash := hashHexOrEmpty (pd_txHash d), xv_Value := int_dec (pd_value d)\<rparr>) (touch now st)"

definition maybeHeartbeat :: "rcfg \<Rightarrow> int \<Rightarrow> receiveState \<Rightarrow> receiveState" where
  "maybeHeartbeat cfg now st = (if cf_HeartbeatInterval cfg \<le> 0 then st
     else if unix now - ls_lastActivity st < unix (cf_HeartbeatInterval cfg) then st
     else emit (progress EvHeartbeat st) (touch now st))"

section \<open>Detection\<close>

definition recordDetection :: "int \<Rightarrow> pending \<Rightarrow> receiveState \<Rightarrow> receiveState" where
  "recordDetection now det st = (let k = key det in
     if map_of (ls_pending st) k \<noteq> None then st
     else if map_of (ls_confirmed st) k \<noteq> None then st
     else emitDetected now det (st\<lparr>ls_pending := upsert k det (ls_pending st), ls_cumDetected := ls_cumDetected st + pd_value det\<rparr>))"

fun record_logs :: "rcodec \<Rightarrow> int \<Rightarrow> Log list \<Rightarrow> receiveState \<Rightarrow> (rfail + unit) \<times> receiveState" where
  "record_logs rc now [] st = (Inr (), st)"
| "record_logs rc now (l # ls) st = (case classifyLog rc (ls_addr st) (ls_asset st) l of
       Inl e \<Rightarrow> (Inl e, st)
     | Inr None \<Rightarrow> record_logs rc now ls st
     | Inr (Some det) \<Rightarrow> record_logs rc now ls (recordDetection now det st))"

text \<open>The chunk loop computes with \<open>uint64\<close>: next to the largest block number the sums wrap.\<close>

partial_function (option) scan_chunks :: "rcodec \<Rightarrow> penv \<Rightarrow> 64 word \<Rightarrow> 64 word \<Rightarrow> 64 word \<Rightarrow> receiveState \<Rightarrow> ((rfail + unit) \<times> receiveState) option" where
  "scan_chunks rc pe width hi lo st =
    (if lo > hi then Some (Inr (), st)
     else let top = (if lo + width - 1 > hi then hi else lo + width - 1) in
       case pe_logs pe (transferQuery rc (ls_addr st) (ls_asset st) lo top) of
         Inl e \<Rightarrow> Some (Inl (RErr (mapRPCErr e)), st)
       | Inr logs \<Rightarrow> (case record_logs rc (pe_now pe) logs st of
           (Inl e, st1) \<Rightarrow> Some (Inl e, st1)
         | (Inr _, st1) \<Rightarrow> if top = hi then Some (Inr (), st1) else scan_chunks rc pe width hi (lo + width) st1))"

definition scanRangeLogs :: "rcfg \<Rightarrow> rcodec \<Rightarrow> penv \<Rightarrow> 64 word \<Rightarrow> 64 word \<Rightarrow> receiveState \<Rightarrow> ((rfail + unit) \<times> receiveState) option" where
  "scanRangeLogs cfg rc pe lo hi st =
     scan_chunks rc pe (word_of_int (if cf_MaxLogRange cfg \<le> 0 then 1000 else cf_MaxLogRange cfg)) hi lo st"

definition inbound_pending :: "64 word \<Rightarrow> ethScan \<Rightarrow> ethInbound \<Rightarrow> pending" where
  "inbound_pending n sc i = \<lparr>pd_txHash = ei_txHash i, pd_logIndex = None, pd_from = ei_from i, pd_value = ei_value i, pd_tokenID = [],
     pd_block = n, pd_blockHash = (case sc_block sc of None \<Rightarrow> zero_hash | Some b \<Rightarrow> eb_Hash b), pd_attribution = AttribTx\<rparr>"

lemma unat_next: "(n :: 64 word) < hi \<Longrightarrow> unat (n + 1) = unat n + 1 \<and> unat n < unat hi"
proof -
  assume "n < hi"
  hence l: "unat n < unat hi" by (simp add: word_less_nat_alt)
  moreover have "unat hi < 2 ^ 64" using unsigned_less [of hi] by simp
  ultimately have "unat n + 1 < 2 ^ 64" by linarith
  thus ?thesis using l by (simp add: unat_word_ariths)
qed

text \<open>The block loop sums the attributed inflow, the own outflow and the own fees.\<close>

function scan_blocks :: "penv \<Rightarrow> 64 word \<Rightarrow> 64 word \<Rightarrow> int \<times> int \<times> int \<Rightarrow> receiveState \<Rightarrow> (rfail + int \<times> int \<times> int) \<times> receiveState" where
  "scan_blocks pe hi n acc st =
    (if n > hi then (Inr acc, st)
     else case scanETHBlock (ls_addr st) (pe_block pe n) of Inl e \<Rightarrow> (Inl e, st)
     | Inr sc \<Rightarrow>
       (let st1 = fold (\<lambda>i. recordDetection (pe_now pe) (inbound_pending n sc i)) (sc_inbound sc) st in
        case (if sc_ownTxs sc = [] then Inr 0 else ownFeesActual (pe_feeReceipt pe) (sc_block sc) (sc_ownTxs sc) 0) of
          Inl e \<Rightarrow> (Inl e, st1)
        | Inr fees \<Rightarrow> (case acc of (directIn, ownOut, ownFees) \<Rightarrow>
            (let acc' = (directIn + sc_directIn sc, ownOut + sc_ownOut sc, ownFees + fees) in
             if n = hi then (Inr acc', st1) else scan_blocks pe hi (n + 1) acc' st1))))"
  by pat_completeness auto
termination
proof (relation "measure (\<lambda>(pe, hi, n, acc, st). unat hi - unat n)", goal_cases)
  case 1
  show ?case by simp
next
  case (2 pe hi n)
  hence "n < hi" by simp
  thus ?case using unat_next [of n hi] by (simp add: diff_less_mono2)
qed

declare scan_blocks.simps [simp del]

definition delta_pending :: "64 word \<Rightarrow> int \<Rightarrow> pending" where
  "delta_pending n v = \<lparr>pd_txHash = zero_hash, pd_logIndex = None, pd_from = zero_address, pd_value = v, pd_tokenID = [],
     pd_block = n, pd_blockHash = zero_hash, pd_attribution = AttribBalanceDelta\<rparr>"

definition emitBalanceDeltaWarn :: "64 word \<Rightarrow> receiveState \<Rightarrow> receiveState" where
  "emitBalanceDeltaWarn scanned st = emit ((progress EvHeartbeat st)\<lparr>xv_LastScanned := scanned,
     xv_Note := ''unattributed ETH outflow detected (balance delta clamped to zero)''\<rparr>) st"

definition scanRangeETH :: "penv \<Rightarrow> 64 word \<Rightarrow> 64 word \<Rightarrow> receiveState \<Rightarrow> (rfail + unit) \<times> receiveState" where
  "scanRangeETH pe lo hi st = (case scan_blocks pe hi lo (0, 0, 0) st of
       (Inl e, st1) \<Rightarrow> (Inl e, st1)
     | (Inr (directIn, ownOut, ownFees), st1) \<Rightarrow> (case pe_balance pe hi of
          Inl e \<Rightarrow> (Inl (RErr (mapRPCErr e)), st1)
        | Inr headBal \<Rightarrow> (case balanceDelta (ls_ethBaseline st1) headBal directIn ownOut ownFees of
            (unattributed, clamped, newBaseline) \<Rightarrow>
              (let st2 = st1\<lparr>ls_ethBaseline := newBaseline\<rparr> in
               if clamped then (Inr (), emitBalanceDeltaWarn hi st2)
               else if unattributed > 0 then (Inr (), recordDetection (pe_now pe) (delta_pending hi unattributed) st2)
               else (Inr (), st2)))))"

definition scanRange :: "rcfg \<Rightarrow> rcodec \<Rightarrow> penv \<Rightarrow> 64 word \<Rightarrow> 64 word \<Rightarrow> receiveState \<Rightarrow> ((rfail + unit) \<times> receiveState) option" where
  "scanRange cfg rc pe lo hi st = (if isETH (ls_asset st) then Some (scanRangeETH pe lo hi st) else scanRangeLogs cfg rc pe lo hi st)"

section \<open>Confirmation\<close>

definition isNotFound :: "goerr \<Rightarrow> bool" where
  "isNotFound e \<longleftrightarrow> Code (AsError e) = ''ref.not_found'' \<or> Contains (ToLower (err_text e)) ''not found''"

text \<open>The receipt check shared by both attributable kinds; a missing transaction is no error.\<close>

definition receipt_check :: "receipt_answer \<Rightarrow> (Receipt \<Rightarrow> bool) \<Rightarrow> rfail + bool" where
  "receipt_check answer ok = (case answer of
       Inl e \<Rightarrow> if isNotFound e then Inr False else Inl (RErr (mapRPCErr e))
     | Inr None \<Rightarrow> if isNotFound tx_not_found then Inr False else Inl (RErr (mapRPCErr tx_not_found))
     | Inr (Some r) \<Rightarrow> Inr (ok r))"

abbreviation (input) "ReceiptStatusSuccessful \<equiv> 1"

definition reverify :: "rcodec \<Rightarrow> penv \<Rightarrow> receiveState \<Rightarrow> pending \<Rightarrow> rfail + bool" where
  "reverify rc pe st det =
    (if pd_attribution det = AttribBalanceDelta then Inr True
     else if pd_attribution det = AttribTx then
       receipt_check (pe_receipt pe det) (\<lambda>r. rc_Status r = ReceiptStatusSuccessful \<and> rc_BlockHash r = pd_blockHash det)
     else if pd_attribution det = AttribLog then
       (case pe_verifyLogs pe det (transferQuery rc (ls_addr st) (ls_asset st) (pd_block det) (pd_block det)) of
          Inl e \<Rightarrow> Inl (RErr (mapRPCErr e))
        | Inr logs \<Rightarrow> (case find (\<lambda>l. lg_TxHash l = pd_txHash det \<and> Some (lg_Index l) = pd_logIndex det) logs of
             None \<Rightarrow> Inr False
           | Some l \<Rightarrow> if lg_Removed l \<or> lg_BlockHash l \<noteq> pd_blockHash det then Inr False
               else receipt_check (pe_receipt pe det) (\<lambda>r. rc_Status r = ReceiptStatusSuccessful)))
     else Inr True)"

text \<open>First loop: confirmed detections whose evidence vanished are subtracted.\<close>

fun recheck_confirmed :: "rcodec \<Rightarrow> penv \<Rightarrow> (string \<times> pending) list \<Rightarrow> receiveState \<Rightarrow> (rfail + unit) \<times> receiveState" where
  "recheck_confirmed rc pe [] st = (Inr (), st)"
| "recheck_confirmed rc pe ((k, det) # ds) st = (case reverify rc pe st det of
       Inl e \<Rightarrow> (Inl e, st)
     | Inr ok \<Rightarrow> if ok then recheck_confirmed rc pe ds st
         else recheck_confirmed rc pe ds (emitReorged (pe_now pe) det
           (st\<lparr>ls_cumConfirmed := ls_cumConfirmed st - pd_value det, ls_confirmed := del_key k (ls_confirmed st)\<rparr>)))"

text \<open>Second loop: pending detections wait, confirm or are dropped.\<close>

fun advance_pending :: "rcodec \<Rightarrow> penv \<Rightarrow> 64 word \<Rightarrow> (string \<times> pending) list \<Rightarrow> receiveState \<Rightarrow> (rfail + unit) \<times> receiveState" where
  "advance_pending rc pe head [] st = (Inr (), st)"
| "advance_pending rc pe head ((k, det) # ds) st =
    (if pd_block det > head then advance_pending rc pe head ds st
     else if head - pd_block det + 1 < ls_confTarget st
     then advance_pending rc pe head ds (emitConfirming (pe_now pe) det (head - pd_block det + 1) st)
     else case reverify rc pe st det of Inl e \<Rightarrow> (Inl e, st)
     | Inr ok \<Rightarrow>
         let st1 = st\<lparr>ls_pending := del_key k (ls_pending st)\<rparr> in
         if \<not> ok then advance_pending rc pe head ds (emitReorged (pe_now pe) det st1)
         else advance_pending rc pe head ds (emitConfirmed (pe_now pe) det
           (st1\<lparr>ls_confirmed := upsert k det (ls_confirmed st1), ls_cumConfirmed := ls_cumConfirmed st1 + pd_value det\<rparr>)))"

definition advanceConfirmations :: "rcodec \<Rightarrow> penv \<Rightarrow> 64 word \<Rightarrow> receiveState \<Rightarrow> (rfail + unit) \<times> receiveState" where
  "advanceConfirmations rc pe head st = (case recheck_confirmed rc pe (pe_order pe (ls_confirmed st)) st of
       (Inl e, st1) \<Rightarrow> (Inl e, st1)
     | (Inr _, st1) \<Rightarrow> advance_pending rc pe head (pe_order pe (ls_pending st1)) st1)"

definition completed :: "receiveState \<Rightarrow> bool" where
  "completed st = (case ls_mode st of
       ModeAny \<Rightarrow> ls_cumConfirmed st > 0
     | ModeExact \<Rightarrow> list_ex (\<lambda>(k, d). IsAttributable (pd_attribution d) \<and> Some (pd_value d) = ls_targetAmount st) (ls_confirmed st)
     | ModeNFT \<Rightarrow> (case ls_targetAmount st of
           Some t \<Rightarrow> if t > 0 then ls_cumConfirmed st \<ge> t else ls_cumConfirmed st > 0
         | None \<Rightarrow> ls_cumConfirmed st > 0)
     | ModeCumulative \<Rightarrow> (case ls_targetAmount st of
           None \<Rightarrow> ls_cumConfirmed st > 0 | Some t \<Rightarrow> ls_cumConfirmed st \<ge> t))"

section \<open>Results\<close>

text \<open>\<open>sortPending\<close>: by block, log index and hash text; strings compare bytewise.\<close>

definition pending_less :: "pending \<Rightarrow> pending \<Rightarrow> bool" where
  "pending_less a b = (if pd_block a \<noteq> pd_block b then pd_block a < pd_block b
     else if logIndex_or a \<noteq> logIndex_or b then logIndex_or a < logIndex_or b
     else (pd_txHash a, pd_txHash b) \<in> lexord {(x, y). (of_char x :: nat) < of_char y})"

fun insert_pending :: "pending \<Rightarrow> pending list \<Rightarrow> pending list" where
  "insert_pending d [] = [d]"
| "insert_pending d (e # es) = (if pending_less e d then e # insert_pending d es else d # e # es)"

definition sortPending :: "pending list \<Rightarrow> pending list" where
  "sortPending ds = foldr insert_pending ds []"

definition confirmedOrdered :: "receiveState \<Rightarrow> pending list" where
  "confirmedOrdered st = sortPending (map snd (ls_confirmed st))"

definition confirmedHashes :: "receiveState \<Rightarrow> string list" where
  "confirmedHashes st = foldl (\<lambda>out d. if pd_txHash d = zero_hash \<or> pd_txHash d \<in> set out then out else out @ [pd_txHash d]) [] (confirmedOrdered st)"

definition confirmedTransfers :: "receiveState \<Rightarrow> DetectedTransfer list" where
  "confirmedTransfers st = map (\<lambda>d. \<lparr>dt_TxHash = hashHexOrEmpty (pd_txHash d), dt_LogIndex = pd_logIndex d, dt_From = addrHexOrEmpty (pd_from d),
     dt_Value = int_dec (pd_value d), dt_TokenID = pd_tokenID d, dt_Block = pd_block d, dt_BlockHash = hashHexOrEmpty (pd_blockHash d),
     dt_Attribution = pd_attribution d\<rparr>) (confirmedOrdered st)"

definition result_of :: "receiveState \<Rightarrow> string \<Rightarrow> ExitCode \<Rightarrow> ReceiveResult" where
  "result_of st status exit = \<lparr>xr_Address = ls_addr st, xr_Network = ls_network st, xr_ChainID = ls_chainID st, xr_Asset = assetWire st,
     xr_Target = targetWire st, xr_Status = status, xr_CumulativeConfirmed = int_dec (ls_cumConfirmed st), xr_Remaining = int_dec (remaining st),
     xr_Transfers = confirmedTransfers st, xr_LastScanned = ls_lastScanned st, xr_Resume = [], xr_Exit = exit\<rparr>"

definition humanAmount :: "receiveState \<Rightarrow> string" where
  "humanAmount st = (if la_kind (ls_asset st) \<in> {''erc20'', ''erc721'', ''erc1155''}
     then FormatTokenAmount (Some (remaining st)) (la_decimals (ls_asset st)) else FormatAmount (remaining st) Eth)"

definition assetFlagValue :: "listenAsset \<Rightarrow> string" where
  "assetFlagValue a = (if la_alias a \<noteq> [] then la_alias a else la_contract a)"

definition nftFlagValue :: "listenAsset \<Rightarrow> string" where
  "nftFlagValue a = (if la_tokenID a \<noteq> [] then la_contract a @ ''#'' @ la_tokenID a
     else if la_alias a \<noteq> [] then la_alias a else la_contract a)"

definition resumeCommand :: "receiveState \<Rightarrow> string" where
  "resumeCommand st = ''daxie receive --account '' @ (if ls_accountRef st \<noteq> [] then ls_accountRef st else ls_addr st)
     @ (if la_kind (ls_asset st) = ''erc20'' then '' --token '' @ assetFlagValue (ls_asset st)
        else if la_kind (ls_asset st) \<in> {''erc721'', ''erc1155''} then '' --nft '' @ nftFlagValue (ls_asset st) else [])
     @ (if ls_targetAmount st \<noteq> None then '' --amount '' @ humanAmount st else [])
     @ (if ls_mode st = ModeExact then '' --exact'' else [])
     @ '' --from-block '' @ nat_dec (unat (ls_lastScanned st + 1))"

definition completeResult :: "receiveState \<Rightarrow> ReceiveResult \<times> receiveState" where
  "completeResult st = (result_of st ''complete'' ExitOK, emit ((zero_event EvComplete)\<lparr>xv_CumulativeConfirmed := int_dec (ls_cumConfirmed st),
     xv_TxHashes := confirmedHashes st, xv_LastScanned := ls_lastScanned st, xv_Exit := Some ExitOK\<rparr>) st)"

definition timeoutResult :: "receiveState \<Rightarrow> ReceiveResult \<times> receiveState" where
  "timeoutResult st = ((result_of st ''timeout'' ExitTimeoutPending)\<lparr>xr_Resume := resumeCommand st\<rparr>,
     emit ((progress EvTimeout st)\<lparr>xv_Resume := resumeCommand st, xv_Note := (if isETH (ls_asset st) then ''verify balance before resuming'' else []),
       xv_Exit := Some ExitTimeoutPending\<rparr>) st)"

section \<open>The loop\<close>

definition confirm_and_complete :: "rcfg \<Rightarrow> rcodec \<Rightarrow> penv \<Rightarrow> 64 word \<Rightarrow> receiveState \<Rightarrow> (rfail + ReceiveResult option) \<times> receiveState" where
  "confirm_and_complete cfg rc pe head st = (case advanceConfirmations rc pe head st of
       (Inl e, st1) \<Rightarrow> (Inl e, st1)
     | (Inr _, st1) \<Rightarrow> if completed st1 then (case completeResult st1 of (res, st2) \<Rightarrow> (Inr (Some res), st2))
         else (Inr None, maybeHeartbeat cfg (pe_now pe) st1))"

definition receiveStep :: "rcfg \<Rightarrow> rcodec \<Rightarrow> penv \<Rightarrow> receiveState \<Rightarrow> ((rfail + ReceiveResult option) \<times> receiveState) option" where
  "receiveStep cfg rc pe st = (case pe_head pe of Inl e \<Rightarrow> Some (Inl (RErr (mapRPCErr e)), st)
     | Inr head \<Rightarrow>
        if head > ls_lastScanned st then
          (case scanRange cfg rc pe (ls_lastScanned st + 1) head st of None \<Rightarrow> None
           | Some (Inl e, st1) \<Rightarrow> Some (Inl e, st1)
           | Some (Inr _, st1) \<Rightarrow> Some (confirm_and_complete cfg rc pe head (st1\<lparr>ls_lastScanned := head\<rparr>)))
        else Some (confirm_and_complete cfg rc pe head st))"

definition isRetryableRPC :: "rfail \<Rightarrow> bool" where
  "isRetryableRPC f = (case f of RErr e \<Rightarrow> Code e = ''rpc.unreachable'' | RPanic \<Rightarrow> False)"

text \<open>After a poll that does not end the listen: the deadline, then the sleep.\<close>

definition poll_end :: "int option \<Rightarrow> penv \<Rightarrow> receiveState \<Rightarrow> (ReceiveResult \<times> receiveState) option" where
  "poll_end deadline pe st = (if (case deadline of None \<Rightarrow> False | Some d \<Rightarrow> \<not> pe_now pe < d) then Some (timeoutResult st)
     else if pe_sleep pe \<noteq> None then Some (timeoutResult st) else None)"

fun receiveLoop :: "rcfg \<Rightarrow> rcodec \<Rightarrow> int option \<Rightarrow> penv list \<Rightarrow> receiveState \<Rightarrow> ((rfail + ReceiveResult) \<times> receiveState) option" where
  "receiveLoop cfg rc deadline [] st = None"
| "receiveLoop cfg rc deadline (pe # pes) st = (case receiveStep cfg rc pe st of
       None \<Rightarrow> None
     | Some (Inr (Some res), st1) \<Rightarrow> Some (Inr res, st1)
     | Some (Inl e, st1) \<Rightarrow> if \<not> isRetryableRPC e then Some (Inl e, st1)
         else (let st2 = maybeHeartbeat cfg (pe_now pe) st1 in
           case poll_end deadline pe st2 of Some (res, st3) \<Rightarrow> Some (Inr res, st3) | None \<Rightarrow> receiveLoop cfg rc deadline pes st2)
     | Some (Inr None, st1) \<Rightarrow>
         (case poll_end deadline pe st1 of Some (res, st3) \<Rightarrow> Some (Inr res, st3) | None \<Rightarrow> receiveLoop cfg rc deadline pes st1))"

section \<open>The use case\<close>

text \<open>What the preparation meets: the endpoint, the keystore, the resolvers, the head and the balance.\<close>

record lenv =
  le_dial :: "unit result"
  le_chainID :: "goerr + 64 word"
  le_acquire :: "unit result"
  le_DeriveNext :: "(32 word \<times> address) result"
  le_Alias :: "unit result"
  le_default :: string
  le_IsHexAddress :: "string \<Rightarrow> bool"
  le_HexToAddress :: "string \<Rightarrow> address"
  le_ENS :: "string \<Rightarrow> address result"
  le_AddressOf :: "AccountRef \<Rightarrow> address result"
  le_resolveAsset :: "string \<Rightarrow> resolvedAsset result"
  le_resolveNFT :: "string \<Rightarrow> resolvedNFT result"
  le_head :: "goerr + 64 word"
  le_balance :: "goerr + int"
  le_now :: int

definition resolveListenAddress :: "lenv \<Rightarrow> ReceiveRequest \<Rightarrow> (address \<times> string) result" where
  "resolveListenAddress le req =
    (if rq_New req then (case le_acquire le of Inl e \<Rightarrow> Inl e
       | Inr _ \<Rightarrow> (case le_DeriveNext le of Inl e \<Rightarrow> Inl e
       | Inr (idx, addr) \<Rightarrow>
           if rq_Name req \<noteq> [] then (case le_Alias le of Inl e \<Rightarrow> Inl e | Inr _ \<Rightarrow> Inr (addr, rq_Wallet req @ ''/'' @ rq_Name req))
           else Inr (addr, rq_Wallet req @ ''/'' @ nat_dec (unat idx))))
     else let refStr = (if rq_Account req = [] then le_default le else rq_Account req) in
       if refStr = [] then Inl (New ''usage.no_account'')
       else case ParseAccountRef (le_IsHexAddress le) (le_HexToAddress le) refStr of Inl e \<Rightarrow> Inl e
       | Inr ref \<Rightarrow> (case (if ar_Kind ref = RefENS then le_ENS le (ar_Raw ref) else le_AddressOf le ref) of Inl e \<Rightarrow> Inl e
           | Inr addr \<Rightarrow> Inr (addr, if ar_Kind ref \<noteq> RefAddress then ar_Raw ref else [])))"

definition resolveListenAsset :: "lenv \<Rightarrow> ReceiveRequest \<Rightarrow> listenAsset result" where
  "resolveListenAsset le req =
    (if rq_Token req \<noteq> [] then (case le_resolveAsset le (rq_Token req) of Inl e \<Rightarrow> Inl e
       | Inr ra \<Rightarrow> Inr \<lparr>la_kind = ''erc20'', la_contract = rv_contract ra, la_alias = rv_alias ra, la_decimals = rv_decimals ra, la_tokenID = []\<rparr>)
     else if rq_NFT req \<noteq> [] then (case le_resolveNFT le (rq_NFT req) of Inl e \<Rightarrow> Inl e
       | Inr rn \<Rightarrow> Inr \<lparr>la_kind = rn_kind rn, la_contract = rn_collection rn,
           la_alias = (if rn_nftAlias rn = [] then rn_collectionAlias rn else rn_nftAlias rn), la_decimals = 0, la_tokenID = rn_tokenID rn\<rparr>)
     else Inr \<lparr>la_kind = ''eth'', la_contract = zero_address, la_alias = [], la_decimals = 0, la_tokenID = []\<rparr>)"

definition receiveTargetAmount :: "ReceiveRequest \<Rightarrow> listenAsset \<Rightarrow> int option result" where
  "receiveTargetAmount req a =
    (if rq_Amount req = [] then Inr None
     else if isETH a then (case ParseAmount (rq_Amount req) Eth of Inl _ \<Rightarrow> Inl (New ''usage.bad_amount'') | Inr w \<Rightarrow> Inr (Some w))
     else (case ParseTokenAmount (TrimSpace (rq_Amount req)) (la_decimals a) of Inl _ \<Rightarrow> Inl (New ''usage.bad_amount'') | Inr b \<Rightarrow> Inr (Some b)))"

definition start_block :: "rcfg \<Rightarrow> ReceiveRequest \<Rightarrow> 64 word \<Rightarrow> 64 word" where
  "start_block cfg req head = (case rq_FromBlock req of Some b \<Rightarrow> b
     | None \<Rightarrow> (let lb = (if cf_LookbackBlocks cfg > 0 then word_of_int (cf_LookbackBlocks cfg) else 0) in
         if head > lb then head - lb else 0))"

text \<open>The state the loop starts from; \<open>baseline\<close> is the balance at the head for an ETH listen.\<close>

definition initial_state :: "wcfg \<Rightarrow> ReceiveRequest \<Rightarrow> address \<Rightarrow> string \<Rightarrow> 64 word \<Rightarrow> listenAsset \<Rightarrow> ReceiveMode \<Rightarrow> int option \<Rightarrow> 64 word \<Rightarrow> int \<Rightarrow> receiveState" where
  "initial_state wc req addr ref chainID asset mode target fromBlock baseline =
     \<lparr>ls_addr = addr, ls_accountRef = ref, ls_network = networkName wc (rq_Network req), ls_chainID = chainID, ls_asset = asset, ls_mode = mode,
      ls_targetAmount = target, ls_confTarget = confirmTarget wc (rq_Network req) (rq_Confirmations req),
      ls_lastScanned = (if fromBlock > 0 then fromBlock - 1 else 0), ls_cumDetected = 0, ls_cumConfirmed = 0, ls_pending = [], ls_confirmed = [],
      ls_ethBaseline = baseline, ls_lastActivity = 0, ls_events = []\<rparr>"

definition prepare :: "wcfg \<Rightarrow> rcfg \<Rightarrow> lenv \<Rightarrow> ReceiveRequest \<Rightarrow> receiveState result" where
  "prepare wc cfg le req = (case ResolveReceiveMode req of Inl e \<Rightarrow> Inl e
     | Inr mode \<Rightarrow> (case le_dial le of Inl e \<Rightarrow> Inl e
     | Inr _ \<Rightarrow> (case le_chainID le of Inl e \<Rightarrow> Inl (mapRPCErr e)
     | Inr chainID \<Rightarrow> (case resolveListenAddress le req of Inl e \<Rightarrow> Inl e
     | Inr (addr, ref) \<Rightarrow> (case resolveListenAsset le req of Inl e \<Rightarrow> Inl e
     | Inr asset \<Rightarrow> (case receiveTargetAmount req asset of Inl e \<Rightarrow> Inl e
     | Inr target \<Rightarrow> (case le_head le of Inl e \<Rightarrow> Inl (mapRPCErr e)
     | Inr head \<Rightarrow> (let fromBlock = start_block cfg req head; st = initial_state wc req addr ref chainID asset mode target fromBlock in
         if \<not> isETH asset then Inr (emitListening (le_now le) fromBlock (st 0))
         else (case le_balance le of Inl e \<Rightarrow> Inl (mapRPCErr e) | Inr bal \<Rightarrow> Inr (emitListening (le_now le) fromBlock (st bal)))))))))))"

definition Receive :: "wcfg \<Rightarrow> rcfg \<Rightarrow> rcodec \<Rightarrow> lenv \<Rightarrow> ReceiveRequest \<Rightarrow> penv list \<Rightarrow> ((rfail + ReceiveResult) \<times> receiveState option) option" where
  "Receive wc cfg rc le req pes = (case prepare wc cfg le req of Inl e \<Rightarrow> Some (Inl (RErr e), None)
     | Inr st \<Rightarrow> map_option (\<lambda>(r, st'). (r, Some st'))
         (receiveLoop cfg rc (if rq_Timeout req > 0 then Some (le_now le + rq_Timeout req) else None) pes st))"

end
