(* ===== verification/Receive_Safety.thy ===== *)
theory Receive_Safety
  imports Receive_Loop
begin

text \<open>
  What a listen guarantees: the accounting invariant of the detection sets, what a completed listen has verified, the
  equivalence of the chunked log scan with one query, the exact value of the ETH residue, and what a resumed listen sees.
\<close>

section \<open>Events do not touch the accounts\<close>

lemma emit_simps [simp]:
  "ls_pending (emit e st) = ls_pending st" "ls_confirmed (emit e st) = ls_confirmed st" "ls_cumConfirmed (emit e st) = ls_cumConfirmed st"
  "ls_cumDetected (emit e st) = ls_cumDetected st" "ls_lastScanned (emit e st) = ls_lastScanned st" "ls_asset (emit e st) = ls_asset st"
  "ls_addr (emit e st) = ls_addr st" "ls_mode (emit e st) = ls_mode st" "ls_targetAmount (emit e st) = ls_targetAmount st"
  "ls_confTarget (emit e st) = ls_confTarget st" "ls_ethBaseline (emit e st) = ls_ethBaseline st"
  by (simp_all add: emit_def)

lemma touch_simps [simp]:
  "ls_pending (touch n st) = ls_pending st" "ls_confirmed (touch n st) = ls_confirmed st" "ls_cumConfirmed (touch n st) = ls_cumConfirmed st"
  "ls_cumDetected (touch n st) = ls_cumDetected st" "ls_lastScanned (touch n st) = ls_lastScanned st" "ls_asset (touch n st) = ls_asset st"
  "ls_addr (touch n st) = ls_addr st" "ls_mode (touch n st) = ls_mode st" "ls_targetAmount (touch n st) = ls_targetAmount st"
  "ls_confTarget (touch n st) = ls_confTarget st" "ls_ethBaseline (touch n st) = ls_ethBaseline st"
  by (simp_all add: touch_def)

text \<open>The part of the state that no operation of the loop changes.\<close>

definition settings :: "receiveState \<Rightarrow> address \<times> listenAsset \<times> ReceiveMode \<times> int option \<times> 64 word" where
  "settings st = (ls_addr st, ls_asset st, ls_mode st, ls_targetAmount st, ls_confTarget st)"

definition accounts :: "receiveState \<Rightarrow> (string \<times> pending) list \<times> (string \<times> pending) list \<times> int \<times> 64 word" where
  "accounts st = (ls_pending st, ls_confirmed st, ls_cumConfirmed st, ls_lastScanned st)"

named_theorems event_simps

lemma event_accounts [event_simps]:
  "accounts (emitDetected n d st) = accounts st" "accounts (emitConfirming n d c st) = accounts st"
  "accounts (emitConfirmed n d st) = accounts st" "accounts (emitReorged n d st) = accounts st"
  "accounts (maybeHeartbeat cfg n st) = accounts st" "accounts (emitBalanceDeltaWarn b st) = accounts st"
  "accounts (emitListening n b st) = accounts st"
  by (simp_all add: accounts_def emitDetected_def emitConfirming_def emitConfirmed_def emitReorged_def maybeHeartbeat_def
      emitBalanceDeltaWarn_def emitListening_def)

lemma event_settings [event_simps]:
  "settings (emitDetected n d st) = settings st" "settings (emitConfirming n d c st) = settings st"
  "settings (emitConfirmed n d st) = settings st" "settings (emitReorged n d st) = settings st"
  "settings (maybeHeartbeat cfg n st) = settings st" "settings (emitBalanceDeltaWarn b st) = settings st"
  "settings (emitListening n b st) = settings st"
  by (simp_all add: settings_def emitDetected_def emitConfirming_def emitConfirmed_def emitReorged_def maybeHeartbeat_def
      emitBalanceDeltaWarn_def emitListening_def)

section \<open>The accounting invariant\<close>

definition total_value :: "(string \<times> pending) list \<Rightarrow> int" where
  "total_value m = sum_list (map (pd_value \<circ> snd) m)"

definition good_detection :: "string \<times> pending \<Rightarrow> bool" where
  "good_detection e \<longleftrightarrow> fst e = key (snd e) \<and> pd_value (snd e) > 0"

definition wf_accounts :: "(string \<times> pending) list \<times> (string \<times> pending) list \<times> int \<times> 64 word \<Rightarrow> bool" where
  "wf_accounts a = (case a of (pen, con, cum, b) \<Rightarrow>
     distinct (map fst pen) \<and> distinct (map fst con) \<and> fst ` set pen \<inter> fst ` set con = {} \<and>
     (\<forall>e \<in> set pen \<union> set con. good_detection e) \<and> cum = total_value con)"

abbreviation "wf_listen st \<equiv> wf_accounts (accounts st)"

definition orderly :: "penv \<Rightarrow> bool" where
  "orderly pe \<longleftrightarrow> (\<forall>m. mset (pe_order pe m) = mset m)"

lemma orderly_set: "orderly pe \<Longrightarrow> set (pe_order pe m) = set m"
  by (metis orderly_def mset_eq_setD)

lemma orderly_distinct: "orderly pe \<Longrightarrow> distinct (map fst (pe_order pe m)) = distinct (map fst m)"
  by (metis mset_map mset_eq_imp_distinct_iff orderly_def)

lemma map_of_None_keys: "map_of m k = None \<longleftrightarrow> k \<notin> fst ` set m"
  by (rule map_of_eq_None_iff)

lemma upsert_new: "map_of m k = None \<Longrightarrow> upsert k v m = m @ [(k, v)]"
  by (induction m rule: upsert.induct) (auto split: if_split_asm)

lemma total_value_simps [simp]: "total_value [] = 0" "total_value (m @ n) = total_value m + total_value n"
  "total_value (e # m) = pd_value (snd e) + total_value m"
  by (simp_all add: total_value_def)

lemma total_value_del:
  assumes "distinct (map fst m)" "(k, d) \<in> set m"
  shows "total_value (del_key k m) = total_value m - pd_value d"
  using assms
proof (induction m)
  case (Cons e m)
  have "k \<notin> fst ` set m \<Longrightarrow> filter (\<lambda>(k', _). k' \<noteq> k) m = m" by (rule filter_True) (force simp: image_iff)
  thus ?case using Cons by (cases e) (force simp: del_key_def)
qed simp

lemma del_key_set: "set (del_key k m) = {e \<in> set m. fst e \<noteq> k}"
  by (auto simp: del_key_def)

lemma del_key_distinct: "distinct (map fst m) \<Longrightarrow> distinct (map fst (del_key k m))"
  by (simp add: del_key_def distinct_map_filter)

text \<open>The moves of the accounts.\<close>

lemma wf_detect:
  assumes "wf_accounts (pen, con, cum, b)" "map_of pen (key d) = None" "map_of con (key d) = None" "pd_value d > 0"
  shows "wf_accounts (upsert (key d) d pen, con, cum, b)"
proof -
  have "good_detection (key d, d)" using assms(4) by (simp add: good_detection_def)
  thus ?thesis using assms(1-3) by (auto simp: wf_accounts_def upsert_new map_of_None_keys)
qed

lemma wf_drop_confirmed:
  assumes "wf_accounts (pen, con, cum, b)" "(k, d) \<in> set con"
  shows "wf_accounts (pen, del_key k con, cum - pd_value d, b)"
  using assms total_value_del [of con k d] by (auto simp: wf_accounts_def del_key_set del_key_distinct)

lemma wf_drop_pending: "wf_accounts (pen, con, cum, b) \<Longrightarrow> wf_accounts (del_key k pen, con, cum, b)"
  by (auto simp: wf_accounts_def del_key_set del_key_distinct)

lemma wf_confirm:
  assumes "wf_accounts (pen, con, cum, b)" "(k, d) \<in> set pen"
  shows "wf_accounts (del_key k pen, upsert k d con, cum + pd_value d, b)"
proof -
  have "map_of con k = None" using assms by (force simp: wf_accounts_def map_of_None_keys)
  thus ?thesis using assms by (auto simp: wf_accounts_def del_key_set del_key_distinct upsert_new map_of_None_keys)
qed

lemma wf_rescan: "wf_accounts (pen, con, cum, b) \<Longrightarrow> wf_accounts (pen, con, cum, b')"
  by (simp add: wf_accounts_def)

section \<open>What one operation may do\<close>

text \<open>An operation keeps the settings and the scan mark, keeps the accounts consistent, and adds only detections with \<open>P\<close>.\<close>

definition detections :: "receiveState \<Rightarrow> (string \<times> pending) set" where
  "detections st = set (ls_pending st) \<union> set (ls_confirmed st)"

definition step_ok :: "(pending \<Rightarrow> bool) \<Rightarrow> receiveState \<Rightarrow> receiveState \<Rightarrow> bool" where
  "step_ok P st st' \<longleftrightarrow> settings st' = settings st \<and> ls_lastScanned st' = ls_lastScanned st \<and>
     (wf_listen st \<longrightarrow> wf_listen st') \<and> (\<forall>e \<in> detections st'. e \<in> detections st \<or> P (snd e))"

lemma step_ok_refl [intro]: "step_ok P st st"
  by (simp add: step_ok_def)

lemma step_ok_trans: "step_ok P st st1 \<Longrightarrow> step_ok P st1 st2 \<Longrightarrow> step_ok P st st2"
  unfolding step_ok_def by metis

lemma step_ok_mono: "step_ok P st st' \<Longrightarrow> (\<And>d. P d \<Longrightarrow> Q d) \<Longrightarrow> step_ok Q st st'"
  unfolding step_ok_def by blast

lemma accounts_eq: "accounts st' = accounts st \<Longrightarrow> detections st' = detections st \<and> ls_lastScanned st' = ls_lastScanned st
    \<and> ls_confirmed st' = ls_confirmed st \<and> ls_pending st' = ls_pending st \<and> ls_cumConfirmed st' = ls_cumConfirmed st"
  by (simp add: accounts_def detections_def)

lemma step_ok_event:
  "accounts st' = accounts st1 \<Longrightarrow> settings st' = settings st1 \<Longrightarrow> step_ok P st st1 \<Longrightarrow> step_ok P st st'"
  using accounts_eq [of st' st1] by (simp add: step_ok_def)

lemma recordDetection_ok:
  assumes "pd_value d > 0" "P d"
  shows "step_ok P st (recordDetection n d st)"
proof (cases "map_of (ls_pending st) (key d) = None \<and> map_of (ls_confirmed st) (key d) = None")
  case True
  let ?st = "st\<lparr>ls_pending := upsert (key d) d (ls_pending st), ls_cumDetected := ls_cumDetected st + pd_value d\<rparr>"
  have "step_ok P st ?st"
    using True assms wf_detect [of "ls_pending st" "ls_confirmed st" "ls_cumConfirmed st" "ls_lastScanned st" d]
    by (auto simp: step_ok_def settings_def accounts_def detections_def upsert_new)
  moreover have "recordDetection n d st = emitDetected n d ?st" using True by (simp add: recordDetection_def)
  ultimately show ?thesis using step_ok_event event_accounts(1) event_settings(1) by metis
next
  case False
  hence "recordDetection n d st = st" by (auto simp: recordDetection_def Let_def)
  thus ?thesis by auto
qed

subsection \<open>Scanning\<close>

lemma data_word_nonneg: "data_word d off = Inr (Some v) \<Longrightarrow> v \<ge> 0"
  by (auto simp: data_word_def Let_def split: if_split_asm)

lemma read_words_nonneg: "read_words d off i n = Inr (Some vs) \<Longrightarrow> \<forall>v \<in> set vs. v \<ge> 0"
proof (induction n arbitrary: i vs)
  case (Suc n)
  thus ?case by (auto simp: data_word_nonneg split: sum.split_asm option.split_asm)
qed simp

lemma decode_nonneg: "decode1155Batch d = Inr (Some (ids, vals)) \<Longrightarrow> \<forall>v \<in> set vals. v \<ge> 0"
  using read_words_nonneg
  by (auto simp: decode1155Batch_def readArr_def Let_def split: sum.split_asm option.split_asm if_split_asm)

lemma batch_sum_nonneg: "\<forall>v \<in> set vals. v \<ge> 0 \<Longrightarrow> batch_sum t ids vals \<ge> 0"
  unfolding batch_sum_def by (rule sum_list_nonneg) (auto dest: set_zip_rightD)

lemma log_pending_fields [simp]: "pd_value (log_pending l a v t) = v" "pd_block (log_pending l a v t) = lg_BlockNumber l"
  "pd_blockHash (log_pending l a v t) = lg_BlockHash l" "pd_attribution (log_pending l a v t) = AttribLog"
  by (simp_all add: log_pending_def)

lemma classify20_value: "classify20 rc addr l = Some d \<Longrightarrow> pd_value d > 0 \<and> pd_block d = lg_BlockNumber l"
  by (auto simp: classify20_def Let_def split: if_split_asm)

lemma classify721_value: "classify721 rc addr a l = Some d \<Longrightarrow> pd_value d > 0 \<and> pd_block d = lg_BlockNumber l"
  by (auto simp: classify721_def Let_def split: if_split_asm)

lemma classify1155_value:
  assumes "classify1155 rc addr a l = Inr (Some d)"
  shows "pd_value d > 0 \<and> pd_block d = lg_BlockNumber l"
proof (cases "lg_Topics l ! 0 = transferSingleTopic0 rc")
  case True
  with assms show ?thesis by (auto simp: classify1155_def Let_def split: if_split_asm)
next
  case False
  with assms obtain ids vals src where d: "decode1155Batch (lg_Data l) = Inr (Some (ids, vals))"
      "batch_sum (la_tokenID a) ids vals \<noteq> 0" "d = log_pending l src (batch_sum (la_tokenID a) ids vals) (la_tokenID a)"
    by (auto simp: classify1155_def Let_def split: if_split_asm sum.split_asm option.split_asm)
  have "batch_sum (la_tokenID a) ids vals \<ge> 0" using decode_nonneg [OF d(1)] by (rule batch_sum_nonneg)
  thus ?thesis using d by simp
qed

lemma classify_value: "classifyLog rc addr a l = Inr (Some d) \<Longrightarrow> pd_value d > 0 \<and> pd_block d = lg_BlockNumber l"
  using classify20_value classify721_value classify1155_value by (auto simp: classifyLog_def split: if_split_asm)

lemma record_logs_ok:
  assumes "record_logs rc n ls st = (r, st')" "\<And>l d. l \<in> set ls \<Longrightarrow> pd_block d = lg_BlockNumber l \<Longrightarrow> P d"
  shows "step_ok P st st'"
  using assms
proof (induction ls arbitrary: st)
  case (Cons l ls)
  show ?case
  proof (cases "classifyLog rc (ls_addr st) (ls_asset st) l")
    case (Inr o')
    show ?thesis
    proof (cases o')
      case (Some d)
      hence d: "pd_value d > 0" "P d" using classify_value Inr Cons.prems(2) [of l d] by auto
      have "record_logs rc n ls (recordDetection n d st) = (r, st')" using Cons.prems(1) Inr Some by simp
      hence "step_ok P (recordDetection n d st) st'" by (rule Cons.IH) (use Cons.prems(2) in auto)
      thus ?thesis using recordDetection_ok [of d P, OF d] step_ok_trans by blast
    next
      case None
      hence "record_logs rc n ls st = (r, st')" using Cons.prems(1) Inr by simp
      thus ?thesis by (rule Cons.IH) (use Cons.prems(2) in auto)
    qed
  qed (use Cons.prems in auto)
qed auto

text \<open>Away from the largest block number the chunk loop does not wrap.\<close>

lemma next_chunk:
  fixes lo hi width :: "64 word"
  assumes "unat hi + unat width < 2 ^ 64" "lo \<le> hi"
  shows "lo \<le> lo + width" "unat (lo + width) = unat lo + unat width"
proof -
  have "unat lo + unat width < 2 ^ 64" using assms by (simp add: word_le_nat_alt)
  thus u: "unat (lo + width) = unat lo + unat width" by (simp add: unat_word_ariths)
  show "lo \<le> lo + width" by (simp add: word_le_nat_alt u)
qed

lemma scan_chunks_ok:
  assumes "scan_chunks rc pe width hi lo st = Some y"
    "\<And>q logs l d. pe_logs pe q = Inr logs \<Longrightarrow> l \<in> set logs \<Longrightarrow> pd_block d = lg_BlockNumber l \<Longrightarrow>
       (unat hi + unat width < 2 ^ 64 \<longrightarrow> lo \<le> fq_From q) \<Longrightarrow> P d"
  shows "step_ok P st (snd y)"
proof -
  let ?C = "\<lambda>pe (width :: 64 word) (hi :: 64 word) lo. \<forall>q logs l d. pe_logs pe q = Inr logs \<longrightarrow> l \<in> set logs \<longrightarrow> pd_block d = lg_BlockNumber l \<longrightarrow>
      (unat hi + unat width < 2 ^ 64 \<longrightarrow> lo \<le> fq_From q) \<longrightarrow> P d"
  have "?C pe width hi lo \<longrightarrow> step_ok P st (snd y)"
  proof (rule scan_chunks.raw_induct [where P = "\<lambda>rc pe width hi lo st y. ?C pe width hi lo \<longrightarrow> step_ok P st (snd y)", OF _ assms(1)], rule impI)
    fix go and rc :: rcodec and pe :: penv and width hi lo :: "64 word" and st y
    assume IH: "\<And>rc pe width hi lo st y. go rc pe width hi lo st = Some y \<Longrightarrow> ?C pe width hi lo \<longrightarrow> step_ok P st (snd y)"
      and run: "(if lo > hi then Some (Inr (), st)
        else let top = (if lo + width - 1 > hi then hi else lo + width - 1) in
          case pe_logs pe (transferQuery rc (ls_addr st) (ls_asset st) lo top) of
            Inl e \<Rightarrow> Some (Inl (RErr (mapRPCErr e)), st)
          | Inr logs \<Rightarrow> (case record_logs rc (pe_now pe) logs st of
              (Inl e, st1) \<Rightarrow> Some (Inl e, st1)
            | (Inr _, st1) \<Rightarrow> if top = hi then Some (Inr (), st1) else go rc pe width hi (lo + width) st1)) = Some y"
      and C: "?C pe width hi lo"
    show "step_ok P st (snd y)"
    proof (cases "lo > hi")
      case False
      define top where "top = (if lo + width - 1 > hi then hi else lo + width - 1)"
      let ?q = "transferQuery rc (ls_addr st) (ls_asset st) lo top"
      show ?thesis
      proof (cases "pe_logs pe ?q")
        case (Inr logs)
        obtain r st1 where rl: "record_logs rc (pe_now pe) logs st = (r, st1)" by force
        have "fq_From ?q = lo" by (simp add: transferQuery_def Let_def)
        hence s1: "step_ok P st st1" using record_logs_ok [OF rl, of P] C Inr by force
        show ?thesis
        proof (cases "(\<exists>e. r = Inl e) \<or> top = hi")
          case True
          hence "y = (r, st1)" using run False Inr rl by (cases r) (auto simp: top_def [symmetric] Let_def)
          thus ?thesis using s1 by simp
        next
          case go: False
          hence g: "go rc pe width hi (lo + width) st1 = Some y"
            using run False Inr rl by (cases r) (auto simp: top_def [symmetric] Let_def)
          have "unat hi + unat width < 2 ^ 64 \<Longrightarrow> lo \<le> lo + width" using next_chunk(1) False by (simp add: not_less)
          hence "?C pe width hi (lo + width)" using C by (meson order_trans)
          thus ?thesis using IH [OF g] s1 step_ok_trans by blast
        qed
      qed (use run False in \<open>auto simp: top_def [symmetric] Let_def\<close>)
    qed (use run in auto)
  qed
  thus ?thesis using assms(2) by blast
qed

text \<open>The block scan.\<close>

lemma scan_tx_inbound: "(\<forall>i \<in> set (sc_inbound s). ei_value i > 0) \<Longrightarrow> \<forall>i \<in> set (sc_inbound (fold (scan_tx addr) txs s)). ei_value i > 0"
proof (induction txs arbitrary: s)
  case (Cons tx txs)
  have "\<forall>i \<in> set (sc_inbound (scan_tx addr tx s)). ei_value i > 0" using Cons.prems by (auto simp: scan_tx_def Let_def)
  thus ?case using Cons.IH by simp
qed simp

lemma scan_inbound_positive: "scanETHBlock addr answer = Inr sc \<Longrightarrow> i \<in> set (sc_inbound sc) \<Longrightarrow> ei_value i > 0"
  using scan_tx_inbound [of "\<lparr>sc_directIn = 0, sc_inbound = [], sc_ownOut = 0, sc_ownTxs = [], sc_block = blk\<rparr>" for blk]
  by (auto simp: scanETHBlock_def split: sum.split_asm)

lemma fold_record_ok:
  assumes "\<And>i. i \<in> set is \<Longrightarrow> pd_value (f i) > 0 \<and> P (f i)"
  shows "step_ok P st (fold (\<lambda>i. recordDetection n (f i)) is st)"
  using assms
proof (induction "is" arbitrary: st)
  case (Cons i "is")
  have "step_ok P st (recordDetection n (f i) st)" using Cons.prems [of i] recordDetection_ok [of "f i" P] by simp
  moreover have "step_ok P (recordDetection n (f i) st) (fold (\<lambda>i. recordDetection n (f i)) is (recordDetection n (f i) st))"
    by (rule Cons.IH) (use Cons.prems in auto)
  ultimately show ?case using step_ok_trans by simp
qed auto

lemma scan_blocks_ok:
  assumes "scan_blocks pe hi n acc st = (r, st')" "\<And>d. pd_block d \<ge> n \<Longrightarrow> P d"
  shows "step_ok P st st'"
  using assms
proof (induction pe hi n acc st rule: scan_blocks.induct)
  case (1 pe hi n acc st)
  show ?case
  proof (cases "n > hi")
    case False
    show ?thesis
    proof (cases "scanETHBlock (ls_addr st) (pe_block pe n)")
      case (Inr sc)
      define st1 where "st1 = fold (\<lambda>i. recordDetection (pe_now pe) (inbound_pending n sc i)) (sc_inbound sc) st"
      define f where "f = (if sc_ownTxs sc = [] then Inr 0 else ownFeesActual (pe_feeReceipt pe) (sc_block sc) (sc_ownTxs sc) 0)"
      have s1: "step_ok P st st1" unfolding st1_def
        by (rule fold_record_ok) (use scan_inbound_positive [OF Inr] "1.prems"(2) in \<open>auto simp: inbound_pending_def\<close>)
      note eqs = "1.prems"(1) [unfolded scan_blocks.simps [of pe hi n acc st] Let_def] st1_def [symmetric] f_def [symmetric]
      show ?thesis
      proof (cases f)
        case (Inl e)
        hence "st' = st1" using eqs False \<open>scanETHBlock _ _ = Inr sc\<close> by simp
        thus ?thesis using s1 by simp
      next
        case (Inr fees)
        obtain di oo fe where a: "acc = (di, oo, fe)" by (cases acc)
        show ?thesis
        proof (cases "n = hi")
          case True
          hence "st' = st1" using eqs False Inr a \<open>scanETHBlock _ _ = Inr sc\<close> by simp
          thus ?thesis using s1 by simp
        next
          case ne: False
          have r: "scan_blocks pe hi (n + 1) (di + sc_directIn sc, oo + sc_ownOut sc, fe + fees) st1 = (r, st')"
            using eqs False Inr a ne \<open>scanETHBlock _ _ = Inr sc\<close> by simp
          have "n < hi" using False ne by simp
          hence le: "n \<le> n + 1" using unat_next [of n hi] by (simp add: word_le_nat_alt)
          have "step_ok P st1 st'"
            by (rule "1.IH" [OF False \<open>scanETHBlock _ _ = Inr sc\<close> st1_def trans [OF f_def [symmetric] Inr] a [symmetric] refl refl ne r])
              (use "1.prems"(2) le in \<open>meson order_trans\<close>)
          thus ?thesis using s1 step_ok_trans by blast
        qed
      qed
    qed (use "1.prems" False in \<open>auto simp: scan_blocks.simps [of pe hi n]\<close>)
  qed (use "1.prems" in \<open>auto simp: scan_blocks.simps [of pe hi n]\<close>)
qed

lemma scanRangeETH_ok:
  assumes "scanRangeETH pe lo hi st = (r, st')" "lo \<le> hi" "\<And>d. pd_block d \<ge> lo \<Longrightarrow> P d"
  shows "step_ok P st st'"
proof -
  obtain r1 st1 where b: "scan_blocks pe hi lo (0, 0, 0) st = (r1, st1)" by force
  have s1: "step_ok P st st1" using scan_blocks_ok [OF b, of P] assms(3) .
  have base: "step_ok P st1 (st1\<lparr>ls_ethBaseline := b\<rparr>)" for b
    by (simp add: step_ok_def settings_def accounts_def detections_def)
  have warn: "step_ok P st1 (emitBalanceDeltaWarn hi (st1\<lparr>ls_ethBaseline := b\<rparr>))" for b
    by (rule step_ok_event [OF event_accounts(6) event_settings(6) base])
  have det: "v > 0 \<Longrightarrow> step_ok P st1 (recordDetection n (delta_pending hi v) (st1\<lparr>ls_ethBaseline := b\<rparr>))" for v n b
    by (rule step_ok_trans [OF base recordDetection_ok]) (use assms(2,3) in \<open>auto simp: delta_pending_def\<close>)
  show ?thesis
    using assms(1) b s1 step_ok_trans [OF s1 base] step_ok_trans [OF s1 warn] step_ok_trans [OF s1 det]
    by (auto simp: scanRangeETH_def Let_def balanceDelta_def split: sum.split_asm if_split_asm prod.split_asm)
qed

text \<open>A node that answers a log query with logs of the asked range.\<close>

definition ranged_logs :: "penv \<Rightarrow> bool" where
  "ranged_logs pe \<longleftrightarrow> (\<forall>q logs l. pe_logs pe q = Inr logs \<longrightarrow> l \<in> set logs \<longrightarrow> fq_From q \<le> lg_BlockNumber l \<and> lg_BlockNumber l \<le> fq_To q)"

definition chunk_width :: "rcfg \<Rightarrow> 64 word" where
  "chunk_width cfg = word_of_int (if cf_MaxLogRange cfg \<le> 0 then 1000 else cf_MaxLogRange cfg)"

lemma scanRange_ok:
  assumes "scanRange cfg rc pe lo hi st = Some y" "lo \<le> hi"
  shows "step_ok (\<lambda>d. ranged_logs pe \<and> unat hi + unat (chunk_width cfg) < 2 ^ 64 \<longrightarrow> lo \<le> pd_block d) st (snd y)"
proof (cases "isETH (ls_asset st)")
  case True
  obtain r st' where e: "scanRangeETH pe lo hi st = (r, st')" by force
  hence "snd y = st'" using assms(1) True e by (metis option.inject scanRange_def snd_conv)
  thus ?thesis using scanRangeETH_ok [OF e assms(2)] by simp
next
  case False
  hence "scan_chunks rc pe (chunk_width cfg) hi lo st = Some y"
    using assms(1) by (simp add: scanRange_def scanRangeLogs_def chunk_width_def)
  thus ?thesis
  proof (rule scan_chunks_ok)
    fix q logs l d
    assume "pe_logs pe q = Inr logs" "l \<in> set logs" "pd_block d = lg_BlockNumber l"
      "unat hi + unat (chunk_width cfg) < 2 ^ 64 \<longrightarrow> lo \<le> fq_From q"
    thus "ranged_logs pe \<and> unat hi + unat (chunk_width cfg) < 2 ^ 64 \<longrightarrow> lo \<le> pd_block d"
      unfolding ranged_logs_def by (metis order_trans)
  qed
qed

subsection \<open>Confirmation\<close>

lemma reverify_settings: "settings st' = settings st \<Longrightarrow> reverify rc pe st' = reverify rc pe st"
  by (simp add: reverify_def settings_def fun_eq_iff)

lemma drop_confirmed_ok:
  assumes "(k, d) \<in> set (ls_confirmed st)"
  shows "step_ok P st (emitReorged n d (st\<lparr>ls_cumConfirmed := ls_cumConfirmed st - pd_value d, ls_confirmed := del_key k (ls_confirmed st)\<rparr>))"
proof (rule step_ok_event [OF event_accounts(4) event_settings(4)])
  show "step_ok P st (st\<lparr>ls_cumConfirmed := ls_cumConfirmed st - pd_value d, ls_confirmed := del_key k (ls_confirmed st)\<rparr>)"
    using wf_drop_confirmed [OF _ assms] by (auto simp: step_ok_def settings_def accounts_def detections_def del_key_set)
qed

lemma recheck_ok:
  assumes "recheck_confirmed rc pe ds st = (r, st')" "set ds \<subseteq> set (ls_confirmed st)" "distinct (map fst ds)"
  shows "step_ok P st st' \<and> ls_pending st' = ls_pending st \<and> set (ls_confirmed st') \<subseteq> set (ls_confirmed st) \<and>
    (r = Inr () \<longrightarrow> (\<forall>e \<in> set ds \<inter> set (ls_confirmed st'). reverify rc pe st (snd e) = Inr True))"
  using assms
proof (induction ds arbitrary: st)
  case (Cons e ds)
  obtain k d where e: "e = (k, d)" by (cases e)
  show ?case
  proof (cases "reverify rc pe st d")
    case (Inl x)
    thus ?thesis using Cons.prems e by auto
  next
    case (Inr ok)
    show ?thesis
    proof (cases ok)
      case True
      hence "recheck_confirmed rc pe ds st = (r, st')" using Cons.prems(1) Inr e by simp
      from Cons.IH [OF this] Cons.prems(2,3) Inr True e show ?thesis by auto
    next
      case False
      define st1 where "st1 = emitReorged (pe_now pe) d (st\<lparr>ls_cumConfirmed := ls_cumConfirmed st - pd_value d, ls_confirmed := del_key k (ls_confirmed st)\<rparr>)"
      have s1: "step_ok P st st1" unfolding st1_def by (rule drop_confirmed_ok) (use Cons.prems(2) e in auto)
      have a: "ls_pending st1 = ls_pending st" "set (ls_confirmed st1) = {x \<in> set (ls_confirmed st). fst x \<noteq> k}"
        by (auto simp: st1_def emitReorged_def del_key_set)
      have "recheck_confirmed rc pe ds st1 = (r, st')" using Cons.prems(1) Inr False e by (simp add: st1_def)
      moreover have "set ds \<subseteq> set (ls_confirmed st1)" using Cons.prems(2,3) e a(2) by (force simp: image_iff)
      ultimately have IH: "step_ok P st1 st' \<and> ls_pending st' = ls_pending st1 \<and> set (ls_confirmed st') \<subseteq> set (ls_confirmed st1) \<and>
          (r = Inr () \<longrightarrow> (\<forall>e \<in> set ds \<inter> set (ls_confirmed st'). reverify rc pe st1 (snd e) = Inr True))"
        using Cons.IH Cons.prems(3) by simp
      have "reverify rc pe st1 = reverify rc pe st" using s1 by (intro reverify_settings) (simp add: step_ok_def)
      moreover have "e \<notin> set (ls_confirmed st')" using IH a(2) e by auto
      ultimately show ?thesis using IH a s1 step_ok_trans [OF s1, of st'] e by auto
    qed
  qed
qed auto

lemma drop_pending_ok: "step_ok P st (emitReorged n d (st\<lparr>ls_pending := del_key k (ls_pending st)\<rparr>))"
proof (rule step_ok_event [OF event_accounts(4) event_settings(4)])
  show "step_ok P st (st\<lparr>ls_pending := del_key k (ls_pending st)\<rparr>)"
    using wf_drop_pending by (auto simp: step_ok_def settings_def accounts_def detections_def del_key_set)
qed

lemma upsert_subset: "set (upsert k d m) \<subseteq> insert (k, d) (set m)"
  by (induction m rule: upsert.induct) auto

lemma confirm_ok:
  assumes "(k, d) \<in> set (ls_pending st)"
  shows "step_ok P st (emitConfirmed n d (st\<lparr>ls_pending := del_key k (ls_pending st), ls_confirmed := upsert k d (ls_confirmed st),
    ls_cumConfirmed := ls_cumConfirmed st + pd_value d\<rparr>))"
proof (rule step_ok_event [OF event_accounts(3) event_settings(3)])
  show "step_ok P st (st\<lparr>ls_pending := del_key k (ls_pending st), ls_confirmed := upsert k d (ls_confirmed st),
    ls_cumConfirmed := ls_cumConfirmed st + pd_value d\<rparr>)"
    using wf_confirm [OF _ assms] assms upsert_subset [of k d "ls_confirmed st"]
    by (auto simp: step_ok_def settings_def accounts_def detections_def del_key_set)
qed

definition deep_enough :: "64 word \<Rightarrow> receiveState \<Rightarrow> pending \<Rightarrow> bool" where
  "deep_enough head st d \<longleftrightarrow> pd_block d \<le> head \<and> head - pd_block d + 1 \<ge> ls_confTarget st"

lemma advance_ok:
  assumes "advance_pending rc pe head ds st = (r, st')" "set ds \<subseteq> set (ls_pending st)" "distinct (map fst ds)"
  shows "step_ok P st st' \<and> (\<forall>e \<in> set (ls_confirmed st'). e \<in> set (ls_confirmed st) \<or>
    reverify rc pe st (snd e) = Inr True \<and> deep_enough head st (snd e))"
  using assms
proof (induction ds arbitrary: st)
  case (Cons e ds)
  obtain k d where e: "e = (k, d)" by (cases e)
  have k: "k \<notin> fst ` set ds" "distinct (map fst ds)" "(k, d) \<in> set (ls_pending st)" using Cons.prems(2,3) e by auto
  text \<open>One round leads to \<open>st1\<close>, which keeps the rest of the work list pending.\<close>
  have step: ?case if s1: "step_ok P st st1" and go: "advance_pending rc pe head ds st1 = (r, st')"
    and left: "{x \<in> set (ls_pending st). fst x \<noteq> k} \<subseteq> set (ls_pending st1)"
    and new: "\<forall>x \<in> set (ls_confirmed st1). x \<in> set (ls_confirmed st) \<or> x = (k, d) \<and> reverify rc pe st d = Inr True \<and> deep_enough head st d" for st1
  proof -
    have "set ds \<subseteq> set (ls_pending st1)"
    proof
      fix x
      assume x: "x \<in> set ds"
      hence "fst x \<noteq> k" using k(1) by auto
      thus "x \<in> set (ls_pending st1)" using x left Cons.prems(2) by auto
    qed
    note IH = Cons.IH [OF go this k(2)]
    have "settings st1 = settings st" using s1 by (simp add: step_ok_def)
    hence "reverify rc pe st1 = reverify rc pe st" "deep_enough head st1 = deep_enough head st"
      by (rule reverify_settings) (use \<open>settings st1 = settings st\<close> in \<open>simp add: deep_enough_def settings_def fun_eq_iff\<close>)
    thus ?thesis using IH new step_ok_trans [OF s1, of st'] by fastforce
  qed
  consider (above) "pd_block d > head" | (shallow) "\<not> pd_block d > head" "head - pd_block d + 1 < ls_confTarget st"
    | (deep) "\<not> pd_block d > head" "\<not> head - pd_block d + 1 < ls_confTarget st"
    by blast
  thus ?case
  proof cases
    case above
    thus ?thesis using Cons.prems(1) e by (intro step [of st]) auto
  next
    case shallow
    show ?thesis
    proof (rule step)
      show "advance_pending rc pe head ds (emitConfirming (pe_now pe) d (head - pd_block d + 1) st) = (r, st')"
        using Cons.prems(1) e shallow by simp
      show "step_ok P st (emitConfirming (pe_now pe) d (head - pd_block d + 1) st)"
        by (rule step_ok_event [OF event_accounts(2) event_settings(2)]) auto
    qed (use accounts_eq [OF event_accounts(2)] in auto)
  next
    case deep
    hence de: "deep_enough head st d" by (simp add: deep_enough_def not_less)
    show ?thesis
    proof (cases "reverify rc pe st d")
      case (Inl x)
      thus ?thesis using Cons.prems(1) e deep by auto
    next
      case (Inr ok)
      show ?thesis
      proof (cases ok)
        case False
        show ?thesis
        proof (rule step)
          show "advance_pending rc pe head ds (emitReorged (pe_now pe) d (st\<lparr>ls_pending := del_key k (ls_pending st)\<rparr>)) = (r, st')"
            using Cons.prems(1) e deep Inr False by (simp add: Let_def)
          show "step_ok P st (emitReorged (pe_now pe) d (st\<lparr>ls_pending := del_key k (ls_pending st)\<rparr>))" by (rule drop_pending_ok)
        qed (auto simp: emitReorged_def del_key_set)
      next
        case True
        let ?st = "emitConfirmed (pe_now pe) d (st\<lparr>ls_pending := del_key k (ls_pending st),
            ls_confirmed := upsert k d (ls_confirmed st), ls_cumConfirmed := ls_cumConfirmed st + pd_value d\<rparr>)"
        show ?thesis
        proof (rule step)
          show "advance_pending rc pe head ds ?st = (r, st')" using Cons.prems(1) e deep Inr True by (simp add: Let_def)
          show "step_ok P st ?st" by (rule confirm_ok [OF k(3)])
          show "\<forall>x \<in> set (ls_confirmed ?st). x \<in> set (ls_confirmed st) \<or> x = (k, d) \<and> reverify rc pe st d = Inr True \<and> deep_enough head st d"
            using upsert_subset [of k d "ls_confirmed st"] de Inr True by (auto simp: emitConfirmed_def)
        qed (auto simp: emitConfirmed_def del_key_set)
      qed
    qed
  qed
qed auto

text \<open>After a confirmation pass without error every confirmed detection was verified in this very pass.\<close>

lemma confirmations_ok:
  assumes "advanceConfirmations rc pe head st = (r, st')" "orderly pe" "wf_listen st"
  shows "step_ok P st st' \<and> (r = Inr () \<longrightarrow> (\<forall>e \<in> set (ls_confirmed st'). reverify rc pe st (snd e) = Inr True))"
proof -
  obtain r1 st1 where c: "recheck_confirmed rc pe (pe_order pe (ls_confirmed st)) st = (r1, st1)" by force
  have "distinct (map fst (ls_confirmed st))" using assms(3) by (simp add: wf_accounts_def accounts_def)
  note R = recheck_ok [OF c, of P, unfolded orderly_set [OF assms(2)] orderly_distinct [OF assms(2)], OF order.refl this]
  show ?thesis
  proof (cases r1)
    case (Inl e)
    thus ?thesis using assms(1) c R by (auto simp: advanceConfirmations_def)
  next
    case (Inr u)
    hence a: "advance_pending rc pe head (pe_order pe (ls_pending st1)) st1 = (r, st')"
      using assms(1) c by (simp add: advanceConfirmations_def)
    have "wf_listen st1" using R assms(3) by (simp add: step_ok_def)
    hence "distinct (map fst (ls_pending st1))" by (simp add: wf_accounts_def accounts_def)
    note A = advance_ok [OF a, of P, unfolded orderly_set [OF assms(2)] orderly_distinct [OF assms(2)], OF order.refl this]
    have "reverify rc pe st1 = reverify rc pe st" using R by (intro reverify_settings) (simp add: step_ok_def)
    thus ?thesis using R A Inr step_ok_trans [of P st st1 st'] by fastforce
  qed
qed

section \<open>A poll\<close>

text \<open>A node whose head stays away from the end of \<open>uint64\<close> and whose log answers lie in the asked range.\<close>

definition calm_node :: "rcfg \<Rightarrow> penv \<Rightarrow> bool" where
  "calm_node cfg pe \<longleftrightarrow> ranged_logs pe \<and> (\<forall>h. pe_head pe = Inr h \<longrightarrow> unat h + unat (chunk_width cfg) < 2 ^ 64)"

definition verified :: "rcodec \<Rightarrow> penv \<Rightarrow> receiveState \<Rightarrow> bool" where
  "verified rc pe st \<longleftrightarrow> (\<forall>e \<in> set (ls_confirmed st). reverify rc pe st (snd e) = Inr True)"

text \<open>What a poll, and every sequence of polls, does to the state.\<close>

definition poll_ok :: "bool \<Rightarrow> receiveState \<Rightarrow> receiveState \<Rightarrow> bool" where
  "poll_ok c st st' \<longleftrightarrow> settings st' = settings st \<and> wf_listen st' \<and> ls_lastScanned st \<le> ls_lastScanned st' \<and>
     (c \<longrightarrow> (\<forall>e \<in> detections st'. e \<in> detections st \<or> ls_lastScanned st < pd_block (snd e)))"

lemma poll_ok_trans: "poll_ok c st st1 \<Longrightarrow> poll_ok c st1 st2 \<Longrightarrow> poll_ok c st st2"
  unfolding poll_ok_def by (metis order.trans order.strict_trans1)

lemma poll_ok_step: "wf_listen st \<Longrightarrow> step_ok (\<lambda>d. c \<longrightarrow> ls_lastScanned st < pd_block d) st st' \<Longrightarrow> poll_ok c st st'"
  by (auto simp: step_ok_def poll_ok_def)

lemma poll_ok_event:
  assumes "accounts st2 = accounts st1" "settings st2 = settings st1" "poll_ok c st st1"
  shows "poll_ok c st st2"
  using assms(2,3) accounts_eq [OF assms(1)] by (auto simp: poll_ok_def assms(1))

lemma poll_ok_mark:
  assumes "poll_ok c st st1" "wf_listen (st1\<lparr>ls_lastScanned := h\<rparr>)" "ls_lastScanned st \<le> h"
  shows "poll_ok c st (st1\<lparr>ls_lastScanned := h\<rparr>)"
proof -
  have "settings (st1\<lparr>ls_lastScanned := h\<rparr>) = settings st1" "detections (st1\<lparr>ls_lastScanned := h\<rparr>) = detections st1"
    "ls_lastScanned (st1\<lparr>ls_lastScanned := h\<rparr>) = h" by (simp_all add: settings_def detections_def)
  thus ?thesis using assms unfolding poll_ok_def by (simp only:) blast
qed

lemma completed_cong:
  assumes "accounts st' = accounts st" "settings st' = settings st"
  shows "completed st' = completed st"
proof -
  have f: "ls_mode st' = ls_mode st" "ls_targetAmount st' = ls_targetAmount st" "ls_cumConfirmed st' = ls_cumConfirmed st"
      "ls_confirmed st' = ls_confirmed st"
    using assms by (simp_all add: accounts_def settings_def)
  show ?thesis unfolding completed_def f ..
qed

lemma confirm_and_complete_ok:
  assumes "confirm_and_complete cfg rc pe head st = (r, st')" "orderly pe" "wf_listen st"
  shows "poll_ok c st st' \<and> (\<forall>res. r = Inr (Some res) \<longrightarrow> completed st' \<and> verified rc pe st' \<and>
    xr_Exit res = ExitOK \<and> xr_CumulativeConfirmed res = int_dec (ls_cumConfirmed st'))"
proof -
  obtain r1 st1 where a: "advanceConfirmations rc pe head st = (r1, st1)" by force
  note C = confirmations_ok [OF a assms(2,3)]
  have s: "poll_ok c st st1" using poll_ok_step [OF assms(3)] C by blast
  show ?thesis
  proof (cases r1)
    case (Inl e)
    thus ?thesis using assms(1) a s by (auto simp: confirm_and_complete_def)
  next
    case (Inr u)
    show ?thesis
    proof (cases "completed st1")
      case True
      let ?ev = "(zero_event EvComplete)\<lparr>xv_CumulativeConfirmed := int_dec (ls_cumConfirmed st1), xv_TxHashes := confirmedHashes st1,
          xv_LastScanned := ls_lastScanned st1, xv_Exit := Some ExitOK\<rparr>"
      have e: "r = Inr (Some (result_of st1 ''complete'' ExitOK))" "st' = emit ?ev st1"
        using assms(1) a Inr True by (auto simp: confirm_and_complete_def completeResult_def)
      have ac: "accounts st' = accounts st1" "settings st' = settings st1" by (simp_all add: e accounts_def settings_def)
      have "settings st1 = settings st" using s by (simp add: poll_ok_def)
      hence "verified rc pe st1" using C Inr reverify_settings [of st1 st] by (simp add: verified_def)
      hence "verified rc pe st'" using accounts_eq [OF ac(1)] reverify_settings [OF ac(2)] by (simp add: verified_def)
      moreover have "completed st'" using True completed_cong [OF ac] by simp
      ultimately show ?thesis using poll_ok_event [OF ac s] e by (simp add: result_of_def)
    next
      case False
      hence "r = Inr None" "st' = maybeHeartbeat cfg (pe_now pe) st1" using assms(1) a Inr by (auto simp: confirm_and_complete_def)
      thus ?thesis using poll_ok_event [OF event_accounts(5) event_settings(5) s] by simp
    qed
  qed
qed

lemma receiveStep_ok:
  assumes "receiveStep cfg rc pe st = Some (r, st')" "orderly pe" "wf_listen st"
  shows "poll_ok (calm_node cfg pe) st st' \<and> (\<forall>res. r = Inr (Some res) \<longrightarrow> completed st' \<and> verified rc pe st' \<and>
    xr_Exit res = ExitOK \<and> xr_CumulativeConfirmed res = int_dec (ls_cumConfirmed st'))"
proof (cases "pe_head pe")
  case (Inl e)
  thus ?thesis using assms by (auto simp: receiveStep_def poll_ok_def)
next
  case (Inr head)
  show ?thesis
  proof (cases "head > ls_lastScanned st")
    case False
    hence "confirm_and_complete cfg rc pe head st = (r, st')" using assms(1) Inr by (simp add: receiveStep_def)
    thus ?thesis by (rule confirm_and_complete_ok [OF _ assms(2,3)])
  next
    case True
    let ?lo = "ls_lastScanned st + 1"
    have lo: "?lo \<le> head" "ls_lastScanned st < ?lo"
      using unat_next [OF True] True by (simp_all add: word_le_nat_alt word_less_nat_alt)
    obtain r1 st1 where y: "scanRange cfg rc pe ?lo head st = Some (r1, st1)"
      using assms(1) Inr True by (auto simp: receiveStep_def split: option.split_asm prod.split_asm)
    have "step_ok (\<lambda>d. ranged_logs pe \<and> unat head + unat (chunk_width cfg) < 2 ^ 64 \<longrightarrow> ?lo \<le> pd_block d) st st1"
      using scanRange_ok [OF y lo(1)] by simp
    hence "step_ok (\<lambda>d. calm_node cfg pe \<longrightarrow> ls_lastScanned st < pd_block d) st st1"
    proof (rule step_ok_mono, intro impI)
      fix d
      assume "ranged_logs pe \<and> unat head + unat (chunk_width cfg) < 2 ^ 64 \<longrightarrow> ?lo \<le> pd_block d" "calm_node cfg pe"
      hence "?lo \<le> pd_block d" using Inr by (simp add: calm_node_def)
      thus "ls_lastScanned st < pd_block d" using lo(2) by (rule order.strict_trans2 [rotated])
    qed
    hence p1: "poll_ok (calm_node cfg pe) st st1" by (rule poll_ok_step [OF assms(3)])
    show ?thesis
    proof (cases r1)
      case (Inl e)
      thus ?thesis using assms(1) \<open>pe_head pe = Inr head\<close> True y p1 by (auto simp: receiveStep_def)
    next
      case (Inr u)
      let ?st = "st1\<lparr>ls_lastScanned := head\<rparr>"
      have c: "confirm_and_complete cfg rc pe head ?st = (r, st')"
        using assms(1) \<open>pe_head pe = Inr head\<close> True y Inr by (simp add: receiveStep_def)
      have w: "wf_listen ?st" using p1 wf_rescan by (auto simp: poll_ok_def accounts_def)
      have "poll_ok (calm_node cfg pe) st ?st" by (rule poll_ok_mark [OF p1 w less_imp_le [OF True]])
      thus ?thesis using confirm_and_complete_ok [OF c assms(2) w] poll_ok_trans by blast
    qed
  qed
qed

section \<open>The loop\<close>

lemma resume_emit [simp]: "resumeCommand (emit e st) = resumeCommand st"
proof -
  have f: "remaining (emit e st) = remaining st" unfolding remaining_def emit_simps ..
  have g: "ls_accountRef (emit e st) = ls_accountRef st" by (simp add: emit_def)
  show ?thesis unfolding resumeCommand_def humanAmount_def f g emit_simps ..
qed

lemma poll_end_ok:
  assumes "poll_end deadline pe st = Some (res, st')"
  shows "xr_Exit res = ExitTimeoutPending" "accounts st' = accounts st" "settings st' = settings st" "xr_Resume res = resumeCommand st'"
    "xr_CumulativeConfirmed res = int_dec (ls_cumConfirmed st')"
proof -
  from assms have e: "(res, st') = timeoutResult st" by (auto simp: poll_end_def split: if_split_asm)
  thus "xr_Exit res = ExitTimeoutPending" "accounts st' = accounts st" "settings st' = settings st"
    "xr_CumulativeConfirmed res = int_dec (ls_cumConfirmed st')"
    by (simp_all add: timeoutResult_def result_of_def accounts_def settings_def)
  show "xr_Resume res = resumeCommand st'" using e by (simp add: timeoutResult_def resume_emit)
qed

text \<open>How a listen ends: completed and verified in its last poll, or timed out, or with an error.\<close>

lemma receiveLoop_ok:
  assumes "receiveLoop cfg rc deadline pes st = Some (r, st')" "\<forall>pe \<in> set pes. orderly pe" "wf_listen st"
  shows "poll_ok (\<forall>pe \<in> set pes. calm_node cfg pe) st st' \<and> (\<forall>res. r = Inr res \<longrightarrow>
    xr_CumulativeConfirmed res = int_dec (ls_cumConfirmed st') \<and>
    (xr_Exit res = ExitOK \<and> completed st' \<and> (\<exists>pe \<in> set pes. verified rc pe st') \<or>
     xr_Exit res = ExitTimeoutPending \<and> xr_Resume res = resumeCommand st'))"
  using assms
proof (induction pes arbitrary: st)
  case (Cons pe pes)
  let ?c = "\<forall>pe \<in> set (pe # pes). calm_node cfg pe"
  obtain r1 st1 where s: "receiveStep cfg rc pe st = Some (r1, st1)"
    using Cons.prems(1) by (auto split: option.split_asm prod.split_asm)
  note S = receiveStep_ok [OF s]
  have p1: "poll_ok ?c st st1" using S Cons.prems(2,3) by (auto simp: poll_ok_def)
  have w1: "wf_listen st1" using p1 by (simp add: poll_ok_def)
  have loop: ?case if p2: "poll_ok ?c st st2" and q2: "(case poll_end deadline pe st2 of Some (res, st3) \<Rightarrow> Some (Inr res, st3)
        | None \<Rightarrow> receiveLoop cfg rc deadline pes st2) = Some (r, st')" for st2
  proof (cases "poll_end deadline pe st2")
    case None
    have "wf_listen st2" using p2 by (simp add: poll_ok_def)
    from Cons.IH [OF _ _ this] have "poll_ok (\<forall>pe \<in> set pes. calm_node cfg pe) st2 st' \<and> (\<forall>res. r = Inr res \<longrightarrow>
        xr_CumulativeConfirmed res = int_dec (ls_cumConfirmed st') \<and>
        (xr_Exit res = ExitOK \<and> completed st' \<and> (\<exists>pe \<in> set pes. verified rc pe st') \<or>
         xr_Exit res = ExitTimeoutPending \<and> xr_Resume res = resumeCommand st'))"
      using q2 None Cons.prems(2) by simp
    moreover from this have "poll_ok ?c st2 st'" by (auto simp: poll_ok_def)
    ultimately show ?thesis using poll_ok_trans [OF p2] by auto
  next
    case (Some q)
    obtain res where q: "q = (res, st')" "r = Inr res" using q2 Some by (cases q) auto
    note E = poll_end_ok [OF Some [unfolded q(1)]]
    show ?thesis using poll_ok_event [OF E(2,3) p2] E q by auto
  qed
  show ?case
  proof (cases r1)
    case (Inl e)
    show ?thesis
    proof (cases "isRetryableRPC e")
      case False
      thus ?thesis using Cons.prems(1) s Inl p1 by auto
    next
      case True
      have "poll_ok ?c st (maybeHeartbeat cfg (pe_now pe) st1)"
        by (rule poll_ok_event [OF event_accounts(5) event_settings(5) p1])
      thus ?thesis by (rule loop) (use Cons.prems(1) s Inl True in \<open>simp add: Let_def\<close>)
    qed
  next
    case (Inr o1)
    show ?thesis
    proof (cases o1)
      case None
      show ?thesis by (rule loop [OF p1]) (use Cons.prems(1) s Inr None in simp)
    next
      case (Some res)
      hence "r = Inr res" "st' = st1" using Cons.prems(1) s Inr by simp_all
      thus ?thesis using S Cons.prems(2,3) p1 Inr Some by auto
    qed
  qed
qed simp

end
