(* ===== verification/Receive_Ledger.thy ===== *)
theory Receive_Ledger
  imports Receive_Safety
begin

text \<open>
  The ETH ledger of a listen: the sums of the block scan, the exact meaning of the residue that becomes a balance-delta
  detection, and a listen on an account that only spends, whose first window overlaps the baseline.
\<close>

section \<open>Sums of the block scan\<close>

definition inflow :: "address \<Rightarrow> EthTx list \<Rightarrow> int" where
  "inflow addr txs = (\<Sum>tx \<leftarrow> txs. if et_To tx = Some addr \<and> et_Value tx > 0 then et_Value tx else 0)"

definition outflow :: "address \<Rightarrow> EthTx list \<Rightarrow> int" where
  "outflow addr txs = (\<Sum>tx \<leftarrow> txs. if senderOrZero tx = addr then et_Value tx else 0)"

definition own_hashes :: "address \<Rightarrow> EthTx list \<Rightarrow> string list" where
  "own_hashes addr txs = map et_Hash (filter (\<lambda>tx. senderOrZero tx = addr) txs)"

lemma scan_fold:
  "sc_directIn (fold (scan_tx addr) txs s) = sc_directIn s + inflow addr txs \<and>
   sc_ownOut (fold (scan_tx addr) txs s) = sc_ownOut s + outflow addr txs \<and>
   sc_ownTxs (fold (scan_tx addr) txs s) = sc_ownTxs s @ own_hashes addr txs \<and>
   sc_block (fold (scan_tx addr) txs s) = sc_block s"
proof (induction txs arbitrary: s)
  case (Cons tx txs)
  show ?case using Cons.IH [of "scan_tx addr tx s"] by (simp add: scan_tx_def Let_def inflow_def outflow_def own_hashes_def)
qed (simp add: inflow_def outflow_def own_hashes_def)

definition block_txs :: "EthBlock option \<Rightarrow> EthTx list" where
  "block_txs b = (case b of None \<Rightarrow> [] | Some b \<Rightarrow> eb_Txs b)"

lemma scanETHBlock_sums:
  assumes "scanETHBlock addr answer = Inr sc"
  shows "answer = Inr (sc_block sc)" "sc_directIn sc = inflow addr (block_txs (sc_block sc))"
    "sc_ownOut sc = outflow addr (block_txs (sc_block sc))" "sc_ownTxs sc = own_hashes addr (block_txs (sc_block sc))"
  using assms scan_fold by (auto simp: scanETHBlock_def block_txs_def split: sum.split_asm)

definition fee_of :: "(string \<Rightarrow> receipt_answer) \<Rightarrow> EthBlock option \<Rightarrow> string \<Rightarrow> int" where
  "fee_of Rcpt blk h = (case Rcpt h of Inr (Some r) \<Rightarrow> own_fee blk h r | _ \<Rightarrow> 0)"

lemma ownFees_sum: "ownFeesActual Rcpt blk hs acc = Inr v \<Longrightarrow> v = acc + (\<Sum>h \<leftarrow> hs. fee_of Rcpt blk h)"
proof (induction hs arbitrary: acc)
  case (Cons h hs)
  then obtain r where r: "Rcpt h = Inr (Some r)" "ownFeesActual Rcpt blk hs (acc + own_fee blk h r) = Inr v"
    by (auto split: sum.split_asm option.split_asm)
  show ?case using Cons.IH [OF r(2)] r(1) by (simp add: fee_of_def)
qed simp

text \<open>The blocks of a window, in scanning order, and the node's block at a height.\<close>

definition window :: "64 word \<Rightarrow> 64 word \<Rightarrow> 64 word list" where
  "window lo hi = map word_of_nat [unat lo ..< Suc (unat hi)]"

definition block_at :: "penv \<Rightarrow> 64 word \<Rightarrow> EthBlock option" where
  "block_at pe n = (case pe_block pe n of Inr b \<Rightarrow> b | _ \<Rightarrow> None)"

abbreviation "txs_at pe n \<equiv> block_txs (block_at pe n)"

definition block_fees :: "penv \<Rightarrow> address \<Rightarrow> 64 word \<Rightarrow> int" where
  "block_fees pe addr n = (\<Sum>h \<leftarrow> own_hashes addr (txs_at pe n). fee_of (pe_feeReceipt pe) (block_at pe n) h)"

lemma window_step: "n < hi \<Longrightarrow> window n hi = n # window (n + 1) hi"
proof -
  assume l: "n < hi"
  hence "unat n < unat hi" "unat (n + 1) = unat n + 1" using unat_next by auto
  thus ?thesis by (simp add: window_def upt_rec [of "unat n"])
qed

lemma window_last: "window n n = [n]"
  by (simp add: window_def)

lemma scan_blocks_sums:
  assumes "scan_blocks pe hi n (di, oo, fe) st = (Inr (di', oo', fe'), st')" "n \<le> hi"
  shows "di' = di + (\<Sum>m \<leftarrow> window n hi. inflow (ls_addr st) (txs_at pe m)) \<and>
    oo' = oo + (\<Sum>m \<leftarrow> window n hi. outflow (ls_addr st) (txs_at pe m)) \<and>
    fe' = fe + (\<Sum>m \<leftarrow> window n hi. block_fees pe (ls_addr st) m)"
  using assms
proof (induction "unat hi - unat n" arbitrary: n di oo fe st rule: less_induct)
  case (less n di oo fe st)
  have le: "\<not> hi < n" using less.prems(2) by simp
  obtain sc where sc: "scanETHBlock (ls_addr st) (pe_block pe n) = Inr sc"
    using less.prems(1) le by (auto simp: scan_blocks.simps [of pe hi n] split: sum.split_asm)
  define st1 where "st1 = fold (\<lambda>i. recordDetection (pe_now pe) (inbound_pending n sc i)) (sc_inbound sc) st"
  obtain fees where f: "(if sc_ownTxs sc = [] then Inr 0 else ownFeesActual (pe_feeReceipt pe) (sc_block sc) (sc_ownTxs sc) 0) = Inr fees"
    using less.prems(1) le sc by (auto simp: scan_blocks.simps [of pe hi n] Let_def split: sum.split_asm if_split_asm)
  have step: "scan_blocks pe hi n (di, oo, fe) st = (let acc' = (di + sc_directIn sc, oo + sc_ownOut sc, fe + fees) in
      if n = hi then (Inr acc', st1) else scan_blocks pe hi (n + 1) acc' st1)"
    using le sc f by (subst scan_blocks.simps) (simp add: st1_def Let_def)
  note S = scanETHBlock_sums [OF sc]
  have b: "block_at pe n = sc_block sc" using S(1) by (simp add: block_at_def)
  have fv: "fees = block_fees pe (ls_addr st) n"
    using f ownFees_sum [of "pe_feeReceipt pe" "sc_block sc" "sc_ownTxs sc" 0 fees] S(4) b by (auto simp: block_fees_def split: if_split_asm)
  have "step_ok (\<lambda>_. True) st st1" unfolding st1_def
    by (rule fold_record_ok) (use scan_inbound_positive [OF sc] in \<open>auto simp: inbound_pending_def\<close>)
  hence addr: "ls_addr st1 = ls_addr st" by (simp add: step_ok_def settings_def)
  show ?case
  proof (cases "n = hi")
    case True
    thus ?thesis using less.prems(1) step S fv b by (simp add: window_last Let_def)
  next
    case False
    hence lt: "n < hi" using less.prems(2) by simp
    have "unat hi - unat (n + 1) < unat hi - unat n" "n + 1 \<le> hi" using unat_next [OF lt] by (auto simp: word_le_nat_alt)
    note IH = less.hyps [OF this(1) _ this(2)]
    have "scan_blocks pe hi (n + 1) (di + sc_directIn sc, oo + sc_ownOut sc, fe + fees) st1 = (Inr (di', oo', fe'), st')"
      using less.prems(1) step False by (simp add: Let_def)
    from IH [OF this] show ?thesis by (simp add: window_step [OF lt] addr S fv b)
  qed
qed

section \<open>The residue\<close>

text \<open>What a window does to the balance by transactions of which \<open>ok\<close> succeeded: only a successful transaction moves its
  value, every own one pays its fee.\<close>

definition moved_in :: "(EthTx \<Rightarrow> bool) \<Rightarrow> penv \<Rightarrow> address \<Rightarrow> 64 word \<Rightarrow> int" where
  "moved_in ok pe addr n = inflow addr (filter ok (txs_at pe n))"

definition moved_out :: "(EthTx \<Rightarrow> bool) \<Rightarrow> penv \<Rightarrow> address \<Rightarrow> 64 word \<Rightarrow> int" where
  "moved_out ok pe addr n = outflow addr (filter ok (txs_at pe n))"

lemma flow_split: "inflow addr txs = inflow addr (filter ok txs) + inflow addr (filter (\<lambda>tx. \<not> ok tx) txs)"
  "outflow addr txs = outflow addr (filter ok txs) + outflow addr (filter (\<lambda>tx. \<not> ok tx) txs)"
  by (induction txs) (auto simp: inflow_def outflow_def)

lemma recordDetection_adds:
  "detections (recordDetection n d st) \<subseteq> insert (key d, d) (detections st)"
  using upsert_subset [of "key d" d "ls_pending st"]
  by (auto simp: recordDetection_def Let_def detections_def emitDetected_def)

lemma recordDetection_baseline [simp]: "ls_ethBaseline (recordDetection n d st) = ls_ethBaseline st"
  by (simp add: recordDetection_def Let_def emitDetected_def)

lemma fold_record_baseline: "ls_ethBaseline (fold (\<lambda>i. recordDetection n (f i)) is st) = ls_ethBaseline st"
  by (induction "is" arbitrary: st) simp_all

lemma scan_blocks_baseline: "scan_blocks pe hi n acc st = (r, st') \<Longrightarrow> ls_ethBaseline st' = ls_ethBaseline st"
proof (induction "unat hi - unat n" arbitrary: n acc st rule: less_induct)
  case (less n acc st)
  note run = less.prems [unfolded scan_blocks.simps [of pe hi n acc st] Let_def]
  show ?case
  proof (cases "n < hi")
    case True
    have m: "unat hi - unat (n + 1) < unat hi - unat n" using unat_next [OF True] by auto
    show ?thesis using run True less.hyps [OF m]
      by (simp split: sum.split_asm if_split_asm prod.split_asm) (metis fold_record_baseline Pair_inject)+
  next
    case False
    thus ?thesis using run by (auto simp: fold_record_baseline split: sum.split_asm if_split_asm prod.split_asm)
  qed
qed

text \<open>C15. The residue that a poll reports as an unattributed inbound is exactly the inflow that no transaction of the window
  explains, plus the value of the own transactions that failed, minus the value of the failed inbound ones, when the balance
  moved from the baseline by what the successful transactions of the window, the own fees and that inflow account for.  So a
  failed own transaction of value \<open>v\<close> is reported as \<open>v\<close> received.\<close>

theorem eth_residue_exact:
  fixes internal :: int
  assumes "scanRangeETH pe lo hi st = (Inr (), st')" "lo \<le> hi" "pe_balance pe hi = Inr bal"
    "bal = ls_ethBaseline st + (\<Sum>n \<leftarrow> window lo hi. moved_in ok pe (ls_addr st) n - moved_out ok pe (ls_addr st) n - block_fees pe (ls_addr st) n) + internal"
  defines "residue \<equiv> internal + (\<Sum>n \<leftarrow> window lo hi. moved_out (\<lambda>tx. \<not> ok tx) pe (ls_addr st) n) - (\<Sum>n \<leftarrow> window lo hi. moved_in (\<lambda>tx. \<not> ok tx) pe (ls_addr st) n)"
  shows "ls_ethBaseline st' = bal \<and> (\<exists>acc st1. scan_blocks pe hi lo (0, 0, 0) st = (Inr acc, st1) \<and>
    ls_pending st' = (if residue > 0 then ls_pending (recordDetection (pe_now pe) (delta_pending hi residue) (st1\<lparr>ls_ethBaseline := bal\<rparr>))
      else ls_pending st1))"
proof -
  obtain di oo fe st1 where b: "scan_blocks pe hi lo (0, 0, 0) st = (Inr (di, oo, fe), st1)"
    using assms(1) by (auto simp: scanRangeETH_def split: prod.split_asm sum.split_asm)
  have base: "ls_ethBaseline st1 = ls_ethBaseline st" by (rule scan_blocks_baseline [OF b])
  have s: "di = (\<Sum>m \<leftarrow> window lo hi. inflow (ls_addr st) (txs_at pe m))" "oo = (\<Sum>m \<leftarrow> window lo hi. outflow (ls_addr st) (txs_at pe m))"
    "fe = (\<Sum>m \<leftarrow> window lo hi. block_fees pe (ls_addr st) m)" using scan_blocks_sums [OF b assms(2)] by simp_all
  have "bal - ls_ethBaseline st1 - di + oo + fe = residue"
  proof -
    have sm: "(\<Sum>n \<leftarrow> ns. moved_in ok pe a n - moved_out ok pe a n - block_fees pe a n) - (\<Sum>m \<leftarrow> ns. inflow a (txs_at pe m))
        + (\<Sum>m \<leftarrow> ns. outflow a (txs_at pe m)) + (\<Sum>m \<leftarrow> ns. block_fees pe a m) =
        (\<Sum>n \<leftarrow> ns. moved_out (\<lambda>tx. \<not> ok tx) pe a n) - (\<Sum>n \<leftarrow> ns. moved_in (\<lambda>tx. \<not> ok tx) pe a n)" for ns a
    proof (induction ns)
      case (Cons n ns)
      have "inflow a (txs_at pe n) = moved_in ok pe a n + moved_in (\<lambda>tx. \<not> ok tx) pe a n"
        "outflow a (txs_at pe n) = moved_out ok pe a n + moved_out (\<lambda>tx. \<not> ok tx) pe a n"
        using flow_split [of a "txs_at pe n" ok] by (simp_all add: moved_in_def moved_out_def)
      thus ?case using Cons.IH by simp
    qed simp
    show ?thesis using sm [where ns = "window lo hi" and a = "ls_addr st"] s base assms(4) by (simp add: residue_def)
  qed
  hence bd: "balanceDelta (ls_ethBaseline st1) bal di oo fe = (if residue < 0 then (0, True, bal) else (residue, False, bal))"
    by (simp add: balanceDelta_def)
  show ?thesis
    using assms(1,3) b bd by (auto simp: scanRangeETH_def Let_def emitBalanceDeltaWarn_def recordDetection_def emitDetected_def split: if_split_asm)
qed

section \<open>An account that only spends\<close>

text \<open>A chain on which nothing arrives at address \<open>a\<close> from block \<open>h\<close> on: \<open>chain\<close> holds the blocks, \<open>fr\<close> the receipts of the account's own
  transactions, and the balance goes down, block after block, by exactly the values and the fees of those transactions.\<close>

definition spent :: "(64 word \<Rightarrow> EthBlock option) \<Rightarrow> (string \<Rightarrow> receipt_answer) \<Rightarrow> address \<Rightarrow> 64 word \<Rightarrow> int" where
  "spent chain fr a n = outflow a (block_txs (chain n)) + (\<Sum>h \<leftarrow> own_hashes a (block_txs (chain n)). fee_of fr (chain n) h)"

definition only_spends :: "(64 word \<Rightarrow> EthBlock option) \<Rightarrow> (string \<Rightarrow> receipt_answer) \<Rightarrow> (64 word \<Rightarrow> int) \<Rightarrow> address \<Rightarrow> 64 word \<Rightarrow> bool" where
  "only_spends chain fr bal a h \<longleftrightarrow> (\<forall>n \<ge> h. (\<forall>tx \<in> set (block_txs (chain n)). et_To tx \<noteq> Some a)
     \<and> (\<forall>x \<in> set (own_hashes a (block_txs (chain n))). \<exists>r. fr x = Inr (Some r)))
     \<and> (\<forall>n \<ge> h. n + 1 \<noteq> 0 \<longrightarrow> bal (n + 1) = bal n - spent chain fr a (n + 1))"

text \<open>A poll of a node that answers every question from that chain.\<close>

definition sees :: "(64 word \<Rightarrow> EthBlock option) \<Rightarrow> (string \<Rightarrow> receipt_answer) \<Rightarrow> (64 word \<Rightarrow> int) \<Rightarrow> 64 word \<Rightarrow> penv \<Rightarrow> bool" where
  "sees chain fr bal h pe \<longleftrightarrow> (\<exists>n \<ge> h. pe_head pe = Inr n) \<and> (\<forall>n \<ge> h. pe_block pe n = Inr (chain n)) \<and> pe_feeReceipt pe = fr
     \<and> (\<forall>n \<ge> h. pe_balance pe n = Inr (bal n)) \<and> orderly pe \<and> pe_sleep pe = None"

lemma ownFees_all:
  "\<forall>x \<in> set hs. \<exists>r. fr x = Inr (Some r) \<Longrightarrow> ownFeesActual fr blk hs acc = Inr (acc + (\<Sum>h \<leftarrow> hs. fee_of fr blk h))"
proof (induction hs arbitrary: acc)
  case (Cons x hs)
  then obtain r where "fr x = Inr (Some r)" by auto
  thus ?case using Cons.IH [of "acc + own_fee blk x r"] Cons.prems by (simp add: fee_of_def)
qed simp

lemma no_inbound:
  "\<forall>tx \<in> set txs. et_To tx \<noteq> Some a \<Longrightarrow> sc_inbound (fold (scan_tx a) txs s) = sc_inbound s \<and> inflow a txs = 0"
proof (induction txs arbitrary: s)
  case (Cons tx txs)
  thus ?case using Cons.IH [of "scan_tx a tx s"] by (simp add: scan_tx_def Let_def inflow_def)
qed (simp add: inflow_def)

lemma scan_spender:
  assumes "only_spends chain fr bal (ls_addr st) h" "sees chain fr bal h pe" "h \<le> n" "n \<le> hi"
  shows "\<exists>oo' fe'. scan_blocks pe hi n (di, oo, fe) st = (Inr (di, oo', fe'), st) \<and>
    oo' + fe' = oo + fe + (\<Sum>m \<leftarrow> window n hi. spent chain fr (ls_addr st) m)"
  using assms(3,4)
proof (induction "unat hi - unat n" arbitrary: n oo fe rule: less_induct)
  case (less n oo fe)
  let ?a = "ls_addr st" and ?txs = "block_txs (chain n)"
  define sc where "sc = fold (scan_tx ?a) ?txs \<lparr>sc_directIn = 0, sc_inbound = [], sc_ownOut = 0, sc_ownTxs = [], sc_block = chain n\<rparr>"
  have w: "\<forall>tx \<in> set ?txs. et_To tx \<noteq> Some ?a" "\<forall>x \<in> set (own_hashes ?a ?txs). \<exists>r. fr x = Inr (Some r)"
    using assms(1) less.prems(1) unfolding only_spends_def by blast+
  have blk: "scanETHBlock ?a (pe_block pe n) = Inr sc" using assms(2) less.prems(1) by (simp add: sees_def scanETHBlock_def sc_def block_txs_def)
  have f: "sc_directIn sc = 0" "sc_inbound sc = []" "sc_ownOut sc = outflow ?a ?txs" "sc_ownTxs sc = own_hashes ?a ?txs" "sc_block sc = chain n"
    using no_inbound [OF w(1)] by (simp_all add: sc_def scan_fold)
  define fees where "fees = (\<Sum>x \<leftarrow> own_hashes ?a ?txs. fee_of fr (chain n) x)"
  have fe: "(if sc_ownTxs sc = [] then Inr 0 else ownFeesActual (pe_feeReceipt pe) (sc_block sc) (sc_ownTxs sc) 0) = Inr fees"
    using ownFees_all [OF w(2)] assms(2) by (simp add: f sees_def fees_def)
  have le: "\<not> hi < n" using less.prems(2) by simp
  have sp: "spent chain fr ?a n = outflow ?a ?txs + fees" by (simp add: spent_def fees_def)
  have step: "scan_blocks pe hi n (di, oo, fe) st = (if n = hi then (Inr (di, oo + outflow ?a ?txs, fe + fees), st)
      else scan_blocks pe hi (n + 1) (di, oo + outflow ?a ?txs, fe + fees) st)"
    using le by (subst scan_blocks.simps) (simp add: blk fe f(1-3) Let_def)
  show ?case
  proof (cases "n = hi")
    case True
    thus ?thesis using step sp by (simp add: window_last)
  next
    case False
    hence lt: "n < hi" using less.prems(2) by simp
    have m: "unat hi - unat (n + 1) < unat hi - unat n" "n + 1 \<le> hi" "h \<le> n + 1"
      using unat_next [OF lt] lt less.prems(1) by (auto simp: word_le_nat_alt word_less_nat_alt)
    show ?thesis using less.hyps [OF m(1,3,2), of "oo + outflow ?a ?txs" "fe + fees"] step False sp by (auto simp: window_step [OF lt])
  qed
qed

lemma balance_telescope:
  assumes "only_spends chain fr bal a h" "h \<le> n" "n \<le> hi"
  shows "bal hi = bal n + spent chain fr a n - (\<Sum>m \<leftarrow> window n hi. spent chain fr a m)"
  using assms(2,3)
proof (induction "unat hi - unat n" arbitrary: n rule: less_induct)
  case (less n)
  show ?case
  proof (cases "n = hi")
    case True
    thus ?thesis by (simp add: window_last)
  next
    case False
    hence lt: "n < hi" using less.prems(2) by simp
    have u: "unat (n + 1) = unat n + 1" using unat_next [OF lt] by simp
    have m: "unat hi - unat (n + 1) < unat hi - unat n" "n + 1 \<le> hi" "h \<le> n + 1" "n + 1 \<noteq> 0"
      using u lt less.prems(1) by (auto simp: word_le_nat_alt word_less_nat_alt dest: arg_cong [where f = unat])
    have "bal (n + 1) = bal n - spent chain fr a (n + 1)" using assms(1) less.prems(1) m(4) unfolding only_spends_def by blast
    thus ?thesis using less.hyps [OF m(1,3,2)] by (simp add: window_step [OF lt])
  qed
qed

lemma range_spender:
  assumes "only_spends chain fr bal (ls_addr st) h" "sees chain fr bal h pe" "h \<le> lo" "lo \<le> hi"
    and "ls_ethBaseline st = bal lo + due" "0 \<le> spent chain fr (ls_addr st) lo - due"
  shows "scanRangeETH pe lo hi st = (Inr (), if spent chain fr (ls_addr st) lo - due = 0 then st\<lparr>ls_ethBaseline := bal hi\<rparr>
    else recordDetection (pe_now pe) (delta_pending hi (spent chain fr (ls_addr st) lo - due)) (st\<lparr>ls_ethBaseline := bal hi\<rparr>))"
proof -
  let ?s = "\<Sum>m \<leftarrow> window lo hi. spent chain fr (ls_addr st) m"
  obtain oo fe where b: "scan_blocks pe hi lo (0, 0, 0) st = (Inr (0, oo, fe), st)" "oo + fe = 0 + 0 + ?s"
    using scan_spender [OF assms(1-4), of 0 0 0] by blast
  have hi: "pe_balance pe hi = Inr (bal hi)" using assms(2-4) by (simp add: sees_def)
  have "bal hi - ls_ethBaseline st + oo + fe = spent chain fr (ls_addr st) lo - due"
    using balance_telescope [OF assms(1,3,4)] b(2) assms(5) by simp
  thus ?thesis using assms(6) by (simp add: scanRangeETH_def b(1) hi balanceDelta_def Let_def)
qed

text \<open>A listen for any inbound that waits for the confirmations of a single balance-delta detection of value \<open>v\<close> at block \<open>b\<close>.\<close>

definition waiting :: "(64 word \<Rightarrow> int) \<Rightarrow> address \<Rightarrow> 64 word \<Rightarrow> 64 word \<Rightarrow> int \<Rightarrow> receiveState \<Rightarrow> bool" where
  "waiting bal a t b v st \<longleftrightarrow> ls_pending st = [(key (delta_pending b v), delta_pending b v)] \<and> ls_confirmed st = [] \<and> ls_cumConfirmed st = 0
     \<and> ls_confTarget st = t \<and> ls_mode st = ModeAny \<and> isETH (ls_asset st) \<and> ls_addr st = a
     \<and> ls_ethBaseline st = bal (ls_lastScanned st) \<and> b \<le> ls_lastScanned st"

text \<open>Head \<open>n\<close> gives block \<open>b\<close> its \<open>t\<close> confirmations.\<close>

definition deep :: "64 word \<Rightarrow> 64 word \<Rightarrow> 64 word \<Rightarrow> bool" where
  "deep t b n \<longleftrightarrow> b \<le> n \<and> t \<le> n - b + 1"

lemma orderly_small: "orderly pe \<Longrightarrow> pe_order pe [] = []" "orderly pe \<Longrightarrow> pe_order pe [x] = [x]"
  by (auto simp: orderly_def dest: spec [of _ "[]"], metis mset_single_iff_right mset.simps mset_single_iff)

lemma confirm_deep:
  assumes "waiting bal a t b v st" "orderly pe" "0 < v" "deep t b n"
  shows "\<exists>res st'. confirm_and_complete cfg rc pe n st = (Inr (Some res), st') \<and> xr_Exit res = ExitOK \<and> xr_CumulativeConfirmed res = int_dec v
    \<and> ls_cumConfirmed st' = v"
proof -
  let ?d = "delta_pending b v"
  have w: "ls_pending st = [(key ?d, ?d)]" "ls_confirmed st = []" "ls_cumConfirmed st = 0" "ls_confTarget st = t" "ls_mode st = ModeAny"
    using assms(1) by (simp_all add: waiting_def)
  define st1 where "st1 = emitConfirmed (pe_now pe) ?d (st\<lparr>ls_pending := [], ls_confirmed := [(key ?d, ?d)], ls_cumConfirmed := v\<rparr>)"
  have d: "pd_block ?d = b" "pd_value ?d = v" "reverify rc pe st ?d = Inr True" by (simp_all add: delta_pending_def reverify_def)
  have "\<not> n < b" "\<not> n - b + 1 < t" using assms(4) by (auto simp: deep_def)
  hence a: "advanceConfirmations rc pe n st = (Inr (), st1)"
    by (simp add: advanceConfirmations_def orderly_small [OF assms(2)] w d del_key_def st1_def Let_def)
  have c: "completed st1" "ls_cumConfirmed st1 = v" using assms(3) w by (simp_all add: completed_def st1_def emitConfirmed_def)
  show ?thesis using a c by (simp add: confirm_and_complete_def completeResult_def result_of_def)
qed

lemma confirm_shallow:
  assumes "waiting bal a t b v st" "orderly pe" "\<not> deep t b n"
  shows "\<exists>st'. confirm_and_complete cfg rc pe n st = (Inr None, st') \<and> waiting bal a t b v st'"
proof -
  let ?d = "delta_pending b v"
  have w: "ls_pending st = [(key ?d, ?d)]" "ls_confirmed st = []" "ls_cumConfirmed st = 0" "ls_confTarget st = t" "ls_mode st = ModeAny"
    using assms(1) by (simp_all add: waiting_def)
  have d: "pd_block ?d = b" by (simp add: delta_pending_def)
  define st1 where "st1 = (if n < b then st else emitConfirming (pe_now pe) ?d (n - b + 1) st)"
  have "n < b \<or> n - b + 1 < t" using assms(3) by (auto simp: deep_def)
  hence "advance_pending rc pe n [(key ?d, ?d)] st = (Inr (), st1)" by (auto simp: d w st1_def)
  hence a: "advanceConfirmations rc pe n st = (Inr (), st1)" "waiting bal a t b v st1"
    using assms(1) by (simp_all add: advanceConfirmations_def orderly_small [OF assms(2)] w emitConfirming_def waiting_def st1_def)
  have c: "\<not> completed st1" using a(2) by (simp add: waiting_def completed_def)
  have "waiting bal a t b v (maybeHeartbeat cfg (pe_now pe) st1)" using a(2) by (simp add: waiting_def maybeHeartbeat_def)
  thus ?thesis using a(1) c by (simp add: confirm_and_complete_def)
qed

text \<open>From the confirmation step of one poll to the end of the listen.\<close>

lemma listen_from:
  assumes "only_spends chain fr bal a h" "0 < v" "h \<le> b" "\<forall>pe \<in> set (first # pes). sees chain fr bal h pe" "pe_head first = Inr n"
    and "\<exists>pe \<in> set (first # pes). \<exists>m. pe_head pe = Inr m \<and> deep t b m"
    and "waiting bal a t b v st" "receiveStep cfg rc first st0 = Some (confirm_and_complete cfg rc first n st)"
  shows "\<exists>res st'. receiveLoop cfg rc None (first # pes) st0 = Some (Inr res, st') \<and> xr_Exit res = ExitOK \<and> xr_CumulativeConfirmed res = int_dec v
    \<and> ls_cumConfirmed st' = v"
  using assms(4-8)
proof (induction pes arbitrary: first st0 st n)
  case (Cons pe1 pes)
  have ord: "orderly first" "pe_sleep first = None" using Cons.prems(1) by (simp_all add: sees_def)
  show ?case
  proof (cases "deep t b n")
    case True
    thus ?thesis using confirm_deep [OF Cons.prems(4) ord(1) assms(2) True, of cfg rc] Cons.prems(5) by auto
  next
    case False
    obtain st1 where c: "confirm_and_complete cfg rc first n st = (Inr None, st1)" "waiting bal a t b v st1"
      using confirm_shallow [OF Cons.prems(4) ord(1) False] by blast
    obtain m where m: "h \<le> m" "pe_head pe1 = Inr m" using Cons.prems(1) by (auto simp: sees_def)
    have se: "sees chain fr bal h pe1" using Cons.prems(1) by simp
    have w: "ls_addr st1 = a" "isETH (ls_asset st1)" "ls_ethBaseline st1 = bal (ls_lastScanned st1)" "b \<le> ls_lastScanned st1" using c(2) by (simp_all add: waiting_def)
    have "\<exists>st2. waiting bal a t b v st2 \<and> receiveStep cfg rc pe1 st1 = Some (confirm_and_complete cfg rc pe1 m st2)"
    proof (cases "ls_lastScanned st1 < m")
      case False
      thus ?thesis using c(2) m by (auto simp: receiveStep_def)
    next
      case lt: True
      let ?lo = "ls_lastScanned st1 + 1"
      have u: "unat ?lo = unat (ls_lastScanned st1) + 1" using unat_next [OF lt] by simp
      have lo: "h \<le> ?lo" "?lo \<le> m" "?lo \<noteq> 0" using u w(4) assms(3) lt by (auto simp: word_le_nat_alt word_less_nat_alt dest: arg_cong [where f = unat])
      have "h \<le> ls_lastScanned st1" using w(4) assms(3) by simp
      hence "bal ?lo = bal (ls_lastScanned st1) - spent chain fr a ?lo" using assms(1) lo(3) unfolding only_spends_def by blast
      hence due: "ls_ethBaseline st1 = bal ?lo + spent chain fr a ?lo" using w(3) by simp
      have "scanRangeETH pe1 ?lo m st1 = (Inr (), st1\<lparr>ls_ethBaseline := bal m\<rparr>)"
        using range_spender [where st = st1 and lo = ?lo and hi = m and due = "spent chain fr a ?lo", OF _ se lo(1,2)] assms(1) w(1) due by simp
      hence "receiveStep cfg rc pe1 st1 = Some (confirm_and_complete cfg rc pe1 m (st1\<lparr>ls_ethBaseline := bal m, ls_lastScanned := m\<rparr>))"
        using lt m(2) w(2) by (simp add: receiveStep_def scanRange_def)
      moreover have "b \<le> m" using w(4) lt by simp
      hence "waiting bal a t b v (st1\<lparr>ls_ethBaseline := bal m, ls_lastScanned := m\<rparr>)" using c(2) by (simp add: waiting_def)
      ultimately show ?thesis by blast
    qed
    then obtain st2 where s2: "waiting bal a t b v st2" "receiveStep cfg rc pe1 st1 = Some (confirm_and_complete cfg rc pe1 m st2)" by blast
    have "\<exists>pe \<in> set (pe1 # pes). \<exists>m. pe_head pe = Inr m \<and> deep t b m" using Cons.prems(2,3) False by auto
    from Cons.IH [OF _ m(2) this s2] Cons.prems(1) show ?thesis using Cons.prems(5) c(1) ord(2) by (simp add: poll_end_def)
  qed
next
  case Nil
  have "deep t b n" "orderly first" using Nil.prems(1,2,3) by (auto simp: sees_def)
  from confirm_deep [OF Nil.prems(4) this(2) assms(2) this(1), of cfg rc] show ?case using Nil.prems(5) by auto
qed

lemma prepare_eth:
  assumes "prepare wc cfg le req = Inr st" "isETH (ls_asset st)" "rq_FromBlock req = None" "cf_LookbackBlocks cfg \<le> 0"
    and "le_head le = Inr h" "0 < h" "le_balance le = Inr b"
  shows "ls_lastScanned st = h - 1" "ls_ethBaseline st = b" "ls_pending st = []" "ls_confirmed st = []" "ls_cumConfirmed st = 0"
proof -
  obtain addr ref chainID asset mode target where st: "st = (if isETH asset then emitListening (le_now le) h (initial_state wc req addr ref chainID asset mode target h b)
      else emitListening (le_now le) h (initial_state wc req addr ref chainID asset mode target h 0))"
    using assms(1,3-7) by (force simp: prepare_def start_block_def Let_def split: sum.split_asm prod.split_asm if_split_asm)
  have "ls_asset st = asset" using st by (simp add: emitListening_def initial_state_def)
  hence "isETH asset" using assms(2) by simp
  thus "ls_lastScanned st = h - 1" "ls_ethBaseline st = b" "ls_pending st = []" "ls_confirmed st = []" "ls_cumConfirmed st = 0"
    using st assms(6) by (simp_all add: emitListening_def initial_state_def)
qed

lemma spender_listen:
  assumes "prepare wc cfg le req = Inr st0" "isETH (ls_asset st0)" "ls_mode st0 = ModeAny" "rq_FromBlock req = None" "cf_LookbackBlocks cfg \<le> 0"
    and "rq_Timeout req = 0" "le_head le = Inr h" "0 < h" "le_balance le = Inr (bal h)" "only_spends chain fr bal (ls_addr st0) h"
    and "0 < spent chain fr (ls_addr st0) h" "\<forall>pe \<in> set (first # pes). sees chain fr bal h pe" "pe_head first = Inr b"
    and "\<exists>pe \<in> set (first # pes). \<exists>n. pe_head pe = Inr n \<and> deep (ls_confTarget st0) b n"
  shows "\<exists>res st. Receive wc cfg rc le req (first # pes) = Some (Inr res, Some st) \<and> xr_Exit res = ExitOK
    \<and> xr_CumulativeConfirmed res = int_dec (spent chain fr (ls_addr st0) h) \<and> ls_cumConfirmed st = spent chain fr (ls_addr st0) h"
proof -
  let ?v = "spent chain fr (ls_addr st0) h"
  note P = prepare_eth [OF assms(1,2,4,5,7-9)]
  have se: "sees chain fr bal h first" using assms(12) by simp
  have b: "h \<le> b" using se assms(13) by (auto simp: sees_def)
  let ?d = "delta_pending b ?v"
  define st1 where "st1 = (recordDetection (pe_now first) ?d (st0\<lparr>ls_ethBaseline := bal b\<rparr>))\<lparr>ls_lastScanned := b\<rparr>"
  have "scanRangeETH first h b st0 = (Inr (), recordDetection (pe_now first) ?d (st0\<lparr>ls_ethBaseline := bal b\<rparr>))"
    using range_spender [OF assms(10) se order.refl b, of 0] P(2) assms(11) by simp
  moreover have lt: "ls_lastScanned st0 < b" using P(1) b assms(8) unat_minus_one [of h] unsigned_eq_0_iff [of h] by (auto simp: word_less_nat_alt word_le_nat_alt)
  moreover have lo: "ls_lastScanned st0 + 1 = h" using P(1) by simp
  ultimately have step: "receiveStep cfg rc first st0 = Some (confirm_and_complete cfg rc first b st1)"
    using assms(2,13) by (simp add: receiveStep_def scanRange_def st1_def)
  have w: "waiting bal (ls_addr st0) (ls_confTarget st0) b ?v st1"
    using P assms(2,3) by (simp add: waiting_def st1_def recordDetection_def emitDetected_def Let_def)
  show ?thesis using listen_from [OF assms(10,11) b assms(12-14) w step] assms(1,6) by (auto simp: Receive_def)
qed

section \<open>A listen with the default settings\<close>

text \<open>The defaults of \<open>config/builtins.go\<close>: two confirmations on mainnet, one on sepolia, a ten-minute wait, polls every four
  seconds, ranges of a thousand blocks, a heartbeat every minute and no look-back.\<close>

definition default_wcfg :: wcfg where
  "default_wcfg = \<lparr>wc_defaultNetwork = ''mainnet'', wc_cfgNetwork = [],
     wc_confirmations = (\<lambda>n. if n = ''mainnet'' then Some 2 else if n = ''sepolia'' then Some 1 else None),
     wc_WaitTimeout = 600000000000, wc_PollInterval = 4000000000\<rparr>"

definition default_rcfg :: rcfg where
  "default_rcfg = \<lparr>cf_PollInterval = 4000000000, cf_MaxLogRange = 1000, cf_HeartbeatInterval = 60000000000, cf_LookbackBlocks = 0\<rparr>"

text \<open>A listen for any ETH on account \<open>ops\<close> that starts at head 10; block 10 holds the account's own payment of \<open>v\<close> to somebody
  else, at gas price \<open>p\<close>, nothing follows, and the balance is \<open>B\<close> throughout.  The polls see head 10 and then head 11.\<close>

definition any_codec :: rcodec where
  "any_codec = \<lparr>transferTopic0 = [1], transferSingleTopic0 = [2], transferBatchTopic0 = [3], BytesToAddress = (\<lambda>_. []), AddressWord = (\<lambda>_. [])\<rparr>"

definition listen_env :: "int \<Rightarrow> lenv" where
  "listen_env B = \<lparr>le_dial = Inr (), le_chainID = Inr 1, le_acquire = Inr (), le_DeriveNext = Inr (0, ''0xa1''), le_Alias = Inr (), le_default = ''ops'',
     le_IsHexAddress = (\<lambda>_. False), le_HexToAddress = id, le_ENS = (\<lambda>_. Inr ''0xa1''), le_AddressOf = (\<lambda>_. Inr ''0xa1''),
     le_resolveAsset = (\<lambda>_. Inl (New ''ref.not_found'')), le_resolveNFT = (\<lambda>_. Inl (New ''ref.not_found'')),
     le_head = Inr 10, le_balance = Inr B, le_now = 0\<rparr>"

definition any_request :: ReceiveRequest where
  "any_request = \<lparr>rq_Account = ''ops'', rq_New = False, rq_Wallet = [], rq_Name = [], rq_Amount = [], rq_Exact = False, rq_Token = [], rq_NFT = [],
     rq_Confirmations = None, rq_Timeout = 0, rq_FromBlock = None, rq_Network = []\<rparr>"

definition own_block :: "int \<Rightarrow> EthBlock" where
  "own_block v = \<lparr>eb_Hash = ''0xbb'', eb_Txs = [\<lparr>et_Hash = ''0x01'', et_To = Some ''0xb2'', et_Value = v, et_Sender = Some ''0xa1'', et_GasPrice = Some 1\<rparr>]\<rparr>"

definition own_poll :: "int \<Rightarrow> int \<Rightarrow> int \<Rightarrow> penv" where
  "own_poll v p B = \<lparr>pe_head = Inr 10, pe_logs = (\<lambda>_. Inr []), pe_block = (\<lambda>n. Inr (if n = 10 then Some (own_block v) else None)),
     pe_feeReceipt = (\<lambda>_. Inr (Some \<lparr>rc_BlockNumber = 10, rc_BlockHash = ''0xbb'', rc_GasUsed = 21000, rc_EffectiveGasPrice = Some p, rc_Status = 1\<rparr>)),
     pe_balance = (\<lambda>_. Inr B), pe_verifyLogs = (\<lambda>_ _. Inr []), pe_receipt = (\<lambda>_. Inr None), pe_order = (\<lambda>m. m), pe_now = 1, pe_sleep = None\<rparr>"

lemma eth_fresh:
  "prepare default_wcfg default_rcfg (listen_env B) any_request = Inr (emitListening 0 10 (initial_state default_wcfg any_request ''0xa1'' ''ops'' 1
     \<lparr>la_kind = ''eth'', la_contract = zero_address, la_alias = [], la_decimals = 0, la_tokenID = []\<rparr> ModeAny None 10 B))"
proof -
  have "ParseAccountRef (\<lambda>_. False) id ''ops'' = Inr ((ref_of ''ops'' RefNamed)\<lparr>ar_Name := ''ops''\<rparr>)"
    by (simp add: ParseAccountRef_def Let_def str_simps looksLikeENS_def HasSuffix_def validNameSegment_def name_char_def)
  thus ?thesis
    by (simp add: prepare_def ResolveReceiveMode_def any_request_def listen_env_def resolveListenAddress_def resolveListenAsset_def
        receiveTargetAmount_def start_block_def default_rcfg_def isETH_def Let_def ref_of_def)
qed

definition own_polls :: "int \<Rightarrow> int \<Rightarrow> int \<Rightarrow> penv list" where
  "own_polls v p B = [own_poll v p B, (own_poll v p B)\<lparr>pe_head := Inr 11\<rparr>]"

lemma own_sees:
  "\<forall>pe \<in> set (own_poll v p B # [(own_poll v p B)\<lparr>pe_head := Inr 11\<rparr>]). sees (\<lambda>n. if n = 10 then Some (own_block v) else None)
    (\<lambda>_. Inr (Some \<lparr>rc_BlockNumber = 10, rc_BlockHash = ''0xbb'', rc_GasUsed = 21000, rc_EffectiveGasPrice = Some p, rc_Status = 1\<rparr>)) (\<lambda>_. B) 10 pe"
  by (simp add: own_poll_def sees_def orderly_def)

text \<open>Everything the listen theorem asks of that scenario.\<close>

lemma own_scenario:
  assumes "0 < v" "0 < p"
  defines "chain \<equiv> \<lambda>n. if n = 10 then Some (own_block v) else None"
    and "fr \<equiv> \<lambda>_. Inr (Some \<lparr>rc_BlockNumber = 10, rc_BlockHash = ''0xbb'', rc_GasUsed = 21000, rc_EffectiveGasPrice = Some p, rc_Status = 1\<rparr>)"
  shows "\<exists>st0. prepare default_wcfg default_rcfg (listen_env B) any_request = Inr st0 \<and> isETH (ls_asset st0) \<and> ls_mode st0 = ModeAny
    \<and> ls_confTarget st0 = 2 \<and> ls_addr st0 = ''0xa1'' \<and> only_spends chain fr (\<lambda>_. B) ''0xa1'' 10 \<and> spent chain fr ''0xa1'' 10 = v + 21000 * p"
proof -
  have s: "spent chain fr ''0xa1'' n = (if n = 10 then v + 21000 * p else 0)" for n
    using assms(1,2) by (simp add: spent_def chain_def fr_def block_txs_def outflow_def own_hashes_def own_block_def senderOrZero_def fee_of_def own_fee_def)
  have "only_spends chain fr (\<lambda>_. B) ''0xa1'' 10"
  proof -
    have "spent chain fr ''0xa1'' (n + 1) = 0" if "10 \<le> n" "n + 1 \<noteq> 0" for n
    proof -
      have "n \<noteq> 9" using that by auto
      hence "n + 1 \<noteq> 10" using add_right_cancel [of n 1 9] by simp
      thus ?thesis by (simp add: s)
    qed
    thus ?thesis by (simp add: only_spends_def) (simp add: chain_def block_txs_def own_block_def fr_def)
  qed
  thus ?thesis using eth_fresh [of B]
    by (simp add: s emitListening_def initial_state_def isETH_def confirmTarget_def default_wcfg_def any_request_def networkName_def firstNonEmpty.simps)
qed

lemma own_facts:
  "rq_FromBlock any_request = None" "cf_LookbackBlocks default_rcfg \<le> 0" "rq_Timeout any_request = 0" "le_head (listen_env B) = Inr 10"
  "le_balance (listen_env B) = Inr B" "pe_head (own_poll v p B) = Inr 10" "deep 2 10 11"
  by (simp_all add: any_request_def default_rcfg_def listen_env_def own_poll_def deep_def)

lemma own_run:
  assumes "0 < v" "0 < p"
  shows "\<exists>res st. Receive default_wcfg default_rcfg any_codec (listen_env B) any_request (own_polls v p B) = Some (Inr res, Some st) \<and>
    xr_Exit res = ExitOK \<and> ls_cumConfirmed st = v + 21000 * p"
proof -
  note S = own_scenario [OF assms, of B]
  obtain st0 where st0: "prepare default_wcfg default_rcfg (listen_env B) any_request = Inr st0" "isETH (ls_asset st0)" "ls_mode st0 = ModeAny" "ls_confTarget st0 = 2"
      "ls_addr st0 = ''0xa1''" using S by blast
  show ?thesis
    using spender_listen [where first = "own_poll v p B" and pes = "[(own_poll v p B)\<lparr>pe_head := Inr 11\<rparr>]" and b = 10 and h = 10 and bal = "\<lambda>_. B" and rc = any_codec,
        OF st0(1-3) _ _ _ _ _ _ _ _ own_sees] S st0 assms
    by (auto simp: own_polls_def own_facts)
qed

text \<open>C14. A listen for any inbound ETH counts the account's own spending as income.  Without look-back or starting block it scans from
  the very block at which the balance baseline was read, so what the account spent in that block is added back to a balance that already
  reflects it.  Take an account to which nothing is sent from that block on, whose balance goes down by exactly the values and fees of its own
  transactions, and that spent something in it; take any polls of a node that answers from that chain.  As soon as one of them gives the
  first poll's head its confirmations, the listen has ended with exit status 0 and reports as received exactly what the account
  spent in that block.\<close>

theorem phantom_inbound:
  assumes "prepare wc cfg le req = Inr st0" "isETH (ls_asset st0)" "ls_mode st0 = ModeAny" "rq_FromBlock req = None" "cf_LookbackBlocks cfg \<le> 0"
    and "rq_Timeout req = 0" "le_head le = Inr h" "0 < h" "le_balance le = Inr (bal h)" "only_spends chain fr bal (ls_addr st0) h"
    and "0 < spent chain fr (ls_addr st0) h" "\<forall>pe \<in> set (first # pes). sees chain fr bal h pe" "pe_head first = Inr b"
    and "\<exists>pe \<in> set (first # pes). \<exists>n. pe_head pe = Inr n \<and> deep (ls_confTarget st0) b n"
  shows "\<exists>res st. Receive wc cfg rc le req (first # pes) = Some (Inr res, Some st) \<and> xr_Exit res = ExitOK
    \<and> xr_CumulativeConfirmed res = int_dec (spent chain fr (ls_addr st0) h) \<and> ls_cumConfirmed st = spent chain fr (ls_addr st0) h"
  by (rule spender_listen [OF assms])

theorem phantom_inbound_witness:
  "\<exists>res st. Receive default_wcfg default_rcfg any_codec (listen_env 0) any_request (own_polls 1 1 0) = Some (Inr res, Some st) \<and>
    xr_Exit res = ExitOK \<and> ls_cumConfirmed st = 21001"
proof -
  note S = own_scenario [of 1 1 0, simplified]
  obtain st0 where st0: "prepare default_wcfg default_rcfg (listen_env 0) any_request = Inr st0" "isETH (ls_asset st0)" "ls_mode st0 = ModeAny" "ls_confTarget st0 = 2"
      "ls_addr st0 = ''0xa1''" using S by blast
  show ?thesis
    using phantom_inbound [where first = "own_poll 1 1 0" and pes = "[(own_poll 1 1 0)\<lparr>pe_head := Inr 11\<rparr>]" and b = 10 and h = 10 and bal = "\<lambda>_. 0" and rc = any_codec,
        OF st0(1-3) _ _ _ _ _ _ _ _ own_sees] S st0
    by (auto simp: own_polls_def own_facts)
qed

section \<open>Witness of the residue\<close>

lemma own_poll_window: "window 10 10 = [10]"
  by (simp add: window_last)

theorem eth_residue_exact_witness:
  "\<exists>st' st1. scanRangeETH (own_poll 5 1 100) 10 10 (initial_state default_wcfg any_request ''0xa1'' ''ops'' 1
     \<lparr>la_kind = ''eth'', la_contract = [], la_alias = [], la_decimals = 0, la_tokenID = []\<rparr> ModeAny None 10 21100) = (Inr (), st') \<and>
     ls_pending st' = ls_pending (recordDetection 1 (delta_pending 10 5) (st1\<lparr>ls_ethBaseline := 100\<rparr>))"
proof -
  let ?st = "initial_state default_wcfg any_request ''0xa1'' ''ops'' 1
     \<lparr>la_kind = ''eth'', la_contract = [], la_alias = [], la_decimals = 0, la_tokenID = []\<rparr> ModeAny None 10 21100"
  let ?pe = "own_poll 5 1 100"
  have f: "ls_addr ?st = ''0xa1''" "ls_ethBaseline ?st = 21100" by (simp_all add: initial_state_def)
  have t: "txs_at ?pe 10 = eb_Txs (own_block 5)" by (simp add: block_txs_def block_at_def own_poll_def)
  have fee: "block_fees ?pe ''0xa1'' 10 = 21000"
    by (simp add: block_fees_def t own_hashes_def own_block_def senderOrZero_def) (simp add: fee_of_def own_poll_def own_fee_def)
  have m: "moved_in (\<lambda>_. False) ?pe ''0xa1'' 10 = 0" "moved_out (\<lambda>_. False) ?pe ''0xa1'' 10 = 0"
    "moved_in (\<lambda>tx. \<not> False) ?pe ''0xa1'' 10 = 0" "moved_out (\<lambda>tx. \<not> False) ?pe ''0xa1'' 10 = 5"
    by (simp_all add: moved_in_def moved_out_def t inflow_def outflow_def own_block_def senderOrZero_def)
  have "fst (scanRangeETH ?pe 10 10 ?st) = Inr ()"
    by (simp add: scanRangeETH_def scan_blocks.simps scanETHBlock_def own_poll_def own_block_def scan_tx_def senderOrZero_def f own_fee_def
        balanceDelta_def Let_def)
  then obtain st' where s: "scanRangeETH ?pe 10 10 ?st = (Inr (), st')" by (cases "scanRangeETH ?pe 10 10 ?st") auto
  have b: "pe_balance ?pe 10 = Inr 100" "pe_now ?pe = 1" by (simp_all add: own_poll_def)
  have "100 = ls_ethBaseline ?st + (\<Sum>n \<leftarrow> window 10 10. moved_in (\<lambda>_. False) ?pe (ls_addr ?st) n - moved_out (\<lambda>_. False) ?pe (ls_addr ?st) n
      - block_fees ?pe (ls_addr ?st) n) + 0" by (simp add: own_poll_window f m fee)
  note E = eth_residue_exact [OF s order.refl b(1) this]
  have r: "0 + (\<Sum>n \<leftarrow> window 10 10. moved_out (\<lambda>tx. \<not> False) ?pe (ls_addr ?st) n)
      - (\<Sum>n \<leftarrow> window 10 10. moved_in (\<lambda>tx. \<not> False) ?pe (ls_addr ?st) n) = 5"
    using m by (simp add: own_poll_window f)
  from E [unfolded r b] obtain st1 where "ls_pending st' = (if (0 :: int) < 5 then ls_pending (recordDetection 1 (delta_pending 10 5)
      (st1\<lparr>ls_ethBaseline := 100\<rparr>)) else ls_pending st1)" by blast
  thus ?thesis using s by auto
qed

end
