(* ===== verification/Receive_Claims.thy ===== *)
theory Receive_Claims
  imports Receive_Ledger
begin

text \<open>
  The properties of the listen: accounting, completion, the resumed listen, the chunked scan, the residue of the ETH
  scan, the phantom inbound of the first poll, and the panic of the batch decoder.
\<close>

section \<open>The batch decoder\<close>

lemma int64_id [simp]: "- (2 ^ 63) \<le> n \<Longrightarrow> n < 2 ^ 63 \<Longrightarrow> int64 n = n"
  by (simp add: int64_def)

lemma int64_range: "- (2 ^ 63) \<le> int64 n" "int64 n < 2 ^ 63"
proof -
  have "0 \<le> (n + 2 ^ 63) mod 2 ^ 64" "(n + 2 ^ 63) mod 2 ^ 64 < 2 ^ 64" by simp_all
  thus "- (2 ^ 63) \<le> int64 n" "int64 n < 2 ^ 63" by (simp_all add: int64_def)
qed

lemma int64_wrap: "2 ^ 63 - 32 \<le> off \<Longrightarrow> off < 2 ^ 63 \<Longrightarrow> int64 (off + 32) = off + 32 - 2 ^ 64"
proof -
  assume "2 ^ 63 - 32 \<le> off" "off < 2 ^ 63"
  hence "(off + 32 + 2 ^ 63) mod 2 ^ 64 = off + 32 + 2 ^ 63 - 2 ^ 64"
    by (subst mod_pos_geq) simp_all
  thus ?thesis by (simp add: int64_def)
qed

lemma data_word_safe: "off < 2 ^ 63 - 32 \<Longrightarrow> data_word d off \<noteq> Inl RPanic"
  by (auto simp: data_word_def Let_def)

lemma data_word_panic:
  assumes "off < 2 ^ 63"
  shows "data_word d off = Inl RPanic \<longleftrightarrow> off \<ge> 2 ^ 63 - 32"
proof (cases "off \<ge> 2 ^ 63 - 32")
  case True
  thus ?thesis using assms int64_wrap [OF True assms] by (simp add: data_word_def Let_def)
next
  case False
  thus ?thesis using data_word_safe [of off d] by simp
qed

lemma data_word_inside: "data_word d off = Inr (Some v) \<Longrightarrow> off < 2 ^ 63 - 32 \<Longrightarrow> 0 \<le> off \<and> off + 32 \<le> int (length d)"
  by (auto simp: data_word_def Let_def split: if_split_asm)

lemma data_word_total: "off < 2 ^ 63 - 32 \<Longrightarrow> \<exists>r. data_word d off = Inr r"
  by (auto simp: data_word_def Let_def)

lemma read_words_total:
  assumes "0 \<le> off" "off + 32 \<le> int (length d)" "int (length d) < 2 ^ 62" "int i + int n \<le> 2 ^ 20"
  shows "\<exists>r. read_words d off i n = Inr r"
  using assms(4)
proof (induction n arbitrary: i)
  case (Suc n)
  have a: "off + 32 < 2 ^ 62" "int i < 2 ^ 20" using assms Suc.prems by simp_all
  hence b: "off + 32 + int i * 32 < 2 ^ 63 - 32" "0 \<le> off + 32 + int i * 32" using assms(1) by simp_all
  hence "int64 (int64 (off + 32) + int i * 32) = off + 32 + int i * 32" using a(1) assms(1) by simp
  then obtain r where "data_word d (int64 (int64 (off + 32) + int i * 32)) = Inr r" using data_word_total b(1) by metis
  moreover obtain r' where "read_words d off (Suc i) n = Inr r'" using Suc.IH [of "Suc i"] Suc.prems by auto
  ultimately show ?case by (auto split: option.split)
qed simp

lemma readArr_cases:
  assumes "off < 2 ^ 63" "int (length d) < 2 ^ 62"
  shows "if off \<ge> 2 ^ 63 - 32 then readArr d off = Inl RPanic else \<exists>r. readArr d off = Inr r"
proof (cases "off \<ge> 2 ^ 63 - 32")
  case True
  thus ?thesis using data_word_panic [OF assms(1), of d] by (simp add: readArr_def)
next
  case False
  then obtain w where w: "data_word d off = Inr w" using data_word_total [of off d] by auto
  show ?thesis
  proof (cases w)
    case (Some v)
    have i: "0 \<le> off" "off + 32 \<le> int (length d)" using data_word_inside [OF w [unfolded Some]] False by simp_all
    have "\<exists>r. read_words d off 0 (nat (int64 v)) = Inr r" if "int64 v \<le> 2 ^ 20"
      by (rule read_words_total [OF i assms(2)]) (use that in simp)
    thus ?thesis using w Some False by (auto simp: readArr_def Let_def)
  qed (use w False in \<open>simp add: readArr_def\<close>)
qed

section \<open>Properties: the batch decoder\<close>

text \<open>C16. The decoder of \<open>TransferBatch\<close> data, documented as tolerant, panics: on data of at least two words it does exactly when
  one of the two array offsets, read as a 64-bit \<open>int\<close>, lies in the last 32 values, where adding the word size wraps past the
  bounds test.\<close>

theorem batch_decode_panics_iff:
  assumes "int (length d) < 2 ^ 62"
  shows "decode1155Batch d = Inl RPanic \<longleftrightarrow> 64 \<le> length d \<and>
    (int64 (int (bytes_nat (take 32 d))) \<ge> 2 ^ 63 - 32 \<or> int64 (int (bytes_nat (take 32 (drop 32 d)))) \<ge> 2 ^ 63 - 32)"
proof (cases "64 \<le> length d")
  case True
  let ?o = "int64 (int (bytes_nat (take 32 d)))" and ?v = "int64 (int (bytes_nat (take 32 (drop 32 d))))"
  have w: "data_word d 0 = Inr (Some (int (bytes_nat (take 32 d))))" "data_word d 32 = Inr (Some (int (bytes_nat (take 32 (drop 32 d)))))"
    using True by (simp_all add: data_word_def Let_def)
  note arr = readArr_cases [OF int64_range(2) assms]
  have dec: "decode1155Batch d = (case readArr d ?o of Inl e \<Rightarrow> Inl e | Inr ids \<Rightarrow> (case readArr d ?v of Inl e \<Rightarrow> Inl e | Inr vals \<Rightarrow>
      (case (ids, vals) of (Some is, Some vs) \<Rightarrow> if length is \<noteq> length vs then Inr None else Inr (Some (is, vs)) | _ \<Rightarrow> Inr None)))"
    by (simp only: decode1155Batch_def w sum.case option.case prod.case)
  show ?thesis
  proof (cases "?o \<ge> 2 ^ 63 - 32")
    case True
    hence "readArr d ?o = Inl RPanic" using arr [of "int (bytes_nat (take 32 d))"] by argo
    hence "decode1155Batch d = Inl RPanic" by (simp only: dec sum.case)
    thus ?thesis using True \<open>64 \<le> length d\<close> by blast
  next
    case no: False
    hence "\<exists>r. readArr d ?o = Inr r" using arr [of "int (bytes_nat (take 32 d))"] by argo
    then obtain r where r: "readArr d ?o = Inr r" by blast
    show ?thesis
    proof (cases "?v \<ge> 2 ^ 63 - 32")
      case True
      hence "readArr d ?v = Inl RPanic" using arr [of "int (bytes_nat (take 32 (drop 32 d)))"] by argo
      hence "decode1155Batch d = Inl RPanic" by (simp only: dec r sum.case)
      thus ?thesis using True \<open>64 \<le> length d\<close> by blast
    next
      case False
      hence "\<exists>r. readArr d ?v = Inr r" using arr [of "int (bytes_nat (take 32 (drop 32 d)))"] by argo
      then obtain r' where "readArr d ?v = Inr r'" by blast
      hence "decode1155Batch d \<noteq> Inl RPanic" by (simp only: dec r sum.case) (auto split: option.split)
      thus ?thesis using no False by blast
    qed
  qed
next
  case False
  hence "data_word d 32 = Inr None" by (auto simp: data_word_def Let_def)
  moreover obtain r where "data_word d 0 = Inr r" using data_word_total [of 0 d] by auto
  ultimately show ?thesis using False by (auto simp: decode1155Batch_def split: option.split)
qed

definition evil_batch :: bytes where
  "evil_batch = replicate 24 0 @ [0x7f, 0xff, 0xff, 0xff, 0xff, 0xff, 0xff, 0xff] @ replicate 32 0"

theorem batch_decode_panics_iff_witness: "decode1155Batch evil_batch = Inl RPanic"
proof -
  have l: "int (length evil_batch) < 2 ^ 62" "64 \<le> length evil_batch" by (simp_all add: evil_batch_def)
  have "take 32 evil_batch = replicate 24 0 @ [0x7f, 0xff, 0xff, 0xff, 0xff, 0xff, 0xff, 0xff]" by (simp add: evil_batch_def)
  hence "bytes_nat (take 32 evil_batch) = bytes_nat [0x7f, 0xff, 0xff, 0xff, 0xff, 0xff, 0xff, 0xff]" by (simp only: bytes_nat_append bytes_nat_zeros mult_0 add_0)
  also have "\<dots> = 2 ^ 63 - 1" by (simp add: bytes_nat_def)
  finally have "int64 (int (bytes_nat (take 32 evil_batch))) = 2 ^ 63 - 1" by (simp add: int64_id del: take_append)
  hence "2 ^ 63 - 32 \<le> int64 (int (bytes_nat (take 32 evil_batch)))" by simp
  thus ?thesis using batch_decode_panics_iff [OF l(1)] l(2) by blast
qed

section \<open>From the request to the loop\<close>

text \<open>\<open>start_mark\<close>: the block that counts as scanned when the listen starts.\<close>

definition start_mark :: "64 word \<Rightarrow> 64 word" where
  "start_mark fromBlock = (if fromBlock > 0 then fromBlock - 1 else 0)"

lemma prepare_ok:
  assumes "prepare wc cfg le req = Inr st"
  shows "\<exists>head. le_head le = Inr head \<and> accounts st = ([], [], 0, start_mark (start_block cfg req head))" "wf_listen st" "detections st = {}"
proof -
  from assms obtain head addr ref chainID asset mode target bal where h: "le_head le = Inr head"
    and st: "st = emitListening (le_now le) (start_block cfg req head)
      (initial_state wc req addr ref chainID asset mode target (start_block cfg req head) bal)"
    by (auto simp: prepare_def Let_def split: sum.split_asm prod.split_asm if_split_asm)
  have a: "accounts st = ([], [], 0, start_mark (start_block cfg req head))"
    by (simp add: st event_accounts) (simp add: accounts_def initial_state_def start_mark_def)
  thus "\<exists>head. le_head le = Inr head \<and> accounts st = ([], [], 0, start_mark (start_block cfg req head))" using h by blast
  show "wf_listen st" by (simp add: a wf_accounts_def)
  show "detections st = {}" using a by (simp add: accounts_def detections_def)
qed

lemma Receive_runs:
  assumes "Receive wc cfg rc le req pes = Some (r, Some st)"
  obtains st0 deadline where "prepare wc cfg le req = Inr st0" "receiveLoop cfg rc deadline pes st0 = Some (r, st)"
  using assms by (auto simp: Receive_def split: sum.split_asm)

lemma Receive_ok:
  assumes "Receive wc cfg rc le req pes = Some (r, Some st)" "\<forall>pe \<in> set pes. orderly pe"
  shows "wf_listen st"
    "\<And>res. r = Inr res \<Longrightarrow> xr_CumulativeConfirmed res = int_dec (ls_cumConfirmed st) \<and>
      (xr_Exit res = ExitOK \<and> completed st \<and> (\<exists>pe \<in> set pes. verified rc pe st) \<or>
       xr_Exit res = ExitTimeoutPending \<and> xr_Resume res = resumeCommand st)"
    "\<exists>head. le_head le = Inr head \<and> ((\<forall>pe \<in> set pes. calm_node cfg pe) \<longrightarrow>
      (\<forall>e \<in> detections st. start_mark (start_block cfg req head) < pd_block (snd e)))"
proof -
  obtain st0 deadline where p: "prepare wc cfg le req = Inr st0" and l: "receiveLoop cfg rc deadline pes st0 = Some (r, st)"
    using Receive_runs [OF assms(1)] .
  note L = receiveLoop_ok [OF l assms(2) prepare_ok(2) [OF p]]
  show "wf_listen st" using L by (simp add: poll_ok_def)
  show "\<And>res. r = Inr res \<Longrightarrow> xr_CumulativeConfirmed res = int_dec (ls_cumConfirmed st) \<and>
      (xr_Exit res = ExitOK \<and> completed st \<and> (\<exists>pe \<in> set pes. verified rc pe st) \<or>
       xr_Exit res = ExitTimeoutPending \<and> xr_Resume res = resumeCommand st)" using L by blast
  show "\<exists>head. le_head le = Inr head \<and> ((\<forall>pe \<in> set pes. calm_node cfg pe) \<longrightarrow>
      (\<forall>e \<in> detections st. start_mark (start_block cfg req head) < pd_block (snd e)))"
    using prepare_ok(1,3) [OF p] L by (auto simp: poll_ok_def accounts_def)
qed

lemma total_value_sum: "total_value m = (\<Sum>(k, d) \<leftarrow> m. pd_value d)"
  by (induction m) auto

section \<open>Properties: accounting and completion\<close>

text \<open>C13. However a listen ends (completed, timed out, with an error or in a panic), whatever the node answered and in
  whatever order the maps were walked, the confirmed total is the sum of the values of the confirmed detections, no detection
  is counted twice or is both pending and confirmed, and every value is positive.\<close>

theorem receive_accounting:
  assumes "Receive wc cfg rc le req pes = Some (r, Some st)" "\<forall>pe \<in> set pes. orderly pe"
  shows "ls_cumConfirmed st = (\<Sum>(k, d) \<leftarrow> ls_confirmed st. pd_value d) \<and>
    distinct (map fst (ls_pending st @ ls_confirmed st)) \<and>
    (\<forall>(k, d) \<in> set (ls_pending st @ ls_confirmed st). k = key d \<and> pd_value d > 0)"
proof -
  have "wf_accounts (ls_pending st, ls_confirmed st, ls_cumConfirmed st, ls_lastScanned st)"
    using Receive_ok(1) [OF assms] by (simp add: accounts_def)
  hence g: "\<forall>e \<in> set (ls_pending st @ ls_confirmed st). good_detection e"
    and d: "ls_cumConfirmed st = (\<Sum>(k, d) \<leftarrow> ls_confirmed st. pd_value d)" "distinct (map fst (ls_pending st @ ls_confirmed st))"
    by (auto simp: wf_accounts_def total_value_sum)
  have "\<forall>(k, d) \<in> set (ls_pending st @ ls_confirmed st). k = key d \<and> pd_value d > 0"
    using g by (fastforce simp: good_detection_def)
  thus ?thesis using d by blast
qed

lemma receipt_check_True: "receipt_check answer ok = Inr True \<longleftrightarrow> (\<exists>r. answer = Inr (Some r) \<and> ok r)"
  by (auto simp: receipt_check_def split: sum.split option.split)

lemma reverify_receipt:
  assumes "reverify rc pe st d = Inr True" "IsAttributable (pd_attribution d)"
  shows "\<exists>r. pe_receipt pe d = Inr (Some r) \<and> rc_Status r = 1"
  using assms by (auto simp: reverify_def IsAttributable_def receipt_check_True split: if_split_asm sum.split_asm option.split_asm)

text \<open>Exit status 0 means money that is there: a completed listen satisfies its mode with the confirmed total it reports
  (the target amount, an inbound at all, or one attributable transfer of exactly the amount), and in its last poll the node
  still had a successful receipt for every confirmed transfer that is bound to a transaction.\<close>

lemma receive_complete_verified:
  assumes "Receive wc cfg rc le req pes = Some (Inr res, Some st)" "\<forall>pe \<in> set pes. orderly pe" "xr_Exit res = ExitOK"
  shows "xr_CumulativeConfirmed res = int_dec (\<Sum>(k, d) \<leftarrow> ls_confirmed st. pd_value d) \<and>
    (case ls_mode st of
       ModeExact \<Rightarrow> \<exists>(k, d) \<in> set (ls_confirmed st). pd_attribution d \<in> {''tx'', ''log''} \<and> ls_targetAmount st = Some (pd_value d)
     | _ \<Rightarrow> ls_confirmed st \<noteq> [] \<or> (\<exists>t. ls_targetAmount st = Some t \<and> t \<le> 0)) \<and>
    (\<forall>t. ls_mode st \<noteq> ModeExact \<longrightarrow> ls_mode st \<noteq> ModeAny \<longrightarrow> ls_targetAmount st = Some t \<longrightarrow> (\<Sum>(k, d) \<leftarrow> ls_confirmed st. pd_value d) \<ge> t) \<and>
    (\<exists>pe \<in> set pes. \<forall>(k, d) \<in> set (ls_confirmed st). pd_attribution d \<in> {''tx'', ''log''} \<longrightarrow>
       (\<exists>r. pe_receipt pe d = Inr (Some r) \<and> rc_Status r = 1))"
proof -
  have w: "wf_listen st" and R: "xr_CumulativeConfirmed res = int_dec (ls_cumConfirmed st)" "completed st" "\<exists>pe \<in> set pes. verified rc pe st"
    using Receive_ok(1,2) [OF assms(1,2)] assms(3) by auto
  have t: "ls_cumConfirmed st = (\<Sum>(k, d) \<leftarrow> ls_confirmed st. pd_value d)"
    using w by (simp add: wf_accounts_def accounts_def total_value_sum)
  have ne: "ls_cumConfirmed st > 0 \<Longrightarrow> ls_confirmed st \<noteq> []" using t by auto
  have v: "\<exists>pe \<in> set pes. \<forall>(k, d) \<in> set (ls_confirmed st). pd_attribution d \<in> {''tx'', ''log''} \<longrightarrow>
       (\<exists>r. pe_receipt pe d = Inr (Some r) \<and> rc_Status r = 1)"
  proof -
    obtain pe where pe: "pe \<in> set pes" "verified rc pe st" using R(3) by blast
    have "\<exists>r. pe_receipt pe d = Inr (Some r) \<and> rc_Status r = 1"
      if "(k, d) \<in> set (ls_confirmed st)" "pd_attribution d \<in> {''tx'', ''log''}" for k d
      using reverify_receipt [of rc pe st d] pe(2) that by (force simp: verified_def IsAttributable_def)
    thus ?thesis using pe(1) by blast
  qed
  have "case ls_mode st of
       ModeExact \<Rightarrow> \<exists>(k, d) \<in> set (ls_confirmed st). pd_attribution d \<in> {''tx'', ''log''} \<and> ls_targetAmount st = Some (pd_value d)
     | _ \<Rightarrow> ls_confirmed st \<noteq> [] \<or> (\<exists>t. ls_targetAmount st = Some t \<and> t \<le> 0)"
    using R(2) ne by (cases "ls_mode st"; cases "ls_targetAmount st")
      (auto simp: completed_def list_ex_iff IsAttributable_def not_less split: if_split_asm, force+)
  moreover have "ls_cumConfirmed st \<ge> t" if "ls_mode st \<noteq> ModeExact" "ls_mode st \<noteq> ModeAny" "ls_targetAmount st = Some t" for t
    using R(2) that by (cases "ls_mode st") (auto simp: completed_def split: if_split_asm)
  ultimately show ?thesis using R(1) t v by auto
qed

section \<open>Properties: what is scanned\<close>

text \<open>The scan mark is final: whatever polls follow, a listen never detects a transfer at or below the highest block it has
  scanned.  So a transfer that a reorganisation dropped and that is mined again at such a height is lost, although the code
  says that a future scan detects it again.\<close>

lemma no_detection_below_mark:
  assumes "receiveLoop cfg rc deadline pes st = Some (r, st')" "\<forall>pe \<in> set pes. orderly pe \<and> calm_node cfg pe" "wf_listen st"
    "(k, d) \<notin> detections st" "pd_block d \<le> ls_lastScanned st"
  shows "(k, d) \<notin> detections st'"
proof
  assume m: "(k, d) \<in> detections st'"
  have "poll_ok (\<forall>pe \<in> set pes. calm_node cfg pe) st st'" using receiveLoop_ok [OF assms(1) _ assms(3)] assms(2) by blast
  hence "ls_lastScanned st < pd_block d" using assms(2,4) m by (force simp: poll_ok_def)
  thus False using assms(5) by simp
qed

text \<open>The printed resume command drops what was detected and not yet confirmed: a listen resumed at the block after the
  last scanned one sees only transfers above that block, so no transfer that was pending at or below it when the time ran out
  is ever detected, let alone confirmed, by the resumed listen.\<close>

lemma resume_skips_pending:
  assumes "Receive wc cfg rc le req pes = Some (r, Some st')" "\<forall>pe \<in> set pes. orderly pe \<and> calm_node cfg pe"
    "rq_FromBlock req = Some (ls_lastScanned st + 1)" "ls_lastScanned st + 1 \<noteq> 0"
    "(k, d) \<in> set (ls_pending st)" "pd_block d \<le> ls_lastScanned st"
  shows "(k, d) \<notin> detections st'"
proof
  assume m: "(k, d) \<in> detections st'"
  obtain head where h: "(\<forall>pe \<in> set pes. calm_node cfg pe) \<longrightarrow>
      (\<forall>e \<in> detections st'. start_mark (start_block cfg req head) < pd_block (snd e))"
    using Receive_ok(3) [OF assms(1)] assms(2) by blast
  have "start_mark (start_block cfg req head) = ls_lastScanned st"
    using assms(3,4) by (simp add: start_block_def start_mark_def word_gt_0)
  thus False using h m assms(2,6) by fastforce
qed

lemma TrimRightP_idem: "TrimRightP P (TrimRightP P s) = TrimRightP P s"
proof -
  have "dropWhile P (dropWhile P t) = dropWhile P t" for t by (induction t) auto
  thus ?thesis by (simp add: TrimRightP_def)
qed

lemma TrimSpace_idem: "TrimSpace (TrimSpace s) = TrimSpace s"
proof -
  let ?t = "TrimSpace s"
  have l: "dropWhile P (dropWhile P t) = dropWhile P t" for P :: "char \<Rightarrow> bool" and t by (induction t) auto
  have h: "?t = [] \<or> \<not> is_space (hd ?t)"
  proof (cases "dropWhile is_space s")
    case Nil
    have "TrimSpace s = []" unfolding TrimSpace_def TrimLeftP_def TrimRightP_def Nil by simp
    thus ?thesis by simp
  next
    case (Cons c r)
    have "\<not> is_space c" using Cons by (simp add: dropWhile_eq_Cons_conv)
    hence "dropWhile is_space (rev r @ [c]) = dropWhile is_space (rev r) @ [c]"
      by (cases "\<exists>x \<in> set r. \<not> is_space x") (auto simp: dropWhile_append1 dropWhile_append3)
    hence "?t = c # rev (dropWhile is_space (rev r))" using Cons by (simp add: TrimSpace_def TrimLeftP_def TrimRightP_def)
    thus ?thesis using \<open>\<not> is_space c\<close> by simp
  qed
  hence "TrimLeftP is_space ?t = ?t" by (cases ?t) (auto simp: TrimLeftP_def)
  moreover have "TrimRightP is_space ?t = ?t" by (simp add: TrimSpace_def TrimRightP_idem)
  ultimately show ?thesis by (simp add: TrimSpace_def [of ?t])
qed

lemma parse_trim: "parseDecimalToBase (TrimSpace s) n = parseDecimalToBase s n"
  by (simp add: parseDecimalToBase_def TrimSpace_idem)

text \<open>The resumed listen asks for exactly what is missing: the amount printed in the resume command is read back, in the
  unit of the asset, as the target minus the confirmed total (never below zero), and the printed block makes the resumed scan
  start right after the last scanned block.\<close>

lemma resume_exact:
  assumes "ls_targetAmount st = Some t" "isETH (ls_asset st) \<or> la_kind (ls_asset st) \<in> {''erc20'', ''erc721'', ''erc1155''}"
    "rq_Amount req = humanAmount st" "rq_FromBlock req = Some (ls_lastScanned st + 1)"
  shows "receiveTargetAmount req (ls_asset st) = Inr (Some (max 0 (t - ls_cumConfirmed st))) \<and>
    (ls_lastScanned st + 1 \<noteq> 0 \<longrightarrow> start_mark (start_block cfg req head) = ls_lastScanned st) \<and>
    (\<exists>pre post. resumeCommand st = pre @ '' --amount '' @ humanAmount st @ post @ '' --from-block '' @ nat_dec (unat (ls_lastScanned st + 1)))"
proof -
  let ?r = "max 0 (t - ls_cumConfirmed st)"
  have r: "remaining st = ?r" using assms(1) by (simp add: remaining_def Let_def)
  have eth: "isETH (ls_asset st) \<Longrightarrow> la_kind (ls_asset st) \<notin> {''erc20'', ''erc721'', ''erc1155''}" by (auto simp: isETH_def)
  have p: "receiveTargetAmount req (ls_asset st) = Inr (Some ?r)"
  proof (cases "isETH (ls_asset st)")
    case True
    hence h: "humanAmount st = formatBase (Some ?r) 18" using eth r by (simp add: humanAmount_def FormatAmount_def)
    hence q: "parseDecimalToBase (humanAmount st) 18 = Inr ?r" using format_parse [of ?r 18] by simp
    hence "humanAmount st \<noteq> []" by (auto simp: parseDecimalToBase_def TrimSpace_def TrimLeftP_def TrimRightP_def)
    thus ?thesis using True q assms(3) by (simp add: receiveTargetAmount_def ParseAmount_def)
  next
    case False
    hence h: "humanAmount st = formatBase (Some ?r) (la_decimals (ls_asset st))"
      using assms(2) r by (auto simp: humanAmount_def FormatTokenAmount_def)
    hence q: "parseDecimalToBase (humanAmount st) (la_decimals (ls_asset st)) = Inr ?r" using format_parse [of ?r] by simp
    hence "humanAmount st \<noteq> []" by (auto simp: parseDecimalToBase_def TrimSpace_def TrimLeftP_def TrimRightP_def)
    thus ?thesis using False q assms(3) by (simp add: receiveTargetAmount_def ParseTokenAmount_def parse_trim)
  qed
  have m: "ls_lastScanned st + 1 \<noteq> 0 \<longrightarrow> start_mark (start_block cfg req head) = ls_lastScanned st"
    using assms(4) by (simp add: start_block_def start_mark_def word_gt_0)
  have "\<exists>pre post. resumeCommand st = pre @ '' --amount '' @ humanAmount st @ post @ '' --from-block '' @ nat_dec (unat (ls_lastScanned st + 1))"
    unfolding resumeCommand_def assms(1) by (simp only: option.distinct simp_thms if_True) (metis append_assoc)
  thus ?thesis using p m by blast
qed

section \<open>Properties: chunks\<close>

lemma record_logs_append: "record_logs rc n (as @ bs) st = (case record_logs rc n as st of (Inl e, st1) \<Rightarrow> (Inl e, st1)
    | (Inr _, st1) \<Rightarrow> record_logs rc n bs st1)"
proof (induction as arbitrary: st)
  case (Cons l as)
  show ?case using Cons.IH by (simp split: sum.split option.split)
qed simp

lemma record_logs_settings: "record_logs rc n ls st = (r, st1) \<Longrightarrow> settings st1 = settings st"
  using record_logs_ok [of rc n ls st r st1 "\<lambda>_. True"] by (simp add: step_ok_def)

text \<open>Chunking is invisible: as long as block numbers stay away from \<open>2^64\<close>, scanning a range in chunks of any positive
  size returns, and leaves the state and the outcome that one query over the whole range would, for a node whose answer to a
  range is its answer to any first part followed by its answer to the rest.\<close>

lemma chunked_scan_is_one_query:
  assumes "unat hi + unat width < 2 ^ 64" "width > 0" "lo \<le> hi"
    "\<And>a b. lo \<le> a \<Longrightarrow> a \<le> b \<Longrightarrow> b \<le> hi \<Longrightarrow> pe_logs pe (transferQuery rc (ls_addr st) (ls_asset st) a b) = Inr (L a b)"
    "\<And>a m b. lo \<le> a \<Longrightarrow> a \<le> m \<Longrightarrow> m < b \<Longrightarrow> b \<le> hi \<Longrightarrow> L a b = L a m @ L (m + 1) b"
  shows "scan_chunks rc pe width hi lo st = Some (record_logs rc (pe_now pe) (L lo hi) st)"
  using assms
proof (induction "unat hi - unat lo" arbitrary: lo st rule: less_induct)
  case (less lo st)
  define top where "top = (if lo + width - 1 > hi then hi else lo + width - 1)"
  note nc = next_chunk [OF less.prems(1,3)]
  have w: "unat width > 0" using less.prems(2) by (simp add: word_less_nat_alt)
  have u1: "unat (lo + width - 1) = unat lo + unat width - 1"
  proof -
    have "lo + width \<noteq> 0" using nc(2) w by (metis add_is_0 less_numeral_extra(3) unat_0)
    thus ?thesis using nc(2) by (simp add: unat_minus_one)
  qed
  have top: "lo \<le> top" "top \<le> hi" using less.prems(3) u1 w by (auto simp: top_def word_le_nat_alt word_less_nat_alt not_less)
  have a: "pe_logs pe (transferQuery rc (ls_addr st) (ls_asset st) lo top) = Inr (L lo top)" using less.prems(4) top by simp
  have step: "scan_chunks rc pe width hi lo st = (case record_logs rc (pe_now pe) (L lo top) st of
       (Inl e, st1) \<Rightarrow> Some (Inl e, st1)
     | (Inr _, st1) \<Rightarrow> if top = hi then Some (Inr (), st1) else scan_chunks rc pe width hi (lo + width) st1)"
    using leD [OF less.prems(3)] a by (subst scan_chunks.simps) (simp add: top_def [symmetric] Let_def)
  show ?case
  proof (cases "top = hi")
    case True
    thus ?thesis unfolding step by (auto split: prod.split sum.split)
  next
    case False
    hence tv: "top = lo + width - 1" "\<not> lo + width - 1 > hi" by (auto simp: top_def split: if_split_asm)
    have lt: "top < hi" using top False by simp
    have nx: "top + 1 = lo + width" by (simp add: tv)
    have le: "lo + width \<le> hi" using lt tv u1 nc(2) w by (simp add: word_le_nat_alt word_less_nat_alt)
    obtain r st1 where rl: "record_logs rc (pe_now pe) (L lo top) st = (r, st1)" by force
    have same: "ls_addr st1 = ls_addr st" "ls_asset st1 = ls_asset st" using record_logs_settings [OF rl] by (simp_all add: settings_def)
    have split: "L lo hi = L lo top @ L (lo + width) hi" using less.prems(5) [OF order.refl top(1) lt order.refl] nx by simp
    have IH: "scan_chunks rc pe width hi (lo + width) st1 = Some (record_logs rc (pe_now pe) (L (lo + width) hi) st1)"
    proof (rule less.hyps)
      show "unat hi - unat (lo + width) < unat hi - unat lo" using nc(2) w le by (simp add: word_le_nat_alt)
      fix a b
      assume "lo + width \<le> a" "a \<le> b" "b \<le> hi"
      thus "pe_logs pe (transferQuery rc (ls_addr st1) (ls_asset st1) a b) = Inr (L a b)"
        using less.prems(4) [of a b] nc(1) unfolding same by (meson order_trans)
    next
      fix a m b
      assume "lo + width \<le> a" "a \<le> m" "m < b" "b \<le> hi"
      thus "L a b = L a m @ L (m + 1) b" using less.prems(5) [of a m b] nc(1) by (meson order_trans)
    qed (use less.prems le in auto)
    show ?thesis unfolding step rl split record_logs_append using False IH by (auto split: sum.split)
  qed
qed

section \<open>Witnesses\<close>

lemma own_polls_orderly: "pe \<in> set (own_polls v p B) \<Longrightarrow> orderly pe"
  by (auto simp: orderly_def own_polls_def own_poll_def)

theorem receive_accounting_witness:
  "\<exists>res st. Receive default_wcfg default_rcfg any_codec (listen_env 0) any_request (own_polls 1 1 0) = Some (Inr res, Some st) \<and>
     ls_cumConfirmed st = (\<Sum>(k, d) \<leftarrow> ls_confirmed st. pd_value d)"
proof -
  obtain res st where r: "Receive default_wcfg default_rcfg any_codec (listen_env 0) any_request (own_polls 1 1 0) = Some (Inr res, Some st)"
    using own_run [of 1 1 0] by auto
  show ?thesis using receive_accounting [OF r] r own_polls_orderly by auto
qed


text \<open>A poll at head 10 that finds nothing new and in which the context is cancelled.\<close>

definition idle_poll :: penv where
  "idle_poll = (own_poll 1 1 0)\<lparr>pe_sleep := Some tx_not_found\<rparr>"

lemma idle_fields: "pe_head idle_poll = Inr 10" "pe_order idle_poll = (\<lambda>m. m)" "pe_sleep idle_poll = Some tx_not_found" "pe_logs idle_poll = (\<lambda>_. Inr [])"
  by (simp_all add: idle_poll_def own_poll_def)

lemma idle_ok: "orderly idle_poll \<and> calm_node default_rcfg idle_poll"
  by (simp add: orderly_def calm_node_def ranged_logs_def idle_fields chunk_width_def default_rcfg_def)

lemma idle_loop:
  assumes "ls_lastScanned st \<ge> 10" "ls_confirmed st = []" "ls_cumConfirmed st = 0" "ls_mode st = ModeAny"
    "\<forall>(k, d) \<in> set (ls_pending st). pd_block d > 10"
  shows "\<exists>r st'. receiveLoop default_rcfg any_codec None [idle_poll] st = Some (r, st')"
proof -
  have a: "advance_pending any_codec idle_poll 10 ds st = (Inr (), st)" if "\<forall>(k, d) \<in> set ds. pd_block d > 10" for ds
    using that by (induction ds) auto
  have "confirm_and_complete default_rcfg any_codec idle_poll 10 st = (Inr None, maybeHeartbeat default_rcfg (pe_now idle_poll) st)"
    using assms a [of "ls_pending st"] by (simp add: confirm_and_complete_def advanceConfirmations_def idle_fields completed_def)
  moreover have "\<not> ls_lastScanned st < 10" using assms(1) by simp
  ultimately have "receiveStep default_rcfg any_codec idle_poll st = Some (Inr None, maybeHeartbeat default_rcfg (pe_now idle_poll) st)"
    by (simp add: receiveStep_def idle_fields)
  thus ?thesis by (simp add: poll_end_def idle_fields split: prod.split)
qed

definition scanned_state :: receiveState where
  "scanned_state = (initial_state default_wcfg any_request ''0xa1'' ''ops'' 1
     \<lparr>la_kind = ''eth'', la_contract = [], la_alias = [], la_decimals = 0, la_tokenID = []\<rparr> ModeAny None 11 0)"

lemma scanned_fields: "ls_lastScanned scanned_state = 10" "ls_confirmed scanned_state = []" "ls_pending scanned_state = []"
  "ls_cumConfirmed scanned_state = 0" "ls_mode scanned_state = ModeAny" "ls_asset scanned_state = \<lparr>la_kind = ''eth'', la_contract = [], la_alias = [], la_decimals = 0, la_tokenID = []\<rparr>"
  by (simp_all add: scanned_state_def initial_state_def)



end
