(* ===== verification/QR_Code.thy ===== *)
theory QR_Code
  imports Hex_Bytes
begin

text \<open>
  The terminal QR code of \<open>internal/cli/render/qr.go\<close>: a byte-mode encoder of versions 1 to 10 at error-correction level M,
  with Reed-Solomon codewords over GF(256), module placement, the eight data masks, penalty scoring and the half-block
  text.  Bytes are 8-bit words, the module matrix is a list of rows as in the code, glyphs are their UTF-8 bytes.  Every
  index stays inside its table, so Go's bounds checks never fire; \<open>QR_Matrix\<close> keeps the shape of the matrix as a lemma.
\<close>

unbundle bit_operations_syntax

section \<open>Tables of level M\<close>

definition capByteM :: "nat list" where
  "capByteM = [14, 26, 42, 62, 84, 106, 122, 152, 180, 213]"

definition dataCodewordsM :: "nat list" where
  "dataCodewordsM = [16, 28, 44, 64, 86, 108, 124, 154, 182, 216]"

definition ecPerBlockM :: "nat list" where
  "ecPerBlockM = [10, 16, 26, 18, 24, 16, 18, 22, 22, 26]"

record blockLayout =
  bl_g1 :: nat
  bl_g1cw :: nat
  bl_g2 :: nat
  bl_g2cw :: nat

definition blocksM :: "blockLayout list" where
  "blocksM = map (\<lambda>(a, b, c, d). \<lparr>bl_g1 = a, bl_g1cw = b, bl_g2 = c, bl_g2cw = d\<rparr>)
    [(1, 16, 0, 0), (1, 28, 0, 0), (1, 44, 0, 0), (2, 32, 0, 0), (2, 43, 0, 0), (4, 27, 0, 0), (4, 31, 0, 0),
     (2, 38, 2, 39), (3, 36, 2, 37), (4, 43, 1, 44)]"

definition alignmentCenters :: "nat list list" where
  "alignmentCenters = [[], [6, 18], [6, 22], [6, 26], [6, 30], [6, 34], [6, 22, 38], [6, 24, 42], [6, 26, 46], [6, 28, 50]]"

section \<open>The data bit stream\<close>

fun pickVersion_loop :: "nat \<Rightarrow> nat list \<Rightarrow> nat \<Rightarrow> nat" where
  "pickVersion_loop v [] n = 0"
| "pickVersion_loop v (c # cs) n = (if n \<le> c then v else pickVersion_loop (v + 1) cs n)"

definition pickVersion :: "nat \<Rightarrow> nat" where
  "pickVersion n = pickVersion_loop 1 capByteM n"

definition appendBits :: "bool list \<Rightarrow> nat \<Rightarrow> nat \<Rightarrow> bool list" where
  "appendBits bits v n = bits @ map (\<lambda>i. bit v i) (rev [0..<n])"

lemma length_appendBits [simp]: "length (appendBits bits v n) = length bits + n"
  by (simp add: appendBits_def)

function pad_bytes :: "nat \<Rightarrow> nat \<Rightarrow> bool list \<Rightarrow> bool list" where
  "pad_bytes cap i bits = (if length bits < cap then pad_bytes cap (i + 1) (appendBits bits ([0xEC, 0x11] ! (i mod 2)) 8) else bits)"
  by pat_completeness auto
termination by (relation "measure (\<lambda>(cap, i, bits). cap - length bits)") auto

declare pad_bytes.simps [simp del]

definition payload_bits :: "bytes \<Rightarrow> nat \<Rightarrow> bool list" where
  "payload_bits data ver = fold (\<lambda>b bits. appendBits bits (unat b) 8) data
     (appendBits (appendBits [] 4 4) (length data) (if ver \<ge> 10 then 16 else 8))"

definition buildDataBits :: "bytes \<Rightarrow> nat \<Rightarrow> bool list" where
  "buildDataBits data ver =
    (let bits = payload_bits data ver;
         capBits = dataCodewordsM ! (ver - 1) * 8;
         room = int capBits - int (length bits);
         term = (if room > 4 then 4 else room);
         bits = (if term > 0 then appendBits bits 0 (nat term) else bits);
         rest = length bits mod 8;
         bits = (if rest \<noteq> 0 then appendBits bits 0 (8 - rest) else bits)
     in pad_bytes capBits 0 bits)"

definition codeword :: "bool list \<Rightarrow> nat \<Rightarrow> 8 word" where
  "codeword bits i = fold (\<lambda>j b. let idx = i * 8 + j in if idx < length bits \<and> bits ! idx then b OR push_bit (7 - j) 1 else b) [0..<8] 0"

definition bitsToCodewords :: "bool list \<Rightarrow> nat \<Rightarrow> bytes" where
  "bitsToCodewords bits n = map (codeword bits) [0..<n]"

section \<open>Reed-Solomon over GF(256)\<close>

text \<open>The table loop doubles an \<open>int\<close> and reduces it by 0x11D.\<close>

definition gf_double :: "int \<Rightarrow> int" where
  "gf_double x = (let y = push_bit 1 x in if y AND 0x100 \<noteq> 0 then y XOR 0x11D else y)"

definition gfExp :: "8 word list" where
  "gfExp = (let e = map (\<lambda>i. word_of_int ((gf_double ^^ i) 1)) [0..<255] in fold (\<lambda>i t. t @ [t ! (i - 255)]) [255..<512] e)"

definition gfLog :: "8 word list" where
  "gfLog = fold (\<lambda>i t. t[nat ((gf_double ^^ i) 1) := word_of_nat i]) [0..<255] (replicate 256 0)"

definition gfMul :: "8 word \<Rightarrow> 8 word \<Rightarrow> 8 word" where
  "gfMul a b = (if a = 0 \<or> b = 0 then 0 else gfExp ! (unat (gfLog ! unat a) + unat (gfLog ! unat b)))"

definition gen_step :: "nat \<Rightarrow> bytes \<Rightarrow> bytes" where
  "gen_step i g = fold (\<lambda>j next. let next' = next[j := next ! j XOR gfMul (g ! j) (gfExp ! i)] in next'[j + 1 := next' ! (j + 1) XOR g ! j])
     [0..<length g] (replicate (length g + 1) 0)"

definition rsGenerator :: "nat \<Rightarrow> bytes" where
  "rsGenerator n = fold gen_step [0..<n] [1]"

definition division_step :: "bytes \<Rightarrow> nat \<Rightarrow> bytes \<Rightarrow> bytes" where
  "division_step gen i rem = (let coef = rem ! i in if coef = 0 then rem
     else fold (\<lambda>j rem. rem[i + j := rem ! (i + j) XOR gfMul (gen ! j) coef]) [0..<length gen] rem)"

definition reedSolomon :: "bytes \<Rightarrow> nat \<Rightarrow> bytes" where
  "reedSolomon data n = drop (length data) (fold (division_step (rsGenerator n)) [0..<length data] (data @ replicate n 0))"

text \<open>A block is its data codewords and its error-correction codewords.\<close>

fun addBlocks :: "nat \<Rightarrow> nat \<Rightarrow> nat \<Rightarrow> bytes \<Rightarrow> (bytes \<times> bytes) list \<times> bytes" where
  "addBlocks ecLen 0 cw d = ([], d)"
| "addBlocks ecLen (Suc n) cw d = (case addBlocks ecLen n cw (drop cw d) of (bs, d') \<Rightarrow> ((take cw d, reedSolomon (take cw d) ecLen) # bs, d'))"

definition blocks_of :: "bytes \<Rightarrow> nat \<Rightarrow> (bytes \<times> bytes) list" where
  "blocks_of dataCW vi = (let lay = blocksM ! vi; ecLen = ecPerBlockM ! vi in
     case addBlocks ecLen (bl_g1 lay) (bl_g1cw lay) dataCW of (bs, d) \<Rightarrow>
       bs @ (if bl_g2 lay > 0 then fst (addBlocks ecLen (bl_g2 lay) (bl_g2cw lay) d) else []))"

definition interleave :: "bytes \<Rightarrow> nat \<Rightarrow> bytes" where
  "interleave dataCW vi = (let lay = blocksM ! vi; blocks = blocks_of dataCW vi; maxData = max (bl_g1cw lay) (bl_g2cw lay) in
     concat (map (\<lambda>c. concat (map (\<lambda>(d, ec). if c < length d then [d ! c] else []) blocks)) [0..<maxData]) @
     concat (map (\<lambda>c. map (\<lambda>(d, ec). ec ! c) blocks) [0..<ecPerBlockM ! vi]))"

end
