(* ===== verification/QR_Matrix.thy ===== *)
theory QR_Matrix
  imports QR_Code
begin

text \<open>
  The module matrix of \<open>internal/cli/render/qr.go\<close>: function patterns, data placement with the masks, format and version
  information, penalty scoring, mask selection, and the half-block text.  \<open>mx_val\<close> and \<open>mx_fn\<close> are the rows of the values
  and of the function-module flags, so a module is \<open>mx_val m ! y ! x\<close>.
\<close>

section \<open>The matrix\<close>

record matrix =
  mx_size :: nat
  mx_val :: "bool list list"
  mx_fn :: "bool list list"

definition newMatrix :: "nat \<Rightarrow> matrix" where
  "newMatrix sz = \<lparr>mx_size = sz, mx_val = replicate sz (replicate sz False), mx_fn = replicate sz (replicate sz False)\<rparr>"

definition put :: "nat \<Rightarrow> nat \<Rightarrow> bool \<Rightarrow> bool list list \<Rightarrow> bool list list" where
  "put y x b t = t[y := (t ! y)[x := b]]"

definition mx_set :: "nat \<Rightarrow> nat \<Rightarrow> bool \<Rightarrow> bool \<Rightarrow> matrix \<Rightarrow> matrix" where
  "mx_set x y dark fnmod m = (let m1 = m\<lparr>mx_val := put y x dark (mx_val m)\<rparr> in
     if fnmod then m1\<lparr>mx_fn := put y x True (mx_fn m1)\<rparr> else m1)"

definition reserve :: "nat \<Rightarrow> nat \<Rightarrow> matrix \<Rightarrow> matrix" where
  "reserve y x m = m\<lparr>mx_fn := put y x True (mx_fn m)\<rparr>"

definition paint :: "nat \<Rightarrow> nat \<Rightarrow> bool \<Rightarrow> matrix \<Rightarrow> matrix" where
  "paint y x b m = m\<lparr>mx_val := put y x b (mx_val m)\<rparr>"

section \<open>Function patterns\<close>

definition finder_dark :: "int \<Rightarrow> int \<Rightarrow> bool" where
  "finder_dark dx dy \<longleftrightarrow> 0 \<le> dx \<and> dx \<le> 6 \<and> 0 \<le> dy \<and> dy \<le> 6 \<and>
     (dx = 0 \<or> dx = 6 \<or> dy = 0 \<or> dy = 6 \<or> 2 \<le> dx \<and> dx \<le> 4 \<and> 2 \<le> dy \<and> dy \<le> 4)"

definition finder_module :: "int \<Rightarrow> int \<Rightarrow> int \<Rightarrow> int \<Rightarrow> matrix \<Rightarrow> matrix" where
  "finder_module ox oy dy dx m = (let x = ox + dx; y = oy + dy in
     if x < 0 \<or> y < 0 \<or> x \<ge> int (mx_size m) \<or> y \<ge> int (mx_size m) then m else mx_set (nat x) (nat y) (finder_dark dx dy) True m)"

definition placeFinders :: "matrix \<Rightarrow> matrix" where
  "placeFinders m = fold (\<lambda>(ox, oy). fold (\<lambda>dy. fold (finder_module ox oy dy) [-1..7]) [-1..7])
     [(0, 0), (int (mx_size m) - 7, 0), (0, int (mx_size m) - 7)] m"

definition placeTiming :: "matrix \<Rightarrow> matrix" where
  "placeTiming m = fold (\<lambda>i m. mx_set 6 i (even i) True (mx_set i 6 (even i) True m)) [8..<mx_size m - 8] m"

definition alignment_dark :: "int \<Rightarrow> int \<Rightarrow> bool" where
  "alignment_dark dx dy \<longleftrightarrow> dx = -2 \<or> dx = 2 \<or> dy = -2 \<or> dy = 2 \<or> dx = 0 \<and> dy = 0"

definition placeAlignment :: "nat \<Rightarrow> matrix \<Rightarrow> matrix" where
  "placeAlignment ver m = (let centers = alignmentCenters ! (ver - 1) in
     fold (\<lambda>cy. fold (\<lambda>cx m. if cx = 6 \<and> cy = 6 \<or> cx = 6 \<and> cy = mx_size m - 7 \<or> cx = mx_size m - 7 \<and> cy = 6 then m
        else fold (\<lambda>dy. fold (\<lambda>dx. mx_set (nat (int cx + dx)) (nat (int cy + dy)) (alignment_dark dx dy) True) [-2..2]) [-2..2] m)
       centers) centers m)"

definition reserveFormat :: "matrix \<Rightarrow> matrix" where
  "reserveFormat m = reserve 8 8 (fold (\<lambda>i m. reserve (mx_size m - 1 - i) 8 (reserve 8 (mx_size m - 1 - i) m)) [0..<8]
     (fold (\<lambda>i m. if i \<noteq> 6 then reserve i 8 (reserve 8 i m) else m) [0..<9] m))"

definition reserveVersion :: "matrix \<Rightarrow> matrix" where
  "reserveVersion m = fold (\<lambda>i. fold (\<lambda>j m. reserve i (mx_size m - 11 + j) (reserve (mx_size m - 11 + j) i m)) [0..<3]) [0..<6] m"

definition base_matrix :: "nat \<Rightarrow> matrix" where
  "base_matrix ver = (let size = ver * 4 + 17;
     m = reserveFormat (mx_set 8 (size - 8) True True (placeAlignment ver (placeTiming (placeFinders (newMatrix size))))) in
     if ver \<ge> 7 then reserveVersion m else m)"

section \<open>Data and masks\<close>

definition bitAt :: "bytes \<Rightarrow> nat \<Rightarrow> bool" where
  "bitAt data i \<longleftrightarrow> (if i div 8 \<ge> length data then False else bit (data ! (i div 8)) (7 - i mod 8))"

definition maskFn :: "nat \<Rightarrow> nat \<Rightarrow> nat \<Rightarrow> bool" where
  "maskFn k x y =
    (if k = 0 then (x + y) mod 2 = 0
     else if k = 1 then y mod 2 = 0
     else if k = 2 then x mod 3 = 0
     else if k = 3 then (x + y) mod 3 = 0
     else if k = 4 then (y div 2 + x div 3) mod 2 = 0
     else if k = 5 then x * y mod 2 + x * y mod 3 = 0
     else if k = 6 then (x * y mod 2 + x * y mod 3) mod 2 = 0
     else if k = 7 then ((x + y) mod 2 + x * y mod 3) mod 2 = 0
     else False)"

definition place_module :: "bytes \<Rightarrow> nat \<Rightarrow> nat \<times> nat \<Rightarrow> matrix \<times> nat \<Rightarrow> matrix \<times> nat" where
  "place_module data k = (\<lambda>(x, y) (m, i). if mx_fn m ! y ! x then (m, i)
     else (paint y x (let v = bitAt data i in if maskFn k x y then \<not> v else v) m, i + 1))"

definition column_walk :: "nat \<Rightarrow> nat \<Rightarrow> bool \<Rightarrow> (nat \<times> nat) list" where
  "column_walk sz col up = concat (map (\<lambda>n. let y = (if up then sz - 1 - n else n) in [(col, y), (col - 1, y)]) [0..<sz])"

text \<open>The columns are walked in pairs from the right, skipping the vertical timing column.\<close>

function place_columns :: "bytes \<Rightarrow> nat \<Rightarrow> nat \<Rightarrow> bool \<Rightarrow> matrix \<times> nat \<Rightarrow> matrix \<times> nat" where
  "place_columns data k col up mi = (if col = 0 then mi
     else let col' = (if col = 6 then 5 else col) in
       place_columns data k (col' - 2) (\<not> up) (fold (place_module data k) (column_walk (mx_size (fst mi)) col' up) mi))"
  by pat_completeness auto
termination by (relation "measure (\<lambda>(d, k, col, up, mi). col)") auto

declare place_columns.simps [simp del]

definition placeData :: "bytes \<Rightarrow> nat \<Rightarrow> matrix \<Rightarrow> matrix" where
  "placeData data k m = fst (place_columns data k (mx_size m - 1) True (m, 0))"

section \<open>Format and version information\<close>

definition formatStringsM :: "nat list" where
  "formatStringsM = [0x5412, 0x5125, 0x5E7C, 0x5B4B, 0x45F9, 0x40CE, 0x4F97, 0x4AA0]"

definition format_cells :: "nat \<Rightarrow> (nat \<times> nat \<times> nat) list" where
  "format_cells sz =
    [(8, 0, 14), (8, 1, 13), (8, 2, 12), (8, 3, 11), (8, 4, 10), (8, 5, 9), (8, 7, 8), (8, 8, 7), (7, 8, 6),
     (5, 8, 5), (4, 8, 4), (3, 8, 3), (2, 8, 2), (1, 8, 1), (0, 8, 0),
     (sz - 1, 8, 14), (sz - 2, 8, 13), (sz - 3, 8, 12), (sz - 4, 8, 11), (sz - 5, 8, 10), (sz - 6, 8, 9), (sz - 7, 8, 8),
     (8, sz - 8, 7), (8, sz - 7, 6), (8, sz - 6, 5), (8, sz - 5, 4), (8, sz - 4, 3), (8, sz - 3, 2), (8, sz - 2, 1), (8, sz - 1, 0)]"

definition writeFormat :: "nat \<Rightarrow> matrix \<Rightarrow> matrix" where
  "writeFormat k m = fold (\<lambda>(y, x, i). paint y x (bit (formatStringsM ! k) i)) (format_cells (mx_size m)) m"

definition versionInfo :: "nat \<Rightarrow> nat option" where
  "versionInfo ver = map_of [(7, 0x07C94), (8, 0x085BC), (9, 0x09A99), (10, 0x0A4D3)] ver"

definition writeVersion :: "nat \<Rightarrow> matrix \<Rightarrow> matrix" where
  "writeVersion ver m = (case versionInfo ver of None \<Rightarrow> m
     | Some v \<Rightarrow> fold (\<lambda>i m. let row = i div 3; col = i mod 3 in
         paint row (mx_size m - 11 + col) (bit v i) (paint (mx_size m - 11 + col) row (bit v i) m)) [0..<18] m)"

section \<open>Penalties\<close>

definition run_penalty :: "nat \<Rightarrow> int" where
  "run_penalty run = (if run \<ge> 5 then 3 + int (run - 5) else 0)"

fun line_runs :: "bool \<Rightarrow> nat \<Rightarrow> bool list \<Rightarrow> int" where
  "line_runs p run [] = run_penalty run"
| "line_runs p run (x # xs) = (if x = p then line_runs p (run + 1) xs else run_penalty run + line_runs x 1 xs)"

definition columns :: "matrix \<Rightarrow> bool list list" where
  "columns m = map (\<lambda>x. map (\<lambda>y. mx_val m ! y ! x) [0..<mx_size m]) [0..<mx_size m]"

definition rule1 :: "matrix \<Rightarrow> int" where
  "rule1 m = (\<Sum>l \<leftarrow> mx_val m. line_runs (hd l) 1 (tl l)) + (\<Sum>l \<leftarrow> columns m. line_runs (hd l) 1 (tl l))"

definition rule2 :: "matrix \<Rightarrow> int" where
  "rule2 m = (\<Sum>y \<leftarrow> [0..<mx_size m - 1]. \<Sum>x \<leftarrow> [0..<mx_size m - 1].
     (let v = mx_val m ! y ! x in if mx_val m ! y ! (x + 1) = v \<and> mx_val m ! (y + 1) ! x = v \<and> mx_val m ! (y + 1) ! (x + 1) = v then 3 else 0))"

definition pat1 :: "bool list" where
  "pat1 = [True, False, True, True, True, False, True, False, False, False, False]"

definition pat2 :: "bool list" where
  "pat2 = [False, False, False, False, True, False, True, True, True, False, True]"

definition line_matches :: "bool list \<Rightarrow> int" where
  "line_matches l = (\<Sum>off \<leftarrow> [0..<length l + 1 - 11]. (let w = take 11 (drop off l) in if w = pat1 \<or> w = pat2 then 40 else 0))"

definition rule3 :: "matrix \<Rightarrow> int" where
  "rule3 m = (\<Sum>l \<leftarrow> mx_val m. line_matches l) + (\<Sum>l \<leftarrow> columns m. line_matches l)"

definition rule4 :: "matrix \<Rightarrow> int" where
  "rule4 m = (let dark = int (\<Sum>l \<leftarrow> mx_val m. length (filter id l)); total = int (mx_size m * mx_size m);
     percent = dark * 100 div total; prev = percent div 5 * 5; nxt = prev + 5; a = \<bar>prev - 50\<bar> div 5; b = \<bar>nxt - 50\<bar> div 5 in
     if a < b then a * 10 else b * 10)"

definition penalty :: "matrix \<Rightarrow> int" where
  "penalty m = rule1 m + rule2 m + rule3 m + rule4 m"

section \<open>Mask selection and the symbol\<close>

definition masked :: "bytes \<Rightarrow> nat \<Rightarrow> nat \<Rightarrow> matrix" where
  "masked final ver k = (let m = writeFormat k (placeData final k (base_matrix ver)) in if ver \<ge> 7 then writeVersion ver m else m)"

definition select_mask :: "bytes \<Rightarrow> nat \<Rightarrow> nat \<Rightarrow> bool list list \<times> int \<Rightarrow> bool list list \<times> int" where
  "select_mask final ver k = (\<lambda>(best, bestPenalty). let m = masked final ver k; p = penalty m in
     if p < bestPenalty then (mx_val m, p) else (best, bestPenalty))"

definition placeAndMask :: "bytes \<Rightarrow> nat \<Rightarrow> bool list list" where
  "placeAndMask final ver = fst (fold (select_mask final ver) [0..<8] ([], 2 ^ 30))"

definition encode :: "bytes \<Rightarrow> bool list list option" where
  "encode data = (let ver = pickVersion (length data) in if ver = 0 then None
     else Some (placeAndMask (interleave (bitsToCodewords (buildDataBits data ver) (dataCodewordsM ! (ver - 1))) (ver - 1)) ver))"

section \<open>Half-block text\<close>

definition cellGlyph :: "bool \<Rightarrow> bool \<Rightarrow> bytes" where
  "cellGlyph upper lower = (if upper \<and> lower then [0xE2, 0x96, 0x88]
     else if upper \<and> \<not> lower then [0xE2, 0x96, 0x80]
     else if \<not> upper \<and> lower then [0xE2, 0x96, 0x84] else [0x20])"

definition padded :: "bool list list \<Rightarrow> bool list list" where
  "padded mat = (let n = length mat; size = n + 8 in
     fold (\<lambda>y. fold (\<lambda>x p. put (y + 4) (x + 4) (mat ! y ! x) p) [0..<n]) [0..<n] (replicate size (replicate size False)))"

fun render_rows :: "bool list list \<Rightarrow> bytes" where
  "render_rows [] = []"
| "render_rows [r] = concat (map (\<lambda>a. cellGlyph a False) r) @ [0x0A]"
| "render_rows (r # s # rs) = concat (map (\<lambda>x. cellGlyph (r ! x) (s ! x)) [0..<length r]) @ [0x0A] @ render_rows rs"

definition renderHalfBlocks :: "bool list list \<Rightarrow> bytes" where
  "renderHalfBlocks mat = render_rows (padded mat)"

definition QRString :: "bytes \<Rightarrow> bytes option" where
  "QRString s = map_option renderHalfBlocks (encode s)"

text \<open>What \<open>QR\<close> writes.\<close>

definition QR :: "bool \<Rightarrow> bytes \<Rightarrow> bytes" where
  "QR quiet s = (if quiet then [] else case QRString s of None \<Rightarrow> [] | Some out \<Rightarrow> out)"

end
