(* ===== verification/QR_Payload.thy ===== *)
theory QR_Payload
  imports QR_Matrix
begin

text \<open>
  Reading a symbol back: the bit stream of \<open>buildDataBits\<close> and a reader of it, the codewords of \<open>bitsToCodewords\<close>, and the
  positions at which \<open>interleave\<close> puts the codewords of every block.
\<close>

unbundle bit_operations_syntax

section \<open>The bit stream\<close>

definition bits_of :: "nat \<Rightarrow> nat \<Rightarrow> bool list" where
  "bits_of v n = map (\<lambda>i. bit v i) (rev [0..<n])"

lemma appendBits_bits: "appendBits bits v n = bits @ bits_of v n"
  by (simp add: appendBits_def bits_of_def)

lemma length_bits_of [simp]: "length (bits_of v n) = n"
  by (simp add: bits_of_def)

text \<open>The value of a bit string, most significant bit first.\<close>

definition value_of :: "bool list \<Rightarrow> nat" where
  "value_of bs = fold (\<lambda>b v. 2 * v + of_bool b) bs 0"

lemma value_of_snoc: "value_of (bs @ [b]) = 2 * value_of bs + of_bool b"
  by (simp add: value_of_def)

lemma value_of_bits: "value_of (bits_of v n) = v mod 2 ^ n"
proof (induction n arbitrary: v)
  case 0
  show ?case by (simp add: value_of_def bits_of_def)
next
  case (Suc n)
  have "bits_of v (Suc n) = bits_of (v div 2) n @ [odd v]"
    by (rule nth_equalityI) (auto simp: bits_of_def rev_nth nth_append bit_Suc [symmetric] bit_0 Suc_diff_Suc simp del: upt_Suc)
  hence "value_of (bits_of v (Suc n)) = 2 * (v div 2 mod 2 ^ n) + of_bool (odd v)" by (simp add: value_of_snoc Suc.IH)
  also have "\<dots> = v mod 2 ^ Suc n" unfolding power_Suc mod_mult2_eq by (simp add: mod2_eq_if)
  finally show ?case .
qed

lemma payload_bits_concat: "payload_bits data ver =
  bits_of 4 4 @ bits_of (length data) (if ver \<ge> 10 then 16 else 8) @ concat (map (\<lambda>b. bits_of (unat b) 8) data)"
proof -
  have "fold (\<lambda>b bits. appendBits bits (unat b) 8) data s = s @ concat (map (\<lambda>b. bits_of (unat b) 8) data)" for s
    by (induction data arbitrary: s) (simp_all add: appendBits_bits)
  thus ?thesis by (simp add: payload_bits_def) (simp add: appendBits_bits)
qed

lemma length_payload_bits: "length (payload_bits data ver) = 4 + (if ver \<ge> 10 then 16 else 8) + 8 * length data"
  by (induction data) (auto simp: payload_bits_concat)

lemma pad_bytes_prefix: "\<exists>t. pad_bytes cap i bits = bits @ t"
proof (induction cap i bits rule: pad_bytes.induct)
  case (1 cap i bits)
  thus ?case by (cases "length bits < cap") (auto simp: pad_bytes.simps [of cap i bits] appendBits_bits)
qed

lemma pad_bytes_length: "length bits mod 8 = 0 \<Longrightarrow> cap mod 8 = 0 \<Longrightarrow> length bits \<le> cap \<Longrightarrow> length (pad_bytes cap i bits) = cap"
proof (induction cap i bits rule: pad_bytes.induct)
  case (1 cap i bits)
  show ?case
  proof (cases "length bits < cap")
    case True
    hence "length bits + 8 \<le> cap" using "1.prems" by presburger
    thus ?thesis using True "1.IH" "1.prems" by (simp add: pad_bytes.simps [of cap i bits])
  qed (use "1.prems" in \<open>simp add: pad_bytes.simps [of cap i bits]\<close>)
qed

lemma round_up:
  fixes x cap :: nat
  assumes "x \<le> cap" "cap mod 8 = 0"
  shows "x + (if x mod 8 \<noteq> 0 then 8 - x mod 8 else 0) \<le> cap \<and> (x + (if x mod 8 \<noteq> 0 then 8 - x mod 8 else 0)) mod 8 = 0"
proof -
  obtain q r where x: "x = 8 * q + r" "r < 8" by (metis mult.commute div_mult_mod_eq mod_less_divisor zero_less_numeral)
  obtain k where c: "cap = 8 * k" using assms(2) by auto
  have m: "x mod 8 = r" using x by simp
  show ?thesis
  proof (cases "r = 0")
    case False
    hence "q < k" using assms(1) x c by linarith
    moreover have "x + (8 - x mod 8) = 8 * (q + 1)" using x m by simp
    ultimately show ?thesis using False c m by simp
  qed (use assms m x in simp)
qed

text \<open>The stream fills the data capacity exactly and starts with the mode, the count and the bytes.\<close>

lemma buildDataBits_exact:
  assumes "length (payload_bits data ver) \<le> dataCodewordsM ! (ver - 1) * 8"
  shows "length (buildDataBits data ver) = dataCodewordsM ! (ver - 1) * 8 \<and> (\<exists>t. buildDataBits data ver = payload_bits data ver @ t)"
proof -
  define cap where "cap = dataCodewordsM ! (ver - 1) * 8"
  define p where "p = payload_bits data ver"
  define a where "a = min 4 (cap - length p)"
  define q where "q = p @ bits_of 0 a"
  define r where "r = q @ bits_of 0 (if length q mod 8 \<noteq> 0 then 8 - length q mod 8 else 0)"
  have c: "length p \<le> cap" "cap mod 8 = 0" using assms by (simp_all add: p_def cap_def)
  have nil: "bits_of 0 0 = []" by (simp add: bits_of_def)
  have "buildDataBits data ver = pad_bytes cap 0 r"
  proof -
    have "nat (if int cap - int (length p) > 4 then 4 else int cap - int (length p)) = a"
      "(if int cap - int (length p) > 4 then 4 else int cap - int (length p)) > 0 \<longleftrightarrow> a > 0"
      using c(1) by (auto simp: a_def)
    hence "(if (if int cap - int (length p) > 4 then 4 else int cap - int (length p)) > 0
        then appendBits p 0 (nat (if int cap - int (length p) > 4 then 4 else int cap - int (length p))) else p) = q"
      by (simp add: q_def appendBits_bits nil del: if_split)
    hence "buildDataBits data ver = pad_bytes cap 0 (if length q mod 8 \<noteq> 0 then appendBits q 0 (8 - length q mod 8) else q)"
      unfolding buildDataBits_def Let_def p_def [symmetric] cap_def [symmetric] by (simp only:)
    thus ?thesis by (simp add: r_def appendBits_bits nil)
  qed
  moreover have "length q \<le> cap" using c(1) by (simp add: q_def a_def)
  moreover from this c(2) have "length r \<le> cap" "length r mod 8 = 0"
    using round_up [of "length q" cap] by (simp_all add: r_def)
  ultimately have "length (buildDataBits data ver) = cap" "\<exists>t. buildDataBits data ver = r @ t"
    using pad_bytes_length [of r cap 0] pad_bytes_prefix [of cap 0 r] c(2) by auto
  thus ?thesis by (auto simp: cap_def r_def q_def p_def)
qed

text \<open>A reader of the stream.\<close>

fun chop8 :: "nat \<Rightarrow> bool list \<Rightarrow> bytes" where
  "chop8 0 bs = []"
| "chop8 (Suc n) bs = word_of_nat (value_of (take 8 bs)) # chop8 n (drop 8 bs)"

definition read_stream :: "nat \<Rightarrow> bool list \<Rightarrow> bytes option" where
  "read_stream ver bs = (let cc = (if ver \<ge> 10 then 16 else 8) in
     if value_of (take 4 bs) \<noteq> 4 then None else Some (chop8 (value_of (take cc (drop 4 bs))) (drop (4 + cc) bs)))"

lemma chop8_bytes: "chop8 (length data) (concat (map (\<lambda>b. bits_of (unat b) 8) data) @ t) = data"
proof (induction data)
  case (Cons b data)
  have "unat b < 256" using unsigned_less [of b] by simp
  hence "unat b mod 256 = unat b" by simp
  thus ?case using Cons by (simp add: value_of_bits)
qed simp

lemma read_stream_payload:
  assumes "length data < 256"
  shows "read_stream ver (payload_bits data ver @ t) = Some data"
  using assms by (auto simp: read_stream_def Let_def payload_bits_concat value_of_bits chop8_bytes)

section \<open>Codewords\<close>

lemma codeword_bit:
  assumes "j < 8"
  shows "bit (codeword bits i) (7 - j) \<longleftrightarrow> i * 8 + j < length bits \<and> bits ! (i * 8 + j)"
proof -
  have "m \<le> 8 \<Longrightarrow> bit (fold (\<lambda>j b. let idx = i * 8 + j in if idx < length bits \<and> bits ! idx then b OR push_bit (7 - j) 1 else b) [0..<m] (0 :: 8 word)) (7 - j)
      \<longleftrightarrow> j < m \<and> i * 8 + j < length bits \<and> bits ! (i * 8 + j)" for m
  proof (induction m)
    case (Suc m)
    have "7 - j = 7 - m \<longleftrightarrow> j = m" using assms Suc.prems by auto
    hence "bit (push_bit (7 - m) (1 :: 8 word)) (7 - j) \<longleftrightarrow> j = m" by (auto simp: bit_simps)
    thus ?case using Suc by (auto simp: Let_def bit_or_iff less_Suc_eq simp del: push_bit_of_1)
  qed simp
  thus ?thesis using assms unfolding codeword_def by blast
qed

lemma bitAt_codewords: "length bits = n * 8 \<Longrightarrow> i < n * 8 \<Longrightarrow> bitAt (bitsToCodewords bits n) i = bits ! i"
  using codeword_bit [of "i mod 8" bits "i div 8"] less_mult_imp_div_less [of i n 8]
  by (simp add: bitAt_def bitsToCodewords_def not_le [symmetric])

lemma length_bitsToCodewords [simp]: "length (bitsToCodewords bits n) = n"
  by (simp add: bitsToCodewords_def)

lemma codewords_bits: "length bits = n * 8 \<Longrightarrow> map (bitAt (bitsToCodewords bits n)) [0..<n * 8] = bits"
  by (rule nth_equalityI) (simp_all add: bitAt_codewords)

section \<open>Interleaving\<close>

lemma addBlocks_map: "addBlocks ecLen n cw d =
  (map (\<lambda>i. (take cw (drop (i * cw) d), reedSolomon (take cw (drop (i * cw) d)) ecLen)) [0..<n], drop (n * cw) d)"
proof (induction n arbitrary: d)
  case (Suc n)
  show ?case unfolding addBlocks.simps Suc.IH by (simp add: upt_conv_Cons map_Suc_upt [symmetric] add.commute del: upt_Suc)
qed simp

definition layout_ok :: "blockLayout \<Rightarrow> bool" where
  "layout_ok lay \<longleftrightarrow> (if bl_g2 lay = 0 then bl_g2cw lay = 0 else bl_g2cw lay = bl_g1cw lay + 1)"

definition layout_size :: "blockLayout \<Rightarrow> nat" where
  "layout_size lay = bl_g1 lay * bl_g1cw lay + bl_g2 lay * bl_g2cw lay"

lemma layouts: "vi < 10 \<Longrightarrow> layout_ok (blocksM ! vi) \<and> layout_size (blocksM ! vi) = dataCodewordsM ! vi \<and> bl_g1 (blocksM ! vi) > 0"
proof -
  have "list_all (\<lambda>vi. layout_ok (blocksM ! vi) \<and> layout_size (blocksM ! vi) = dataCodewordsM ! vi \<and> bl_g1 (blocksM ! vi) > 0) [0..<10]" by code_simp
  thus "vi < 10 \<Longrightarrow> ?thesis" by (simp add: list_all_iff)
qed

lemma concat_slices: "length d = n * k \<Longrightarrow> concat (map (\<lambda>i. take k (drop (i * k) d)) [0..<n]) = d"
proof (induction n arbitrary: d)
  case (Suc n)
  have "concat (map (\<lambda>i. take k (drop (i * k) (drop k d))) [0..<n]) = drop k d" using Suc.prems by (intro Suc.IH) simp
  thus ?case by (simp add: upt_conv_Cons map_Suc_upt [symmetric] add.commute comp_def del: upt_Suc)
qed simp

text \<open>The blocks cut the data codewords into pieces of the layout.\<close>

definition first_blocks :: "blockLayout \<Rightarrow> nat \<Rightarrow> bytes \<Rightarrow> (bytes \<times> bytes) list" where
  "first_blocks lay ecLen d = map (\<lambda>i. let x = take (bl_g1cw lay) (drop (i * bl_g1cw lay) d) in (x, reedSolomon x ecLen)) [0..<bl_g1 lay]"

definition second_blocks :: "blockLayout \<Rightarrow> nat \<Rightarrow> bytes \<Rightarrow> (bytes \<times> bytes) list" where
  "second_blocks lay ecLen d = map (\<lambda>i. let x = take (bl_g2cw lay) (drop (i * bl_g2cw lay) (drop (bl_g1 lay * bl_g1cw lay) d)) in
     (x, reedSolomon x ecLen)) [0..<bl_g2 lay]"

lemma blocks_of_split: "blocks_of d vi = first_blocks (blocksM ! vi) (ecPerBlockM ! vi) d @ second_blocks (blocksM ! vi) (ecPerBlockM ! vi) d"
  by (simp add: blocks_of_def Let_def addBlocks_map first_blocks_def second_blocks_def)

lemma slice_length: "i < n \<Longrightarrow> n * k \<le> length d \<Longrightarrow> length (take k (drop (i * k) d)) = k"
  and slice_inside: "i < n \<Longrightarrow> take k (drop (i * k) (take (n * k) d)) = take k (drop (i * k) d)"
proof -
  assume "i < n"
  hence r: "k + i * k \<le> n * k" using mult_le_mono1 [of "Suc i" n k] by simp
  thus "n * k \<le> length d \<Longrightarrow> length (take k (drop (i * k) d)) = k" by simp
  show "take k (drop (i * k) (take (n * k) d)) = take k (drop (i * k) d)" using r by (simp add: take_drop min_absorb1)
qed

lemma blocks_lengths:
  assumes "length d = layout_size lay"
  shows "length (first_blocks lay e d) = bl_g1 lay" "length (second_blocks lay e d) = bl_g2 lay"
    "x \<in> set (first_blocks lay e d) \<Longrightarrow> length (fst x) = bl_g1cw lay"
    "x \<in> set (second_blocks lay e d) \<Longrightarrow> length (fst x) = bl_g2cw lay"
    "concat (map fst (first_blocks lay e d @ second_blocks lay e d)) = d"
proof -
  show "length (first_blocks lay e d) = bl_g1 lay" "length (second_blocks lay e d) = bl_g2 lay"
    by (simp_all add: first_blocks_def second_blocks_def)
  show "x \<in> set (first_blocks lay e d) \<Longrightarrow> length (fst x) = bl_g1cw lay"
    using assms slice_length [of _ "bl_g1 lay" "bl_g1cw lay" d] by (auto simp: first_blocks_def layout_size_def Let_def)
  show "x \<in> set (second_blocks lay e d) \<Longrightarrow> length (fst x) = bl_g2cw lay"
    using assms slice_length [of _ "bl_g2 lay" "bl_g2cw lay" "drop (bl_g1 lay * bl_g1cw lay) d"]
    by (auto simp: second_blocks_def layout_size_def Let_def)
  let ?a = "bl_g1 lay * bl_g1cw lay"
  have "map fst (first_blocks lay e d) = map (\<lambda>i. take (bl_g1cw lay) (drop (i * bl_g1cw lay) (take ?a d))) [0..<bl_g1 lay]"
    by (simp add: first_blocks_def Let_def slice_inside)
  moreover have "concat \<dots> = take ?a d" using assms by (intro concat_slices) (simp add: layout_size_def)
  moreover have "concat (map fst (second_blocks lay e d)) = drop ?a d"
    using assms concat_slices [of "drop ?a d" "bl_g2 lay" "bl_g2cw lay"] by (simp add: second_blocks_def Let_def comp_def layout_size_def)
  ultimately show "concat (map fst (first_blocks lay e d @ second_blocks lay e d)) = d" by simp
qed

text \<open>Where the codeword \<open>c\<close> of block \<open>b\<close> stands in the interleaved sequence.\<close>

definition block_pos :: "nat \<Rightarrow> nat \<Rightarrow> nat \<Rightarrow> nat" where
  "block_pos vi b c = (let lay = blocksM ! vi; nb = bl_g1 lay + bl_g2 lay in
     if c < bl_g1cw lay then c * nb + b else bl_g1cw lay * nb + (b - bl_g1 lay))"

definition deinterleave :: "nat \<Rightarrow> bytes \<Rightarrow> bytes" where
  "deinterleave vi cws = (let lay = blocksM ! vi in
     concat (map (\<lambda>b. map (\<lambda>c. cws ! block_pos vi b c) [0..<if b < bl_g1 lay then bl_g1cw lay else bl_g2cw lay]) [0..<bl_g1 lay + bl_g2 lay]))"

lemma concat_rows_nth:
  assumes "\<And>c. c < n \<Longrightarrow> length (f c) = k" "c < n" "b < k"
  shows "concat (map f [0..<n]) ! (c * k + b) = f c ! b"
  using assms
proof (induction n arbitrary: f c)
  case (Suc n)
  have e: "concat (map f [0..<Suc n]) = f 0 @ concat (map (\<lambda>i. f (Suc i)) [0..<n])"
    by (simp add: upt_conv_Cons map_Suc_upt [symmetric] comp_def del: upt_Suc)
  show ?case
  proof (cases c)
    case 0
    thus ?thesis using Suc.prems e by (simp add: nth_append)
  next
    case (Suc c')
    thus ?thesis using Suc.prems e Suc.IH [of "\<lambda>i. f (Suc i)" c'] by (simp add: nth_append)
  qed
qed simp

lemma length_concat_rows: "(\<And>c. c < n \<Longrightarrow> length (f c) = k) \<Longrightarrow> length (concat (map f [0..<n])) = n * k"
  by (induction n) simp_all

definition column :: "(bytes \<times> bytes) list \<Rightarrow> nat \<Rightarrow> bytes" where
  "column blocks c = concat (map (\<lambda>(d, ec). if c < length d then [d ! c] else []) blocks)"

lemma column_append: "column (xs @ ys) c = column xs c @ column ys c"
  by (simp add: column_def)

lemma column_full: "\<forall>x \<in> set bs. c < length (fst x) \<Longrightarrow> column bs c = map (\<lambda>x. fst x ! c) bs"
  by (induction bs) (auto simp: column_def split: prod.split)

lemma column_empty: "\<forall>x \<in> set bs. length (fst x) \<le> c \<Longrightarrow> column bs c = []"
  by (induction bs) (auto simp: column_def split: prod.split)

lemma interleave_data:
  fixes lay :: blockLayout and d :: bytes and e :: nat
  assumes "layout_ok lay" "length d = layout_size lay"
  defines "A \<equiv> first_blocks lay e d" and "B \<equiv> second_blocks lay e d"
  defines "D \<equiv> concat (map (column (A @ B)) [0..<max (bl_g1cw lay) (bl_g2cw lay)])"
  shows "D = concat (map (\<lambda>c. map (\<lambda>x. fst x ! c) (A @ B)) [0..<bl_g1cw lay]) @ map (\<lambda>x. fst x ! bl_g1cw lay) B"
proof -
  note len = blocks_lengths [OF assms(2), where e = e, folded A_def B_def]
  have below: "map (column (A @ B)) [0..<bl_g1cw lay] = map (\<lambda>c. map (\<lambda>x. fst x ! c) (A @ B)) [0..<bl_g1cw lay]"
  proof (rule map_cong [OF refl])
    fix c assume "c \<in> set [0..<bl_g1cw lay]"
    hence "c < bl_g1cw lay" by simp
    moreover have "B \<noteq> [] \<Longrightarrow> bl_g1cw lay \<le> bl_g2cw lay" using assms(1) len(2) by (auto simp: layout_ok_def split: if_split_asm)
    ultimately show "column (A @ B) c = map (\<lambda>x. fst x ! c) (A @ B)" using len(3,4) by (intro column_full) force
  qed
  show ?thesis
  proof (cases "bl_g2 lay = 0")
    case True
    hence "max (bl_g1cw lay) (bl_g2cw lay) = bl_g1cw lay" "B = []" using assms(1) len(2) by (simp_all add: layout_ok_def)
    thus ?thesis using below by (simp only: D_def) simp
  next
    case False
    hence g: "bl_g2cw lay = bl_g1cw lay + 1" using assms(1) by (simp add: layout_ok_def)
    have "column A (bl_g1cw lay) = []" using len(3) by (intro column_empty) simp
    moreover have "column B (bl_g1cw lay) = map (\<lambda>x. fst x ! bl_g1cw lay) B" using len(4) g by (intro column_full) simp
    ultimately have "column (A @ B) (bl_g1cw lay) = map (\<lambda>x. fst x ! bl_g1cw lay) B" by (simp add: column_append)
    moreover have "[0..<max (bl_g1cw lay) (bl_g2cw lay)] = [0..<bl_g1cw lay] @ [bl_g1cw lay]" using g by simp
    ultimately show ?thesis unfolding D_def by (simp only: map_append concat_append below list.map concat.simps append_Nil2)
  qed
qed

text \<open>Every codeword of every block stands at its position.\<close>

lemma interleave_nth:
  assumes "vi < 10" "length d = dataCodewordsM ! vi"
    and b: "b < length (blocks_of d vi)" and c: "c < length (fst (blocks_of d vi ! b))"
  shows "interleave d vi ! block_pos vi b c = fst (blocks_of d vi ! b) ! c"
proof -
  define lay where "lay = blocksM ! vi"
  define A where "A = first_blocks lay (ecPerBlockM ! vi) d"
  define B where "B = second_blocks lay (ecPerBlockM ! vi) d"
  define f where "f = (\<lambda>c. map (\<lambda>x. fst x ! c) (A @ B))"
  have lay: "layout_ok lay" "length d = layout_size lay" using layouts [OF assms(1)] assms(2) by (simp_all add: lay_def)
  note len = blocks_lengths [OF lay(2), where e = "ecPerBlockM ! vi", folded A_def B_def]
  have bs: "blocks_of d vi = A @ B" by (simp add: blocks_of_split A_def B_def lay_def)
  obtain ec where il: "interleave d vi = (concat (map f [0..<bl_g1cw lay]) @ map (\<lambda>x. fst x ! bl_g1cw lay) B) @ ec"
    using interleave_data [OF lay, where e = "ecPerBlockM ! vi"]
    by (auto simp: interleave_def Let_def lay_def [symmetric] bs A_def [symmetric] B_def [symmetric] column_def [abs_def] f_def)
  let ?nb = "bl_g1 lay + bl_g2 lay"
  have rows: "length (f c) = ?nb" for c using len(1,2) by (simp add: f_def)
  have bn: "b < ?nb" using b len(1,2) by (simp add: bs)
  have first: "length (concat (map f [0..<bl_g1cw lay])) = bl_g1cw lay * ?nb" by (rule length_concat_rows) (rule rows)
  show ?thesis
  proof (cases "c < bl_g1cw lay")
    case True
    have "c * ?nb + b < bl_g1cw lay * ?nb" using bn True mult_le_mono1 [of "Suc c" "bl_g1cw lay" ?nb] by simp
    moreover have "concat (map f [0..<bl_g1cw lay]) ! (c * ?nb + b) = f c ! b" by (rule concat_rows_nth [OF rows True bn])
    moreover have "f c ! b = fst ((A @ B) ! b) ! c" using b unfolding f_def bs by (rule nth_map)
    ultimately show ?thesis using True first by (simp add: il block_pos_def Let_def lay_def [symmetric] nth_append bs)
  next
    case False
    have "\<not> b < bl_g1 lay"
    proof
      assume "b < bl_g1 lay"
      hence "(A @ B) ! b \<in> set A" using len(1) by (simp add: nth_append)
      thus False using len(3) c False by (simp add: bs)
    qed
    hence i: "b - bl_g1 lay < length B" "(A @ B) ! b = B ! (b - bl_g1 lay)" using bn len(1,2) by (simp_all add: nth_append)
    hence "length (fst (B ! (b - bl_g1 lay))) = bl_g2cw lay" using len(4) by simp
    moreover have "bl_g2 lay \<noteq> 0" using i(1) len(2) by auto
    ultimately have "c = bl_g1cw lay" using c False lay(1) i(2) by (simp add: bs layout_ok_def)
    thus ?thesis using i first by (simp add: il block_pos_def Let_def lay_def [symmetric] nth_append bs)
  qed
qed

lemma deinterleave_interleave:
  assumes "vi < 10" "length d = dataCodewordsM ! vi"
  shows "deinterleave vi (interleave d vi) = d"
proof -
  let ?lay = "blocksM ! vi" let ?bs = "blocks_of d vi"
  have lay: "length d = layout_size ?lay" using layouts [OF assms(1)] assms(2) by simp
  note len = blocks_lengths [OF lay, where e = "ecPerBlockM ! vi"]
  have n: "length ?bs = bl_g1 ?lay + bl_g2 ?lay" using len(1,2) by (simp add: blocks_of_split)
  have "map (\<lambda>c. interleave d vi ! block_pos vi b c) [0..<if b < bl_g1 ?lay then bl_g1cw ?lay else bl_g2cw ?lay] = fst (?bs ! b)"
    if "b < length ?bs" for b
  proof -
    have "length (fst (?bs ! b)) = (if b < bl_g1 ?lay then bl_g1cw ?lay else bl_g2cw ?lay)"
      using that n len(1-4) by (auto simp: blocks_of_split nth_append)
    thus ?thesis using interleave_nth [OF assms that] by (intro nth_equalityI) simp_all
  qed
  hence "map (\<lambda>b. map (\<lambda>c. interleave d vi ! block_pos vi b c) [0..<if b < bl_g1 ?lay then bl_g1cw ?lay else bl_g2cw ?lay]) [0..<length ?bs]
      = map fst ?bs" by (intro nth_equalityI) simp_all
  moreover have "deinterleave vi (interleave d vi) =
      concat (map (\<lambda>b. map (\<lambda>c. interleave d vi ! block_pos vi b c) [0..<if b < bl_g1 ?lay then bl_g1cw ?lay else bl_g2cw ?lay]) [0..<length ?bs])"
    by (simp only: deinterleave_def Let_def n)
  ultimately have "deinterleave vi (interleave d vi) = concat (map fst ?bs)" by (simp only:)
  thus ?thesis using len(5) by (simp only: blocks_of_split)
qed

end
