(* ===== verification/QR_Symbol.thy ===== *)
theory QR_Symbol
  imports QR_Payload
begin

text \<open>
  The symbol read back: the zig-zag walk visits every module once, so the data modules hold the codewords under the mask,
  the format information does not touch them, and the selected mask is the first of least penalty.
\<close>

section \<open>Shape\<close>

definition square :: "matrix \<Rightarrow> bool" where
  "square m \<longleftrightarrow> length (mx_val m) = mx_size m \<and> list_all (\<lambda>r. length r = mx_size m) (mx_val m) \<and>
     length (mx_fn m) = mx_size m \<and> list_all (\<lambda>r. length r = mx_size m) (mx_fn m)"

lemma put_shape: "y < length t \<Longrightarrow> list_all (\<lambda>r. length r = n) t \<Longrightarrow> list_all (\<lambda>r. length r = n) (put y x b t)"
  by (auto simp: put_def list_all_length nth_list_update)

lemma length_put [simp]: "length (put y x b t) = length t"
  by (simp add: put_def)

lemma put_nth: "y < length t \<Longrightarrow> x < length (t ! y) \<Longrightarrow> put y x b t ! y' ! x' = (if y' = y \<and> x' = x then b else t ! y' ! x')"
  by (auto simp: put_def nth_list_update)

lemma paint_simps [simp]: "mx_size (paint y x b m) = mx_size m" "mx_fn (paint y x b m) = mx_fn m" "mx_val (paint y x b m) = put y x b (mx_val m)"
  by (simp_all add: paint_def)

lemma paint_square: "square m \<Longrightarrow> y < mx_size m \<Longrightarrow> square (paint y x b m)"
  by (simp add: square_def put_shape)

lemma paint_nth:
  assumes "square m" "y < mx_size m" "x < mx_size m"
  shows "mx_val (paint y x b m) ! y' ! x' = (if y' = y \<and> x' = x then b else mx_val m ! y' ! x')"
  using assms by (simp add: square_def list_all_length put_nth)

section \<open>The walk\<close>

function walk :: "nat \<Rightarrow> nat \<Rightarrow> bool \<Rightarrow> (nat \<times> nat) list" where
  "walk sz col up = (if col = 0 then []
     else let col' = (if col = 6 then 5 else col) in column_walk sz col' up @ walk sz (col' - 2) (\<not> up))"
  by pat_completeness auto
termination by (relation "measure (\<lambda>(sz, col, up). col)") auto

declare walk.simps [simp del]

lemma set_column_walk: "(x, y) \<in> set (column_walk sz col up) \<Longrightarrow> y < sz \<and> (x = col \<or> x = col - 1)"
  by (auto simp: column_walk_def Let_def split: if_split_asm)

lemma distinct_column_walk:
  assumes "0 < col"
  shows "distinct (column_walk sz col up)"
proof -
  have d: "distinct (concat (map (\<lambda>n. [(col, f n), (col - 1, f n)]) ns))" if "distinct (map f ns)" for f :: "nat \<Rightarrow> nat" and ns
    using that assms by (induction ns) auto
  have "distinct (map (\<lambda>n. if up then sz - 1 - n else n) [0..<sz])"
    by (auto simp: distinct_map inj_on_def)
  from d [OF this] show ?thesis by (simp add: column_walk_def Let_def)
qed

lemma set_walk: "(x, y) \<in> set (walk sz col up) \<Longrightarrow> x \<le> col \<and> y < sz"
proof (induction sz col up rule: walk.induct)
  case (1 sz col up)
  thus ?case by (subst (asm) walk.simps) (force simp: Let_def dest: set_column_walk split: if_split_asm)
qed

lemma distinct_walk: "distinct (walk sz col up)"
proof (induction sz col up rule: walk.induct)
  case (1 sz col up)
  show ?case
  proof (cases "col = 0")
    case False
    define c where "c = (if col = 6 then 5 else col)"
    have "0 < c" using False by (simp add: c_def)
    have "set (column_walk sz c up) \<inter> set (walk sz (c - 2) (\<not> up)) = {}"
    proof (intro equals0I, elim IntE)
      fix p assume p: "p \<in> set (column_walk sz c up)" "p \<in> set (walk sz (c - 2) (\<not> up))"
      obtain x y where "p = (x, y)" by (cases p)
      hence "x = c \<or> x = c - 1" "x \<le> c - 2" "p \<in> set (walk sz (c - 2) (\<not> up))" using p set_column_walk set_walk by blast+
      hence "c = 1 \<and> x = 0" using \<open>0 < c\<close> by auto
      hence "walk sz (c - 2) (\<not> up) = []" by (simp add: walk.simps)
      thus False using p(2) by simp
    qed
    thus ?thesis using False 1 \<open>0 < c\<close> by (subst walk.simps) (simp add: Let_def c_def [symmetric] distinct_column_walk)
  qed (simp add: walk.simps)
qed

lemma place_module_fst: "mx_size (fst (place_module data k p mi)) = mx_size (fst mi)" "mx_fn (fst (place_module data k p mi)) = mx_fn (fst mi)"
  by (simp_all add: place_module_def split_def)

lemma place_fold_fst: "mx_size (fst (fold (place_module data k) ws mi)) = mx_size (fst mi)" "mx_fn (fst (fold (place_module data k) ws mi)) = mx_fn (fst mi)"
  by (induction ws arbitrary: mi) (simp_all add: place_module_fst)

lemma place_columns_walk: "place_columns data k col up mi = fold (place_module data k) (walk (mx_size (fst mi)) col up) mi"
proof (induction data k col up mi rule: place_columns.induct)
  case (1 data k col up mi)
  show ?case
  proof (cases "col = 0")
    case False
    thus ?thesis using 1 by (subst place_columns.simps, subst walk.simps) (simp add: Let_def place_fold_fst)
  qed (simp add: place_columns.simps walk.simps)
qed

text \<open>Each free module of the walk gets the next bit under the mask; every other module keeps its value.\<close>

lemma place_fold:
  fixes data :: bytes and k i :: nat and m :: matrix and ws :: "(nat \<times> nat) list"
  assumes "square m" "distinct ws" "\<forall>(x, y) \<in> set ws. x < mx_size m \<and> y < mx_size m"
  defines "free \<equiv> filter (\<lambda>(x, y). \<not> mx_fn m ! y ! x) ws" and "m' \<equiv> fst (fold (place_module data k) ws (m, i))"
  shows "square m' \<and> (\<forall>j < length free. mx_val m' ! snd (free ! j) ! fst (free ! j) = (bitAt data (i + j) \<noteq> maskFn k (fst (free ! j)) (snd (free ! j)))) \<and>
    (\<forall>x y. (x, y) \<notin> set free \<longrightarrow> mx_val m' ! y ! x = mx_val m ! y ! x)"
  using assms(1-3) unfolding free_def m'_def
proof (induction ws arbitrary: m i)
  case (Cons p ws)
  obtain x y where p: "p = (x, y)" by (cases p)
  have r: "x < mx_size m" "y < mx_size m" using Cons.prems(3) p by auto
  show ?case
  proof (cases "mx_fn m ! y ! x")
    case True
    thus ?thesis using Cons by (simp add: p place_module_def)
  next
    case False
    define v where "v = (bitAt data i \<noteq> maskFn k x y)"
    define m1 where "m1 = paint y x v m"
    have s: "place_module data k p (m, i) = (m1, i + 1)" using False by (simp add: p place_module_def m1_def v_def Let_def)
    have "square m1" using Cons.prems(1) r by (simp add: m1_def paint_square)
    note IH = Cons.IH [OF this, of "i + 1"]
    have f: "mx_fn m1 = mx_fn m" "mx_size m1 = mx_size m" by (simp_all add: m1_def)
    let ?free = "filter (\<lambda>(x, y). \<not> mx_fn m ! y ! x) ws" and ?m' = "fst (fold (place_module data k) ws (m1, i + 1))"
    have I: "square ?m'" "\<forall>j < length ?free. mx_val ?m' ! snd (?free ! j) ! fst (?free ! j) = (bitAt data (i + 1 + j) \<noteq> maskFn k (fst (?free ! j)) (snd (?free ! j)))"
      "\<forall>x y. (x, y) \<notin> set ?free \<longrightarrow> mx_val ?m' ! y ! x = mx_val m1 ! y ! x"
      using IH Cons.prems(2,3) by (simp_all add: f)
    have old: "mx_val m1 ! y' ! x' = (if y' = y \<and> x' = x then v else mx_val m ! y' ! x')" for x' y'
      unfolding m1_def by (rule paint_nth [OF Cons.prems(1) r(2,1)])
    have "(x, y) \<notin> set ?free" using Cons.prems(2) p by auto
    hence "mx_val ?m' ! y ! x = v" using I(3) old by simp
    moreover have "filter (\<lambda>(x, y). \<not> mx_fn m ! y ! x) (p # ws) = (x, y) # ?free" using False by (simp add: p)
    ultimately show ?thesis using I old by (auto simp: s nth_Cons' v_def)
  qed
qed simp

section \<open>Reading the data modules\<close>

text \<open>What a reader does: find the free modules of the version, take the mask off, cut codewords, undo the interleaving.\<close>

definition free_cells :: "nat \<Rightarrow> (nat \<times> nat) list" where
  "free_cells ver = (let f = mx_fn (base_matrix ver); sz = ver * 4 + 17 in filter (\<lambda>(x, y). \<not> f ! y ! x) (walk sz (sz - 1) True))"

definition read_bits :: "nat \<Rightarrow> nat \<Rightarrow> bool list list \<Rightarrow> bool list" where
  "read_bits ver k mat = map (\<lambda>(x, y). mat ! y ! x \<noteq> maskFn k x y) (free_cells ver)"

definition symbol_codewords :: "nat \<Rightarrow> nat" where
  "symbol_codewords ver = (let lay = blocksM ! (ver - 1) in dataCodewordsM ! (ver - 1) + ecPerBlockM ! (ver - 1) * (bl_g1 lay + bl_g2 lay))"

definition read_symbol :: "nat \<Rightarrow> nat \<Rightarrow> bool list list \<Rightarrow> bytes option" where
  "read_symbol ver k mat = (let cws = bitsToCodewords (read_bits ver k mat) (symbol_codewords ver); data = deinterleave (ver - 1) cws in
     read_stream ver (map (bitAt data) [0..<length data * 8]))"

text \<open>\<open>base_ok\<close>: the function patterns leave room for the codewords, and the format cells and the timing column are reserved.\<close>

definition room_ok :: "nat \<Rightarrow> nat \<Rightarrow> matrix \<Rightarrow> bool" where
  "room_ok sz n m \<longleftrightarrow> square m \<and> mx_size m = sz \<and> list_all (\<lambda>(y, x, i). y < sz \<and> x < sz \<and> mx_fn m ! y ! x) (format_cells sz) \<and>
     list_all (\<lambda>r. r ! 6) (mx_fn m) \<and> n * 8 \<le> (\<Sum>r \<leftarrow> mx_fn m. length (filter Not r))"

definition base_ok :: "nat \<Rightarrow> bool" where
  "base_ok ver \<longleftrightarrow> room_ok (ver * 4 + 17) (symbol_codewords ver) (base_matrix ver)"

lemma base_ok_1: "base_ok 1"
  by code_simp

lemma base_ok_2: "base_ok 2"
  by code_simp

lemma base_ok_3: "base_ok 3"
  by code_simp

text \<open>The walk misses only the timing column.\<close>

lemma column_walk_all: "y < sz \<Longrightarrow> (col, y) \<in> set (column_walk sz col up) \<and> (col - 1, y) \<in> set (column_walk sz col up)"
  by (auto simp: column_walk_def Let_def intro!: bexI [of _ "if up then sz - 1 - y else y"])

lemma walk_all: "y < sz \<Longrightarrow> x \<le> col \<Longrightarrow> odd col \<and> col \<le> 5 \<or> even col \<and> 6 \<le> col \<and> x \<noteq> 6 \<Longrightarrow> (x, y) \<in> set (walk sz col up)"
proof (induction sz col up rule: walk.induct)
  case (1 sz col up)
  define c where "c = (if col = 6 then 5 else col)"
  have "col \<noteq> 0" using "1.prems"(3) by (cases col) auto
  hence w: "walk sz col up = column_walk sz c up @ walk sz (c - 2) (\<not> up)" by (subst walk.simps) (simp add: Let_def c_def)
  have "x \<le> c" using "1.prems"(2,3) by (auto simp: c_def split: if_splits)
  show ?case
  proof (cases "x = c \<or> x = c - 1")
    case True
    thus ?thesis using column_walk_all [OF "1.prems"(1), of c up] by (auto simp: w)
  next
    case False
    hence x: "x \<le> c - 2" "2 \<le> c" using \<open>x \<le> c\<close> by auto
    have "odd (c - 2) \<and> c - 2 \<le> 5 \<or> even (c - 2) \<and> 6 \<le> c - 2 \<and> x \<noteq> 6"
    proof (cases "c \<le> 5")
      case True
      hence "odd c" using "1.prems"(3) by (auto simp: c_def split: if_splits)
      thus ?thesis using True x by presburger
    next
      case False
      hence "even col" "col = c" "col \<noteq> 6" "x \<noteq> 6" using "1.prems"(3) by (auto simp: c_def split: if_splits)
      thus ?thesis using False by presburger
    qed
    hence "(x, y) \<in> set (walk sz (c - 2) (\<not> up))" using "1.IH" [OF \<open>col \<noteq> 0\<close> c_def "1.prems"(1) x(1)] by blast
    thus ?thesis by (simp add: w)
  qed
qed

lemma count_rows: "card {(x, y). y < length t \<and> x < length (t ! y) \<and> \<not> t ! y ! x} = (\<Sum>r \<leftarrow> t. length (filter Not r))"
proof -
  have "{(x, y). y < length t \<and> x < length (t ! y) \<and> \<not> t ! y ! x} = (\<lambda>(y, x). (x, y)) ` (SIGMA y : {..<length t}. {x. x < length (t ! y) \<and> \<not> t ! y ! x})"
    by auto
  hence "card {(x, y). y < length t \<and> x < length (t ! y) \<and> \<not> t ! y ! x} = card (SIGMA y : {..<length t}. {x. x < length (t ! y) \<and> \<not> t ! y ! x})"
    by (simp add: card_image inj_on_def split_def prod_eq_iff)
  also have "\<dots> = (\<Sum>y < length t. length (filter Not (t ! y)))" by (simp add: length_filter_conv_card)
  also have "\<dots> = (\<Sum>r \<leftarrow> t. length (filter Not r))" by (simp add: sum_list_sum_nth atLeast0LessThan)
  finally show ?thesis .
qed

lemma free_cells_room:
  assumes "base_ok ver" "1 \<le> ver"
  shows "symbol_codewords ver * 8 \<le> length (free_cells ver)"
proof -
  define m where "m = base_matrix ver"
  define sz where "sz = ver * 4 + 17"
  have r: "square m" "mx_size m = sz" "list_all (\<lambda>r. r ! 6) (mx_fn m)" "symbol_codewords ver * 8 \<le> (\<Sum>r \<leftarrow> mx_fn m. length (filter Not r))"
    using assms(1) by (simp_all add: base_ok_def room_ok_def m_def sz_def)
  have free: "free_cells ver = filter (\<lambda>(x, y). \<not> mx_fn m ! y ! x) (walk sz (sz - 1) True)" by (simp add: free_cells_def Let_def m_def sz_def)
  have "even (sz - 1)" "6 \<le> sz - 1" using assms(2) by (simp_all add: sz_def)
  have "{(x, y). y < length (mx_fn m) \<and> x < length (mx_fn m ! y) \<and> \<not> mx_fn m ! y ! x} \<subseteq> set (free_cells ver)"
  proof (rule subsetI, clarify)
    fix x y assume "y < length (mx_fn m)" "x < length (mx_fn m ! y)" "\<not> mx_fn m ! y ! x"
    moreover from this have "x \<noteq> 6" using r(3) by (auto simp: list_all_length)
    ultimately show "(x, y) \<in> set (free_cells ver)" using r(1,2) walk_all [of y sz x "sz - 1" True] \<open>even (sz - 1)\<close> \<open>6 \<le> sz - 1\<close>
      by (auto simp: free square_def list_all_length)
  qed
  hence "(\<Sum>r \<leftarrow> mx_fn m. length (filter Not r)) \<le> card (set (free_cells ver))" unfolding count_rows [symmetric] by (rule card_mono [OF finite_set])
  also have "\<dots> \<le> length (free_cells ver)" by (rule card_length)
  finally show ?thesis using r(4) by linarith
qed

lemma paint_cells:
  assumes "square m" "list_all (\<lambda>(y, x, i). y < mx_size m \<and> x < mx_size m \<and> f ! y ! x) cells"
  shows "square (fold (\<lambda>(y, x, i). paint y x (b i)) cells m) \<and> mx_size (fold (\<lambda>(y, x, i). paint y x (b i)) cells m) = mx_size m \<and>
    (\<not> f ! y' ! x' \<longrightarrow> mx_val (fold (\<lambda>(y, x, i). paint y x (b i)) cells m) ! y' ! x' = mx_val m ! y' ! x')"
  using assms
proof (induction cells arbitrary: m)
  case (Cons c cells)
  obtain y x i where c: "c = (y, x, i)" by (cases c)
  have r: "y < mx_size m" "x < mx_size m" "f ! y ! x" using Cons.prems(2) c by auto
  have "square (paint y x (b i) m)" by (rule paint_square [OF Cons.prems(1) r(1)])
  from Cons.IH [OF this] show ?case using Cons.prems r by (auto simp: c paint_nth [OF Cons.prems(1) r(1,2)] simp del: paint_simps(3))
qed simp

lemma masked_free:
  assumes "base_ok ver" "ver < 7" "j < length (free_cells ver)"
  shows "mx_val (masked final ver k) ! snd (free_cells ver ! j) ! fst (free_cells ver ! j) =
    (bitAt final j \<noteq> maskFn k (fst (free_cells ver ! j)) (snd (free_cells ver ! j)))"
proof -
  define m where "m = base_matrix ver"
  have b: "square m" "mx_size m = ver * 4 + 17"
    "list_all (\<lambda>(y, x, i). y < mx_size m \<and> x < mx_size m \<and> mx_fn m ! y ! x) (format_cells (mx_size m))"
    using assms(1) by (simp_all add: base_ok_def room_ok_def m_def)
  let ?ws = "walk (mx_size m) (mx_size m - 1) True"
  have in_range: "\<forall>(x, y) \<in> set ?ws. x < mx_size m \<and> y < mx_size m" using set_walk b(2) by fastforce
  have free: "free_cells ver = filter (\<lambda>(x, y). \<not> mx_fn m ! y ! x) ?ws" using b(2) by (simp add: free_cells_def Let_def m_def [symmetric])
  have pd: "placeData final k m = fst (fold (place_module final k) ?ws (m, 0))" by (simp add: placeData_def place_columns_walk)
  note P = place_fold [OF b(1) distinct_walk in_range, of final k 0, folded free pd]
  have sz: "mx_size (placeData final k m) = mx_size m" by (simp add: pd place_fold_fst)
  obtain x y where xy: "free_cells ver ! j = (x, y)" by (cases "free_cells ver ! j")
  hence nf: "\<not> mx_fn m ! y ! x" using nth_mem [OF assms(3)] by (simp add: free)
  have "mx_val (writeFormat k (placeData final k m)) ! y ! x = mx_val (placeData final k m) ! y ! x"
    using paint_cells [of "placeData final k m" "mx_fn m" "format_cells (mx_size m)" "bit (formatStringsM ! k)" y x] P b(3) nf
    by (simp add: writeFormat_def sz)
  moreover have "mx_val (placeData final k m) ! y ! x = (bitAt final j \<noteq> maskFn k x y)" using P assms(3) xy by auto
  ultimately show ?thesis using assms(2) by (simp add: masked_def Let_def m_def [symmetric] xy)
qed

lemma read_bits_masked:
  assumes "base_ok ver" "ver < 7"
  shows "read_bits ver k (mx_val (masked final ver k)) = map (bitAt final) [0..<length (free_cells ver)]"
  using masked_free [OF assms, of _ final k] by (intro nth_equalityI) (auto simp: read_bits_def split_def)

lemma codewords_of_bits:
  assumes "n * 8 \<le> N" "n \<le> length ws"
  shows "bitsToCodewords (map (bitAt ws) [0..<N]) n = take n ws"
proof (rule nth_equalityI)
  fix i assume "i < length (bitsToCodewords (map (bitAt ws) [0..<N]) n)"
  hence i: "i < n" by simp
  show "bitsToCodewords (map (bitAt ws) [0..<N]) n ! i = take n ws ! i"
  proof (rule bit_word_eqI)
    fix b :: nat assume "b < LENGTH(8)"
    hence b: "7 - (7 - b) = b" "7 - b < 8" by simp_all
    have "i * 8 + (7 - b) < N" using i b(2) assms(1) by linarith
    moreover have "(i * 8 + (7 - b)) div 8 = i" "(i * 8 + (7 - b)) mod 8 = 7 - b" using b(2) by simp_all
    ultimately show "bit (bitsToCodewords (map (bitAt ws) [0..<N]) n ! i) b = bit (take n ws ! i) b"
      using codeword_bit [OF b(2), of "map (bitAt ws) [0..<N]" i] i b(1) assms(2)
      by (simp add: bitsToCodewords_def bitAt_def)
  qed
qed (use assms in simp)

end
