(* ===== verification/QR_Field.thy ===== *)
theory QR_Field
  imports QR_Matrix
begin

text \<open>
  The arithmetic behind the Reed-Solomon codewords: the table-driven \<open>gfMul\<close> is multiplication of the field with 256
  elements.  Powers of the generator are iterated doublings, the logarithm table inverts them, and multiplication by a power
  is a linear map.
\<close>

unbundle bit_operations_syntax

section \<open>Doubling\<close>

definition xtime :: "8 word \<Rightarrow> 8 word" where
  "xtime a = push_bit 1 a XOR (if bit a 7 then 0x1D else 0)"

lemma gf_double_word:
  assumes "0 \<le> x" "x < 256"
  shows "0 \<le> gf_double x \<and> gf_double x < 256 \<and> word_of_int (gf_double x) = xtime (word_of_int x)"
proof -
  have "list_all (\<lambda>x. 0 \<le> gf_double x \<and> gf_double x < 256 \<and> word_of_int (gf_double x) = xtime (word_of_int x)) [0..255]"
    by code_simp
  thus ?thesis using assms by (simp add: list_all_iff)
qed

lemma xtime_xor: "xtime (a XOR b) = xtime a XOR xtime b"
  by (rule bit_word_eqI) (auto simp: xtime_def bit_simps)

lemma xtime_zero [simp]: "xtime 0 = 0"
  by (simp add: xtime_def)

lemma xtime_0_iff: "xtime a = 0 \<longleftrightarrow> a = 0"
proof
  have "list_all (\<lambda>n. xtime (word_of_nat n) = 0 \<longrightarrow> word_of_nat n = (0 :: 8 word)) [0..<256]" by code_simp
  hence z: "\<forall>n \<in> set [0..<256]. xtime (word_of_nat n) = 0 \<longrightarrow> word_of_nat n = (0 :: 8 word)" unfolding list_all_iff .
  have "unat a \<in> set [0..<256]" using unsigned_less [of a] by simp
  hence "xtime (word_of_nat (unat a)) = 0 \<longrightarrow> word_of_nat (unat a) = (0 :: 8 word)" using z by blast
  thus "xtime a = 0 \<Longrightarrow> a = 0" by simp
qed simp

lemma funpow_xtime_zero [simp]: "(xtime ^^ n) 0 = 0"
  by (induction n) simp_all

lemma funpow_xtime_xor: "(xtime ^^ n) (a XOR b) = (xtime ^^ n) a XOR (xtime ^^ n) b"
  by (induction n) (simp_all add: xtime_xor)

lemma funpow_xtime_0_iff: "(xtime ^^ n) a = 0 \<longleftrightarrow> a = 0"
  by (induction n) (simp_all add: xtime_0_iff)

lemma funpow_xtime_inj: "(xtime ^^ n) a = (xtime ^^ n) b \<Longrightarrow> a = b"
proof -
  assume "(xtime ^^ n) a = (xtime ^^ n) b"
  hence "(xtime ^^ n) (a XOR b) = 0" by (simp add: funpow_xtime_xor)
  hence "a XOR b = 0" by (simp add: funpow_xtime_0_iff)
  hence "(a XOR b) XOR b = b" by simp
  thus "a = b" by (simp add: xor.assoc)
qed

section \<open>Powers of the generator\<close>

definition alpha :: "nat \<Rightarrow> 8 word" where
  "alpha i = (xtime ^^ i) 1"

lemma alpha_0 [simp]: "alpha 0 = 1"
  by (simp add: alpha_def)

lemma alpha_add: "alpha (i + j) = (xtime ^^ i) (alpha j)"
  by (simp add: alpha_def funpow_add)

lemma funpow_xtime_1: "(xtime ^^ i) 1 = alpha i"
  by (simp add: alpha_def)

lemma alpha_nonzero: "alpha i \<noteq> 0"
  by (simp add: alpha_def funpow_xtime_0_iff)

text \<open>The table loop, run from its start.\<close>

fun doubled :: "nat \<Rightarrow> int \<Rightarrow> int" where
  "doubled 0 x = x"
| "doubled (Suc n) x = doubled n (gf_double x)"

lemma doubled_funpow: "doubled n x = (gf_double ^^ n) x"
  by (induction n arbitrary: x) (simp_all add: funpow_swap1)

lemma gf_double_power: "0 \<le> (gf_double ^^ i) 1 \<and> (gf_double ^^ i) 1 < 256 \<and> word_of_int ((gf_double ^^ i) 1) = alpha i"
proof (induction i)
  case (Suc i)
  thus ?case using gf_double_word [of "(gf_double ^^ i) 1"] by (simp add: alpha_def)
qed simp

lemma alpha_int: "alpha i = word_of_int (doubled i 1)"
  by (simp add: doubled_funpow gf_double_power)

lemma alpha_order: "alpha 255 = 1" "alpha 85 \<noteq> 1" "alpha 51 \<noteq> 1" "alpha 15 \<noteq> 1"
proof -
  note run = gf_double_def eval_nat_numeral push_bit_eq_mult
  have "doubled 255 1 = 1" "doubled 85 1 = 214" "doubled 51 1 = 10" "doubled 15 1 = 38" by (simp_all add: run)
  thus "alpha 255 = 1" "alpha 85 \<noteq> 1" "alpha 51 \<noteq> 1" "alpha 15 \<noteq> 1" by (simp_all add: alpha_int)
qed

lemma alpha_mult: "alpha d = 1 \<Longrightarrow> alpha (d * k) = 1"
  by (induction k) (simp_all add: alpha_add [of d] funpow_xtime_1)

lemma alpha_gcd:
  assumes "alpha a = 1" "alpha b = 1"
  shows "alpha (gcd a b) = 1"
proof (cases "a = 0")
  case False
  obtain x y where e: "a * x = b * y + gcd a b" using bezout_nat [OF False] by blast
  have "alpha (b * y + gcd a b) = 1" using alpha_mult [OF assms(1), of x] e by simp
  moreover have "alpha (gcd a b + b * y) = (xtime ^^ gcd a b) (alpha (b * y))" by (rule alpha_add)
  ultimately show ?thesis by (simp add: alpha_mult [OF assms(2)] add.commute funpow_xtime_1)
qed (use assms in simp)

lemma proper_divisor_255: "d dvd 255 \<Longrightarrow> d \<noteq> 255 \<Longrightarrow> d dvd 85 \<or> d dvd 51 \<or> d dvd (15 :: nat)"
proof -
  assume d: "d dvd 255" "d \<noteq> 255"
  hence "d \<le> 255" by (simp add: dvd_imp_le)
  moreover have "list_all (\<lambda>d. d dvd 255 \<longrightarrow> d \<noteq> 255 \<longrightarrow> d dvd 85 \<or> d dvd 51 \<or> d dvd (15 :: nat)) [0..<256]" by code_simp
  ultimately show ?thesis using d by (simp add: list_all_iff)
qed

lemma alpha_one:
  assumes "alpha d = 1" "0 < d"
  shows "255 \<le> d"
proof (rule ccontr)
  assume "\<not> 255 \<le> d"
  let ?g = "gcd 255 d"
  have g: "alpha ?g = 1" by (rule alpha_gcd [OF alpha_order(1) assms(1)])
  have "?g \<le> d" using assms(2) by (simp add: dvd_imp_le)
  hence "?g \<noteq> 255" using \<open>\<not> 255 \<le> d\<close> by linarith
  hence "?g dvd 85 \<or> ?g dvd 51 \<or> ?g dvd 15" using proper_divisor_255 [of ?g] by simp
  hence "alpha 85 = 1 \<or> alpha 51 = 1 \<or> alpha 15 = 1" using alpha_mult [OF g] by (metis dvd_def)
  thus False using alpha_order by simp
qed

lemma alpha_inj: "inj_on alpha {..<255}"
proof (rule linorder_inj_onI)
  fix i j :: nat assume "i < j" and r: "i \<in> {..<255}" "j \<in> {..<255}"
  show "alpha i \<noteq> alpha j"
  proof
    assume "alpha i = alpha j"
    hence "(xtime ^^ i) (alpha 0) = (xtime ^^ i) (alpha (j - i))"
      using alpha_add [of i 0] alpha_add [of i "j - i"] \<open>i < j\<close> by simp
    hence "alpha (j - i) = 1" using funpow_xtime_inj by (metis alpha_0)
    thus False using alpha_one [of "j - i"] \<open>i < j\<close> r by simp
  qed
qed auto

text \<open>Every byte but zero is a power of the generator.\<close>

lemma alpha_surj:
  assumes "a \<noteq> 0"
  obtains i where "i < 255" "a = alpha i"
proof -
  have "card (UNIV :: (8 word) set) = 256" by (simp add: card_word)
  hence "card (UNIV - {0 :: 8 word}) = 255" by (simp add: card_Diff_singleton)
  moreover have "card (alpha ` {..<255}) = 255" by (simp add: card_image alpha_inj)
  moreover have "alpha ` {..<255} \<subseteq> UNIV - {0}" using alpha_nonzero by auto
  ultimately have "alpha ` {..<255} = UNIV - {0}" by (intro card_subset_eq) simp_all
  hence "a \<in> alpha ` {..<255}" using assms by simp
  thus ?thesis using that by auto
qed

section \<open>The tables\<close>

lemma gfExp_prefix: "255 \<le> n \<Longrightarrow> n \<le> 512 \<Longrightarrow>
  fold (\<lambda>i t. t @ [t ! (i - 255)]) [255..<n] (map alpha [0..<255]) = map alpha [0..<n]"
proof (induction n rule: dec_induct)
  case (step n)
  have "alpha n = alpha (n - 255)" using step.hyps alpha_add [of "n - 255" 255] by (simp add: alpha_order(1) funpow_xtime_1)
  thus ?case using step by simp
qed simp

lemma gfExp_alpha: "gfExp = map alpha [0..<512]"
proof -
  have "map (\<lambda>i. word_of_int ((gf_double ^^ i) 1)) [0..<255] = map alpha [0..<255]" using gf_double_power by simp
  thus ?thesis using gfExp_prefix [of 512] unfolding gfExp_def Let_def by (simp only:)
qed

lemma gfExp_nth [simp]: "i < 512 \<Longrightarrow> gfExp ! i = alpha i"
  by (simp add: gfExp_alpha)

lemma gf_double_nat: "nat ((gf_double ^^ i) 1) = unat (alpha i)"
proof -
  have "word_of_int ((gf_double ^^ i) 1) = alpha i" "0 \<le> (gf_double ^^ i) 1" "(gf_double ^^ i) 1 < 256" using gf_double_power by auto
  moreover have "0 \<le> x \<Longrightarrow> x < 256 \<Longrightarrow> uint (word_of_int x :: 8 word) = x" for x by (simp add: uint_word_of_int)
  ultimately show ?thesis by (metis nat_uint_eq)
qed

lemma log_fold:
  assumes "n \<le> 255" "length t = 256" "i < n"
  shows "fold (\<lambda>i t. t[unat (alpha i) := f i]) [0..<n] t ! unat (alpha i) = f i"
  using assms
proof (induction n)
  case (Suc n)
  have l: "length (fold (\<lambda>i t. t[unat (alpha i) := f i]) [0..<n] t) = 256"
    using Suc.prems(2) by (induction n) simp_all
  have u: "unat (alpha n) < 256" using unsigned_less [of "alpha n"] by simp
  show ?case
  proof (cases "i = n")
    case True
    thus ?thesis using l u by simp
  next
    case False
    have "alpha i \<noteq> alpha n" using Suc.prems False inj_onD [OF alpha_inj, of i n] by auto
    hence "unat (alpha n) \<noteq> unat (alpha i)" by (metis word_unat_eq_iff)
    thus ?thesis using Suc False by simp
  qed
qed simp

lemma gfLog_alpha: "i < 255 \<Longrightarrow> gfLog ! unat (alpha i) = word_of_nat i"
  unfolding gfLog_def gf_double_nat by (rule log_fold) simp_all

section \<open>Multiplication\<close>

lemma gfMul_alpha:
  assumes "i < 255"
  shows "gfMul (alpha i) b = (xtime ^^ i) b"
proof (cases "b = 0")
  case True
  thus ?thesis by (simp add: gfMul_def)
next
  case False
  then obtain j where j: "j < 255" "b = alpha j" by (rule alpha_surj)
  have "unat (word_of_nat i :: 8 word) = i" "unat (word_of_nat j :: 8 word) = j"
    using assms j(1) by (simp_all add: unat_of_nat take_bit_nat_eq_self_iff unsigned_of_nat)
  thus ?thesis using assms j by (simp add: gfMul_def alpha_nonzero gfLog_alpha alpha_add)
qed

lemma gfMul_zero [simp]: "gfMul 0 b = 0" "gfMul a 0 = 0"
  by (simp_all add: gfMul_def)

lemma gfMul_one [simp]: "gfMul 1 b = b" "gfMul a 1 = a"
proof -
  show one: "gfMul 1 b = b" for b using gfMul_alpha [of 0 b] by simp
  show "gfMul a 1 = a" using one [of a] by (simp add: gfMul_def add.commute split: if_splits)
qed

lemma gfMul_commute: "gfMul a b = gfMul b a"
  by (simp add: gfMul_def add.commute)

lemma gfMul_xor_right: "gfMul a (b XOR c) = gfMul a b XOR gfMul a c"
proof (cases "a = 0")
  case False
  then obtain i where "i < 255" "a = alpha i" by (rule alpha_surj)
  thus ?thesis by (simp add: gfMul_alpha funpow_xtime_xor)
qed simp

lemma gfMul_xor_left: "gfMul (b XOR c) a = gfMul b a XOR gfMul c a"
  by (simp only: gfMul_commute [of _ a] gfMul_xor_right)

lemma gfMul_alpha_alpha: "gfMul (alpha i) (alpha j) = alpha (i + j)"
proof -
  have a: "alpha (k mod 255 + l) = alpha (k + l)" for k l
  proof -
    have "alpha ((k mod 255 + l) + 255 * (k div 255)) = alpha (k mod 255 + l)"
      by (simp only: alpha_add alpha_mult [OF alpha_order(1)] funpow_xtime_1)
    thus ?thesis by (simp add: algebra_simps)
  qed
  have "gfMul (alpha (i mod 255)) (alpha j) = alpha (i mod 255 + j)" by (simp add: gfMul_alpha alpha_add)
  thus ?thesis using a [of i 0] a [of i j] by simp
qed

lemma gfMul_assoc: "gfMul (gfMul a b) c = gfMul a (gfMul b c)"
proof (cases "a = 0 \<or> b = 0 \<or> c = 0")
  case False
  then obtain i j k where "a = alpha i" "b = alpha j" "c = alpha k" using alpha_surj by metis
  thus ?thesis by (simp add: gfMul_alpha_alpha add.assoc)
qed auto

lemma gfMul_eq_0 [simp]: "gfMul a b = 0 \<longleftrightarrow> a = 0 \<or> b = 0"
proof (cases "a = 0")
  case False
  then obtain i where "i < 255" "a = alpha i" by (rule alpha_surj)
  thus ?thesis using False by (simp add: gfMul_alpha funpow_xtime_0_iff)
qed simp

lemma gfMul_left_commute: "gfMul a (gfMul b c) = gfMul b (gfMul a c)"
  by (simp only: gfMul_assoc [symmetric] gfMul_commute [of a b])

lemmas gfMul_ac = gfMul_assoc gfMul_commute gfMul_left_commute

lemma xor_cancel [simp]: "(a XOR b) XOR a = b" "a XOR (b XOR a) = b" "a XOR (a XOR b) = b" "(a XOR b) XOR b = a" for a b :: "8 word"
  by (rule bit_word_eqI, auto simp: bit_simps)+

lemmas gf_laws = gfMul_xor_left gfMul_xor_right gfMul_assoc xor.assoc xor.commute xor.left_commute

end
