(* ===== verification/QR_Reed_Solomon.thy ===== *)
theory QR_Reed_Solomon
  imports QR_Field
begin

text \<open>
  The Reed-Solomon part of \<open>internal/cli/render/qr.go\<close>: \<open>rsGenerator\<close> is the polynomial with the roots \<open>\<alpha>^0 ... \<alpha>^(n-1)\<close>,
  lowest coefficient first, and what the long division of \<open>reedSolomon\<close>, which reads it highest first, computes with it.
\<close>

unbundle bit_operations_syntax

section \<open>Polynomials\<close>

text \<open>\<open>leval\<close> evaluates a polynomial given lowest coefficient first, \<open>heval\<close> one given highest first, as a block of
  codewords is.  A decoder takes a block as undamaged when its syndromes, the values at the roots, are zero.\<close>

fun leval :: "bytes \<Rightarrow> 8 word \<Rightarrow> 8 word" where
  "leval [] z = 0"
| "leval (c # cs) z = c XOR gfMul z (leval cs z)"

definition gpow :: "8 word \<Rightarrow> nat \<Rightarrow> 8 word" where
  "gpow z k = (gfMul z ^^ k) 1"

fun heval :: "bytes \<Rightarrow> 8 word \<Rightarrow> 8 word" where
  "heval [] z = 0"
| "heval (c # cs) z = gfMul c (gpow z (length cs)) XOR heval cs z"

definition syndrome :: "bytes \<Rightarrow> nat \<Rightarrow> 8 word" where
  "syndrome block k = heval block (alpha k)"

fun pxor :: "bytes \<Rightarrow> bytes \<Rightarrow> bytes" where
  "pxor [] ys = ys"
| "pxor xs [] = xs"
| "pxor (x # xs) (y # ys) = (x XOR y) # pxor xs ys"

lemma length_pxor [simp]: "length (pxor xs ys) = max (length xs) (length ys)"
  by (induction xs ys rule: pxor.induct) simp_all

lemma leval_pxor: "leval (pxor xs ys) z = leval xs z XOR leval ys z"
  by (induction xs ys rule: pxor.induct) (simp_all add: gf_laws)

lemma gpow_simps [simp]: "gpow z 0 = 1" "gpow z (Suc k) = gfMul z (gpow z k)"
  by (simp_all add: gpow_def)

lemma gpow_add: "gpow z (j + k) = gfMul (gpow z j) (gpow z k)"
  by (induction j) (simp_all add: gfMul_assoc)

lemma gpow_one [simp]: "gpow 1 k = 1"
  by (induction k) simp_all

lemma heval_append: "heval (xs @ ys) z = gfMul (heval xs z) (gpow z (length ys)) XOR heval ys z"
  by (induction xs) (simp_all add: gpow_add gf_laws)

lemma heval_rev: "heval (rev p) z = leval p z"
  by (induction p) (simp_all add: heval_append gf_laws gfMul_commute)

lemma heval_pxor:
  "length xs \<le> length ys \<Longrightarrow> heval (pxor xs ys) z = gfMul (heval xs z) (gpow z (length ys - length xs)) XOR heval ys z"
  by (induction xs ys rule: pxor.induct) (simp_all add: gf_laws gpow_add [symmetric])

lemma heval_scale: "heval (map (\<lambda>g. gfMul g c) gs) z = gfMul c (heval gs z)"
  by (induction gs) (simp_all add: gfMul_xor_right gfMul_ac)

lemma heval_zeros [simp]: "heval (replicate n 0) z = 0"
  by (induction n) simp_all

lemma pxor_append: "pxor ys (a @ b) = pxor (take (length a) ys) a @ pxor (drop (length a) ys) b"
proof (induction ys a rule: pxor.induct)
  case (2 x xs)
  thus ?case by simp
qed simp_all

lemma leval_scale: "leval (map (\<lambda>g. gfMul g c) gs) z = gfMul (leval gs z) c"
  by (induction gs) (simp_all add: gf_laws)

lemma leval_zeros [simp]: "leval (replicate n 0) z = 0"
  by (induction n) simp_all

lemma pxor_nth: "k < max (length xs) (length ys) \<Longrightarrow>
  pxor xs ys ! k = (if k < length xs then xs ! k else 0) XOR (if k < length ys then ys ! k else 0)"
  by (induction xs ys arbitrary: k rule: pxor.induct) (auto simp: nth_Cons split: nat.split)

section \<open>The generator\<close>

lemma fold_upt_Suc: "fold f [0..<Suc m] t = f m (fold f [0..<m] t)"
  by simp

lemma gen_fold:
  assumes "m \<le> length g"
  shows "fold (\<lambda>j next. let next' = next[j := next ! j XOR gfMul (g ! j) a] in next'[j + 1 := next' ! (j + 1) XOR g ! j])
      [0..<m] (replicate (length g + 1) 0)
    = map (\<lambda>k. (if k < m then gfMul (g ! k) a else 0) XOR (if 0 < k \<and> k \<le> m then g ! (k - 1) else 0)) [0..<length g + 1]"
  using assms
proof (induction m)
  case 0
  show ?case by (rule nth_equalityI) (auto simp del: upt_Suc)
next
  case (Suc m)
  hence m: "m < length g" "m \<le> length g" by simp_all
  show ?case unfolding fold_upt_Suc Suc.IH [OF m(2)]
    using m by (intro nth_equalityI) (auto simp: Let_def nth_list_update xor.commute simp del: upt_Suc)
qed

lemma gen_step_pxor:
  assumes "i < 512"
  shows "gen_step i g = pxor (map (\<lambda>c. gfMul c (alpha i)) g) (0 # g)"
proof -
  have "gen_step i g = map (\<lambda>k. (if k < length g then gfMul (g ! k) (alpha i) else 0) XOR (if 0 < k \<and> k \<le> length g then g ! (k - 1) else 0))
      [0..<length g + 1]"
    unfolding gen_step_def gfExp_nth [OF assms] by (rule gen_fold) simp
  also have "\<dots> = pxor (map (\<lambda>c. gfMul c (alpha i)) g) (0 # g)"
    by (rule nth_equalityI) (auto simp: pxor_nth nth_Cons' simp del: upt_Suc pxor.simps)
  finally show ?thesis .
qed

lemma leval_gen_step: "i < 512 \<Longrightarrow> leval (gen_step i g) z = gfMul (leval g z) (z XOR alpha i)"
  by (simp add: gen_step_pxor leval_pxor leval_scale) (simp add: gf_laws gfMul_commute [of z])

lemma rsGenerator_Suc: "rsGenerator (Suc n) = gen_step n (rsGenerator n)"
  by (simp add: rsGenerator_def)

lemma length_rsGenerator: "n \<le> 512 \<Longrightarrow> length (rsGenerator n) = n + 1"
proof (induction n)
  case (Suc n)
  thus ?case by (simp add: rsGenerator_Suc gen_step_pxor)
qed (simp add: rsGenerator_def)

lemma rsGenerator_leading: "n \<le> 512 \<Longrightarrow> rsGenerator n ! n = 1"
proof (induction n)
  case (Suc n)
  thus ?case by (simp add: rsGenerator_Suc gen_step_pxor pxor_nth length_rsGenerator)
qed (simp add: rsGenerator_def)

lemma rsGenerator_constant: "n \<le> 512 \<Longrightarrow> rsGenerator n ! 0 = alpha (\<Sum>{..<n})"
proof (induction n)
  case (Suc n)
  hence "rsGenerator (Suc n) ! 0 = gfMul (alpha (\<Sum>{..<n})) (alpha n)"
    by (simp add: rsGenerator_Suc gen_step_pxor pxor_nth length_rsGenerator)
  also have "\<dots> = alpha (\<Sum>{..<n} + n)" by (simp add: gfMul_alpha_alpha)
  finally show ?case by (simp add: lessThan_Suc add.commute)
qed (simp add: rsGenerator_def)

text \<open>The roots of the generator are the first \<open>n\<close> powers.\<close>

lemma rsGenerator_root: "k < n \<Longrightarrow> n \<le> 512 \<Longrightarrow> leval (rsGenerator n) (alpha k) = 0"
proof (induction n)
  case (Suc n)
  thus ?case by (cases "k = n") (simp_all add: rsGenerator_Suc leval_gen_step)
qed simp

section \<open>The division\<close>

text \<open>\<open>divide_rest\<close>: the loop of \<open>reedSolomon\<close> with the generator as an argument; \<open>digits\<close>: the coefficients it reads.\<close>

definition divide_rest :: "bytes \<Rightarrow> bytes \<Rightarrow> nat \<Rightarrow> bytes" where
  "divide_rest gen data n = drop (length data) (fold (division_step gen) [0..<length data] (data @ replicate n 0))"

lemma reedSolomon_divide: "reedSolomon data n = divide_rest (rsGenerator n) data n"
  by (simp add: reedSolomon_def divide_rest_def)

fun qdiv :: "bytes \<Rightarrow> nat \<Rightarrow> bytes \<Rightarrow> bytes \<times> bytes" where
  "qdiv gen (Suc m) (c # rest) = (case qdiv gen m (pxor (map (\<lambda>g. gfMul g c) (tl gen)) rest) of (qs, r) \<Rightarrow> (c # qs, r))"
| "qdiv gen _ rest = ([], rest)"

lemma row_fold:
  assumes "i + length gen \<le> length rem"
  shows "fold (\<lambda>j rem. rem[i + j := rem ! (i + j) XOR gfMul (gen ! j) c]) [0..<length gen] rem
    = take i rem @ pxor (map (\<lambda>g. gfMul g c) gen) (drop i rem)"
proof -
  have "m \<le> length gen \<Longrightarrow> fold (\<lambda>j rem. rem[i + j := rem ! (i + j) XOR gfMul (gen ! j) c]) [0..<m] rem
      = map (\<lambda>k. rem ! k XOR (if i \<le> k \<and> k < i + m then gfMul (gen ! (k - i)) c else 0)) [0..<length rem]" for m
  proof (induction m)
    case 0
    show ?case by (rule nth_equalityI) auto
  next
    case (Suc m)
    hence m: "m \<le> length gen" by simp
    show ?case unfolding fold_upt_Suc Suc.IH [OF m] using assms Suc.prems
      by (intro nth_equalityI) (auto simp: nth_list_update)
  qed
  hence "fold (\<lambda>j rem. rem[i + j := rem ! (i + j) XOR gfMul (gen ! j) c]) [0..<length gen] rem
      = map (\<lambda>k. rem ! k XOR (if i \<le> k \<and> k < i + length gen then gfMul (gen ! (k - i)) c else 0)) [0..<length rem]" by blast
  also have "\<dots> = take i rem @ pxor (map (\<lambda>g. gfMul g c) gen) (drop i rem)"
    using assms by (auto simp: nth_append pxor_nth xor.commute intro!: nth_equalityI)
  finally show ?thesis .
qed

lemma pxor_zeros: "length zs \<le> length ys \<Longrightarrow> \<forall>z \<in> set zs. z = 0 \<Longrightarrow> pxor zs ys = ys"
  by (induction zs ys rule: pxor.induct) simp_all

lemma division_step_row:
  assumes "length pre = i" "gen \<noteq> []" "length gen \<le> length rest + 1"
  shows "division_step gen i (pre @ c # rest) = pre @ (c XOR gfMul (hd gen) c) # pxor (map (\<lambda>g. gfMul g c) (tl gen)) rest"
proof -
  obtain g gs where g: "gen = g # gs" using assms(2) by (cases gen) auto
  have z: "(pre @ c # rest) ! i = c" using assms(1) by auto
  show ?thesis
  proof (cases "c = 0")
    case True
    have "pxor (map (\<lambda>g. gfMul g 0) gs) rest = rest" using assms(3) g by (intro pxor_zeros) auto
    thus ?thesis using True z g by (simp add: division_step_def)
  next
    case False
    have "division_step gen i (pre @ c # rest) = take i (pre @ c # rest) @ pxor (map (\<lambda>g. gfMul g c) gen) (drop i (pre @ c # rest))"
      using False assms(1,3) z row_fold [of i gen "pre @ c # rest" c] by (simp add: division_step_def)
    thus ?thesis using assms(1) g by (simp add: xor.commute)
  qed
qed

lemma division_loop:
  assumes "length pre = i" "gen \<noteq> []" "m + length gen \<le> length rest + 1" "qdiv gen m rest = (qs, r)"
  shows "fold (division_step gen) [i..<i + m] (pre @ rest) = pre @ map (\<lambda>q. q XOR gfMul (hd gen) q) qs @ r \<and> length qs = m"
  using assms
proof (induction m arbitrary: pre i rest qs r)
  case 0
  have "qs = [] \<and> r = rest" using "0.prems"(4) by auto
  thus ?case by simp
next
  case (Suc m)
  have "rest \<noteq> []" using Suc.prems(2,3) by (cases gen) auto
  then obtain c rest' where rest: "rest = c # rest'" by (cases rest) auto
  let ?n = "pxor (map (\<lambda>g. gfMul g c) (tl gen)) rest'"
  obtain qs' where q: "qdiv gen m ?n = (qs', r)" "qs = c # qs'"
    using Suc.prems(4) by (auto simp: rest split: prod.split_asm)
  let ?pre = "pre @ [c XOR gfMul (hd gen) c]"
  have l: "length ?pre = Suc i" "m + length gen \<le> length ?n + 1" "length gen \<le> length rest' + 1" using Suc.prems(1,3) rest by simp_all
  note IH = Suc.IH [OF l(1) Suc.prems(2) l(2) q(1)]
  have u: "[i..<i + Suc m] = i # [Suc i..<Suc i + m]" by (simp add: upt_conv_Cons del: upt_Suc)
  have "division_step gen i (pre @ rest) = ?pre @ ?n"
    using division_step_row [OF Suc.prems(1,2) l(3)] by (simp add: rest)
  hence "fold (division_step gen) [i..<i + Suc m] (pre @ rest) = fold (division_step gen) [Suc i..<Suc i + m] (?pre @ ?n)"
    unfolding u by simp
  thus ?case using IH q(2) by simp
qed

lemma divide_rest_qdiv:
  assumes "length gen = n + 1" "qdiv gen (length data) (data @ replicate n 0) = (qs, r)"
  shows "divide_rest gen data n = r" "length qs = length data"
proof -
  have "gen \<noteq> []" using assms(1) by auto
  thus "divide_rest gen data n = r" "length qs = length data"
    using division_loop [of "[]" 0 gen "length data" "data @ replicate n 0" qs r] assms by (simp_all add: divide_rest_def)
qed

section \<open>What the division computes\<close>

text \<open>Division by \<open>gen\<close> is division by the polynomial whose leading coefficient is replaced by one.\<close>

lemma qdiv_heval:
  assumes "qdiv gen m rest = (qs, r)" "length rest = m + length (tl gen)"
  shows "length qs = m \<and> length r = length (tl gen) \<and> heval rest z = heval r z XOR gfMul (heval qs z) (heval (1 # tl gen) z)"
  using assms
proof (induction m arbitrary: rest qs r)
  case 0
  thus ?case by simp
next
  case (Suc m)
  then obtain c rest' where rest: "rest = c # rest'" by (cases rest) auto
  let ?t = "tl gen" let ?n = "pxor (map (\<lambda>g. gfMul g c) ?t) rest'"
  obtain qs' where q: "qdiv gen m ?n = (qs', r)" "qs = c # qs'"
    using Suc.prems(1) by (auto simp: rest split: prod.split_asm)
  have l: "length rest' = m + length ?t" using Suc.prems(2) rest by simp
  have IH: "length qs' = m" "length r = length ?t" "heval ?n z = heval r z XOR gfMul (heval qs' z) (heval (1 # ?t) z)"
    using Suc.IH [OF q(1)] l by simp_all
  have "heval ?n z = gfMul c (gfMul (heval ?t z) (gpow z m)) XOR heval rest' z"
    using l by (simp add: heval_pxor heval_scale gfMul_assoc)
  hence "heval rest' z = gfMul c (gfMul (heval ?t z) (gpow z m)) XOR heval ?n z" by (simp add: xor.assoc [symmetric])
  moreover have "heval rest z = gfMul c (gfMul (gpow z (length ?t)) (gpow z m)) XOR heval rest' z"
    using l by (simp add: rest gpow_add gfMul_commute)
  moreover have "gfMul (heval qs z) (heval (1 # ?t) z) =
      gfMul c (gfMul (gpow z (length ?t)) (gpow z m)) XOR gfMul c (gfMul (heval ?t z) (gpow z m)) XOR gfMul (heval qs' z) (heval (1 # ?t) z)"
    using IH(1) q(2) by (simp add: gf_laws gfMul_commute [of "gpow z m"])
  ultimately show ?case using IH q(2) by (simp add: xor.assoc xor.commute xor.left_commute)
qed

lemma divide_rest_heval:
  assumes "length gen = n + 1" "qdiv gen (length data) (data @ replicate n 0) = (qs, r)"
  shows "heval (data @ divide_rest gen data n) z = gfMul (heval qs z) (heval (1 # tl gen) z)"
proof -
  have "length r = n \<and> heval (data @ replicate n 0) z = heval r z XOR gfMul (heval qs z) (heval (1 # tl gen) z)"
    using qdiv_heval [OF assms(2)] assms(1) by simp
  thus ?thesis using assms(1) by (simp add: divide_rest_qdiv [OF assms] heval_append del: heval.simps)
qed

text \<open>With the generator highest coefficient first, every block has zero syndromes.\<close>

lemma reversed_division_valid:
  assumes "k < n" "n \<le> 512"
  shows "syndrome (data @ divide_rest (rev (rsGenerator n)) data n) k = 0"
proof -
  obtain qs r where q: "qdiv (rev (rsGenerator n)) (length data) (data @ replicate n 0) = (qs, r)" by fastforce
  have l: "length (rsGenerator n) = n + 1" using assms(2) by (rule length_rsGenerator)
  hence ne: "rsGenerator n \<noteq> []" by auto
  have "hd (rev (rsGenerator n)) = 1" using ne l rsGenerator_leading [OF assms(2)] by (simp add: hd_rev last_conv_nth)
  hence "1 # tl (rev (rsGenerator n)) = rev (rsGenerator n)" using ne by (metis list.collapse rev_is_Nil_conv)
  hence "heval (1 # tl (rev (rsGenerator n))) (alpha k) = 0" using rsGenerator_root [OF assms] by (simp only: heval_rev)
  moreover have "syndrome (data @ divide_rest (rev (rsGenerator n)) data n) k
      = gfMul (heval qs (alpha k)) (heval (1 # tl (rev (rsGenerator n))) (alpha k))"
    unfolding syndrome_def using l q by (intro divide_rest_heval) simp_all
  ultimately show ?thesis by simp
qed

text \<open>With the generator as it is stored, the zeroth syndrome is a multiple of the sum of the quotient digits.\<close>

lemma stored_division_syndrome:
  assumes "0 < n" "n \<le> 512" "qdiv (rsGenerator n) (length data) (data @ replicate n 0) = (qs, r)"
  shows "syndrome (data @ reedSolomon data n) 0 = gfMul (heval qs 1) (1 XOR alpha (\<Sum>{..<n}))"
proof -
  have l: "length (rsGenerator n) = n + 1" using assms(2) by (rule length_rsGenerator)
  then obtain g gs where g: "rsGenerator n = g # gs" by (cases "rsGenerator n") auto
  have "leval p 1 = heval p 1" for p by (induction p) simp_all
  hence "heval (g # gs) 1 = 0" using rsGenerator_root [of 0 n] assms(1,2) by (simp only: g alpha_0)
  hence "heval gs 1 = g" by (simp add: xor.assoc [symmetric]) (metis xor_self_eq xor.assoc xor.right_neutral)
  moreover have "g = alpha (\<Sum>{..<n})" using rsGenerator_constant [OF assms(2)] g by simp
  ultimately have "heval (1 # tl (rsGenerator n)) 1 = 1 XOR alpha (\<Sum>{..<n})" by (simp add: g)
  thus ?thesis using divide_rest_heval [OF l assms(3), of 1] by (simp add: syndrome_def reedSolomon_divide)
qed

lemma qdiv_last_digit: "\<exists>qs e. \<forall>c. fst (qdiv gen (Suc (length a)) (a @ c # rest)) = qs @ [e XOR c]"
proof (induction "length a" arbitrary: a rest)
  case 0
  thus ?case by (auto simp: split_def intro!: exI [of _ "[]"] exI [of _ 0])
next
  case (Suc m)
  then obtain x a' where a: "a = x # a'" by (cases a) auto
  define ys where "ys = map (\<lambda>g. gfMul g x) (tl gen)"
  define a2 where "a2 = pxor (take (length a') ys) a'"
  define e2 where "e2 = (if length a' < length ys then ys ! length a' else 0)"
  define t2 where "t2 = pxor (drop (Suc (length a')) ys) rest"
  have d: "pxor ys (a' @ c # rest) = a2 @ (e2 XOR c) # t2" for c
  proof (cases "length a' < length ys")
    case True
    thus ?thesis by (simp add: pxor_append a2_def e2_def t2_def Cons_nth_drop_Suc [symmetric])
  qed (simp add: pxor_append a2_def e2_def t2_def)
  have l: "length a2 = length a'" by (simp add: a2_def)
  hence "m = length a2" using Suc.hyps(2) a by simp
  from Suc.hyps(1) [OF this, of t2] obtain qs e where
    q: "fst (qdiv gen (Suc (length a2)) (a2 @ c # t2)) = qs @ [e XOR c]" for c by auto
  have "fst (qdiv gen (Suc (length a)) (a @ c # rest)) = x # fst (qdiv gen (Suc (length a2)) (a2 @ (e2 XOR c) # t2))" for c
    by (simp add: a l ys_def [symmetric] d split_def del: qdiv.simps(1)) (simp add: ys_def [symmetric] d split_def)
  hence "fst (qdiv gen (Suc (length a)) (a @ c # rest)) = (x # qs) @ [(e XOR e2) XOR c]" for c
    by (simp only: q append_Cons xor.assoc)
  thus ?case by blast
qed

lemma heval_snoc: "heval (qs @ [c]) 1 = heval qs 1 XOR c"
  by (simp add: heval_append)

lemma alpha_dvd: "alpha d = 1 \<longleftrightarrow> 255 dvd d"
proof
  assume o: "alpha d = 1"
  have "alpha (d mod 255 + 255 * (d div 255)) = alpha (d mod 255)"
    by (simp only: alpha_add alpha_mult [OF alpha_order(1)] funpow_xtime_1)
  hence "alpha (d mod 255) = 1" using o by simp
  hence "d mod 255 = 0" using alpha_one [of "d mod 255"] by (metis mod_less_divisor not_le zero_less_numeral neq0_conv)
  thus "255 dvd d" by (simp add: dvd_eq_mod_eq_0)
qed (use alpha_mult alpha_order(1) in auto)

lemma stored_factor: "n \<in> set ecPerBlockM \<Longrightarrow> alpha (\<Sum>{..<n}) \<noteq> 1"
proof -
  have "list_all (\<lambda>n. \<not> 255 dvd n * (n - 1) div 2) ecPerBlockM" by code_simp
  hence "n \<in> set ecPerBlockM \<Longrightarrow> \<not> 255 dvd n * (n - 1) div 2" by (simp add: list_all_iff)
  moreover have "\<Sum>{..<n} = n * (n - 1) div 2"
    by (cases n) (simp_all add: lessThan_Suc_atMost atMost_atLeast0 gauss_sum_nat)
  ultimately show "n \<in> set ecPerBlockM \<Longrightarrow> alpha (\<Sum>{..<n}) \<noteq> 1" by (simp add: alpha_dvd)
qed

section \<open>The blocks of the encoder\<close>

text \<open>The last data codeword decides: exactly one value of it gives a block whose zeroth syndrome is zero.\<close>

lemma one_last_codeword:
  assumes "n \<in> set ecPerBlockM"
  shows "\<exists>!c. syndrome ((d @ [c]) @ reedSolomon (d @ [c]) n) 0 = 0"
proof -
  have "list_all (\<lambda>n. 0 < n \<and> n \<le> 512) ecPerBlockM" by code_simp
  hence n: "0 < n" "n \<le> 512" using assms by (simp_all add: list_all_iff)
  obtain qs e where q: "fst (qdiv (rsGenerator n) (Suc (length d)) (d @ c # replicate n 0)) = qs @ [e XOR c]" for c
    using qdiv_last_digit [of "rsGenerator n" d "replicate n 0"] by blast
  have s: "syndrome ((d @ [c]) @ reedSolomon (d @ [c]) n) 0 = gfMul (heval qs 1 XOR (e XOR c)) (1 XOR alpha (\<Sum>{..<n}))" for c
  proof -
    obtain r where "qdiv (rsGenerator n) (length (d @ [c])) ((d @ [c]) @ replicate n 0) = (qs @ [e XOR c], r)"
      using q [of c] by (cases "qdiv (rsGenerator n) (length (d @ [c])) ((d @ [c]) @ replicate n 0)") auto
    from stored_division_syndrome [OF n this] show ?thesis by (simp only: heval_snoc)
  qed
  have "1 XOR alpha (\<Sum>{..<n}) \<noteq> 0" using stored_factor [OF assms] by (metis xor_cancel(1,3) xor.right_neutral)
  hence z: "syndrome ((d @ [c]) @ reedSolomon (d @ [c]) n) 0 = 0 \<longleftrightarrow> heval qs 1 XOR (e XOR c) = 0" for c by (simp only: s gfMul_eq_0) simp
  show ?thesis
  proof (rule ex1I)
    show "syndrome ((d @ [heval qs 1 XOR e]) @ reedSolomon (d @ [heval qs 1 XOR e]) n) 0 = 0"
      unfolding z by (simp add: xor.assoc [symmetric])
  next
    fix c assume "syndrome ((d @ [c]) @ reedSolomon (d @ [c]) n) 0 = 0"
    hence "heval qs 1 XOR (e XOR c) = 0" by (simp only: z)
    thus "c = heval qs 1 XOR e" by (metis xor.assoc xor_cancel(3) xor.right_neutral)
  qed
qed

end
