(* ===== verification/QR_Claims.thy ===== *)
theory QR_Claims
  imports QR_Symbol QR_Reed_Solomon
begin

text \<open>
  The properties of the QR encoder: the mask chosen is the first of least penalty, every symbol of up to 42 bytes (an address)
  reads back to its payload, and the error-correction codewords are those of a wrong polynomial.
\<close>

unbundle bit_operations_syntax

section \<open>Penalties are small\<close>

definition rows_ok :: "nat \<Rightarrow> bool list list \<Rightarrow> bool" where
  "rows_ok n t \<longleftrightarrow> length t = n \<and> (\<forall>r \<in> set t. length r = n)"

lemma rows_ok_put: "rows_ok n t \<Longrightarrow> rows_ok n (put y x b t)"
proof -
  assume t: "rows_ok n t"
  have "length r = n" if "r \<in> set (t[y := (t ! y)[x := b]])" "y < length t" for r
    using that t set_update_subset_insert [of t y "(t ! y)[x := b]"] by (auto simp: rows_ok_def)
  thus "rows_ok n (put y x b t)" using t by (cases "y < length t") (simp_all add: rows_ok_def put_def list_update_beyond)
qed

definition shaped :: "nat \<Rightarrow> matrix \<Rightarrow> bool" where
  "shaped n m \<longleftrightarrow> mx_size m = n \<and> rows_ok n (mx_val m)"

lemma shaped_steps:
  "shaped n m \<Longrightarrow> shaped n (paint y x b m)" "shaped n m \<Longrightarrow> shaped n (reserve y x m)" "shaped n m \<Longrightarrow> shaped n (mx_set x y b f m)"
  by (simp_all add: shaped_def rows_ok_put reserve_def mx_set_def Let_def)

lemma shaped_fold: "(\<And>x m. shaped n m \<Longrightarrow> shaped n (f x m)) \<Longrightarrow> shaped n m \<Longrightarrow> shaped n (fold f xs m)"
  by (induction xs arbitrary: m) simp_all

lemma shaped_base: "shaped (ver * 4 + 17) (base_matrix ver)"
proof -
  let ?n = "ver * 4 + 17"
  have n: "shaped ?n (newMatrix ?n)" by (simp add: shaped_def newMatrix_def rows_ok_def)
  have f: "shaped ?n m \<Longrightarrow> shaped ?n (placeFinders m)" for m
    by (simp add: placeFinders_def finder_module_def Let_def split_def shaped_fold shaped_steps)
  have t: "shaped ?n m \<Longrightarrow> shaped ?n (placeTiming m)" for m
    by (simp add: placeTiming_def shaped_fold shaped_steps)
  have a: "shaped ?n m \<Longrightarrow> shaped ?n (placeAlignment ver m)" for m
    by (simp add: placeAlignment_def Let_def shaped_fold shaped_steps)
  have r: "shaped ?n m \<Longrightarrow> shaped ?n (reserveFormat m)" "shaped ?n m \<Longrightarrow> shaped ?n (reserveVersion m)" for m
    by (simp_all add: reserveFormat_def reserveVersion_def shaped_fold shaped_steps)
  show ?thesis by (simp add: base_matrix_def Let_def n f t a r shaped_steps)
qed

lemma shaped_masked: "shaped (ver * 4 + 17) (masked final ver k)"
proof -
  let ?n = "ver * 4 + 17"
  have s: "shaped ?n (fst mi) \<Longrightarrow> shaped ?n (fst (fold (place_module final k) ws mi))" for ws mi
    by (induction ws arbitrary: mi) (simp_all add: place_module_def split_def shaped_steps)
  have "shaped ?n (placeData final k (base_matrix ver))"
    unfolding placeData_def place_columns_walk using s [of "(base_matrix ver, 0)"] shaped_base by simp
  thus ?thesis by (auto simp: masked_def Let_def writeFormat_def writeVersion_def split_def shaped_fold shaped_steps split: option.split)
qed

lemma line_runs_bound: "line_runs p run xs \<le> int (run + length xs)"
proof (induction p run xs rule: line_runs.induct)
  case (2 p run x xs)
  have "run_penalty run \<le> int run" by (simp add: run_penalty_def)
  thus ?case using 2 by (cases "x = p") auto
qed (simp add: run_penalty_def)

lemma sum_list_bound: "(\<And>x. x \<in> set xs \<Longrightarrow> f x \<le> B) \<Longrightarrow> (\<Sum>x \<leftarrow> xs. f x) \<le> int (length xs) * B" for f :: "'a \<Rightarrow> int"
proof (induction xs)
  case (Cons x xs)
  have "f x \<le> B" "(\<Sum>x \<leftarrow> xs. f x) \<le> int (length xs) * B" using Cons by simp_all
  thus ?case by (simp add: algebra_simps)
qed simp

lemma lines_bound:
  assumes "length ls = n" "\<forall>l \<in> set ls. length l = n" "0 < n"
  shows "(\<Sum>l \<leftarrow> ls. line_runs (hd l) 1 (tl l)) \<le> int n * int n" "(\<Sum>l \<leftarrow> ls. line_matches l) \<le> int n * (int n * 40)"
proof -
  show "(\<Sum>l \<leftarrow> ls. line_runs (hd l) 1 (tl l)) \<le> int n * int n"
  proof -
    have "line_runs (hd l) 1 (tl l) \<le> int n" if "l \<in> set ls" for l
      using line_runs_bound [of "hd l" 1 "tl l"] assms(2,3) that by (cases l) auto
    thus ?thesis using sum_list_bound [of ls "\<lambda>l. line_runs (hd l) 1 (tl l)" "int n"] assms(1) by simp
  qed
  have "line_matches l \<le> int n * 40" if "l \<in> set ls" for l
  proof -
    have "line_matches l \<le> int (length [0..<length l + 1 - 11]) * 40" unfolding line_matches_def by (rule sum_list_bound) (simp add: Let_def)
    thus ?thesis using assms(2) that by simp
  qed
  thus "(\<Sum>l \<leftarrow> ls. line_matches l) \<le> int n * (int n * 40)" using sum_list_bound [of ls line_matches "int n * 40"] assms(1) by simp
qed

lemma penalty_bound:
  assumes "shaped n m" "0 < n" "n \<le> 57"
  shows "penalty m < 2 ^ 30"
proof -
  have v: "mx_size m = n" "length (mx_val m) = n" "\<forall>l \<in> set (mx_val m). length l = n" using assms(1) by (simp_all add: shaped_def rows_ok_def)
  have c: "length (columns m) = n" "\<forall>l \<in> set (columns m). length l = n" using v by (auto simp: columns_def)
  have r1: "rule1 m \<le> 2 * (int n * int n)" using lines_bound(1) [OF v(2,3) assms(2)] lines_bound(1) [OF c assms(2)] unfolding rule1_def by linarith
  have r3: "rule3 m \<le> 80 * (int n * int n)" using lines_bound(2) [OF v(2,3) assms(2)] lines_bound(2) [OF c assms(2)] unfolding rule3_def by simp
  have r2: "rule2 m \<le> int (length [0..<n - 1]) * (int (length [0..<n - 1]) * 3)"
    unfolding rule2_def v(1) by (intro sum_list_bound) (simp add: Let_def)
  also have "\<dots> \<le> 3 * (int n * int n)" using assms(2) by (simp add: mult_mono algebra_simps)
  finally have r2: "rule2 m \<le> 3 * (int n * int n)" .
  have "(\<Sum>l \<leftarrow> mx_val m. length (filter id l)) \<le> (\<Sum>l \<leftarrow> mx_val m. n)"
    using v(3) by (intro sum_list_mono) (metis length_filter_le)
  hence d: "(\<Sum>l \<leftarrow> mx_val m. length (filter id l)) \<le> n * n" using v(2) by (simp add: sum_list_triv)
  define p where "p = int (\<Sum>l \<leftarrow> mx_val m. length (filter id l)) * 100 div int (n * n)"
  have "int (\<Sum>l \<leftarrow> mx_val m. length (filter id l)) \<le> int (n * n)" using d by (simp only: of_nat_le_iff)
  hence "p \<le> int (n * n) * 100 div int (n * n)" unfolding p_def using assms(2) by (intro zdiv_mono1) simp_all
  hence p: "0 \<le> p" "p \<le> 100" using assms(2) by (simp_all add: p_def pos_imp_zdiv_nonneg_iff)
  have q: "0 \<le> p div 5" "p div 5 \<le> 20" using p zdiv_mono1 [of p 100 5] by (simp_all add: pos_imp_zdiv_nonneg_iff)
  define a where "a = \<bar>p div 5 * 5 - 50\<bar> div 5"
  define b where "b = \<bar>p div 5 * 5 + 5 - 50\<bar> div 5"
  have "\<bar>p div 5 * 5 - 50\<bar> \<le> 50" using q by linarith
  hence "a \<le> 50 div 5" unfolding a_def by (intro zdiv_mono1) simp_all
  moreover have "rule4 m = (if a < b then a * 10 else b * 10)" unfolding rule4_def Let_def v(1) p_def [symmetric] a_def b_def ..
  ultimately have "rule4 m \<le> 100" by simp
  moreover have "int n * int n \<le> 57 * 57" using assms(3) by (intro mult_mono) simp_all
  ultimately show ?thesis using r1 r2 r3 by (simp add: penalty_def)
qed

section \<open>Mask selection\<close>

lemma select_mask_fold:
  assumes "fold (select_mask final ver) [0..<n] ([], 2 ^ 30) = (best, p)" "\<forall>k < n. penalty (masked final ver k) < 2 ^ 30" "0 < n"
  shows "\<exists>k < n. best = mx_val (masked final ver k) \<and> p = penalty (masked final ver k) \<and>
    (\<forall>j < n. p \<le> penalty (masked final ver j)) \<and> (\<forall>j < k. p < penalty (masked final ver j))"
  using assms
proof (induction n arbitrary: best p)
  case (Suc n)
  obtain best' p' where f: "fold (select_mask final ver) [0..<n] ([], 2 ^ 30) = (best', p')" by fastforce
  hence s: "(best, p) = select_mask final ver n (best', p')" using Suc.prems(1) by simp
  show ?case
  proof (cases "n = 0")
    case True
    thus ?thesis using s f Suc.prems(2) by (auto simp: select_mask_def Let_def)
  next
    case False
    then obtain k where k: "k < n" "best' = mx_val (masked final ver k)" "p' = penalty (masked final ver k)"
      "\<forall>j < n. p' \<le> penalty (masked final ver j)" "\<forall>j < k. p' < penalty (masked final ver j)"
      using Suc.IH [OF f] Suc.prems(2) by auto
    show ?thesis
    proof (cases "penalty (masked final ver n) < p'")
      case True
      hence "best = mx_val (masked final ver n)" "p = penalty (masked final ver n)" using s by (simp_all add: select_mask_def Let_def)
      thus ?thesis using True k(4) by (intro exI [of _ n]) (auto simp: less_Suc_eq)
    next
      case False
      hence "best = best'" "p = p'" using s by (simp_all add: select_mask_def Let_def)
      thus ?thesis using False k by (intro exI [of _ k]) (auto simp: less_Suc_eq)
    qed
  qed
qed simp

text \<open>The encoder keeps, of the eight masks, the first one with the least penalty.\<close>

lemma placeAndMask_minimal:
  assumes "ver \<le> 10"
  shows "\<exists>k < 8. placeAndMask final ver = mx_val (masked final ver k) \<and>
    (\<forall>j < 8. penalty (masked final ver k) \<le> penalty (masked final ver j)) \<and> (\<forall>j < k. penalty (masked final ver k) < penalty (masked final ver j))"
proof -
  have "penalty (masked final ver k) < 2 ^ 30" for k
    using penalty_bound [OF shaped_masked] assms by simp
  moreover obtain best p where f: "fold (select_mask final ver) [0..<8] ([], 2 ^ 30) = (best, p)" by fastforce
  ultimately show ?thesis using select_mask_fold [OF f] by (auto simp: placeAndMask_def)
qed

section \<open>The payload\<close>

lemma paint_other:
  "square m \<Longrightarrow> \<forall>(y', x', i') \<in> set cells. (y', x') \<noteq> (y, x) \<and> y' < mx_size m \<and> x' < mx_size m \<Longrightarrow>
    mx_val (fold (\<lambda>(y, x, i). paint y x (b i)) cells m) ! y ! x = mx_val m ! y ! x"
proof (induction cells arbitrary: m)
  case (Cons c cells)
  obtain y2 x2 i2 where c: "c = (y2, x2, i2)" by (cases c)
  have r: "y2 < mx_size m" "x2 < mx_size m" "(y2, x2) \<noteq> (y, x)" using Cons.prems(2) c by auto
  from Cons.IH [OF paint_square [OF Cons.prems(1) r(1)]] show ?case using Cons.prems(2) r
    by (auto simp: c paint_nth [OF Cons.prems(1) r(1,2)] simp del: paint_simps(3))
qed simp

lemma paint_written:
  assumes "square m" "\<forall>(y, x, i) \<in> set cells. y < mx_size m \<and> x < mx_size m" "distinct (map (\<lambda>(y, x, i). (y, x)) cells)" "(y, x, i) \<in> set cells"
  shows "mx_val (fold (\<lambda>(y, x, i). paint y x (b i)) cells m) ! y ! x = b i"
  using assms
proof (induction cells arbitrary: m)
  case (Cons c cells)
  obtain y1 x1 i1 where c: "c = (y1, x1, i1)" by (cases c)
  have r: "y1 < mx_size m" "x1 < mx_size m" using Cons.prems(2) c by auto
  have sq: "square (paint y1 x1 (b i1) m)" by (rule paint_square [OF Cons.prems(1) r(1)])
  show ?case
  proof (cases "(y, x, i) \<in> set cells")
    case True
    thus ?thesis using Cons.IH [OF sq] Cons.prems by (simp add: c)
  next
    case False
    hence e: "y = y1" "x = x1" "i = i1" using Cons.prems(4) c by auto
    have o: "\<forall>(y', x', i') \<in> set cells. (y', x') \<noteq> (y, x) \<and> y' < mx_size (paint y1 x1 (b i1) m) \<and> x' < mx_size (paint y1 x1 (b i1) m)"
      using Cons.prems(2,3) e by (force simp: c image_iff)
    show ?thesis using paint_other [OF sq o, of b] r by (simp add: c e paint_nth [OF Cons.prems(1) r] del: paint_simps(3))
  qed
qed simp

text \<open>Both copies of the format information name the mask.\<close>

lemma format_readable:
  assumes "base_ok ver" "1 \<le> ver" "ver < 7" "(y, x, i) \<in> set (format_cells (ver * 4 + 17))"
  shows "mx_val (masked final ver k) ! y ! x = bit (formatStringsM ! k) i"
proof -
  define m where "m = base_matrix ver"
  have b: "square m" "mx_size m = ver * 4 + 17" "\<forall>(y, x, i) \<in> set (format_cells (mx_size m)). y < mx_size m \<and> x < mx_size m"
    using assms(1) by (auto simp: base_ok_def room_ok_def m_def list_all_iff)
  let ?ws = "walk (mx_size m) (mx_size m - 1) True"
  have in_range: "\<forall>(x, y) \<in> set ?ws. x < mx_size m \<and> y < mx_size m" using set_walk b(2) by fastforce
  have pd: "placeData final k m = fst (fold (place_module final k) ?ws (m, 0))" by (simp add: placeData_def place_columns_walk)
  have sz: "mx_size (placeData final k m) = mx_size m" by (simp add: pd place_fold_fst)
  have sq: "square (placeData final k m)" using place_fold [OF b(1) distinct_walk in_range, of final k 0] by (simp add: pd)
  have "distinct (map (\<lambda>(y, x, i). (y, x)) (format_cells (mx_size m)))" using assms(2) by (simp add: format_cells_def b(2))
  hence "mx_val (writeFormat k (placeData final k m)) ! y ! x = bit (formatStringsM ! k) i"
    unfolding writeFormat_def sz using assms(4) b by (intro paint_written [OF sq]) (simp_all add: sz)
  thus ?thesis using assms(3) by (simp add: masked_def Let_def m_def [symmetric])
qed

lemma length_interleave:
  assumes "ver \<in> {1, 2, 3}" "length d = dataCodewordsM ! (ver - 1)"
  shows "length (interleave d (ver - 1)) = symbol_codewords ver"
proof -
  have "ver = 1 \<or> ver = 2 \<or> ver = 3" using assms(1) by auto
  thus ?thesis using assms(2)
    by (elim disjE) (simp_all add: interleave_def Let_def blocks_of_def addBlocks_map blocksM_def symbol_codewords_def dataCodewordsM_def
      ecPerBlockM_def length_concat_rows numeral_2_eq_2 [symmetric])
qed

lemma pickVersion_small:
  assumes "n \<le> 42"
  shows "pickVersion n \<in> {1, 2, 3}" "4 + (if pickVersion n \<ge> 10 then 16 else 8) + 8 * n \<le> dataCodewordsM ! (pickVersion n - 1) * 8"
  using assms by (auto simp: pickVersion_def capByteM_def dataCodewordsM_def)

lemma masked_readable:
  assumes "ver \<in> {1, 2, 3}" "length data < 256" "length (payload_bits data ver) \<le> dataCodewordsM ! (ver - 1) * 8"
  defines "final \<equiv> interleave (bitsToCodewords (buildDataBits data ver) (dataCodewordsM ! (ver - 1))) (ver - 1)"
  shows "read_symbol ver k (mx_val (masked final ver k)) = Some data"
proof -
  have ok: "base_ok ver" "ver < 7" "1 \<le> ver" using assms(1) base_ok_1 base_ok_2 base_ok_3 by auto
  let ?n = "dataCodewordsM ! (ver - 1)" let ?bits = "buildDataBits data ver"
  obtain t where b: "length ?bits = ?n * 8" "?bits = payload_bits data ver @ t" using buildDataBits_exact [OF assms(3)] by blast
  have l: "length final = symbol_codewords ver" unfolding final_def by (rule length_interleave [OF assms(1)]) simp
  have "bitsToCodewords (read_bits ver k (mx_val (masked final ver k))) (symbol_codewords ver) = final"
    unfolding read_bits_masked [OF ok(1,2)] using codewords_of_bits [OF free_cells_room [OF ok(1,3)], of final] l by simp
  moreover have "deinterleave (ver - 1) final = bitsToCodewords ?bits ?n"
    unfolding final_def using assms(1) by (intro deinterleave_interleave) auto
  ultimately have "read_symbol ver k (mx_val (masked final ver k)) = read_stream ver ?bits"
    using codewords_bits [OF b(1)] by (simp add: read_symbol_def Let_def)
  thus ?thesis using read_stream_payload [OF assms(2)] b(2) by simp
qed

text \<open>Every text of at most 42 bytes, so every address, is encoded, in the smallest version that holds it, and the symbol
  reads back: both copies of its format information name a mask, and taking that mask off the data modules, walking them in
  the standard's order and undoing the interleaving gives the text.\<close>

lemma qr_payload_readable:
  assumes "length data \<le> 42"
  shows "\<exists>mat ver k. encode data = Some mat \<and> ver = (if length data \<le> 14 then 1 else if length data \<le> 26 then 2 else 3) \<and> k < 8 \<and>
    (\<forall>(y, x, i) \<in> set (format_cells (ver * 4 + 17)). mat ! y ! x = bit (formatStringsM ! k) i) \<and> read_symbol ver k mat = Some data"
proof -
  define ver where "ver = pickVersion (length data)"
  have v: "ver = (if length data \<le> 14 then 1 else if length data \<le> 26 then 2 else 3)"
    using assms by (auto simp: ver_def pickVersion_def capByteM_def)
  hence small: "ver \<in> {1, 2, 3}" by auto
  have room: "length (payload_bits data ver) \<le> dataCodewordsM ! (ver - 1) * 8"
    using pickVersion_small(2) [OF assms] by (simp add: length_payload_bits ver_def)
  define final where "final = interleave (bitsToCodewords (buildDataBits data ver) (dataCodewordsM ! (ver - 1))) (ver - 1)"
  obtain k where k: "k < 8" "placeAndMask final ver = mx_val (masked final ver k)" using placeAndMask_minimal [of ver final] small by auto
  have e: "encode data = Some (mx_val (masked final ver k))" using small k(2) by (auto simp: encode_def Let_def ver_def [symmetric] final_def)
  have "base_ok ver" using small base_ok_1 base_ok_2 base_ok_3 by auto
  hence f: "\<forall>(y, x, i) \<in> set (format_cells (ver * 4 + 17)). mx_val (masked final ver k) ! y ! x = bit (formatStringsM ! k) i"
    using format_readable small by auto
  have "read_symbol ver k (mx_val (masked final ver k)) = Some data"
    unfolding final_def using assms by (intro masked_readable [OF small _ room]) simp
  thus ?thesis using e f v k(1) by blast
qed

definition sample_address :: bytes where
  "sample_address = [0x30, 0x78] @ replicate 40 0x61"


section \<open>The error-correction codewords\<close>

text \<open>C17. The error-correction codewords are wrong for every block size of the encoder: dividing by the generator as the code
  stores it, lowest coefficient first, leaves a block whose zeroth syndrome is zero for only one of the 256 values of its last
  data codeword, whatever the others are; dividing by the same generator reversed makes every syndrome zero.  A reader that
  checks the syndromes, as the standard asks, takes the printed symbols for damaged.\<close>

theorem qr_error_codewords:
  assumes "n \<in> set ecPerBlockM"
  shows "(\<forall>d. \<exists>!c. syndrome ((d @ [c]) @ reedSolomon (d @ [c]) n) 0 = 0) \<and>
    (\<forall>d k. k < n \<longrightarrow> syndrome (d @ divide_rest (rev (rsGenerator n)) d n) k = 0)"
proof -
  have "list_all (\<lambda>n. n \<le> 512) ecPerBlockM" by code_simp
  hence "n \<le> 512" using assms by (simp add: list_all_iff)
  thus ?thesis using one_last_codeword [OF assms] reversed_division_valid by blast
qed

theorem qr_error_codewords_witness:
  "(\<exists>!c. syndrome ((sample_address @ [0x41, c]) @ reedSolomon (sample_address @ [0x41, c]) 26) 0 = 0) \<and>
   syndrome (sample_address @ divide_rest (rev (rsGenerator 26)) sample_address 26) 25 = 0"
proof -
  have "26 \<in> set ecPerBlockM" by (simp add: ecPerBlockM_def)
  note t = qr_error_codewords [OF this]
  have "\<exists>!c. syndrome (((sample_address @ [0x41]) @ [c]) @ reedSolomon ((sample_address @ [0x41]) @ [c]) 26) 0 = 0" using t by blast
  thus ?thesis using t by simp
qed

end
