(* ===== verification/Json.thy ===== *)
theory Json
  imports Hex_Bytes
begin

text \<open>
  JSON text as Go's \<open>encoding/json\<close> reads it into a struct, and as the hand-written writer of
  \<open>internal/policy/file.go\<close> produces it.  A Go string is a byte string holding UTF-8 text.  A number keeps its literal
  text, which the field it is read into converts.  An object keeps its members in order, with repeated keys.
\<close>

unbundle bit_operations_syntax

section \<open>Values\<close>

datatype json = JsNull | JsBool bool | JsNum string | JsText string | JsArr "json list" | JsObj "(string \<times> json) list"

section \<open>Writing\<close>

text \<open>\<open>jsonString\<close>.\<close>

definition esc_char :: "char \<Rightarrow> string" where
  "esc_char c = (let n = of_char c :: nat in
     if n = 0x22 then [CHR 0x5C, CHR 0x22]
     else if n = 0x5C then [CHR 0x5C, CHR 0x5C]
     else if n = 0x0A then [CHR 0x5C, CHR ''n'']
     else if n = 0x0D then [CHR 0x5C, CHR ''r'']
     else if n = 0x09 then [CHR 0x5C, CHR ''t'']
     else if n < 0x20 then [CHR 0x5C] @ ''u00'' @ [hexdigits ! (n div 16), hexdigits ! (n mod 16)]
     else [c])"

definition jsonString :: "string \<Rightarrow> string" where
  "jsonString s = [CHR 0x22] @ concat (map esc_char s) @ [CHR 0x22]"

fun joined :: "string list \<Rightarrow> string" where
  "joined [] = []"
| "joined [s] = s"
| "joined (s # ss) = s @ '','' @ joined ss"

fun show_json :: "json \<Rightarrow> string" where
  "show_json JsNull = ''null''"
| "show_json (JsBool b) = (if b then ''true'' else ''false'')"
| "show_json (JsNum t) = t"
| "show_json (JsText s) = jsonString s"
| "show_json (JsArr vs) = ''['' @ joined (map show_json vs) @ '']''"
| "show_json (JsObj kvs) = ''{'' @ joined (map (\<lambda>(k, v). jsonString k @ '':'' @ show_json v) kvs) @ ''}''"

section \<open>Reading\<close>

definition is_ws :: "char \<Rightarrow> bool" where
  "is_ws c \<longleftrightarrow> (of_char c :: nat) \<in> {0x20, 0x09, 0x0A, 0x0D}"

definition skip_ws :: "string \<Rightarrow> string" where
  "skip_ws s = dropWhile is_ws s"

definition hex_digit :: "char \<Rightarrow> nat option" where
  "hex_digit c = map_option unat (hexVal c)"

definition hex4 :: "char \<Rightarrow> char \<Rightarrow> char \<Rightarrow> char \<Rightarrow> nat option" where
  "hex4 a b c d = (case (hex_digit a, hex_digit b, hex_digit c, hex_digit d) of
     (Some w, Some x, Some y, Some z) \<Rightarrow> Some (((w * 16 + x) * 16 + y) * 16 + z) | _ \<Rightarrow> None)"

definition utf8 :: "nat \<Rightarrow> string" where
  "utf8 n = (if n < 0x80 then [char_of n]
     else if n < 0x800 then [char_of (0xC0 + n div 64), char_of (0x80 + n mod 64)]
     else if n < 0x10000 then [char_of (0xE0 + n div 4096), char_of (0x80 + n div 64 mod 64), char_of (0x80 + n mod 64)]
     else [char_of (0xF0 + n div 262144), char_of (0x80 + n div 4096 mod 64), char_of (0x80 + n div 64 mod 64), char_of (0x80 + n mod 64)])"

definition unesc :: "char \<Rightarrow> char option" where
  "unesc c = map_of [(CHR 0x22, CHR 0x22), (CHR 0x5C, CHR 0x5C), (CHR ''/'', CHR ''/''), (CHR ''b'', CHR 0x08), (CHR ''f'', CHR 0x0C),
     (CHR ''n'', CHR 0x0A), (CHR ''r'', CHR 0x0D), (CHR ''t'', CHR 0x09)] c"

definition prepend :: "string option \<Rightarrow> (string \<times> string) option \<Rightarrow> (string \<times> string) option" where
  "prepend x r = (case (x, r) of (Some a, Some (t, rest)) \<Rightarrow> Some (a @ t, rest) | _ \<Rightarrow> None)"

text \<open>The code unit of a \<open>\uXXXX\<close> escape at the head of the text.\<close>

definition escaped_unit :: "string \<Rightarrow> nat option" where
  "escaped_unit s = (case s of b # u # x # y # z # w # _ \<Rightarrow> if b = CHR 0x5C \<and> u = CHR ''u'' then hex4 x y z w else None | _ \<Rightarrow> None)"

text \<open>The rest of a string literal, after its opening quote.  A surrogate pair is one character, a lone surrogate becomes
  U+FFFD.\<close>

fun pstr :: "string \<Rightarrow> (string \<times> string) option" where
  "pstr [] = None"
| "pstr (c # s) =
    (if c = CHR 0x22 then Some ([], s)
     else if c = CHR 0x5C then
       (case s of [] \<Rightarrow> None
        | e # s1 \<Rightarrow> if e = CHR ''u'' then
             (case s1 of x # y # z # w # s2 \<Rightarrow>
                (case hex4 x y z w of None \<Rightarrow> None
                 | Some n \<Rightarrow> if n < 0xD800 \<or> 0xE000 \<le> n then prepend (Some (utf8 n)) (pstr s2)
                     else (case escaped_unit s2 of
                        Some m \<Rightarrow> if n < 0xDC00 \<and> 0xDC00 \<le> m \<and> m < 0xE000
                            then prepend (Some (utf8 (0x10000 + (n - 0xD800) * 1024 + (m - 0xDC00)))) (pstr (drop 6 s2))
                            else prepend (Some (utf8 0xFFFD)) (pstr s2)
                      | None \<Rightarrow> prepend (Some (utf8 0xFFFD)) (pstr s2)))
              | _ \<Rightarrow> None)
           else prepend (map_option (\<lambda>x. [x]) (unesc e)) (pstr s1))
     else if (of_char c :: nat) < 0x20 then None
     else prepend (Some [c]) (pstr s))"

text \<open>The optional parts of a number: what they consume and what is left.\<close>

definition fraction :: "string \<Rightarrow> (string \<times> string) option" where
  "fraction s = (if s \<noteq> [] \<and> hd s = CHR ''.'' then
       (if takeWhile is_digit (tl s) = [] then None else Some (''.'' @ takeWhile is_digit (tl s), dropWhile is_digit (tl s)))
     else Some ([], s))"

definition exponent :: "string \<Rightarrow> (string \<times> string) option" where
  "exponent s = (if s \<noteq> [] \<and> (hd s = CHR ''e'' \<or> hd s = CHR ''E'') then
       (let t = tl s; sg = (if t \<noteq> [] \<and> (hd t = CHR ''+'' \<or> hd t = CHR ''-'') then [hd t] else []); u = drop (length sg) t in
        if takeWhile is_digit u = [] then None else Some (hd s # sg @ takeWhile is_digit u, dropWhile is_digit u))
     else Some ([], s))"

definition pnum :: "string \<Rightarrow> (json \<times> string) option" where
  "pnum s = (let sg = (if s \<noteq> [] \<and> hd s = CHR ''-'' then ''-'' else []); s1 = drop (length sg) s; ds = takeWhile is_digit s1 in
     if ds = [] \<or> (length ds > 1 \<and> hd ds = CHR ''0'') then None
     else (case fraction (dropWhile is_digit s1) of None \<Rightarrow> None
       | Some (fr, t) \<Rightarrow> (case exponent t of None \<Rightarrow> None
           | Some (ex, u) \<Rightarrow> Some (JsNum (sg @ ds @ fr @ ex), u))))"

definition keyword :: "string \<Rightarrow> json \<Rightarrow> string \<Rightarrow> (json \<times> string) option" where
  "keyword w v s = (if HasPrefix s w then Some (v, drop (length w) s) else None)"

text \<open>Fuel bounds the nesting and the number of items; the length of the text is enough.\<close>

fun pval :: "nat \<Rightarrow> string \<Rightarrow> (json \<times> string) option"
  and pelems :: "nat \<Rightarrow> string \<Rightarrow> (json list \<times> string) option"
  and pmembers :: "nat \<Rightarrow> string \<Rightarrow> ((string \<times> json) list \<times> string) option" where
  "pval 0 s = None"
| "pval (Suc n) s = (case skip_ws s of [] \<Rightarrow> None
     | c # r \<Rightarrow>
       if c = CHR ''{'' then
         (case skip_ws r of [] \<Rightarrow> None
          | d # r1 \<Rightarrow> if d = CHR ''}'' then Some (JsObj [], r1) else map_option (\<lambda>(ms, t). (JsObj ms, t)) (pmembers n (d # r1)))
       else if c = CHR ''['' then
         (case skip_ws r of [] \<Rightarrow> None
          | d # r1 \<Rightarrow> if d = CHR '']'' then Some (JsArr [], r1) else map_option (\<lambda>(vs, t). (JsArr vs, t)) (pelems n (d # r1)))
       else if c = CHR 0x22 then map_option (\<lambda>(x, t). (JsText x, t)) (pstr r)
       else if c = CHR ''t'' then keyword ''rue'' (JsBool True) r
       else if c = CHR ''f'' then keyword ''alse'' (JsBool False) r
       else if c = CHR ''n'' then keyword ''ull'' JsNull r
       else pnum (c # r))"
| "pelems 0 s = None"
| "pelems (Suc n) s = (case pval n s of None \<Rightarrow> None
     | Some (v, t) \<Rightarrow> (case skip_ws t of [] \<Rightarrow> None
         | d # t1 \<Rightarrow> if d = CHR '','' then map_option (\<lambda>(vs, u). (v # vs, u)) (pelems n t1)
             else if d = CHR '']'' then Some ([v], t1) else None))"
| "pmembers 0 s = None"
| "pmembers (Suc n) s = (case skip_ws s of [] \<Rightarrow> None
     | q # s1 \<Rightarrow> if q \<noteq> CHR 0x22 then None else
       (case pstr s1 of None \<Rightarrow> None
        | Some (k, s2) \<Rightarrow> (case skip_ws s2 of [] \<Rightarrow> None
            | e # s3 \<Rightarrow> if e \<noteq> CHR '':'' then None else
              (case pval n s3 of None \<Rightarrow> None
               | Some (v, t) \<Rightarrow> (case skip_ws t of [] \<Rightarrow> None
                   | d # t1 \<Rightarrow> if d = CHR '','' then map_option (\<lambda>(ms, u). ((k, v) # ms, u)) (pmembers n t1)
                       else if d = CHR ''}'' then Some ([(k, v)], t1) else None)))))"

text \<open>\<open>json.Unmarshal\<close> up to the conversion into a Go value: one value, then only white space.\<close>

definition parse_json :: "string \<Rightarrow> json option" where
  "parse_json s = (case pval (Suc (length s)) s of Some (v, r) \<Rightarrow> if skip_ws r = [] then Some v else None | None \<Rightarrow> None)"

section \<open>Decoding into Go values\<close>

text \<open>A decoder takes the value already in the target; \<open>null\<close> leaves it (a pointer or a slice becomes nil).  A member fills the
  field of that name, else the first one equal up to letter case; \<open>DisallowUnknownFields\<close> makes any other member an error.\<close>

type_synonym 'a decoder = "json \<Rightarrow> 'a \<Rightarrow> 'a option"

definition dec_string :: "string decoder" where
  "dec_string j old = (case j of JsNull \<Rightarrow> Some old | JsText s \<Rightarrow> Some s | _ \<Rightarrow> None)"

definition dec_bool :: "bool decoder" where
  "dec_bool j old = (case j of JsNull \<Rightarrow> Some old | JsBool b \<Rightarrow> Some b | _ \<Rightarrow> None)"

definition dec_int :: "int decoder" where
  "dec_int j old = (case j of JsNull \<Rightarrow> Some old
     | JsNum t \<Rightarrow> (case SetString t of Some i \<Rightarrow> if - (2 ^ 63) \<le> i \<and> i < 2 ^ 63 then Some i else None | None \<Rightarrow> None)
     | _ \<Rightarrow> None)"

definition dec_uint64 :: "(64 word) decoder" where
  "dec_uint64 j old = (case j of JsNull \<Rightarrow> Some old
     | JsNum t \<Rightarrow> if all_digits t \<and> digits_val t < 2 ^ 64 then Some (word_of_nat (digits_val t)) else None
     | _ \<Rightarrow> None)"

definition dec_ptr :: "'a decoder \<Rightarrow> 'a \<Rightarrow> 'a option decoder" where
  "dec_ptr d z j old = (if j = JsNull then Some None else map_option Some (d j (case old of Some x \<Rightarrow> x | None \<Rightarrow> z)))"

fun dec_items :: "'a decoder \<Rightarrow> 'a \<Rightarrow> json list \<Rightarrow> 'a list \<Rightarrow> 'a list option" where
  "dec_items d z [] old = Some []"
| "dec_items d z (v # vs) old = (case d v (if old = [] then z else hd old) of None \<Rightarrow> None
     | Some x \<Rightarrow> map_option ((#) x) (dec_items d z vs (tl old)))"

definition dec_slice :: "'a decoder \<Rightarrow> 'a \<Rightarrow> 'a list decoder" where
  "dec_slice d z j old = (case j of JsNull \<Rightarrow> Some [] | JsArr vs \<Rightarrow> dec_items d z vs old | _ \<Rightarrow> None)"

definition find_field :: "(string \<times> 'a decoder) list \<Rightarrow> string \<Rightarrow> 'a decoder option" where
  "find_field fs k = (case map_of fs k of Some d \<Rightarrow> Some d | None \<Rightarrow> map_option snd (find (\<lambda>(n, _). EqualFold n k) fs))"

fun dec_members :: "bool \<Rightarrow> (string \<times> 'a decoder) list \<Rightarrow> (string \<times> json) list \<Rightarrow> 'a \<Rightarrow> 'a option" where
  "dec_members strict fs [] old = Some old"
| "dec_members strict fs ((k, v) # ms) old = (case find_field fs k of
     None \<Rightarrow> if strict then None else dec_members strict fs ms old
   | Some d \<Rightarrow> (case d v old of None \<Rightarrow> None | Some x \<Rightarrow> dec_members strict fs ms x))"

definition dec_struct :: "bool \<Rightarrow> (string \<times> 'a decoder) list \<Rightarrow> 'a decoder" where
  "dec_struct strict fs j old = (case j of JsNull \<Rightarrow> Some old | JsObj ms \<Rightarrow> dec_members strict fs ms old | _ \<Rightarrow> None)"

text \<open>A field of a struct as a decoder of the whole struct.\<close>

definition field :: "('r \<Rightarrow> 'a) \<Rightarrow> (('a \<Rightarrow> 'a) \<Rightarrow> 'r \<Rightarrow> 'r) \<Rightarrow> 'a decoder \<Rightarrow> 'r decoder" where
  "field get upd d j r = map_option (\<lambda>x. upd (\<lambda>_. x) r) (d j (get r))"

text \<open>The \<open>map[string]json.RawMessage\<close> of an object: exact keys, the last occurrence wins; anything else has no members.\<close>

definition raw_member :: "json \<Rightarrow> string \<Rightarrow> json option" where
  "raw_member j k = (case j of JsObj ms \<Rightarrow> map_of (rev ms) k | _ \<Rightarrow> None)"

section \<open>Lemmas: what is written is read back\<close>

lemma skip_ws_nonspace [simp]: "\<not> is_ws c \<Longrightarrow> skip_ws (c # s) = c # s"
  by (simp add: skip_ws_def)

lemma skip_ws_Nil [simp]: "skip_ws [] = []"
  by (simp add: skip_ws_def)

text \<open>A text after which a value ends.\<close>

definition delim :: "string \<Rightarrow> bool" where
  "delim r \<longleftrightarrow> r = [] \<or> is_ws (hd r) \<or> hd r \<in> {CHR '','', CHR '']'', CHR ''}''}"

lemma hex4_control: "n < 32 \<Longrightarrow> hex4 CHR ''0'' CHR ''0'' (hexdigits ! (n div 16)) (hexdigits ! (n mod 16)) = Some n"
proof -
  assume n: "n < 32"
  have z: "hex_digit CHR ''0'' = Some 0" by (simp add: hex_digit_def hexVal_def)
  have "hex_digit (hexdigits ! k) = Some k" if "k < 16" for k
    using that hexVal_digit [OF that] by (simp add: hex_digit_def unsigned_of_nat take_bit_nat_eq_self)
  from this [of "n div 16"] this [of "n mod 16"] n show ?thesis
    by (simp add: hex4_def z)
qed

lemma pstr_esc: "pstr (esc_char c @ r) = prepend (Some [c]) (pstr r)"
proof (cases "(of_char c :: nat) \<in> {0x22, 0x5C, 0x0A, 0x0D, 0x09}")
  case True
  hence "c \<in> char_of ` {0x22, 0x5C, 0x0A, 0x0D, 0x09 :: nat}" by (metis char_of_char image_eqI)
  hence "c \<in> {CHR 0x22, CHR 0x5C, CHR 0x0A, CHR 0x0D, CHR 0x09}" by (simp add: char_of_def bit_0)
  thus ?thesis by (auto simp: esc_char_def unesc_def)
next
  case False
  show ?thesis
  proof (cases "(of_char c :: nat) < 0x20")
    case True
    thus ?thesis using False hex4_control [of "of_char c"] by (simp add: esc_char_def utf8_def Let_def)
  next
    case nc: False
    have "c \<noteq> CHR 0x22" "c \<noteq> CHR 0x5C" using False by auto
    thus ?thesis using False nc by (simp add: esc_char_def)
  qed
qed

lemma pstr_jsonString: "pstr (concat (map esc_char s) @ CHR 0x22 # r) = Some (s, r)"
  by (induction s) (simp_all add: pstr_esc prepend_def)

definition num_char :: "char \<Rightarrow> bool" where
  "num_char c \<longleftrightarrow> is_digit c \<or> c = CHR ''-''"

lemma takeWhile_digits: "list_all is_digit ds \<Longrightarrow> r = [] \<or> \<not> is_digit (hd r) \<Longrightarrow> takeWhile is_digit (ds @ r) = ds \<and> dropWhile is_digit (ds @ r) = r"
  by (induction ds) (cases r; simp)+

lemma delim_cases: "delim r \<Longrightarrow> r = [] \<or> (\<not> is_digit (hd r) \<and> hd r \<noteq> CHR ''.'' \<and> hd r \<noteq> CHR ''e'' \<and> hd r \<noteq> CHR ''E'')"
  by (auto simp: delim_def is_digit_def is_ws_def)

lemma nat_dec_no_zero: "length (nat_dec n) > 1 \<Longrightarrow> hd (nat_dec n) \<noteq> CHR ''0''"
  by (cases "n = 0") (auto simp: nat_dec_small nat_dec_hd)

lemma hd_nat_dec: "is_digit (hd (nat_dec n))"
  using nat_dec_digits [of n] by (cases "nat_dec n") auto

lemma pnum_nat: "delim r \<Longrightarrow> pnum (nat_dec n @ r) = Some (JsNum (nat_dec n), r)"
proof -
  assume r: "delim r"
  have h: "hd (nat_dec n @ r) \<noteq> CHR ''-''" using hd_nat_dec [of n] digit_not_sign by simp
  have t: "takeWhile is_digit (nat_dec n @ r) = nat_dec n \<and> dropWhile is_digit (nat_dec n @ r) = r"
    by (rule takeWhile_digits) (use delim_cases [OF r] nat_dec_digits in auto)
  show ?thesis using h t nat_dec_no_zero [of n] delim_cases [OF r]
    by (auto simp: pnum_def Let_def fraction_def exponent_def)
qed

lemma pnum_int: "delim r \<Longrightarrow> pnum (int_dec i @ r) = Some (JsNum (int_dec i), r)"
proof (cases "i < 0")
  case True
  assume r: "delim r"
  have t: "takeWhile is_digit (nat_dec n @ r) = nat_dec n \<and> dropWhile is_digit (nat_dec n @ r) = r" for n
    by (rule takeWhile_digits) (use delim_cases [OF r] nat_dec_digits in auto)
  show ?thesis using True t nat_dec_no_zero [of "nat (- i)"] delim_cases [OF r]
    by (auto simp: int_dec_def pnum_def Let_def fraction_def exponent_def)
next
  case False
  assume "delim r"
  thus ?thesis using False by (simp add: int_dec_def pnum_nat)
qed

lemma jsonString_hd: "jsonString s = CHR 0x22 # concat (map esc_char s) @ [CHR 0x22]"
  by (simp add: jsonString_def)

text \<open>The values the writer produces: every number is an integer.\<close>

fun written :: "json \<Rightarrow> bool" where
  "written (JsNum t) \<longleftrightarrow> (\<exists>i. t = int_dec i)"
| "written (JsArr vs) \<longleftrightarrow> (\<forall>v \<in> set vs. written v)"
| "written (JsObj ms) \<longleftrightarrow> (\<forall>kv \<in> set ms. written (snd kv))"
| "written v \<longleftrightarrow> True"

lemma int_dec_hd: "\<exists>c t. int_dec i = c # t \<and> num_char c"
  using nat_dec_ne [of "nat i"] hd_nat_dec [of "nat i"] by (cases "nat_dec (nat i)") (auto simp: int_dec_def num_char_def)

lemma show_json_hd: "written v \<Longrightarrow> \<exists>c t. show_json v = c # t \<and> \<not> is_ws c \<and> c \<noteq> CHR '']'' \<and> c \<noteq> CHR ''}''"
proof (cases v)
  case (JsNum t)
  assume "written v"
  then obtain i where "t = int_dec i" using JsNum by auto
  with int_dec_hd [of i] show ?thesis using JsNum by (auto simp: num_char_def is_digit_def is_ws_def)
qed (auto simp: jsonString_hd is_ws_def)

lemma show_json_len: "written v \<Longrightarrow> 0 < length (show_json v)"
  using show_json_hd [of v] by auto

definition reads :: "json \<Rightarrow> bool" where
  "reads v \<longleftrightarrow> (\<forall>n r. delim r \<longrightarrow> length (show_json v) \<le> n \<longrightarrow> pval n (show_json v @ r) = Some (v, r))"

lemma readsD: "reads v \<Longrightarrow> delim r \<Longrightarrow> length (show_json v) \<le> n \<Longrightarrow> pval n (show_json v @ r) = Some (v, r)"
  by (simp add: reads_def)

lemma pelems_reads:
  "vs \<noteq> [] \<Longrightarrow> \<forall>v \<in> set vs. reads v \<and> written v \<Longrightarrow> length (joined (map show_json vs)) < n \<Longrightarrow>
   pelems n (joined (map show_json vs) @ CHR '']'' # r) = Some (vs, r)"
proof (induction vs arbitrary: n)
  case (Cons v vs)
  obtain m where n: "n = Suc m" using Cons.prems by (cases n) auto
  show ?case
  proof (cases vs)
    case Nil
    have "pval m (show_json v @ CHR '']'' # r) = Some (v, CHR '']'' # r)"
      by (rule readsD) (use Cons.prems n Nil in \<open>auto simp: delim_def\<close>)
    thus ?thesis using n Nil by (simp add: is_ws_def)
  next
    case (Cons w ws)
    let ?rest = "joined (map show_json vs) @ CHR '']'' # r"
    have j: "joined (map show_json (v # vs)) = show_json v @ CHR '','' # joined (map show_json vs)" using Cons by simp
    have "pval m (show_json v @ CHR '','' # ?rest) = Some (v, CHR '','' # ?rest)"
      by (rule readsD) (use Cons.prems n j in \<open>auto simp: delim_def\<close>)
    moreover have "pelems m ?rest = Some (vs, r)"
      by (rule Cons.IH) (use Cons Cons.prems n j show_json_len [of v] in auto)
    ultimately show ?thesis unfolding j n by (simp add: is_ws_def)
  qed
qed simp

definition show_member :: "string \<times> json \<Rightarrow> string" where
  "show_member kv = jsonString (fst kv) @ '':'' @ show_json (snd kv)"

lemma show_obj: "show_json (JsObj kvs) = ''{'' @ joined (map show_member kvs) @ ''}''"
proof -
  have "(\<lambda>(k, v). jsonString k @ '':'' @ show_json v) = show_member" by (auto simp: show_member_def)
  thus ?thesis by (simp only: show_json.simps)
qed

lemma show_member_app: "show_member (k, v) @ r = CHR 0x22 # concat (map esc_char k) @ CHR 0x22 # CHR '':'' # show_json v @ r"
  by (simp add: show_member_def jsonString_def)

lemma pmembers_reads:
  "ms \<noteq> [] \<Longrightarrow> \<forall>kv \<in> set ms. reads (snd kv) \<and> written (snd kv) \<Longrightarrow> length (joined (map show_member ms)) < n \<Longrightarrow>
   pmembers n (joined (map show_member ms) @ CHR ''}'' # r) = Some (ms, r)"
proof (induction ms arbitrary: n)
  case (Cons kv ms)
  obtain k v where kv: "kv = (k, v)" by (cases kv)
  obtain m where n: "n = Suc m" using Cons.prems by (cases n) auto
  have len: "length (show_json v) < length (show_member kv)" by (simp add: kv show_member_def)
  have ws: "\<not> is_ws CHR 0x22" "\<not> is_ws CHR '':''" "\<not> is_ws CHR '',''" "\<not> is_ws CHR ''}''" by (simp_all add: is_ws_def)
  show ?case
  proof (cases ms)
    case Nil
    have "pval m (show_json v @ CHR ''}'' # r) = Some (v, CHR ''}'' # r)"
      by (rule readsD) (use Cons.prems n Nil kv len in \<open>auto simp: delim_def\<close>)
    thus ?thesis using n Nil ws by (simp add: kv show_member_app pstr_jsonString)
  next
    case (Cons w ws')
    let ?rest = "joined (map show_member ms) @ CHR ''}'' # r"
    have j: "joined (map show_member (kv # ms)) = show_member kv @ CHR '','' # joined (map show_member ms)" using Cons by simp
    have "pval m (show_json v @ CHR '','' # ?rest) = Some (v, CHR '','' # ?rest)"
      by (rule readsD) (use Cons.prems n j kv len in \<open>auto simp: delim_def\<close>)
    moreover have "pmembers m ?rest = Some (ms, r)"
      by (rule Cons.IH) (use Cons Cons.prems n j len in auto)
    moreover have "joined (map show_member (kv # ms)) @ CHR ''}'' # r = CHR 0x22 # concat (map esc_char k) @ CHR 0x22 # CHR '':'' # show_json v @ CHR '','' # ?rest"
      unfolding j append_assoc by (simp add: kv show_member_app)
    ultimately show ?thesis using ws by (simp add: n kv pstr_jsonString)
  qed
qed simp

lemma joined_hd: "xs \<noteq> [] \<Longrightarrow> hd xs = c # t \<Longrightarrow> \<exists>u. joined xs = c # u"
  by (cases xs; cases "tl xs") auto

lemma written_reads: "written v \<Longrightarrow> reads v"
proof (induction v rule: written.induct)
  case (1 t)
  then obtain i where t: "t = int_dec i" by auto
  obtain c u where c: "int_dec i = c # u" "num_char c" using int_dec_hd by blast
  hence nc: "\<not> is_ws c" "c \<noteq> CHR ''{''" "c \<noteq> CHR ''[''" "c \<noteq> CHR 0x22" "c \<noteq> CHR ''t''" "c \<noteq> CHR ''f''" "c \<noteq> CHR ''n''"
    by (auto simp: num_char_def is_digit_def is_ws_def)
  show ?case unfolding reads_def
  proof (intro allI impI)
    fix n r assume r: "delim r" and n: "length (show_json (JsNum t)) \<le> n"
    then obtain m where m: "n = Suc m" using t c by (cases n) auto
    have "pnum (c # u @ r) = Some (JsNum t, r)" using pnum_int [OF r, of i] t c by simp
    thus "pval n (show_json (JsNum t) @ r) = Some (JsNum t, r)" using m t c nc by simp
  qed
next
  case (2 vs)
  hence a: "\<forall>v \<in> set vs. reads v \<and> written v" by auto
  show ?case unfolding reads_def
  proof (intro allI impI)
    fix n r assume n: "length (show_json (JsArr vs)) \<le> n"
    then obtain m where m: "n = Suc m" by (cases n) auto
    show "pval n (show_json (JsArr vs) @ r) = Some (JsArr vs, r)"
    proof (cases "vs = []")
      case False
      then obtain c t where c: "show_json (hd vs) = c # t" "\<not> is_ws c" "c \<noteq> CHR '']''" using show_json_hd [of "hd vs"] a by auto
      hence "hd (map show_json vs) = c # t" using False by (simp add: hd_map)
      from joined_hd [OF _ this] obtain u where u: "joined (map show_json vs) = c # u" using False by auto
      have "pelems m (joined (map show_json vs) @ CHR '']'' # r) = Some (vs, r)"
        by (rule pelems_reads [OF False a]) (use n m in simp)
      thus ?thesis using m c u by (simp add: is_ws_def)
    qed (simp add: m is_ws_def)
  qed
next
  case (3 ms)
  hence a: "\<forall>kv \<in> set ms. reads (snd kv) \<and> written (snd kv)" by auto
  show ?case unfolding reads_def
  proof (intro allI impI)
    fix n r assume n: "length (show_json (JsObj ms)) \<le> n"
    then obtain m where m: "n = Suc m" unfolding show_obj by (cases n) auto
    show "pval n (show_json (JsObj ms) @ r) = Some (JsObj ms, r)"
    proof (cases "ms = []")
      case False
      have "hd (map show_member ms) = CHR 0x22 # tl (show_member (hd ms))" using False by (simp add: hd_map show_member_def jsonString_def)
      from joined_hd [OF _ this] obtain u where u: "joined (map show_member ms) = CHR 0x22 # u" using False by auto
      have "pmembers m (joined (map show_member ms) @ CHR ''}'' # r) = Some (ms, r)"
        by (rule pmembers_reads [OF False a]) (use n m in \<open>simp add: show_obj del: show_json.simps\<close>)
      thus ?thesis using m u unfolding show_obj by (simp add: is_ws_def)
    qed (simp add: m is_ws_def)
  qed
next
  case "4_1"
  show ?case unfolding reads_def
    by (intro allI impI, rename_tac n r, case_tac n) (simp_all add: keyword_def HasPrefix_def is_ws_def)
next
  case "4_2"
  show ?case unfolding reads_def
    by (intro allI impI, rename_tac n r, case_tac n) (simp_all add: keyword_def HasPrefix_def is_ws_def split: if_splits)
next
  case "4_3"
  show ?case unfolding reads_def
    by (intro allI impI, rename_tac n r, case_tac n) (simp_all add: jsonString_def pstr_jsonString is_ws_def)
qed

theorem parse_show: "written v \<Longrightarrow> parse_json (show_json v) = Some v"
  using readsD [OF written_reads, of v "[]" "Suc (length (show_json v))"]
  by (simp add: parse_json_def delim_def del: pval.simps)

text \<open>Members of a hand-formatted object: white space before the key and before the value is skipped.\<close>

lemma skip_ws_app [simp]: "list_all is_ws w \<Longrightarrow> skip_ws (w @ s) = skip_ws s"
  by (induction w) (simp_all add: skip_ws_def)

lemma pval_ws: "list_all is_ws w \<Longrightarrow> pval n (w @ s) = pval n s"
  by (cases n) simp_all

lemma pmembers_next:
  assumes "list_all is_ws w" "list_all is_ws w'" "written v" "length (show_json v) \<le> n"
  shows "pmembers (Suc n) (w @ jsonString k @ CHR '':'' # w' @ show_json v @ CHR '','' # r) = map_option (\<lambda>(ms, u). ((k, v) # ms, u)) (pmembers n r)"
proof -
  have "pval n (show_json v @ CHR '','' # r) = Some (v, CHR '','' # r)"
    by (rule readsD [OF written_reads]) (use assms in \<open>auto simp: delim_def\<close>)
  thus ?thesis using assms(1,2) by (simp add: jsonString_def pstr_jsonString is_ws_def pval_ws)
qed

lemma pmembers_end:
  assumes "list_all is_ws w" "list_all is_ws w'" "list_all is_ws w''" "written v" "length (show_json v) \<le> n"
  shows "pmembers (Suc n) (w @ jsonString k @ CHR '':'' # w' @ show_json v @ w'' @ CHR ''}'' # r) = Some ([(k, v)], r)"
proof -
  have "pval n (show_json v @ w'' @ CHR ''}'' # r) = Some (v, w'' @ CHR ''}'' # r)"
    by (rule readsD [OF written_reads]) (use assms in \<open>auto simp: delim_def hd_append list_all_iff\<close>)
  thus ?thesis using assms(1,2,3) by (simp add: jsonString_def pstr_jsonString is_ws_def pval_ws)
qed

end
