(* ===== verification/Base64.thy ===== *)
theory Base64
  imports Daxie_Prelude
begin

text \<open>
  \<open>base64.StdEncoding\<close> over byte strings: the text form of the sealed body, the signature, the verify keys and the salts.
\<close>

definition b64_alphabet :: string where
  "b64_alphabet = ''ABCDEFGHIJKLMNOPQRSTUVWXYZabcdefghijklmnopqrstuvwxyz0123456789+/''"

definition b64_char :: "nat \<Rightarrow> char" where
  "b64_char n = b64_alphabet ! n"

definition b64_val :: "char \<Rightarrow> nat option" where
  "b64_val c = (let i = length (takeWhile (\<lambda>x. x \<noteq> c) b64_alphabet) in if i < 64 then Some i else None)"

text \<open>The four sextets of a 24-bit group, and its three bytes.\<close>

definition sextets :: "nat \<Rightarrow> string" where
  "sextets n = map b64_char [n div 262144, n div 4096 mod 64, n div 64 mod 64, n mod 64]"

definition group_bytes :: "nat \<Rightarrow> string" where
  "group_bytes n = map char_of [n div 65536, n div 256 mod 256, n mod 256]"

definition group3 :: "char \<Rightarrow> char \<Rightarrow> char \<Rightarrow> nat" where
  "group3 a b c = of_char a * 65536 + of_char b * 256 + of_char c"

fun b64_encode :: "string \<Rightarrow> string" where
  "b64_encode [] = []"
| "b64_encode [a] = take 2 (sextets (group3 a CHR 0x00 CHR 0x00)) @ ''==''"
| "b64_encode [a, b] = take 3 (sextets (group3 a b CHR 0x00)) @ ''=''"
| "b64_encode (a # b # c # s) = sextets (group3 a b c) @ b64_encode s"

text \<open>Line breaks are skipped; padding ends the text; bits beyond the last byte are ignored.\<close>

definition ungroup :: "char \<Rightarrow> char \<Rightarrow> char \<Rightarrow> char \<Rightarrow> nat option" where
  "ungroup a b c d = (case (b64_val a, b64_val b, b64_val c, b64_val d) of
     (Some w, Some x, Some y, Some z) \<Rightarrow> Some (w * 262144 + x * 4096 + y * 64 + z) | _ \<Rightarrow> None)"

fun b64_groups :: "string \<Rightarrow> string option" where
  "b64_groups [] = Some []"
| "b64_groups (a # b # c # d # s) =
    (if d = CHR ''='' then
       (if s \<noteq> [] then None
        else if c = CHR ''='' then map_option (\<lambda>n. take 1 (group_bytes n)) (ungroup a b CHR ''A'' CHR ''A'')
        else map_option (\<lambda>n. take 2 (group_bytes n)) (ungroup a b c CHR ''A''))
     else (case ungroup a b c d of None \<Rightarrow> None | Some n \<Rightarrow> map_option ((@) (group_bytes n)) (b64_groups s)))"
| "b64_groups _ = None"

definition b64_decode :: "string \<Rightarrow> string option" where
  "b64_decode s = b64_groups (filter (\<lambda>c. c \<noteq> CHR 0x0A \<and> c \<noteq> CHR 0x0D) s)"

section \<open>Lemmas: what is encoded is decoded\<close>

lemma b64_table: "n < 64 \<Longrightarrow> b64_val (b64_char n) = Some n \<and> b64_char n \<notin> {CHR ''='', CHR 0x0A, CHR 0x0D}"
proof -
  have "list_all (\<lambda>n. b64_val (b64_char n) = Some n \<and> b64_char n \<notin> {CHR ''='', CHR 0x0A, CHR 0x0D}) [0..<64]" by code_simp
  thus "n < 64 \<Longrightarrow> ?thesis" by (simp add: list_all_iff)
qed

lemma of_char_lt: "(of_char c :: nat) < 256"
  by (metis of_char_mod_256 mod_less_divisor zero_less_numeral)

lemma bytes_of_group:
  fixes x y z :: nat
  assumes "x < 256" "y < 256" "z < 256"
  shows "x * 65536 + y * 256 + z < 16777216" "(x * 65536 + y * 256 + z) mod 256 = z"
    "(x * 65536 + y * 256 + z) div 256 mod 256 = y" "(x * 65536 + y * 256 + z) div 65536 = x"
proof -
  let ?n = "x * 65536 + y * 256 + z"
  have n: "?n = z + 256 * (y + 256 * x)" by (simp add: algebra_simps)
  show "?n < 16777216" using assms by linarith
  have d: "?n div 256 = y + 256 * x" unfolding n using assms by (subst div_mult_self2) simp_all
  show "?n mod 256 = z" unfolding n using assms by (subst mod_mult_self2) simp
  show "?n div 256 mod 256 = y" unfolding d using assms by (subst mod_mult_self2) simp
  have "?n div 65536 = ?n div 256 div 256" by (simp only: div_mult2_eq [symmetric]) simp
  also have "\<dots> = x" unfolding d using assms by (subst div_mult_self2) simp_all
  finally show "?n div 65536 = x" .
qed

lemma group3_lt: "group3 a b c < 16777216"
  unfolding group3_def by (rule bytes_of_group) (rule of_char_lt)+

lemma group3_bytes: "group_bytes (group3 a b c) = [a, b, c]"
  unfolding group3_def group_bytes_def using bytes_of_group [OF of_char_lt [of a] of_char_lt [of b] of_char_lt [of c]] by simp

lemma sextets_join: "(n :: nat) div 262144 * 262144 + n div 4096 mod 64 * 4096 + n div 64 mod 64 * 64 + n mod 64 = n"
proof -
  define p q where pq: "p = n div 64" "q = p div 64"
  have d: "n div 4096 = q" "n div 262144 = q div 64" unfolding pq by (simp_all only: div_mult2_eq [symmetric]) simp_all
  have "n = 64 * p + n mod 64" "p = 64 * q + p mod 64" "q = 64 * (q div 64) + q mod 64" unfolding pq by simp_all
  thus ?thesis unfolding d pq(1) [symmetric] by linarith
qed

lemma sextets_chars: "n < 16777216 \<Longrightarrow> c \<in> set (sextets n) \<Longrightarrow> c \<notin> {CHR ''='', CHR 0x0A, CHR 0x0D}"
proof -
  assume n: "n < 16777216" and c: "c \<in> set (sextets n)"
  have "n div 262144 < 64" using n by (simp add: less_mult_imp_div_less)
  hence "c = b64_char (n div 262144) \<and> n div 262144 < 64 \<or> (\<exists>m. c = b64_char (m mod 64) \<and> m mod 64 < 64)"
    using c by (auto simp: sextets_def)
  thus ?thesis using b64_table by metis
qed

lemma ungroup_sextets: "n < 16777216 \<Longrightarrow>
  ungroup (b64_char (n div 262144)) (b64_char (n div 4096 mod 64)) (b64_char (n div 64 mod 64)) (b64_char (n mod 64)) = Some n"
proof -
  assume "n < 16777216"
  hence "n div 262144 < 64" by (simp add: less_mult_imp_div_less)
  thus ?thesis using sextets_join [of n] by (simp add: ungroup_def b64_table)
qed

lemma b64_char_0: "b64_char 0 = CHR ''A''"
  by (simp add: b64_char_def b64_alphabet_def)

lemma b64_groups_encode: "b64_groups (b64_encode s) = Some s"
proof (induction s rule: b64_encode.induct)
  case (2 a)
  let ?n = "group3 a CHR 0x00 CHR 0x00"
  have "?n = of_char a * 65536" by (simp add: group3_def)
  hence "?n = 64 * (64 * (of_char a * 16))" by simp
  hence z: "?n mod 64 = 0" "?n div 64 mod 64 = 0" by simp_all
  show ?case using ungroup_sextets [OF group3_lt, of a "CHR 0x00" "CHR 0x00"] group3_bytes [of a "CHR 0x00" "CHR 0x00"] z
    by (simp add: sextets_def b64_char_0)
next
  case (3 a b)
  let ?n = "group3 a b CHR 0x00"
  have "?n = 64 * (of_char a * 1024 + of_char b * 4)" by (simp add: group3_def)
  hence z: "?n mod 64 = 0" by simp
  have p: "b64_char (?n div 64 mod 64) \<noteq> CHR ''=''" using b64_table [of "?n div 64 mod 64"] by simp
  show ?case using ungroup_sextets [OF group3_lt, of a b "CHR 0x00"] group3_bytes [of a b "CHR 0x00"] z p
    by (simp add: sextets_def b64_char_0 numeral_3_eq_3)
next
  case (4 a b c s)
  have p: "b64_char (group3 a b c mod 64) \<noteq> CHR ''=''" using b64_table [of "group3 a b c mod 64"] by simp
  show ?case using ungroup_sextets [OF group3_lt, of a b c] group3_bytes [of a b c] p 4
    by (simp add: sextets_def)
qed simp

lemma b64_encode_chars: "c \<in> set (b64_encode s) \<Longrightarrow> c \<noteq> CHR 0x0A \<and> c \<noteq> CHR 0x0D"
proof (induction s rule: b64_encode.induct)
  case (2 a)
  thus ?case using sextets_chars [OF group3_lt, of c] by (auto dest: in_set_takeD)
next
  case (3 a b)
  thus ?case using sextets_chars [OF group3_lt, of c] by (auto dest: in_set_takeD)
next
  case (4 a b d s)
  thus ?case using sextets_chars [OF group3_lt, of c] by auto
qed simp

lemma b64_roundtrip [simp]: "b64_decode (b64_encode s) = Some s"
proof -
  have "filter (\<lambda>c. c \<noteq> CHR 0x0A \<and> c \<noteq> CHR 0x0D) (b64_encode s) = b64_encode s"
    by (rule filter_True) (use b64_encode_chars in blast)
  thus ?thesis by (simp add: b64_decode_def b64_groups_encode)
qed

end
