(* ===== verification/Policy_Seal.thy ===== *)
theory Policy_Seal
  imports Json Base64 "HOL-Library.Word"
begin

text \<open>
  The seal of the policy (\<open>internal/policyseal\<close>): key derivation, signature and verification around the body bytes, the
  anchor that pins the verify key with its text form, and the two halves of a staged rotation.  scrypt with HKDF and
  Ed25519 are arguments; a private key is represented by its seed.
\<close>

unbundle bit_operations_syntax

section \<open>Seal\<close>

record ScryptParams =
  sp_N :: int
  sp_R :: int
  sp_P :: int

text \<open>\<open>cr_scrypt\<close> is \<open>scrypt.Key\<close> followed by the HKDF expansion to the seed; \<open>cr_public\<close>, \<open>cr_sign\<close> and \<open>cr_verify\<close> are Ed25519.\<close>

record crypto =
  cr_scrypt :: "string \<Rightarrow> string \<Rightarrow> ScryptParams \<Rightarrow> string option"
  cr_public :: "string \<Rightarrow> string"
  cr_sign :: "string \<Rightarrow> string \<Rightarrow> string"
  cr_verify :: "string \<Rightarrow> string \<Rightarrow> string \<Rightarrow> bool"

definition DefaultScryptParams :: ScryptParams where
  "DefaultScryptParams = \<lparr>sp_N = 131072, sp_R = 8, sp_P = 1\<rparr>"

definition ScryptParams_Valid :: "ScryptParams \<Rightarrow> bool" where
  "ScryptParams_Valid p \<longleftrightarrow> \<not> (sp_N p < 2 \<or> sp_R p < 1 \<or> sp_P p < 1) \<and> sp_N p AND (sp_N p - 1) = 0"

definition sealDomain :: string where
  "sealDomain = ''daxie/policy/v1'' @ [CHR 0x0A]"

definition signSubject :: "string \<Rightarrow> string" where
  "signSubject body = sealDomain @ body"

definition DeriveSealKey :: "crypto \<Rightarrow> string \<Rightarrow> string \<Rightarrow> ScryptParams \<Rightarrow> (string \<times> string) option" where
  "DeriveSealKey cr pass salt p = (if pass = [] then None
     else if \<not> ScryptParams_Valid p then None
     else (case cr_scrypt cr pass salt p of None \<Rightarrow> None | Some seed \<Rightarrow> Some (seed, cr_public cr seed)))"

definition Sign :: "crypto \<Rightarrow> string \<Rightarrow> string \<Rightarrow> string" where
  "Sign cr body sk = cr_sign cr sk (signSubject body)"

definition Verify :: "crypto \<Rightarrow> string \<Rightarrow> string \<Rightarrow> string \<Rightarrow> bool" where
  "Verify cr body sig pk \<longleftrightarrow> length pk = 32 \<and> length sig = 64 \<and> cr_verify cr pk (signSubject body) sig"

section \<open>Anchor\<close>

record Anchor =
  an_VerifyKey :: string
  an_VerifyKeyNext :: string
  an_Salt :: string
  an_Scrypt :: ScryptParams
  an_NonceWatermark :: "64 word"
  an_StagedSalt :: string

definition zero_anchor :: Anchor where
  "zero_anchor = \<lparr>an_VerifyKey = [], an_VerifyKeyNext = [], an_Salt = [], an_Scrypt = \<lparr>sp_N = 0, sp_R = 0, sp_P = 0\<rparr>,
     an_NonceWatermark = 0, an_StagedSalt = []\<rparr>"

datatype seal_error = ErrAnchorMalformed | ErrKeyMalformed | ErrSaltMalformed | ErrIncompleteAnchor
  | ErrRotationKeyMismatch | ErrNoStagedRotation | ErrDerive | ErrRandom

definition keyPrefix :: string where
  "keyPrefix = ''ed25519:''"

definition EncodeKey :: "string \<Rightarrow> string" where
  "EncodeKey pk = keyPrefix @ b64_encode pk"

definition EncodeSalt :: "string \<Rightarrow> string" where
  "EncodeSalt salt = b64_encode salt"

definition decodeKey :: "string \<Rightarrow> seal_error + string" where
  "decodeKey s = (if \<not> HasPrefix s keyPrefix then Inl ErrKeyMalformed
     else (case b64_decode (drop (length keyPrefix) s) of None \<Rightarrow> Inl ErrKeyMalformed
       | Some raw \<Rightarrow> if length raw \<noteq> 32 then Inl ErrKeyMalformed else Inr raw))"

definition VerifyKeyBytes :: "Anchor \<Rightarrow> seal_error + string" where
  "VerifyKeyBytes a = decodeKey (an_VerifyKey a)"

definition VerifyKeyNextBytes :: "Anchor \<Rightarrow> seal_error + string option" where
  "VerifyKeyNextBytes a = (if an_VerifyKeyNext a = [] then Inr None
     else (case decodeKey (an_VerifyKeyNext a) of Inl e \<Rightarrow> Inl e | Inr k \<Rightarrow> Inr (Some k)))"

definition SaltBytes :: "Anchor \<Rightarrow> seal_error + string" where
  "SaltBytes a = (case b64_decode (an_Salt a) of None \<Rightarrow> Inl ErrSaltMalformed | Some b \<Rightarrow> Inr b)"

definition StagedSaltBytes :: "Anchor \<Rightarrow> seal_error + string option" where
  "StagedSaltBytes a = (if an_StagedSalt a = [] then Inr None
     else (case b64_decode (an_StagedSalt a) of None \<Rightarrow> Inl ErrSaltMalformed | Some b \<Rightarrow> Inr (Some b)))"

subsection \<open>Text form\<close>

text \<open>\<open>strconv.Quote\<close>; a byte above 0x7F is taken as part of a printable character.\<close>

definition quote_char :: "char \<Rightarrow> string" where
  "quote_char c = (let n = of_char c :: nat in
     case map_of [(CHR 0x22, CHR 0x22), (CHR 0x5C, CHR 0x5C), (CHR 0x07, CHR ''a''), (CHR 0x08, CHR ''b''), (CHR 0x0C, CHR ''f''),
        (CHR 0x0A, CHR ''n''), (CHR 0x0D, CHR ''r''), (CHR 0x09, CHR ''t''), (CHR 0x0B, CHR ''v'')] c of
       Some e \<Rightarrow> [CHR 0x5C, e]
     | None \<Rightarrow> if n < 0x20 \<or> n = 0x7F then [CHR 0x5C, CHR ''x'', hexdigits ! (n div 16), hexdigits ! (n mod 16)] else [c])"

definition Quote :: "string \<Rightarrow> string" where
  "Quote s = [CHR 0x22] @ concat (map quote_char s) @ [CHR 0x22]"

definition nl :: string where
  "nl = [CHR 0x0A]"

definition jkey :: "string \<Rightarrow> string" where
  "jkey k = [CHR 0x22] @ k @ [CHR 0x22] @ '': ''"

definition Anchor_Marshal :: "Anchor \<Rightarrow> seal_error + string" where
  "Anchor_Marshal a = (if an_VerifyKey a = [] \<or> an_Salt a = [] \<or> \<not> ScryptParams_Valid (an_Scrypt a) then Inl ErrIncompleteAnchor
     else Inr (''{'' @ nl
       @ ''  '' @ jkey ''verify_key'' @ Quote (an_VerifyKey a) @ '','' @ nl
       @ ''  '' @ jkey ''verify_key_next'' @ (if an_VerifyKeyNext a = [] then ''null'' else Quote (an_VerifyKeyNext a)) @ '','' @ nl
       @ ''  '' @ jkey ''salt'' @ Quote (an_Salt a) @ '','' @ nl
       @ ''  '' @ jkey ''scrypt'' @ ''{ '' @ jkey ''n'' @ int_dec (sp_N (an_Scrypt a)) @ '', '' @ jkey ''r'' @ int_dec (sp_R (an_Scrypt a))
           @ '', '' @ jkey ''p'' @ int_dec (sp_P (an_Scrypt a)) @ '' }'' @ '','' @ nl
       @ ''  '' @ jkey ''nonce_watermark'' @ nat_dec (unat (an_NonceWatermark a))
       @ (if an_StagedSalt a \<noteq> [] then '','' @ nl @ ''  '' @ jkey ''staged_salt'' @ Quote (an_StagedSalt a) else [])
       @ nl @ ''}'' @ nl))"

record anchorWire =
  aw_VerifyKey :: string
  aw_VerifyKeyNext :: "string option"
  aw_Salt :: string
  aw_Scrypt :: ScryptParams
  aw_NonceWatermark :: "64 word"
  aw_StagedSalt :: string

definition dec_scrypt :: "ScryptParams decoder" where
  "dec_scrypt = dec_struct True [(''n'', field sp_N sp_N_update dec_int), (''r'', field sp_R sp_R_update dec_int),
     (''p'', field sp_P sp_P_update dec_int)]"

definition anchor_fields :: "(string \<times> anchorWire decoder) list" where
  "anchor_fields = [(''verify_key'', field aw_VerifyKey aw_VerifyKey_update dec_string),
     (''verify_key_next'', field aw_VerifyKeyNext aw_VerifyKeyNext_update (dec_ptr dec_string [])),
     (''salt'', field aw_Salt aw_Salt_update dec_string),
     (''scrypt'', field aw_Scrypt aw_Scrypt_update dec_scrypt),
     (''nonce_watermark'', field aw_NonceWatermark aw_NonceWatermark_update dec_uint64),
     (''staged_salt'', field aw_StagedSalt aw_StagedSalt_update dec_string)]"

definition zero_wire :: anchorWire where
  "zero_wire = \<lparr>aw_VerifyKey = [], aw_VerifyKeyNext = None, aw_Salt = [], aw_Scrypt = \<lparr>sp_N = 0, sp_R = 0, sp_P = 0\<rparr>,
     aw_NonceWatermark = 0, aw_StagedSalt = []\<rparr>"

text \<open>\<open>dec.More()\<close> after the value: a closing bracket or brace does not count as more input.\<close>

definition decoder_more :: "string \<Rightarrow> bool" where
  "decoder_more r = (let t = skip_ws r in t \<noteq> [] \<and> hd t \<noteq> CHR '']'' \<and> hd t \<noteq> CHR ''}'')"

definition wire_anchor :: "anchorWire \<Rightarrow> Anchor" where
  "wire_anchor w = \<lparr>an_VerifyKey = aw_VerifyKey w, an_VerifyKeyNext = (case aw_VerifyKeyNext w of Some k \<Rightarrow> k | None \<Rightarrow> []),
     an_Salt = aw_Salt w, an_Scrypt = aw_Scrypt w, an_NonceWatermark = aw_NonceWatermark w, an_StagedSalt = aw_StagedSalt w\<rparr>"

definition check_anchor :: "Anchor \<Rightarrow> seal_error + Anchor" where
  "check_anchor a =
    (if an_VerifyKey a = [] \<or> an_Salt a = [] \<or> \<not> ScryptParams_Valid (an_Scrypt a) then Inl ErrAnchorMalformed
     else if isl (decodeKey (an_VerifyKey a)) then Inl ErrKeyMalformed
     else if an_VerifyKeyNext a \<noteq> [] \<and> isl (decodeKey (an_VerifyKeyNext a)) then Inl ErrKeyMalformed
     else if b64_decode (an_Salt a) = None then Inl ErrSaltMalformed
     else if an_StagedSalt a \<noteq> [] \<and> b64_decode (an_StagedSalt a) = None then Inl ErrSaltMalformed
     else Inr a)"

definition ParseAnchor :: "string \<Rightarrow> seal_error + Anchor" where
  "ParseAnchor b = (case pval (Suc (length b)) b of None \<Rightarrow> Inl ErrAnchorMalformed
     | Some (j, rest) \<Rightarrow>
       (case dec_struct True anchor_fields j zero_wire of None \<Rightarrow> Inl ErrAnchorMalformed
        | Some w \<Rightarrow> if decoder_more rest then Inl ErrAnchorMalformed else check_anchor (wire_anchor w)))"

section \<open>Rotation\<close>

text \<open>\<open>rnd\<close> is what \<open>NewSalt\<close> reads from the system: 32 bytes, or a failure.\<close>

definition StageRotation :: "crypto \<Rightarrow> string option \<Rightarrow> string \<Rightarrow> ScryptParams \<Rightarrow> seal_error + string \<times> string" where
  "StageRotation cr rnd newPass params = (case rnd of None \<Rightarrow> Inl ErrRandom
     | Some salt \<Rightarrow> (case DeriveSealKey cr newPass salt params of None \<Rightarrow> Inl ErrDerive
         | Some (sk, pk) \<Rightarrow> Inr (EncodeKey pk, salt)))"

record RotatedFamily =
  rf_Private :: string
  rf_Public :: string
  rf_Salt :: string

definition CommitRotation :: "crypto \<Rightarrow> string \<Rightarrow> Anchor \<Rightarrow> ScryptParams \<Rightarrow> seal_error + RotatedFamily" where
  "CommitRotation cr newPass a params = (case StagedSaltBytes a of Inl e \<Rightarrow> Inl e
     | Inr stagedSalt \<Rightarrow> (case VerifyKeyNextBytes a of Inl e \<Rightarrow> Inl e
       | Inr wantNext \<Rightarrow> (case (stagedSalt, wantNext) of
           (Some salt, Some want) \<Rightarrow>
             (case DeriveSealKey cr newPass salt params of None \<Rightarrow> Inl ErrDerive
              | Some (sk, pk) \<Rightarrow> if pk \<noteq> want then Inl ErrRotationKeyMismatch
                  else Inr \<lparr>rf_Private = sk, rf_Public = pk, rf_Salt = salt\<rparr>)
         | _ \<Rightarrow> Inl ErrNoStagedRotation)))"

end
