(* ===== verification/Policy_Anchor.thy ===== *)
theory Policy_Anchor
  imports Policy_Seal
begin

text \<open>
  The text of the anchor (\<open>policyseal/anchor.go\<close>): what \<open>Marshal\<close> writes by hand, with its own layout and its own quoting,
  the strict JSON reader of \<open>ParseAnchor\<close> reads back as the same anchor.
\<close>

section \<open>Reading a hand-formatted object\<close>

text \<open>A text that reads as a value wherever a value may end.\<close>

definition parses :: "string \<Rightarrow> json \<Rightarrow> bool" where
  "parses t v \<longleftrightarrow> (\<forall>n r. delim r \<longrightarrow> length t \<le> n \<longrightarrow> pval n (t @ r) = Some (v, r))"

lemma parsesD: "parses t v \<Longrightarrow> delim r \<Longrightarrow> length t \<le> n \<Longrightarrow> pval n (t @ r) = Some (v, r)"
  by (simp add: parses_def)

lemma parses_show: "written v \<Longrightarrow> parses (show_json v) v"
  using written_reads by (simp add: reads_def parses_def)

text \<open>A member with its layout: the white space before the key, before the value and after it.\<close>

record member =
  mb_before :: string
  mb_key :: string
  mb_gap :: string
  mb_text :: string
  mb_after :: string
  mb_value :: json

definition member_text :: "member \<Rightarrow> string" where
  "member_text m = mb_before m @ jsonString (mb_key m) @ '':'' @ mb_gap m @ mb_text m @ mb_after m"

definition member_ok :: "member \<Rightarrow> bool" where
  "member_ok m \<longleftrightarrow> list_all is_ws (mb_before m) \<and> list_all is_ws (mb_gap m) \<and> list_all is_ws (mb_after m) \<and> parses (mb_text m) (mb_value m)"

lemma delim_after: "list_all is_ws w \<Longrightarrow> c \<in> {CHR '','', CHR '']'', CHR ''}''} \<Longrightarrow> delim (w @ c # r)"
  by (cases w) (auto simp: delim_def)

lemma member_step:
  assumes "member_ok m" "length (member_text m) \<le> n" "c \<in> {CHR '','', CHR '']'', CHR ''}''}"
  shows "pmembers (Suc n) (member_text m @ c # r) = (if c = CHR '','' then map_option (\<lambda>(ms, u). ((mb_key m, mb_value m) # ms, u)) (pmembers n r)
    else if c = CHR ''}'' then Some ([(mb_key m, mb_value m)], r) else None)"
proof -
  have "pval n (mb_text m @ mb_after m @ c # r) = Some (mb_value m, mb_after m @ c # r)"
    by (rule parsesD) (use assms delim_after in \<open>auto simp: member_ok_def member_text_def\<close>)
  moreover have "\<not> is_ws c" using assms(3) by (auto simp: is_ws_def)
  ultimately show ?thesis using assms(1)
    by (simp add: member_text_def member_ok_def jsonString_def pstr_jsonString is_ws_def pval_ws)
qed

lemma members_read:
  "ms \<noteq> [] \<Longrightarrow> list_all member_ok ms \<Longrightarrow> length (joined (map member_text ms)) < n \<Longrightarrow>
   pmembers n (joined (map member_text ms) @ CHR ''}'' # r) = Some (map (\<lambda>m. (mb_key m, mb_value m)) ms, r)"
proof (induction ms arbitrary: n)
  case (Cons m ms)
  obtain k where n: "n = Suc k" using Cons.prems by (cases n) auto
  show ?case
  proof (cases ms)
    case Nil
    thus ?thesis using member_step [of m k "CHR ''}''" r] Cons.prems n by simp
  next
    case (Cons a as)
    hence j: "joined (map member_text (m # ms)) = member_text m @ CHR '','' # joined (map member_text ms)" by simp
    have "pmembers k (joined (map member_text ms) @ CHR ''}'' # r) = Some (map (\<lambda>m. (mb_key m, mb_value m)) ms, r)"
      by (rule Cons.IH) (use Cons Cons.prems n j in auto)
    thus ?thesis using member_step [of m k "CHR '',''" "joined (map member_text ms) @ CHR ''}'' # r"] Cons.prems n
      unfolding j by (simp del: pmembers.simps)
  qed
qed simp

lemma skip_member: "member_ok m \<Longrightarrow> \<exists>u. skip_ws (member_text m @ r) = CHR 0x22 # u \<and>
    (\<forall>n. pmembers n (member_text m @ r) = pmembers n (CHR 0x22 # u))"
proof -
  assume ok: "member_ok m"
  define u where "u = concat (map esc_char (mb_key m)) @ CHR 0x22 # '':'' @ mb_gap m @ mb_text m @ mb_after m @ r"
  have m: "member_text m @ r = mb_before m @ CHR 0x22 # u" by (simp add: member_text_def jsonString_def u_def)
  have s: "skip_ws (member_text m @ r) = CHR 0x22 # u" unfolding m using ok by (simp add: member_ok_def is_ws_def)
  have "pmembers n (member_text m @ r) = pmembers n (CHR 0x22 # u)" for n
  proof (cases n)
    case (Suc k)
    have "skip_ws (CHR 0x22 # u) = CHR 0x22 # u" by (simp add: is_ws_def)
    thus ?thesis using s Suc by (simp del: append.simps)
  qed simp
  with s show ?thesis by blast
qed

lemma joined_prefix: "\<exists>rest. joined (x # xs) = x @ rest"
  by (cases xs) auto

lemma object_read:
  assumes "ms \<noteq> []" "list_all member_ok ms"
  shows "parses (CHR ''{'' # joined (map member_text ms) @ ''}'') (JsObj (map (\<lambda>m. (mb_key m, mb_value m)) ms))"
  unfolding parses_def
proof (intro allI impI)
  fix n r assume n: "length (CHR ''{'' # joined (map member_text ms) @ ''}'') \<le> n"
  then obtain k where k: "n = Suc k" by (cases n) auto
  obtain m ms' where ms: "ms = m # ms'" using assms(1) by (cases ms) auto
  obtain rest where j: "joined (map member_text ms) = member_text m @ rest" using joined_prefix ms by fastforce
  obtain u where u: "skip_ws (member_text m @ rest @ CHR ''}'' # r) = CHR 0x22 # u"
      "\<forall>n. pmembers n (member_text m @ rest @ CHR ''}'' # r) = pmembers n (CHR 0x22 # u)"
    using skip_member [of m "rest @ CHR ''}'' # r"] assms ms by auto
  have "pmembers k (joined (map member_text ms) @ CHR ''}'' # r) = Some (map (\<lambda>m. (mb_key m, mb_value m)) ms, r)"
    by (rule members_read [OF assms]) (use n k in simp)
  hence "pmembers k (CHR 0x22 # u) = Some (map (\<lambda>m. (mb_key m, mb_value m)) ms, r)" using u(2) j by simp
  thus "pval n ((CHR ''{'' # joined (map member_text ms) @ ''}'') @ r) = Some (JsObj (map (\<lambda>m. (mb_key m, mb_value m)) ms), r)"
    using u(1) k j by (simp add: is_ws_def del: pmembers.simps)
qed

section \<open>Base 64 text needs no escapes\<close>

lemma b64_val_char: "b64_val c \<noteq> None \<Longrightarrow> c \<in> set b64_alphabet"
proof -
  assume "b64_val c \<noteq> None"
  hence "length (takeWhile (\<lambda>x. x \<noteq> c) b64_alphabet) < length b64_alphabet"
    by (auto simp: b64_val_def Let_def b64_alphabet_def split: if_splits)
  hence "\<not> list_all (\<lambda>x. x \<noteq> c) b64_alphabet"
    by (metis less_irrefl list_all_iff takeWhile_eq_all_conv)
  thus ?thesis by (auto simp: list_all_iff)
qed

lemma ungroup_chars: "ungroup a b c d = Some n \<Longrightarrow> {a, b, c, d} \<subseteq> set b64_alphabet"
  using b64_val_char by (auto simp: ungroup_def split: option.splits)

lemma b64_groups_chars: "b64_groups s = Some t \<Longrightarrow> set s \<subseteq> insert CHR ''='' (set b64_alphabet)"
proof (induction s arbitrary: t rule: b64_groups.induct)
  case (2 a b c d s)
  show ?case using 2 by (auto split: if_splits option.splits dest!: ungroup_chars)
qed simp_all

definition plain :: "char set" where
  "plain = {CHR 0x0A, CHR 0x0D, CHR ''='', CHR '':''} \<union> set b64_alphabet"

lemma b64_plain: "b64_decode s \<noteq> None \<Longrightarrow> set s \<subseteq> plain"
  using b64_groups_chars by (fastforce simp: b64_decode_def plain_def)

lemma quote_plain: "c \<in> plain \<Longrightarrow> quote_char c = esc_char c"
proof -
  have "list_all (\<lambda>c. quote_char c = esc_char c) ([CHR 0x0A, CHR 0x0D, CHR ''='', CHR '':''] @ b64_alphabet)" by code_simp
  thus "c \<in> plain \<Longrightarrow> ?thesis" by (auto simp: list_all_iff plain_def)
qed

lemma Quote_plain: "set s \<subseteq> plain \<Longrightarrow> Quote s = jsonString s"
proof -
  assume "set s \<subseteq> plain"
  hence "map quote_char s = map esc_char s" by (auto simp: quote_plain)
  hence "concat (map quote_char s) = concat (map esc_char s)" by (rule arg_cong)
  thus ?thesis by (simp add: Quote_def jsonString_def)
qed

lemma keyPrefix_plain: "set keyPrefix \<subseteq> plain"
  by (simp add: keyPrefix_def plain_def b64_alphabet_def)

lemma decodeKey_plain: "\<not> isl (decodeKey s) \<Longrightarrow> set s \<subseteq> plain"
proof -
  assume s: "\<not> isl (decodeKey s)"
  hence p: "HasPrefix s keyPrefix" "b64_decode (drop (length keyPrefix) s) \<noteq> None"
    by (auto simp: decodeKey_def split: if_splits option.splits)
  have "s = keyPrefix @ drop (length keyPrefix) s" using p(1) by (metis HasPrefix_def append_take_drop_id)
  thus ?thesis using keyPrefix_plain b64_plain [OF p(2)] by (metis Un_subset_iff set_append)
qed

section \<open>The anchor\<close>

definition indent :: string where
  "indent = nl @ ''  ''"

definition anchor_member :: "string \<Rightarrow> string \<Rightarrow> json \<Rightarrow> member" where
  "anchor_member k t v = \<lparr>mb_before = indent, mb_key = k, mb_gap = '' '', mb_text = t, mb_after = [], mb_value = v\<rparr>"

definition int_member :: "string \<Rightarrow> int \<Rightarrow> member" where
  "int_member k i = \<lparr>mb_before = '' '', mb_key = k, mb_gap = '' '', mb_text = int_dec i, mb_after = [], mb_value = JsNum (int_dec i)\<rparr>"

definition scrypt_members :: "ScryptParams \<Rightarrow> member list" where
  "scrypt_members p = [int_member ''n'' (sp_N p), int_member ''r'' (sp_R p), (int_member ''p'' (sp_P p))\<lparr>mb_after := '' ''\<rparr>]"

definition scrypt_text :: "ScryptParams \<Rightarrow> string" where
  "scrypt_text p = CHR ''{'' # joined (map member_text (scrypt_members p)) @ ''}''"

definition scrypt_json :: "ScryptParams \<Rightarrow> json" where
  "scrypt_json p = JsObj (map (\<lambda>m. (mb_key m, mb_value m)) (scrypt_members p))"

definition anchor_members :: "Anchor \<Rightarrow> member list" where
  "anchor_members a = [anchor_member ''verify_key'' (jsonString (an_VerifyKey a)) (JsText (an_VerifyKey a)),
     anchor_member ''verify_key_next'' (if an_VerifyKeyNext a = [] then ''null'' else jsonString (an_VerifyKeyNext a))
       (if an_VerifyKeyNext a = [] then JsNull else JsText (an_VerifyKeyNext a)),
     anchor_member ''salt'' (jsonString (an_Salt a)) (JsText (an_Salt a)),
     anchor_member ''scrypt'' (scrypt_text (an_Scrypt a)) (scrypt_json (an_Scrypt a))] @
   (if an_StagedSalt a = [] then [(anchor_member ''nonce_watermark'' (nat_dec (unat (an_NonceWatermark a))) (JsNum (nat_dec (unat (an_NonceWatermark a)))))\<lparr>mb_after := nl\<rparr>]
    else [anchor_member ''nonce_watermark'' (nat_dec (unat (an_NonceWatermark a))) (JsNum (nat_dec (unat (an_NonceWatermark a)))),
      (anchor_member ''staged_salt'' (jsonString (an_StagedSalt a)) (JsText (an_StagedSalt a)))\<lparr>mb_after := nl\<rparr>])"

lemma nl_ws [simp]: "is_ws CHR '' ''" "list_all is_ws nl" "list_all is_ws indent" "list_all is_ws '' ''" "list_all is_ws []"
  by (simp_all add: nl_def indent_def is_ws_def)

lemma parses_text: "parses (jsonString s) (JsText s)"
  using parses_show [of "JsText s"] by simp

lemma parses_null: "parses ''null'' JsNull"
  using parses_show [of JsNull] by simp

lemma parses_int: "parses (int_dec i) (JsNum (int_dec i))"
  using parses_show [of "JsNum (int_dec i)"] by auto

lemma parses_nat: "parses (nat_dec n) (JsNum (nat_dec n))"
  using parses_int [of "int n"] by (simp add: int_dec_def)

lemma parses_scrypt: "parses (scrypt_text p) (scrypt_json p)"
  unfolding scrypt_text_def scrypt_json_def
  by (rule object_read) (simp_all add: scrypt_members_def int_member_def member_ok_def parses_int)

lemma anchor_members_ok: "list_all member_ok (anchor_members a)"
  by (simp add: anchor_members_def anchor_member_def member_ok_def parses_text parses_null parses_nat parses_scrypt)

lemma jkey_text: "list_all (\<lambda>c. esc_char c = [c]) k \<Longrightarrow> jkey k @ t = jsonString k @ '':'' @ '' '' @ t"
proof -
  assume "list_all (\<lambda>c. esc_char c = [c]) k"
  hence "concat (map esc_char k) = k" by (induction k) auto
  thus ?thesis by (simp add: jkey_def jsonString_def)
qed

lemma anchor_keys:
  "list_all (\<lambda>c. esc_char c = [c]) ''verify_key''"
  "list_all (\<lambda>c. esc_char c = [c]) ''verify_key_next''"
  "list_all (\<lambda>c. esc_char c = [c]) ''salt''"
  "list_all (\<lambda>c. esc_char c = [c]) ''scrypt''"
  "list_all (\<lambda>c. esc_char c = [c]) ''n''"
  "list_all (\<lambda>c. esc_char c = [c]) ''r''"
  "list_all (\<lambda>c. esc_char c = [c]) ''p''"
  "list_all (\<lambda>c. esc_char c = [c]) ''nonce_watermark''"
  "list_all (\<lambda>c. esc_char c = [c]) ''staged_salt''"
  by code_simp+

lemma anchor_text:
  assumes "Anchor_Marshal a = Inr t" "check_anchor a = Inr a"
  shows "t = (CHR ''{'' # joined (map member_text (anchor_members a)) @ ''}'') @ nl"
proof -
  have c: "\<not> isl (decodeKey (an_VerifyKey a))" "an_VerifyKeyNext a \<noteq> [] \<Longrightarrow> \<not> isl (decodeKey (an_VerifyKeyNext a))"
    "b64_decode (an_Salt a) \<noteq> None" "an_StagedSalt a \<noteq> [] \<Longrightarrow> b64_decode (an_StagedSalt a) \<noteq> None"
    using assms(2) by (auto simp: check_anchor_def split: if_splits)
  note q = Quote_plain [OF decodeKey_plain [OF c(1)]] Quote_plain [OF decodeKey_plain [OF c(2)]]
    Quote_plain [OF b64_plain [OF c(3)]] Quote_plain [OF b64_plain [OF c(4)]]
  note k = anchor_keys [THEN jkey_text]
  show ?thesis using assms(1) q
    unfolding Anchor_Marshal_def anchor_members_def anchor_member_def scrypt_text_def scrypt_members_def int_member_def member_text_def indent_def append_assoc k
    by (auto split: if_splits)
qed

lemma anchor_decoded:
  assumes "check_anchor a = Inr a" "sp_N (an_Scrypt a) < 2 ^ 63" "sp_R (an_Scrypt a) < 2 ^ 63" "sp_P (an_Scrypt a) < 2 ^ 63"
  shows "\<exists>w. dec_struct True anchor_fields (JsObj (map (\<lambda>m. (mb_key m, mb_value m)) (anchor_members a))) zero_wire = Some w \<and> wire_anchor w = a"
proof -
  have v: "ScryptParams_Valid (an_Scrypt a)" using assms(1) by (auto simp: check_anchor_def split: if_splits)
  have i: "dec_int (JsNum (int_dec n)) old = Some n" if "2 \<le> n \<or> 1 \<le> n" "n < 2 ^ 63" for n old
    using that by (auto simp: dec_int_def)
  have s: "dec_scrypt (scrypt_json (an_Scrypt a)) old = Some (an_Scrypt a)" for old
    using v assms(2-4) by (simp add: dec_scrypt_def scrypt_json_def scrypt_members_def int_member_def dec_struct_def find_field_def field_def i ScryptParams_Valid_def)
  have u: "dec_uint64 (JsNum (nat_dec (unat w))) old = Some w" for w old
    using unsigned_less [of w] by (simp add: dec_uint64_def all_digits_nat_dec)
  show ?thesis
    by (auto simp: anchor_members_def anchor_member_def dec_struct_def anchor_fields_def find_field_def field_def dec_string_def dec_ptr_def s u
        wire_anchor_def zero_wire_def)
qed

text \<open>Every anchor that parses is written as a text that parses as the same anchor.\<close>

theorem anchor_roundtrip:
  assumes "check_anchor a = Inr a" "sp_N (an_Scrypt a) < 2 ^ 63" "sp_R (an_Scrypt a) < 2 ^ 63" "sp_P (an_Scrypt a) < 2 ^ 63"
  shows "\<exists>t. Anchor_Marshal a = Inr t \<and> ParseAnchor t = Inr a"
proof -
  have "\<not> (an_VerifyKey a = [] \<or> an_Salt a = [] \<or> \<not> ScryptParams_Valid (an_Scrypt a))" using assms(1) by (auto simp: check_anchor_def split: if_splits)
  then obtain t where t: "Anchor_Marshal a = Inr t" by (auto simp: Anchor_Marshal_def)
  let ?j = "JsObj (map (\<lambda>m. (mb_key m, mb_value m)) (anchor_members a))"
  let ?o = "CHR ''{'' # joined (map member_text (anchor_members a)) @ ''}''"
  have x: "t = ?o @ nl" by (rule anchor_text [OF t assms(1)])
  have ne: "anchor_members a \<noteq> []" by (simp add: anchor_members_def)
  have "pval (Suc (length t)) (?o @ nl) = Some (?j, nl)"
    by (rule parsesD [OF object_read [OF ne anchor_members_ok]]) (simp_all add: x delim_def nl_def is_ws_def)
  moreover have "\<not> decoder_more nl" by (simp add: decoder_more_def nl_def skip_ws_def is_ws_def)
  ultimately have "ParseAnchor t = check_anchor a"
    using anchor_decoded [OF assms] x by (auto simp: ParseAnchor_def simp del: pval.simps)
  thus ?thesis using t assms(1) by simp
qed

end
