(* ===== verification/Policy_File.thy ===== *)
theory Policy_File
  imports Policy_Types Policy_Seal "HOL-Library.List_Lexorder" "HOL-Library.Char_ord" "HOL-Library.Product_Lexorder"
begin

text \<open>
  The sealed policy file (\<open>internal/policy/file.go\<close>): the hand-written body writer, the two-pass strict decoder with its
  tri-state repair, the envelope, and the loader with its fail-closed checks.  The model works on the text of the file.
\<close>

section \<open>Writing the body\<close>

text \<open>What \<open>fieldWriter\<close> emits: comma-separated pairs of a key and a raw value.\<close>

definition pairs :: "(string \<times> string) list \<Rightarrow> string" where
  "pairs kvs = joined (map (\<lambda>(k, v). jsonString k @ '':'' @ v) kvs)"

definition js_bool :: "bool \<Rightarrow> string" where
  "js_bool b = (if b then ''true'' else ''false'')"

definition itoaInt :: "int \<Rightarrow> string" where "itoaInt v = int_dec v"
definition utoa :: "64 word \<Rightarrow> string" where "utoa v = nat_dec (unat v)"

definition nullSentinel :: string where
  "nullSentinel = [CHR 0x00] @ ''null'' @ [CHR 0x00]"

text \<open>A \<open>*string\<close> limit field as a tri-state value and back to what the writer emits for it.\<close>

definition nullStr :: limit where "nullStr = NoLimit"

definition of_text :: "string \<Rightarrow> limit" where
  "of_text s = (if s = nullSentinel then NoLimit else Amount s)"

definition emit :: "string \<Rightarrow> limit \<Rightarrow> (string \<times> string) list" where
  "emit key p = (case p of Absent \<Rightarrow> [] | NoLimit \<Rightarrow> [(key, ''null'')] | Amount s \<Rightarrow> [(key, jsonString s)])"

definition emitBool :: "string \<Rightarrow> bool option \<Rightarrow> (string \<times> string) list" where
  "emitBool key p = (case p of None \<Rightarrow> [] | Some b \<Rightarrow> [(key, js_bool b)])"

definition limits_pairs :: "Limits \<Rightarrow> bool \<Rightarrow> (string \<times> string) list" where
  "limits_pairs l perNetwork = emit ''max_tx_wei'' (MaxTxWei l) @ emit ''max_day_wei'' (MaxDayWei l)
     @ emit ''max_gas_price_wei'' (MaxGasPriceWei l) @ emitBool ''allowlist_enabled'' (AllowlistEnabled l)
     @ emitBool ''include_self'' (IncludeSelf l)
     @ (case TypedDataUnknown l of Some u \<Rightarrow> if perNetwork then [(''typed_data_unknown'', jsonString u)] else [] | None \<Rightarrow> [])"

definition writeLimitsInline :: "Limits \<Rightarrow> bool \<Rightarrow> string" where
  "writeLimitsInline l perNetwork = pairs (limits_pairs l perNetwork)"

definition writeLimits :: "Limits \<Rightarrow> bool \<Rightarrow> string" where
  "writeLimits l perNetwork = ''{'' @ writeLimitsInline l perNetwork @ ''}''"

text \<open>The comma after the network name is written before it is known whether a limit follows.\<close>

definition writeNetwork :: "NetworkRule \<Rightarrow> string" where
  "writeNetwork n = ''{'' @ jsonString ''network'' @ '':'' @ jsonString (nr_Network n) @ '','' @ writeLimitsInline (nr_Limits n) True @ ''}''"

definition writeArray :: "string list \<Rightarrow> string" where
  "writeArray items = ''['' @ joined items @ '']''"

definition writeRules :: "Rules \<Rightarrow> string" where
  "writeRules r = ''{'' @ jsonString ''default'' @ '':'' @ writeLimits (ru_Default r) False @ '','' @ jsonString ''networks'' @ '':''
     @ writeArray (map writeNetwork (ru_Networks r)) @ ''}''"

text \<open>The arrays are sorted by their keys; entries with the same key (their order is not fixed by \<open>sort.Slice\<close>) keep theirs.\<close>

definition sort_tokens :: "TokenRule list \<Rightarrow> TokenRule list" where
  "sort_tokens ts = sort_key (\<lambda>t. (tr_Network t, tr_Address t)) ts"

definition writeToken :: "TokenRule \<Rightarrow> string" where
  "writeToken t = ''{'' @ pairs [(''network'', jsonString (tr_Network t)), (''address'', jsonString (tr_Address t)),
     (''alias_at_set'', jsonString (tr_AliasAtSet t)),
     (''allow_unlimited'', case tr_AllowUnlimited t of None \<Rightarrow> ''null'' | Some b \<Rightarrow> js_bool b)] @ ''}''"

definition writeTokens :: "TokenRule list \<Rightarrow> string" where
  "writeTokens ts = writeArray (map writeToken (sort_tokens ts))"

definition sort_pins :: "PinEntry list \<Rightarrow> PinEntry list" where
  "sort_pins ps = sort_key (\<lambda>p. (pin_Source p, pin_Address p, pin_Name p)) ps"

definition nonempty_field :: "string \<Rightarrow> string \<Rightarrow> (string \<times> string) list" where
  "nonempty_field k v = (if v \<noteq> [] then [(k, jsonString v)] else [])"

definition writePin :: "PinEntry \<Rightarrow> string" where
  "writePin p = ''{'' @ pairs ([(''source'', jsonString (pin_Source p)), (''address'', jsonString (pin_Address p))]
     @ nonempty_field ''name'' (pin_Name p) @ nonempty_field ''label'' (pin_Label p)
     @ nonempty_field ''added_at'' (pin_AddedAt p) @ nonempty_field ''resolved_at'' (pin_ResolvedAt p)) @ ''}''"

definition writePins :: "PinEntry list \<Rightarrow> string" where
  "writePins ps = writeArray (map writePin (sort_pins ps))"

definition writeStrings :: "string list \<Rightarrow> string" where
  "writeStrings ss = writeArray (map jsonString (sort ss))"

definition sort_typed :: "TypedAllow list \<Rightarrow> TypedAllow list" where
  "sort_typed ts = sort_key (\<lambda>a. (ta_ChainID a, ta_VerifyingContract a, ta_PrimaryType a)) ts"

definition writeTyped :: "TypedAllow \<Rightarrow> string" where
  "writeTyped a = ''{'' @ pairs [(''chain_id'', itoaInt (ta_ChainID a)), (''verifying_contract'', jsonString (ta_VerifyingContract a)),
     (''primary_type'', jsonString (ta_PrimaryType a)), (''label'', jsonString (ta_Label a))] @ ''}''"

definition writeTypedData :: "TypedDataCfg \<Rightarrow> string" where
  "writeTypedData td = ''{'' @ pairs [(''unknown'', jsonString (td_Unknown td)),
     (''allowed'', writeArray (map writeTyped (sort_typed (td_Allowed td))))] @ ''}''"

definition sort_contracts :: "ContractAllow list \<Rightarrow> ContractAllow list" where
  "sort_contracts cs = sort_key (\<lambda>c. (ca_Network c, ca_Contract c, ca_Selector c)) cs"

definition writeContract :: "ContractAllow \<Rightarrow> string" where
  "writeContract c = ''{'' @ pairs [(''network'', jsonString (ca_Network c)), (''contract'', jsonString (ca_Contract c)),
     (''selector'', jsonString (ca_Selector c)), (''label'', jsonString (ca_Label c)), (''added_at'', jsonString (ca_AddedAt c))] @ ''}''"

definition writeContracts :: "ContractAllow list \<Rightarrow> string" where
  "writeContracts cs = writeArray (map writeContract (sort_contracts cs))"

definition writeBody :: "Policy \<Rightarrow> string" where
  "writeBody p = ''{'' @ pairs [
     (''version'', itoaInt (po_Version p)),
     (''nonce'', utoa (po_Nonce p)),
     (''updated_at'', jsonString (po_UpdatedAt p)),
     (''written_by'', jsonString (po_WrittenBy p)),
     (''messages'', jsonString (po_Messages p)),
     (''tokens_no_allowlist_ok'', js_bool (po_TokensNoAllowlistOK p)),
     (''rules'', writeRules (po_Rules p)),
     (''tokens'', writeTokens (po_Tokens p)),
     (''allowlist'', writePins (po_Allowlist p)),
     (''denylist'', writePins (po_Denylist p)),
     (''self_addresses'', writeStrings (po_SelfAddresses p)),
     (''typed_data'', writeTypedData (po_TypedData p)),
     (''contracts_allowed'', writeContracts (po_ContractsAllowed p))] @ ''}''"

section \<open>Decoding the body\<close>

definition dec_limit :: "limit decoder" where
  "dec_limit j old = (case j of JsNull \<Rightarrow> Some Absent | JsText s \<Rightarrow> Some (of_text s) | _ \<Rightarrow> None)"

definition zero_limits :: Limits where
  "zero_limits = \<lparr>MaxTxWei = Absent, MaxDayWei = Absent, MaxGasPriceWei = Absent, AllowlistEnabled = None, IncludeSelf = None, TypedDataUnknown = None\<rparr>"

definition limits_fields :: "(string \<times> Limits decoder) list" where
  "limits_fields = [(''max_tx_wei'', field MaxTxWei MaxTxWei_update dec_limit),
     (''max_day_wei'', field MaxDayWei MaxDayWei_update dec_limit),
     (''max_gas_price_wei'', field MaxGasPriceWei MaxGasPriceWei_update dec_limit),
     (''allowlist_enabled'', field AllowlistEnabled AllowlistEnabled_update (dec_ptr dec_bool False)),
     (''include_self'', field IncludeSelf IncludeSelf_update (dec_ptr dec_bool False)),
     (''typed_data_unknown'', field TypedDataUnknown TypedDataUnknown_update (dec_ptr dec_string []))]"

text \<open>\<open>NetworkRule\<close> embeds \<open>Limits\<close>, whose fields are members of the same object.\<close>

definition network_fields :: "(string \<times> NetworkRule decoder) list" where
  "network_fields = (''network'', field nr_Network nr_Network_update dec_string)
     # map (\<lambda>(k, d). (k, field nr_Limits nr_Limits_update d)) limits_fields"

definition zero_network :: NetworkRule where "zero_network = \<lparr>nr_Network = [], nr_Limits = zero_limits\<rparr>"

definition dec_rules :: "Rules decoder" where
  "dec_rules = dec_struct True [(''default'', field ru_Default ru_Default_update (dec_struct True limits_fields)),
     (''networks'', field ru_Networks ru_Networks_update (dec_slice (dec_struct True network_fields) zero_network))]"

definition dec_token :: "TokenRule decoder" where
  "dec_token = dec_struct True [(''network'', field tr_Network tr_Network_update dec_string),
     (''address'', field tr_Address tr_Address_update dec_string), (''alias_at_set'', field tr_AliasAtSet tr_AliasAtSet_update dec_string),
     (''allow_unlimited'', field tr_AllowUnlimited tr_AllowUnlimited_update (dec_ptr dec_bool False))]"

definition zero_token :: TokenRule where
  "zero_token = \<lparr>tr_Network = [], tr_Address = [], tr_AliasAtSet = [], tr_AllowUnlimited = None\<rparr>"

definition dec_pin :: "PinEntry decoder" where
  "dec_pin = dec_struct True [(''source'', field pin_Source pin_Source_update dec_string),
     (''address'', field pin_Address pin_Address_update dec_string), (''name'', field pin_Name pin_Name_update dec_string),
     (''label'', field pin_Label pin_Label_update dec_string), (''added_at'', field pin_AddedAt pin_AddedAt_update dec_string),
     (''resolved_at'', field pin_ResolvedAt pin_ResolvedAt_update dec_string)]"

definition zero_pin :: PinEntry where
  "zero_pin = \<lparr>pin_Source = [], pin_Address = [], pin_Name = [], pin_Label = [], pin_AddedAt = [], pin_ResolvedAt = []\<rparr>"

definition dec_typed :: "TypedAllow decoder" where
  "dec_typed = dec_struct True [(''chain_id'', field ta_ChainID ta_ChainID_update dec_int),
     (''verifying_contract'', field ta_VerifyingContract ta_VerifyingContract_update dec_string),
     (''primary_type'', field ta_PrimaryType ta_PrimaryType_update dec_string), (''label'', field ta_Label ta_Label_update dec_string)]"

definition zero_typed :: TypedAllow where
  "zero_typed = \<lparr>ta_ChainID = 0, ta_VerifyingContract = [], ta_PrimaryType = [], ta_Label = []\<rparr>"

definition dec_typed_data :: "TypedDataCfg decoder" where
  "dec_typed_data = dec_struct True [(''unknown'', field td_Unknown td_Unknown_update dec_string),
     (''allowed'', field td_Allowed td_Allowed_update (dec_slice dec_typed zero_typed))]"

definition dec_contract :: "ContractAllow decoder" where
  "dec_contract = dec_struct True [(''network'', field ca_Network ca_Network_update dec_string),
     (''contract'', field ca_Contract ca_Contract_update dec_string), (''selector'', field ca_Selector ca_Selector_update dec_string),
     (''label'', field ca_Label ca_Label_update dec_string), (''added_at'', field ca_AddedAt ca_AddedAt_update dec_string)]"

definition zero_contract :: ContractAllow where
  "zero_contract = \<lparr>ca_Network = [], ca_Contract = [], ca_Selector = [], ca_Label = [], ca_AddedAt = []\<rparr>"

definition policy_fields :: "(string \<times> Policy decoder) list" where
  "policy_fields = [(''version'', field po_Version po_Version_update dec_int),
     (''nonce'', field po_Nonce po_Nonce_update dec_uint64),
     (''updated_at'', field po_UpdatedAt po_UpdatedAt_update dec_string),
     (''written_by'', field po_WrittenBy po_WrittenBy_update dec_string),
     (''messages'', field po_Messages po_Messages_update dec_string),
     (''tokens_no_allowlist_ok'', field po_TokensNoAllowlistOK po_TokensNoAllowlistOK_update dec_bool),
     (''rules'', field po_Rules po_Rules_update dec_rules),
     (''tokens'', field po_Tokens po_Tokens_update (dec_slice dec_token zero_token)),
     (''allowlist'', field po_Allowlist po_Allowlist_update (dec_slice dec_pin zero_pin)),
     (''denylist'', field po_Denylist po_Denylist_update (dec_slice dec_pin zero_pin)),
     (''self_addresses'', field po_SelfAddresses po_SelfAddresses_update (dec_slice dec_string [])),
     (''typed_data'', field po_TypedData po_TypedData_update dec_typed_data),
     (''contracts_allowed'', field po_ContractsAllowed po_ContractsAllowed_update (dec_slice dec_contract zero_contract))]"

definition zero_policy :: Policy where
  "zero_policy = \<lparr>po_Version = 0, po_Nonce = 0, po_UpdatedAt = [], po_WrittenBy = [], po_Messages = [], po_TokensNoAllowlistOK = False,
     po_Rules = \<lparr>ru_Default = zero_limits, ru_Networks = []\<rparr>, po_Tokens = [], po_Allowlist = [], po_Denylist = [], po_SelfAddresses = [],
     po_TypedData = \<lparr>td_Unknown = [], td_Allowed = []\<rparr>, po_ContractsAllowed = []\<rparr>"

text \<open>The tri-state repair: a field that decoded to nil but is present as \<open>null\<close> under its exact name becomes ``no limit''.\<close>

definition null_limit :: "json \<Rightarrow> string \<Rightarrow> limit \<Rightarrow> limit" where
  "null_limit raw key l = (if l = Absent \<and> raw_member raw key = Some JsNull then nullStr else l)"

definition applyTriState :: "json \<Rightarrow> Limits \<Rightarrow> Limits" where
  "applyTriState raw l = l\<lparr>MaxTxWei := null_limit raw ''max_tx_wei'' (MaxTxWei l), MaxDayWei := null_limit raw ''max_day_wei'' (MaxDayWei l),
     MaxGasPriceWei := null_limit raw ''max_gas_price_wei'' (MaxGasPriceWei l)\<rparr>"

fun repair_networks :: "json list \<Rightarrow> NetworkRule list \<Rightarrow> NetworkRule list" where
  "repair_networks (v # vs) (n # ns) = n\<lparr>nr_Limits := applyTriState v (nr_Limits n)\<rparr> # repair_networks vs ns"
| "repair_networks _ ns = ns"

definition reconcileTriState :: "json \<Rightarrow> Policy \<Rightarrow> Policy" where
  "reconcileTriState body p = (case raw_member body ''rules'' of None \<Rightarrow> p
     | Some rules \<Rightarrow>
       (let r = po_Rules p;
            r1 = (case raw_member rules ''default'' of Some d \<Rightarrow> r\<lparr>ru_Default := applyTriState d (ru_Default r)\<rparr> | None \<Rightarrow> r);
            r2 = (case raw_member rules ''networks'' of Some (JsArr vs) \<Rightarrow> r1\<lparr>ru_Networks := repair_networks vs (ru_Networks r1)\<rparr> | _ \<Rightarrow> r1)
        in p\<lparr>po_Rules := r2\<rparr>))"

definition decodeBodyStrict :: "string \<Rightarrow> Policy option" where
  "decodeBodyStrict bodyRaw = (case pval (Suc (length bodyRaw)) bodyRaw of None \<Rightarrow> None
     | Some (j, _) \<Rightarrow> map_option (\<lambda>p. case parse_json bodyRaw of Some b \<Rightarrow> reconcileTriState b p | None \<Rightarrow> p)
         (dec_struct True policy_fields j zero_policy))"

section \<open>Envelope\<close>

record sealBlock =
  sb_Alg :: string
  sb_Sig :: string

record envelope =
  env_Version :: int
  env_BodyB64 :: string
  env_Seal :: sealBlock

definition sealAlg :: string where
  "sealAlg = ''scrypt/ed25519''"

definition envelopeVersion :: int where "envelopeVersion = 1"
definition bodyVersion :: int where "bodyVersion = 1"

definition marshalEnvelope :: "envelope \<Rightarrow> string" where
  "marshalEnvelope env = ''{'' @ pairs [(''version'', itoaInt (env_Version env)), (''body_b64'', jsonString (env_BodyB64 env)),
     (''seal'', ''{'' @ pairs [(''alg'', jsonString (sb_Alg (env_Seal env))), (''sig'', jsonString (sb_Sig (env_Seal env)))] @ ''}'')] @ ''}''"

definition dec_seal :: "sealBlock decoder" where
  "dec_seal = dec_struct False [(''alg'', field sb_Alg sb_Alg_update dec_string), (''sig'', field sb_Sig sb_Sig_update dec_string)]"

definition dec_envelope :: "envelope decoder" where
  "dec_envelope = dec_struct False [(''version'', field env_Version env_Version_update dec_int),
     (''body_b64'', field env_BodyB64 env_BodyB64_update dec_string), (''seal'', field env_Seal env_Seal_update dec_seal)]"

definition unmarshal_envelope :: "string \<Rightarrow> envelope option" where
  "unmarshal_envelope raw = (case parse_json raw of None \<Rightarrow> None
     | Some j \<Rightarrow> dec_envelope j \<lparr>env_Version = 0, env_BodyB64 = [], env_Seal = \<lparr>sb_Alg = [], sb_Sig = []\<rparr>\<rparr>)"

definition parseEnvelope :: "string \<Rightarrow> envelope result" where
  "parseEnvelope raw = (case unmarshal_envelope raw of None \<Rightarrow> Inl (New ''policy.seal_violation'') | Some env \<Rightarrow> Inr env)"

section \<open>Loading\<close>

record SealStatus =
  ss_Present :: bool
  ss_AnchorFound :: bool
  ss_Verified :: bool
  ss_Nonce :: "64 word"
  ss_Watermark :: "64 word"
  ss_WrittenBy :: string
  ss_AnchorSource :: string

definition zero_status :: SealStatus where
  "zero_status = \<lparr>ss_Present = False, ss_AnchorFound = False, ss_Verified = False, ss_Nonce = 0, ss_Watermark = 0, ss_WrittenBy = [],
     ss_AnchorSource = []\<rparr>"

record loadResult =
  lr_policy :: Policy
  lr_bodyB64 :: string
  lr_bodyRaw :: string
  lr_seal :: sealBlock
  lr_present :: bool
  lr_status :: SealStatus

definition verifyUnderAnchor :: "crypto \<Rightarrow> string \<Rightarrow> string \<Rightarrow> Anchor \<Rightarrow> bool" where
  "verifyUnderAnchor cr bodyRaw sig a \<longleftrightarrow>
     (case VerifyKeyBytes a of Inr pk \<Rightarrow> Verify cr bodyRaw sig pk | Inl _ \<Rightarrow> False) \<or>
     (case VerifyKeyNextBytes a of Inr (Some pk) \<Rightarrow> Verify cr bodyRaw sig pk | _ \<Rightarrow> False)"

text \<open>Pass 1: the permissive head.\<close>

record bodyHead =
  hd_Version :: int
  hd_Nonce :: "64 word"
  hd_WrittenBy :: string

definition dec_head :: "bodyHead decoder" where
  "dec_head = dec_struct False [(''version'', field hd_Version hd_Version_update dec_int),
     (''nonce'', field hd_Nonce hd_Nonce_update dec_uint64), (''written_by'', field hd_WrittenBy hd_WrittenBy_update dec_string)]"

definition read_head :: "string \<Rightarrow> bodyHead option" where
  "read_head raw = (case parse_json raw of None \<Rightarrow> None | Some j \<Rightarrow> dec_head j \<lparr>hd_Version = 0, hd_Nonce = 0, hd_WrittenBy = []\<rparr>)"

definition seal_err :: "string \<Rightarrow> string \<Rightarrow> Error" where
  "seal_err status source = WithData (New ''policy.seal_violation'') [(''seal_status'', JStr status), (''anchor_source'', JStr source)]"

definition version_err :: "string \<Rightarrow> Error" where
  "version_err writtenBy = WithData (New ''policy.seal_violation'') [(''seal_status'', JStr ''version''), (''reason'', JStr ''policy.version''),
     (''anchor_source'', JStr ''config''), (''written_by'', JStr writtenBy)]"

definition rollback_err :: "64 word \<Rightarrow> 64 word \<Rightarrow> Error" where
  "rollback_err n w = WithData (New ''policy.rollback'') [(''body_nonce'', JInt (uint n)), (''watermark'', JInt (uint w))]"

text \<open>\<open>file\<close> is the content of \<open>policy.json\<close>, \<open>None\<close> when it cannot be read.\<close>

definition no_load :: loadResult where
  "no_load = \<lparr>lr_policy = zero_policy, lr_bodyB64 = [], lr_bodyRaw = [], lr_seal = \<lparr>sb_Alg = [], sb_Sig = []\<rparr>, lr_present = False, lr_status = zero_status\<rparr>"

definition check_body :: "envelope \<Rightarrow> string \<Rightarrow> Anchor \<Rightarrow> loadResult result" where
  "check_body env bodyRaw a = (case read_head bodyRaw of None \<Rightarrow> Inl (seal_err ''unparseable'' ''config'')
     | Some h \<Rightarrow>
       if hd_Nonce h < an_NonceWatermark a then Inl (rollback_err (hd_Nonce h) (an_NonceWatermark a))
       else if hd_Version h > bodyVersion then Inl (version_err (hd_WrittenBy h))
       else (case decodeBodyStrict bodyRaw of None \<Rightarrow> Inl (version_err (hd_WrittenBy h))
         | Some p \<Rightarrow> Inr \<lparr>lr_policy = p, lr_bodyB64 = env_BodyB64 env, lr_bodyRaw = bodyRaw, lr_seal = env_Seal env, lr_present = True,
             lr_status = \<lparr>ss_Present = True, ss_AnchorFound = True, ss_Verified = True, ss_Nonce = po_Nonce p, ss_Watermark = an_NonceWatermark a,
               ss_WrittenBy = po_WrittenBy p, ss_AnchorSource = ''config''\<rparr>\<rparr>))"

definition loadPolicy :: "crypto \<Rightarrow> string option \<Rightarrow> Anchor \<Rightarrow> bool \<Rightarrow> loadResult result" where
  "loadPolicy cr file a anchorFound = (case file of
     None \<Rightarrow> if anchorFound then Inl (seal_err ''missing'' ''config'') else Inr no_load
   | Some raw \<Rightarrow>
     if \<not> anchorFound then Inl (seal_err ''anchor_missing'' ''none'')
     else (case unmarshal_envelope raw of None \<Rightarrow> Inl (seal_err ''unparseable'' ''config'')
       | Some env \<Rightarrow> (case b64_decode (env_BodyB64 env) of None \<Rightarrow> Inl (seal_err ''unparseable'' ''config'')
         | Some bodyRaw \<Rightarrow> (case b64_decode (sb_Sig (env_Seal env)) of None \<Rightarrow> Inl (seal_err ''bad_sig'' ''config'')
           | Some sig \<Rightarrow> if \<not> verifyUnderAnchor cr bodyRaw sig a then Inl (seal_err ''bad_sig'' ''config'')
               else check_body env bodyRaw a))))"

text \<open>\<open>loadActivePolicy\<close>: what the engine's operations start from.\<close>

definition loadActivePolicy :: "crypto \<Rightarrow> string option \<Rightarrow> Anchor \<Rightarrow> bool \<Rightarrow> (Policy option) result" where
  "loadActivePolicy cr file a anchorFound = (case loadPolicy cr file a anchorFound of Inl e \<Rightarrow> Inl e
     | Inr r \<Rightarrow> Inr (if lr_present r then Some (lr_policy r) else None))"

end
