(* ===== verification/Policy_Roundtrip.thy ===== *)
theory Policy_Roundtrip
  imports Policy_File
begin

text \<open>
  What \<open>writeBody\<close> seals is what the loader decodes: the body as a JSON value, its text and its decoding, the envelope, and
  the load of a freshly sealed file.
\<close>

section \<open>The body as a JSON value\<close>

definition json_limit :: "string \<Rightarrow> limit \<Rightarrow> (string \<times> json) list" where
  "json_limit key p = (case p of Absent \<Rightarrow> [] | NoLimit \<Rightarrow> [(key, JsNull)] | Amount s \<Rightarrow> [(key, JsText s)])"

definition json_flag :: "string \<Rightarrow> bool option \<Rightarrow> (string \<times> json) list" where
  "json_flag key p = (case p of None \<Rightarrow> [] | Some b \<Rightarrow> [(key, JsBool b)])"

definition json_limits :: "Limits \<Rightarrow> bool \<Rightarrow> (string \<times> json) list" where
  "json_limits l per = json_limit ''max_tx_wei'' (MaxTxWei l) @ json_limit ''max_day_wei'' (MaxDayWei l)
     @ json_limit ''max_gas_price_wei'' (MaxGasPriceWei l) @ json_flag ''allowlist_enabled'' (AllowlistEnabled l)
     @ json_flag ''include_self'' (IncludeSelf l)
     @ (case TypedDataUnknown l of Some u \<Rightarrow> if per then [(''typed_data_unknown'', JsText u)] else [] | None \<Rightarrow> [])"

definition json_network :: "NetworkRule \<Rightarrow> json" where
  "json_network n = JsObj ((''network'', JsText (nr_Network n)) # json_limits (nr_Limits n) True)"

definition json_rules :: "Rules \<Rightarrow> json" where
  "json_rules r = JsObj [(''default'', JsObj (json_limits (ru_Default r) False)), (''networks'', JsArr (map json_network (ru_Networks r)))]"

definition json_token :: "TokenRule \<Rightarrow> json" where
  "json_token t = JsObj [(''network'', JsText (tr_Network t)), (''address'', JsText (tr_Address t)), (''alias_at_set'', JsText (tr_AliasAtSet t)),
     (''allow_unlimited'', case tr_AllowUnlimited t of None \<Rightarrow> JsNull | Some b \<Rightarrow> JsBool b)]"

definition json_text :: "string \<Rightarrow> string \<Rightarrow> (string \<times> json) list" where
  "json_text k v = (if v \<noteq> [] then [(k, JsText v)] else [])"

definition json_pin :: "PinEntry \<Rightarrow> json" where
  "json_pin p = JsObj ([(''source'', JsText (pin_Source p)), (''address'', JsText (pin_Address p))]
     @ json_text ''name'' (pin_Name p) @ json_text ''label'' (pin_Label p)
     @ json_text ''added_at'' (pin_AddedAt p) @ json_text ''resolved_at'' (pin_ResolvedAt p))"

definition json_typed :: "TypedAllow \<Rightarrow> json" where
  "json_typed a = JsObj [(''chain_id'', JsNum (int_dec (ta_ChainID a))), (''verifying_contract'', JsText (ta_VerifyingContract a)),
     (''primary_type'', JsText (ta_PrimaryType a)), (''label'', JsText (ta_Label a))]"

definition json_contract :: "ContractAllow \<Rightarrow> json" where
  "json_contract c = JsObj [(''network'', JsText (ca_Network c)), (''contract'', JsText (ca_Contract c)),
     (''selector'', JsText (ca_Selector c)), (''label'', JsText (ca_Label c)), (''added_at'', JsText (ca_AddedAt c))]"

definition json_body :: "Policy \<Rightarrow> json" where
  "json_body p = JsObj [
     (''version'', JsNum (int_dec (po_Version p))), (''nonce'', JsNum (nat_dec (unat (po_Nonce p)))),
     (''updated_at'', JsText (po_UpdatedAt p)), (''written_by'', JsText (po_WrittenBy p)), (''messages'', JsText (po_Messages p)),
     (''tokens_no_allowlist_ok'', JsBool (po_TokensNoAllowlistOK p)), (''rules'', json_rules (po_Rules p)),
     (''tokens'', JsArr (map json_token (sort_tokens (po_Tokens p)))), (''allowlist'', JsArr (map json_pin (sort_pins (po_Allowlist p)))),
     (''denylist'', JsArr (map json_pin (sort_pins (po_Denylist p)))), (''self_addresses'', JsArr (map JsText (sort (po_SelfAddresses p)))),
     (''typed_data'', JsObj [(''unknown'', JsText (td_Unknown (po_TypedData p))),
        (''allowed'', JsArr (map json_typed (sort_typed (td_Allowed (po_TypedData p)))))]),
     (''contracts_allowed'', JsArr (map json_contract (sort_contracts (po_ContractsAllowed p))))]"

section \<open>The text is that of the value\<close>

lemma show_JsObj: "show_json (JsObj kvs) = ''{'' @ pairs (map (apsnd show_json) kvs) @ ''}''"
proof -
  have "map (\<lambda>(k, v). jsonString k @ '':'' @ show_json v) kvs = map (\<lambda>(k, v). jsonString k @ '':'' @ v) (map (apsnd show_json) kvs)"
    by (induction kvs) auto
  thus ?thesis by (simp only: show_json.simps pairs_def)
qed

lemma show_JsArr: "show_json (JsArr vs) = writeArray (map show_json vs)"
  by (simp add: writeArray_def)

declare show_json.simps(6) [simp del] show_JsObj [simp]

lemma limits_text: "limits_pairs l per = map (apsnd show_json) (json_limits l per)"
  by (auto simp: limits_pairs_def json_limits_def emit_def emitBool_def json_limit_def json_flag_def js_bool_def split: limit.splits option.splits)

lemma pairs_Cons: "kvs \<noteq> [] \<Longrightarrow> pairs ((k, v) # kvs) = jsonString k @ '':'' @ v @ '','' @ pairs kvs"
  by (cases kvs) (auto simp: pairs_def)

definition has_field :: "NetworkRule \<Rightarrow> bool" where
  "has_field n \<longleftrightarrow> limits_pairs (nr_Limits n) True \<noteq> []"

lemma network_text: "has_field n \<Longrightarrow> writeNetwork n = show_json (json_network n)"
  by (simp add: has_field_def writeNetwork_def json_network_def show_JsObj writeLimitsInline_def limits_text pairs_Cons)

lemma rules_text: "\<forall>n \<in> set (ru_Networks r). has_field n \<Longrightarrow> writeRules r = show_json (json_rules r)"
proof -
  assume a: "\<forall>n \<in> set (ru_Networks r). has_field n"
  hence m: "map writeNetwork (ru_Networks r) = map show_json (map json_network (ru_Networks r))" by (simp add: network_text)
  have d: "writeLimits l False = show_json (JsObj (json_limits l False))" for l
    by (simp add: writeLimits_def writeLimitsInline_def limits_text show_JsObj)
  show ?thesis unfolding writeRules_def json_rules_def d m show_JsArr [symmetric] show_JsObj
    by (simp add: pairs_def show_JsObj del: show_json.simps)
qed

lemma pin_text: "writePin p = show_json (json_pin p)"
  by (simp add: writePin_def json_pin_def show_JsObj nonempty_field_def json_text_def)

lemma token_text: "writeToken t = show_json (json_token t)"
  by (simp add: writeToken_def json_token_def show_JsObj js_bool_def split: option.splits)

lemma typed_text: "writeTyped a = show_json (json_typed a)"
  by (simp add: writeTyped_def json_typed_def show_JsObj itoaInt_def)

lemma contract_text: "writeContract c = show_json (json_contract c)"
  by (simp add: writeContract_def json_contract_def show_JsObj)

lemma array_text: "(\<And>x. f x = show_json (g x)) \<Longrightarrow> writeArray (map f xs) = show_json (JsArr (map g xs))"
proof -
  assume "\<And>x. f x = show_json (g x)"
  hence "f = (\<lambda>x. show_json (g x))" by auto
  thus ?thesis by (simp add: writeArray_def o_def)
qed

lemma body_text: "\<forall>n \<in> set (ru_Networks (po_Rules p)). has_field n \<Longrightarrow> writeBody p = show_json (json_body p)"
proof -
  assume "\<forall>n \<in> set (ru_Networks (po_Rules p)). has_field n"
  hence r: "writeRules (po_Rules p) = show_json (json_rules (po_Rules p))" by (rule rules_text)
  have a: "writeTokens (po_Tokens p) = show_json (JsArr (map json_token (sort_tokens (po_Tokens p))))"
    "writePins ps = show_json (JsArr (map json_pin (sort_pins ps)))"
    "writeStrings (po_SelfAddresses p) = show_json (JsArr (map JsText (sort (po_SelfAddresses p))))"
    "writeContracts (po_ContractsAllowed p) = show_json (JsArr (map json_contract (sort_contracts (po_ContractsAllowed p))))"
    "writeArray (map writeTyped ts) = show_json (JsArr (map json_typed ts))" for ps ts
    unfolding writeTokens_def writePins_def writeStrings_def writeContracts_def
    by (rule array_text, simp add: token_text pin_text contract_text typed_text)+
  show ?thesis unfolding writeBody_def json_body_def writeTypedData_def r a show_JsObj
    by (simp only: show_JsObj list.map apsnd_conv show_json.simps(3) show_json.simps(4) itoaInt_def utoa_def show_json.simps(2) js_bool_def)
qed

section \<open>The value is written and decodes to the policy\<close>

lemma written_nat: "\<exists>i. nat_dec n = int_dec i"
  by (rule exI [of _ "int n"]) (simp add: int_dec_def)

lemma written_limits: "kv \<in> set (json_limits l per) \<Longrightarrow> written (snd kv)"
  by (auto simp: json_limits_def json_limit_def json_flag_def split: limit.splits option.splits if_splits)

lemma written_pin: "written (json_pin p)"
  by (auto simp: json_pin_def json_text_def)

lemma written_token: "written (json_token t)"
  by (simp add: json_token_def split: option.splits)

lemma written_typed: "written (json_typed a)"
  by (auto simp: json_typed_def)

lemma written_contract: "written (json_contract c)"
  by (simp add: json_contract_def)

lemma written_rules: "written (json_rules r)"
  by (auto simp: json_rules_def json_network_def dest: written_limits)

lemma written_body: "written (json_body p)"
  unfolding json_body_def
  by (simp only: written.simps list.set ball_simps snd_conv written_rules simp_thms)
    (use written_nat in \<open>auto simp: written_pin written_token written_typed written_contract\<close>)

lemma dec_items_map: "(\<And>x. x \<in> set xs \<Longrightarrow> d (f x) z = Some (g x)) \<Longrightarrow> dec_items d z (map f xs) [] = Some (map g xs)"
  by (induction xs) auto

lemma dec_slice_map: "(\<And>x. x \<in> set xs \<Longrightarrow> d (f x) z = Some (g x)) \<Longrightarrow> dec_slice d z (JsArr (map f xs)) [] = Some (map g xs)"
  by (simp add: dec_slice_def dec_items_map)

lemma dec_members_append: "dec_members strict fs (xs @ ys) old = Option.bind (dec_members strict fs xs old) (dec_members strict fs ys)"
  by (induction xs arbitrary: old) (auto split: option.splits)

lemma dec_int_dec: "- (2 ^ 63) \<le> i \<Longrightarrow> i < 2 ^ 63 \<Longrightarrow> dec_int (JsNum (int_dec i)) old = Some i"
  by (simp add: dec_int_def)

lemma dec_uint_dec: "dec_uint64 (JsNum (nat_dec (unat w))) old = Some w"
  using unsigned_less [of w] by (simp add: dec_uint64_def)

lemmas dec_simps' = dec_struct_def find_field_def field_def dec_string_def dec_bool_def dec_ptr_def dec_limit_def

lemma dec_token_json: "dec_token (json_token t) zero_token = Some t"
  by (cases t) (auto simp: dec_token_def json_token_def zero_token_def dec_simps' split: option.splits)

lemma dec_typed_json: "- (2 ^ 63) \<le> ta_ChainID a \<Longrightarrow> ta_ChainID a < 2 ^ 63 \<Longrightarrow> dec_typed (json_typed a) zero_typed = Some a"
  by (cases a) (simp add: dec_typed_def json_typed_def zero_typed_def dec_simps' dec_int_dec del: dec_simps)

lemma dec_contract_json: "dec_contract (json_contract c) zero_contract = Some c"
  by (cases c) (simp add: dec_contract_def json_contract_def zero_contract_def dec_simps')

lemma dec_pin_json: "dec_pin (json_pin p) zero_pin = Some p"
  by (cases p) (simp add: dec_pin_def json_pin_def zero_pin_def json_text_def dec_simps')

text \<open>The optional members: each is there or the field keeps its zero value.\<close>

definition wf_limit :: "limit \<Rightarrow> bool" where
  "wf_limit l \<longleftrightarrow> l \<noteq> Amount nullSentinel"

definition wf_limits :: "Limits \<Rightarrow> bool" where
  "wf_limits l \<longleftrightarrow> wf_limit (MaxTxWei l) \<and> wf_limit (MaxDayWei l) \<and> wf_limit (MaxGasPriceWei l)"

definition pass1 :: "limit \<Rightarrow> limit" where
  "pass1 l = (if l = NoLimit then Absent else l)"

definition nulled :: "Limits \<Rightarrow> Limits" where
  "nulled l = l\<lparr>MaxTxWei := pass1 (MaxTxWei l), MaxDayWei := pass1 (MaxDayWei l), MaxGasPriceWei := pass1 (MaxGasPriceWei l)\<rparr>"

lemma dec_json_limit:
  "find_field fs k = Some (field get upd dec_limit) \<Longrightarrow> wf_limit l \<Longrightarrow> get old = Absent \<Longrightarrow> upd (\<lambda>_. Absent) old = old \<Longrightarrow>
   dec_members strict fs (json_limit k l) old = Some (upd (\<lambda>_. pass1 l) old)"
  by (cases l) (simp_all add: json_limit_def field_def dec_limit_def pass1_def of_text_def wf_limit_def)

lemma dec_json_flag:
  "find_field fs k = Some (field get upd (dec_ptr dec_bool False)) \<Longrightarrow> upd (\<lambda>_. None) old = old \<Longrightarrow>
   dec_members strict fs (json_flag k b) old = Some (upd (\<lambda>_. b) old)"
  by (cases b) (simp_all add: json_flag_def field_def dec_ptr_def dec_bool_def)

lemma dec_limits_json: "wf_limits l \<Longrightarrow> (per \<or> TypedDataUnknown l = None) \<Longrightarrow>
  dec_members strict limits_fields (json_limits l per) zero_limits = Some (nulled l)"
  unfolding json_limits_def dec_members_append
  apply (subst dec_json_limit [where get = MaxTxWei and upd = MaxTxWei_update])
      apply (simp_all add: limits_fields_def find_field_def wf_limits_def zero_limits_def)
  apply (subst dec_json_limit [where get = MaxDayWei and upd = MaxDayWei_update])
      apply (simp_all add: find_field_def)
  apply (subst dec_json_limit [where get = MaxGasPriceWei and upd = MaxGasPriceWei_update])
      apply (simp_all add: find_field_def)
  apply (subst dec_json_flag [where get = AllowlistEnabled and upd = AllowlistEnabled_update])
    apply (simp_all add: find_field_def)
  apply (subst dec_json_flag [where get = IncludeSelf and upd = IncludeSelf_update])
    apply (simp_all add: find_field_def)
  apply (cases l)
  apply (auto simp: nulled_def find_field_def field_def dec_ptr_def dec_string_def split: option.splits)
  done

lemma map_of_lift: "map_of (map (\<lambda>(k, d). (k, f d)) fs) k = map_option f (map_of fs k)"
  by (induction fs) auto

lemma find_lifted: "k \<noteq> ''network'' \<Longrightarrow> map_of limits_fields k = Some d \<Longrightarrow>
  find_field network_fields k = Some (field nr_Limits nr_Limits_update d)"
  by (simp add: find_field_def network_fields_def map_of_lift)

lemma dec_lifted: "\<forall>kv \<in> set ms. fst kv \<noteq> ''network'' \<and> map_of limits_fields (fst kv) \<noteq> None \<Longrightarrow>
  dec_members True network_fields ms n = map_option (\<lambda>l. n\<lparr>nr_Limits := l\<rparr>) (dec_members True limits_fields ms (nr_Limits n))"
proof (induction ms arbitrary: n)
  case (Cons kv ms)
  obtain k v where kv: "kv = (k, v)" by (cases kv)
  then obtain d where d: "map_of limits_fields k = Some d" "k \<noteq> ''network''" using Cons.prems by auto
  have "find_field limits_fields k = Some d" using d by (simp add: find_field_def)
  thus ?case using Cons find_lifted [OF d(2,1)] by (auto simp: kv field_def option.map_comp o_def split: option.splits)
qed (cases n, simp)

lemma limits_keys: "subseq (map fst (json_limits l per))
  ([''max_tx_wei''] @ [''max_day_wei''] @ [''max_gas_price_wei''] @ [''allowlist_enabled''] @ [''include_self''] @ [''typed_data_unknown''])"
proof -
  have "subseq (map fst (json_limit k x)) [k]" "subseq (map fst (json_flag k b)) [k]" for k x b
    by (simp_all add: json_limit_def json_flag_def split: limit.split option.split)
  moreover have "subseq (map fst (case TypedDataUnknown l of Some u \<Rightarrow> if per then [(k, JsText u)] else [] | None \<Rightarrow> [])) [k]" for k
    by (simp split: option.split)
  ultimately show ?thesis unfolding json_limits_def map_append by (intro list_emb_append_mono)
qed

lemma json_limits_keys: "kv \<in> set (json_limits l per) \<Longrightarrow> fst kv \<noteq> ''network'' \<and> map_of limits_fields (fst kv) \<noteq> None"
proof -
  assume "kv \<in> set (json_limits l per)"
  hence "fst kv \<in> set (map fst (json_limits l per))" by simp
  with limits_keys have "fst kv \<in> set ([''max_tx_wei''] @ [''max_day_wei''] @ [''max_gas_price_wei''] @ [''allowlist_enabled''] @ [''include_self''] @ [''typed_data_unknown''])"
    by (rule list_emb_set [elim_format]) auto
  thus ?thesis by (auto simp: limits_fields_def)
qed

lemma dec_network_json: "wf_limits (nr_Limits n) \<Longrightarrow>
  dec_struct True network_fields (json_network n) zero_network = Some (n\<lparr>nr_Limits := nulled (nr_Limits n)\<rparr>)"
proof -
  assume wf: "wf_limits (nr_Limits n)"
  have f: "find_field network_fields ''network'' = Some (field nr_Network nr_Network_update dec_string)"
    by (simp add: find_field_def network_fields_def)
  show ?thesis using dec_limits_json [OF wf, of True] json_limits_keys
    by (cases n) (simp add: dec_struct_def json_network_def f field_def dec_string_def zero_network_def dec_lifted)
qed

lemma dec_rules_json:
  assumes "wf_limits (ru_Default r)" "TypedDataUnknown (ru_Default r) = None" "\<forall>n \<in> set (ru_Networks r). wf_limits (nr_Limits n)"
  shows "dec_rules (json_rules r) \<lparr>ru_Default = zero_limits, ru_Networks = []\<rparr> =
    Some \<lparr>ru_Default = nulled (ru_Default r), ru_Networks = map (\<lambda>n. n\<lparr>nr_Limits := nulled (nr_Limits n)\<rparr>) (ru_Networks r)\<rparr>"
proof -
  have n: "dec_slice (dec_struct True network_fields) zero_network (JsArr (map json_network (ru_Networks r))) [] =
      Some (map (\<lambda>n. n\<lparr>nr_Limits := nulled (nr_Limits n)\<rparr>) (ru_Networks r))"
    by (rule dec_slice_map) (simp add: dec_network_json assms(3))
  show ?thesis unfolding dec_rules_def json_rules_def dec_struct_def [where fs = "[_, _]"]
    using n dec_limits_json [OF assms(1), of False] assms(2)
    by (simp add: find_field_def field_def dec_struct_def [where fs = limits_fields])
qed

text \<open>The repair brings the explicit nulls back.\<close>

lemma map_of_json_limit: "map_of (json_limit k l) k' = (if k = k' then (case l of Absent \<Rightarrow> None | NoLimit \<Rightarrow> Some JsNull | Amount s \<Rightarrow> Some (JsText s)) else None)"
  by (simp add: json_limit_def split: limit.splits)

lemma map_of_json_flag: "map_of (json_flag k b) k' = (if k = k' then map_option JsBool b else None)"
  by (simp add: json_flag_def split: option.splits)

lemma distinct_json_limits: "distinct (map fst (json_limits l per))"
proof -
  have "distinct xs" if "subseq xs ys" "distinct ys" for xs ys :: "string list"
    using that by (induction rule: list_emb.induct) (auto dest: list_emb_set)
  from this [OF limits_keys] show ?thesis by simp
qed

lemma map_of_rev: "distinct (map fst ms) \<Longrightarrow> map_of (rev ms) k = map_of ms k"
proof -
  assume d: "distinct (map fst ms)"
  hence "distinct (map fst (rev ms))" by (simp add: rev_map [symmetric])
  thus ?thesis using d by (metis map_of_eqI map_of_eq_Some_iff set_rev option.exhaust image_set set_map)
qed

lemma limits_member:
  "map_of (json_limits l per) ''max_tx_wei'' = Some JsNull \<longleftrightarrow> MaxTxWei l = NoLimit"
  "map_of (json_limits l per) ''max_day_wei'' = Some JsNull \<longleftrightarrow> MaxDayWei l = NoLimit"
  "map_of (json_limits l per) ''max_gas_price_wei'' = Some JsNull \<longleftrightarrow> MaxGasPriceWei l = NoLimit"
proof -
  have t: "map_of (case TypedDataUnknown l of Some u \<Rightarrow> if per then [(''typed_data_unknown'', JsText u)] else [] | None \<Rightarrow> []) k = None"
    if "k \<noteq> ''typed_data_unknown''" for k
    using that by (simp split: option.split)
  show "map_of (json_limits l per) ''max_tx_wei'' = Some JsNull \<longleftrightarrow> MaxTxWei l = NoLimit"
    "map_of (json_limits l per) ''max_day_wei'' = Some JsNull \<longleftrightarrow> MaxDayWei l = NoLimit"
    "map_of (json_limits l per) ''max_gas_price_wei'' = Some JsNull \<longleftrightarrow> MaxGasPriceWei l = NoLimit"
    by (simp_all add: json_limits_def map_add_def map_of_json_limit map_of_json_flag t split: limit.split)
qed

lemma repair_limits:
  assumes "\<forall>k \<in> {''max_tx_wei'', ''max_day_wei'', ''max_gas_price_wei''}. raw_member raw k = map_of (json_limits l per) k"
  shows "applyTriState raw (nulled l) = l"
  using assms limits_member [of l per]
  by (cases l) (auto simp: applyTriState_def null_limit_def nulled_def pass1_def nullStr_def)

lemma repair_default: "applyTriState (JsObj (json_limits l per)) (nulled l) = l"
  by (rule repair_limits [of _ _ per]) (simp add: raw_member_def map_of_rev distinct_json_limits)

lemma repair_network: "applyTriState (json_network n) (nulled (nr_Limits n)) = nr_Limits n"
proof (rule repair_limits [of _ _ True], rule ballI)
  fix k assume k: "k \<in> {''max_tx_wei'', ''max_day_wei'', ''max_gas_price_wei''}"
  have "distinct (map fst ((''network'', JsText (nr_Network n)) # json_limits (nr_Limits n) True))"
    using distinct_json_limits json_limits_keys by fastforce
  from map_of_rev [OF this] k show "raw_member (json_network n) k = map_of (json_limits (nr_Limits n) True) k"
    unfolding raw_member_def json_network_def json.case by auto
qed

lemma repair_networks_json: "repair_networks (map json_network ns) (map (\<lambda>n. n\<lparr>nr_Limits := nulled (nr_Limits n)\<rparr>) ns) = ns"
  by (induction ns) (simp_all add: repair_network)

section \<open>Body, head and envelope are read back\<close>

definition canonical :: "Policy \<Rightarrow> Policy" where
  "canonical p = p\<lparr>po_Tokens := sort_tokens (po_Tokens p), po_Allowlist := sort_pins (po_Allowlist p), po_Denylist := sort_pins (po_Denylist p),
     po_SelfAddresses := sort (po_SelfAddresses p),
     po_TypedData := (po_TypedData p)\<lparr>td_Allowed := sort_typed (td_Allowed (po_TypedData p))\<rparr>,
     po_ContractsAllowed := sort_contracts (po_ContractsAllowed p)\<rparr>"

definition int64 :: "int \<Rightarrow> bool" where
  "int64 i \<longleftrightarrow> - (2 ^ 63) \<le> i \<and> i < 2 ^ 63"

definition wf_policy :: "Policy \<Rightarrow> bool" where
  "wf_policy p \<longleftrightarrow> int64 (po_Version p) \<and> wf_limits (ru_Default (po_Rules p)) \<and> TypedDataUnknown (ru_Default (po_Rules p)) = None
     \<and> (\<forall>n \<in> set (ru_Networks (po_Rules p)). has_field n \<and> wf_limits (nr_Limits n))
     \<and> (\<forall>a \<in> set (td_Allowed (po_TypedData p)). int64 (ta_ChainID a))"

lemma set_sort_typed [simp]: "set (sort_typed ts) = set ts"
  by (simp add: sort_typed_def)

lemma dec_typed_data_json:
  assumes "\<forall>a \<in> set (td_Allowed td). int64 (ta_ChainID a)"
  shows "dec_typed_data (JsObj [(''unknown'', JsText (td_Unknown td)), (''allowed'', JsArr (map json_typed (sort_typed (td_Allowed td))))])
    \<lparr>td_Unknown = [], td_Allowed = []\<rparr> = Some (td\<lparr>td_Allowed := sort_typed (td_Allowed td)\<rparr>)"
proof -
  have "dec_slice dec_typed zero_typed (JsArr (map json_typed (sort_typed (td_Allowed td)))) [] = Some (map id (sort_typed (td_Allowed td)))"
    by (rule dec_slice_map) (use assms in \<open>simp add: dec_typed_json int64_def\<close>)
  thus ?thesis by (cases td) (simp add: dec_typed_data_def dec_struct_def find_field_def field_def dec_string_def)
qed

lemma dec_lists:
  "dec_slice dec_token zero_token (JsArr (map json_token ts)) [] = Some ts"
  "dec_slice dec_pin zero_pin (JsArr (map json_pin ps)) [] = Some ps"
  "dec_slice dec_string [] (JsArr (map JsText ss)) [] = Some ss"
  "dec_slice dec_contract zero_contract (JsArr (map json_contract cs)) [] = Some cs"
  using dec_slice_map [of ts dec_token json_token zero_token id] dec_slice_map [of ps dec_pin json_pin zero_pin id]
    dec_slice_map [of ss dec_string JsText "[]" id] dec_slice_map [of cs dec_contract json_contract zero_contract id]
  by (simp_all add: dec_token_json dec_pin_json dec_contract_json dec_string_def)

lemma dec_body_json:
  assumes "wf_policy p"
  shows "dec_struct True policy_fields (json_body p) zero_policy = Some ((canonical p)\<lparr>po_Rules :=
    \<lparr>ru_Default = nulled (ru_Default (po_Rules p)), ru_Networks = map (\<lambda>n. n\<lparr>nr_Limits := nulled (nr_Limits n)\<rparr>) (ru_Networks (po_Rules p))\<rparr>\<rparr>)"
proof -
  have r: "dec_rules (json_rules (po_Rules p)) \<lparr>ru_Default = zero_limits, ru_Networks = []\<rparr> =
    Some \<lparr>ru_Default = nulled (ru_Default (po_Rules p)), ru_Networks = map (\<lambda>n. n\<lparr>nr_Limits := nulled (nr_Limits n)\<rparr>) (ru_Networks (po_Rules p))\<rparr>"
    by (rule dec_rules_json) (use assms in \<open>auto simp: wf_policy_def\<close>)
  have v: "dec_int (JsNum (int_dec (po_Version p))) 0 = Some (po_Version p)"
    using assms by (simp add: wf_policy_def int64_def dec_int_dec del: dec_simps)
  have t: "\<forall>a \<in> set (td_Allowed (po_TypedData p)). int64 (ta_ChainID a)" using assms by (simp add: wf_policy_def)
  let ?rules = "\<lparr>ru_Default = nulled (ru_Default (po_Rules p)), ru_Networks = map (\<lambda>n. n\<lparr>nr_Limits := nulled (nr_Limits n)\<rparr>) (ru_Networks (po_Rules p))\<rparr>"
  have "dec_struct True policy_fields (json_body p) zero_policy = Some \<lparr>po_Version = po_Version p, po_Nonce = po_Nonce p,
      po_UpdatedAt = po_UpdatedAt p, po_WrittenBy = po_WrittenBy p, po_Messages = po_Messages p,
      po_TokensNoAllowlistOK = po_TokensNoAllowlistOK p, po_Rules = ?rules, po_Tokens = sort_tokens (po_Tokens p),
      po_Allowlist = sort_pins (po_Allowlist p), po_Denylist = sort_pins (po_Denylist p), po_SelfAddresses = sort (po_SelfAddresses p),
      po_TypedData = (po_TypedData p)\<lparr>td_Allowed := sort_typed (td_Allowed (po_TypedData p))\<rparr>,
      po_ContractsAllowed = sort_contracts (po_ContractsAllowed p)\<rparr>"
    unfolding json_body_def dec_struct_def json.case
    by (simp add: policy_fields_def find_field_def field_def zero_policy_def v dec_uint_dec r dec_lists
        dec_typed_data_json [OF t] dec_string_def dec_bool_def)
  also have "\<dots> = Some ((canonical p)\<lparr>po_Rules := ?rules\<rparr>)" by (cases p) (simp add: canonical_def)
  finally show ?thesis .
qed

lemma reconcile_body: "reconcileTriState (json_body p) ((canonical p)\<lparr>po_Rules :=
    \<lparr>ru_Default = nulled (ru_Default (po_Rules p)), ru_Networks = map (\<lambda>n. n\<lparr>nr_Limits := nulled (nr_Limits n)\<rparr>) (ru_Networks (po_Rules p))\<rparr>\<rparr>) = canonical p"
proof -
  have r: "raw_member (json_body p) ''rules'' = Some (json_rules (po_Rules p))" by (simp add: raw_member_def json_body_def)
  have m: "raw_member (json_rules (po_Rules p)) ''default'' = Some (JsObj (json_limits (ru_Default (po_Rules p)) False))"
    "raw_member (json_rules (po_Rules p)) ''networks'' = Some (JsArr (map json_network (ru_Networks (po_Rules p))))"
    by (simp_all add: raw_member_def json_rules_def)
  show ?thesis unfolding reconcileTriState_def r
    by (simp add: m repair_default repair_networks_json Let_def canonical_def)
qed

lemma wf_fields: "wf_policy p \<Longrightarrow> \<forall>n \<in> set (ru_Networks (po_Rules p)). has_field n"
  by (simp add: wf_policy_def)

lemma parse_body: "wf_policy p \<Longrightarrow> parse_json (writeBody p) = Some (json_body p)"
  by (simp add: body_text [OF wf_fields] parse_show written_body)

lemma pval_body: "wf_policy p \<Longrightarrow> pval (Suc (length (writeBody p))) (writeBody p) = Some (json_body p, [])"
  using readsD [OF written_reads [OF written_body], of "[]" p "Suc (length (writeBody p))"]
  by (simp add: body_text [OF wf_fields] delim_def del: pval.simps)

theorem body_roundtrip: "wf_policy p \<Longrightarrow> decodeBodyStrict (writeBody p) = Some (canonical p)"
  unfolding decodeBodyStrict_def
  by (simp only: pval_body parse_body option.case prod.case dec_body_json option.map reconcile_body)

lemma head_roundtrip: "wf_policy p \<Longrightarrow>
  read_head (writeBody p) = Some \<lparr>hd_Version = po_Version p, hd_Nonce = po_Nonce p, hd_WrittenBy = po_WrittenBy p\<rparr>"
proof -
  assume wf: "wf_policy p"
  have v: "dec_int (JsNum (int_dec (po_Version p))) 0 = Some (po_Version p)"
    using wf by (simp add: wf_policy_def int64_def dec_int_dec del: dec_simps)
  have "find_field [(''version'', a), (''nonce'', b), (''written_by'', c)] k = None"
    if "k \<in> {''updated_at'', ''messages'', ''tokens_no_allowlist_ok'', ''rules'', ''tokens'', ''allowlist'', ''denylist'', ''self_addresses'',
      ''typed_data'', ''contracts_allowed''}" for k and a b c :: "bodyHead decoder"
    using that by (auto simp: find_field_def EqualFold_def ToLower_def lower_char_def)
  hence none: "find_field [(''version'', a), (''nonce'', b), (''written_by'', c)] ''updated_at'' = None"
    "find_field [(''version'', a), (''nonce'', b), (''written_by'', c)] ''messages'' = None"
    "find_field [(''version'', a), (''nonce'', b), (''written_by'', c)] ''tokens_no_allowlist_ok'' = None"
    "find_field [(''version'', a), (''nonce'', b), (''written_by'', c)] ''rules'' = None"
    "find_field [(''version'', a), (''nonce'', b), (''written_by'', c)] ''tokens'' = None"
    "find_field [(''version'', a), (''nonce'', b), (''written_by'', c)] ''allowlist'' = None"
    "find_field [(''version'', a), (''nonce'', b), (''written_by'', c)] ''denylist'' = None"
    "find_field [(''version'', a), (''nonce'', b), (''written_by'', c)] ''self_addresses'' = None"
    "find_field [(''version'', a), (''nonce'', b), (''written_by'', c)] ''typed_data'' = None"
    "find_field [(''version'', a), (''nonce'', b), (''written_by'', c)] ''contracts_allowed'' = None" for a b c :: "bodyHead decoder"
    by blast+
  have some: "find_field [(''version'', a), (''nonce'', b), (''written_by'', c)] ''version'' = Some a"
    "find_field [(''version'', a), (''nonce'', b), (''written_by'', c)] ''nonce'' = Some b"
    "find_field [(''version'', a), (''nonce'', b), (''written_by'', c)] ''written_by'' = Some c" for a b c :: "bodyHead decoder"
    by (simp_all add: find_field_def)
  show ?thesis unfolding read_head_def parse_body [OF wf] option.case dec_head_def dec_struct_def json_body_def json.case
    by (simp add: none some field_def v dec_uint_dec dec_string_def)
qed

lemma envelope_text: "marshalEnvelope env = show_json (JsObj [(''version'', JsNum (int_dec (env_Version env))), (''body_b64'', JsText (env_BodyB64 env)),
  (''seal'', JsObj [(''alg'', JsText (sb_Alg (env_Seal env))), (''sig'', JsText (sb_Sig (env_Seal env)))])])"
  by (simp add: marshalEnvelope_def itoaInt_def)

lemma envelope_roundtrip: "int64 (env_Version env) \<Longrightarrow> unmarshal_envelope (marshalEnvelope env) = Some env"
proof -
  assume v: "int64 (env_Version env)"
  have i: "dec_int (JsNum (int_dec (env_Version env))) 0 = Some (env_Version env)"
    using v by (simp add: int64_def dec_int_dec del: dec_simps)
  have w: "written (JsObj [(''version'', JsNum (int_dec (env_Version env))), (''body_b64'', JsText (env_BodyB64 env)),
    (''seal'', JsObj [(''alg'', JsText (sb_Alg (env_Seal env))), (''sig'', JsText (sb_Sig (env_Seal env)))])])" by auto
  have "dec_envelope (JsObj [(''version'', JsNum (int_dec (env_Version env))), (''body_b64'', JsText (env_BodyB64 env)),
    (''seal'', JsObj [(''alg'', JsText (sb_Alg (env_Seal env))), (''sig'', JsText (sb_Sig (env_Seal env)))])])
    \<lparr>env_Version = 0, env_BodyB64 = [], env_Seal = \<lparr>sb_Alg = [], sb_Sig = []\<rparr>\<rparr> =
    Some \<lparr>env_Version = env_Version env, env_BodyB64 = env_BodyB64 env, env_Seal = \<lparr>sb_Alg = sb_Alg (env_Seal env), sb_Sig = sb_Sig (env_Seal env)\<rparr>\<rparr>"
    by (simp add: dec_envelope_def dec_seal_def dec_struct_def find_field_def field_def i dec_string_def)
  thus ?thesis unfolding unmarshal_envelope_def envelope_text parse_show [OF w] by simp
qed

end
