(* ===== verification/Policy_Admin.thy ===== *)
theory Policy_Admin
  imports Policy_File Policy_Engine
begin

text \<open>
  Sealed changes to the policy (\<open>internal/policy/admin.go\<close>, \<open>typed_admin.go\<close>, \<open>contract_admin.go\<close>): authentication
  against the anchor, the mutation pipeline, bootstrap, rotation, reset, and the unauthenticated views.
\<close>

section \<open>Changes to a body\<close>

definition lowerAll :: "address list option \<Rightarrow> string list" where
  "lowerAll addrs = (case addrs of None \<Rightarrow> [] | Some as \<Rightarrow> map lowerHex as)"

definition equalFoldStr :: "string \<Rightarrow> string \<Rightarrow> bool" where
  "equalFoldStr a b \<longleftrightarrow> length a = length b \<and> list_all2 (\<lambda>x y. lower_char x = lower_char y) a b"

definition defaultPolicy :: "string \<Rightarrow> Policy" where
  "defaultPolicy writtenBy = \<lparr>po_Version = bodyVersion, po_Nonce = 0, po_UpdatedAt = [], po_WrittenBy = writtenBy, po_Messages = ''allow'',
     po_TokensNoAllowlistOK = False,
     po_Rules = \<lparr>ru_Default = zero_limits\<lparr>AllowlistEnabled := Some True, IncludeSelf := Some True\<rparr>, ru_Networks = []\<rparr>,
     po_Tokens = [], po_Allowlist = [], po_Denylist = [], po_SelfAddresses = [],
     po_TypedData = \<lparr>td_Unknown = ''deny'', td_Allowed = []\<rparr>, po_ContractsAllowed = []\<rparr>"

definition NoLimit_ptr :: limit where "NoLimit_ptr = nullStr"

record Change =
  ch_Default :: "Limits option"
  ch_Networks :: "NetworkRule list"
  ch_Messages :: "string option"
  ch_TokensNoAllowOK :: "bool option"
  ch_TypedUnknown :: "string option"
  ch_Tokens :: "TokenRule list"
  ch_RefreshSelf :: "address list option"
  ch_WrittenBy :: string

text \<open>Every field of \<open>src\<close> that is not nil replaces that of \<open>dst\<close>.\<close>

definition over :: "limit \<Rightarrow> limit \<Rightarrow> limit" where
  "over dst src = (if src = Absent then dst else src)"

definition over_opt :: "'a option \<Rightarrow> 'a option \<Rightarrow> 'a option" where
  "over_opt dst src = (if src = None then dst else src)"

definition mergeLimits :: "Limits \<Rightarrow> Limits \<Rightarrow> Limits" where
  "mergeLimits dst src = \<lparr>MaxTxWei = over (MaxTxWei dst) (MaxTxWei src), MaxDayWei = over (MaxDayWei dst) (MaxDayWei src),
     MaxGasPriceWei = over (MaxGasPriceWei dst) (MaxGasPriceWei src), AllowlistEnabled = over_opt (AllowlistEnabled dst) (AllowlistEnabled src),
     IncludeSelf = over_opt (IncludeSelf dst) (IncludeSelf src), TypedDataUnknown = over_opt (TypedDataUnknown dst) (TypedDataUnknown src)\<rparr>"

fun upsertNetwork :: "NetworkRule \<Rightarrow> NetworkRule list \<Rightarrow> NetworkRule list" where
  "upsertNetwork n [] = [n]"
| "upsertNetwork n (m # ms) = (if equalFoldStr (nr_Network m) (nr_Network n) then m\<lparr>nr_Limits := mergeLimits (nr_Limits m) (nr_Limits n)\<rparr> # ms
     else m # upsertNetwork n ms)"

fun upsertToken :: "TokenRule \<Rightarrow> TokenRule list \<Rightarrow> TokenRule list" where
  "upsertToken t [] = [t]"
| "upsertToken t (u # us) = (if equalFoldStr (tr_Network u) (tr_Network t) \<and> equalFoldStr (tr_Address u) (tr_Address t) then t # us
     else u # upsertToken t us)"

definition samePin :: "PinEntry \<Rightarrow> PinEntry \<Rightarrow> bool" where
  "samePin a b = (if \<not> equalFoldStr (pin_Source a) (pin_Source b) then False
     else if pin_Address a \<noteq> [] \<and> equalFoldStr (pin_Address a) (pin_Address b) then True
     else pin_Name a \<noteq> [] \<and> equalFoldStr (pin_Name a) (pin_Name b))"

fun upsertPin :: "PinEntry list \<Rightarrow> PinEntry \<Rightarrow> PinEntry list" where
  "upsertPin [] e = [e]"
| "upsertPin (p # ps) e = (if samePin p e then e # ps else p # upsertPin ps e)"

definition removePin :: "PinEntry list \<Rightarrow> PinEntry \<Rightarrow> PinEntry list" where
  "removePin ps e = filter (\<lambda>p. \<not> (samePin p e \<or> (pin_Name e \<noteq> [] \<and> equalFoldStr (pin_Name p) (pin_Name e) \<and> equalFoldStr (pin_Source p) (pin_Source e)))) ps"

definition applyChange :: "Policy \<Rightarrow> Change \<Rightarrow> Policy" where
  "applyChange p c =
    (let r = po_Rules p;
         r1 = (case ch_Default c of Some l \<Rightarrow> r\<lparr>ru_Default := mergeLimits (ru_Default r) l\<rparr> | None \<Rightarrow> r);
         r2 = r1\<lparr>ru_Networks := fold upsertNetwork (ch_Networks c) (ru_Networks r1)\<rparr>;
         td = po_TypedData p
     in p\<lparr>po_Rules := r2, po_Messages := (case ch_Messages c of Some m \<Rightarrow> m | None \<Rightarrow> po_Messages p),
          po_TokensNoAllowlistOK := (case ch_TokensNoAllowOK c of Some b \<Rightarrow> b | None \<Rightarrow> po_TokensNoAllowlistOK p),
          po_TypedData := (case ch_TypedUnknown c of Some u \<Rightarrow> td\<lparr>td_Unknown := u\<rparr> | None \<Rightarrow> td),
          po_Tokens := fold upsertToken (ch_Tokens c) (po_Tokens p)\<rparr>)"

section \<open>The engine\<close>

text \<open>\<open>ae_file\<close> is \<open>policy.json\<close>; the anchor is the one read when the process started, or that of its last mutation.\<close>

record aengine =
  ae_file :: "string option"
  ae_anchor :: Anchor
  ae_anchorFound :: bool

text \<open>What a mutation meets: the cryptography, the atomic write, the clock as RFC 3339 text, the system's randomness.\<close>

record aenv =
  av_crypto :: crypto
  av_write :: writefault
  av_now :: string
  av_rand :: "string option"

definition load :: "aenv \<Rightarrow> aengine \<Rightarrow> loadResult result" where
  "load v e = loadPolicy (av_crypto v) (ae_file e) (ae_anchor e) (ae_anchorFound e)"

definition authenticate :: "crypto \<Rightarrow> aengine \<Rightarrow> string \<Rightarrow> (string \<times> string) result" where
  "authenticate cr e pass =
    (if \<not> ae_anchorFound e then Inl (New ''policy.admin_auth'')
     else if pass = [] then Inl (New ''policy.admin_auth'')
     else (case SaltBytes (ae_anchor e) of Inl _ \<Rightarrow> Inl (New ''policy.state_error'')
       | Inr salt \<Rightarrow> (case DeriveSealKey cr pass salt (an_Scrypt (ae_anchor e)) of None \<Rightarrow> Inl (New ''policy.admin_auth'')
         | Some (sk, pk) \<Rightarrow>
             if VerifyKeyBytes (ae_anchor e) = Inr pk then Inr (sk, pk)
             else if VerifyKeyNextBytes (ae_anchor e) = Inr (Some pk) then Inr (sk, pk)
             else Inl (New ''policy.admin_auth''))))"

definition seal_envelope :: "string \<Rightarrow> string \<Rightarrow> envelope" where
  "seal_envelope body sig = \<lparr>env_Version = envelopeVersion, env_BodyB64 = b64_encode body, env_Seal = \<lparr>sb_Alg = sealAlg, sb_Sig = b64_encode sig\<rparr>\<rparr>"

definition writeEnvelope :: "writefault \<Rightarrow> string \<Rightarrow> string \<Rightarrow> aengine \<Rightarrow> unit result \<times> aengine" where
  "writeEnvelope w body sig e = (case w of
       WriteOK \<Rightarrow> (Inr (), e\<lparr>ae_file := Some (marshalEnvelope (seal_envelope body sig))\<rparr>)
     | WriteDirReadOnly \<Rightarrow> (Inl (New ''config.read_only''), e)
     | WriteReadOnly \<Rightarrow> (Inl (New ''config.read_only''), e)
     | _ \<Rightarrow> (Inl (New ''policy.state_error''), e))"

definition bump :: "64 word \<Rightarrow> Anchor \<Rightarrow> Anchor" where
  "bump n a = (if n > an_NonceWatermark a then a\<lparr>an_NonceWatermark := n\<rparr> else a)"

definition nextNonce :: "Policy \<Rightarrow> Anchor \<Rightarrow> 64 word" where
  "nextNonce p a = (if po_Nonce p + 1 \<le> an_NonceWatermark a then an_NonceWatermark a + 1 else po_Nonce p + 1)"

text \<open>The body a mutation seals.\<close>

definition mutated :: "(Policy \<Rightarrow> Policy) \<Rightarrow> string \<Rightarrow> address list option \<Rightarrow> string \<Rightarrow> Anchor \<Rightarrow> Policy \<Rightarrow> Policy" where
  "mutated f writtenBy refreshSelf now a p =
    (let b = f p; b1 = b\<lparr>po_Nonce := nextNonce b a\<rparr>;
         b2 = (if writtenBy \<noteq> [] then b1\<lparr>po_WrittenBy := writtenBy\<rparr> else b1);
         b3 = (if refreshSelf \<noteq> None then b2\<lparr>po_SelfAddresses := lowerAll refreshSelf\<rparr> else b2)
     in b3\<lparr>po_UpdatedAt := now\<rparr>)"

definition mutate :: "aenv \<Rightarrow> string \<Rightarrow> string \<Rightarrow> address list option \<Rightarrow> (Policy \<Rightarrow> Policy) \<Rightarrow> aengine \<Rightarrow> Anchor result \<times> aengine" where
  "mutate v pass writtenBy refreshSelf f e = (case authenticate (av_crypto v) e pass of Inl err \<Rightarrow> (Inl err, e)
     | Inr (sk, _) \<Rightarrow> (case load v e of Inl err \<Rightarrow> (Inl err, e)
       | Inr res \<Rightarrow>
         (let body = mutated f writtenBy refreshSelf (av_now v) (ae_anchor e) (if lr_present res then lr_policy res else defaultPolicy writtenBy);
              bytes = writeBody body
          in (case writeEnvelope (av_write v) bytes (Sign (av_crypto v) bytes sk) e of
               (Inl err, e') \<Rightarrow> (Inl err, e')
             | (Inr _, e') \<Rightarrow> (let a = bump (po_Nonce body) (ae_anchor e) in (Inr a, e'\<lparr>ae_anchor := a\<rparr>))))))"

section \<open>Bootstrap\<close>

definition InitSeal :: "aenv \<Rightarrow> string \<Rightarrow> aengine \<Rightarrow> Anchor result" where
  "InitSeal v pass e =
    (if ae_anchorFound e then Inl (New ''policy.admin_auth'')
     else if pass = [] then Inl (New ''policy.admin_auth'')
     else (case av_rand v of None \<Rightarrow> Inl (New ''policy.state_error'')
       | Some salt \<Rightarrow> (case DeriveSealKey (av_crypto v) pass salt DefaultScryptParams of None \<Rightarrow> Inl (New ''policy.admin_auth'')
         | Some (sk, pk) \<Rightarrow> Inr \<lparr>an_VerifyKey = EncodeKey pk, an_VerifyKeyNext = [], an_Salt = EncodeSalt salt,
             an_Scrypt = DefaultScryptParams, an_NonceWatermark = 0, an_StagedSalt = []\<rparr>)))"

definition sealAndWrite :: "aenv \<Rightarrow> string \<Rightarrow> Anchor \<Rightarrow> Policy \<Rightarrow> aengine \<Rightarrow> string result \<times> aengine" where
  "sealAndWrite v pass a body e = (case SaltBytes a of Inl _ \<Rightarrow> (Inl (New ''policy.state_error''), e)
     | Inr salt \<Rightarrow> (case DeriveSealKey (av_crypto v) pass salt (an_Scrypt a) of None \<Rightarrow> (Inl (New ''policy.admin_auth''), e)
       | Some (sk, _) \<Rightarrow>
         (let bytes = writeBody body in
          (case writeEnvelope (av_write v) bytes (Sign (av_crypto v) bytes sk) e of
             (Inl err, e') \<Rightarrow> (Inl err, e') | (Inr _, e') \<Rightarrow> (Inr bytes, e')))))"

definition bootstrap_body :: "aenv \<Rightarrow> Change \<Rightarrow> Policy" where
  "bootstrap_body v c = (applyChange (defaultPolicy (ch_WrittenBy c)) c)\<lparr>po_SelfAddresses := lowerAll (ch_RefreshSelf c), po_Nonce := 1, po_UpdatedAt := av_now v\<rparr>"

definition Engine_Set :: "aenv \<Rightarrow> string \<Rightarrow> Change \<Rightarrow> aengine \<Rightarrow> Anchor result \<times> aengine" where
  "Engine_Set v pass c e =
    (if ae_anchorFound e then mutate v pass (ch_WrittenBy c) (ch_RefreshSelf c) (\<lambda>p. applyChange p c) e
     else (case InitSeal v pass e of Inl err \<Rightarrow> (Inl err, e)
       | Inr a \<Rightarrow> (case sealAndWrite v pass a (bootstrap_body v c) e of
           (Inl err, e') \<Rightarrow> (Inl err, e')
         | (Inr _, e') \<Rightarrow> (let a' = a\<lparr>an_NonceWatermark := 1\<rparr> in (Inr a', e'\<lparr>ae_anchor := a', ae_anchorFound := True\<rparr>)))))"

section \<open>Pins\<close>

definition Engine_Allow :: "aenv \<Rightarrow> string \<Rightarrow> PinEntry \<Rightarrow> bool \<Rightarrow> address list option \<Rightarrow> string \<Rightarrow> aengine \<Rightarrow> Anchor result \<times> aengine" where
  "Engine_Allow v pass pin remove refreshSelf writtenBy e = mutate v pass writtenBy refreshSelf
     (\<lambda>p. p\<lparr>po_Allowlist := (if remove then removePin (po_Allowlist p) pin else upsertPin (po_Allowlist p) pin)\<rparr>) e"

definition Engine_Deny :: "aenv \<Rightarrow> string \<Rightarrow> PinEntry \<Rightarrow> bool \<Rightarrow> address list option \<Rightarrow> string \<Rightarrow> aengine \<Rightarrow> Anchor result \<times> aengine" where
  "Engine_Deny v pass pin remove refreshSelf writtenBy e = mutate v pass writtenBy refreshSelf
     (\<lambda>p. p\<lparr>po_Denylist := (if remove then removePin (po_Denylist p) pin else upsertPin (po_Denylist p) pin)\<rparr>) e"

section \<open>The typed-data registry\<close>

definition sameTypedAllow :: "TypedAllow \<Rightarrow> TypedAllow \<Rightarrow> bool" where
  "sameTypedAllow a b \<longleftrightarrow> ta_ChainID a = ta_ChainID b \<and> EqualFold (ta_VerifyingContract a) (ta_VerifyingContract b) \<and> ta_PrimaryType a = ta_PrimaryType b"

fun upsertTypedAllow :: "TypedAllow list \<Rightarrow> TypedAllow \<Rightarrow> TypedAllow list" where
  "upsertTypedAllow [] t = [t]"
| "upsertTypedAllow (a # as) t = (if sameTypedAllow a t then a\<lparr>ta_Label := ta_Label t\<rparr> # as else a # upsertTypedAllow as t)"

definition removeTypedAllow :: "TypedAllow list \<Rightarrow> TypedAllow \<Rightarrow> TypedAllow list" where
  "removeTypedAllow as t = filter (\<lambda>a. \<not> sameTypedAllow a t) as"

text \<open>\<open>IsHexAddress\<close> is go-ethereum's.\<close>

definition validateTypedAllow :: "(string \<Rightarrow> bool) \<Rightarrow> TypedAllow \<Rightarrow> unit result" where
  "validateTypedAllow IsHexAddress t =
    (if ta_ChainID t \<le> 0 then Inl (New ''usage.bad_typed_allow'')
     else if \<not> IsHexAddress (TrimSpace (ta_VerifyingContract t)) then Inl (New ''usage.bad_typed_allow'')
     else if TrimSpace (ta_PrimaryType t) = [] then Inl (New ''usage.bad_typed_allow'')
     else Inr ())"

definition normal_typed :: "TypedAllow \<Rightarrow> TypedAllow" where
  "normal_typed t = t\<lparr>ta_VerifyingContract := ToLower (TrimSpace (ta_VerifyingContract t)), ta_PrimaryType := TrimSpace (ta_PrimaryType t)\<rparr>"

definition Engine_TypedAllow :: "(string \<Rightarrow> bool) \<Rightarrow> aenv \<Rightarrow> string \<Rightarrow> TypedAllow \<Rightarrow> bool \<Rightarrow> address list option \<Rightarrow> string \<Rightarrow> aengine \<Rightarrow> Anchor result \<times> aengine" where
  "Engine_TypedAllow IsHexAddress v pass entry remove refreshSelf writtenBy e =
    (case (if remove then Inr () else validateTypedAllow IsHexAddress entry) of Inl err \<Rightarrow> (Inl err, e)
     | Inr _ \<Rightarrow> mutate v pass writtenBy refreshSelf
         (\<lambda>p. p\<lparr>po_TypedData := (po_TypedData p)\<lparr>td_Allowed := (if remove then removeTypedAllow (td_Allowed (po_TypedData p)) (normal_typed entry)
            else upsertTypedAllow (td_Allowed (po_TypedData p)) (normal_typed entry))\<rparr>\<rparr>) e)"

section \<open>The contract registry\<close>

definition isSelectorHex :: "string \<Rightarrow> bool" where
  "isSelectorHex s0 = (let s = TrimSpace s0 in length s = 10 \<and> s ! 0 = CHR ''0'' \<and> (s ! 1 = CHR ''x'' \<or> s ! 1 = CHR ''X'')
     \<and> list_all (\<lambda>c. hexVal c \<noteq> None) (drop 2 s))"

definition normalizeSelector :: "string \<Rightarrow> string" where
  "normalizeSelector s = ToLower (TrimSpace s)"

definition sameContractAllow :: "ContractAllow \<Rightarrow> ContractAllow \<Rightarrow> bool" where
  "sameContractAllow a b \<longleftrightarrow> EqualFold (ca_Network a) (ca_Network b) \<and> EqualFold (ca_Contract a) (ca_Contract b)
     \<and> normalizeSelector (ca_Selector a) = normalizeSelector (ca_Selector b)"

fun upsertContractAllow :: "ContractAllow list \<Rightarrow> ContractAllow \<Rightarrow> ContractAllow list" where
  "upsertContractAllow [] c = [c]"
| "upsertContractAllow (a # as) c = (if sameContractAllow a c then a\<lparr>ca_Label := ca_Label c, ca_AddedAt := ca_AddedAt c\<rparr> # as else a # upsertContractAllow as c)"

definition removeContractAllow :: "ContractAllow list \<Rightarrow> ContractAllow \<Rightarrow> ContractAllow list" where
  "removeContractAllow as c = filter (\<lambda>a. \<not> sameContractAllow a c) as"

definition validateContractAllow :: "(string \<Rightarrow> bool) \<Rightarrow> ContractAllow \<Rightarrow> unit result" where
  "validateContractAllow IsHexAddress c =
    (if TrimSpace (ca_Network c) = [] then Inl (New ''usage.bad_contract_allow'')
     else if \<not> IsHexAddress (TrimSpace (ca_Contract c)) then Inl (New ''usage.bad_contract_allow'')
     else if \<not> isSelectorHex (ca_Selector c) then Inl (New ''usage.bad_contract_allow'')
     else Inr ())"

definition normal_contract :: "ContractAllow \<Rightarrow> ContractAllow" where
  "normal_contract c = c\<lparr>ca_Network := TrimSpace (ca_Network c), ca_Contract := ToLower (TrimSpace (ca_Contract c)),
     ca_Selector := normalizeSelector (ca_Selector c), ca_AddedAt := []\<rparr>"

text \<open>The addition time is the clock's; both readings of one mutation are taken to print the same second.\<close>

definition Engine_ContractAllow :: "(string \<Rightarrow> bool) \<Rightarrow> aenv \<Rightarrow> string \<Rightarrow> ContractAllow \<Rightarrow> bool \<Rightarrow> address list option \<Rightarrow> string \<Rightarrow> aengine \<Rightarrow> Anchor result \<times> aengine" where
  "Engine_ContractAllow IsHexAddress v pass entry remove refreshSelf writtenBy e =
    (case (if remove then Inr () else validateContractAllow IsHexAddress entry) of Inl err \<Rightarrow> (Inl err, e)
     | Inr _ \<Rightarrow> mutate v pass writtenBy refreshSelf
         (\<lambda>p. p\<lparr>po_ContractsAllowed := (if remove then removeContractAllow (po_ContractsAllowed p) (normal_contract entry)
            else upsertContractAllow (po_ContractsAllowed p) ((normal_contract entry)\<lparr>ca_AddedAt := av_now v\<rparr>))\<rparr>) e)"

section \<open>Rotation and reset\<close>

definition commit_error :: "seal_error \<Rightarrow> Error" where
  "commit_error err = (if err = ErrNoStagedRotation then New ''usage.no_staged_rotation'' else New ''policy.admin_auth'')"

definition commit_rotation :: "aenv \<Rightarrow> string \<Rightarrow> aengine \<Rightarrow> Anchor result \<times> aengine" where
  "commit_rotation v nextPass e =
    (case CommitRotation (av_crypto v) nextPass (ae_anchor e) (an_Scrypt (ae_anchor e)) of Inl err \<Rightarrow> (Inl (commit_error err), e)
     | Inr fam \<Rightarrow> (case loadPolicy (av_crypto v) (ae_file e) (ae_anchor e) True of Inl err \<Rightarrow> (Inl err, e)
       | Inr res \<Rightarrow>
         (let p = lr_policy res; body = p\<lparr>po_Nonce := po_Nonce p + 1, po_UpdatedAt := av_now v\<rparr>; bytes = writeBody body in
          (case writeEnvelope (av_write v) bytes (Sign (av_crypto v) bytes (rf_Private fam)) e of
             (Inl err, e') \<Rightarrow> (Inl err, e')
           | (Inr _, e') \<Rightarrow>
             (let a = bump (po_Nonce body) ((ae_anchor e)\<lparr>an_VerifyKey := EncodeKey (rf_Public fam), an_VerifyKeyNext := [],
                   an_Salt := EncodeSalt (rf_Salt fam), an_StagedSalt := []\<rparr>)
              in (Inr a, e'\<lparr>ae_anchor := a\<rparr>))))))"

definition stage_rotation :: "aenv \<Rightarrow> string \<Rightarrow> aengine \<Rightarrow> Anchor result \<times> aengine" where
  "stage_rotation v nextPass e =
    (case StageRotation (av_crypto v) (av_rand v) nextPass (an_Scrypt (ae_anchor e)) of Inl _ \<Rightarrow> (Inl (New ''policy.admin_auth''), e)
     | Inr (newKey, stagedSalt) \<Rightarrow>
       (let a = (ae_anchor e)\<lparr>an_VerifyKeyNext := newKey, an_StagedSalt := EncodeSalt stagedSalt\<rparr> in (Inr a, e\<lparr>ae_anchor := a\<rparr>)))"

definition ChangeAdminPassphrase :: "aenv \<Rightarrow> string \<Rightarrow> string \<Rightarrow> bool \<Rightarrow> bool \<Rightarrow> aengine \<Rightarrow> Anchor result \<times> aengine" where
  "ChangeAdminPassphrase v pass nextPass stage commit e =
    (if stage = commit then (Inl (New ''usage.bad_flags''), e)
     else if \<not> ae_anchorFound e then (Inl (New ''policy.seal_violation''), e)
     else (case authenticate (av_crypto v) e pass of Inl err \<Rightarrow> (Inl err, e)
       | Inr _ \<Rightarrow> if nextPass = [] then (Inl (New ''policy.admin_auth''), e)
           else if stage then stage_rotation v nextPass e else commit_rotation v nextPass e))"

definition reset_body :: "aenv \<Rightarrow> address list option \<Rightarrow> string \<Rightarrow> Anchor \<Rightarrow> Policy" where
  "reset_body v refreshSelf writtenBy a = (defaultPolicy writtenBy)\<lparr>po_Nonce := an_NonceWatermark a + 1,
     po_SelfAddresses := lowerAll refreshSelf, po_UpdatedAt := av_now v\<rparr>"

definition ResetForce :: "aenv \<Rightarrow> string \<Rightarrow> address list option \<Rightarrow> string \<Rightarrow> aengine \<Rightarrow> Anchor result \<times> aengine" where
  "ResetForce v pass refreshSelf writtenBy e =
    (if \<not> ae_anchorFound e then (Inl (New ''policy.admin_auth''), e)
     else (case authenticate (av_crypto v) e pass of Inl err \<Rightarrow> (Inl err, e)
       | Inr (sk, _) \<Rightarrow>
         (let body = reset_body v refreshSelf writtenBy (ae_anchor e); bytes = writeBody body in
          (case writeEnvelope (av_write v) bytes (Sign (av_crypto v) bytes sk) e of
             (Inl err, e') \<Rightarrow> (Inl err, e')
           | (Inr _, e') \<Rightarrow> (let a = (ae_anchor e)\<lparr>an_NonceWatermark := po_Nonce body\<rparr> in (Inr a, e'\<lparr>ae_anchor := a\<rparr>))))))"

definition CountersRelease :: "aenv \<Rightarrow> string \<Rightarrow> aengine \<Rightarrow> env \<Rightarrow> string \<Rightarrow> engine \<Rightarrow> unit result \<times> engine" where
  "CountersRelease v pass e ev rid st = (case authenticate (av_crypto v) e pass of Inl err \<Rightarrow> (Inl err, st) | Inr _ \<Rightarrow> Release ev rid st)"

section \<open>Views without a passphrase\<close>

definition failed_status :: "aengine \<Rightarrow> SealStatus" where
  "failed_status e = zero_status\<lparr>ss_AnchorFound := ae_anchorFound e, ss_Watermark := an_NonceWatermark (ae_anchor e),
     ss_AnchorSource := (if ae_anchorFound e then ''config'' else [])\<rparr>"

definition Show :: "aenv \<Rightarrow> aengine \<Rightarrow> Policy \<times> SealStatus \<times> Error option" where
  "Show v e = (case load v e of Inl err \<Rightarrow> (zero_policy, failed_status e, Some err) | Inr r \<Rightarrow> (lr_policy r, lr_status r, None))"

definition Engine_Verify :: "aenv \<Rightarrow> aengine \<Rightarrow> bool \<times> SealStatus \<times> Error option" where
  "Engine_Verify v e = (case load v e of Inl err \<Rightarrow> (False, failed_status e, Some err) | Inr r \<Rightarrow> (True, lr_status r, None))"

definition WhatIf :: "aenv \<Rightarrow> aengine \<Rightarrow> env \<Rightarrow> Check \<Rightarrow> engine \<Rightarrow> Decision result \<times> engine" where
  "WhatIf v e ev c st = Engine_Evaluate (loadActivePolicy (av_crypto v) (ae_file e) (ae_anchor e) (ae_anchorFound e)) ev c st"

definition PinPrint :: "aengine \<Rightarrow> Anchor result" where
  "PinPrint e = (if ae_anchorFound e then Inr (ae_anchor e) else Inl (New ''policy.seal_violation''))"

definition readEnvelopeForVerify :: "aengine \<Rightarrow> (string \<times> string) result" where
  "readEnvelopeForVerify e = (case ae_file e of None \<Rightarrow> Inl (New ''policy.seal_violation'')
     | Some raw \<Rightarrow> (case parseEnvelope raw of Inl err \<Rightarrow> Inl err
       | Inr env \<Rightarrow> (case b64_decode (env_BodyB64 env) of None \<Rightarrow> Inl (New ''policy.seal_violation'')
         | Some body \<Rightarrow> (case b64_decode (sb_Sig (env_Seal env)) of None \<Rightarrow> Inl (New ''policy.seal_violation'')
           | Some sig \<Rightarrow> Inr (body, sig)))))"

definition PinVerify :: "crypto \<Rightarrow> string \<Rightarrow> aengine \<Rightarrow> bool result" where
  "PinVerify cr candidateKey e = (case VerifyKeyBytes (zero_anchor\<lparr>an_VerifyKey := candidateKey\<rparr>) of Inl _ \<Rightarrow> Inl (New ''usage.bad_key'')
     | Inr pk \<Rightarrow> (case readEnvelopeForVerify e of Inl err \<Rightarrow> Inl err | Inr (body, sig) \<Rightarrow> Inr (Verify cr body sig pk)))"

end
