(* ===== verification/Policy_Sealing.thy ===== *)
theory Policy_Sealing
  imports Policy_Roundtrip Policy_Admin
begin

text \<open>
  What the seal guarantees: a freshly sealed file loads under the anchors that pin its key, a loaded file was signed by a
  pinned key and is not older than the watermark, and every administrative command keeps the file readable.
\<close>

section \<open>A sealed file loads\<close>

text \<open>What the program relies on of Ed25519: keys and signatures have their sizes, and a signature verifies under its key.\<close>

definition signature_scheme :: "crypto \<Rightarrow> bool" where
  "signature_scheme cr \<longleftrightarrow> (\<forall>sk m. length (cr_public cr sk) = 32 \<and> length (cr_sign cr sk m) = 64 \<and> cr_verify cr (cr_public cr sk) m (cr_sign cr sk m))"

lemma Verify_Sign: "signature_scheme cr \<Longrightarrow> Verify cr body (Sign cr body sk) (cr_public cr sk)"
  by (simp add: signature_scheme_def Verify_def Sign_def)

definition pins :: "Anchor \<Rightarrow> string \<Rightarrow> bool" where
  "pins a pk \<longleftrightarrow> VerifyKeyBytes a = Inr pk \<or> VerifyKeyNextBytes a = Inr (Some pk)"

lemma verifyUnderAnchor_iff: "verifyUnderAnchor cr body sig a \<longleftrightarrow> (\<exists>pk. pins a pk \<and> Verify cr body sig pk)"
  by (auto simp: verifyUnderAnchor_def pins_def split: sum.splits option.splits)

definition sealed_text :: "crypto \<Rightarrow> string \<Rightarrow> Policy \<Rightarrow> string" where
  "sealed_text cr sk p = marshalEnvelope (seal_envelope (writeBody p) (Sign cr (writeBody p) sk))"

text \<open>What loading a text comes to once the envelope is open.\<close>

lemma load_sealed_raw:
  assumes "signature_scheme cr" "pins a (cr_public cr sk)"
  shows "loadPolicy cr (Some (sealed_text cr sk p)) a True = check_body (seal_envelope (writeBody p) (Sign cr (writeBody p) sk)) (writeBody p) a"
proof -
  have "verifyUnderAnchor cr (writeBody p) (Sign cr (writeBody p) sk) a"
    using assms Verify_Sign verifyUnderAnchor_iff by blast
  thus ?thesis
    by (simp add: loadPolicy_def sealed_text_def envelope_roundtrip seal_envelope_def envelopeVersion_def int64_def)
qed

definition loaded :: "loadResult result \<Rightarrow> Policy \<Rightarrow> bool" where
  "loaded r p \<longleftrightarrow> (\<exists>l. r = Inr l \<and> lr_policy l = p \<and> lr_present l)"

lemma load_sealed:
  assumes "signature_scheme cr" "pins a (cr_public cr sk)" "wf_policy p" "po_Version p \<le> 1" "an_NonceWatermark a \<le> po_Nonce p"
  shows "loaded (loadPolicy cr (Some (sealed_text cr sk p)) a True) (canonical p)"
  unfolding load_sealed_raw [OF assms(1,2)] check_body_def head_roundtrip [OF assms(3)] body_roundtrip [OF assms(3)]
  using assms(4,5) by (simp add: bodyVersion_def loaded_def not_less)

section \<open>A loaded file is authentic\<close>

lemma find_field_lower:
  assumes "\<forall>f \<in> set fs. ToLower (fst f) = fst f"
  shows "find_field fs k = map_of fs (ToLower k)"
proof -
  have f: "map_option snd (find (\<lambda>(n, _). EqualFold n k) fs) = map_of fs (ToLower k)"
    using assms by (induction fs) (auto simp: EqualFold_def)
  show ?thesis
  proof (cases "map_of fs k")
    case (Some d)
    hence "(k, d) \<in> set fs" by (rule map_of_SomeD)
    hence "ToLower k = k" using assms by fastforce
    thus ?thesis using Some by (simp add: find_field_def)
  qed (simp add: find_field_def f)
qed

definition head_fields :: "(string \<times> bodyHead decoder) list" where
  "head_fields = [(''version'', field hd_Version hd_Version_update dec_int),
     (''nonce'', field hd_Nonce hd_Nonce_update dec_uint64), (''written_by'', field hd_WrittenBy hd_WrittenBy_update dec_string)]"

lemma dec_head_fields: "dec_head = dec_struct False head_fields"
  by (simp add: dec_head_def head_fields_def)

lemma find_head: "find_field head_fields k = map_of head_fields (ToLower k)"
  by (rule find_field_lower) (simp add: head_fields_def ToLower_def lower_char_def)

lemma find_policy: "find_field policy_fields k = map_of policy_fields (ToLower k)"
  by (rule find_field_lower) (simp add: policy_fields_def ToLower_def lower_char_def)

text \<open>Both passes read the same version, nonce and writer.\<close>

definition same_head :: "bodyHead \<Rightarrow> Policy \<Rightarrow> bool" where
  "same_head h p \<longleftrightarrow> hd_Version h = po_Version p \<and> hd_Nonce h = po_Nonce p \<and> hd_WrittenBy h = po_WrittenBy p"

lemma head_step:
  assumes "map_of policy_fields k = Some d" "d v p = Some p'" "same_head h p"
    "(case map_of head_fields k of None \<Rightarrow> Some h | Some dh \<Rightarrow> dh v h) = Some h'"
  shows "same_head h' p'"
  using assms
  by (auto simp: policy_fields_def head_fields_def field_def same_head_def split: if_splits)

lemma dec_members_head:
  "dec_members True policy_fields ms p = Some p' \<Longrightarrow> dec_members False head_fields ms h = Some h' \<Longrightarrow> same_head h p \<Longrightarrow> same_head h' p'"
proof (induction ms arbitrary: p h)
  case (Cons kv ms)
  obtain k v where kv: "kv = (k, v)" by (cases kv)
  obtain d p1 where d: "map_of policy_fields (ToLower k) = Some d" "d v p = Some p1" "dec_members True policy_fields ms p1 = Some p'"
    using Cons.prems(1) by (auto simp: kv find_policy split: option.splits)
  obtain h1 where h: "(case map_of head_fields (ToLower k) of None \<Rightarrow> Some h | Some dh \<Rightarrow> dh v h) = Some h1" "dec_members False head_fields ms h1 = Some h'"
    using Cons.prems(2) by (auto simp: kv find_head split: option.splits)
  show ?case by (rule Cons.IH [OF d(3) h(2) head_step [OF d(1,2) Cons.prems(3) h(1)]])
qed simp

lemma parse_pval: "parse_json s = Some j \<Longrightarrow> \<exists>r. pval (Suc (length s)) s = Some (j, r)"
  by (auto simp: parse_json_def split: option.splits if_splits)

lemma reconcile_head [simp]: "po_Nonce (reconcileTriState j p) = po_Nonce p" "po_Version (reconcileTriState j p) = po_Version p"
  "po_WrittenBy (reconcileTriState j p) = po_WrittenBy p"
  by (simp_all add: reconcileTriState_def Let_def split: option.split)

lemma two_passes_agree:
  assumes "read_head raw = Some h" "decodeBodyStrict raw = Some p"
  shows "same_head h p"
proof -
  obtain j where j: "parse_json raw = Some j" "dec_head j \<lparr>hd_Version = 0, hd_Nonce = 0, hd_WrittenBy = []\<rparr> = Some h"
    using assms(1) by (auto simp: read_head_def split: option.splits)
  obtain r where r: "pval (Suc (length raw)) raw = Some (j, r)" using parse_pval [OF j(1)] by blast
  obtain q where q: "dec_struct True policy_fields j zero_policy = Some q" "p = reconcileTriState j q"
    using assms(2) unfolding decodeBodyStrict_def r j(1) by auto
  have z: "same_head \<lparr>hd_Version = 0, hd_Nonce = 0, hd_WrittenBy = []\<rparr> zero_policy" by (simp add: same_head_def zero_policy_def)
  have "same_head h q"
  proof (cases j)
    case (JsObj ms)
    thus ?thesis using dec_members_head [OF _ _ z] q(1) j(2) by (simp add: dec_struct_def dec_head_fields)
  qed (use q(1) j(2) z in \<open>simp_all add: dec_struct_def dec_head_fields\<close>)
  thus ?thesis by (simp add: q(2) same_head_def)
qed

lemma load_authentic:
  assumes "loadPolicy cr (Some raw) a True = Inr l"
  shows "\<exists>pk sig. pins a pk \<and> Verify cr (lr_bodyRaw l) sig pk" "decodeBodyStrict (lr_bodyRaw l) = Some (lr_policy l)"
    "an_NonceWatermark a \<le> po_Nonce (lr_policy l)" "po_Version (lr_policy l) \<le> 1" "lr_present l"
proof -
  obtain env body sig where o: "b64_decode (env_BodyB64 env) = Some body" "verifyUnderAnchor cr body sig a" "check_body env body a = Inr l"
    using assms by (auto simp: loadPolicy_def split: option.splits if_splits)
  obtain h p where h: "read_head body = Some h" "decodeBodyStrict body = Some p" "\<not> hd_Nonce h < an_NonceWatermark a" "\<not> hd_Version h > bodyVersion"
    and l: "lr_policy l = p" "lr_bodyRaw l = body" "lr_present l"
    using o(3) by (auto simp: check_body_def split: option.splits if_splits)
  show "\<exists>pk sig. pins a pk \<and> Verify cr (lr_bodyRaw l) sig pk" using o(2) verifyUnderAnchor_iff l by blast
  show "decodeBodyStrict (lr_bodyRaw l) = Some (lr_policy l)" "lr_present l" using h l by simp_all
  show "an_NonceWatermark a \<le> po_Nonce (lr_policy l)" "po_Version (lr_policy l) \<le> 1"
    using two_passes_agree [OF h(1,2)] h l by (auto simp: same_head_def bodyVersion_def)
qed

section \<open>Mutations\<close>

lemma authenticate_pins: "authenticate cr e pass = Inr (sk, pk) \<Longrightarrow> pk = cr_public cr sk \<and> pins (ae_anchor e) pk \<and> ae_anchorFound e"
  by (auto simp: authenticate_def DeriveSealKey_def pins_def split: if_splits sum.splits option.splits)

lemma writeEnvelope_cases:
  "(\<exists>err. writeEnvelope w body sig e = (Inl err, e)) \<or> writeEnvelope w body sig e = (Inr (), e\<lparr>ae_file := Some (marshalEnvelope (seal_envelope body sig))\<rparr>)"
  by (simp add: writeEnvelope_def split: writefault.split)

lemma mutate_cases:
  "(\<exists>err. mutate v pass w r f e = (Inl err, e)) \<or>
   (\<exists>sk pk l body. authenticate (av_crypto v) e pass = Inr (sk, pk) \<and> load v e = Inr l \<and>
      body = mutated f w r (av_now v) (ae_anchor e) (if lr_present l then lr_policy l else defaultPolicy w) \<and>
      mutate v pass w r f e = (Inr (bump (po_Nonce body) (ae_anchor e)),
        e\<lparr>ae_file := Some (sealed_text (av_crypto v) sk body), ae_anchor := bump (po_Nonce body) (ae_anchor e)\<rparr>))"
proof (cases "authenticate (av_crypto v) e pass")
  case (Inr kp)
  obtain sk pk where kp: "kp = (sk, pk)" by (cases kp)
  show ?thesis
  proof (cases "load v e")
    case l: (Inr l)
    define body where "body = mutated f w r (av_now v) (ae_anchor e) (if lr_present l then lr_policy l else defaultPolicy w)"
    show ?thesis
      using writeEnvelope_cases [of "av_write v" "writeBody body" "Sign (av_crypto v) (writeBody body) sk" e]
      by (auto simp: mutate_def Inr kp l Let_def body_def [symmetric] sealed_text_def)
  qed (simp add: mutate_def Inr kp)
qed (simp add: mutate_def)

section \<open>The commands\<close>

datatype admin_cmd = CmdSet Change | CmdAllow PinEntry bool | CmdDeny PinEntry bool | CmdTyped TypedAllow bool
  | CmdContract ContractAllow bool | CmdStage string | CmdCommit string | CmdReset

fun run_cmd :: "(string \<Rightarrow> bool) \<Rightarrow> aenv \<Rightarrow> string \<Rightarrow> address list option \<Rightarrow> string \<Rightarrow> admin_cmd \<Rightarrow> aengine \<Rightarrow> Anchor result \<times> aengine" where
  "run_cmd hx v pass self wb (CmdSet c) e = Engine_Set v pass c e"
| "run_cmd hx v pass self wb (CmdAllow pin rm) e = Engine_Allow v pass pin rm self wb e"
| "run_cmd hx v pass self wb (CmdDeny pin rm) e = Engine_Deny v pass pin rm self wb e"
| "run_cmd hx v pass self wb (CmdTyped t rm) e = Engine_TypedAllow hx v pass t rm self wb e"
| "run_cmd hx v pass self wb (CmdContract c rm) e = Engine_ContractAllow hx v pass c rm self wb e"
| "run_cmd hx v pass self wb (CmdStage next) e = ChangeAdminPassphrase v pass next True False e"
| "run_cmd hx v pass self wb (CmdCommit next) e = ChangeAdminPassphrase v pass next False True e"
| "run_cmd hx v pass self wb CmdReset e = ResetForce v pass self wb e"

text \<open>The body a command is to seal, given the policy in force.\<close>

fun intended :: "aenv \<Rightarrow> address list option \<Rightarrow> string \<Rightarrow> admin_cmd \<Rightarrow> aengine \<Rightarrow> Policy \<Rightarrow> Policy" where
  "intended v self wb (CmdSet c) e p = (if ae_anchorFound e
     then mutated (\<lambda>p. applyChange p c) (ch_WrittenBy c) (ch_RefreshSelf c) (av_now v) (ae_anchor e) p else bootstrap_body v c)"
| "intended v self wb (CmdAllow pin rm) e p = mutated (\<lambda>p. p\<lparr>po_Allowlist := (if rm then removePin (po_Allowlist p) pin else upsertPin (po_Allowlist p) pin)\<rparr>)
     wb self (av_now v) (ae_anchor e) p"
| "intended v self wb (CmdDeny pin rm) e p = mutated (\<lambda>p. p\<lparr>po_Denylist := (if rm then removePin (po_Denylist p) pin else upsertPin (po_Denylist p) pin)\<rparr>)
     wb self (av_now v) (ae_anchor e) p"
| "intended v self wb (CmdTyped t rm) e p = mutated (\<lambda>p. p\<lparr>po_TypedData := (po_TypedData p)\<lparr>td_Allowed :=
       (if rm then removeTypedAllow (td_Allowed (po_TypedData p)) (normal_typed t) else upsertTypedAllow (td_Allowed (po_TypedData p)) (normal_typed t))\<rparr>\<rparr>)
     wb self (av_now v) (ae_anchor e) p"
| "intended v self wb (CmdContract c rm) e p = mutated (\<lambda>p. p\<lparr>po_ContractsAllowed :=
       (if rm then removeContractAllow (po_ContractsAllowed p) (normal_contract c)
        else upsertContractAllow (po_ContractsAllowed p) ((normal_contract c)\<lparr>ca_AddedAt := av_now v\<rparr>))\<rparr>)
     wb self (av_now v) (ae_anchor e) p"
| "intended v self wb (CmdStage next) e p = p"
| "intended v self wb (CmdCommit next) e p = p\<lparr>po_Nonce := po_Nonce p + 1, po_UpdatedAt := av_now v\<rparr>"
| "intended v self wb CmdReset e p = reset_body v self wb (ae_anchor e)"

text \<open>A change the writer can render: no limit that is the null marker, no override without a field.\<close>

definition renders :: "Limits \<Rightarrow> bool" where
  "renders l \<longleftrightarrow> wf_limits l \<and> TypedDataUnknown l = None"

definition change_ok :: "Change \<Rightarrow> bool" where
  "change_ok c \<longleftrightarrow> (\<forall>l. ch_Default c = Some l \<longrightarrow> renders l) \<and> list_all (\<lambda>n. has_field n \<and> wf_limits (nr_Limits n)) (ch_Networks c)"

fun cmd_ok :: "admin_cmd \<Rightarrow> bool" where
  "cmd_ok (CmdSet c) = change_ok c"
| "cmd_ok (CmdTyped t rm) = int64 (ta_ChainID t)"
| "cmd_ok _ = True"

section \<open>Well-formedness is kept\<close>

lemma wf_merge: "wf_limits a \<Longrightarrow> wf_limits b \<Longrightarrow> wf_limits (mergeLimits a b)"
  by (auto simp: wf_limits_def mergeLimits_def over_def)

lemma renders_merge: "renders a \<Longrightarrow> renders b \<Longrightarrow> renders (mergeLimits a b)"
  by (auto simp: renders_def wf_merge) (simp add: mergeLimits_def over_opt_def)

definition empty_limits :: "Limits \<Rightarrow> bool" where
  "empty_limits l \<longleftrightarrow> MaxTxWei l = Absent \<and> MaxDayWei l = Absent \<and> MaxGasPriceWei l = Absent \<and> AllowlistEnabled l = None
     \<and> IncludeSelf l = None \<and> TypedDataUnknown l = None"

lemma has_field_iff: "has_field n \<longleftrightarrow> \<not> empty_limits (nr_Limits n)"
  by (auto simp: has_field_def limits_pairs_def emit_def emitBool_def empty_limits_def split: limit.splits option.splits)

lemma empty_merge: "empty_limits (mergeLimits a b) \<longleftrightarrow> empty_limits a \<and> empty_limits b"
  by (auto simp: empty_limits_def mergeLimits_def over_def over_opt_def)

definition net_ok :: "NetworkRule \<Rightarrow> bool" where
  "net_ok n \<longleftrightarrow> has_field n \<and> wf_limits (nr_Limits n)"

lemma net_ok_merge: "net_ok m \<Longrightarrow> net_ok n \<Longrightarrow> net_ok (m\<lparr>nr_Limits := mergeLimits (nr_Limits m) (nr_Limits n)\<rparr>)"
  by (simp add: net_ok_def has_field_iff empty_merge wf_merge)

lemma upsertNetwork_ok: "list_all net_ok ns \<Longrightarrow> net_ok n \<Longrightarrow> list_all net_ok (upsertNetwork n ns)"
  by (induction ns) (simp_all add: net_ok_merge)

lemma fold_upsertNetwork_ok: "list_all net_ok ms \<Longrightarrow> list_all net_ok ns \<Longrightarrow> list_all net_ok (fold upsertNetwork ms ns)"
  by (induction ms arbitrary: ns) (simp_all add: upsertNetwork_ok)

lemma wf_policy_renders: "wf_policy p \<longleftrightarrow> int64 (po_Version p) \<and> renders (ru_Default (po_Rules p))
  \<and> list_all net_ok (ru_Networks (po_Rules p)) \<and> list_all (\<lambda>a. int64 (ta_ChainID a)) (td_Allowed (po_TypedData p))"
  by (auto simp: wf_policy_def renders_def list_all_iff net_ok_def)

lemma wf_applyChange: "wf_policy p \<Longrightarrow> change_ok c \<Longrightarrow> wf_policy (applyChange p c)"
  by (cases "ch_Default c"; cases "ch_TypedUnknown c")
    (simp_all add: wf_policy_renders applyChange_def Let_def change_ok_def net_ok_def [symmetric] renders_merge fold_upsertNetwork_ok)

lemma version_applyChange [simp]: "po_Version (applyChange p c) = po_Version p" "po_Nonce (applyChange p c) = po_Nonce p"
  by (simp_all add: applyChange_def Let_def)

lemma wf_mutated [simp]: "wf_policy (mutated f w r now a p) = wf_policy (f p)"
  by (simp add: mutated_def Let_def wf_policy_def)

lemma mutated_fields [simp]: "po_Version (mutated f w r now a p) = po_Version (f p)" "po_Nonce (mutated f w r now a p) = nextNonce (f p) a"
  by (simp_all add: mutated_def Let_def)

lemma wf_default: "wf_policy (defaultPolicy w)"
  by (simp add: wf_policy_def defaultPolicy_def zero_limits_def wf_limits_def wf_limit_def int64_def bodyVersion_def)

lemma wf_canonical: "wf_policy p \<Longrightarrow> wf_policy (canonical p)"
  by (simp add: wf_policy_def canonical_def)

lemma upsertTyped_int64: "\<forall>a \<in> set as. int64 (ta_ChainID a) \<Longrightarrow> int64 (ta_ChainID t) \<Longrightarrow> \<forall>a \<in> set (upsertTypedAllow as t). int64 (ta_ChainID a)"
  by (induction as) auto

lemma wf_intended: "wf_policy p \<Longrightarrow> cmd_ok cmd \<Longrightarrow> wf_policy (intended v self wb cmd e p)"
proof (cases cmd)
  case (CmdSet c)
  assume p: "wf_policy p" "cmd_ok cmd"
  show ?thesis
  proof (cases "ae_anchorFound e")
    case True
    thus ?thesis using p CmdSet by (simp add: wf_applyChange)
  next
    case False
    have "wf_policy (applyChange (defaultPolicy (ch_WrittenBy c)) c)" using p CmdSet by (simp add: wf_applyChange wf_default)
    thus ?thesis using False CmdSet by (simp add: bootstrap_body_def wf_policy_def)
  qed
next
  case (CmdTyped t rm)
  assume p: "wf_policy p" "cmd_ok cmd"
  have "int64 (ta_ChainID (normal_typed t))" using p CmdTyped by (simp add: normal_typed_def)
  with p have "\<forall>a \<in> set (upsertTypedAllow (td_Allowed (po_TypedData p)) (normal_typed t)). int64 (ta_ChainID a)"
    by (intro upsertTyped_int64) (auto simp: wf_policy_def)
  thus ?thesis using p unfolding CmdTyped intended.simps wf_mutated by (simp add: wf_policy_def removeTypedAllow_def)
next
  case CmdReset
  have "wf_policy (defaultPolicy wb)" by (rule wf_default)
  thus ?thesis using CmdReset by (simp add: reset_body_def wf_policy_def)
qed (simp_all only: intended.simps wf_mutated, simp_all add: wf_policy_def)

section \<open>What a command leaves behind\<close>

lemma HasPrefix_app [simp]: "HasPrefix (p @ s) p"
  by (simp add: HasPrefix_def)

lemma decode_EncodeKey: "length pk = 32 \<Longrightarrow> decodeKey (EncodeKey pk) = Inr pk"
  by (simp add: decodeKey_def EncodeKey_def)

lemma pins_cong: "an_VerifyKey a = an_VerifyKey b \<Longrightarrow> an_VerifyKeyNext a = an_VerifyKeyNext b \<Longrightarrow> pins a = pins b"
  by (simp add: pins_def VerifyKeyBytes_def VerifyKeyNextBytes_def fun_eq_iff)

lemma pins_bump [simp]: "pins (bump n a) = pins a"
  by (rule pins_cong) (simp_all add: bump_def)

lemma bump_watermark: "an_NonceWatermark (bump n a) = max (an_NonceWatermark a) n"
  by (cases "an_NonceWatermark a < n") (auto simp: bump_def max.absorb1 max.absorb2 not_less)

text \<open>The command sealed \<open>body\<close> under a key that the anchors before and after it pin.\<close>

definition sealed :: "crypto \<Rightarrow> aengine \<Rightarrow> Policy \<Rightarrow> aengine \<Rightarrow> bool" where
  "sealed cr e body e' \<longleftrightarrow> ae_anchorFound e' \<and> (\<exists>sk. ae_file e' = Some (sealed_text cr sk body) \<and> pins (ae_anchor e') (cr_public cr sk) \<and>
     (ae_anchorFound e \<longrightarrow> pins (ae_anchor e) (cr_public cr sk)))"

lemma load_found: "load v e = Inr l \<Longrightarrow> ae_anchorFound e \<Longrightarrow> lr_present l"
proof -
  assume l: "load v e = Inr l" "ae_anchorFound e"
  then obtain raw where "ae_file e = Some raw" by (cases "ae_file e") (auto simp: load_def loadPolicy_def)
  thus ?thesis using l load_authentic(5) by (simp add: load_def)
qed

lemma mutate_sealed:
  assumes "mutate v pass w r f e = (Inr a, e')"
  shows "\<exists>l. load v e = Inr l \<and> ae_anchorFound e \<and> sealed (av_crypto v) e (mutated f w r (av_now v) (ae_anchor e) (lr_policy l)) e' \<and>
    a = ae_anchor e' \<and> ae_anchor e' = bump (po_Nonce (mutated f w r (av_now v) (ae_anchor e) (lr_policy l))) (ae_anchor e)"
proof -
  obtain sk pk l where k: "authenticate (av_crypto v) e pass = Inr (sk, pk)" and l: "load v e = Inr l"
    and m: "mutate v pass w r f e = (Inr (bump (po_Nonce (mutated f w r (av_now v) (ae_anchor e) (if lr_present l then lr_policy l else defaultPolicy w))) (ae_anchor e)),
        e\<lparr>ae_file := Some (sealed_text (av_crypto v) sk (mutated f w r (av_now v) (ae_anchor e) (if lr_present l then lr_policy l else defaultPolicy w))),
          ae_anchor := bump (po_Nonce (mutated f w r (av_now v) (ae_anchor e) (if lr_present l then lr_policy l else defaultPolicy w))) (ae_anchor e)\<rparr>)"
    using mutate_cases [of v pass w r f e] assms by auto
  have f: "ae_anchorFound e" "pins (ae_anchor e) (cr_public (av_crypto v) sk)" using authenticate_pins [OF k] by auto
  have pr: "lr_present l" by (rule load_found [OF l f(1)])
  show ?thesis using m assms l f pr by (auto simp: sealed_def)
qed

lemma Set_bootstrap:
  assumes "Engine_Set v pass c e = (Inr a, e')" "\<not> ae_anchorFound e" "signature_scheme (av_crypto v)"
  shows "sealed (av_crypto v) e (bootstrap_body v c) e' \<and> a = ae_anchor e' \<and> an_NonceWatermark a = 1"
proof -
  obtain salt sk where i: "InitSeal v pass e = Inr \<lparr>an_VerifyKey = EncodeKey (cr_public (av_crypto v) sk), an_VerifyKeyNext = [], an_Salt = EncodeSalt salt,
      an_Scrypt = DefaultScryptParams, an_NonceWatermark = 0, an_StagedSalt = []\<rparr>"
    and k: "DeriveSealKey (av_crypto v) pass salt DefaultScryptParams = Some (sk, cr_public (av_crypto v) sk)"
    using assms(1,2) by (auto simp: Engine_Set_def InitSeal_def DeriveSealKey_def split: if_splits option.splits sum.splits prod.splits)
  have key': "pins \<lparr>an_VerifyKey = EncodeKey (cr_public (av_crypto v) sk), an_VerifyKeyNext = [], an_Salt = EncodeSalt salt,
      an_Scrypt = DefaultScryptParams, an_NonceWatermark = 1, an_StagedSalt = []\<rparr> (cr_public (av_crypto v) sk)"
    using assms(3) by (simp add: pins_def VerifyKeyBytes_def decode_EncodeKey signature_scheme_def)
  let ?a = "\<lparr>an_VerifyKey = EncodeKey (cr_public (av_crypto v) sk), an_VerifyKeyNext = [], an_Salt = EncodeSalt salt,
      an_Scrypt = DefaultScryptParams, an_NonceWatermark = 1, an_StagedSalt = []\<rparr>"
  let ?e = "e\<lparr>ae_file := Some (sealed_text (av_crypto v) sk (bootstrap_body v c)), ae_anchor := ?a, ae_anchorFound := True\<rparr>"
  have "e' = ?e \<and> a = ?a"
    using assms(1,2) writeEnvelope_cases [of "av_write v" "writeBody (bootstrap_body v c)" "Sign (av_crypto v) (writeBody (bootstrap_body v c)) sk" e]
    by (auto simp: Engine_Set_def i sealAndWrite_def SaltBytes_def EncodeSalt_def k Let_def sealed_text_def)
  moreover have "sealed (av_crypto v) e (bootstrap_body v c) ?e" unfolding sealed_def
    by (intro conjI exI [of _ sk] impI) (use key' assms(2) in simp_all)
  ultimately show ?thesis by simp
qed

lemma CommitRotation_cases:
  assumes "CommitRotation cr nextPass a params = Inr fam"
  shows "rf_Public fam = cr_public cr (rf_Private fam)" "VerifyKeyNextBytes a = Inr (Some (rf_Public fam))"
  using assms by (auto simp: CommitRotation_def DeriveSealKey_def split: sum.splits option.splits if_splits)

lemma commit_sealed:
  assumes "ChangeAdminPassphrase v pass nextPass False True e = (Inr a, e')" "signature_scheme (av_crypto v)"
  shows "\<exists>l. load v e = Inr l \<and> ae_anchorFound e \<and>
    sealed (av_crypto v) e ((lr_policy l)\<lparr>po_Nonce := po_Nonce (lr_policy l) + 1, po_UpdatedAt := av_now v\<rparr>) e' \<and>
    a = ae_anchor e' \<and> an_NonceWatermark (ae_anchor e') = max (an_NonceWatermark (ae_anchor e)) (po_Nonce (lr_policy l) + 1)"
proof -
  have f: "ae_anchorFound e" and c: "commit_rotation v nextPass e = (Inr a, e')"
    using assms(1) by (auto simp: ChangeAdminPassphrase_def split: if_splits sum.splits)
  obtain fam l where fam: "CommitRotation (av_crypto v) nextPass (ae_anchor e) (an_Scrypt (ae_anchor e)) = Inr fam"
    and l: "loadPolicy (av_crypto v) (ae_file e) (ae_anchor e) True = Inr l"
    using c by (auto simp: commit_rotation_def split: sum.splits)
  let ?body = "(lr_policy l)\<lparr>po_Nonce := po_Nonce (lr_policy l) + 1, po_UpdatedAt := av_now v\<rparr>"
  have lv: "load v e = Inr l" using l f by (simp add: load_def)
  have k: "rf_Public fam = cr_public (av_crypto v) (rf_Private fam)" "VerifyKeyNextBytes (ae_anchor e) = Inr (Some (rf_Public fam))"
    by (rule CommitRotation_cases [OF fam])+
  have p: "pins (ae_anchor e) (rf_Public fam)" using k by (simp add: pins_def)
  have p': "pins (a0\<lparr>an_VerifyKey := EncodeKey (rf_Public fam), an_VerifyKeyNext := [], an_Salt := s, an_StagedSalt := []\<rparr>) (rf_Public fam)" for a0 s
    using assms(2) k(1) by (simp add: pins_def VerifyKeyBytes_def decode_EncodeKey signature_scheme_def)
  let ?a = "bump (po_Nonce ?body) ((ae_anchor e)\<lparr>an_VerifyKey := EncodeKey (rf_Public fam), an_VerifyKeyNext := [],
    an_Salt := EncodeSalt (rf_Salt fam), an_StagedSalt := []\<rparr>)"
  let ?e = "e\<lparr>ae_file := Some (sealed_text (av_crypto v) (rf_Private fam) ?body), ae_anchor := ?a\<rparr>"
  have "e' = ?e \<and> a = ?a"
    using c writeEnvelope_cases [of "av_write v" "writeBody ?body" "Sign (av_crypto v) (writeBody ?body) (rf_Private fam)" e]
    by (auto simp: commit_rotation_def fam l Let_def sealed_text_def)
  moreover have "sealed (av_crypto v) e ?body ?e" unfolding sealed_def
    by (intro conjI exI [of _ "rf_Private fam"] impI) (use p p' f k(1) in simp_all)
  ultimately show ?thesis using lv f by (simp add: bump_watermark)
qed

lemma reset_sealed:
  assumes "ResetForce v pass self wb e = (Inr a, e')"
  shows "ae_anchorFound e \<and> sealed (av_crypto v) e (reset_body v self wb (ae_anchor e)) e' \<and> a = ae_anchor e' \<and>
    ae_anchor e' = (ae_anchor e)\<lparr>an_NonceWatermark := an_NonceWatermark (ae_anchor e) + 1\<rparr>"
proof -
  let ?body = "reset_body v self wb (ae_anchor e)"
  obtain sk pk where k: "ae_anchorFound e" "authenticate (av_crypto v) e pass = Inr (sk, pk)"
    using assms by (auto simp: ResetForce_def split: if_splits sum.splits)
  have p: "pins (ae_anchor e) (cr_public (av_crypto v) sk)" using authenticate_pins [OF k(2)] by auto
  have p': "pins ((ae_anchor e)\<lparr>an_NonceWatermark := n\<rparr>) = pins (ae_anchor e)" for n by (rule pins_cong) simp_all
  let ?a = "(ae_anchor e)\<lparr>an_NonceWatermark := po_Nonce ?body\<rparr>"
  let ?e = "e\<lparr>ae_file := Some (sealed_text (av_crypto v) sk ?body), ae_anchor := ?a\<rparr>"
  have "e' = ?e \<and> a = ?a"
    using assms k writeEnvelope_cases [of "av_write v" "writeBody ?body" "Sign (av_crypto v) (writeBody ?body) sk" e]
    by (auto simp: ResetForce_def Let_def sealed_text_def)
  moreover have "sealed (av_crypto v) e ?body ?e" unfolding sealed_def
    by (intro conjI exI [of _ sk] impI) (use p p' k in simp_all)
  ultimately show ?thesis using k(1) by (simp add: reset_body_def)
qed

text \<open>Every command that is not a stage either fails and changes nothing or seals the body it is to seal.\<close>

definition stages :: "admin_cmd \<Rightarrow> bool" where
  "stages cmd \<longleftrightarrow> (\<exists>next. cmd = CmdStage next)"

lemma mutate_fails: "mutate v pass w r f e = (Inl err, e') \<Longrightarrow> e' = e"
  using mutate_cases [of v pass w r f e] by auto

lemma mutate_seals:
  assumes "mutate v pass w r f e = (Inr a, e')"
  shows "\<exists>l. load v e = Inr l \<and> ae_anchorFound e \<and> sealed (av_crypto v) e (mutated f w r (av_now v) (ae_anchor e) (lr_policy l)) e' \<and>
    a = ae_anchor e' \<and> an_NonceWatermark a = max (an_NonceWatermark (ae_anchor e)) (po_Nonce (mutated f w r (av_now v) (ae_anchor e) (lr_policy l)))"
  using mutate_sealed [OF assms] by (auto simp: bump_watermark)

definition seals :: "aenv \<Rightarrow> address list option \<Rightarrow> string \<Rightarrow> admin_cmd \<Rightarrow> aengine \<Rightarrow> Anchor \<Rightarrow> aengine \<Rightarrow> Policy \<Rightarrow> bool" where
  "seals v self wb cmd e a e' p \<longleftrightarrow> sealed (av_crypto v) e (intended v self wb cmd e p) e' \<and> a = ae_anchor e' \<and>
    (if ae_anchorFound e \<and> cmd \<noteq> CmdReset
     then (\<exists>l. load v e = Inr l \<and> p = lr_policy l) \<and> an_NonceWatermark a = max (an_NonceWatermark (ae_anchor e)) (po_Nonce (intended v self wb cmd e p))
     else p = defaultPolicy wb \<and> an_NonceWatermark a = po_Nonce (intended v self wb cmd e p))"

lemma sealsI:
  "load v e = Inr l \<and> ae_anchorFound e \<and> sealed (av_crypto v) e body e' \<and> a = ae_anchor e' \<and> an_NonceWatermark a = max (an_NonceWatermark (ae_anchor e)) (po_Nonce body) \<Longrightarrow>
   body = intended v self wb cmd e (lr_policy l) \<Longrightarrow> cmd \<noteq> CmdReset \<Longrightarrow> seals v self wb cmd e a e' (lr_policy l)"
  by (auto simp: seals_def)

lemma cmd_seals:
  assumes "run_cmd hx v pass self wb cmd e = (Inr a, e')" "\<not> stages cmd" "signature_scheme (av_crypto v)"
  shows "\<exists>p. seals v self wb cmd e a e' p"
proof (cases cmd)
  case (CmdSet c)
  show ?thesis
  proof (cases "ae_anchorFound e")
    case True
    hence "mutate v pass (ch_WrittenBy c) (ch_RefreshSelf c) (\<lambda>p. applyChange p c) e = (Inr a, e')"
      using assms(1) CmdSet by (simp add: Engine_Set_def)
    from mutate_seals [OF this] show ?thesis
      by (elim exE) (rule exI, erule sealsI, simp_all add: CmdSet True)
  next
    case False
    have "Engine_Set v pass c e = (Inr a, e')" using assms(1) CmdSet by simp
    from Set_bootstrap [OF this False assms(3)] have "seals v self wb (CmdSet c) e a e' (defaultPolicy wb)" using False by (auto simp: seals_def bootstrap_body_def)
    thus ?thesis using CmdSet by blast
  qed
next
  case (CmdAllow pin rm)
  hence "Engine_Allow v pass pin rm self wb e = (Inr a, e')" using assms(1) by simp
  from mutate_seals [OF this [unfolded Engine_Allow_def]] show ?thesis
    by (elim exE) (rule exI, erule sealsI, simp_all add: CmdAllow)
next
  case (CmdDeny pin rm)
  hence "Engine_Deny v pass pin rm self wb e = (Inr a, e')" using assms(1) by simp
  from mutate_seals [OF this [unfolded Engine_Deny_def]] show ?thesis
    by (elim exE) (rule exI, erule sealsI, simp_all add: CmdDeny)
next
  case (CmdTyped t rm)
  hence "Engine_TypedAllow hx v pass t rm self wb e = (Inr a, e')" using assms(1) by simp
  hence "mutate v pass wb self (\<lambda>p. p\<lparr>po_TypedData := (po_TypedData p)\<lparr>td_Allowed := (if rm then removeTypedAllow (td_Allowed (po_TypedData p)) (normal_typed t)
      else upsertTypedAllow (td_Allowed (po_TypedData p)) (normal_typed t))\<rparr>\<rparr>) e = (Inr a, e')"
    unfolding Engine_TypedAllow_def by (cases "if rm then Inr () else validateTypedAllow hx t") simp_all
  from mutate_seals [OF this] show ?thesis
    by (elim exE) (rule exI, erule sealsI, simp_all add: CmdTyped)
next
  case (CmdContract c rm)
  hence "Engine_ContractAllow hx v pass c rm self wb e = (Inr a, e')" using assms(1) by simp
  hence "mutate v pass wb self (\<lambda>p. p\<lparr>po_ContractsAllowed := (if rm then removeContractAllow (po_ContractsAllowed p) (normal_contract c)
      else upsertContractAllow (po_ContractsAllowed p) ((normal_contract c)\<lparr>ca_AddedAt := av_now v\<rparr>))\<rparr>) e = (Inr a, e')"
    unfolding Engine_ContractAllow_def by (cases "if rm then Inr () else validateContractAllow hx c") simp_all
  from mutate_seals [OF this] show ?thesis
    by (elim exE) (rule exI, erule sealsI, simp_all add: CmdContract)
next
  case (CmdStage n)
  thus ?thesis using assms(2) by (simp add: stages_def)
next
  case (CmdCommit n)
  hence c: "ChangeAdminPassphrase v pass n False True e = (Inr a, e')" using assms(1) by simp
  from commit_sealed [OF this assms(3)] obtain l where l: "load v e = Inr l" "ae_anchorFound e"
    "sealed (av_crypto v) e ((lr_policy l)\<lparr>po_Nonce := po_Nonce (lr_policy l) + 1, po_UpdatedAt := av_now v\<rparr>) e'"
    "a = ae_anchor e'" "an_NonceWatermark (ae_anchor e') = max (an_NonceWatermark (ae_anchor e)) (po_Nonce (lr_policy l) + 1)" by blast
  thus ?thesis by (intro exI [of _ "lr_policy l"]) (simp add: seals_def CmdCommit)
next
  case CmdReset
  hence "ResetForce v pass self wb e = (Inr a, e')" using assms(1) by simp
  from reset_sealed [OF this] show ?thesis
    by (intro exI [of _ "defaultPolicy wb"]) (auto simp: seals_def CmdReset reset_body_def)
qed

end
