(* ===== verification/Policy_Broken.thy ===== *)
theory Policy_Broken
  imports Policy_Sealing
begin

text \<open>
  The overrides the writer cannot render: a network rule without a field is written with a comma and nothing after it, so
  that the sealed body is not JSON.
\<close>

section \<open>Fuel\<close>

definition keeps :: "nat \<Rightarrow> bool" where
  "keeps n \<longleftrightarrow> (\<forall>s x. pval n s = Some x \<longrightarrow> pval (Suc n) s = Some x) \<and> (\<forall>s x. pelems n s = Some x \<longrightarrow> pelems (Suc n) s = Some x)
     \<and> (\<forall>s x. pmembers n s = Some x \<longrightarrow> pmembers (Suc n) s = Some x)"

lemma keepsD:
  "keeps n \<Longrightarrow> pval n s = Some x \<Longrightarrow> pval (Suc n) s = Some x"
  "keeps n \<Longrightarrow> pelems n s = Some y \<Longrightarrow> pelems (Suc n) s = Some y"
  "keeps n \<Longrightarrow> pmembers n s = Some z \<Longrightarrow> pmembers (Suc n) s = Some z"
  unfolding keeps_def by blast+

lemma fuel_pval: "keeps n \<Longrightarrow> pval (Suc n) s = Some x \<Longrightarrow> pval (Suc (Suc n)) s = Some x"
proof -
  assume k: "keeps n" and p: "pval (Suc n) s = Some x"
  obtain c r where c: "skip_ws s = c # r" using p by (auto split: list.splits)
  note eqs = pval.simps(2) [of n s, unfolded c list.case] pval.simps(2) [of "Suc n" s, unfolded c list.case]
  consider "c = CHR ''{''" | "c = CHR ''[''" | "c \<noteq> CHR ''{''" "c \<noteq> CHR ''[''" by blast
  thus ?thesis
  proof cases
    case 1
    obtain d r1 where d: "skip_ws r = d # r1" using p 1 c by (auto split: list.splits)
    show ?thesis
    proof (cases "d = CHR ''}''")
      case False
      have "map_option (\<lambda>(ms, t). (JsObj ms, t)) (pmembers n (d # r1)) = Some x" using p False unfolding eqs d list.case by (simp add: 1 del: pmembers.simps)
      then obtain z where z: "pmembers n (d # r1) = Some z" "(\<lambda>(ms, t). (JsObj ms, t)) z = x" by blast
      from keepsD(3) [OF k z(1)] z(2) show ?thesis using False unfolding eqs d list.case by (simp add: 1 del: pmembers.simps)
    qed (use p in \<open>simp add: eqs 1 d del: pval.simps\<close>)
  next
    case 2
    obtain d r1 where d: "skip_ws r = d # r1" using p 2 c by (auto split: list.splits)
    show ?thesis
    proof (cases "d = CHR '']''")
      case False
      have "map_option (\<lambda>(vs, t). (JsArr vs, t)) (pelems n (d # r1)) = Some x" using p False unfolding eqs d list.case by (simp add: 2 del: pelems.simps)
      then obtain z where z: "pelems n (d # r1) = Some z" "(\<lambda>(vs, t). (JsArr vs, t)) z = x" by blast
      from keepsD(2) [OF k z(1)] z(2) show ?thesis using False unfolding eqs d list.case by (simp add: 2 del: pelems.simps)
    qed (use p in \<open>simp add: eqs 2 d del: pval.simps\<close>)
  next
    case 3
    thus ?thesis using p unfolding eqs by simp
  qed
qed

lemma fuel_pelems: "keeps n \<Longrightarrow> pelems (Suc n) s = Some x \<Longrightarrow> pelems (Suc (Suc n)) s = Some x"
proof -
  assume k: "keeps n" and p: "pelems (Suc n) s = Some x"
  obtain v t where v: "pval n s = Some (v, t)" using p by (auto split: option.splits)
  have v': "pval (Suc n) s = Some (v, t)" by (rule keepsD(1) [OF k v])
  show ?thesis using p unfolding pelems.simps(2) [of n s] pelems.simps(2) [of "Suc n" s] v v' option.case prod.case
    by (auto split: list.splits if_splits dest: keepsD(2) [OF k] simp del: pval.simps pelems.simps pmembers.simps)
qed

lemma fuel_pmembers: "keeps n \<Longrightarrow> pmembers (Suc n) s = Some x \<Longrightarrow> pmembers (Suc (Suc n)) s = Some x"
proof -
  assume k: "keeps n" and p: "pmembers (Suc n) s = Some x"
  obtain s1 where s1: "skip_ws s = CHR 0x22 # s1" using p by (auto split: list.splits if_splits)
  obtain key s2 where s2: "pstr s1 = Some (key, s2)" using p s1 by (auto split: option.splits)
  obtain s3 where s3: "skip_ws s2 = CHR '':'' # s3" using p s1 s2 by (auto split: list.splits if_splits)
  obtain v t where v: "pval n s3 = Some (v, t)" using p s1 s2 s3 by (auto split: option.splits)
  have v': "pval (Suc n) s3 = Some (v, t)" by (rule keepsD(1) [OF k v])
  show ?thesis using p unfolding pmembers.simps(2) [of n s] pmembers.simps(2) [of "Suc n" s] s1 list.case s2 option.case prod.case s3 v v'
    by (auto split: list.splits if_splits dest: keepsD(3) [OF k] simp del: pval.simps pelems.simps pmembers.simps)
qed

lemma keeps: "keeps n"
proof (induction n)
  case 0
  show ?case by (simp add: keeps_def)
next
  case (Suc n)
  show ?case unfolding keeps_def using fuel_pval [OF Suc] fuel_pelems [OF Suc] fuel_pmembers [OF Suc] by blast
qed

lemma pval_mono: "pval n s = Some x \<Longrightarrow> pval (n + k) s = Some x"
  by (induction k) (simp_all add: keepsD(1) [OF keeps] del: pval.simps)

lemma pelems_mono: "pelems n s = Some x \<Longrightarrow> pelems (n + k) s = Some x"
  by (induction k) (simp_all add: keepsD(2) [OF keeps] del: pelems.simps)

lemma pmembers_mono: "pmembers n s = Some x \<Longrightarrow> pmembers (n + k) s = Some x"
  by (induction k) (simp_all add: keepsD(3) [OF keeps] del: pmembers.simps)

text \<open>A written value is read as itself or, short of fuel, not at all.\<close>

lemma pval_written: "written v \<Longrightarrow> delim r \<Longrightarrow> pval n (show_json v @ r) = None \<or> pval n (show_json v @ r) = Some (v, r)"
proof (cases "pval n (show_json v @ r)")
  case (Some x)
  assume w: "written v" "delim r"
  have "pval (n + length (show_json v)) (show_json v @ r) = Some (v, r)" by (rule readsD [OF written_reads [OF w(1)] w(2)]) simp
  with pval_mono [OF Some] show ?thesis using Some by (simp del: pval.simps)
qed simp

section \<open>The body that is not JSON\<close>

lemma member_None:
  assumes "written v" "\<And>m. pmembers m rest = None"
  shows "pmembers n (jsonString k @ CHR '':'' # show_json v @ CHR '','' # rest) = None"
proof (cases n)
  case (Suc m)
  have "pval m (show_json v @ CHR '','' # rest) = None \<or> pval m (show_json v @ CHR '','' # rest) = Some (v, CHR '','' # rest)"
    by (rule pval_written [OF assms(1)]) (simp add: delim_def)
  thus ?thesis using assms(2) by (auto simp: Suc jsonString_def pstr_jsonString is_ws_def)
qed simp

lemma last_member_None:
  assumes "\<And>m. pval m s = None"
  shows "pmembers n (jsonString k @ CHR '':'' # s) = None"
  using assms by (cases n) (simp_all add: jsonString_def pstr_jsonString is_ws_def)

lemma no_member: "pmembers n (CHR ''}'' # r) = None"
  by (cases n) (simp_all add: is_ws_def)

lemma object_None:
  assumes "\<And>m. pmembers m (CHR 0x22 # r) = None"
  shows "pval n (CHR ''{'' # CHR 0x22 # r) = None"
  using assms by (cases n) (simp_all add: is_ws_def)

lemma broken_network: "\<not> has_field m \<Longrightarrow> pval n (writeNetwork m @ r) = None"
proof -
  assume "\<not> has_field m"
  hence w: "writeNetwork m @ r = CHR ''{'' # jsonString ''network'' @ CHR '':'' # show_json (JsText (nr_Network m)) @ CHR '','' # CHR ''}'' # r"
    by (simp add: has_field_def writeNetwork_def writeLimitsInline_def pairs_def)
  have "pmembers k (jsonString ''network'' @ CHR '':'' # show_json (JsText (nr_Network m)) @ CHR '','' # CHR ''}'' # r) = None" for k
    by (rule member_None) (simp_all add: no_member)
  thus ?thesis unfolding w jsonString_hd append_Cons by (rule object_None)
qed

lemma written_network: "written (json_network n)"
  by (auto simp: json_network_def dest: written_limits)

lemma joined_Cons: "ss \<noteq> [] \<Longrightarrow> joined (s # ss) = s @ CHR '','' # joined ss"
  by (cases ss) auto

lemma broken_networks: "\<exists>m \<in> set ns. \<not> has_field m \<Longrightarrow> pelems n (joined (map writeNetwork ns) @ r) = None"
proof (induction ns arbitrary: n)
  case (Cons m ms)
  show ?case
  proof (cases "has_field m")
    case False
    obtain t where "joined (map writeNetwork (m # ms)) = writeNetwork m @ t" by (cases ms) auto
    thus ?thesis using broken_network [OF False] by (cases n) simp_all
  next
    case True
    hence ms: "\<exists>m \<in> set ms. \<not> has_field m" "ms \<noteq> []" using Cons.prems by auto
    have j: "joined (map writeNetwork (m # ms)) @ r = show_json (json_network m) @ CHR '','' # joined (map writeNetwork ms) @ r"
      using ms(2) by (simp add: joined_Cons network_text [OF True])
    have v: "pval k (show_json (json_network m) @ CHR '','' # joined (map writeNetwork ms) @ r) = None \<or>
        pval k (show_json (json_network m) @ CHR '','' # joined (map writeNetwork ms) @ r) = Some (json_network m, CHR '','' # joined (map writeNetwork ms) @ r)" for k
      by (rule pval_written [OF written_network]) (simp add: delim_def)
    have "pelems (Suc k) (show_json (json_network m) @ CHR '','' # joined (map writeNetwork ms) @ r) = None" for k
      using v [of k] Cons.IH [OF ms(1), of k] by (auto simp: is_ws_def)
    thus ?thesis unfolding j by (cases n) simp_all
  qed
qed simp

lemma broken_array: "\<exists>m \<in> set ns. \<not> has_field m \<Longrightarrow> pval n (writeArray (map writeNetwork ns) @ r) = None"
proof -
  assume b: "\<exists>m \<in> set ns. \<not> has_field m"
  then obtain u where u: "joined (map writeNetwork ns) = CHR ''{'' # u"
    by (cases ns; cases "tl ns") (auto simp: writeNetwork_def)
  show ?thesis using broken_networks [OF b, of _ "CHR '']'' # r"] u by (cases n) (simp_all add: writeArray_def is_ws_def)
qed

lemma broken_rules: "\<exists>m \<in> set (ru_Networks ru). \<not> has_field m \<Longrightarrow> pval n (writeRules ru @ r) = None"
proof -
  assume b: "\<exists>m \<in> set (ru_Networks ru). \<not> has_field m"
  have d: "writeLimits l False = show_json (JsObj (json_limits l False))" for l
    by (simp add: writeLimits_def writeLimitsInline_def limits_text)
  have t: "writeRules ru @ r = CHR ''{'' # jsonString ''default'' @ CHR '':'' # show_json (JsObj (json_limits (ru_Default ru) False)) @ CHR '','' #
      jsonString ''networks'' @ CHR '':'' # writeArray (map writeNetwork (ru_Networks ru)) @ CHR ''}'' # r"
    unfolding writeRules_def d by simp
  have w: "written (JsObj (json_limits (ru_Default ru) False))" by (auto dest: written_limits)
  have "pmembers k (jsonString ''default'' @ CHR '':'' # show_json (JsObj (json_limits (ru_Default ru) False)) @ CHR '','' #
      jsonString ''networks'' @ CHR '':'' # writeArray (map writeNetwork (ru_Networks ru)) @ CHR ''}'' # r) = None" for k
    by (intro member_None [OF w] last_member_None broken_array [OF b])
  thus ?thesis unfolding t jsonString_hd append_Cons by (rule object_None)
qed

lemma broken_body:
  assumes "\<exists>m \<in> set (ru_Networks (po_Rules p)). \<not> has_field m"
  shows "pval n (writeBody p) = None"
proof -
  have v: "itoaInt i = show_json (JsNum (int_dec i))" "utoa w = show_json (JsNum (nat_dec (unat w)))" "jsonString s = show_json (JsText s)"
    "js_bool b = show_json (JsBool b)" for i w s b by (simp_all add: itoaInt_def utoa_def js_bool_def)
  have p: "pairs ((k, x) # y # kvs) = jsonString k @ CHR '':'' # x @ CHR '','' # pairs (y # kvs)" for k x y kvs by (simp add: pairs_Cons)
  obtain r where r: "writeBody p = CHR ''{'' # jsonString ''version'' @ CHR '':'' # itoaInt (po_Version p) @ CHR '','' #
    jsonString ''nonce'' @ CHR '':'' # utoa (po_Nonce p) @ CHR '','' # jsonString ''updated_at'' @ CHR '':'' # jsonString (po_UpdatedAt p) @ CHR '','' #
    jsonString ''written_by'' @ CHR '':'' # jsonString (po_WrittenBy p) @ CHR '','' # jsonString ''messages'' @ CHR '':'' # jsonString (po_Messages p) @ CHR '','' #
    jsonString ''tokens_no_allowlist_ok'' @ CHR '':'' # js_bool (po_TokensNoAllowlistOK p) @ CHR '','' #
    jsonString ''rules'' @ CHR '':'' # writeRules (po_Rules p) @ r"
    unfolding writeBody_def p by simp
  have "pmembers m (jsonString ''version'' @ CHR '':'' # show_json (JsNum (int_dec (po_Version p))) @ CHR '','' #
    jsonString ''nonce'' @ CHR '':'' # show_json (JsNum (nat_dec (unat (po_Nonce p)))) @ CHR '','' #
    jsonString ''updated_at'' @ CHR '':'' # show_json (JsText (po_UpdatedAt p)) @ CHR '','' #
    jsonString ''written_by'' @ CHR '':'' # show_json (JsText (po_WrittenBy p)) @ CHR '','' #
    jsonString ''messages'' @ CHR '':'' # show_json (JsText (po_Messages p)) @ CHR '','' #
    jsonString ''tokens_no_allowlist_ok'' @ CHR '':'' # show_json (JsBool (po_TokensNoAllowlistOK p)) @ CHR '','' #
    jsonString ''rules'' @ CHR '':'' # writeRules (po_Rules p) @ r) = None" for m
    by (intro member_None last_member_None broken_rules [OF assms]) (auto simp: written_nat)
  hence "pmembers m (jsonString ''version'' @ CHR '':'' # itoaInt (po_Version p) @ CHR '','' #
    jsonString ''nonce'' @ CHR '':'' # utoa (po_Nonce p) @ CHR '','' # jsonString ''updated_at'' @ CHR '':'' # jsonString (po_UpdatedAt p) @ CHR '','' #
    jsonString ''written_by'' @ CHR '':'' # jsonString (po_WrittenBy p) @ CHR '','' # jsonString ''messages'' @ CHR '':'' # jsonString (po_Messages p) @ CHR '','' #
    jsonString ''tokens_no_allowlist_ok'' @ CHR '':'' # js_bool (po_TokensNoAllowlistOK p) @ CHR '','' #
    jsonString ''rules'' @ CHR '':'' # writeRules (po_Rules p) @ r) = None" for m
    by (simp add: itoaInt_def utoa_def js_bool_def del: pmembers.simps)
  thus ?thesis unfolding r jsonString_hd [of "''version''"] append_Cons by (rule object_None)
qed

lemma broken_load:
  assumes "signature_scheme cr" "pins a (cr_public cr sk)" "\<exists>m \<in> set (ru_Networks (po_Rules p)). \<not> has_field m"
  shows "loadPolicy cr (Some (sealed_text cr sk p)) a True = Inl (seal_err ''unparseable'' ''config'')"
  unfolding load_sealed_raw [OF assms(1,2)] check_body_def read_head_def parse_json_def broken_body [OF assms(3)] by simp

end
