(* ===== verification/Policy_Intent.thy ===== *)
theory Policy_Intent
  imports Policy_Sealing Policy_Evaluate
begin

text \<open>
  What the administrative commands of \<open>internal/policy/admin.go\<close>, \<open>typed_admin.go\<close> and \<open>contract_admin.go\<close> ask for, stated
  without the functions that change a body: what each network's rule says afterwards, which entry stands in the place of which,
  and what every change stamps on the body.
\<close>

section \<open>The request\<close>

text \<open>What a network is told about one field: the field of the first rule that names it.\<close>

definition net_says :: "(Limits \<Rightarrow> 'a) \<Rightarrow> 'a \<Rightarrow> NetworkRule list \<Rightarrow> string \<Rightarrow> 'a" where
  "net_says f silent ns net = (case find (\<lambda>n. EqualFold (nr_Network n) net) ns of None \<Rightarrow> silent | Some n \<Rightarrow> f (nr_Limits n))"

text \<open>The last thing said, or what held before.\<close>

definition last_said :: "'a \<Rightarrow> 'a \<Rightarrow> 'a list \<Rightarrow> 'a" where
  "last_said silent old said = last (old # filter (\<lambda>x. x \<noteq> silent) said)"

text \<open>One field of the limits after a change, by default and for every network.\<close>

definition field_asked :: "(Limits \<Rightarrow> 'a) \<Rightarrow> 'a \<Rightarrow> Change \<Rightarrow> Rules \<Rightarrow> Rules \<Rightarrow> bool" where
  "field_asked f silent c r r' \<longleftrightarrow>
     f (ru_Default r') = last_said silent (f (ru_Default r)) (case ch_Default c of None \<Rightarrow> [] | Some l \<Rightarrow> [f l])
   \<and> (\<forall>net. net_says f silent (ru_Networks r') net = last_said silent (net_says f silent (ru_Networks r) net)
        (map (\<lambda>n. f (nr_Limits n)) (filter (\<lambda>n. EqualFold (nr_Network n) net) (ch_Networks c))))"

abbreviation "token_rule ts net addr \<equiv> find (\<lambda>t. EqualFold (tr_Network t) net \<and> EqualFold (tr_Address t) addr) ts"

definition tokens_asked :: "Change \<Rightarrow> TokenRule list \<Rightarrow> TokenRule list \<Rightarrow> bool" where
  "tokens_asked c ts ts' \<longleftrightarrow> (\<forall>net addr. token_rule ts' net addr =
     last_said None (token_rule ts net addr) (map Some (filter (\<lambda>t. EqualFold (tr_Network t) net \<and> EqualFold (tr_Address t) addr) (ch_Tokens c))))"

definition rules_asked :: "Change \<Rightarrow> Rules \<Rightarrow> Rules \<Rightarrow> bool" where
  "rules_asked c r r' \<longleftrightarrow> (\<forall>f \<in> {MaxTxWei, MaxDayWei, MaxGasPriceWei}. field_asked f Absent c r r')
     \<and> (\<forall>f \<in> {AllowlistEnabled, IncludeSelf}. field_asked f None c r r') \<and> field_asked TypedDataUnknown None c r r'"

text \<open>An entry takes the place of the first one that is the same, else goes to the end.\<close>

definition placed :: "('a \<Rightarrow> bool) \<Rightarrow> ('a \<Rightarrow> 'a) \<Rightarrow> 'a \<Rightarrow> 'a list \<Rightarrow> 'a list \<Rightarrow> bool" where
  "placed same change x old new \<longleftrightarrow>
     (\<exists>before y after. old = before @ y # after \<and> same y \<and> (\<forall>z \<in> set before. \<not> same z) \<and> new = before @ change y # after)
   \<or> ((\<forall>z \<in> set old. \<not> same z) \<and> new = old @ [x])"

text \<open>The same entry: a pin by source and address or name, a typed triple, a contract triple; case does not count.\<close>

definition the_pin :: "PinEntry \<Rightarrow> PinEntry \<Rightarrow> bool" where
  "the_pin e p \<longleftrightarrow> EqualFold (pin_Source p) (pin_Source e) \<and> ((pin_Address p \<noteq> [] \<and> EqualFold (pin_Address p) (pin_Address e))
     \<or> (pin_Name p \<noteq> [] \<and> EqualFold (pin_Name p) (pin_Name e)))"

definition pins_asked :: "PinEntry \<Rightarrow> bool \<Rightarrow> PinEntry list \<Rightarrow> PinEntry list \<Rightarrow> bool" where
  "pins_asked e rm ps ps' \<longleftrightarrow> (if rm then ps' = filter (\<lambda>p. \<not> the_pin e p) ps else placed (the_pin e) (\<lambda>_. e) e ps ps')"

definition the_typed :: "TypedAllow \<Rightarrow> TypedAllow \<Rightarrow> bool" where
  "the_typed t a \<longleftrightarrow> ta_ChainID a = ta_ChainID t \<and> EqualFold (ta_VerifyingContract a) (ta_VerifyingContract t) \<and> ta_PrimaryType a = ta_PrimaryType t"

definition typed_asked :: "TypedAllow \<Rightarrow> bool \<Rightarrow> TypedAllow list \<Rightarrow> TypedAllow list \<Rightarrow> bool" where
  "typed_asked t rm as as' \<longleftrightarrow> (if rm then as' = filter (\<lambda>a. \<not> the_typed t a) as
     else placed (the_typed t) (\<lambda>a. a\<lparr>ta_Label := ta_Label t\<rparr>) t as as')"

definition the_contract :: "ContractAllow \<Rightarrow> ContractAllow \<Rightarrow> bool" where
  "the_contract c a \<longleftrightarrow> EqualFold (ca_Network a) (ca_Network c) \<and> EqualFold (ca_Contract a) (ca_Contract c)
     \<and> normalizeSelector (ca_Selector a) = normalizeSelector (ca_Selector c)"

definition contracts_asked :: "ContractAllow \<Rightarrow> bool \<Rightarrow> ContractAllow list \<Rightarrow> ContractAllow list \<Rightarrow> bool" where
  "contracts_asked c rm as as' \<longleftrightarrow> (if rm then as' = filter (\<lambda>a. \<not> the_contract c a) as
     else placed (the_contract c) (\<lambda>a. a\<lparr>ca_Label := ca_Label c, ca_AddedAt := ca_AddedAt c\<rparr>) c as as')"

text \<open>What every change stamps: the next nonce above both counters, the clock, the author and, if given, the own accounts.\<close>

definition stamped_body :: "aenv \<Rightarrow> address list option \<Rightarrow> string \<Rightarrow> 64 word \<Rightarrow> Policy \<Rightarrow> Policy" where
  "stamped_body v self wb watermark p = p\<lparr>po_Nonce := max (po_Nonce p) watermark + 1, po_UpdatedAt := av_now v,
     po_WrittenBy := (if wb = [] then po_WrittenBy p else wb),
     po_SelfAddresses := (case self of None \<Rightarrow> po_SelfAddresses p | Some as \<Rightarrow> map lowerHex as)\<rparr>"

text \<open>The policy \<open>q\<close> a command asks for when \<open>p\<close> is in force: the first \<open>policy set\<close> starts from the default policy, a reset
  puts the default policy in place.\<close>

definition fresh_policy :: "string \<Rightarrow> Policy" where
  "fresh_policy wb = \<lparr>po_Version = 1, po_Nonce = 0, po_UpdatedAt = [], po_WrittenBy = wb, po_Messages = ''allow'', po_TokensNoAllowlistOK = False,
     po_Rules = \<lparr>ru_Default = \<lparr>MaxTxWei = Absent, MaxDayWei = Absent, MaxGasPriceWei = Absent, AllowlistEnabled = Some True, IncludeSelf = Some True,
       TypedDataUnknown = None\<rparr>, ru_Networks = []\<rparr>, po_Tokens = [], po_Allowlist = [], po_Denylist = [], po_SelfAddresses = [],
     po_TypedData = \<lparr>td_Unknown = ''deny'', td_Allowed = []\<rparr>, po_ContractsAllowed = []\<rparr>"

fun asked :: "aenv \<Rightarrow> address list option \<Rightarrow> string \<Rightarrow> admin_cmd \<Rightarrow> aengine \<Rightarrow> Policy \<Rightarrow> Policy \<Rightarrow> bool" where
  "asked v self wb (CmdSet c) e p q \<longleftrightarrow>
     (let old = (if ae_anchorFound e then p else fresh_policy (ch_WrittenBy c)); td = po_TypedData old in
      \<exists>r ts. rules_asked c (po_Rules old) r \<and> tokens_asked c (po_Tokens old) ts \<and>
        q = stamped_body v (ch_RefreshSelf c) (ch_WrittenBy c) (if ae_anchorFound e then an_NonceWatermark (ae_anchor e) else 0)
          (old\<lparr>po_Rules := r, po_Tokens := ts, po_Messages := (case ch_Messages c of None \<Rightarrow> po_Messages old | Some m \<Rightarrow> m),
             po_TokensNoAllowlistOK := (case ch_TokensNoAllowOK c of None \<Rightarrow> po_TokensNoAllowlistOK old | Some b \<Rightarrow> b),
             po_TypedData := td\<lparr>td_Unknown := (case ch_TypedUnknown c of None \<Rightarrow> td_Unknown td | Some u \<Rightarrow> u)\<rparr>\<rparr>))"
| "asked v self wb (CmdAllow pin rm) e p q \<longleftrightarrow>
     (\<exists>ps. pins_asked pin rm (po_Allowlist p) ps \<and> q = stamped_body v self wb (an_NonceWatermark (ae_anchor e)) (p\<lparr>po_Allowlist := ps\<rparr>))"
| "asked v self wb (CmdDeny pin rm) e p q \<longleftrightarrow>
     (\<exists>ps. pins_asked pin rm (po_Denylist p) ps \<and> q = stamped_body v self wb (an_NonceWatermark (ae_anchor e)) (p\<lparr>po_Denylist := ps\<rparr>))"
| "asked v self wb (CmdTyped t rm) e p q \<longleftrightarrow>
     (\<exists>as. typed_asked (normal_typed t) rm (td_Allowed (po_TypedData p)) as
        \<and> q = stamped_body v self wb (an_NonceWatermark (ae_anchor e)) (p\<lparr>po_TypedData := (po_TypedData p)\<lparr>td_Allowed := as\<rparr>\<rparr>))"
| "asked v self wb (CmdContract c rm) e p q \<longleftrightarrow>
     (\<exists>as. contracts_asked ((normal_contract c)\<lparr>ca_AddedAt := av_now v\<rparr>) rm (po_ContractsAllowed p) as
        \<and> q = stamped_body v self wb (an_NonceWatermark (ae_anchor e)) (p\<lparr>po_ContractsAllowed := as\<rparr>))"
| "asked v self wb (CmdStage next) e p q \<longleftrightarrow> q = p"
| "asked v self wb (CmdCommit next) e p q \<longleftrightarrow> q = p\<lparr>po_Nonce := po_Nonce p + 1, po_UpdatedAt := av_now v\<rparr>"
| "asked v self wb CmdReset e p q \<longleftrightarrow> q = (fresh_policy wb)\<lparr>po_Nonce := an_NonceWatermark (ae_anchor e) + 1, po_UpdatedAt := av_now v,
     po_SelfAddresses := (case self of None \<Rightarrow> [] | Some as \<Rightarrow> map lowerHex as)\<rparr>"

section \<open>Lemmas: the sealed body is the one asked for\<close>

lemma equalFoldStr_EqualFold: "equalFoldStr a b = EqualFold a b"
proof -
  have "map f a = map f b \<longleftrightarrow> length a = length b \<and> list_all2 (\<lambda>x y. f x = f y) a b" for f :: "char \<Rightarrow> char"
  proof (induction a arbitrary: b)
    case (Cons x a)
    thus ?case by (cases b) auto
  qed auto
  thus ?thesis by (simp add: equalFoldStr_def EqualFold_def ToLower_def)
qed

lemma last_said_Cons: "last_said silent old (x # xs) = last_said silent (if x = silent then old else x) xs"
  by (simp add: last_said_def)

lemma last_said_Nil: "last_said silent old [] = old"
  by (simp add: last_said_def)

text \<open>A field whose merge lets the newer value win.\<close>

definition merges :: "(Limits \<Rightarrow> 'a) \<Rightarrow> 'a \<Rightarrow> bool" where
  "merges f silent \<longleftrightarrow> (\<forall>d s. f (mergeLimits d s) = (if f s = silent then f d else f s))"

lemma fields_merge: "merges MaxTxWei Absent" "merges MaxDayWei Absent" "merges MaxGasPriceWei Absent"
  "merges AllowlistEnabled None" "merges IncludeSelf None" "merges TypedDataUnknown None"
  by (simp_all add: merges_def mergeLimits_def over_def over_opt_def)

lemma net_says_upsert:
  assumes "merges f silent"
  shows "net_says f silent (upsertNetwork n ns) net =
    (if EqualFold (nr_Network n) net \<and> f (nr_Limits n) \<noteq> silent then f (nr_Limits n) else net_says f silent ns net)"
proof (induction ns)
  case (Cons m ns)
  have "EqualFold (nr_Network m) (nr_Network n) \<Longrightarrow> EqualFold (nr_Network m) net = EqualFold (nr_Network n) net"
    "EqualFold (nr_Network m) net \<Longrightarrow> EqualFold (nr_Network n) net \<Longrightarrow> EqualFold (nr_Network m) (nr_Network n)" by (simp_all add: EqualFold_def)
  thus ?case using Cons.IH assms by (auto simp: net_says_def equalFoldStr_EqualFold merges_def)
qed (simp add: net_says_def)

lemma net_says_fold:
  assumes "merges f silent"
  shows "net_says f silent (fold upsertNetwork cs ns) net =
    last_said silent (net_says f silent ns net) (map (\<lambda>n. f (nr_Limits n)) (filter (\<lambda>n. EqualFold (nr_Network n) net) cs))"
  by (induction cs arbitrary: ns) (auto simp: last_said_Nil last_said_Cons net_says_upsert [OF assms])

lemma field_set:
  assumes "merges f silent"
  shows "field_asked f silent c (po_Rules p) (po_Rules (applyChange p c))"
  using assms unfolding field_asked_def
  by (auto simp: applyChange_def Let_def net_says_fold [OF assms] last_said_Cons last_said_Nil merges_def split: option.split)

lemma token_upsert:
  "token_rule (upsertToken t ts) net addr = (if EqualFold (tr_Network t) net \<and> EqualFold (tr_Address t) addr then Some t else token_rule ts net addr)"
proof (induction ts)
  case (Cons u ts)
  have "EqualFold (tr_Network u) (tr_Network t) \<Longrightarrow> EqualFold (tr_Address u) (tr_Address t) \<Longrightarrow>
      (EqualFold (tr_Network u) net \<and> EqualFold (tr_Address u) addr) = (EqualFold (tr_Network t) net \<and> EqualFold (tr_Address t) addr)"
    "EqualFold (tr_Network u) net \<Longrightarrow> EqualFold (tr_Network t) net \<Longrightarrow> EqualFold (tr_Network u) (tr_Network t)"
    "EqualFold (tr_Address u) addr \<Longrightarrow> EqualFold (tr_Address t) addr \<Longrightarrow> EqualFold (tr_Address u) (tr_Address t)"
    by (simp_all add: EqualFold_def)
  thus ?case using Cons.IH by (auto simp: equalFoldStr_EqualFold)
qed simp

lemma tokens_set: "tokens_asked c ts (fold upsertToken (ch_Tokens c) ts)"
proof -
  have "token_rule (fold upsertToken cs ts) net addr =
      last_said None (token_rule ts net addr) (map Some (filter (\<lambda>t. EqualFold (tr_Network t) net \<and> EqualFold (tr_Address t) addr) cs))" for cs net addr
    by (induction cs arbitrary: ts) (auto simp: last_said_Nil last_said_Cons token_upsert)
  thus ?thesis by (simp add: tokens_asked_def)
qed

lemma rules_set: "rules_asked c (po_Rules p) (po_Rules (applyChange p c))"
  by (auto simp: rules_asked_def intro!: field_set fields_merge)

lemma placed_Nil: "placed same g x [] [x]"
  by (simp add: placed_def)

lemma placed_here: "same y \<Longrightarrow> placed same g x (y # ys) (g y # ys)"
  unfolding placed_def by (intro disjI1 exI [of _ "[]"] exI [of _ y] exI [of _ ys]) simp

lemma placed_later: "\<not> same y \<Longrightarrow> placed same g x ys zs \<Longrightarrow> placed same g x (y # ys) (y # zs)"
  unfolding placed_def by (elim disjE exE conjE) (rule disjI1, metis append_Cons set_ConsD, simp)

lemma upsert_placed:
  assumes "up [] = [x]" "\<And>a as. up (a # as) = (if same a then g a # as else a # up as)"
  shows "placed same g x as (up as)"
  by (induction as) (simp_all add: assms placed_Nil placed_here placed_later)

lemma the_pin_same: "the_pin e p \<longleftrightarrow> samePin p e"
  by (auto simp: the_pin_def samePin_def equalFoldStr_EqualFold)

lemma removePin_filter: "removePin ps e = filter (\<lambda>p. \<not> the_pin e p) ps"
proof -
  have "(samePin p e \<or> (pin_Name e \<noteq> [] \<and> equalFoldStr (pin_Name p) (pin_Name e) \<and> equalFoldStr (pin_Source p) (pin_Source e))) = the_pin e p" for p
    by (cases "pin_Name p = []") (auto simp: the_pin_def samePin_def equalFoldStr_EqualFold EqualFold_def dest: sym)
  thus ?thesis by (simp add: removePin_def)
qed

lemma upsertPin_placed: "placed (the_pin e) (\<lambda>_. e) e ps (upsertPin ps e)"
  by (rule upsert_placed [of "\<lambda>ps. upsertPin ps e"]) (simp_all add: the_pin_same)

lemma pins_set: "pins_asked e rm ps (if rm then removePin ps e else upsertPin ps e)"
  by (simp add: pins_asked_def removePin_filter upsertPin_placed)

lemma typed_set: "typed_asked t rm as (if rm then removeTypedAllow as t else upsertTypedAllow as t)"
proof -
  have s: "the_typed t a \<longleftrightarrow> sameTypedAllow a t" for a by (simp add: the_typed_def sameTypedAllow_def)
  have "placed (the_typed t) (\<lambda>a. a\<lparr>ta_Label := ta_Label t\<rparr>) t as (upsertTypedAllow as t)"
    by (rule upsert_placed [of "\<lambda>as. upsertTypedAllow as t"]) (simp_all add: s)
  thus ?thesis by (simp add: typed_asked_def removeTypedAllow_def s)
qed

lemma contracts_set: "contracts_asked c rm as (if rm then removeContractAllow as c else upsertContractAllow as c)"
proof -
  have s: "the_contract c a \<longleftrightarrow> sameContractAllow a c" for a by (simp add: the_contract_def sameContractAllow_def)
  have "placed (the_contract c) (\<lambda>a. a\<lparr>ca_Label := ca_Label c, ca_AddedAt := ca_AddedAt c\<rparr>) c as (upsertContractAllow as c)"
    by (rule upsert_placed [of "\<lambda>as. upsertContractAllow as c"]) (simp_all add: s)
  thus ?thesis by (simp add: contracts_asked_def removeContractAllow_def s)
qed

lemma fresh_default: "fresh_policy wb = defaultPolicy wb"
  by (simp add: fresh_policy_def defaultPolicy_def bodyVersion_def zero_limits_def)

lemma nextNonce_max:
  assumes "po_Nonce p \<noteq> -1"
  shows "nextNonce p a = max (po_Nonce p) (an_NonceWatermark a) + 1"
proof -
  have "po_Nonce p < -1" using assms by (simp add: word_order.not_eq_extremum)
  hence "unat (po_Nonce p) + 1 < 2 ^ 64" by (simp add: word_less_nat_alt unsigned_minus_1_eq_mask mask_eq_exp_minus_1)
  hence "unat (po_Nonce p + 1) = unat (po_Nonce p) + 1" by (simp add: unat_word_ariths)
  hence "po_Nonce p + 1 \<le> an_NonceWatermark a \<longleftrightarrow> po_Nonce p < an_NonceWatermark a" by (simp add: word_le_nat_alt word_less_nat_alt Suc_le_eq)
  thus ?thesis by (auto simp: nextNonce_def max_def)
qed

lemma stamped_mutated:
  assumes "po_Nonce (f p) \<noteq> -1"
  shows "mutated f wb self (av_now v) a p = stamped_body v self wb (an_NonceWatermark a) (f p)"
  by (simp add: mutated_def stamped_body_def Let_def nextNonce_max [OF assms] lowerAll_def split: option.split)

lemma asked_intended:
  assumes "po_Nonce p \<noteq> -1"
  shows "asked v self wb cmd e p (intended v self wb cmd e p)"
proof (cases cmd)
  case (CmdSet c)
  have ch: "applyChange old c = old\<lparr>po_Rules := po_Rules (applyChange old c), po_Tokens := fold upsertToken (ch_Tokens c) (po_Tokens old),
      po_Messages := (case ch_Messages c of None \<Rightarrow> po_Messages old | Some m \<Rightarrow> m),
      po_TokensNoAllowlistOK := (case ch_TokensNoAllowOK c of None \<Rightarrow> po_TokensNoAllowlistOK old | Some b \<Rightarrow> b),
      po_TypedData := (po_TypedData old)\<lparr>td_Unknown := (case ch_TypedUnknown c of None \<Rightarrow> td_Unknown (po_TypedData old) | Some u \<Rightarrow> u)\<rparr>\<rparr>" for old
    by (simp add: applyChange_def Let_def split: option.split)
  have n: "po_Nonce (applyChange old c) = po_Nonce old" for old by (simp add: applyChange_def Let_def)
  define old where "old = (if ae_anchorFound e then p else fresh_policy (ch_WrittenBy c))"
  have "intended v self wb cmd e p = stamped_body v (ch_RefreshSelf c) (ch_WrittenBy c) (if ae_anchorFound e then an_NonceWatermark (ae_anchor e) else 0) (applyChange old c)"
  proof (cases "ae_anchorFound e")
    case True
    thus ?thesis using assms stamped_mutated [of "\<lambda>p. applyChange p c" p] by (simp add: CmdSet n old_def)
  next
    case False
    have "po_WrittenBy (applyChange (defaultPolicy w) c) = w" "po_SelfAddresses (applyChange (defaultPolicy w) c) = []" for w
      by (simp_all add: applyChange_def Let_def defaultPolicy_def)
    thus ?thesis using False by (simp add: CmdSet old_def fresh_default bootstrap_body_def stamped_body_def n lowerAll_def split: option.split)
      (auto simp: defaultPolicy_def)
  qed
  thus ?thesis unfolding CmdSet using ch [of old] rules_set [of c old] tokens_set [of c "po_Tokens old"] unfolding asked.simps Let_def old_def [symmetric] by metis
next
  case (CmdAllow pin rm)
  thus ?thesis using assms pins_set [of pin rm "po_Allowlist p"] by (auto simp: stamped_mutated)
next
  case (CmdDeny pin rm)
  thus ?thesis using assms pins_set [of pin rm "po_Denylist p"] by (auto simp: stamped_mutated)
next
  case (CmdTyped t rm)
  thus ?thesis using assms typed_set [of "normal_typed t" rm "td_Allowed (po_TypedData p)"] by (auto simp: stamped_mutated)
next
  case (CmdContract c rm)
  have "contracts_asked ((normal_contract c)\<lparr>ca_AddedAt := av_now v\<rparr>) rm (po_ContractsAllowed p)
      (if rm then removeContractAllow (po_ContractsAllowed p) (normal_contract c) else upsertContractAllow (po_ContractsAllowed p) ((normal_contract c)\<lparr>ca_AddedAt := av_now v\<rparr>))"
    using contracts_set [of "(normal_contract c)\<lparr>ca_AddedAt := av_now v\<rparr>" rm "po_ContractsAllowed p"]
    by (simp add: removeContractAllow_def sameContractAllow_def split: if_split_asm)
  thus ?thesis using assms by (auto simp: CmdContract stamped_mutated)
qed (simp_all add: fresh_default reset_body_def lowerAll_def defaultPolicy_def)

end
