(* ===== verification/Policy_Admin_Claims.thy ===== *)
theory Policy_Admin_Claims
  imports Policy_Broken Policy_Intent
begin

text \<open>
  The properties of sealed policy administration: a change takes effect under both anchors of the two-step write, nothing
  changes without the passphrase, older files are refused, rotation, recovery, and the overrides that cannot be written.
\<close>

section \<open>Nonces\<close>

lemma word_less_suc: "(w :: 64 word) \<noteq> -1 \<Longrightarrow> w < w + 1"
proof -
  assume w: "w \<noteq> -1"
  hence "w < -1" by (simp add: word_order.not_eq_extremum)
  hence "unat w + 1 < 2 ^ 64" by (simp add: word_less_nat_alt unsigned_minus_1_eq_mask mask_eq_exp_minus_1)
  thus ?thesis by (simp add: word_less_nat_alt unat_word_ariths)
qed

lemma nextNonce_gt: "an_NonceWatermark a \<noteq> -1 \<Longrightarrow> an_NonceWatermark a < nextNonce p a"
  by (auto simp: nextNonce_def word_less_suc not_le)

lemma nextNonce_above: "an_NonceWatermark a \<le> po_Nonce p \<Longrightarrow> po_Nonce p \<noteq> -1 \<Longrightarrow> nextNonce p a = po_Nonce p + 1"
  using word_less_suc [of "po_Nonce p"] by (auto simp: nextNonce_def)

text \<open>Room to count: neither counter is at its last value.\<close>

definition countable_nonce :: "aengine \<Rightarrow> aenv \<Rightarrow> bool" where
  "countable_nonce e v \<longleftrightarrow> an_NonceWatermark (ae_anchor e) \<noteq> -1 \<and> (\<forall>l. load v e = Inr l \<longrightarrow> po_Nonce (lr_policy l) \<noteq> -1)"

lemma load_watermark: "load v e = Inr l \<Longrightarrow> ae_anchorFound e \<Longrightarrow> an_NonceWatermark (ae_anchor e) \<le> po_Nonce (lr_policy l) \<and> po_Version (lr_policy l) \<le> 1"
proof -
  assume l: "load v e = Inr l" "ae_anchorFound e"
  then obtain raw where "ae_file e = Some raw" by (cases "ae_file e") (auto simp: load_def loadPolicy_def)
  thus ?thesis using l load_authentic(3,4) by (simp add: load_def)
qed

lemma intended_version: "po_Version p \<le> 1 \<Longrightarrow> po_Version (intended v self wb cmd e p) \<le> 1"
  by (cases cmd) (simp_all add: bootstrap_body_def reset_body_def defaultPolicy_def bodyVersion_def)

text \<open>The nonce of a sealed body passes both counters of the state it replaces.\<close>

lemma intended_nonce:
  assumes "ae_anchorFound e" "\<not> stages cmd" "cmd \<noteq> CmdReset" "an_NonceWatermark (ae_anchor e) \<le> po_Nonce p" "po_Nonce p \<noteq> -1"
  shows "po_Nonce (intended v self wb cmd e p) = po_Nonce p + 1"
  using assms by (cases cmd) (simp_all add: nextNonce_above stages_def)

section \<open>A change takes effect\<close>

lemma seals_nonce:
  assumes "seals v self wb cmd e a e' p" "\<not> stages cmd" "countable_nonce e v"
  shows "an_NonceWatermark a = po_Nonce (intended v self wb cmd e p)" "po_Version p \<le> 1"
    "ae_anchorFound e \<Longrightarrow> an_NonceWatermark (ae_anchor e) < po_Nonce (intended v self wb cmd e p)"
proof -
  have "an_NonceWatermark a = po_Nonce (intended v self wb cmd e p) \<and> po_Version p \<le> 1 \<and>
    (ae_anchorFound e \<longrightarrow> an_NonceWatermark (ae_anchor e) < po_Nonce (intended v self wb cmd e p))"
  proof (cases "ae_anchorFound e \<and> cmd \<noteq> CmdReset")
    case True
    then obtain l where l: "load v e = Inr l" "p = lr_policy l"
      "an_NonceWatermark a = max (an_NonceWatermark (ae_anchor e)) (po_Nonce (intended v self wb cmd e p))"
      using assms(1) by (auto simp: seals_def)
    have w: "an_NonceWatermark (ae_anchor e) \<le> po_Nonce p" "po_Version p \<le> 1" using load_watermark l True by auto
    have m: "po_Nonce p \<noteq> -1" using assms(3) l by (auto simp: countable_nonce_def)
    have n: "po_Nonce (intended v self wb cmd e p) = po_Nonce p + 1" using intended_nonce True assms(2) w(1) m by blast
    moreover have "an_NonceWatermark (ae_anchor e) < po_Nonce p + 1" using w(1) word_less_suc [OF m] by simp
    ultimately show ?thesis using l(3) w(2) by (simp add: max.absorb2 less_imp_le)
  next
    case False
    hence p: "p = defaultPolicy wb" "an_NonceWatermark a = po_Nonce (intended v self wb cmd e p)" using assms(1) by (auto simp: seals_def)
    have "ae_anchorFound e \<Longrightarrow> an_NonceWatermark (ae_anchor e) < po_Nonce (intended v self wb cmd e p)"
      using False assms(3) by (auto simp: countable_nonce_def reset_body_def word_less_suc)
    thus ?thesis using p by (simp add: defaultPolicy_def bodyVersion_def)
  qed
  thus "an_NonceWatermark a = po_Nonce (intended v self wb cmd e p)" "po_Version p \<le> 1"
    "ae_anchorFound e \<Longrightarrow> an_NonceWatermark (ae_anchor e) < po_Nonce (intended v self wb cmd e p)" by auto
qed

definition policy_ok :: "aenv \<Rightarrow> aengine \<Rightarrow> bool" where
  "policy_ok v e \<longleftrightarrow> (\<forall>l. load v e = Inr l \<longrightarrow> lr_present l \<longrightarrow> wf_policy (lr_policy l))"

lemma seals_wf: "seals v self wb cmd e a e' p \<Longrightarrow> policy_ok v e \<Longrightarrow> cmd_ok cmd \<Longrightarrow> wf_policy (intended v self wb cmd e p)"
proof -
  assume s: "seals v self wb cmd e a e' p" "policy_ok v e" "cmd_ok cmd"
  have "wf_policy p"
  proof (cases "ae_anchorFound e \<and> cmd \<noteq> CmdReset")
    case True
    then obtain l where "load v e = Inr l" "p = lr_policy l" using s(1) by (auto simp: seals_def)
    thus ?thesis using s(2) load_found True by (auto simp: policy_ok_def)
  next
    case False
    thus ?thesis using s(1) wf_default by (auto simp: seals_def)
  qed
  thus ?thesis using wf_intended s(3) by blast
qed

lemma sealed_change:
  assumes "signature_scheme (av_crypto v)" "run_cmd hx v pass self wb cmd e = (Inr a, e')" "\<not> stages cmd" "cmd_ok cmd"
    "policy_ok v e" "countable_nonce e v"
  obtains p where "seals v self wb cmd e a e' p" "loaded (load v e') (canonical (intended v self wb cmd e p))"
    "ae_anchorFound e \<Longrightarrow> loaded (loadPolicy (av_crypto v) (ae_file e') (ae_anchor e) True) (canonical (intended v self wb cmd e p))"
proof -
  obtain p where s: "seals v self wb cmd e a e' p" using cmd_seals [OF assms(2,3,1)] by blast
  let ?b = "intended v self wb cmd e p"
  note n = seals_nonce [OF s assms(3,6)]
  have wf: "wf_policy ?b" by (rule seals_wf [OF s assms(5,4)])
  have ver: "po_Version ?b \<le> 1" by (rule intended_version [OF n(2)])
  obtain sk where sk: "ae_anchorFound e'" "ae_file e' = Some (sealed_text (av_crypto v) sk ?b)" "pins (ae_anchor e') (cr_public (av_crypto v) sk)"
    "ae_anchorFound e \<longrightarrow> pins (ae_anchor e) (cr_public (av_crypto v) sk)" "a = ae_anchor e'"
    using s by (auto simp: seals_def sealed_def)
  have "loaded (load v e') (canonical ?b)"
    unfolding load_def using load_sealed [OF assms(1) sk(3) wf ver] n(1) sk by simp
  moreover have "ae_anchorFound e \<Longrightarrow> loaded (loadPolicy (av_crypto v) (ae_file e') (ae_anchor e) True) (canonical ?b)"
    using load_sealed [OF assms(1) _ wf ver] n(3) sk by (simp add: less_imp_le)
  ultimately show thesis using s that by blast
qed

subsection \<open>A concrete scheme for the witnesses\<close>

definition demo_crypto :: crypto where
  "demo_crypto = \<lparr>cr_scrypt = (\<lambda>pass salt p. Some (take 32 (pass @ replicate 32 CHR ''x''))),
     cr_public = (\<lambda>sk. take 32 (sk @ replicate 32 CHR ''y'')),
     cr_sign = (\<lambda>sk m. take 32 (sk @ replicate 32 CHR ''y'') @ replicate 32 CHR ''s''),
     cr_verify = (\<lambda>pk m sig. sig = pk @ replicate 32 CHR ''s'')\<rparr>"

lemma demo_scheme: "signature_scheme demo_crypto"
  by (simp add: signature_scheme_def demo_crypto_def min_def)

definition demo_env :: aenv where
  "demo_env = \<lparr>av_crypto = demo_crypto, av_write = WriteOK, av_now = ''2026-01-01T00:00:00Z'', av_rand = Some (replicate 32 CHR ''n'')\<rparr>"

definition fresh :: aengine where
  "fresh = \<lparr>ae_file = None, ae_anchor = zero_anchor, ae_anchorFound = False\<rparr>"

definition demo_change :: Change where
  "demo_change = \<lparr>ch_Default = Some (zero_limits\<lparr>MaxTxWei := Amount ''5''\<rparr>), ch_Networks = [], ch_Messages = None, ch_TokensNoAllowOK = None,
     ch_TypedUnknown = None, ch_Tokens = [], ch_RefreshSelf = None, ch_WrittenBy = ''v1''\<rparr>"

definition demo_set :: "Anchor result \<times> aengine" where
  "demo_set = run_cmd (\<lambda>_. True) demo_env ''pw'' None ''v1'' (CmdSet demo_change) fresh"

lemma demo_parts [simp]: "av_crypto demo_env = demo_crypto" "av_write demo_env = WriteOK" "av_now demo_env = ''2026-01-01T00:00:00Z''"
  "av_rand demo_env = Some (replicate 32 CHR ''n'')" "ae_anchorFound fresh = False" "ae_file fresh = None"
  by (simp_all add: demo_env_def fresh_def)

lemma DefaultScrypt_Valid [simp]: "ScryptParams_Valid DefaultScryptParams"
  unfolding ScryptParams_Valid_def DefaultScryptParams_def ScryptParams.select_convs by code_simp

definition demo_anchor :: Anchor where
  "demo_anchor = \<lparr>an_VerifyKey = EncodeKey (take 32 (''pw'' @ replicate 32 CHR ''x'')), an_VerifyKeyNext = [],
     an_Salt = EncodeSalt (replicate 32 CHR ''n''), an_Scrypt = DefaultScryptParams, an_NonceWatermark = 1, an_StagedSalt = []\<rparr>"

lemma demo_key: "DeriveSealKey demo_crypto ''pw'' (replicate 32 CHR ''n'') DefaultScryptParams =
    Some (take 32 (''pw'' @ replicate 32 CHR ''x''), take 32 (''pw'' @ replicate 32 CHR ''x''))"
  by (simp add: DeriveSealKey_def demo_crypto_def)

lemma demo_set_eq: "demo_set = (Inr demo_anchor, \<lparr>ae_file = Some (sealed_text demo_crypto (take 32 (''pw'' @ replicate 32 CHR ''x'')) (bootstrap_body demo_env demo_change)),
    ae_anchor = demo_anchor, ae_anchorFound = True\<rparr>)"
  by (simp add: demo_set_def Engine_Set_def InitSeal_def demo_key sealAndWrite_def SaltBytes_def EncodeSalt_def writeEnvelope_def Let_def
      sealed_text_def demo_anchor_def fresh_def del: take_append replicate.simps)

lemma demo_set_facts:
  "run_cmd (\<lambda>_. True) demo_env ''pw'' None ''v1'' (CmdSet demo_change) fresh = (Inr demo_anchor, snd demo_set)"
  "\<not> stages (CmdSet c)" "cmd_ok (CmdSet demo_change)" "policy_ok demo_env fresh" "countable_nonce fresh demo_env"
proof -
  have l: "load demo_env fresh = Inr no_load" by (simp add: load_def loadPolicy_def)
  show "run_cmd (\<lambda>_. True) demo_env ''pw'' None ''v1'' (CmdSet demo_change) fresh = (Inr demo_anchor, snd demo_set)"
    using demo_set_eq unfolding demo_set_def by simp
  show "\<not> stages (CmdSet c)" by (simp add: stages_def)
  show "cmd_ok (CmdSet demo_change)"
    by (simp add: change_ok_def demo_change_def renders_def wf_limits_def wf_limit_def zero_limits_def nullSentinel_def)
  show "policy_ok demo_env fresh" by (simp add: policy_ok_def l no_load_def)
  show "countable_nonce fresh demo_env" unfolding countable_nonce_def l by (simp add: no_load_def zero_policy_def) (simp add: fresh_def zero_anchor_def)
qed

section \<open>Properties\<close>

text \<open>C24. A successful administrative command (any but staging a passphrase) takes effect at once and through the whole two-step write.  The
  file it leaves loads, under the anchor it returns and, until that anchor is stored, under the one before it, as exactly the policy the
  command asks for (\<open>asked\<close>: the field of every limit is the last one the command gives for that network, else what it was; an entry takes
  the place of the same one, goes to the end or is taken out; everything else stays; the nonce passes both counters), with its arrays
  sorted.  Side conditions: the command gives no network override without a field and no limit that is the null marker, which the writer
  cannot render (\<open>cmd_ok\<close>; the empty override makes the file unloadable, see \<open>empty_override_bricks\<close>), and its chain id fits 64 bits; the policy in
  force is well-formed (\<open>policy_ok\<close>: it has no such override either); and neither nonce counter is at its last value.\<close>

theorem admin_change_effective:
  assumes "signature_scheme (av_crypto v)" "run_cmd hx v pass self wb cmd e = (Inr a, e')" "\<not> stages cmd" "cmd_ok cmd"
    "policy_ok v e" "countable_nonce e v"
  shows "\<exists>p q. (if ae_anchorFound e \<and> cmd \<noteq> CmdReset then \<exists>l. load v e = Inr l \<and> lr_policy l = p else p = defaultPolicy wb) \<and>
    asked v self wb cmd e p q \<and> a = ae_anchor e' \<and> loaded (load v e') (canonical q) \<and>
    (ae_anchorFound e \<longrightarrow> loaded (loadPolicy (av_crypto v) (ae_file e') (ae_anchor e) True) (canonical q))"
proof -
  obtain p where p: "seals v self wb cmd e a e' p" "loaded (load v e') (canonical (intended v self wb cmd e p))"
    "ae_anchorFound e \<Longrightarrow> loaded (loadPolicy (av_crypto v) (ae_file e') (ae_anchor e) True) (canonical (intended v self wb cmd e p))"
    using sealed_change [OF assms] by blast
  have f: "a = ae_anchor e'" "if ae_anchorFound e \<and> cmd \<noteq> CmdReset then \<exists>l. load v e = Inr l \<and> lr_policy l = p else p = defaultPolicy wb"
    using p(1) by (auto simp: seals_def)
  have "po_Nonce p \<noteq> -1" using f(2) assms(6) by (auto simp: countable_nonce_def defaultPolicy_def split: if_split_asm)
  thus ?thesis using asked_intended p(2,3) f by blast
qed

theorem admin_change_effective_witness:
  "\<exists>e' q. run_cmd (\<lambda>_. True) demo_env ''pw'' None ''v1'' (CmdSet demo_change) fresh = (Inr demo_anchor, e') \<and>
     asked demo_env None ''v1'' (CmdSet demo_change) fresh (defaultPolicy ''v1'') q \<and> loaded (load demo_env e') (canonical q)"
proof -
  have e: "\<not> ae_anchorFound fresh" "run_cmd (\<lambda>_. True) demo_env ''pw'' None ''v1'' (CmdSet demo_change) fresh = (Inr demo_anchor, snd demo_set)"
    "\<not> stages (CmdSet demo_change)" "cmd_ok (CmdSet demo_change)" "policy_ok demo_env fresh" "countable_nonce fresh demo_env"
    "signature_scheme (av_crypto demo_env)" using demo_set_facts demo_scheme by simp_all
  show ?thesis using admin_change_effective [OF e(7,2,3,4,5,6)] e(1,2) by (metis (full_types))
qed

text \<open>C25. What the loader returns is authentic: with an anchor it is the decoding of body bytes whose signature, under the policy's
  domain prefix, a pinned key verifies, of a known version and not older than the watermark; without an anchor only the
  absence of a file passes.\<close>

theorem loaded_policy_authentic:
  assumes "loadPolicy cr disk a found = Inr l"
  shows "(disk = None \<and> \<not> found \<and> \<not> lr_present l) \<or>
    (found \<and> lr_present l \<and> (\<exists>pk sig. pins a pk \<and> length sig = 64 \<and> cr_verify cr pk (sealDomain @ lr_bodyRaw l) sig) \<and>
     decodeBodyStrict (lr_bodyRaw l) = Some (lr_policy l) \<and> an_NonceWatermark a \<le> po_Nonce (lr_policy l) \<and> po_Version (lr_policy l) \<le> 1)"
proof (cases disk)
  case None
  thus ?thesis using assms by (auto simp: loadPolicy_def no_load_def split: if_splits)
next
  case (Some raw)
  hence f: "found" using assms by (auto simp: loadPolicy_def split: if_splits)
  from load_authentic [of cr raw a l] show ?thesis
    using assms Some f by (auto simp: Verify_def signSubject_def)
qed

theorem loaded_policy_authentic_witness:
  "\<exists>l. load demo_env (snd demo_set) = Inr l \<and> an_NonceWatermark demo_anchor \<le> po_Nonce (lr_policy l) \<and>
     (\<exists>pk sig. pins demo_anchor pk \<and> cr_verify demo_crypto pk (sealDomain @ lr_bodyRaw l) sig)"
proof -
  obtain p where "loaded (load demo_env (snd demo_set)) p"
    using sealed_change [OF _ demo_set_facts(1-5)] demo_scheme by auto
  then obtain l where l: "load demo_env (snd demo_set) = Inr l" by (auto simp: loaded_def)
  show ?thesis using loaded_policy_authentic [OF l [unfolded load_def]] l by (auto simp: demo_set_eq)
qed

text \<open>The passphrase derives a key the anchor pins.\<close>

definition admin_pass :: "crypto \<Rightarrow> Anchor \<Rightarrow> string \<Rightarrow> bool" where
  "admin_pass cr a pass \<longleftrightarrow> (\<exists>salt sk pk. SaltBytes a = Inr salt \<and> DeriveSealKey cr pass salt (an_Scrypt a) = Some (sk, pk) \<and> pins a pk)"

lemma authenticate_iff: "ae_anchorFound e \<Longrightarrow> (\<exists>k. authenticate cr e pass = Inr k) \<longleftrightarrow> admin_pass cr (ae_anchor e) pass"
  by (cases "SaltBytes (ae_anchor e)"; cases "DeriveSealKey cr pass (projr (SaltBytes (ae_anchor e))) (an_Scrypt (ae_anchor e))")
    (auto simp: authenticate_def admin_pass_def pins_def DeriveSealKey_def split: if_splits)

lemma not_authenticated: "ae_anchorFound e \<Longrightarrow> \<not> admin_pass cr (ae_anchor e) pass \<Longrightarrow> \<exists>err. authenticate cr e pass = Inl err"
  using authenticate_iff [of e cr pass] by (cases "authenticate cr e pass") auto

text \<open>With an anchor pinned, no administrative command does anything under a passphrase that does not derive a pinned key: each
  fails and leaves the file and the anchor as they were, and no reservation is released.\<close>

lemma admin_needs_passphrase:
  assumes "ae_anchorFound e" "\<not> admin_pass (av_crypto v) (ae_anchor e) pass"
  shows "(\<exists>err. run_cmd hx v pass self wb cmd e = (Inl err, e)) \<and> (\<exists>err. CountersRelease v pass e ev rid st = (Inl err, st))"
proof -
  obtain err where err: "authenticate (av_crypto v) e pass = Inl err" using not_authenticated [OF assms] by blast
  have m: "mutate v pass w r f e = (Inl err, e)" for w r f by (simp add: mutate_def err)
  show ?thesis using assms(1)
    by (cases cmd) (auto simp: m err Engine_Set_def Engine_Allow_def Engine_Deny_def Engine_TypedAllow_def Engine_ContractAllow_def
        ChangeAdminPassphrase_def ResetForce_def CountersRelease_def split: sum.split)
qed

lemma demo_pins: "pins demo_anchor pk \<longleftrightarrow> pk = take 32 (''pw'' @ replicate 32 CHR ''x'')"
proof -
  have "decodeKey (EncodeKey (take 32 (''pw'' @ replicate 32 CHR ''x''))) = Inr (take 32 (''pw'' @ replicate 32 CHR ''x''))"
    by (rule decode_EncodeKey) (simp add: min_def)
  thus ?thesis by (auto simp: pins_def VerifyKeyBytes_def VerifyKeyNextBytes_def demo_anchor_def simp del: take_append)
qed

lemma demo_admin_pass: "admin_pass demo_crypto demo_anchor pass \<longleftrightarrow> pass \<noteq> [] \<and> take 32 (pass @ replicate 32 CHR ''x'') = take 32 (''pw'' @ replicate 32 CHR ''x'')"
proof -
  have "take 32 (take 32 (pass @ replicate 32 CHR ''x'') @ replicate 32 CHR ''y'') = take 32 (pass @ replicate 32 CHR ''x'')"
    by (simp add: min_def)
  moreover have "SaltBytes demo_anchor = Inr (replicate 32 CHR ''n'')" by (simp add: SaltBytes_def demo_anchor_def EncodeSalt_def del: replicate.simps)
  moreover have "an_Scrypt demo_anchor = DefaultScryptParams" by (simp add: demo_anchor_def)
  ultimately show ?thesis
    by (auto simp: admin_pass_def demo_pins DeriveSealKey_def demo_crypto_def simp del: take_append replicate.simps)
qed

text \<open>What a text can load as does not depend on the anchor.\<close>

lemma load_same:
  assumes "loadPolicy cr (Some raw) a True = Inr l" "loadPolicy cr (Some raw) b True = Inr m"
  shows "lr_policy l = lr_policy m"
proof -
  have "lr_bodyRaw l = lr_bodyRaw m"
    using assms by (auto simp: loadPolicy_def check_body_def split: option.splits if_splits)
  thus ?thesis using load_authentic(2) [OF assms(1)] load_authentic(2) [OF assms(2)] by simp
qed

text \<open>No rollback: after a successful command other than stage and reset, no file whose policy is as old as the one the command
  replaced, or older, loads any more, whoever signed it.\<close>

lemma older_policy_refused:
  assumes "signature_scheme (av_crypto v)" "run_cmd hx v pass self wb cmd e = (Inr a, e')" "\<not> stages cmd" "cmd \<noteq> CmdReset"
    "ae_anchorFound e" "countable_nonce e v" "load v e = Inr l"
    "loadPolicy (av_crypto v) (Some old) b True = Inr m" "po_Nonce (lr_policy m) \<le> po_Nonce (lr_policy l)"
  shows "\<exists>err. loadPolicy (av_crypto v) (Some old) a True = Inl err"
proof (cases "loadPolicy (av_crypto v) (Some old) a True")
  case (Inr k)
  obtain p where s: "seals v self wb cmd e a e' p" using cmd_seals [OF assms(2,3,1)] by blast
  have p: "p = lr_policy l" using s assms(4,5,7) by (auto simp: seals_def)
  have w: "an_NonceWatermark (ae_anchor e) \<le> po_Nonce p" "po_Nonce p \<noteq> -1"
    using load_watermark [OF assms(7,5)] assms(6,7) p by (auto simp: countable_nonce_def)
  have "an_NonceWatermark a = po_Nonce p + 1"
    using seals_nonce(1) [OF s assms(3,6)] intended_nonce [OF assms(5,3,4) w] by simp
  moreover have "lr_policy k = lr_policy m" by (rule load_same [OF Inr assms(8)])
  ultimately have "po_Nonce p + 1 \<le> po_Nonce p" using load_authentic(3) [OF Inr] assms(9) p by simp
  thus ?thesis using word_less_suc [OF w(2)] by (simp add: not_less [symmetric])
qed simp

lemma mutate_succeeds:
  assumes "ae_anchorFound e" "admin_pass (av_crypto v) (ae_anchor e) pass" "load v e = Inr l" "av_write v = WriteOK"
  shows "\<exists>a e'. mutate v pass w r f e = (Inr a, e')"
proof -
  obtain k where "authenticate (av_crypto v) e pass = Inr k" using authenticate_iff [OF assms(1)] assms(2) by blast
  thus ?thesis using assms(3,4) by (cases k) (simp add: mutate_def writeEnvelope_def Let_def)
qed

lemma demo_loaded: obtains l where "load demo_env (snd demo_set) = Inr l" "lr_policy l = canonical (bootstrap_body demo_env demo_change)" "lr_present l"
proof -
  have "loaded (load demo_env (snd demo_set)) (canonical (bootstrap_body demo_env demo_change))"
  proof -
    obtain p where "loaded (load demo_env (snd demo_set)) (canonical (intended demo_env None ''v1'' (CmdSet demo_change) fresh p))"
      using sealed_change [OF _ demo_set_facts(1-5)] demo_scheme by auto
    thus ?thesis by simp
  qed
  thus thesis using that by (auto simp: loaded_def)
qed

lemma demo_state: "ae_anchorFound (snd demo_set)" "ae_anchor (snd demo_set) = demo_anchor" "admin_pass demo_crypto demo_anchor ''pw''"
  "countable_nonce (snd demo_set) demo_env" "policy_ok demo_env (snd demo_set)"
proof -
  show "ae_anchorFound (snd demo_set)" "ae_anchor (snd demo_set) = demo_anchor" by (simp_all add: demo_set_eq)
  show "admin_pass demo_crypto demo_anchor ''pw''" by (simp add: demo_admin_pass del: take_append replicate.simps)
  obtain l where l: "load demo_env (snd demo_set) = Inr l" "lr_policy l = canonical (bootstrap_body demo_env demo_change)" by (rule demo_loaded)
  have "wf_policy (bootstrap_body demo_env demo_change)" using wf_intended [OF wf_default demo_set_facts(3), of demo_env None "''v1''" fresh] by simp
  thus "policy_ok demo_env (snd demo_set)" using l by (simp add: policy_ok_def wf_canonical)
  show "countable_nonce (snd demo_set) demo_env" unfolding countable_nonce_def l(1)
    using l(2) by (simp add: demo_set_eq) (simp add: demo_anchor_def canonical_def bootstrap_body_def)
qed

text \<open>C29. Reset recovers from anything: whatever the policy file holds, also nothing or garbage, with the right passphrase and a
  working disk \<open>reset --force\<close> succeeds, and the next load gives the default policy.\<close>

theorem reset_recovers:
  assumes "signature_scheme (av_crypto v)" "ae_anchorFound e" "admin_pass (av_crypto v) (ae_anchor e) pass" "av_write v = WriteOK"
    "an_NonceWatermark (ae_anchor e) \<noteq> -1"
  shows "\<exists>a e'. ResetForce v pass self wb e = (Inr a, e') \<and> loaded (load v e') (canonical (reset_body v self wb (ae_anchor e))) \<and>
    an_NonceWatermark a = an_NonceWatermark (ae_anchor e) + 1"
proof -
  obtain k where k: "authenticate (av_crypto v) e pass = Inr k" using authenticate_iff [OF assms(2)] assms(3) by blast
  then obtain a e' where r: "ResetForce v pass self wb e = (Inr a, e')"
    using assms(2,4) by (cases k) (simp add: ResetForce_def writeEnvelope_def Let_def)
  from reset_sealed [OF r] have s: "sealed (av_crypto v) e (reset_body v self wb (ae_anchor e)) e'" "a = ae_anchor e'"
    "an_NonceWatermark a = an_NonceWatermark (ae_anchor e) + 1" by auto
  then obtain sk where sk: "ae_anchorFound e'" "ae_file e' = Some (sealed_text (av_crypto v) sk (reset_body v self wb (ae_anchor e)))"
    "pins (ae_anchor e') (cr_public (av_crypto v) sk)" by (auto simp: sealed_def)
  have wf: "wf_policy (reset_body v self wb (ae_anchor e))" using wf_intended [OF wf_default, of CmdReset v self wb e] by simp
  have "loaded (loadPolicy (av_crypto v) (ae_file e') (ae_anchor e') True) (canonical (reset_body v self wb (ae_anchor e)))" unfolding sk(2)
    by (rule load_sealed [OF assms(1) sk(3) wf]) (use s in \<open>simp_all add: reset_body_def defaultPolicy_def bodyVersion_def\<close>)
  hence "loaded (load v e') (canonical (reset_body v self wb (ae_anchor e)))" using sk(1) by (simp add: load_def)
  thus ?thesis using r s by blast
qed

theorem reset_recovers_witness:
  "\<exists>a e'. ResetForce demo_env ''pw'' None ''v1'' ((snd demo_set)\<lparr>ae_file := Some ''garbage''\<rparr>) = (Inr a, e') \<and>
    loaded (load demo_env e') (canonical (reset_body demo_env None ''v1'' demo_anchor))"
  using reset_recovers [of demo_env "(snd demo_set)\<lparr>ae_file := Some ''garbage''\<rparr>" "''pw''" None "''v1''"] demo_scheme demo_state
  by (simp add: demo_anchor_def) blast

lemma verify_key_pins: "VerifyKeyBytes a = Inr pk \<Longrightarrow> pins a pk"
  by (simp add: pins_def)

text \<open>Changing only the watermark or a staged key keeps a text loadable as long as its key stays pinned and it is not too old.\<close>

lemma load_other_anchor:
  assumes "loadPolicy cr (Some raw) a True = Inr l" "\<And>pk. pins a pk \<Longrightarrow> pins b pk" "an_NonceWatermark b \<le> po_Nonce (lr_policy l)"
  shows "loaded (loadPolicy cr (Some raw) b True) (lr_policy l)"
proof -
  obtain env body sig where o: "unmarshal_envelope raw = Some env" "b64_decode (env_BodyB64 env) = Some body" "b64_decode (sb_Sig (env_Seal env)) = Some sig"
    "verifyUnderAnchor cr body sig a" "check_body env body a = Inr l"
    using assms(1) by (auto simp: loadPolicy_def split: option.splits if_splits)
  obtain h p where h: "read_head body = Some h" "decodeBodyStrict body = Some p" "\<not> hd_Version h > bodyVersion" "lr_policy l = p"
    using o(5) by (auto simp: check_body_def split: option.splits if_splits)
  have "hd_Nonce h = po_Nonce p" using two_passes_agree [OF h(1,2)] by (simp add: same_head_def)
  hence n: "\<not> hd_Nonce h < an_NonceWatermark b" using assms(3) h(4) by (simp add: not_less)
  have "verifyUnderAnchor cr body sig b" using o(4) assms(2) verifyUnderAnchor_iff by blast
  thus ?thesis using o h n by (simp add: loadPolicy_def check_body_def loaded_def)
qed

text \<open>A reset does not retire what it replaces: when the policy in force is ahead of the pinned watermark, because the anchor of
  its last change was never stored, the file that was reset still loads under the new anchor, as the policy it was.\<close>

lemma reset_replay:
  assumes "ResetForce v pass self wb e = (Inr a, e')" "load v e = Inr l" "ae_file e = Some old"
    "an_NonceWatermark (ae_anchor e) < po_Nonce (lr_policy l)"
  shows "loaded (loadPolicy (av_crypto v) (Some old) a True) (lr_policy l)"
proof -
  have r: "ae_anchorFound e" "a = (ae_anchor e)\<lparr>an_NonceWatermark := an_NonceWatermark (ae_anchor e) + 1\<rparr>"
    using reset_sealed [OF assms(1)] by auto
  have l: "loadPolicy (av_crypto v) (Some old) (ae_anchor e) True = Inr l" using assms(2,3) r(1) by (simp add: load_def)
  have "pins a = pins (ae_anchor e)" unfolding r(2) by (rule pins_cong) simp_all
  moreover have "an_NonceWatermark a \<le> po_Nonce (lr_policy l)" unfolding r(2) using assms(4) by (simp add: inc_le)
  ultimately show ?thesis using load_other_anchor [OF l, of a] by simp
qed

lemma upsertNetwork_new: "\<forall>m \<in> set ns. \<not> equalFoldStr (nr_Network m) (nr_Network n) \<Longrightarrow> upsertNetwork n ns = ns @ [n]"
  by (induction ns) auto

lemma unloadable_refuses:
  assumes "ae_anchorFound e" "load v e = Inl err" "\<not> stages cmd" "cmd \<noteq> CmdReset"
  shows "\<exists>err. run_cmd hx v pass self wb cmd e = (Inl err, e)"
proof -
  have m: "\<exists>err. mutate v pass w r f e = (Inl err, e)" for w r f
    using assms(2) by (simp add: mutate_def split: sum.split)
  have c: "\<exists>err. commit_rotation v next e = (Inl err, e)" for "next"
    using assms(1,2) by (simp add: commit_rotation_def load_def split: sum.split)
  show ?thesis using assms(1,3,4) m c
    by (cases cmd) (auto simp: stages_def Engine_Set_def Engine_Allow_def Engine_Deny_def Engine_TypedAllow_def Engine_ContractAllow_def
        ChangeAdminPassphrase_def split: sum.split)
qed

text \<open>C26. The network override that bricks the policy: setting, for a network without an override, only limits to inherit
  is accepted and sealed, but the sealed body is not JSON; from then on the policy does not load, so every send is refused and
  every further administrative command but stage and reset fails.\<close>

theorem empty_override_bricks:
  assumes "signature_scheme (av_crypto v)" "ae_anchorFound e" "admin_pass (av_crypto v) (ae_anchor e) pass" "load v e = Inr l" "av_write v = WriteOK"
    "ch_Networks c = [n]" "empty_limits (nr_Limits n)" "\<forall>m \<in> set (ru_Networks (po_Rules (lr_policy l))). \<not> equalFoldStr (nr_Network m) (nr_Network n)"
  shows "\<exists>a e'. Engine_Set v pass c e = (Inr a, e') \<and> load v e' = Inl (seal_err ''unparseable'' ''config'') \<and>
    (\<forall>hx pass' self wb cmd. \<not> stages cmd \<and> cmd \<noteq> CmdReset \<longrightarrow> (\<exists>err. run_cmd hx v pass' self wb cmd e' = (Inl err, e')))"
proof -
  obtain a e' where m: "mutate v pass (ch_WrittenBy c) (ch_RefreshSelf c) (\<lambda>p. applyChange p c) e = (Inr a, e')"
    using mutate_succeeds [OF assms(2-5)] by blast
  let ?b = "mutated (\<lambda>p. applyChange p c) (ch_WrittenBy c) (ch_RefreshSelf c) (av_now v) (ae_anchor e) (lr_policy l)"
  obtain l' where "load v e = Inr l'" "sealed (av_crypto v) e (mutated (\<lambda>p. applyChange p c) (ch_WrittenBy c) (ch_RefreshSelf c) (av_now v) (ae_anchor e) (lr_policy l')) e'"
    using mutate_seals [OF m] by blast
  hence s: "sealed (av_crypto v) e ?b e'" using assms(4) by simp
  then obtain sk where sk: "ae_anchorFound e'" "ae_file e' = Some (sealed_text (av_crypto v) sk ?b)" "pins (ae_anchor e') (cr_public (av_crypto v) sk)"
    by (auto simp: sealed_def)
  have "ru_Networks (po_Rules ?b) = upsertNetwork n (ru_Networks (po_Rules (lr_policy l)))"
    using assms(6) by (auto simp: mutated_def applyChange_def Let_def split: option.split)
  hence "n \<in> set (ru_Networks (po_Rules ?b))" using upsertNetwork_new [OF assms(8)] by simp
  moreover have "\<not> has_field n" using assms(7) by (simp add: has_field_iff)
  ultimately have "load v e' = Inl (seal_err ''unparseable'' ''config'')"
    using broken_load [OF assms(1) sk(3), of ?b] sk(1,2) by (auto simp: load_def)
  moreover have "Engine_Set v pass c e = (Inr a, e')" using m assms(2) by (simp add: Engine_Set_def)
  ultimately show ?thesis using unloadable_refuses [OF sk(1)] by blast
qed

definition empty_override :: Change where
  "empty_override = demo_change\<lparr>ch_Default := None, ch_Networks := [\<lparr>nr_Network = ''sepolia'', nr_Limits = zero_limits\<rparr>]\<rparr>"

theorem empty_override_bricks_witness:
  "\<exists>a e'. Engine_Set demo_env ''pw'' empty_override (snd demo_set) = (Inr a, e') \<and> load demo_env e' = Inl (seal_err ''unparseable'' ''config'')"
proof -
  obtain l where l: "load demo_env (snd demo_set) = Inr l" "lr_policy l = canonical (bootstrap_body demo_env demo_change)" by (rule demo_loaded)
  have n: "ru_Networks (po_Rules (lr_policy l)) = []"
    using l(2) by (simp add: canonical_def bootstrap_body_def applyChange_def demo_change_def defaultPolicy_def Let_def)
  have c: "ch_Networks empty_override = [\<lparr>nr_Network = ''sepolia'', nr_Limits = zero_limits\<rparr>]" by (simp add: empty_override_def)
  have z: "empty_limits (nr_Limits \<lparr>nr_Network = ''sepolia'', nr_Limits = zero_limits\<rparr>)" by (simp add: empty_limits_def zero_limits_def)
  show ?thesis
    using empty_override_bricks [of demo_env "snd demo_set" "''pw''" l empty_override, OF _ _ _ l(1) _ c z] demo_scheme demo_state n by auto
qed

text \<open>The canonical body is JSON exactly when every network rule sets something.\<close>

lemma sealed_body_json_iff: "parse_json (writeBody p) \<noteq> None \<longleftrightarrow> list_all has_field (ru_Networks (po_Rules p))"
proof (cases "list_all has_field (ru_Networks (po_Rules p))")
  case True
  thus ?thesis using parse_show [OF written_body] body_text by (simp add: list_all_iff)
next
  case False
  thus ?thesis using broken_body [of p] by (auto simp: parse_json_def list_all_iff)
qed

text \<open>C27. What is sealed is what is enforced: every well-formed policy body decodes from its own text to the same policy
  with sorted arrays, the explicit nulls and absent fields of its limits included.\<close>

theorem policy_body_roundtrip:
  assumes "wf_policy p"
  shows "decodeBodyStrict (writeBody p) = Some (canonical p)"
  by (rule body_roundtrip [OF assms])

theorem policy_body_roundtrip_witness:
  "decodeBodyStrict (writeBody (bootstrap_body demo_env demo_change)) = Some (canonical (bootstrap_body demo_env demo_change))"
  using policy_body_roundtrip [of "bootstrap_body demo_env demo_change"]
    wf_intended [OF wf_default demo_set_facts(3), of demo_env None "''v1''" fresh] by simp

subsection \<open>Rotation\<close>

lemma stage_result:
  assumes "ChangeAdminPassphrase v pass nextPass True False e = (Inr a, e')"
  obtains salt sk where "av_rand v = Some salt" "DeriveSealKey (av_crypto v) nextPass salt (an_Scrypt (ae_anchor e)) = Some (sk, cr_public (av_crypto v) sk)"
    "a = (ae_anchor e)\<lparr>an_VerifyKeyNext := EncodeKey (cr_public (av_crypto v) sk), an_StagedSalt := EncodeSalt salt\<rparr>" "e' = e\<lparr>ae_anchor := a\<rparr>"
    "ae_anchorFound e" "nextPass \<noteq> []" "\<exists>k. authenticate (av_crypto v) e pass = Inr k"
  using assms
  by (auto simp: ChangeAdminPassphrase_def stage_rotation_def StageRotation_def DeriveSealKey_def Let_def split: if_splits sum.splits option.splits)

lemma EncodeKey_ne [simp]: "EncodeKey pk \<noteq> []"
  by (simp add: EncodeKey_def keyPrefix_def)

lemma b64_encode_ne: "s \<noteq> [] \<Longrightarrow> b64_encode s \<noteq> []"
  by (cases s rule: b64_encode.cases) (auto simp: sextets_def)

lemma b64_pass [simp]: "b64_decode (EncodeSalt s) = Some s"
  by (simp add: EncodeSalt_def)

text \<open>C28. A first rotation has no outage.  When no key is staged yet, staging changes no file and the policy in force still loads under the
  staged anchor; on a working disk the commit with the new passphrase then succeeds, and the file it writes loads under the staged anchor,
  until the final one is stored, and under the final one, as the same policy at the next nonce.  Side conditions: the policy in force is
  well-formed and its nonce is not the last one, and the random source returns a salt that is not empty.  (Staging again over a key that
  already seals the file is not covered: there the file can be stranded.)\<close>

theorem rotation_zero_outage:
  assumes "signature_scheme (av_crypto v)" "load v e = Inr l" "wf_policy (lr_policy l)" "po_Nonce (lr_policy l) \<noteq> -1"
    "an_VerifyKeyNext (ae_anchor e) = []" "av_write v = WriteOK" "av_rand v \<noteq> Some []"
    "ChangeAdminPassphrase v pass nextPass True False e = (Inr s, e1)"
  shows "ae_file e1 = ae_file e \<and> loaded (load v e1) (lr_policy l) \<and>
    (\<exists>a e2. ChangeAdminPassphrase v pass nextPass False True e1 = (Inr a, e2) \<and>
      (let p = canonical ((lr_policy l)\<lparr>po_Nonce := po_Nonce (lr_policy l) + 1, po_UpdatedAt := av_now v\<rparr>) in
       loaded (loadPolicy (av_crypto v) (ae_file e2) s True) p \<and> loaded (loadPolicy (av_crypto v) (ae_file e2) a True) p))"
proof -
  let ?cr = "av_crypto v"
  obtain salt sk where st: "av_rand v = Some salt" "DeriveSealKey ?cr nextPass salt (an_Scrypt (ae_anchor e)) = Some (sk, cr_public ?cr sk)"
    "s = (ae_anchor e)\<lparr>an_VerifyKeyNext := EncodeKey (cr_public ?cr sk), an_StagedSalt := EncodeSalt salt\<rparr>" "e1 = e\<lparr>ae_anchor := s\<rparr>"
    "ae_anchorFound e" "nextPass \<noteq> []" "\<exists>k. authenticate ?cr e pass = Inr k"
    using stage_result [OF assms(8)] by metis
  have len: "length (cr_public ?cr sk) = 32" using assms(1) by (simp add: signature_scheme_def)
  have next_key: "VerifyKeyNextBytes s = Inr (Some (cr_public ?cr sk))"
    unfolding st(3) by (simp add: VerifyKeyNextBytes_def decode_EncodeKey [OF len])
  have old_pins: "pins s pk" if "pins (ae_anchor e) pk" for pk
    using that assms(5) by (auto simp: pins_def st(3) VerifyKeyBytes_def VerifyKeyNextBytes_def)
  obtain raw where raw: "ae_file e = Some raw" using assms(2) st(5) by (cases "ae_file e") (auto simp: load_def loadPolicy_def)
  have l: "loadPolicy ?cr (Some raw) (ae_anchor e) True = Inr l" using assms(2) st(5) raw by (simp add: load_def)
  have wm: "an_NonceWatermark s \<le> po_Nonce (lr_policy l)" using load_watermark [OF assms(2) st(5)] by (simp add: st(3))
  have ld: "loaded (load v e1) (lr_policy l)"
    using load_other_anchor [OF l old_pins wm] raw st(4,5) by (simp add: load_def)
  then obtain l1 where l1: "load v e1 = Inr l1" "lr_policy l1 = lr_policy l" by (auto simp: loaded_def)
  have "admin_pass ?cr (ae_anchor e) pass" using st(7) authenticate_iff [OF st(5)] by blast
  hence "admin_pass ?cr s pass" using old_pins by (auto simp: admin_pass_def st(3) SaltBytes_def)
  hence au: "\<exists>k. authenticate ?cr e1 pass = Inr k" using authenticate_iff [of e1] st(4,5) by simp
  have "salt \<noteq> []" using assms(7) st(1) by simp
  hence "an_StagedSalt s \<noteq> []" using b64_encode_ne by (simp add: st(3) EncodeSalt_def)
  hence salt: "StagedSaltBytes s = Inr (Some salt)" by (simp add: StagedSaltBytes_def st(3))
  have cm: "CommitRotation ?cr nextPass s (an_Scrypt s) = Inr \<lparr>rf_Private = sk, rf_Public = cr_public ?cr sk, rf_Salt = salt\<rparr>"
    using st(2) by (simp add: CommitRotation_def salt next_key) (simp add: st(3))
  have l1': "loadPolicy ?cr (ae_file e1) (ae_anchor e1) True = Inr l1" using l1(1) st(4,5) by (simp add: load_def)
  obtain a e2 where c: "ChangeAdminPassphrase v pass nextPass False True e1 = (Inr a, e2)"
    using au st(4,5,6) cm l1' assms(6) by (fastforce simp: ChangeAdminPassphrase_def commit_rotation_def writeEnvelope_def Let_def)
  let ?b = "(lr_policy l)\<lparr>po_Nonce := po_Nonce (lr_policy l) + 1, po_UpdatedAt := av_now v\<rparr>"
  have cs: "sealed ?cr e1 ?b e2" "a = ae_anchor e2" "an_NonceWatermark (ae_anchor e2) = max (an_NonceWatermark (ae_anchor e1)) (po_Nonce (lr_policy l) + 1)"
    using commit_sealed [OF c assms(1)] l1 by auto
  have n: "an_NonceWatermark s < po_Nonce (lr_policy l) + 1" using wm word_less_suc [OF assms(4)] by simp
  hence na: "an_NonceWatermark a = po_Nonce (lr_policy l) + 1" using cs st(4) by (simp add: max.absorb2 less_imp_le)
  obtain sk' where k: "ae_file e2 = Some (sealed_text ?cr sk' ?b)" "pins a (cr_public ?cr sk')" "pins s (cr_public ?cr sk')"
    using cs(1,2) st(4,5) by (auto simp: sealed_def)
  have wf: "wf_policy ?b" "po_Version ?b \<le> 1" using assms(3) load_watermark [OF assms(2) st(5)] by (simp_all add: wf_policy_def)
  have "loaded (loadPolicy ?cr (ae_file e2) s True) (canonical ?b)" unfolding k(1)
    by (rule load_sealed [OF assms(1) k(3) wf]) (use n in \<open>simp add: less_imp_le\<close>)
  moreover have "loaded (loadPolicy ?cr (ae_file e2) a True) (canonical ?b)" unfolding k(1)
    by (rule load_sealed [OF assms(1) k(2) wf]) (use na in simp)
  ultimately show ?thesis using ld c st(4) by (auto simp: Let_def)
qed

definition demo_seed :: "string \<Rightarrow> string" where
  "demo_seed pass = take 32 (pass @ replicate 32 CHR ''x'')"

lemma demo_derive: "pass \<noteq> [] \<Longrightarrow> DeriveSealKey demo_crypto pass salt DefaultScryptParams = Some (demo_seed pass, demo_seed pass)"
  by (simp add: DeriveSealKey_def demo_crypto_def demo_seed_def min_def)

lemma demo_stage:
  assumes "ae_anchorFound e" "admin_pass demo_crypto (ae_anchor e) pass" "an_Scrypt (ae_anchor e) = DefaultScryptParams" "next \<noteq> []"
  shows "\<exists>s e'. ChangeAdminPassphrase demo_env pass next True False e = (Inr s, e') \<and> an_VerifyKeyNext s = EncodeKey (demo_seed next) \<and> e' = e\<lparr>ae_anchor := s\<rparr>"
proof -
  obtain k where "authenticate demo_crypto e pass = Inr k" using authenticate_iff [OF assms(1)] assms(2) by blast
  thus ?thesis using assms(1,3,4) demo_derive [OF assms(4)]
    by (simp add: ChangeAdminPassphrase_def stage_rotation_def StageRotation_def Let_def)
qed

theorem rotation_zero_outage_witness:
  "\<exists>s e1 a e2. ChangeAdminPassphrase demo_env ''pw'' ''new'' True False (snd demo_set) = (Inr s, e1) \<and> ae_file e1 = ae_file (snd demo_set) \<and>
     ChangeAdminPassphrase demo_env ''pw'' ''new'' False True e1 = (Inr a, e2) \<and> (\<exists>p. loaded (loadPolicy demo_crypto (ae_file e2) s True) p)"
proof -
  obtain l where l: "load demo_env (snd demo_set) = Inr l" "lr_policy l = canonical (bootstrap_body demo_env demo_change)" "lr_present l" by (rule demo_loaded)
  have wf: "wf_policy (lr_policy l)" using demo_state(5) l by (simp add: policy_ok_def)
  have n: "po_Nonce (lr_policy l) \<noteq> -1" using demo_state(4) l by (simp add: countable_nonce_def)
  have z: "an_VerifyKeyNext (ae_anchor (snd demo_set)) = []" "an_Scrypt (ae_anchor (snd demo_set)) = DefaultScryptParams"
    by (simp_all add: demo_state) (simp_all add: demo_anchor_def)
  obtain s e1 where c: "ChangeAdminPassphrase demo_env ''pw'' ''new'' True False (snd demo_set) = (Inr s, e1)"
    using demo_stage [OF demo_state(1) _ z(2), of "''pw''" "''new''"] demo_state(2,3) by auto
  show ?thesis
    using rotation_zero_outage [of demo_env "snd demo_set" l "''pw''" "''new''" s e1, OF _ l(1) wf n z(1) _ _ c] c demo_scheme
    by (auto simp: Let_def)
qed

text \<open>A signature verifies under no other key.\<close>

definition key_separation :: "crypto \<Rightarrow> bool" where
  "key_separation cr \<longleftrightarrow> (\<forall>sk m pk. cr_verify cr pk m (cr_sign cr sk m) \<longrightarrow> pk = cr_public cr sk)"

text \<open>Staging again strands a committed rotation: once the commit has written the file under the staged key but the anchor has
  not been stored, another stage, which the old passphrase still authenticates, replaces the only key that verifies the
  file; it reports success, and the policy in force no longer loads.\<close>

lemma restage_strands:
  assumes "signature_scheme (av_crypto v)" "key_separation (av_crypto v)" "load v e = Inr l" "ae_file e = Some (sealed_text (av_crypto v) sk body)"
    "VerifyKeyBytes (ae_anchor e) \<noteq> Inr (cr_public (av_crypto v) sk)"
    "ChangeAdminPassphrase v pass nextPass True False e = (Inr s, e')" "an_VerifyKeyNext s \<noteq> EncodeKey (cr_public (av_crypto v) sk)"
  shows "load v e' = Inl (seal_err ''bad_sig'' ''config'')"
proof -
  let ?cr = "av_crypto v"
  obtain salt sk' where st: "s = (ae_anchor e)\<lparr>an_VerifyKeyNext := EncodeKey (cr_public ?cr sk'), an_StagedSalt := EncodeSalt salt\<rparr>"
    "e' = e\<lparr>ae_anchor := s\<rparr>" "ae_anchorFound e"
    using stage_result [OF assms(6)] by metis
  have len: "length (cr_public ?cr sk') = 32" using assms(1) by (simp add: signature_scheme_def)
  have "VerifyKeyNextBytes s = Inr (Some (cr_public ?cr sk'))" by (simp add: st(1) VerifyKeyNextBytes_def decode_EncodeKey [OF len])
  moreover have "cr_public ?cr sk' \<noteq> cr_public ?cr sk" using assms(7) st(1) by auto
  moreover have "VerifyKeyBytes s = VerifyKeyBytes (ae_anchor e)" by (simp add: st(1) VerifyKeyBytes_def)
  ultimately have "\<not> pins s (cr_public ?cr sk)" using assms(5) by (simp add: pins_def)
  hence "\<not> verifyUnderAnchor ?cr (writeBody body) (Sign ?cr (writeBody body) sk) s"
    using assms(2) by (auto simp: verifyUnderAnchor_iff Verify_def Sign_def key_separation_def)
  thus ?thesis using assms(4) st(2,3)
    by (simp add: load_def loadPolicy_def sealed_text_def envelope_roundtrip seal_envelope_def envelopeVersion_def int64_def)
qed

definition committed :: aengine where
  "committed = \<lparr>ae_file = Some (sealed_text demo_crypto (demo_seed ''b'') (bootstrap_body demo_env demo_change)),
     ae_anchor = demo_anchor\<lparr>an_VerifyKeyNext := EncodeKey (demo_seed ''b''), an_StagedSalt := EncodeSalt ''n''\<rparr>, ae_anchorFound = True\<rparr>"

text \<open>Any sequence of commands, each by a process that started from any anchor, the engine of the previous command or an older or
  newer one.\<close>

inductive admin_run :: "crypto \<Rightarrow> aengine \<Rightarrow> bool" for cr :: crypto where
  start: "ae_file e = None \<Longrightarrow> admin_run cr e"
| command: "admin_run cr e \<Longrightarrow> av_crypto v = cr \<Longrightarrow> cmd_ok cmd \<Longrightarrow> run_cmd hx v pass self wb cmd e = (r, e') \<Longrightarrow> admin_run cr e'"
| reopen: "admin_run cr e \<Longrightarrow> admin_run cr (e\<lparr>ae_anchor := a, ae_anchorFound := f\<rparr>)"

definition file_ok :: "crypto \<Rightarrow> aengine \<Rightarrow> bool" where
  "file_ok cr e \<longleftrightarrow> (\<forall>raw. ae_file e = Some raw \<longrightarrow> (\<exists>sk p. raw = sealed_text cr sk p \<and> wf_policy p))"

lemma load_of_sealed: "loadPolicy cr (Some (sealed_text cr sk p)) a True = Inr l \<Longrightarrow> wf_policy p \<Longrightarrow> lr_policy l = canonical p"
proof -
  assume l: "loadPolicy cr (Some (sealed_text cr sk p)) a True = Inr l" and wf: "wf_policy p"
  have "lr_bodyRaw l = writeBody p"
    using l by (auto simp: loadPolicy_def sealed_text_def envelope_roundtrip seal_envelope_def envelopeVersion_def int64_def check_body_def
        split: option.splits if_splits)
  thus ?thesis using load_authentic(2) [OF l] body_roundtrip [OF wf] by simp
qed

lemma file_ok_policy: "file_ok (av_crypto v) e \<Longrightarrow> policy_ok v e"
proof -
  assume f: "file_ok (av_crypto v) e"
  have "wf_policy (lr_policy l)" if l: "load v e = Inr l" "lr_present l" for l
  proof -
    obtain raw where raw: "ae_file e = Some raw" "ae_anchorFound e" using l by (cases "ae_file e") (auto simp: load_def loadPolicy_def no_load_def split: if_splits)
    then obtain sk p where p: "raw = sealed_text (av_crypto v) sk p" "wf_policy p" using f by (auto simp: file_ok_def)
    have "lr_policy l = canonical p" by (rule load_of_sealed [OF _ p(2)]) (use l raw p in \<open>simp add: load_def\<close>)
    thus ?thesis using p(2) by (simp add: wf_canonical)
  qed
  thus ?thesis by (simp add: policy_ok_def)
qed

lemma cmd_fails_or_stages:
  "run_cmd hx v pass self wb cmd e = (r, e') \<Longrightarrow> signature_scheme (av_crypto v) \<Longrightarrow> cmd_ok cmd \<Longrightarrow> policy_ok v e \<Longrightarrow>
   ae_file e' = ae_file e \<or> (\<exists>sk p. ae_file e' = Some (sealed_text (av_crypto v) sk p) \<and> wf_policy p)"
proof (cases r)
  case (Inr a)
  assume r: "run_cmd hx v pass self wb cmd e = (r, e')" and s: "signature_scheme (av_crypto v)" and ok: "cmd_ok cmd" "policy_ok v e"
  show ?thesis
  proof (cases "stages cmd")
    case True
    then obtain n where "cmd = CmdStage n" by (auto simp: stages_def)
    thus ?thesis using stage_result [of v pass n e a e'] r Inr by (metis run_cmd.simps(6) aengine.ext_inject aengine.surjective aengine.update_convs(2))
  next
    case False
    then obtain p where p: "seals v self wb cmd e a e' p" using cmd_seals r s Inr by blast
    thus ?thesis using seals_wf [OF p ok(2,1)] by (auto simp: seals_def sealed_def)
  qed
next
  case (Inl err)
  assume r: "run_cmd hx v pass self wb cmd e = (r, e')"
  have w: "writeEnvelope x b s e = (Inl y, e'') \<Longrightarrow> e'' = e" for x b s y e''
    using writeEnvelope_cases [of x b s e] by auto
  have m: "mutate v pass x y f e = (Inl err, e') \<Longrightarrow> e' = e" for x y f by (rule mutate_fails)
  have "e' = e"
  proof (cases cmd)
    case (CmdSet c)
    thus ?thesis using r Inl by (auto simp: Engine_Set_def sealAndWrite_def Let_def dest: m w split: if_splits sum.splits option.splits prod.splits)
  next
    case (CmdCommit n)
    thus ?thesis using r Inl by (auto simp: ChangeAdminPassphrase_def commit_rotation_def Let_def dest: w split: if_splits sum.splits prod.splits)
  next
    case (CmdStage n)
    thus ?thesis using r Inl by (auto simp: ChangeAdminPassphrase_def stage_rotation_def Let_def split: if_splits sum.splits prod.splits)
  next
    case CmdReset
    thus ?thesis using r Inl by (auto simp: ResetForce_def Let_def dest: w split: if_splits sum.splits prod.splits)
  qed (use r Inl in \<open>auto simp: Engine_Allow_def Engine_Deny_def Engine_TypedAllow_def Engine_ContractAllow_def dest: m split: sum.splits\<close>)
  thus ?thesis by simp
qed

text \<open>Whatever sequence of commands ran, under whatever anchors and faults, a policy that loads is well-formed: every limit is
  absent, none or an amount, every override sets something, and all numbers are in range; so the next command's
  change is written as intended.\<close>

lemma loaded_policy_wellformed:
  assumes "admin_run cr e" "signature_scheme cr" "av_crypto v = cr"
  shows "policy_ok v e"
proof -
  have "file_ok cr e" using assms(1)
  proof induction
    case (start e)
    thus ?case by (simp add: file_ok_def)
  next
    case (command e v cmd hx pass self wb r e')
    have "policy_ok v e" using file_ok_policy command(2,5) by blast
    hence "ae_file e' = ae_file e \<or> (\<exists>sk p. ae_file e' = Some (sealed_text cr sk p) \<and> wf_policy p)"
      using cmd_fails_or_stages [OF command(4)] command(2,3) assms(2) by simp
    thus ?case using command(5) unfolding file_ok_def by (elim disjE exE conjE) (simp, metis option.inject)
  next
    case (reopen e a f)
    thus ?case by (simp add: file_ok_def)
  qed
  thus ?thesis using file_ok_policy assms(3) by blast
qed

end
