(* ===== verification/Policy_Service.thy ===== *)
theory Policy_Service
  imports Policy_Anchor Policy_Admin_Claims Gas Account_Ref
begin

text \<open>
  The policy commands (\<open>service/policy.go\<close>) over the sealing engine, and the anchor file they keep in the configuration
  directory (\<open>config/anchor.go\<close>): what a user writes becomes a change, the engine seals it, the anchor is stored second.
  Messages for humans (\<open>Reason\<close>) are left out.
\<close>

section \<open>The anchor file\<close>

text \<open>A service: the engine with the policy file on disk and the anchor this process read when it opened, the anchor file, and
  the files written under \<open>--anchor-out\<close>.\<close>

record policy_service =
  ps_engine :: aengine
  ps_anchorFile :: "string option"
  ps_staged :: "(string \<times> string) list"

datatype readfault = ReadOK | StatError | ReadGone | ReadError

definition mapLockErr :: "lockfault \<Rightarrow> Error option" where
  "mapLockErr f = (case f of LockOK \<Rightarrow> None | MkdirReadOnly \<Rightarrow> Some (New ''config.read_only'') | _ \<Rightarrow> Some (New ''state.lock_timeout''))"

definition ReadAnchor :: "lockfault \<Rightarrow> readfault \<Rightarrow> string option \<Rightarrow> string option result" where
  "ReadAnchor lf rf anchorFile = (if rf = StatError then Inl (New ''config.invalid'')
     else (case anchorFile of None \<Rightarrow> Inr None
       | Some raw \<Rightarrow> (case mapLockErr lf of Some err \<Rightarrow> Inl err
         | None \<Rightarrow> (case rf of ReadGone \<Rightarrow> Inr None | ReadError \<Rightarrow> Inl (New ''config.invalid'') | _ \<Rightarrow> Inr (Some raw)))))"

definition WriteAnchor :: "lockfault \<Rightarrow> writefault \<Rightarrow> string \<Rightarrow> policy_service \<Rightarrow> unit result \<times> policy_service" where
  "WriteAnchor lf w raw s =
    (if w = WriteDirReadOnly then (Inl (New ''config.read_only''), s)
     else if w = WriteDirError then (Inl (New ''config.invalid''), s)
     else (case mapLockErr lf of Some err \<Rightarrow> (Inl err, s)
       | None \<Rightarrow> (case w of WriteReadOnly \<Rightarrow> (Inl (New ''config.read_only''), s)
         | WriteOK \<Rightarrow> (Inr (), s\<lparr>ps_anchorFile := Some raw\<rparr>)
         | _ \<Rightarrow> (Inl (New ''config.invalid''), s))))"

definition AnchorIsReadOnly :: "Error option \<Rightarrow> bool" where
  "AnchorIsReadOnly err = (case err of None \<Rightarrow> False | Some e \<Rightarrow> Code e = ''config.read_only'')"

text \<open>The trust root a process starts with.\<close>

definition open_trust :: "lockfault \<Rightarrow> readfault \<Rightarrow> string option \<Rightarrow> (Anchor \<times> bool) result" where
  "open_trust lf rf anchorFile = (case ReadAnchor lf rf anchorFile of Inl err \<Rightarrow> Inl err
     | Inr None \<Rightarrow> Inr (zero_anchor, False)
     | Inr (Some raw) \<Rightarrow> (case ParseAnchor raw of Inl _ \<Rightarrow> Inl (New ''policy.seal_violation'') | Inr a \<Rightarrow> Inr (a, True)))"

definition open_service :: "lockfault \<Rightarrow> readfault \<Rightarrow> policy_service \<Rightarrow> policy_service result" where
  "open_service lf rf s = (case open_trust lf rf (ps_anchorFile s) of Inl err \<Rightarrow> Inl err
     | Inr (a, found) \<Rightarrow> Inr (s\<lparr>ps_engine := (ps_engine s)\<lparr>ae_anchor := a, ae_anchorFound := found\<rparr>\<rparr>))"

section \<open>Views\<close>

record PolicyLimitsView =
  lv_MaxTxWei :: string
  lv_MaxDayWei :: string
  lv_MaxGasPriceWei :: string
  lv_Allowlist :: string
  lv_IncludeSelf :: string

record PolicyNetView =
  nv_Network :: string
  nv_Limits :: PolicyLimitsView

record PolicyPinView =
  pv_Source :: string
  pv_Address :: string
  pv_Name :: string
  pv_Label :: string

record PolicyShowResult =
  sh_Active :: bool
  sh_Present :: bool
  sh_Verified :: bool
  sh_Nonce :: "64 word"
  sh_Watermark :: "64 word"
  sh_WrittenBy :: string
  sh_AnchorSource :: string
  sh_Messages :: string
  sh_Default :: PolicyLimitsView
  sh_Networks :: "PolicyNetView list"
  sh_Allowlist :: "PolicyPinView list"
  sh_Denylist :: "PolicyPinView list"
  sh_Self :: "string list"

fun triStr :: "limit \<Rightarrow> string" where
  "triStr Absent = []"
| "triStr NoLimit = ''none''"
| "triStr (Amount s) = s"

definition boolTri :: "bool option \<Rightarrow> string" where
  "boolTri p = (case p of None \<Rightarrow> [] | Some b \<Rightarrow> if b then ''on'' else ''off'')"

definition limitsView :: "Limits \<Rightarrow> PolicyLimitsView" where
  "limitsView l = \<lparr>lv_MaxTxWei = triStr (MaxTxWei l), lv_MaxDayWei = triStr (MaxDayWei l), lv_MaxGasPriceWei = triStr (MaxGasPriceWei l),
     lv_Allowlist = boolTri (AllowlistEnabled l), lv_IncludeSelf = boolTri (IncludeSelf l)\<rparr>"

definition pinsView :: "PinEntry list \<Rightarrow> PolicyPinView list" where
  "pinsView = map (\<lambda>p. \<lparr>pv_Source = pin_Source p, pv_Address = pin_Address p, pv_Name = pin_Name p, pv_Label = pin_Label p\<rparr>)"

definition empty_view :: PolicyLimitsView where
  "empty_view = \<lparr>lv_MaxTxWei = [], lv_MaxDayWei = [], lv_MaxGasPriceWei = [], lv_Allowlist = [], lv_IncludeSelf = []\<rparr>"

definition status_view :: "SealStatus \<Rightarrow> PolicyShowResult" where
  "status_view st = \<lparr>sh_Active = ss_AnchorFound st, sh_Present = ss_Present st, sh_Verified = ss_Verified st, sh_Nonce = ss_Nonce st,
     sh_Watermark = ss_Watermark st, sh_WrittenBy = ss_WrittenBy st, sh_AnchorSource = ss_AnchorSource st, sh_Messages = [],
     sh_Default = empty_view, sh_Networks = [], sh_Allowlist = [], sh_Denylist = [], sh_Self = []\<rparr>"

definition PolicyShow :: "aenv \<Rightarrow> policy_service \<Rightarrow> PolicyShowResult" where
  "PolicyShow v s = (case Show v (ps_engine s) of (pol, st, err) \<Rightarrow>
     if err \<noteq> None then status_view st
     else (status_view st)\<lparr>sh_Messages := po_Messages pol, sh_Default := limitsView (ru_Default (po_Rules pol)),
       sh_Networks := map (\<lambda>n. \<lparr>nv_Network = nr_Network n, nv_Limits = limitsView (nr_Limits n)\<rparr>) (ru_Networks (po_Rules pol)),
       sh_Allowlist := pinsView (po_Allowlist pol), sh_Denylist := pinsView (po_Denylist pol), sh_Self := po_SelfAddresses pol\<rparr>)"

definition PolicyVerify :: "aenv \<Rightarrow> policy_service \<Rightarrow> PolicyShowResult \<times> Error option" where
  "PolicyVerify v s = (case Engine_Verify v (ps_engine s) of (ok, st, err) \<Rightarrow> ((status_view st)\<lparr>sh_Verified := ok \<and> ss_Verified st\<rparr>, err))"

section \<open>Requests\<close>

record PolicySetRequest =
  sr_Network :: string
  sr_MaxTx :: "string option"
  sr_MaxDay :: "string option"
  sr_MaxGasPrice :: "string option"
  sr_Allowlist :: "string option"
  sr_IncludeSelf :: "string option"
  sr_TypedUnknown :: "string option"
  sr_Messages :: "string option"
  sr_TokensNoAllow :: "string option"
  sr_AnchorOut :: string

record PolicyAllowRequest =
  pr_Source :: string
  pr_Address :: string
  pr_Name :: string
  pr_Label :: string
  pr_Remove :: bool
  pr_AnchorOut :: string

record PolicyTypedAllowRequest =
  yr_ChainID :: int
  yr_VerifyingContract :: string
  yr_PrimaryType :: string
  yr_Label :: string
  yr_Remove :: bool
  yr_AnchorOut :: string

record PolicyContractAllowRequest =
  xr_Network :: string
  xr_Contract :: string
  xr_Selector :: string
  xr_Label :: string
  xr_Remove :: bool
  xr_AnchorOut :: string

text \<open>What a command meets besides the engine's environment: the admin passphrase as the resolver returned it, the keystore's
  addresses (\<open>None\<close>: no keystore), name resolution, and the outcomes of the second write.\<close>

record senv =
  sn_engine :: aenv
  sn_pass :: "string result"
  sn_nextPass :: "string result"
  sn_keys :: "address list result option"
  sn_ens :: "string \<Rightarrow> address result"
  sn_contacts :: "string \<Rightarrow> address option result"
  sn_isHex :: "string \<Rightarrow> bool"
  sn_toAddr :: "string \<Rightarrow> string"
  sn_version :: string
  sn_anchorPath :: string
  sn_lock :: lockfault
  sn_anchorWrite :: writefault
  sn_stageWrite :: writefault

definition selfSnapshot :: "senv \<Rightarrow> address list option" where
  "selfSnapshot v = (case sn_keys v of None \<Rightarrow> None | Some (Inl _) \<Rightarrow> None | Some (Inr accts) \<Rightarrow> Some accts)"

definition setWei :: "bool \<Rightarrow> string option \<Rightarrow> limit result" where
  "setWei isFee raw = (case raw of None \<Rightarrow> Inr Absent
     | Some r \<Rightarrow> (let t = TrimSpace r; l = ToLower t in
         if l = ''none'' \<or> l = ''null'' then Inr NoLimit
         else if l = [] \<or> l = ''inherit'' then Inr Absent
         else (case (if isFee then parseFee t else parseEthAmount t) of Inl err \<Rightarrow> Inl err | Inr wei \<Rightarrow> Inr (Amount (int_dec wei)))))"

definition parseOnOff :: "string option \<Rightarrow> bool option result" where
  "parseOnOff raw = (case raw of None \<Rightarrow> Inr None
     | Some r \<Rightarrow> (let l = ToLower (TrimSpace r) in
         if l \<in> {''on'', ''true'', ''yes''} then Inr (Some True)
         else if l \<in> {''off'', ''false'', ''no''} then Inr (Some False)
         else if l = [] then Inr None else Inl (New ''usage.bad_flag'')))"

definition allowDeny :: "string option \<Rightarrow> string option result" where
  "allowDeny raw = (case raw of None \<Rightarrow> Inr None
     | Some r \<Rightarrow> (let l = ToLower (TrimSpace r) in if l \<noteq> ''allow'' \<and> l \<noteq> ''deny'' then Inl (New ''usage.bad_flag'') else Inr (Some l)))"

text \<open>\<open>touched\<close>: an amount flag was given, with whatever value, or a gate was switched.\<close>

definition touched :: "PolicySetRequest \<Rightarrow> bool option \<Rightarrow> bool option \<Rightarrow> bool" where
  "touched req al incl \<longleftrightarrow> sr_MaxTx req \<noteq> None \<or> sr_MaxDay req \<noteq> None \<or> sr_MaxGasPrice req \<noteq> None \<or> al \<noteq> None \<or> incl \<noteq> None"

definition scoped :: "PolicySetRequest \<Rightarrow> bool \<Rightarrow> Limits \<Rightarrow> Limits option \<times> NetworkRule list" where
  "scoped req t lm = (if \<not> t then (None, [])
     else if sr_Network req = [] then (Some lm, [])
     else (None, [\<lparr>nr_Network = ToLower (sr_Network req), nr_Limits = lm\<rparr>]))"

definition buildChange :: "senv \<Rightarrow> PolicySetRequest \<Rightarrow> Change result" where
  "buildChange v req =
    (case setWei False (sr_MaxTx req) of Inl err \<Rightarrow> Inl err | Inr tx \<Rightarrow>
     (case setWei False (sr_MaxDay req) of Inl err \<Rightarrow> Inl err | Inr perDay \<Rightarrow>
     (case setWei True (sr_MaxGasPrice req) of Inl err \<Rightarrow> Inl err | Inr gas \<Rightarrow>
     (case parseOnOff (sr_Allowlist req) of Inl err \<Rightarrow> Inl err | Inr al \<Rightarrow>
     (case parseOnOff (sr_IncludeSelf req) of Inl err \<Rightarrow> Inl err | Inr incl \<Rightarrow>
      (let lm = \<lparr>MaxTxWei = tx, MaxDayWei = perDay, MaxGasPriceWei = gas, AllowlistEnabled = al, IncludeSelf = incl, TypedDataUnknown = None\<rparr>;
           (dflt, nets) = scoped req (touched req al incl) lm in
       (case allowDeny (sr_TypedUnknown req) of Inl err \<Rightarrow> Inl err | Inr tu \<Rightarrow>
       (case allowDeny (sr_Messages req) of Inl err \<Rightarrow> Inl err | Inr msg \<Rightarrow>
       (case parseOnOff (sr_TokensNoAllow req) of Inl err \<Rightarrow> Inl err | Inr tok \<Rightarrow>
         Inr \<lparr>ch_Default = dflt, ch_Networks = nets, ch_Messages = msg, ch_TokensNoAllowOK = tok, ch_TypedUnknown = tu, ch_Tokens = [],
           ch_RefreshSelf = selfSnapshot v, ch_WrittenBy = sn_version v\<rparr>)))))))))"

section \<open>Mutations\<close>

record PolicyMutateResult =
  mr_Nonce :: "64 word"
  mr_Watermark :: "64 word"
  mr_AnchorWritten :: bool
  mr_AnchorPath :: string
  mr_AnchorJSON :: string
  mr_VerifyKey :: string
  mr_VerifyKeyNext :: string
  mr_Bootstrapped :: bool
  mr_Source :: string
  mr_Name :: string
  mr_Pinned :: string
  mr_ResolvedAt :: string
  mr_TypedChainID :: int
  mr_TypedContract :: string
  mr_TypedPrimaryType :: string
  mr_TypedRemoved :: bool
  mr_ContractNetwork :: string
  mr_ContractAddr :: string
  mr_ContractSelector :: string
  mr_ContractRemoved :: bool

definition mutate_result :: "Anchor \<Rightarrow> string \<Rightarrow> bool \<Rightarrow> string \<Rightarrow> PolicyMutateResult" where
  "mutate_result a text boot path = \<lparr>mr_Nonce = an_NonceWatermark a, mr_Watermark = an_NonceWatermark a, mr_AnchorWritten = False,
     mr_AnchorPath = path, mr_AnchorJSON = text, mr_VerifyKey = an_VerifyKey a, mr_VerifyKeyNext = [], mr_Bootstrapped = boot,
     mr_Source = [], mr_Name = [], mr_Pinned = [], mr_ResolvedAt = [], mr_TypedChainID = 0, mr_TypedContract = [], mr_TypedPrimaryType = [],
     mr_TypedRemoved = False, mr_ContractNetwork = [], mr_ContractAddr = [], mr_ContractSelector = [], mr_ContractRemoved = False\<rparr>"

definition writeAnchorStaging :: "writefault \<Rightarrow> string \<Rightarrow> string \<Rightarrow> policy_service \<Rightarrow> unit result \<times> policy_service" where
  "writeAnchorStaging w path raw s = (case w of
       WriteOK \<Rightarrow> (Inr (), s\<lparr>ps_staged := (path, raw) # ps_staged s\<rparr>)
     | WriteDirReadOnly \<Rightarrow> (Inl (New ''config.read_only''), s)
     | WriteReadOnly \<Rightarrow> (Inl (New ''config.read_only''), s)
     | _ \<Rightarrow> (Inl (New ''policy.state_error''), s))"

definition finishMutation :: "senv \<Rightarrow> Anchor \<Rightarrow> string \<Rightarrow> bool \<Rightarrow> policy_service \<Rightarrow> PolicyMutateResult result \<times> policy_service" where
  "finishMutation v a anchorOut boot s = (case Anchor_Marshal a of Inl _ \<Rightarrow> (Inl (New ''policy.state_error''), s)
     | Inr b \<Rightarrow> (let res = mutate_result a b boot (sn_anchorPath v) in
         if anchorOut \<noteq> [] then
           (case writeAnchorStaging (sn_stageWrite v) anchorOut b s of (Inl err, s') \<Rightarrow> (Inl err, s')
            | (Inr _, s') \<Rightarrow> (Inr (res\<lparr>mr_AnchorWritten := False, mr_AnchorPath := anchorOut\<rparr>), s'))
         else (case WriteAnchor (sn_lock v) (sn_anchorWrite v) b s of
             (Inl err, s') \<Rightarrow> if AnchorIsReadOnly (Some err) then (Inr (res\<lparr>mr_AnchorWritten := False\<rparr>), s') else (Inl err, s')
           | (Inr _, s') \<Rightarrow> (Inr (res\<lparr>mr_AnchorWritten := True\<rparr>), s'))))"

definition withPinEcho :: "PolicyMutateResult \<Rightarrow> PinEntry \<Rightarrow> bool \<Rightarrow> PolicyMutateResult" where
  "withPinEcho res pin remove =
    (if remove \<or> pin_ResolvedAt pin = [] \<or> (pin_Source pin \<noteq> ''ens'' \<and> pin_Source pin \<noteq> ''contact'') then res
     else res\<lparr>mr_Source := pin_Source pin, mr_Name := pin_Name pin, mr_Pinned := pin_Address pin, mr_ResolvedAt := pin_ResolvedAt pin\<rparr>)"

text \<open>Every command: the passphrase, the engine's mutation, the anchor's write, the echo.\<close>

definition on_engine_then :: "senv \<Rightarrow> (string \<Rightarrow> aengine \<Rightarrow> Anchor result \<times> aengine) \<Rightarrow> string \<Rightarrow> bool \<Rightarrow>
    (Anchor \<Rightarrow> PolicyMutateResult \<Rightarrow> PolicyMutateResult) \<Rightarrow> policy_service \<Rightarrow> PolicyMutateResult result \<times> policy_service" where
  "on_engine_then v f anchorOut boot echo s = (case sn_pass v of Inl err \<Rightarrow> (Inl err, s)
     | Inr pass \<Rightarrow> (case f pass (ps_engine s) of (Inl err, e') \<Rightarrow> (Inl err, s\<lparr>ps_engine := e'\<rparr>)
       | (Inr a, e') \<Rightarrow> (case finishMutation v a anchorOut boot (s\<lparr>ps_engine := e'\<rparr>) of (Inl err, s') \<Rightarrow> (Inl err, s')
           | (Inr res, s') \<Rightarrow> (Inr (echo a res), s'))))"

definition PolicySet :: "senv \<Rightarrow> PolicySetRequest \<Rightarrow> policy_service \<Rightarrow> PolicyMutateResult result \<times> policy_service" where
  "PolicySet v req s = (case buildChange v req of Inl err \<Rightarrow> (Inl err, s)
     | Inr change \<Rightarrow> (let bootstrapped = \<not> ss_AnchorFound (fst (snd (Show (sn_engine v) (ps_engine s)))) in
         on_engine_then v (\<lambda>pass e. Engine_Set (sn_engine v) pass change e) (sr_AnchorOut req) bootstrapped (\<lambda>a r. r) s))"

subsection \<open>Pins\<close>

definition request_pin :: "PolicyAllowRequest \<Rightarrow> PinEntry" where
  "request_pin req = \<lparr>pin_Source = pr_Source req, pin_Address = ToLower (pr_Address req), pin_Name = pr_Name req, pin_Label = pr_Label req,
     pin_AddedAt = [], pin_ResolvedAt = []\<rparr>"

definition resolved_pin :: "senv \<Rightarrow> PinEntry \<Rightarrow> address \<Rightarrow> PinEntry" where
  "resolved_pin v pin addr = pin\<lparr>pin_Address := ToLower addr, pin_ResolvedAt := av_now (sn_engine v)\<rparr>"

definition allow_pin :: "senv \<Rightarrow> PolicyAllowRequest \<Rightarrow> PinEntry result" where
  "allow_pin v req = (let pin = request_pin req in
     if pr_Remove req then Inr pin
     else if pr_Source req = ''ens'' then
       (case sn_ens v (pr_Name req) of Inl err \<Rightarrow> Inl err | Inr addr \<Rightarrow> Inr (resolved_pin v pin addr))
     else if pr_Source req = ''contact'' then
       (case sn_contacts v (pr_Name req) of Inl err \<Rightarrow> Inl err
        | Inr None \<Rightarrow> Inl (New ''ref.not_found'') | Inr (Some addr) \<Rightarrow> Inr (resolved_pin v pin addr))
     else Inr pin)"

definition deny_pin :: "senv \<Rightarrow> PolicyAllowRequest \<Rightarrow> PinEntry" where
  "deny_pin v req = (let pin = request_pin req in
     if pr_Source req = ''ens'' \<and> \<not> pr_Remove req then
       (case sn_ens v (pr_Name req) of Inl _ \<Rightarrow> pin | Inr addr \<Rightarrow> resolved_pin v pin addr)
     else pin)"

definition PolicyAllow :: "senv \<Rightarrow> PolicyAllowRequest \<Rightarrow> policy_service \<Rightarrow> PolicyMutateResult result \<times> policy_service" where
  "PolicyAllow v req s = on_engine_then v
     (\<lambda>pass e. case allow_pin v req of Inl err \<Rightarrow> (Inl err, e)
       | Inr pin \<Rightarrow> Engine_Allow (sn_engine v) pass pin (pr_Remove req) (selfSnapshot v) (sn_version v) e)
     (pr_AnchorOut req) False (\<lambda>a r. case allow_pin v req of Inl _ \<Rightarrow> r | Inr pin \<Rightarrow> withPinEcho r pin (pr_Remove req)) s"

definition PolicyDeny :: "senv \<Rightarrow> PolicyAllowRequest \<Rightarrow> policy_service \<Rightarrow> PolicyMutateResult result \<times> policy_service" where
  "PolicyDeny v req s = on_engine_then v
     (\<lambda>pass. Engine_Deny (sn_engine v) pass (deny_pin v req) (pr_Remove req) (selfSnapshot v) (sn_version v))
     (pr_AnchorOut req) False (\<lambda>a r. withPinEcho r (deny_pin v req) (pr_Remove req)) s"

subsection \<open>The registries\<close>

definition typed_entry :: "PolicyTypedAllowRequest \<Rightarrow> TypedAllow" where
  "typed_entry req = \<lparr>ta_ChainID = yr_ChainID req, ta_VerifyingContract = ToLower (TrimSpace (yr_VerifyingContract req)),
     ta_PrimaryType = TrimSpace (yr_PrimaryType req), ta_Label = yr_Label req\<rparr>"

definition PolicyTypedAllow :: "senv \<Rightarrow> PolicyTypedAllowRequest \<Rightarrow> policy_service \<Rightarrow> PolicyMutateResult result \<times> policy_service" where
  "PolicyTypedAllow v req s = (let t = typed_entry req in on_engine_then v
     (\<lambda>pass. Engine_TypedAllow (sn_isHex v) (sn_engine v) pass t (yr_Remove req) (selfSnapshot v) (sn_version v))
     (yr_AnchorOut req) False
     (\<lambda>a r. r\<lparr>mr_TypedChainID := ta_ChainID t, mr_TypedContract := ta_VerifyingContract t, mr_TypedPrimaryType := ta_PrimaryType t,
        mr_TypedRemoved := yr_Remove req\<rparr>) s)"

definition PolicyTypedRemove :: "senv \<Rightarrow> PolicyTypedAllowRequest \<Rightarrow> policy_service \<Rightarrow> PolicyMutateResult result \<times> policy_service" where
  "PolicyTypedRemove v req s = PolicyTypedAllow v (req\<lparr>yr_Remove := True\<rparr>) s"

definition contract_entry :: "PolicyContractAllowRequest \<Rightarrow> ContractAllow" where
  "contract_entry req = \<lparr>ca_Network = TrimSpace (xr_Network req), ca_Contract = ToLower (TrimSpace (xr_Contract req)),
     ca_Selector = ToLower (TrimSpace (xr_Selector req)), ca_Label = xr_Label req, ca_AddedAt = []\<rparr>"

definition PolicyContractAllow :: "senv \<Rightarrow> PolicyContractAllowRequest \<Rightarrow> policy_service \<Rightarrow> PolicyMutateResult result \<times> policy_service" where
  "PolicyContractAllow v req s = (let c = contract_entry req in on_engine_then v
     (\<lambda>pass. Engine_ContractAllow (sn_isHex v) (sn_engine v) pass c (xr_Remove req) (selfSnapshot v) (sn_version v))
     (xr_AnchorOut req) False
     (\<lambda>a r. r\<lparr>mr_ContractNetwork := ca_Network c, mr_ContractAddr := ca_Contract c, mr_ContractSelector := ca_Selector c,
        mr_ContractRemoved := xr_Remove req\<rparr>) s)"

definition PolicyContractRemove :: "senv \<Rightarrow> PolicyContractAllowRequest \<Rightarrow> policy_service \<Rightarrow> PolicyMutateResult result \<times> policy_service" where
  "PolicyContractRemove v req s = PolicyContractAllow v (req\<lparr>xr_Remove := True\<rparr>) s"

subsection \<open>Rotation, reset, release\<close>

definition PolicyChangeAdminPassphrase :: "senv \<Rightarrow> bool \<Rightarrow> bool \<Rightarrow> string \<Rightarrow> policy_service \<Rightarrow> PolicyMutateResult result \<times> policy_service" where
  "PolicyChangeAdminPassphrase v stage commit anchorOut s = on_engine_then v
     (\<lambda>pass e. case sn_nextPass v of Inl err \<Rightarrow> (Inl err, e) | Inr next \<Rightarrow> ChangeAdminPassphrase (sn_engine v) pass next stage commit e)
     anchorOut False (\<lambda>a r. r\<lparr>mr_VerifyKeyNext := an_VerifyKeyNext a\<rparr>) s"

definition PolicyResetForce :: "senv \<Rightarrow> string \<Rightarrow> policy_service \<Rightarrow> PolicyMutateResult result \<times> policy_service" where
  "PolicyResetForce v anchorOut s = on_engine_then v
     (\<lambda>pass. ResetForce (sn_engine v) pass (selfSnapshot v) (sn_version v)) anchorOut False (\<lambda>a r. r) s"

definition PolicyCountersRelease :: "senv \<Rightarrow> env \<Rightarrow> string \<Rightarrow> policy_service \<Rightarrow> engine \<Rightarrow> unit result \<times> engine" where
  "PolicyCountersRelease v ev rid s st = (case sn_pass v of Inl err \<Rightarrow> (Inl err, st)
     | Inr pass \<Rightarrow> CountersRelease (sn_engine v) pass (ps_engine s) ev rid st)"

section \<open>Queries\<close>

record PolicyPinResult =
  pp_VerifyKey :: string
  pp_VerifyKeyNext :: string
  pp_AnchorJSON :: string
  pp_Verifies :: bool

definition PolicyPinPrint :: "policy_service \<Rightarrow> PolicyPinResult result" where
  "PolicyPinPrint s = (case PinPrint (ps_engine s) of Inl err \<Rightarrow> Inl err
     | Inr a \<Rightarrow> (case Anchor_Marshal a of Inl _ \<Rightarrow> Inl (New ''policy.state_error'')
       | Inr b \<Rightarrow> Inr \<lparr>pp_VerifyKey = an_VerifyKey a, pp_VerifyKeyNext = an_VerifyKeyNext a, pp_AnchorJSON = b, pp_Verifies = True\<rparr>))"

definition PolicyPinVerify :: "aenv \<Rightarrow> string \<Rightarrow> policy_service \<Rightarrow> PolicyPinResult result" where
  "PolicyPinVerify v candidateKey s = (case PinVerify (av_crypto v) candidateKey (ps_engine s) of Inl err \<Rightarrow> Inl err
     | Inr ok \<Rightarrow> if \<not> ok then Inl (New ''policy.seal_violation'')
         else Inr \<lparr>pp_VerifyKey = [], pp_VerifyKeyNext = [], pp_AnchorJSON = [], pp_Verifies = True\<rparr>)"

record PolicyCheckRequest =
  cq_From :: string
  cq_To :: string
  cq_Amount :: string
  cq_MaxGasPrice :: string
  cq_Network :: string

record PolicyCheckResult =
  cs_Allowed :: bool
  cs_Code :: string
  cs_RetryAfter :: "time option"
  cs_Violations :: "Violation list"

definition parsePolicyAddr :: "senv \<Rightarrow> string \<Rightarrow> address result" where
  "parsePolicyAddr v s = (case ParseAccountRef (sn_isHex v) (sn_toAddr v) (TrimSpace s) of
       Inr ref \<Rightarrow> (if ar_Kind ref \<noteq> RefAddress then Inl (New ''usage.bad_address'')
         else (case ar_Addr ref of Some a \<Rightarrow> Inr a | None \<Rightarrow> Inr zero_address))
     | Inl _ \<Rightarrow> Inl (New ''usage.bad_address''))"

definition deniedCode :: "string \<Rightarrow> string" where
  "deniedCode code = (if code = [] then ''policy.denied'' else code)"

definition viol_value :: "Violation \<Rightarrow> jval" where
  "viol_value x = JObj [(''code'', JStr (vi_Code x)), (''data'', JObj (vi_Data x))]"

definition check_query :: "address \<Rightarrow> address \<Rightarrow> int \<Rightarrow> int option \<Rightarrow> string \<Rightarrow> Check" where
  "check_query src dst amt gas network = zero_check\<lparr>ck_Account := src, ck_Dest := dst, ck_SpendWei := Some amt, ck_MaxGasWei := Some 0,
     ck_MaxFeePerGas := gas, ck_Kind := ''transfer'', ck_Network := network, ck_Asset := ''eth''\<rparr>"

definition denial :: "Decision \<Rightarrow> Error" where
  "denial d = (let e = New (deniedCode (de_Code d));
     e1 = (case de_RetryAfter d of None \<Rightarrow> e | Some t \<Rightarrow> WithData e [(''retry_after'', JTime t)])
   in if de_Violations d = [] then e1 else WithData e1 [(''violations'', JList (map viol_value (de_Violations d)))])"

definition PolicyCheck :: "senv \<Rightarrow> string \<Rightarrow> env \<Rightarrow> PolicyCheckRequest \<Rightarrow> policy_service \<Rightarrow> engine \<Rightarrow>
    (PolicyCheckResult option \<times> Error option) \<times> engine" where
  "PolicyCheck v defaultNetwork ev req s st =
    (case parsePolicyAddr v (cq_From req) of Inl err \<Rightarrow> ((None, Some err), st) | Inr src \<Rightarrow>
     (case parsePolicyAddr v (cq_To req) of Inl err \<Rightarrow> ((None, Some err), st) | Inr dst \<Rightarrow>
     (case parseEthAmount (cq_Amount req) of Inl err \<Rightarrow> ((None, Some err), st) | Inr amt \<Rightarrow>
     (case (if cq_MaxGasPrice req = [] then Inr None else map_sum id Some (parseFee (cq_MaxGasPrice req))) of Inl err \<Rightarrow> ((None, Some err), st)
      | Inr gas \<Rightarrow>
        (let network = (if cq_Network req = [] then defaultNetwork else cq_Network req) in
         (case WhatIf (sn_engine v) (ps_engine s) ev (check_query src dst amt gas network) st of
            (Inl err, st') \<Rightarrow> ((None, Some err), st')
          | (Inr d, st') \<Rightarrow>
             ((Some \<lparr>cs_Allowed = de_Allowed d, cs_Code = de_Code d, cs_RetryAfter = de_RetryAfter d, cs_Violations = de_Violations d\<rparr>,
               if de_Allowed d then None else Some (denial d)), st')))))))"

end
