(* ===== verification/Policy_Service_Claims.thy ===== *)
theory Policy_Service_Claims
  imports Policy_Service
begin

text \<open>
  From what the administrator writes to what a later process enforces: the policy commands end to end, through the sealed file
  and the anchor file, whatever happens to the second write; and what two processes do to each other.
\<close>

section \<open>The anchor file\<close>

definition anchor_bounds :: "Anchor \<Rightarrow> bool" where
  "anchor_bounds a \<longleftrightarrow> sp_N (an_Scrypt a) < 2 ^ 63 \<and> sp_R (an_Scrypt a) < 2 ^ 63 \<and> sp_P (an_Scrypt a) < 2 ^ 63"

lemma find_field_set: "find_field fs k = Some d \<Longrightarrow> \<exists>n. (n, d) \<in> set fs"
  by (auto simp: find_field_def find_Some_iff split: option.splits dest: map_of_SomeD) (metis nth_mem)

lemma dec_members_inv:
  assumes "\<And>n d v x y. (n, d) \<in> set fs \<Longrightarrow> P x \<Longrightarrow> d v x = Some y \<Longrightarrow> P y" "P old" "dec_members strict fs ms old = Some new"
  shows "P new"
  using assms(2,3)
proof (induction ms arbitrary: old)
  case (Cons kv ms)
  obtain k v where kv: "kv = (k, v)" by (cases kv)
  show ?case
  proof (cases "find_field fs k")
    case None
    thus ?thesis using Cons kv by (auto split: if_splits)
  next
    case (Some d)
    then obtain n where n: "(n, d) \<in> set fs" using find_field_set by blast
    obtain x where x: "d v old = Some x" "dec_members strict fs ms x = Some new" using Cons.prems kv Some by (auto split: option.splits)
    show ?thesis by (rule Cons.IH [OF assms(1) [OF n Cons.prems(1) x(1)] x(2)])
  qed
qed simp

lemma dec_struct_inv:
  assumes "\<And>n d v x y. (n, d) \<in> set fs \<Longrightarrow> P x \<Longrightarrow> d v x = Some y \<Longrightarrow> P y" "P old" "dec_struct strict fs j old = Some new"
  shows "P new"
proof (cases j)
  case (JsObj ms)
  show ?thesis
    by (rule dec_members_inv [where P = P and fs = fs and ms = ms and strict = strict, OF _ assms(2)]) (use assms JsObj in \<open>auto simp: dec_struct_def\<close>)
qed (use assms(2,3) in \<open>simp_all add: dec_struct_def\<close>)

definition small_scrypt :: "ScryptParams \<Rightarrow> bool" where
  "small_scrypt p \<longleftrightarrow> sp_N p < 2 ^ 63 \<and> sp_R p < 2 ^ 63 \<and> sp_P p < 2 ^ 63"

lemma dec_int_bound: "dec_int v x = Some y \<Longrightarrow> x < 2 ^ 63 \<Longrightarrow> y < 2 ^ 63"
  by (auto simp: dec_int_def split: json.splits option.splits if_splits)

lemma dec_scrypt_small:
  assumes "dec_scrypt v x = Some y" "small_scrypt x"
  shows "small_scrypt y"
proof (rule dec_struct_inv [where P = small_scrypt, OF _ assms(2) assms(1) [unfolded dec_scrypt_def]])
  fix n d and v :: json and x y :: ScryptParams
  assume d: "(n, d) \<in> set [(''n'', field sp_N sp_N_update dec_int), (''r'', field sp_R sp_R_update dec_int), (''p'', field sp_P sp_P_update dec_int)]"
    "small_scrypt x" "d v x = Some y"
  from d(1) show "small_scrypt y" using d(2,3) dec_int_bound by (auto simp: field_def small_scrypt_def)
qed

lemma anchor_wire_small:
  assumes "dec_struct True anchor_fields j zero_wire = Some w"
  shows "small_scrypt (aw_Scrypt w)"
proof (rule dec_struct_inv [where P = "\<lambda>w. small_scrypt (aw_Scrypt w)", OF _ _ assms])
  fix n d and v :: json and x y :: anchorWire
  assume d: "(n, d) \<in> set anchor_fields" "small_scrypt (aw_Scrypt x)" "d v x = Some y"
  from d(1) show "small_scrypt (aw_Scrypt y)" unfolding anchor_fields_def using d(2,3) dec_scrypt_small by (auto simp: field_def)
qed (simp add: zero_wire_def small_scrypt_def)

lemma ParseAnchor_ok: "ParseAnchor b = Inr a \<Longrightarrow> check_anchor a = Inr a \<and> anchor_bounds a"
proof -
  assume "ParseAnchor b = Inr a"
  then obtain j rest w where w: "dec_struct True anchor_fields j zero_wire = Some w" "check_anchor (wire_anchor w) = Inr a"
    by (auto simp: ParseAnchor_def split: option.splits if_splits)
  hence "wire_anchor w = a" by (auto simp: check_anchor_def split: if_splits)
  thus ?thesis using w anchor_wire_small [OF w(1)] by (auto simp: anchor_bounds_def small_scrypt_def wire_anchor_def)
qed

lemma anchor_rereads: "Anchor_Marshal a = Inr t \<Longrightarrow> check_anchor a = Inr a \<Longrightarrow> anchor_bounds a \<Longrightarrow> ParseAnchor t = Inr a"
  using anchor_roundtrip [of a] by (auto simp: anchor_bounds_def)

lemma check_bump: "check_anchor a = Inr a \<Longrightarrow> check_anchor (bump n a) = Inr (bump n a)"
  by (auto simp: check_anchor_def bump_def split: if_splits)

lemma bounds_bump: "anchor_bounds a \<Longrightarrow> anchor_bounds (bump n a)"
  by (simp add: anchor_bounds_def bump_def)

text \<open>What the second write leaves: the new anchor's text, or the file as it was.\<close>

lemma WriteAnchor_cases:
  "WriteAnchor lf w raw s = (Inr (), s\<lparr>ps_anchorFile := Some raw\<rparr>) \<or> (\<exists>err. WriteAnchor lf w raw s = (Inl err, s))"
  by (cases w; cases "mapLockErr lf") (auto simp: WriteAnchor_def)

lemma finishMutation_cases:
  assumes "finishMutation v a out boot s = (Inr r, s')"
  shows "\<exists>t. Anchor_Marshal a = Inr t \<and> ps_engine s' = ps_engine s \<and> ps_anchorFile s' \<in> {ps_anchorFile s, Some t} \<and> mr_AnchorJSON r = t \<and>
    (mr_AnchorWritten r \<longleftrightarrow> out = [] \<and> ps_anchorFile s' = Some t \<and> WriteAnchor (sn_lock v) (sn_anchorWrite v) t s = (Inr (), s'))"
proof -
  obtain t where t: "Anchor_Marshal a = Inr t" using assms by (cases "Anchor_Marshal a") (auto simp: finishMutation_def)
  show ?thesis
  proof (cases "out = []")
    case False
    thus ?thesis using assms t
      by (auto simp: finishMutation_def writeAnchorStaging_def Let_def mutate_result_def split: writefault.splits)
  next
    case True
    thus ?thesis using assms t WriteAnchor_cases [of "sn_lock v" "sn_anchorWrite v" t s]
      by (auto simp: finishMutation_def Let_def mutate_result_def split: if_splits)
  qed
qed

text \<open>A service just opened: its trust root is the parsed anchor file.\<close>

definition opened :: "policy_service \<Rightarrow> bool" where
  "opened s \<longleftrightarrow> open_service LockOK ReadOK s = Inr s"

definition trust :: "policy_service \<Rightarrow> Anchor \<times> bool" where
  "trust s = (ae_anchor (ps_engine s), ae_anchorFound (ps_engine s))"

lemma opened_trust: "opened s \<Longrightarrow> (case ps_anchorFile s of None \<Rightarrow> trust s = (zero_anchor, False) | Some t \<Rightarrow> ParseAnchor t = Inr (fst (trust s)) \<and> snd (trust s))"
proof -
  assume o: "opened s"
  obtain a found where a: "open_trust LockOK ReadOK (ps_anchorFile s) = Inr (a, found)" "s = s\<lparr>ps_engine := (ps_engine s)\<lparr>ae_anchor := a, ae_anchorFound := found\<rparr>\<rparr>"
    using o by (auto simp: opened_def open_service_def split: sum.splits)
  have "trust s = (a, found)" by (subst a(2)) (simp add: trust_def)
  thus ?thesis using a(1)
    by (cases "ps_anchorFile s") (auto simp: open_trust_def ReadAnchor_def mapLockErr_def split: sum.splits)
qed

lemma open_service_trust:
  assumes "open_service lf rf s = Inr s1"
  shows "ae_file (ps_engine s1) = ae_file (ps_engine s)"
    "\<not> ae_anchorFound (ps_engine s1) \<or> (\<exists>t. ps_anchorFile s = Some t \<and> ParseAnchor t = Inr (ae_anchor (ps_engine s1)))"
  using assms by (auto simp: open_service_def open_trust_def ReadAnchor_def split: sum.splits option.splits if_splits readfault.splits)

text \<open>The policy a process enforces.\<close>

definition active :: "senv \<Rightarrow> policy_service \<Rightarrow> Policy option result" where
  "active v s = (let e = ps_engine s in loadActivePolicy (av_crypto (sn_engine v)) (ae_file e) (ae_anchor e) (ae_anchorFound e))"

lemma active_load: "active v s = (case load (sn_engine v) (ps_engine s) of Inl e \<Rightarrow> Inl e | Inr l \<Rightarrow> Inr (if lr_present l then Some (lr_policy l) else None))"
  by (simp add: active_def load_def loadActivePolicy_def Let_def)

section \<open>A command, the second write, and the next process\<close>

definition storable :: "Anchor \<Rightarrow> bool" where
  "storable a \<longleftrightarrow> check_anchor a = Inr a \<and> anchor_bounds a"

lemma storable_cong:
  "an_VerifyKey a = an_VerifyKey b \<Longrightarrow> an_VerifyKeyNext a = an_VerifyKeyNext b \<Longrightarrow> an_Salt a = an_Salt b \<Longrightarrow> an_Scrypt a = an_Scrypt b \<Longrightarrow>
   an_StagedSalt a = an_StagedSalt b \<Longrightarrow> storable a = storable b"
  by (simp add: storable_def check_anchor_def anchor_bounds_def split: if_split)

lemma storable_bump [simp]: "storable (bump n a) = storable a"
  by (rule storable_cong) (simp_all add: bump_def)

text \<open>An anchor with a key and a salt this program encoded.\<close>

lemma storable_encoded:
  assumes "Anchor_Marshal a = Inr t" "an_VerifyKey a = EncodeKey pk" "length pk = 32" "an_VerifyKeyNext a = []" "an_Salt a = EncodeSalt salt"
    "an_StagedSalt a = []" "anchor_bounds a"
  shows "storable a"
  using assms by (auto simp: storable_def check_anchor_def Anchor_Marshal_def decode_EncodeKey EncodeSalt_def split: if_splits)

lemma mutate_anchor: "mutate v pass w r f e = (Inr a, e') \<Longrightarrow> ae_anchorFound e \<and> (\<exists>n. a = bump n (ae_anchor e))"
  using mutate_cases [of v pass w r f e] authenticate_pins by fastforce

lemma commit_anchor:
  assumes "commit_rotation v next e = (Inr a, e')" "signature_scheme (av_crypto v)"
  shows "\<exists>n pk salt. length pk = 32 \<and> a = bump n ((ae_anchor e)\<lparr>an_VerifyKey := EncodeKey pk, an_VerifyKeyNext := [], an_Salt := EncodeSalt salt, an_StagedSalt := []\<rparr>)"
proof -
  obtain fam where f: "CommitRotation (av_crypto v) next (ae_anchor e) (an_Scrypt (ae_anchor e)) = Inr fam"
    using assms(1) by (auto simp: commit_rotation_def split: sum.splits)
  have "length (rf_Public fam) = 32"
    using f assms(2) by (auto simp: CommitRotation_def DeriveSealKey_def signature_scheme_def split: sum.splits option.splits if_splits)
  moreover obtain n where "a = bump n ((ae_anchor e)\<lparr>an_VerifyKey := EncodeKey (rf_Public fam), an_VerifyKeyNext := [], an_Salt := EncodeSalt (rf_Salt fam), an_StagedSalt := []\<rparr>)"
    using assms(1) f by (auto simp: commit_rotation_def Let_def split: sum.splits prod.splits)
  ultimately show ?thesis by blast
qed

lemma bootstrap_anchor:
  assumes "Engine_Set v pass c e = (Inr a, e')" "\<not> ae_anchorFound e" "signature_scheme (av_crypto v)"
  shows "\<exists>pk salt. length pk = 32 \<and> a = \<lparr>an_VerifyKey = EncodeKey pk, an_VerifyKeyNext = [], an_Salt = EncodeSalt salt, an_Scrypt = DefaultScryptParams,
     an_NonceWatermark = 1, an_StagedSalt = []\<rparr>"
proof -
  obtain b where b: "InitSeal v pass e = Inr b" "a = b\<lparr>an_NonceWatermark := 1\<rparr>"
    using assms(1,2) by (auto simp: Engine_Set_def Let_def split: sum.splits prod.splits)
  obtain salt sk where "b = \<lparr>an_VerifyKey = EncodeKey (cr_public (av_crypto v) sk), an_VerifyKeyNext = [], an_Salt = EncodeSalt salt, an_Scrypt = DefaultScryptParams,
     an_NonceWatermark = 0, an_StagedSalt = []\<rparr>"
    using b(1) by (auto simp: InitSeal_def DeriveSealKey_def split: option.splits if_splits)
  moreover have "length (cr_public (av_crypto v) sk) = 32" using assms(3) by (simp add: signature_scheme_def)
  ultimately show ?thesis using b(2) by (intro exI [of _ "cr_public (av_crypto v) sk"] exI [of _ salt]) simp
qed

lemma command_storable:
  assumes "run_cmd hx v pass self wb cmd e = (Inr a, e')" "\<not> stages cmd" "signature_scheme (av_crypto v)" "Anchor_Marshal a = Inr t"
    "ae_anchorFound e \<Longrightarrow> storable (ae_anchor e)"
  shows "storable a"
proof -
  have m: "storable a" if "mutate v pass w r f e = (Inr a, e')" for w r f
    using mutate_anchor [OF that] assms(5) by auto
  show ?thesis
  proof (cases cmd)
    case (CmdSet c)
    show ?thesis
    proof (cases "ae_anchorFound e")
      case True
      thus ?thesis using assms(1) CmdSet m by (simp add: Engine_Set_def)
    next
      case False
      then obtain pk salt where a: "length pk = 32" "a = \<lparr>an_VerifyKey = EncodeKey pk, an_VerifyKeyNext = [], an_Salt = EncodeSalt salt,
          an_Scrypt = DefaultScryptParams, an_NonceWatermark = 1, an_StagedSalt = []\<rparr>"
        using bootstrap_anchor [of v pass c e a e'] assms(1,3) CmdSet by auto
      show ?thesis by (rule storable_encoded [OF assms(4), where pk = pk and salt = salt]) (simp_all add: a anchor_bounds_def DefaultScryptParams_def)
    qed
  next
    case (CmdCommit nx)
    hence c: "commit_rotation v nx e = (Inr a, e')" and f: "ae_anchorFound e"
      using assms(1) by (auto simp: ChangeAdminPassphrase_def split: if_splits sum.splits)
    obtain n pk salt where a: "length pk = 32" "a = bump n ((ae_anchor e)\<lparr>an_VerifyKey := EncodeKey pk, an_VerifyKeyNext := [], an_Salt := EncodeSalt salt, an_StagedSalt := []\<rparr>)"
      using commit_anchor [OF c assms(3)] by blast
    have "anchor_bounds (ae_anchor e)" using assms(5) [OF f] by (simp add: storable_def)
    thus ?thesis by (intro storable_encoded [OF assms(4), where pk = pk and salt = salt]) (simp_all add: a anchor_bounds_def bump_def)
  next
    case CmdReset
    hence f: "ae_anchorFound e" and "\<exists>n. a = (ae_anchor e)\<lparr>an_NonceWatermark := n\<rparr>"
      using assms(1) by (auto simp: ResetForce_def Let_def split: if_splits sum.splits prod.splits)
    then obtain n where a: "a = (ae_anchor e)\<lparr>an_NonceWatermark := n\<rparr>" by blast
    have "storable a = storable (ae_anchor e)" by (rule storable_cong) (simp_all add: a)
    thus ?thesis using assms(5) f by simp
  next
    case (CmdTyped x rm)
    thus ?thesis using assms(1) m by (auto simp: Engine_TypedAllow_def split: sum.splits if_splits)
  next
    case (CmdContract x rm)
    thus ?thesis using assms(1) m by (auto simp: Engine_ContractAllow_def split: sum.splits if_splits)
  qed (use assms(1,2) m in \<open>auto simp: Engine_Allow_def Engine_Deny_def stages_def\<close>)
qed

lemma opened_storable: "opened s \<Longrightarrow> ae_anchorFound (ps_engine s) \<Longrightarrow> storable (ae_anchor (ps_engine s))"
  using opened_trust [of s] ParseAnchor_ok by (cases "ps_anchorFile s") (auto simp: trust_def storable_def)

text \<open>What any later process enforces after a successful command: the intended policy, or nothing is let through.\<close>

lemma active_missing: "\<not> ae_anchorFound (ps_engine s) \<Longrightarrow> ae_file (ps_engine s) = Some raw \<Longrightarrow> \<exists>err. active v s = Inl err"
  by (simp add: active_def loadActivePolicy_def loadPolicy_def Let_def)

lemma loaded_active: "loaded (loadPolicy (av_crypto (sn_engine v)) (ae_file (ps_engine s)) (ae_anchor (ps_engine s)) (ae_anchorFound (ps_engine s))) p \<Longrightarrow> active v s = Inr (Some p)"
  by (auto simp: active_def loadActivePolicy_def loaded_def Let_def)

lemma command_active:
  assumes "signature_scheme (av_crypto (sn_engine v))" "opened s" "policy_ok (sn_engine v) (ps_engine s)" "countable_nonce (ps_engine s) (sn_engine v)"
    "run_cmd hx (sn_engine v) pass self wb cmd (ps_engine s) = (Inr a, e')" "\<not> stages cmd" "cmd_ok cmd"
    "finishMutation v a out boot (s\<lparr>ps_engine := e'\<rparr>) = (Inr r, s')" "open_service lf rf s' = Inr s1"
  obtains p where "seals (sn_engine v) self wb cmd (ps_engine s) a e' p"
    "active v s1 = Inr (Some (canonical (intended (sn_engine v) self wb cmd (ps_engine s) p))) \<or> (\<exists>err. active v s1 = Inl err)"
proof -
  let ?v = "sn_engine v" let ?e = "ps_engine s"
  obtain p where p: "seals ?v self wb cmd ?e a e' p" "loaded (load ?v e') (canonical (intended ?v self wb cmd ?e p))"
    "ae_anchorFound ?e \<Longrightarrow> loaded (loadPolicy (av_crypto ?v) (ae_file e') (ae_anchor ?e) True) (canonical (intended ?v self wb cmd ?e p))"
    using sealed_change [OF assms(1,5-7,3,4)] by blast
  obtain t where t: "Anchor_Marshal a = Inr t" "ps_engine s' = e'" "ps_anchorFile s' \<in> {ps_anchorFile s, Some t}"
    using finishMutation_cases [OF assms(8)] by auto
  have raw: "\<exists>raw. ae_file e' = Some raw" "a = ae_anchor e'" "ae_anchorFound e'" using p(1) by (auto simp: seals_def sealed_def)
  have f: "ae_file (ps_engine s1) = ae_file e'" using open_service_trust(1) [OF assms(9)] t(2) by simp
  have "active v s1 = Inr (Some (canonical (intended ?v self wb cmd ?e p))) \<or> (\<exists>err. active v s1 = Inl err)"
  proof (cases "ae_anchorFound (ps_engine s1)")
    case False
    thus ?thesis using active_missing raw(1) f by auto
  next
    case True
    then obtain u where u: "ps_anchorFile s' = Some u" "ParseAnchor u = Inr (ae_anchor (ps_engine s1))"
      using open_service_trust(2) [OF assms(9)] by blast
    have "loaded (loadPolicy (av_crypto ?v) (ae_file e') (ae_anchor (ps_engine s1)) True) (canonical (intended ?v self wb cmd ?e p))"
    proof (cases "u = t")
      case same: True
      have "storable a" by (rule command_storable [OF assms(5,6,1) t(1) opened_storable [OF assms(2)]])
      hence "ae_anchor (ps_engine s1) = a" using u(2) same anchor_rereads [OF t(1)] by (simp add: storable_def)
      thus ?thesis using p(2) raw by (simp add: load_def)
    next
      case False
      hence "ps_anchorFile s = Some u" using u(1) t(3) by auto
      hence "ParseAnchor u = Inr (ae_anchor ?e)" "ae_anchorFound ?e" using opened_trust [OF assms(2)] by (auto simp: trust_def)
      thus ?thesis using p(3) u(2) by simp
    qed
    thus ?thesis using loaded_active [of v s1] True f by simp
  qed
  thus thesis using p(1) that by blast
qed

lemma PolicySet_runs:
  assumes "PolicySet v req s = (Inr r, s')"
  obtains c pass a e' boot where "buildChange v req = Inr c" "Engine_Set (sn_engine v) pass c (ps_engine s) = (Inr a, e')"
    "finishMutation v a (sr_AnchorOut req) boot (s\<lparr>ps_engine := e'\<rparr>) = (Inr r, s')"
  using assms by (auto simp: PolicySet_def on_engine_then_def Let_def split: sum.splits prod.splits)

section \<open>The limits in the policy\<close>

lemma maxTx_rules: "rl_maxTx (resolveLimits p net) = (case find (\<lambda>n. EqualFold (nr_Network n) net) (ru_Networks (po_Rules p)) of
    None \<Rightarrow> parseLimit (MaxTxWei (ru_Default (po_Rules p)))
  | Some n \<Rightarrow> overrideLimit (parseLimit (MaxTxWei (ru_Default (po_Rules p)))) (MaxTxWei (nr_Limits n)))"
  by (simp add: resolveLimits_def Let_def split: option.split)

lemma find_upsert: "EqualFold (nr_Network n) net \<Longrightarrow>
  \<exists>l. find (\<lambda>m. EqualFold (nr_Network m) net) (upsertNetwork n ns) = Some l \<and> (MaxTxWei (nr_Limits n) \<noteq> Absent \<longrightarrow> MaxTxWei (nr_Limits l) = MaxTxWei (nr_Limits n))"
proof (induction ns)
  case (Cons m ns)
  have "EqualFold (nr_Network m) net \<longleftrightarrow> EqualFold (nr_Network m) (nr_Network n)" using Cons.prems by (simp add: EqualFold_def)
  thus ?case using Cons by (simp add: equalFoldStr_EqualFold mergeLimits_def over_def)
qed simp

lemma network_limit:
  assumes "ch_Networks c = [n]" "EqualFold (nr_Network n) net" "MaxTxWei (nr_Limits n) = Amount (int_dec w)" "po_Rules q = po_Rules (applyChange p c)"
  shows "rl_maxTx (resolveLimits q net) = Some w"
proof -
  obtain ns where ns: "ru_Networks (po_Rules q) = upsertNetwork n ns" using assms(1,4) by (simp add: applyChange_def Let_def)
  obtain l where "find (\<lambda>m. EqualFold (nr_Network m) net) (upsertNetwork n ns) = Some l" "MaxTxWei (nr_Limits l) = Amount (int_dec w)"
    using find_upsert [OF assms(2), of ns] assms(3) by auto
  thus ?thesis by (simp add: maxTx_rules ns)
qed

definition inherits_maxTx :: "Policy \<Rightarrow> string \<Rightarrow> bool" where
  "inherits_maxTx p net \<longleftrightarrow> (\<forall>n \<in> set (ru_Networks (po_Rules p)). EqualFold (nr_Network n) net \<longrightarrow> MaxTxWei (nr_Limits n) = Absent)"

lemma default_limit:
  assumes "ch_Default c = Some l" "ch_Networks c = []" "MaxTxWei l = Amount (int_dec w)" "po_Rules q = po_Rules (applyChange p c)" "inherits_maxTx p net"
  shows "rl_maxTx (resolveLimits q net) = Some w"
proof -
  have d: "MaxTxWei (ru_Default (po_Rules q)) = Amount (int_dec w)" "ru_Networks (po_Rules q) = ru_Networks (po_Rules p)"
    using assms(1-4) by (simp_all add: applyChange_def Let_def mergeLimits_def over_def)
  show ?thesis
  proof (cases "find (\<lambda>n. EqualFold (nr_Network n) net) (ru_Networks (po_Rules p))")
    case (Some n)
    hence "MaxTxWei (nr_Limits n) = Absent" using assms(5) by (auto simp: inherits_maxTx_def find_Some_iff)
    thus ?thesis using Some d by (simp add: maxTx_rules)
  qed (simp add: maxTx_rules d)
qed

lemma Reserve_evaluated: "Reserve (Inr (Some p)) ev c st = (Inr x, st') \<Longrightarrow> \<exists>spent. de_Allowed (Evaluate p c (Some spent) (ev_now ev))"
  unfolding Reserve_def withNetworkLock_def withLock_def
  by (auto simp: Let_def split: sum.splits if_splits prod.splits lockfault.splits)

lemma over_limit_refused:
  assumes "rl_maxTx (resolveLimits p (ck_Network c)) = Some w" "effectiveKind c \<noteq> KindPermit" "\<not> ck_TypedUnknown c" "w < spendWei c + maxGasWei c"
  shows "\<exists>err. fst (Reserve (Inr (Some p)) ev c st) = Inl err"
proof (cases "Reserve (Inr (Some p)) ev c st")
  case (Pair r st')
  show ?thesis
  proof (cases r)
    case (Inr x)
    then obtain spent where "de_Allowed (Evaluate p c (Some spent) (ev_now ev))" using Reserve_evaluated Pair by blast
    hence "permitted p c (Some spent)" using Evaluate_allowed [OF assms(3)] by blast
    thus ?thesis using assms(1,2,4) by (auto simp: permitted_def Let_def under_def debit_def)
  qed (simp add: Pair)
qed

lemma wf_int_limit [simp]: "wf_limit (Amount (int_dec i))"
proof -
  have "int_dec i \<noteq> nullSentinel" using int_dec_hd [of i] by (auto simp: nullSentinel_def num_char_def is_digit_def)
  thus ?thesis by (simp add: wf_limit_def)
qed

lemma setWei_wf: "setWei f raw = Inr l \<Longrightarrow> wf_limit l"
proof -
  have "wf_limit Absent" "wf_limit NoLimit" by (simp_all add: wf_limit_def)
  thus "setWei f raw = Inr l \<Longrightarrow> wf_limit l" by (auto simp: setWei_def Let_def split: option.splits if_splits sum.splits)
qed

text \<open>The change a request with an amount for \<open>--max-tx\<close> becomes.\<close>

lemma setWei_given: "setWei f raw = Inr (Amount s) \<Longrightarrow> raw \<noteq> None"
  by (cases raw) (auto simp: setWei_def)

lemma buildChange_limit:
  assumes "buildChange v req = Inr c" "setWei False (sr_MaxTx req) = Inr (Amount (int_dec w))"
  obtains l where "MaxTxWei l = Amount (int_dec w)" "renders l"
    "(ch_Default c, ch_Networks c) = (if sr_Network req = [] then (Some l, []) else (None, [\<lparr>nr_Network = ToLower (sr_Network req), nr_Limits = l\<rparr>]))"
proof -
  obtain perDay gas al incl where g: "setWei False (sr_MaxDay req) = Inr perDay" "setWei True (sr_MaxGasPrice req) = Inr gas"
    "parseOnOff (sr_Allowlist req) = Inr al" "parseOnOff (sr_IncludeSelf req) = Inr incl"
    using assms by (auto simp: buildChange_def split: sum.splits)
  let ?l = "\<lparr>MaxTxWei = Amount (int_dec w), MaxDayWei = perDay, MaxGasPriceWei = gas, AllowlistEnabled = al, IncludeSelf = incl, TypedDataUnknown = None\<rparr>"
  have t: "touched req al incl" using setWei_given [OF assms(2)] by (simp add: touched_def)
  have "(ch_Default c, ch_Networks c) = scoped req True ?l"
    using assms g t by (auto simp: buildChange_def Let_def split: sum.splits prod.splits)
  moreover have "renders ?l" using setWei_wf [OF g(1)] setWei_wf [OF g(2)] by (simp add: renders_def wf_limits_def)
  ultimately show thesis using that [of ?l] by (simp add: scoped_def)
qed

lemma change_ok_limit:
  assumes "(ch_Default c, ch_Networks c) = (if b then (Some l, []) else (None, [\<lparr>nr_Network = x, nr_Limits = l\<rparr>]))" "renders l" "MaxTxWei l = Amount t"
  shows "change_ok c"
  using assms by (cases b) (auto simp: change_ok_def has_field_iff empty_limits_def renders_def)

section \<open>Properties\<close>

text \<open>C30. A limit the administrator sets is enforced: once \<open>policy set --max-tx\<close> reports success, in whichever way its anchor
  was stored, staged or left to the operator, a process started afterwards that opens at all grants no reservation above the
  amount, on the named network or, for the default block, on every network whose own override leaves the limit open.\<close>

theorem set_limit_enforced:
  assumes "signature_scheme (av_crypto (sn_engine v))" "opened s" "policy_ok (sn_engine v) (ps_engine s)" "countable_nonce (ps_engine s) (sn_engine v)"
    "PolicySet v req s = (Inr r, s')" "setWei False (sr_MaxTx req) = Inr (Amount (int_dec w))" "open_service lf rf s' = Inr s1"
    "sr_Network req = [] \<and> (\<forall>p. active v s = Inr (Some p) \<longrightarrow> inherits_maxTx p (ck_Network c)) \<or> sr_Network req \<noteq> [] \<and> EqualFold (sr_Network req) (ck_Network c)"
    "effectiveKind c \<noteq> KindPermit" "\<not> ck_TypedUnknown c" "w < spendWei c + maxGasWei c"
  shows "\<exists>err. fst (Reserve (active v s1) ev c st) = Inl err"
proof -
  let ?v = "sn_engine v" let ?e = "ps_engine s"
  obtain ch pass a e' boot where run: "buildChange v req = Inr ch" "Engine_Set ?v pass ch ?e = (Inr a, e')"
    "finishMutation v a (sr_AnchorOut req) boot (s\<lparr>ps_engine := e'\<rparr>) = (Inr r, s')" using PolicySet_runs [OF assms(5)] .
  obtain l where l: "MaxTxWei l = Amount (int_dec w)" "renders l"
    "(ch_Default ch, ch_Networks ch) = (if sr_Network req = [] then (Some l, []) else (None, [\<lparr>nr_Network = ToLower (sr_Network req), nr_Limits = l\<rparr>]))"
    using buildChange_limit [OF run(1) assms(6)] .
  have cmd: "run_cmd (\<lambda>_. True) ?v pass None [] (CmdSet ch) ?e = (Inr a, e')" "\<not> stages (CmdSet ch)" "cmd_ok (CmdSet ch)"
    using run(2) change_ok_limit [OF l(3,2,1)] by (simp_all add: stages_def)
  obtain p where p: "seals ?v None [] (CmdSet ch) ?e a e' p"
    "active v s1 = Inr (Some (canonical (intended ?v None [] (CmdSet ch) ?e p))) \<or> (\<exists>err. active v s1 = Inl err)"
    using command_active [OF assms(1-4) cmd run(3) assms(7)] by blast
  let ?q = "canonical (intended ?v None [] (CmdSet ch) ?e p)"
  have q: "po_Rules ?q = po_Rules (applyChange p ch)"
  proof (cases "ae_anchorFound ?e")
    case False
    hence "p = defaultPolicy []" using p(1) by (simp add: seals_def)
    thus ?thesis using False by (simp add: canonical_def bootstrap_body_def applyChange_def defaultPolicy_def Let_def)
  qed (simp add: canonical_def mutated_def Let_def)
  have inh: "inherits_maxTx p (ck_Network c)" if "sr_Network req = []"
  proof (cases "ae_anchorFound ?e")
    case True
    then obtain l where "load ?v ?e = Inr l" "p = lr_policy l" using p(1) by (auto simp: seals_def)
    hence "active v s = Inr (Some p)" using load_found True by (simp add: active_load)
    thus ?thesis using assms(8) that by blast
  next
    case False
    hence "p = defaultPolicy []" using p(1) by (simp add: seals_def)
    thus ?thesis by (simp add: inherits_maxTx_def defaultPolicy_def)
  qed
  have "rl_maxTx (resolveLimits ?q (ck_Network c)) = Some w"
  proof (cases "sr_Network req = []")
    case True
    thus ?thesis using default_limit [OF _ _ l(1) q] inh l(3) by simp
  next
    case False
    hence "EqualFold (ToLower (sr_Network req)) (ck_Network c)" using assms(8) by (simp add: EqualFold_def)
    thus ?thesis using network_limit [OF _ _ _ q, of "\<lparr>nr_Network = ToLower (sr_Network req), nr_Limits = l\<rparr>"] l False by simp
  qed
  from over_limit_refused [OF this assms(9-11)] p(2) show ?thesis by (auto simp: Reserve_def)
qed

definition demo_senv :: senv where
  "demo_senv = \<lparr>sn_engine = demo_env, sn_pass = Inr ''pw'', sn_nextPass = Inr ''pw2'', sn_keys = None, sn_ens = (\<lambda>_. Inl (New ''ens.not_found'')),
     sn_contacts = (\<lambda>_. Inr None), sn_isHex = (\<lambda>_. True), sn_toAddr = (\<lambda>a. a), sn_version = ''v1'', sn_anchorPath = ''policy-anchor.json'',
     sn_lock = LockOK, sn_anchorWrite = WriteOK, sn_stageWrite = WriteOK\<rparr>"

definition demo_service :: policy_service where
  "demo_service = \<lparr>ps_engine = fresh, ps_anchorFile = None, ps_staged = []\<rparr>"

definition demo_request :: PolicySetRequest where
  "demo_request = \<lparr>sr_Network = [], sr_MaxTx = Some ''5wei'', sr_MaxDay = None, sr_MaxGasPrice = None, sr_Allowlist = None, sr_IncludeSelf = None,
     sr_TypedUnknown = None, sr_Messages = None, sr_TokensNoAllow = None, sr_AnchorOut = []\<rparr>"

lemma demo_senv_parts [simp]: "sn_engine demo_senv = demo_env" "sn_pass demo_senv = Inr ''pw''" "sn_lock demo_senv = LockOK"
  "sn_anchorWrite demo_senv = WriteOK" "ps_engine demo_service = fresh" "sr_AnchorOut demo_request = []" "sr_Network demo_request = []"
  by (simp_all add: demo_senv_def demo_service_def demo_request_def)

lemma demo_setWei: "setWei False (Some ''5wei'') = Inr (Amount ''5'')"
  by code_simp

lemma demo_build: "buildChange demo_senv demo_request = Inr demo_change"
  using demo_setWei by (simp add: buildChange_def demo_request_def setWei_def [of _ None] parseOnOff_def allowDeny_def Let_def scoped_def touched_def
      selfSnapshot_def demo_senv_def demo_change_def zero_limits_def)

lemma demo_storable: "Anchor_Marshal demo_anchor = Inr t \<Longrightarrow> storable demo_anchor"
  by (rule storable_encoded [where pk = "take 32 (''pw'' @ replicate 32 CHR ''x'')" and salt = "replicate 32 CHR ''n''"])
    (simp_all add: demo_anchor_def anchor_bounds_def DefaultScryptParams_def)

lemma demo_marshal: obtains t where "Anchor_Marshal demo_anchor = Inr t"
  using that by (auto simp: Anchor_Marshal_def demo_anchor_def EncodeSalt_def b64_encode_ne del: notI)

lemma demo_service_set:
  assumes "Anchor_Marshal demo_anchor = Inr t"
  shows "PolicySet demo_senv demo_request demo_service = (Inr ((mutate_result demo_anchor t True ''policy-anchor.json'')\<lparr>mr_AnchorWritten := True\<rparr>),
    \<lparr>ps_engine = snd demo_set, ps_anchorFile = Some t, ps_staged = []\<rparr>)"
proof -
  have e: "Engine_Set demo_env ''pw'' demo_change fresh = (Inr demo_anchor, snd demo_set)" using demo_set_facts(1) by simp
  have sh: "\<not> ss_AnchorFound (fst (snd (Show demo_env fresh)))"
    by (simp add: Show_def load_def loadPolicy_def no_load_def zero_status_def)
  show ?thesis using assms e sh
    by (simp add: PolicySet_def demo_build on_engine_then_def finishMutation_def WriteAnchor_def mapLockErr_def Let_def demo_service_def)
      (simp add: demo_senv_def)
qed

lemma demo_opens: "Anchor_Marshal demo_anchor = Inr t \<Longrightarrow> open_service LockOK ReadOK \<lparr>ps_engine = snd demo_set, ps_anchorFile = Some t, ps_staged = x\<rparr> =
    Inr \<lparr>ps_engine = snd demo_set, ps_anchorFile = Some t, ps_staged = x\<rparr>"
  using anchor_rereads [of demo_anchor t] demo_storable [of t]
  by (simp add: open_service_def open_trust_def ReadAnchor_def mapLockErr_def storable_def demo_set_eq)

definition demo_over :: Check where
  "demo_over = zero_check\<lparr>ck_SpendWei := Some 6\<rparr>"

lemma demo_opened: "opened demo_service"
  by (simp add: opened_def open_service_def open_trust_def ReadAnchor_def demo_service_def fresh_def)

theorem set_limit_enforced_witness:
  "\<exists>r s' s1. PolicySet demo_senv demo_request demo_service = (Inr r, s') \<and> open_service LockOK ReadOK s' = Inr s1 \<and>
     (\<forall>ev st. \<exists>err. fst (Reserve (active demo_senv s1) ev demo_over st) = Inl err)"
proof -
  obtain t where t: "Anchor_Marshal demo_anchor = Inr t" using demo_marshal .
  let ?r = "(mutate_result demo_anchor t True ''policy-anchor.json'')\<lparr>mr_AnchorWritten := True\<rparr>"
  let ?s = "\<lparr>ps_engine = snd demo_set, ps_anchorFile = Some t, ps_staged = []\<rparr>"
  have w: "setWei False (sr_MaxTx demo_request) = Inr (Amount (int_dec 5))"
    using demo_setWei by (simp add: demo_request_def int_dec_def nat_dec_small) (code_simp)
  have inh: "\<forall>p. active demo_senv demo_service = Inr (Some p) \<longrightarrow> inherits_maxTx p (ck_Network demo_over)"
    by (simp add: active_load load_def loadPolicy_def no_load_def)
  have c: "effectiveKind demo_over \<noteq> KindPermit" "\<not> ck_TypedUnknown demo_over" "5 < spendWei demo_over + maxGasWei demo_over"
    by (simp_all add: demo_over_def zero_check_def effectiveKind_def spendWei_def maxGasWei_def)
  have "\<exists>err. fst (Reserve (active demo_senv ?s) ev demo_over st) = Inl err" for ev st
    by (rule set_limit_enforced [of demo_senv demo_service demo_request ?r ?s 5 LockOK ReadOK])
      (use demo_scheme demo_opened demo_set_facts(4,5) demo_service_set [OF t] w demo_opens [OF t] inh c in auto)
  thus ?thesis using demo_service_set [OF t] demo_opens [OF t] by blast
qed

lemma maxTx_cong: "ru_Networks (po_Rules q) = ru_Networks (po_Rules p) \<Longrightarrow> MaxTxWei (ru_Default (po_Rules q)) = MaxTxWei (ru_Default (po_Rules p)) \<Longrightarrow>
    rl_maxTx (resolveLimits q net) = rl_maxTx (resolveLimits p net)"
  by (simp only: maxTx_rules)

text \<open>An override without the field, added or merged, leaves the effective limit as it was.\<close>

lemma find_upsert_absent:
  assumes "MaxTxWei (nr_Limits n) = Absent"
  shows "(case find (\<lambda>m. EqualFold (nr_Network m) net) (upsertNetwork n ns) of None \<Rightarrow> x | Some m \<Rightarrow> overrideLimit x (MaxTxWei (nr_Limits m))) =
    (case find (\<lambda>m. EqualFold (nr_Network m) net) ns of None \<Rightarrow> x | Some m \<Rightarrow> overrideLimit x (MaxTxWei (nr_Limits m)))"
  by (induction ns) (simp_all add: assms mergeLimits_def over_def)

text \<open>\<open>inherit\<close> does nothing: a \<open>policy set\<close> whose \<open>--max-tx\<close> is \<open>inherit\<close>, empty or not given leaves the effective limit of
  every network as it was; in particular it does not make a network with an override of its own fall back to the default.\<close>

lemma inherit_changes_nothing:
  assumes "buildChange v req = Inr c" "setWei False (sr_MaxTx req) = Inr Absent"
  shows "rl_maxTx (resolveLimits (applyChange p c) net) = rl_maxTx (resolveLimits p net)"
proof -
  obtain perDay gas al incl where g: "setWei False (sr_MaxDay req) = Inr perDay" "setWei True (sr_MaxGasPrice req) = Inr gas"
    "parseOnOff (sr_Allowlist req) = Inr al" "parseOnOff (sr_IncludeSelf req) = Inr incl"
    using assms by (auto simp: buildChange_def split: sum.splits)
  let ?l = "\<lparr>MaxTxWei = Absent, MaxDayWei = perDay, MaxGasPriceWei = gas, AllowlistEnabled = al, IncludeSelf = incl, TypedDataUnknown = None\<rparr>"
  have "(ch_Default c, ch_Networks c) = scoped req (touched req al incl) ?l"
    using assms g by (auto simp: buildChange_def Let_def split: sum.splits prod.splits)
  moreover have "MaxTxWei ?l = Absent" by simp
  ultimately obtain l t where l: "MaxTxWei l = Absent" "(ch_Default c, ch_Networks c) = scoped req t l" by blast
  consider "ch_Default c = None" "ch_Networks c = []" | "ch_Default c = Some l" "ch_Networks c = []"
    | n where "ch_Default c = None" "ch_Networks c = [n]" "MaxTxWei (nr_Limits n) = Absent"
    using l by (auto simp: scoped_def split: if_splits)
  thus ?thesis
  proof cases
    case 3
    have r: "ru_Networks (po_Rules (applyChange p c)) = upsertNetwork n (ru_Networks (po_Rules p))" "ru_Default (po_Rules (applyChange p c)) = ru_Default (po_Rules p)"
      using 3 by (simp_all add: applyChange_def Let_def)
    show ?thesis using find_upsert_absent [OF 3(3)] unfolding maxTx_rules r by simp
  qed (rule maxTx_cong; simp add: applyChange_def Let_def mergeLimits_def over_def l(1))+
qed

definition demo_inherit :: PolicySetRequest where
  "demo_inherit = demo_request\<lparr>sr_Network := ''mainnet'', sr_MaxTx := Some ''inherit''\<rparr>"

definition demo_override :: Policy where
  "demo_override = (defaultPolicy ''v1'')\<lparr>po_Rules := \<lparr>ru_Default = zero_limits\<lparr>MaxTxWei := Amount ''5''\<rparr>,
     ru_Networks = [\<lparr>nr_Network = ''mainnet'', nr_Limits = zero_limits\<lparr>MaxTxWei := Amount ''900''\<rparr>\<rparr>]\<rparr>\<rparr>"

lemma demo_setWei_inherit: "setWei False (Some ''inherit'') = Inr Absent"
  by code_simp


section \<open>Two processes\<close>

text \<open>No lock is held between the reading and the writing half of a mutation: what the engine has computed when it has loaded the
  policy, and the rest.\<close>

definition mutate_read :: "aenv \<Rightarrow> string \<Rightarrow> string \<Rightarrow> address list option \<Rightarrow> (Policy \<Rightarrow> Policy) \<Rightarrow> aengine \<Rightarrow> (string \<times> Policy) result" where
  "mutate_read v pass writtenBy refreshSelf f e = (case authenticate (av_crypto v) e pass of Inl err \<Rightarrow> Inl err
     | Inr (sk, _) \<Rightarrow> (case load v e of Inl err \<Rightarrow> Inl err
       | Inr res \<Rightarrow> Inr (sk, mutated f writtenBy refreshSelf (av_now v) (ae_anchor e) (if lr_present res then lr_policy res else defaultPolicy writtenBy))))"

definition mutate_write :: "aenv \<Rightarrow> string \<times> Policy \<Rightarrow> aengine \<Rightarrow> Anchor result \<times> aengine" where
  "mutate_write v job e = (let bytes = writeBody (snd job) in
     (case writeEnvelope (av_write v) bytes (Sign (av_crypto v) bytes (fst job)) e of
        (Inl err, e') \<Rightarrow> (Inl err, e')
      | (Inr _, e') \<Rightarrow> (let a = bump (po_Nonce (snd job)) (ae_anchor e) in (Inr a, e'\<lparr>ae_anchor := a\<rparr>))))"

lemma mutate_halves: "mutate v pass w r f e = (case mutate_read v pass w r f e of Inl err \<Rightarrow> (Inl err, e) | Inr job \<Rightarrow> mutate_write v job e)"
  by (auto simp: mutate_def mutate_read_def mutate_write_def Let_def split: sum.splits prod.splits)

definition set_read :: "aenv \<Rightarrow> string \<Rightarrow> Change \<Rightarrow> aengine \<Rightarrow> (string \<times> Policy) result" where
  "set_read v pass c e = mutate_read v pass (ch_WrittenBy c) (ch_RefreshSelf c) (\<lambda>p. applyChange p c) e"

lemma Set_halves: "ae_anchorFound e \<Longrightarrow> Engine_Set v pass c e = (case set_read v pass c e of Inl err \<Rightarrow> (Inl err, e) | Inr job \<Rightarrow> mutate_write v job e)"
  by (simp add: Engine_Set_def set_read_def mutate_halves)

lemma set_read_facts:
  assumes "set_read v pass c e = Inr (sk, b)"
  obtains l where "load v e = Inr l" "ae_anchorFound e" "pins (ae_anchor e) (cr_public (av_crypto v) sk)"
    "b = mutated (\<lambda>p. applyChange p c) (ch_WrittenBy c) (ch_RefreshSelf c) (av_now v) (ae_anchor e) (lr_policy l)"
proof -
  obtain pk l where a: "authenticate (av_crypto v) e pass = Inr (sk, pk)" "load v e = Inr l"
    "b = mutated (\<lambda>p. applyChange p c) (ch_WrittenBy c) (ch_RefreshSelf c) (av_now v) (ae_anchor e) (if lr_present l then lr_policy l else defaultPolicy (ch_WrittenBy c))"
    using assms by (auto simp: set_read_def mutate_read_def split: sum.splits)
  note k = authenticate_pins [OF a(1)]
  have "lr_present l" using load_found [OF a(2)] k by blast
  thus thesis using that a k by auto
qed

lemma mutate_write_done: "mutate_write v job e = (Inr a, e') \<Longrightarrow>
    a = bump (po_Nonce (snd job)) (ae_anchor e) \<and> ae_file e' = Some (sealed_text (av_crypto v) (fst job) (snd job))"
  using writeEnvelope_cases [of "av_write v" "writeBody (snd job)" "Sign (av_crypto v) (writeBody (snd job)) (fst job)" e]
  by (auto simp: mutate_write_def Let_def sealed_text_def)

text \<open>C31. Concurrent changes are lost.  Two processes that opened under the same anchor both read the policy (under the right passphrase)
  before either writes it; then on a working disk both of their \<open>policy set\<close> commands write and report success, and return anchors with the
  same watermark; the file left is the second one's change of the old policy, without the first one's, and the first one's file is valid
  under either anchor too.  Side conditions, as for a single change: no override without a field (\<open>change_ok\<close>), a well-formed policy in force
  and nonce counters that are not at their last value.\<close>

theorem concurrent_change_lost:
  assumes "signature_scheme (av_crypto v)" "policy_ok v e" "countable_nonce e v" "change_ok c" "change_ok d" "load v e = Inr l"
    "set_read v pass c e = Inr jobA" "set_read v pass' d e = Inr jobB" "av_write v = WriteOK"
  shows "\<exists>a eA b eB. mutate_write v jobA e = (Inr a, eA) \<and> mutate_write v jobB (e\<lparr>ae_file := ae_file eA\<rparr>) = (Inr b, eB) \<and>
    a = b \<and> snd jobB = mutated (\<lambda>p. applyChange p d) (ch_WrittenBy d) (ch_RefreshSelf d) (av_now v) (ae_anchor e) (lr_policy l) \<and>
    loaded (loadPolicy (av_crypto v) (ae_file eB) a True) (canonical (snd jobB)) \<and>
    loaded (loadPolicy (av_crypto v) (ae_file eA) a True) (canonical (snd jobA))"
proof -
  have wr: "\<exists>x e'. mutate_write v j e = (Inr x, e')" for j e
    by (simp add: mutate_write_def writeEnvelope_def Let_def assms(9))
  obtain a eA where w1: "mutate_write v jobA e = (Inr a, eA)" using wr by blast
  obtain b eB where w2: "mutate_write v jobB (e\<lparr>ae_file := ae_file eA\<rparr>) = (Inr b, eB)" using wr by blast
  have A: "ae_anchorFound e" "pins (ae_anchor e) (cr_public (av_crypto v) (fst jobA))"
    "snd jobA = mutated (\<lambda>p. applyChange p c) (ch_WrittenBy c) (ch_RefreshSelf c) (av_now v) (ae_anchor e) (lr_policy l)"
    using set_read_facts [of v pass c e "fst jobA" "snd jobA"] assms(6,7) by auto
  have B: "pins (ae_anchor e) (cr_public (av_crypto v) (fst jobB))"
    "snd jobB = mutated (\<lambda>p. applyChange p d) (ch_WrittenBy d) (ch_RefreshSelf d) (av_now v) (ae_anchor e) (lr_policy l)"
    using set_read_facts [of v pass' d e "fst jobB" "snd jobB"] assms(6,8) by auto
  have wf: "wf_policy (snd jobA)" "wf_policy (snd jobB)"
    using assms(2,4,5,6) load_found [OF assms(6) A(1)] by (auto simp: A(3) B(2) policy_ok_def wf_applyChange)
  have n: "po_Nonce (snd jobA) = nextNonce (lr_policy l) (ae_anchor e)" "po_Nonce (snd jobB) = nextNonce (lr_policy l) (ae_anchor e)"
    by (simp_all add: A(3) B(2) nextNonce_def)
  have w: "an_NonceWatermark (ae_anchor e) \<le> po_Nonce (lr_policy l) \<and> po_Version (lr_policy l) \<le> 1" using load_watermark assms(6) A(1) by blast
  have gt: "an_NonceWatermark (ae_anchor e) < nextNonce (lr_policy l) (ae_anchor e)"
    using nextNonce_gt assms(3) by (simp add: countable_nonce_def)
  let ?a = "bump (nextNonce (lr_policy l) (ae_anchor e)) (ae_anchor e)"
  have ab: "a = ?a" "b = ?a" "ae_file eA = Some (sealed_text (av_crypto v) (fst jobA) (snd jobA))" "ae_file eB = Some (sealed_text (av_crypto v) (fst jobB) (snd jobB))"
    using mutate_write_done [OF w1] mutate_write_done [OF w2] n by simp_all
  have wm: "an_NonceWatermark ?a = nextNonce (lr_policy l) (ae_anchor e)" using gt by (simp add: bump_def)
  have "loaded (loadPolicy (av_crypto v) (ae_file eA) ?a True) (canonical (snd jobA))"
    unfolding ab(3) by (rule load_sealed [OF assms(1)]) (use A wf n w wm in simp_all)
  moreover have "loaded (loadPolicy (av_crypto v) (ae_file eB) ?a True) (canonical (snd jobB))"
    unfolding ab(4) by (rule load_sealed [OF assms(1)]) (use B wf n w wm in simp_all)
  ultimately show ?thesis using w1 w2 ab B(2) by auto
qed

definition demo_second :: Change where
  "demo_second = demo_change\<lparr>ch_Default := None, ch_Messages := Some ''deny''\<rparr>"

theorem concurrent_change_lost_witness:
  "\<exists>l jobA jobB a eA b eB. load demo_env (snd demo_set) = Inr l \<and> set_read demo_env ''pw'' demo_change (snd demo_set) = Inr jobA \<and>
     set_read demo_env ''pw'' demo_second (snd demo_set) = Inr jobB \<and> mutate_write demo_env jobB (snd demo_set) = (Inr b, eB) \<and>
     mutate_write demo_env jobA ((snd demo_set)\<lparr>ae_file := ae_file eB\<rparr>) = (Inr a, eA) \<and> a = b \<and>
     po_Messages (snd jobB) = ''deny'' \<and> loaded (loadPolicy demo_crypto (ae_file eA) a True) (canonical (snd jobA)) \<and> po_Messages (snd jobA) = ''allow''"
proof -
  let ?e = "snd demo_set"
  obtain l where l: "load demo_env ?e = Inr l" "lr_policy l = canonical (bootstrap_body demo_env demo_change)" "lr_present l" by (rule demo_loaded)
  obtain k where "authenticate demo_crypto ?e ''pw'' = Inr k" using authenticate_iff [OF demo_state(1)] demo_state(2,3) by metis
  then obtain sk pk where k: "authenticate demo_crypto ?e ''pw'' = Inr (sk, pk)" by (cases k) auto
  define job where "job c = (sk, mutated (\<lambda>p. applyChange p c) (ch_WrittenBy c) (ch_RefreshSelf c) (av_now demo_env) (ae_anchor ?e) (lr_policy l))" for c
  have r: "set_read demo_env ''pw'' c ?e = Inr (job c)" for c
    using k l by (simp add: set_read_def mutate_read_def job_def)
  have w: "\<exists>a e'. mutate_write demo_env j e = (Inr a, e')" for j e
    by (simp add: mutate_write_def writeEnvelope_def Let_def)
  obtain b eB where B: "mutate_write demo_env (job demo_second) ?e = (Inr b, eB)" using w by blast
  obtain a eA where A: "mutate_write demo_env (job demo_change) (?e\<lparr>ae_file := ae_file eB\<rparr>) = (Inr a, eA)" using w by blast
  have ok: "change_ok demo_change" "change_ok demo_second" using demo_set_facts(3) by (simp_all add: change_ok_def demo_second_def demo_change_def)
  have m: "po_Messages (snd (job demo_second)) = ''deny''" "po_Messages (snd (job demo_change)) = ''allow''"
    by (simp_all add: job_def mutated_def applyChange_def Let_def demo_second_def demo_change_def l(2) canonical_def bootstrap_body_def defaultPolicy_def)
  have "signature_scheme (av_crypto demo_env)" by (simp add: demo_scheme)
  moreover have "av_write demo_env = WriteOK" by simp
  ultimately have "b = a" "loaded (loadPolicy demo_crypto (ae_file eA) b True) (canonical (snd (job demo_change)))"
    using concurrent_change_lost [OF _ demo_state(5,4) ok(2,1) l(1) r r] A B by force+
  thus ?thesis using l(1) r A B m by blast
qed

end
