(* ===== verification/Abi_Signature.thy ===== *)
theory Abi_Signature
  imports Domain_Errors
begin

text \<open>
  The grammar of inline signatures (\<open>abi/abi.go\<close>, \<open>parseSignature\<close>): \<open>name(types)(outputs)\<close> with named and indexed
  parameters and nested tuples.  The parser's position is the text that is left.  go-ethereum's ABI compiler is an argument.
\<close>

datatype abiJSONArg = AbiArg (aj_Name: string) (aj_Type: string) (aj_InternalType: string) (aj_Components: "abiJSONArg list") (aj_Indexed: bool)

record abiJSONEntry =
  je_Type :: string
  je_Name :: string
  je_Inputs :: "abiJSONArg list"
  je_Outputs :: "abiJSONArg list"
  je_StateMutability :: string

section \<open>Tokens\<close>

definition isAlpha :: "char \<Rightarrow> bool" where
  "isAlpha c \<longleftrightarrow> (97 \<le> (of_char c :: nat) \<and> (of_char c :: nat) \<le> 122) \<or> (65 \<le> (of_char c :: nat) \<and> (of_char c :: nat) \<le> 90)"

definition ident_start :: "char \<Rightarrow> bool" where
  "ident_start c \<longleftrightarrow> isAlpha c \<or> c = CHR ''_'' \<or> c = CHR ''$''"

definition ident_char :: "char \<Rightarrow> bool" where
  "ident_char c \<longleftrightarrow> isAlpha c \<or> is_digit c \<or> c = CHR ''_'' \<or> c = CHR ''$''"

definition type_char :: "char \<Rightarrow> bool" where
  "type_char c \<longleftrightarrow> isAlpha c \<or> is_digit c"

definition is_blank :: "char \<Rightarrow> bool" where
  "is_blank c \<longleftrightarrow> c = CHR '' '' \<or> c = CHR 0x09"

definition skipSpace :: "string \<Rightarrow> string" where
  "skipSpace s = dropWhile is_blank s"

definition peek :: "string \<Rightarrow> char" where
  "peek s = (case s of [] \<Rightarrow> CHR 0x00 | c # _ \<Rightarrow> c)"

definition consume :: "char \<Rightarrow> string \<Rightarrow> string option" where
  "consume c s = (case skipSpace s of [] \<Rightarrow> None | d # r \<Rightarrow> if d = c then Some r else None)"

definition maybeIdentifier :: "string \<Rightarrow> (string \<times> string) option" where
  "maybeIdentifier s = (case skipSpace s of [] \<Rightarrow> None
     | c # r \<Rightarrow> if \<not> ident_start c then None else Some (c # takeWhile ident_char r, dropWhile ident_char r))"

definition identifier_at :: "string \<Rightarrow> (string \<times> string) option" where
  "identifier_at s = (case skipSpace s of [] \<Rightarrow> None
     | c # r \<Rightarrow> if \<not> ident_start c then None else Some (c # takeWhile ident_char r, dropWhile ident_char r))"

function arraySuffix :: "string \<Rightarrow> (string \<times> string) option" where
  "arraySuffix s = (if peek s \<noteq> CHR ''['' then Some ([], s)
     else (let r = tl s; ds = takeWhile is_digit r; t = dropWhile is_digit r in
       if peek t \<noteq> CHR '']'' then None
       else map_option (\<lambda>(x, u). (CHR ''['' # ds @ CHR '']'' # x, u)) (arraySuffix (tl t))))"
  by pat_completeness auto
termination
proof (relation "measure length", simp)
  fix s r ds t assume "\<not> peek s \<noteq> CHR ''[''" "r = tl s" "ds = takeWhile is_digit r" "t = dropWhile is_digit r"
  hence "s \<noteq> []" "length t \<le> length (tl s)" using length_dropWhile_le [of is_digit "tl s"] by (auto simp: peek_def)
  thus "(tl t, s) \<in> measure length" by (cases s) auto
qed

definition typeToken :: "string \<Rightarrow> (string \<times> string) option" where
  "typeToken s = (case skipSpace s of [] \<Rightarrow> None
     | c # r \<Rightarrow> if \<not> isAlpha c then None
         else map_option (\<lambda>(suf, u). (c # takeWhile type_char r @ suf, u)) (arraySuffix (dropWhile type_char r)))"

section \<open>Arguments\<close>

definition set_name :: "string \<Rightarrow> abiJSONArg \<Rightarrow> abiJSONArg" where
  "set_name nm a = AbiArg nm (aj_Type a) (aj_InternalType a) (aj_Components a) (aj_Indexed a)"

definition set_indexed :: "abiJSONArg \<Rightarrow> abiJSONArg" where
  "set_indexed a = AbiArg (aj_Name a) (aj_Type a) (aj_InternalType a) (aj_Components a) True"

text \<open>The optional keyword and name after a type.\<close>

definition arg_tail :: "bool \<Rightarrow> abiJSONArg \<Rightarrow> string \<Rightarrow> (abiJSONArg \<times> bool \<times> string) option" where
  "arg_tail allowIndexed a s = (case maybeIdentifier s of None \<Rightarrow> Some (a, False, skipSpace s)
     | Some (idn, r) \<Rightarrow>
         if idn = ''indexed'' then
           (if \<not> allowIndexed then None
            else (case maybeIdentifier r of None \<Rightarrow> Some (set_indexed a, True, skipSpace r)
              | Some (nm, r2) \<Rightarrow> Some (set_name nm (set_indexed a), True, r2)))
         else Some (set_name idn a, False, r))"

text \<open>Fuel bounds the nesting and the number of arguments; the length of the text is enough.\<close>

fun sig_arg :: "nat \<Rightarrow> bool \<Rightarrow> string \<Rightarrow> (abiJSONArg \<times> bool \<times> string) option"
  and sig_args :: "nat \<Rightarrow> bool \<Rightarrow> string \<Rightarrow> (abiJSONArg list \<times> bool \<times> string) option"
  and argList :: "nat \<Rightarrow> bool \<Rightarrow> string \<Rightarrow> (abiJSONArg list \<times> bool \<times> string) option" where
  "sig_arg 0 al s = None"
| "sig_arg (Suc n) al s0 = (let s = skipSpace s0 in
     if peek s = CHR ''('' then
       (case argList n False (tl s) of None \<Rightarrow> None
        | Some (comps, _, r1) \<Rightarrow> (case consume CHR '')'' r1 of None \<Rightarrow> None
          | Some r2 \<Rightarrow> (case arraySuffix r2 of None \<Rightarrow> None
            | Some (suf, r3) \<Rightarrow> arg_tail al (AbiArg [] (''tuple'' @ suf) (''tuple'' @ suf) comps False) r3)))
     else (case typeToken s of None \<Rightarrow> None | Some (tok, r) \<Rightarrow> arg_tail al (AbiArg [] tok tok [] False) r))"
| "sig_args 0 al s = None"
| "sig_args (Suc n) al s = (case sig_arg n al s of None \<Rightarrow> None
     | Some (a, idx, r) \<Rightarrow> (let t = skipSpace r in
         if peek t = CHR '','' then (case sig_args n al (tl t) of None \<Rightarrow> None | Some (as, i2, u) \<Rightarrow> Some (a # as, idx \<or> i2, u))
         else Some ([a], idx, t)))"
| "argList 0 al s = None"
| "argList (Suc n) al s = (let t = skipSpace s in if peek t = CHR '')'' then Some ([], False, t) else sig_args n al t)"

fun nameArgs :: "string \<Rightarrow> nat \<Rightarrow> abiJSONArg list \<Rightarrow> abiJSONArg list" where
  "nameArgs pre i [] = []"
| "nameArgs pre i (AbiArg nm ty it cs ix # as) =
     AbiArg (if nm = [] then pre @ nat_dec i else nm) ty it (nameArgs ''field'' 0 cs) ix # nameArgs pre (Suc i) as"

section \<open>Signatures\<close>

record signature =
  sg_Name :: string
  sg_Inputs :: "abiJSONArg list"
  sg_Outputs :: "abiJSONArg list"
  sg_HasOutputs :: bool
  sg_AnyIndexed :: bool

definition sig_fuel :: "string \<Rightarrow> nat" where
  "sig_fuel s = 3 * length s + 3"

definition parseSignature :: "string \<Rightarrow> signature option" where
  "parseSignature sig = (let s = TrimSpace sig in
     (case identifier_at s of None \<Rightarrow> None
      | Some (name, r) \<Rightarrow> (case consume CHR ''('' r of None \<Rightarrow> None
        | Some r1 \<Rightarrow> (case argList (sig_fuel r1) True r1 of None \<Rightarrow> None
          | Some (inputs, anyIndexed, r2) \<Rightarrow> (case consume CHR '')'' r2 of None \<Rightarrow> None
            | Some r3 \<Rightarrow> (let t = skipSpace r3 in
                if peek t = CHR ''('' then
                  (case argList (sig_fuel (tl t)) False (tl t) of None \<Rightarrow> None
                   | Some (outputs, anyIdxOut, r4) \<Rightarrow>
                       if anyIdxOut then None
                       else (case consume CHR '')'' r4 of None \<Rightarrow> None
                         | Some r5 \<Rightarrow> if skipSpace r5 \<noteq> [] then None
                             else Some \<lparr>sg_Name = name, sg_Inputs = nameArgs ''arg'' 0 inputs, sg_Outputs = nameArgs ''ret'' 0 outputs,
                               sg_HasOutputs = True, sg_AnyIndexed = anyIndexed\<rparr>))
                else if t \<noteq> [] then None
                else Some \<lparr>sg_Name = name, sg_Inputs = nameArgs ''arg'' 0 inputs, sg_Outputs = [], sg_HasOutputs = False,
                       sg_AnyIndexed = anyIndexed\<rparr>))))))"

definition upper_start :: "string \<Rightarrow> bool" where
  "upper_start s \<longleftrightarrow> s \<noteq> [] \<and> 65 \<le> (of_char (hd s) :: nat) \<and> (of_char (hd s) :: nat) \<le> 90"

definition sig_entry :: "signature \<Rightarrow> bool \<Rightarrow> abiJSONEntry" where
  "sig_entry sg isEvent = \<lparr>je_Type = (if isEvent then ''event'' else ''function''), je_Name = sg_Name sg, je_Inputs = sg_Inputs sg,
     je_Outputs = (if \<not> isEvent \<and> sg_HasOutputs sg then sg_Outputs sg else []), je_StateMutability = (if isEvent then [] else ''nonpayable'')\<rparr>"

definition ParseSig :: "(abiJSONEntry \<Rightarrow> 'abi option) \<Rightarrow> string \<Rightarrow> ('abi \<times> string \<times> bool) result" where
  "ParseSig compile sig = (case parseSignature sig of None \<Rightarrow> Inl (New ''usage.bad_sig'')
     | Some sg \<Rightarrow> (let isEvent = sg_AnyIndexed sg \<or> upper_start (sg_Name sg) in
         if isEvent \<and> sg_HasOutputs sg then Inl (New ''usage.bad_sig'')
         else (case compile (sig_entry sg isEvent) of None \<Rightarrow> Inl (New ''usage.bad_sig'') | Some a \<Rightarrow> Inr (a, sg_Name sg, isEvent))))"

end
