(* ===== verification/Abi_Parse.thy ===== *)
theory Abi_Parse
  imports Abi_Signature Json
begin

text \<open>
  An abstract syntax of inline signatures and its text; the parser of \<open>Abi_Signature\<close> reads every such text back.
\<close>

section \<open>Abstract syntax\<close>

datatype ptype = Base string "string list" | Tup "param list" "string list"
  and param = Param ptype bool string

definition suffixes :: "string list \<Rightarrow> string" where
  "suffixes ds = concat (map (\<lambda>d. CHR ''['' # d @ '']'') ds)"

fun show_type :: "ptype \<Rightarrow> string" and show_param :: "param \<Rightarrow> string" where
  "show_type (Base b ds) = b @ suffixes ds"
| "show_type (Tup ps ds) = CHR ''('' # joined (map show_param ps) @ CHR '')'' # suffixes ds"
| "show_param (Param t ix nm) = show_type t @ (if ix then '' indexed'' else []) @ (if nm = [] then [] else CHR '' '' # nm)"

fun to_arg :: "param \<Rightarrow> abiJSONArg" where
  "to_arg (Param (Base b ds) ix nm) = AbiArg nm (b @ suffixes ds) (b @ suffixes ds) [] ix"
| "to_arg (Param (Tup ps ds) ix nm) = AbiArg nm (''tuple'' @ suffixes ds) (''tuple'' @ suffixes ds) (map to_arg ps) ix"

definition is_ident :: "string \<Rightarrow> bool" where
  "is_ident s \<longleftrightarrow> s \<noteq> [] \<and> ident_start (hd s) \<and> list_all ident_char s"

fun wf_type :: "ptype \<Rightarrow> bool" and wf_param :: "bool \<Rightarrow> param \<Rightarrow> bool" where
  "wf_type (Base b ds) \<longleftrightarrow> b \<noteq> [] \<and> isAlpha (hd b) \<and> list_all type_char b \<and> list_all (list_all is_digit) ds"
| "wf_type (Tup ps ds) \<longleftrightarrow> list_all (wf_param False) ps \<and> list_all (list_all is_digit) ds"
| "wf_param al (Param t ix nm) \<longleftrightarrow> wf_type t \<and> (ix \<longrightarrow> al) \<and> (nm = [] \<or> is_ident nm \<and> (nm = ''indexed'' \<longrightarrow> ix))"

fun indexed :: "param \<Rightarrow> bool" where
  "indexed (Param t ix nm) = ix"

section \<open>Tokens are read back\<close>

definition ends :: "string \<Rightarrow> bool" where
  "ends r \<longleftrightarrow> r \<noteq> [] \<and> hd r \<in> {CHR '','', CHR '')''}"

lemma ends_cases: "ends r \<Longrightarrow> \<exists>c t. r = c # t \<and> \<not> is_blank c \<and> \<not> ident_start c \<and> \<not> ident_char c \<and> \<not> type_char c \<and> c \<noteq> CHR ''[''"
  by (cases r) (auto simp: ends_def is_blank_def ident_start_def ident_char_def type_char_def isAlpha_def is_digit_def)

lemma digits_before: "list_all P ds \<Longrightarrow> \<not> P c \<Longrightarrow> takeWhile P (ds @ c # r) = ds \<and> dropWhile P (ds @ c # r) = c # r"
  by (induction ds) auto

lemma suffix_read: "list_all (list_all is_digit) ds \<Longrightarrow> peek r \<noteq> CHR ''['' \<Longrightarrow> arraySuffix (suffixes ds @ r) = Some (suffixes ds, r)"
proof (induction ds)
  case (Cons d ds)
  have "\<not> is_digit CHR '']''" by (simp add: is_digit_def)
  with digits_before [of is_digit d "CHR '']''" "suffixes ds @ r"] Cons.prems
  have d: "takeWhile is_digit (d @ CHR '']'' # suffixes ds @ r) = d" "dropWhile is_digit (d @ CHR '']'' # suffixes ds @ r) = CHR '']'' # suffixes ds @ r" by auto
  have s: "suffixes (d # ds) = CHR ''['' # d @ CHR '']'' # suffixes ds" by (simp add: suffixes_def)
  have IH: "arraySuffix (suffixes ds @ r) = Some (suffixes ds, r)" using Cons by simp
  show ?case unfolding s by (subst arraySuffix.simps) (simp add: peek_def d IH Let_def del: arraySuffix.simps)
qed (simp add: suffixes_def)

lemma suffix_start: "peek (suffixes ds @ r) = (if ds = [] then peek r else CHR ''['')"
  by (cases ds) (simp_all add: suffixes_def peek_def)

lemma after_base: "r = [] \<or> \<not> type_char (hd r) \<Longrightarrow> suffixes ds @ r = [] \<or> \<not> type_char (hd (suffixes ds @ r))"
  by (cases ds) (simp_all add: suffixes_def type_char_def isAlpha_def is_digit_def)

lemma take_type: "list_all type_char b \<Longrightarrow> r = [] \<or> \<not> type_char (hd r) \<Longrightarrow> takeWhile type_char (b @ r) = b \<and> dropWhile type_char (b @ r) = r"
  by (induction b) (cases r; auto)+

lemma not_blank: "isAlpha c \<Longrightarrow> \<not> is_blank c \<and> c \<noteq> CHR ''('' \<and> c \<noteq> CHR '')''"
  by (auto simp: isAlpha_def is_blank_def)

lemma type_read:
  assumes "b \<noteq> []" "isAlpha (hd b)" "list_all type_char b" "list_all (list_all is_digit) ds" "peek r \<noteq> CHR ''[''" "r = [] \<or> \<not> type_char (hd r)"
  shows "typeToken (b @ suffixes ds @ r) = Some (b @ suffixes ds, r)"
proof -
  obtain c t where b: "b = c # t" using assms(1) by (cases b) auto
  have "takeWhile type_char (t @ suffixes ds @ r) = t \<and> dropWhile type_char (t @ suffixes ds @ r) = suffixes ds @ r"
    by (rule take_type) (use assms b after_base in auto)
  moreover have "skipSpace (c # t @ suffixes ds @ r) = c # t @ suffixes ds @ r" using not_blank assms(2) b by (simp add: skipSpace_def)
  ultimately show ?thesis using assms(2) suffix_read [OF assms(4,5)] b by (simp add: typeToken_def del: arraySuffix.simps)
qed

lemma take_ident: "list_all ident_char s \<Longrightarrow> r = [] \<or> \<not> ident_char (hd r) \<Longrightarrow> takeWhile ident_char (s @ r) = s \<and> dropWhile ident_char (s @ r) = r"
  by (induction s) (cases r; auto)+

lemma ident_not_blank: "ident_start c \<Longrightarrow> \<not> is_blank c"
  by (auto simp: ident_start_def isAlpha_def is_blank_def)

lemma ident_read: "is_ident s \<Longrightarrow> r = [] \<or> \<not> ident_char (hd r) \<Longrightarrow> maybeIdentifier (CHR '' '' # s @ r) = Some (s, r) \<and> maybeIdentifier (s @ r) = Some (s, r)"
proof -
  assume s: "is_ident s" "r = [] \<or> \<not> ident_char (hd r)"
  obtain c t where c: "s = c # t" "ident_start c" "list_all ident_char t" using s(1) by (cases s) (auto simp: is_ident_def)
  have "skipSpace (CHR '' '' # c # t @ r) = c # t @ r" "skipSpace (c # t @ r) = c # t @ r"
    using ident_not_blank [OF c(2)] by (simp_all add: skipSpace_def is_blank_def)
  thus ?thesis using c take_ident [OF c(3) s(2)] by (simp add: maybeIdentifier_def)
qed

lemma no_ident: "ends r \<Longrightarrow> maybeIdentifier r = None \<and> skipSpace r = r"
  using ends_cases [of r] by (auto simp: maybeIdentifier_def skipSpace_def)

lemma indexed_ident: "is_ident ''indexed''"
  by (simp add: is_ident_def ident_start_def ident_char_def isAlpha_def)

lemma tail_read:
  assumes "ends r" "ix \<longrightarrow> al" "nm = [] \<or> is_ident nm \<and> (nm = ''indexed'' \<longrightarrow> ix)"
  shows "arg_tail al (AbiArg [] ty it cs False) ((if ix then '' indexed'' else []) @ (if nm = [] then [] else CHR '' '' # nm) @ r) = Some (AbiArg nm ty it cs ix, ix, r)"
proof -
  have r: "r = [] \<or> \<not> ident_char (hd r)" "\<not> ident_char CHR '' ''" using ends_cases [OF assms(1)]
    by (auto simp: ident_char_def isAlpha_def is_digit_def)
  let ?n = "(if nm = [] then [] else CHR '' '' # nm) @ r"
  have n: "maybeIdentifier ?n = (if nm = [] then None else Some (nm, r))" using assms(3) ident_read [of nm r] r(1) no_ident [OF assms(1)] by auto
  have i: "maybeIdentifier ('' indexed'' @ ?n) = Some (''indexed'', ?n)"
    using ident_read [OF indexed_ident, of ?n] r by auto
  show ?thesis
  proof (cases ix)
    case True
    thus ?thesis using i n assms(2) no_ident [OF assms(1)] by (auto simp: arg_tail_def set_name_def set_indexed_def)
  next
    case False
    thus ?thesis using n assms(3) no_ident [OF assms(1)] by (auto simp: arg_tail_def set_name_def)
  qed
qed

section \<open>Arguments are read back\<close>

definition param_reads :: "param \<Rightarrow> bool" where
  "param_reads p \<longleftrightarrow> (\<forall>al n r. wf_param al p \<longrightarrow> ends r \<longrightarrow> 2 * length (show_param p) \<le> n \<longrightarrow>
     sig_arg n al (show_param p @ r) = Some (to_arg p, indexed p, r))"

lemma args_read:
  assumes "ps \<noteq> []" "\<forall>p \<in> set ps. param_reads p" "list_all (wf_param al) ps" "2 * length (joined (map show_param ps)) + 1 \<le> n"
  shows "sig_args n al (joined (map show_param ps) @ CHR '')'' # r) = Some (map to_arg ps, list_ex indexed ps, CHR '')'' # r)"
  using assms
proof (induction ps arbitrary: n)
  case (Cons p ps)
  then obtain m where n: "n = Suc m" by (cases n) auto
  have e: "ends (CHR '')'' # r)" "ends (CHR '','' # t)" for t by (simp_all add: ends_def)
  have p: "sig_arg m al (show_param p @ u) = Some (to_arg p, indexed p, u)" if "ends u" "2 * length (show_param p) \<le> m" for u
    using Cons.prems that by (simp add: param_reads_def)
  have sk: "skipSpace (CHR '')'' # t) = CHR '')'' # t" "skipSpace (CHR '','' # t) = CHR '','' # t" for t
    by (simp_all add: skipSpace_def is_blank_def)
  show ?case
  proof (cases ps)
    case Nil
    thus ?thesis using p [OF e(1)] Cons.prems(4) n sk by (simp add: peek_def)
  next
    case (Cons a as)
    hence j: "joined (map show_param (p # ps)) = show_param p @ CHR '','' # joined (map show_param ps)" by simp
    have "sig_args m al (joined (map show_param ps) @ CHR '')'' # r) = Some (map to_arg ps, list_ex indexed ps, CHR '')'' # r)"
      by (rule Cons.IH) (use Cons Cons.prems n j in auto)
    thus ?thesis using p [OF e(2)] Cons.prems(4) n sk unfolding j by (simp add: peek_def Let_def)
  qed
qed simp

lemma show_param_start: "wf_param al p \<Longrightarrow> \<exists>c t. show_param p = c # t \<and> \<not> is_blank c \<and> c \<noteq> CHR '')''"
proof (cases p)
  case (Param t ix nm)
  assume "wf_param al p"
  thus ?thesis using not_blank by (cases t) (auto simp: Param neq_Nil_conv is_blank_def)
qed

lemma list_read:
  assumes "\<forall>p \<in> set ps. param_reads p" "list_all (wf_param al) ps" "2 * length (joined (map show_param ps)) + 2 \<le> n"
  shows "argList n al (joined (map show_param ps) @ CHR '')'' # r) = Some (map to_arg ps, list_ex indexed ps, CHR '')'' # r)"
proof -
  obtain m where n: "n = Suc m" using assms(3) by (cases n) auto
  show ?thesis
  proof (cases ps)
    case Nil
    thus ?thesis using n by (simp add: skipSpace_def is_blank_def peek_def)
  next
    case (Cons p qs)
    then obtain c t where c: "show_param p = c # t" "\<not> is_blank c" "c \<noteq> CHR '')''" using show_param_start [of al p] assms(2) by auto
    have "hd (map show_param ps) = c # t" using Cons c by simp
    then obtain u where u: "joined (map show_param ps) = c # u" using joined_hd [of "map show_param ps" c t] Cons by auto
    have "sig_args m al (joined (map show_param ps) @ CHR '')'' # r) = Some (map to_arg ps, list_ex indexed ps, CHR '')'' # r)"
      by (rule args_read) (use assms n Cons in auto)
    thus ?thesis using n u c by (simp add: skipSpace_def peek_def)
  qed
qed

lemma not_indexed: "list_all (wf_param False) ps \<Longrightarrow> \<not> list_ex indexed ps"
proof (induction ps)
  case (Cons p ps)
  thus ?case by (cases p) auto
qed simp

lemma tail_start: "ends r \<Longrightarrow> peek ((if ix then '' indexed'' else []) @ (if nm = [] then [] else CHR '' '' # nm) @ r) \<noteq> CHR ''[''"
  "ends r \<Longrightarrow> (if ix then '' indexed'' else []) @ (if nm = [] then [] else CHR '' '' # nm) @ r = [] \<or>
     \<not> type_char (hd ((if ix then '' indexed'' else []) @ (if nm = [] then [] else CHR '' '' # nm) @ r))"
  using ends_cases [of r] by (auto simp: peek_def type_char_def isAlpha_def is_digit_def split: if_splits)

lemma param_read: "param_reads p"
proof (induction "size p" arbitrary: p rule: less_induct)
  case less
  obtain t ix nm where p: "p = Param t ix nm" by (cases p)
  let ?tail = "(if ix then '' indexed'' else []) @ (if nm = [] then [] else CHR '' '' # nm)"
  show ?case unfolding param_reads_def
  proof (intro allI impI)
    fix al n r assume wf: "wf_param al p" and r: "ends r" and n: "2 * length (show_param p) \<le> n"
    have tl: "arg_tail al (AbiArg [] ty it cs False) (?tail @ r) = Some (AbiArg nm ty it cs ix, ix, r)" for ty it cs
      using tail_read [OF r] wf p by simp
    show "sig_arg n al (show_param p @ r) = Some (to_arg p, indexed p, r)"
    proof (cases t)
      case (Base b ds)
      have w: "b \<noteq> []" "isAlpha (hd b)" "list_all type_char b" "list_all (list_all is_digit) ds" using wf p Base by auto
      obtain c u where b: "b = c # u" using w(1) by (cases b) auto
      then obtain m where m: "n = Suc m" using n p Base by (cases n) auto
      have k: "skipSpace (b @ x) = b @ x" "peek (b @ x) \<noteq> CHR ''(''" for x
        using not_blank w(2) b by (auto simp: skipSpace_def peek_def)
      have "typeToken (b @ suffixes ds @ ?tail @ r) = Some (b @ suffixes ds, ?tail @ r)"
        by (rule type_read [OF w]) (use tail_start [OF r] in auto)
      moreover have "show_param p @ r = b @ suffixes ds @ ?tail @ r" by (simp add: p Base)
      ultimately show ?thesis using tl k m by (simp add: p Base Let_def)
    next
      case (Tup ps ds)
      have w: "list_all (wf_param False) ps" "list_all (list_all is_digit) ds" using wf p Tup by auto
      have IH: "\<forall>q \<in> set ps. param_reads q"
      proof
        fix q assume "q \<in> set ps"
        hence "size q < size p" using size_list_estimation' [of q ps "size q" size] by (simp add: p Tup)
        thus "param_reads q" by (rule less)
      qed
      have s: "show_param p @ r = CHR ''('' # joined (map show_param ps) @ CHR '')'' # suffixes ds @ ?tail @ r" by (simp add: p Tup)
      obtain m where m: "n = Suc m" using n p Tup by (cases n) auto
      have "argList m False (joined (map show_param ps) @ CHR '')'' # suffixes ds @ ?tail @ r) =
          Some (map to_arg ps, False, CHR '')'' # suffixes ds @ ?tail @ r)"
        using list_read [OF IH w(1), of m "suffixes ds @ ?tail @ r"] not_indexed [OF w(1)] n m by (simp add: p Tup)
      moreover have "arraySuffix (suffixes ds @ ?tail @ r) = Some (suffixes ds, ?tail @ r)"
        by (rule suffix_read [OF w(2)]) (use tail_start(1) [OF r] in auto)
      moreover have "skipSpace (CHR ''('' # x) = CHR ''('' # x" "skipSpace (CHR '')'' # x) = CHR '')'' # x" for x by (simp_all add: skipSpace_def is_blank_def)
      ultimately show ?thesis unfolding s using tl m by (simp add: p Tup Let_def peek_def consume_def del: arraySuffix.simps)
    qed
  qed
qed

section \<open>Signatures are read back\<close>

definition show_signature :: "string \<Rightarrow> param list \<Rightarrow> param list option \<Rightarrow> string" where
  "show_signature name ins outs = name @ CHR ''('' # joined (map show_param ins) @ CHR '')'' #
     (case outs of None \<Rightarrow> [] | Some ps \<Rightarrow> CHR ''('' # joined (map show_param ps) @ '')'')"

definition signature_of :: "string \<Rightarrow> param list \<Rightarrow> param list option \<Rightarrow> signature" where
  "signature_of name ins outs = \<lparr>sg_Name = name, sg_Inputs = nameArgs ''arg'' 0 (map to_arg ins),
     sg_Outputs = (case outs of None \<Rightarrow> [] | Some ps \<Rightarrow> nameArgs ''ret'' 0 (map to_arg ps)),
     sg_HasOutputs = (outs \<noteq> None), sg_AnyIndexed = list_ex indexed ins\<rparr>"

lemma TrimSpace_ends: "s \<noteq> [] \<Longrightarrow> \<not> is_space (hd s) \<Longrightarrow> \<not> is_space (last s) \<Longrightarrow> TrimSpace s = s"
proof -
  assume s: "s \<noteq> []" "\<not> is_space (hd s)" "\<not> is_space (last s)"
  hence "dropWhile is_space s = s" by (cases s) auto
  moreover have "dropWhile is_space (rev s) = rev s" using s by (cases s rule: rev_cases) auto
  ultimately show ?thesis by (simp add: TrimSpace_def TrimLeftP_def TrimRightP_def)
qed

lemma ident_not_space: "ident_start c \<Longrightarrow> \<not> is_space c"
  by (auto simp: ident_start_def isAlpha_def is_space_def)

lemma identifier_read: "is_ident s \<Longrightarrow> identifier_at (s @ CHR ''('' # r) = Some (s, CHR ''('' # r)"
  using ident_read [of s "CHR ''('' # r"] by (simp add: identifier_at_def maybeIdentifier_def ident_char_def isAlpha_def is_digit_def)

lemma consume_paren [simp]: "consume CHR ''('' (CHR ''('' # r) = Some r" "consume CHR '')'' (CHR '')'' # r) = Some r"
  by (simp_all add: consume_def skipSpace_def is_blank_def)

lemma list_read_fuel:
  assumes "list_all (wf_param al) ps"
  shows "argList (sig_fuel (joined (map show_param ps) @ CHR '')'' # r)) al (joined (map show_param ps) @ CHR '')'' # r) = Some (map to_arg ps, list_ex indexed ps, CHR '')'' # r)"
  by (rule list_read) (use assms param_read in \<open>auto simp: sig_fuel_def\<close>)

lemma signature_read:
  assumes "is_ident name" "list_all (wf_param True) ins" "\<forall>ps. outs = Some ps \<longrightarrow> list_all (wf_param False) ps"
  shows "parseSignature (show_signature name ins outs) = Some (signature_of name ins outs)"
proof -
  let ?rest = "case outs of None \<Rightarrow> [] | Some ps \<Rightarrow> CHR ''('' # joined (map show_param ps) @ '')''"
  have "TrimSpace (show_signature name ins outs) = show_signature name ins outs"
  proof (rule TrimSpace_ends)
    show "\<not> is_space (hd (show_signature name ins outs))"
      using assms(1) ident_not_space by (cases name) (auto simp: show_signature_def is_ident_def)
    have "last (show_signature name ins outs) = CHR '')''" by (cases outs) (simp_all add: show_signature_def)
    thus "\<not> is_space (last (show_signature name ins outs))" by (simp add: is_space_def)
  qed (simp add: show_signature_def)
  moreover have "identifier_at (show_signature name ins outs) = Some (name, CHR ''('' # joined (map show_param ins) @ CHR '')'' # ?rest)"
    using identifier_read [OF assms(1)] by (simp add: show_signature_def)
  moreover note list_read_fuel [OF assms(2), of ?rest]
  ultimately show ?thesis
  proof (cases outs)
    case (Some ps)
    hence w: "list_all (wf_param False) ps" using assms(3) by blast
    have "skipSpace (CHR ''('' # x) = CHR ''('' # x" for x by (simp add: skipSpace_def is_blank_def)
    with list_read_fuel [OF w, of "[]"] not_indexed [OF w] show ?thesis
      using \<open>TrimSpace _ = _\<close> \<open>identifier_at _ = _\<close> list_read_fuel [OF assms(2), of ?rest]
      by (simp add: Some parseSignature_def Let_def peek_def signature_of_def) (simp add: skipSpace_def)
  qed (simp add: parseSignature_def Let_def peek_def skipSpace_def signature_of_def)
qed

end
