(* ===== verification/Abi_Literal.thy ===== *)
theory Abi_Literal
  imports Hex_Bytes Domain_Errors
begin

text \<open>
  The coercion of command-line arguments into ABI values (\<open>abi/coerce.go\<close>): integers, addresses, byte strings and the literal
  grammar of arrays and tuples.  The Solidity types are the relevant part of go-ethereum's; a value is what \<open>Pack\<close> takes, with
  Go's identification of \<open>[]uint8\<close> and \<open>[]byte\<close>.  Texts are bytes; \<open>TrimSpace\<close> knows ASCII white space.
\<close>

section \<open>Types and values\<close>

datatype abi_type = IntTy int | UintTy int | BoolTy | AddressTy | StringTy | BytesTy | FixedBytesTy nat
  | SliceTy abi_type | ArrayTy nat abi_type | TupleTy "abi_type list" | OtherTy

datatype go_value = GBig int | GInt nat int | GUint nat nat | GBool bool | GAddress string | GHash bytes | GString string | GBytes bytes | GFixed bytes
  | GSlice "go_value list" | GArray "go_value list" | GStruct "go_value list"

record AddrProvenance =
  av_Input :: string
  av_Addr :: string
  av_Via :: string
  av_ENSName :: string

definition no_prov :: "string \<Rightarrow> AddrProvenance" where
  "no_prov zero = \<lparr>av_Input = [], av_Addr = zero, av_Via = [], av_ENSName = []\<rparr>"

text \<open>What the coercer is given: the resolver of address arguments (\<open>None\<close> on the pure paths), and go-ethereum's address functions.\<close>

record coercer =
  co_resolve :: "(string \<Rightarrow> (string \<times> AddrProvenance) result) option"
  co_isHex :: "string \<Rightarrow> bool"
  co_toAddr :: "string \<Rightarrow> string"
  co_zero :: string

abbreviation errBadArg :: Error where
  "errBadArg \<equiv> New ''usage.bad_arg''"

section \<open>Scalars\<close>

text \<open>\<open>big.Int.SetString\<close> with base 16: an optional sign, then hexadecimal digits.\<close>

definition hex_val :: "string \<Rightarrow> nat" where
  "hex_val s = foldl (\<lambda>n c. n * 16 + (case hexVal c of Some d \<Rightarrow> unat d | None \<Rightarrow> 0)) 0 s"

definition all_hex :: "string \<Rightarrow> bool" where
  "all_hex s \<longleftrightarrow> s \<noteq> [] \<and> list_all (\<lambda>c. hexVal c \<noteq> None) s"

definition SetString16 :: "string \<Rightarrow> int option" where
  "SetString16 s = (case s of [] \<Rightarrow> None
     | c # r \<Rightarrow> if c = CHR ''-'' then (if all_hex r then Some (- int (hex_val r)) else None)
         else if c = CHR ''+'' then (if all_hex r then Some (int (hex_val r)) else None)
         else if all_hex s then Some (int (hex_val s)) else None)"

definition parseBigInt :: "string \<Rightarrow> int option" where
  "parseBigInt s0 = (let s = TrimSpace s0 in
     if s = [] then None
     else (let neg = HasPrefix s ''-''; t = (if neg then tl s else s);
               v = (if HasPrefix t ''0x'' \<or> HasPrefix t ''0X'' then SetString16 (drop 2 t) else SetString t)
           in map_option (\<lambda>i. if neg then - i else i) v))"

definition checkIntRange :: "int \<Rightarrow> bool \<Rightarrow> int \<Rightarrow> unit result" where
  "checkIntRange v uns bits =
    (if bits \<le> 0 \<or> bits > 256 then Inl errBadArg
     else if uns then
       (if v < 0 then Inl errBadArg else if v > 2 ^ nat bits - 1 then Inl errBadArg else Inr ())
     else (if v > 2 ^ (nat bits - 1) - 1 \<or> v < - (2 ^ (nat bits - 1)) then Inl errBadArg else Inr ()))"

text \<open>The reflect kind of an integer type: sized for 8, 16, 32 and 64 bits, a big integer otherwise; the conversions truncate.\<close>

definition convertToReflectInt :: "int \<Rightarrow> bool \<Rightarrow> int \<Rightarrow> go_value" where
  "convertToReflectInt v uns bits =
    (if bits \<in> {8, 16, 32, 64}
     then (if uns then GUint (nat bits) (nat (v mod 2 ^ nat bits))
           else GInt (nat bits) ((v + 2 ^ (nat bits - 1)) mod 2 ^ nat bits - 2 ^ (nat bits - 1)))
     else GBig v)"

definition coerceInt :: "bool \<Rightarrow> int \<Rightarrow> string \<Rightarrow> go_value result" where
  "coerceInt uns bits s = (case parseBigInt s of None \<Rightarrow> Inl errBadArg
     | Some v \<Rightarrow> (case checkIntRange v uns bits of Inl err \<Rightarrow> Inl err | Inr _ \<Rightarrow> Inr (convertToReflectInt v uns bits)))"

definition coerceBool :: "string \<Rightarrow> go_value result" where
  "coerceBool s = (let t = TrimSpace s in if t = ''true'' then Inr (GBool True) else if t = ''false'' then Inr (GBool False) else Inl errBadArg)"

definition parseHexBytes :: "string \<Rightarrow> bytes option" where
  "parseHexBytes s0 = (let s = TrimSpace s0 in
     if \<not> HasPrefix s ''0x'' \<and> \<not> HasPrefix s ''0X'' then None
     else (let body = drop 2 s in if length body mod 2 \<noteq> 0 then None else decode_pairs body))"

definition coerceDynBytes :: "string \<Rightarrow> go_value result" where
  "coerceDynBytes s = (case parseHexBytes s of None \<Rightarrow> Inl errBadArg | Some b \<Rightarrow> Inr (GBytes b))"

definition coerceFixedBytes :: "nat \<Rightarrow> string \<Rightarrow> go_value result" where
  "coerceFixedBytes n s = (case parseHexBytes s of None \<Rightarrow> Inl errBadArg
     | Some b \<Rightarrow> if length b \<noteq> n then Inl errBadArg else Inr (GFixed b))"

text \<open>The last provenance is the coercer's state.\<close>

definition coerceAddr :: "coercer \<Rightarrow> string \<Rightarrow> AddrProvenance \<Rightarrow> go_value result \<times> AddrProvenance" where
  "coerceAddr co s0 lst = (case co_resolve co of
       Some resolve \<Rightarrow> (case resolve s0 of Inl _ \<Rightarrow> (Inl errBadArg, lst)
         | Inr (addr, prov) \<Rightarrow>
            (let p1 = (if av_Input prov = [] then prov\<lparr>av_Input := s0\<rparr> else prov);
                 p2 = (if av_Addr p1 = co_zero co then p1\<lparr>av_Addr := addr\<rparr> else p1)
             in (Inr (GAddress addr), p2)))
     | None \<Rightarrow> (let s = TrimSpace s0 in
         if \<not> co_isHex co s then (Inl errBadArg, lst)
         else (Inr (GAddress (co_toAddr co s)),
               \<lparr>av_Input = s, av_Addr = co_toAddr co s, av_Via = ''literal'', av_ENSName = []\<rparr>)))"

section \<open>The literal grammar\<close>

text \<open>The scan of \<open>splitLiteral\<close>: the elements so far, the current buffer, the nesting depth, inside a quoted element, after a
  backslash in one.\<close>

fun split_scan :: "string \<Rightarrow> string list \<Rightarrow> string \<Rightarrow> int \<Rightarrow> bool \<Rightarrow> bool \<Rightarrow> string list option" where
  "split_scan [] elems buf depth inStr esc = (if inStr then None else if depth \<noteq> 0 then None else Some (elems @ [TrimSpace buf]))"
| "split_scan (ch # s) elems buf depth inStr esc =
    (if inStr then
       (if esc then split_scan s elems (buf @ [ch]) depth True False
        else if ch = CHR 0x5C then split_scan s elems (buf @ [ch]) depth True True
        else if ch = CHR 0x22 then split_scan s elems (buf @ [ch]) depth False False
        else split_scan s elems (buf @ [ch]) depth True False)
     else if ch = CHR 0x22 then split_scan s elems (buf @ [ch]) depth True False
     else if ch = CHR ''['' \<or> ch = CHR ''('' then split_scan s elems (buf @ [ch]) (depth + 1) False False
     else if ch = CHR '']'' \<or> ch = CHR '')'' then
       (if depth - 1 < 0 then None else split_scan s elems (buf @ [ch]) (depth - 1) False False)
     else if ch = CHR '','' then
       (if depth = 0 then split_scan s (elems @ [TrimSpace buf]) [] depth False False
        else split_scan s elems (buf @ [ch]) depth False False)
     else split_scan s elems (buf @ [ch]) depth False False)"

fun unescape :: "string \<Rightarrow> string" where
  "unescape [] = []"
| "unescape [c] = [c]"
| "unescape (c # d # s) = (if c = CHR 0x5C \<and> (d = CHR 0x22 \<or> d = CHR 0x5C) then d # unescape s else c # unescape (d # s))"

definition unquote :: "string \<Rightarrow> string option" where
  "unquote s = (if length s < 2 \<or> hd s \<noteq> CHR 0x22 \<or> last s \<noteq> CHR 0x22 then None else Some (unescape (butlast (tl s))))"

definition splitLiteral :: "string \<Rightarrow> char \<Rightarrow> char \<Rightarrow> string list option" where
  "splitLiteral s0 open_c close_c = (let s = TrimSpace s0 in
     if length s < 2 \<or> hd s \<noteq> open_c \<or> last s \<noteq> close_c then None
     else (let inner = butlast (tl s) in
       if TrimSpace inner = [] then Some []
       else map_option (map (\<lambda>e. case unquote e of Some u \<Rightarrow> u | None \<Rightarrow> e)) (split_scan inner [] [] 0 False False)))"

section \<open>The descent\<close>

text \<open>A slice or array of \<open>uint8\<close> is a byte slice or byte array.\<close>

definition byte_of :: "go_value \<Rightarrow> 8 word" where
  "byte_of v = (case v of GUint _ n \<Rightarrow> word_of_nat n | _ \<Rightarrow> 0)"

definition make_slice :: "abi_type \<Rightarrow> go_value list \<Rightarrow> go_value" where
  "make_slice t vs = (if t = UintTy 8 then GBytes (map byte_of vs) else GSlice vs)"

definition make_array :: "abi_type \<Rightarrow> go_value list \<Rightarrow> go_value" where
  "make_array t vs = (if t = UintTy 8 then GFixed (map byte_of vs) else GArray vs)"

text \<open>\<open>coerce_all t\<close> coerces every element to \<open>t\<close>, \<open>coerce_each ts\<close> element by element; the first error stops both.\<close>

fun each :: "('s \<Rightarrow> 'p \<Rightarrow> 'v result \<times> 'p) \<Rightarrow> 's list \<Rightarrow> 'p \<Rightarrow> 'v list result \<times> 'p" where
  "each f [] p = (Inr [], p)"
| "each f (s # ss) p = (case f s p of (Inl err, q) \<Rightarrow> (Inl err, q)
     | (Inr v, q) \<Rightarrow> (case each f ss q of (Inl err, r) \<Rightarrow> (Inl err, r) | (Inr vs, r) \<Rightarrow> (Inr (v # vs), r)))"

fun coerce :: "coercer \<Rightarrow> abi_type \<Rightarrow> string \<Rightarrow> AddrProvenance \<Rightarrow> go_value result \<times> AddrProvenance"
  and coerce_each :: "coercer \<Rightarrow> abi_type list \<Rightarrow> string list \<Rightarrow> AddrProvenance \<Rightarrow> go_value list result \<times> AddrProvenance" where
  "coerce co (IntTy bits) s p = (coerceInt False bits s, p)"
| "coerce co (UintTy bits) s p = (coerceInt True bits s, p)"
| "coerce co BoolTy s p = (coerceBool s, p)"
| "coerce co AddressTy s p = coerceAddr co s p"
| "coerce co StringTy s p = (Inr (GString s), p)"
| "coerce co BytesTy s p = (coerceDynBytes s, p)"
| "coerce co (FixedBytesTy n) s p = (coerceFixedBytes n s, p)"
| "coerce co (SliceTy t) s p = (case splitLiteral s CHR ''['' CHR '']'' of None \<Rightarrow> (Inl errBadArg, p)
     | Some elems \<Rightarrow> (case each (coerce co t) elems p of (Inl err, q) \<Rightarrow> (Inl err, q) | (Inr vs, q) \<Rightarrow> (Inr (make_slice t vs), q)))"
| "coerce co (ArrayTy n t) s p = (case splitLiteral s CHR ''['' CHR '']'' of None \<Rightarrow> (Inl errBadArg, p)
     | Some elems \<Rightarrow> if length elems \<noteq> n then (Inl errBadArg, p)
         else (case each (coerce co t) elems p of (Inl err, q) \<Rightarrow> (Inl err, q) | (Inr vs, q) \<Rightarrow> (Inr (make_array t vs), q)))"
| "coerce co (TupleTy ts) s p = (case splitLiteral s CHR ''('' CHR '')'' of None \<Rightarrow> (Inl errBadArg, p)
     | Some elems \<Rightarrow> if length elems \<noteq> length ts then (Inl errBadArg, p)
         else (case coerce_each co ts elems p of (Inl err, q) \<Rightarrow> (Inl err, q) | (Inr vs, q) \<Rightarrow> (Inr (GStruct vs), q)))"
| "coerce co OtherTy s p = (Inl errBadArg, p)"
| "coerce_each co (t # ts) (s # ss) p = (case coerce co t s p of (Inl err, q) \<Rightarrow> (Inl err, q)
     | (Inr v, q) \<Rightarrow> (case coerce_each co ts ss q of (Inl err, r) \<Rightarrow> (Inl err, r) | (Inr vs, r) \<Rightarrow> (Inr (v # vs), r)))"
| "coerce_each co _ _ p = (Inr [], p)"

definition ParseLiteral :: "coercer \<Rightarrow> abi_type \<Rightarrow> string \<Rightarrow> go_value result" where
  "ParseLiteral co t s = fst (coerce (co\<lparr>co_resolve := None\<rparr>) t s (no_prov (co_zero co)))"

text \<open>The arguments of a method; a top-level address keeps the provenance just recorded.\<close>

fun coerce_args :: "coercer \<Rightarrow> abi_type list \<Rightarrow> string list \<Rightarrow> AddrProvenance \<Rightarrow> (go_value list \<times> AddrProvenance list) result" where
  "coerce_args co (t # ts) (s # ss) p = (case coerce co t s p of (Inl err, q) \<Rightarrow> Inl err
     | (Inr v, q) \<Rightarrow> (case coerce_args co ts ss q of Inl err \<Rightarrow> Inl err
         | Inr (vs, provs) \<Rightarrow> Inr (v # vs, (if t = AddressTy then q else no_prov (co_zero co)) # provs)))"
| "coerce_args co _ _ p = Inr ([], [])"

definition CoerceArgs :: "coercer \<Rightarrow> (string \<rightharpoonup> abi_type list) \<Rightarrow> string \<Rightarrow> string list \<Rightarrow> (go_value list \<times> AddrProvenance list) result" where
  "CoerceArgs co methods m args = (case methods m of None \<Rightarrow> Inl (New ''usage.unknown_method'')
     | Some ts \<Rightarrow> if length args \<noteq> length ts then Inl (New ''usage.bad_arg'') else coerce_args co ts args (no_prov (co_zero co)))"

end
