(* ===== verification/Abi_Codec.thy ===== *)
theory Abi_Codec
  imports Abi_Literal Json
begin

text \<open>
  The ABI codec (\<open>abi/abi.go\<close>): calls, return data, calldata and logs through go-ethereum's encoder, which is an argument, and
  the rendering of decoded values as text.  \<open>json.Marshal\<close> is modelled on the values the rendering builds; texts are taken to be
  valid UTF-8 without U+2028 and U+2029.
\<close>

section \<open>Rendering\<close>

definition marshal_char :: "char \<Rightarrow> string" where
  "marshal_char c = (let n = of_char c :: nat in
     if n = 0x22 then [CHR 0x5C, CHR 0x22]
     else if n = 0x5C then [CHR 0x5C, CHR 0x5C]
     else if n = 0x08 then [CHR 0x5C, CHR ''b'']
     else if n = 0x0C then [CHR 0x5C, CHR ''f'']
     else if n = 0x0A then [CHR 0x5C, CHR ''n'']
     else if n = 0x0D then [CHR 0x5C, CHR ''r'']
     else if n = 0x09 then [CHR 0x5C, CHR ''t'']
     else if n < 0x20 \<or> n = 0x3C \<or> n = 0x3E \<or> n = 0x26 then CHR 0x5C # ''u00'' @ [hexdigits ! (n div 16), hexdigits ! (n mod 16)]
     else [c])"

fun marshal :: "json \<Rightarrow> string" where
  "marshal JsNull = ''null''"
| "marshal (JsBool b) = (if b then ''true'' else ''false'')"
| "marshal (JsNum t) = t"
| "marshal (JsText s) = CHR 0x22 # concat (map marshal_char s) @ [CHR 0x22]"
| "marshal (JsArr vs) = CHR ''['' # joined (map marshal vs) @ '']''"
| "marshal (JsObj ms) = CHR ''{'' # joined (map (\<lambda>(k, v). CHR 0x22 # concat (map marshal_char k) @ CHR 0x22 # CHR '':'' # marshal v) ms) @ ''}''"

text \<open>Sized integers have no case of their own: they reach the \<open>%v\<close> of the reflection tail and become JSON strings.\<close>

fun normalizeForJSON :: "go_value \<Rightarrow> json" where
  "normalizeForJSON (GBig i) = JsText (int_dec i)"
| "normalizeForJSON (GAddress a) = JsText a"
| "normalizeForJSON (GHash b) = JsText (hexBytes b)"
| "normalizeForJSON (GBool b) = JsBool b"
| "normalizeForJSON (GString s) = JsText s"
| "normalizeForJSON (GBytes b) = JsText (hexBytes b)"
| "normalizeForJSON (GFixed b) = JsText (hexBytes b)"
| "normalizeForJSON (GSlice vs) = JsArr (map normalizeForJSON vs)"
| "normalizeForJSON (GArray vs) = JsArr (map normalizeForJSON vs)"
| "normalizeForJSON (GStruct vs) = JsArr (map normalizeForJSON vs)"
| "normalizeForJSON (GInt w i) = JsText (int_dec i)"
| "normalizeForJSON (GUint w n) = JsText (nat_dec n)"

definition formatComposite :: "go_value \<Rightarrow> string" where
  "formatComposite v = marshal (normalizeForJSON v)"

text \<open>\<open>None\<close> is Go's nil: a value the decoder did not deliver.\<close>

definition formatValue :: "go_value option \<Rightarrow> string" where
  "formatValue v = (case v of None \<Rightarrow> []
     | Some (GBig i) \<Rightarrow> int_dec i
     | Some (GAddress a) \<Rightarrow> a
     | Some (GHash b) \<Rightarrow> hexBytes b
     | Some (GBool b) \<Rightarrow> (if b then ''true'' else ''false'')
     | Some (GString s) \<Rightarrow> s
     | Some (GBytes b) \<Rightarrow> hexBytes b
     | Some u \<Rightarrow> formatComposite u)"

section \<open>Calls, calldata, logs\<close>

record Argument =
  ag_Name :: string
  ag_TypeName :: string
  ag_Type :: abi_type
  ag_Indexed :: bool

record Method =
  md_Name :: string
  md_Inputs :: "Argument list"
  md_Outputs :: "Argument list"

record abi_event =
  et_ID :: bytes
  et_Inputs :: "Argument list"

record parsed_abi =
  pa_Methods :: "string \<rightharpoonup> Method"
  pa_Events :: "string \<rightharpoonup> abi_event"

record DecodedValue =
  dv_Name :: string
  dv_Type :: string
  dv_Value :: string

text \<open>go-ethereum's encoder: packing a call, unpacking values, the method of a selector, topics from filters and values from topics.\<close>

record geth_abi =
  ga_Pack :: "Method \<Rightarrow> go_value list \<Rightarrow> bytes option"
  ga_Unpack :: "Argument list \<Rightarrow> bytes \<Rightarrow> go_value list option"
  ga_MethodById :: "parsed_abi \<Rightarrow> bytes \<Rightarrow> Method option"
  ga_MakeTopics :: "bytes \<Rightarrow> go_value option list \<Rightarrow> bytes list list option"
  ga_UnpackIntoMap :: "Argument list \<Rightarrow> bytes \<Rightarrow> (string \<rightharpoonup> go_value) option"
  ga_ParseTopicsIntoMap :: "Argument list \<Rightarrow> bytes list \<Rightarrow> (string \<rightharpoonup> go_value) option"
  ga_JSON :: "string \<Rightarrow> (parsed_abi \<times> bool) option"

text \<open>\<open>ga_JSON\<close> also says whether the document declares any method or event.\<close>

definition ParseJSON :: "geth_abi \<Rightarrow> string \<Rightarrow> parsed_abi result" where
  "ParseJSON ga doc = (if TrimSpace doc = [] then Inl (New ''usage.bad_abi'')
     else (case ga_JSON ga doc of None \<Rightarrow> Inl (New ''usage.bad_abi'')
       | Some (parsed, declares) \<Rightarrow> if \<not> declares then Inl (New ''usage.bad_abi'') else Inr parsed))"

definition PackCall :: "geth_abi \<Rightarrow> parsed_abi \<Rightarrow> string \<Rightarrow> go_value list \<Rightarrow> bytes result" where
  "PackCall ga parsed m args = (case pa_Methods parsed m of None \<Rightarrow> Inl (New ''usage.unknown_method'')
     | Some md \<Rightarrow> (case ga_Pack ga md args of None \<Rightarrow> Inl (New ''usage.bad_arg'') | Some data \<Rightarrow> Inr data))"

definition labelValues :: "Argument list \<Rightarrow> go_value list \<Rightarrow> DecodedValue list" where
  "labelValues args vals = map (\<lambda>i. let a = args ! i; v = (if i < length vals then Some (vals ! i) else None)
     in \<lparr>dv_Name = ag_Name a, dv_Type = ag_TypeName a, dv_Value = formatValue v\<rparr>) [0..<length args]"

definition UnpackReturns :: "geth_abi \<Rightarrow> parsed_abi \<Rightarrow> string \<Rightarrow> bytes \<Rightarrow> DecodedValue list result" where
  "UnpackReturns ga parsed m ret = (case pa_Methods parsed m of None \<Rightarrow> Inl (New ''usage.unknown_method'')
     | Some md \<Rightarrow> if md_Outputs md = [] then Inl (New ''usage.no_outputs'')
         else (case ga_Unpack ga (md_Outputs md) ret of None \<Rightarrow> Inl (New ''tx.reverted'')
           | Some vals \<Rightarrow> Inr (labelValues (md_Outputs md) vals)))"

definition UnpackCalldata :: "geth_abi \<Rightarrow> parsed_abi \<Rightarrow> bytes \<Rightarrow> (string \<times> string \<times> DecodedValue list) result" where
  "UnpackCalldata ga parsed calldata =
    (if length calldata < 4 then Inl (New ''usage.bad_calldata'')
     else (let sel = take 4 calldata in
       (case ga_MethodById ga parsed sel of None \<Rightarrow> Inl (New ''usage.unknown_selector'')
        | Some md \<Rightarrow> (case ga_Unpack ga (md_Inputs md) (drop 4 calldata) of None \<Rightarrow> Inl (New ''usage.bad_calldata'')
            | Some vals \<Rightarrow> Inr (md_Name md, hexBytes sel, labelValues (md_Inputs md) vals)))))"

text \<open>A filter is good when the first argument of its name is indexed.  The iteration order of the map decides only which of two
  bad filters is reported.\<close>

definition good_filter :: "Argument list \<Rightarrow> string \<Rightarrow> bool" where
  "good_filter inputs n = (case find (\<lambda>a. ag_Name a = n) inputs of None \<Rightarrow> False | Some a \<Rightarrow> ag_Indexed a)"

definition PackEvent :: "geth_abi \<Rightarrow> parsed_abi \<Rightarrow> string \<Rightarrow> (string \<times> go_value) list \<Rightarrow> (bytes list list \<times> bytes) result" where
  "PackEvent ga parsed event filters = (case pa_Events parsed event of None \<Rightarrow> Inl (New ''usage.unknown_method'')
     | Some ev \<Rightarrow>
         if \<not> list_all (\<lambda>f. good_filter (et_Inputs ev) (fst f)) filters then Inl (New ''usage.bad_arg'')
         else (case ga_MakeTopics ga (et_ID ev) (map (\<lambda>a. map_of filters (ag_Name a)) (filter ag_Indexed (et_Inputs ev))) of
             None \<Rightarrow> Inl (New ''usage.bad_arg'') | Some topics \<Rightarrow> Inr (topics, et_ID ev)))"

definition UnpackLog :: "geth_abi \<Rightarrow> parsed_abi \<Rightarrow> string \<Rightarrow> bytes list \<Rightarrow> bytes \<Rightarrow> DecodedValue list result" where
  "UnpackLog ga parsed event topics data = (case pa_Events parsed event of None \<Rightarrow> Inl (New ''usage.unknown_method'')
     | Some ev \<Rightarrow>
       (let idx = filter ag_Indexed (et_Inputs ev); plain = filter (\<lambda>a. \<not> ag_Indexed a) (et_Inputs ev) in
        (case (if plain = [] then Some Map.empty else ga_UnpackIntoMap ga (et_Inputs ev) data) of None \<Rightarrow> Inl (New ''usage.bad_calldata'')
         | Some dataVals \<Rightarrow>
           (case (if idx = [] then Inr Map.empty
                  else if length topics < 1 + length idx then Inl (New ''usage.bad_calldata'')
                  else (case ga_ParseTopicsIntoMap ga idx (take (length idx) (drop 1 topics)) of None \<Rightarrow> Inl (New ''usage.bad_calldata'') | Some m \<Rightarrow> Inr m)) of
              Inl err \<Rightarrow> Inl err
            | Inr indexedVals \<Rightarrow> Inr (map (\<lambda>a. \<lparr>dv_Name = ag_Name a, dv_Type = ag_TypeName a,
                dv_Value = formatValue (if ag_Indexed a then indexedVals (ag_Name a) else dataVals (ag_Name a))\<rparr>) (et_Inputs ev))))))"

end
