(* ===== verification/Abi_Claims.thy ===== *)
theory Abi_Claims
  imports Abi_Parse Abi_Codec
begin

text \<open>
  The properties of the ABI front end: what the coercer hands to the encoder has the declared type, every list of texts can be
  written as a literal, every signature can be written and read back, and what decoded values are printed as.
\<close>

section \<open>Types\<close>

fun typed :: "abi_type \<Rightarrow> go_value \<Rightarrow> bool" where
  "typed (UintTy b) v \<longleftrightarrow> 0 < b \<and> b \<le> 256 \<and> (case v of
     GUint w n \<Rightarrow> b \<in> {8, 16, 32, 64} \<and> int w = b \<and> n < 2 ^ w | GBig i \<Rightarrow> b \<notin> {8, 16, 32, 64} \<and> 0 \<le> i \<and> i < 2 ^ nat b | _ \<Rightarrow> False)"
| "typed (IntTy b) v \<longleftrightarrow> 0 < b \<and> b \<le> 256 \<and> (case v of
     GInt w i \<Rightarrow> b \<in> {8, 16, 32, 64} \<and> int w = b \<and> - (2 ^ (w - 1)) \<le> i \<and> i < 2 ^ (w - 1)
   | GBig i \<Rightarrow> b \<notin> {8, 16, 32, 64} \<and> - (2 ^ (nat b - 1)) \<le> i \<and> i < 2 ^ (nat b - 1) | _ \<Rightarrow> False)"
| "typed BoolTy v \<longleftrightarrow> (case v of GBool _ \<Rightarrow> True | _ \<Rightarrow> False)"
| "typed AddressTy v \<longleftrightarrow> (case v of GAddress _ \<Rightarrow> True | _ \<Rightarrow> False)"
| "typed StringTy v \<longleftrightarrow> (case v of GString _ \<Rightarrow> True | _ \<Rightarrow> False)"
| "typed BytesTy v \<longleftrightarrow> (case v of GBytes _ \<Rightarrow> True | _ \<Rightarrow> False)"
| "typed (FixedBytesTy n) v \<longleftrightarrow> (case v of GFixed b \<Rightarrow> length b = n | _ \<Rightarrow> False)"
| "typed (SliceTy t) v \<longleftrightarrow> (case v of GBytes _ \<Rightarrow> t = UintTy 8 | GSlice vs \<Rightarrow> t \<noteq> UintTy 8 \<and> list_all (typed t) vs | _ \<Rightarrow> False)"
| "typed (ArrayTy n t) v \<longleftrightarrow> (case v of GFixed b \<Rightarrow> t = UintTy 8 \<and> length b = n
     | GArray vs \<Rightarrow> t \<noteq> UintTy 8 \<and> length vs = n \<and> list_all (typed t) vs | _ \<Rightarrow> False)"
| "typed (TupleTy ts) v \<longleftrightarrow> (case v of GStruct vs \<Rightarrow> list_all2 typed ts vs | _ \<Rightarrow> False)"
| "typed OtherTy v \<longleftrightarrow> False"

text \<open>The integer a value stands for.\<close>

definition int_of :: "go_value \<Rightarrow> int option" where
  "int_of v = (case v of GBig i \<Rightarrow> Some i | GInt _ i \<Rightarrow> Some i | GUint _ n \<Rightarrow> Some (int n) | _ \<Rightarrow> None)"

lemma checkIntRange_uint: "checkIntRange v True b = Inr () \<longleftrightarrow> 0 < b \<and> b \<le> 256 \<and> 0 \<le> v \<and> v < 2 ^ nat b"
  by (auto simp: checkIntRange_def not_le)

lemma checkIntRange_int: "checkIntRange v False b = Inr () \<longleftrightarrow> 0 < b \<and> b \<le> 256 \<and> - (2 ^ (nat b - 1)) \<le> v \<and> v < 2 ^ (nat b - 1)"
  by (auto simp: checkIntRange_def not_le)

lemma coerceInt_uint:
  assumes "coerceInt True b s = Inr v"
  shows "typed (UintTy b) v \<and> int_of v = parseBigInt s"
proof -
  obtain i where i: "parseBigInt s = Some i" "checkIntRange i True b = Inr ()" "v = convertToReflectInt i True b"
    using assms by (auto simp: coerceInt_def split: option.splits sum.splits)
  have r: "0 < b" "b \<le> 256" "0 \<le> i" "i < 2 ^ nat b" using i(2) by (auto simp: checkIntRange_uint)
  have "nat i < 2 ^ nat b" using r(3,4) by (simp add: nat_less_iff)
  thus ?thesis using i(1,3) r by (auto simp: convertToReflectInt_def int_of_def)
qed

lemma signed_wrap: "- (2 ^ k) \<le> i \<Longrightarrow> i < 2 ^ k \<Longrightarrow> (i + 2 ^ k) mod 2 ^ Suc k - 2 ^ k = (i :: int)"
  by (subst mod_pos_pos_trivial) auto

lemma coerceInt_int:
  assumes "coerceInt False b s = Inr v"
  shows "typed (IntTy b) v \<and> int_of v = parseBigInt s"
proof -
  obtain i where i: "parseBigInt s = Some i" "checkIntRange i False b = Inr ()" "v = convertToReflectInt i False b"
    using assms by (auto simp: coerceInt_def split: option.splits sum.splits)
  have r: "0 < b" "b \<le> 256" "- (2 ^ (nat b - 1)) \<le> i" "i < 2 ^ (nat b - 1)" using i(2) by (auto simp: checkIntRange_int)
  have "nat b = Suc (nat b - 1)" using r(1) by simp
  hence "(i + 2 ^ (nat b - 1)) mod 2 ^ nat b - 2 ^ (nat b - 1) = i" using signed_wrap [OF r(3,4)] by simp
  thus ?thesis using i(1,3) r by (auto simp: convertToReflectInt_def int_of_def)
qed

lemma each_all: "each f ss p = (Inr vs, q) \<Longrightarrow> (\<And>s p v q. s \<in> set ss \<Longrightarrow> f s p = (Inr v, q) \<Longrightarrow> P v) \<Longrightarrow> length vs = length ss \<and> list_all P vs"
proof (induction ss arbitrary: vs p)
  case (Cons s ss)
  obtain v p1 where v: "f s p = (Inr v, p1)" using Cons.prems(1) by (cases "f s p"; cases "fst (f s p)") auto
  obtain ws where ws: "each f ss p1 = (Inr ws, q)" "vs = v # ws"
    using Cons.prems(1) v by (cases "each f ss p1"; cases "fst (each f ss p1)") auto
  have "length ws = length ss \<and> list_all P ws" by (rule Cons.IH [OF ws(1)]) (use Cons.prems(2) in auto)
  moreover have "P v" by (rule Cons.prems(2) [OF _ v]) simp
  ultimately show ?case using ws(2) by simp
qed simp

lemma typed_make_slice: "list_all (typed t) vs \<Longrightarrow> typed (SliceTy t) (make_slice t vs)"
  by (simp add: make_slice_def)

lemma typed_make_array: "list_all (typed t) vs \<Longrightarrow> typed (ArrayTy (length vs) t) (make_array t vs)"
  by (simp add: make_array_def)

lemma coerce_typed:
  "coerce co t s p = (Inr v, q) \<Longrightarrow> typed t v"
  "coerce_each co ts ss p = (Inr vs, q) \<Longrightarrow> length ts = length ss \<Longrightarrow> list_all2 typed ts vs"
proof (induction co t s p and co ts ss p arbitrary: v q and vs q rule: coerce_coerce_each.induct)
  case (1 co bits s p)
  thus ?case using coerceInt_int [of bits s v] by (simp del: typed.simps)
next
  case (2 co bits s p)
  thus ?case using coerceInt_uint [of bits s v] by (simp del: typed.simps)
next
  case (8 co t s p)
  obtain elems vs where e: "splitLiteral s CHR ''['' CHR '']'' = Some elems" "each (coerce co t) elems p = (Inr vs, q)" "v = make_slice t vs"
    using "8.prems" by (auto split: option.splits prod.splits sum.splits)
  have "list_all (typed t) vs" using each_all [OF e(2)] "8.IH" [OF e(1)] by blast
  thus ?case by (simp add: e(3) typed_make_slice del: typed.simps)
next
  case (9 co n t s p)
  obtain elems vs where e: "splitLiteral s CHR ''['' CHR '']'' = Some elems" "length elems = n" "each (coerce co t) elems p = (Inr vs, q)" "v = make_array t vs"
    using "9.prems" by (auto split: option.splits prod.splits sum.splits if_splits)
  have "length vs = n \<and> list_all (typed t) vs" using each_all [OF e(3)] "9.IH" [OF e(1)] e(2) by blast
  thus ?case using typed_make_array by (auto simp: e(4) simp del: typed.simps)
next
  case (10 co ts s p)
  thus ?case by (auto split: option.splits prod.splits sum.splits if_splits)
qed (auto simp: coerceInt_uint coerceInt_int coerceBool_def coerceAddr_def coerceDynBytes_def coerceFixedBytes_def Let_def
    split: option.splits prod.splits sum.splits if_splits)

lemma coerce_args_typed: "coerce_args co ts ss p = Inr (vs, provs) \<Longrightarrow> length ts = length ss \<Longrightarrow> list_all2 typed ts vs \<and> length provs = length ts"
proof (induction co ts ss p arbitrary: vs provs rule: coerce_args.induct)
  case (1 co t ts s ss p)
  obtain v q where v: "coerce co t s p = (Inr v, q)" using "1.prems"(1) by (cases "coerce co t s p"; cases "fst (coerce co t s p)") auto
  obtain ws qs where ws: "coerce_args co ts ss q = Inr (ws, qs)" "vs = v # ws" "length provs = Suc (length qs)"
    using "1.prems"(1) v by (auto split: sum.splits)
  show ?case using "1.IH" [OF v [symmetric] refl ws(1)] "1.prems"(2) coerce_typed(1) [OF v] ws by simp
qed auto

section \<open>Literals\<close>

fun escape :: "string \<Rightarrow> string" where
  "escape [] = []"
| "escape (c # s) = (if c = CHR 0x22 \<or> c = CHR 0x5C then CHR 0x5C # c # escape s else c # escape s)"

definition quoted :: "string \<Rightarrow> string" where
  "quoted e = CHR 0x22 # escape e @ [CHR 0x22]"

definition literal :: "char \<Rightarrow> char \<Rightarrow> string list \<Rightarrow> string" where
  "literal open_c close_c es = open_c # joined (map quoted es) @ [close_c]"

lemma unescape_escape: "unescape (escape e) = e"
proof (induction e)
  case (Cons c e)
  show ?case
  proof (cases "escape e")
    case Nil
    hence "e = []" by (cases e) (auto split: if_splits)
    thus ?thesis by auto
  qed (use Cons in auto)
qed simp

lemma unquote_quoted: "unquote (quoted e) = Some e"
  by (simp add: unquote_def quoted_def unescape_escape)

lemma scan_escape: "split_scan (escape e @ r) elems buf d True False = split_scan r elems (buf @ escape e) d True False"
  by (induction e arbitrary: buf) auto

lemma scan_quoted: "split_scan (quoted e @ r) elems buf d False False = split_scan r elems (buf @ quoted e) d False False"
  by (simp add: quoted_def scan_escape)

lemma not_space [simp]: "\<not> is_space CHR 0x22" "\<not> is_space CHR ''[''" "\<not> is_space CHR '']''" "\<not> is_space CHR ''(''" "\<not> is_space CHR '')''"
  by (simp_all add: is_space_def)

lemma Trim_quoted [simp]: "TrimSpace (quoted e) = quoted e"
  by (rule TrimSpace_ends) (simp_all add: quoted_def)

lemma scan_literal: "es \<noteq> [] \<Longrightarrow> split_scan (joined (map quoted es)) elems [] 0 False False = Some (elems @ map quoted es)"
proof (induction es arbitrary: elems)
  case (Cons e es)
  show ?case
  proof (cases es)
    case Nil
    thus ?thesis using scan_quoted [of e "[]"] by simp
  next
    case (Cons a as)
    hence "joined (map quoted (e # es)) = quoted e @ CHR '','' # joined (map quoted es)" by simp
    thus ?thesis using Cons.IH [of "elems @ [quoted e]"] Cons by (simp only: scan_quoted) simp
  qed
qed simp

lemma joined_quoted: "es \<noteq> [] \<Longrightarrow> \<exists>t. joined (map quoted es) = CHR 0x22 # t @ [CHR 0x22]"
proof (induction es)
  case (Cons e es)
  show ?case
  proof (cases es)
    case Nil
    thus ?thesis by (simp add: quoted_def)
  next
    case (Cons a as)
    then obtain t where t: "joined (map quoted es) = CHR 0x22 # t @ [CHR 0x22]" using Cons.IH by auto
    have j: "joined (map quoted (e # es)) = quoted e @ CHR '','' # joined (map quoted es)" using Cons by simp
    show ?thesis unfolding j t by (intro exI [of _ "escape e @ CHR 0x22 # CHR '','' # CHR 0x22 # t"]) (simp add: quoted_def)
  qed
qed simp

lemma split_literal:
  assumes "es \<noteq> []" "\<not> is_space o1" "\<not> is_space c1"
  shows "splitLiteral (literal o1 c1 es) o1 c1 = Some es"
proof -
  obtain t where t: "joined (map quoted es) = CHR 0x22 # t @ [CHR 0x22]" using joined_quoted [OF assms(1)] by blast
  have tr: "TrimSpace (literal o1 c1 es) = literal o1 c1 es" by (rule TrimSpace_ends) (simp_all add: literal_def assms)
  have inner: "TrimSpace (joined (map quoted es)) \<noteq> []" unfolding t by (subst TrimSpace_ends) simp_all
  have b: "butlast (tl (literal o1 c1 es)) = joined (map quoted es)" by (simp add: literal_def)
  have l: "hd (literal o1 c1 es) = o1" "last (literal o1 c1 es) = c1" "\<not> length (literal o1 c1 es) < 2" by (simp_all add: literal_def t)
  have "map (\<lambda>e. case unquote e of Some u \<Rightarrow> u | None \<Rightarrow> e) (map quoted es) = es" by (simp add: unquote_quoted comp_def)
  thus ?thesis using scan_literal [OF assms(1), of "[]"] inner by (simp add: splitLiteral_def tr b l Let_def)
qed

section \<open>Properties\<close>

text \<open>C32. The coercer is type-correct: the values it accepts for the arguments of a method have exactly the shapes the encoder expects
  of the declared types, sized and signed integers within their ranges, fixed arrays and byte strings of their lengths, tuples
  component by component, with one provenance per argument.\<close>

theorem coerced_typed:
  assumes "CoerceArgs co methods m args = Inr (vs, provs)"
  shows "\<exists>ts. methods m = Some ts \<and> length args = length ts \<and> list_all2 typed ts vs \<and> length provs = length ts"
proof -
  obtain ts where ts: "methods m = Some ts" "length args = length ts" "coerce_args co ts args (no_prov (co_zero co)) = Inr (vs, provs)"
    using assms by (auto simp: CoerceArgs_def split: option.splits if_splits)
  show ?thesis using coerce_args_typed [OF ts(3)] ts(1,2) by auto
qed

definition demo_coercer :: coercer where
  "demo_coercer = \<lparr>co_resolve = None, co_isHex = (\<lambda>s. length s = 42), co_toAddr = (\<lambda>s. s), co_zero = ''0x0''\<rparr>"

theorem coerced_typed_witness:
  "\<exists>vs provs. CoerceArgs demo_coercer [''f'' \<mapsto> [SliceTy (IntTy 8), TupleTy [UintTy 256, BoolTy]]] ''f'' [''[-128,0x7f]'', ''(10, true)''] = Inr (vs, provs) \<and>
     vs = [GSlice [GInt 8 (-128), GInt 8 127], GStruct [GBig 10, GBool True]] \<and> list_all2 typed [SliceTy (IntTy 8), TupleTy [UintTy 256, BoolTy]] vs"
proof -
  have "CoerceArgs demo_coercer [''f'' \<mapsto> [SliceTy (IntTy 8), TupleTy [UintTy 256, BoolTy]]] ''f'' [''[-128,0x7f]'', ''(10, true)''] =
      Inr ([GSlice [GInt 8 (-128), GInt 8 127], GStruct [GBig 10, GBool True]], [no_prov ''0x0'', no_prov ''0x0''])" by code_simp
  from coerced_typed [OF this] this show ?thesis by auto
qed

text \<open>Every list of texts can be passed: written with each element in double quotes, quotes and backslashes escaped, a
  non-empty list of arbitrary texts is read by an array of strings as exactly those texts, and the splitter takes the same
  form in parentheses.\<close>

lemma literal_roundtrip:
  assumes "es \<noteq> []"
  shows "coerce co (SliceTy StringTy) (literal CHR ''['' CHR '']'' es) p = (Inr (GSlice (map GString es)), p) \<and>
    splitLiteral (literal CHR ''('' CHR '')'' es) CHR ''('' CHR '')'' = Some es"
proof -
  have e: "each (coerce co StringTy) xs p = (Inr (map GString xs), p)" for xs by (induction xs) auto
  have "coerce co (SliceTy StringTy) (literal CHR ''['' CHR '']'' es) p = (Inr (GSlice (map GString es)), p)"
    using split_literal [OF assms, of "CHR ''[''" "CHR '']''"] by (simp add: e make_slice_def)
  moreover have "splitLiteral (literal CHR ''('' CHR '')'' es) CHR ''('' CHR '')'' = Some es"
    by (rule split_literal [OF assms]) simp_all
  ultimately show ?thesis by blast
qed

text \<open>C33. The signature parser reads back every signature: for every name, every list of well-formed parameters, named or not,
  indexed or not, with arrays and nested tuples, and every list of outputs or none, the parser gives from its text exactly these
  parameters, the unnamed ones numbered; in particular its fuel suffices for every such text.\<close>

theorem signature_roundtrip:
  assumes "is_ident name" "list_all (wf_param True) ins" "outs = None \<or> list_all (wf_param False) (the outs)"
  shows "parseSignature (show_signature name ins outs) = Some (signature_of name ins outs)"
  by (rule signature_read) (use assms in auto)

theorem signature_roundtrip_witness:
  "parseSignature ''Moved(address indexed who,(uint256,bytes32[2])[] moves)'' =
     Some \<lparr>sg_Name = ''Moved'', sg_Inputs = [AbiArg ''who'' ''address'' ''address'' [] True,
       AbiArg ''moves'' ''tuple[]'' ''tuple[]'' [AbiArg ''field0'' ''uint256'' ''uint256'' [] False, AbiArg ''field1'' ''bytes32[2]'' ''bytes32[2]'' [] False] False],
       sg_Outputs = [], sg_HasOutputs = False, sg_AnyIndexed = True\<rparr>"
proof -
  let ?ins = "[Param (Base ''address'' []) True ''who'', Param (Tup [Param (Base ''uint256'' []) False [], Param (Base ''bytes32'' [''2'']) False []] [[]]) False ''moves'']"
  have "is_ident ''Moved''" "list_all (wf_param True) ?ins" by code_simp+
  moreover have "show_signature ''Moved'' ?ins None = ''Moved(address indexed who,(uint256,bytes32[2])[] moves)''" by code_simp
  moreover have "signature_of ''Moved'' ?ins None = \<lparr>sg_Name = ''Moved'', sg_Inputs = [AbiArg ''who'' ''address'' ''address'' [] True,
       AbiArg ''moves'' ''tuple[]'' ''tuple[]'' [AbiArg ''field0'' ''uint256'' ''uint256'' [] False, AbiArg ''field1'' ''bytes32[2]'' ''bytes32[2]'' [] False] False],
       sg_Outputs = [], sg_HasOutputs = False, sg_AnyIndexed = True\<rparr>" by code_simp
  ultimately show ?thesis using signature_roundtrip [of "''Moved''" ?ins None] by simp
qed

lemma marshal_dec: "concat (map marshal_char (int_dec j)) = int_dec j" "concat (map marshal_char (nat_dec n)) = nat_dec n"
proof -
  have d: "is_digit c \<or> c = CHR ''-'' \<Longrightarrow> marshal_char c = [c]" for c
    by (auto simp: marshal_char_def is_digit_def Let_def)
  have c: "list_all (\<lambda>c. is_digit c \<or> c = CHR ''-'') s \<Longrightarrow> concat (map marshal_char s) = s" for s
    by (induction s) (auto simp: d)
  have "list_all (\<lambda>c. is_digit c \<or> c = CHR ''-'') (nat_dec n)" for n using nat_dec_digits [of n] by (auto simp: list_all_iff)
  hence n: "concat (map marshal_char (nat_dec n)) = nat_dec n" for n by (rule c)
  show "concat (map marshal_char (nat_dec n)) = nat_dec n" by (rule n)
  show "concat (map marshal_char (int_dec j)) = int_dec j" by (simp add: int_dec_def n d)
qed

text \<open>A list of 8-bit unsigned integers is printed as a byte string.\<close>

lemma formatted_byte_list: "typed (SliceTy (UintTy 8)) v \<Longrightarrow> \<exists>bs. v = GBytes bs \<and> formatValue (Some v) = hexBytes bs"
  by (cases v) (auto simp: formatValue_def)

text \<open>A decoded integer is printed as its decimal numeral, but inside quotation marks when its type has 8, 16, 32 or 64
  bits.\<close>

lemma formatted_integers:
  assumes "typed t v" "t = UintTy b \<or> t = IntTy b" "int_of v = Some i"
  shows "formatValue (Some v) = (if b \<in> {8, 16, 32, 64} then CHR 0x22 # int_dec i @ [CHR 0x22] else int_dec i)"
  using assms by (cases v) (auto simp: formatValue_def formatComposite_def int_of_def marshal_dec int_dec_def marshal_char_def)

text \<open>A second sign after the minus is accepted, and two of them cancel.\<close>

lemma doubled_sign: "parseBigInt (''--'' @ nat_dec n) = Some (int n)"
proof -
  have "TrimSpace (''--'' @ nat_dec n) = ''--'' @ nat_dec n"
    using nat_dec_digits [of n] by (intro TrimSpace_id) (auto simp: is_space_def list_all_iff is_digit_def)
  moreover have "\<not> HasPrefix (CHR ''-'' # nat_dec n) ''0x''" "\<not> HasPrefix (CHR ''-'' # nat_dec n) ''0X''" by (simp_all add: HasPrefix_def)
  moreover have "SetString (CHR ''-'' # nat_dec n) = Some (- int n)" by (simp add: SetString_def all_digits_nat_dec digits_val_nat_dec)
  ultimately show ?thesis by (simp add: parseBigInt_def Let_def HasPrefix_def [of "CHR ''-'' # CHR ''-'' # nat_dec n"])
qed

end
