(* ===== verification/Registry.thy ===== *)
theory Registry
  imports Json Domain_Errors Durable_Log "HOL-Library.List_Lexorder" "HOL-Library.Char_ord"
begin

text \<open>
  The name registries (\<open>registry\<close>): the address book \<open>contacts.json\<close> and one file per network with the token, collection,
  NFT-alias and contract namespaces.  The registry directory maps file names to what the JSON reader makes of the files; every
  mutation takes the registry lock, loads, changes and writes a whole file.  Texts are ASCII where letter case matters.
\<close>

section \<open>Names\<close>

text \<open>Addresses are go-ethereum's: the shape test and the conversion of a text, and the JSON text of an address.\<close>

record addr_lib =
  al_isHex :: "string \<Rightarrow> bool"
  al_toAddr :: "string \<Rightarrow> string"
  al_show :: "string \<Rightarrow> string"
  al_read :: "string \<Rightarrow> string option"
  al_zero :: string

definition lower_alnum :: "char \<Rightarrow> bool" where
  "lower_alnum c \<longleftrightarrow> (97 \<le> (of_char c :: nat) \<and> (of_char c :: nat) \<le> 122) \<or> is_digit c"

definition name_grammar :: "string \<Rightarrow> bool" where
  "name_grammar s = (case s of [] \<Rightarrow> True
     | c # r \<Rightarrow> lower_alnum c \<and> list_all (\<lambda>d. lower_alnum d \<or> d = CHR ''-'' \<or> d = CHR ''_'') r)"

definition canonicalName :: "addr_lib \<Rightarrow> string \<Rightarrow> string result" where
  "canonicalName al name = (let trimmed = TrimSpace name in
     if trimmed = [] then Inl (New ''usage.empty_name'')
     else (let lower = ToLower trimmed in
       if al_isHex al lower then Inl (New ''usage.bad_name'')
       else if length lower > 64 then Inl (New ''usage.bad_name'')
       else if \<not> name_grammar lower then Inl (New ''usage.bad_name'')
       else Inr lower))"

section \<open>Records and their JSON\<close>

record Contact =
  ct_Name :: string
  ct_Address :: string
  ct_ENS :: string
  ct_PinnedAt :: string

record contactsFile =
  cf_V :: int
  cf_Contacts :: "Contact list"

record Token =
  tk_Alias :: string
  tk_Address :: string
  tk_Kind :: string
  tk_Decimals :: "8 word"
  tk_Symbol :: string

record Collection =
  cl_Alias :: string
  cl_Address :: string
  cl_Kind :: string

record NFTAlias =
  na_Alias :: string
  na_Collection :: string
  na_TokenID :: string

record Contract =
  kt_Alias :: string
  kt_Address :: string
  kt_ABI :: json

record tokensFile =
  tf_V :: int
  tf_Network :: string
  tf_Tokens :: "Token list"
  tf_Collections :: "Collection list"
  tf_NFTAliases :: "NFTAlias list"
  tf_Contracts :: "Contract list"

abbreviation KindERC20 :: string where "KindERC20 \<equiv> ''erc20''"
abbreviation KindERC721 :: string where "KindERC721 \<equiv> ''erc721''"
abbreviation KindERC1155 :: string where "KindERC1155 \<equiv> ''erc1155''"

text \<open>An address reads from a JSON text only, \<open>null\<close> included in the errors; a raw message takes any value.\<close>

definition dec_addr :: "addr_lib \<Rightarrow> string decoder" where
  "dec_addr al j old = (case j of JsText s \<Rightarrow> al_read al s | _ \<Rightarrow> None)"

definition dec_raw :: "json decoder" where
  "dec_raw j old = Some j"

definition dec_uint8 :: "(8 word) decoder" where
  "dec_uint8 j old = (case j of JsNull \<Rightarrow> Some old
     | JsNum t \<Rightarrow> if all_digits t \<and> digits_val t < 2 ^ 8 then Some (word_of_nat (digits_val t)) else None
     | _ \<Rightarrow> None)"

definition enc_contact :: "addr_lib \<Rightarrow> Contact \<Rightarrow> json" where
  "enc_contact al c = JsObj ([(''name'', JsText (ct_Name c)), (''address'', JsText (al_show al (ct_Address c)))] @
     (if ct_ENS c = [] then [] else [(''ens'', JsText (ct_ENS c))]) @
     (if ct_PinnedAt c = [] then [] else [(''pinned_at'', JsText (ct_PinnedAt c))]))"

definition dec_contact :: "addr_lib \<Rightarrow> Contact decoder" where
  "dec_contact al = dec_struct False [
     (''name'', field ct_Name ct_Name_update dec_string),
     (''address'', field ct_Address ct_Address_update (dec_addr al)),
     (''ens'', field ct_ENS ct_ENS_update dec_string),
     (''pinned_at'', field ct_PinnedAt ct_PinnedAt_update dec_string)]"

definition zero_contact :: "addr_lib \<Rightarrow> Contact" where
  "zero_contact al = \<lparr>ct_Name = [], ct_Address = al_zero al, ct_ENS = [], ct_PinnedAt = []\<rparr>"

definition enc_contactsFile :: "addr_lib \<Rightarrow> contactsFile \<Rightarrow> json" where
  "enc_contactsFile al f = JsObj [(''v'', JsNum (int_dec (cf_V f))), (''contacts'', JsArr (map (enc_contact al) (cf_Contacts f)))]"

definition dec_contactsFile :: "addr_lib \<Rightarrow> contactsFile decoder" where
  "dec_contactsFile al = dec_struct False [
     (''v'', field cf_V cf_V_update dec_int),
     (''contacts'', field cf_Contacts cf_Contacts_update (dec_slice (dec_contact al) (zero_contact al)))]"

definition enc_token :: "addr_lib \<Rightarrow> Token \<Rightarrow> json" where
  "enc_token al t = JsObj [(''alias'', JsText (tk_Alias t)), (''address'', JsText (al_show al (tk_Address t))), (''kind'', JsText (tk_Kind t)),
     (''decimals'', JsNum (nat_dec (unat (tk_Decimals t)))), (''symbol'', JsText (tk_Symbol t))]"

definition decode_token :: "addr_lib \<Rightarrow> Token decoder" where
  "decode_token al = dec_struct False [
     (''alias'', field tk_Alias tk_Alias_update dec_string),
     (''address'', field tk_Address tk_Address_update (dec_addr al)),
     (''kind'', field tk_Kind tk_Kind_update dec_string),
     (''decimals'', field tk_Decimals tk_Decimals_update dec_uint8),
     (''symbol'', field tk_Symbol tk_Symbol_update dec_string)]"

definition blank_token :: "addr_lib \<Rightarrow> Token" where
  "blank_token al = \<lparr>tk_Alias = [], tk_Address = al_zero al, tk_Kind = [], tk_Decimals = 0, tk_Symbol = []\<rparr>"

definition enc_collection :: "addr_lib \<Rightarrow> Collection \<Rightarrow> json" where
  "enc_collection al c = JsObj [(''alias'', JsText (cl_Alias c)), (''address'', JsText (al_show al (cl_Address c))), (''kind'', JsText (cl_Kind c))]"

definition dec_collection :: "addr_lib \<Rightarrow> Collection decoder" where
  "dec_collection al = dec_struct False [
     (''alias'', field cl_Alias cl_Alias_update dec_string),
     (''address'', field cl_Address cl_Address_update (dec_addr al)),
     (''kind'', field cl_Kind cl_Kind_update dec_string)]"

definition zero_collection :: "addr_lib \<Rightarrow> Collection" where
  "zero_collection al = \<lparr>cl_Alias = [], cl_Address = al_zero al, cl_Kind = []\<rparr>"

definition enc_nft :: "NFTAlias \<Rightarrow> json" where
  "enc_nft n = JsObj [(''alias'', JsText (na_Alias n)), (''collection'', JsText (na_Collection n)), (''token_id'', JsText (na_TokenID n))]"

definition dec_nft :: "NFTAlias decoder" where
  "dec_nft = dec_struct False [
     (''alias'', field na_Alias na_Alias_update dec_string),
     (''collection'', field na_Collection na_Collection_update dec_string),
     (''token_id'', field na_TokenID na_TokenID_update dec_string)]"

definition zero_nft :: NFTAlias where
  "zero_nft = \<lparr>na_Alias = [], na_Collection = [], na_TokenID = []\<rparr>"

definition enc_contract :: "addr_lib \<Rightarrow> Contract \<Rightarrow> json" where
  "enc_contract al k = JsObj [(''alias'', JsText (kt_Alias k)), (''address'', JsText (al_show al (kt_Address k))), (''abi'', kt_ABI k)]"

definition decode_contract :: "addr_lib \<Rightarrow> Contract decoder" where
  "decode_contract al = dec_struct False [
     (''alias'', field kt_Alias kt_Alias_update dec_string),
     (''address'', field kt_Address kt_Address_update (dec_addr al)),
     (''abi'', field kt_ABI kt_ABI_update dec_raw)]"

definition blank_contract :: "addr_lib \<Rightarrow> Contract" where
  "blank_contract al = \<lparr>kt_Alias = [], kt_Address = al_zero al, kt_ABI = JsNull\<rparr>"

definition enc_tokensFile :: "addr_lib \<Rightarrow> tokensFile \<Rightarrow> json" where
  "enc_tokensFile al f = JsObj [(''v'', JsNum (int_dec (tf_V f))), (''network'', JsText (tf_Network f)),
     (''tokens'', JsArr (map (enc_token al) (tf_Tokens f))), (''collections'', JsArr (map (enc_collection al) (tf_Collections f))),
     (''nft_aliases'', JsArr (map enc_nft (tf_NFTAliases f))), (''contracts'', JsArr (map (enc_contract al) (tf_Contracts f)))]"

definition dec_tokensFile :: "addr_lib \<Rightarrow> tokensFile decoder" where
  "dec_tokensFile al = dec_struct False [
     (''v'', field tf_V tf_V_update dec_int),
     (''network'', field tf_Network tf_Network_update dec_string),
     (''tokens'', field tf_Tokens tf_Tokens_update (dec_slice (decode_token al) (blank_token al))),
     (''collections'', field tf_Collections tf_Collections_update (dec_slice (dec_collection al) (zero_collection al))),
     (''nft_aliases'', field tf_NFTAliases tf_NFTAliases_update (dec_slice dec_nft zero_nft)),
     (''contracts'', field tf_Contracts tf_Contracts_update (dec_slice (decode_contract al) (blank_contract al)))]"

definition contactsVersion :: int where "contactsVersion = 1"
definition tokensVersion :: int where "tokensVersion = 2"
definition tokensMaxReadableVersion :: int where "tokensMaxReadableVersion = 2"

section \<open>Files\<close>

type_synonym disk = "string \<Rightarrow> json stored"

text \<open>What the system answers to the lock and to the write; a failing write may have replaced the file, when only the
  directory sync failed.\<close>

record reg_env =
  re_lock :: lockfault
  re_write :: writefault
  re_landed :: bool

definition withRegistryLock :: "reg_env \<Rightarrow> (disk \<Rightarrow> 'a result \<times> disk) \<Rightarrow> disk \<Rightarrow> 'a result \<times> disk" where
  "withRegistryLock env fn d = (case re_lock env of LockOK \<Rightarrow> fn d
     | MkdirReadOnly \<Rightarrow> (Inl (New ''config.read_only''), d)
     | MkdirError \<Rightarrow> (Inl (New ''state.corrupt''), d)
     | LockTimeout \<Rightarrow> (Inl (New ''state.lock_timeout''), d))"

text \<open>A file is kept as the JSON value that is marshalled into it, so marshalling and unmarshalling are the identity: true of strings
  that are valid UTF-8; in any other string (an on-chain symbol can be one) Go writes the replacement character for the invalid bytes.\<close>

definition write_file :: "reg_env \<Rightarrow> string \<Rightarrow> json \<Rightarrow> disk \<Rightarrow> unit result \<times> disk" where
  "write_file env path j d = (case re_write env of WriteOK \<Rightarrow> (Inr (), d(path := Content j))
     | WriteDirReadOnly \<Rightarrow> (Inl (New ''config.read_only''), d)
     | WriteDirError \<Rightarrow> (Inl (New ''state.corrupt''), d)
     | WriteReadOnly \<Rightarrow> (Inl (New ''config.read_only''), if re_landed env then d(path := Content j) else d)
     | WriteError \<Rightarrow> (Inl (New ''state.corrupt''), if re_landed env then d(path := Content j) else d))"

abbreviation contacts_path :: string where "contacts_path \<equiv> ''contacts.json''"

definition net_path :: "string \<Rightarrow> string" where
  "net_path network = network @ ''.json''"

definition load_contacts :: "addr_lib \<Rightarrow> disk \<Rightarrow> contactsFile result" where
  "load_contacts al d = (case d contacts_path of Missing \<Rightarrow> Inr \<lparr>cf_V = contactsVersion, cf_Contacts = []\<rparr>
     | Content j \<Rightarrow> (case dec_contactsFile al j \<lparr>cf_V = 0, cf_Contacts = []\<rparr> of None \<Rightarrow> Inl (New ''state.corrupt'')
         | Some f \<Rightarrow> if cf_V f > contactsVersion then Inl (New ''state.corrupt'') else Inr f)
     | _ \<Rightarrow> Inl (New ''state.corrupt''))"

definition save_contacts :: "addr_lib \<Rightarrow> reg_env \<Rightarrow> contactsFile \<Rightarrow> disk \<Rightarrow> unit result \<times> disk" where
  "save_contacts al env f d = write_file env contacts_path (enc_contactsFile al (f\<lparr>cf_V := contactsVersion\<rparr>)) d"

definition load_tokens :: "addr_lib \<Rightarrow> string \<Rightarrow> disk \<Rightarrow> tokensFile result" where
  "load_tokens al network d = (case d (net_path network) of
       Missing \<Rightarrow> Inr \<lparr>tf_V = tokensVersion, tf_Network = network, tf_Tokens = [], tf_Collections = [], tf_NFTAliases = [], tf_Contracts = []\<rparr>
     | Content j \<Rightarrow> (case dec_tokensFile al j \<lparr>tf_V = 0, tf_Network = [], tf_Tokens = [], tf_Collections = [], tf_NFTAliases = [], tf_Contracts = []\<rparr> of
           None \<Rightarrow> Inl (New ''state.corrupt'')
         | Some f \<Rightarrow> if tf_V f > tokensMaxReadableVersion then Inl (New ''state.corrupt'') else Inr f)
     | _ \<Rightarrow> Inl (New ''state.corrupt''))"

definition save_tokens :: "addr_lib \<Rightarrow> reg_env \<Rightarrow> string \<Rightarrow> tokensFile \<Rightarrow> disk \<Rightarrow> unit result \<times> disk" where
  "save_tokens al env network f d = write_file env (net_path network) (enc_tokensFile al (f\<lparr>tf_V := tokensVersion, tf_Network := network\<rparr>)) d"

text \<open>The body every mutation runs under the lock: load, change, save.\<close>

definition update_contacts :: "addr_lib \<Rightarrow> reg_env \<Rightarrow> (contactsFile \<Rightarrow> contactsFile result) \<Rightarrow> disk \<Rightarrow> unit result \<times> disk" where
  "update_contacts al env fn = withRegistryLock env (\<lambda>d. case load_contacts al d of Inl err \<Rightarrow> (Inl err, d)
     | Inr f \<Rightarrow> (case fn f of Inl err \<Rightarrow> (Inl err, d) | Inr g \<Rightarrow> save_contacts al env g d))"

definition update_tokens :: "addr_lib \<Rightarrow> reg_env \<Rightarrow> string \<Rightarrow> (tokensFile \<Rightarrow> tokensFile result) \<Rightarrow> disk \<Rightarrow> unit result \<times> disk" where
  "update_tokens al env network fn = withRegistryLock env (\<lambda>d. case load_tokens al network d of Inl err \<Rightarrow> (Inl err, d)
     | Inr f \<Rightarrow> (case fn f of Inl err \<Rightarrow> (Inl err, d) | Inr g \<Rightarrow> save_tokens al env network g d))"

text \<open>Removing the first entry of a name.\<close>

fun drop_first :: "('a \<Rightarrow> bool) \<Rightarrow> 'a list \<Rightarrow> 'a list option" where
  "drop_first P [] = None"
| "drop_first P (x # xs) = (if P x then Some xs else map_option ((#) x) (drop_first P xs))"

section \<open>Contacts\<close>

definition insert_contact :: "Contact \<Rightarrow> contactsFile \<Rightarrow> contactsFile result" where
  "insert_contact c f = (if list_ex (\<lambda>e. ct_Name e = ct_Name c) (cf_Contacts f) then Inl (New ''usage.duplicate'')
     else Inr (f\<lparr>cf_Contacts := cf_Contacts f @ [c]\<rparr>))"

definition Contacts_add :: "addr_lib \<Rightarrow> reg_env \<Rightarrow> string \<Rightarrow> string \<Rightarrow> string \<Rightarrow> string \<Rightarrow> disk \<Rightarrow> unit result \<times> disk" where
  "Contacts_add al env name addr ens pinnedAt d = (case canonicalName al name of Inl err \<Rightarrow> (Inl err, d)
     | Inr canon \<Rightarrow> update_contacts al env (insert_contact \<lparr>ct_Name = canon, ct_Address = addr, ct_ENS = ens, ct_PinnedAt = pinnedAt\<rparr>) d)"

definition Contacts_Add :: "addr_lib \<Rightarrow> reg_env \<Rightarrow> string \<Rightarrow> string \<Rightarrow> disk \<Rightarrow> unit result \<times> disk" where
  "Contacts_Add al env name addr = Contacts_add al env name addr [] []"

definition Contacts_List :: "addr_lib \<Rightarrow> disk \<Rightarrow> Contact list result" where
  "Contacts_List al d = (case load_contacts al d of Inl err \<Rightarrow> Inl err | Inr f \<Rightarrow> Inr (sort_key ct_Name (cf_Contacts f)))"

definition Contacts_Show :: "addr_lib \<Rightarrow> string \<Rightarrow> disk \<Rightarrow> Contact result" where
  "Contacts_Show al name d = (case canonicalName al name of Inl err \<Rightarrow> Inl err
     | Inr canon \<Rightarrow> (case load_contacts al d of Inl err \<Rightarrow> Inl err
         | Inr f \<Rightarrow> (case find (\<lambda>c. ct_Name c = canon) (cf_Contacts f) of None \<Rightarrow> Inl (New ''ref.not_found'') | Some c \<Rightarrow> Inr c)))"

definition delete_contact :: "string \<Rightarrow> contactsFile \<Rightarrow> contactsFile result" where
  "delete_contact canon f = (case drop_first (\<lambda>c. ct_Name c = canon) (cf_Contacts f) of None \<Rightarrow> Inl (New ''ref.not_found'')
     | Some cs \<Rightarrow> Inr (f\<lparr>cf_Contacts := cs\<rparr>))"

definition Contacts_Remove :: "addr_lib \<Rightarrow> reg_env \<Rightarrow> string \<Rightarrow> disk \<Rightarrow> unit result \<times> disk" where
  "Contacts_Remove al env name d = (case canonicalName al name of Inl err \<Rightarrow> (Inl err, d)
     | Inr canon \<Rightarrow> update_contacts al env (delete_contact canon) d)"

text \<open>\<open>None\<close> inside the result is a clean miss.\<close>

definition Contacts_Resolve :: "addr_lib \<Rightarrow> string \<Rightarrow> disk \<Rightarrow> string option result" where
  "Contacts_Resolve al name d = (case canonicalName al name of Inl _ \<Rightarrow> Inr None
     | Inr canon \<Rightarrow> (case load_contacts al d of Inl err \<Rightarrow> Inl err
         | Inr f \<Rightarrow> Inr (map_option ct_Address (find (\<lambda>c. ct_Name c = canon) (cf_Contacts f)))))"

section \<open>Tokens\<close>

definition bundledFor :: "addr_lib \<Rightarrow> string \<Rightarrow> Token list" where
  "bundledFor al network =
    (if network = ''mainnet'' then
       [\<lparr>tk_Alias = ''usdc'', tk_Address = al_toAddr al ''0xA0b86991c6218b36c1d19D4a2e9Eb0cE3606eB48'', tk_Kind = KindERC20, tk_Decimals = 6, tk_Symbol = ''USDC''\<rparr>,
        \<lparr>tk_Alias = ''usdt'', tk_Address = al_toAddr al ''0xdAC17F958D2ee523a2206206994597C13D831ec7'', tk_Kind = KindERC20, tk_Decimals = 6, tk_Symbol = ''USDT''\<rparr>,
        \<lparr>tk_Alias = ''weth'', tk_Address = al_toAddr al ''0xC02aaA39b223FE8D0A0e5C4F27eAD9083C756Cc2'', tk_Kind = KindERC20, tk_Decimals = 18, tk_Symbol = ''WETH''\<rparr>,
        \<lparr>tk_Alias = ''dai'', tk_Address = al_toAddr al ''0x6B175474E89094C44Da98b954EedeAC495271d0F'', tk_Kind = KindERC20, tk_Decimals = 18, tk_Symbol = ''DAI''\<rparr>]
     else if network = ''sepolia'' then
       [\<lparr>tk_Alias = ''usdc'', tk_Address = al_toAddr al ''0x1c7D4B196Cb0C7B01d743Fbc6116a902379C7238'', tk_Kind = KindERC20, tk_Decimals = 6, tk_Symbol = ''USDC''\<rparr>,
        \<lparr>tk_Alias = ''weth'', tk_Address = al_toAddr al ''0xfFf9976782d46CC05630D1f6eBAb18b2324d6B14'', tk_Kind = KindERC20, tk_Decimals = 18, tk_Symbol = ''WETH''\<rparr>]
     else [])"

definition bundledLookup :: "addr_lib \<Rightarrow> string \<Rightarrow> string \<Rightarrow> Token option" where
  "bundledLookup al network canon = find (\<lambda>t. tk_Alias t = canon) (bundledFor al network)"

record ResolvedToken =
  rt_Token :: Token
  rt_Bundled :: bool

definition mergeBundled :: "addr_lib \<Rightarrow> string \<Rightarrow> Token list \<Rightarrow> ResolvedToken list" where
  "mergeBundled al network fileTokens = sort_key (\<lambda>r. tk_Alias (rt_Token r))
     (map (\<lambda>t. \<lparr>rt_Token = t, rt_Bundled = False\<rparr>) fileTokens @
      map (\<lambda>t. \<lparr>rt_Token = t, rt_Bundled = True\<rparr>) (filter (\<lambda>t. tk_Alias t \<notin> tk_Alias ` set fileTokens) (bundledFor al network)))"

definition insert_token :: "addr_lib \<Rightarrow> string \<Rightarrow> Token \<Rightarrow> tokensFile \<Rightarrow> tokensFile result" where
  "insert_token al network t f =
    (if bundledLookup al network (tk_Alias t) \<noteq> None then Inl (New ''usage.duplicate'')
     else if list_ex (\<lambda>e. tk_Alias e = tk_Alias t) (tf_Tokens f) then Inl (New ''usage.duplicate'')
     else Inr (f\<lparr>tf_Tokens := tf_Tokens f @ [t]\<rparr>))"

definition Tokens_Add :: "addr_lib \<Rightarrow> reg_env \<Rightarrow> string \<Rightarrow> Token \<Rightarrow> disk \<Rightarrow> unit result \<times> disk" where
  "Tokens_Add al env network tok d = (case canonicalName al (tk_Alias tok) of Inl err \<Rightarrow> (Inl err, d)
     | Inr canon \<Rightarrow> (let t1 = tok\<lparr>tk_Alias := canon\<rparr>; t2 = (if tk_Kind t1 = [] then t1\<lparr>tk_Kind := KindERC20\<rparr> else t1)
         in update_tokens al env network (insert_token al network t2) d))"

text \<open>The first entry of the old alias is renamed; any other entry of the new alias is a collision.\<close>

fun index_of :: "('a \<Rightarrow> bool) \<Rightarrow> 'a list \<Rightarrow> nat option" where
  "index_of P [] = None"
| "index_of P (x # xs) = (if P x then Some 0 else map_option Suc (index_of P xs))"

definition rename_token :: "addr_lib \<Rightarrow> string \<Rightarrow> string \<Rightarrow> string \<Rightarrow> tokensFile \<Rightarrow> tokensFile result" where
  "rename_token al network oldCanon newCanon f =
    (if bundledLookup al network oldCanon \<noteq> None then Inl (New ''usage.bundled_immutable'')
     else (case index_of (\<lambda>t. tk_Alias t = oldCanon) (tf_Tokens f) of None \<Rightarrow> Inl (New ''ref.not_found'')
       | Some idx \<Rightarrow>
           if bundledLookup al network newCanon \<noteq> None then Inl (New ''usage.duplicate'')
           else if list_ex (\<lambda>i. i \<noteq> idx \<and> tk_Alias (tf_Tokens f ! i) = newCanon) [0..<length (tf_Tokens f)] then Inl (New ''usage.duplicate'')
           else Inr (f\<lparr>tf_Tokens := (tf_Tokens f)[idx := (tf_Tokens f ! idx)\<lparr>tk_Alias := newCanon\<rparr>]\<rparr>)))"

definition Tokens_Rename :: "addr_lib \<Rightarrow> reg_env \<Rightarrow> string \<Rightarrow> string \<Rightarrow> string \<Rightarrow> disk \<Rightarrow> unit result \<times> disk" where
  "Tokens_Rename al env network oldAlias newAlias d = (case canonicalName al oldAlias of Inl err \<Rightarrow> (Inl err, d)
     | Inr oldCanon \<Rightarrow> (case canonicalName al newAlias of Inl err \<Rightarrow> (Inl err, d)
         | Inr newCanon \<Rightarrow> update_tokens al env network (rename_token al network oldCanon newCanon) d))"

definition delete_token :: "addr_lib \<Rightarrow> string \<Rightarrow> string \<Rightarrow> tokensFile \<Rightarrow> tokensFile result" where
  "delete_token al network canon f = (case drop_first (\<lambda>t. tk_Alias t = canon) (tf_Tokens f) of
       None \<Rightarrow> if bundledLookup al network canon \<noteq> None then Inl (New ''usage.bundled_immutable'') else Inl (New ''ref.not_found'')
     | Some ts \<Rightarrow> Inr (f\<lparr>tf_Tokens := ts\<rparr>))"

definition Tokens_Remove :: "addr_lib \<Rightarrow> reg_env \<Rightarrow> string \<Rightarrow> string \<Rightarrow> disk \<Rightarrow> unit result \<times> disk" where
  "Tokens_Remove al env network alias d = (case canonicalName al alias of Inl err \<Rightarrow> (Inl err, d)
     | Inr canon \<Rightarrow> update_tokens al env network (delete_token al network canon) d)"

definition Tokens_List :: "addr_lib \<Rightarrow> string \<Rightarrow> disk \<Rightarrow> ResolvedToken list result" where
  "Tokens_List al network d = (case load_tokens al network d of Inl err \<Rightarrow> Inl err | Inr f \<Rightarrow> Inr (mergeBundled al network (tf_Tokens f)))"

definition Tokens_Resolve :: "addr_lib \<Rightarrow> string \<Rightarrow> string \<Rightarrow> disk \<Rightarrow> ResolvedToken option result" where
  "Tokens_Resolve al network alias d = (case canonicalName al alias of Inl _ \<Rightarrow> Inr None
     | Inr canon \<Rightarrow> (case load_tokens al network d of Inl err \<Rightarrow> Inl err
         | Inr f \<Rightarrow> (case find (\<lambda>t. tk_Alias t = canon) (tf_Tokens f) of Some t \<Rightarrow> Inr (Some \<lparr>rt_Token = t, rt_Bundled = False\<rparr>)
             | None \<Rightarrow> Inr (map_option (\<lambda>t. \<lparr>rt_Token = t, rt_Bundled = True\<rparr>) (bundledLookup al network canon)))))"

end
