(* ===== verification/Registry_NFT.thy ===== *)
theory Registry_NFT
  imports Registry
begin

text \<open>
  The other namespaces of a network's registry file: NFT collections and the aliases of single NFTs (\<open>registry/nfts.go\<close>), and
  contracts with their ABI (\<open>registry/contracts.go\<close>).  At the end, the operations as data, for histories of commands.
\<close>

section \<open>Collections\<close>

definition insert_collection :: "Collection \<Rightarrow> tokensFile \<Rightarrow> tokensFile result" where
  "insert_collection c f = (if list_ex (\<lambda>e. cl_Alias e = cl_Alias c) (tf_Collections f) then Inl (New ''usage.duplicate'')
     else Inr (f\<lparr>tf_Collections := tf_Collections f @ [c]\<rparr>))"

definition AddCollection :: "addr_lib \<Rightarrow> reg_env \<Rightarrow> string \<Rightarrow> Collection \<Rightarrow> disk \<Rightarrow> unit result \<times> disk" where
  "AddCollection al env network col d = (case canonicalName al (cl_Alias col) of Inl err \<Rightarrow> (Inl err, d)
     | Inr canon \<Rightarrow> if cl_Kind col \<noteq> KindERC721 \<and> cl_Kind col \<noteq> KindERC1155 then (Inl (New ''usage.bad_kind''), d)
         else update_tokens al env network (insert_collection (col\<lparr>cl_Alias := canon\<rparr>)) d)"

definition ResolveCollection :: "addr_lib \<Rightarrow> string \<Rightarrow> string \<Rightarrow> disk \<Rightarrow> Collection option result" where
  "ResolveCollection al network alias d = (case canonicalName al alias of Inl _ \<Rightarrow> Inr None
     | Inr canon \<Rightarrow> (case load_tokens al network d of Inl err \<Rightarrow> Inl err
         | Inr f \<Rightarrow> Inr (find (\<lambda>c. cl_Alias c = canon) (tf_Collections f))))"

definition ListCollections :: "addr_lib \<Rightarrow> string \<Rightarrow> disk \<Rightarrow> Collection list result" where
  "ListCollections al network d = (case load_tokens al network d of Inl err \<Rightarrow> Inl err | Inr f \<Rightarrow> Inr (sort_key cl_Alias (tf_Collections f)))"

definition delete_collection :: "string \<Rightarrow> tokensFile \<Rightarrow> tokensFile result" where
  "delete_collection canon f = (case drop_first (\<lambda>c. cl_Alias c = canon) (tf_Collections f) of None \<Rightarrow> Inl (New ''ref.not_found'')
     | Some cs \<Rightarrow> Inr (f\<lparr>tf_Collections := cs\<rparr>))"

definition RemoveCollection :: "addr_lib \<Rightarrow> reg_env \<Rightarrow> string \<Rightarrow> string \<Rightarrow> disk \<Rightarrow> unit result \<times> disk" where
  "RemoveCollection al env network alias d = (case canonicalName al alias of Inl err \<Rightarrow> (Inl err, d)
     | Inr canon \<Rightarrow> update_tokens al env network (delete_collection canon) d)"

section \<open>Aliases of single NFTs\<close>

definition normalizeTokenID :: "string \<Rightarrow> string option" where
  "normalizeTokenID s0 = (let s = TrimSpace s0 in
     if s = [] then None
     else (case SetString s of None \<Rightarrow> None | Some v \<Rightarrow> if v < 0 then None else Some (int_dec v)))"

definition insert_nft :: "NFTAlias \<Rightarrow> tokensFile \<Rightarrow> tokensFile result" where
  "insert_nft n f = (if \<not> list_ex (\<lambda>c. cl_Alias c = na_Collection n) (tf_Collections f) then Inl (New ''ref.not_found'')
     else if list_ex (\<lambda>e. na_Alias e = na_Alias n) (tf_NFTAliases f) then Inl (New ''usage.duplicate'')
     else Inr (f\<lparr>tf_NFTAliases := tf_NFTAliases f @ [n]\<rparr>))"

definition AliasNFT :: "addr_lib \<Rightarrow> reg_env \<Rightarrow> string \<Rightarrow> string \<Rightarrow> string \<Rightarrow> string \<Rightarrow> disk \<Rightarrow> unit result \<times> disk" where
  "AliasNFT al env network alias collectionAlias tokenID d = (case canonicalName al alias of Inl err \<Rightarrow> (Inl err, d)
     | Inr canon \<Rightarrow> (case canonicalName al collectionAlias of Inl err \<Rightarrow> (Inl err, d)
         | Inr colCanon \<Rightarrow> (case normalizeTokenID tokenID of None \<Rightarrow> (Inl (New ''usage.bad_token_id''), d)
             | Some i \<Rightarrow> update_tokens al env network (insert_nft \<lparr>na_Alias = canon, na_Collection = colCanon, na_TokenID = i\<rparr>) d)))"

record ResolvedNFT =
  rn_Collection :: string
  rn_Kind :: string
  rn_TokenID :: string
  rn_CollectionAlias :: string
  rn_NFTAlias :: string

definition of_collection :: "Collection \<Rightarrow> string \<Rightarrow> string \<Rightarrow> ResolvedNFT" where
  "of_collection c i nftAlias = \<lparr>rn_Collection = cl_Address c, rn_Kind = cl_Kind c, rn_TokenID = i, rn_CollectionAlias = cl_Alias c, rn_NFTAlias = nftAlias\<rparr>"

text \<open>A reference without \<open>#\<close> is the alias of an NFT.\<close>

definition resolve_alias :: "addr_lib \<Rightarrow> tokensFile \<Rightarrow> string \<Rightarrow> ResolvedNFT result" where
  "resolve_alias al f ref = (case canonicalName al ref of Inl _ \<Rightarrow> Inl (New ''usage.bad_nft_ref'')
     | Inr canon \<Rightarrow> (case find (\<lambda>n. na_Alias n = canon) (tf_NFTAliases f) of None \<Rightarrow> Inl (New ''ref.not_found'')
         | Some n \<Rightarrow> (case find (\<lambda>c. cl_Alias c = na_Collection n) (tf_Collections f) of None \<Rightarrow> Inl (New ''ref.not_found'')
             | Some c \<Rightarrow> Inr (of_collection c (na_TokenID n) (na_Alias n)))))"

definition resolve_pair :: "addr_lib \<Rightarrow> tokensFile \<Rightarrow> string \<Rightarrow> string \<Rightarrow> ResolvedNFT result" where
  "resolve_pair al f colPart idPart = (case normalizeTokenID idPart of None \<Rightarrow> Inl (New ''usage.bad_token_id'')
     | Some i \<Rightarrow>
         if al_isHex al colPart then
           (case find (\<lambda>c. cl_Address c = al_toAddr al colPart) (tf_Collections f) of
              Some c \<Rightarrow> Inr \<lparr>rn_Collection = al_toAddr al colPart, rn_Kind = cl_Kind c, rn_TokenID = i, rn_CollectionAlias = cl_Alias c, rn_NFTAlias = []\<rparr>
            | None \<Rightarrow> Inr \<lparr>rn_Collection = al_toAddr al colPart, rn_Kind = [], rn_TokenID = i, rn_CollectionAlias = [], rn_NFTAlias = []\<rparr>)
         else (case canonicalName al colPart of Inl _ \<Rightarrow> Inl (New ''usage.bad_nft_ref'')
           | Inr colCanon \<Rightarrow> (case find (\<lambda>c. cl_Alias c = colCanon) (tf_Collections f) of None \<Rightarrow> Inl (New ''ref.not_found'')
               | Some c \<Rightarrow> Inr (of_collection c i []))))"

definition ResolveNFT :: "addr_lib \<Rightarrow> string \<Rightarrow> string \<Rightarrow> disk \<Rightarrow> ResolvedNFT result" where
  "ResolveNFT al network ref0 d = (let ref = TrimSpace ref0 in
     if ref = [] then Inl (New ''usage.bad_nft_ref'')
     else (case load_tokens al network d of Inl err \<Rightarrow> Inl err
       | Inr f \<Rightarrow> if CHR ''#'' \<notin> set ref then resolve_alias al f ref
           else resolve_pair al f (TrimSpace (takeWhile (\<lambda>c. c \<noteq> CHR ''#'') ref)) (tl (dropWhile (\<lambda>c. c \<noteq> CHR ''#'') ref))))"

definition ListNFTAliases :: "addr_lib \<Rightarrow> string \<Rightarrow> disk \<Rightarrow> NFTAlias list result" where
  "ListNFTAliases al network d = (case load_tokens al network d of Inl err \<Rightarrow> Inl err | Inr f \<Rightarrow> Inr (sort_key na_Alias (tf_NFTAliases f)))"

definition delete_nft :: "string \<Rightarrow> tokensFile \<Rightarrow> tokensFile result" where
  "delete_nft canon f = (case drop_first (\<lambda>n. na_Alias n = canon) (tf_NFTAliases f) of None \<Rightarrow> Inl (New ''ref.not_found'')
     | Some ns \<Rightarrow> Inr (f\<lparr>tf_NFTAliases := ns\<rparr>))"

definition RemoveNFTAlias :: "addr_lib \<Rightarrow> reg_env \<Rightarrow> string \<Rightarrow> string \<Rightarrow> disk \<Rightarrow> unit result \<times> disk" where
  "RemoveNFTAlias al env network alias d = (case canonicalName al alias of Inl err \<Rightarrow> (Inl err, d)
     | Inr canon \<Rightarrow> update_tokens al env network (delete_nft canon) d)"

section \<open>Contracts\<close>

text \<open>The ABI is a text that must be a non-empty JSON array; it is stored as that value.\<close>

definition normalizeABI :: "string \<Rightarrow> json result" where
  "normalizeABI raw = (if TrimSpace raw = [] then Inl (New ''usage.bad_abi'')
     else (case parse_json raw of Some (JsArr (v # vs)) \<Rightarrow> Inr (JsArr (v # vs)) | _ \<Rightarrow> Inl (New ''usage.bad_abi'')))"

definition insert_contract :: "Contract \<Rightarrow> tokensFile \<Rightarrow> tokensFile result" where
  "insert_contract k f = (if list_ex (\<lambda>e. kt_Alias e = kt_Alias k) (tf_Contracts f) then Inl (New ''usage.duplicate'')
     else Inr (f\<lparr>tf_Contracts := tf_Contracts f @ [k]\<rparr>))"

definition Contracts_Add :: "addr_lib \<Rightarrow> reg_env \<Rightarrow> string \<Rightarrow> string \<Rightarrow> string \<Rightarrow> string \<Rightarrow> disk \<Rightarrow> unit result \<times> disk" where
  "Contracts_Add al env network alias addr rawABI d = (case canonicalName al alias of Inl err \<Rightarrow> (Inl err, d)
     | Inr canon \<Rightarrow> (case normalizeABI rawABI of Inl err \<Rightarrow> (Inl err, d)
         | Inr normABI \<Rightarrow> update_tokens al env network (insert_contract \<lparr>kt_Alias = canon, kt_Address = addr, kt_ABI = normABI\<rparr>) d))"

definition Contracts_List :: "addr_lib \<Rightarrow> string \<Rightarrow> disk \<Rightarrow> Contract list result" where
  "Contracts_List al network d = (case load_tokens al network d of Inl err \<Rightarrow> Inl err | Inr f \<Rightarrow> Inr (sort_key kt_Alias (tf_Contracts f)))"

definition Contracts_Resolve :: "addr_lib \<Rightarrow> string \<Rightarrow> string \<Rightarrow> disk \<Rightarrow> Contract option result" where
  "Contracts_Resolve al network alias d = (case canonicalName al alias of Inl _ \<Rightarrow> Inr None
     | Inr canon \<Rightarrow> (case load_tokens al network d of Inl err \<Rightarrow> Inl err
         | Inr f \<Rightarrow> Inr (find (\<lambda>k. kt_Alias k = canon) (tf_Contracts f))))"

definition delete_contract :: "string \<Rightarrow> tokensFile \<Rightarrow> tokensFile result" where
  "delete_contract canon f = (case drop_first (\<lambda>k. kt_Alias k = canon) (tf_Contracts f) of None \<Rightarrow> Inl (New ''ref.not_found'')
     | Some ks \<Rightarrow> Inr (f\<lparr>tf_Contracts := ks\<rparr>))"

definition Contracts_Remove :: "addr_lib \<Rightarrow> reg_env \<Rightarrow> string \<Rightarrow> string \<Rightarrow> disk \<Rightarrow> unit result \<times> disk" where
  "Contracts_Remove al env network alias d = (case canonicalName al alias of Inl err \<Rightarrow> (Inl err, d)
     | Inr canon \<Rightarrow> update_tokens al env network (delete_contract canon) d)"

section \<open>Histories\<close>

datatype reg_op =
    OpContactAdd string string string string
  | OpContactRemove string
  | OpTokenAdd string Token
  | OpTokenRename string string string
  | OpTokenRemove string string
  | OpCollectionAdd string Collection
  | OpCollectionRemove string string
  | OpNFTAlias string string string string
  | OpNFTRemove string string
  | OpContractAdd string string string string
  | OpContractRemove string string

fun reg_exec :: "addr_lib \<Rightarrow> reg_op \<Rightarrow> reg_env \<Rightarrow> disk \<Rightarrow> unit result \<times> disk" where
  "reg_exec al (OpContactAdd n a ens at) env d = Contacts_add al env n a ens at d"
| "reg_exec al (OpContactRemove n) env d = Contacts_Remove al env n d"
| "reg_exec al (OpTokenAdd net t) env d = Tokens_Add al env net t d"
| "reg_exec al (OpTokenRename net a b) env d = Tokens_Rename al env net a b d"
| "reg_exec al (OpTokenRemove net a) env d = Tokens_Remove al env net a d"
| "reg_exec al (OpCollectionAdd net c) env d = AddCollection al env net c d"
| "reg_exec al (OpCollectionRemove net a) env d = RemoveCollection al env net a d"
| "reg_exec al (OpNFTAlias net a c i) env d = AliasNFT al env net a c i d"
| "reg_exec al (OpNFTRemove net a) env d = RemoveNFTAlias al env net a d"
| "reg_exec al (OpContractAdd net a ad abi) env d = Contracts_Add al env net a ad abi d"
| "reg_exec al (OpContractRemove net a) env d = Contracts_Remove al env net a d"

fun reg_run :: "addr_lib \<Rightarrow> (reg_op \<times> reg_env) list \<Rightarrow> disk \<Rightarrow> disk" where
  "reg_run al [] d = d"
| "reg_run al ((x, env) # xs) d = reg_run al xs (snd (reg_exec al x env d))"

text \<open>The registry file an operation works on, \<open>None\<close> for the address book; and the names \<open>network add\<close> accepts
  (\<open>config/networks.go\<close>).\<close>

fun op_network :: "reg_op \<Rightarrow> string option" where
  "op_network (OpContactAdd n a ens at) = None"
| "op_network (OpContactRemove n) = None"
| "op_network (OpTokenAdd net t) = Some net"
| "op_network (OpTokenRename net a b) = Some net"
| "op_network (OpTokenRemove net a) = Some net"
| "op_network (OpCollectionAdd net c) = Some net"
| "op_network (OpCollectionRemove net a) = Some net"
| "op_network (OpNFTAlias net a c i) = Some net"
| "op_network (OpNFTRemove net a) = Some net"
| "op_network (OpContractAdd net a ad abi) = Some net"
| "op_network (OpContractRemove net a) = Some net"

definition validObjectName :: "string \<Rightarrow> bool" where
  "validObjectName s = (if s = [] \<or> length s > 64 then False
     else list_all (\<lambda>i. let c = s ! i in lower_alnum c \<or> ((c = CHR ''-'' \<or> c = CHR ''_'') \<and> i \<noteq> 0)) [0..<length s])"

end
