(* ===== verification/Registry_Claims.thy ===== *)
theory Registry_Claims
  imports Registry_NFT
begin

text \<open>
  The properties of the name registries: what is written is read back, histories keep every file well-formed, an added token is
  found, bundled tokens cannot be overridden, and a network called \<open>contacts\<close> destroys the address book.
\<close>

section \<open>Reading what was written\<close>

definition addr_json :: "addr_lib \<Rightarrow> bool" where
  "addr_json al \<longleftrightarrow> (\<forall>a. al_read al (al_show al a) = Some a)"

lemma items_read: "(\<And>x. d (enc x) z = Some x) \<Longrightarrow> dec_items d z (map enc xs) [] = Some xs"
  by (induction xs) auto

lemma slice_read: "(\<And>x. d (enc x) z = Some x) \<Longrightarrow> dec_slice d z (JsArr (map enc xs)) [] = Some xs"
  by (simp add: dec_slice_def items_read)

lemmas reg_dec = dec_struct_def find_field_def field_def dec_string_def dec_addr_def dec_raw_def

lemma dec_enc_contact: "addr_json al \<Longrightarrow> dec_contact al (enc_contact al c) (zero_contact al) = Some c"
  by (cases c) (auto simp: dec_contact_def enc_contact_def zero_contact_def reg_dec addr_json_def)

lemma dec_uint8_dec: "dec_uint8 (JsNum (nat_dec (unat w))) old = Some w"
  using unsigned_less [of w, where ?'a = nat] by (simp add: dec_uint8_def)

lemma dec_enc_token: "addr_json al \<Longrightarrow> decode_token al (enc_token al t) (blank_token al) = Some t"
  by (cases t) (simp add: decode_token_def enc_token_def blank_token_def reg_dec addr_json_def dec_uint8_dec)

lemma dec_enc_collection: "addr_json al \<Longrightarrow> dec_collection al (enc_collection al c) (zero_collection al) = Some c"
  by (cases c) (simp add: dec_collection_def enc_collection_def zero_collection_def reg_dec addr_json_def)

lemma dec_enc_nft: "dec_nft (enc_nft n) zero_nft = Some n"
  by (cases n) (simp add: dec_nft_def enc_nft_def zero_nft_def reg_dec)

lemma dec_enc_contract: "addr_json al \<Longrightarrow> decode_contract al (enc_contract al k) (blank_contract al) = Some k"
  by (cases k) (simp add: decode_contract_def enc_contract_def blank_contract_def reg_dec addr_json_def)

lemma dec_int_lit: "- (2 ^ 63) \<le> i \<Longrightarrow> i < 2 ^ 63 \<Longrightarrow> dec_int (JsNum (int_dec i)) old = Some i"
  by (simp add: dec_int_def)

lemma dec_enc_contactsFile:
  assumes "addr_json al" "cf_V f = 1"
  shows "dec_contactsFile al (enc_contactsFile al f) \<lparr>cf_V = 0, cf_Contacts = []\<rparr> = Some f"
proof -
  have s: "dec_slice (dec_contact al) (zero_contact al) (JsArr (map (enc_contact al) cs)) [] = Some cs" for cs
    by (rule slice_read) (rule dec_enc_contact [OF assms(1)])
  show ?thesis using assms(2)
    by (cases f) (simp add: dec_contactsFile_def enc_contactsFile_def dec_struct_def find_field_def field_def dec_int_lit s)
qed

lemma dec_enc_tokensFile:
  assumes "addr_json al" "tf_V f = 2"
  shows "dec_tokensFile al (enc_tokensFile al f)
     \<lparr>tf_V = 0, tf_Network = [], tf_Tokens = [], tf_Collections = [], tf_NFTAliases = [], tf_Contracts = []\<rparr> = Some f"
proof -
  have s: "dec_slice (decode_token al) (blank_token al) (JsArr (map (enc_token al) ts)) [] = Some ts"
    "dec_slice (dec_collection al) (zero_collection al) (JsArr (map (enc_collection al) cs)) [] = Some cs"
    "dec_slice dec_nft zero_nft (JsArr (map enc_nft ns)) [] = Some ns"
    "dec_slice (decode_contract al) (blank_contract al) (JsArr (map (enc_contract al) ks)) [] = Some ks" for ts cs ns ks
    by (rule slice_read, simp add: assms dec_enc_token dec_enc_collection dec_enc_nft dec_enc_contract)+
  show ?thesis using assms(2)
    by (cases f) (simp add: dec_tokensFile_def enc_tokensFile_def dec_struct_def find_field_def field_def dec_int_lit dec_string_def s)
qed

lemma net_path_inj [simp]: "net_path a = net_path b \<longleftrightarrow> a = b"
  by (simp add: net_path_def)

lemma net_path_contacts: "net_path a = contacts_path \<longleftrightarrow> a = ''contacts''"
proof -
  have "contacts_path = net_path ''contacts''" by (simp add: net_path_def)
  thus ?thesis using net_path_inj [of a "''contacts''"] by metis
qed

text \<open>Each decoder on a file of the other kind: a contacts file has empty namespaces, a registry file is too new.\<close>

lemma fold_ne: "EqualFold ''v'' ''contacts'' = False" "EqualFold ''network'' ''contacts'' = False" "EqualFold ''tokens'' ''contacts'' = False"
  "EqualFold ''collections'' ''contacts'' = False" "EqualFold ''nft_aliases'' ''contacts'' = False" "EqualFold ''contracts'' ''contacts'' = False"
  "EqualFold ''contacts'' ''network'' = False" "EqualFold ''contacts'' ''tokens'' = False" "EqualFold ''contacts'' ''collections'' = False"
  "EqualFold ''contacts'' ''nft_aliases'' = False" "EqualFold ''contacts'' ''contracts'' = False"
  "EqualFold ''v'' ''network'' = False" "EqualFold ''v'' ''tokens'' = False" "EqualFold ''v'' ''collections'' = False"
  "EqualFold ''v'' ''nft_aliases'' = False" "EqualFold ''v'' ''contracts'' = False"
  by code_simp+

lemma contacts_as_tokens:
  "cf_V f = 1 \<Longrightarrow> dec_tokensFile al (enc_contactsFile al f)
     \<lparr>tf_V = 0, tf_Network = [], tf_Tokens = [], tf_Collections = [], tf_NFTAliases = [], tf_Contracts = []\<rparr> =
   Some \<lparr>tf_V = 1, tf_Network = [], tf_Tokens = [], tf_Collections = [], tf_NFTAliases = [], tf_Contracts = []\<rparr>"
  by (simp add: dec_tokensFile_def enc_contactsFile_def dec_struct_def find_field_def field_def dec_int_lit fold_ne)

lemma tokens_as_contacts:
  "tf_V f = 2 \<Longrightarrow> dec_contactsFile al (enc_tokensFile al f) \<lparr>cf_V = 0, cf_Contacts = []\<rparr> = Some \<lparr>cf_V = 2, cf_Contacts = []\<rparr>"
  by (simp add: dec_contactsFile_def enc_tokensFile_def dec_struct_def find_field_def field_def dec_int_lit fold_ne)

section \<open>What an update leaves\<close>

lemma write_cases: "write_file env p j d = (r, d') \<Longrightarrow> (d' = d \<and> r \<noteq> Inr ()) \<or> d' = d(p := Content j)"
  by (auto simp: write_file_def split: writefault.splits if_splits)

text \<open>An update fails and changes nothing, or its function succeeds on the loaded file and its result is the new file.\<close>

lemma update_contacts_cases:
  assumes "update_contacts al env fn d = (r, d')"
  shows "(d' = d \<and> r \<noteq> Inr ()) \<or> (\<exists>f g. load_contacts al d = Inr f \<and> fn f = Inr g \<and>
     d' = d(contacts_path := Content (enc_contactsFile al (g\<lparr>cf_V := 1\<rparr>))))"
  using assms by (auto simp: update_contacts_def withRegistryLock_def save_contacts_def contactsVersion_def
    split: lockfault.splits sum.splits dest!: write_cases)

lemma update_tokens_cases:
  assumes "update_tokens al env n fn d = (r, d')"
  shows "(d' = d \<and> r \<noteq> Inr ()) \<or> (\<exists>f g. load_tokens al n d = Inr f \<and> fn f = Inr g \<and>
     d' = d(net_path n := Content (enc_tokensFile al (g\<lparr>tf_V := 2, tf_Network := n\<rparr>))))"
  using assms by (auto simp: update_tokens_def withRegistryLock_def save_tokens_def tokensVersion_def
    split: lockfault.splits sum.splits dest!: write_cases)

lemma load_contacts_written:
  "addr_json al \<Longrightarrow> load_contacts al (d(contacts_path := Content (enc_contactsFile al (g\<lparr>cf_V := 1\<rparr>)))) = Inr (g\<lparr>cf_V := 1\<rparr>)"
  by (simp add: load_contacts_def dec_enc_contactsFile contactsVersion_def)

lemma load_tokens_written:
  "addr_json al \<Longrightarrow> load_tokens al n (d(net_path n := Content (enc_tokensFile al (g\<lparr>tf_V := 2, tf_Network := n\<rparr>)))) = Inr (g\<lparr>tf_V := 2, tf_Network := n\<rparr>)"
  by (simp add: load_tokens_def dec_enc_tokensFile tokensMaxReadableVersion_def)

lemma load_contacts_tokens_written:
  "load_contacts al (d(net_path n := Content (enc_tokensFile al (g\<lparr>tf_V := 2, tf_Network := n\<rparr>)))) =
     (if n = ''contacts'' then Inl (New ''state.corrupt'') else load_contacts al d)"
  using net_path_contacts [of n] by (auto simp: load_contacts_def tokens_as_contacts contactsVersion_def)

lemma load_tokens_contacts_written:
  "load_tokens al n (d(contacts_path := Content (enc_contactsFile al (g\<lparr>cf_V := 1\<rparr>)))) =
     (if n = ''contacts'' then Inr \<lparr>tf_V = 1, tf_Network = [], tf_Tokens = [], tf_Collections = [], tf_NFTAliases = [], tf_Contracts = []\<rparr> else load_tokens al n d)"
  using net_path_contacts [of n] by (auto simp: load_tokens_def contacts_as_tokens tokensMaxReadableVersion_def)

lemma load_tokens_other: "n \<noteq> m \<Longrightarrow> load_tokens al n (d(net_path m := c)) = load_tokens al n d"
  by (simp add: load_tokens_def)

section \<open>Namespaces\<close>

text \<open>Distinct names, each entry fit for its namespace.\<close>

definition names_ok :: "('e \<Rightarrow> string) \<Rightarrow> ('e \<Rightarrow> bool) \<Rightarrow> 'e list \<Rightarrow> bool" where
  "names_ok name Q xs \<longleftrightarrow> distinct (map name xs) \<and> list_all Q xs"

lemma names_ok_Nil [simp]: "names_ok name Q []"
  by (simp add: names_ok_def)

lemma drop_first_split: "drop_first P xs = Some ys \<Longrightarrow> \<exists>a x b. xs = a @ x # b \<and> ys = a @ b \<and> P x"
proof (induction xs arbitrary: ys)
  case (Cons x xs)
  show ?case
  proof (cases "P x")
    case True
    thus ?thesis using Cons.prems by (intro exI [of _ "[]"] exI [of _ x] exI [of _ xs]) simp
  next
    case False
    then obtain zs where z: "drop_first P xs = Some zs" "ys = x # zs" using Cons.prems by auto
    then obtain a y b where "xs = a @ y # b" "zs = a @ b" "P y" using Cons.IH by blast
    thus ?thesis using z(2) by (intro exI [of _ "x # a"] exI [of _ y] exI [of _ b]) simp
  qed
qed simp

definition removed :: "('e \<Rightarrow> string) \<Rightarrow> string \<Rightarrow> 'e list \<Rightarrow> 'e list \<Rightarrow> bool" where
  "removed name k xs ys \<longleftrightarrow> (\<exists>a x b. xs = a @ x # b \<and> ys = a @ b \<and> name x = k)"

lemma drop_first_removed: "drop_first (\<lambda>x. name x = k) xs = Some ys \<Longrightarrow> removed name k xs ys"
  using drop_first_split unfolding removed_def by fast

text \<open>The contract of a namespace: inserting appends a new name, deleting takes an entry of the name away.\<close>

locale namespace =
  fixes entries :: "'f \<Rightarrow> 'e list" and name :: "'e \<Rightarrow> string"
    and ins :: "'e \<Rightarrow> 'f \<Rightarrow> 'f result" and del :: "string \<Rightarrow> 'f \<Rightarrow> 'f result"
  assumes ins_entries: "ins e f = Inr g \<Longrightarrow> entries g = entries f @ [e] \<and> name e \<notin> name ` set (entries f)"
    and del_entries: "del k f = Inr g \<Longrightarrow> removed name k (entries f) (entries g)"
begin

lemma ins_ok: "names_ok name Q (entries f) \<Longrightarrow> Q e \<Longrightarrow> ins e f = Inr g \<Longrightarrow> names_ok name Q (entries g)"
  using ins_entries [of e f g] by (auto simp: names_ok_def)

lemma del_ok: "names_ok name Q (entries f) \<Longrightarrow> del k f = Inr g \<Longrightarrow> names_ok name Q (entries g)"
  using del_entries [of k f g] by (auto simp: names_ok_def removed_def)

lemma ins_found: "ins e f = Inr g \<Longrightarrow> find (\<lambda>x. name x = name e) (entries g) = Some e"
proof -
  assume "ins e f = Inr g"
  hence g: "entries g = entries f @ [e]" "name e \<notin> name ` set (entries f)" using ins_entries by auto
  have "find P (xs @ [y]) = Some y" if "\<forall>x \<in> set xs. \<not> P x" "P y" for P and xs :: "'e list" and y
    using that by (induction xs) auto
  moreover have "\<forall>x \<in> set (entries f). name x \<noteq> name e" using g(2) by (metis imageI)
  ultimately show ?thesis by (simp add: g(1))
qed

lemma ins_others: "ins e f = Inr g \<Longrightarrow> k \<noteq> name e \<Longrightarrow> find (\<lambda>x. name x = k) (entries g) = find (\<lambda>x. name x = k) (entries f)"
proof -
  assume "ins e f = Inr g" "k \<noteq> name e"
  hence g: "entries g = entries f @ [e]" "k \<noteq> name e" using ins_entries by auto
  have "find P (xs @ [y]) = find P xs" if "\<not> P y" for P and xs :: "'e list" and y using that by (induction xs) auto
  thus ?thesis using g by simp
qed

lemma del_gone: "names_ok name Q (entries f) \<Longrightarrow> del k f = Inr g \<Longrightarrow> find (\<lambda>x. name x = k) (entries g) = None"
  using del_entries [of k f g] by (auto simp: names_ok_def removed_def find_None_iff) (metis imageI)+

end

interpretation book: namespace cf_Contacts ct_Name insert_contact delete_contact
  by unfold_locales (auto simp: insert_contact_def delete_contact_def list_ex_iff split: if_splits option.splits dest!: drop_first_removed)

interpretation tok: namespace tf_Tokens tk_Alias "insert_token al n" "delete_token al n" for al n
  by unfold_locales (auto simp: insert_token_def delete_token_def list_ex_iff split: if_splits option.splits dest!: drop_first_removed)

interpretation col: namespace tf_Collections cl_Alias insert_collection delete_collection
  by unfold_locales (auto simp: insert_collection_def delete_collection_def list_ex_iff split: if_splits option.splits dest!: drop_first_removed)

interpretation nft: namespace tf_NFTAliases na_Alias insert_nft delete_nft
  by unfold_locales (auto simp: insert_nft_def delete_nft_def list_ex_iff split: if_splits option.splits dest!: drop_first_removed)

interpretation con: namespace tf_Contracts kt_Alias insert_contract delete_contract
  by unfold_locales (auto simp: insert_contract_def delete_contract_def list_ex_iff split: if_splits option.splits dest!: drop_first_removed)

section \<open>Well-formed files\<close>

definition canonical_name :: "addr_lib \<Rightarrow> string \<Rightarrow> bool" where
  "canonical_name al s \<longleftrightarrow> canonicalName al s = Inr s"

lemma grammar_no_space: "name_grammar s \<Longrightarrow> c \<in> set s \<Longrightarrow> \<not> is_space c"
  by (cases s) (auto simp: name_grammar_def lower_alnum_def is_digit_def is_space_def list_all_iff)

lemma canonicalName_canonical: "canonicalName al s = Inr c \<Longrightarrow> canonical_name al c"
proof -
  assume "canonicalName al s = Inr c"
  hence c: "c = ToLower (TrimSpace s)" "c \<noteq> []" "\<not> al_isHex al c" "\<not> length c > 64" "name_grammar c"
    by (auto simp: canonicalName_def Let_def split: if_splits)
  have "TrimSpace c = c" by (rule TrimSpace_id) (use grammar_no_space [OF c(5)] in blast)
  moreover have "ToLower c = c" by (simp add: c(1))
  ultimately show ?thesis using c(2-5) by (simp add: canonical_name_def canonicalName_def Let_def)
qed

definition book_ok :: "addr_lib \<Rightarrow> contactsFile \<Rightarrow> bool" where
  "book_ok al f \<longleftrightarrow> names_ok ct_Name (\<lambda>c. canonical_name al (ct_Name c)) (cf_Contacts f)"

definition registry_file_ok :: "addr_lib \<Rightarrow> string \<Rightarrow> tokensFile \<Rightarrow> bool" where
  "registry_file_ok al n f \<longleftrightarrow>
     names_ok tk_Alias (\<lambda>t. canonical_name al (tk_Alias t) \<and> bundledLookup al n (tk_Alias t) = None) (tf_Tokens f) \<and>
     names_ok cl_Alias (\<lambda>c. canonical_name al (cl_Alias c) \<and> cl_Kind c \<in> {KindERC721, KindERC1155}) (tf_Collections f) \<and>
     names_ok na_Alias (\<lambda>a. canonical_name al (na_Alias a) \<and> normalizeTokenID (na_TokenID a) = Some (na_TokenID a)) (tf_NFTAliases f) \<and>
     names_ok kt_Alias (\<lambda>k. canonical_name al (kt_Alias k) \<and> (\<exists>v vs. kt_ABI k = JsArr (v # vs))) (tf_Contracts f)"

lemma normalizeTokenID_canonical: "normalizeTokenID s = Some i \<Longrightarrow> normalizeTokenID i = Some i"
proof -
  assume "normalizeTokenID s = Some i"
  then obtain v where v: "i = int_dec v" "0 \<le> v" by (auto simp: normalizeTokenID_def Let_def split: if_splits option.splits)
  have d: "int_dec v = nat_dec (nat v)" using v(2) by (simp add: int_dec_def)
  have "TrimSpace i = i" using nat_dec_digits [of "nat v"]
    by (intro TrimSpace_id) (auto simp: v d is_space_def list_all_iff is_digit_def)
  moreover have "i \<noteq> []" by (simp add: v d)
  ultimately show ?thesis using v by (simp add: normalizeTokenID_def)
qed

lemma index_of_nth: "index_of P xs = Some i \<Longrightarrow> i < length xs \<and> P (xs ! i)"
  by (induction xs arbitrary: i) (auto split: if_splits)

lemma rename_ok:
  assumes "names_ok tk_Alias Q (tf_Tokens f)" "rename_token al n a b f = Inr g" "\<And>t. bundledLookup al n b = None \<Longrightarrow> Q t \<Longrightarrow> Q (t\<lparr>tk_Alias := b\<rparr>)"
  shows "names_ok tk_Alias Q (tf_Tokens g)"
proof -
  let ?ts = "tf_Tokens f"
  obtain i where i: "index_of (\<lambda>t. tk_Alias t = a) ?ts = Some i" "bundledLookup al n b = None"
      "\<forall>j \<in> {0..<length ?ts}. j = i \<or> tk_Alias (?ts ! j) \<noteq> b" "tf_Tokens g = ?ts[i := (?ts ! i)\<lparr>tk_Alias := b\<rparr>]"
    using assms(2) by (auto simp: rename_token_def list_ex_iff split: if_splits option.splits)
  have l: "i < length ?ts" using index_of_nth [OF i(1)] by simp
  have "b \<notin> set (map tk_Alias ?ts) - {map tk_Alias ?ts ! i}"
  proof
    assume "b \<in> set (map tk_Alias ?ts) - {map tk_Alias ?ts ! i}"
    then obtain j where "j < length ?ts" "tk_Alias (?ts ! j) = b" "b \<noteq> tk_Alias (?ts ! i)" using l by (auto simp: in_set_conv_nth)
    thus False using i(3) by (metis atLeastLessThan_iff zero_le)
  qed
  hence "distinct (map tk_Alias (tf_Tokens g))"
    using assms(1) by (simp add: i(4) names_ok_def map_update distinct_list_update)
  moreover have "list_all Q (tf_Tokens g)"
    using assms(1) assms(3) [OF i(2)] l by (auto simp: i(4) names_ok_def list_all_length nth_list_update)
  ultimately have "distinct (map tk_Alias (tf_Tokens g))" "list_all Q (tf_Tokens g)" by blast+
  thus ?thesis by (simp add: names_ok_def)
qed

text \<open>Every namespace operation keeps its file well-formed.\<close>

lemma file_ok_ins:
  assumes "registry_file_ok al n f"
  shows "insert_token al n t f = Inr g \<Longrightarrow> canonical_name al (tk_Alias t) \<Longrightarrow> registry_file_ok al n g"
    "insert_collection c f = Inr g \<Longrightarrow> canonical_name al (cl_Alias c) \<Longrightarrow> cl_Kind c \<in> {KindERC721, KindERC1155} \<Longrightarrow> registry_file_ok al n g"
    "insert_nft m f = Inr g \<Longrightarrow> canonical_name al (na_Alias m) \<Longrightarrow> normalizeTokenID (na_TokenID m) = Some (na_TokenID m) \<Longrightarrow> registry_file_ok al n g"
    "insert_contract k f = Inr g \<Longrightarrow> canonical_name al (kt_Alias k) \<Longrightarrow> kt_ABI k = JsArr (v # vs) \<Longrightarrow> registry_file_ok al n g"
proof -
  assume t: "insert_token al n t f = Inr g" "canonical_name al (tk_Alias t)"
  have "bundledLookup al n (tk_Alias t) = None" "g = f\<lparr>tf_Tokens := tf_Tokens f @ [t]\<rparr>" using t(1) by (auto simp: insert_token_def split: if_splits)
  thus "registry_file_ok al n g" using assms tok.ins_ok [OF _ _ t(1)] t(2) by (auto simp: registry_file_ok_def)
next
  assume c: "insert_collection c f = Inr g" "canonical_name al (cl_Alias c)" "cl_Kind c \<in> {KindERC721, KindERC1155}"
  have "g = f\<lparr>tf_Collections := tf_Collections f @ [c]\<rparr>" using c(1) by (auto simp: insert_collection_def split: if_splits)
  thus "registry_file_ok al n g" using assms col.ins_ok [OF _ _ c(1)] c(2,3) by (auto simp: registry_file_ok_def)
next
  assume m: "insert_nft m f = Inr g" "canonical_name al (na_Alias m)" "normalizeTokenID (na_TokenID m) = Some (na_TokenID m)"
  have "g = f\<lparr>tf_NFTAliases := tf_NFTAliases f @ [m]\<rparr>" using m(1) by (auto simp: insert_nft_def split: if_splits)
  thus "registry_file_ok al n g" using assms nft.ins_ok [OF _ _ m(1)] m(2,3) by (auto simp: registry_file_ok_def)
next
  assume k: "insert_contract k f = Inr g" "canonical_name al (kt_Alias k)" "kt_ABI k = JsArr (v # vs)"
  have "g = f\<lparr>tf_Contracts := tf_Contracts f @ [k]\<rparr>" using k(1) by (auto simp: insert_contract_def split: if_splits)
  thus "registry_file_ok al n g" using assms con.ins_ok [OF _ _ k(1)] k(2,3) by (auto simp: registry_file_ok_def)
qed

lemma file_ok_del:
  assumes "registry_file_ok al n f"
  shows "delete_token al n a f = Inr g \<Longrightarrow> registry_file_ok al n g"
    "delete_collection a f = Inr g \<Longrightarrow> registry_file_ok al n g"
    "delete_nft a f = Inr g \<Longrightarrow> registry_file_ok al n g"
    "delete_contract a f = Inr g \<Longrightarrow> registry_file_ok al n g"
proof -
  assume t: "delete_token al n a f = Inr g"
  obtain ts where "g = f\<lparr>tf_Tokens := ts\<rparr>" using t by (auto simp: delete_token_def split: if_splits option.splits)
  thus "registry_file_ok al n g" using assms tok.del_ok [OF _ t] by (auto simp: registry_file_ok_def)
next
  assume c: "delete_collection a f = Inr g"
  obtain cs where "g = f\<lparr>tf_Collections := cs\<rparr>" using c by (auto simp: delete_collection_def split: option.splits)
  thus "registry_file_ok al n g" using assms col.del_ok [OF _ c] by (auto simp: registry_file_ok_def)
next
  assume m: "delete_nft a f = Inr g"
  obtain ns where "g = f\<lparr>tf_NFTAliases := ns\<rparr>" using m by (auto simp: delete_nft_def split: option.splits)
  thus "registry_file_ok al n g" using assms nft.del_ok [OF _ m] by (auto simp: registry_file_ok_def)
next
  assume k: "delete_contract a f = Inr g"
  obtain ks where "g = f\<lparr>tf_Contracts := ks\<rparr>" using k by (auto simp: delete_contract_def split: option.splits)
  thus "registry_file_ok al n g" using assms con.del_ok [OF _ k] by (auto simp: registry_file_ok_def)
qed

lemma file_ok_rename:
  assumes "registry_file_ok al n f" "rename_token al n a b f = Inr g" "canonical_name al b"
  shows "registry_file_ok al n g"
proof -
  obtain ts where "g = f\<lparr>tf_Tokens := ts\<rparr>" using assms(2) by (auto simp: rename_token_def split: if_splits option.splits)
  thus ?thesis using assms rename_ok [OF _ assms(2)] by (auto simp: registry_file_ok_def)
qed

section \<open>Histories\<close>

definition registry_ok :: "addr_lib \<Rightarrow> disk \<Rightarrow> bool" where
  "registry_ok al d \<longleftrightarrow> (load_contacts al d = Inl (New ''state.corrupt'') \<or> (\<exists>f. load_contacts al d = Inr f \<and> book_ok al f)) \<and>
     (\<forall>n. \<exists>f. load_tokens al n d = Inr f \<and> registry_file_ok al n f)"

lemma file_ok_stamped [simp]: "registry_file_ok al n (g\<lparr>tf_V := v, tf_Network := m\<rparr>) = registry_file_ok al n g"
  by (simp add: registry_file_ok_def)

lemma file_ok_empty [simp]: "registry_file_ok al n \<lparr>tf_V = v, tf_Network = m, tf_Tokens = [], tf_Collections = [], tf_NFTAliases = [], tf_Contracts = []\<rparr>"
  by (simp add: registry_file_ok_def)

lemma update_tokens_ok:
  assumes al: "addr_json al" and ok: "registry_ok al d"
    and fn: "\<And>f g. registry_file_ok al n f \<Longrightarrow> fn f = Inr g \<Longrightarrow> registry_file_ok al n g"
  shows "registry_ok al (snd (update_tokens al env n fn d))"
proof -
  obtain r d' where u: "update_tokens al env n fn d = (r, d')" by fastforce
  consider "d' = d" | f g where "load_tokens al n d = Inr f" "fn f = Inr g" "d' = d(net_path n := Content (enc_tokensFile al (g\<lparr>tf_V := 2, tf_Network := n\<rparr>)))"
    using update_tokens_cases [OF u] by blast
  thus ?thesis
  proof cases
    case 1
    thus ?thesis using u ok by simp
  next
    case 2
    obtain f0 where "load_tokens al n d = Inr f0" "registry_file_ok al n f0" using ok unfolding registry_ok_def by blast
    hence g: "registry_file_ok al n g" using 2(1,2) fn [of f g] by simp
    have "\<exists>f. load_tokens al m d' = Inr f \<and> registry_file_ok al m f" for m
      using ok g load_tokens_written [OF al] load_tokens_other [of m n al d] by (cases "m = n") (auto simp: registry_ok_def 2(3))
    moreover have "load_contacts al d' = Inl (New ''state.corrupt'') \<or> load_contacts al d' = load_contacts al d"
      by (simp add: 2(3) load_contacts_tokens_written)
    ultimately show ?thesis using ok u by (auto simp: registry_ok_def)
  qed
qed

lemma update_contacts_ok:
  assumes al: "addr_json al" and ok: "registry_ok al d" and fn: "\<And>f g. book_ok al f \<Longrightarrow> fn f = Inr g \<Longrightarrow> book_ok al g"
  shows "registry_ok al (snd (update_contacts al env fn d))"
proof -
  obtain r d' where u: "update_contacts al env fn d = (r, d')" by fastforce
  consider "d' = d" | f g where "load_contacts al d = Inr f" "fn f = Inr g" "d' = d(contacts_path := Content (enc_contactsFile al (g\<lparr>cf_V := 1\<rparr>)))"
    using update_contacts_cases [OF u] by blast
  thus ?thesis
  proof cases
    case 1
    thus ?thesis using u ok by simp
  next
    case 2
    have "book_ok al (g\<lparr>cf_V := 1\<rparr>)" using ok 2(1,2) fn [of f g] by (auto simp: registry_ok_def book_ok_def)
    moreover have "\<exists>f. load_tokens al m d' = Inr f \<and> registry_file_ok al m f" for m
      using ok by (auto simp: registry_ok_def 2(3) load_tokens_contacts_written)
    ultimately show ?thesis using u load_contacts_written [OF al] by (auto simp: registry_ok_def 2(3))
  qed
qed

lemma normalizeABI_array: "normalizeABI s = Inr j \<Longrightarrow> \<exists>v vs. j = JsArr (v # vs)"
  by (auto simp: normalizeABI_def split: if_splits option.splits json.splits list.splits)

lemma reg_exec_ok:
  assumes al: "addr_json al" and ok: "registry_ok al d"
  shows "registry_ok al (snd (reg_exec al x env d))"
proof (cases x)
  case (OpContactAdd nm a ens at)
  show ?thesis
  proof (cases "canonicalName al nm")
    case (Inr c)
    have "book_ok al g" if "book_ok al f" "insert_contact \<lparr>ct_Name = c, ct_Address = a, ct_ENS = ens, ct_PinnedAt = at\<rparr> f = Inr g" for f g
      using that(1) book.ins_ok [OF _ _ that(2)] canonicalName_canonical [OF Inr] by (simp add: book_ok_def)
    from update_contacts_ok [OF al ok this] show ?thesis by (simp add: OpContactAdd Contacts_add_def Inr)
  qed (use ok in \<open>simp add: OpContactAdd Contacts_add_def\<close>)
next
  case (OpContactRemove nm)
  show ?thesis using ok
    by (auto simp: OpContactRemove Contacts_Remove_def book_ok_def split: sum.splits intro!: update_contacts_ok [OF al] elim!: book.del_ok)
next
  case (OpTokenAdd net t)
  show ?thesis using ok
    by (auto simp: OpTokenAdd Tokens_Add_def Let_def split: sum.splits
      intro!: update_tokens_ok [OF al] elim!: file_ok_ins(1) dest: canonicalName_canonical)
next
  case (OpTokenRename net a b)
  show ?thesis using ok
    by (auto simp: OpTokenRename Tokens_Rename_def split: sum.splits
      intro!: update_tokens_ok [OF al] elim!: file_ok_rename dest: canonicalName_canonical)
next
  case (OpTokenRemove net a)
  show ?thesis using ok
    by (auto simp: OpTokenRemove Tokens_Remove_def split: sum.splits intro!: update_tokens_ok [OF al] elim!: file_ok_del(1))
next
  case (OpCollectionAdd net c)
  show ?thesis using ok
    by (auto simp: OpCollectionAdd AddCollection_def split: sum.splits
      intro!: update_tokens_ok [OF al] elim!: file_ok_ins(2) dest: canonicalName_canonical)
next
  case (OpCollectionRemove net a)
  show ?thesis using ok
    by (auto simp: OpCollectionRemove RemoveCollection_def split: sum.splits intro!: update_tokens_ok [OF al] elim!: file_ok_del(2))
next
  case (OpNFTAlias net a c i)
  show ?thesis using ok
    by (auto simp: OpNFTAlias AliasNFT_def split: sum.splits option.splits
      intro!: update_tokens_ok [OF al] elim!: file_ok_ins(3) dest: canonicalName_canonical normalizeTokenID_canonical)
next
  case (OpNFTRemove net a)
  show ?thesis using ok
    by (auto simp: OpNFTRemove RemoveNFTAlias_def split: sum.splits intro!: update_tokens_ok [OF al] elim!: file_ok_del(3))
next
  case (OpContractAdd net a ad abi)
  show ?thesis using ok
    by (auto simp: OpContractAdd Contracts_Add_def split: sum.splits
      intro!: update_tokens_ok [OF al] elim!: file_ok_ins(4) dest: canonicalName_canonical dest!: normalizeABI_array)
next
  case (OpContractRemove net a)
  show ?thesis using ok
    by (auto simp: OpContractRemove Contracts_Remove_def split: sum.splits intro!: update_tokens_ok [OF al] elim!: file_ok_del(4))
qed

lemma reg_run_ok: "addr_json al \<Longrightarrow> registry_ok al d \<Longrightarrow> registry_ok al (reg_run al xs d)"
  by (induction al xs d rule: reg_run.induct) (simp_all add: reg_exec_ok)

lemma empty_ok: "\<forall>p. d p = Missing \<Longrightarrow> registry_ok al d"
  by (simp add: registry_ok_def load_contacts_def load_tokens_def book_ok_def)

section \<open>The address book overwritten\<close>

lemma book_stays_lost:
  assumes "load_contacts al d = Inl (New ''state.corrupt'')"
  shows "load_contacts al (snd (reg_exec al x env d)) = Inl (New ''state.corrupt'')"
proof -
  have c: "load_contacts al (snd (update_contacts al env fn d)) = Inl (New ''state.corrupt'')" for env fn
    using assms by (simp add: update_contacts_def withRegistryLock_def split: lockfault.splits)
  have t: "load_contacts al (snd (update_tokens al env n fn d)) = Inl (New ''state.corrupt'')" for env n fn
  proof -
    obtain r d' where u: "update_tokens al env n fn d = (r, d')" by fastforce
    show ?thesis using update_tokens_cases [OF u] assms u by (auto simp: load_contacts_tokens_written)
  qed
  show ?thesis
    by (cases x) (auto simp: assms c t Let_def Contacts_add_def Contacts_Remove_def Tokens_Add_def Tokens_Rename_def Tokens_Remove_def AddCollection_def
      RemoveCollection_def AliasNFT_def RemoveNFTAlias_def Contracts_Add_def Contracts_Remove_def split: sum.splits option.splits)
qed

lemma book_lost:
  assumes "reg_exec al x env d = (Inr (), d')" "op_network x = Some ''contacts''"
  shows "load_contacts al d' = Inl (New ''state.corrupt'')"
proof -
  have t: "load_contacts al d' = Inl (New ''state.corrupt'')" if "update_tokens al env ''contacts'' fn d = (Inr (), d')" for fn
    using update_tokens_cases [OF that] by (auto simp: load_contacts_tokens_written)
  show ?thesis using assms t
    by (cases x) (auto simp: Let_def Tokens_Add_def Tokens_Rename_def Tokens_Remove_def AddCollection_def
      RemoveCollection_def AliasNFT_def RemoveNFTAlias_def Contracts_Add_def Contracts_Remove_def split: sum.splits option.splits if_splits)
qed

lemma book_lost_run: "load_contacts al d = Inl (New ''state.corrupt'') \<Longrightarrow> load_contacts al (reg_run al xs d) = Inl (New ''state.corrupt'')"
  by (induction al xs d rule: reg_run.induct) (simp_all add: book_stays_lost)

section \<open>Properties\<close>

definition demo_lib :: addr_lib where
  "demo_lib = \<lparr>al_isHex = (\<lambda>s. length s = 42), al_toAddr = (\<lambda>s. s), al_show = (\<lambda>s. s), al_read = Some, al_zero = ''0x0''\<rparr>"

definition fine :: reg_env where
  "fine = \<lparr>re_lock = LockOK, re_write = WriteOK, re_landed = True\<rparr>"

definition demo_token :: Token where
  "demo_token = \<lparr>tk_Alias = ''My-Coin'', tk_Address = ''0xc'', tk_Kind = [], tk_Decimals = 18, tk_Symbol = ''USDC''\<rparr>"

lemma demo_json: "addr_json demo_lib"
  by (simp add: addr_json_def demo_lib_def)

text \<open>C35. Whatever registry commands ran on an empty directory, with whatever lock and write failures, every registry file loads;
  in each namespace the names are canonical and distinct, no token has the alias of a bundled one, collections have an NFT
  kind, token ids are canonical numerals and ABIs are non-empty arrays; and the address book, if it loads, has canonical
  distinct names.\<close>

theorem registry_wellformed:
  assumes "addr_json al" "\<forall>p. d p = Missing"
  shows "(\<forall>n. \<exists>f. load_tokens al n (reg_run al xs d) = Inr f \<and> registry_file_ok al n f) \<and>
    (\<forall>f. load_contacts al (reg_run al xs d) = Inr f \<longrightarrow> book_ok al f)"
  using reg_run_ok [OF assms(1) empty_ok [OF assms(2)], of xs] by (auto simp: registry_ok_def)

theorem registry_wellformed_witness:
  "\<exists>f. load_tokens demo_lib ''mainnet'' (reg_run demo_lib [(OpTokenAdd ''mainnet'' demo_token, fine)] (\<lambda>p. Missing)) = Inr f \<and> registry_file_ok demo_lib ''mainnet'' f"
  using registry_wellformed [OF demo_json, of "\<lambda>p. Missing"] by blast

text \<open>C36. A bundled token cannot be overridden: after any history of registry commands its alias, in any spelling, resolves to the
  compiled-in token, and adding a token of that alias or renaming one to it fails.\<close>

theorem bundled_never_overridden:
  assumes "addr_json al" "\<forall>p. d p = Missing" "canonicalName al alias = Inr c" "bundledLookup al n c = Some t"
  shows "Tokens_Resolve al n alias (reg_run al xs d) = Inr (Some \<lparr>rt_Token = t, rt_Bundled = True\<rparr>) \<and>
    fst (Tokens_Add al env n (tok\<lparr>tk_Alias := alias\<rparr>) (reg_run al xs d)) \<noteq> Inr () \<and>
    fst (Tokens_Rename al env n old alias (reg_run al xs d)) \<noteq> Inr ()"
proof -
  obtain f where f: "load_tokens al n (reg_run al xs d) = Inr f" "registry_file_ok al n f"
    using reg_run_ok [OF assms(1) empty_ok [OF assms(2)], of xs] by (auto simp: registry_ok_def)
  have "\<forall>t \<in> set (tf_Tokens f). tk_Alias t \<noteq> c" using f(2) assms(4) by (auto simp: registry_file_ok_def names_ok_def list_all_iff)
  hence "find (\<lambda>t. tk_Alias t = c) (tf_Tokens f) = None" by (simp add: find_None_iff)
  moreover have "fst (Tokens_Add al env n (tok\<lparr>tk_Alias := alias\<rparr>) (reg_run al xs d)) \<noteq> Inr ()"
    using f(1) assms(3,4) by (auto simp: Tokens_Add_def Let_def update_tokens_def withRegistryLock_def insert_token_def split: lockfault.splits)
  moreover have "fst (Tokens_Rename al env n old alias (reg_run al xs d)) \<noteq> Inr ()"
    using f(1) assms(3,4) by (auto simp: Tokens_Rename_def update_tokens_def withRegistryLock_def rename_token_def split: lockfault.splits sum.splits option.splits)
  ultimately show ?thesis using f(1) assms(3,4) by (simp add: Tokens_Resolve_def)
qed

theorem bundled_never_overridden_witness:
  "Tokens_Resolve demo_lib ''mainnet'' ''USDC'' (reg_run demo_lib [(OpTokenAdd ''mainnet'' demo_token, fine)] (\<lambda>p. Missing)) =
     Inr (Some \<lparr>rt_Token = hd (bundledFor demo_lib ''mainnet''), rt_Bundled = True\<rparr>)"
proof -
  have "canonicalName demo_lib ''USDC'' = Inr ''usdc''" "bundledLookup demo_lib ''mainnet'' ''usdc'' = Some (hd (bundledFor demo_lib ''mainnet''))" by code_simp+
  thus ?thesis using bundled_never_overridden [OF demo_json, of "\<lambda>p. Missing" "''USDC''" "''usdc''" "''mainnet''"] by blast
qed

text \<open>C34. \<open>contacts\<close> is a valid name for a network, and its registry file is the file of the address book: one successful token, NFT
  or contract command on that network replaces the address book, and whatever commands follow, the book is never readable
  again and no contact can be added.\<close>

theorem contacts_network_destroys:
  assumes "reg_exec al x env d = (Inr (), d')" "op_network x = Some ''contacts''"
  shows "validObjectName ''contacts'' \<and> Contacts_List al (reg_run al xs d') = Inl (New ''state.corrupt'') \<and>
    fst (Contacts_add al env2 name addr ens at (reg_run al xs d')) \<noteq> Inr ()"
proof -
  have l: "load_contacts al (reg_run al xs d') = Inl (New ''state.corrupt'')" by (rule book_lost_run) (rule book_lost [OF assms])
  have "fst (Contacts_add al env2 name addr ens at (reg_run al xs d')) \<noteq> Inr ()"
    using l by (auto simp: Contacts_add_def update_contacts_def withRegistryLock_def split: sum.splits lockfault.splits)
  moreover have "validObjectName ''contacts''" by code_simp
  ultimately show ?thesis using l by (simp add: Contacts_List_def)
qed

theorem contacts_network_destroys_witness:
  "let d = snd (Contacts_Add demo_lib fine ''alice'' ''0xa'' (\<lambda>p. Missing)); x = OpTokenAdd ''contacts'' demo_token; d' = snd (reg_exec demo_lib x fine d) in
     Contacts_Resolve demo_lib ''Alice'' d = Inr (Some ''0xa'') \<and> Contacts_List demo_lib d' = Inl (New ''state.corrupt'')"
proof -
  let ?d = "snd (Contacts_Add demo_lib fine ''alice'' ''0xa'' (\<lambda>p. Missing))"
  let ?r = "reg_exec demo_lib (OpTokenAdd ''contacts'' demo_token) fine ?d"
  have "Contacts_Resolve demo_lib ''Alice'' ?d = Inr (Some ''0xa'')" "fst ?r = Inr ()" by code_simp+
  moreover from this have "?r = (Inr (), snd ?r)" by (metis prod.collapse)
  ultimately show ?thesis using contacts_network_destroys [of demo_lib "OpTokenAdd ''contacts'' demo_token" fine ?d "snd ?r" "[]"] by (simp add: Let_def)
qed

text \<open>What \<open>Add\<close> stores for a token.\<close>

definition stored_token :: "Token \<Rightarrow> string \<Rightarrow> Token" where
  "stored_token tok c = tok\<lparr>tk_Alias := c, tk_Kind := (if tk_Kind tok = [] then KindERC20 else tk_Kind tok)\<rparr>"

text \<open>C37. After a successful \<open>token add\<close> every spelling of the alias resolves to exactly the token that was added, with its address,
  decimals and symbol; every other alias of the network resolves as before, and so do the aliases of the other networks, the
  collections, NFTs and contracts, and the contacts unless the network is called \<open>contacts\<close> (whose token file is the address book's: there
  the addition destroys the book, see \<open>contacts_network_destroys\<close>).  The strings are valid UTF-8, as everywhere in this model of the files.\<close>

theorem added_token_resolves:
  assumes "addr_json al" "Tokens_Add al env n tok d = (Inr (), d')"
  shows "\<exists>c. canonicalName al (tk_Alias tok) = Inr c \<and>
    (\<forall>a. Tokens_Resolve al n a d' = (if canonicalName al a = Inr c then Inr (Some \<lparr>rt_Token = stored_token tok c, rt_Bundled = False\<rparr>) else Tokens_Resolve al n a d)) \<and>
    (\<forall>m a. m \<noteq> n \<longrightarrow> Tokens_Resolve al m a d' = Tokens_Resolve al m a d) \<and>
    (\<forall>m a. ResolveCollection al m a d' = ResolveCollection al m a d \<and> ResolveNFT al m a d' = ResolveNFT al m a d \<and> Contracts_Resolve al m a d' = Contracts_Resolve al m a d) \<and>
    (n \<noteq> ''contacts'' \<longrightarrow> (\<forall>a. Contacts_Resolve al a d' = Contacts_Resolve al a d))"
proof -
  obtain c where c: "canonicalName al (tk_Alias tok) = Inr c" using assms(2) by (auto simp: Tokens_Add_def split: sum.splits)
  let ?t = "stored_token tok c"
  have "update_tokens al env n (insert_token al n ?t) d = (Inr (), d')"
    using assms(2) c by (auto simp: Tokens_Add_def Let_def stored_token_def split: if_splits)
  from update_tokens_cases [OF this] obtain f g where u: "load_tokens al n d = Inr f" "insert_token al n ?t f = Inr g"
      "d' = d(net_path n := Content (enc_tokensFile al (g\<lparr>tf_V := 2, tf_Network := n\<rparr>)))" by blast
  have g: "g = f\<lparr>tf_Tokens := tf_Tokens f @ [?t]\<rparr>" using u(2) by (auto simp: insert_token_def split: if_splits)
  have a: "tk_Alias ?t = c" by (simp add: stored_token_def)
  have l: "load_tokens al n d' = Inr (g\<lparr>tf_V := 2, tf_Network := n\<rparr>)" unfolding u(3) by (rule load_tokens_written [OF assms(1)])
  have o: "load_tokens al m d' = load_tokens al m d" if "m \<noteq> n" for m unfolding u(3) by (rule load_tokens_other [OF that])
  have "find (\<lambda>t. tk_Alias t = c) (tf_Tokens g) = Some ?t" using tok.ins_found [OF u(2)] a by simp
  moreover have "find (\<lambda>t. tk_Alias t = k) (tf_Tokens g) = find (\<lambda>t. tk_Alias t = k) (tf_Tokens f)" if "k \<noteq> c" for k
    using tok.ins_others [OF u(2), of k] a that by simp
  ultimately have "Tokens_Resolve al n b d' = (if canonicalName al b = Inr c then Inr (Some \<lparr>rt_Token = ?t, rt_Bundled = False\<rparr>) else Tokens_Resolve al n b d)" for b
    using l u(1) by (simp add: Tokens_Resolve_def split: sum.splits)
  moreover have "ResolveCollection al m b d' = ResolveCollection al m b d \<and> Contracts_Resolve al m b d' = Contracts_Resolve al m b d" for m b
    using l o [of m] u(1) g by (cases "m = n") (simp_all add: ResolveCollection_def Contracts_Resolve_def split: sum.splits)
  moreover have h: "tf_Collections (g\<lparr>tf_V := 2, tf_Network := n\<rparr>) = tf_Collections f" "tf_NFTAliases (g\<lparr>tf_V := 2, tf_Network := n\<rparr>) = tf_NFTAliases f"
    by (simp_all add: g)
  have "resolve_alias al (g\<lparr>tf_V := 2, tf_Network := n\<rparr>) = resolve_alias al f" "resolve_pair al (g\<lparr>tf_V := 2, tf_Network := n\<rparr>) = resolve_pair al f"
    unfolding fun_eq_iff resolve_alias_def resolve_pair_def h by blast+
  hence "ResolveNFT al m b d' = ResolveNFT al m b d" for m b
    using l o [of m] u(1) by (cases "m = n") (simp_all add: ResolveNFT_def Let_def)
  moreover have "Contacts_Resolve al b d' = Contacts_Resolve al b d" if "n \<noteq> ''contacts''" for b
  proof -
    have e: "load_contacts al d' = load_contacts al d" using that by (simp add: u(3) load_contacts_tokens_written)
    show ?thesis unfolding Contacts_Resolve_def e by (rule refl)
  qed
  moreover have "Tokens_Resolve al m b d' = Tokens_Resolve al m b d" if "m \<noteq> n" for m b
    unfolding Tokens_Resolve_def o [OF that] by (rule refl)
  ultimately show ?thesis using c by (intro exI [of _ c]) blast
qed

theorem added_token_resolves_witness:
  "Tokens_Resolve demo_lib ''mainnet'' '' MY-COIN '' (snd (Tokens_Add demo_lib fine ''mainnet'' demo_token (\<lambda>p. Missing))) =
     Inr (Some \<lparr>rt_Token = demo_token\<lparr>tk_Alias := ''my-coin'', tk_Kind := KindERC20\<rparr>, rt_Bundled = False\<rparr>)"
proof -
  let ?r = "Tokens_Add demo_lib fine ''mainnet'' demo_token (\<lambda>p. Missing)"
  have e: "canonicalName demo_lib '' MY-COIN '' = Inr ''my-coin''" "canonicalName demo_lib (tk_Alias demo_token) = Inr ''my-coin''"
    "stored_token demo_token ''my-coin'' = demo_token\<lparr>tk_Alias := ''my-coin'', tk_Kind := KindERC20\<rparr>" by code_simp+
  have "fst ?r = Inr ()" by code_simp
  hence "?r = (Inr (), snd ?r)" by (metis prod.collapse)
  from added_token_resolves [OF demo_json this] e show ?thesis by auto
qed

text \<open>Removing a collection leaves the aliases of its NFTs behind; a new collection of that name takes them over.\<close>

lemma nft_alias_retargeted:
  "let col = (\<lambda>a. \<lparr>cl_Alias = ''punks'', cl_Address = a, cl_Kind = KindERC721\<rparr>);
       d1 = reg_run demo_lib [(OpCollectionAdd ''mainnet'' (col ''0xa''), fine), (OpNFTAlias ''mainnet'' ''mine'' ''punks'' ''007'', fine)] (\<lambda>p. Missing);
       d2 = reg_run demo_lib [(OpCollectionRemove ''mainnet'' ''punks'', fine)] d1;
       d3 = reg_run demo_lib [(OpCollectionAdd ''mainnet'' (col ''0xb''), fine)] d2
   in map_sum id rn_Collection (ResolveNFT demo_lib ''mainnet'' ''mine'' d1) = Inr ''0xa'' \<and>
      ResolveNFT demo_lib ''mainnet'' ''mine'' d2 = Inl (New ''ref.not_found'') \<and>
      map_sum id rn_Collection (ResolveNFT demo_lib ''mainnet'' ''mine'' d3) = Inr ''0xb''"
  by code_simp

end
