(* ===== verification/Config_Secret.thy ===== *)
theory Config_Secret
  imports Domain_Errors
begin

text \<open>
  Secrets in endpoint configuration: references and their resolution (\<open>config/secretref.go\<close>), the masking of a URL for display and
  the detection of literal secrets when an endpoint is added (\<open>config/rpc.go\<close>).
\<close>

section \<open>References\<close>

text \<open>The environment of a resolution: variables, the home directory, path joining, the permission check and reading a file.\<close>

record secret_env =
  se_lookup :: "string \<Rightarrow> string option"
  se_home :: "string result"
  se_join :: "string \<Rightarrow> string \<Rightarrow> string"
  se_perms :: "string \<Rightarrow> unit result"
  se_read :: "string \<Rightarrow> string option"

definition stripOneTrailingNewline :: "string \<Rightarrow> string" where
  "stripOneTrailingNewline s = (if s \<noteq> [] \<and> last s = CHR 0x0A
     then (if butlast s \<noteq> [] \<and> last (butlast s) = CHR 0x0D then butlast (butlast s) else butlast s) else s)"

definition expandHome :: "secret_env \<Rightarrow> string \<Rightarrow> string result" where
  "expandHome se path = (if path = ''~'' \<or> HasPrefix path ''~/'' then
       (case se_home se of Inl err \<Rightarrow> Inl err
        | Inr home \<Rightarrow> if path = ''~'' then Inr home else Inr (se_join se home (drop 2 path)))
     else Inr path)"

definition resolveFileRef :: "secret_env \<Rightarrow> string \<Rightarrow> string result" where
  "resolveFileRef se path = (if path = [] then Inl (New ''secret.unresolved'')
     else (case expandHome se path of Inl err \<Rightarrow> Inl err
       | Inr expanded \<Rightarrow> (case se_perms se expanded of Inl err \<Rightarrow> Inl err
           | Inr _ \<Rightarrow> (case se_read se expanded of None \<Rightarrow> Inl (New ''secret.unresolved'')
               | Some data \<Rightarrow> Inr (stripOneTrailingNewline data)))))"

definition resolveOneRef :: "secret_env \<Rightarrow> string \<Rightarrow> string result" where
  "resolveOneRef se inner = (case cut_at CHR '':'' inner of None \<Rightarrow> Inl (New ''secret.unresolved'')
     | Some (scheme, arg) \<Rightarrow>
         if scheme = ''env'' then
           (if arg = [] then Inl (New ''secret.unresolved'')
            else (case se_lookup se arg of None \<Rightarrow> Inl (New ''secret.unresolved'')
              | Some v \<Rightarrow> if v = [] then Inl (New ''secret.unresolved'') else Inr v))
         else if scheme = ''file'' then resolveFileRef se arg
         else Inl (New ''secret.unresolved''))"

lemma cut_at_length: "cut_at c s = Some (a, b) \<Longrightarrow> length b < length s"
  by (induction s arbitrary: a) (auto split: if_splits)

function ResolveSecretRefs :: "secret_env \<Rightarrow> string \<Rightarrow> string result" where
  "ResolveSecretRefs se s = (if s = [] then Inr []
     else if HasPrefix s ''$${'' then map_sum id ((@) ''${'') (ResolveSecretRefs se (drop 3 s))
     else if HasPrefix s ''${'' then
       (case cut_at CHR ''}'' (drop 2 s) of None \<Rightarrow> Inl (New ''secret.unresolved'')
        | Some (inner, rest) \<Rightarrow> (case resolveOneRef se inner of Inl err \<Rightarrow> Inl err
            | Inr v \<Rightarrow> map_sum id ((@) v) (ResolveSecretRefs se rest)))
     else map_sum id ((#) (hd s)) (ResolveSecretRefs se (tl s)))"
  by pat_completeness auto
termination
  by (relation "measure (length \<circ> snd)") (auto dest!: cut_at_length simp: HasPrefix_def less_diff_conv)

declare ResolveSecretRefs.simps [simp del]

section \<open>Masking\<close>

definition looksLikeLiteralSecret :: "string \<Rightarrow> bool" where
  "looksLikeLiteralSecret seg =
    (if Contains seg ''${'' then False
     else if length seg < 24 then False
     else (let lower = (\<lambda>c. 97 \<le> (of_char c :: nat) \<and> (of_char c :: nat) \<le> 122); upper = (\<lambda>c. 65 \<le> (of_char c :: nat) \<and> (of_char c :: nat) \<le> 90);
               digits = length (filter is_digit seg); letters = length (filter (\<lambda>c. lower c \<or> upper c) seg); hasUpper = list_ex upper seg in
       if \<not> list_all (\<lambda>c. is_digit c \<or> lower c \<or> upper c \<or> c = CHR ''-'' \<or> c = CHR ''_'') seg then False
       else digits > 0 \<and> letters > 0 \<and> (hasUpper \<or> digits \<ge> 4)))"

definition masked_token :: "string \<Rightarrow> string" where
  "masked_token seg = (if looksLikeLiteralSecret seg then ''***'' else seg)"

definition url_delim :: "char \<Rightarrow> bool" where
  "url_delim c \<longleftrightarrow> c \<in> {CHR ''/'', CHR ''?'', CHR ''&'', CHR ''='', CHR ''#''}"

fun mask_segments :: "string \<Rightarrow> string \<Rightarrow> string" where
  "mask_segments seg [] = masked_token seg"
| "mask_segments seg (c # s) = (if url_delim c then masked_token seg @ c # mask_segments [] s else mask_segments (seg @ [c]) s)"

text \<open>The text up to and with the first \<open>://\<close>, and the rest.\<close>

fun after_scheme :: "string \<Rightarrow> (string \<times> string) option" where
  "after_scheme [] = None"
| "after_scheme (c # s) = (if HasPrefix (c # s) ''://'' then Some (''://'', drop 3 (c # s)) else map_option (\<lambda>(a, b). (c # a, b)) (after_scheme s))"

definition path_start :: "char \<Rightarrow> bool" where
  "path_start c \<longleftrightarrow> c \<in> {CHR ''/'', CHR ''?'', CHR ''#''}"

definition maskLiteralSegments :: "string \<Rightarrow> string" where
  "maskLiteralSegments s = (case after_scheme s of None \<Rightarrow> s
     | Some (scheme, rel) \<Rightarrow> if \<not> list_ex path_start rel then s
         else scheme @ takeWhile (\<lambda>c. \<not> path_start c) rel @ mask_segments [] (dropWhile (\<lambda>c. \<not> path_start c) rel))"

function keep_refs :: "string \<Rightarrow> string" where
  "keep_refs s = (if s = [] then []
     else if HasPrefix s ''$${'' then ''$${'' @ keep_refs (drop 3 s)
     else if HasPrefix s ''${'' then
       (case cut_at CHR ''}'' s of None \<Rightarrow> s | Some (a, rest) \<Rightarrow> a @ CHR ''}'' # keep_refs rest)
     else hd s # keep_refs (tl s))"
  by pat_completeness auto
termination
  by (relation "measure length") (auto dest!: cut_at_length simp: HasPrefix_def less_diff_conv)

declare keep_refs.simps [simp del]

definition MaskSecretRefs :: "string \<Rightarrow> string" where
  "MaskSecretRefs s = maskLiteralSegments (keep_refs s)"

section \<open>Detection\<close>

fun fields_on :: "(char \<Rightarrow> bool) \<Rightarrow> string \<Rightarrow> string \<Rightarrow> string list" where
  "fields_on P seg [] = (if seg = [] then [] else [seg])"
| "fields_on P seg (c # s) = (if P c then (if seg = [] then [] else [seg]) @ fields_on P [] s else fields_on P (seg @ [c]) s)"

definition urlHasLiteralSecret :: "string \<Rightarrow> bool" where
  "urlHasLiteralSecret url = (if Contains url ''${'' then False
     else (case after_scheme url of None \<Rightarrow> False
       | Some (_, rel) \<Rightarrow> if \<not> list_ex path_start rel then False
           else list_ex looksLikeLiteralSecret (fields_on url_delim [] (dropWhile (\<lambda>c. \<not> path_start c) rel))))"

definition headerHasLiteralSecret :: "string \<Rightarrow> string \<Rightarrow> bool" where
  "headerHasLiteralSecret name value = (if Contains value ''${'' then False
     else (let lower = ToLower name;
               isAuth = lower = ''authorization'' \<or> Contains lower ''api-key'' \<or> Contains lower ''token'' \<or> Contains lower ''secret'' in
       if \<not> isAuth then False
       else (let v0 = TrimSpace value; v = (case cut_at CHR '' '' v0 of None \<Rightarrow> v0 | Some (_, r) \<Rightarrow> TrimSpace r) in
         looksLikeLiteralSecret v \<or> length v \<ge> 12)))"

text \<open>The headers come in the order of their names.\<close>

definition detectLiteralSecret :: "string \<Rightarrow> (string \<times> string) list \<Rightarrow> string list" where
  "detectLiteralSecret url headers = (if urlHasLiteralSecret url then [''the URL''] else []) @
     map (\<lambda>(k, _). ''header '' @ k) (filter (\<lambda>(k, v). headerHasLiteralSecret k v) headers)"

text \<open>What masking and resolving leave alone.\<close>

lemma resolve_plain: "CHR ''$'' \<notin> set s \<Longrightarrow> ResolveSecretRefs se s = Inr s"
proof (induction s)
  case (Cons c s)
  have "\<not> HasPrefix (c # s) ''$${''" "\<not> HasPrefix (c # s) ''${''" using Cons.prems by (auto simp: HasPrefix_def)
  thus ?case using Cons by (simp add: ResolveSecretRefs.simps [of se "c # s"])
qed (simp add: ResolveSecretRefs.simps)

end
