(* ===== verification/Config_Table.thy ===== *)
theory Config_Table
  imports Config_Secret Registry_NFT Gas "HOL-Library.AList"
begin

text \<open>
  The configuration file as the network and endpoint commands see it: the TOML table with its nested keys and the locked
  rewrite (\<open>config/write.go\<close>), the networks and endpoints a file stands for (\<open>config/merge.go\<close>, \<open>load.go\<close>, \<open>builtins.go\<close>) and the commands
  (\<open>config/networks.go\<close>, \<open>rpc.go\<close>).  A table is an association list with distinct keys; a file is what the TOML reader makes of it.
\<close>

section \<open>Tables\<close>

datatype toml = TInt int | TFloat rat | TBool bool | TStr string | TArr "toml list" | TDate string | TTable "(string \<times> toml) list"

type_synonym table = "(string \<times> toml) list"

fun split_dots :: "string \<Rightarrow> string \<Rightarrow> string list" where
  "split_dots buf [] = [buf]"
| "split_dots buf (c # s) = (if c = CHR ''.'' then buf # split_dots [] s else split_dots (buf @ [c]) s)"

definition splitKey :: "string \<Rightarrow> string list" where
  "splitKey key = split_dots [] key"

definition subtable :: "toml option \<Rightarrow> table" where
  "subtable v = (case v of Some (TTable u) \<Rightarrow> u | _ \<Rightarrow> [])"

fun set_path :: "string list \<Rightarrow> toml \<Rightarrow> table \<Rightarrow> table" where
  "set_path [] v t = t"
| "set_path (k # ks) v t = (if ks = [] then AList.update k v t else AList.update k (TTable (set_path ks v (subtable (map_of t k)))) t)"

definition setNested :: "string \<Rightarrow> toml \<Rightarrow> table \<Rightarrow> table" where
  "setNested key v t = set_path (splitKey key) v t"

fun rawSubTable :: "string list \<Rightarrow> table \<Rightarrow> table option" where
  "rawSubTable [] t = Some t"
| "rawSubTable (k # ks) t = (case map_of t k of Some (TTable u) \<Rightarrow> rawSubTable ks u | _ \<Rightarrow> None)"

text \<open>Deleting a key and then the parents it leaves empty; \<open>None\<close> when the parent table does not exist.\<close>

fun delete_path :: "string list \<Rightarrow> table \<Rightarrow> table option" where
  "delete_path [] t = Some t"
| "delete_path (k # ks) t = (if ks = [] then Some (AList.delete k t)
     else (case map_of t k of
         Some (TTable u) \<Rightarrow> (case delete_path ks u of None \<Rightarrow> None
           | Some w \<Rightarrow> Some (if w = [] then AList.delete k t else AList.update k (TTable w) t))
       | _ \<Rightarrow> None))"

definition deleteNested :: "string \<Rightarrow> table \<Rightarrow> table" where
  "deleteNested key t = (case delete_path (splitKey key) t of None \<Rightarrow> t | Some u \<Rightarrow> u)"

section \<open>Networks and endpoints\<close>

record Network =
  nw_ChainID :: "64 word"
  nw_Confirmations :: "64 word"
  nw_DefaultRPC :: string
  nw_Legacy :: bool
  nw_NativeSymbol :: string
  nw_ENSRegistry :: string
  nw_Gas :: "GasDefaults option"

record TLSFiles =
  tl_Cert :: string
  tl_Key :: string
  tl_CA :: string

record Endpoint =
  ep_Network :: string
  ep_URLRef :: string
  ep_Headers :: "(string \<times> string) list"
  ep_TLS :: "TLSFiles option"
  ep_Timeout :: int

text \<open>Addresses are go-ethereum's; durations are Go's, in nanoseconds.\<close>

record config_lib =
  lb_addr :: addr_lib
  lb_durString :: "int \<Rightarrow> string"
  lb_parseDuration :: "string \<Rightarrow> int option"

definition SchemaVersion :: int where "SchemaVersion = 1"

definition ensRegistry :: string where
  "ensRegistry = ''0x00000000000C2E074eC69A0dFb2997BA6C7d2e1e''"

definition builtinNetworks :: "config_lib \<Rightarrow> (string \<times> Network) list" where
  "builtinNetworks lb =
    [(''mainnet'', \<lparr>nw_ChainID = 1, nw_Confirmations = 2, nw_DefaultRPC = ''mainnet-public'', nw_Legacy = False, nw_NativeSymbol = ''ETH'',
        nw_ENSRegistry = al_toAddr (lb_addr lb) ensRegistry, nw_Gas = None\<rparr>),
     (''sepolia'', \<lparr>nw_ChainID = 11155111, nw_Confirmations = 1, nw_DefaultRPC = ''sepolia-public'', nw_Legacy = False, nw_NativeSymbol = ''ETH'',
        nw_ENSRegistry = al_toAddr (lb_addr lb) ensRegistry, nw_Gas = None\<rparr>)]"

definition builtinRPC :: "(string \<times> Endpoint) list" where
  "builtinRPC =
    [(''mainnet-public'', \<lparr>ep_Network = ''mainnet'', ep_URLRef = ''https://ethereum-rpc.publicnode.com'', ep_Headers = [], ep_TLS = None, ep_Timeout = 0\<rparr>),
     (''sepolia-public'', \<lparr>ep_Network = ''sepolia'', ep_URLRef = ''https://ethereum-sepolia-rpc.publicnode.com'', ep_Headers = [], ep_TLS = None, ep_Timeout = 0\<rparr>)]"

definition builtinNetworkNames :: "string list" where
  "builtinNetworkNames = [''mainnet'', ''sepolia'']"

definition builtinEndpointNames :: "string list" where
  "builtinEndpointNames = [''mainnet-public'', ''sepolia-public'']"

section \<open>Reading the tables\<close>

abbreviation fieldErr :: Error where
  "fieldErr \<equiv> New ''config.invalid''"

definition toStr :: "toml \<Rightarrow> string result" where
  "toStr v = (case v of TStr s \<Rightarrow> Inr s | _ \<Rightarrow> Inl fieldErr)"

definition toInt :: "toml \<Rightarrow> int result" where
  "toInt v = (case v of TInt i \<Rightarrow> Inr i | _ \<Rightarrow> Inl fieldErr)"

definition toUint64 :: "toml \<Rightarrow> (64 word) result" where
  "toUint64 v = (case v of TInt i \<Rightarrow> if i < 0 then Inl fieldErr else Inr (word_of_int i) | _ \<Rightarrow> Inl fieldErr)"

definition toFloat :: "toml \<Rightarrow> rat result" where
  "toFloat v = (case v of TFloat f \<Rightarrow> Inr f | TInt i \<Rightarrow> Inr (of_int i) | _ \<Rightarrow> Inl fieldErr)"

fun fold_table :: "(string \<Rightarrow> toml \<Rightarrow> 'a \<Rightarrow> 'a result) \<Rightarrow> table \<Rightarrow> 'a \<Rightarrow> 'a result" where
  "fold_table f [] a = Inr a"
| "fold_table f ((k, v) # t) a = (case f k v a of Inl err \<Rightarrow> Inl err | Inr b \<Rightarrow> fold_table f t b)"

definition zero_gas :: GasDefaults where
  "zero_gas = \<lparr>gd_LimitMultiplier = 0, gd_FeeHistoryBlocks = 0, gd_Speed = [], gd_BaseFeeMultiplier = 0, gd_MinPriorityFee = [],
     gd_RBFBumpPercent = 0, gd_DriftTolerance = 0\<rparr>"

definition gas_field :: "string \<Rightarrow> toml \<Rightarrow> GasDefaults \<Rightarrow> GasDefaults result" where
  "gas_field k v g =
    (if k = ''limit-multiplier'' then map_sum id (\<lambda>x. g\<lparr>gd_LimitMultiplier := x\<rparr>) (toFloat v)
     else if k = ''fee-history-blocks'' then map_sum id (\<lambda>x. g\<lparr>gd_FeeHistoryBlocks := x\<rparr>) (toInt v)
     else if k = ''speed'' then map_sum id (\<lambda>x. g\<lparr>gd_Speed := x\<rparr>) (toStr v)
     else if k = ''base-fee-multiplier'' then map_sum id (\<lambda>x. g\<lparr>gd_BaseFeeMultiplier := x\<rparr>) (toFloat v)
     else if k = ''min-priority-fee'' then map_sum id (\<lambda>x. g\<lparr>gd_MinPriorityFee := x\<rparr>) (toStr v)
     else if k = ''rbf-bump-percent'' then map_sum id (\<lambda>x. g\<lparr>gd_RBFBumpPercent := x\<rparr>) (toFloat v)
     else if k = ''drift-tolerance'' then map_sum id (\<lambda>x. g\<lparr>gd_DriftTolerance := x\<rparr>) (toFloat v)
     else Inr g)"

definition network_field :: "config_lib \<Rightarrow> string \<Rightarrow> toml \<Rightarrow> Network \<Rightarrow> Network result" where
  "network_field lb k v n =
    (if k = ''chain-id'' then map_sum id (\<lambda>x. n\<lparr>nw_ChainID := x\<rparr>) (toUint64 v)
     else if k = ''confirmations'' then map_sum id (\<lambda>x. n\<lparr>nw_Confirmations := x\<rparr>) (toUint64 v)
     else if k = ''default-rpc'' then map_sum id (\<lambda>x. n\<lparr>nw_DefaultRPC := x\<rparr>) (toStr v)
     else if k = ''legacy'' then (case v of TBool b \<Rightarrow> Inr (n\<lparr>nw_Legacy := b\<rparr>) | _ \<Rightarrow> Inl fieldErr)
     else if k = ''native-symbol'' then map_sum id (\<lambda>x. n\<lparr>nw_NativeSymbol := x\<rparr>) (toStr v)
     else if k = ''ens-registry'' then (case toStr v of Inl err \<Rightarrow> Inl err
         | Inr s \<Rightarrow> if al_isHex (lb_addr lb) s then Inr (n\<lparr>nw_ENSRegistry := al_toAddr (lb_addr lb) s\<rparr>) else Inl fieldErr)
     else if k = ''gas'' then (case v of
         TTable t \<Rightarrow> map_sum id (\<lambda>g. n\<lparr>nw_Gas := Some g\<rparr>) (fold_table gas_field t (case nw_Gas n of Some g \<Rightarrow> g | None \<Rightarrow> zero_gas))
       | _ \<Rightarrow> Inl fieldErr)
     else Inr n)"

definition overlayNetwork :: "config_lib \<Rightarrow> table \<Rightarrow> Network \<Rightarrow> Network result" where
  "overlayNetwork lb t n = fold_table (network_field lb) t n"

definition header_field :: "string \<Rightarrow> toml \<Rightarrow> (string \<times> string) list \<Rightarrow> (string \<times> string) list result" where
  "header_field k v hs = map_sum id (\<lambda>s. AList.update k s hs) (toStr v)"

definition tls_field :: "string \<Rightarrow> toml \<Rightarrow> TLSFiles \<Rightarrow> TLSFiles result" where
  "tls_field k v t = (case toStr v of Inl err \<Rightarrow> Inl err
     | Inr s \<Rightarrow> Inr (if k = ''cert'' then t\<lparr>tl_Cert := s\<rparr> else if k = ''key'' then t\<lparr>tl_Key := s\<rparr> else if k = ''ca'' then t\<lparr>tl_CA := s\<rparr> else t))"

definition no_tls :: TLSFiles where
  "no_tls = \<lparr>tl_Cert = [], tl_Key = [], tl_CA = []\<rparr>"

definition endpoint_field :: "config_lib \<Rightarrow> string \<Rightarrow> toml \<Rightarrow> Endpoint \<Rightarrow> Endpoint result" where
  "endpoint_field lb k v e =
    (if k = ''network'' then map_sum id (\<lambda>x. e\<lparr>ep_Network := x\<rparr>) (toStr v)
     else if k = ''url'' then map_sum id (\<lambda>x. e\<lparr>ep_URLRef := x\<rparr>) (toStr v)
     else if k = ''timeout'' then (case toStr v of Inl err \<Rightarrow> Inl err
         | Inr s \<Rightarrow> (case lb_parseDuration lb s of None \<Rightarrow> Inl fieldErr | Some d \<Rightarrow> Inr (e\<lparr>ep_Timeout := d\<rparr>)))
     else if k = ''headers'' then (case v of
         TTable t \<Rightarrow> map_sum id (\<lambda>hs. e\<lparr>ep_Headers := hs\<rparr>) (fold_table header_field t (ep_Headers e)) | _ \<Rightarrow> Inl fieldErr)
     else if k = ''tls'' then (case v of
         TTable t \<Rightarrow> map_sum id (\<lambda>x. e\<lparr>ep_TLS := Some x\<rparr>) (fold_table tls_field t (case ep_TLS e of Some x \<Rightarrow> x | None \<Rightarrow> no_tls)) | _ \<Rightarrow> Inl fieldErr)
     else Inr e)"

definition overlayEndpoint :: "config_lib \<Rightarrow> table \<Rightarrow> Endpoint \<Rightarrow> Endpoint result" where
  "overlayEndpoint lb t e = fold_table (endpoint_field lb) t e"

definition blank_network :: "config_lib \<Rightarrow> Network" where
  "blank_network lb = \<lparr>nw_ChainID = 0, nw_Confirmations = 0, nw_DefaultRPC = [], nw_Legacy = False, nw_NativeSymbol = [],
     nw_ENSRegistry = al_zero (lb_addr lb), nw_Gas = None\<rparr>"

definition zero_endpoint :: Endpoint where
  "zero_endpoint = \<lparr>ep_Network = [], ep_URLRef = [], ep_Headers = [], ep_TLS = None, ep_Timeout = 0\<rparr>"

record config_view =
  cv_Networks :: "(string \<times> Network) list"
  cv_RPC :: "(string \<times> Endpoint) list"

definition network_entry :: "config_lib \<Rightarrow> string \<Rightarrow> toml \<Rightarrow> (string \<times> Network) list \<Rightarrow> (string \<times> Network) list result" where
  "network_entry lb name v ns = (case v of
       TTable t \<Rightarrow> map_sum id (\<lambda>n. AList.update name n ns) (overlayNetwork lb t (case map_of ns name of Some n \<Rightarrow> n | None \<Rightarrow> blank_network lb))
     | _ \<Rightarrow> Inl fieldErr)"

definition endpoint_entry :: "config_lib \<Rightarrow> string \<Rightarrow> toml \<Rightarrow> (string \<times> Endpoint) list \<Rightarrow> (string \<times> Endpoint) list result" where
  "endpoint_entry lb name v es = (case v of
       TTable t \<Rightarrow> map_sum id (\<lambda>e. AList.update name e es) (overlayEndpoint lb t (case map_of es name of Some e \<Rightarrow> e | None \<Rightarrow> zero_endpoint))
     | _ \<Rightarrow> Inl fieldErr)"

definition mergeNetworksAndRPC :: "config_lib \<Rightarrow> table \<Rightarrow> config_view result" where
  "mergeNetworksAndRPC lb raw =
    (case (case map_of raw ''networks'' of Some (TTable t) \<Rightarrow> fold_table (network_entry lb) t (builtinNetworks lb) | _ \<Rightarrow> Inr (builtinNetworks lb)) of
       Inl err \<Rightarrow> Inl err
     | Inr ns \<Rightarrow> (case (case map_of raw ''rpc'' of Some (TTable t) \<Rightarrow> fold_table (endpoint_entry lb) t builtinRPC | _ \<Rightarrow> Inr builtinRPC) of
         Inl err \<Rightarrow> Inl err | Inr es \<Rightarrow> Inr \<lparr>cv_Networks = ns, cv_RPC = es\<rparr>))"

definition checkSchema :: "table \<Rightarrow> unit result" where
  "checkSchema raw = (case map_of raw ''schema'' of None \<Rightarrow> Inr ()
     | Some v \<Rightarrow> (case toInt v of Inl _ \<Rightarrow> Inl (New ''config.invalid'')
         | Inr n \<Rightarrow> if n > SchemaVersion then Inl (New ''config.schema_unsupported'') else Inr ()))"

text \<open>The schema check and the network and endpoint tables of \<open>Load\<close>, on a file that need not exist; the scalar settings, which
  viper reads between the two, are left out, and so is the other error of a missing file that the user named with a flag.\<close>

definition load_view :: "config_lib \<Rightarrow> table stored \<Rightarrow> config_view result" where
  "load_view lb file = (case file of
       Missing \<Rightarrow> mergeNetworksAndRPC lb []
     | Content raw \<Rightarrow> (case checkSchema raw of Inl err \<Rightarrow> Inl err | Inr _ \<Rightarrow> mergeNetworksAndRPC lb raw)
     | _ \<Rightarrow> Inl (New ''config.invalid''))"

end
