(* ===== verification/Config_Commands.thy ===== *)
theory Config_Commands
  imports Config_Table
begin

text \<open>
  The commands on networks and endpoints: the locked rewrite of the file (\<open>config/write.go\<close>), the mutators and views of
  \<open>config/networks.go\<close> and \<open>config/rpc.go\<close>, and the use cases over them (\<open>service/network.go\<close>, \<open>service/rpc.go\<close>).
\<close>

section \<open>The locked rewrite\<close>

datatype cfg_lock = CfgLockOK | CfgMkdirReadOnly | CfgMkdirError | CfgLockReadOnly | CfgLockError

text \<open>A failing write may have replaced the file, when only the directory sync failed.\<close>

datatype cfg_write = CfgWriteOK | CfgWriteReadOnly bool | CfgWriteError bool

record cfg_env =
  ce_lock :: cfg_lock
  ce_noAccess :: bool
  ce_write :: cfg_write

definition loadRawForWrite :: "cfg_env \<Rightarrow> table stored \<Rightarrow> table result" where
  "loadRawForWrite env file = (case file of Missing \<Rightarrow> Inr []
     | Unreadable \<Rightarrow> if ce_noAccess env then Inl (New ''config.read_only'') else Inl (New ''config.invalid'')
     | Corrupt \<Rightarrow> Inl (New ''config.invalid'')
     | Content t \<Rightarrow> Inr t)"

definition with_schema :: "table \<Rightarrow> table" where
  "with_schema t = (if map_of t ''schema'' = None then AList.update ''schema'' (TInt SchemaVersion) t else t)"

text \<open>The file is kept as the table that is marshalled into it; TOML text that reads back as the same table is what the library promises
  for strings that are valid UTF-8.\<close>

definition mutateRaw :: "cfg_env \<Rightarrow> (table \<Rightarrow> table result) \<Rightarrow> table stored \<Rightarrow> unit result \<times> table stored" where
  "mutateRaw env apply_fn file = (case ce_lock env of
       CfgMkdirReadOnly \<Rightarrow> (Inl (New ''config.read_only''), file)
     | CfgMkdirError \<Rightarrow> (Inl (New ''config.invalid''), file)
     | CfgLockReadOnly \<Rightarrow> (Inl (New ''config.read_only''), file)
     | CfgLockError \<Rightarrow> (Inl (New ''state.lock_timeout''), file)
     | CfgLockOK \<Rightarrow> (case loadRawForWrite env file of Inl err \<Rightarrow> (Inl err, file)
         | Inr raw \<Rightarrow> (case apply_fn (with_schema raw) of Inl err \<Rightarrow> (Inl err, file)
             | Inr t \<Rightarrow> (case ce_write env of
                 CfgWriteOK \<Rightarrow> (Inr (), Content t)
               | CfgWriteReadOnly landed \<Rightarrow> (Inl (New ''config.read_only''), if landed then Content t else file)
               | CfgWriteError landed \<Rightarrow> (Inl (New ''config.invalid''), if landed then Content t else file)))))"

section \<open>Networks\<close>

definition networkExistsRaw :: "table \<Rightarrow> string \<Rightarrow> bool" where
  "networkExistsRaw raw name \<longleftrightarrow> rawSubTable [''networks'', name] raw \<noteq> None"

definition endpointExistsRaw :: "table \<Rightarrow> string \<Rightarrow> bool" where
  "endpointExistsRaw raw name \<longleftrightarrow> rawSubTable [''rpc'', name] raw \<noteq> None"

text \<open>The table writes of \<open>AddNetwork\<close>; the conversion of the chain id to \<open>int64\<close> keeps its bits.\<close>

definition write_network :: "string \<Rightarrow> Network \<Rightarrow> string \<Rightarrow> table \<Rightarrow> table" where
  "write_network name n rpcURL raw =
    (let base = ''networks.'' @ name @ ''.'';
         r1 = setNested (base @ ''chain-id'') (TInt (sint (nw_ChainID n))) raw;
         r2 = (if nw_Confirmations n \<noteq> 0 then setNested (base @ ''confirmations'') (TInt (sint (nw_Confirmations n))) r1 else r1);
         r3 = (if nw_NativeSymbol n \<noteq> [] then setNested (base @ ''native-symbol'') (TStr (nw_NativeSymbol n)) r2 else r2);
         r4 = (if nw_Legacy n then setNested (base @ ''legacy'') (TBool True) r3 else r3);
         ep = ''rpc.'' @ name @ ''-default.''
     in if rpcURL \<noteq> [] then
          setNested (base @ ''default-rpc'') (TStr (name @ ''-default''))
            (setNested (ep @ ''url'') (TStr rpcURL) (setNested (ep @ ''network'') (TStr name) r4))
        else r4)"

definition AddNetwork :: "cfg_env \<Rightarrow> string \<Rightarrow> Network \<Rightarrow> string \<Rightarrow> table stored \<Rightarrow> unit result \<times> table stored" where
  "AddNetwork env name n rpcURL file =
    (if \<not> validObjectName name then (Inl (New ''usage.bad_name''), file)
     else if nw_ChainID n = 0 then (Inl (New ''usage.bad_value''), file)
     else mutateRaw env (\<lambda>raw. if networkExistsRaw raw name \<or> name \<in> set builtinNetworkNames then Inl (New ''usage.network_exists'')
            else Inr (write_network name n rpcURL raw)) file)"

definition UseNetwork :: "cfg_env \<Rightarrow> string \<Rightarrow> string list \<Rightarrow> table stored \<Rightarrow> unit result \<times> table stored" where
  "UseNetwork env name known file =
    (if name \<notin> set known then (Inl (New ''ref.not_found''), file)
     else mutateRaw env (\<lambda>raw. Inr (setNested ''defaults.network'' (TStr name) raw)) file)"

definition drop_default_network :: "string \<Rightarrow> table \<Rightarrow> table" where
  "drop_default_network name raw = (case rawSubTable [''defaults''] raw of None \<Rightarrow> raw
     | Some defs \<Rightarrow> if (case map_of defs ''network'' of Some (TStr s) \<Rightarrow> s | _ \<Rightarrow> []) = name then deleteNested ''defaults.network'' raw else raw)"

definition RemoveNetwork :: "cfg_env \<Rightarrow> string \<Rightarrow> bool \<Rightarrow> string list \<Rightarrow> table stored \<Rightarrow> unit result \<times> table stored" where
  "RemoveNetwork env name force referencing file =
    (if name \<in> set builtinNetworkNames then (Inl (New ''usage.builtin_immutable''), file)
     else mutateRaw env (\<lambda>raw.
       if \<not> networkExistsRaw raw name then Inl (New ''ref.not_found'')
       else if referencing \<noteq> [] \<and> \<not> force then Inl (New ''usage.network_in_use'')
       else Inr (drop_default_network name (deleteNested (''networks.'' @ name) raw))) file)"

section \<open>Endpoints\<close>

definition write_headers :: "string \<Rightarrow> (string \<times> string) list \<Rightarrow> table \<Rightarrow> table" where
  "write_headers base hs raw = fold (\<lambda>(hk, hv). setNested (base @ ''headers.'' @ hk) (TStr hv)) hs raw"

definition write_tls :: "string \<Rightarrow> TLSFiles option \<Rightarrow> table \<Rightarrow> table" where
  "write_tls base tls raw = (case tls of None \<Rightarrow> raw
     | Some x \<Rightarrow>
        (let r1 = (if tl_Cert x \<noteq> [] then setNested (base @ ''tls.cert'') (TStr (tl_Cert x)) raw else raw);
             r2 = (if tl_Key x \<noteq> [] then setNested (base @ ''tls.key'') (TStr (tl_Key x)) r1 else r1)
         in if tl_CA x \<noteq> [] then setNested (base @ ''tls.ca'') (TStr (tl_CA x)) r2 else r2))"

definition write_endpoint :: "config_lib \<Rightarrow> string \<Rightarrow> Endpoint \<Rightarrow> table \<Rightarrow> table" where
  "write_endpoint lb name e raw =
    (let base = ''rpc.'' @ name @ ''.'';
         r1 = setNested (base @ ''network'') (TStr (ep_Network e)) raw;
         r2 = setNested (base @ ''url'') (TStr (ep_URLRef e)) r1;
         r3 = (if ep_Timeout e \<noteq> 0 then setNested (base @ ''timeout'') (TStr (lb_durString lb (ep_Timeout e))) r2 else r2)
     in write_tls base (ep_TLS e) (write_headers base (ep_Headers e) r3))"

text \<open>A warning is modelled by the location it names; its wording is left out.\<close>

definition AddEndpoint :: "config_lib \<Rightarrow> cfg_env \<Rightarrow> string \<Rightarrow> Endpoint \<Rightarrow> string list \<Rightarrow> bool \<Rightarrow> table stored \<Rightarrow> string list result \<times> table stored" where
  "AddEndpoint lb env name e knownNets strictSecrets file =
    (if \<not> validObjectName name then (Inl (New ''usage.bad_name''), file)
     else if ep_Network e = [] then (Inl (New ''usage.bad_value''), file)
     else if ep_Network e \<notin> set knownNets then (Inl (New ''ref.not_found''), file)
     else if ep_URLRef e = [] then (Inl (New ''usage.bad_value''), file)
     else (let hits = detectLiteralSecret (ep_URLRef e) (sort_key fst (ep_Headers e)) in
       if hits \<noteq> [] \<and> strictSecrets then (Inl (New ''usage.literal_secret''), file)
       else (case mutateRaw env (\<lambda>raw. if endpointExistsRaw raw name \<or> name \<in> set builtinEndpointNames then Inl (New ''usage.rpc_exists'')
                else Inr (write_endpoint lb name e raw)) file of
           (Inl err, g) \<Rightarrow> (Inl err, g) | (Inr _, g) \<Rightarrow> (Inr hits, g))))"

definition UseEndpoint :: "cfg_env \<Rightarrow> string \<Rightarrow> string \<Rightarrow> table stored \<Rightarrow> unit result \<times> table stored" where
  "UseEndpoint env name epNetwork file =
    mutateRaw env (\<lambda>raw. Inr (setNested (''networks.'' @ epNetwork @ ''.default-rpc'') (TStr name) raw)) file"

text \<open>Every network whose default is the old name gets the new one, or none for an empty new name.\<close>

definition default_of :: "table \<Rightarrow> string" where
  "default_of t = (case map_of t ''default-rpc'' of Some (TStr s) \<Rightarrow> s | _ \<Rightarrow> [])"

definition repoint_entry :: "string \<Rightarrow> string \<Rightarrow> toml \<Rightarrow> toml" where
  "repoint_entry oldName newName v = (case v of
       TTable t \<Rightarrow> if default_of t = oldName
         then TTable (if newName = [] then AList.delete ''default-rpc'' t else AList.update ''default-rpc'' (TStr newName) t) else v
     | _ \<Rightarrow> v)"

definition cleared_names :: "string \<Rightarrow> table \<Rightarrow> string list" where
  "cleared_names oldName nets = map fst (filter (\<lambda>(_, v). case v of TTable t \<Rightarrow> default_of t = oldName | _ \<Rightarrow> False) nets)"

text \<open>The result names one of the networks whose default was cleared, the last one of the iteration.\<close>

definition repointDefaultRPC :: "string \<Rightarrow> string \<Rightarrow> table \<Rightarrow> table \<times> string" where
  "repointDefaultRPC oldName newName raw = (case rawSubTable [''networks''] raw of None \<Rightarrow> (raw, [])
     | Some nets \<Rightarrow> (AList.update ''networks'' (TTable (map (\<lambda>(k, v). (k, repoint_entry oldName newName v)) nets)) raw,
         if newName = [] \<and> cleared_names oldName nets \<noteq> [] then last (cleared_names oldName nets) else []))"

definition rename_endpoint :: "string \<Rightarrow> string \<Rightarrow> table \<Rightarrow> table result" where
  "rename_endpoint oldName newName raw = (case rawSubTable [''rpc'', oldName] raw of None \<Rightarrow> Inl (New ''ref.not_found'')
     | Some src \<Rightarrow>
         if endpointExistsRaw raw newName \<or> newName \<in> set builtinEndpointNames then Inl (New ''usage.rpc_exists'')
         else (case rawSubTable [''rpc''] raw of None \<Rightarrow> Inl (New ''ref.not_found'')
           | Some rpcTbl \<Rightarrow> Inr (fst (repointDefaultRPC oldName newName
               (AList.update ''rpc'' (TTable (AList.delete oldName (AList.update newName (TTable src) rpcTbl))) raw)))))"

definition RenameEndpoint :: "cfg_env \<Rightarrow> string \<Rightarrow> string \<Rightarrow> table stored \<Rightarrow> unit result \<times> table stored" where
  "RenameEndpoint env oldName newName file =
    (if oldName \<in> set builtinEndpointNames then (Inl (New ''usage.builtin_immutable''), file)
     else if \<not> validObjectName newName then (Inl (New ''usage.bad_name''), file)
     else mutateRaw env (rename_endpoint oldName newName) file)"

text \<open>The name of the network left without a default is read off the table the command changed.\<close>

definition remove_endpoint :: "string \<Rightarrow> table \<Rightarrow> table result" where
  "remove_endpoint name raw = (if \<not> endpointExistsRaw raw name then Inl (New ''ref.not_found'')
     else Inr (fst (repointDefaultRPC name [] (deleteNested (''rpc.'' @ name) raw))))"

definition cleared_for :: "cfg_env \<Rightarrow> string \<Rightarrow> table stored \<Rightarrow> string" where
  "cleared_for env name file = (case loadRawForWrite env file of Inl _ \<Rightarrow> []
     | Inr raw \<Rightarrow> snd (repointDefaultRPC name [] (deleteNested (''rpc.'' @ name) (with_schema raw))))"

definition RemoveEndpoint :: "cfg_env \<Rightarrow> string \<Rightarrow> table stored \<Rightarrow> string result \<times> table stored" where
  "RemoveEndpoint env name file =
    (if name \<in> set builtinEndpointNames then (Inl (New ''usage.builtin_immutable''), file)
     else (case mutateRaw env (remove_endpoint name) file of
         (Inl err, g) \<Rightarrow> (Inl err, g) | (Inr _, g) \<Rightarrow> (Inr (cleared_for env name file), g)))"

section \<open>Views\<close>

record NetworkView =
  nv_Name :: string
  nv_ChainID :: "64 word"
  nv_Confirmations :: "64 word"
  nv_DefaultRPC :: string
  nv_Legacy :: bool
  nv_NativeSymbol :: string
  nv_ENSRegistry :: string
  nv_Builtin :: bool
  nv_Default :: bool

record EndpointView =
  ev_Name :: string
  ev_Network :: string
  ev_URL :: string
  ev_HasHeaders :: bool
  ev_HasTLS :: bool
  ev_Default :: bool
  ev_PublicDefault :: bool

definition networkView :: "config_lib \<Rightarrow> string \<Rightarrow> string \<Rightarrow> Network \<Rightarrow> NetworkView" where
  "networkView lb dflt name n = \<lparr>nv_Name = name, nv_ChainID = nw_ChainID n, nv_Confirmations = nw_Confirmations n, nv_DefaultRPC = nw_DefaultRPC n,
     nv_Legacy = nw_Legacy n, nv_NativeSymbol = nw_NativeSymbol n,
     nv_ENSRegistry = (if nw_ENSRegistry n \<noteq> al_zero (lb_addr lb) then nw_ENSRegistry n else []),
     nv_Builtin = (name \<in> set builtinNetworkNames), nv_Default = (name = dflt)\<rparr>"

definition ListNetworks :: "config_lib \<Rightarrow> string \<Rightarrow> config_view \<Rightarrow> NetworkView list" where
  "ListNetworks lb dflt c = sort_key nv_Name (map (\<lambda>(name, n). networkView lb dflt name n) (cv_Networks c))"

definition ShowNetwork :: "config_lib \<Rightarrow> string \<Rightarrow> config_view \<Rightarrow> string \<Rightarrow> NetworkView result" where
  "ShowNetwork lb dflt c name = (case map_of (cv_Networks c) name of None \<Rightarrow> Inl (New ''ref.not_found'') | Some n \<Rightarrow> Inr (networkView lb dflt name n))"

definition hasTLS :: "Endpoint \<Rightarrow> bool" where
  "hasTLS e = (case ep_TLS e of None \<Rightarrow> False | Some t \<Rightarrow> tl_Cert t \<noteq> [] \<or> tl_Key t \<noteq> [] \<or> tl_CA t \<noteq> [])"

definition endpointView :: "config_view \<Rightarrow> string \<Rightarrow> Endpoint \<Rightarrow> EndpointView" where
  "endpointView c name e = \<lparr>ev_Name = name, ev_Network = ep_Network e, ev_URL = MaskSecretRefs (ep_URLRef e), ev_HasHeaders = (ep_Headers e \<noteq> []),
     ev_HasTLS = hasTLS e, ev_Default = (case map_of (cv_Networks c) (ep_Network e) of Some n \<Rightarrow> nw_DefaultRPC n = name | None \<Rightarrow> False),
     ev_PublicDefault = (name \<in> set builtinEndpointNames)\<rparr>"

definition ListEndpoints :: "config_view \<Rightarrow> string \<Rightarrow> EndpointView list" where
  "ListEndpoints c network = sort_key ev_Name (map (\<lambda>(name, e). endpointView c name e)
     (filter (\<lambda>(_, e). network = [] \<or> ep_Network e = network) (cv_RPC c)))"

definition ShowEndpoint :: "config_view \<Rightarrow> string \<Rightarrow> EndpointView result" where
  "ShowEndpoint c name = (case map_of (cv_RPC c) name of None \<Rightarrow> Inl (New ''ref.not_found'') | Some e \<Rightarrow> Inr (endpointView c name e))"

definition EndpointsReferencing :: "config_view \<Rightarrow> string \<Rightarrow> string list" where
  "EndpointsReferencing c network = sort (map fst (filter (\<lambda>(_, e). ep_Network e = network) (cv_RPC c)))"

section \<open>Use cases\<close>

text \<open>\<open>snap\<close> is the configuration the process loaded when it started; the answer of the verification of an endpoint (a dial that
  compares chain ids) is an argument.\<close>

definition knownNetworks :: "config_view \<Rightarrow> string list" where
  "knownNetworks snap = map fst (cv_Networks snap)"

definition NetworkAdd :: "cfg_env \<Rightarrow> string \<Rightarrow> 64 word \<Rightarrow> bool \<Rightarrow> string \<Rightarrow> string \<Rightarrow> config_lib \<Rightarrow> table stored \<Rightarrow> unit result \<times> table stored" where
  "NetworkAdd env name chainID legacy symbol rpcURL lb file =
    AddNetwork env name ((blank_network lb)\<lparr>nw_ChainID := chainID, nw_Legacy := legacy, nw_NativeSymbol := symbol\<rparr>) rpcURL file"

definition NetworkRemove :: "config_view \<Rightarrow> cfg_env \<Rightarrow> string \<Rightarrow> bool \<Rightarrow> table stored \<Rightarrow> unit result \<times> table stored" where
  "NetworkRemove snap env name force file = RemoveNetwork env name force (EndpointsReferencing snap name) file"

definition NetworkUse :: "config_view \<Rightarrow> cfg_env \<Rightarrow> string \<Rightarrow> table stored \<Rightarrow> unit result \<times> table stored" where
  "NetworkUse snap env name file = UseNetwork env name (knownNetworks snap) file"

definition RPCAdd :: "config_lib \<Rightarrow> config_view \<Rightarrow> cfg_env \<Rightarrow> Error option \<Rightarrow> string \<Rightarrow> Endpoint \<Rightarrow> bool \<Rightarrow> table stored \<Rightarrow> string list result \<times> table stored" where
  "RPCAdd lb snap env verify name e strictSecrets file = (case AddEndpoint lb env name e (knownNetworks snap) strictSecrets file of
       (Inl err, g) \<Rightarrow> (Inl err, g)
     | (Inr warnings, g) \<Rightarrow> (case verify of None \<Rightarrow> (Inr warnings, g)
         | Some verr \<Rightarrow> if Code verr = ''rpc.chain_id_mismatch'' then (Inl verr, g) else (Inr (warnings @ [''could not verify endpoint '' @ name]), g)))"

definition RPCUse :: "config_view \<Rightarrow> cfg_env \<Rightarrow> string \<Rightarrow> table stored \<Rightarrow> unit result \<times> table stored" where
  "RPCUse snap env name file = (case map_of (cv_RPC snap) name of None \<Rightarrow> (Inl (New ''ref.not_found''), file)
     | Some ep \<Rightarrow> UseEndpoint env name (ep_Network ep) file)"

definition RPCRename :: "cfg_env \<Rightarrow> string \<Rightarrow> string \<Rightarrow> table stored \<Rightarrow> unit result \<times> table stored" where
  "RPCRename env oldName newName file = RenameEndpoint env oldName newName file"

definition RPCRemove :: "cfg_env \<Rightarrow> string \<Rightarrow> table stored \<Rightarrow> string result \<times> table stored" where
  "RPCRemove env name file = RemoveEndpoint env name file"

section \<open>The commands as data\<close>

datatype cfg_op =
    CNetworkAdd string Network string
  | CNetworkUse string "string list"
  | CNetworkRemove string bool "string list"
  | CEndpointAdd string Endpoint "string list" bool
  | CEndpointUse string string
  | CEndpointRename string string
  | CEndpointRemove string

fun cfg_exec :: "config_lib \<Rightarrow> cfg_op \<Rightarrow> cfg_env \<Rightarrow> table stored \<Rightarrow> table stored" where
  "cfg_exec lb (CNetworkAdd name n url) env file = snd (AddNetwork env name n url file)"
| "cfg_exec lb (CNetworkUse name known) env file = snd (UseNetwork env name known file)"
| "cfg_exec lb (CNetworkRemove name force refs) env file = snd (RemoveNetwork env name force refs file)"
| "cfg_exec lb (CEndpointAdd name e nets strict) env file = snd (AddEndpoint lb env name e nets strict file)"
| "cfg_exec lb (CEndpointUse name net) env file = snd (UseEndpoint env name net file)"
| "cfg_exec lb (CEndpointRename a b) env file = snd (RenameEndpoint env a b file)"
| "cfg_exec lb (CEndpointRemove name) env file = snd (RemoveEndpoint env name file)"

fun cfg_run :: "config_lib \<Rightarrow> (cfg_op \<times> cfg_env) list \<Rightarrow> table stored \<Rightarrow> table stored" where
  "cfg_run lb [] file = file"
| "cfg_run lb ((x, env) # xs) file = cfg_run lb xs (cfg_exec lb x env file)"

end
