(* ===== verification/Config_Claims.thy ===== *)
theory Config_Claims
  imports Config_Commands
begin

text \<open>
  The properties of the configuration commands: which files load, which commands keep them loading, which do not, and what a new
  network takes over from an endpoint that has the name of its default.
\<close>

section \<open>Which tables load\<close>

text \<open>A field is fit whatever was read before it.\<close>

definition is_str :: "toml \<Rightarrow> bool" where
  "is_str v \<longleftrightarrow> (case v of TStr _ \<Rightarrow> True | _ \<Rightarrow> False)"

definition is_uint :: "toml \<Rightarrow> bool" where
  "is_uint v \<longleftrightarrow> (case v of TInt i \<Rightarrow> 0 \<le> i | _ \<Rightarrow> False)"

definition is_num :: "toml \<Rightarrow> bool" where
  "is_num v \<longleftrightarrow> (case v of TInt _ \<Rightarrow> True | TFloat _ \<Rightarrow> True | _ \<Rightarrow> False)"

definition gas_fit :: "string \<Rightarrow> toml \<Rightarrow> bool" where
  "gas_fit k v \<longleftrightarrow> (k \<in> {''limit-multiplier'', ''base-fee-multiplier'', ''rbf-bump-percent'', ''drift-tolerance''} \<longrightarrow> is_num v) \<and>
     (k = ''fee-history-blocks'' \<longrightarrow> (\<exists>i. v = TInt i)) \<and> (k \<in> {''speed'', ''min-priority-fee''} \<longrightarrow> is_str v)"

definition network_fit :: "config_lib \<Rightarrow> string \<Rightarrow> toml \<Rightarrow> bool" where
  "network_fit lb k v \<longleftrightarrow> (k \<in> {''chain-id'', ''confirmations''} \<longrightarrow> is_uint v) \<and> (k \<in> {''default-rpc'', ''native-symbol''} \<longrightarrow> is_str v) \<and>
     (k = ''legacy'' \<longrightarrow> (\<exists>b. v = TBool b)) \<and> (k = ''ens-registry'' \<longrightarrow> (\<exists>s. v = TStr s \<and> al_isHex (lb_addr lb) s)) \<and>
     (k = ''gas'' \<longrightarrow> (\<exists>t. v = TTable t \<and> (\<forall>(j, w) \<in> set t. gas_fit j w)))"

definition endpoint_fit :: "config_lib \<Rightarrow> string \<Rightarrow> toml \<Rightarrow> bool" where
  "endpoint_fit lb k v \<longleftrightarrow> (k \<in> {''network'', ''url''} \<longrightarrow> is_str v) \<and>
     (k = ''timeout'' \<longrightarrow> (\<exists>s d. v = TStr s \<and> lb_parseDuration lb s = Some d)) \<and>
     (k \<in> {''headers'', ''tls''} \<longrightarrow> (\<exists>t. v = TTable t \<and> (\<forall>(j, w) \<in> set t. is_str w)))"

definition succeeds :: "'a result \<Rightarrow> bool" where
  "succeeds r \<longleftrightarrow> (\<exists>a. r = Inr a)"

lemma succeeds_simps [simp]: "succeeds (Inr a)" "\<not> succeeds (Inl e)" "succeeds (map_sum id f r) = succeeds r"
  by (auto simp: succeeds_def) (cases r; simp)+

text \<open>The fields of one table do not depend on each other.\<close>

lemma fold_table_succeeds:
  assumes "\<And>k v a. succeeds (f k v a) \<longleftrightarrow> P k v"
  shows "succeeds (fold_table f t a) \<longleftrightarrow> (\<forall>(k, v) \<in> set t. P k v)"
proof (induction t arbitrary: a)
  case (Cons x t)
  obtain k v where x: "x = (k, v)" by fastforce
  have "succeeds (f k v a) \<longleftrightarrow> P k v" by (rule assms)
  thus ?case using Cons.IH by (cases "f k v a") (auto simp: x)
qed simp

lemma gas_field_succeeds: "succeeds (gas_field k v g) \<longleftrightarrow> gas_fit k v"
  by (cases v) (auto simp: gas_field_def gas_fit_def toFloat_def toInt_def toStr_def is_num_def is_str_def)

lemma network_field_succeeds: "succeeds (network_field lb k v n) \<longleftrightarrow> network_fit lb k v"
  by (cases v) (auto simp: network_field_def network_fit_def toUint64_def toStr_def is_uint_def is_str_def
    fold_table_succeeds [where P = gas_fit, OF gas_field_succeeds])

lemma header_field_succeeds: "succeeds (header_field k v hs) \<longleftrightarrow> is_str v"
  by (cases v) (auto simp: header_field_def toStr_def is_str_def)

lemma tls_field_succeeds: "succeeds (tls_field k v x) \<longleftrightarrow> is_str v"
  by (cases v) (auto simp: tls_field_def toStr_def is_str_def)

lemma endpoint_field_succeeds: "succeeds (endpoint_field lb k v e) \<longleftrightarrow> endpoint_fit lb k v"
  by (cases v) (auto simp: endpoint_field_def endpoint_fit_def toStr_def is_str_def split: option.splits
    simp: fold_table_succeeds [where P = "\<lambda>_. is_str", OF header_field_succeeds] fold_table_succeeds [where P = "\<lambda>_. is_str", OF tls_field_succeeds])

definition network_table :: "config_lib \<Rightarrow> toml \<Rightarrow> bool" where
  "network_table lb v \<longleftrightarrow> (\<exists>t. v = TTable t \<and> (\<forall>(k, w) \<in> set t. network_fit lb k w))"

definition endpoint_table :: "config_lib \<Rightarrow> toml \<Rightarrow> bool" where
  "endpoint_table lb v \<longleftrightarrow> (\<exists>t. v = TTable t \<and> (\<forall>(k, w) \<in> set t. endpoint_fit lb k w))"

lemma network_entry_succeeds: "succeeds (network_entry lb name v ns) \<longleftrightarrow> network_table lb v"
  by (cases v) (auto simp: network_entry_def network_table_def overlayNetwork_def
    fold_table_succeeds [where P = "network_fit lb", OF network_field_succeeds])

lemma endpoint_entry_succeeds: "succeeds (endpoint_entry lb name v es) \<longleftrightarrow> endpoint_table lb v"
  by (cases v) (auto simp: endpoint_entry_def endpoint_table_def overlayEndpoint_def
    fold_table_succeeds [where P = "endpoint_fit lb", OF endpoint_field_succeeds])

definition config_fit :: "config_lib \<Rightarrow> table \<Rightarrow> bool" where
  "config_fit lb raw \<longleftrightarrow>
     (\<forall>v. map_of raw ''schema'' = Some v \<longrightarrow> (\<exists>n. v = TInt n \<and> n \<le> SchemaVersion)) \<and>
     (\<forall>t. map_of raw ''networks'' = Some (TTable t) \<longrightarrow> (\<forall>(k, v) \<in> set t. network_table lb v)) \<and>
     (\<forall>t. map_of raw ''rpc'' = Some (TTable t) \<longrightarrow> (\<forall>(k, v) \<in> set t. endpoint_table lb v))"

lemma merge_succeeds:
  "succeeds (mergeNetworksAndRPC lb raw) \<longleftrightarrow>
     (\<forall>t. map_of raw ''networks'' = Some (TTable t) \<longrightarrow> (\<forall>(k, v) \<in> set t. network_table lb v)) \<and>
     (\<forall>t. map_of raw ''rpc'' = Some (TTable t) \<longrightarrow> (\<forall>(k, v) \<in> set t. endpoint_table lb v))"
proof -
  define N where "N = (case map_of raw ''networks'' of Some (TTable t) \<Rightarrow> fold_table (network_entry lb) t (builtinNetworks lb) | _ \<Rightarrow> Inr (builtinNetworks lb))"
  define R where "R = (case map_of raw ''rpc'' of Some (TTable t) \<Rightarrow> fold_table (endpoint_entry lb) t builtinRPC | _ \<Rightarrow> Inr builtinRPC)"
  have "succeeds N \<longleftrightarrow> (\<forall>t. map_of raw ''networks'' = Some (TTable t) \<longrightarrow> (\<forall>(k, v) \<in> set t. network_table lb v))"
    by (auto simp: N_def fold_table_succeeds [where P = "\<lambda>_. network_table lb", OF network_entry_succeeds] split: option.splits toml.splits)
  moreover have "succeeds R \<longleftrightarrow> (\<forall>t. map_of raw ''rpc'' = Some (TTable t) \<longrightarrow> (\<forall>(k, v) \<in> set t. endpoint_table lb v))"
    by (auto simp: R_def fold_table_succeeds [where P = "\<lambda>_. endpoint_table lb", OF endpoint_entry_succeeds] split: option.splits toml.splits)
  moreover have "succeeds (mergeNetworksAndRPC lb raw) \<longleftrightarrow> succeeds N \<and> succeeds R"
    unfolding mergeNetworksAndRPC_def N_def [symmetric] R_def [symmetric] by (cases N; cases R) simp_all
  ultimately show ?thesis by simp
qed

lemma load_succeeds: "succeeds (load_view lb (Content raw)) \<longleftrightarrow> config_fit lb raw"
proof -
  have "succeeds (checkSchema raw) \<longleftrightarrow> (\<forall>v. map_of raw ''schema'' = Some v \<longrightarrow> (\<exists>n. v = TInt n \<and> n \<le> SchemaVersion))"
    by (auto simp: checkSchema_def toInt_def split: option.splits toml.splits)
  moreover have "succeeds (load_view lb (Content raw)) \<longleftrightarrow> succeeds (checkSchema raw) \<and> succeeds (mergeNetworksAndRPC lb raw)"
    by (cases "checkSchema raw") (simp_all add: load_view_def)
  ultimately show ?thesis by (simp add: merge_succeeds config_fit_def)
qed

section \<open>Commands that keep the file loading\<close>

lemma split_dots_app: "CHR ''.'' \<notin> set a \<Longrightarrow> split_dots buf (a @ CHR ''.'' # b) = (buf @ a) # split_dots [] b"
  by (induction a arbitrary: buf) auto

lemma split_dots_plain: "CHR ''.'' \<notin> set a \<Longrightarrow> split_dots buf a = [buf @ a]"
  by (induction a arbitrary: buf) auto

definition plain_key :: "string \<Rightarrow> bool" where
  "plain_key s \<longleftrightarrow> CHR ''.'' \<notin> set s"

lemma splitKey_app: "plain_key a \<Longrightarrow> splitKey (a @ ''.'' @ b) = a # splitKey b"
  by (simp add: plain_key_def splitKey_def split_dots_app)

lemma splitKey_plain: "plain_key a \<Longrightarrow> splitKey a = [a]"
  by (simp add: plain_key_def splitKey_def split_dots_plain)

lemma plain_append [simp]: "plain_key (a @ b) \<longleftrightarrow> plain_key a \<and> plain_key b"
  by (auto simp: plain_key_def)

lemma valid_plain: "validObjectName s \<Longrightarrow> plain_key s"
proof -
  assume v: "validObjectName s"
  have "s ! i \<noteq> CHR ''.''" if "i < length s" for i
  proof
    assume d: "s ! i = CHR ''.''"
    have "lower_alnum (s ! i) \<or> s ! i = CHR ''-'' \<or> s ! i = CHR ''_''"
      using v that by (auto simp: validObjectName_def list_all_iff Let_def split: if_splits)
    thus False by (simp add: d lower_alnum_def is_digit_def)
  qed
  thus ?thesis by (auto simp: plain_key_def in_set_conv_nth)
qed

lemma in_update: "x \<in> set (AList.update k v t) \<Longrightarrow> x = (k, v) \<or> x \<in> set t"
  by (induction t) (auto split: if_splits)

lemma in_delete: "x \<in> set (AList.delete k t) \<Longrightarrow> x \<in> set t"
  by (simp add: AList.delete_eq)

lemma subtable_cases: "x \<in> set (subtable v) \<Longrightarrow> \<exists>u. v = Some (TTable u) \<and> x \<in> set u"
  by (cases v; cases "the v") (auto simp: subtable_def)

lemma fit_networks: "config_fit lb raw \<Longrightarrow> (k, v) \<in> set (subtable (map_of raw ''networks'')) \<Longrightarrow> network_table lb v"
  using subtable_cases unfolding config_fit_def by fastforce

lemma fit_rpc: "config_fit lb raw \<Longrightarrow> (k, v) \<in> set (subtable (map_of raw ''rpc'')) \<Longrightarrow> endpoint_table lb v"
  using subtable_cases unfolding config_fit_def by fastforce

lemma subtable_of: "(j, w) \<in> set (subtable (map_of t name)) \<Longrightarrow> \<exists>u. (name, TTable u) \<in> set t \<and> (j, w) \<in> set u"
proof -
  assume "(j, w) \<in> set (subtable (map_of t name))"
  then obtain u where "map_of t name = Some (TTable u)" "(j, w) \<in> set u" using subtable_cases by blast
  thus ?thesis using map_of_SomeD by fast
qed

lemma fit_network_fields: "config_fit lb raw \<Longrightarrow> (j, w) \<in> set (subtable (map_of (subtable (map_of raw ''networks'')) name)) \<Longrightarrow> network_fit lb j w"
proof -
  assume f: "config_fit lb raw" and m: "(j, w) \<in> set (subtable (map_of (subtable (map_of raw ''networks'')) name))"
  obtain u where u: "(name, TTable u) \<in> set (subtable (map_of raw ''networks''))" "(j, w) \<in> set u" using subtable_of [OF m] by blast
  from fit_networks [OF f u(1)] u(2) show ?thesis by (auto simp: network_table_def)
qed

lemma fit_endpoint_fields: "config_fit lb raw \<Longrightarrow> (j, w) \<in> set (subtable (map_of (subtable (map_of raw ''rpc'')) name)) \<Longrightarrow> endpoint_fit lb j w"
proof -
  assume f: "config_fit lb raw" and m: "(j, w) \<in> set (subtable (map_of (subtable (map_of raw ''rpc'')) name))"
  obtain u where u: "(name, TTable u) \<in> set (subtable (map_of raw ''rpc''))" "(j, w) \<in> set u" using subtable_of [OF m] by blast
  from fit_rpc [OF f u(1)] u(2) show ?thesis by (auto simp: endpoint_table_def)
qed

lemma fit_update_networks:
  assumes "config_fit lb raw" "\<And>k v. (k, v) \<in> set t \<Longrightarrow> network_table lb v"
  shows "config_fit lb (AList.update ''networks'' (TTable t) raw)"
  using assms by (auto simp: config_fit_def update_conv')

lemma fit_update_rpc:
  assumes "config_fit lb raw" "\<And>k v. (k, v) \<in> set t \<Longrightarrow> endpoint_table lb v"
  shows "config_fit lb (AList.update ''rpc'' (TTable t) raw)"
  using assms by (auto simp: config_fit_def update_conv')

lemma fit_set_network:
  assumes "config_fit lb raw" "network_fit lb k v"
  shows "config_fit lb (set_path [''networks'', name, k] v raw)"
proof -
  have "network_table lb (TTable (AList.update k v (subtable (map_of (subtable (map_of raw ''networks'')) name))))"
    using assms fit_network_fields [OF assms(1)] by (auto simp: network_table_def dest!: in_update)
  thus ?thesis using fit_networks [OF assms(1)] by (auto intro!: fit_update_networks [OF assms(1)] dest!: in_update)
qed

lemma fit_set_endpoint:
  assumes "config_fit lb raw" "endpoint_fit lb k v"
  shows "config_fit lb (set_path [''rpc'', name, k] v raw)"
proof -
  have "endpoint_table lb (TTable (AList.update k v (subtable (map_of (subtable (map_of raw ''rpc'')) name))))"
    using assms fit_endpoint_fields [OF assms(1)] by (auto simp: endpoint_table_def dest!: in_update)
  thus ?thesis using fit_rpc [OF assms(1)] by (auto intro!: fit_update_rpc [OF assms(1)] dest!: in_update)
qed

lemma endpoint_fit_sub: "k \<in> {''headers'', ''tls''} \<Longrightarrow> endpoint_fit lb k (TTable t) \<longleftrightarrow> (\<forall>(j, w) \<in> set t. is_str w)"
  by (elim insertE emptyE) (simp_all add: endpoint_fit_def)

lemma fit_set_endpoint_sub:
  assumes "config_fit lb raw" "k \<in> {''headers'', ''tls''}"
  shows "config_fit lb (set_path [''rpc'', name, k, h] (TStr s) raw)"
proof -
  let ?e = "subtable (map_of (subtable (map_of raw ''rpc'')) name)"
  have "\<forall>(j, w) \<in> set (subtable (map_of ?e k)). is_str w"
  proof (clarify)
    fix j w assume "(j, w) \<in> set (subtable (map_of ?e k))"
    hence "\<exists>u. (k, TTable u) \<in> set ?e \<and> (j, w) \<in> set u" by (rule subtable_of)
    then obtain u where u: "(k, TTable u) \<in> set ?e" "(j, w) \<in> set u" by (elim exE conjE)
    have "endpoint_fit lb k (TTable u)" by (rule fit_endpoint_fields [OF assms(1) u(1)])
    thus "is_str w" using u(2) unfolding endpoint_fit_sub [OF assms(2)] by blast
  qed
  hence "endpoint_fit lb k (TTable (AList.update h (TStr s) (subtable (map_of ?e k))))"
    unfolding endpoint_fit_sub [OF assms(2)] by (auto simp: is_str_def dest!: in_update)
  from fit_set_endpoint [OF assms(1) this, of name] show ?thesis by simp
qed

lemma fit_with_schema: "config_fit lb raw \<Longrightarrow> config_fit lb (with_schema raw)"
  by (auto simp: with_schema_def config_fit_def update_conv' SchemaVersion_def)

lemma rewrite_cases:
  assumes "mutateRaw env fn fl = (r, g)"
  shows "(g = fl \<and> \<not> succeeds r) \<or> (\<exists>raw t. (fl = Missing \<and> raw = [] \<or> fl = Content raw) \<and> fn (with_schema raw) = Inr t \<and> g = Content t)"
  using assms by (auto simp: mutateRaw_def loadRawForWrite_def split: cfg_lock.splits stored.splits sum.splits cfg_write.splits if_splits)

lemma fit_empty: "config_fit lb []"
  by (simp add: config_fit_def)

lemma load_missing: "succeeds (load_view lb Missing)"
  using merge_succeeds [of lb "[]"] by (simp add: load_view_def)

text \<open>A rewrite keeps the file loading when its change keeps tables fit.\<close>

lemma mutate_loads:
  assumes "succeeds (load_view lb fl)" "\<And>raw t. config_fit lb raw \<Longrightarrow> fn raw = Inr t \<Longrightarrow> config_fit lb t"
  shows "succeeds (load_view lb (snd (mutateRaw env fn fl)))"
proof -
  obtain r g where m: "mutateRaw env fn fl = (r, g)" by fastforce
  from rewrite_cases [OF m] show ?thesis
  proof
    assume "\<exists>raw t. (fl = Missing \<and> raw = [] \<or> fl = Content raw) \<and> fn (with_schema raw) = Inr t \<and> g = Content t"
    then obtain raw t where t: "fl = Missing \<and> raw = [] \<or> fl = Content raw" "fn (with_schema raw) = Inr t" "g = Content t" by blast
    have "config_fit lb raw" using t(1) assms(1) fit_empty load_succeeds by auto
    hence "config_fit lb t" using assms(2) [OF fit_with_schema t(2)] by simp
    thus ?thesis by (simp add: m t(3) load_succeeds)
  qed (use assms(1) m in simp)
qed

text \<open>The keys the commands write.\<close>

lemma setNested_net: "plain_key name \<Longrightarrow> plain_key k \<Longrightarrow> setNested ((''networks.'' @ name @ ''.'') @ k) v t = set_path [''networks'', name, k] v t"
proof -
  assume p: "plain_key name" "plain_key k"
  have "splitKey ((''networks.'' @ name @ ''.'') @ k) = splitKey (''networks'' @ ''.'' @ name @ ''.'' @ k)" by simp
  also have "\<dots> = ''networks'' # splitKey (name @ ''.'' @ k)" by (rule splitKey_app) (simp add: plain_key_def)
  also have "splitKey (name @ ''.'' @ k) = [name, k]" by (simp only: splitKey_app [OF p(1)] splitKey_plain [OF p(2)])
  finally show ?thesis by (simp add: setNested_def del: set_path.simps)
qed

lemma setNested_rpc: "plain_key name \<Longrightarrow> setNested ((''rpc.'' @ name @ ''.'') @ k) v t = set_path (''rpc'' # name # splitKey k) v t"
proof -
  assume p: "plain_key name"
  have "splitKey ((''rpc.'' @ name @ ''.'') @ k) = splitKey (''rpc'' @ ''.'' @ name @ ''.'' @ k)" by simp
  also have "\<dots> = ''rpc'' # splitKey (name @ ''.'' @ k)" by (rule splitKey_app) (simp add: plain_key_def)
  also have "splitKey (name @ ''.'' @ k) = name # splitKey k" by (rule splitKey_app [OF p])
  finally show ?thesis by (simp add: setNested_def del: set_path.simps)
qed

lemma plain_keys: "plain_key ''chain-id''" "plain_key ''confirmations''" "plain_key ''native-symbol''" "plain_key ''legacy''" "plain_key ''default-rpc''"
  "plain_key ''network''" "plain_key ''url''" "plain_key ''timeout''" "plain_key ''networks''" "plain_key ''rpc''" "plain_key ''-default''"
  by (simp_all add: plain_key_def)

lemma splitKey_keys: "splitKey ''network'' = [''network'']" "splitKey ''url'' = [''url'']" "splitKey ''timeout'' = [''timeout'']"
  "splitKey ''tls.cert'' = [''tls'', ''cert'']" "splitKey ''tls.key'' = [''tls'', ''key'']" "splitKey ''tls.ca'' = [''tls'', ''ca'']"
  by code_simp+

lemma splitKey_header: "splitKey (''headers.'' @ h) = ''headers'' # splitKey h"
  using splitKey_app [of "''headers''" h] by (simp add: plain_key_def)

lemma if_fit: "config_fit lb a \<Longrightarrow> config_fit lb b \<Longrightarrow> config_fit lb (if c then a else b)"
  by simp

definition small_ids :: "Network \<Rightarrow> bool" where
  "small_ids n \<longleftrightarrow> 0 \<le> sint (nw_ChainID n) \<and> 0 \<le> sint (nw_Confirmations n)"

lemma fit_write_network:
  assumes "config_fit lb raw" "plain_key name" "small_ids n"
  shows "config_fit lb (write_network name n url raw)"
proof -
  have d: "(''rpc.'' @ name @ ''-default.'') @ k = (''rpc.'' @ (name @ ''-default'') @ ''.'') @ k" for k by simp
  have pd: "plain_key (name @ ''-default'')" using assms(2) by (simp add: plain_keys)
  have f: "network_fit lb ''chain-id'' (TInt (sint (nw_ChainID n)))" "network_fit lb ''confirmations'' (TInt (sint (nw_Confirmations n)))"
    "network_fit lb ''native-symbol'' (TStr s)" "network_fit lb ''legacy'' (TBool b)" "network_fit lb ''default-rpc'' (TStr s)"
    "endpoint_fit lb ''url'' (TStr s)" "endpoint_fit lb ''network'' (TStr s)" for s b
    using assms(3) by (simp_all add: small_ids_def network_fit_def endpoint_fit_def is_uint_def is_str_def)
  show ?thesis
    unfolding write_network_def Let_def d setNested_rpc [OF pd] setNested_net [OF assms(2) plain_keys(1)] setNested_net [OF assms(2) plain_keys(2)]
      setNested_net [OF assms(2) plain_keys(3)] setNested_net [OF assms(2) plain_keys(4)] setNested_net [OF assms(2) plain_keys(5)] splitKey_keys
    by (intro if_fit fit_set_network fit_set_endpoint f assms(1))
qed

definition dotless :: "(string \<times> string) list \<Rightarrow> bool" where
  "dotless hs \<longleftrightarrow> (\<forall>(h, v) \<in> set hs. plain_key h)"

lemma fit_write_headers:
  assumes "plain_key name"
  shows "config_fit lb raw \<Longrightarrow> dotless hs \<Longrightarrow> config_fit lb (write_headers (''rpc.'' @ name @ ''.'') hs raw)"
proof (induction hs arbitrary: raw)
  case (Cons x hs)
  obtain h v where x: "x = (h, v)" by fastforce
  have "plain_key h" using Cons.prems(2) by (simp add: dotless_def x)
  hence "setNested ((''rpc.'' @ name @ ''.'') @ ''headers.'' @ h) (TStr v) raw = set_path [''rpc'', name, ''headers'', h] (TStr v) raw"
    by (simp only: setNested_rpc [OF assms] splitKey_header splitKey_plain)
  moreover have "config_fit lb (set_path [''rpc'', name, ''headers'', h] (TStr v) raw)" by (rule fit_set_endpoint_sub) (use Cons.prems(1) in simp_all)
  ultimately have "config_fit lb (setNested ((''rpc.'' @ name @ ''.'') @ ''headers.'' @ h) (TStr v) raw)" by metis
  from Cons.IH [OF this] Cons.prems(2) show ?case by (simp add: write_headers_def x dotless_def)
qed (simp add: write_headers_def)

lemma fit_write_tls:
  assumes "plain_key name" "config_fit lb raw"
  shows "config_fit lb (write_tls (''rpc.'' @ name @ ''.'') tls raw)"
  unfolding write_tls_def Let_def setNested_rpc [OF assms(1)] splitKey_keys
  by (cases tls) (use assms(2) in \<open>auto simp del: set_path.simps intro!: fit_set_endpoint_sub\<close>)

lemma fit_write_endpoint:
  assumes "config_fit lb raw" "plain_key name" "dotless (ep_Headers e)" "\<forall>d. lb_parseDuration lb (lb_durString lb d) = Some d"
  shows "config_fit lb (write_endpoint lb name e raw)"
proof -
  have f: "endpoint_fit lb ''url'' (TStr s)" "endpoint_fit lb ''network'' (TStr s)" "endpoint_fit lb ''timeout'' (TStr (lb_durString lb d))" for s d
    using assms(4) by (simp_all add: endpoint_fit_def is_str_def)
  show ?thesis
    unfolding write_endpoint_def Let_def setNested_rpc [OF assms(2)] splitKey_keys
    by (intro if_fit fit_write_tls fit_write_headers fit_set_endpoint f assms)
qed

lemma fit_update_other: "config_fit lb raw \<Longrightarrow> k \<notin> {''schema'', ''networks'', ''rpc''} \<Longrightarrow> config_fit lb (AList.update k v raw)"
  by (auto simp: config_fit_def update_conv')

lemma fit_delete: "config_fit lb raw \<Longrightarrow> config_fit lb (AList.delete k raw)"
  by (auto simp: config_fit_def delete_conv' split: if_splits)

lemma fit_delete_networks: "config_fit lb raw \<Longrightarrow> config_fit lb (deleteNested (''networks'' @ ''.'' @ name) raw)" if "plain_key name"
proof -
  assume f: "config_fit lb raw"
  have k: "splitKey (''networks'' @ ''.'' @ name) = [''networks'', name]" using that plain_keys by (simp only: splitKey_app splitKey_plain)
  have t: "network_table lb v" if "map_of raw ''networks'' = Some (TTable t)" "(j, v) \<in> set (AList.delete name t)" for t j v
    using fit_networks [OF f, of j v] that in_delete [OF that(2)] by (simp add: subtable_def)
  show ?thesis unfolding deleteNested_def k
    by (auto simp: f intro!: fit_delete fit_update_networks t split: option.splits toml.splits)
qed

lemma fit_delete_rpc: "config_fit lb raw \<Longrightarrow> config_fit lb (deleteNested (''rpc'' @ ''.'' @ name) raw)" if "plain_key name"
proof -
  assume f: "config_fit lb raw"
  have k: "splitKey (''rpc'' @ ''.'' @ name) = [''rpc'', name]" using that plain_keys by (simp only: splitKey_app splitKey_plain)
  have t: "endpoint_table lb v" if "map_of raw ''rpc'' = Some (TTable t)" "(j, v) \<in> set (AList.delete name t)" for t j v
    using fit_rpc [OF f, of j v] that in_delete [OF that(2)] by (simp add: subtable_def)
  show ?thesis unfolding deleteNested_def k
    by (auto simp: f intro!: fit_delete fit_update_rpc t split: option.splits toml.splits)
qed

lemma splitKey_defaults: "splitKey ''defaults.network'' = [''defaults'', ''network'']"
  by code_simp

lemma fit_drop_default: "config_fit lb raw \<Longrightarrow> config_fit lb (drop_default_network name raw)"
  by (auto simp: drop_default_network_def deleteNested_def splitKey_defaults intro!: fit_delete fit_update_other split: option.splits toml.splits)

lemma repoint_table: "network_table lb v \<Longrightarrow> network_table lb (repoint_entry a b v)"
proof -
  assume "network_table lb v"
  then obtain t where t: "v = TTable t" "\<forall>(k, w) \<in> set t. network_fit lb k w" by (auto simp: network_table_def)
  have f: "network_fit lb ''default-rpc'' (TStr b)" by (simp add: network_fit_def is_str_def)
  have "\<forall>(k, w) \<in> set (AList.delete ''default-rpc'' t). network_fit lb k w" using t(2) by (auto dest!: in_delete)
  moreover have "\<forall>(k, w) \<in> set (AList.update ''default-rpc'' (TStr b) t). network_fit lb k w" using t(2) f by (auto dest!: in_update)
  ultimately show ?thesis using t by (simp add: repoint_entry_def network_table_def)
qed

lemma fit_repoint: "config_fit lb raw \<Longrightarrow> config_fit lb (fst (repointDefaultRPC a b raw))"
proof -
  assume f: "config_fit lb raw"
  have t: "network_table lb v" if "map_of raw ''networks'' = Some (TTable t)" "(j, v) \<in> set t" for t j v
    using fit_networks [OF f, of j v] that by (simp add: subtable_def)
  have m: "network_table lb w" if "map_of raw ''networks'' = Some (TTable t)" "(j, w) \<in> set (map (\<lambda>(k, v). (k, repoint_entry a b v)) t)" for t j w
    using that(2) t [OF that(1)] by (auto intro: repoint_table)
  show ?thesis unfolding repointDefaultRPC_def
    by (cases "map_of raw ''networks''"; cases "the (map_of raw ''networks'')") (auto simp: f intro!: fit_update_networks [OF f] intro: m)
qed

lemma fit_rename: "config_fit lb raw \<Longrightarrow> rename_endpoint a b raw = Inr t \<Longrightarrow> config_fit lb t"
proof -
  assume f: "config_fit lb raw" and r: "rename_endpoint a b raw = Inr t"
  obtain src tbl where s: "rawSubTable [''rpc'', a] raw = Some src" "rawSubTable [''rpc''] raw = Some tbl"
      "t = fst (repointDefaultRPC a b (AList.update ''rpc'' (TTable (AList.delete a (AList.update b (TTable src) tbl))) raw))"
    using r by (auto simp: rename_endpoint_def split: option.splits if_splits)
  have m: "map_of raw ''rpc'' = Some (TTable tbl)" using s(2) by (auto split: option.splits toml.splits)
  have e: "endpoint_table lb v" if "(j, v) \<in> set tbl" for j v using fit_rpc [OF f, of j v] that m by (simp add: subtable_def)
  have "map_of tbl a = Some (TTable src)" using s(1) m by (auto split: option.splits toml.splits)
  hence "endpoint_table lb (TTable src)" using e map_of_SomeD by fast
  hence "endpoint_table lb v" if "(j, v) \<in> set (AList.delete a (AList.update b (TTable src) tbl))" for j v
    using in_update [OF in_delete [OF that]] e by auto
  thus ?thesis unfolding s(3) by (intro fit_repoint fit_update_rpc [OF f])
qed

text \<open>The commands that cannot spoil the file.\<close>

fun harmless :: "cfg_op \<Rightarrow> bool" where
  "harmless (CNetworkAdd name n url) \<longleftrightarrow> small_ids n"
| "harmless (CNetworkUse name known) \<longleftrightarrow> True"
| "harmless (CNetworkRemove name force refs) \<longleftrightarrow> plain_key name"
| "harmless (CEndpointAdd name e nets strict) \<longleftrightarrow> dotless (ep_Headers e)"
| "harmless (CEndpointUse name net) \<longleftrightarrow> plain_key net"
| "harmless (CEndpointRename a b) \<longleftrightarrow> True"
| "harmless (CEndpointRemove name) \<longleftrightarrow> plain_key name"

lemma use_key: "''networks.'' @ net @ ''.default-rpc'' = (''networks.'' @ net @ ''.'') @ ''default-rpc''"
  by simp

lemma cfg_exec_loads:
  assumes ok: "succeeds (load_view lb fl)" and h: "harmless x" and dur: "\<forall>d. lb_parseDuration lb (lb_durString lb d) = Some d"
  shows "succeeds (load_view lb (cfg_exec lb x env fl))"
proof (cases x)
  case (CNetworkAdd name n url)
  have "config_fit lb t" if "config_fit lb raw" "validObjectName name" "t = write_network name n url raw" for raw t
    using fit_write_network [OF that(1) valid_plain [OF that(2)]] h that(3) by (simp add: CNetworkAdd)
  thus ?thesis using ok by (auto simp: CNetworkAdd AddNetwork_def intro!: mutate_loads split: if_splits)
next
  case (CNetworkUse name known)
  have "config_fit lb t" if "config_fit lb raw" "Inr (setNested ''defaults.network'' (TStr name) raw) = (Inr t :: table result)" for raw t
    using fit_update_other [OF that(1), of "''defaults''"] that(2) by (auto simp: setNested_def splitKey_defaults)
  thus ?thesis using ok by (auto simp: CNetworkUse UseNetwork_def intro!: mutate_loads)
next
  case (CNetworkRemove name force refs)
  have k: "''networks.'' @ name = ''networks'' @ ''.'' @ name" by simp
  have "config_fit lb (drop_default_network name (deleteNested (''networks.'' @ name) raw))" if "config_fit lb raw" for raw
    unfolding k by (intro fit_drop_default fit_delete_networks that) (use h CNetworkRemove in simp)
  thus ?thesis using ok by (auto simp: CNetworkRemove RemoveNetwork_def intro!: mutate_loads split: if_splits)
next
  case (CEndpointAdd name e nets strict)
  let ?fn = "\<lambda>raw. if endpointExistsRaw raw name \<or> name \<in> set builtinEndpointNames then Inl (New ''usage.rpc_exists'') else Inr (write_endpoint lb name e raw)"
  have "config_fit lb t" if "validObjectName name" "config_fit lb raw" "?fn raw = Inr t" for raw t
    using fit_write_endpoint [OF that(2) valid_plain [OF that(1)] _ dur] h that(3) by (auto simp: CEndpointAdd split: if_splits)
  hence m: "succeeds (load_view lb (snd (mutateRaw env ?fn fl)))" if "validObjectName name" using mutate_loads [OF ok, of ?fn] that by blast
  show ?thesis
  proof (cases "mutateRaw env ?fn fl")
    case (Pair r g)
    thus ?thesis using ok m by (cases r) (auto simp: CEndpointAdd AddEndpoint_def Let_def)
  qed
next
  case (CEndpointUse name net)
  have "config_fit lb (setNested ((''networks.'' @ net @ ''.'') @ ''default-rpc'') (TStr name) raw)" if "config_fit lb raw" for raw
    using fit_set_network [OF that, of "''default-rpc''" "TStr name" net] h
    by (simp only: CEndpointUse harmless.simps setNested_net [OF _ plain_keys(5)]) (simp add: network_fit_def is_str_def)
  thus ?thesis using ok unfolding CEndpointUse cfg_exec.simps UseEndpoint_def use_key by (intro mutate_loads) auto
next
  case (CEndpointRename a b)
  have "succeeds (load_view lb (snd (mutateRaw env (rename_endpoint a b) fl)))" by (rule mutate_loads [OF ok fit_rename])
  thus ?thesis using ok by (simp add: CEndpointRename RenameEndpoint_def)
next
  case (CEndpointRemove name)
  have k: "''rpc.'' @ name = ''rpc'' @ ''.'' @ name" by simp
  have "config_fit lb t" if "config_fit lb raw" "remove_endpoint name raw = Inr t" for raw t
  proof -
    have "t = fst (repointDefaultRPC name [] (deleteNested (''rpc'' @ ''.'' @ name) raw))"
      using that(2) unfolding remove_endpoint_def k by (auto split: if_splits)
    moreover have "plain_key name" using h by (simp add: CEndpointRemove)
    ultimately show ?thesis by (metis fit_repoint fit_delete_rpc that(1))
  qed
  hence "succeeds (load_view lb (snd (mutateRaw env (remove_endpoint name) fl)))" by (rule mutate_loads [OF ok])
  thus ?thesis using ok by (cases "mutateRaw env (remove_endpoint name) fl"; cases "fst (mutateRaw env (remove_endpoint name) fl)")
      (auto simp: CEndpointRemove RemoveEndpoint_def)
qed

lemma cfg_run_loads:
  "succeeds (load_view lb fl) \<Longrightarrow> \<forall>(x, env) \<in> set xs. harmless x \<Longrightarrow> \<forall>d. lb_parseDuration lb (lb_durString lb d) = Some d \<Longrightarrow>
    succeeds (load_view lb (cfg_run lb xs fl))"
proof (induction xs arbitrary: fl)
  case (Cons p xs)
  obtain x env where p: "p = (x, env)" by fastforce
  have "succeeds (load_view lb (cfg_exec lb x env fl))" by (rule cfg_exec_loads) (use Cons.prems p in auto)
  from Cons.IH [OF this] Cons.prems(2,3) show ?case by (simp add: p)
qed simp

section \<open>Headers with dots and large chain ids\<close>

definition endpoint_value :: "string \<Rightarrow> string \<Rightarrow> table \<Rightarrow> toml option" where
  "endpoint_value name k raw = map_of (subtable (map_of (subtable (map_of raw ''rpc'')) name)) k"

lemma subtable_Some [simp]: "subtable (Some (TTable t)) = t"
  by (simp add: subtable_def)

lemma endpoint_value_sub: "k \<noteq> j \<Longrightarrow> endpoint_value name k (set_path [''rpc'', name, j, x] v raw) = endpoint_value name k raw"
  by (simp add: endpoint_value_def update_conv')

lemma write_tls_other:
  assumes "plain_key name" "k \<noteq> ''tls''"
  shows "endpoint_value name k (write_tls (''rpc.'' @ name @ ''.'') tls raw) = endpoint_value name k raw"
  unfolding write_tls_def Let_def setNested_rpc [OF assms(1)] splitKey_keys
  by (cases tls) (simp_all add: endpoint_value_sub [OF assms(2)] del: set_path.simps)

definition headers_of :: "string \<Rightarrow> table \<Rightarrow> table" where
  "headers_of name raw = subtable (map_of (subtable (map_of (subtable (map_of raw ''rpc'')) name)) ''headers'')"

lemma headers_of_set: "headers_of name (set_path (''rpc'' # name # ''headers'' # p # ks) v raw) =
    (if ks = [] then AList.update p v (headers_of name raw) else AList.update p (TTable (set_path ks v (subtable (map_of (headers_of name raw) p)))) (headers_of name raw))"
  by (auto simp: headers_of_def update_conv' subtable_def)

text \<open>A header name with a dot becomes a table under its first part, which no header with another first part removes.\<close>

definition dotted :: "string \<Rightarrow> string \<Rightarrow> bool" where
  "dotted p h \<longleftrightarrow> (\<exists>q ks. splitKey h = p # q # ks)"

lemma splitKey_nonempty: "splitKey h \<noteq> []"
proof -
  have "split_dots buf h \<noteq> []" for buf by (induction h arbitrary: buf) auto
  thus ?thesis by (simp add: splitKey_def)
qed

definition is_table :: "toml option \<Rightarrow> bool" where
  "is_table v \<longleftrightarrow> (\<exists>u. v = Some (TTable u))"

lemma write_header_step:
  assumes "plain_key name" "splitKey h \<noteq> [p]"
  shows "is_table (map_of (headers_of name (setNested ((''rpc.'' @ name @ ''.'') @ ''headers.'' @ h) (TStr v) raw)) p) \<longleftrightarrow>
    dotted p h \<or> is_table (map_of (headers_of name raw) p)"
proof -
  obtain q ks where k: "splitKey h = q # ks" using splitKey_nonempty [of h] by (cases "splitKey h") auto
  have "setNested ((''rpc.'' @ name @ ''.'') @ ''headers.'' @ h) (TStr v) raw = set_path (''rpc'' # name # ''headers'' # q # ks) (TStr v) raw"
    by (simp only: setNested_rpc [OF assms(1)] splitKey_header k)
  hence e: "headers_of name (setNested ((''rpc.'' @ name @ ''.'') @ ''headers.'' @ h) (TStr v) raw) = headers_of name (set_path (''rpc'' # name # ''headers'' # q # ks) (TStr v) raw)"
    by (rule arg_cong)
  show ?thesis unfolding e headers_of_set using assms(2) k by (cases ks) (auto simp: update_conv' is_table_def dotted_def)
qed

lemma write_headers_table:
  assumes "plain_key name" "\<forall>(h, v) \<in> set hs. splitKey h \<noteq> [p]"
  shows "is_table (map_of (headers_of name (write_headers (''rpc.'' @ name @ ''.'') hs raw)) p) \<longleftrightarrow>
    (\<exists>(h, v) \<in> set hs. dotted p h) \<or> is_table (map_of (headers_of name raw) p)"
  using assms(2)
proof (induction hs arbitrary: raw)
  case (Cons x hs)
  obtain h v where x: "x = (h, v)" by fastforce
  have "splitKey h \<noteq> [p]" using Cons.prems by (simp add: x)
  note step = write_header_step [OF assms(1) this, of v raw]
  have "write_headers (''rpc.'' @ name @ ''.'') (x # hs) raw =
      write_headers (''rpc.'' @ name @ ''.'') hs (setNested ((''rpc.'' @ name @ ''.'') @ ''headers.'' @ h) (TStr v) raw)"
    by (simp add: write_headers_def x)
  thus ?case using Cons.IH [of "setNested ((''rpc.'' @ name @ ''.'') @ ''headers.'' @ h) (TStr v) raw"] Cons.prems step by (auto simp: x)
qed (simp add: write_headers_def)

lemma table_header_unfit:
  assumes "is_table (map_of (headers_of name raw) p)"
  shows "\<not> config_fit lb raw"
proof
  assume f: "config_fit lb raw"
  obtain u where "map_of (headers_of name raw) p = Some (TTable u)" using assms unfolding is_table_def by blast
  hence "(p, TTable u) \<in> set (subtable (map_of (subtable (map_of (subtable (map_of raw ''rpc'')) name)) ''headers''))"
    unfolding headers_of_def by (rule map_of_SomeD)
  from subtable_of [OF this] obtain t where t: "(''headers'', TTable t) \<in> set (subtable (map_of (subtable (map_of raw ''rpc'')) name))" "(p, TTable u) \<in> set t"
    by (elim exE conjE)
  have "endpoint_fit lb ''headers'' (TTable t)" by (rule fit_endpoint_fields [OF f t(1)])
  hence "is_str (TTable u)" using t(2) endpoint_fit_sub [of "''headers''" lb t] by blast
  thus False by (simp add: is_str_def)
qed

lemma add_endpoint_dotted_unfit:
  assumes "plain_key name" "(h, v) \<in> set (ep_Headers e)" "dotted p h" "\<forall>(k, w) \<in> set (ep_Headers e). splitKey k \<noteq> [p]"
  shows "\<not> config_fit lb (write_endpoint lb name e raw)"
proof -
  obtain r where w: "write_endpoint lb name e raw = write_tls (''rpc.'' @ name @ ''.'') (ep_TLS e) (write_headers (''rpc.'' @ name @ ''.'') (ep_Headers e) r)"
    unfolding write_endpoint_def Let_def by blast
  have "is_table (map_of (headers_of name (write_headers (''rpc.'' @ name @ ''.'') (ep_Headers e) r)) p)"
    using write_headers_table [OF assms(1,4)] assms(2,3) by blast
  moreover have "headers_of name (write_endpoint lb name e raw) = headers_of name (write_headers (''rpc.'' @ name @ ''.'') (ep_Headers e) r)"
    unfolding w headers_of_def endpoint_value_def [symmetric] by (subst write_tls_other [OF assms(1)]) simp_all
  ultimately have "is_table (map_of (headers_of name (write_endpoint lb name e raw)) p)" by simp
  thus ?thesis by (rule table_header_unfit)
qed

lemma split_dots_single: "split_dots buf s = [x] \<Longrightarrow> x = buf @ s"
proof (induction s arbitrary: buf)
  case (Cons c s)
  have "split_dots [] s \<noteq> []" using splitKey_nonempty [of s] by (simp add: splitKey_def)
  thus ?case using Cons.IH [of "buf @ [c]"] Cons.prems by (auto split: if_splits)
qed simp

lemma splitKey_single: "splitKey s = [x] \<Longrightarrow> s = x"
  using split_dots_single [of "[]" s x] by (simp add: splitKey_def)

definition network_value :: "string \<Rightarrow> string \<Rightarrow> table \<Rightarrow> toml option" where
  "network_value name k raw = map_of (subtable (map_of (subtable (map_of raw ''networks'')) name)) k"

lemma network_value_set: "network_value name k (set_path [''networks'', name, j] v raw) = (if k = j then Some v else network_value name k raw)"
  by (simp add: network_value_def update_conv')

lemma network_value_rpc: "network_value name k (set_path (''rpc'' # ks) v raw) = network_value name k raw"
  by (simp add: network_value_def update_conv')

lemma default_key: "(''rpc.'' @ name @ ''-default.'') @ k = (''rpc.'' @ (name @ ''-default'') @ ''.'') @ k"
  by simp

lemma if_value: "network_value name k (if c then a else b) = (if c then network_value name k a else network_value name k b)"
  by simp

lemma write_network_value:
  assumes "plain_key name"
  shows "network_value name ''chain-id'' (write_network name n url raw) = Some (TInt (sint (nw_ChainID n)))"
    "url \<noteq> [] \<Longrightarrow> network_value name ''default-rpc'' (write_network name n url raw) = Some (TStr (name @ ''-default''))"
proof -
  have pd: "plain_key (name @ ''-default'')" using assms by (simp add: plain_keys)
  note u = write_network_def Let_def default_key setNested_rpc [OF pd] setNested_net [OF assms plain_keys(1)] setNested_net [OF assms plain_keys(2)]
      setNested_net [OF assms plain_keys(3)] setNested_net [OF assms plain_keys(4)] setNested_net [OF assms plain_keys(5)]
  show "network_value name ''chain-id'' (write_network name n url raw) = Some (TInt (sint (nw_ChainID n)))"
    unfolding u if_value network_value_set network_value_rpc by simp
  show "url \<noteq> [] \<Longrightarrow> network_value name ''default-rpc'' (write_network name n url raw) = Some (TStr (name @ ''-default''))"
    unfolding u if_value network_value_set network_value_rpc by simp
qed

lemma network_value_fit: "config_fit lb raw \<Longrightarrow> network_value name k raw = Some v \<Longrightarrow> network_fit lb k v"
  unfolding network_value_def by (rule fit_network_fields) (assumption, rule map_of_SomeD)

text \<open>What a successful addition has written.\<close>

definition held :: "table stored \<Rightarrow> table \<Rightarrow> bool" where
  "held fl raw \<longleftrightarrow> (fl = Missing \<and> raw = []) \<or> fl = Content raw"

lemma mutate_success: "mutateRaw env fn fl = (Inr (), g) \<Longrightarrow> \<exists>raw t. held fl raw \<and> fn (with_schema raw) = Inr t \<and> g = Content t"
  using rewrite_cases [of env fn fl "Inr ()" g] by (auto simp: held_def)

lemma AddNetwork_success:
  assumes "AddNetwork env name n url fl = (Inr (), g)"
  shows "validObjectName name \<and> (\<exists>raw. held fl raw \<and> \<not> networkExistsRaw (with_schema raw) name \<and> name \<notin> set builtinNetworkNames \<and>
    g = Content (write_network name n url (with_schema raw)))"
proof -
  let ?fn = "\<lambda>raw. if networkExistsRaw raw name \<or> name \<in> set builtinNetworkNames then Inl (New ''usage.network_exists'') else Inr (write_network name n url raw)"
  have v: "validObjectName name" and m: "mutateRaw env ?fn fl = (Inr (), g)" using assms unfolding AddNetwork_def by (simp_all split: if_splits)
  from mutate_success [OF m] obtain raw t where r: "held fl raw" "?fn (with_schema raw) = Inr t" "g = Content t" by (elim exE conjE)
  show ?thesis using v r by (intro conjI exI [of _ raw]) (simp_all split: if_splits)
qed

lemma AddEndpoint_success:
  assumes "AddEndpoint lb env name e nets strict fl = (Inr warnings, g)"
  shows "validObjectName name \<and> (\<exists>raw. held fl raw \<and> g = Content (write_endpoint lb name e (with_schema raw)))"
proof -
  let ?fn = "\<lambda>raw. if endpointExistsRaw raw name \<or> name \<in> set builtinEndpointNames then Inl (New ''usage.rpc_exists'') else Inr (write_endpoint lb name e raw)"
  obtain r h where p: "mutateRaw env ?fn fl = (r, h)" by fastforce
  have v: "validObjectName name" using assms by (simp add: AddEndpoint_def split: if_splits)
  have m: "mutateRaw env ?fn fl = (Inr (), g)" using assms p unfolding AddEndpoint_def Let_def by (cases r) (simp_all split: if_splits)
  from mutate_success [OF m] obtain raw t where r: "held fl raw" "?fn (with_schema raw) = Inr t" "g = Content t" by (elim exE conjE)
  show ?thesis using v r by (intro conjI exI [of _ raw]) (simp_all split: if_splits)
qed

text \<open>A chain id of \<open>2 ^ 63\<close> or more becomes negative in the file.\<close>

lemma chain_id_bricks:
  assumes "AddNetwork env name n url fl = (Inr (), g)" "sint (nw_ChainID n) < 0"
  shows "\<not> succeeds (load_view lb g)"
proof -
  obtain raw where v: "validObjectName name" and g: "g = Content (write_network name n url (with_schema raw))"
    using AddNetwork_success [OF assms(1)] by (elim exE conjE)
  have "\<not> config_fit lb (write_network name n url (with_schema raw))"
    using network_value_fit [OF _ write_network_value(1) [OF valid_plain [OF v]], of lb n url] assms(2)
    by (auto simp: network_fit_def is_uint_def)
  thus ?thesis by (simp add: g load_succeeds)
qed

section \<open>What a file stands for\<close>

lemma fold_value:
  assumes "fold_table f t a = Inr b" "distinct (map fst t)" "\<And>k v a b. f k v a = Inr b \<Longrightarrow> k \<noteq> K \<Longrightarrow> g b = g a" "\<And>v a b. f K v a = Inr b \<Longrightarrow> g b = G v (g a)"
  shows "g b = (case map_of t K of None \<Rightarrow> g a | Some v \<Rightarrow> G v (g a))"
  using assms(1,2)
proof (induction t arbitrary: a)
  case (Cons x t)
  obtain k v where x: "x = (k, v)" by fastforce
  obtain c where c: "f k v a = Inr c" "fold_table f t c = Inr b" using Cons.prems(1) by (auto simp: x split: sum.splits)
  have b: "g b = (case map_of t K of None \<Rightarrow> g c | Some w \<Rightarrow> G w (g c))" by (rule Cons.IH [OF c(2)]) (use Cons.prems(2) in simp)
  show ?case
  proof (cases "k = K")
    case True
    hence "map_of t K = None" using Cons.prems(2) by (simp add: x map_of_eq_None_iff)
    thus ?thesis using b c(1) True assms(4) by (simp add: x)
  next
    case False
    hence gc: "g c = g a" using assms(3) [OF c(1)] by simp
    show ?thesis using b [unfolded gc] False by (simp add: x)
  qed
qed simp

definition text_of :: "toml \<Rightarrow> string \<Rightarrow> string" where
  "text_of v old = (case v of TStr s \<Rightarrow> s | _ \<Rightarrow> old)"

lemma overlay_text:
  assumes "overlayEndpoint lb t z = Inr e" "distinct (map fst t)"
  shows "ep_Network e = (case map_of t ''network'' of None \<Rightarrow> ep_Network z | Some v \<Rightarrow> text_of v (ep_Network z))"
    "ep_URLRef e = (case map_of t ''url'' of None \<Rightarrow> ep_URLRef z | Some v \<Rightarrow> text_of v (ep_URLRef z))"
  by (rule fold_value [OF assms(1) [unfolded overlayEndpoint_def] assms(2)];
      auto simp: endpoint_field_def toStr_def text_of_def map_sum_def split: if_splits toml.splits sum.splits option.splits)+

text \<open>The other fields depend on nothing but their own entries.\<close>

definition field_of :: "config_lib \<Rightarrow> string \<Rightarrow> (Endpoint \<Rightarrow> 'a) \<Rightarrow> toml \<Rightarrow> Endpoint \<Rightarrow> 'a" where
  "field_of lb k sel v e = (case endpoint_field lb k v e of Inr d \<Rightarrow> sel d | Inl _ \<Rightarrow> sel e)"

lemma overlay_other:
  assumes "overlayEndpoint lb t zero_endpoint = Inr e" "distinct (map fst t)"
  shows "ep_Timeout e = (case map_of t ''timeout'' of None \<Rightarrow> 0 | Some v \<Rightarrow> field_of lb ''timeout'' ep_Timeout v zero_endpoint)"
    "ep_Headers e = (case map_of t ''headers'' of None \<Rightarrow> [] | Some v \<Rightarrow> field_of lb ''headers'' ep_Headers v zero_endpoint)"
    "ep_TLS e = (case map_of t ''tls'' of None \<Rightarrow> None | Some v \<Rightarrow> field_of lb ''tls'' ep_TLS v zero_endpoint)"
proof -
  note f = fold_value [OF assms(1) [unfolded overlayEndpoint_def] assms(2)]
  note d = endpoint_field_def toStr_def map_sum_def field_of_def zero_endpoint_def
  have z: "zero_endpoint\<lparr>ep_Timeout := ep_Timeout zero_endpoint\<rparr> = zero_endpoint" "zero_endpoint\<lparr>ep_Headers := ep_Headers zero_endpoint\<rparr> = zero_endpoint"
    "zero_endpoint\<lparr>ep_TLS := ep_TLS zero_endpoint\<rparr> = zero_endpoint" by simp_all
  have z0: "ep_Timeout zero_endpoint = 0" "ep_Headers zero_endpoint = []" "ep_TLS zero_endpoint = None" by (simp_all add: zero_endpoint_def)
  have "ep_Timeout e = (case map_of t ''timeout'' of None \<Rightarrow> ep_Timeout zero_endpoint | Some v \<Rightarrow> field_of lb ''timeout'' ep_Timeout v (zero_endpoint\<lparr>ep_Timeout := ep_Timeout zero_endpoint\<rparr>))"
    by (rule f [where G = "\<lambda>v x. field_of lb ''timeout'' ep_Timeout v (zero_endpoint\<lparr>ep_Timeout := x\<rparr>)"])
       (auto simp: d split: if_splits toml.splits sum.splits option.splits)
  thus "ep_Timeout e = (case map_of t ''timeout'' of None \<Rightarrow> 0 | Some v \<Rightarrow> field_of lb ''timeout'' ep_Timeout v zero_endpoint)"
    unfolding z unfolding z0 .
  have "ep_Headers e = (case map_of t ''headers'' of None \<Rightarrow> ep_Headers zero_endpoint | Some v \<Rightarrow> field_of lb ''headers'' ep_Headers v (zero_endpoint\<lparr>ep_Headers := ep_Headers zero_endpoint\<rparr>))"
    by (rule f [where G = "\<lambda>v x. field_of lb ''headers'' ep_Headers v (zero_endpoint\<lparr>ep_Headers := x\<rparr>)"])
       (auto simp: d split: if_splits toml.splits sum.splits option.splits)
  thus "ep_Headers e = (case map_of t ''headers'' of None \<Rightarrow> [] | Some v \<Rightarrow> field_of lb ''headers'' ep_Headers v zero_endpoint)"
    unfolding z unfolding z0 .
  have "ep_TLS e = (case map_of t ''tls'' of None \<Rightarrow> ep_TLS zero_endpoint | Some v \<Rightarrow> field_of lb ''tls'' ep_TLS v (zero_endpoint\<lparr>ep_TLS := ep_TLS zero_endpoint\<rparr>))"
    by (rule f [where G = "\<lambda>v x. field_of lb ''tls'' ep_TLS v (zero_endpoint\<lparr>ep_TLS := x\<rparr>)"])
       (auto simp: d split: if_splits toml.splits sum.splits option.splits)
  thus "ep_TLS e = (case map_of t ''tls'' of None \<Rightarrow> None | Some v \<Rightarrow> field_of lb ''tls'' ep_TLS v zero_endpoint)"
    unfolding z unfolding z0 .
qed

lemma overlay_rebound:
  assumes "overlayEndpoint lb t zero_endpoint = Inr e" "overlayEndpoint lb u zero_endpoint = Inr d" "distinct (map fst t)" "distinct (map fst u)"
    "map_of u ''network'' = Some (TStr n)" "map_of u ''url'' = Some (TStr r)" "\<And>k. k \<notin> {''network'', ''url''} \<Longrightarrow> map_of u k = map_of t k"
  shows "d = e\<lparr>ep_Network := n, ep_URLRef := r\<rparr>"
  using overlay_text [OF assms(2,4)] overlay_other [OF assms(1,3)] overlay_other [OF assms(2,4)] assms(5,6) assms(7) [of "''timeout''"]
    assms(7) [of "''headers''"] assms(7) [of "''tls''"]
  by (cases d; cases e) (simp add: text_of_def)

text \<open>TOML tables have distinct keys: at the level of the entries of a section and of their fields.\<close>

definition distinct_keys :: "string \<Rightarrow> table \<Rightarrow> bool" where
  "distinct_keys T raw \<longleftrightarrow> distinct (map fst (subtable (map_of raw T))) \<and>
     (\<forall>name. distinct (map fst (subtable (map_of (subtable (map_of raw T)) name))))"

lemma distinct_keys_set: "distinct_keys T raw \<Longrightarrow> distinct_keys T (set_path [S, name, k] v raw)"
  by (auto simp: distinct_keys_def update_conv' distinct_update)

lemma distinct_keys_if: "distinct_keys T a \<Longrightarrow> distinct_keys T b \<Longrightarrow> distinct_keys T (if c then a else b)"
  by simp

lemma distinct_keys_schema: "distinct_keys T raw \<Longrightarrow> T \<noteq> ''schema'' \<Longrightarrow> distinct_keys T (with_schema raw)"
  by (simp add: distinct_keys_def with_schema_def update_conv')

lemma endpoint_value_set: "endpoint_value name k (set_path [''rpc'', name, j] v raw) = (if k = j then Some v else endpoint_value name k raw)"
  by (simp add: endpoint_value_def update_conv')

lemma endpoint_value_net: "endpoint_value name k (set_path (''networks'' # ks) v raw) = endpoint_value name k raw"
  by (simp add: endpoint_value_def update_conv')

lemma write_network_endpoint:
  assumes "plain_key name" "url \<noteq> []" "distinct_keys ''rpc'' raw" "distinct_keys ''networks'' raw"
  shows "endpoint_value (name @ ''-default'') k (write_network name n url raw) =
      (if k = ''url'' then Some (TStr url) else if k = ''network'' then Some (TStr name) else endpoint_value (name @ ''-default'') k raw)"
    "distinct_keys ''rpc'' (write_network name n url raw)" "distinct_keys ''networks'' (write_network name n url raw)"
proof -
  have pd: "plain_key (name @ ''-default'')" using assms by (simp add: plain_keys)
  have i: "endpoint_value m k (if c then a else b) = (if c then endpoint_value m k a else endpoint_value m k b)" for m k c a b by simp
  note u = write_network_def Let_def default_key setNested_rpc [OF pd] setNested_net [OF assms(1) plain_keys(1)] setNested_net [OF assms(1) plain_keys(2)]
      setNested_net [OF assms(1) plain_keys(3)] setNested_net [OF assms(1) plain_keys(4)] setNested_net [OF assms(1) plain_keys(5)] splitKey_keys
  show "endpoint_value (name @ ''-default'') k (write_network name n url raw) =
      (if k = ''url'' then Some (TStr url) else if k = ''network'' then Some (TStr name) else endpoint_value (name @ ''-default'') k raw)"
    unfolding u i endpoint_value_set endpoint_value_net using assms(2) by simp
  show "distinct_keys ''rpc'' (write_network name n url raw)"
    unfolding u by (intro distinct_keys_if distinct_keys_set assms)
  show "distinct_keys ''networks'' (write_network name n url raw)"
    unfolding u by (intro distinct_keys_if distinct_keys_set assms)
qed

text \<open>The endpoint and the network of a name in what the file stands for.\<close>

definition entry_endpoint :: "config_lib \<Rightarrow> toml \<Rightarrow> Endpoint option \<Rightarrow> Endpoint option" where
  "entry_endpoint lb v old = (case v of TTable t \<Rightarrow> (case overlayEndpoint lb t (case old of Some e \<Rightarrow> e | None \<Rightarrow> zero_endpoint) of Inr e \<Rightarrow> Some e | Inl _ \<Rightarrow> old) | _ \<Rightarrow> old)"

definition entry_network :: "config_lib \<Rightarrow> toml \<Rightarrow> Network option \<Rightarrow> Network option" where
  "entry_network lb v old = (case v of TTable t \<Rightarrow> (case overlayNetwork lb t (case old of Some n \<Rightarrow> n | None \<Rightarrow> blank_network lb) of Inr n \<Rightarrow> Some n | Inl _ \<Rightarrow> old) | _ \<Rightarrow> old)"

lemma view_parts:
  assumes "load_view lb (Content raw) = Inr v"
  shows "fold_table (network_entry lb) (subtable (map_of raw ''networks'')) (builtinNetworks lb) = Inr (cv_Networks v)"
    "fold_table (endpoint_entry lb) (subtable (map_of raw ''rpc'')) builtinRPC = Inr (cv_RPC v)"
  using assms by (auto simp: load_view_def mergeNetworksAndRPC_def subtable_def split: sum.splits option.splits toml.splits)

lemma view_endpoint:
  assumes "load_view lb (Content raw) = Inr v" "distinct_keys ''rpc'' raw"
  shows "map_of (cv_RPC v) name = (case map_of (subtable (map_of raw ''rpc'')) name of None \<Rightarrow> map_of builtinRPC name | Some x \<Rightarrow> entry_endpoint lb x (map_of builtinRPC name))"
proof (rule fold_value [OF view_parts(2) [OF assms(1)]])
  show "distinct (map fst (subtable (map_of raw ''rpc'')))" using assms(2) by (simp add: distinct_keys_def)
  show "map_of b name = map_of a name" if "endpoint_entry lb k x a = Inr b" "k \<noteq> name" for k x a b
    using that by (cases x) (auto simp: endpoint_entry_def update_conv' map_sum_def split: sum.splits)
  show "map_of b name = entry_endpoint lb x (map_of a name)" if "endpoint_entry lb name x a = Inr b" for x a b
    using that by (cases x) (auto simp: endpoint_entry_def entry_endpoint_def update_conv' map_sum_def split: sum.splits)
qed

lemma view_network:
  assumes "load_view lb (Content raw) = Inr v" "distinct_keys ''networks'' raw"
  shows "map_of (cv_Networks v) name = (case map_of (subtable (map_of raw ''networks'')) name of None \<Rightarrow> map_of (builtinNetworks lb) name
     | Some x \<Rightarrow> entry_network lb x (map_of (builtinNetworks lb) name))"
proof (rule fold_value [OF view_parts(1) [OF assms(1)]])
  show "distinct (map fst (subtable (map_of raw ''networks'')))" using assms(2) by (simp add: distinct_keys_def)
  show "map_of b name = map_of a name" if "network_entry lb k x a = Inr b" "k \<noteq> name" for k x a b
    using that by (cases x) (auto simp: network_entry_def update_conv' map_sum_def split: sum.splits)
  show "map_of b name = entry_network lb x (map_of a name)" if "network_entry lb name x a = Inr b" for x a b
    using that by (cases x) (auto simp: network_entry_def entry_network_def update_conv' map_sum_def split: sum.splits)
qed

lemma overlay_default:
  assumes "overlayNetwork lb t n = Inr m" "distinct (map fst t)" "map_of t ''default-rpc'' = Some (TStr s)"
  shows "nw_DefaultRPC m = s"
proof -
  have "nw_DefaultRPC m = (case map_of t ''default-rpc'' of None \<Rightarrow> nw_DefaultRPC n | Some v \<Rightarrow> text_of v (nw_DefaultRPC n))"
    by (rule fold_value [OF assms(1) [unfolded overlayNetwork_def] assms(2)])
       (auto simp: network_field_def toStr_def text_of_def map_sum_def split: if_splits toml.splits sum.splits option.splits)
  thus ?thesis using assms(3) by (simp add: text_of_def)
qed

lemma default_not_builtin: "map_of builtinRPC (name @ ''-default'') = None"
proof -
  have "name @ ''-default'' \<noteq> ''mainnet-public''" "name @ ''-default'' \<noteq> ''sepolia-public''" by (auto dest: arg_cong [where f = last])
  thus ?thesis by (simp add: builtinRPC_def del: append_eq_Cons_conv)
qed

lemma subtable_entry: "map_of (subtable v) k = Some x \<Longrightarrow> \<exists>u. v = Some (TTable u) \<and> map_of u k = Some x"
  by (cases v; cases "the v") (auto simp: subtable_def)

lemma endpoint_overlays: "config_fit lb raw \<Longrightarrow> map_of (subtable (map_of raw ''rpc'')) name = Some (TTable u) \<Longrightarrow> \<exists>e. overlayEndpoint lb u z = Inr e"
proof -
  assume f: "config_fit lb raw" and m: "map_of (subtable (map_of raw ''rpc'')) name = Some (TTable u)"
  have "endpoint_table lb (TTable u)" by (rule fit_rpc [OF f map_of_SomeD [OF m]])
  hence "succeeds (overlayEndpoint lb u z)"
    unfolding overlayEndpoint_def fold_table_succeeds [where P = "endpoint_fit lb", OF endpoint_field_succeeds] by (auto simp: endpoint_table_def)
  thus ?thesis by (simp add: succeeds_def)
qed

lemma network_overlays: "config_fit lb raw \<Longrightarrow> map_of (subtable (map_of raw ''networks'')) name = Some (TTable u) \<Longrightarrow> \<exists>n. overlayNetwork lb u z = Inr n"
proof -
  assume f: "config_fit lb raw" and m: "map_of (subtable (map_of raw ''networks'')) name = Some (TTable u)"
  have "network_table lb (TTable u)" by (rule fit_networks [OF f map_of_SomeD [OF m]])
  hence "succeeds (overlayNetwork lb u z)"
    unfolding overlayNetwork_def fold_table_succeeds [where P = "network_fit lb", OF network_field_succeeds] by (auto simp: network_table_def)
  thus ?thesis by (simp add: succeeds_def)
qed

lemma written_default:
  assumes w: "load_view lb (Content raw) = Inr w" and d: "distinct_keys ''networks'' raw" and v: "network_value name ''default-rpc'' raw = Some (TStr s)"
  shows "\<exists>m. map_of (cv_Networks w) name = Some m \<and> nw_DefaultRPC m = s"
proof -
  obtain u where u: "map_of (subtable (map_of raw ''networks'')) name = Some (TTable u)" "map_of u ''default-rpc'' = Some (TStr s)"
    using subtable_entry [OF v [unfolded network_value_def]] by blast
  have f: "config_fit lb raw" using w load_succeeds [of lb raw] by (simp add: succeeds_def)
  obtain m where m: "overlayNetwork lb u (case map_of (builtinNetworks lb) name of Some n \<Rightarrow> n | None \<Rightarrow> blank_network lb) = Inr m"
    using network_overlays [OF f u(1)] by blast
  have "distinct (map fst u)" using d u(1) by (auto simp: distinct_keys_def dest: spec [of _ name])
  hence "nw_DefaultRPC m = s" by (rule overlay_default [OF m _ u(2)])
  moreover have "map_of (cv_Networks w) name = Some m" using view_network [OF w d, of name] u(1) m by (simp add: entry_network_def)
  ultimately show ?thesis by blast
qed

lemma written_endpoint:
  assumes w: "load_view lb (Content raw) = Inr w" and d: "distinct_keys ''rpc'' raw" and e: "map_of builtinRPC name = None" and v: "endpoint_value name k raw = Some x"
  shows "\<exists>u e. overlayEndpoint lb u zero_endpoint = Inr e \<and> map_of (cv_RPC w) name = Some e \<and> distinct (map fst u) \<and> (\<forall>j. map_of u j = endpoint_value name j raw)"
proof -
  obtain u where u: "map_of (subtable (map_of raw ''rpc'')) name = Some (TTable u)" using subtable_entry [OF v [unfolded endpoint_value_def]] by blast
  have f: "config_fit lb raw" using w load_succeeds [of lb raw] by (simp add: succeeds_def)
  obtain y where y: "overlayEndpoint lb u zero_endpoint = Inr y" using endpoint_overlays [OF f u] by blast
  moreover have "map_of (cv_RPC w) name = Some y" using view_endpoint [OF w d, of name] u y e by (simp add: entry_endpoint_def)
  moreover have "distinct (map fst u)" using d u by (auto simp: distinct_keys_def dest: spec [of _ name])
  moreover have "\<forall>j. map_of u j = endpoint_value name j raw" by (simp add: endpoint_value_def u)
  ultimately show ?thesis by blast
qed

lemma schema_view:
  assumes "load_view lb (Content raw) = Inr v"
  shows "\<exists>w. load_view lb (Content (with_schema raw)) = Inr w \<and> cv_RPC w = cv_RPC v"
proof -
  have "config_fit lb (with_schema raw)" by (rule fit_with_schema) (use assms load_succeeds [of lb raw] in \<open>simp add: succeeds_def\<close>)
  then obtain w where w: "load_view lb (Content (with_schema raw)) = Inr w" using load_succeeds [of lb "with_schema raw"] by (auto simp: succeeds_def)
  have "map_of (with_schema raw) ''rpc'' = map_of raw ''rpc''" by (simp add: with_schema_def update_conv')
  hence "cv_RPC w = cv_RPC v" using view_parts(2) [OF w] view_parts(2) [OF assms] by simp
  thus ?thesis using w by blast
qed

section \<open>Properties\<close>

definition demo_config :: config_lib where
  "demo_config = \<lparr>lb_addr = \<lparr>al_isHex = (\<lambda>s. length s = 42), al_toAddr = (\<lambda>s. s), al_show = (\<lambda>s. s), al_read = Some, al_zero = ''0x0''\<rparr>,
     lb_durString = (\<lambda>d. int_dec d), lb_parseDuration = SetString\<rparr>"

definition fine_cfg :: cfg_env where
  "fine_cfg = \<lparr>ce_lock = CfgLockOK, ce_noAccess = False, ce_write = CfgWriteOK\<rparr>"

definition demo_endpoint :: "(string \<times> string) list \<Rightarrow> Endpoint" where
  "demo_endpoint hs = \<lparr>ep_Network = ''mainnet'', ep_URLRef = ''https://node.example'', ep_Headers = hs, ep_TLS = None, ep_Timeout = 5\<rparr>"

lemma demo_durations: "\<forall>d. lb_parseDuration demo_config (lb_durString demo_config d) = Some d"
  by (simp add: demo_config_def)

text \<open>C38. A configuration file whose schema, networks and endpoints load keeps loading through every sequence of network and endpoint commands, with whatever lock
  and write failures, as long as no added endpoint has a header name with a dot and no added network a chain id of \<open>2 ^ 63\<close> or
  more (and removed and selected names have no dot).\<close>

theorem config_stays_loadable:
  assumes "\<forall>d. lb_parseDuration lb (lb_durString lb d) = Some d" "load_view lb fl = Inr v" "\<forall>(x, env) \<in> set xs. harmless x"
  shows "\<exists>w. load_view lb (cfg_run lb xs fl) = Inr w"
  using cfg_run_loads [of lb fl xs] assms by (auto simp: succeeds_def)

theorem config_stays_loadable_witness:
  "\<exists>w. load_view demo_config (cfg_run demo_config [(CEndpointAdd ''node'' (demo_endpoint [(''X-Key'', ''k'')]) [''mainnet''] False, fine_cfg),
     (CEndpointUse ''node'' ''mainnet'', fine_cfg), (CEndpointRename ''node'' ''main'', fine_cfg), (CEndpointRemove ''main'', fine_cfg)] Missing) = Inr w"
proof -
  obtain v where "load_view demo_config Missing = Inr v" using load_missing [of demo_config] by (auto simp: succeeds_def)
  moreover have "harmless (CEndpointAdd ''node'' (demo_endpoint [(''X-Key'', ''k'')]) [''mainnet''] False)" "harmless (CEndpointUse ''node'' ''mainnet'')"
    "harmless (CEndpointRename ''node'' ''main'')" "harmless (CEndpointRemove ''main'')"
    by (simp_all add: demo_endpoint_def dotless_def plain_key_def)
  ultimately show ?thesis by (intro config_stays_loadable [OF demo_durations]) auto
qed

text \<open>C39. Adding an endpoint with a header whose name has a dot succeeds and leaves a configuration file that no longer loads, so that
  every later command fails, unless another of its headers is named like the part before the dot.\<close>

theorem dotted_header_bricks:
  assumes "AddEndpoint lb env name e nets strict fl = (Inr warnings, g)" "(p @ ''.'' @ q, v) \<in> set (ep_Headers e)" "plain_key p" "p \<notin> fst ` set (ep_Headers e)"
  shows "\<exists>err. load_view lb g = Inl err"
proof -
  obtain raw where v: "validObjectName name" and g: "g = Content (write_endpoint lb name e (with_schema raw))"
    using AddEndpoint_success [OF assms(1)] by (elim exE conjE)
  have "dotted p (p @ ''.'' @ q)" using splitKey_app [OF assms(3), of q] splitKey_nonempty [of q] by (cases "splitKey q") (simp_all add: dotted_def)
  moreover have "\<forall>(k, w) \<in> set (ep_Headers e). splitKey k \<noteq> [p]" using assms(4) splitKey_single by force
  ultimately have "\<not> config_fit lb (write_endpoint lb name e (with_schema raw))"
    by (intro add_endpoint_dotted_unfit [OF valid_plain [OF v] assms(2)])
  hence "\<not> succeeds (load_view lb g)" by (simp add: g load_succeeds)
  thus ?thesis by (cases "load_view lb g") (auto simp: succeeds_def)
qed

theorem dotted_header_bricks_witness:
  "\<exists>err. load_view demo_config (snd (AddEndpoint demo_config fine_cfg ''node'' (demo_endpoint [(''X.Key'', ''k'')]) [''mainnet''] False Missing)) = Inl err"
proof -
  let ?r = "AddEndpoint demo_config fine_cfg ''node'' (demo_endpoint [(''X.Key'', ''k'')]) [''mainnet''] False Missing"
  have "fst ?r = Inr []" by code_simp
  hence "?r = (Inr [], snd ?r)" by (metis prod.collapse)
  from dotted_header_bricks [OF this, of "''X''" "''Key''" "''k''"] show ?thesis by (simp add: demo_endpoint_def plain_key_def)
qed

text \<open>C40. When \<open>network add\<close> is given a URL and an endpoint called after the new network with \<open>-default\<close> already exists, the command
  succeeds and rebinds that endpoint to the new network and URL, keeping its headers, TLS files and timeout: what authenticated
  against the old server is sent to the new one, which is the default of the network.\<close>

theorem network_add_keeps_headers:
  assumes "load_view lb (Content raw) = Inr v" "distinct_keys ''networks'' raw" "distinct_keys ''rpc'' raw"
    "map_of (cv_RPC v) (name @ ''-default'') = Some e" "AddNetwork env name n url (Content raw) = (Inr (), g)" "url \<noteq> []" "small_ids n"
  shows "\<exists>w m. load_view lb g = Inr w \<and> map_of (cv_RPC w) (name @ ''-default'') = Some (e\<lparr>ep_Network := name, ep_URLRef := url\<rparr>) \<and>
    map_of (cv_Networks w) name = Some m \<and> nw_DefaultRPC m = name @ ''-default''"
proof -
  let ?D = "name @ ''-default''" and ?R = "with_schema raw"
  let ?G = "write_network name n url ?R"
  have p: "plain_key name" and g: "g = Content ?G" using AddNetwork_success [OF assms(5)] valid_plain by (auto simp: held_def)
  obtain v' where v': "load_view lb (Content ?R) = Inr v'" "cv_RPC v' = cv_RPC v" using schema_view [OF assms(1)] by blast
  have d: "distinct_keys ''networks'' ?R" "distinct_keys ''rpc'' ?R" using assms(2,3) distinct_keys_schema by simp_all
  note wr = write_network_endpoint [OF p assms(6) d(2,1), where n = n]
  have "config_fit lb ?R" using v'(1) load_succeeds [of lb ?R] by (simp add: succeeds_def)
  hence "config_fit lb ?G" by (rule fit_write_network [OF _ p assms(7)])
  then obtain w where w: "load_view lb (Content ?G) = Inr w" using load_succeeds [of lb ?G] by (auto simp: succeeds_def)
  obtain m where m: "map_of (cv_Networks w) name = Some m" "nw_DefaultRPC m = ?D"
    using written_default [OF w wr(3) write_network_value(2) [OF p assms(6)]] by blast
  obtain x where x: "map_of (subtable (map_of ?R ''rpc'')) ?D = Some x" "entry_endpoint lb x None = Some e"
    using view_endpoint [OF v'(1) d(2), of ?D] assms(4) v'(2) default_not_builtin [of name] by (auto split: option.splits)
  then obtain t where t: "x = TTable t" "overlayEndpoint lb t zero_endpoint = Inr e" by (auto simp: entry_endpoint_def split: toml.splits sum.splits)
  have te: "map_of t j = endpoint_value ?D j ?R" for j by (simp add: endpoint_value_def x(1) t(1))
  have dt: "distinct (map fst t)" using d(2) x(1) t(1) by (auto simp: distinct_keys_def dest: spec [of _ ?D])
  have "endpoint_value ?D ''url'' ?G = Some (TStr url)" by (simp add: wr(1))
  from written_endpoint [OF w wr(2) default_not_builtin this] obtain u y where u: "overlayEndpoint lb u zero_endpoint = Inr y" "map_of (cv_RPC w) ?D = Some y"
      "distinct (map fst u)" "\<forall>j. map_of u j = endpoint_value ?D j ?G" by blast
  have "y = e\<lparr>ep_Network := name, ep_URLRef := url\<rparr>"
    by (rule overlay_rebound [OF t(2) u(1) dt u(3)]) (simp_all add: u(4) wr(1) te)
  thus ?thesis using w m u(2) g by blast
qed

definition demo_file :: table where
  "demo_file = [(''rpc'', TTable [(''l2-default'', TTable [(''network'', TStr ''mainnet''), (''url'', TStr ''https://old.example''),
     (''headers'', TTable [(''Authorization'', TStr ''Bearer k'')])])])]"

theorem network_add_keeps_headers_witness:
  "let n = (blank_network demo_config)\<lparr>nw_ChainID := 10\<rparr> in \<exists>w e. load_view demo_config (snd (AddNetwork fine_cfg ''l2'' n ''https://new.example'' (Content demo_file))) = Inr w \<and>
     map_of (cv_RPC w) ''l2-default'' = Some e \<and> ep_URLRef e = ''https://new.example'' \<and> ep_Headers e = [(''Authorization'', ''Bearer k'')]"
proof -
  let ?n = "(blank_network demo_config)\<lparr>nw_ChainID := 10\<rparr>"
  let ?e = "\<lparr>ep_Network = ''mainnet'', ep_URLRef = ''https://old.example'', ep_Headers = [(''Authorization'', ''Bearer k'')], ep_TLS = None, ep_Timeout = 0\<rparr>"
  let ?r = "AddNetwork fine_cfg ''l2'' ?n ''https://new.example'' (Content demo_file)"
  have l: "map_sum id (\<lambda>v. map_of (cv_RPC v) (''l2'' @ ''-default'')) (load_view demo_config (Content demo_file)) = Inr (Some ?e)" by code_simp
  then obtain v where v: "load_view demo_config (Content demo_file) = Inr v" "map_of (cv_RPC v) (''l2'' @ ''-default'') = Some ?e"
    by (cases "load_view demo_config (Content demo_file)") auto
  have d: "distinct_keys ''networks'' demo_file" "distinct_keys ''rpc'' demo_file"
    by (auto simp: distinct_keys_def demo_file_def subtable_def)
  have "fst ?r = Inr ()" by code_simp
  hence r: "?r = (Inr (), snd ?r)" by (metis prod.collapse)
  have s: "small_ids ?n" "''https://new.example'' \<noteq> ([] :: string)" by (simp_all add: small_ids_def blank_network_def)
  from network_add_keeps_headers [OF v(1) d v(2) r s(2,1)] obtain w where "load_view demo_config (snd ?r) = Inr w"
      "map_of (cv_RPC w) (''l2'' @ ''-default'') = Some (?e\<lparr>ep_Network := ''l2'', ep_URLRef := ''https://new.example''\<rparr>)" by blast
  thus ?thesis by (simp add: Let_def)
qed

text \<open>An endpoint whose server answers with another chain id is reported as an error, after it has been stored.\<close>

lemma mismatched_endpoint_stays:
  assumes "AddEndpoint lb env name e (knownNetworks snap) strict fl = (Inr warnings, g)" "Code verr = ''rpc.chain_id_mismatch''"
  shows "RPCAdd lb snap env (Some verr) name e strict fl = (Inl verr, g) \<and> (\<exists>raw. g = Content (write_endpoint lb name e raw))"
  using AddEndpoint_success [OF assms(1)] assms by (auto simp: RPCAdd_def)

end
