(* ===== verification/Spec2Isabelle.thy ===== *)
theory Spec2Isabelle
  imports Domain_Errors Ethunit Gas Policy_Window Policy_Retry Policy_Lifecycle Nonce Tx_Build Typed_Data Receive_Claims QR_Claims Policy_Service_Claims Abi_Claims Registry_Claims Config_Claims
begin

text \<open>
  A model of daxie, a command-line wallet for EVM chains with a policy engine that guards what an agent may spend
  (\<open>src/internal\<close>, Go).  The definitions are translated from the Go sources and keep their names; a Go method \<open>T.M\<close>
  becomes a function \<open>M\<close> that takes the state first or last and returns it updated.

  \<^bold>\<open>The program.\<close>  A command (\<open>cli\<close>) or an MCP tool call (\<open>mcpserver\<close>) becomes a request to \<open>service\<close>.  Every send
  goes through one kernel, \<open>service/tx.go\<close>: resolve and price the intent (\<open>chain\<close>, \<open>ethunit\<close>), build the policy check,
  take the account lock and a nonce (\<open>journal/nonce.go\<close>), reserve the spend (\<open>policy\<close>), sign, journal the signed
  record (\<open>journal\<close>), broadcast, settle the reservation.  Three files carry the safety of the wallet across crashes and
  concurrent processes: the reservation log and the spend counters of the policy engine and the journal.  Replacement,
  rebroadcast, reconciliation and abandonment work on the records a crash or a timeout left behind.  The other
  commands sign typed data and messages, call tokens and NFTs, and listen for inbound payments, which they advertise as
  a QR code in the terminal.

  \<^bold>\<open>Theories and sources.\<close>
  \<^item> \<open>Daxie_Prelude\<close>: the part of Go's \<open>strings\<close>, \<open>strconv\<close> and \<open>math/big\<close> text the program uses, and generic lemmas.
    \<open>Hex_Bytes\<close>: byte strings and their hexadecimal text.  \<open>Durable_Log\<close>: a file after decoding, the outcomes of taking
    a lock and of an atomic write (\<open>fsx\<close>), and the locale of a durable keyed log.
  \<^item> \<open>Domain_Errors\<close>: error values, code and exit registry (\<open>domain/error.go\<close>, \<open>domain/exitcode.go\<close>).  \<open>Account_Ref\<close>:
    the parser of account references (\<open>domain/account_ref.go\<close>).
  \<^item> \<open>Ethunit\<close>: exact decimal amounts (\<open>ethunit\<close>, \<open>service/convert.go\<close>).  \<open>Gas\<close>: fee suggestion, overlay, quotes and
    the replacement bump (\<open>chain/client.go\<close>, \<open>service/gas.go\<close>, \<open>service/rbf.go\<close>); float settings are exact rationals.
  \<^item> \<open>Policy_Types\<close>, \<open>Policy_Evaluate\<close>: the sealed rules, the check, the verdict and the staged pipeline
    (\<open>policy/file.go\<close>, \<open>check.go\<close>, \<open>evaluate.go\<close>), with the policy read as a document as the specification.  \<open>Policy_Counter\<close>, \<open>Policy_Reservation\<close>, \<open>Policy_Engine\<close>: spend
    counters, reservation log and the operations over both (\<open>counter.go\<close>, \<open>reservation.go\<close>, \<open>orphan.go\<close>, \<open>policy.go\<close>).
    \<open>Policy_Window\<close>, \<open>Policy_Lifecycle\<close>, \<open>Policy_Retry\<close>: the daily limit as an invariant of a step relation over
    all operations, the life of a reservation, the retry instant.
  \<^item> \<open>Journal\<close>, \<open>Nonce\<close>: the transaction journal with torn writes, repair and compaction, and nonce allocation with a
    step relation for many processes (\<open>journal/store_jsonl.go\<close>, \<open>record.go\<close>, \<open>nonce.go\<close>).
  \<^item> \<open>Json\<close>, \<open>Base64\<close>: Go's \<open>encoding/json\<close> as the program uses it (reader, strict and lenient struct decoders, string
    escapes) and \<open>encoding/base64\<close>.  \<open>Policy_Seal\<close>: the anchor, its text, the seal subject and key rotation
    (\<open>policyseal\<close>).  \<open>Policy_File\<close>: the canonical writer of the policy body, the strict decoder, the envelope and the
    loader (\<open>policy/file.go\<close>).  \<open>Policy_Admin\<close>: the sealed mutations (\<open>policy/admin.go\<close>, \<open>typed_admin.go\<close>,
    \<open>contract_admin.go\<close>).  \<open>Policy_Roundtrip\<close>: the text of a body decodes to the body.
    \<open>Policy_Intent\<close>: what each administrative command asks for, stated without the functions that change a body.  \<open>Policy_Sealing\<close>,
    \<open>Policy_Broken\<close>, \<open>Policy_Admin_Claims\<close>: what an administrative command leaves on disk, which bodies are not JSON,
    and the properties over sequences of commands.  \<open>Policy_Anchor\<close>, \<open>Policy_Service\<close>, \<open>Policy_Service_Claims\<close>: the anchor
    file and the trust root a process opens with (\<open>config/anchor.go\<close>), the policy commands with their two writes
    (\<open>service/policy.go\<close>), and what they guarantee to a process started afterwards or running at the same time.
  \<^item> \<open>Tx_Result\<close>, \<open>Tx_Recover\<close>, \<open>Tx_Wait\<close>, \<open>Tx_Intent\<close>, \<open>Tx_Send\<close>, \<open>Tx_Build\<close>: wire results, recovery
    (\<open>service/txstatus.go\<close>, \<open>reconcile.go\<close>), the wait loop, intents and checks, the kernel (\<open>service/tx.go\<close>, \<open>rbf.go\<close>)
    and the four sending commands (\<open>tx.go\<close>, \<open>approve.go\<close>, \<open>nft.go\<close>, \<open>contract.go\<close>).  \<open>Tx_Safety\<close>: what the kernel
    guarantees.
  \<^item> \<open>Calldata\<close>: calldata builders, the selector recogniser and the classification onto checks (\<open>erc\<close>,
    \<open>policy/calldata.go\<close>, \<open>abi/classify.go\<close>).  \<open>Typed_Data\<close>: permit recognisers and the signing gate
    (\<open>policy/recognizers.go\<close>, \<open>service/sign.go\<close>).
  \<^item> \<open>Abi_Literal\<close>, \<open>Abi_Signature\<close>, \<open>Abi_Codec\<close>: arguments to ABI values (\<open>abi/coerce.go\<close>), the signature parser, and calls,
    logs and decoded values around go-ethereum's encoder (\<open>abi/abi.go\<close>).  \<open>Abi_Parse\<close>: the abstract syntax of signatures and
    the proof that the parser reads its text.  \<open>Abi_Claims\<close>: types and round trips.
  \<^item> \<open>Registry\<close>, \<open>Registry_NFT\<close>: the address book and the token, NFT and contract registries of the networks
    (\<open>registry\<close>), each file as what the JSON reader makes of it.  \<open>Registry_Claims\<close>: histories of registry commands, the
    locale of a namespace, and the address book a network of the wrong name overwrites.
  \<^item> \<open>Config_Secret\<close>: secret references, masking and the detection of literal secrets (\<open>config/secretref.go\<close>, \<open>rpc.go\<close>).
    \<open>Config_Table\<close>: the TOML table with dotted keys, the built-ins and the merge (\<open>config/write.go\<close>, \<open>builtins.go\<close>, \<open>merge.go\<close>,
    the network part of \<open>load.go\<close>).  \<open>Config_Commands\<close>: the locked rewrite, the network and endpoint commands and their use
    cases (\<open>config/networks.go\<close>, \<open>rpc.go\<close>, \<open>service/network.go\<close>, \<open>rpc.go\<close>).  \<open>Config_Claims\<close>: which commands keep the file
    loading, and which do not.
  \<^item> \<open>Receive_Scan\<close>, \<open>Receive_Loop\<close>: inbound detection, confirmation and the polling loop (\<open>service/receive.go\<close>,
    \<open>receive_eth.go\<close>).  \<open>Receive_Safety\<close>, \<open>Receive_Ledger\<close>, \<open>Receive_Claims\<close>: what a listen guarantees and where the
    ETH ledger is not exact.
  \<^item> \<open>QR_Code\<close>, \<open>QR_Matrix\<close>: the QR encoder (\<open>cli/render/qr.go\<close>).  \<open>QR_Field\<close>, \<open>QR_Reed_Solomon\<close>, \<open>QR_Payload\<close>,
    \<open>QR_Symbol\<close>, \<open>QR_Claims\<close>: the field arithmetic, the generator polynomial, reading the symbol back.

  \<^bold>\<open>State.\<close>  The engine record holds the reservation log and the counter files, the kernel state adds the journals, the nonce
  caches and the held locks.  A journal, log or counter file is the list of its decoded lines, with torn and unreadable
  lines as values; the policy file and the anchor are texts.  The sealing engine (\<open>aengine\<close>) holds the policy file and
  the anchor; storing the anchor a command returns is a step of its own, as in the source, and the properties cover the
  time between the two writes.  Every lock and every write takes its outcome from an
  environment argument, so that the theorems quantify over all failures; so do the answers of the node and the clock.
  Interleavings of processes are sequences of operations under the lock each of them holds: what the program does
  between taking and releasing a lock is one step.  The step relation of \<open>Nonce\<close> carries one auxiliary variable, the ids of the records
  that were marked failed at some time, which no step reads.

  \<^bold>\<open>Lemmas.\<close>  Each component has the functional behaviour of its operations on all branches; the log-like stores are
  interpretations of the locale of \<open>Durable_Log\<close>, the registries of the locale of \<open>Registry_Claims\<close>; \<open>Policy_Window\<close> and \<open>Nonce\<close> carry invariants by rule induction over
  their step relations; \<open>Tx_Safety\<close> composes these with the order of the kernel's steps.  The properties are the theorems
  with a claim number.  Several state a flaw exactly (the phantom inbound of an ETH listen, the wrong error-correction
  codewords, the batch decoder's panic, the write-off after an inconclusive recheck and by an abort that cannot read the journal, the override that makes the sealed
  policy unreadable, the repeated stage that strands a rotation, the reset that keeps the old file loadable, the lost change of two
  concurrent commands, the overwritten address book, the quotation marks around sized integers, the header name that makes
  the configuration unreadable, the endpoint a new network takes over with its credentials).

  \<^bold>\<open>Bounds and fuel.\<close>  \<open>uint64\<close>, \<open>uint32\<close> and byte values are words, Go's \<open>int\<close> is an integer where it cannot overflow and
  a 64-bit word where it can.  Loops recurse on their data or carry a measure.  The wait loop
  and the receive loop run over the list of the rounds' environments and return \<open>None\<close> when it is used up; the wait loop
  carries its own clock, which every sleep of \<open>floorPoll\<close> and the time a round takes move on, and that it
  returns within a computed number of rounds is a theorem; the receive loop is stated for the rounds it runs, as its
  source may poll for ever.  The JSON reader recurses on a fuel of the length of its text, which every text the writers
  produce stays within (\<open>parse_show\<close>), and so does the signature parser (\<open>signature_read\<close>).  The chunked scan, which does not end for a chunk size that wraps, is a partial function.

  \<^bold>\<open>Parameters.\<close>  The key derivation (scrypt and HKDF), Ed25519, signing, hashing, address decoding and checksums (go-ethereum), the endpoint and its receipts, logs and
  balances, go-ethereum's ABI encoder, the text of Go durations and the keystore enter as arguments; what is assumed of them is a hypothesis of the theorem
  that uses it.

  \<^bold>\<open>Not modelled.\<close>  The engine's operations take the policy the loader returned as an argument; the kernel and the listen take the addresses that the registries resolved;
  the scalar settings with their layering and paths, keystore and ENS; identifiers
  (entropy); flag parsing and rendering apart from the QR code; the MCP server; human-readable messages.
\<close>

end
